(* ===== verification/Prelude.thy ===== *)
theory Prelude
  imports Main "HOL-Library.Word" "HOL-Library.Sublist"
begin

text \<open>
  Shared vocabulary of the development: the machine integer types, the ways a C++ call can leave
  the normal path, the error monads in which the components are written, and the generic lemmas
  about them.
\<close>

section \<open>Machine integers\<close>

unbundle bit_operations_syntax

type_synonym u8 = "8 word"
type_synonym u16 = "16 word"
type_synonym u32 = "32 word"
type_synonym u64 = "64 word"

text \<open>Floating point values are handled as their IEEE 754 bit patterns.\<close>

type_synonym f32 = "32 word"
type_synonym f64 = "64 word"

text \<open>A byte buffer, a string of raw bytes, a Redis field: all are lists of bytes.\<close>

type_synonym bytes = "u8 list"

text \<open>\<open>size_t\<close> addition wraps at 64 bits.\<close>

definition size_add :: "nat \<Rightarrow> nat \<Rightarrow> nat" where
  "size_add a b = (a + b) mod 2 ^ 64"

section \<open>glm values\<close>

text \<open>The vectors and the quaternion of the \<open>glm\<close> library the sources are written with.\<close>

record vec3 =
  vx :: f32
  vy :: f32
  vz :: f32

record vec4 =
  v4x :: f32
  v4y :: f32
  v4z :: f32
  v4w :: f32

record quat =
  qw :: f32
  qx :: f32
  qy :: f32
  qz :: f32

lemma vec3_collapse [simp]: "\<lparr> vx = vx v, vy = vy v, vz = vz v \<rparr> = v"
  by (cases v) simp

lemma quat_collapse [simp]: "\<lparr> qw = qw q, qx = qx q, qy = qy q, qz = qz q \<rparr> = q"
  by (cases q) simp

section \<open>Leaving the normal path\<close>

text \<open>
  The exceptions the sources throw, a failed \<open>ASSERT\<close> (the macro of \<open>pch.hpp\<close> is \<open>assert\<close>), and
  undefined behaviour, which is a value of its own so that a theorem can say it is not reached.
\<close>

datatype ub = Out_Of_Bounds | Shift_Range | Null_Deref | Missing_Return | Indeterminate | Endless_Recursion | Conversion_Range

datatype cpp_exn =
    ByteError string
  | RuntimeError string
  | OutOfRange
  | AssertFail string
  | UB ub

type_synonym 'a res = "cpp_exn + 'a"

text \<open>Sequencing of calls that may leave the normal path.\<close>

definition bindE :: "'e + 'a \<Rightarrow> ('a \<Rightarrow> 'e + 'b) \<Rightarrow> 'e + 'b" where
  "bindE m f = (case m of Inl e \<Rightarrow> Inl e | Inr a \<Rightarrow> f a)"

text \<open>Sequencing of calls that also thread a state.\<close>

type_synonym ('s, 'a) stm = "'s \<Rightarrow> cpp_exn + ('a \<times> 's)"

definition returnS :: "'a \<Rightarrow> ('s, 'a) stm" where
  "returnS a = (\<lambda>s. Inr (a, s))"

definition throwS :: "cpp_exn \<Rightarrow> ('s, 'a) stm" where
  "throwS e = (\<lambda>s. Inl e)"

definition bindS :: "('s, 'a) stm \<Rightarrow> ('a \<Rightarrow> ('s, 'b) stm) \<Rightarrow> ('s, 'b) stm" where
  "bindS m f = (\<lambda>s. case m s of Inl e \<Rightarrow> Inl e | Inr (a, s') \<Rightarrow> f a s')"

lemma bindS_cong [fundef_cong]:
  assumes "m = m'" and "s = s'" and "\<And>a t. m' s' = Inr (a, t) \<Longrightarrow> f a t = f' a t"
  shows "bindS m f s = bindS m' f' s'"
  using assms by (simp add: bindS_def split: sum.split prod.split)

lemma bindS_Inr [simp]: "m s = Inr (a, t) \<Longrightarrow> bindS m f s = f a t"
  by (simp add: bindS_def)

lemma bindS_Inl [simp]: "m s = Inl e \<Longrightarrow> bindS m f s = Inl e"
  by (simp add: bindS_def)

lemma returnS_apply [simp]: "returnS a s = Inr (a, s)"
  by (simp add: returnS_def)

lemma throwS_apply [simp]: "throwS e s = Inl e"
  by (simp add: throwS_def)

lemma bindE_simps [simp]:
  "bindE (Inl e) f = Inl e"
  "bindE (Inr a) g = g a"
  by (simp_all add: bindE_def)

lemma bindS_eq_Inr:
  "bindS m f s = Inr x \<longleftrightarrow> (\<exists>a t. m s = Inr (a, t) \<and> f a t = Inr x)"
  by (auto simp: bindS_def split: sum.splits)

lemma bindS_eq_Inl:
  "bindS m f s = Inl e \<longleftrightarrow> m s = Inl e \<or> (\<exists>a t. m s = Inr (a, t) \<and> f a t = Inl e)"
  by (auto simp: bindS_def split: sum.splits)

text \<open>\<open>n\<close> repetitions of a call, its results in order: a counted \<open>for\<close> loop.\<close>

fun repeatS :: "nat \<Rightarrow> ('s, 'a) stm \<Rightarrow> ('s, 'a list) stm" where
  "repeatS 0 m = returnS []"
| "repeatS (Suc n) m = bindS m (\<lambda>x. bindS (repeatS n m) (\<lambda>xs. returnS (x # xs)))"

text \<open>A loop over a list whose body may leave the normal path.\<close>

fun mapE :: "('a \<Rightarrow> 'e + 'b) \<Rightarrow> 'a list \<Rightarrow> 'e + 'b list" where
  "mapE f [] = Inr []"
| "mapE f (x # xs) = bindE (f x) (\<lambda>y. bindE (mapE f xs) (\<lambda>ys. Inr (y # ys)))"

lemma mapE_Inr: "(\<And>x. x \<in> set xs \<Longrightarrow> f x = Inr (g x)) \<Longrightarrow> mapE f xs = Inr (map g xs)"
  by (induction xs) simp_all

section \<open>Text\<close>

text \<open>The bytes of a string and the string of bytes.\<close>

definition str_bytes :: "string \<Rightarrow> bytes" where
  "str_bytes s = map (\<lambda>c. word_of_nat (of_char c)) s"

definition bytes_str :: "bytes \<Rightarrow> string" where
  "bytes_str bs = map (\<lambda>b. char_of (unat b)) bs"

lemma bytes_str_inverse [simp]: "bytes_str (str_bytes s) = s"
proof -
  have "char_of (unat (word_of_nat (of_char c) :: u8)) = c" for c
  proof -
    have "(of_char c :: nat) < 256" by (rule nat_of_char_less_256)
    then show ?thesis by (simp add: unat_of_nat take_bit_nat_eq_self)
  qed
  then show ?thesis by (simp add: bytes_str_def str_bytes_def comp_def)
qed

lemma str_bytes_inverse [simp]: "str_bytes (bytes_str bs) = bs"
proof -
  have "word_of_nat (of_char (char_of (unat b))) = b" for b :: u8
  proof -
    have "unat b < 256" by (rule order_less_le_trans [OF unsigned_less]) simp
    then show ?thesis by (simp add: of_char_of)
  qed
  then show ?thesis by (simp add: str_bytes_def bytes_str_def comp_def)
qed

lemma bytes_str_inj: "bytes_str a = bytes_str b \<longleftrightarrow> a = b"
  by (metis str_bytes_inverse)

end
