(* ===== verification/Json_Store.thy ===== *)
theory Json_Store
  imports Prelude "HOL-Library.Countable" "HOL-Library.AList"
begin

text \<open>
  The JSON document the heuristic manifest keeps in the database. The server's JSON commands and the
  JSON library are not part of the program: the commands the sources send, with the paths they use,
  are the fields of a record, and the locale \<open>json_store\<close> states what the documentation of the
  commands promises for a document that is an object. Commands and replies are texts; what the laws
  say of them is what parsing them yields.
\<close>

section \<open>Values\<close>

datatype json = JNull | JBool bool | JNum int | JStr bytes | JArr "json list" | JObj "(string \<times> json) list"

fun j_is_object :: "json \<Rightarrow> bool" where
  "j_is_object (JObj kvs) = True"
| "j_is_object _ = False"

fun j_is_array :: "json \<Rightarrow> bool" where
  "j_is_array (JArr xs) = True"
| "j_is_array _ = False"

fun j_size :: "json \<Rightarrow> nat" where
  "j_size JNull = 0"
| "j_size (JArr xs) = length xs"
| "j_size (JObj kvs) = length kvs"
| "j_size _ = 1"

fun j_field :: "string \<Rightarrow> json \<Rightarrow> json option" where
  "j_field k (JObj kvs) = map_of kvs k"
| "j_field k _ = None"

text \<open>\<open>operator[]\<close> of a constant value: the library asserts that the key exists.\<close>

fun j_at :: "json \<Rightarrow> string \<Rightarrow> json res" where
  "j_at (JObj kvs) k = (case map_of kvs k of None \<Rightarrow> Inl (AssertFail ''JSON_ASSERT'') | Some v \<Rightarrow> Inr v)"
| "j_at _ k = Inl (RuntimeError ''type_error'')"

text \<open>\<open>front\<close>, undefined for an empty container.\<close>

fun j_front :: "json \<Rightarrow> json res" where
  "j_front JNull = Inl (RuntimeError ''invalid_iterator'')"
| "j_front (JArr (x # xs)) = Inr x"
| "j_front (JObj (x # xs)) = Inr (snd x)"
| "j_front (JArr []) = Inl (UB Out_Of_Bounds)"
| "j_front (JObj []) = Inl (UB Out_Of_Bounds)"
| "j_front v = Inr v"

text \<open>Conversions of a value.\<close>

fun j_u32 :: "json \<Rightarrow> u32 res" where
  "j_u32 (JNum n) = Inr (word_of_int n)"
| "j_u32 (JBool b) = Inr (if b then 1 else 0)"
| "j_u32 _ = Inl (RuntimeError ''type_error'')"

fun j_str :: "json \<Rightarrow> bytes res" where
  "j_str (JStr s) = Inr s"
| "j_str _ = Inl (RuntimeError ''type_error'')"

text \<open>Characters that need no escape, and a string in quotes.\<close>

definition plain :: "bytes \<Rightarrow> bool" where
  "plain s \<longleftrightarrow> list_all (\<lambda>b. 32 \<le> b \<and> b < 127 \<and> b \<noteq> 34 \<and> b \<noteq> 92) s"

definition quoted :: "bytes \<Rightarrow> bytes" where
  "quoted s = 34 # s @ [34]"

section \<open>Commands\<close>

record 'db json_ops =
  js_parse :: "bytes \<Rightarrow> json option"
  js_dump :: "json \<Rightarrow> bytes"
  js_set_root_nx :: "'db \<Rightarrow> 'db res"
  js_set :: "string \<Rightarrow> bytes \<Rightarrow> bool \<Rightarrow> 'db \<Rightarrow> 'db res"
  js_set_elem :: "string \<Rightarrow> nat \<Rightarrow> string \<Rightarrow> bytes \<Rightarrow> 'db \<Rightarrow> 'db res"
  js_get_root :: "'db \<Rightarrow> bytes option res"
  js_get :: "string \<Rightarrow> 'db \<Rightarrow> bytes option res"
  js_get_elem :: "string \<Rightarrow> nat \<Rightarrow> 'db \<Rightarrow> bytes option res"
  js_filter :: "string \<Rightarrow> string \<Rightarrow> json \<Rightarrow> 'db \<Rightarrow> bytes option res"
  js_arrappend :: "string \<Rightarrow> bytes \<Rightarrow> 'db \<Rightarrow> 'db res"
  js_arrlen :: "string \<Rightarrow> 'db \<Rightarrow> nat option res"
  js_arrpop :: "string \<Rightarrow> nat \<Rightarrow> 'db \<Rightarrow> 'db res"
  js_type :: "string \<Rightarrow> 'db \<Rightarrow> string option res"

definition matches :: "string \<Rightarrow> json \<Rightarrow> json list \<Rightarrow> json list" where
  "matches k v xs = filter (\<lambda>x. j_field k x = Some v) xs"

locale json_store =
  fixes J :: "'db json_ops" and doc :: "'db \<Rightarrow> (string \<Rightarrow> json option) option"
  assumes set_root: "\<exists>db'. js_set_root_nx J db = Inr db' \<and>
      doc db' = Some (case doc db of None \<Rightarrow> \<lambda>_. None | Some m \<Rightarrow> m)"
    and set_field: "doc db = Some m \<Longrightarrow> js_parse J t = Some v \<Longrightarrow>
      \<exists>db'. js_set J f t nx db = Inr db' \<and> doc db' = Some (if nx \<and> m f \<noteq> None then m else m(f \<mapsto> v))"
    and get_root: "doc db = Some m \<Longrightarrow> \<exists>t kvs. js_get_root J db = Inr (Some t) \<and> t \<noteq> [] \<and>
      t \<noteq> str_bytes ''null'' \<and> js_parse J t = Some (JObj kvs) \<and> map_of kvs = m"
    and get_field: "doc db = Some m \<Longrightarrow> m f = Some v \<Longrightarrow>
      \<exists>t. js_get J f db = Inr (Some t) \<and> js_parse J t = Some v \<and>
        (\<forall>s. v = JStr s \<and> plain s \<longrightarrow> t = quoted s)"
    and get_no_doc: "doc db = None \<Longrightarrow> js_get_root J db = Inr None \<and> js_get J f db = Inr None \<and>
      js_filter J f k v db = Inr None"
    and filter_field: "doc db = Some m \<Longrightarrow>
      xs = (case m f of Some (JArr ys) \<Rightarrow> matches k v ys | _ \<Rightarrow> []) \<Longrightarrow>
      \<exists>t. js_filter J f k v db = Inr (Some t) \<and> js_parse J t = Some (JArr xs) \<and> (length t \<le> 2 \<longleftrightarrow> xs = [])"
    and get_elem: "doc db = Some m \<Longrightarrow> m f = Some (JArr xs) \<Longrightarrow> i < length xs \<Longrightarrow>
      \<exists>t. js_get_elem J f i db = Inr (Some t) \<and> js_parse J t = Some (xs ! i)"
    and arrappend: "doc db = Some m \<Longrightarrow> m f = Some (JArr xs) \<Longrightarrow> js_parse J t = Some v \<Longrightarrow>
      \<exists>db'. js_arrappend J f t db = Inr db' \<and> doc db' = Some (m(f \<mapsto> JArr (xs @ [v])))"
    and arrlen: "doc db = Some m \<Longrightarrow> m f = Some (JArr xs) \<Longrightarrow> js_arrlen J f db = Inr (Some (length xs))"
    and arrpop: "doc db = Some m \<Longrightarrow> m f = Some (JArr xs) \<Longrightarrow> i < length xs \<Longrightarrow>
      \<exists>db'. js_arrpop J f i db = Inr db' \<and> doc db' = Some (m(f \<mapsto> JArr (take i xs @ drop (Suc i) xs)))"
    and set_elem: "doc db = Some m \<Longrightarrow> m f = Some (JArr xs) \<Longrightarrow> i < length xs \<Longrightarrow>
      xs ! i = JObj kvs \<Longrightarrow> js_parse J t = Some v \<Longrightarrow>
      \<exists>db' kvs'. js_set_elem J f i k t db = Inr db' \<and> map_of kvs' = (map_of kvs)(k \<mapsto> v) \<and>
        doc db' = Some (m(f \<mapsto> JArr (xs[i := JObj kvs'])))"
    and type_of: "doc db = Some m \<Longrightarrow> \<exists>ty. js_type J f db = Inr ty"
    and parse_dump: "js_parse J (js_dump J v) = Some v"
    and parse_quoted: "plain s \<Longrightarrow> js_parse J (quoted s) = Some (JStr s)"
    and parse_empty: "js_parse J (str_bytes ''[]'') = Some (JArr [])"
begin

text \<open>Creating an array that may exist leaves its elements.\<close>

lemma ensure_array:
  assumes "doc db = Some m"
  shows "\<exists>db'. js_set J f (str_bytes ''[]'') True db = Inr db' \<and>
    doc db' = Some (if m f = None then m(f \<mapsto> JArr []) else m)"
  using set_field [OF assms parse_empty, of f True] by auto

end

section \<open>An in-memory document\<close>

instance json :: countable
  by countable_datatype

text \<open>Texts of the instance: strings and the empty array as the laws want them, every other value by
  its number in unary.\<close>

definition mem_dump :: "json \<Rightarrow> bytes" where
  "mem_dump v =
    (case v of
       JStr s \<Rightarrow> if plain s then quoted s else 0 # 0 # 0 # replicate (to_nat v) 0
     | JArr [] \<Rightarrow> str_bytes ''[]''
     | _ \<Rightarrow> 0 # 0 # 0 # replicate (to_nat v) 0)"

definition mem_parse :: "bytes \<Rightarrow> json option" where
  "mem_parse t =
    (if t \<noteq> [] \<and> hd t = 34 then Some (JStr (butlast (tl t)))
     else if t = str_bytes ''[]'' then Some (JArr [])
     else Some (from_nat (length t - 3)))"

lemma mem_parse_dump: "mem_parse (mem_dump v) = Some v"
  by (simp add: mem_parse_def mem_dump_def quoted_def str_bytes_def split: json.split list.split)

lemma mem_dump_short: "length (mem_dump v) \<le> 2 \<Longrightarrow> v = JArr [] \<or> (\<exists>s. v = JStr s)"
  by (auto simp: mem_dump_def split: json.splits list.splits if_splits)

lemma mem_dump_plain: "plain s \<Longrightarrow> mem_dump (JStr s) = quoted s"
  by (simp add: mem_dump_def)

type_synonym mem_doc = "(string \<times> json) list option"

definition mem_array :: "string \<Rightarrow> mem_doc \<Rightarrow> json list res" where
  "mem_array f db =
    (case db of None \<Rightarrow> Inl (RuntimeError ''ReplyError'')
     | Some kvs \<Rightarrow> (case map_of kvs f of Some (JArr xs) \<Rightarrow> Inr xs | _ \<Rightarrow> Inl (RuntimeError ''ReplyError'')))"

definition mem_put :: "string \<Rightarrow> json \<Rightarrow> mem_doc \<Rightarrow> mem_doc res" where
  "mem_put f v db =
    (case db of None \<Rightarrow> Inl (RuntimeError ''ReplyError'') | Some kvs \<Rightarrow> Inr (Some ((f, v) # kvs)))"

definition mem_text :: "bytes \<Rightarrow> json res" where
  "mem_text t = (case mem_parse t of None \<Rightarrow> Inl (RuntimeError ''ReplyError'') | Some v \<Rightarrow> Inr v)"

definition mem_json :: "mem_doc json_ops" where
  "mem_json = \<lparr>
    js_parse = mem_parse,
    js_dump = mem_dump,
    js_set_root_nx = (\<lambda>db. Inr (case db of None \<Rightarrow> Some [] | Some kvs \<Rightarrow> Some kvs)),
    js_set = (\<lambda>f t nx db. bindE (mem_text t) (\<lambda>v.
      if nx \<and> db \<noteq> None \<and> map_of (the db) f \<noteq> None then Inr db else mem_put f v db)),
    js_set_elem = (\<lambda>f i k t db. bindE (mem_text t) (\<lambda>v. bindE (mem_array f db) (\<lambda>xs.
      case xs ! i of JObj kvs \<Rightarrow> mem_put f (JArr (xs[i := JObj (AList.update k v kvs)])) db
      | _ \<Rightarrow> Inl (RuntimeError ''ReplyError'')))),
    js_get_root = (\<lambda>db. Inr (map_option (\<lambda>kvs. mem_dump (JObj kvs)) db)),
    js_get = (\<lambda>f db. case db of None \<Rightarrow> Inr None | Some kvs \<Rightarrow>
      (case map_of kvs f of None \<Rightarrow> Inl (RuntimeError ''ReplyError'') | Some v \<Rightarrow> Inr (Some (mem_dump v)))),
    js_get_elem = (\<lambda>f i db. bindE (mem_array f db) (\<lambda>xs. Inr (Some (mem_dump (xs ! i))))),
    js_filter = (\<lambda>f k v db. case db of None \<Rightarrow> Inr None | Some kvs \<Rightarrow>
      Inr (Some (mem_dump (JArr (case map_of kvs f of Some (JArr ys) \<Rightarrow> matches k v ys | _ \<Rightarrow> []))))),
    js_arrappend = (\<lambda>f t db. bindE (mem_text t) (\<lambda>v. bindE (mem_array f db) (\<lambda>xs. mem_put f (JArr (xs @ [v])) db))),
    js_arrlen = (\<lambda>f db. bindE (mem_array f db) (\<lambda>xs. Inr (Some (length xs)))),
    js_arrpop = (\<lambda>f i db. bindE (mem_array f db) (\<lambda>xs. mem_put f (JArr (take i xs @ drop (Suc i) xs)) db)),
    js_type = (\<lambda>f db. Inr (case db of None \<Rightarrow> None | Some kvs \<Rightarrow> map_option (\<lambda>_. ''value'') (map_of kvs f))) \<rparr>"

definition mem_doc_of :: "mem_doc \<Rightarrow> (string \<Rightarrow> json option) option" where
  "mem_doc_of db = map_option map_of db"

lemma mem_array_doc: "mem_doc_of db = Some m \<Longrightarrow> m f = Some (JArr xs) \<Longrightarrow> mem_array f db = Inr xs"
  by (auto simp: mem_doc_of_def mem_array_def)

lemma mem_put_doc:
  "mem_doc_of db = Some m \<Longrightarrow> \<exists>db'. mem_put f v db = Inr db' \<and> mem_doc_of db' = Some (m(f \<mapsto> v))"
  by (auto simp: mem_doc_of_def mem_put_def)

lemma mem_text_parse: "mem_parse t = Some v \<Longrightarrow> mem_text t = Inr v"
  by (simp add: mem_text_def)

lemma mem_text_doc: "mem_doc_of db = Some m \<Longrightarrow> \<exists>kvs. db = Some kvs \<and> m = map_of kvs"
  by (auto simp: mem_doc_of_def)

interpretation memjson: json_store mem_json mem_doc_of
proof
  fix db :: mem_doc and m f t v nx
  assume "mem_doc_of db = Some m" and "js_parse mem_json t = Some v"
  then show "\<exists>db'. js_set mem_json f t nx db = Inr db' \<and>
      mem_doc_of db' = Some (if nx \<and> m f \<noteq> None then m else m(f \<mapsto> v))"
    using mem_put_doc [of db m f v] by (auto simp: mem_json_def mem_text_parse dest!: mem_text_doc)
next
  fix db :: mem_doc and m f v
  assume "mem_doc_of db = Some m" and "m f = Some v"
  then show "\<exists>t. js_get mem_json f db = Inr (Some t) \<and> js_parse mem_json t = Some v \<and>
      (\<forall>s. v = JStr s \<and> plain s \<longrightarrow> t = quoted s)"
    by (auto simp: mem_json_def mem_parse_dump mem_dump_plain dest!: mem_text_doc)
next
  fix db :: mem_doc and m f k v xs
  assume "mem_doc_of db = Some m" and "xs = (case m f of Some (JArr ys) \<Rightarrow> matches k v ys | _ \<Rightarrow> [])"
  then show "\<exists>t. js_filter mem_json f k v db = Inr (Some t) \<and> js_parse mem_json t = Some (JArr xs) \<and>
      (length t \<le> 2 \<longleftrightarrow> xs = [])"
    using mem_dump_short [of "JArr xs"]
    by (auto simp: mem_json_def mem_parse_dump dest!: mem_text_doc) (simp add: mem_dump_def str_bytes_def)
next
  fix db :: mem_doc and m f xs i kvs t v k
  assume d: "mem_doc_of db = Some m" "m f = Some (JArr xs)" "xs ! i = JObj kvs"
    and t: "js_parse mem_json t = Some v"
  have "mem_text t = Inr v" using t by (simp add: mem_json_def mem_text_parse)
  then show "\<exists>db' kvs'. js_set_elem mem_json f i k t db = Inr db' \<and> map_of kvs' = (map_of kvs)(k \<mapsto> v) \<and>
      mem_doc_of db' = Some (m(f \<mapsto> JArr (xs[i := JObj kvs'])))"
    using mem_array_doc [OF d(1,2)] mem_put_doc [OF d(1), of f "JArr (xs[i := JObj (AList.update k v kvs)])"]
    by (auto simp: mem_json_def d(3) intro!: exI [of _ "AList.update k v kvs"] update_conv')
next
  fix db :: mem_doc and m
  assume "mem_doc_of db = Some m"
  moreover have "mem_dump (JObj kvs) \<noteq> [] \<and> mem_dump (JObj kvs) \<noteq> str_bytes ''null''" for kvs
    by (simp add: mem_dump_def str_bytes_def)
  ultimately show "\<exists>t kvs. js_get_root mem_json db = Inr (Some t) \<and> t \<noteq> [] \<and> t \<noteq> str_bytes ''null'' \<and>
      js_parse mem_json t = Some (JObj kvs) \<and> map_of kvs = m"
    by (auto simp: mem_json_def mem_parse_dump dest!: mem_text_doc)
next
  fix db :: mem_doc and m f xs t v
  assume d: "mem_doc_of db = Some m" "m f = Some (JArr xs)" and "js_parse mem_json t = Some v"
  then have "mem_text t = Inr v" by (simp add: mem_json_def mem_text_parse)
  then show "\<exists>db'. js_arrappend mem_json f t db = Inr db' \<and> mem_doc_of db' = Some (m(f \<mapsto> JArr (xs @ [v])))"
    using mem_array_doc [OF d] mem_put_doc [OF d(1)] by (simp add: mem_json_def)
next
  fix db :: mem_doc and m f xs and i :: nat
  assume d: "mem_doc_of db = Some m" "m f = Some (JArr xs)"
  show "\<exists>t. js_get_elem mem_json f i db = Inr (Some t) \<and> js_parse mem_json t = Some (xs ! i)"
    using mem_array_doc [OF d] by (simp add: mem_json_def mem_parse_dump)
  show "js_arrlen mem_json f db = Inr (Some (length xs))"
    using mem_array_doc [OF d] by (simp add: mem_json_def)
  show "\<exists>db'. js_arrpop mem_json f i db = Inr db' \<and>
      mem_doc_of db' = Some (m(f \<mapsto> JArr (take i xs @ drop (Suc i) xs)))"
    using mem_array_doc [OF d] mem_put_doc [OF d(1)] by (simp add: mem_json_def)
next
  fix db :: mem_doc
  show "\<exists>db'. js_set_root_nx mem_json db = Inr db' \<and>
      mem_doc_of db' = Some (case mem_doc_of db of None \<Rightarrow> \<lambda>_. None | Some m \<Rightarrow> m)"
    by (cases db) (simp_all add: mem_json_def mem_doc_of_def fun_eq_iff)
next
  fix v s
  show "js_parse mem_json (js_dump mem_json v) = Some v" by (simp add: mem_json_def mem_parse_dump)
  show "js_parse mem_json (str_bytes ''[]'') = Some (JArr [])"
    by (simp add: mem_json_def mem_parse_def str_bytes_def)
  show "js_parse mem_json (quoted s) = Some (JStr s)"
    by (simp add: mem_json_def mem_parse_def quoted_def)
qed (simp_all add: mem_json_def mem_doc_of_def)

end
