(* ===== verification/Text_Numbers.thy ===== *)
theory Text_Numbers
  imports Prelude
begin

text \<open>
  Text as the standard library handles it: decimal numbers, \<open>std::stoull\<close> and \<open>std::from_chars\<close>,
  \<open>std::string::find\<close>, the loop of \<open>std::getline\<close> over a stream, and the splitting of a row into its
  columns, with what printing and reading give back.
\<close>

section \<open>Decimal numbers\<close>

fun dec_of :: "nat \<Rightarrow> bytes" where
  "dec_of n = (if n < 10 then [48 + of_nat n] else dec_of (n div 10) @ [48 + of_nat (n mod 10)])"

declare dec_of.simps [simp del]

definition dec_of_int :: "int \<Rightarrow> bytes" where
  "dec_of_int i = (if i < 0 then 45 # dec_of (nat (- i)) else dec_of (nat i))"

definition is_digit :: "u8 \<Rightarrow> bool" where
  "is_digit b \<longleftrightarrow> 48 \<le> b \<and> b \<le> 57"

definition digits_val :: "bytes \<Rightarrow> nat" where
  "digits_val ds = foldl (\<lambda>v d. 10 * v + unat (d - 48)) 0 ds"

definition is_space_byte :: "u8 \<Rightarrow> bool" where
  "is_space_byte b \<longleftrightarrow> b = 32 \<or> (9 \<le> b \<and> b \<le> 13)"

text \<open>\<open>std::stoull\<close> in base ten: leading space, a sign, digits; what follows them is ignored.\<close>

definition stoull :: "bytes \<Rightarrow> u64 res" where
  "stoull s =
    (let s = dropWhile is_space_byte s;
         neg = (s \<noteq> [] \<and> hd s = 45);
         s = (if s \<noteq> [] \<and> (hd s = 45 \<or> hd s = 43) then tl s else s);
         ds = takeWhile is_digit s
     in if ds = [] then Inl (RuntimeError ''invalid_argument'')
        else if 2 ^ 64 \<le> digits_val ds then Inl OutOfRange
        else Inr (if neg then - of_nat (digits_val ds) else of_nat (digits_val ds)))"

text \<open>\<open>std::stoi\<close>: the value must fit an \<open>int\<close>.\<close>

definition stoi :: "bytes \<Rightarrow> int res" where
  "stoi s =
    (let s = dropWhile is_space_byte s;
         neg = (s \<noteq> [] \<and> hd s = 45);
         s = (if s \<noteq> [] \<and> (hd s = 45 \<or> hd s = 43) then tl s else s);
         ds = takeWhile is_digit s;
         v = (if neg then - int (digits_val ds) else int (digits_val ds))
     in if ds = [] then Inl (RuntimeError ''invalid_argument'')
        else if v < - (2 ^ 31) \<or> 2 ^ 31 \<le> v then Inl OutOfRange else Inr v)"

text \<open>\<open>std::from_chars\<close> into a signed 64-bit value that starts at zero and keeps it on failure.\<close>

definition from_chars_i64 :: "bytes \<Rightarrow> int" where
  "from_chars_i64 s =
    (let neg = (s \<noteq> [] \<and> hd s = 45);
         ds = takeWhile is_digit (if neg then tl s else s);
         v = (if neg then - int (digits_val ds) else int (digits_val ds))
     in if ds = [] \<or> v < - (2 ^ 63) \<or> 2 ^ 63 \<le> v then 0 else v)"

lemma unat_digit: "n < 10 \<Longrightarrow> unat (of_nat n :: u8) = n"
  by (simp add: unat_of_nat take_bit_nat_eq_self)

lemma is_digit_of: "n < 10 \<Longrightarrow> is_digit (48 + of_nat n)"
proof -
  assume "n < 10"
  then have "n = 0 \<or> n = 1 \<or> n = 2 \<or> n = 3 \<or> n = 4 \<or> n = 5 \<or> n = 6 \<or> n = 7 \<or> n = 8 \<or> n = 9"
    by arith
  then show ?thesis by (auto simp: is_digit_def)
qed

lemma dec_of_digits: "list_all is_digit (dec_of n)"
  by (induction n rule: dec_of.induct) (subst dec_of.simps, simp add: is_digit_of)

lemma dec_of_nonempty [simp]: "dec_of n \<noteq> []"
  by (subst dec_of.simps) simp

lemma digits_val_dec [simp]: "digits_val (dec_of n) = n"
proof (induction n rule: dec_of.induct)
  case (1 n)
  show ?case
  proof (cases "n < 10")
    case True
    then show ?thesis by (subst dec_of.simps) (simp add: digits_val_def unat_digit)
  next
    case False
    have d: "dec_of n = dec_of (n div 10) @ [48 + of_nat (n mod 10)]"
      using False by (subst dec_of.simps) simp
    have "digits_val (dec_of n) = 10 * digits_val (dec_of (n div 10)) + n mod 10"
      unfolding d digits_val_def foldl_append by (simp add: unat_digit)
    then show ?thesis using 1 [OF False] by simp
  qed
qed

lemma digit_not: "is_digit b \<Longrightarrow> \<not> is_space_byte b \<and> b \<noteq> 45 \<and> b \<noteq> 43 \<and> b \<noteq> 9 \<and> b \<noteq> 10"
  unfolding is_digit_def is_space_byte_def by (auto simp: word_le_nat_alt)

lemma dec_of_length: "0 < k \<Longrightarrow> n < 10 ^ k \<Longrightarrow> length (dec_of n) \<le> k"
proof (induction n arbitrary: k rule: dec_of.induct)
  case (1 n)
  show ?case
  proof (cases "n < 10")
    case True
    then show ?thesis using 1(2) by (subst dec_of.simps) simp
  next
    case False
    have "k \<noteq> 1" using False 1(3) by auto
    then obtain j where j: "k = Suc j" "0 < j" using 1(2) by (cases k) auto
    have "n div 10 < 10 ^ j" using 1(3) j by (simp add: less_mult_imp_div_less)
    then have "length (dec_of (n div 10)) \<le> j" using 1(1) False j(2) by blast
    then show ?thesis using False j(1) by (subst dec_of.simps) simp
  qed
qed

lemma dec_of_no: "is_digit c = False \<Longrightarrow> c \<notin> set (dec_of n)"
  using dec_of_digits [of n] by (auto simp: list_all_iff)

lemma stoull_dec:
  assumes "n < 2 ^ 64"
  shows "stoull (dec_of n) = Inr (of_nat n)"
proof -
  have all: "\<forall>b\<in>set (dec_of n). is_digit b" using dec_of_digits [of n] by (simp add: list_all_iff)
  then have hd: "is_digit (hd (dec_of n))" by simp
  have "dropWhile is_space_byte (dec_of n) = dec_of n"
    using hd digit_not by (cases "dec_of n") auto
  moreover have "takeWhile is_digit (dec_of n) = dec_of n"
    using all by (simp only: takeWhile_eq_all_conv)
  ultimately show ?thesis
    using assms digit_not [OF hd] unfolding stoull_def by (simp del: takeWhile_eq_all_conv)
qed

section \<open>Splitting\<close>

text \<open>\<open>std::string::find\<close> of a character from a position on.\<close>

function find_from :: "u8 \<Rightarrow> bytes \<Rightarrow> nat \<Rightarrow> nat option" where
  "find_from c s i =
    (if i < length s then if s ! i = c then Some i else find_from c s (Suc i) else None)"
  by pat_completeness auto
termination by (relation "measure (\<lambda>(c, s, i). length s - i)") auto

declare find_from.simps [simp del]

lemma find_from_Some: "find_from c s i = Some j \<Longrightarrow> i \<le> j \<and> j < length s"
  by (induction c s i rule: find_from.induct) (subst (asm) (2) find_from.simps, auto split: if_splits)

text \<open>The same as the prefix before the character and what is left.\<close>

lemma find_from_takeWhile:
  "i \<le> length s \<Longrightarrow> find_from c s i =
    (if c \<in> set (drop i s) then Some (i + length (takeWhile (\<lambda>b. b \<noteq> c) (drop i s))) else None)"
proof (induction c s i rule: find_from.induct)
  case (1 c s i)
  show ?case
  proof (cases "i < length s")
    case True
    have d: "drop i s = s ! i # drop (Suc i) s" using True by (simp add: Cons_nth_drop_Suc)
    show ?thesis
      using 1 True by (subst find_from.simps) (auto simp: d)
  next
    case False
    then show ?thesis by (subst find_from.simps) simp
  qed
qed

text \<open>The reference: the pieces between the occurrences of a character.\<close>

fun split_on :: "u8 \<Rightarrow> bytes \<Rightarrow> bytes list" where
  "split_on c [] = [[]]"
| "split_on c (x # xs) =
    (if x = c then [] # split_on c xs
     else (x # hd (split_on c xs)) # tl (split_on c xs))"

lemma split_on_nonempty [simp]: "split_on c s \<noteq> []"
  by (cases s) auto

lemma split_on_none: "c \<notin> set s \<Longrightarrow> split_on c s = [s]"
  by (induction s) auto

lemma split_on_append [simp]: "c \<notin> set p \<Longrightarrow> split_on c (p @ c # r) = p # split_on c r"
  by (induction p) auto

lemma split_on_takeWhile:
  "c \<in> set s \<Longrightarrow> split_on c s =
    takeWhile (\<lambda>b. b \<noteq> c) s # split_on c (drop (Suc (length (takeWhile (\<lambda>b. b \<noteq> c) s))) s)"
  by (induction s) auto

fun join_on :: "u8 \<Rightarrow> bytes list \<Rightarrow> bytes" where
  "join_on c [] = []"
| "join_on c [p] = p"
| "join_on c (p # q # ps) = p @ c # join_on c (q # ps)"

lemma split_join: "ps \<noteq> [] \<Longrightarrow> \<forall>p\<in>set ps. c \<notin> set p \<Longrightarrow> split_on c (join_on c ps) = ps"
  by (induction c ps rule: join_on.induct) (auto simp: split_on_none)

section \<open>Reading lines\<close>

text \<open>The pieces that repeated calls of \<open>std::getline\<close> read from a stream until one fails.\<close>

function getlines :: "u8 \<Rightarrow> bytes \<Rightarrow> bytes list" where
  "getlines c s =
    (if s = [] then []
     else takeWhile (\<lambda>b. b \<noteq> c) s # getlines c (drop (Suc (length (takeWhile (\<lambda>b. b \<noteq> c) s))) s))"
  by pat_completeness auto
termination by (relation "measure (\<lambda>(c, s). length s)") auto

declare getlines.simps [simp del]

lemma getlines_Nil [simp]: "getlines c [] = []"
  by (subst getlines.simps) simp

lemma getlines_append [simp]: "c \<notin> set p \<Longrightarrow> getlines c (p @ c # r) = p # getlines c r"
  by (subst getlines.simps) (simp add: takeWhile_append)

lemma getlines_last: "c \<notin> set p \<Longrightarrow> p \<noteq> [] \<Longrightarrow> getlines c p = [p]"
proof -
  assume "c \<notin> set p" "p \<noteq> []"
  then have "takeWhile (\<lambda>b. b \<noteq> c) p = p" by (auto simp only: takeWhile_eq_all_conv)
  with \<open>p \<noteq> []\<close> show ?thesis by (subst getlines.simps) (simp del: takeWhile_eq_all_conv)
qed

lemma getlines_join:
  "ps \<noteq> [] \<Longrightarrow> \<forall>p\<in>set ps. c \<notin> set p \<Longrightarrow> last ps \<noteq> [] \<Longrightarrow> getlines c (join_on c ps) = ps"
  by (induction c ps rule: join_on.induct) (auto simp: getlines_last)

lemma getlines_concat:
  "\<forall>p\<in>set ps. c \<notin> set p \<Longrightarrow> getlines c (concat (map (\<lambda>p. p @ [c]) ps)) = ps"
  by (induction ps) auto

end
