(* ===== verification/Io_Actions.thy ===== *)
theory Io_Actions
  imports Prelude
begin

text \<open>
  Code that changes a state and may throw: a call returns its result or the exception together with the state, so
  that the handlers of the sources see what was done before the exception.
\<close>

section \<open>Calls that change the outside world\<close>

type_synonym ('s, 'a) io = "'s \<Rightarrow> 'a res \<times> 's"

definition returnIO :: "'a \<Rightarrow> ('s, 'a) io" where
  "returnIO a = (\<lambda>s. (Inr a, s))"

definition liftIO :: "'a res \<Rightarrow> ('s, 'a) io" where
  "liftIO r = (\<lambda>s. (r, s))"

definition bindIO :: "('s, 'a) io \<Rightarrow> ('a \<Rightarrow> ('s, 'b) io) \<Rightarrow> ('s, 'b) io" where
  "bindIO m f = (\<lambda>s. case m s of (Inl e, s) \<Rightarrow> (Inl e, s) | (Inr a, s) \<Rightarrow> f a s)"

text \<open>Exceptions a handler catches; a failed assertion ends the process and undefined behaviour stays
  undefined.\<close>

fun catchable :: "cpp_exn \<Rightarrow> bool" where
  "catchable (AssertFail _) = False"
| "catchable (UB _) = False"
| "catchable _ = True"

definition catchIO :: "('s, 'a) io \<Rightarrow> ('s, 'a) io \<Rightarrow> ('s, 'a) io" where
  "catchIO m h = (\<lambda>s. case m s of (Inl e, s) \<Rightarrow> if catchable e then h s else (Inl e, s) | r \<Rightarrow> r)"

lemma io_simps [simp]:
  "returnIO a s = (Inr a, s)" "liftIO r s = (r, s)"
  "m s = (Inr b, t) \<Longrightarrow> bindIO m f s = f b t" "m s = (Inl e, t) \<Longrightarrow> bindIO m f s = (Inl e, t)"
  by (simp_all add: returnIO_def liftIO_def bindIO_def)

text \<open>The simplifier does not find a truth value as the result by itself.\<close>

lemma bindIO_truth [simp]:
  "m s = (Inr True, t) \<Longrightarrow> bindIO m f s = f True t" "m s = (Inr False, t) \<Longrightarrow> bindIO m f s = f False t"
  by simp_all

section \<open>Sequences, conditions and loops\<close>

definition getIO :: "('s \<Rightarrow> 'a) \<Rightarrow> ('s, 'a) io" where
  "getIO f = (\<lambda>s. (Inr (f s), s))"

definition modifyIO :: "('s \<Rightarrow> 's) \<Rightarrow> ('s, unit) io" where
  "modifyIO f = (\<lambda>s. (Inr (), f s))"

definition throwIO :: "string \<Rightarrow> ('s, 'a) io" where
  "throwIO e = liftIO (Inl (RuntimeError e))"

definition thenIO :: "('s, unit) io \<Rightarrow> ('s, 'a) io \<Rightarrow> ('s, 'a) io" where
  "thenIO m k = bindIO m (\<lambda>_. k)"

definition whenIO :: "bool \<Rightarrow> ('s, unit) io \<Rightarrow> ('s, unit) io" where
  "whenIO b m = (if b then m else returnIO ())"

text \<open>A call on a part of the state.\<close>

definition zoomIO :: "('s \<Rightarrow> 'd) \<Rightarrow> ('d \<Rightarrow> 's \<Rightarrow> 's) \<Rightarrow> ('d, 'a) io \<Rightarrow> ('s, 'a) io" where
  "zoomIO get put m = (\<lambda>s. case m (get s) of (r, d) \<Rightarrow> (r, put d s))"

fun forIO :: "('a \<Rightarrow> ('s, unit) io) \<Rightarrow> 'a list \<Rightarrow> ('s, unit) io" where
  "forIO f [] = returnIO ()"
| "forIO f (x # xs) = thenIO (f x) (forIO f xs)"

lemma io_steps [simp]:
  "getIO f s = (Inr (f s), s)" "modifyIO g s = (Inr (), g s)" "throwIO e s = (Inl (RuntimeError e), s)"
  "m s = (Inr (), t) \<Longrightarrow> thenIO m k s = k t"
  "whenIO True n = n" "whenIO False n = returnIO ()"
  by (simp_all add: getIO_def modifyIO_def throwIO_def thenIO_def whenIO_def)

lemma bindIO_returns:
  assumes "bindIO m f s = (Inr b, s')"
  obtains a t where "m s = (Inr a, t)" and "f a t = (Inr b, s')"
  using assms by (auto simp: bindIO_def split: prod.splits sum.splits)

lemma thenIO_returns:
  assumes "thenIO m k s = (Inr b, s')"
  obtains t where "m s = (Inr (), t)" and "k t = (Inr b, s')"
  using assms unfolding thenIO_def by (elim bindIO_returns) auto

end
