(* ===== verification/Docker_Client.thy ===== *)
theory Docker_Client
  imports Json_Store Text_Numbers Io_Actions
begin

text \<open>
  The client of the Docker API (\<open>Docker/DockerIO.cpp\<close>): the requests, what is read from the JSON
  replies about the container, the published ports and the node of a service. The HTTP transport
  (\<open>curl\<close>), the JSON parser and printer, the host name file and the list of the network interfaces
  are parameters. Log lines are left out.
\<close>

section \<open>Reading JSON values\<close>

text \<open>\<open>operator[]\<close> of a value that is not constant: a missing key or element is inserted as null, and
  null turns into an object or an array. What is read:\<close>

fun j_key :: "json \<Rightarrow> string \<Rightarrow> json res" where
  "j_key (JObj kvs) k = Inr (case map_of kvs k of None \<Rightarrow> JNull | Some v \<Rightarrow> v)"
| "j_key JNull k = Inr JNull"
| "j_key _ k = Inl (RuntimeError ''type_error'')"

fun j_elem :: "json \<Rightarrow> nat \<Rightarrow> json res" where
  "j_elem (JArr xs) i = Inr (if i < length xs then xs ! i else JNull)"
| "j_elem JNull i = Inr JNull"
| "j_elem _ i = Inl (RuntimeError ''type_error'')"

text \<open>The assignment \<open>j[k] = v\<close>; a new key is inserted.\<close>

fun j_put :: "json \<Rightarrow> string \<Rightarrow> json \<Rightarrow> json res" where
  "j_put (JObj kvs) k v = Inr (JObj (AList.update k v kvs))"
| "j_put JNull k v = Inr (JObj [(k, v)])"
| "j_put _ k v = Inl (RuntimeError ''type_error'')"

text \<open>\<open>operator[]\<close> of a constant array does not check the index.\<close>

fun j_at_elem :: "json \<Rightarrow> nat \<Rightarrow> json res" where
  "j_at_elem (JArr xs) i = (if i < length xs then Inr (xs ! i) else Inl (UB Out_Of_Bounds))"
| "j_at_elem _ i = Inl (RuntimeError ''type_error'')"

definition j_contains :: "json \<Rightarrow> string \<Rightarrow> bool" where
  "j_contains j k \<longleftrightarrow> j_field k j \<noteq> None"

definition j_empty :: "json \<Rightarrow> bool" where
  "j_empty j = (j_size j = 0)"

text \<open>\<open>items\<close>: an array counts as an object with its indices for keys, another value as one item
  with the empty key.\<close>

fun j_items :: "json \<Rightarrow> (string \<times> json) list" where
  "j_items JNull = []"
| "j_items (JObj kvs) = kvs"
| "j_items (JArr xs) = map (\<lambda>(i, x). (bytes_str (dec_of i), x)) (enumerate 0 xs)"
| "j_items v = [('''', v)]"

text \<open>The values a \<open>for\<close> loop over a JSON value visits.\<close>

fun j_elems :: "json \<Rightarrow> json list" where
  "j_elems JNull = []"
| "j_elems (JArr xs) = xs"
| "j_elems (JObj kvs) = map snd kvs"
| "j_elems v = [v]"

section \<open>The client\<close>

record http_request =
  hr_method :: string
  hr_url :: bytes
  hr_socket :: "bytes option"
  hr_headers :: "bytes list"
  hr_body :: "bytes option"

text \<open>An interface: its name, and for an address its family (2 is \<open>AF_INET\<close>) with what
  \<open>inet_ntop\<close> prints.\<close>

record net_interface =
  ni_name :: "bytes option"
  ni_addr :: "(nat \<times> bytes option) option"

record 'w docker_env =
  dk_socket :: bytes
  dk_curl_init :: "'w \<Rightarrow> bool \<times> 'w"
  dk_perform :: "http_request \<Rightarrow> 'w \<Rightarrow> (string + bytes) \<times> 'w"
  dk_escape :: "bytes \<Rightarrow> bytes option"
  dk_parse :: "bytes \<Rightarrow> json option"
  dk_dump :: "json \<Rightarrow> bytes"
  dk_hostname :: "bytes option"
  dk_interfaces :: "net_interface list option"

record 'w docker_state =
  dk_self :: "json option"
  dk_world :: 'w

text \<open>\<open>c_str\<close> as a C function reads it.\<close>

definition c_str :: "bytes \<Rightarrow> bytes" where
  "c_str s = takeWhile (\<lambda>b. b \<noteq> 0) s"

definition docker_parse :: "'w docker_env \<Rightarrow> bytes \<Rightarrow> json res" where
  "docker_parse D t =
    (case dk_parse D t of None \<Rightarrow> Inl (RuntimeError ''parse_error'') | Some j \<Rightarrow> Inr j)"

definition docker_request ::
  "'w docker_env \<Rightarrow> string \<Rightarrow> bytes \<Rightarrow> json option \<Rightarrow> bytes list \<Rightarrow> ('w docker_state, bytes) io" where
  "docker_request D method endpoint body extra = (\<lambda>s.
    let (ok, w) = dk_curl_init D (dk_world s)
    in if \<not> ok then (Inl (RuntimeError ''Failed to init curl''), s \<lparr> dk_world := w \<rparr>)
       else
         let remote = prefix (str_bytes ''http'') (dk_socket D);
             url = (if remote then dk_socket D @ endpoint else str_bytes ''http://localhost'' @ endpoint);
             (r, w) = dk_perform D
               \<lparr> hr_method = method, hr_url = c_str url,
                  hr_socket = (if remote then None else Some (c_str (dk_socket D))),
                  hr_headers = str_bytes ''Content-Type: application/json'' # map c_str extra,
                  hr_body = map_option (\<lambda>j. c_str (dk_dump D j)) body \<rparr> w
         in (case r of Inl e \<Rightarrow> Inl (RuntimeError (''curl_easy_perform failed: '' @ e)) | Inr t \<Rightarrow> Inr t,
             s \<lparr> dk_world := w \<rparr>))"

section \<open>The own container\<close>

definition inspect_container :: "'w docker_env \<Rightarrow> bytes \<Rightarrow> ('w docker_state, bytes) io" where
  "inspect_container D i =
    docker_request D ''GET'' (str_bytes ''/containers/'' @ i @ str_bytes ''/json'') None []"

text \<open>\<open>std::getline\<close>: the text before the first line break.\<close>

definition get_self_container_name :: "'w docker_env \<Rightarrow> bytes res" where
  "get_self_container_name D =
    (let i = (case dk_hostname D of None \<Rightarrow> [] | Some t \<Rightarrow> takeWhile (\<lambda>b. b \<noteq> 10) t)
     in if i = [] then Inl (RuntimeError ''Could not read /etc/hostname for container Name'') else Inr i)"

text \<open>The first reply is kept.\<close>

definition inspect_self :: "'w docker_env \<Rightarrow> ('w docker_state, json) io" where
  "inspect_self D = (\<lambda>s.
    case dk_self s of
      Some j \<Rightarrow> (Inr j, s)
    | None \<Rightarrow>
        bindIO (liftIO (get_self_container_name D)) (\<lambda>name.
        bindIO (docker_request D ''GET'' (str_bytes ''/containers/'' @ name @ str_bytes ''/json'') None []) (\<lambda>resp.
        bindIO (liftIO (docker_parse D resp)) (\<lambda>j s. (Inr j, s \<lparr> dk_self := Some j \<rparr>)))) s)"

fun eth0_address :: "net_interface list \<Rightarrow> bytes" where
  "eth0_address [] = []"
| "eth0_address (i # is) =
    (case (ni_name i, ni_addr i) of
       (Some n, Some (family, text)) \<Rightarrow>
         if n \<noteq> str_bytes ''eth0'' \<or> family \<noteq> 2 then eth0_address is
         else (case text of Some t \<Rightarrow> t | None \<Rightarrow> eth0_address is)
     | _ \<Rightarrow> eth0_address is)"

definition get_self_container_ip :: "'w docker_env \<Rightarrow> bytes" where
  "get_self_container_ip D = (case dk_interfaces D of None \<Rightarrow> [] | Some is \<Rightarrow> eth0_address is)"

text \<open>The body of the loop over the ports: the bindings it adds.\<close>

definition port_binding :: "string \<times> json \<Rightarrow> (u32 \<times> u32) list res" where
  "port_binding = (\<lambda>(key, value).
    bindE (stoi (takeWhile (\<lambda>b. b \<noteq> 47) (str_bytes key))) (\<lambda>internal.
    bindE (if j_empty value then Inr 0
           else bindE (j_at_elem value 0) (\<lambda>e. bindE (j_at e ''HostPort'') (\<lambda>p. bindE (j_str p) stoi)))
      (\<lambda>external. Inr (if (word_of_int external :: u32) \<noteq> 0
                        then [(word_of_int internal, word_of_int external)] else []))))"

definition get_self_exposed_ports :: "'w docker_env \<Rightarrow> ('w docker_state, (u32 \<times> u32) list) io" where
  "get_self_exposed_ports D =
    bindIO (inspect_self D) (\<lambda>j.
    bindIO (liftIO (bindE (j_key j ''NetworkSettings'') (\<lambda>n. j_key n ''Ports''))) (\<lambda>ports.
    bindIO (liftIO (mapE port_binding (j_items ports))) (\<lambda>bs. returnIO (concat bs))))"

definition get_self_exposed_port_for_internal_bind ::
  "'w docker_env \<Rightarrow> u32 \<Rightarrow> ('w docker_state, u32 option) io" where
  "get_self_exposed_port_for_internal_bind D p =
    bindIO (get_self_exposed_ports D) (\<lambda>ports. returnIO (map_option snd (find (\<lambda>b. p = fst b) ports)))"

definition get_self_public_port_for :: "'w docker_env \<Rightarrow> u32 \<Rightarrow> ('w docker_state, u32 option) io" where
  "get_self_public_port_for D p = get_self_exposed_port_for_internal_bind D p"

section \<open>The public address\<close>

text \<open>The request to the external service: whether \<open>curl\<close> started, and the reply, empty when the
  transfer failed.\<close>

definition ask_ipify :: "'w docker_env \<Rightarrow> ('w docker_state, bool \<times> bytes) io" where
  "ask_ipify D = (\<lambda>s.
    let (ok, w) = dk_curl_init D (dk_world s)
    in if \<not> ok then (Inr (False, []), s \<lparr> dk_world := w \<rparr>)
       else let (r, w) = dk_perform D
              \<lparr> hr_method = ''GET'', hr_url = str_bytes ''https://api.ipify.org'', hr_socket = None,
                 hr_headers = [], hr_body = None \<rparr> w
            in (Inr (True, case r of Inl _ \<Rightarrow> [] | Inr t \<Rightarrow> t), s \<lparr> dk_world := w \<rparr>))"

text \<open>The loop over the ports: the first one with a binding decides. The result is the port written
  and the address returned, if one is.\<close>

fun public_ip_loop :: "'w docker_env \<Rightarrow> (string \<times> json) list \<Rightarrow> ('w docker_state, (u32 \<times> bytes) option) io" where
  "public_ip_loop D [] = returnIO None"
| "public_ip_loop D ((k, value) # ports) =
    (if j_empty value then public_ip_loop D ports
     else
       bindIO (liftIO (bindE (j_elem value 0) (\<lambda>e. bindE (j_key e ''HostIp'') j_str))) (\<lambda>hostIp.
       bindIO (liftIO (bindE (j_elem value 0) (\<lambda>e. bindE (j_key e ''HostPort'') j_str))) (\<lambda>hostPort.
       bindIO (liftIO (stoull hostPort)) (\<lambda>port.
         if hostIp = str_bytes ''0.0.0.0'' \<or> hostIp = str_bytes ''::''
         then bindIO (ask_ipify D) (\<lambda>(ok, resp).
           returnIO (Some (ucast port,
             if \<not> ok then str_bytes ''0.0.0.0'' else if resp \<noteq> [] then resp else hostIp)))
         else returnIO (Some (ucast port, hostIp))))))"

definition get_self_public_ip :: "'w docker_env \<Rightarrow> ('w docker_state, u32 \<times> bytes) io" where
  "get_self_public_ip D =
    bindIO (catchIO
      (bindIO (inspect_self D) (\<lambda>info.
       bindIO (liftIO (bindE (j_key info ''NetworkSettings'') (\<lambda>n. j_key n ''Ports''))) (\<lambda>ports.
         public_ip_loop D (j_items ports))))
      (returnIO None)) (\<lambda>r.
    case r of
      Some x \<Rightarrow> returnIO x
    | None \<Rightarrow> bindIO (ask_ipify D) (\<lambda>(ok, resp).
        returnIO (0, if ok \<and> resp \<noteq> [] then resp else str_bytes ''0.0.0.0'')))"

section \<open>Services\<close>

definition encode_filters :: "'w docker_env \<Rightarrow> json \<Rightarrow> bytes res" where
  "encode_filters D filters =
    (case dk_escape D (dk_dump D filters) of
       None \<Rightarrow> Inl (RuntimeError ''curl_easy_escape failed'') | Some e \<Rightarrow> Inr (c_str e))"

definition to_lower :: "bytes \<Rightarrow> bytes" where
  "to_lower s = map (\<lambda>b. if 65 \<le> b \<and> b \<le> 90 then b + 32 else b) s"

text \<open>The loop over the port entries.\<close>

fun find_port_loop :: "bytes \<Rightarrow> u32 \<Rightarrow> json list \<Rightarrow> u32 option res" where
  "find_port_loop desired internal [] = Inr None"
| "find_port_loop desired internal (p # ps) =
    (if \<not> j_contains p ''Protocol'' \<or> \<not> j_contains p ''TargetPort'' \<or> \<not> j_contains p ''PublishedPort''
     then find_port_loop desired internal ps
     else bindE (bindE (j_at p ''Protocol'') j_str) (\<lambda>proto.
       bindE (bindE (j_at p ''TargetPort'') j_u32) (\<lambda>target.
       bindE (bindE (j_at p ''PublishedPort'') j_u32) (\<lambda>published.
         if to_lower proto = desired \<and> target = internal then Inr (Some published)
         else find_port_loop desired internal ps))))"

definition find_port :: "bytes \<Rightarrow> u32 \<Rightarrow> json \<Rightarrow> u32 option res" where
  "find_port desired internal arr =
    (case arr of JArr ps \<Rightarrow> find_port_loop desired internal ps | _ \<Rightarrow> Inr None)"

definition service_port :: "bytes \<Rightarrow> u32 \<Rightarrow> json \<Rightarrow> u32 option res" where
  "service_port desired internal service =
    bindE (case j_field ''Endpoint'' service of
             None \<Rightarrow> Inr None
           | Some e \<Rightarrow> (case j_field ''Ports'' e of None \<Rightarrow> Inr None | Some ps \<Rightarrow> find_port desired internal ps))
      (\<lambda>result.
        if result \<noteq> None then Inr result
        else (case j_field ''Spec'' service of
                None \<Rightarrow> Inr None
              | Some sp \<Rightarrow> (case j_field ''EndpointSpec'' sp of
                  None \<Rightarrow> Inr None
                | Some e \<Rightarrow> (case j_field ''Ports'' e of
                    None \<Rightarrow> Inr None | Some ps \<Rightarrow> find_port desired internal ps))))"

definition get_service_published_port ::
  "'w docker_env \<Rightarrow> bytes \<Rightarrow> u32 \<Rightarrow> bytes \<Rightarrow> ('w docker_state, u32 option) io" where
  "get_service_published_port D name internal protocol =
    catchIO
      (bindIO (docker_request D ''GET'' (str_bytes ''/services/'' @ name) None []) (\<lambda>resp.
       bindIO (liftIO (docker_parse D resp)) (\<lambda>service.
         liftIO (service_port (to_lower protocol) internal service))))
      (returnIO None)"

definition get_service_node_public_ip :: "'w docker_env \<Rightarrow> bytes \<Rightarrow> ('w docker_state, bytes option) io" where
  "get_service_node_public_ip D name =
    catchIO
      (bindIO (liftIO (encode_filters D (JObj [(''service'', JArr [JStr name])]))) (\<lambda>encoded.
       bindIO (docker_request D ''GET'' (str_bytes ''/tasks?filters='' @ encoded) None []) (\<lambda>resp.
       bindIO (liftIO (docker_parse D resp)) (\<lambda>tasks.
         if \<not> j_is_array tasks \<or> j_empty tasks then returnIO None
         else
           bindIO (liftIO (bindE (j_elem tasks 0) (\<lambda>t. bindE (j_key t ''NodeID'') j_str))) (\<lambda>node.
           bindIO (docker_request D ''GET'' (str_bytes ''/nodes/'' @ node) None []) (\<lambda>resp.
           bindIO (liftIO (docker_parse D resp)) (\<lambda>node.
             case j_field ''Status'' node of
               None \<Rightarrow> returnIO None
             | Some st \<Rightarrow> (case j_field ''Addr'' st of
                 None \<Rightarrow> returnIO None
               | Some a \<Rightarrow> bindIO (liftIO (j_str a)) (\<lambda>a. returnIO (Some a))))))))))
      (returnIO None)"

section \<open>Lemmas\<close>

text \<open>A call that can only fail with an exception a handler catches.\<close>

definition tame :: "('s, 'a) io \<Rightarrow> bool" where
  "tame m \<longleftrightarrow> (\<forall>s e. fst (m s) = Inl e \<longrightarrow> catchable e)"

definition tame_res :: "'a res \<Rightarrow> bool" where
  "tame_res r \<longleftrightarrow> (\<forall>e. r = Inl e \<longrightarrow> catchable e)"

named_theorems tame_intros \<open>calls whose failures are exceptions\<close>

lemma tame_bind [tame_intros]: "tame m \<Longrightarrow> (\<And>a. tame (f a)) \<Longrightarrow> tame (bindIO m f)"
  unfolding tame_def bindIO_def by (auto split: prod.splits sum.splits) (metis fst_conv)+

lemma tame_lift [tame_intros]: "tame_res r \<Longrightarrow> tame (liftIO r)"
  by (simp add: tame_def tame_res_def)

lemma tame_return [tame_intros]: "tame (returnIO a)"
  by (simp add: tame_def)

lemma tame_bindE [tame_intros]: "tame_res r \<Longrightarrow> (\<And>a. tame_res (f a)) \<Longrightarrow> tame_res (bindE r f)"
  unfolding tame_res_def by (cases r) auto

lemma tame_Inr [tame_intros]: "tame_res (Inr a)"
  by (simp add: tame_res_def)

lemma tame_reads [tame_intros]:
  "tame_res (j_key j k)" "tame_res (j_elem j i)" "tame_res (j_str j)" "tame_res (j_u32 j)"
  "tame_res (stoull t)" "tame_res (docker_parse D t)" "tame_res (encode_filters D j)"
  "tame_res (get_self_container_name D)"
proof -
  show "tame_res (j_key j k)" "tame_res (j_elem j i)" "tame_res (j_str j)" "tame_res (j_u32 j)"
    by (cases j; simp add: tame_res_def)+
  show "tame_res (stoull t)" "tame_res (docker_parse D t)" "tame_res (encode_filters D j)"
    "tame_res (get_self_container_name D)"
    by (auto simp: tame_res_def stoull_def docker_parse_def encode_filters_def get_self_container_name_def
        Let_def split: option.splits if_splits)
qed

lemma tame_request [tame_intros]: "tame (docker_request D m e b h)"
  by (auto simp: tame_def docker_request_def Let_def split: prod.splits sum.splits)

lemma tame_ipify [tame_intros]: "tame (ask_ipify D)"
  by (auto simp: tame_def ask_ipify_def split: prod.splits sum.splits)

lemma tame_inspect [tame_intros]: "tame (inspect_self D)"
proof -
  have store: "tame (\<lambda>s. (Inr j, s \<lparr> dk_self := Some j \<rparr>))" for j
    by (simp add: tame_def)
  have "tame (bindIO (liftIO (get_self_container_name D)) (\<lambda>name.
      bindIO (docker_request D ''GET'' (str_bytes ''/containers/'' @ name @ str_bytes ''/json'') None []) (\<lambda>resp.
      bindIO (liftIO (docker_parse D resp)) (\<lambda>j s. (Inr j, s \<lparr> dk_self := Some j \<rparr>)))))"
    by (intro tame_intros store)
  then show ?thesis unfolding tame_def inspect_self_def by (auto split: option.splits)
qed

lemma tame_if [tame_intros]: "tame m \<Longrightarrow> tame m' \<Longrightarrow> tame (if b then m else m')"
  by simp

lemma tame_split [tame_intros]: "(\<And>a b. tame (f a b)) \<Longrightarrow> tame (case x of (a, b) \<Rightarrow> f a b)"
  by (cases x) simp

lemma tame_public_loop [tame_intros]: "tame (public_ip_loop D ps)"
proof (induction ps)
  case (Cons p ps)
  obtain k v where "p = (k, v)" by (cases p)
  then show ?case by (simp only: public_ip_loop.simps) (intro tame_intros Cons)
qed (simp only: public_ip_loop.simps, rule tame_return)

lemma tame_find_port_loop: "tame_res (find_port_loop d i ps)"
proof (induction ps)
  case (Cons p ps)
  have at: "tame_res (j_at p k)" if "j_contains p k" for k
    using that by (cases p) (auto simp: j_contains_def tame_res_def)
  show ?case using Cons by (auto intro!: tame_intros at)
qed (simp add: tame_res_def)

lemma tame_service_port [tame_intros]: "tame_res (service_port d i j)"
  by (auto simp: service_port_def find_port_def intro!: tame_intros tame_find_port_loop
      split: option.splits json.splits)

text \<open>A handler that does not throw makes the call total.\<close>

lemma catch_total:
  assumes "tame m" and "\<And>s. \<exists>r. fst (h s) = Inr r"
  shows "\<exists>r. fst (catchIO m h s) = Inr r"
  using assms unfolding tame_def catchIO_def by (auto split: prod.splits sum.splits) (metis fst_conv)

text \<open>The reference of the search: the complete entries of both lists, in order.\<close>

definition port_entry :: "json \<Rightarrow> (bytes \<times> u32 \<times> u32) option" where
  "port_entry p =
    (case (j_field ''Protocol'' p, j_field ''TargetPort'' p, j_field ''PublishedPort'' p) of
       (Some (JStr proto), Some (JNum t), Some (JNum q)) \<Rightarrow> Some (to_lower proto, word_of_int t, word_of_int q)
     | _ \<Rightarrow> None)"

definition entry_ok :: "json \<Rightarrow> bool" where
  "entry_ok p \<longleftrightarrow> port_entry p \<noteq> None \<or>
    j_field ''Protocol'' p = None \<or> j_field ''TargetPort'' p = None \<or> j_field ''PublishedPort'' p = None"

definition json_array :: "json option \<Rightarrow> json list" where
  "json_array j = (case j of Some (JArr xs) \<Rightarrow> xs | _ \<Rightarrow> [])"

definition published_entries :: "json \<Rightarrow> json list" where
  "published_entries service =
    json_array (Option.bind (j_field ''Endpoint'' service) (j_field ''Ports'')) @
    json_array (Option.bind (Option.bind (j_field ''Spec'' service) (j_field ''EndpointSpec'')) (j_field ''Ports''))"

definition first_port :: "bytes \<Rightarrow> u32 \<Rightarrow> json list \<Rightarrow> u32 option" where
  "first_port d i ps =
    map_option (\<lambda>e. snd (snd e)) (find (\<lambda>e. fst e = d \<and> fst (snd e) = i) (List.map_filter port_entry ps))"

lemma find_port_loop_eq:
  "\<forall>p\<in>set ps. entry_ok p \<Longrightarrow> find_port_loop d i ps = Inr (first_port d i ps)"
proof (induction ps)
  case (Cons p ps)
  have IH: "find_port_loop d i ps = Inr (first_port d i ps)" using Cons by simp
  show ?case
  proof (cases "port_entry p")
    case None
    then have "\<not> j_contains p ''Protocol'' \<or> \<not> j_contains p ''TargetPort'' \<or> \<not> j_contains p ''PublishedPort''"
      using Cons.prems by (auto simp: entry_ok_def j_contains_def)
    then show ?thesis using IH None by (auto simp: first_port_def List.map_filter_simps)
  next
    case (Some e)
    then obtain pr t q where f: "j_field ''Protocol'' p = Some (JStr pr)" "j_field ''TargetPort'' p = Some (JNum t)"
      "j_field ''PublishedPort'' p = Some (JNum q)" and e: "e = (to_lower pr, word_of_int t, word_of_int q)"
      by (auto simp: port_entry_def split: option.splits json.splits)
    obtain kvs where "p = JObj kvs" using f(1) by (cases p) simp_all
    then show ?thesis using f e Some IH by (simp add: j_contains_def first_port_def List.map_filter_simps)
  qed
qed (simp add: first_port_def List.map_filter_simps)

lemma first_port_append:
  "first_port d i (ps @ qs) = (case first_port d i ps of None \<Rightarrow> first_port d i qs | r \<Rightarrow> r)"
  unfolding first_port_def
  by (induction ps) (auto simp: List.map_filter_simps split: option.splits)

lemma find_port_eq:
  "\<forall>p\<in>set (json_array (Some j)). entry_ok p \<Longrightarrow> find_port d i j = Inr (first_port d i (json_array (Some j)))"
  by (cases j) (simp_all add: find_port_def json_array_def find_port_loop_eq first_port_def List.map_filter_simps)

lemma service_port_eq:
  assumes "\<forall>p\<in>set (published_entries j). entry_ok p"
  shows "service_port d i j = Inr (first_port d i (published_entries j))"
proof -
  have nil: "first_port d i [] = None" by (simp add: first_port_def List.map_filter_simps)
  define a where "a = Option.bind (j_field ''Endpoint'' j) (j_field ''Ports'')"
  define b where "b = Option.bind (Option.bind (j_field ''Spec'' j) (j_field ''EndpointSpec'')) (j_field ''Ports'')"
  have look: "(case x of None \<Rightarrow> Inr None | Some ps \<Rightarrow> find_port d i ps) = Inr (first_port d i (json_array x))"
    if "x = a \<or> x = b" for x
    using that assms find_port_eq [of "the x" d i]
    by (cases x) (auto simp: published_entries_def a_def b_def json_array_def nil)
  have "service_port d i j =
      bindE (case a of None \<Rightarrow> Inr None | Some ps \<Rightarrow> find_port d i ps) (\<lambda>r.
        if r \<noteq> None then Inr r else (case b of None \<Rightarrow> Inr None | Some ps \<Rightarrow> find_port d i ps))"
    unfolding service_port_def a_def b_def by (auto simp: Option.bind_def split: option.splits)
  also have "\<dots> = Inr (first_port d i (json_array a @ json_array b))"
    using look [of a] look [of b] by (auto simp: first_port_append split: option.splits)
  finally show ?thesis by (simp add: published_entries_def a_def b_def)
qed

section \<open>Properties\<close>

text \<open>None of the lookups lets a failure of the transport or of the JSON reply escape: whatever
  the server answers, the port of a service, the address of its node and the public address are
  returned as a value, and the process neither aborts nor reads out of bounds.\<close>

theorem docker_lookups_total:
  "(\<exists>r. fst (get_service_published_port D name p proto s) = Inr r) \<and>
   (\<exists>r. fst (get_service_node_public_ip D name s) = Inr r) \<and>
   (\<exists>r. fst (get_self_public_ip D s) = Inr r)"
proof (intro conjI)
  show "\<exists>r. fst (get_service_published_port D name p proto s) = Inr r"
    unfolding get_service_published_port_def by (intro catch_total tame_intros) simp
  show "\<exists>r. fst (get_service_node_public_ip D name s) = Inr r"
    unfolding get_service_node_public_ip_def
    by (intro catch_total tame_intros) (auto intro!: tame_intros split: option.splits)
  let ?m = "bindIO (inspect_self D) (\<lambda>info.
      bindIO (liftIO (bindE (j_key info ''NetworkSettings'') (\<lambda>n. j_key n ''Ports''))) (\<lambda>ports.
        public_ip_loop D (j_items ports)))"
  have "tame ?m" by (intro tame_intros)
  then obtain r where r: "fst (catchIO ?m (returnIO None) s) = Inr r" using catch_total [of ?m] by fastforce
  have ip: "\<exists>x. fst (ask_ipify D t) = Inr x" for t
    by (auto simp: ask_ipify_def split: prod.splits sum.splits)
  show "\<exists>r. fst (get_self_public_ip D s) = Inr r"
    using r ip by (cases r) (auto simp: get_self_public_ip_def bindIO_def split: prod.splits sum.splits,
      metis fst_conv sum.distinct(1))
qed

text \<open>The published port of a service is found by one search, over the entries of the running
  service followed by those of its specification: the port of the first complete entry with the
  target port and the protocol, whatever the case of its letters, and nothing when no entry fits.\<close>

theorem published_port_search:
  assumes "docker_request D ''GET'' (str_bytes ''/services/'' @ name) None [] s = (Inr resp, s')"
    and "dk_parse D resp = Some service" and "\<forall>p\<in>set (published_entries service). entry_ok p"
  shows "get_service_published_port D name internal protocol s =
    (Inr (first_port (to_lower protocol) internal (published_entries service)), s')"
  using assms
  by (simp add: get_service_published_port_def catchIO_def docker_parse_def service_port_eq)

definition demo_docker :: "json \<Rightarrow> nat docker_env" where
  "demo_docker j = \<lparr> dk_socket = str_bytes ''/var/run/docker.sock'', dk_curl_init = (\<lambda>w. (True, w)),
     dk_perform = (\<lambda>r w. (Inr [], Suc w)), dk_escape = Some, dk_parse = (\<lambda>t. Some j), dk_dump = (\<lambda>j. []),
     dk_hostname = None, dk_interfaces = None \<rparr>"

definition demo_service :: json where
  "demo_service = JObj [(''Spec'', JObj [(''EndpointSpec'', JObj [(''Ports'', JArr [
     JObj [(''TargetPort'', JNum 7)],
     JObj [(''Protocol'', JStr (str_bytes ''UDP'')), (''TargetPort'', JNum 25568), (''PublishedPort'', JNum 30001)]])])])]"

theorem published_port_search_witness:
  "get_service_published_port (demo_docker demo_service) (str_bytes ''proxy'') 25568 (str_bytes ''udp'')
     \<lparr> dk_self = None, dk_world = 0 \<rparr> = (Inr (Some 30001), \<lparr> dk_self = None, dk_world = 1 \<rparr>)"
proof -
  have "get_service_published_port (demo_docker demo_service) (str_bytes ''proxy'') 25568 (str_bytes ''udp'')
      \<lparr> dk_self = None, dk_world = 0 \<rparr> =
    (Inr (first_port (to_lower (str_bytes ''udp'')) 25568 (published_entries demo_service)),
     \<lparr> dk_self = None, dk_world = 1 \<rparr>)"
    by (rule published_port_search [where resp = "[]"])
      (simp_all add: docker_request_def demo_docker_def demo_service_def published_entries_def
        json_array_def entry_ok_def port_entry_def)
  then show ?thesis
    by (simp add: first_port_def demo_service_def published_entries_def json_array_def port_entry_def
        List.map_filter_simps to_lower_def str_bytes_def)
qed

end
