(* ===== verification/Text_Macros.thy ===== *)
theory Text_Macros
  imports Text_Numbers
begin

text \<open>
  The expansion of macros in the texts of the start program (\<open>MacroParse\<close> of
  \<open>Global/Misc/String_utils.hpp\<close>), which is repeated as long as the text has a macro with a value. The
  regular expression for a macro is a dollar sign, an opening brace, at least one character that is not
  a closing brace, and a closing brace.
\<close>

section \<open>Operations\<close>

type_synonym macros = "bytes \<Rightarrow> bytes option"

text \<open>A match at the beginning of a text: the name and what follows the match.\<close>

fun macro_at :: "bytes \<Rightarrow> (bytes \<times> bytes) option" where
  "macro_at (a # b # t) =
    (if a = 36 \<and> b = 123 \<and> takeWhile (\<lambda>c. c \<noteq> 125) t \<noteq> [] \<and> dropWhile (\<lambda>c. c \<noteq> 125) t \<noteq> []
     then Some (takeWhile (\<lambda>c. c \<noteq> 125) t, tl (dropWhile (\<lambda>c. c \<noteq> 125) t)) else None)"
| "macro_at _ = None"

lemma macro_at_shorter: "macro_at t = Some (k, r) \<Longrightarrow> length r < length t"
  using length_dropWhile_le [of "\<lambda>c::u8. c \<noteq> 125" "tl (tl t)"]
  by (cases t rule: macro_at.cases) (auto split: if_splits)

text \<open>The text cut into single characters and matches, from left to right.\<close>

datatype token = Char u8 | Macro bytes

function tokens :: "bytes \<Rightarrow> token list" where
  "tokens t =
    (case t of
       [] \<Rightarrow> []
     | c # r \<Rightarrow> (case macro_at t of Some (k, r) \<Rightarrow> Macro k # tokens r | None \<Rightarrow> Char c # tokens r))"
  by pat_completeness auto
termination
  by (relation "measure length") (auto dest: macro_at_shorter)

declare tokens.simps [simp del]

definition macro_text :: "bytes \<Rightarrow> bytes" where
  "macro_text k = 36 # 123 # k @ [125]"

fun expand_token :: "macros \<Rightarrow> token \<Rightarrow> bytes" where
  "expand_token ms (Char c) = [c]"
| "expand_token ms (Macro k) = (case ms k of Some v \<Rightarrow> v | None \<Rightarrow> macro_text k)"

text \<open>One pass over the text, and the check whether another one is needed.\<close>

definition expand_once :: "macros \<Rightarrow> bytes \<Rightarrow> bytes" where
  "expand_once ms t = concat (map (expand_token ms) (tokens t))"

fun expandable :: "macros \<Rightarrow> token \<Rightarrow> bool" where
  "expandable ms (Char c) = False"
| "expandable ms (Macro k) = (ms k \<noteq> None)"

definition needs_reparse :: "macros \<Rightarrow> bytes \<Rightarrow> bool" where
  "needs_reparse ms t \<longleftrightarrow> list_ex (expandable ms) (tokens t)"

partial_function (option) macro_parse :: "macros \<Rightarrow> bytes \<Rightarrow> bytes option" where
  "macro_parse ms t =
    (let result = expand_once ms t
     in if needs_reparse ms result then macro_parse ms result else Some result)"

section \<open>Tokens\<close>

lemma tokens_simps [simp]:
  "tokens [] = []"
  "macro_at (c # r) = None \<Longrightarrow> tokens (c # r) = Char c # tokens r"
  "macro_at t = Some (k, r') \<Longrightarrow> tokens t = Macro k # tokens r'"
  by (subst tokens.simps, simp)+ (cases t, auto, subst tokens.simps, simp)

lemma macro_at_char: "c \<noteq> 36 \<Longrightarrow> macro_at (c # r) = None"
  by (cases r) simp_all

lemma takeWhile_stop: "x \<notin> set k \<Longrightarrow> takeWhile (\<lambda>c. c \<noteq> x) (k @ x # r) = k"
  by (induction k) auto

lemma dropWhile_stop: "x \<notin> set k \<Longrightarrow> dropWhile (\<lambda>c. c \<noteq> x) (k @ x # r) = x # r"
  by (induction k) auto

lemma macro_at_text: "k \<noteq> [] \<Longrightarrow> 125 \<notin> set k \<Longrightarrow> macro_at (macro_text k @ r) = Some (k, r)"
  by (simp add: macro_text_def takeWhile_stop dropWhile_stop)

lemma macro_at_Some:
  assumes "macro_at t = Some (k, r)"
  shows "t = macro_text k @ r" and "k \<noteq> []" and "125 \<notin> set k"
proof -
  obtain u where t: "t = 36 # 123 # u" and u: "takeWhile (\<lambda>c. c \<noteq> 125) u = k" "k \<noteq> []"
      "dropWhile (\<lambda>c. c \<noteq> 125) u \<noteq> []" "tl (dropWhile (\<lambda>c. c \<noteq> 125) u) = r"
    using assms by (cases t rule: macro_at.cases) (auto split: if_splits)
  have "hd (dropWhile (\<lambda>c. c \<noteq> 125) u) = 125" using hd_dropWhile [OF u(3)] by simp
  then have "dropWhile (\<lambda>c. c \<noteq> 125) u = 125 # r" using u(3,4) by (metis list.collapse)
  then have "u = k @ 125 # r" using takeWhile_dropWhile_id [of "\<lambda>c. c \<noteq> 125" u] u(1) by simp
  then show "t = macro_text k @ r" by (simp add: t macro_text_def)
  show "k \<noteq> []" by (rule u(2))
  show "125 \<notin> set k" using set_takeWhileD [of 125 "\<lambda>c. c \<noteq> 125" u] u(1) by auto
qed

text \<open>Without a value that is used, a pass changes nothing.\<close>

lemma untokens: "concat (map (expand_token (\<lambda>_. None)) (tokens t)) = t"
proof (induction t rule: tokens.induct)
  case (1 t)
  show ?case
  proof (cases t)
    case (Cons c r)
    show ?thesis
    proof (cases "macro_at t")
      case None
      then show ?thesis using 1(1) [OF Cons] Cons by simp
    next
      case (Some p)
      then obtain k r' where m: "macro_at t = Some (k, r')" by (cases p) simp
      then show ?thesis using 1(2) [OF Cons m refl] macro_at_Some(1) [OF m] by simp
    qed
  qed simp
qed

section \<open>One pass is enough for plain values\<close>

text \<open>A value that is not empty and has neither a dollar sign nor an opening brace.\<close>

definition plain_values :: "macros \<Rightarrow> bool" where
  "plain_values ms \<longleftrightarrow> (\<forall>k v. ms k = Some v \<longrightarrow> v \<noteq> [] \<and> 36 \<notin> set v \<and> 123 \<notin> set v)"

lemma tokens_plain: "36 \<notin> set v \<Longrightarrow> tokens (v @ r) = map Char v @ tokens r"
  by (induction v) (auto simp: macro_at_char)

lemma no_brace_no_macro: "125 \<notin> set t \<Longrightarrow> macro_at t = None"
proof (cases "macro_at t")
  case (Some p)
  assume "125 \<notin> set t"
  moreover obtain k r where "macro_at t = Some (k, r)" using Some by (cases p) simp
  ultimately show ?thesis using macro_at_Some(1) [of t k r] by (simp add: macro_text_def)
qed

lemma no_brace_tokens: "125 \<notin> set t \<Longrightarrow> tokens t = map Char t"
  by (induction t) (simp_all add: no_brace_no_macro)

lemma expand_char: "macro_at (c # r) = None \<Longrightarrow> expand_once ms (c # r) = c # expand_once ms r"
  by (simp add: expand_once_def)

lemma expand_no_brace: "125 \<notin> set t \<Longrightarrow> expand_once ms t = t"
  by (simp add: expand_once_def no_brace_tokens comp_def)

text \<open>What a pass puts behind a character makes no new macro with it.\<close>

lemma expand_starts_brace:
  assumes "plain_values ms" and "expand_once ms r = 123 # u"
  obtains r' where "r = 123 # r'" and "u = expand_once ms r'"
proof (cases r)
  case Nil
  then show ?thesis using assms(2) by (simp add: expand_once_def)
next
  case (Cons d r')
  show ?thesis
  proof (cases "macro_at r")
    case None
    then show ?thesis using assms(2) Cons that by (simp add: expand_char)
  next
    case (Some p)
    then obtain k r'' where m: "macro_at r = Some (k, r'')" by (cases p) simp
    have "hd (expand_token ms (Macro k)) \<noteq> 123 \<and> expand_token ms (Macro k) \<noteq> []"
    proof (cases "ms k")
      case (Some v)
      then have "v \<noteq> []" "123 \<notin> set v" using assms(1) by (auto simp: plain_values_def)
      then show ?thesis using Some by (cases v) auto
    qed (simp add: macro_text_def)
    then show ?thesis using assms(2) m by (cases "expand_token ms (Macro k)") (auto simp: expand_once_def)
  qed
qed

lemma expand_keeps_char:
  assumes "plain_values ms" and "macro_at (c # r) = None"
  shows "macro_at (c # expand_once ms r) = None"
proof (rule ccontr)
  assume "macro_at (c # expand_once ms r) \<noteq> None"
  then obtain u where c: "c = 36" and u: "expand_once ms r = 123 # u"
      "takeWhile (\<lambda>c. c \<noteq> 125) u \<noteq> []" "dropWhile (\<lambda>c. c \<noteq> 125) u \<noteq> []"
    by (cases "expand_once ms r") (auto split: if_splits)
  obtain r' where r': "r = 123 # r'" "u = expand_once ms r'"
    using expand_starts_brace [OF assms(1) u(1)] .
  show False
  proof (cases "125 \<in> set r'")
    case False
    then show False using u(3) r'(2) by (simp add: expand_no_brace)
  next
    case True
    then have "dropWhile (\<lambda>c. c \<noteq> 125) r' \<noteq> []" by (simp add: dropWhile_eq_Nil_conv)
    then have "takeWhile (\<lambda>c. c \<noteq> 125) r' = []" using assms(2) c r'(1) by (auto split: if_splits)
    then obtain r'' where "r' = 125 # r''" using True by (cases r') (auto split: if_splits)
    then have "u = 125 # expand_once ms r''" using r'(2) by (simp add: expand_char macro_at_char)
    then show False using u(2) by simp
  qed
qed

fun token_tokens :: "macros \<Rightarrow> token \<Rightarrow> token list" where
  "token_tokens ms (Char c) = [Char c]"
| "token_tokens ms (Macro k) = (case ms k of Some v \<Rightarrow> map Char v | None \<Rightarrow> [Macro k])"

lemma tokens_expand:
  assumes "plain_values ms"
  shows "tokens (expand_once ms t) = concat (map (token_tokens ms) (tokens t))"
proof (induction t rule: tokens.induct)
  case (1 t)
  show ?case
  proof (cases t)
    case Nil
    then show ?thesis by (simp add: expand_once_def)
  next
    case (Cons c r)
    show ?thesis
    proof (cases "macro_at t")
      case None
      then show ?thesis using 1(1) [OF Cons] Cons expand_keeps_char [OF assms, of c r] by (simp add: expand_char)
    next
      case (Some p)
      then obtain k r' where m: "macro_at t = Some (k, r')" by (cases p) simp
      have e: "expand_once ms t = expand_token ms (Macro k) @ expand_once ms r'"
        using m by (simp add: expand_once_def)
      have IH: "tokens (expand_once ms r') = concat (map (token_tokens ms) (tokens r'))"
        using 1(2) [OF Cons m refl] by simp
      show ?thesis
      proof (cases "ms k")
        case None
        then have "macro_at (expand_once ms t) = Some (k, expand_once ms r')"
          using e macro_at_text [OF macro_at_Some(2,3) [OF m]] by simp
        then show ?thesis using IH m None by simp
      next
        case (Some v)
        then have "36 \<notin> set v" using assms by (simp add: plain_values_def)
        then show ?thesis using IH m Some e by (simp add: tokens_plain)
      qed
    qed
  qed
qed

lemma token_tokens_done: "list_ex (expandable ms) (token_tokens ms x) \<Longrightarrow> False"
  by (cases x) (auto simp: list_ex_iff split: option.splits)

lemma plain_no_reparse:
  assumes "plain_values ms"
  shows "\<not> needs_reparse ms (expand_once ms t)"
  using token_tokens_done [of ms] by (auto simp: needs_reparse_def tokens_expand [OF assms] list_ex_iff)

section \<open>Properties\<close>

text \<open>When no value is empty or has a dollar sign or an opening brace, the expansion of macros ends
  after one pass: it replaces exactly the macros that have a value, leaves everything else as it was, and
  the result has no macro with a value.\<close>

theorem macro_parse_single_pass:
  assumes "plain_values ms"
  shows "macro_parse ms t = Some (concat (map (expand_token ms) (tokens t))) \<and>
    concat (map (expand_token (\<lambda>_. None)) (tokens t)) = t \<and>
    \<not> needs_reparse ms (concat (map (expand_token ms) (tokens t)))"
  using plain_no_reparse [OF assms, of t] untokens [of t]
  by (subst macro_parse.simps) (simp add: expand_once_def)

text \<open>A macro whose value is itself is expanded for ever.\<close>

lemma macro_parse_returns:
  assumes "macro_parse ms t = Some u"
  shows "k \<noteq> [] \<longrightarrow> 125 \<notin> set k \<longrightarrow> ms k = Some (macro_text k) \<longrightarrow> t \<noteq> macro_text k"
  using assms
proof (induction ms t u rule: macro_parse.raw_induct [rotated, consumes 1, case_names step])
  case (step loop ms t u)
  show ?case
  proof (intro impI notI)
    assume k: "k \<noteq> []" "125 \<notin> set k" "ms k = Some (macro_text k)" "t = macro_text k"
    have tk: "tokens t = [Macro k]" using macro_at_text [OF k(1,2), of "[]"] k(4) by simp
    then have e: "expand_once ms t = t" using k by (simp add: expand_once_def)
    have "needs_reparse ms t" using tk k(3) by (simp add: needs_reparse_def)
    then have "loop ms t = Some u" using step(2) e by (simp add: Let_def)
    then show False using step(1) k by blast
  qed
qed

lemma macro_parse_diverges:
  "k \<noteq> [] \<Longrightarrow> 125 \<notin> set k \<Longrightarrow> ms k = Some (macro_text k) \<Longrightarrow> macro_parse ms (macro_text k) = None"
  using macro_parse_returns [of ms "macro_text k" _ k] by (cases "macro_parse ms (macro_text k)") auto

theorem macro_parse_single_pass_witness:
  "macro_parse [[65] \<mapsto> [7]] (macro_text [65]) =
      Some (concat (map (expand_token [[65] \<mapsto> [7]]) (tokens (macro_text [65])))) \<and>
    concat (map (expand_token (\<lambda>_. None)) (tokens (macro_text [65]))) = macro_text [65] \<and>
    \<not> needs_reparse [[65] \<mapsto> [7]] (concat (map (expand_token [[65] \<mapsto> [7]]) (tokens (macro_text [65]))))"
  by (rule macro_parse_single_pass) (simp add: plain_values_def)

end
