(* ===== verification/Bootstrap_Settings.thy ===== *)
theory Bootstrap_Settings
  imports Docker_Client Text_Macros
begin

text \<open>
  What the start program reads: the settings file and the task file of the game server
  (\<open>ParseSettingsFile\<close> and \<open>ParseTaskFile\<close> of \<open>start/AtlasNet/src/Bootstrap.cpp\<close>). A file is its text,
  none when it cannot be opened; the JSON parser and printer are parameters. The switch of the
  database has no initial value in the sources, so it is none until the file sets it.
\<close>

section \<open>Settings\<close>

record worker =
  wk_name :: bytes
  wk_mac :: bytes

record built_in_db =
  db_enable :: "bool option"
  db_masters :: u32
  db_slaves :: u32

record settings =
  st_workers :: "worker list"
  st_arches :: "bytes set"
  st_interface :: bytes
  st_tls_dir :: "bytes option"
  st_task_file :: bytes
  st_db :: built_in_db

definition empty_settings :: settings where
  "empty_settings = \<lparr> st_workers = [], st_arches = {}, st_interface = [], st_tls_dir = None,
     st_task_file = [], st_db = \<lparr> db_enable = None, db_masters = 1, db_slaves = 1 \<rparr> \<rparr>"

fun j_bool :: "json \<Rightarrow> bool res" where
  "j_bool (JBool b) = Inr b"
| "j_bool _ = Inl (RuntimeError ''type_error'')"

definition is_entry_valid :: "json \<Rightarrow> string \<Rightarrow> bool" where
  "is_entry_valid j k \<longleftrightarrow> (case j_field k j of None \<Rightarrow> False | Some v \<Rightarrow> v \<noteq> JNull)"

definition parse_worker :: "json \<Rightarrow> worker res" where
  "parse_worker w =
    bindE (bindE (j_at w ''MACAddress'') j_str) (\<lambda>mac.
    bindE (bindE (j_at w ''Name'') j_str) (\<lambda>name. Inr \<lparr> wk_name = name, wk_mac = mac \<rparr>))"

text \<open>An entry that is used when it is there and not null.\<close>

definition entry_or :: "'a \<Rightarrow> (json \<Rightarrow> 'a res) \<Rightarrow> json \<Rightarrow> string \<Rightarrow> 'a res" where
  "entry_or d get j k = (if is_entry_valid j k then bindE (j_key j k) get else Inr d)"

definition parse_settings :: "json \<Rightarrow> settings res" where
  "parse_settings j =
    bindE (entry_or [] (\<lambda>ws. mapE parse_worker (j_elems ws)) j ''Workers'') (\<lambda>workers.
    bindE (entry_or [] j_str j ''GameServerTaskFile'') (\<lambda>task.
    bindE (bindE (j_key j ''RuntimeArches'') (\<lambda>arches. mapE j_str (j_elems arches))) (\<lambda>arches.
    bindE (entry_or [] j_str j ''NetworkInterface'') (\<lambda>interface.
    bindE (entry_or None (\<lambda>v. bindE (j_str v) (\<lambda>t. Inr (Some t))) j ''TLSDirectory'') (\<lambda>tls.
    bindE (j_key j ''BuiltInDB'') (\<lambda>db.
    bindE (entry_or None (\<lambda>v. bindE (j_bool v) (\<lambda>b. Inr (Some b))) db ''Enable'') (\<lambda>enable.
    bindE (j_key db ''Transient'') (\<lambda>transient.
    bindE (entry_or 1 j_u32 transient ''MasterReplicas'') (\<lambda>masters.
    bindE (entry_or 1 j_u32 transient ''SlaveReplicas'') (\<lambda>slaves.
      Inr \<lparr> st_workers = workers, st_arches = set arches, st_interface = interface, st_tls_dir = tls,
             st_task_file = task,
             st_db = \<lparr> db_enable = enable, db_masters = masters, db_slaves = slaves \<rparr> \<rparr>))))))))))"

definition parse_settings_file :: "(bytes \<Rightarrow> json option) \<Rightarrow> bytes option \<Rightarrow> settings res" where
  "parse_settings_file parse file =
    (case file of
       None \<Rightarrow> Inl (RuntimeError ''Unable to find the settings file'')
     | Some text \<Rightarrow> (case parse text of
         None \<Rightarrow> Inl (RuntimeError ''fuck'')
       | Some j \<Rightarrow> parse_settings j))"

section \<open>The task of the game server\<close>

record task_port =
  tp_container :: u16
  tp_protocol :: bytes

record task =
  tk_dockerfile :: bytes
  tk_workdir :: bytes
  tk_command :: bytes
  tk_args :: "bytes list"
  tk_env :: "(string \<times> bytes) list"
  tk_ports :: "task_port list"
  tk_path :: bytes

definition empty_task :: "bytes \<Rightarrow> task" where
  "empty_task path = \<lparr> tk_dockerfile = [], tk_workdir = [], tk_command = [], tk_args = [], tk_env = [],
     tk_ports = [], tk_path = path \<rparr>"

fun j_u16 :: "json \<Rightarrow> u16 res" where
  "j_u16 (JNum n) = Inr (word_of_int n)"
| "j_u16 (JBool b) = Inr (if b then 1 else 0)"
| "j_u16 _ = Inl (RuntimeError ''type_error'')"

definition parse_dockerfile :: "json \<Rightarrow> bytes res" where
  "parse_dockerfile j =
    (case j_field ''build'' j of
       None \<Rightarrow> Inr []
     | Some b \<Rightarrow> (case j_field ''dockerfile'' b of None \<Rightarrow> Inr [] | Some d \<Rightarrow> j_str d))"

fun parse_workdir :: "json option \<Rightarrow> bytes" where
  "parse_workdir (Some (JStr w)) = w"
| "parse_workdir _ = []"

text \<open>A command is a text, or an array of the program and its first arguments.\<close>

fun parse_command :: "json option \<Rightarrow> (bytes \<times> bytes list) res" where
  "parse_command (Some (JStr c)) = Inr (c, [])"
| "parse_command (Some (JArr (c # cs))) =
    bindE (j_str c) (\<lambda>c. bindE (mapE j_str cs) (\<lambda>cs. Inr (c, cs)))"
| "parse_command _ = Inr ([], [])"

fun parse_args :: "json option \<Rightarrow> bytes list res" where
  "parse_args (Some (JArr xs)) = mapE j_str xs"
| "parse_args _ = Inr []"

fun env_text :: "(json \<Rightarrow> bytes) \<Rightarrow> json \<Rightarrow> bytes" where
  "env_text dump (JStr s) = s"
| "env_text dump v = dump v"

fun parse_env :: "(json \<Rightarrow> bytes) \<Rightarrow> json option \<Rightarrow> (string \<times> bytes) list" where
  "parse_env dump (Some (JObj kvs)) = map (\<lambda>(k, v). (k, env_text dump v)) kvs"
| "parse_env dump _ = []"

definition parse_port :: "json \<Rightarrow> task_port res" where
  "parse_port p =
    bindE (case j_field ''container'' p of None \<Rightarrow> Inr 0 | Some c \<Rightarrow> j_u16 c) (\<lambda>container.
    bindE (case j_field ''protocol'' p of None \<Rightarrow> Inr [] | Some q \<Rightarrow> j_str q) (\<lambda>protocol.
      Inr \<lparr> tp_container = container, tp_protocol = protocol \<rparr>))"

fun parse_ports :: "json option \<Rightarrow> task_port list res" where
  "parse_ports (Some (JArr ps)) = mapE parse_port ps"
| "parse_ports _ = Inr []"

definition parse_task :: "(json \<Rightarrow> bytes) \<Rightarrow> bytes \<Rightarrow> json \<Rightarrow> task res" where
  "parse_task dump path j =
    bindE (parse_dockerfile j) (\<lambda>dockerfile.
    let task = (empty_task path) \<lparr> tk_dockerfile := dockerfile \<rparr>
    in case j_field ''run'' j of
         None \<Rightarrow> Inr task
       | Some run \<Rightarrow>
           bindE (parse_command (j_field ''command'' run)) (\<lambda>(command, first).
           bindE (parse_args (j_field ''args'' run)) (\<lambda>args.
           bindE (parse_ports (j_field ''ports'' run)) (\<lambda>ports.
             Inr (task \<lparr> tk_workdir := parse_workdir (j_field ''workdir'' run), tk_command := command,
                          tk_args := first @ args, tk_env := parse_env dump (j_field ''env'' run),
                          tk_ports := ports \<rparr>)))))"

definition parse_task_file ::
  "(bytes \<Rightarrow> json option) \<Rightarrow> (json \<Rightarrow> bytes) \<Rightarrow> bytes \<Rightarrow> bytes option \<Rightarrow> task res" where
  "parse_task_file parse dump path file =
    (case file of
       None \<Rightarrow> Inl (RuntimeError ''Could not read file'')
     | Some text \<Rightarrow> (case parse text of
         None \<Rightarrow> Inl (RuntimeError ''parse_error'')
       | Some j \<Rightarrow> parse_task dump path j))"

section \<open>Lemmas\<close>

text \<open>The files that hold given settings and a given task.\<close>

definition worker_json :: "worker \<Rightarrow> json" where
  "worker_json w = JObj [(''Name'', JStr (wk_name w)), (''MACAddress'', JStr (wk_mac w))]"

definition u32_json :: "u32 \<Rightarrow> json" where
  "u32_json n = JNum (uint n)"

definition settings_json :: "settings \<Rightarrow> bytes list \<Rightarrow> json" where
  "settings_json s arches = JObj
    ([(''Workers'', JArr (map worker_json (st_workers s))),
      (''GameServerTaskFile'', JStr (st_task_file s)),
      (''RuntimeArches'', JArr (map JStr arches)),
      (''NetworkInterface'', JStr (st_interface s)),
      (''BuiltInDB'', JObj
        ((''Transient'', JObj [(''MasterReplicas'', u32_json (db_masters (st_db s))),
                               (''SlaveReplicas'', u32_json (db_slaves (st_db s)))]) #
         (case db_enable (st_db s) of None \<Rightarrow> [] | Some b \<Rightarrow> [(''Enable'', JBool b)])))] @
     (case st_tls_dir s of None \<Rightarrow> [] | Some d \<Rightarrow> [(''TLSDirectory'', JStr d)]))"

definition port_json :: "task_port \<Rightarrow> json" where
  "port_json p = JObj [(''container'', JNum (uint (tp_container p))), (''protocol'', JStr (tp_protocol p))]"

definition task_json :: "task \<Rightarrow> json" where
  "task_json t = JObj
    [(''build'', JObj [(''dockerfile'', JStr (tk_dockerfile t))]),
     (''run'', JObj
       [(''workdir'', JStr (tk_workdir t)), (''command'', JStr (tk_command t)),
        (''args'', JArr (map JStr (tk_args t))),
        (''env'', JObj (map (\<lambda>(k, v). (k, JStr v)) (tk_env t))),
        (''ports'', JArr (map port_json (tk_ports t)))])]"

lemma mapE_inverse: "(\<And>x. f (g x) = Inr x) \<Longrightarrow> mapE f (map g xs) = Inr xs"
  by (induction xs) simp_all

lemma worker_back: "parse_worker (worker_json w) = Inr w"
  by (simp add: parse_worker_def worker_json_def)

lemma port_back: "parse_port (port_json p) = Inr p"
  by (simp add: parse_port_def port_json_def)

lemma u32_back: "j_u32 (u32_json n) = Inr n"
  by (simp add: u32_json_def)

lemmas list_back = mapE_inverse [of parse_worker worker_json, OF worker_back]
  mapE_inverse [of parse_port port_json, OF port_back]
  mapE_inverse [of j_str JStr, OF j_str.simps(1)]

lemma env_back: "map ((\<lambda>(k, v). (k, env_text dump v)) \<circ> (\<lambda>(k, v). (k, JStr v))) kvs = kvs"
  by (induction kvs) auto

lemma entry_or_there: "map_of kvs k = Some v \<Longrightarrow> v \<noteq> JNull \<Longrightarrow> entry_or d get (JObj kvs) k = get v"
  by (simp add: entry_or_def is_entry_valid_def)

lemma entry_or_missing: "map_of kvs k = None \<Longrightarrow> entry_or d get (JObj kvs) k = Inr d"
  by (simp add: entry_or_def is_entry_valid_def)

lemma u32_json_not_null: "u32_json n \<noteq> JNull"
  by (simp add: u32_json_def)

lemma settings_back:
  assumes "set arches = st_arches s"
  shows "parse_settings (settings_json s arches) = Inr s"
  using assms
  by (cases "st_tls_dir s"; cases "db_enable (st_db s)")
    (simp_all add: parse_settings_def settings_json_def entry_or_there entry_or_missing list_back u32_back
      u32_json_not_null)

lemma task_back: "parse_task dump (tk_path t) (task_json t) = Inr t"
  by (simp add: parse_task_def task_json_def parse_dockerfile_def empty_task_def list_back env_back)

section \<open>Properties\<close>

text \<open>Every field of the settings is read from its own entry of the settings file: a file that
  holds given settings is read back as these settings, with and without the optional entries.\<close>

theorem settings_roundtrip:
  assumes "set arches = st_arches s" and "parse text = Some (settings_json s arches)"
  shows "parse_settings_file parse (Some text) = Inr s"
  using settings_back [OF assms(1)] assms(2) by (simp add: parse_settings_file_def)

definition demo_settings :: settings where
  "demo_settings = \<lparr> st_workers = [\<lparr> wk_name = [119], wk_mac = [48] \<rparr>], st_arches = {[97]},
     st_interface = [101], st_tls_dir = Some [107], st_task_file = [116],
     st_db = \<lparr> db_enable = Some True, db_masters = 3, db_slaves = 2 \<rparr> \<rparr>"

theorem settings_roundtrip_witness:
  "parse_settings_file (\<lambda>t. Some (settings_json demo_settings [[97]])) (Some []) = Inr demo_settings"
  by (rule settings_roundtrip [where arches = "[[97]]"]) (simp_all add: demo_settings_def)

text \<open>The task file of the game server is read back as the task it holds, and a command given as an
  array is the same as its first element with the other elements put before the arguments.\<close>

theorem task_roundtrip:
  "parse_task dump (tk_path t) (task_json t) = Inr t \<and>
   bindE (parse_command (Some (JArr (map JStr (c # pre))))) (\<lambda>(command, first).
     bindE (parse_args (Some (JArr (map JStr post)))) (\<lambda>args. Inr (command, first @ args))) =
   bindE (parse_command (Some (JStr c))) (\<lambda>(command, first).
     bindE (parse_args (Some (JArr (map JStr (pre @ post))))) (\<lambda>args. Inr (command, first @ args)))"
  using task_back [of dump t] list_back(3) [of pre] list_back(3) [of post] list_back(3) [of "pre @ post"] by simp

end
