(* ===== verification/Bootstrap.thy ===== *)
theory Bootstrap
  imports Bootstrap_Settings
begin

text \<open>
  The start program (\<open>start/AtlasNet/src/Bootstrap.cpp\<close>, \<open>Bootstrap.hpp\<close>, \<open>CommandTools.hpp\<close>,
  \<open>Utils.cpp\<close>): it reads the settings, starts a Docker swarm, makes a certificate for the
  workers, builds the images and deploys the stack. The commands it runs, the file system, the sockets
  and the keyboard are parameters over a world they may change; the texts of the Docker files and of
  the stack are data. Log lines and terminal control are left out.
\<close>

section \<open>The environment\<close>

text \<open>A path is its text, with the rules of the standard library for a slash.\<close>

definition parent_path :: "bytes \<Rightarrow> bytes" where
  "parent_path p =
    (let d = rev (dropWhile (\<lambda>c. c \<noteq> 47) (rev p));
         e = rev (dropWhile (\<lambda>c. c = 47) (rev d))
     in if e = [] then d else e)"

definition absolute :: "bytes \<Rightarrow> bytes \<Rightarrow> bytes res" where
  "absolute cwd p =
    (if p = [] then Inl (RuntimeError ''filesystem_error'')
     else if hd p = 47 then Inr p else Inr (cwd @ [47] @ p))"

record boot_texts =
  tx_watchdog :: bytes
  tx_shard :: bytes
  tx_proxy :: bytes
  tx_cartograph :: bytes
  tx_entry_point :: bytes
  tx_stack :: bytes
  tx_database :: bytes

text \<open>\<open>be_spawn\<close> is a child with its output captured: which call failed, or the status \<open>waitpid\<close>
  gives with what the child wrote; \<open>be_spawn_tty\<close> is a child on the terminal, none when \<open>fork\<close>
  fails. \<open>be_bind\<close> tells whether a port can be bound, \<open>be_choose\<close> is the number read after the
  question, -1 when none was.\<close>

record 'w boot_env =
  be_docker :: "'w docker_env"
  be_spawn :: "bytes list \<Rightarrow> 'w \<Rightarrow> (string + nat \<times> bytes \<times> bytes) \<times> 'w"
  be_spawn_tty :: "bytes list \<Rightarrow> 'w \<Rightarrow> nat option \<times> 'w"
  be_system :: "bytes \<Rightarrow> 'w \<Rightarrow> int \<times> 'w"
  be_read :: "bytes \<Rightarrow> 'w \<Rightarrow> bytes option"
  be_write :: "bytes \<Rightarrow> bytes \<Rightarrow> 'w \<Rightarrow> bool \<times> 'w"
  be_mkdirs :: "bytes \<Rightarrow> 'w \<Rightarrow> bool \<times> 'w"
  be_exists :: "bytes \<Rightarrow> 'w \<Rightarrow> bool"
  be_remove :: "bytes \<Rightarrow> 'w \<Rightarrow> bool \<times> 'w"
  be_bind :: "nat \<Rightarrow> 'w \<Rightarrow> bool"
  be_choose :: "'w \<Rightarrow> int \<times> 'w"
  be_cwd :: bytes
  be_exe :: bytes
  be_root :: "bytes option"
  be_order :: "bytes set \<Rightarrow> bytes list"
  be_texts :: boot_texts

record image_build =
  im_dockerfile :: bytes
  im_name :: bytes
  im_dir :: bytes
  im_depends :: "bytes list"

record 'w boot =
  bt_docker :: "'w docker_state"
  bt_settings :: settings
  bt_task :: task
  bt_multi :: bool
  bt_manager :: bytes
  bt_images :: "image_build list"

text \<open>Access to the parts of the state.\<close>

definition worldIO :: "('w \<Rightarrow> 'a \<times> 'w) \<Rightarrow> ('w boot, 'a) io" where
  "worldIO f = (\<lambda>s. let (a, w) = f (dk_world (bt_docker s))
    in (Inr a, s \<lparr> bt_docker := (bt_docker s) \<lparr> dk_world := w \<rparr> \<rparr>))"

definition askIO :: "('w \<Rightarrow> 'a) \<Rightarrow> ('w boot, 'a) io" where
  "askIO f = (\<lambda>s. (Inr (f (dk_world (bt_docker s))), s))"

definition dockerIO :: "('w docker_state, 'a) io \<Rightarrow> ('w boot, 'a) io" where
  "dockerIO m = (\<lambda>s. let (r, d) = m (bt_docker s) in (r, s \<lparr> bt_docker := d \<rparr>))"

text \<open>The expansion of macros calls itself; when it never returns the stack overflows.\<close>

definition macroIO :: "bytes \<Rightarrow> (bytes \<times> bytes) list \<Rightarrow> ('s, bytes) io" where
  "macroIO t ms = liftIO (case macro_parse (map_of ms) t of None \<Rightarrow> Inl (UB Endless_Recursion) | Some u \<Rightarrow> Inr u)"

section \<open>Commands\<close>

record cmd_result =
  cr_exit :: int
  cr_out :: bytes
  cr_err :: bytes
  cr_sudo :: bool
  cr_prompted :: bool

definition contains_text :: "bytes \<Rightarrow> bytes \<Rightarrow> bool" where
  "contains_text t s = sublist t s"

definition looks_like_permission_error :: "int \<Rightarrow> bytes \<Rightarrow> bool" where
  "looks_like_permission_error exit_code err \<longleftrightarrow> exit_code = 126 \<or> exit_code = 13 \<or>
    contains_text (str_bytes ''Permission denied'') err \<or> contains_text (str_bytes ''permission denied'') err \<or>
    contains_text (str_bytes ''Operation not permitted'') err \<or>
    contains_text (str_bytes ''operation not permitted'') err"

text \<open>The status of \<open>waitpid\<close>: exited, ended by a signal, or something else.\<close>

definition exit_code_of :: "nat \<Rightarrow> int" where
  "exit_code_of status =
    (if status mod 128 = 0 then int (status div 256 mod 256)
     else if status mod 128 \<noteq> 127 then 128 + int (status mod 128) else -1)"

definition run_capture :: "'w boot_env \<Rightarrow> bytes list \<Rightarrow> ('w boot, cmd_result) io" where
  "run_capture E argv =
    bindIO (worldIO (be_spawn E (map c_str argv))) (\<lambda>r.
    case r of
      Inl e \<Rightarrow> throwIO e
    | Inr (status, text, err) \<Rightarrow> returnIO
        \<lparr> cr_exit = exit_code_of status, cr_out = text, cr_err = err, cr_sudo = False, cr_prompted = False \<rparr>)"

definition run_inherit_tty :: "'w boot_env \<Rightarrow> bytes list \<Rightarrow> ('w boot, int) io" where
  "run_inherit_tty E argv =
    bindIO (worldIO (be_spawn_tty E (map c_str argv))) (\<lambda>r.
    case r of None \<Rightarrow> throwIO ''fork failed'' | Some status \<Rightarrow> returnIO (exit_code_of status))"

definition bash :: "bytes \<Rightarrow> bytes list" where
  "bash cmd = [str_bytes ''bash'', str_bytes ''-lc'', cmd]"

definition run_bash_with_sudo_fallback :: "'w boot_env \<Rightarrow> bytes \<Rightarrow> ('w boot, cmd_result) io" where
  "run_bash_with_sudo_fallback E cmd =
    bindIO (run_capture E (bash cmd)) (\<lambda>first.
    if cr_exit first = 0 then returnIO first
    else if \<not> looks_like_permission_error (cr_exit first) (cr_err first) then returnIO first
    else
      bindIO (run_capture E [str_bytes ''sudo'', str_bytes ''-n'', str_bytes ''true'']) (\<lambda>check.
      if cr_exit check = 0
      then bindIO (run_capture E ([str_bytes ''sudo'', str_bytes ''-n'', str_bytes ''--''] @ bash cmd)) (\<lambda>r.
        returnIO (r \<lparr> cr_sudo := True, cr_prompted := False \<rparr>))
      else bindIO (run_inherit_tty E ([str_bytes ''sudo'', str_bytes ''--''] @ bash cmd)) (\<lambda>code.
        returnIO \<lparr> cr_exit = code, cr_out = [], cr_err = [], cr_sudo = True, cr_prompted = True \<rparr>)))"

definition systemIO :: "'w boot_env \<Rightarrow> bytes \<Rightarrow> ('w boot, int) io" where
  "systemIO E cmd = worldIO (be_system E (c_str cmd))"

section \<open>Files\<close>

definition create_directories :: "'w boot_env \<Rightarrow> bytes \<Rightarrow> ('w boot, unit) io" where
  "create_directories E p =
    bindIO (worldIO (be_mkdirs E p)) (\<lambda>ok. if ok then returnIO () else throwIO ''filesystem_error'')"

definition remove_file :: "'w boot_env \<Rightarrow> bytes \<Rightarrow> ('w boot, unit) io" where
  "remove_file E p =
    bindIO (worldIO (be_remove E p)) (\<lambda>ok. if ok then returnIO () else throwIO ''filesystem_error'')"

definition write_file :: "'w boot_env \<Rightarrow> bytes \<Rightarrow> bytes \<Rightarrow> ('w boot, unit) io" where
  "write_file E p text =
    thenIO (create_directories E (parent_path p))
      (bindIO (worldIO (be_write E p text)) (\<lambda>ok.
        if ok then returnIO () else throwIO ''Failed to write to file''))"

definition read_file :: "'w boot_env \<Rightarrow> bytes \<Rightarrow> ('w boot, bytes) io" where
  "read_file E p =
    bindIO (askIO (be_read E p)) (\<lambda>t.
    case t of None \<Rightarrow> throwIO ''Could not read file'' | Some t \<Rightarrow> returnIO t)"

definition get_atlas_net_path :: "'w boot_env \<Rightarrow> bytes res" where
  "get_atlas_net_path E =
    (case be_root E of None \<Rightarrow> Inl (RuntimeError ''ATLASNET_ROOT must be defined'') | Some p \<Rightarrow> Inr p)"

definition get_exe_path :: "'w boot_env \<Rightarrow> bytes" where
  "get_exe_path E = parent_path (be_exe E)"

section \<open>The swarm\<close>

definition swarm_default_port :: nat where
  "swarm_default_port = 2377"

function swarm_port :: "(nat \<Rightarrow> bool) \<Rightarrow> nat \<Rightarrow> nat res" where
  "swarm_port in_use p =
    (if in_use p
     then if p + 1 > 2400 then Inl (RuntimeError ''No available ports found for swarm init'')
          else swarm_port in_use (p + 1)
     else Inr p)"
  by pat_completeness auto
termination
  by (relation "measure (\<lambda>(f, p). 2401 - p)") auto

declare swarm_port.simps [simp del]

text \<open>The interfaces with an IPv4 address.\<close>

definition ipv4_interface :: "net_interface \<Rightarrow> (bytes \<times> bytes) list res" where
  "ipv4_interface i =
    (case ni_addr i of
       None \<Rightarrow> Inr []
     | Some (family, text) \<Rightarrow>
         if family \<noteq> 2 then Inr []
         else (case (ni_name i, text) of
                 (None, _) \<Rightarrow> Inl (UB Null_Deref)
               | (_, None) \<Rightarrow> Inl (UB Indeterminate)
               | (Some n, Some t) \<Rightarrow> Inr [(n, t)]))"

definition swarm_init_body :: "bytes \<Rightarrow> nat \<Rightarrow> json" where
  "swarm_init_body ip port = JObj
    [(''AdvertiseAddr'', JStr (ip @ str_bytes '':'' @ dec_of port)),
     (''ListenAddr'', JStr (str_bytes ''0.0.0.0:'' @ dec_of port))]"

definition docker_info :: "'w boot_env \<Rightarrow> ('w boot, json) io" where
  "docker_info E =
    bindIO (dockerIO (docker_request (be_docker E) ''GET'' (str_bytes ''/info'') None [])) (\<lambda>resp.
      liftIO (docker_parse (be_docker E) resp))"

text \<open>The request that starts the swarm, and what is done with the reply.\<close>

definition send_swarm_init :: "'w boot_env \<Rightarrow> bytes \<Rightarrow> nat \<Rightarrow> ('w boot, unit) io" where
  "send_swarm_init E ip port =
    bindIO (dockerIO (docker_request (be_docker E) ''POST'' (str_bytes ''/swarm/init'')
      (Some (swarm_init_body ip port)) [])) (\<lambda>resp.
    case dk_parse (be_docker E) resp of
      None \<Rightarrow> returnIO ()
    | Some parsed \<Rightarrow>
        if j_contains parsed ''message''
        then bindIO (liftIO (bindE (j_key parsed ''message'') j_str)) (\<lambda>_. returnIO ())
        else bindIO (docker_info E) (\<lambda>info.
          bindIO (liftIO (bindE (j_key info ''Swarm'') (\<lambda>sw. bindE (j_key sw ''NodeAddr'') j_str))) (\<lambda>addr.
            modifyIO (\<lambda>s. s \<lparr> bt_manager := addr \<rparr>))))"

definition is_swarm_manager :: "json \<Rightarrow> bool res" where
  "is_swarm_manager info =
    bindE (bindE (j_key info ''Swarm'') (\<lambda>sw. j_key sw ''LocalNodeState'')) (\<lambda>state.
    if state \<noteq> JStr (str_bytes ''active'') then Inr False
    else bindE (bindE (j_key info ''Swarm'') (\<lambda>sw. j_key sw ''ControlAvailable'')) (\<lambda>c.
      Inr (c = JBool True)))"

definition configured_ip :: "bytes \<Rightarrow> (bytes \<times> bytes) list \<Rightarrow> bytes" where
  "configured_ip preferred available =
    (if preferred = [] then []
     else case find (\<lambda>i. fst i = preferred) available of None \<Rightarrow> [] | Some i \<Rightarrow> snd i)"

definition init_swarm :: "'w boot_env \<Rightarrow> ('w boot, unit) io" where
  "init_swarm E =
    bindIO (askIO (\<lambda>w. swarm_port (\<lambda>p. \<not> be_bind E p w) swarm_default_port)) (\<lambda>r.
    bindIO (liftIO r) (\<lambda>port.
    bindIO (run_bash_with_sudo_fallback E (str_bytes ''docker swarm leave --force >/dev/null 2>&1'')) (\<lambda>_.
    bindIO (docker_info E) (\<lambda>info.
    bindIO (liftIO (is_swarm_manager info)) (\<lambda>manager.
    if manager then returnIO ()
    else bindIO (getIO (\<lambda>s. if bt_multi s then st_interface (bt_settings s) else str_bytes ''lo'')) (\<lambda>preferred.
      case dk_interfaces (be_docker E) of
        None \<Rightarrow> returnIO ()
      | Some is \<Rightarrow>
          bindIO (liftIO (bindE (mapE ipv4_interface is) (\<lambda>is. Inr (concat is)))) (\<lambda>available.
          if configured_ip preferred available \<noteq> []
          then send_swarm_init E (configured_ip preferred available) port
          else if available = [] then returnIO ()
          else bindIO (worldIO (be_choose E)) (\<lambda>choice.
            if choice < 0 \<or> choice \<ge> int (length available) then returnIO ()
            else send_swarm_init E (snd (available ! nat choice)) port))))))))"

section \<open>The certificate of the registry\<close>

definition tls_directory :: "settings \<Rightarrow> bytes" where
  "tls_directory s = (case st_tls_dir s of None \<Rightarrow> str_bytes ''keys'' | Some d \<Rightarrow> d)"

definition cert_path :: "settings \<Rightarrow> bytes" where
  "cert_path s = tls_directory s @ str_bytes ''/server.crt''"

definition key_path :: "settings \<Rightarrow> bytes" where
  "key_path s = tls_directory s @ str_bytes ''/server.key''"

definition config_path :: "settings \<Rightarrow> bytes" where
  "config_path s = tls_directory s @ str_bytes ''/san.cnf''"

definition cert_command :: "settings \<Rightarrow> bytes" where
  "cert_command s = str_bytes ''openssl x509 -in '' @ [39] @ cert_path s @ [39] @
     str_bytes '' -noout -text | grep -A1 '' @ [39] @ str_bytes ''Subject Alternative Name'' @ [39]"

definition san_line :: "string \<Rightarrow> bytes" where
  "san_line t = str_bytes t @ [10]"

definition san_config :: "bytes \<Rightarrow> bytes \<Rightarrow> bytes" where
  "san_config hostname manager =
    san_line ''[ req ]'' @ san_line ''default_bits       = 4096'' @
    san_line ''distinguished_name = req_distinguished_name'' @ san_line ''req_extensions     = v3_req'' @
    san_line ''prompt             = no'' @ [10] @ san_line ''[ req_distinguished_name ]'' @
    str_bytes ''CN = '' @ hostname @ [10, 10] @ san_line ''[ v3_req ]'' @
    san_line ''subjectAltName = @alt_names'' @ [10] @ san_line ''[ alt_names ]'' @
    str_bytes ''DNS.1 = '' @ hostname @ [10] @ san_line ''DNS.2 = localhost'' @
    str_bytes ''IP.1 = '' @ manager @ [10]"

definition openssl_command :: "settings \<Rightarrow> bytes" where
  "openssl_command s =
    str_bytes ''openssl req -x509 -nodes -newkey rsa:4096 -keyout '' @ [39] @ key_path s @ [39] @
    str_bytes '' -out '' @ [39] @ cert_path s @ [39] @ str_bytes '' -days 3650 -config '' @ [39] @
    config_path s @ [39] @ str_bytes '' -extensions v3_req 2>&1''"

text \<open>Whether the certificate and the key are there, and whether they have to be made again.\<close>

definition have_certificate :: "'w boot_env \<Rightarrow> settings \<Rightarrow> ('w boot, bool) io" where
  "have_certificate E s = askIO (\<lambda>w. be_exists E (cert_path s) w \<and> be_exists E (key_path s) w)"

definition needs_regeneration :: "'w boot_env \<Rightarrow> settings \<Rightarrow> ('w boot, bool) io" where
  "needs_regeneration E st =
    bindIO (have_certificate E st) (\<lambda>there.
    if \<not> there then returnIO False
    else bindIO (run_bash_with_sudo_fallback E (cert_command st)) (\<lambda>res.
      if cr_exit res = 0
      then bindIO (getIO bt_manager) (\<lambda>manager. returnIO (\<not> contains_text manager (cr_err res)))
      else returnIO True))"

definition generate_certificate :: "'w boot_env \<Rightarrow> settings \<Rightarrow> ('w boot, unit) io" where
  "generate_certificate E st =
    thenIO (create_directories E (tls_directory st))
      (bindIO (run_bash_with_sudo_fallback E (str_bytes ''hostname'')) (\<lambda>res.
       bindIO (getIO bt_manager) (\<lambda>manager.
       bindIO (worldIO (be_write E (config_path st)
         (san_config (filter (\<lambda>c. c \<noteq> 10) (cr_out res)) manager))) (\<lambda>_.
       bindIO (run_bash_with_sudo_fallback E (c_str (openssl_command st))) (\<lambda>res.
         if cr_exit res \<noteq> 0 then throwIO ''TLS certificate generation failed'' else returnIO ())))))"

definition create_tls :: "'w boot_env \<Rightarrow> ('w boot, unit) io" where
  "create_tls E =
    bindIO (getIO bt_settings) (\<lambda>st.
    bindIO (needs_regeneration E st) (\<lambda>needs.
    thenIO (whenIO needs
        (catchIO (thenIO (remove_file E (cert_path st)) (remove_file E (key_path st))) (returnIO ())))
      (bindIO (have_certificate E st) (\<lambda>there.
        if \<not> needs \<and> there then returnIO () else generate_certificate E st))))"

section \<open>Network and registry\<close>

definition network_name :: bytes where
  "network_name = str_bytes ''AtlasNet''"

definition registry_service :: bytes where
  "registry_service = str_bytes ''atlasnet_registry''"

definition setup_network :: "'w boot_env \<Rightarrow> ('w boot, unit) io" where
  "setup_network E =
    bindIO (run_bash_with_sudo_fallback E
      (str_bytes ''docker network create -d overlay --attachable '' @ network_name)) (\<lambda>_. returnIO ())"

definition registry_command :: "'w boot_env \<Rightarrow> settings \<Rightarrow> bytes" where
  "registry_command E st =
    str_bytes ''docker service create --name '' @ registry_service @ str_bytes '' --network '' @ network_name @
    str_bytes '' -p 5000:5000 --mount type=volume,source=registry_data,target=/var/lib/registry'' @
    str_bytes '' --mount type=bind,source='' @ be_cwd E @ [47] @ cert_path st @
    str_bytes '',target=/certs/server.crt,readonly --mount type=bind,source='' @ be_cwd E @ [47] @ key_path st @
    str_bytes '',target=/certs/server.key,readonly --env REGISTRY_HTTP_ADDR=0.0.0.0:5000'' @
    str_bytes '' --env REGISTRY_HTTP_TLS_CERTIFICATE=/certs/server.crt'' @
    str_bytes '' --env REGISTRY_HTTP_TLS_KEY=/certs/server.key --constraint node.role==manager registry:2''"

definition registry_check :: bytes where
  "registry_check = str_bytes ''docker service ls --filter name='' @ registry_service @
     str_bytes '' --format '' @ [39] @ str_bytes ''{{.Name}}: {{.Replicas}}'' @ [39]"

definition setup_registry :: "'w boot_env \<Rightarrow> ('w boot, unit) io" where
  "setup_registry E =
    bindIO (systemIO E (str_bytes ''docker service rm '' @ registry_service @ str_bytes '' > /dev/null 2>&1'')) (\<lambda>_.
    bindIO (systemIO E (str_bytes ''docker volume create registry_data > /dev/null 2>&1'')) (\<lambda>volume.
    if volume \<noteq> 0 then returnIO ()
    else bindIO (getIO bt_settings) (\<lambda>st.
      bindIO (systemIO E (registry_command E st)) (\<lambda>created.
      if created \<noteq> 0 then returnIO ()
      else bindIO (run_bash_with_sudo_fallback E registry_check) (\<lambda>_. returnIO ())))))"

section \<open>Images\<close>

definition temp_dir :: bytes where
  "temp_dir = str_bytes ''/tmp/atlasnet/''"

definition docker_file :: "bytes \<Rightarrow> bytes" where
  "docker_file name = temp_dir @ name @ str_bytes ''.dockerfile''"

definition queue_docker_image_build ::
  "'w boot_env \<Rightarrow> bytes \<Rightarrow> bytes \<Rightarrow> bytes \<Rightarrow> bytes list \<Rightarrow> ('w boot, unit) io" where
  "queue_docker_image_build E content name dir depends =
    thenIO (write_file E (docker_file name) content)
      (modifyIO (\<lambda>s. s \<lparr> bt_images := bt_images s @
        [\<lparr> im_dockerfile = docker_file name, im_name = name, im_dir = dir, im_depends = depends \<rparr>] \<rparr>))"

text \<open>The targets of the bake file.\<close>

fun add_depends :: "bytes list \<Rightarrow> json list \<times> json \<Rightarrow> (json list \<times> json) res" where
  "add_depends [] (deps, contexts) = Inr (deps, contexts)"
| "add_depends (d # ds) (deps, contexts) =
    bindE (j_put contexts (bytes_str d) (JStr (str_bytes ''target:'' @ d))) (\<lambda>contexts.
      add_depends ds (deps @ [JStr d], contexts))"

definition bake_target :: "'w boot_env \<Rightarrow> image_build \<Rightarrow> json res" where
  "bake_target E im =
    bindE (absolute (be_cwd E) (im_dir im)) (\<lambda>dir.
    bindE (absolute (be_cwd E) (im_dockerfile im)) (\<lambda>file.
    bindE (add_depends (im_depends im) ([JStr (str_bytes ''atlasnetsdk'')],
        JObj [(''atlasnetsdk'', JStr (str_bytes ''image:atlasnetsdk''))])) (\<lambda>(deps, contexts).
      Inr (JObj [(''context'', JStr dir), (''dockerfile'', JStr file), (''tags'', JArr [JStr (im_name im)]),
        (''push'', JBool False), (''load'', JBool True), (''depends-on'', JArr deps),
        (''build-contexts'', contexts)]))))"

fun bake_targets :: "'w boot_env \<Rightarrow> image_build list \<Rightarrow> json \<Rightarrow> json list \<Rightarrow> (json \<times> json list) res" where
  "bake_targets E [] targets names = Inr (targets, names)"
| "bake_targets E (im # ims) targets names =
    bindE (bake_target E im) (\<lambda>t.
    bindE (j_put targets (bytes_str (im_name im)) t) (\<lambda>targets.
      bake_targets E ims targets (names @ [JStr (im_name im)])))"

definition bake_json :: "'w boot_env \<Rightarrow> image_build list \<Rightarrow> json res" where
  "bake_json E ims =
    bindE (bake_targets E ims JNull [JStr (str_bytes ''atlasnetsdk'')]) (\<lambda>(targets, names).
      Inr (JObj [(''target'', targets),
        (''group'', JObj [(''default'', JObj [(''targets'', JArr names)])])]))"

definition bake_command :: "'w boot_env \<Rightarrow> bytes \<Rightarrow> bytes list \<Rightarrow> image_build list \<Rightarrow> bytes" where
  "bake_command E root dirs ims =
    str_bytes ''docker buildx bake --file '' @ temp_dir @ str_bytes ''docker-bake.json --allow=fs.read='' @ root @
    str_bytes '' --allow=fs.read='' @ temp_dir @ str_bytes '' '' @
    concat (map (\<lambda>d. str_bytes ''--allow=fs.read='' @ d @ str_bytes '' '') dirs) @
    concat (map (\<lambda>im. 32 # im_name im) ims)"

definition sdk_dockerfile :: bytes where
  "sdk_dockerfile = str_bytes ''# Minimal atlasnetsdk stage'' @ [10] @
     str_bytes ''FROM scratch AS atlasnetsdk'' @ [10] @ str_bytes ''COPY . /''"

definition build_all_images :: "'w boot_env \<Rightarrow> ('w boot, unit) io" where
  "build_all_images E =
    bindIO (getIO bt_images) (\<lambda>ims.
    if ims = [] then returnIO ()
    else thenIO (write_file E (docker_file (str_bytes ''atlasnetsdk'')) sdk_dockerfile)
      (bindIO (liftIO (get_atlas_net_path E)) (\<lambda>root.
       bindIO (systemIO E (str_bytes ''docker build --load -f '' @ docker_file (str_bytes ''atlasnetsdk'') @
         str_bytes '' -t atlasnetsdk '' @ root)) (\<lambda>code.
       if code \<noteq> 0 then throwIO ''atlasnetsdk build failed''
       else bindIO (liftIO (bake_json E ims)) (\<lambda>bake.
         bindIO (liftIO (mapE (\<lambda>im. absolute (be_cwd E) (im_dir im)) ims)) (\<lambda>dirs.
         thenIO (write_file E (temp_dir @ str_bytes ''docker-bake.json'') (dk_dump (be_docker E) bake))
           (bindIO (systemIO E (bake_command E root (be_order E (set dirs)) ims)) (\<lambda>code.
             if code \<noteq> 0 then throwIO ''Buildx bake failed'' else returnIO ()))))))))"

definition build_docker_image_locally ::
  "'w boot_env \<Rightarrow> bytes \<Rightarrow> bytes \<Rightarrow> bytes \<Rightarrow> ('w boot, unit) io" where
  "build_docker_image_locally E content name dir =
    thenIO (write_file E (docker_file name) content)
      (bindIO (liftIO (absolute (be_cwd E) dir)) (\<lambda>dir.
       bindIO (liftIO (absolute (be_cwd E) (docker_file name))) (\<lambda>file.
       bindIO (systemIO E (str_bytes ''cd '' @ dir @ str_bytes '' && docker buildx build -f '' @ file @
         str_bytes '' -t '' @ name @ str_bytes ''  .'')) (\<lambda>code.
         if code \<noteq> 0 then throwIO ''Docker build failed'' else returnIO ()))))"

definition build_game_server :: "'w boot_env \<Rightarrow> ('w boot, unit) io" where
  "build_game_server E =
    bindIO (getIO bt_task) (\<lambda>t.
    bindIO (read_file E (parent_path (tk_path t) @ [47] @ tk_dockerfile t)) (\<lambda>content.
    bindIO (macroIO content
      [(str_bytes ''GAME_SERVER_ENTRYPOINT'', tx_entry_point (be_texts E)),
       (str_bytes ''GAME_SERVER_RUN_COMMAND'', concat (map (\<lambda>x. x @ [32]) (tk_command t # tk_args t))),
       (str_bytes ''GAME_SERVER_WORK_DIR'', tk_workdir t)]) (\<lambda>content.
      build_docker_image_locally E content (str_bytes ''shard_game_server'') (parent_path (tk_path t)))))"

definition build_images :: "'w boot_env \<Rightarrow> ('w boot, unit) io" where
  "build_images E =
    (let tx = be_texts E; dir = parent_path (get_exe_path E)
     in thenIO (queue_docker_image_build E (tx_watchdog tx) (str_bytes ''watchdog'') dir [])
       (thenIO (queue_docker_image_build E (tx_shard tx) (str_bytes ''shard'') dir [])
       (thenIO (queue_docker_image_build E (tx_proxy tx) (str_bytes ''proxy'') dir [])
       (thenIO (queue_docker_image_build E (tx_cartograph tx) (str_bytes ''cartograph'') dir [])
       (thenIO (build_all_images E) (build_game_server E))))))"

section \<open>Start\<close>

definition deploy_stack :: "'w boot_env \<Rightarrow> ('w boot, unit) io" where
  "deploy_stack E =
    bindIO (getIO (\<lambda>s. db_enable (st_db (bt_settings s)))) (\<lambda>enable.
    case enable of
      None \<Rightarrow> liftIO (Inl (UB Indeterminate))
    | Some b \<Rightarrow>
        bindIO (macroIO (tx_stack (be_texts E))
          [(str_bytes ''BUILTIN_DB_STACK'', if b then tx_database (be_texts E) else [])]) (\<lambda>stack.
        thenIO (create_directories E temp_dir)
          (bindIO (worldIO (be_write E (temp_dir @ str_bytes ''stack.yml'') stack)) (\<lambda>ok.
           if \<not> ok then throwIO ''Failed to save stack yml file''
           else bindIO (systemIO E (str_bytes ''docker stack deploy --detach=true -c '' @ temp_dir @
             str_bytes ''stack.yml atlasnet'')) (\<lambda>_. returnIO ())))))"

definition task_file_path :: "bytes option \<Rightarrow> settings \<Rightarrow> bytes" where
  "task_file_path path s =
    parent_path (case path of None \<Rightarrow> str_bytes ''./AtlasNetSettings'' | Some p \<Rightarrow> p) @ [47] @ st_task_file s"

definition load_files :: "'w boot_env \<Rightarrow> bytes option \<Rightarrow> ('w boot, unit) io" where
  "load_files E path =
    bindIO (askIO (\<lambda>w. parse_settings_file (dk_parse (be_docker E))
      (be_read E (case path of None \<Rightarrow> str_bytes ''./AtlasNetSettings.json'' | Some p \<Rightarrow> p) w))) (\<lambda>r.
    bindIO (liftIO r) (\<lambda>st.
    thenIO (modifyIO (\<lambda>s. s \<lparr> bt_settings := st \<rparr>))
      (bindIO (askIO (\<lambda>w. parse_task_file (dk_parse (be_docker E)) (dk_dump (be_docker E))
         (task_file_path path st) (be_read E (task_file_path path st) w))) (\<lambda>r.
       bindIO (liftIO r) (\<lambda>t.
         modifyIO (\<lambda>s. s \<lparr> bt_task := t, bt_multi := (st_workers st \<noteq> []) \<rparr>))))))"

definition run :: "'w boot_env \<Rightarrow> bytes option \<Rightarrow> ('w boot, unit) io" where
  "run E path =
    thenIO (load_files E path)
      (bindIO (getIO bt_multi) (\<lambda>multi.
       thenIO (init_swarm E)
       (thenIO (whenIO multi (create_tls E))
       (thenIO (setup_network E)
       (thenIO (whenIO multi (setup_registry E))
       (thenIO (build_images E) (deploy_stack E)))))))"

text \<open>The settings file named on the command line, the argument after the first flag. An argument that
  is not there is a null pointer.\<close>

fun settings_argument :: "bytes list \<Rightarrow> bytes option res" where
  "settings_argument [] = Inr None"
| "settings_argument (a # as) =
    (if a = str_bytes ''-f''
     then case as of [] \<Rightarrow> Inl (UB Null_Deref) | p # _ \<Rightarrow> Inr (Some p)
     else settings_argument as)"

definition boot_main :: "'w boot_env \<Rightarrow> bytes list \<Rightarrow> ('w boot, unit) io" where
  "boot_main E argv = bindIO (liftIO (settings_argument argv)) (run E)"

section \<open>Lemmas\<close>

lemma askIO_simp [simp]: "askIO f s = (Inr (f (dk_world (bt_docker s))), s)"
  by (simp add: askIO_def)

text \<open>What no command changes: every part of the state but the world.\<close>

definition same_boot :: "'w boot \<Rightarrow> 'w boot \<Rightarrow> bool" where
  "same_boot s s' \<longleftrightarrow> bt_settings s' = bt_settings s \<and> bt_task s' = bt_task s \<and> bt_multi s' = bt_multi s \<and>
    bt_manager s' = bt_manager s \<and> bt_images s' = bt_images s"

definition keeps_boot :: "('w boot, 'a) io \<Rightarrow> bool" where
  "keeps_boot m \<longleftrightarrow> (\<forall>s. same_boot s (snd (m s)))"

named_theorems boot_keeps \<open>calls that only change the world\<close>

lemma boot_keeps_bind [boot_keeps]: "keeps_boot m \<Longrightarrow> (\<And>a. keeps_boot (f a)) \<Longrightarrow> keeps_boot (bindIO m f)"
  unfolding keeps_boot_def bindIO_def
  by (auto simp: same_boot_def split: prod.splits sum.splits) (metis snd_conv)+

lemma boot_keeps_then [boot_keeps]: "keeps_boot m \<Longrightarrow> keeps_boot k \<Longrightarrow> keeps_boot (thenIO m k)"
  unfolding thenIO_def by (intro boot_keeps)

lemma boot_keeps_basic [boot_keeps]:
  "keeps_boot (returnIO a)" "keeps_boot (liftIO r)" "keeps_boot (worldIO f)" "keeps_boot (askIO g)"
  "keeps_boot (getIO h)" "keeps_boot (throwIO e)" "keeps_boot (dockerIO d)"
  by (auto simp: keeps_boot_def same_boot_def worldIO_def dockerIO_def split: prod.split)

lemma boot_keeps_if [boot_keeps]: "keeps_boot m \<Longrightarrow> keeps_boot n \<Longrightarrow> keeps_boot (if b then m else n)"
  by simp

lemma boot_keeps_commands [boot_keeps]: "keeps_boot (run_capture E argv)" "keeps_boot (run_inherit_tty E argv)"
  unfolding run_capture_def run_inherit_tty_def
  by (auto intro!: boot_keeps split: sum.split option.split)

lemma boot_keeps_bash [boot_keeps]: "keeps_boot (run_bash_with_sudo_fallback E cmd)"
  unfolding run_bash_with_sudo_fallback_def by (intro boot_keeps)

lemma boot_keeps_write [boot_keeps]: "keeps_boot (write_file E p t)"
  unfolding write_file_def create_directories_def by (intro boot_keeps)

lemma keepsD: "keeps_boot m \<Longrightarrow> m s = (r, s') \<Longrightarrow> same_boot s s'"
  by (metis keeps_boot_def snd_conv)

text \<open>The port of the swarm is the first one that can be bound.\<close>

lemma swarm_port_first:
  assumes "p \<le> 2400"
  shows "(swarm_port in_use p = Inr q \<longleftrightarrow> p \<le> q \<and> q \<le> 2400 \<and> \<not> in_use q \<and> (\<forall>r. p \<le> r \<and> r < q \<longrightarrow> in_use r)) \<and>
    ((\<exists>e. swarm_port in_use p = Inl e) \<longleftrightarrow> (\<forall>r. p \<le> r \<and> r \<le> 2400 \<longrightarrow> in_use r))"
  using assms
proof (induction in_use p rule: swarm_port.induct)
  case (1 in_use p)
  have later: "(\<forall>r. p \<le> r \<and> P r \<longrightarrow> in_use r) \<longleftrightarrow> (\<forall>r. p + 1 \<le> r \<and> P r \<longrightarrow> in_use r)" if "in_use p" for P
    using that by (metis Suc_eq_plus1 Suc_le_eq Suc_leD le_neq_implies_less)
  consider (more) "in_use p" "p < 2400" | (full) "in_use p" "p = 2400" | (free) "\<not> in_use p"
    using 1(2) by linarith
  then show ?case
  proof cases
    case more
    then have "swarm_port in_use p = swarm_port in_use (p + 1)" by (subst swarm_port.simps) simp
    moreover have "p \<le> q \<and> \<not> in_use q \<longleftrightarrow> p + 1 \<le> q \<and> \<not> in_use q"
      using more(1) by (metis Suc_eq_plus1 Suc_le_eq Suc_leD le_neq_implies_less)
    ultimately show ?thesis
      using 1(1) more later [of "\<lambda>r. r < q"] later [of "\<lambda>r. r \<le> 2400"] by auto
  next
    case full
    then have "\<exists>e. swarm_port in_use p = Inl e" by (subst swarm_port.simps) simp
    moreover have "in_use r" if "p \<le> r" "r \<le> 2400" for r using full that by simp
    ultimately show ?thesis by auto
  next
    case free
    then have "swarm_port in_use p = Inr p" by (subst swarm_port.simps) simp
    then show ?thesis using free 1(2) by (auto simp: not_less intro: Nat.le_antisym)
  qed
qed

text \<open>What the reader of a bake file finds for an image.\<close>

definition bake_lookup :: "json \<Rightarrow> bytes \<Rightarrow> json option" where
  "bake_lookup j name = Option.bind (j_field ''target'' j) (j_field (bytes_str name))"

lemma add_depends_object:
  "\<exists>kvs'. add_depends ds (deps, JObj kvs) = Inr (deps @ map JStr ds, JObj kvs')"
proof (induction ds arbitrary: deps kvs)
  case (Cons d ds)
  show ?case using Cons [of "deps @ [JStr d]" "AList.update (bytes_str d) (JStr (str_bytes ''target:'' @ d)) kvs"]
    by simp
qed simp

lemma bake_target_ok:
  assumes "im_dir im \<noteq> []" and "im_dockerfile im \<noteq> []"
  shows "\<exists>t. bake_target E im = Inr t \<and> j_field ''tags'' t = Some (JArr [JStr (im_name im)]) \<and>
    j_field ''depends-on'' t = Some (JArr (JStr (str_bytes ''atlasnetsdk'') # map JStr (im_depends im)))"
proof -
  have "\<exists>d. absolute (be_cwd E) p = Inr d" if "p \<noteq> []" for p using that by (simp add: absolute_def)
  then obtain d f where "absolute (be_cwd E) (im_dir im) = Inr d" "absolute (be_cwd E) (im_dockerfile im) = Inr f"
    using assms by blast
  moreover obtain kvs' where "add_depends (im_depends im) ([JStr (str_bytes ''atlasnetsdk'')],
      JObj [(''atlasnetsdk'', JStr (str_bytes ''image:atlasnetsdk''))]) =
      Inr ([JStr (str_bytes ''atlasnetsdk'')] @ map JStr (im_depends im), JObj kvs')"
    using add_depends_object by blast
  ultimately show ?thesis by (simp add: bake_target_def)
qed

text \<open>The targets already there are kept, and every image gets its own.\<close>

lemma bake_targets_ok:
  assumes "distinct (map im_name ims)" and "\<forall>im\<in>set ims. im_dir im \<noteq> [] \<and> im_dockerfile im \<noteq> []"
    and "targets = JNull \<or> (\<exists>kvs. targets = JObj kvs)"
  shows "\<exists>r. bake_targets E ims targets names = Inr (r, names @ map (\<lambda>im. JStr (im_name im)) ims) \<and>
    (\<forall>im\<in>set ims. \<exists>t. bake_target E im = Inr t \<and> j_field (bytes_str (im_name im)) r = Some t) \<and>
    (\<forall>k. k \<notin> im_name ` set ims \<longrightarrow> j_field (bytes_str k) r = j_field (bytes_str k) targets)"
  using assms
proof (induction ims arbitrary: targets names)
  case (Cons im ims)
  obtain t where t: "bake_target E im = Inr t" using bake_target_ok [of im E] Cons.prems(2) by auto
  obtain kvs where put: "j_put targets (bytes_str (im_name im)) t = Inr (JObj kvs)"
    and k: "map_of kvs = (case targets of JObj old \<Rightarrow> map_of old | _ \<Rightarrow> Map.empty)(bytes_str (im_name im) \<mapsto> t)"
    using Cons.prems(3) by (auto simp: update_conv')
  have keep: "j_field (bytes_str n) (JObj kvs) = (if n = im_name im then Some t else j_field (bytes_str n) targets)" for n
    using Cons.prems(3) k by (auto simp: bytes_str_inj)
  obtain r where r: "bake_targets E ims (JObj kvs) (names @ [JStr (im_name im)]) =
        Inr (r, (names @ [JStr (im_name im)]) @ map (\<lambda>im. JStr (im_name im)) ims)"
      "\<forall>im\<in>set ims. \<exists>t. bake_target E im = Inr t \<and> j_field (bytes_str (im_name im)) r = Some t"
      "\<forall>k. k \<notin> im_name ` set ims \<longrightarrow> j_field (bytes_str k) r = j_field (bytes_str k) (JObj kvs)"
    using Cons.IH [of "JObj kvs" "names @ [JStr (im_name im)]"] Cons.prems by auto
  have "bake_targets E (im # ims) targets names = Inr (r, names @ map (\<lambda>im. JStr (im_name im)) (im # ims))"
    using t put r(1) by simp
  moreover have "j_field (bytes_str (im_name im)) r = Some t" using r(3) keep [of "im_name im"] Cons.prems(1) by auto
  moreover have "j_field (bytes_str n) r = j_field (bytes_str n) targets" if "n \<notin> im_name ` set (im # ims)" for n
    using r(3) keep [of n] that by auto
  ultimately show ?case using r(2) t by auto
qed simp

lemma bake_json_ok:
  assumes "distinct (map im_name ims)" and "\<forall>im\<in>set ims. im_dir im \<noteq> [] \<and> im_dockerfile im \<noteq> []"
  shows "\<exists>j. bake_json E ims = Inr j \<and>
    (\<forall>im\<in>set ims. \<exists>t. bake_target E im = Inr t \<and> bake_lookup j (im_name im) = Some t \<and>
      j_field ''tags'' t = Some (JArr [JStr (im_name im)]) \<and>
      j_field ''depends-on'' t = Some (JArr (JStr (str_bytes ''atlasnetsdk'') # map JStr (im_depends im))))"
proof -
  obtain r where r: "bake_targets E ims JNull [JStr (str_bytes ''atlasnetsdk'')] =
        Inr (r, JStr (str_bytes ''atlasnetsdk'') # map (\<lambda>im. JStr (im_name im)) ims)"
      "\<forall>im\<in>set ims. \<exists>t. bake_target E im = Inr t \<and> j_field (bytes_str (im_name im)) r = Some t"
    using bake_targets_ok [OF assms, of JNull E "[JStr (str_bytes ''atlasnetsdk'')]"] by auto
  have "\<exists>t. bake_target E im = Inr t \<and> j_field (bytes_str (im_name im)) r = Some t \<and>
      j_field ''tags'' t = Some (JArr [JStr (im_name im)]) \<and>
      j_field ''depends-on'' t = Some (JArr (JStr (str_bytes ''atlasnetsdk'') # map JStr (im_depends im)))"
    if "im \<in> set ims" for im
    using r(2) bake_target_ok [of im E] assms(2) that by fastforce
  then show ?thesis using r(1) by (simp add: bake_json_def bake_lookup_def)
qed

text \<open>After the four images are queued there is something to build.\<close>

lemma queue_returns:
  assumes "queue_docker_image_build E c n d ds s = (Inr (), s')"
  shows "bt_images s' = bt_images s @ [\<lparr> im_dockerfile = docker_file n, im_name = n, im_dir = d, im_depends = ds \<rparr>]"
proof -
  obtain t where w: "write_file E (docker_file n) c s = (Inr (), t)"
      and "s' = t \<lparr> bt_images := bt_images t @ [\<lparr> im_dockerfile = docker_file n, im_name = n, im_dir = d, im_depends = ds \<rparr>] \<rparr>"
    using assms unfolding queue_docker_image_build_def by (elim thenIO_returns) simp
  then show ?thesis using keepsD [OF boot_keeps_write w] by (simp add: same_boot_def)
qed

lemma build_all_needs_bake:
  assumes "build_all_images E s = (Inr (), s')" and "bt_images s \<noteq> []"
  obtains root dirs w where "fst (be_system E (c_str (bake_command E root dirs (bt_images s))) w) = 0"
proof -
  obtain t root dirs where "systemIO E (bake_command E root dirs (bt_images s)) t = (Inr 0, s')"
    using assms unfolding build_all_images_def
    by (elim bindIO_returns thenIO_returns) (auto elim!: bindIO_returns thenIO_returns split: if_splits)
  then have "fst (be_system E (c_str (bake_command E root dirs (bt_images s))) (dk_world (bt_docker t))) = 0"
    by (auto simp: systemIO_def worldIO_def split: prod.splits)
  then show ?thesis by (rule that)
qed

lemma c_str_bake: "prefix (str_bytes ''docker buildx bake'') (c_str (bake_command E root dirs ims))"
proof -
  have "c_str (str_bytes ''docker buildx bake'' @ r) = str_bytes ''docker buildx bake'' @ c_str r" for r
    unfolding c_str_def by (rule takeWhile_append2) (auto simp: str_bytes_def)
  moreover have "\<exists>r. bake_command E root dirs ims = str_bytes ''docker buildx bake'' @ r"
    by (simp add: bake_command_def str_bytes_def)
  ultimately show ?thesis by (metis prefixI)
qed

section \<open>What a start leaves alone\<close>

definition deploy_text :: bytes where
  "deploy_text = str_bytes ''docker stack deploy''"

text \<open>A condition on the world that nothing breaks but the command that deploys the stack.\<close>

definition only_deploy_breaks :: "('w \<Rightarrow> bool) \<Rightarrow> 'w boot_env \<Rightarrow> bool" where
  "only_deploy_breaks P E \<longleftrightarrow>
    (\<forall>w. P w \<longrightarrow>
      (\<forall>argv. P (snd (be_spawn E argv w)) \<and> P (snd (be_spawn_tty E argv w))) \<and>
      (\<forall>c. \<not> prefix deploy_text c \<longrightarrow> P (snd (be_system E c w))) \<and>
      (\<forall>p t. P (snd (be_write E p t w)) \<and> P (snd (be_mkdirs E p w)) \<and> P (snd (be_remove E p w))) \<and>
      P (snd (be_choose E w)) \<and> P (snd (dk_curl_init (be_docker E) w)) \<and>
      (\<forall>r. P (snd (dk_perform (be_docker E) r w))))"

abbreviation world_of :: "'w boot \<Rightarrow> 'w" where
  "world_of s \<equiv> dk_world (bt_docker s)"

definition keeps_world :: "('w \<Rightarrow> bool) \<Rightarrow> ('w boot, 'a) io \<Rightarrow> bool" where
  "keeps_world P m \<longleftrightarrow> (\<forall>s. P (world_of s) \<longrightarrow> P (world_of (snd (m s))))"

named_theorems world_keeps \<open>calls that keep a condition on the world\<close>

lemma world_keeps_bind [world_keeps]:
  assumes "keeps_world P m" and "\<And>a. keeps_world P (f a)"
  shows "keeps_world P (bindIO m f)"
  unfolding keeps_world_def
proof (intro allI impI)
  fix s :: "'a boot" assume "P (world_of s)"
  then have "P (world_of (snd (m s)))" using assms(1) by (simp add: keeps_world_def)
  then show "P (world_of (snd (bindIO m f s)))"
    using assms(2) by (cases "m s"; cases "fst (m s)") (auto simp: bindIO_def keeps_world_def)
qed

lemma world_keeps_then [world_keeps]: "keeps_world P m \<Longrightarrow> keeps_world P k \<Longrightarrow> keeps_world P (thenIO m k)"
  unfolding thenIO_def by (intro world_keeps)

lemma world_keeps_catch [world_keeps]:
  assumes "keeps_world P m" and "keeps_world P h"
  shows "keeps_world P (catchIO m h)"
  unfolding keeps_world_def
proof (intro allI impI)
  fix s :: "'a boot" assume "P (world_of s)"
  then have "P (world_of (snd (m s)))" using assms(1) by (simp add: keeps_world_def)
  then show "P (world_of (snd (catchIO m h s)))"
    using assms(2) by (cases "m s"; cases "fst (m s)") (auto simp: catchIO_def keeps_world_def)
qed

lemma world_keeps_basic [world_keeps]:
  "keeps_world P (returnIO a)" "keeps_world P (liftIO r)" "keeps_world P (askIO g)" "keeps_world P (getIO h)"
  "keeps_world P (throwIO e)" "(\<And>s. bt_docker (u s) = bt_docker s) \<Longrightarrow> keeps_world P (modifyIO u)"
  "keeps_world P m \<Longrightarrow> keeps_world P (whenIO b m)" "keeps_world P (macroIO t ms)"
  by (simp_all add: keeps_world_def whenIO_def macroIO_def)

lemma world_keeps_if [world_keeps]: "keeps_world P m \<Longrightarrow> keeps_world P n \<Longrightarrow> keeps_world P (if b then m else n)"
  by simp

lemma world_keeps_cases [world_keeps]:
  "keeps_world P m \<Longrightarrow> (\<And>x. keeps_world P (f x)) \<Longrightarrow> keeps_world P (case o' of None \<Rightarrow> m | Some x \<Rightarrow> f x)"
  "(\<And>e. keeps_world P (g e)) \<Longrightarrow> (\<And>x. keeps_world P (f' x)) \<Longrightarrow>
    keeps_world P (case r of Inl e \<Rightarrow> g e | Inr x \<Rightarrow> f' x)"
  "(\<And>a b. keeps_world P (h a b)) \<Longrightarrow> keeps_world P (case p of (a, b) \<Rightarrow> h a b)"
  by (simp_all split: option.split sum.split prod.split)

lemma world_keeps_world:
  "(\<And>w. P w \<Longrightarrow> P (snd (f w))) \<Longrightarrow> keeps_world P (worldIO f)"
  by (simp add: keeps_world_def worldIO_def split: prod.split) (metis snd_conv)

lemma world_keeps_request:
  assumes "only_deploy_breaks P E"
  shows "keeps_world P (dockerIO (docker_request (be_docker E) method endpoint body extra))"
  using assms
  by (auto simp: keeps_world_def dockerIO_def docker_request_def Let_def only_deploy_breaks_def split: prod.split)
    (metis snd_conv)+

lemma world_keeps_calls:
  assumes "only_deploy_breaks P E"
  shows "keeps_world P (run_capture E argv)" and "keeps_world P (run_inherit_tty E argv)"
    and "keeps_world P (create_directories E p)" and "keeps_world P (remove_file E p)"
    and "keeps_world P (worldIO (be_write E p t))" and "keeps_world P (worldIO (be_choose E))"
    and "\<not> prefix deploy_text (c_str c) \<Longrightarrow> keeps_world P (systemIO E c)"
  unfolding run_capture_def run_inherit_tty_def create_directories_def remove_file_def systemIO_def
  using assms by (auto simp: only_deploy_breaks_def intro!: world_keeps world_keeps_world)

lemma world_keeps_bash:
  assumes "only_deploy_breaks P E"
  shows "keeps_world P (run_bash_with_sudo_fallback E cmd)"
  unfolding run_bash_with_sudo_fallback_def by (intro world_keeps world_keeps_calls [OF assms])

lemma world_keeps_files:
  assumes "only_deploy_breaks P E"
  shows "keeps_world P (write_file E p t)" and "keeps_world P (read_file E p)"
  unfolding write_file_def read_file_def by (intro world_keeps world_keeps_calls [OF assms])+

lemma world_keeps_swarm:
  assumes "only_deploy_breaks P E"
  shows "keeps_world P (init_swarm E)"
  unfolding init_swarm_def send_swarm_init_def docker_info_def
  by (intro world_keeps world_keeps_calls [OF assms] world_keeps_bash [OF assms] world_keeps_request [OF assms]) simp_all

lemma world_keeps_tls:
  assumes "only_deploy_breaks P E"
  shows "keeps_world P (create_tls E)"
  unfolding create_tls_def needs_regeneration_def have_certificate_def generate_certificate_def
  by (intro world_keeps world_keeps_calls [OF assms] world_keeps_bash [OF assms])

text \<open>None of the other commands deploys.\<close>

lemma other_commands:
  "\<not> prefix deploy_text (c_str (str_bytes ''docker service rm '' @ r))"
  "\<not> prefix deploy_text (c_str (str_bytes ''docker volume create registry_data > /dev/null 2>&1''))"
  "\<not> prefix deploy_text (c_str (registry_command E st))"
  "\<not> prefix deploy_text (c_str (str_bytes ''docker build --load -f '' @ r))"
  "\<not> prefix deploy_text (c_str (bake_command E root dirs ims))"
  "\<not> prefix deploy_text (c_str (str_bytes ''cd '' @ r))"
  by (simp_all add: deploy_text_def c_str_def str_bytes_def registry_command_def bake_command_def)

lemma world_keeps_registry:
  assumes "only_deploy_breaks P E"
  shows "keeps_world P (setup_registry E)" "keeps_world P (setup_network E)"
  unfolding setup_registry_def setup_network_def
  by (intro world_keeps world_keeps_calls [OF assms] world_keeps_bash [OF assms] other_commands)+

lemma world_keeps_images:
  assumes "only_deploy_breaks P E"
  shows "keeps_world P (build_images E)"
  unfolding build_images_def Let_def queue_docker_image_build_def build_all_images_def build_game_server_def
    build_docker_image_locally_def
  by (intro world_keeps world_keeps_calls [OF assms] world_keeps_files [OF assms] other_commands) simp_all

lemma world_keeps_load: "keeps_world P (load_files E path)"
  unfolding load_files_def by (intro world_keeps) simp_all

text \<open>What follows a call that never returns normally is not run.\<close>

lemma then_never:
  assumes "\<And>s. fst (m s) \<noteq> Inr ()" and "keeps_world P m"
  shows "keeps_world P (thenIO m k)"
  unfolding keeps_world_def
proof (intro allI impI)
  fix s :: "'a boot" assume "P (world_of s)"
  then have "P (world_of (snd (m s)))" using assms(2) by (simp add: keeps_world_def)
  moreover obtain e where "fst (m s) = Inl e" using assms(1) [of s] by (cases "fst (m s)") auto
  ultimately show "P (world_of (snd (thenIO m k s)))"
    by (cases "m s") (auto simp: thenIO_def bindIO_def)
qed

text \<open>The three kinds of commands that build images, by how they begin.\<close>

definition build_texts :: "bytes set" where
  "build_texts = {str_bytes ''docker build --load'', str_bytes ''docker buildx bake'', str_bytes ''cd ''}"

lemma c_str_literal:
  assumes "list_all (\<lambda>b. b \<noteq> 0) a"
  shows "prefix a (c_str (a @ r))"
  using assms by (simp add: c_str_def list_all_iff takeWhile_append2)

lemma build_all_needs_sdk:
  assumes "build_all_images E s = (Inr (), s')" and "bt_images s \<noteq> []"
  obtains r w where "fst (be_system E (c_str (str_bytes ''docker build --load'' @ r)) w) = 0"
proof -
  obtain t u root where "systemIO E (str_bytes ''docker build --load -f '' @ docker_file (str_bytes ''atlasnetsdk'') @
         str_bytes '' -t atlasnetsdk '' @ root) t = (Inr 0, u)"
    using assms unfolding build_all_images_def
    by (elim bindIO_returns thenIO_returns) (auto elim!: bindIO_returns thenIO_returns split: if_splits)
  then have "fst (be_system E (c_str (str_bytes ''docker build --load -f '' @ docker_file (str_bytes ''atlasnetsdk'') @
         str_bytes '' -t atlasnetsdk '' @ root)) (world_of t)) = 0"
    by (auto simp: systemIO_def worldIO_def split: prod.splits)
  then show ?thesis
    by (intro that [of "str_bytes '' -f '' @ docker_file (str_bytes ''atlasnetsdk'') @ str_bytes '' -t atlasnetsdk '' @ root"])
      (simp add: str_bytes_def)
qed

lemma game_server_needs_build:
  assumes "build_game_server E s = (Inr (), s')"
  obtains r w where "fst (be_system E (c_str (str_bytes ''cd '' @ r)) w) = 0"
proof -
  obtain t r where "systemIO E (str_bytes ''cd '' @ r) t = (Inr 0, s')"
    using assms unfolding build_game_server_def build_docker_image_locally_def
    by (elim bindIO_returns thenIO_returns) (auto elim!: bindIO_returns thenIO_returns split: if_splits)
  then have "fst (be_system E (c_str (str_bytes ''cd '' @ r)) (world_of t)) = 0"
    by (auto simp: systemIO_def worldIO_def split: prod.splits)
  then show ?thesis by (rule that)
qed

lemma build_images_fails:
  assumes "pre \<in> build_texts" and "\<And>c w. prefix pre c \<Longrightarrow> fst (be_system E c w) \<noteq> 0"
  shows "fst (build_images E s) \<noteq> Inr ()"
proof
  assume "fst (build_images E s) = Inr ()"
  then obtain s' where "build_images E s = (Inr (), s')" by (cases "build_images E s") simp
  then obtain t u v where all: "build_all_images E t = (Inr (), u)" "bt_images t \<noteq> []"
    and game: "build_game_server E u = (Inr (), v)"
    unfolding build_images_def Let_def by (elim thenIO_returns) (auto dest!: queue_returns)
  have nz: "list_all (\<lambda>b. b \<noteq> 0) (str_bytes ''docker build --load'')" "list_all (\<lambda>b. b \<noteq> 0) (str_bytes ''cd '')"
    by (simp_all add: str_bytes_def)
  consider "pre = str_bytes ''docker build --load''" | "pre = str_bytes ''docker buildx bake''" | "pre = str_bytes ''cd ''"
    using assms(1) by (auto simp: build_texts_def)
  then show False
  proof cases
    case 1
    obtain r w where "fst (be_system E (c_str (str_bytes ''docker build --load'' @ r)) w) = 0"
      by (rule build_all_needs_sdk [OF all])
    then show False using assms(2) c_str_literal [OF nz(1)] unfolding 1 by blast
  next
    case 2
    then show False using build_all_needs_bake [OF all] assms(2) c_str_bake by metis
  next
    case 3
    obtain r w where "fst (be_system E (c_str (str_bytes ''cd '' @ r)) w) = 0"
      by (rule game_server_needs_build [OF game])
    then show False using assms(2) c_str_literal [OF nz(2)] unfolding 3 by blast
  qed
qed

section \<open>Properties\<close>

text \<open>A command is repeated with \<open>sudo\<close> exactly when its own run failed in a way that looks like
  a missing permission; otherwise the result is that of the one run, and nothing else is executed.\<close>

theorem sudo_only_on_permission:
  assumes "run_capture E (bash cmd) s = (Inr first, t)"
    and "run_bash_with_sudo_fallback E cmd s = (Inr r, s')"
  shows "(cr_sudo r \<longleftrightarrow> cr_exit first \<noteq> 0 \<and> looks_like_permission_error (cr_exit first) (cr_err first)) \<and>
    (if cr_sudo r then cr_prompted r = (\<exists>c u. run_capture E [str_bytes ''sudo'', str_bytes ''-n'', str_bytes ''true''] t = (Inr c, u)
         \<and> cr_exit c \<noteq> 0)
     else r = first \<and> s' = t)"
proof -
  have plain: "\<not> cr_sudo first"
    using assms(1) unfolding run_capture_def by (elim bindIO_returns) (auto split: sum.splits)
  show ?thesis
  proof (cases "cr_exit first \<noteq> 0 \<and> looks_like_permission_error (cr_exit first) (cr_err first)")
    case False
    then have "run_bash_with_sudo_fallback E cmd s = (Inr first, t)"
      by (auto simp: run_bash_with_sudo_fallback_def io_simps(3) [where m = "run_capture E (bash cmd)", OF assms(1)])
    then show ?thesis using assms(2) plain False by simp
  next
    case True
    then show ?thesis using assms(2)
      by (auto simp: run_bash_with_sudo_fallback_def io_simps(3) [where m = "run_capture E (bash cmd)", OF assms(1)]
          elim!: bindIO_returns split: if_splits)
  qed
qed

text \<open>The swarm listens on the first port from 2377 to 2400 that can be bound, and the start fails
  when there is none; the search always ends.\<close>

theorem swarm_port_search:
  "(swarm_port in_use swarm_default_port = Inr q \<longleftrightarrow>
     2377 \<le> q \<and> q \<le> 2400 \<and> \<not> in_use q \<and> {2377..<q} \<subseteq> Collect in_use) \<and>
   ((\<exists>e. swarm_port in_use swarm_default_port = Inl e) \<longleftrightarrow> {2377..2400} \<subseteq> Collect in_use)"
  using swarm_port_first [of 2377 in_use q] by (auto simp: swarm_default_port_def)

lemma ask_then: "bindIO (askIO f) (\<lambda>_. m) = m"
  by (simp add: fun_eq_iff bindIO_def)

text \<open>A certificate that is there and can be read is made again whenever the address of the manager
  is known, whatever its text says, because the address is looked for in the error output of the
  command; without an address it is kept.\<close>

theorem certificate_never_kept:
  assumes "have_certificate E (bt_settings s) s = (Inr True, s)"
    and "run_bash_with_sudo_fallback E (cert_command (bt_settings s)) s = (Inr res, t)"
    and "cr_exit res = 0" and "cr_err res = []"
    and "have_certificate E (bt_settings s) t = (Inr True, t)"
  shows "create_tls E s =
    (if bt_manager s \<noteq> []
     then thenIO (catchIO (thenIO (remove_file E (cert_path (bt_settings s))) (remove_file E (key_path (bt_settings s))))
       (returnIO ())) (generate_certificate E (bt_settings s)) t
     else (Inr (), t))"
proof -
  have t: "bt_manager t = bt_manager s"
    using keepsD [OF boot_keeps_bash assms(2)] by (simp add: same_boot_def)
  have "needs_regeneration E (bt_settings s) s = (Inr (bt_manager s \<noteq> []), t)"
    by (simp add: needs_regeneration_def io_simps(3) [where m = "have_certificate E (bt_settings s)", OF assms(1)]
        io_simps(3) [where m = "run_bash_with_sudo_fallback E (cert_command (bt_settings s))", OF assms(2)] assms(3,4) t contains_text_def)
  then show ?thesis
    using assms(5) by (simp add: create_tls_def have_certificate_def ask_then)
qed

text \<open>When the images have different names, the bake file has for every queued image a target of its
  own, tagged with its name, that depends on the image of the library and on everything the image was
  queued with.\<close>

theorem bake_file_complete:
  assumes "distinct (map im_name ims)" and "\<forall>im\<in>set ims. im_dir im \<noteq> [] \<and> im_dockerfile im \<noteq> []"
  shows "\<exists>j. bake_json E ims = Inr j \<and>
    (\<forall>im\<in>set ims. \<exists>t. bake_target E im = Inr t \<and> bake_lookup j (im_name im) = Some t \<and>
      j_field ''tags'' t = Some (JArr [JStr (im_name im)]) \<and>
      j_field ''depends-on'' t = Some (JArr (JStr (str_bytes ''atlasnetsdk'') # map JStr (im_depends im))))"
  by (rule bake_json_ok [OF assms])

text \<open>C20: the stack is not deployed when the images cannot be built. If the commands of one of the three
  kinds that build images, that of the library, the bake of the four images or that of the game server,
  always fail, then a start ends with an error, and it has done nothing that only the deploying command
  does: whatever is true before and is kept by every other command, request and file access still is.\<close>

theorem bake_failure_stops:
  assumes "pre \<in> build_texts" and "\<And>c w. prefix pre c \<Longrightarrow> fst (be_system E c w) \<noteq> 0"
    and "only_deploy_breaks P E" and "P (dk_world (bt_docker s))"
  shows "fst (run E path s) \<noteq> Inr () \<and> P (dk_world (bt_docker (snd (run E path s))))"
proof
  note never = build_images_fails [OF assms(1,2)]
  have "False" if r: "run E path s = (Inr (), s')" for s'
  proof -
    obtain t u where "build_images E t = (Inr (), u)"
      using r unfolding run_def by (elim thenIO_returns bindIO_returns) blast
    then show False using never [of t] by simp
  qed
  then show "fst (run E path s) \<noteq> Inr ()" by (metis prod.collapse)
  have "keeps_world P (run E path)"
    unfolding run_def
    by (intro world_keeps world_keeps_load world_keeps_swarm [OF assms(3)] world_keeps_tls [OF assms(3)]
        world_keeps_registry [OF assms(3)] then_never [OF never] world_keeps_images [OF assms(3)])
  then show "P (world_of (snd (run E path s)))" using assms(4) by (simp add: keeps_world_def)
qed

section \<open>Examples\<close>

definition demo_boot_env :: "(bytes list \<Rightarrow> nat \<times> bytes \<times> bytes) \<Rightarrow> nat boot_env" where
  "demo_boot_env spawn = \<lparr> be_docker = demo_docker JNull, be_spawn = (\<lambda>argv w. (Inr (spawn argv), Suc w)),
     be_spawn_tty = (\<lambda>argv w. (None, w)), be_system = (\<lambda>c w. (1, Suc w)), be_read = (\<lambda>p w. None),
     be_write = (\<lambda>p t w. (True, w)), be_mkdirs = (\<lambda>p w. (True, w)), be_exists = (\<lambda>p w. True),
     be_remove = (\<lambda>p w. (True, w)), be_bind = (\<lambda>p w. True), be_choose = (\<lambda>w. (-1, w)), be_cwd = [47],
     be_exe = [47], be_root = Some [47], be_order = (\<lambda>_. []),
     be_texts = \<lparr> tx_watchdog = [], tx_shard = [], tx_proxy = [], tx_cartograph = [], tx_entry_point = [],
       tx_stack = [], tx_database = [] \<rparr> \<rparr>"

definition demo_boot :: "nat boot" where
  "demo_boot = \<lparr> bt_docker = \<lparr> dk_self = None, dk_world = 0 \<rparr>, bt_settings = demo_settings,
     bt_task = empty_task [47], bt_multi = True, bt_manager = [49], bt_images = [] \<rparr>"

text \<open>A child that reports a missing permission unless it runs with \<open>sudo\<close>.\<close>

definition demo_denied :: "bytes list \<Rightarrow> nat \<times> bytes \<times> bytes" where
  "demo_denied argv = (if hd argv = str_bytes ''bash'' then (126 * 256, [], []) else (0, [], []))"

theorem sudo_only_on_permission_witness:
  "cr_sudo \<lparr> cr_exit = 0, cr_out = [], cr_err = [], cr_sudo = True, cr_prompted = False \<rparr> \<longleftrightarrow>
   (126 :: int) \<noteq> 0 \<and> looks_like_permission_error 126 []"
  using sudo_only_on_permission [of "demo_boot_env demo_denied" "[97]" demo_boot
      "\<lparr> cr_exit = 126, cr_out = [], cr_err = [], cr_sudo = False, cr_prompted = False \<rparr>"
      "demo_boot \<lparr> bt_docker := \<lparr> dk_self = None, dk_world = 1 \<rparr> \<rparr>"
      "\<lparr> cr_exit = 0, cr_out = [], cr_err = [], cr_sudo = True, cr_prompted = False \<rparr>"
      "demo_boot \<lparr> bt_docker := \<lparr> dk_self = None, dk_world = 3 \<rparr> \<rparr>"]
  by (simp add: run_bash_with_sudo_fallback_def run_capture_def worldIO_def demo_boot_env_def demo_boot_def
      demo_denied_def bash_def exit_code_of_def looks_like_permission_error_def str_bytes_def c_str_def bindIO_def)

theorem certificate_never_kept_witness:
  "create_tls (demo_boot_env (\<lambda>_. (0, [49], []))) demo_boot =
    thenIO (catchIO (thenIO
       (remove_file (demo_boot_env (\<lambda>_. (0, [49], []))) (cert_path demo_settings))
       (remove_file (demo_boot_env (\<lambda>_. (0, [49], []))) (key_path demo_settings))) (returnIO ()))
     (generate_certificate (demo_boot_env (\<lambda>_. (0, [49], []))) demo_settings)
     (demo_boot \<lparr> bt_docker := \<lparr> dk_self = None, dk_world = 1 \<rparr> \<rparr>)"
  using certificate_never_kept [of "demo_boot_env (\<lambda>_. (0, [49], []))" demo_boot
      "\<lparr> cr_exit = 0, cr_out = [49], cr_err = [], cr_sudo = False, cr_prompted = False \<rparr>"
      "demo_boot \<lparr> bt_docker := \<lparr> dk_self = None, dk_world = 1 \<rparr> \<rparr>"]
  by (simp add: run_bash_with_sudo_fallback_def run_capture_def worldIO_def demo_boot_env_def demo_boot_def
      exit_code_of_def have_certificate_def bindIO_def)

theorem bake_file_complete_witness:
  "\<exists>j. bake_json (demo_boot_env demo_denied) [\<lparr> im_dockerfile = [47], im_name = [97], im_dir = [47], im_depends = [] \<rparr>] = Inr j"
  using bake_file_complete [of "[\<lparr> im_dockerfile = [47], im_name = [97], im_dir = [47], im_depends = [] \<rparr>]"
      "demo_boot_env demo_denied"] by auto

text \<open>A start that reaches the bake and ends there: the world is the list of the commands run by \<open>system\<close>,
  of which the bake fails. Every file holds the same text.\<close>

definition demo_json :: json where
  "demo_json = JObj [(''BuiltInDB'', JObj [(''Enable'', JBool True)]), (''RuntimeArches'', JNull),
     (''Swarm'', JObj [(''LocalNodeState'', JStr (str_bytes ''active'')), (''ControlAvailable'', JBool True)])]"

definition log_docker :: "bytes list docker_env" where
  "log_docker = \<lparr> dk_socket = [47], dk_curl_init = (\<lambda>w. (True, w)), dk_perform = (\<lambda>r w. (Inr [], w)),
     dk_escape = Some, dk_parse = (\<lambda>t. Some demo_json), dk_dump = (\<lambda>j. []), dk_hostname = None, dk_interfaces = None \<rparr>"

definition log_env :: "bytes list boot_env" where
  "log_env = \<lparr> be_docker = log_docker, be_spawn = (\<lambda>argv w. (Inr (0, [], []), w)), be_spawn_tty = (\<lambda>argv w. (None, w)),
     be_system = (\<lambda>c w. (if prefix (str_bytes ''docker buildx bake'') c then 1 else 0, w @ [c])), be_read = (\<lambda>p w. Some []),
     be_write = (\<lambda>p t w. (True, w)), be_mkdirs = (\<lambda>p w. (True, w)), be_exists = (\<lambda>p w. True),
     be_remove = (\<lambda>p w. (True, w)), be_bind = (\<lambda>p w. True), be_choose = (\<lambda>w. (-1, w)), be_cwd = [47],
     be_exe = [47, 97], be_root = Some [47], be_order = (\<lambda>_. []),
     be_texts = \<lparr> tx_watchdog = [], tx_shard = [], tx_proxy = [], tx_cartograph = [], tx_entry_point = [],
       tx_stack = [], tx_database = [] \<rparr> \<rparr>"

definition log_boot :: "bytes list boot" where
  "log_boot = \<lparr> bt_docker = \<lparr> dk_self = None, dk_world = [] \<rparr>, bt_settings = empty_settings,
     bt_task = empty_task [47], bt_multi = False, bt_manager = [], bt_images = [] \<rparr>"

lemma log_env_simps [simp]:
  "be_docker log_env = log_docker" "be_spawn log_env argv w = (Inr (0, [], []), w)"
  "be_system log_env c w = (if prefix (str_bytes ''docker buildx bake'') c then 1 else 0, w @ [c])"
  "be_read log_env p w = Some []" "be_write log_env p t w = (True, w)" "be_mkdirs log_env p w = (True, w)"
  "be_bind log_env n w" "be_cwd log_env = [47]" "be_exe log_env = [47, 97]" "be_root log_env = Some [47]"
  "dk_curl_init log_docker w = (True, w)" "dk_perform log_docker q w = (Inr [], w)" "dk_parse log_docker t = Some demo_json"
  by (simp_all add: log_env_def log_docker_def)

lemma log_load: "\<exists>st tk. load_files log_env None log_boot =
    (Inr (), log_boot \<lparr> bt_settings := st, bt_task := tk, bt_multi := False \<rparr>)"
  by (simp add: load_files_def parse_settings_file_def parse_task_file_def parse_settings_def parse_task_def entry_or_def
      is_entry_valid_def parse_dockerfile_def demo_json_def log_boot_def)

lemma log_calls [simp]:
  "run_bash_with_sudo_fallback log_env cmd s = (Inr \<lparr> cr_exit = 0, cr_out = [], cr_err = [], cr_sudo = False, cr_prompted = False \<rparr>, s)"
  "write_file log_env p t s = (Inr (), s)"
  "docker_info log_env s = (Inr demo_json, s)"
  "systemIO log_env c s = (Inr (if prefix (str_bytes ''docker buildx bake'') (c_str c) then 1 else 0),
     s \<lparr> bt_docker := (bt_docker s) \<lparr> dk_world := world_of s @ [c_str c] \<rparr> \<rparr>)"
  by (simp_all add: run_bash_with_sudo_fallback_def run_capture_def worldIO_def exit_code_of_def write_file_def
      create_directories_def docker_info_def dockerIO_def docker_request_def docker_parse_def systemIO_def)

lemma log_swarm: "init_swarm log_env s = (Inr (), s)"
proof -
  have "swarm_port (\<lambda>p. \<not> be_bind log_env p w) swarm_default_port = Inr swarm_default_port" for w
    by (subst swarm_port.simps) simp
  moreover have "is_swarm_manager demo_json = Inr True"
    by (simp add: is_swarm_manager_def demo_json_def)
  ultimately show ?thesis by (simp add: init_swarm_def)
qed

lemma log_bake:
  assumes "distinct (map im_name (bt_images s))" and "\<forall>im\<in>set (bt_images s). im_dir im \<noteq> [] \<and> im_dockerfile im \<noteq> []"
    and "bt_images s \<noteq> []"
  shows "\<exists>t c. build_all_images log_env s = (Inl (RuntimeError ''Buildx bake failed''), t) \<and>
    c \<in> set (world_of t) \<and> prefix (str_bytes ''docker buildx bake'') c"
proof -
  obtain j where j: "bake_json log_env (bt_images s) = Inr j" using bake_json_ok [OF assms(1,2)] by blast
  have "\<exists>ds. mapE (\<lambda>im. absolute [47] (im_dir im)) ims = Inr ds" if "\<forall>im\<in>set ims. im_dir im \<noteq> []" for ims
    using that by (induction ims) (auto simp: absolute_def)
  then obtain ds where ds: "mapE (\<lambda>im. absolute [47] (im_dir im)) (bt_images s) = Inr ds" using assms(2) by blast
  have b: "\<not> prefix (str_bytes ''docker buildx bake'') (c_str (str_bytes ''docker build --load -f '' @ r))" for r
    by (simp add: c_str_def str_bytes_def)
  show ?thesis
    using assms(3) j ds c_str_bake [of log_env "[47]"] b
    by (simp add: build_all_images_def get_atlas_net_path_def) blast
qed

text \<open>Nothing but the deploying command can bring it into that list.\<close>

definition not_deployed :: "bytes list \<Rightarrow> bool" where
  "not_deployed w \<longleftrightarrow> (\<forall>c\<in>set w. \<not> prefix deploy_text c)"

theorem bake_failure_stops_witness:
  "\<exists>t c. run log_env None log_boot = (Inl (RuntimeError ''Buildx bake failed''), t) \<and>
    c \<in> set (world_of t) \<and> prefix (str_bytes ''docker buildx bake'') c \<and> not_deployed (world_of t)"
proof -
  obtain st tk where 1: "load_files log_env None log_boot =
      (Inr (), log_boot \<lparr> bt_settings := st, bt_task := tk, bt_multi := False \<rparr>)"
    using log_load by blast
  let ?s = "log_boot \<lparr> bt_settings := st, bt_task := tk, bt_multi := False \<rparr>"
  have dir: "parent_path (get_exe_path log_env) = [47]" by (simp add: get_exe_path_def parent_path_def)
  let ?im = "\<lambda>n. \<lparr> im_dockerfile = docker_file n, im_name = n, im_dir = [47], im_depends = [] \<rparr>"
  define u where "u = ?s \<lparr> bt_images := [?im (str_bytes ''watchdog''), ?im (str_bytes ''shard''), ?im (str_bytes ''proxy''),
      ?im (str_bytes ''cartograph'')] \<rparr>"
  have b: "build_images log_env ?s = thenIO (build_all_images log_env) (build_game_server log_env) u"
    by (simp add: build_images_def Let_def dir queue_docker_image_build_def u_def log_boot_def)
  have "distinct (map im_name (bt_images u))" "bt_images u \<noteq> []"
      "\<forall>im\<in>set (bt_images u). im_dir im \<noteq> [] \<and> im_dockerfile im \<noteq> []"
    by (simp_all add: u_def str_bytes_def docker_file_def temp_dir_def)
  then obtain t c where t: "build_all_images log_env u = (Inl (RuntimeError ''Buildx bake failed''), t)"
      "c \<in> set (world_of t)" "prefix (str_bytes ''docker buildx bake'') c"
    using log_bake by blast
  have r: "run log_env None log_boot = (Inl (RuntimeError ''Buildx bake failed''), t)"
    using 1 b t(1) by (simp add: run_def log_swarm setup_network_def thenIO_def)
  have "str_bytes ''docker buildx bake'' \<in> build_texts" by (simp add: build_texts_def)
  moreover have "only_deploy_breaks not_deployed log_env"
    by (simp add: only_deploy_breaks_def not_deployed_def) (simp add: log_env_def)
  moreover have "not_deployed (world_of log_boot)" by (simp add: not_deployed_def log_boot_def)
  ultimately have "not_deployed (world_of (snd (run log_env None log_boot)))"
    using bake_failure_stops [of "str_bytes ''docker buildx bake''" log_env not_deployed log_boot None] by simp
  then show ?thesis using r t(2,3) by auto
qed

end
