(* ===== verification/Command_Capture.thy ===== *)
theory Command_Capture
  imports Bootstrap
begin

text \<open>
  The loop in \<open>run_capture_streaming\<close> (\<open>CommandTools.hpp\<close>) that drains the two pipes of a child and may show
  what it reads at once. The kernel is a parameter: the answers of \<open>poll\<close>, of the reads of each pipe and of
  the writes to the terminal, in order. A call that is never answered gives no result. \<open>Bootstrap\<close> takes the
  texts of a child as a parameter; here is how they come about.
\<close>

section \<open>Definitions\<close>

datatype write_answer = Wrote nat | Write_Interrupted | Write_Failed

datatype read_answer = Got bytes | End_Of_File | Read_Interrupted | Would_Block | Read_Failed

datatype poll_answer = Poll_Interrupted | Poll_Failed | Poll_Ready bool bool

text \<open>What is written of some bytes, and the answers that are left. Nothing written ends it like an error.\<close>

fun write_all_fd :: "write_answer list \<Rightarrow> bytes \<Rightarrow> (bytes \<times> write_answer list) option" where
  "write_all_fd ws [] = Some ([], ws)"
| "write_all_fd [] (d # ds) = None"
| "write_all_fd (w # ws) (d # ds) =
    (case w of
       Write_Interrupted \<Rightarrow> write_all_fd ws (d # ds)
     | Write_Failed \<Rightarrow> Some ([], ws)
     | Wrote n \<Rightarrow>
         if n = 0 then Some ([], ws)
         else map_option (\<lambda>(t, ws). (take n (d # ds) @ t, ws)) (write_all_fd ws (drop n (d # ds))))"

text \<open>Reading a pipe until it has nothing: what was read and shown, whether it stays open, what is left.\<close>

fun drain_fd :: "bool \<Rightarrow> read_answer list \<Rightarrow> write_answer list
    \<Rightarrow> (bytes \<times> bytes \<times> bool \<times> read_answer list \<times> write_answer list) option" where
  "drain_fd live [] ws = None"
| "drain_fd live (r # rs) ws =
    (case r of
       Got bs \<Rightarrow>
         (case if live then write_all_fd ws bs else Some ([], ws) of
            None \<Rightarrow> None
          | Some (t, ws) \<Rightarrow>
              map_option (\<lambda>(got, shown, op, rs, ws). (bs @ got, t @ shown, op, rs, ws)) (drain_fd live rs ws))
     | End_Of_File \<Rightarrow> Some ([], [], False, rs, ws)
     | Read_Interrupted \<Rightarrow> drain_fd live rs ws
     | Would_Block \<Rightarrow> Some ([], [], True, rs, ws)
     | Read_Failed \<Rightarrow> Some ([], [], False, rs, ws))"

record pipe =
  pi_text :: bytes
  pi_open :: bool
  pi_reads :: "read_answer list"

record capture =
  cp_out :: pipe
  cp_err :: pipe
  cp_shown :: bytes
  cp_writes :: "write_answer list"

definition capture_start :: "read_answer list \<Rightarrow> read_answer list \<Rightarrow> write_answer list \<Rightarrow> capture" where
  "capture_start os es ws =
    \<lparr> cp_out = \<lparr> pi_text = [], pi_open = True, pi_reads = os \<rparr>, cp_err = \<lparr> pi_text = [], pi_open = True, pi_reads = es \<rparr>,
      cp_shown = [], cp_writes = ws \<rparr>"

definition drain_pipe :: "bool \<Rightarrow> (capture \<Rightarrow> pipe) \<Rightarrow> (pipe \<Rightarrow> capture \<Rightarrow> capture) \<Rightarrow> capture \<Rightarrow> capture option" where
  "drain_pipe live get put c =
    map_option (\<lambda>(got, shown, op, rs, ws).
        put \<lparr> pi_text = pi_text (get c) @ got, pi_open = op, pi_reads = rs \<rparr>
          (c \<lparr> cp_shown := cp_shown c @ shown, cp_writes := ws \<rparr>))
      (drain_fd live (pi_reads (get c)) (cp_writes c))"

definition drain_out :: "bool \<Rightarrow> capture \<Rightarrow> capture option" where
  "drain_out live = drain_pipe live cp_out (\<lambda>p c. c \<lparr> cp_out := p \<rparr>)"

definition drain_err :: "bool \<Rightarrow> capture \<Rightarrow> capture option" where
  "drain_err live = drain_pipe live cp_err (\<lambda>p c. c \<lparr> cp_err := p \<rparr>)"

text \<open>One answer of \<open>poll\<close>: the output first, then the errors.\<close>

definition drain_ready :: "bool \<Rightarrow> bool \<Rightarrow> bool \<Rightarrow> capture \<Rightarrow> capture option" where
  "drain_ready live o_ready e_ready c =
    Option.bind (if pi_open (cp_out c) \<and> o_ready then drain_out live c else Some c) (\<lambda>c.
      if pi_open (cp_err c) \<and> e_ready then drain_err live c else Some c)"

fun capture_loop :: "bool \<Rightarrow> poll_answer list \<Rightarrow> capture \<Rightarrow> capture option" where
  "capture_loop live ps c =
    (if \<not> pi_open (cp_out c) \<and> \<not> pi_open (cp_err c) then Some c
     else case ps of
       [] \<Rightarrow> None
     | Poll_Interrupted # ps \<Rightarrow> capture_loop live ps c
     | Poll_Failed # ps \<Rightarrow> Some c
     | Poll_Ready r1 r2 # ps \<Rightarrow> Option.bind (drain_ready live r1 r2 c) (capture_loop live ps))"

declare capture_loop.simps [simp del]

definition run_capture_streaming :: "bool \<Rightarrow> poll_answer list \<Rightarrow> read_answer list \<Rightarrow> read_answer list \<Rightarrow> write_answer list \<Rightarrow> nat
    \<Rightarrow> (cmd_result \<times> bytes) option" where
  "run_capture_streaming live ps os es ws status =
    map_option (\<lambda>c. (\<lparr> cr_exit = exit_code_of status, cr_out = pi_text (cp_out c), cr_err = pi_text (cp_err c),
        cr_sudo = False, cr_prompted = False \<rparr>, cp_shown c))
      (capture_loop live ps (capture_start os es ws))"

section \<open>What is captured\<close>

text \<open>What a child writes to a pipe before it closes it.\<close>

fun pipe_content :: "read_answer list \<Rightarrow> bytes" where
  "pipe_content [] = []"
| "pipe_content (r # rs) =
    (case r of Got bs \<Rightarrow> bs @ pipe_content rs | End_Of_File \<Rightarrow> [] | Read_Failed \<Rightarrow> [] | _ \<Rightarrow> pipe_content rs)"

definition pipe_closes :: "read_answer list \<Rightarrow> bool" where
  "pipe_closes rs \<longleftrightarrow> End_Of_File \<in> set rs \<or> Read_Failed \<in> set rs"

text \<open>What a pipe has given and will give.\<close>

definition pipe_total :: "pipe \<Rightarrow> bytes" where
  "pipe_total p = pi_text p @ (if pi_open p then pipe_content (pi_reads p) else [])"

definition drains_to :: "bool \<Rightarrow> read_answer list \<Rightarrow> write_answer list \<Rightarrow> bytes \<times> bytes \<times> bool \<times> read_answer list \<times> write_answer list \<Rightarrow> bool" where
  "drains_to live rs ws = (\<lambda>(got, shown, op, rs', ws').
     pipe_content rs = got @ (if op then pipe_content rs' else []) \<and> length rs' < length rs \<and>
     (op \<longrightarrow> pipe_closes rs \<longrightarrow> pipe_closes rs') \<and> (\<not> live \<longrightarrow> shown = [] \<and> ws' = ws))"

lemma drain_fd_drains: "drain_fd live rs ws = Some r \<Longrightarrow> drains_to live rs ws r"
proof (induction rs arbitrary: ws r)
  case (Cons a rs)
  show ?case
  proof (cases a)
    case (Got bs)
    then obtain t ws1 r1 where 1: "(if live then write_all_fd ws bs else Some ([], ws)) = Some (t, ws1)"
      "drain_fd live rs ws1 = Some r1" "r = (case r1 of (got, shown, op, rs, ws) \<Rightarrow> (bs @ got, t @ shown, op, rs, ws))"
      using Cons.prems by (auto split: option.splits)
    then show ?thesis using Cons.IH [OF 1(2)] Got
      by (auto simp: drains_to_def pipe_closes_def split: prod.splits if_splits)
  next
    case Read_Interrupted
    then show ?thesis using Cons.IH [of ws r] Cons.prems by (auto simp: drains_to_def pipe_closes_def split: prod.splits)
  qed (use Cons.prems in \<open>auto simp: drains_to_def pipe_closes_def\<close>)
qed simp

text \<open>Without showing, a pipe that closes is always drained.\<close>

lemma drain_fd_ends: "pipe_closes rs \<Longrightarrow> drain_fd False rs ws \<noteq> None"
  by (induction rs) (auto simp: pipe_closes_def split: read_answer.splits)

text \<open>Draining keeps what the pipes give in all.\<close>

lemma drain_ready_total:
  assumes "drain_ready live r1 r2 c = Some c'"
  shows "pipe_total (cp_out c') = pipe_total (cp_out c)" and "pipe_total (cp_err c') = pipe_total (cp_err c)"
  using assms
  by (auto simp: drain_ready_def drain_out_def drain_err_def drain_pipe_def pipe_total_def bind_eq_Some_conv
      split: if_splits dest!: drain_fd_drains simp: drains_to_def)

lemma capture_steps:
  "\<not> pi_open (cp_out c) \<Longrightarrow> \<not> pi_open (cp_err c) \<Longrightarrow> capture_loop live ps c = Some c"
  "pi_open (cp_out c) \<or> pi_open (cp_err c) \<Longrightarrow> capture_loop live [] c = None"
  "pi_open (cp_out c) \<or> pi_open (cp_err c) \<Longrightarrow> capture_loop live (Poll_Interrupted # ps) c = capture_loop live ps c"
  "pi_open (cp_out c) \<or> pi_open (cp_err c) \<Longrightarrow> capture_loop live (Poll_Failed # ps) c = Some c"
  "pi_open (cp_out c) \<or> pi_open (cp_err c) \<Longrightarrow>
    capture_loop live (Poll_Ready r1 r2 # ps) c = Option.bind (drain_ready live r1 r2 c) (capture_loop live ps)"
  by (auto simp: capture_loop.simps [of live _ c])

lemma capture_loop_total:
  assumes "capture_loop live ps c = Some c'" and "Poll_Failed \<notin> set ps"
  shows "pi_text (cp_out c') = pipe_total (cp_out c) \<and> pi_text (cp_err c') = pipe_total (cp_err c)"
  using assms
proof (induction ps arbitrary: c)
  case Nil
  then show ?case by (cases "pi_open (cp_out c) \<or> pi_open (cp_err c)") (auto simp: capture_steps pipe_total_def)
next
  case (Cons p ps)
  show ?case
  proof (cases "pi_open (cp_out c) \<or> pi_open (cp_err c)")
    case False
    then show ?thesis using Cons.prems by (simp add: capture_steps pipe_total_def)
  next
    case True
    show ?thesis
    proof (cases p)
      case (Poll_Ready r1 r2)
      then obtain d where "drain_ready live r1 r2 c = Some d" "capture_loop live ps d = Some c'"
        using Cons.prems True by (auto simp: capture_steps bind_eq_Some_conv)
      then show ?thesis using Cons.IH [of d] Cons.prems drain_ready_total by simp
    qed (use Cons True in \<open>auto simp: capture_steps\<close>)
  qed
qed

text \<open>A round in which a pipe is ready brings it nearer to its end, whatever has arrived.\<close>

definition pipe_left :: "pipe \<Rightarrow> nat" where
  "pipe_left p = (if pi_open p then length (pi_reads p) else 0)"

definition pipe_will_close :: "pipe \<Rightarrow> bool" where
  "pipe_will_close p \<longleftrightarrow> (pi_open p \<longrightarrow> pipe_closes (pi_reads p))"

lemma drain_pipe_ends:
  assumes "pipe_closes (pi_reads (get c))" and "pi_open (get c)"
  obtains p where "drain_pipe False get put c = Some (put p (c \<lparr> cp_shown := cp_shown c, cp_writes := cp_writes c \<rparr>))"
    and "pipe_left p < pipe_left (get c)" and "pipe_will_close p"
proof -
  obtain r where r: "drain_fd False (pi_reads (get c)) (cp_writes c) = Some r" using drain_fd_ends [OF assms(1)] by fast
  obtain got shown op rs ws where p: "r = (got, shown, op, rs, ws)" by (rule prod_cases5)
  have d: "length rs < length (pi_reads (get c))" "op \<longrightarrow> pipe_closes rs" "shown = []" "ws = cp_writes c"
    using drain_fd_drains [OF r] assms(1) by (auto simp: p drains_to_def)
  show thesis
    by (rule that [of "\<lparr> pi_text = pi_text (get c) @ got, pi_open = op, pi_reads = rs \<rparr>"])
      (use r d assms(2) in \<open>auto simp: p drain_pipe_def pipe_left_def pipe_will_close_def\<close>)
qed

lemma drain_ready_ends:
  assumes "pipe_will_close (cp_out c)" "pipe_will_close (cp_err c)"
  obtains d where "drain_ready False r1 r2 c = Some d"
    and "if pi_open (cp_out c) \<and> r1 then pipe_left (cp_out d) < pipe_left (cp_out c) else cp_out d = cp_out c"
    and "if pi_open (cp_err c) \<and> r2 then pipe_left (cp_err d) < pipe_left (cp_err c) else cp_err d = cp_err c"
    and "pipe_will_close (cp_out d)" "pipe_will_close (cp_err d)"
proof -
  obtain c1 where c1: "(if pi_open (cp_out c) \<and> r1 then drain_out False c else Some c) = Some c1"
    "cp_err c1 = cp_err c" "pipe_will_close (cp_out c1)"
    "if pi_open (cp_out c) \<and> r1 then pipe_left (cp_out c1) < pipe_left (cp_out c) else c1 = c"
  proof (cases "pi_open (cp_out c) \<and> r1")
    case True
    then have op: "pi_open (cp_out c)" and cl: "pipe_closes (pi_reads (cp_out c))"
      using assms(1) by (simp_all add: pipe_will_close_def)
    obtain p where p: "drain_pipe False cp_out (\<lambda>p c. c \<lparr> cp_out := p \<rparr>) c =
        Some ((c \<lparr> cp_shown := cp_shown c, cp_writes := cp_writes c \<rparr>) \<lparr> cp_out := p \<rparr>)"
      "pipe_left p < pipe_left (cp_out c)" "pipe_will_close p"
      by (rule drain_pipe_ends [of cp_out c, OF cl op])
    show thesis by (rule that [of "c \<lparr> cp_out := p \<rparr>"]) (use p True in \<open>simp_all add: drain_out_def\<close>)
  qed (use assms(1) that in auto)
  obtain d where d: "(if pi_open (cp_err c1) \<and> r2 then drain_err False c1 else Some c1) = Some d"
    "cp_out d = cp_out c1" "pipe_will_close (cp_err d)"
    "if pi_open (cp_err c1) \<and> r2 then pipe_left (cp_err d) < pipe_left (cp_err c1) else d = c1"
  proof (cases "pi_open (cp_err c1) \<and> r2")
    case True
    then have op: "pi_open (cp_err c1)" and cl: "pipe_closes (pi_reads (cp_err c1))"
      using assms(2) c1(2) by (simp_all add: pipe_will_close_def)
    obtain p where p: "drain_pipe False cp_err (\<lambda>p c. c \<lparr> cp_err := p \<rparr>) c1 =
        Some ((c1 \<lparr> cp_shown := cp_shown c1, cp_writes := cp_writes c1 \<rparr>) \<lparr> cp_err := p \<rparr>)"
      "pipe_left p < pipe_left (cp_err c1)" "pipe_will_close p"
      by (rule drain_pipe_ends [of cp_err c1, OF cl op])
    show thesis by (rule that [of "c1 \<lparr> cp_err := p \<rparr>"]) (use p True in \<open>simp_all add: drain_err_def\<close>)
  qed (use assms(2) c1(2) that in auto)
  show thesis
  proof (rule that [of d])
    show "drain_ready False r1 r2 c = Some d" using c1(1) d(1) by (simp add: drain_ready_def)
    show "if pi_open (cp_out c) \<and> r1 then pipe_left (cp_out d) < pipe_left (cp_out c) else cp_out d = cp_out c"
      using c1(4) d(2) by (cases "pi_open (cp_out c) \<and> r1") auto
    show "if pi_open (cp_err c) \<and> r2 then pipe_left (cp_err d) < pipe_left (cp_err c) else cp_err d = cp_err c"
      using d(4) c1(2) by (cases "pi_open (cp_err c1) \<and> r2") auto
    show "pipe_will_close (cp_out d)" "pipe_will_close (cp_err d)" using c1(3) d(2,3) by simp_all
  qed
qed

text \<open>How often \<open>poll\<close> finds the output ready, and the errors.\<close>

definition out_ready :: "poll_answer \<Rightarrow> bool" where
  "out_ready p = (case p of Poll_Ready r1 r2 \<Rightarrow> r1 | _ \<Rightarrow> False)"

definition err_ready :: "poll_answer \<Rightarrow> bool" where
  "err_ready p = (case p of Poll_Ready r1 r2 \<Rightarrow> r2 | _ \<Rightarrow> False)"

definition often :: "(poll_answer \<Rightarrow> bool) \<Rightarrow> poll_answer list \<Rightarrow> nat" where
  "often f ps = length (filter f ps)"

lemma left_after:
  assumes "if pi_open p \<and> r then pipe_left q < pipe_left p else q = p" and "pipe_left p \<le> (if r then 1 else 0) + n"
  shows "pipe_left q \<le> n"
  using assms by (auto simp: pipe_left_def split: if_splits)

lemma capture_loop_ends:
  assumes "Poll_Failed \<notin> set ps" and "pipe_will_close (cp_out c)" "pipe_will_close (cp_err c)"
    and "pipe_left (cp_out c) \<le> often out_ready ps" "pipe_left (cp_err c) \<le> often err_ready ps"
  shows "capture_loop False ps c \<noteq> None"
  using assms
proof (induction ps arbitrary: c)
  case Nil
  then have "\<not> pi_open (cp_out c)" "\<not> pi_open (cp_err c)"
    by (auto simp: often_def pipe_left_def pipe_will_close_def pipe_closes_def split: if_splits)
  then show ?case by (simp add: capture_steps)
next
  case (Cons p ps)
  show ?case
  proof (cases "pi_open (cp_out c) \<or> pi_open (cp_err c)")
    case True
    show ?thesis
    proof (cases p)
      case Poll_Interrupted
      then show ?thesis
        using Cons True by (simp add: capture_steps often_def out_ready_def err_ready_def)
    next
      case (Poll_Ready r1 r2)
      obtain d where d: "drain_ready False r1 r2 c = Some d"
        "if pi_open (cp_out c) \<and> r1 then pipe_left (cp_out d) < pipe_left (cp_out c) else cp_out d = cp_out c"
        "if pi_open (cp_err c) \<and> r2 then pipe_left (cp_err d) < pipe_left (cp_err c) else cp_err d = cp_err c"
        "pipe_will_close (cp_out d)" "pipe_will_close (cp_err d)"
        by (rule drain_ready_ends [OF Cons.prems(2,3)])
      have n: "often out_ready (p # ps) = (if r1 then 1 else 0) + often out_ready ps"
        "often err_ready (p # ps) = (if r2 then 1 else 0) + often err_ready ps"
        by (simp_all add: Poll_Ready often_def out_ready_def err_ready_def)
      have "capture_loop False ps d \<noteq> None"
        using Cons.prems(1) left_after [OF d(2) Cons.prems(4) [unfolded n(1)]]
          left_after [OF d(3) Cons.prems(5) [unfolded n(2)]]
        by (intro Cons.IH d(4,5)) simp_all
      then show ?thesis using d(1) True by (simp add: Poll_Ready capture_steps)
    qed (use Cons.prems(1) in simp)
  qed (simp add: capture_steps)
qed

section \<open>What is shown\<close>

lemma capture_loop_silent: "capture_loop False ps c = Some d \<Longrightarrow> cp_shown d = cp_shown c"
proof (induction ps arbitrary: c)
  case Nil
  then show ?case by (cases "pi_open (cp_out c) \<or> pi_open (cp_err c)") (auto simp: capture_steps)
next
  case (Cons p ps)
  have silent: "cp_shown d = cp_shown c" if "drain_ready False r1 r2 c = Some d" for r1 r2 c d
    using that by (auto simp: drain_ready_def drain_out_def drain_err_def drain_pipe_def bind_eq_Some_conv
        split: if_splits dest!: drain_fd_drains simp: drains_to_def)
  show ?case
  proof (cases "pi_open (cp_out c) \<or> pi_open (cp_err c)")
    case True
    show ?thesis
    proof (cases p)
      case (Poll_Ready r1 r2)
      then obtain e where "drain_ready False r1 r2 c = Some e" "capture_loop False ps e = Some d"
        using Cons.prems True by (auto simp: capture_steps bind_eq_Some_conv)
      then show ?thesis using Cons.IH silent by metis
    qed (use Cons True in \<open>auto simp: capture_steps\<close>)
  qed (use Cons.prems in \<open>simp add: capture_steps\<close>)
qed

text \<open>A terminal that takes something of every write.\<close>

definition writes_go :: "write_answer list \<Rightarrow> bool" where
  "writes_go ws \<longleftrightarrow> Write_Failed \<notin> set ws \<and> Wrote 0 \<notin> set ws"

lemma write_all_whole: "write_all_fd ws ds = Some (t, ws') \<Longrightarrow> writes_go ws \<Longrightarrow> t = ds \<and> writes_go ws'"
proof (induction ws ds arbitrary: t rule: write_all_fd.induct)
  case (3 w ws d ds)
  show ?case
  proof (cases w)
    case (Wrote n)
    then have n: "n \<noteq> 0" "writes_go ws" using "3.prems"(2) by (auto simp: writes_go_def)
    then obtain a where a: "write_all_fd ws (drop n (d # ds)) = Some (a, ws')" "t = take n (d # ds) @ a"
      using "3.prems"(1) Wrote by auto
    then have "a = drop n (d # ds) \<and> writes_go ws'" using "3.IH"(1) [OF Wrote n(1) a(1) n(2)] by simp
    then show ?thesis using a(2) by (simp only: append_take_drop_id)
  qed (use 3 in \<open>auto simp: writes_go_def\<close>)
qed simp_all

lemma drain_fd_shows:
  "drain_fd True rs ws = Some (got, shown, op, rs', ws') \<Longrightarrow> writes_go ws \<Longrightarrow> shown = got \<and> writes_go ws'"
proof (induction rs arbitrary: ws got shown)
  case (Cons a rs)
  show ?case
  proof (cases a)
    case (Got bs)
    then obtain t ws1 g sh where 1: "write_all_fd ws bs = Some (t, ws1)" "drain_fd True rs ws1 = Some (g, sh, op, rs', ws')"
      "got = bs @ g" "shown = t @ sh"
      using Cons.prems(1) by (auto split: option.splits)
    then show ?thesis using write_all_whole [OF 1(1) Cons.prems(2)] Cons.IH [OF 1(2)] by simp
  qed (use Cons in auto)
qed simp

lemma shuffles_append:
  "zs \<in> shuffles xs ys \<Longrightarrow> zs @ a \<in> shuffles (xs @ a) ys"
  "zs \<in> shuffles xs ys \<Longrightarrow> zs @ a \<in> shuffles xs (ys @ a)"
proof (induction zs arbitrary: xs ys)
  case (Cons z zs)
  {
    case 1 then show ?case using Cons.IH(1) by (auto simp: Cons_in_shuffles_iff)
  next
    case 2 then show ?case using Cons.IH(2) by (auto simp: Cons_in_shuffles_iff)
  }
qed (auto simp: Nil_in_shuffles)

definition shows_captured :: "capture \<Rightarrow> bool" where
  "shows_captured c \<longleftrightarrow> cp_shown c \<in> shuffles (pi_text (cp_out c)) (pi_text (cp_err c)) \<and> writes_go (cp_writes c)"

lemma drain_out_shows: "drain_out True c = Some d \<Longrightarrow> shows_captured c \<Longrightarrow> shows_captured d"
  by (auto simp: drain_out_def drain_pipe_def shows_captured_def shuffles_append dest: drain_fd_shows)

lemma drain_err_shows: "drain_err True c = Some d \<Longrightarrow> shows_captured c \<Longrightarrow> shows_captured d"
  by (auto simp: drain_err_def drain_pipe_def shows_captured_def shuffles_append dest: drain_fd_shows)

lemma drain_ready_shows: "drain_ready True r1 r2 c = Some d \<Longrightarrow> shows_captured c \<Longrightarrow> shows_captured d"
  by (auto simp: drain_ready_def bind_eq_Some_conv split: if_splits dest: drain_out_shows drain_err_shows)

lemma capture_loop_shows: "capture_loop True ps c = Some d \<Longrightarrow> shows_captured c \<Longrightarrow> shows_captured d"
proof (induction ps arbitrary: c)
  case Nil
  then show ?case by (cases "pi_open (cp_out c) \<or> pi_open (cp_err c)") (auto simp: capture_steps)
next
  case (Cons p ps)
  show ?case
  proof (cases "pi_open (cp_out c) \<or> pi_open (cp_err c)")
    case True
    show ?thesis
    proof (cases p)
      case (Poll_Ready r1 r2)
      then obtain e where "drain_ready True r1 r2 c = Some e" "capture_loop True ps e = Some d"
        using Cons.prems True by (auto simp: capture_steps bind_eq_Some_conv)
      then show ?thesis using Cons.IH drain_ready_shows Cons.prems(2) by blast
    qed (use Cons True in \<open>auto simp: capture_steps\<close>)
  qed (use Cons.prems in \<open>simp add: capture_steps\<close>)
qed

text \<open>What the terminal shows is what the child wrote, its output and its errors in some order.\<close>

theorem shown_is_captured:
  assumes "run_capture_streaming True ps os es ws status = Some (r, shown)" and "writes_go ws" and "Poll_Failed \<notin> set ps"
  shows "cr_out r = pipe_content os" "cr_err r = pipe_content es" "shown \<in> shuffles (pipe_content os) (pipe_content es)"
proof -
  obtain c where c: "capture_loop True ps (capture_start os es ws) = Some c"
    "r = \<lparr> cr_exit = exit_code_of status, cr_out = pi_text (cp_out c), cr_err = pi_text (cp_err c), cr_sudo = False, cr_prompted = False \<rparr>"
    "shown = cp_shown c"
    using assms(1) by (auto simp: run_capture_streaming_def)
  have t: "pi_text (cp_out c) = pipe_content os" "pi_text (cp_err c) = pipe_content es"
    using capture_loop_total [OF c(1) assms(3)] by (simp_all add: capture_start_def pipe_total_def)
  have "shows_captured (capture_start os es ws)" using assms(2) by (simp add: shows_captured_def capture_start_def)
  from capture_loop_shows [OF c(1) this]
  show "cr_out r = pipe_content os" "cr_err r = pipe_content es" "shown \<in> shuffles (pipe_content os) (pipe_content es)"
    using t c(2,3) by (simp_all add: shows_captured_def)
qed

section \<open>Properties\<close>

text \<open>C19: a command whose two pipes are closed in the end is captured completely: once \<open>poll\<close> has found the
  output ready as often as the reads of the output give answers, and the errors ready as often as the reads
  of the errors do, one pipe at a time or both at once and interrupted at will, but never failing, the loop
  has ended with the exit code of the child, all it wrote to each pipe up to its end or a read error, in
  order, and nothing was shown (the mode without showing).\<close>

theorem captured_exactly:
  assumes "pipe_closes os" "pipe_closes es" and "Poll_Failed \<notin> set ps"
    and "length os \<le> often out_ready ps" "length es \<le> often err_ready ps"
  shows "run_capture_streaming False ps os es ws status =
    Some (\<lparr> cr_exit = exit_code_of status, cr_out = pipe_content os, cr_err = pipe_content es, cr_sudo = False, cr_prompted = False \<rparr>, [])"
proof -
  have "capture_loop False ps (capture_start os es ws) \<noteq> None"
    by (rule capture_loop_ends) (use assms in \<open>simp_all add: capture_start_def pipe_will_close_def pipe_left_def\<close>)
  then obtain c where c: "capture_loop False ps (capture_start os es ws) = Some c" by auto
  from capture_loop_total [OF c assms(3)] capture_loop_silent [OF c] c show ?thesis
    by (simp add: run_capture_streaming_def capture_start_def pipe_total_def)
qed

theorem captured_exactly_witness:
  "run_capture_streaming False [Poll_Ready True False, Poll_Interrupted, Poll_Ready False True, Poll_Ready True False,
        Poll_Ready True False, Poll_Ready False True]
      [Got [104], Would_Block, End_Of_File] [Would_Block, End_Of_File] [] 256 =
    Some (\<lparr> cr_exit = exit_code_of 256, cr_out = [104], cr_err = [], cr_sudo = False, cr_prompted = False \<rparr>, [])"
  using captured_exactly [of "[Got [104], Would_Block, End_Of_File]" "[Would_Block, End_Of_File]"
      "[Poll_Ready True False, Poll_Interrupted, Poll_Ready False True, Poll_Ready True False, Poll_Ready True False, Poll_Ready False True]"
      "[]" 256]
  by (simp add: pipe_closes_def often_def out_ready_def err_ready_def)

end
