(* ===== verification/Float32.thy ===== *)
theory Float32
  imports Prelude
begin

text \<open>
  The \<open>float\<close> of the sources: IEEE 754 binary32 on bit patterns, with rounding to nearest, ties to
  even, as the language's implementation gives it on the platform the program is built for. The
  magnitude of a finite value is an integer number of units of the smallest subnormal, \<open>2\<^sup>-\<^sup>1\<^sup>4\<^sup>9\<close>, so
  every operation is exact integer arithmetic followed by one rounding. The payload of a NaN is not
  modelled: every operation that yields one yields the default quiet NaN.
\<close>

section \<open>Bit patterns\<close>

definition f_sign :: "f32 \<Rightarrow> bool" where
  "f_sign x = bit x 31"

definition f_mag :: "f32 \<Rightarrow> nat" where
  "f_mag x = unat (take_bit 31 x)"

abbreviation inf_mag :: nat where "inf_mag \<equiv> 0x7F800000"

definition f_is_nan :: "f32 \<Rightarrow> bool" where
  "f_is_nan x = (inf_mag < f_mag x)"

definition f_is_inf :: "f32 \<Rightarrow> bool" where
  "f_is_inf x = (f_mag x = inf_mag)"

definition f_make :: "bool \<Rightarrow> nat \<Rightarrow> f32" where
  "f_make s m = (if s then set_bit 31 (word_of_nat m) else word_of_nat m)"

definition f_nan :: f32 where "f_nan = 0x7FC00000"

definition f_inf :: "bool \<Rightarrow> f32" where "f_inf s = f_make s inf_mag"

definition f_max :: f32 where "f_max = 0x7F7FFFFF"

section \<open>Comparison\<close>

text \<open>The order of the values is the order of their sign-magnitude patterns; both zeros are equal
  and a NaN is not comparable.\<close>

definition f_key :: "f32 \<Rightarrow> int" where
  "f_key x = (if f_sign x then - int (f_mag x) else int (f_mag x))"

definition f_lt :: "f32 \<Rightarrow> f32 \<Rightarrow> bool" where
  "f_lt x y \<longleftrightarrow> \<not> f_is_nan x \<and> \<not> f_is_nan y \<and> f_key x < f_key y"

definition f_gt :: "f32 \<Rightarrow> f32 \<Rightarrow> bool" where
  "f_gt x y = f_lt y x"

definition f_le :: "f32 \<Rightarrow> f32 \<Rightarrow> bool" where
  "f_le x y \<longleftrightarrow> \<not> f_is_nan x \<and> \<not> f_is_nan y \<and> f_key x \<le> f_key y"

text \<open>\<open>glm::min\<close> and \<open>glm::max\<close>, componentwise \<open>(y < x) ? y : x\<close> and \<open>(x < y) ? y : x\<close>.\<close>

definition glm_min :: "f32 \<Rightarrow> f32 \<Rightarrow> f32" where
  "glm_min x y = (if f_lt y x then y else x)"

definition glm_max :: "f32 \<Rightarrow> f32 \<Rightarrow> f32" where
  "glm_max x y = (if f_lt x y then y else x)"

section \<open>Arithmetic\<close>

text \<open>The magnitude of a pattern in units of \<open>2\<^sup>-\<^sup>1\<^sup>4\<^sup>9\<close>.\<close>

definition mag_units :: "nat \<Rightarrow> nat" where
  "mag_units m =
    (if m < 2 ^ 23 then m else (2 ^ 23 + m mod 2 ^ 23) * 2 ^ (m div 2 ^ 23 - 1))"

definition f_units :: "f32 \<Rightarrow> int" where
  "f_units x = (if f_sign x then - int (mag_units (f_mag x)) else int (mag_units (f_mag x)))"

text \<open>The number of binary digits.\<close>

fun bit_len :: "nat \<Rightarrow> nat" where
  "bit_len n = (if n = 0 then 0 else Suc (bit_len (n div 2)))"

declare bit_len.simps [simp del]

text \<open>The pattern nearest to \<open>num / den\<close> units, ties to even, infinite beyond the range.\<close>

definition round_mag :: "nat \<Rightarrow> nat \<Rightarrow> nat" where
  "round_mag num den =
    (let k = bit_len (num div den) - 24;
         d = den * 2 ^ k;
         q = num div d;
         r = num mod d;
         q' = (if 2 * r > d \<or> (2 * r = d \<and> odd q) then q + 1 else q)
     in min inf_mag (k * 2 ^ 23 + q'))"

definition f_neg :: "f32 \<Rightarrow> f32" where
  "f_neg x = flip_bit 31 x"

definition f_abs :: "f32 \<Rightarrow> f32" where
  "f_abs x = take_bit 31 x"

definition f_add :: "f32 \<Rightarrow> f32 \<Rightarrow> f32" where
  "f_add x y =
    (if f_is_nan x \<or> f_is_nan y then f_nan
     else if f_is_inf x then (if f_is_inf y \<and> f_sign x \<noteq> f_sign y then f_nan else x)
     else if f_is_inf y then y
     else
       let s = f_units x + f_units y in
       if s = 0 then f_make (f_sign x \<and> f_sign y) 0
       else f_make (s < 0) (round_mag (nat \<bar>s\<bar>) 1))"

definition f_sub :: "f32 \<Rightarrow> f32 \<Rightarrow> f32" where
  "f_sub x y = f_add x (f_neg y)"

definition f_mul :: "f32 \<Rightarrow> f32 \<Rightarrow> f32" where
  "f_mul x y =
    (if f_is_nan x \<or> f_is_nan y then f_nan
     else
       let s = (f_sign x \<noteq> f_sign y) in
       if f_is_inf x \<or> f_is_inf y then (if f_mag x = 0 \<or> f_mag y = 0 then f_nan else f_inf s)
       else f_make s (round_mag (mag_units (f_mag x) * mag_units (f_mag y)) (2 ^ 149)))"

definition f_div :: "f32 \<Rightarrow> f32 \<Rightarrow> f32" where
  "f_div x y =
    (if f_is_nan x \<or> f_is_nan y then f_nan
     else
       let s = (f_sign x \<noteq> f_sign y) in
       if f_is_inf x then (if f_is_inf y then f_nan else f_inf s)
       else if f_is_inf y then f_make s 0
       else if f_mag y = 0 then (if f_mag x = 0 then f_nan else f_inf s)
       else f_make s (round_mag (mag_units (f_mag x) * 2 ^ 149) (mag_units (f_mag y))))"

text \<open>Conversion from \<open>int\<close>.\<close>

definition f_of_int :: "int \<Rightarrow> f32" where
  "f_of_int i = f_make (i < 0) (round_mag (nat \<bar>i\<bar> * 2 ^ 149) 1)"

end
