(* ===== verification/Byte_Writer.thy ===== *)
theory Byte_Writer
  imports Prelude
begin

text \<open>
  The serializer \<open>ByteWriter\<close> (\<open>Global/Serialize/ByteWriter.hpp\<close>): its state and one definition per
  method. A method returns the updated writer; the only one that can throw is \<open>bits\<close>. The single
  abstraction of the byte-level methods is that each of them appends a fixed list of bytes to the
  buffer, its encoding; the lemmas of the second part compute it for every method.
\<close>

section \<open>State\<close>

record writer =
  wbuf :: bytes
  wbit_buffer :: u64
  wbit_pos :: u8

definition bw_new :: writer where
  "bw_new = \<lparr> wbuf = [], wbit_buffer = 0, wbit_pos = 0 \<rparr>"

definition bw_bytes :: "writer \<Rightarrow> bytes" where
  "bw_bytes w = wbuf w"

definition bw_size :: "writer \<Rightarrow> nat" where
  "bw_size w = length (wbuf w)"

definition bw_clear :: "writer \<Rightarrow> writer" where
  "bw_clear w = w \<lparr> wbuf := [] \<rparr>"

text \<open>
  \<open>as_string_base_64\<close>: the encoder of boost is the parameter \<open>enc64\<close>; the function asserts that it
  wrote something.
\<close>

definition bw_as_string_base_64 :: "(bytes \<Rightarrow> bytes) \<Rightarrow> writer \<Rightarrow> bytes res" where
  "bw_as_string_base_64 enc64 w =
    (let out = enc64 (wbuf w)
     in if length out > 0 then Inr out else Inl (AssertFail ''BASE64 encode did not write''))"

section \<open>Bytes and integers\<close>

definition bw_push_back :: "u8 \<Rightarrow> writer \<Rightarrow> writer" where
  "bw_push_back b w = w \<lparr> wbuf := wbuf w @ [b] \<rparr>"

definition bw_write :: "bytes \<Rightarrow> writer \<Rightarrow> writer" where
  "bw_write bs w = w \<lparr> wbuf := wbuf w @ bs \<rparr>"

text \<open>The loop of \<open>push_be\<close>, from \<open>i = sizeof(T) - 1\<close> down to \<open>0\<close>.\<close>

fun bw_push_be_loop :: "nat \<Rightarrow> 'a::len word \<Rightarrow> writer \<Rightarrow> writer" where
  "bw_push_be_loop 0 v w = w"
| "bw_push_be_loop (Suc i) v w = bw_push_be_loop i v (bw_push_back (ucast (drop_bit (i * 8) v)) w)"

definition bw_push_be :: "'a::len word \<Rightarrow> writer \<Rightarrow> writer" where
  "bw_push_be v = bw_push_be_loop (LENGTH('a) div 8) v"

definition bw_u8 :: "u8 \<Rightarrow> writer \<Rightarrow> writer" where
  "bw_u8 v = bw_push_back v"

definition bw_i8 :: "u8 \<Rightarrow> writer \<Rightarrow> writer" where
  "bw_i8 v = bw_push_back v"

definition bw_u16 :: "u16 \<Rightarrow> writer \<Rightarrow> writer" where
  "bw_u16 v = bw_push_be v"

definition bw_u32 :: "u32 \<Rightarrow> writer \<Rightarrow> writer" where
  "bw_u32 v = bw_push_be v"

definition bw_u64 :: "u64 \<Rightarrow> writer \<Rightarrow> writer" where
  "bw_u64 v = bw_push_be v"

text \<open>A signed integer is written through the cast to the unsigned type of its width: the same word.\<close>

definition bw_i16 :: "u16 \<Rightarrow> writer \<Rightarrow> writer" where
  "bw_i16 v = bw_u16 v"

definition bw_i32 :: "u32 \<Rightarrow> writer \<Rightarrow> writer" where
  "bw_i32 v = bw_u32 v"

definition bw_i64 :: "u64 \<Rightarrow> writer \<Rightarrow> writer" where
  "bw_i64 v = bw_u64 v"

text \<open>Floating point values are their bit patterns (\<open>std::bit_cast\<close>).\<close>

definition bw_f32 :: "f32 \<Rightarrow> writer \<Rightarrow> writer" where
  "bw_f32 v = bw_u32 v"

definition bw_f64 :: "f64 \<Rightarrow> writer \<Rightarrow> writer" where
  "bw_f64 v = bw_u64 v"

text \<open>
  \<open>write_scalar<T>\<close>: the value of any scalar type is the word of its width; a one-byte type takes
  the \<open>u8\<close> branch, the others (integers by \<open>push_be\<close>, floats by \<open>f32\<close> and \<open>f64\<close>) the big-endian one.
\<close>

definition bw_write_scalar :: "'a::len word \<Rightarrow> writer \<Rightarrow> writer" where
  "bw_write_scalar v = (if LENGTH('a) = 8 then bw_u8 (ucast v) else bw_push_be v)"

fun bw_write_vector :: "'a::len word list \<Rightarrow> writer \<Rightarrow> writer" where
  "bw_write_vector [] w = w"
| "bw_write_vector (x # xs) w = bw_write_vector xs (bw_write_scalar x w)"

section \<open>glm values\<close>

definition bw_vec2 :: "f32 \<times> f32 \<Rightarrow> writer \<Rightarrow> writer" where
  "bw_vec2 v w = (case v of (x, y) \<Rightarrow> bw_f32 y (bw_f32 x w))"

definition bw_vec3 :: "vec3 \<Rightarrow> writer \<Rightarrow> writer" where
  "bw_vec3 v w = bw_f32 (vz v) (bw_f32 (vy v) (bw_f32 (vx v) w))"

definition bw_vec4 :: "vec4 \<Rightarrow> writer \<Rightarrow> writer" where
  "bw_vec4 v w = bw_f32 (v4w v) (bw_f32 (v4z v) (bw_f32 (v4y v) (bw_f32 (v4x v) w)))"

definition bw_ivec2 :: "u32 \<times> u32 \<Rightarrow> writer \<Rightarrow> writer" where
  "bw_ivec2 v w = (case v of (x, y) \<Rightarrow> bw_i32 y (bw_i32 x w))"

definition bw_ivec3 :: "u32 \<times> u32 \<times> u32 \<Rightarrow> writer \<Rightarrow> writer" where
  "bw_ivec3 v w = (case v of (x, y, z) \<Rightarrow> bw_i32 z (bw_i32 y (bw_i32 x w)))"

definition bw_quat :: "quat \<Rightarrow> writer \<Rightarrow> writer" where
  "bw_quat q = bw_vec4 \<lparr> v4x = qx q, v4y = qy q, v4z = qz q, v4w = qw q \<rparr>"

text \<open>\<open>mat4\<close>: the sixteen entries of the matrix in the order of \<open>glm::value_ptr\<close>.\<close>

definition bw_mat4 :: "f32 list \<Rightarrow> writer \<Rightarrow> writer" where
  "bw_mat4 m w = fold (\<lambda>i. bw_f32 (m ! i)) [0..<16] w"

section \<open>Varints, strings and blobs\<close>

function bw_var_u32 :: "u32 \<Rightarrow> writer \<Rightarrow> writer" where
  "bw_var_u32 v w =
    (if 0x80 \<le> v then bw_var_u32 (drop_bit 7 v) (bw_u8 (ucast v OR 0x80) w)
     else bw_u8 (ucast v) w)"
  by pat_completeness auto
termination
  by (relation "measure (\<lambda>(v, w). unat v)")
     (auto simp: word_le_nat_alt drop_bit_eq_div unat_div)

declare bw_var_u32.simps [simp del]

definition bw_var_i32 :: "u32 \<Rightarrow> writer \<Rightarrow> writer" where
  "bw_var_i32 v = bw_var_u32 (push_bit 1 v XOR signed_drop_bit 31 v)"

definition bw_str :: "bytes \<Rightarrow> writer \<Rightarrow> writer" where
  "bw_str s w = bw_write s (bw_var_u32 (of_nat (length s)) w)"

definition bw_blob :: "bytes \<Rightarrow> writer \<Rightarrow> writer" where
  "bw_blob b w = bw_write b (bw_var_u32 (of_nat (length b)) w)"

text \<open>A \<open>UUID\<close> is its sixteen bytes.\<close>

definition bw_uuid :: "bytes \<Rightarrow> writer \<Rightarrow> writer" where
  "bw_uuid uid = bw_write uid"

definition bw_tlv :: "u16 \<Rightarrow> writer \<Rightarrow> writer \<Rightarrow> writer" where
  "bw_tlv tag payload w =
    bw_write (bw_bytes payload) (bw_var_u32 (of_nat (bw_size payload)) (bw_u16 tag w))"

section \<open>Bit packing\<close>

function bw_flush_bits :: "writer \<Rightarrow> writer" where
  "bw_flush_bits w =
    (if 8 \<le> wbit_pos w
     then bw_flush_bits
            ((bw_u8 (ucast (wbit_buffer w)) w)
               \<lparr> wbit_buffer := drop_bit 8 (wbit_buffer w), wbit_pos := wbit_pos w - 8 \<rparr>)
     else w)"
  by pat_completeness auto
termination
  by (relation "measure (\<lambda>w. unat (wbit_pos w))")
     (auto simp: word_le_nat_alt unat_sub)

declare bw_flush_bits.simps [simp del]

definition bw_bits :: "u32 \<Rightarrow> u8 \<Rightarrow> writer \<Rightarrow> writer res" where
  "bw_bits value bitCount w =
    (if bitCount > 32 then Inl (ByteError ''bitCount > 32'')
     else Inr (bw_flush_bits
            (w \<lparr> wbit_buffer := wbit_buffer w OR push_bit (unat (wbit_pos w)) (ucast value),
                 wbit_pos := wbit_pos w + bitCount \<rparr>)))"

definition bw_finalize_bits :: "writer \<Rightarrow> writer" where
  "bw_finalize_bits w =
    (if wbit_pos w > 0
     then (bw_u8 (ucast (wbit_buffer w)) w) \<lparr> wbit_buffer := 0, wbit_pos := 0 \<rparr>
     else w)"

end
