(* ===== verification/Byte_Reader.thy ===== *)
theory Byte_Reader
  imports Prelude
begin

text \<open>
  The deserializer \<open>ByteReader\<close> (\<open>Global/Serialize/ByteReader.hpp\<close>): its state and one definition per
  method, each a call that may throw and threads the reader. An access outside the buffer and a
  shift by at least the width of the type are undefined behaviour, values of their own.
\<close>

section \<open>State\<close>

text \<open>\<open>rdata\<close> are the \<open>n\<close> bytes from \<open>p\<close> on, \<open>rpos\<close> is \<open>i\<close>.\<close>

record reader =
  rdata :: bytes
  rpos :: nat
  rbit_buffer :: u64
  rbit_pos :: u8

definition br_new :: "bytes \<Rightarrow> reader" where
  "br_new bs = \<lparr> rdata = bs, rpos = 0, rbit_buffer = 0, rbit_pos = 0 \<rparr>"

text \<open>
  The constructor on a base 64 string: the decoder of boost is the parameter \<open>dec64\<close>; \<open>strlen\<close> ends
  the string at its first zero byte.
\<close>

definition br_decode_base64 :: "(bytes \<Rightarrow> bytes) \<Rightarrow> reader \<Rightarrow> reader" where
  "br_decode_base64 dec64 r = r \<lparr> rdata := dec64 (takeWhile (\<lambda>b. b \<noteq> 0) (rdata r)) \<rparr>"

definition br_new_base64 :: "(bytes \<Rightarrow> bytes) \<Rightarrow> bytes \<Rightarrow> reader" where
  "br_new_base64 dec64 s = br_decode_base64 dec64 (br_new s)"

text \<open>\<open>n - i\<close> in \<open>size_t\<close>.\<close>

definition br_remaining :: "reader \<Rightarrow> nat" where
  "br_remaining r = nat ((int (length (rdata r)) - int (rpos r)) mod 2 ^ 64)"

definition br_position :: "reader \<Rightarrow> nat" where
  "br_position r = rpos r"

definition br_get_read_source :: "reader \<Rightarrow> bytes" where
  "br_get_read_source r = rdata r"

section \<open>Raw access\<close>

text \<open>The \<open>k\<close> bytes from \<open>p + i\<close> on: undefined unless they lie in the buffer.\<close>

definition br_slice :: "nat \<Rightarrow> (reader, bytes) stm" where
  "br_slice k r =
    (if rpos r + k \<le> length (rdata r) then Inr (take k (drop (rpos r) (rdata r)), r)
     else Inl (UB Out_Of_Bounds))"

definition br_advance :: "nat \<Rightarrow> (reader, unit) stm" where
  "br_advance k r = Inr ((), r \<lparr> rpos := size_add (rpos r) k \<rparr>)"

definition br_read :: "nat \<Rightarrow> (reader, bytes) stm" where
  "br_read k r =
    (if size_add (rpos r) k > length (rdata r) then Inl (ByteError ''read overflow'')
     else bindS (br_slice k) (\<lambda>bs. bindS (br_advance k) (\<lambda>_. returnS bs)) r)"

text \<open>\<open>p[i++]\<close>; the increment cannot wrap, as \<open>i\<close> is below the size of the buffer.\<close>

definition br_next_byte :: "(reader, u8) stm" where
  "br_next_byte r =
    (if rpos r < length (rdata r)
     then Inr (rdata r ! rpos r, r \<lparr> rpos := rpos r + 1 \<rparr>)
     else Inl (UB Out_Of_Bounds))"

section \<open>Integers\<close>

text \<open>\<open>read_int<uint8_t>\<close>.\<close>

definition br_read_int8 :: "(reader, u8) stm" where
  "br_read_int8 r =
    (if size_add (rpos r) 1 > length (rdata r) then Inl (ByteError ''read overflow'')
     else br_next_byte r)"

fun br_read_be_loop :: "nat \<Rightarrow> 'a::len word \<Rightarrow> (reader, 'a word) stm" where
  "br_read_be_loop 0 v r = Inr (v, r)"
| "br_read_be_loop (Suc j) v r =
    bindS br_next_byte (\<lambda>b. br_read_be_loop j (push_bit 8 v OR ucast b)) r"

definition br_read_be :: "(reader, 'a::len word) stm" where
  "br_read_be r =
    (if size_add (rpos r) (LENGTH('a) div 8) > length (rdata r) then Inl (ByteError ''read overflow'')
     else br_read_be_loop (LENGTH('a) div 8) 0 r)"

definition br_u8 :: "(reader, u8) stm" where
  "br_u8 = br_read_int8"

definition br_u16 :: "(reader, u16) stm" where
  "br_u16 = br_read_be"

definition br_u32 :: "(reader, u32) stm" where
  "br_u32 = br_read_be"

definition br_u64 :: "(reader, u64) stm" where
  "br_u64 = br_read_be"

text \<open>The narrow signed reads return \<open>int32_t\<close>: sign extension.\<close>

definition br_i8 :: "(reader, u32) stm" where
  "br_i8 = bindS br_read_be (\<lambda>v :: u8. returnS (scast v))"

definition br_i16 :: "(reader, u32) stm" where
  "br_i16 = bindS br_read_be (\<lambda>v :: u16. returnS (scast v))"

definition br_i32 :: "(reader, u32) stm" where
  "br_i32 = br_read_be"

definition br_i64 :: "(reader, u64) stm" where
  "br_i64 = br_read_be"

definition br_f32 :: "(reader, f32) stm" where
  "br_f32 = br_u32"

definition br_f64 :: "(reader, f64) stm" where
  "br_f64 = br_u64"

definition br_read_scalar :: "(reader, 'a::len word) stm" where
  "br_read_scalar r =
    (if LENGTH('a) = 8 then bindS br_read_int8 (\<lambda>v. returnS (ucast v)) r else br_read_be r)"

definition br_read_vector :: "nat \<Rightarrow> (reader, 'a::len word list) stm" where
  "br_read_vector dim = repeatS dim br_read_scalar"

section \<open>glm values\<close>

definition br_vec2 :: "(reader, f32 \<times> f32) stm" where
  "br_vec2 = bindS br_f32 (\<lambda>x. bindS br_f32 (\<lambda>y. returnS (x, y)))"

definition br_vec3 :: "(reader, vec3) stm" where
  "br_vec3 =
    bindS br_f32 (\<lambda>x. bindS br_f32 (\<lambda>y. bindS br_f32 (\<lambda>z.
      returnS \<lparr> vx = x, vy = y, vz = z \<rparr>)))"

definition br_vec4 :: "(reader, vec4) stm" where
  "br_vec4 =
    bindS br_f32 (\<lambda>x. bindS br_f32 (\<lambda>y. bindS br_f32 (\<lambda>z. bindS br_f32 (\<lambda>w.
      returnS \<lparr> v4x = x, v4y = y, v4z = z, v4w = w \<rparr>))))"

definition br_ivec2 :: "(reader, u32 \<times> u32) stm" where
  "br_ivec2 = bindS br_i32 (\<lambda>x. bindS br_i32 (\<lambda>y. returnS (x, y)))"

definition br_ivec3 :: "(reader, u32 \<times> u32 \<times> u32) stm" where
  "br_ivec3 = bindS br_i32 (\<lambda>x. bindS br_i32 (\<lambda>y. bindS br_i32 (\<lambda>z. returnS (x, y, z))))"

definition br_quat :: "(reader, quat) stm" where
  "br_quat =
    bindS br_vec4 (\<lambda>v. returnS \<lparr> qw = v4w v, qx = v4x v, qy = v4y v, qz = v4z v \<rparr>)"

definition br_mat4 :: "(reader, f32 list) stm" where
  "br_mat4 = repeatS 16 br_f32"

section \<open>Varints, strings and blobs\<close>

text \<open>
  The loop of \<open>var_u32\<close>. The guard stops at \<open>shift > 35\<close>, so a sixth byte is shifted by 35: the
  shift of a 32-bit value by at least 32 is undefined.
\<close>

function br_var_u32_loop :: "u32 \<Rightarrow> nat \<Rightarrow> (reader, u32) stm" where
  "br_var_u32_loop v shift r =
    bindS br_u8 (\<lambda>b r.
      if shift \<ge> 32 then Inl (UB Shift_Range)
      else
        let v' = v OR push_bit shift (ucast (b AND 0x7F)) in
        if b AND 0x80 = 0 then Inr (v', r)
        else if shift + 7 > 35 then Inl (ByteError ''varint overflow'')
        else br_var_u32_loop v' (shift + 7) r) r"
  by pat_completeness auto
termination
  by (relation "measure (\<lambda>(v, shift, r). 40 - shift)") auto

declare br_var_u32_loop.simps [simp del]

definition br_var_u32 :: "(reader, u32) stm" where
  "br_var_u32 = br_var_u32_loop 0 0"

definition br_var_i32 :: "(reader, u32) stm" where
  "br_var_i32 = bindS br_var_u32 (\<lambda>v. returnS (drop_bit 1 v XOR (- (v AND 1))))"

text \<open>The common tail of \<open>str\<close>, \<open>blob\<close> and \<open>next_tlv\<close>: a bounds check, the bytes, \<open>i += len\<close>.\<close>

definition br_counted :: "string \<Rightarrow> u32 \<Rightarrow> (reader, bytes) stm" where
  "br_counted msg len r =
    (if br_remaining r < unat len then Inl (ByteError msg)
     else bindS (br_slice (unat len)) (\<lambda>bs. bindS (br_advance (unat len)) (\<lambda>_. returnS bs)) r)"

definition br_str :: "(reader, bytes) stm" where
  "br_str = bindS br_var_u32 (br_counted ''string overflow'')"

definition br_blob :: "(reader, bytes) stm" where
  "br_blob = bindS br_var_u32 (br_counted ''blob overflow'')"

definition br_uuid :: "(reader, bytes) stm" where
  "br_uuid r =
    (if br_remaining r < 16 then Inl (ByteError ''UUID overflow'') else br_read 16 r)"

definition br_next_tlv :: "(reader, (u16 \<times> bytes) option) stm" where
  "br_next_tlv r =
    (if br_remaining r = 0 then Inr (None, r)
     else bindS br_u16 (\<lambda>tag. bindS br_var_u32 (\<lambda>len. bindS (br_counted ''TLV overflow'' len)
            (\<lambda>value. returnS (Some (tag, value))))) r)"

section \<open>Bit unpacking\<close>

function br_bits_fill :: "u8 \<Rightarrow> (reader, unit) stm" where
  "br_bits_fill bitCount r =
    (if rbit_pos r < bitCount
     then bindS br_u8 (\<lambda>b r.
            br_bits_fill bitCount
              (r \<lparr> rbit_buffer := rbit_buffer r OR push_bit (unat (rbit_pos r)) (ucast b),
                   rbit_pos := rbit_pos r + 8 \<rparr>)) r
     else Inr ((), r))"
  by pat_completeness auto
termination
  by (relation "measure (\<lambda>(c, r). length (rdata r) - rpos r)")
     (auto simp: br_u8_def br_read_int8_def br_next_byte_def size_add_def split: if_splits)

declare br_bits_fill.simps [simp del]

definition br_bits :: "u8 \<Rightarrow> (reader, u32) stm" where
  "br_bits bitCount r =
    (if bitCount > 32 then Inl (ByteError ''bitCount > 32'')
     else bindS (br_bits_fill bitCount) (\<lambda>_ r.
       Inr (ucast (rbit_buffer r AND (push_bit (unat bitCount) 1 - 1)),
            r \<lparr> rbit_buffer := drop_bit (unat bitCount) (rbit_buffer r),
                rbit_pos := rbit_pos r - bitCount \<rparr>)) r)"

definition br_align_bits :: "(reader, unit) stm" where
  "br_align_bits r = Inr ((), r \<lparr> rbit_buffer := 0, rbit_pos := 0 \<rparr>)"

end
