(* ===== verification/Byte_Codec.thy ===== *)
theory Byte_Codec
  imports Byte_Writer Byte_Reader
begin

text \<open>
  The wire format the writer and the reader agree on. Every writer method appends the encoding of
  its argument (\<open>enc_simps\<close>); every reader method, from any position of a buffer, returns the value
  whose encoding starts there and advances past it, and rejects a buffer that ends inside the
  encoding with a \<open>ByteError\<close> (the predicate \<open>decodes\<close>, the collection \<open>decodes_intros\<close>). The locale
  \<open>codec\<close> is the contract of every serializable type; it is interpreted for each of them.
\<close>

named_theorems enc_simps
named_theorems decodes_intros

section \<open>Encodings\<close>

fun be_bytes :: "nat \<Rightarrow> 'a::len word \<Rightarrow> bytes" where
  "be_bytes 0 v = []"
| "be_bytes (Suc i) v = ucast (drop_bit (i * 8) v) # be_bytes i v"

definition be_enc :: "'a::len word \<Rightarrow> bytes" where
  "be_enc v = be_bytes (LENGTH('a) div 8) v"

function var_enc :: "u32 \<Rightarrow> bytes" where
  "var_enc v =
    (if 0x80 \<le> v then (ucast v OR 0x80) # var_enc (drop_bit 7 v) else [ucast v])"
  by pat_completeness auto
termination
  by (relation "measure unat") (auto simp: word_le_nat_alt drop_bit_eq_div unat_div)

declare var_enc.simps [simp del]

definition str_enc :: "bytes \<Rightarrow> bytes" where
  "str_enc s = var_enc (of_nat (length s)) @ s"

definition zigzag :: "u32 \<Rightarrow> u32" where
  "zigzag v = push_bit 1 v XOR signed_drop_bit 31 v"

definition vec3_enc :: "vec3 \<Rightarrow> bytes" where
  "vec3_enc v = be_enc (vx v) @ be_enc (vy v) @ be_enc (vz v)"

definition quat_enc :: "quat \<Rightarrow> bytes" where
  "quat_enc q = be_enc (qx q) @ be_enc (qy q) @ be_enc (qz q) @ be_enc (qw q)"

section \<open>What the writer appends\<close>

lemma bw_write_write [enc_simps]: "bw_write bs (bw_write as w) = bw_write (as @ bs) w"
  by (simp add: bw_write_def)

lemma bw_write_Nil [enc_simps]: "bw_write [] w = w"
  by (simp add: bw_write_def)

lemma bw_u8_enc [enc_simps]: "bw_u8 v w = bw_write [v] w"
  by (simp add: bw_u8_def bw_push_back_def bw_write_def)

lemma bw_push_be_loop_enc: "bw_push_be_loop n v w = bw_write (be_bytes n v) w"
proof (induction n arbitrary: w)
  case 0
  then show ?case by (simp add: enc_simps)
next
  case (Suc n)
  then show ?case by (simp add: bw_push_back_def bw_write_def)
qed

lemma bw_push_be_enc [enc_simps]: "bw_push_be v w = bw_write (be_enc v) w"
  by (simp add: bw_push_be_def be_enc_def bw_push_be_loop_enc)

lemma bw_ints_enc [enc_simps]:
  "bw_u16 a w = bw_write (be_enc a) w"
  "bw_u32 b w = bw_write (be_enc b) w"
  "bw_u64 c w = bw_write (be_enc c) w"
  "bw_i16 a w = bw_write (be_enc a) w"
  "bw_i32 b w = bw_write (be_enc b) w"
  "bw_i64 c w = bw_write (be_enc c) w"
  "bw_f32 b w = bw_write (be_enc b) w"
  "bw_f64 c w = bw_write (be_enc c) w"
  by (simp_all add: bw_u16_def bw_u32_def bw_u64_def bw_i16_def bw_i32_def bw_i64_def bw_f32_def
      bw_f64_def enc_simps)

lemma be_enc_8: "be_enc (v :: u8) = [v]"
  by (simp add: be_enc_def)

lemma bw_write_scalar_enc [enc_simps]:
  "bw_write_scalar (v :: 'a::len word) w = bw_write (be_enc v) w"
  by (auto simp: bw_write_scalar_def enc_simps be_enc_def)

lemma bw_write_vector_enc [enc_simps]:
  "bw_write_vector xs w = bw_write (concat (map be_enc xs)) w"
  by (induction xs arbitrary: w) (simp_all add: enc_simps)

lemma bw_vec3_enc [enc_simps]: "bw_vec3 v w = bw_write (vec3_enc v) w"
  by (simp add: bw_vec3_def vec3_enc_def enc_simps)

lemma bw_quat_enc [enc_simps]: "bw_quat q w = bw_write (quat_enc q) w"
  by (simp add: bw_quat_def bw_vec4_def quat_enc_def enc_simps)

lemma bw_var_u32_enc [enc_simps]: "bw_var_u32 v w = bw_write (var_enc v) w"
proof (induction v arbitrary: w rule: var_enc.induct)
  case (1 v)
  show ?case
    by (subst bw_var_u32.simps, subst var_enc.simps) (simp add: 1 enc_simps)
qed

lemma bw_var_i32_enc [enc_simps]: "bw_var_i32 v w = bw_write (var_enc (zigzag v)) w"
  by (simp add: bw_var_i32_def zigzag_def enc_simps)

lemma bw_str_enc [enc_simps]: "bw_str s w = bw_write (str_enc s) w"
  by (simp add: bw_str_def str_enc_def enc_simps)

lemma bw_blob_enc [enc_simps]: "bw_blob s w = bw_write (str_enc s) w"
  by (simp add: bw_blob_def str_enc_def enc_simps)

lemma bw_uuid_enc [enc_simps]: "bw_uuid u w = bw_write u w"
  by (simp add: bw_uuid_def)

lemma bw_tlv_enc [enc_simps]:
  "bw_tlv tag payload w = bw_write (be_enc tag @ str_enc (wbuf payload)) w"
  by (simp add: bw_tlv_def bw_bytes_def bw_size_def str_enc_def enc_simps)

lemma wbuf_write [simp]: "wbuf (bw_write bs w) = wbuf w @ bs"
  by (simp add: bw_write_def)

section \<open>What the reader decodes\<close>

text \<open>A reader inside its buffer; an object is smaller than half of the address space.\<close>

definition reader_ok :: "reader \<Rightarrow> bool" where
  "reader_ok r \<longleftrightarrow> rpos r \<le> length (rdata r) \<and> length (rdata r) < 2 ^ 63"

definition br_left :: "reader \<Rightarrow> bytes" where
  "br_left r = drop (rpos r) (rdata r)"

definition br_skip :: "nat \<Rightarrow> reader \<Rightarrow> reader" where
  "br_skip k r = r \<lparr> rpos := rpos r + k \<rparr>"

definition decodes :: "(reader, 'a) stm \<Rightarrow> bytes \<Rightarrow> 'a \<Rightarrow> bool" where
  "decodes m bs x \<longleftrightarrow>
    (\<forall>r. reader_ok r \<longrightarrow>
      (prefix bs (br_left r) \<longrightarrow> m r = Inr (x, br_skip (length bs) r)) \<and>
      (strict_prefix (br_left r) bs \<longrightarrow> (\<exists>msg. m r = Inl (ByteError msg))))"

lemma decodesI:
  assumes "\<And>r. reader_ok r \<Longrightarrow> prefix bs (br_left r) \<Longrightarrow> m r = Inr (x, br_skip (length bs) r)"
    and "\<And>r. reader_ok r \<Longrightarrow> strict_prefix (br_left r) bs \<Longrightarrow> \<exists>msg. m r = Inl (ByteError msg)"
  shows "decodes m bs x"
  using assms by (auto simp: decodes_def)

lemma decodesD:
  assumes "decodes m bs x" and "reader_ok r" and "prefix bs (br_left r)"
  shows "m r = Inr (x, br_skip (length bs) r)"
  using assms by (auto simp: decodes_def)

text \<open>The same for a fresh reader over the encoding.\<close>

lemma decodes_new:
  assumes "decodes m bs x" and "length bs < 2 ^ 63"
  obtains r where "m (br_new bs) = Inr (x, r)"
  using decodesD [OF assms(1), of "br_new bs"] assms(2)
  by (auto simp: br_new_def br_left_def reader_ok_def)

lemma decodes_short:
  assumes "decodes m bs x" and "reader_ok r" and "strict_prefix (br_left r) bs"
  obtains msg where "m r = Inl (ByteError msg)"
  using assms by (auto simp: decodes_def)

lemma length_br_left: "reader_ok r \<Longrightarrow> rpos r + length (br_left r) = length (rdata r)"
  by (simp add: reader_ok_def br_left_def)

lemma br_left_skip [simp]: "br_left (br_skip k r) = drop k (br_left r)"
  by (simp add: br_left_def br_skip_def add.commute)

lemma br_skip_simps [simp]:
  "rdata (br_skip k r) = rdata r"
  "rpos (br_skip k r) = rpos r + k"
  "br_skip j (br_skip k r) = br_skip (k + j) r"
  "br_skip 0 r = r"
  by (simp_all add: br_skip_def add.assoc)

lemma reader_ok_skip: "reader_ok r \<Longrightarrow> k \<le> length (br_left r) \<Longrightarrow> reader_ok (br_skip k r)"
  using length_br_left [of r] by (simp add: reader_ok_def)

lemma br_remaining_ok: "reader_ok r \<Longrightarrow> br_remaining r = length (br_left r)"
  by (auto simp: br_remaining_def reader_ok_def br_left_def nat_mod_distrib)

lemma decodes_return [decodes_intros]: "decodes (returnS x) [] x"
  by (rule decodesI) auto

lemma decodes_bind:
  assumes m: "decodes m bs x" and f: "decodes (f x) cs y"
  shows "decodes (bindS m f) (bs @ cs) y"
proof (rule decodesI)
  fix r assume ok: "reader_ok r" and p: "prefix (bs @ cs) (br_left r)"
  then obtain ds where ds: "br_left r = bs @ cs @ ds" by (auto simp: prefix_def)
  have "m r = Inr (x, br_skip (length bs) r)"
    using m ok ds by (auto intro: decodesD)
  moreover have "f x (br_skip (length bs) r) = Inr (y, br_skip (length cs) (br_skip (length bs) r))"
    using f by (rule decodesD) (auto simp: ok ds intro: reader_ok_skip)
  ultimately show "bindS m f r = Inr (y, br_skip (length (bs @ cs)) r)"
    by simp
next
  fix r assume ok: "reader_ok r" and p: "strict_prefix (br_left r) (bs @ cs)"
  from p consider "strict_prefix (br_left r) bs"
    | zs where "br_left r = bs @ zs" "strict_prefix zs cs"
    by (metis prefix_append prefix_order.le_less same_prefix_prefix strict_prefix_def append_Nil2)
  then show "\<exists>msg. bindS m f r = Inl (ByteError msg)"
  proof cases
    case 1
    with m ok obtain msg where "m r = Inl (ByteError msg)" by (elim decodes_short)
    then show ?thesis by simp
  next
    case 2
    have "m r = Inr (x, br_skip (length bs) r)"
      using m ok 2 by (auto intro: decodesD)
    moreover obtain msg where "f x (br_skip (length bs) r) = Inl (ByteError msg)"
      by (rule decodes_short [OF f, of "br_skip (length bs) r"]) (auto simp: ok 2 intro: reader_ok_skip)
    ultimately show ?thesis by simp
  qed
qed

lemma decodes_bind_last: "decodes m bs x \<Longrightarrow> decodes (f x) [] y \<Longrightarrow> decodes (bindS m f) bs y"
  using decodes_bind [of m bs x f "[]" y] by simp

lemma decodes_bind_return:
  "decodes m bs x \<Longrightarrow> decodes (bindS m (\<lambda>x. returnS (f x))) bs (f x)"
  by (metis append_Nil2 decodes_bind decodes_return)

text \<open>A fixed-size access: the bounds check, then the bytes.\<close>

lemma decodes_checked:
  assumes n: "length bs = n" "n < 2 ^ 63"
    and body: "\<And>r. reader_ok r \<Longrightarrow> prefix bs (br_left r) \<Longrightarrow> body r = Inr (x, br_skip n r)"
  shows "decodes (\<lambda>r. if size_add (rpos r) n > length (rdata r) then Inl (ByteError msg) else body r) bs x"
proof (rule decodesI)
  fix r assume r: "reader_ok r" "prefix bs (br_left r)"
  then have "length bs \<le> length (br_left r)" by (auto dest: prefix_length_le)
  with r n length_br_left [of r] have "size_add (rpos r) n \<le> length (rdata r)"
    by (simp add: size_add_def reader_ok_def)
  then show "(if size_add (rpos r) n > length (rdata r) then Inl (ByteError msg) else body r) =
      Inr (x, br_skip (length bs) r)"
    using body r n by simp
next
  fix r assume r: "reader_ok r" "strict_prefix (br_left r) bs"
  then have "length (br_left r) < n" using n prefix_length_less by blast
  with r n length_br_left [of r] have "size_add (rpos r) n > length (rdata r)"
    by (simp add: size_add_def reader_ok_def)
  then show "\<exists>msg'. (if size_add (rpos r) n > length (rdata r) then Inl (ByteError msg) else body r) =
      Inl (ByteError msg')"
    by simp
qed

lemma br_next_byte_left:
  "br_left r = b # bs \<Longrightarrow> br_next_byte r = Inr (b, br_skip 1 r)"
  by (auto simp: br_left_def br_next_byte_def br_skip_def)
     (metis nth_via_drop, metis drop_all list.distinct(1) not_le)

lemma decodes_br_u8 [decodes_intros]: "decodes br_u8 [b] b"
proof -
  have "br_u8 = (\<lambda>r. if size_add (rpos r) 1 > length (rdata r) then Inl (ByteError ''read overflow'')
     else br_next_byte r)"
    by (rule ext) (simp add: br_u8_def br_read_int8_def)
  moreover have "decodes \<dots> [b] b"
    by (rule decodes_checked) (auto simp: prefix_def br_next_byte_left)
  ultimately show ?thesis by simp
qed

lemma br_read_be_loop_left:
  "br_left r = be_bytes n v @ zs \<Longrightarrow>
   br_read_be_loop n acc r = Inr (push_bit (8 * n) acc OR take_bit (8 * n) v, br_skip n r)"
proof (induction n arbitrary: acc r)
  case 0
  then show ?case by simp
next
  case (Suc n)
  let ?b = "ucast (drop_bit (n * 8) v) :: u8"
  have "br_left (br_skip 1 r) = be_bytes n v @ zs"
    using Suc.prems by simp
  then have "br_read_be_loop (Suc n) acc r =
      Inr (push_bit (8 * n) (push_bit 8 acc OR ucast ?b) OR take_bit (8 * n) v, br_skip (Suc n) r)"
    using Suc by (simp add: br_next_byte_left)
  moreover have "push_bit (8 * n) (push_bit 8 acc OR ucast ?b) OR take_bit (8 * n) v =
      push_bit (8 * Suc n) acc OR take_bit (8 * Suc n) v"
    by (rule bit_word_eqI) (auto simp: bit_simps algebra_simps)
  ultimately show ?case by simp
qed

lemma length_be_bytes [simp]: "length (be_bytes n v) = n"
  by (induction n) simp_all

lemma decodes_br_read_be:
  assumes "8 * (LENGTH('a) div 8) = LENGTH('a::len)" and "LENGTH('a) < 2 ^ 63"
  shows "decodes br_read_be (be_enc v) (v :: 'a word)"
proof -
  have "br_read_be = (\<lambda>r. if size_add (rpos r) (LENGTH('a) div 8) > length (rdata r)
      then Inl (ByteError ''read overflow'')
      else br_read_be_loop (LENGTH('a) div 8) (0 :: 'a word) r)"
    by (rule ext) (simp add: br_read_be_def)
  moreover have "decodes \<dots> (be_enc v) v"
    using assms by (intro decodes_checked) (auto simp: be_enc_def prefix_def br_read_be_loop_left)
  ultimately show ?thesis by simp
qed

lemma decodes_ints [decodes_intros]:
  "decodes br_u16 (be_enc a) a"
  "decodes br_u32 (be_enc b) b"
  "decodes br_u64 (be_enc c) c"
  "decodes br_i32 (be_enc b) b"
  "decodes br_i64 (be_enc c) c"
  "decodes br_f32 (be_enc b) b"
  "decodes br_f64 (be_enc c) c"
  by (simp_all add: br_u16_def br_u32_def br_u64_def br_i32_def br_i64_def br_f32_def br_f64_def
      decodes_br_read_be)

lemma decodes_br_i16: "decodes br_i16 (be_enc (v :: u16)) (scast v)"
  unfolding br_i16_def by (rule decodes_bind_return [where f = scast], rule decodes_br_read_be) simp_all

lemma decodes_br_i8: "decodes br_i8 [v] (scast v)"
  unfolding br_i8_def be_enc_8 [symmetric]
  by (rule decodes_bind_return [where f = scast], rule decodes_br_read_be) simp_all

lemma decodes_br_vec3 [decodes_intros]: "decodes br_vec3 (vec3_enc v) v"
proof -
  have "vec3_enc v = be_enc (vx v) @ be_enc (vy v) @ be_enc (vz v) @ []"
    by (simp add: vec3_enc_def)
  moreover have "decodes br_vec3 \<dots> \<lparr> vx = vx v, vy = vy v, vz = vz v \<rparr>"
    unfolding br_vec3_def by (rule decodes_bind decodes_intros)+
  ultimately show ?thesis by simp
qed

lemma decodes_br_quat [decodes_intros]: "decodes br_quat (quat_enc q) q"
proof -
  let ?v = "\<lparr> v4x = qx q, v4y = qy q, v4z = qz q, v4w = qw q \<rparr>"
  have "quat_enc q = be_enc (qx q) @ be_enc (qy q) @ be_enc (qz q) @ be_enc (qw q) @ []"
    by (simp add: quat_enc_def)
  moreover have "decodes br_vec4 \<dots> ?v"
    unfolding br_vec4_def by (rule decodes_bind decodes_intros)+
  ultimately have "decodes br_vec4 (quat_enc q) ?v" by simp
  from decodes_bind_return [OF this, of "\<lambda>v. \<lparr> qw = v4w v, qx = v4x v, qy = v4y v, qz = v4z v \<rparr>"]
  show ?thesis by (simp add: br_quat_def)
qed

section \<open>Varints, strings, blobs\<close>

lemma var_enc_small: "v < 0x80 \<Longrightarrow> var_enc v = [ucast v]"
  by (subst var_enc.simps) (simp add: word_le_nat_alt word_less_nat_alt)

lemma var_enc_large: "0x80 \<le> v \<Longrightarrow> var_enc v = (ucast v OR 0x80) # var_enc (drop_bit 7 v)"
  by (subst var_enc.simps) simp

lemma and_7F: "(b :: u8) AND 0x7F = take_bit 7 b"
  by (simp add: take_bit_eq_mask mask_eq_exp_minus_1)

lemma and_80: "(b :: u8) AND 0x80 = 0 \<longleftrightarrow> \<not> bit b 7"
  using and_exp_eq_0_iff_not_bit [of b 7] by simp

lemma bit_80: "bit (0x80 :: u8) n \<longleftrightarrow> n = 7"
  using bit_exp_iff [where ?'a = u8, of 7 n] by auto

lemma low_bits_less: "v < 0x80 \<longleftrightarrow> take_bit 7 v = (v :: u32)"
proof
  assume "v < 0x80"
  then show "take_bit 7 v = v"
    by (simp add: word_unat_eq_iff unsigned_take_bit_eq word_less_nat_alt take_bit_nat_eq_self)
next
  assume "take_bit 7 v = v"
  then have "unat v = take_bit 7 (unat v)" by (metis unsigned_take_bit_eq)
  then show "v < 0x80" 
    using take_bit_nat_less_exp [of 7 "unat v"] by (simp add: word_less_nat_alt)
qed

lemma low_bits_lessI: "(\<And>n. bit v n \<Longrightarrow> n < 7) \<Longrightarrow> v < (0x80 :: u32)"
  unfolding low_bits_less by (rule bit_word_eqI) (auto simp: bit_simps)

lemma low_bits_lessD: "v < (0x80 :: u32) \<Longrightarrow> bit v n \<Longrightarrow> n < 7"
  unfolding low_bits_less by (metis bit_take_bit_iff)

lemma var_last_byte:
  assumes "v < (0x80 :: u32)"
  shows "\<not> bit (ucast v :: u8) 7" and "ucast (take_bit 7 (ucast v :: u8)) = v"
  using assms
  by (auto simp: bit_simps intro!: bit_word_eqI dest: low_bits_lessD)

lemma decodes_var_loop:
  "7 dvd s \<Longrightarrow> s \<le> 28 \<Longrightarrow> (\<And>n. bit v n \<Longrightarrow> n + s < 32) \<Longrightarrow>
   decodes (br_var_u32_loop acc s) (var_enc v) (acc OR push_bit s v)"
proof (induction v arbitrary: acc s rule: var_enc.induct)
  case (1 v)
  let ?k = "\<lambda>(b :: u8) r. if s \<ge> 32 then Inl (UB Shift_Range)
      else let v' = acc OR push_bit s (ucast (b AND 0x7F)) in
        if b AND 0x80 = 0 then Inr (v', r)
        else if s + 7 > 35 then Inl (ByteError ''varint overflow'')
        else br_var_u32_loop v' (s + 7) r"
  have loop: "br_var_u32_loop acc s = bindS br_u8 ?k"
    by (rule ext) (subst br_var_u32_loop.simps, simp)
  show ?case
  proof (cases "v < 0x80")
    case True
    have k: "?k (ucast v) = returnS (acc OR push_bit s v)"
      using 1 var_last_byte [OF True] by (auto simp: and_7F and_80 returnS_def)
    have "decodes (bindS br_u8 ?k) ([ucast v] @ []) (acc OR push_bit s v)"
      by (rule decodes_bind [OF decodes_br_u8]) (simp only: k decodes_return)
    with True show ?thesis by (simp add: loop var_enc_small)
  next
    case False
    then obtain n where n: "bit v n" "7 \<le> n" using low_bits_lessI by (meson not_le)
    with 1 have "s + 7 < 32" by fastforce
    with 1 have s: "s + 7 \<le> 28" by (auto simp: dvd_def)
    let ?b = "ucast v OR 0x80 :: u8" and ?a = "acc OR push_bit s (take_bit 7 v)"
    have low: "ucast (take_bit 7 (ucast v :: u8)) = take_bit 7 v"
      by (rule bit_word_eqI) (auto simp: bit_simps)
    have k: "?k ?b = br_var_u32_loop ?a (s + 7)"
      using s by (auto simp: and_7F and_80 low bit_or_iff bit_80)
    have "decodes (br_var_u32_loop ?a (s + 7)) (var_enc (drop_bit 7 v))
        (?a OR push_bit (s + 7) (drop_bit 7 v))"
      using False s 1 by (intro 1(1)) (auto simp: bit_simps dvd_add, fastforce)
    also have "?a OR push_bit (s + 7) (drop_bit 7 v) = acc OR push_bit s v"
    proof (rule bit_word_eqI)
      fix n assume "n < LENGTH(32)"
      then show "bit (?a OR push_bit (s + 7) (drop_bit 7 v)) n \<longleftrightarrow> bit (acc OR push_bit s v) n"
        by (cases "n < s + 7") (auto simp: bit_simps)
    qed
    finally have "decodes (bindS br_u8 ?k) ([?b] @ var_enc (drop_bit 7 v)) (acc OR push_bit s v)"
      by (intro decodes_bind [OF decodes_br_u8]) (simp only: k)
    with False show ?thesis by (simp add: loop var_enc_large)
  qed
qed

lemma decodes_br_var_u32 [decodes_intros]: "decodes br_var_u32 (var_enc v) v"
proof -
  have "decodes (br_var_u32_loop 0 0) (var_enc v) (0 OR push_bit 0 v)"
    by (rule decodes_var_loop) (auto dest: bit_imp_le_length)
  then show ?thesis by (simp add: br_var_u32_def)
qed


lemma bit_zigzag: "bit (zigzag v) n \<longleftrightarrow> n < 32 \<and> ((0 < n \<and> bit v (n - 1)) \<noteq> bit v 31)"
proof (cases "n < 32")
  case True
  then show ?thesis
    unfolding zigzag_def bit_xor_iff bit_push_bit_iff bit_signed_drop_bit_iff
    by (cases n) (auto simp: bit_imp_le_length)
next
  case False
  then show ?thesis by (auto dest: bit_imp_le_length)
qed

lemma unzigzag_zigzag: "drop_bit 1 (zigzag v) XOR (- (zigzag v AND 1)) = v"
proof -
  have "zigzag v AND 1 = (if bit v 31 then 1 else 0)"
    by (rule bit_word_eqI) (auto simp: bit_zigzag bit_simps)
  moreover have "bit (drop_bit 1 (zigzag v) XOR (- (if bit v 31 then 1 else 0))) n \<longleftrightarrow> bit v n"
    if "n < 32" for n
    using that by (cases "n = 31") (auto simp: bit_zigzag bit_simps)
  ultimately show ?thesis
    by (intro bit_word_eqI) simp
qed

lemma decodes_br_var_i32 [decodes_intros]: "decodes br_var_i32 (var_enc (zigzag v)) v"
proof -
  let ?f = "\<lambda>v :: u32. drop_bit 1 v XOR (- (v AND 1))"
  have "decodes br_var_i32 (var_enc (zigzag v)) (?f (zigzag v))"
    unfolding br_var_i32_def by (rule decodes_bind_return [where f = ?f]) (rule decodes_br_var_u32)
  then show ?thesis by (simp only: unzigzag_zigzag)
qed

lemma br_take_ok:
  assumes "reader_ok r" and "prefix bs (br_left r)" and "length bs = k"
  shows "bindS (br_slice k) (\<lambda>bs. bindS (br_advance k) (\<lambda>_. returnS bs)) r = Inr (bs, br_skip k r)"
proof -
  obtain zs where zs: "br_left r = bs @ zs" using assms by (auto simp: prefix_def)
  with assms length_br_left [of r] have "rpos r + k \<le> length (rdata r)" by simp
  moreover from this assms have "br_advance k r = Inr ((), br_skip k r)"
    by (simp add: br_advance_def br_skip_def size_add_def reader_ok_def)
  ultimately show ?thesis
    using zs assms by (simp add: br_slice_def br_left_def)
qed

lemma decodes_br_counted:
  assumes "length bs = unat len"
  shows "decodes (br_counted msg len) bs bs"
proof (rule decodesI)
  fix r assume r: "reader_ok r" "prefix bs (br_left r)"
  then have "\<not> br_remaining r < unat len"
    using assms prefix_length_le by (fastforce simp: br_remaining_ok)
  then show "br_counted msg len r = Inr (bs, br_skip (length bs) r)"
    using br_take_ok [OF r] assms by (simp add: br_counted_def)
next
  fix r assume r: "reader_ok r" "strict_prefix (br_left r) bs"
  then have "br_remaining r < unat len"
    using assms prefix_length_less by (fastforce simp: br_remaining_ok)
  then show "\<exists>m. br_counted msg len r = Inl (ByteError m)" by (simp add: br_counted_def)
qed

lemma unat_of_length: "length s < 2 ^ 32 \<Longrightarrow> unat (of_nat (length s) :: u32) = length s"
  by (simp add: unat_of_nat take_bit_nat_eq_self)

lemma decodes_br_str [decodes_intros]: "length s < 2 ^ 32 \<Longrightarrow> decodes br_str (str_enc s) s"
  unfolding br_str_def str_enc_def
  by (rule decodes_bind decodes_br_var_u32 decodes_br_counted)+ (simp add: unat_of_length)

lemma decodes_br_blob [decodes_intros]: "length s < 2 ^ 32 \<Longrightarrow> decodes br_blob (str_enc s) s"
  unfolding br_blob_def str_enc_def
  by (rule decodes_bind decodes_br_var_u32 decodes_br_counted)+ (simp add: unat_of_length)

lemma decodes_br_read:
  assumes n: "length bs = n" "n < 2 ^ 63"
  shows "decodes (br_read n) bs bs"
proof -
  have "br_read n = (\<lambda>r. if size_add (rpos r) n > length (rdata r)
      then Inl (ByteError ''read overflow'')
      else bindS (br_slice n) (\<lambda>bs. bindS (br_advance n) (\<lambda>_. returnS bs)) r)"
    by (rule ext) (simp add: br_read_def)
  moreover have "decodes \<dots> bs bs"
    using n by (rule decodes_checked) (rule br_take_ok [OF _ _ n(1)])
  ultimately show ?thesis by simp
qed

lemma decodes_br_uuid [decodes_intros]:
  assumes "length u = 16"
  shows "decodes br_uuid u u"
proof (rule decodesI)
  fix r assume r: "reader_ok r" "prefix u (br_left r)"
  then have "\<not> br_remaining r < 16"
    using assms prefix_length_le by (fastforce simp: br_remaining_ok)
  then show "br_uuid r = Inr (u, br_skip (length u) r)"
    using decodesD [OF decodes_br_read [of u 16]] assms r by (simp add: br_uuid_def)
next
  fix r assume r: "reader_ok r" "strict_prefix (br_left r) u"
  then have "br_remaining r < 16"
    using assms prefix_length_less by (fastforce simp: br_remaining_ok)
  then show "\<exists>msg. br_uuid r = Inl (ByteError msg)"
    by (simp add: br_uuid_def)
qed

lemma decodes_br_read_scalar:
  assumes "8 * (LENGTH('a) div 8) = LENGTH('a::len)" and "LENGTH('a) < 2 ^ 63"
  shows "decodes br_read_scalar (be_enc v) (v :: 'a word)"
proof (cases "LENGTH('a) = 8")
  case True
  have "br_read_scalar = bindS br_u8 (\<lambda>b. returnS (ucast b :: 'a word))"
    using True by (auto simp: br_read_scalar_def br_u8_def)
  moreover have "decodes \<dots> ([ucast v] @ []) (ucast (ucast v :: u8) :: 'a word)"
    by (rule decodes_bind decodes_br_u8 decodes_return)+
  moreover have "ucast (ucast v :: u8) = v" using True by (intro bit_word_eqI) (auto simp: bit_simps)
  moreover have "be_enc v = [ucast v]" using True by (simp add: be_enc_def)
  ultimately show ?thesis by simp
next
  case False
  then have "br_read_scalar = (br_read_be :: (reader, 'a word) stm)"
    by (intro ext) (simp add: br_read_scalar_def)
  then show ?thesis using assms by (simp add: decodes_br_read_be)
qed

lemma decodes_repeatS:
  assumes "\<And>x. x \<in> set xs \<Longrightarrow> decodes m (enc x) x"
  shows "decodes (repeatS (length xs) m) (concat (map enc xs)) xs"
  using assms
proof (induction xs)
  case Nil
  show ?case by (simp only: repeatS.simps list.simps concat.simps list.size decodes_return)
next
  case (Cons x xs)
  have "decodes (repeatS (length (x # xs)) m) (enc x @ concat (map enc xs) @ []) (x # xs)"
    unfolding list.size add_0_right add_Suc_right repeatS.simps
    using Cons by (intro decodes_bind [OF _ decodes_bind [OF _ decodes_return]]) simp_all
  then show ?case by simp
qed

section \<open>The contract of a serializable type\<close>

text \<open>
  What every type with a \<open>Serialize\<close>/\<open>Deserialize\<close> pair promises: serialization appends an encoding
  that depends on the value only, and deserialization decodes it. \<open>ok\<close> holds for the values the
  format can carry (a string shorter than \<open>2\<^sup>3\<^sup>2\<close> bytes, a known enumerator).
\<close>

locale codec =
  fixes ser :: "'a \<Rightarrow> writer \<Rightarrow> writer"
    and des :: "(reader, 'a) stm"
    and enc :: "'a \<Rightarrow> bytes"
    and ok :: "'a \<Rightarrow> bool"
  assumes ser_enc: "ok x \<Longrightarrow> ser x w = bw_write (enc x) w"
    and des_enc: "ok x \<Longrightarrow> decodes des (enc x) x"
begin

text \<open>A value written anywhere is read back from its place, whatever surrounds it.\<close>

lemma roundtrip:
  assumes "ok x" and "reader_ok r" and "br_left r = wbuf (ser x bw_new) @ rest"
  shows "des r = Inr (x, br_skip (length (wbuf (ser x bw_new))) r)"
  using decodesD [OF des_enc, of x r] assms by (simp add: ser_enc bw_new_def bw_write_def prefix_def)

lemma roundtrip_new:
  assumes "ok x" and "length (wbuf (ser x bw_new)) < 2 ^ 63"
  shows "des (br_new (bw_bytes (ser x bw_new))) =
    Inr (x, br_skip (bw_size (ser x bw_new)) (br_new (bw_bytes (ser x bw_new))))"
  using assms
  by (subst roundtrip [where x = x and rest = "[]"])
     (auto simp: bw_bytes_def bw_size_def br_new_def br_left_def reader_ok_def)

lemma roundtrip_in:
  assumes "ok x" and "length (wbuf (ser x w) @ rest) < 2 ^ 63"
  shows "des (br_skip (bw_size w) (br_new (bw_bytes (ser x w) @ rest))) =
    Inr (x, br_skip (bw_size (ser x w)) (br_new (bw_bytes (ser x w) @ rest)))"
  using assms
  by (subst roundtrip [where x = x and rest = rest])
     (auto simp: bw_bytes_def bw_size_def br_new_def br_left_def reader_ok_def ser_enc bw_new_def
        bw_write_def)

text \<open>A message cut short is rejected, never read past its end.\<close>

lemma truncated_rejected:
  assumes "ok x" and "strict_prefix bs (wbuf (ser x bw_new))" and "length bs < 2 ^ 63"
  obtains msg where "des (br_new bs) = Inl (ByteError msg)"
  using decodes_short [OF des_enc [OF assms(1)], of "br_new bs"] assms
  by (auto simp: ser_enc bw_new_def bw_write_def br_new_def br_left_def reader_ok_def)

text \<open>Different values have different encodings, none a prefix of another.\<close>

lemma prefix_free:
  assumes "ok x" and "ok y" and "prefix (enc x) (enc y)" and "length (enc y) < 2 ^ 63"
  shows "x = y"
proof -
  have r: "reader_ok (br_new (enc y))" "br_left (br_new (enc y)) = enc y"
    using assms by (simp_all add: reader_ok_def br_new_def br_left_def)
  have "des (br_new (enc y)) = Inr (y, br_skip (length (enc y)) (br_new (enc y)))"
    using decodesD [OF des_enc [OF \<open>ok y\<close>] r(1)] r by simp
  moreover have "des (br_new (enc y)) = Inr (x, br_skip (length (enc x)) (br_new (enc y)))"
    using decodesD [OF des_enc [OF \<open>ok x\<close>] r(1)] r assms by simp
  ultimately show ?thesis by simp
qed

text \<open>A counted sequence of values: what a loop over \<open>ser\<close> writes, a loop over \<open>des\<close> reads.\<close>

lemma fold_ser: "\<forall>x \<in> set xs. ok x \<Longrightarrow> fold ser xs w = bw_write (concat (map enc xs)) w"
  by (induction xs arbitrary: w) (simp_all add: ser_enc enc_simps)

lemma decodes_list:
  "\<forall>x \<in> set xs. ok x \<Longrightarrow> decodes (repeatS (length xs) des) (concat (map enc xs)) xs"
  by (rule decodes_repeatS) (simp add: des_enc)

end

interpretation u16c: codec bw_u16 br_u16 be_enc "\<lambda>_. True"
  by unfold_locales (simp_all add: enc_simps decodes_intros)

interpretation u32c: codec bw_u32 br_u32 be_enc "\<lambda>_. True"
  by unfold_locales (simp_all add: enc_simps decodes_intros)

interpretation u64c: codec bw_u64 br_u64 be_enc "\<lambda>_. True"
  by unfold_locales (simp_all add: enc_simps decodes_intros)

interpretation vec3c: codec bw_vec3 br_vec3 vec3_enc "\<lambda>_. True"
  by unfold_locales (simp_all add: enc_simps decodes_intros)

interpretation quatc: codec bw_quat br_quat quat_enc "\<lambda>_. True"
  by unfold_locales (simp_all add: enc_simps decodes_intros)

interpretation varc: codec bw_var_u32 br_var_u32 var_enc "\<lambda>_. True"
  by unfold_locales (simp_all add: enc_simps decodes_intros)

interpretation zigzagc: codec bw_var_i32 br_var_i32 "\<lambda>v. var_enc (zigzag v)" "\<lambda>_. True"
  by unfold_locales (simp_all add: enc_simps decodes_intros)

interpretation strc: codec bw_str br_str str_enc "\<lambda>s. length s < 2 ^ 32"
  by unfold_locales (simp_all only: enc_simps decodes_intros)

interpretation blobc: codec bw_blob br_blob str_enc "\<lambda>s. length s < 2 ^ 32"
  by unfold_locales (simp_all only: enc_simps decodes_intros)

interpretation uuidc: codec bw_uuid br_uuid "\<lambda>u. u" "\<lambda>u. length u = 16"
  by unfold_locales (simp_all add: enc_simps decodes_intros)

text \<open>The extent of a varint: at most five bytes, one per started group of seven bits.\<close>

lemma length_var_enc_aux: "(\<And>n. bit v n \<Longrightarrow> n < 7 * k) \<Longrightarrow> length (var_enc v) \<le> max 1 k"
proof (induction k arbitrary: v)
  case 0
  then have "v < 0x80" using low_bits_lessI by fastforce
  then show ?case by (simp add: var_enc_small)
next
  case (Suc k)
  show ?case
  proof (cases "v < 0x80")
    case True
    then show ?thesis by (simp add: var_enc_small)
  next
    case False
    have "length (var_enc (drop_bit 7 v)) \<le> max 1 k"
      using Suc.prems by (intro Suc.IH) (fastforce simp: bit_simps)
    moreover have "k \<noteq> 0"
      using False Suc.prems low_bits_lessI [of v] by fastforce
    ultimately show ?thesis using False by (simp add: var_enc_large)
  qed
qed

lemma length_var_enc: "length (var_enc v) \<le> 5"
proof -
  have "length (var_enc v) \<le> max 1 5"
    by (rule length_var_enc_aux) (fastforce dest: bit_imp_le_length)
  then show ?thesis by simp
qed

lemma length_str_enc: "length (str_enc s) \<le> length s + 5"
  using length_var_enc by (simp add: str_enc_def)

lemma be_enc_u32:
  "be_enc (v :: u32) = [ucast (drop_bit 24 v), ucast (drop_bit 16 v), ucast (drop_bit 8 v), ucast v]"
proof -
  have "be_enc v = be_bytes 4 v" by (simp add: be_enc_def)
  also have "(4 :: nat) = Suc (Suc (Suc (Suc 0)))" by simp
  finally show ?thesis by (simp only: be_bytes.simps) simp
qed

section \<open>Properties\<close>

text \<open>A varint, unsigned or zigzag-coded signed, written by any writer is read back from its
  place whatever follows it, the reader stops right after it, and it takes at most five bytes.\<close>

theorem varint_roundtrip:
  assumes "bw_size w + length rest < 2 ^ 62"
  shows "br_var_u32 (br_skip (bw_size w) (br_new (bw_bytes (bw_var_u32 v w) @ rest))) =
      Inr (v, br_skip (bw_size (bw_var_u32 v w)) (br_new (bw_bytes (bw_var_u32 v w) @ rest))) \<and>
    br_var_i32 (br_skip (bw_size w) (br_new (bw_bytes (bw_var_i32 v w) @ rest))) =
      Inr (v, br_skip (bw_size (bw_var_i32 v w)) (br_new (bw_bytes (bw_var_i32 v w) @ rest))) \<and>
    bw_size (bw_var_u32 v w) \<le> bw_size w + 5 \<and> bw_size (bw_var_i32 v w) \<le> bw_size w + 5"
  using assms length_var_enc [of v] length_var_enc [of "zigzag v"]
  by (intro conjI varc.roundtrip_in zigzagc.roundtrip_in) (simp_all add: bw_size_def enc_simps)

theorem varint_roundtrip_witness:
  "br_var_u32 (br_new (bw_bytes (bw_var_u32 300 bw_new) @ [7])) =
    Inr (300, br_skip (bw_size (bw_var_u32 300 bw_new)) (br_new (bw_bytes (bw_var_u32 300 bw_new) @ [7])))"
  using varint_roundtrip [of bw_new "[7]" 300] by (simp add: bw_size_def bw_new_def)

text \<open>A string, a blob and a UUID written by any writer are read back unchanged, whatever
  surrounds them, provided the length fits the 32-bit length prefix.\<close>

theorem string_roundtrip:
  assumes "length s < 2 ^ 32" and "length u = 16" and "bw_size w + length rest < 2 ^ 62"
  shows "br_str (br_skip (bw_size w) (br_new (bw_bytes (bw_str s w) @ rest))) =
      Inr (s, br_skip (bw_size (bw_str s w)) (br_new (bw_bytes (bw_str s w) @ rest))) \<and>
    br_blob (br_skip (bw_size w) (br_new (bw_bytes (bw_blob s w) @ rest))) =
      Inr (s, br_skip (bw_size (bw_blob s w)) (br_new (bw_bytes (bw_blob s w) @ rest))) \<and>
    br_uuid (br_skip (bw_size w) (br_new (bw_bytes (bw_uuid u w) @ rest))) =
      Inr (u, br_skip (bw_size (bw_uuid u w)) (br_new (bw_bytes (bw_uuid u w) @ rest)))"
  using assms length_str_enc [of s]
  by (intro conjI strc.roundtrip_in blobc.roundtrip_in uuidc.roundtrip_in)
     (simp_all add: bw_size_def enc_simps)

theorem string_roundtrip_witness:
  "br_str (br_new (bw_bytes (bw_str [104, 105] bw_new))) =
    Inr ([104, 105], br_skip (bw_size (bw_str [104, 105] bw_new))
      (br_new (bw_bytes (bw_str [104, 105] bw_new))))"
  using string_roundtrip [of "[104, 105]" "replicate 16 0" bw_new "[]"]
  by (simp add: bw_size_def bw_new_def)

end
