(* ===== verification/Aabb.thy ===== *)
theory Aabb
  imports Float32 Byte_Codec
begin

text \<open>
  The axis-aligned box \<open>AABB<Dim, float>\<close> (\<open>Global/Types/AABB.hpp\<close>) in any dimension: a vector is
  the list of its components, and the loops over \<open>i < Dim\<close> run along the lists.
\<close>

section \<open>Definitions\<close>

record aabb =
  bmin :: "f32 list"
  bmax :: "f32 list"

definition aabb_wf :: "nat \<Rightarrow> aabb \<Rightarrow> bool" where
  "aabb_wf d b \<longleftrightarrow> length (bmin b) = d \<and> length (bmax b) = d"

definition aabb_new :: "nat \<Rightarrow> aabb" where
  "aabb_new d = \<lparr> bmin = replicate d 0, bmax = replicate d 0 \<rparr>"

definition aabb_of_corners :: "f32 list \<Rightarrow> f32 list \<Rightarrow> aabb" where
  "aabb_of_corners mn mx = \<lparr> bmin = mn, bmax = mx \<rparr>"

text \<open>\<open>ToString\<close>; \<open>glm::to_string\<close> is the parameter. The labels are exchanged in the source.\<close>

definition aabb_to_string :: "(f32 list \<Rightarrow> string) \<Rightarrow> aabb \<Rightarrow> string" where
  "aabb_to_string glm_str b = ''Min: '' @ glm_str (bmax b) @ '', Max: '' @ glm_str (bmin b)"

definition aabb_from_center_extents :: "f32 list \<Rightarrow> f32 list \<Rightarrow> aabb" where
  "aabb_from_center_extents center half =
    aabb_of_corners (map2 f_sub center half) (map2 f_add center half)"

definition aabb_set_center_extents :: "f32 list \<Rightarrow> f32 list \<Rightarrow> aabb \<Rightarrow> aabb" where
  "aabb_set_center_extents center half b = aabb_from_center_extents center half"

definition aabb_ser :: "aabb \<Rightarrow> writer \<Rightarrow> writer" where
  "aabb_ser b w = bw_write_vector (bmax b) (bw_write_vector (bmin b) w)"

definition aabb_des :: "nat \<Rightarrow> (reader, aabb) stm" where
  "aabb_des d =
    bindS (br_read_vector d) (\<lambda>mn. bindS (br_read_vector d) (\<lambda>mx.
      returnS \<lparr> bmin = mn, bmax = mx \<rparr>))"

definition aabb_center :: "aabb \<Rightarrow> f32 list" where
  "aabb_center b = map (\<lambda>x. f_mul x 0x3F000000) (map2 f_add (bmin b) (bmax b))"

definition aabb_size :: "aabb \<Rightarrow> f32 list" where
  "aabb_size b = map2 f_sub (bmax b) (bmin b)"

definition aabb_half_extents :: "aabb \<Rightarrow> f32 list" where
  "aabb_half_extents b = map (\<lambda>x. f_mul x 0x3F000000) (map2 f_sub (bmax b) (bmin b))"

definition aabb_volume :: "aabb \<Rightarrow> f32" where
  "aabb_volume b = foldl f_mul (f_of_int 1) (aabb_size b)"

definition aabb_valid :: "aabb \<Rightarrow> bool" where
  "aabb_valid b = list_all (\<lambda>(lo, hi). \<not> f_gt lo hi) (zip (bmin b) (bmax b))"

definition aabb_expand :: "f32 list \<Rightarrow> aabb \<Rightarrow> aabb" where
  "aabb_expand p b = \<lparr> bmin = map2 glm_min (bmin b) p, bmax = map2 glm_max (bmax b) p \<rparr>"

definition aabb_expand_box :: "aabb \<Rightarrow> aabb \<Rightarrow> aabb" where
  "aabb_expand_box other b =
    \<lparr> bmin = map2 glm_min (bmin b) (bmin other), bmax = map2 glm_max (bmax b) (bmax other) \<rparr>"

definition aabb_pad :: "f32 \<Rightarrow> aabb \<Rightarrow> aabb" where
  "aabb_pad amount b =
    \<lparr> bmin = map (\<lambda>x. f_sub x amount) (bmin b), bmax = map (\<lambda>x. f_add x amount) (bmax b) \<rparr>"

definition aabb_contains :: "aabb \<Rightarrow> f32 list \<Rightarrow> bool" where
  "aabb_contains b p =
    list_all (\<lambda>(x, lo, hi). \<not> (f_lt x lo \<or> f_gt x hi)) (zip p (zip (bmin b) (bmax b)))"

definition aabb_contains_box :: "aabb \<Rightarrow> aabb \<Rightarrow> bool" where
  "aabb_contains_box b other \<longleftrightarrow> aabb_contains b (bmin other) \<and> aabb_contains b (bmax other)"

definition aabb_intersects :: "aabb \<Rightarrow> aabb \<Rightarrow> bool" where
  "aabb_intersects b other =
    list_all (\<lambda>((lo, hi), olo, ohi). \<not> (f_gt olo hi \<or> f_lt ohi lo))
      (zip (zip (bmin b) (bmax b)) (zip (bmin other) (bmax other)))"

definition aabb_intersection :: "aabb \<Rightarrow> aabb \<Rightarrow> aabb" where
  "aabb_intersection b other =
    (let result = aabb_of_corners (map2 glm_max (bmin b) (bmin other))
                                  (map2 glm_min (bmax b) (bmax other))
     in if \<not> aabb_valid result then aabb_new (length (bmin b)) else result)"

text \<open>
  \<open>intersectsRay\<close>, the slab method: the answer with the final values of the two reference
  parameters.
\<close>

fun ray_loop :: "(f32 \<times> f32 \<times> f32 \<times> f32) list \<Rightarrow> f32 \<Rightarrow> f32 \<Rightarrow> bool \<times> f32 \<times> f32" where
  "ray_loop [] tMin tMax = (True, tMin, tMax)"
| "ray_loop ((lo, hi, orig, dir) # xs) tMin tMax =
    (if f_lt (f_abs dir) 0x322BCC77
     then if f_lt orig lo \<or> f_gt orig hi then (False, tMin, tMax) else ray_loop xs tMin tMax
     else
       let invD = f_div (f_of_int 1) dir;
           a = f_mul (f_sub lo orig) invD;
           b = f_mul (f_sub hi orig) invD;
           (t0, t1) = (if f_gt a b then (b, a) else (a, b));
           tMin = (if f_gt t0 tMin then t0 else tMin);
           tMax = (if f_lt t1 tMax then t1 else tMax)
       in if f_gt tMin tMax then (False, tMin, tMax) else ray_loop xs tMin tMax)"

definition aabb_intersects_ray :: "aabb \<Rightarrow> f32 list \<Rightarrow> f32 list \<Rightarrow> bool \<times> f32 \<times> f32" where
  "aabb_intersects_ray b rayOrigin rayDir =
    ray_loop (zip (bmin b) (zip (bmax b) (zip rayOrigin rayDir))) 0 f_max"

section \<open>The order of floats\<close>

lemmas f_eval = f_lt_def f_gt_def f_key_def f_is_nan_def f_mag_def f_sign_def f_units_def
  mag_units_def f_is_inf_def f_add_def f_sub_def f_neg_def f_mul_def f_div_def f_make_def
  round_mag_def bit_len.simps f_of_int_def f_nan_def f_inf_def

definition f_ok :: "f32 \<Rightarrow> bool" where
  "f_ok x \<longleftrightarrow> \<not> f_is_nan x"

lemma f_lt_irrefl [simp]: "\<not> f_lt x x"
  by (simp add: f_lt_def)

lemma f_lt_trans: "f_lt x y \<Longrightarrow> f_lt y z \<Longrightarrow> f_lt x z"
  by (simp add: f_lt_def)

lemma f_lt_asym: "f_lt x y \<Longrightarrow> \<not> f_lt y x"
  by (simp add: f_lt_def)

lemma f_not_lt_trans: "f_ok y \<Longrightarrow> \<not> f_lt x y \<Longrightarrow> \<not> f_lt y z \<Longrightarrow> \<not> f_lt x z"
  by (auto simp: f_lt_def f_ok_def)

lemma nan_not_lt [simp]: "\<not> f_ok x \<Longrightarrow> \<not> f_lt x y" "\<not> f_ok x \<Longrightarrow> \<not> f_lt y x"
  by (simp_all add: f_lt_def f_ok_def)

text \<open>The bounds of a minimum and a maximum.\<close>

lemma below_min: "f_ok x \<Longrightarrow> f_ok y \<Longrightarrow> \<not> f_lt (glm_min x y) z \<longleftrightarrow> \<not> f_lt x z \<and> \<not> f_lt y z"
  by (auto simp: glm_min_def f_lt_def f_ok_def)

lemma above_max: "f_ok x \<Longrightarrow> f_ok y \<Longrightarrow> \<not> f_lt z (glm_max x y) \<longleftrightarrow> \<not> f_lt z x \<and> \<not> f_lt z y"
  by (auto simp: glm_max_def f_lt_def f_ok_def)

section \<open>Boxes componentwise\<close>

definition nan_free :: "f32 list \<Rightarrow> bool" where
  "nan_free v = list_all f_ok v"

definition aabb_ok :: "nat \<Rightarrow> aabb \<Rightarrow> bool" where
  "aabb_ok d b \<longleftrightarrow> aabb_wf d b \<and> nan_free (bmin b) \<and> nan_free (bmax b)"

lemma aabb_collapse [simp]: "\<lparr> bmin = bmin b, bmax = bmax b \<rparr> = b"
  by (cases b) simp

lemma aabb_contains_iff:
  assumes "aabb_wf d b" and "length p = d"
  shows "aabb_contains b p \<longleftrightarrow> (\<forall>i < d. \<not> f_lt (p ! i) (bmin b ! i) \<and> \<not> f_lt (bmax b ! i) (p ! i))"
  using assms by (auto simp: aabb_contains_def aabb_wf_def list_all_length f_gt_def)

lemma aabb_valid_iff:
  assumes "aabb_wf d b"
  shows "aabb_valid b \<longleftrightarrow> (\<forall>i < d. \<not> f_lt (bmax b ! i) (bmin b ! i))"
  using assms by (auto simp: aabb_valid_def aabb_wf_def list_all_length f_gt_def)

lemma aabb_intersects_iff:
  assumes "aabb_wf d a" and "aabb_wf d b"
  shows "aabb_intersects a b \<longleftrightarrow>
    (\<forall>i < d. \<not> f_lt (bmax a ! i) (bmin b ! i) \<and> \<not> f_lt (bmax b ! i) (bmin a ! i))"
  using assms by (auto simp: aabb_intersects_def aabb_wf_def list_all_length f_gt_def)

definition aabb_meet :: "aabb \<Rightarrow> aabb \<Rightarrow> aabb" where
  "aabb_meet a b = aabb_of_corners (map2 glm_max (bmin a) (bmin b)) (map2 glm_min (bmax a) (bmax b))"

lemma aabb_wf_meet: "aabb_wf d a \<Longrightarrow> aabb_wf d b \<Longrightarrow> aabb_wf d (aabb_meet a b)"
  by (simp add: aabb_wf_def aabb_meet_def aabb_of_corners_def)

lemma nth_meet:
  assumes "aabb_wf d a" "aabb_wf d b" "i < d"
  shows "bmin (aabb_meet a b) ! i = glm_max (bmin a ! i) (bmin b ! i)"
    and "bmax (aabb_meet a b) ! i = glm_min (bmax a ! i) (bmax b ! i)"
  using assms by (simp_all add: aabb_wf_def aabb_meet_def aabb_of_corners_def)

lemma aabb_okD:
  assumes "aabb_ok d b" and "i < d"
  shows "f_ok (bmin b ! i)" and "f_ok (bmax b ! i)"
  using assms by (simp_all add: aabb_ok_def aabb_wf_def nan_free_def list_all_length)

lemma contains_meet:
  assumes "aabb_ok d a" "aabb_ok d b" "length p = d"
  shows "aabb_contains (aabb_meet a b) p \<longleftrightarrow> aabb_contains a p \<and> aabb_contains b p"
proof -
  have wf: "aabb_wf d a" "aabb_wf d b" using assms by (simp_all add: aabb_ok_def)
  show ?thesis
    using assms
    by (auto simp: aabb_contains_iff [OF aabb_wf_meet [OF wf]] aabb_contains_iff [OF wf(1)]
        aabb_contains_iff [OF wf(2)] nth_meet [OF wf] above_max below_min aabb_okD)
qed

lemma valid_meet:
  assumes "aabb_ok d a" "aabb_ok d b" "aabb_valid a" "aabb_valid b"
  shows "aabb_valid (aabb_meet a b) \<longleftrightarrow> aabb_intersects a b"
proof -
  have wf: "aabb_wf d a" "aabb_wf d b" using assms by (simp_all add: aabb_ok_def)
  have ok: "f_ok (glm_max (bmin a ! i) (bmin b ! i))" if "i < d" for i
    using assms that by (auto simp: glm_max_def aabb_okD)
  show ?thesis
    using assms
    by (auto simp: aabb_valid_iff [OF aabb_wf_meet [OF wf]] aabb_valid_iff [OF wf(1)]
        aabb_valid_iff [OF wf(2)] aabb_intersects_iff [OF wf] nth_meet [OF wf] above_max below_min
        aabb_okD ok)
qed

lemma valid_meet_point:
  assumes "aabb_ok d a" "aabb_ok d b" "length p = d" "nan_free p"
    "aabb_contains a p" "aabb_contains b p"
  shows "aabb_intersects a b"
proof -
  have wf: "aabb_wf d a" "aabb_wf d b" using assms by (simp_all add: aabb_ok_def)
  have ok: "f_ok (p ! i)" if "i < d" for i using assms that by (simp add: nan_free_def list_all_length)
  have a: "\<forall>i < d. \<not> f_lt (p ! i) (bmin a ! i) \<and> \<not> f_lt (bmax a ! i) (p ! i)"
    and b: "\<forall>i < d. \<not> f_lt (p ! i) (bmin b ! i) \<and> \<not> f_lt (bmax b ! i) (p ! i)"
    using assms by (simp_all add: aabb_contains_iff [OF wf(1)] aabb_contains_iff [OF wf(2)])
  show ?thesis unfolding aabb_intersects_iff [OF wf]
  proof (intro allI impI conjI)
    fix i assume i: "i < d"
    show "\<not> f_lt (bmax a ! i) (bmin b ! i)" "\<not> f_lt (bmax b ! i) (bmin a ! i)"
      by (rule f_not_lt_trans [OF ok [OF i]]; simp add: a b i)+
  qed
qed

text \<open>Expanding by a point.\<close>

lemma aabb_wf_expand: "aabb_wf d b \<Longrightarrow> length p = d \<Longrightarrow> aabb_wf d (aabb_expand p b)"
  by (simp add: aabb_wf_def aabb_expand_def)

lemma nth_expand:
  assumes "aabb_wf d b" "length p = d" "i < d"
  shows "bmin (aabb_expand p b) ! i = glm_min (bmin b ! i) (p ! i)"
    and "bmax (aabb_expand p b) ! i = glm_max (bmax b ! i) (p ! i)"
  using assms by (simp_all add: aabb_wf_def aabb_expand_def)

lemma glm_min_le: "\<not> f_lt x (glm_min y x)" "\<not> f_lt x y \<Longrightarrow> \<not> f_lt x (glm_min y z)"
  using f_lt_trans by (auto simp: glm_min_def)

lemma glm_max_ge: "\<not> f_lt (glm_max y x) x" "\<not> f_lt y x \<Longrightarrow> \<not> f_lt (glm_max y z) x"
  using f_lt_trans by (auto simp: glm_max_def)

section \<open>Properties\<close>

text \<open>For valid boxes without NaN, the intersection of two boxes that meet contains exactly the
  points both contain; two boxes that do not meet share no point, and their intersection is the
  default box, the single point at the origin.\<close>

theorem aabb_intersection_exact:
  assumes "aabb_ok d a" and "aabb_ok d b" and "aabb_valid a" and "aabb_valid b"
    and "length p = d" and "nan_free p"
  shows "if aabb_intersects a b
    then aabb_contains (aabb_intersection a b) p \<longleftrightarrow> aabb_contains a p \<and> aabb_contains b p
    else \<not> (aabb_contains a p \<and> aabb_contains b p) \<and> aabb_intersection a b = aabb_new d"
proof -
  have "length (bmin a) = d" using assms by (simp add: aabb_ok_def aabb_wf_def)
  moreover have "aabb_intersection a b =
      (if aabb_intersects a b then aabb_meet a b else aabb_new (length (bmin a)))"
    using valid_meet [OF assms(1-4)]
    by (simp add: aabb_intersection_def aabb_meet_def [symmetric] Let_def)
  ultimately show ?thesis
    using assms contains_meet valid_meet_point by auto
qed

text \<open>Expanding a box by a point makes it contain the point and keeps every point it contained;
  this needs no assumption on NaN components.\<close>

theorem aabb_expand_contains:
  assumes "aabb_wf d b" and "length p = d" and "length q = d"
  shows "aabb_contains (aabb_expand p b) p \<and>
    (aabb_contains b q \<longrightarrow> aabb_contains (aabb_expand p b) q)"
  using assms
  by (simp add: aabb_contains_iff [OF aabb_wf_expand [OF assms(1,2)]] aabb_contains_iff
      nth_expand glm_min_le glm_max_ge)


theorem aabb_intersection_exact_witness:
  "\<not> aabb_intersects \<lparr> bmin = [0], bmax = [0x3F800000] \<rparr> \<lparr> bmin = [0x40000000], bmax = [0x40400000] \<rparr>
   \<and> aabb_intersection \<lparr> bmin = [0], bmax = [0x3F800000] \<rparr>
        \<lparr> bmin = [0x40000000], bmax = [0x40400000] \<rparr> = aabb_new 1
   \<and> aabb_contains (aabb_new 1) [0]"
proof -
  let ?a = "\<lparr> bmin = [0], bmax = [0x3F800000] \<rparr>" and ?b = "\<lparr> bmin = [0x40000000], bmax = [0x40400000] \<rparr>"
  have "aabb_ok 1 ?a" "aabb_ok 1 ?b" "aabb_valid ?a" "aabb_valid ?b" "nan_free [0]"
    "\<not> aabb_intersects ?a ?b" "aabb_contains (aabb_new 1) [0]"
    by (simp_all add: aabb_ok_def aabb_wf_def nan_free_def f_ok_def aabb_valid_def
        aabb_intersects_def aabb_contains_def aabb_new_def f_eval)
  with aabb_intersection_exact [of 1 ?a ?b "[0]"] show ?thesis by simp
qed

theorem aabb_expand_contains_witness:
  "aabb_contains (aabb_expand [0x40000000] \<lparr> bmin = [0], bmax = [0x3F800000] \<rparr>) [0x40000000]"
  using aabb_expand_contains [of 1 "\<lparr> bmin = [0], bmax = [0x3F800000] \<rparr>" "[0x40000000]" "[0]"]
  by (simp add: aabb_wf_def)

section \<open>Serialization\<close>

definition aabb_enc :: "aabb \<Rightarrow> bytes" where
  "aabb_enc b = concat (map be_enc (bmin b)) @ concat (map be_enc (bmax b))"

lemma decodes_read_vector:
  "decodes (br_read_vector (length xs)) (concat (map be_enc xs)) (xs :: f32 list)"
  unfolding br_read_vector_def by (rule decodes_repeatS, rule decodes_br_read_scalar) simp_all

lemma decodes_aabb [decodes_intros]:
  assumes "aabb_wf d b"
  shows "decodes (aabb_des d) (aabb_enc b) b"
proof -
  have d: "d = length (bmin b)" "d = length (bmax b)" using assms by (simp_all add: aabb_wf_def)
  have "decodes (br_read_vector d) (concat (map be_enc (bmin b))) (bmin b)"
    unfolding d(1) by (rule decodes_read_vector)
  moreover have "decodes (br_read_vector d) (concat (map be_enc (bmax b)) @ []) (bmax b)"
    unfolding d(2) append_Nil2 by (rule decodes_read_vector)
  ultimately have "decodes (aabb_des d) (concat (map be_enc (bmin b)) @
      (concat (map be_enc (bmax b)) @ []) @ []) \<lparr> bmin = bmin b, bmax = bmax b \<rparr>"
    unfolding aabb_des_def by (intro decodes_bind [OF _ decodes_bind [OF _ decodes_return]])
  then show ?thesis by (simp add: aabb_enc_def)
qed

lemma aabb_ser_enc [enc_simps]: "aabb_ser b w = bw_write (aabb_enc b) w"
  by (simp add: aabb_ser_def aabb_enc_def enc_simps)

interpretation aabbc: codec aabb_ser "aabb_des d" aabb_enc "aabb_wf d" for d
  by unfold_locales (simp_all add: enc_simps decodes_intros)

end
