(* ===== verification/Float_Order.thy ===== *)
theory Float_Order
  imports Aabb
begin

text \<open>
  More of the \<open>float\<close> of the sources: the conversion to \<open>int\<close>, the order of rounded results, and the
  patterns that stay clear of NaN: those with no sign bit.
\<close>

section \<open>Conversion\<close>

text \<open>\<open>static_cast<int>\<close> truncates; a value out of the range of \<open>int\<close> is undefined.\<close>

definition f_to_int :: "f32 \<Rightarrow> int res" where
  "f_to_int x =
    (if f_is_nan x \<or> f_is_inf x then Inl (UB Conversion_Range)
     else let n = int (mag_units (f_mag x) div 2 ^ 149); t = (if f_sign x then - n else n)
          in if t < - (2 ^ 31) \<or> 2 ^ 31 \<le> t then Inl (UB Conversion_Range) else Inr t)"

section \<open>Rounding keeps the order\<close>

lemma bit_len_le: "bit_len n \<le> k \<longleftrightarrow> n < 2 ^ k"
proof (induction n arbitrary: k rule: bit_len.induct)
  case (1 n)
  show ?case
  proof (cases "n = 0")
    case True
    then show ?thesis by (simp add: bit_len.simps)
  next
    case False
    have "n div 2 < 2 ^ j \<longleftrightarrow> n < 2 ^ Suc j" for j by auto
    then show ?thesis using 1 [OF False] False by (cases k) (simp_all add: bit_len.simps [of n])
  qed
qed

lemma bit_len_mono: "m \<le> n \<Longrightarrow> bit_len m \<le> bit_len n"
  using bit_len_le [of m "bit_len n"] bit_len_le [of n "bit_len n"] by simp

text \<open>Division rounded to nearest, ties to even.\<close>

definition div_even :: "nat \<Rightarrow> nat \<Rightarrow> nat" where
  "div_even n d = (if 2 * (n mod d) > d \<or> (2 * (n mod d) = d \<and> odd (n div d)) then n div d + 1 else n div d)"

lemma div_even_bounds: "n div d \<le> div_even n d" "div_even n d \<le> n div d + 1"
  by (simp_all add: div_even_def)

lemma div_even_mono:
  assumes "m \<le> n"
  shows "div_even m d \<le> div_even n d"
proof (cases "m div d = n div d")
  case True
  have "m mod d \<le> n mod d"
    using assms True div_mult_mod_eq [of m d] div_mult_mod_eq [of n d] by (metis add_le_cancel_left)
  then show ?thesis using True by (auto simp: div_even_def)
next
  case False
  then have "m div d < n div d" using div_le_mono [OF assms, of d] by simp
  then show ?thesis using div_even_bounds [of m d] div_even_bounds [of n d] by linarith
qed

lemma round_mag_even: "round_mag num den =
    (let k = bit_len (num div den) - 24 in min inf_mag (k * 2 ^ 23 + div_even num (den * 2 ^ k)))"
  by (simp add: round_mag_def div_even_def Let_def)

lemma round_mag_le: "round_mag num den \<le> inf_mag"
  by (simp add: round_mag_even Let_def)

lemma round_mag_mono:
  assumes "m \<le> n"
  shows "round_mag m den \<le> round_mag n den"
proof -
  define j where "j = bit_len (m div den) - 24"
  define k where "k = bit_len (n div den) - 24"
  have q: "m div den \<le> n div den" by (rule div_le_mono [OF assms])
  have "j \<le> k" using bit_len_mono [OF q] by (simp add: j_def k_def)
  have "j * 2 ^ 23 + div_even m (den * 2 ^ j) \<le> k * 2 ^ 23 + div_even n (den * 2 ^ k)"
  proof (cases "j = k")
    case True
    then show ?thesis using div_even_mono [OF assms] by simp
  next
    case False
    then have less: "j < k" using \<open>j \<le> k\<close> by simp
    have "bit_len (m div den) \<le> j + 24" unfolding j_def by simp
    then have "m div den < 2 ^ (j + 24)" by (simp only: bit_len_le)
    then have "m div (den * 2 ^ j) < 2 ^ 24" by (simp add: div_mult2_eq less_mult_imp_div_less power_add mult.commute)
    then have "div_even m (den * 2 ^ j) \<le> 2 ^ 24" using div_even_bounds(2) [of m "den * 2 ^ j"] by simp
    moreover have "\<not> bit_len (n div den) \<le> k + 23" using less by (simp add: k_def)
    then have "2 ^ (k + 23) \<le> n div den" by (simp add: bit_len_le)
    then have "2 ^ (k + 23) div 2 ^ k \<le> n div den div 2 ^ k" by (rule div_le_mono)
    then have "2 ^ 23 \<le> n div (den * 2 ^ k)" by (simp add: div_mult2_eq power_add)
    then have "2 ^ 23 \<le> div_even n (den * 2 ^ k)" using div_even_bounds(1) [of n "den * 2 ^ k"] by simp
    moreover have "(j + 1) * 2 ^ 23 \<le> k * 2 ^ 23" using less by simp
    ultimately show ?thesis by simp
  qed
  then show ?thesis by (simp add: round_mag_even Let_def j_def k_def min_le_iff_disj)
qed

lemma mag_units_mono:
  assumes "m \<le> n"
  shows "mag_units m \<le> mag_units n"
proof -
  let ?e = "\<lambda>m. m div 2 ^ 23"
  have e: "?e m \<le> ?e n" by (rule div_le_mono [OF assms])
  show ?thesis
  proof (cases "m < 2 ^ 23")
    case True
    have "m \<le> (2 ^ 23 + n mod 2 ^ 23) * 2 ^ (?e n - 1)"
    proof -
      have "m \<le> (2 ^ 23 + n mod 2 ^ 23) * 1" using True by simp
      also have "\<dots> \<le> (2 ^ 23 + n mod 2 ^ 23) * 2 ^ (?e n - 1)" by (rule mult_le_mono2) simp
      finally show ?thesis .
    qed
    then show ?thesis using True assms by (simp add: mag_units_def)
  next
    case False
    then have big: "1 \<le> ?e m" by (simp add: div_greater_zero_iff Suc_le_eq)
    show ?thesis
    proof (cases "?e m = ?e n")
      case True
      then have "m mod 2 ^ 23 \<le> n mod 2 ^ 23"
        using assms div_mult_mod_eq [of m "2 ^ 23"] div_mult_mod_eq [of n "2 ^ 23"] by (metis add_le_cancel_left)
      then show ?thesis using False True assms by (simp add: mag_units_def)
    next
      case False2: False
      then have "?e m < ?e n" using e by linarith
      then obtain c where "?e n = Suc (?e m + c)" using less_imp_Suc_add by blast
      then have d: "?e n - 1 = ?e m - 1 + Suc c" using big by linarith
      have "(2 ^ 23 + m mod 2 ^ 23) * 2 ^ (?e m - 1) \<le> 2 ^ 24 * 2 ^ (?e m - 1)"
        by (rule mult_le_mono1) (simp add: less_imp_le)
      also have "\<dots> \<le> 2 ^ 23 * 2 ^ (?e n - 1)" unfolding d by (simp add: power_add)
      also have "\<dots> \<le> (2 ^ 23 + n mod 2 ^ 23) * 2 ^ (?e n - 1)" by (rule mult_le_mono1) simp
      finally show ?thesis using False assms by (simp add: mag_units_def)
    qed
  qed
qed

section \<open>Patterns without a sign\<close>

text \<open>A value that is not negative: zero, positive or infinite.\<close>

definition f_nonneg :: "f32 \<Rightarrow> bool" where
  "f_nonneg x \<longleftrightarrow> \<not> f_is_nan x \<and> \<not> f_sign x"

lemma f_make_mag:
  assumes "m \<le> inf_mag"
  shows "f_mag (f_make False m) = m" "\<not> f_sign (f_make False m)" "\<not> f_is_nan (f_make False m)"
proof -
  have m: "m < 2 ^ 31" using assms by simp
  show mag: "f_mag (f_make False m) = m"
    using m by (simp add: f_mag_def f_make_def unsigned_take_bit_eq take_bit_nat_eq_self unat_of_nat)
  show "\<not> f_sign (f_make False m)"
    using m by (simp add: f_sign_def f_make_def bit_of_nat_iff) (simp add: bit_iff_odd)
  show "\<not> f_is_nan (f_make False m)" using assms mag by (simp add: f_is_nan_def)
qed

lemma f_make_nonneg: "m \<le> inf_mag \<Longrightarrow> f_nonneg (f_make False m)"
  by (simp add: f_nonneg_def f_make_mag)

lemma f_add_nonneg:
  assumes "f_nonneg x" and "f_nonneg y"
  shows "f_nonneg (f_add x y)"
proof -
  have "0 \<le> f_units x + f_units y" using assms by (simp add: f_units_def f_nonneg_def)
  then show ?thesis
    using assms f_make_nonneg [OF round_mag_le] f_make_nonneg [of 0] unfolding f_add_def Let_def
    by (auto simp: f_nonneg_def)
qed

lemma f_mul_nonneg:
  assumes "f_nonneg x" and "f_nonneg y" and "f_mag y \<noteq> 0" and "f_mag y \<noteq> inf_mag"
  shows "f_nonneg (f_mul x y)"
  using assms f_make_nonneg [OF round_mag_le] f_make_nonneg [of inf_mag] unfolding f_mul_def Let_def
  by (auto simp: f_nonneg_def f_inf_def f_is_inf_def)

lemma f_le_total: "\<not> f_is_nan x \<Longrightarrow> \<not> f_is_nan y \<Longrightarrow> f_le x y \<or> f_le y x"
  by (auto simp: f_le_def)

lemma f_le_nonneg: "f_nonneg x \<Longrightarrow> f_nonneg y \<Longrightarrow> f_le x y \<longleftrightarrow> f_mag x \<le> f_mag y"
  by (simp add: f_le_def f_nonneg_def f_key_def)

text \<open>Multiplication by a positive number keeps the order.\<close>

lemma f_mul_mono:
  assumes "f_nonneg x" and "f_nonneg y" and "f_nonneg c" and "f_mag x \<le> f_mag y" and "f_mag y < inf_mag" and "f_mag c < inf_mag"
  shows "f_mag (f_mul x c) \<le> f_mag (f_mul y c)" "f_nonneg (f_mul x c)"
proof -
  have "mag_units (f_mag x) * mag_units (f_mag c) \<le> mag_units (f_mag y) * mag_units (f_mag c)"
    using mag_units_mono [OF assms(4)] by simp
  moreover have "f_mul z c = f_make False (round_mag (mag_units (f_mag z) * mag_units (f_mag c)) (2 ^ 149))"
    if "f_nonneg z" "f_mag z < inf_mag" for z
    using that assms(3,6) by (simp add: f_mul_def f_nonneg_def f_is_inf_def)
  ultimately show "f_mag (f_mul x c) \<le> f_mag (f_mul y c)" "f_nonneg (f_mul x c)"
    using assms round_mag_mono f_make_nonneg [OF round_mag_le] by (simp_all add: f_make_mag [OF round_mag_le])
qed

text \<open>A value that is not negative and at most an integer in range converts to one that is.\<close>

lemma f_to_int_bounded:
  assumes "f_nonneg x" and "f_mag x \<le> f_mag y" and "f_to_int y = Inr n" and "\<not> f_sign y"
  shows "\<exists>i. f_to_int x = Inr i \<and> 0 \<le> i \<and> i \<le> n"
proof -
  have y: "\<not> f_is_nan y" "\<not> f_is_inf y" and n: "n = int (mag_units (f_mag y) div 2 ^ 149)" "n < 2 ^ 31"
    using assms(3,4) by (auto simp: f_to_int_def Let_def split: if_splits)
  have "mag_units (f_mag x) div 2 ^ 149 \<le> mag_units (f_mag y) div 2 ^ 149"
    by (rule div_le_mono [OF mag_units_mono [OF assms(2)]])
  then have le: "int (mag_units (f_mag x) div 2 ^ 149) \<le> n" using n(1) by simp
  have "\<not> f_is_nan x" "\<not> f_is_inf x" "\<not> f_sign x"
    using assms(1,2) y by (auto simp: f_nonneg_def f_is_inf_def f_is_nan_def)
  then have "f_to_int x = Inr (int (mag_units (f_mag x) div 2 ^ 149))"
    using le n(2) by (simp add: f_to_int_def Let_def)
  then show ?thesis using le by simp
qed

section \<open>Exact results\<close>

text \<open>A pattern is made of its sign and its magnitude, and rounding gives back the magnitude of its units.\<close>

lemma f_make_of: "f_make (f_sign x) (f_mag x) = x"
proof -
  have "word_of_nat (unat (take_bit 31 x)) = take_bit 31 x" by simp
  moreover have "(if bit x 31 then set_bit 31 (take_bit 31 x) else take_bit 31 x) = x"
    by (rule bit_word_eqI) (auto simp: bit_set_bit_iff bit_take_bit_iff less_Suc_eq_le numeral_eq_Suc le_less)
  ultimately show ?thesis by (simp add: f_make_def f_sign_def f_mag_def split: if_splits)
qed

lemma round_units:
  assumes "m < inf_mag"
  shows "round_mag (mag_units m) 1 = m"
proof (cases "m < 2 ^ 23")
  case True
  then have "bit_len m \<le> 24" by (simp add: bit_len_le)
  then show ?thesis using True by (simp add: round_mag_def mag_units_def)
next
  case False
  define e where "e = m div 2 ^ 23"
  define q where "q = 2 ^ 23 + m mod 2 ^ 23"
  have e: "1 \<le> e" using False by (simp add: e_def div_greater_zero_iff Suc_le_eq)
  have q: "2 ^ 23 \<le> q" "q < 2 ^ 24" by (simp_all add: q_def)
  have m: "(e - 1) * 2 ^ 23 + q = m" using e div_mult_mod_eq [of m "2 ^ 23"] by (simp add: e_def q_def diff_mult_distrib)
  have u: "mag_units m = q * 2 ^ (e - 1)" using False by (simp add: mag_units_def e_def q_def)
  have "bit_len (q * 2 ^ (e - 1)) = e + 23"
  proof (rule antisym)
    have "q * 2 ^ (e - 1) < 2 ^ 24 * 2 ^ (e - 1)" using q(2) by simp
    also have "\<dots> = 2 ^ (e + 23)" using e by (cases e) (simp_all add: power_add)
    finally show "bit_len (q * 2 ^ (e - 1)) \<le> e + 23" by (simp add: bit_len_le)
    have "(2 :: nat) ^ (e + 22) = 2 ^ 23 * 2 ^ (e - 1)" using e by (cases e) (simp_all add: power_add)
    also have "\<dots> \<le> q * 2 ^ (e - 1)" using q(1) by simp
    finally have "\<not> bit_len (q * 2 ^ (e - 1)) \<le> e + 22" by (simp add: bit_len_le)
    then show "e + 23 \<le> bit_len (q * 2 ^ (e - 1))" by simp
  qed
  then have "bit_len (q * 2 ^ (e - 1)) - 24 = e - 1" by simp
  then show ?thesis using m assms by (simp add: u round_mag_def Let_def)
qed

lemma round_mag_scale:
  assumes "0 < c"
  shows "round_mag (a * c) (b * c) = round_mag a b"
proof -
  have bc: "b * c * 2 ^ k = b * 2 ^ k * c" for k by (simp only: ac_simps)
  have r: "a * c mod (b * c * 2 ^ k) = a mod (b * 2 ^ k) * c" for k unfolding bc by (rule mod_mult_mult2)
  have q: "a * c div (b * c * 2 ^ k) = a div (b * 2 ^ k)" "a * c div (b * c) = a div b" for k
    unfolding bc using assms by simp_all
  have "b * c * 2 ^ k < 2 * (n * c) \<longleftrightarrow> b * 2 ^ k < 2 * n" "2 * (n * c) = b * c * 2 ^ k \<longleftrightarrow> 2 * n = b * 2 ^ k" for k n
    unfolding bc mult.assoc [of 2 n c, symmetric] using assms by simp_all
  then show ?thesis by (simp only: round_mag_def Let_def r q)
qed

definition f_finite :: "f32 \<Rightarrow> bool" where
  "f_finite x \<longleftrightarrow> f_mag x < inf_mag"

lemma f_finite_not: "f_finite x \<Longrightarrow> \<not> f_is_nan x \<and> \<not> f_is_inf x"
  by (simp add: f_finite_def f_is_nan_def f_is_inf_def)

lemma mag_units_0: "mag_units m = 0 \<longleftrightarrow> m = 0"
  by (simp add: mag_units_def)

lemma f_add_exact:
  assumes "f_finite x" "f_finite y" "f_finite z" and "f_units x + f_units y = f_units z" and "f_mag z \<noteq> 0"
  shows "f_add x y = z"
proof -
  have "f_units z \<noteq> 0" "f_units z < 0 \<longleftrightarrow> f_sign z" "nat \<bar>f_units z\<bar> = mag_units (f_mag z)"
    using assms(5) mag_units_0 [of "f_mag z"] by (auto simp: f_units_def)
  then show ?thesis
    using assms f_finite_not [OF assms(1)] f_finite_not [OF assms(2)] round_units [of "f_mag z"] f_make_of [of z]
    by (simp add: f_add_def Let_def f_finite_def)
qed

lemma f_mul_exact:
  assumes "f_finite x" "f_finite y" "f_finite z" and "mag_units (f_mag x) * mag_units (f_mag y) = mag_units (f_mag z) * 2 ^ 149"
    and "f_sign z = (f_sign x \<noteq> f_sign y)"
  shows "f_mul x y = z"
  using assms f_finite_not [OF assms(1)] f_finite_not [OF assms(2)] round_units [of "f_mag z"] f_make_of [of z]
    round_mag_scale [of "2 ^ 149" "mag_units (f_mag z)" 1]
  by (simp add: f_mul_def Let_def f_finite_def)

lemma f_div_exact:
  assumes "f_finite x" "f_finite y" "f_finite z" and "mag_units (f_mag x) * 2 ^ 149 = mag_units (f_mag z) * mag_units (f_mag y)"
    and "f_sign z = (f_sign x \<noteq> f_sign y)" and "f_mag y \<noteq> 0"
  shows "f_div x y = z"
  using assms f_finite_not [OF assms(1)] f_finite_not [OF assms(2)] round_units [of "f_mag z"] f_make_of [of z]
    round_mag_scale [of "mag_units (f_mag y)" "mag_units (f_mag z)" 1] mag_units_0 [of "f_mag y"]
  by (simp add: f_div_def Let_def f_finite_def)

lemma f_of_int_exact:
  assumes "f_finite z" and "nat \<bar>i\<bar> * 2 ^ 149 = mag_units (f_mag z)" and "f_sign z \<longleftrightarrow> i < 0"
  shows "f_of_int i = z"
  using assms round_units [of "f_mag z"] f_make_of [of z] by (simp add: f_of_int_def f_finite_def)

lemmas f_exact = f_finite_def f_mag_def f_sign_def mag_units_def f_units_def

end
