(* ===== verification/Partition_Shapes.thy ===== *)
theory Partition_Shapes
  imports Float_Order Text_Numbers
begin

text \<open>
  The partition shapes of the parked heuristics: the triangle tests of \<open>Global/Misc/GeometryUtils.hpp\<close>, shapes
  and grid cells (\<open>Shape.hpp\<close>, \<open>GridCell.hpp\<close>), the quadtree (\<open>QuadtreeHeuristic\<close>), the choice of a heuristic
  (\<open>Heuristic\<close>) and the cache of the watchdog with its grid of cells (\<open>PartitionShapeCache.hpp\<close>). The quadtree
  covers its square and its leaves are fine enough; a lookup in the cache is defined for every point.
\<close>

section \<open>Geometry\<close>

record vec2 =
  p2x :: f32
  p2y :: f32

abbreviation vec2_of :: "f32 \<Rightarrow> f32 \<Rightarrow> vec2" where
  "vec2_of a b \<equiv> \<lparr> p2x = a, p2y = b \<rparr>"

type_synonym triangle = "vec2 \<times> vec2 \<times> vec2"

definition f_epsilon :: f32 where "f_epsilon = 0x358637BD"

definition f_one :: f32 where "f_one = 0x3F800000"

definition f_half :: f32 where "f_half = 0x3F000000"

definition f_dot :: "f32 \<Rightarrow> f32 \<Rightarrow> f32 \<Rightarrow> f32 \<Rightarrow> f32" where
  "f_dot ax ay bx by' = f_add (f_mul ax bx) (f_mul ay by')"

definition point_in_triangle :: "vec2 \<Rightarrow> vec2 \<Rightarrow> vec2 \<Rightarrow> vec2 \<Rightarrow> bool" where
  "point_in_triangle p a b c =
    (let v0x = f_sub (p2x c) (p2x a); v0y = f_sub (p2y c) (p2y a);
         v1x = f_sub (p2x b) (p2x a); v1y = f_sub (p2y b) (p2y a);
         v2x = f_sub (p2x p) (p2x a); v2y = f_sub (p2y p) (p2y a);
         dot00 = f_dot v0x v0y v0x v0y; dot01 = f_dot v0x v0y v1x v1y; dot02 = f_dot v0x v0y v2x v2y;
         dot11 = f_dot v1x v1y v1x v1y; dot12 = f_dot v1x v1y v2x v2y;
         denom = f_sub (f_mul dot00 dot11) (f_mul dot01 dot01)
     in if f_lt (f_abs denom) f_epsilon then False
        else
          let u = f_div (f_sub (f_mul dot11 dot02) (f_mul dot01 dot12)) denom;
              v = f_div (f_sub (f_mul dot00 dot12) (f_mul dot01 dot02)) denom
          in f_le (f_neg f_epsilon) u \<and> f_le (f_neg f_epsilon) v \<and> f_le (f_add u v) (f_add f_one f_epsilon))"

definition distance2 :: "vec2 \<Rightarrow> vec2 \<Rightarrow> f32" where
  "distance2 p q = (let dx = f_sub (p2x p) (p2x q); dy = f_sub (p2y p) (p2y q) in f_add (f_mul dx dx) (f_mul dy dy))"

definition project_on_segment :: "vec2 \<Rightarrow> vec2 \<Rightarrow> vec2 \<Rightarrow> vec2" where
  "project_on_segment p a b =
    (let apx = f_sub (p2x p) (p2x a); apy = f_sub (p2y p) (p2y a);
         abx = f_sub (p2x b) (p2x a); aby = f_sub (p2y b) (p2y a);
         t = glm_max 0 (glm_min f_one (f_div (f_dot apx apy abx aby) (f_dot abx aby abx aby)))
     in vec2_of (f_add (p2x a) (f_mul t abx)) (f_add (p2y a) (f_mul t aby)))"

definition closest_point_on_triangle :: "vec2 \<Rightarrow> vec2 \<Rightarrow> vec2 \<Rightarrow> vec2 \<Rightarrow> vec2" where
  "closest_point_on_triangle p a b c =
    (let pab = project_on_segment p a b; pbc = project_on_segment p b c; pca = project_on_segment p c a;
         dab = distance2 p pab; dbc = distance2 p pbc; dca = distance2 p pca
     in if f_le dab dbc \<and> f_le dab dca then pab
        else if f_le dbc dab \<and> f_le dbc dca then pbc else pca)"

definition is_within_bounds :: "vec2 \<Rightarrow> f32 \<Rightarrow> f32 \<Rightarrow> bool" where
  "is_within_bounds p lo hi \<longleftrightarrow> f_le lo (p2x p) \<and> f_le (p2x p) hi \<and> f_le lo (p2y p) \<and> f_le (p2y p) hi"

section \<open>Grid cells\<close>

record grid_cell2 =
  gc_min :: vec2
  gc_max :: vec2
  gc_row :: int
  gc_col :: int

definition gc_contains :: "grid_cell2 \<Rightarrow> vec2 \<Rightarrow> bool" where
  "gc_contains c p \<longleftrightarrow> f_le (p2x (gc_min c)) (p2x p) \<and> f_le (p2x p) (p2x (gc_max c)) \<and>
    f_le (p2y (gc_min c)) (p2y p) \<and> f_le (p2y p) (p2y (gc_max c))"

definition gc_center :: "grid_cell2 \<Rightarrow> vec2" where
  "gc_center c = vec2_of (f_mul (f_add (p2x (gc_min c)) (p2x (gc_max c))) f_half)
     (f_mul (f_add (p2y (gc_min c)) (p2y (gc_max c))) f_half)"

definition gc_width :: "grid_cell2 \<Rightarrow> f32" where
  "gc_width c = f_sub (p2x (gc_max c)) (p2x (gc_min c))"

definition gc_height :: "grid_cell2 \<Rightarrow> f32" where
  "gc_height c = f_sub (p2y (gc_max c)) (p2y (gc_min c))"

record cell_shape =
  cs_cells :: "grid_cell2 list"
  cs_partition :: bytes

definition cs_contains :: "cell_shape \<Rightarrow> vec2 \<Rightarrow> bool" where
  "cs_contains s p = list_ex (\<lambda>c. gc_contains c p) (cs_cells s)"

definition cs_count :: "cell_shape \<Rightarrow> nat" where
  "cs_count s = length (cs_cells s)"

definition cs_add :: "grid_cell2 \<Rightarrow> cell_shape \<Rightarrow> cell_shape" where
  "cs_add c s = s \<lparr> cs_cells := cs_cells s @ [c] \<rparr>"

definition cs_widen :: "vec2 \<times> vec2 \<Rightarrow> grid_cell2 \<Rightarrow> vec2 \<times> vec2" where
  "cs_widen = (\<lambda>(lo, hi) c.
     (vec2_of (glm_min (p2x lo) (p2x (gc_min c))) (glm_min (p2y lo) (p2y (gc_min c))),
      vec2_of (glm_max (p2x hi) (p2x (gc_max c))) (glm_max (p2y hi) (p2y (gc_max c)))))"

definition cs_bounds :: "cell_shape \<Rightarrow> vec2 \<times> vec2" where
  "cs_bounds s =
    (case cs_cells s of [] \<Rightarrow> (vec2_of 0 0, vec2_of 0 0)
     | c # cs \<Rightarrow> foldl cs_widen (gc_min c, gc_max c) (c # cs))"

section \<open>Shapes of triangles\<close>

type_synonym shape = "triangle list"

definition shape_contains :: "shape \<Rightarrow> vec2 \<Rightarrow> bool" where
  "shape_contains s p = list_ex (\<lambda>(a, b, c). point_in_triangle p a b c) s"

definition shape_closest_point :: "shape \<Rightarrow> vec2 \<Rightarrow> vec2" where
  "shape_closest_point s p =
    snd (foldl (\<lambda>(best2, best) (a, b, c).
        let q = closest_point_on_triangle p a b c; d2 = distance2 p q
        in if f_lt d2 best2 then (d2, q) else (best2, best)) (f_inf False, p) s)"

text \<open>The least and the greatest of three, as \<open>std::min\<close> and \<open>std::max\<close> of a list.\<close>

definition min3 :: "f32 \<Rightarrow> f32 \<Rightarrow> f32 \<Rightarrow> f32" where
  "min3 a b c = glm_min (glm_min a b) c"

definition max3 :: "f32 \<Rightarrow> f32 \<Rightarrow> f32 \<Rightarrow> f32" where
  "max3 a b c = glm_max (glm_max a b) c"

definition triangle_bounds :: "triangle \<Rightarrow> (f32 \<times> f32) \<times> f32 \<times> f32" where
  "triangle_bounds = (\<lambda>(a, b, c). ((min3 (p2x a) (p2x b) (p2x c), max3 (p2x a) (p2x b) (p2x c)),
     min3 (p2y a) (p2y b) (p2y c), max3 (p2y a) (p2y b) (p2y c)))"

definition append_grid_cells :: "nat \<Rightarrow> shape \<Rightarrow> cell_shape \<Rightarrow> cell_shape" where
  "append_grid_cells i s g =
    foldl (\<lambda>g t. case triangle_bounds t of ((x0, x1), y0, y1) \<Rightarrow>
      cs_add \<lparr> gc_min = vec2_of x0 y0, gc_max = vec2_of x1 y1, gc_row = int (i div 2), gc_col = int (i mod 2) \<rparr> g) g s"

text \<open>A rectangle as two triangles.\<close>

definition rectangle_shape :: "vec2 \<Rightarrow> vec2 \<Rightarrow> shape" where
  "rectangle_shape lo hi =
    (let x0 = p2x lo; y0 = p2y lo; x1 = p2x hi; y1 = p2y hi
     in [(vec2_of x0 y0, vec2_of x1 y0, vec2_of x0 y1), (vec2_of x1 y1, vec2_of x1 y0, vec2_of x0 y1)])"

section \<open>The quadtree\<close>

record quad_info =
  q_min :: vec2
  q_max :: vec2
  q_depth :: int
  q_max_depth :: int
  q_count :: int

datatype quad_node =
    Leaf_Node (node_info: quad_info)
  | Inner_Node (node_info: quad_info) (bottom_left: quad_node) (bottom_right: quad_node)
      (top_left: quad_node) (top_right: quad_node)

definition quad_new :: "vec2 \<Rightarrow> vec2 \<Rightarrow> int \<Rightarrow> int \<Rightarrow> quad_node" where
  "quad_new lo hi d md = Leaf_Node \<lparr> q_min = lo, q_max = hi, q_depth = d, q_max_depth = md, q_count = 0 \<rparr>"

definition quad_contains :: "quad_info \<Rightarrow> vec2 \<Rightarrow> bool" where
  "quad_contains i p \<longleftrightarrow> f_le (p2x (q_min i)) (p2x p) \<and> f_le (p2x p) (p2x (q_max i)) \<and>
    f_le (p2y (q_min i)) (p2y p) \<and> f_le (p2y p) (p2y (q_max i))"

text \<open>The entities are their positions; the height is not looked at.\<close>

definition count_entities :: "vec3 list \<Rightarrow> quad_node \<Rightarrow> quad_node" where
  "count_entities es n =
    (let i = node_info n;
         k = foldl (\<lambda>k e. if quad_contains i (vec2_of (vx e) (vz e)) then k + 1 else k) 0 es
     in case n of Leaf_Node _ \<Rightarrow> Leaf_Node (i \<lparr> q_count := k \<rparr>)
        | Inner_Node _ a b c d \<Rightarrow> Inner_Node (i \<lparr> q_count := k \<rparr>) a b c d)"

definition subdivide :: "quad_node \<Rightarrow> quad_node" where
  "subdivide n =
    (case n of
       Inner_Node _ _ _ _ _ \<Rightarrow> n
     | Leaf_Node i \<Rightarrow>
         if q_max_depth i \<le> q_depth i then n
         else
           let lo = q_min i; hi = q_max i; d = q_depth i + 1; md = q_max_depth i;
               midx = f_mul (f_add (p2x lo) (p2x hi)) f_half;
               midy = f_mul (f_add (p2y lo) (p2y hi)) f_half
           in Inner_Node i
                (quad_new (vec2_of (p2x lo) (p2y lo)) (vec2_of midx midy) d md)
                (quad_new (vec2_of midx (p2y lo)) (vec2_of (p2x hi) midy) d md)
                (quad_new (vec2_of (p2x lo) midy) (vec2_of midx (p2y hi)) d md)
                (quad_new (vec2_of midx midy) (vec2_of (p2x hi) (p2y hi)) d md))"

text \<open>The shapes of the leaves, appended, and the number of leaves, added.\<close>

fun collect_leaf_shapes :: "quad_node \<Rightarrow> shape list \<times> int \<Rightarrow> shape list \<times> int" where
  "collect_leaf_shapes (Leaf_Node i) (shapes, k) = (shapes @ [rectangle_shape (q_min i) (q_max i)], k + 1)"
| "collect_leaf_shapes (Inner_Node i a b c d) x =
    collect_leaf_shapes d (collect_leaf_shapes c (collect_leaf_shapes b (collect_leaf_shapes a x)))"

text \<open>How much there is left to divide.\<close>

fun quad_weight :: "quad_node \<Rightarrow> nat" where
  "quad_weight (Leaf_Node i) = 5 ^ nat (q_max_depth i - q_depth i)"
| "quad_weight (Inner_Node i a b c d) = quad_weight a + quad_weight b + quad_weight c + quad_weight d + 1"

lemma quad_weight_pos: "0 < quad_weight n"
  by (cases n) simp_all

lemma quad_weight_subdivide:
  assumes "subdivide n = Inner_Node i a b c d"
  shows "quad_weight a < quad_weight n" "quad_weight b < quad_weight n"
    "quad_weight c < quad_weight n" "quad_weight d < quad_weight n"
proof -
  have *: "quad_weight a < quad_weight n \<and> quad_weight b < quad_weight n \<and> quad_weight c < quad_weight n \<and> quad_weight d < quad_weight n"
  proof (cases n)
    case (Leaf_Node j)
    have "(5 :: nat) ^ nat (q_max_depth j - (q_depth j + 1)) < 5 ^ nat (q_max_depth j - q_depth j)" if "q_depth j < q_max_depth j"
      by (rule power_strict_increasing) (use that in auto)
    then show ?thesis using assms Leaf_Node by (auto simp: subdivide_def Let_def quad_new_def split: if_splits)
  next
    case (Inner_Node j a' b' c' d')
    then show ?thesis using assms quad_weight_pos by (auto simp: subdivide_def)
  qed
  then show "quad_weight a < quad_weight n" "quad_weight b < quad_weight n"
    "quad_weight c < quad_weight n" "quad_weight d < quad_weight n" by simp_all
qed

lemma quad_weight_count [simp]: "quad_weight (count_entities es n) = quad_weight n"
  by (cases n) (simp_all add: count_entities_def Let_def)

function subdivide_uniform :: "quad_node \<Rightarrow> quad_node" where
  "subdivide_uniform n =
    (if q_depth (node_info n) < q_max_depth (node_info n)
     then (case subdivide n of
         Leaf_Node i \<Rightarrow> Leaf_Node i
       | Inner_Node i a b c d \<Rightarrow>
           Inner_Node i (subdivide_uniform a) (subdivide_uniform b) (subdivide_uniform c) (subdivide_uniform d))
     else n)"
  by pat_completeness auto
termination
  by (relation "measure quad_weight") (simp_all add: quad_weight_subdivide)

function subdivide_dense :: "vec3 list \<Rightarrow> int \<Rightarrow> quad_node \<Rightarrow> quad_node" where
  "subdivide_dense es m n =
    (if q_depth (node_info n) < q_max_depth (node_info n) \<and> m < q_count (node_info n)
     then (case subdivide n of
         Leaf_Node i \<Rightarrow> Leaf_Node i
       | Inner_Node i a b c d \<Rightarrow>
           Inner_Node i (subdivide_dense es m (count_entities es a)) (subdivide_dense es m (count_entities es b))
             (subdivide_dense es m (count_entities es c)) (subdivide_dense es m (count_entities es d)))
     else n)"
  by pat_completeness auto
termination
  by (relation "measure (\<lambda>(es, m, n). quad_weight n)") (simp_all add: quad_weight_subdivide)

declare subdivide_uniform.simps [simp del] subdivide_dense.simps [simp del]

definition unit_root :: "int \<Rightarrow> quad_node" where
  "unit_root md = quad_new (vec2_of 0 0) (vec2_of f_one f_one) 0 md"

definition compute_quadtree_shape :: "shape list" where
  "compute_quadtree_shape = fst (collect_leaf_shapes (subdivide_uniform (unit_root 3)) ([], 0))"

definition compute_quadtree_shape_density :: "vec3 list \<Rightarrow> int \<Rightarrow> int \<Rightarrow> shape list" where
  "compute_quadtree_shape_density es md m =
    (if es = [] then compute_quadtree_shape
     else fst (collect_leaf_shapes (subdivide_dense es m (count_entities es (unit_root md))) ([], 0)))"

section \<open>The heuristic\<close>

datatype shape_heuristic = Big_Square | Quad_Tree | KD_Tree | Grid

definition compute_big_square_shape :: "shape list" where
  "compute_big_square_shape = [rectangle_shape (vec2_of 0 0) (vec2_of f_one f_one)]"

text \<open>The corners of the cell in row \<open>i\<close> and column \<open>j\<close> of the grid of two by two.\<close>

definition grid_corners :: "int \<Rightarrow> int \<Rightarrow> vec2 \<times> vec2" where
  "grid_corners i j =
    (let step = f_div f_one (f_of_int 2)
     in (vec2_of (f_mul (f_of_int i) step) (f_mul (f_of_int j) step),
         vec2_of (f_mul (f_of_int (i + 1)) step) (f_mul (f_of_int (j + 1)) step)))"

definition compute_grid_shape :: "shape list" where
  "compute_grid_shape = map (\<lambda>(i, j). case grid_corners i j of (lo, hi) \<Rightarrow> rectangle_shape lo hi) (List.product [0..1] [0..1])"

definition compute_grid_cell_shapes :: "cell_shape list" where
  "compute_grid_cell_shapes = map (\<lambda>(i, j). case grid_corners i j of (lo, hi) \<Rightarrow>
     cs_add \<lparr> gc_min = lo, gc_max = hi, gc_row = i, gc_col = j \<rparr>
       \<lparr> cs_cells = [], cs_partition = str_bytes ''ePartition grid_'' @ dec_of_int i @ str_bytes ''_'' @ dec_of_int j \<rparr>)
     (List.product [0..1] [0..1])"

definition compute_partition :: "shape_heuristic \<Rightarrow> vec3 list \<Rightarrow> shape list" where
  "compute_partition t es =
    (case t of
       Big_Square \<Rightarrow> compute_big_square_shape
     | Quad_Tree \<Rightarrow> if es \<noteq> [] then compute_quadtree_shape_density es 4 4 else compute_quadtree_shape
     | KD_Tree \<Rightarrow> []
     | Grid \<Rightarrow> compute_grid_shape)"

fun find_partition_from :: "nat \<Rightarrow> vec2 \<Rightarrow> shape list \<Rightarrow> nat option" where
  "find_partition_from k p [] = None"
| "find_partition_from k p (s # ss) = (if shape_contains s p then Some k else find_partition_from (k + 1) p ss)"

definition find_partition_for_point :: "vec2 \<Rightarrow> shape list \<Rightarrow> nat option" where
  "find_partition_for_point p ss = find_partition_from 0 p ss"

section \<open>The cache\<close>

text \<open>The map from partitions to shapes is in the order of its keys.\<close>

record shape_cache =
  sc_shapes :: "shape list"
  sc_index :: "(bytes \<times> nat) list"
  sc_valid :: bool
  sc_spatial :: "bytes \<Rightarrow> bytes option"
  sc_grid :: int
  sc_spatial_valid :: bool

definition cache_new :: shape_cache where
  "cache_new = \<lparr> sc_shapes = [], sc_index = [], sc_valid = False, sc_spatial = Map.empty, sc_grid = 100, sc_spatial_valid = False \<rparr>"

definition cell_key :: "int \<Rightarrow> int \<Rightarrow> bytes" where
  "cell_key gx gy = dec_of_int gx @ [44] @ dec_of_int gy"

definition cell_center :: "int \<Rightarrow> int \<Rightarrow> int \<Rightarrow> vec2" where
  "cell_center n gx gy = vec2_of (f_div (f_add (f_of_int gx) f_half) (f_of_int n)) (f_div (f_add (f_of_int gy) f_half) (f_of_int n))"

definition cell_range :: "int \<Rightarrow> f32 \<Rightarrow> f32 \<Rightarrow> (int \<times> int) res" where
  "cell_range n lo hi =
    bindE (f_to_int (f_mul lo (f_of_int n))) (\<lambda>a. bindE (f_to_int (f_mul hi (f_of_int n))) (\<lambda>b.
      Inr (max 0 (min a (n - 1)), max 0 (min (b + 1) n))))"

text \<open>The first shape that contains the center of a cell gets it.\<close>

definition index_cell :: "int \<Rightarrow> bytes \<Rightarrow> triangle \<Rightarrow> (bytes \<Rightarrow> bytes option) \<Rightarrow> int \<times> int \<Rightarrow> (bytes \<Rightarrow> bytes option)" where
  "index_cell n part = (\<lambda>(a, b, c) m (gx, gy).
    if point_in_triangle (cell_center n gx gy) a b c
    then let key = cell_key gx gy in if m key = None then m(key \<mapsto> part) else m
    else m)"

definition index_triangle :: "int \<Rightarrow> bytes \<Rightarrow> triangle \<Rightarrow> (bytes \<Rightarrow> bytes option) \<Rightarrow> (bytes \<Rightarrow> bytes option) res" where
  "index_triangle n part t m =
    (case triangle_bounds t of ((x0, x1), y0, y1) \<Rightarrow>
      bindE (cell_range n x0 x1) (\<lambda>(ax, bx). bindE (cell_range n y0 y1) (\<lambda>(ay, by').
        Inr (foldl (index_cell n part t) m (List.product [ax..bx - 1] [ay..by' - 1])))))"

fun index_shape :: "int \<Rightarrow> bytes \<Rightarrow> shape \<Rightarrow> (bytes \<Rightarrow> bytes option) \<Rightarrow> (bytes \<Rightarrow> bytes option) res" where
  "index_shape n part [] m = Inr m"
| "index_shape n part (t # ts) m = bindE (index_triangle n part t m) (index_shape n part ts)"

fun index_partitions :: "int \<Rightarrow> shape list \<Rightarrow> (bytes \<times> nat) list \<Rightarrow> (bytes \<Rightarrow> bytes option) \<Rightarrow> (bytes \<Rightarrow> bytes option) res" where
  "index_partitions n shapes [] m = Inr m"
| "index_partitions n shapes ((part, i) # ps) m =
    (if length shapes \<le> i then index_partitions n shapes ps m
     else bindE (index_shape n part (shapes ! i) m) (index_partitions n shapes ps))"

definition build_spatial_index :: "shape_cache \<Rightarrow> shape_cache res" where
  "build_spatial_index c =
    (let c = c \<lparr> sc_spatial := Map.empty, sc_spatial_valid := False \<rparr>
     in if \<not> sc_valid c \<or> sc_shapes c = [] then Inr c
        else bindE (index_partitions (sc_grid c) (sc_shapes c) (sc_index c) Map.empty) (\<lambda>m.
          Inr (c \<lparr> sc_spatial := m, sc_spatial_valid := True \<rparr>)))"

text \<open>The cell of a point: each coordinate is brought into the unit interval, scaled and cut off.\<close>

definition cell_coordinate :: "int \<Rightarrow> f32 \<Rightarrow> int res" where
  "cell_coordinate n x =
    bindE (f_to_int (f_mul (glm_max 0 (glm_min f_one x)) (f_of_int n))) (\<lambda>g. Inr (max 0 (min g (n - 1))))"

definition fast_lookup :: "shape_cache \<Rightarrow> vec2 \<Rightarrow> bytes option res" where
  "fast_lookup c p =
    (if \<not> sc_spatial_valid c then Inr None
     else bindE (cell_coordinate (sc_grid c) (p2x p)) (\<lambda>gx. bindE (cell_coordinate (sc_grid c) (p2y p)) (\<lambda>gy.
       Inr (sc_spatial c (cell_key gx gy)))))"

section \<open>The leaves of the tree\<close>

fun quad_leaves :: "quad_node \<Rightarrow> quad_info list" where
  "quad_leaves (Leaf_Node i) = [i]"
| "quad_leaves (Inner_Node i a b c d) = quad_leaves a @ quad_leaves b @ quad_leaves c @ quad_leaves d"

lemma collect_leaves:
  "collect_leaf_shapes n (ss, k) =
    (ss @ map (\<lambda>i. rectangle_shape (q_min i) (q_max i)) (quad_leaves n), k + int (length (quad_leaves n)))"
  by (induction n arbitrary: ss k) simp_all

text \<open>A box whose corners are no NaN and not negative.\<close>

definition quad_plain :: "quad_info \<Rightarrow> bool" where
  "quad_plain i \<longleftrightarrow> f_nonneg (p2x (q_min i)) \<and> f_nonneg (p2y (q_min i)) \<and> f_nonneg (p2x (q_max i)) \<and> f_nonneg (p2y (q_max i))"

definition is_leaf :: "quad_node \<Rightarrow> bool" where
  "is_leaf n = (case n of Leaf_Node _ \<Rightarrow> True | Inner_Node _ _ _ _ _ \<Rightarrow> False)"

lemma is_leaf_count [simp]: "is_leaf (count_entities es n) = is_leaf n"
  by (cases n) (simp_all add: count_entities_def is_leaf_def Let_def)

lemma info_count:
  "q_min (node_info (count_entities es n)) = q_min (node_info n)" "q_max (node_info (count_entities es n)) = q_max (node_info n)"
  "q_depth (node_info (count_entities es n)) = q_depth (node_info n)"
  "q_max_depth (node_info (count_entities es n)) = q_max_depth (node_info n)"
  by (cases n; simp add: count_entities_def Let_def)+

lemma count_contains [simp]:
  "quad_contains (node_info (count_entities es n)) p = quad_contains (node_info n) p"
  "quad_plain (node_info (count_entities es n)) = quad_plain (node_info n)"
  by (simp_all add: quad_contains_def quad_plain_def info_count)

lemma half_nonneg: "f_nonneg a \<Longrightarrow> f_nonneg b \<Longrightarrow> f_nonneg (f_mul (f_add a b) f_half)"
  by (rule f_mul_nonneg [OF f_add_nonneg]) (simp_all add: f_half_def f_nonneg_def f_eval)

lemma subdivide_leaf:
  assumes "is_leaf n" and "q_depth (node_info n) < q_max_depth (node_info n)"
  obtains a b c d where "subdivide n = Inner_Node (node_info n) a b c d"
    and "\<forall>x\<in>{a, b, c, d}. is_leaf x \<and> q_depth (node_info x) = q_depth (node_info n) + 1 \<and>
        q_max_depth (node_info x) = q_max_depth (node_info n) \<and> (quad_plain (node_info n) \<longrightarrow> quad_plain (node_info x))"
    and "\<And>p. quad_plain (node_info n) \<Longrightarrow> quad_contains (node_info n) p \<Longrightarrow> \<exists>x\<in>{a, b, c, d}. quad_contains (node_info x) p"
proof -
  obtain i where n: "n = Leaf_Node i" using assms(1) by (cases n) (simp_all add: is_leaf_def)
  define midx where "midx = f_mul (f_add (p2x (q_min i)) (p2x (q_max i))) f_half"
  define midy where "midy = f_mul (f_add (p2y (q_min i)) (p2y (q_max i))) f_half"
  have mid: "f_nonneg midx" "f_nonneg midy" if "quad_plain i"
    using half_nonneg that by (simp_all add: midx_def midy_def quad_plain_def)
  define child where "child x0 y0 x1 y1 = quad_new (vec2_of x0 y0) (vec2_of x1 y1) (q_depth i + 1) (q_max_depth i)" for x0 y0 x1 y1
  let ?a = "child (p2x (q_min i)) (p2y (q_min i)) midx midy" and ?b = "child midx (p2y (q_min i)) (p2x (q_max i)) midy"
  let ?c = "child (p2x (q_min i)) midy midx (p2y (q_max i))" and ?d = "child midx midy (p2x (q_max i)) (p2y (q_max i))"
  show ?thesis
  proof (rule that)
    show "subdivide n = Inner_Node (node_info n) ?a ?b ?c ?d"
      using assms(2) by (simp add: n subdivide_def Let_def child_def midx_def midy_def)
    show "\<forall>x\<in>{?a, ?b, ?c, ?d}. is_leaf x \<and> q_depth (node_info x) = q_depth (node_info n) + 1 \<and>
        q_max_depth (node_info x) = q_max_depth (node_info n) \<and> (quad_plain (node_info n) \<longrightarrow> quad_plain (node_info x))"
      using mid by (simp add: n child_def quad_new_def is_leaf_def) (simp add: quad_plain_def)
    show "\<exists>x\<in>{?a, ?b, ?c, ?d}. quad_contains (node_info x) p"
      if p: "quad_plain (node_info n)" "quad_contains (node_info n) p" for p
    proof -
      have "\<not> f_is_nan (p2x p)" "\<not> f_is_nan (p2y p)" using p(2) by (auto simp: quad_contains_def f_le_def)
      then have "f_le (p2x p) midx \<or> f_le midx (p2x p)" "f_le (p2y p) midy \<or> f_le midy (p2y p)"
        using mid p(1) f_le_total by (auto simp: n f_nonneg_def)
      then show ?thesis using p(2) by (auto simp: n child_def quad_new_def quad_contains_def)
    qed
  qed
qed

lemma dense_covers:
  assumes "is_leaf n" and "quad_plain (node_info n)" and "quad_contains (node_info n) p"
  shows "\<exists>i\<in>set (quad_leaves (subdivide_dense es m n)). quad_contains i p"
  using assms
proof (induction es m n rule: subdivide_dense.induct)
  case (1 es m n)
  show ?case
  proof (cases "q_depth (node_info n) < q_max_depth (node_info n) \<and> m < q_count (node_info n)")
    case True
    then obtain a b c d where s: "subdivide n = Inner_Node (node_info n) a b c d"
      and ch: "\<forall>x\<in>{a, b, c, d}. is_leaf x \<and> quad_plain (node_info x)"
      and cov: "\<exists>x\<in>{a, b, c, d}. quad_contains (node_info x) p"
      using subdivide_leaf [of n] "1.prems" by (metis (no_types, lifting))
    from cov consider "quad_contains (node_info a) p" | "quad_contains (node_info b) p"
      | "quad_contains (node_info c) p" | "quad_contains (node_info d) p" by blast
    then show ?thesis
      using "1.IH" [OF True s] ch by cases (auto simp: subdivide_dense.simps [of es m n] True s)
  next
    case False
    then have "subdivide_dense es m n = n" by (subst subdivide_dense.simps) (rule if_not_P)
    then show ?thesis using "1.prems" by (cases n) (auto simp: is_leaf_def)
  qed
qed

lemma uniform_covers:
  assumes "is_leaf n" and "quad_plain (node_info n)" and "quad_contains (node_info n) p"
  shows "\<exists>i\<in>set (quad_leaves (subdivide_uniform n)). quad_contains i p"
  using assms
proof (induction n rule: subdivide_uniform.induct)
  case (1 n)
  show ?case
  proof (cases "q_depth (node_info n) < q_max_depth (node_info n)")
    case True
    then obtain a b c d where s: "subdivide n = Inner_Node (node_info n) a b c d"
      and ch: "\<forall>x\<in>{a, b, c, d}. is_leaf x \<and> quad_plain (node_info x)"
      and cov: "\<exists>x\<in>{a, b, c, d}. quad_contains (node_info x) p"
      using subdivide_leaf [of n] "1.prems" by (metis (no_types, lifting))
    from cov consider "quad_contains (node_info a) p" | "quad_contains (node_info b) p"
      | "quad_contains (node_info c) p" | "quad_contains (node_info d) p" by blast
    then show ?thesis
      using "1.IH" [OF True s] ch by cases (auto simp: subdivide_uniform.simps [of n] True s)
  next
    case False
    then have "subdivide_uniform n = n" by (subst subdivide_uniform.simps) (rule if_not_P)
    then show ?thesis using "1.prems" by (cases n) (auto simp: is_leaf_def)
  qed
qed

text \<open>What the counter of a counted node is.\<close>

definition entities_in :: "quad_info \<Rightarrow> vec3 list \<Rightarrow> nat" where
  "entities_in i es = length (filter (\<lambda>e. quad_contains i (vec2_of (vx e) (vz e))) es)"

lemma entities_in_count [simp]: "entities_in (node_info (count_entities es' n)) es = entities_in (node_info n) es"
  by (simp add: entities_in_def)

lemma count_entities_count: "q_count (node_info (count_entities es n)) = int (entities_in (node_info n) es)"
proof -
  have "foldl (\<lambda>k e. if quad_contains i (vec2_of (vx e) (vz e)) then k + 1 else k) k es = k + int (entities_in i es)" for i k
    by (induction es arbitrary: k) (simp_all add: entities_in_def)
  from this [of "node_info n" 0] show ?thesis by (cases n) (simp_all add: count_entities_def Let_def)
qed

text \<open>A leaf of the dense tree is at the greatest depth or holds few entities, and there are at most so many.\<close>

lemma dense_leaves:
  assumes "is_leaf n" and "q_count (node_info n) = int (entities_in (node_info n) es)"
    and "q_depth (node_info n) \<le> q_max_depth (node_info n)"
  shows "(\<forall>i\<in>set (quad_leaves (subdivide_dense es m n)). q_depth i \<le> q_max_depth (node_info n) \<and>
      (q_depth i = q_max_depth (node_info n) \<or> int (entities_in i es) \<le> m)) \<and>
    length (quad_leaves (subdivide_dense es m n)) \<le> 4 ^ nat (q_max_depth (node_info n) - q_depth (node_info n))"
  using assms
proof (induction es m n rule: subdivide_dense.induct)
  case (1 es m n)
  show ?case
  proof (cases "q_depth (node_info n) < q_max_depth (node_info n) \<and> m < q_count (node_info n)")
    case True
    then obtain a b c d where s: "subdivide n = Inner_Node (node_info n) a b c d"
      and ch: "\<forall>x\<in>{a, b, c, d}. is_leaf x \<and> q_depth (node_info x) = q_depth (node_info n) + 1 \<and>
        q_max_depth (node_info x) = q_max_depth (node_info n)"
      using subdivide_leaf [of n] "1.prems" by (metis (no_types, lifting))
    let ?k = "nat (q_max_depth (node_info n) - q_depth (node_info n) - 1)"
    have k: "nat (q_max_depth (node_info n) - q_depth (node_info n)) = Suc ?k" using conjunct1 [OF True] by simp
    have tree: "subdivide_dense es m n = Inner_Node (node_info n) (subdivide_dense es m (count_entities es a))
        (subdivide_dense es m (count_entities es b)) (subdivide_dense es m (count_entities es c)) (subdivide_dense es m (count_entities es d))"
      by (subst subdivide_dense.simps) (simp add: True s)
    show ?thesis
      using "1.IH" [OF True s] ch True unfolding tree k by (simp add: info_count count_entities_count diff_diff_eq) (auto simp: algebra_simps)
  next
    case False
    then have "subdivide_dense es m n = n" by (subst subdivide_dense.simps) (rule if_not_P)
    then show ?thesis using "1.prems" False by (cases n) (auto simp: is_leaf_def)
  qed
qed

lemma uniform_leaves:
  assumes "is_leaf n" and "q_depth (node_info n) \<le> q_max_depth (node_info n)"
  shows "length (quad_leaves (subdivide_uniform n)) = 4 ^ nat (q_max_depth (node_info n) - q_depth (node_info n))"
  using assms
proof (induction n rule: subdivide_uniform.induct)
  case (1 n)
  show ?case
  proof (cases "q_depth (node_info n) < q_max_depth (node_info n)")
    case True
    then obtain a b c d where s: "subdivide n = Inner_Node (node_info n) a b c d"
      and ch: "\<forall>x\<in>{a, b, c, d}. is_leaf x \<and> q_depth (node_info x) = q_depth (node_info n) + 1 \<and>
        q_max_depth (node_info x) = q_max_depth (node_info n)"
      using subdivide_leaf [of n] "1.prems" by (metis (no_types, lifting))
    let ?k = "nat (q_max_depth (node_info n) - q_depth (node_info n) - 1)"
    have k: "nat (q_max_depth (node_info n) - q_depth (node_info n)) = Suc ?k" using True by simp
    have tree: "subdivide_uniform n = Inner_Node (node_info n) (subdivide_uniform a) (subdivide_uniform b)
        (subdivide_uniform c) (subdivide_uniform d)"
      by (subst subdivide_uniform.simps) (simp add: True s)
    show ?thesis using "1.IH" [OF True s] ch True unfolding tree k by (simp add: diff_diff_eq)
  next
    case False
    then have "subdivide_uniform n = n" by (subst subdivide_uniform.simps) (rule if_not_P)
    then show ?thesis using "1.prems" False by (cases n) (auto simp: is_leaf_def)
  qed
qed

lemma unit_root_facts:
  "is_leaf (unit_root md)" "quad_plain (node_info (unit_root md))" "q_depth (node_info (unit_root md)) = 0"
  "q_max_depth (node_info (unit_root md)) = md"
  "quad_contains (node_info (unit_root md)) p \<longleftrightarrow> is_within_bounds p 0 f_one"
  by (auto simp: unit_root_def quad_new_def is_leaf_def quad_plain_def f_nonneg_def f_one_def quad_contains_def
      is_within_bounds_def f_eval)

lemma rectangle_inj: "rectangle_shape lo hi = rectangle_shape lo' hi' \<Longrightarrow> lo = lo' \<and> hi = hi'"
  by (cases lo; cases hi; cases lo'; cases hi') (simp add: rectangle_shape_def Let_def)

section \<open>The cells of the cache\<close>

lemma clamp_unit:
  "f_nonneg (glm_max 0 (glm_min f_one x))" "f_mag (glm_max 0 (glm_min f_one x)) \<le> f_mag f_one"
proof -
  have c: "f_nonneg f_one" "f_nonneg 0" "f_mag 0 = 0" "f_key 0 = 0" "f_lt 0 f_one" "f_key f_one = int (f_mag f_one)"
    by (simp_all add: f_nonneg_def f_one_def f_eval)
  have "f_nonneg x \<and> f_mag x \<le> f_mag f_one" if "f_lt x f_one" "f_lt 0 x"
    using that c(4,6) by (auto simp: f_lt_def f_nonneg_def f_key_def split: if_splits)
  then show "f_nonneg (glm_max 0 (glm_min f_one x))" "f_mag (glm_max 0 (glm_min f_one x)) \<le> f_mag f_one"
    using c by (simp_all add: glm_max_def glm_min_def)
qed

lemma cell_coordinate_defined: "\<exists>g. cell_coordinate 100 x = Inr g \<and> 0 \<le> g \<and> g < 100"
proof -
  let ?x = "glm_max 0 (glm_min f_one x)"
  have h: "f_of_int 100 = 0x42C80000" by (rule f_of_int_exact) (simp_all add: f_exact)
  have one: "f_mul f_one 0x42C80000 = 0x42C80000" by (rule f_mul_exact) (simp_all add: f_one_def f_exact)
  have "f_to_int 0x42C80000 = Inr 100" "\<not> f_sign 0x42C80000" "f_nonneg 0x42C80000" "f_mag 0x42C80000 < inf_mag"
    by (simp_all add: f_to_int_def f_nonneg_def f_eval)
  then have c: "f_nonneg f_one" "f_mag f_one < inf_mag" "f_nonneg (f_of_int 100)" "f_mag (f_of_int 100) < inf_mag"
      "f_to_int (f_mul f_one (f_of_int 100)) = Inr 100" "\<not> f_sign (f_mul f_one (f_of_int 100))"
    by (simp_all add: h one) (simp_all add: f_nonneg_def f_one_def f_eval)
  note mono = f_mul_mono [OF clamp_unit(1) c(1,3) clamp_unit(2) c(2,4), of x]
  obtain i where i: "f_to_int (f_mul ?x (f_of_int 100)) = Inr i" "0 \<le> i" "i \<le> 100"
    using f_to_int_bounded [OF mono(2,1) c(5,6)] by blast
  then show ?thesis by (simp add: cell_coordinate_def)
qed

lemma cell_coordinate_nonneg: "cell_coordinate n x = Inr g \<Longrightarrow> 0 \<le> g"
  by (auto simp: cell_coordinate_def bindE_def split: sum.splits)

lemma cell_range_nonneg: "cell_range n lo hi = Inr (a, b) \<Longrightarrow> 0 \<le> a"
  by (auto simp: cell_range_def bindE_def split: sum.splits)

lemma cell_key_inj:
  assumes "0 \<le> a" "0 \<le> b" "0 \<le> c" "0 \<le> d" and "cell_key a b = cell_key c d"
  shows "a = c \<and> b = d"
proof -
  have no: "44 \<notin> set (dec_of n)" for n by (rule dec_of_no) (simp add: is_digit_def)
  have "split_on 44 (cell_key a b) = split_on 44 (cell_key c d)" using assms(5) by simp
  then have "dec_of (nat a) = dec_of (nat c)" "dec_of (nat b) = dec_of (nat d)"
    using assms(1-4) no by (simp_all add: cell_key_def dec_of_int_def split_on_none)
  then have "nat a = nat c" "nat b = nat d" by (metis digits_val_dec)+
  then show ?thesis using assms(1-4) eq_nat_nat_iff by blast
qed

text \<open>Every entry of the index is for a cell whose center the shape of the partition contains.\<close>

definition center_of :: "shape_cache \<Rightarrow> bytes \<Rightarrow> int \<Rightarrow> int \<Rightarrow> bool" where
  "center_of c part gx gy \<longleftrightarrow> (\<exists>i. (part, i) \<in> set (sc_index c) \<and> i < length (sc_shapes c) \<and>
     shape_contains (sc_shapes c ! i) (cell_center (sc_grid c) gx gy))"

definition index_sound :: "shape_cache \<Rightarrow> (bytes \<Rightarrow> bytes option) \<Rightarrow> bool" where
  "index_sound c m \<longleftrightarrow> (\<forall>gx gy part. 0 \<le> gx \<longrightarrow> 0 \<le> gy \<longrightarrow> m (cell_key gx gy) = Some part \<longrightarrow> center_of c part gx gy)"

lemma index_cell_sound:
  assumes "index_sound c m" and "0 \<le> gx" "0 \<le> gy"
    and "(part, i) \<in> set (sc_index c)" "i < length (sc_shapes c)" "t \<in> set (sc_shapes c ! i)"
  shows "index_sound c (index_cell (sc_grid c) part t m (gx, gy))"
proof (cases "m (cell_key gx gy) = None \<and> (case t of (x, y, z) \<Rightarrow> point_in_triangle (cell_center (sc_grid c) gx gy) x y z)")
  case True
  have "center_of c part gx gy"
    using True assms(4-6) unfolding center_of_def shape_contains_def list_ex_iff by blast
  moreover have "index_cell (sc_grid c) part t m (gx, gy) = m(cell_key gx gy \<mapsto> part)"
    using True by (auto simp: index_cell_def Let_def split: prod.splits)
  moreover have "center_of c q x y" if "0 \<le> x" "0 \<le> y" "(m(cell_key gx gy \<mapsto> part)) (cell_key x y) = Some q" for x y q
  proof (cases "cell_key x y = cell_key gx gy")
    case True
    then show ?thesis using that cell_key_inj [OF that(1,2) assms(2,3)] \<open>center_of c part gx gy\<close> by simp
  next
    case False
    then show ?thesis using that assms(1) unfolding index_sound_def by simp
  qed
  ultimately show ?thesis unfolding index_sound_def by simp
next
  case False
  then have "index_cell (sc_grid c) part t m (gx, gy) = m" by (auto simp: index_cell_def Let_def split: prod.splits)
  then show ?thesis using assms(1) by simp
qed

lemma index_triangle_sound:
  assumes "index_sound c m" and "index_triangle (sc_grid c) part t m = Inr m'"
    and "(part, i) \<in> set (sc_index c)" "i < length (sc_shapes c)" "t \<in> set (sc_shapes c ! i)"
  shows "index_sound c m'"
proof -
  obtain x0 x1 y0 y1 where b: "triangle_bounds t = ((x0, x1), y0, y1)" by (metis prod.exhaust)
  obtain ax bx ay by' where r: "cell_range (sc_grid c) x0 x1 = Inr (ax, bx)" "cell_range (sc_grid c) y0 y1 = Inr (ay, by')"
    and m': "m' = foldl (index_cell (sc_grid c) part t) m (List.product [ax..bx - 1] [ay..by' - 1])"
    using assms(2) by (auto simp: index_triangle_def b bindE_def split: sum.splits)
  have "index_sound c (foldl (index_cell (sc_grid c) part t) m gs)" if "\<forall>(gx, gy)\<in>set gs. 0 \<le> gx \<and> 0 \<le> gy" for gs
    using that assms(1)
  proof (induction gs arbitrary: m)
    case (Cons g gs)
    obtain gx gy where g: "g = (gx, gy)" by (cases g)
    have "index_sound c (index_cell (sc_grid c) part t m (gx, gy))"
      by (rule index_cell_sound [OF _ _ _ assms(3-5)]) (use Cons.prems g in auto)
    then show ?case using Cons.IH Cons.prems(1) by (simp add: g)
  qed simp
  then show ?thesis using cell_range_nonneg [OF r(1)] cell_range_nonneg [OF r(2)] by (simp add: m')
qed

lemma index_shape_sound:
  assumes "index_sound c m" and "index_shape (sc_grid c) part ts m = Inr m'"
    and "(part, i) \<in> set (sc_index c)" "i < length (sc_shapes c)" "set ts \<subseteq> set (sc_shapes c ! i)"
  shows "index_sound c m'"
  using assms(1,2,5)
proof (induction ts arbitrary: m)
  case (Cons t ts)
  obtain m1 where 1: "index_triangle (sc_grid c) part t m = Inr m1" "index_shape (sc_grid c) part ts m1 = Inr m'"
    using Cons.prems(2) by (auto simp: bindE_def split: sum.splits)
  have "index_sound c m1" by (rule index_triangle_sound [OF Cons.prems(1) 1(1) assms(3,4)]) (use Cons.prems(3) in simp)
  then show ?case using Cons.IH [OF _ 1(2)] Cons.prems(3) by simp
qed simp

lemma index_partitions_sound:
  assumes "index_sound c m" and "index_partitions (sc_grid c) (sc_shapes c) ps m = Inr m'" and "set ps \<subseteq> set (sc_index c)"
  shows "index_sound c m'"
  using assms
proof (induction ps arbitrary: m)
  case (Cons q ps)
  obtain part i where q: "q = (part, i)" by (cases q)
  show ?case
  proof (cases "length (sc_shapes c) \<le> i")
    case True
    then show ?thesis using Cons q by simp
  next
    case False
    obtain m1 where 1: "index_shape (sc_grid c) part (sc_shapes c ! i) m = Inr m1" "index_partitions (sc_grid c) (sc_shapes c) ps m1 = Inr m'"
      using Cons.prems(2) False q by (auto simp: bindE_def split: sum.splits)
    have "index_sound c m1" by (rule index_shape_sound [OF Cons.prems(1) 1(1)]) (use Cons.prems(3) q False in auto)
    then show ?thesis using Cons.IH [OF _ 1(2)] Cons.prems(3) by simp
  qed
qed simp

section \<open>Properties\<close>

text \<open>C32: the shapes of the density quadtree cover the unit square: every point of it lies in the rectangle of
  one of them, for all entities, depths and thresholds.\<close>

theorem quadtree_covers:
  assumes "is_within_bounds p 0 f_one"
  shows "\<exists>i. rectangle_shape (q_min i) (q_max i) \<in> set (compute_quadtree_shape_density es md m) \<and> quad_contains i p"
proof (cases "es = []")
  case True
  then show ?thesis
    using uniform_covers [OF unit_root_facts(1,2)] assms
    by (force simp: compute_quadtree_shape_density_def compute_quadtree_shape_def collect_leaves unit_root_facts)
next
  case False
  have "\<exists>i\<in>set (quad_leaves (subdivide_dense es m (count_entities es (unit_root md)))). quad_contains i p"
    by (rule dense_covers) (use assms in \<open>simp_all add: unit_root_facts\<close>)
  then show ?thesis using False by (auto simp: compute_quadtree_shape_density_def collect_leaves)
qed

theorem quadtree_covers_witness:
  "\<exists>i. rectangle_shape (q_min i) (q_max i) \<in> set (compute_quadtree_shape_density [\<lparr> vx = 0, vy = 0, vz = 0 \<rparr>] 4 4) \<and>
     quad_contains i (vec2_of f_half 0)"
  by (rule quadtree_covers) (simp add: is_within_bounds_def f_half_def f_one_def f_le_def f_eval)

text \<open>The density quadtree balances: each of its shapes is a node at the greatest depth or holds no more
  entities than the threshold, and there are at most four to the power of the depth of them.\<close>

theorem quadtree_balances:
  assumes "es \<noteq> []" and "0 \<le> md"
  shows "(\<forall>s\<in>set (compute_quadtree_shape_density es md m). \<exists>i. s = rectangle_shape (q_min i) (q_max i) \<and>
      q_depth i \<le> md \<and> (q_depth i = md \<or> int (entities_in i es) \<le> m)) \<and>
    length (compute_quadtree_shape_density es md m) \<le> 4 ^ nat md"
proof -
  let ?r = "count_entities es (unit_root md)"
  have r: "is_leaf ?r" "q_count (node_info ?r) = int (entities_in (node_info ?r) es)" "q_depth (node_info ?r) \<le> q_max_depth (node_info ?r)"
    using assms(2) by (simp_all add: unit_root_facts count_entities_count info_count)
  show ?thesis
    using dense_leaves [OF r, of m] assms(1)
    by (auto simp: compute_quadtree_shape_density_def collect_leaves info_count unit_root_facts)
qed

theorem quadtree_balances_witness:
  "length (compute_quadtree_shape_density [\<lparr> vx = 0, vy = 0, vz = 0 \<rparr>] 4 4) \<le> 256"
  using quadtree_balances [of "[\<lparr> vx = 0, vy = 0, vz = 0 \<rparr>]" 4 4] by simp

text \<open>Without entities there are sixty-four shapes.\<close>

lemma uniform_quadtree_shapes: "length compute_quadtree_shape = 64"
  using uniform_leaves [OF unit_root_facts(1), of 3]
  by (simp add: compute_quadtree_shape_def collect_leaves unit_root_facts eval_nat_numeral)

text \<open>A lookup in the cache is defined for every point, NaN and infinite coordinates included: no
  conversion to an integer leaves the range.\<close>

theorem lookup_defined:
  assumes "sc_grid c = 100"
  shows "\<exists>r. fast_lookup c p = Inr r"
  using assms cell_coordinate_defined [of "p2x p"] cell_coordinate_defined [of "p2y p"]
  by (auto simp: fast_lookup_def)

theorem lookup_defined_witness:
  "\<exists>r. fast_lookup (cache_new \<lparr> sc_spatial_valid := True \<rparr>) (vec2_of f_nan (f_inf True)) = Inr r"
  by (rule lookup_defined) (simp add: cache_new_def)

text \<open>What a lookup finds in the index that was built is right for the cell of the point: the partition has
  a shape, and that shape contains the center of the cell.\<close>

theorem lookup_sound:
  assumes "build_spatial_index c = Inr c'" and "fast_lookup c' p = Inr (Some part)"
  shows "\<exists>gx gy i. cell_coordinate (sc_grid c) (p2x p) = Inr gx \<and> cell_coordinate (sc_grid c) (p2y p) = Inr gy \<and>
    (part, i) \<in> set (sc_index c) \<and> i < length (sc_shapes c) \<and>
    shape_contains (sc_shapes c ! i) (cell_center (sc_grid c) gx gy)"
proof -
  have valid: "sc_spatial_valid c'" using assms(2) by (auto simp: fast_lookup_def split: if_splits)
  then obtain m where m: "index_partitions (sc_grid c) (sc_shapes c) (sc_index c) Map.empty = Inr m"
      "c' = c \<lparr> sc_spatial := m, sc_spatial_valid := True \<rparr>"
    using assms(1) by (auto simp: build_spatial_index_def Let_def bindE_def split: if_splits sum.splits)
  have sound: "index_sound c m"
    by (rule index_partitions_sound [OF _ m(1)]) (simp_all add: index_sound_def)
  obtain gx gy where g: "cell_coordinate (sc_grid c) (p2x p) = Inr gx" "cell_coordinate (sc_grid c) (p2y p) = Inr gy"
      "m (cell_key gx gy) = Some part"
    using assms(2) m(2) by (auto simp: fast_lookup_def bindE_def split: sum.splits)
  then show ?thesis
    using sound cell_coordinate_nonneg by (fastforce simp: index_sound_def center_of_def)
qed

text \<open>One shape on a grid of a single cell.\<close>

definition demo_cache :: shape_cache where
  "demo_cache = cache_new \<lparr> sc_shapes := [[(vec2_of 0 0, vec2_of f_one 0, vec2_of 0 f_one)]],
     sc_index := [(str_bytes ''p'', 0)], sc_valid := True, sc_grid := 1 \<rparr>"

lemma unit_results:
  "f_of_int 0 = 0" "f_of_int 1 = f_one" "f_mul f_one f_one = f_one" "f_mul 0 f_one = 0" "f_mul f_one 0 = 0" "f_mul 0 0 = 0"
  "f_mul f_one f_half = f_half" "f_mul 0 f_half = 0" "f_div f_half f_one = f_half"
proof -
  show "f_of_int 1 = f_one" by (rule f_of_int_exact) (simp_all add: f_one_def f_exact)
  show "f_mul f_one f_one = f_one" "f_mul f_one f_half = f_half"
    by (rule f_mul_exact; simp add: f_one_def f_half_def f_exact)+
  show "f_mul 0 f_one = 0" "f_mul f_one 0 = 0" "f_mul 0 0 = 0" "f_mul 0 f_half = 0"
    by (rule f_mul_exact; simp add: f_one_def f_half_def f_exact)+
  show "f_div f_half f_one = f_half" by (rule f_div_exact) (simp_all add: f_one_def f_half_def f_exact)
  show "f_of_int 0 = 0" by (rule f_of_int_exact) (simp_all add: f_exact)
qed

lemma unit_sums:
  "f_sub f_one 0 = f_one" "f_sub 0 0 = 0" "f_sub f_half 0 = f_half" "f_add 0 f_one = f_one" "f_add f_one 0 = f_one"
  "f_add 0 0 = 0" "f_add 0 f_half = f_half" "f_add f_half 0 = f_half" "f_add f_half f_half = f_one"
proof -
  show "f_add 0 f_one = f_one" "f_add f_one 0 = f_one" "f_add 0 f_half = f_half" "f_add f_half 0 = f_half" "f_add f_half f_half = f_one"
    by (rule f_add_exact; simp add: f_one_def f_half_def f_exact)+
  show "f_sub f_one 0 = f_one" "f_sub f_half 0 = f_half"
    unfolding f_sub_def by (rule f_add_exact; simp add: f_one_def f_half_def f_neg_def f_exact)+
  show "f_sub 0 0 = 0" "f_add 0 0 = 0" by (simp_all add: f_eval)
qed

theorem lookup_sound_witness:
  "shape_contains [(vec2_of 0 0, vec2_of f_one 0, vec2_of 0 f_one)] (cell_center 1 0 0)"
proof -
  have int: "f_to_int 0 = Inr 0" "f_to_int f_one = Inr 1"
    by (simp_all add: f_to_int_def f_one_def f_is_nan_def f_is_inf_def f_exact)
  then have r: "cell_range 1 0 f_one = Inr (0, 1)" by (simp add: cell_range_def unit_results)
  have b: "triangle_bounds (vec2_of 0 0, vec2_of f_one 0, vec2_of 0 f_one) = ((0, f_one), 0, f_one)"
    by (simp add: triangle_bounds_def min3_def max3_def glm_min_def glm_max_def f_one_def f_eval)
  have c: "cell_center 1 0 0 = vec2_of f_half f_half" by (simp add: cell_center_def unit_results unit_sums)
  have t: "point_in_triangle (vec2_of f_half f_half) (vec2_of 0 0) (vec2_of f_one 0) (vec2_of 0 f_one)"
  proof -
    have "\<not> f_lt (f_abs f_one) f_epsilon" "f_le (f_neg f_epsilon) f_half" "f_le f_one (f_add f_one f_epsilon)"
      by (simp_all add: f_half_def f_one_def f_epsilon_def f_abs_def f_le_def f_eval)
    then show ?thesis by (simp add: point_in_triangle_def f_dot_def Let_def unit_results unit_sums)
  qed
  have d: "sc_shapes demo_cache = [[(vec2_of 0 0, vec2_of f_one 0, vec2_of 0 f_one)]]" "sc_index demo_cache = [(str_bytes ''p'', 0)]"
      "sc_grid demo_cache = 1" "sc_valid demo_cache"
    by (simp_all add: demo_cache_def cache_new_def)
  let ?m = "[cell_key 0 0 \<mapsto> str_bytes ''p'']"
  let ?c = "demo_cache \<lparr> sc_spatial := ?m, sc_spatial_valid := True \<rparr>"
  have "index_triangle 1 (str_bytes ''p'') (vec2_of 0 0, vec2_of f_one 0, vec2_of 0 f_one) Map.empty = Inr ?m"
    by (simp add: index_triangle_def b r index_cell_def c t Let_def)
  then have build: "build_spatial_index demo_cache = Inr ?c"
    by (simp add: build_spatial_index_def d Let_def)
  have z: "cell_coordinate 1 0 = Inr 0"
    by (simp add: cell_coordinate_def glm_max_def glm_min_def unit_results int f_lt_def)
  have "fast_lookup ?c (vec2_of 0 0) = Inr (Some (str_bytes ''p''))" by (simp add: fast_lookup_def d z)
  from lookup_sound [OF build this] show ?thesis by (simp add: d z)
qed

text \<open>The tolerance of the triangle test is above the determinant of a leaf of depth five, whose sides are a
  thirty-second: its shape contains no point at all.\<close>

lemma depth_five_leaf_empty:
  "\<not> shape_contains (rectangle_shape (vec2_of 0 0) (vec2_of 0x3D000000 0x3D000000)) p"
proof -
  let ?x = "0x3D000000 :: f32" and ?m = "0xBD000000 :: f32" and ?q = "0x3A800000 :: f32" and ?z = "0x80000000 :: f32"
  have sub: "f_sub ?x 0 = ?x" "f_sub 0 ?x = ?m" "f_sub 0x35800000 0 = 0x35800000"
    unfolding f_sub_def by (rule f_add_exact; simp add: f_neg_def f_exact)+
  have zero: "f_sub ?x ?x = 0" "f_add ?z ?z = ?z" by (simp_all add: f_eval)
  have mul: "f_mul 0 0 = 0" "f_mul ?x ?x = ?q" "f_mul ?m ?m = ?q" "f_mul 0 ?x = 0" "f_mul ?x 0 = 0" "f_mul ?m 0 = ?z"
      "f_mul 0 ?m = ?z" "f_mul ?z ?z = 0" "f_mul ?q ?q = 0x35800000"
    by (rule f_mul_exact; simp add: f_exact)+
  have add: "f_add 0 ?q = ?q" "f_add ?q 0 = ?q"
    by (rule f_add_exact; simp add: f_exact)+
  have small: "f_lt (f_abs 0x35800000) f_epsilon" by (simp add: f_epsilon_def f_abs_def f_eval)
  show ?thesis
    by (simp add: shape_contains_def rectangle_shape_def point_in_triangle_def f_dot_def Let_def sub zero mul add unit_sums small)
qed

end
