(* ===== verification/Text_Floats.thy ===== *)
theory Text_Floats
  imports Float_Order Text_Numbers
begin

text \<open>
  Floats as text: \<open>std::to_string\<close>, which prints six decimals of the exact value, and \<open>std::stof\<close>, which reads
  decimal and hexadecimal numbers with an exponent, infinities and NaN. What is printed of a multiple of a
  sixty-fourth is read back unchanged.
\<close>

section \<open>Printing\<close>

definition six_digits :: "nat \<Rightarrow> bytes" where
  "six_digits n = replicate (6 - length (dec_of n)) 48 @ dec_of n"

definition f_to_string :: "f32 \<Rightarrow> bytes" where
  "f_to_string x =
    (if f_sign x then [45] else []) @
    (if f_is_nan x then str_bytes ''nan'' else if f_is_inf x then str_bytes ''inf''
     else let n = div_even (mag_units (f_mag x) * 10 ^ 6) (2 ^ 149)
          in dec_of (n div 10 ^ 6) @ 46 # six_digits (n mod 10 ^ 6))"

section \<open>Reading\<close>

definition lower_byte :: "u8 \<Rightarrow> u8" where
  "lower_byte b = (if 65 \<le> b \<and> b \<le> 90 then b + 32 else b)"

definition is_hex_digit :: "u8 \<Rightarrow> bool" where
  "is_hex_digit b \<longleftrightarrow> is_digit b \<or> 97 \<le> lower_byte b \<and> lower_byte b \<le> 102"

definition digit_value :: "u8 \<Rightarrow> nat" where
  "digit_value b = (if is_digit b then unat (b - 48) else unat (lower_byte b - 87))"

text \<open>The digits before and after the point, and what follows them.\<close>

definition number_parts :: "(u8 \<Rightarrow> bool) \<Rightarrow> bytes \<Rightarrow> bytes \<times> bytes \<times> bytes" where
  "number_parts d s =
    (let r = dropWhile d s; point = (r \<noteq> [] \<and> hd r = 46)
     in (takeWhile d s, if point then takeWhile d (tl r) else [], if point then dropWhile d (tl r) else r))"

definition exponent :: "u8 \<Rightarrow> bytes \<Rightarrow> int" where
  "exponent mark s =
    (if s = [] \<or> lower_byte (hd s) \<noteq> mark then 0
     else let t = tl s; neg = (t \<noteq> [] \<and> hd t = 45);
              ds = takeWhile is_digit (if t \<noteq> [] \<and> (hd t = 45 \<or> hd t = 43) then tl t else t)
          in if ds = [] then 0 else if neg then - int (digits_val ds) else int (digits_val ds))"

definition number_value :: "nat \<Rightarrow> bytes \<Rightarrow> nat" where
  "number_value base ds = foldl (\<lambda>v d. base * v + digit_value d) 0 ds"

text \<open>The nearest float to a quotient. A result beyond the range is an error, and so is one that is tiny, also
  when rounded to twenty-four digits, and not exact.\<close>

definition float_of_quotient :: "bool \<Rightarrow> nat \<Rightarrow> nat \<Rightarrow> f32 res" where
  "float_of_quotient neg num den =
    (let m = round_mag (num * 2 ^ 149) den
     in if m = inf_mag \<or> (4 * num * 2 ^ 149 < (2 ^ 25 - 1) * den \<and> mag_units m * den \<noteq> num * 2 ^ 149)
        then Inl OutOfRange else Inr (f_make neg m))"

definition float_of_parts :: "bool \<Rightarrow> nat \<Rightarrow> nat \<Rightarrow> bytes \<times> bytes \<times> bytes \<Rightarrow> nat \<Rightarrow> u8 \<Rightarrow> f32 res" where
  "float_of_parts neg base scale = (\<lambda>(ds, fs, r) ebase mark.
    let e = exponent mark r; m = number_value base (ds @ fs)
    in float_of_quotient neg (m * ebase ^ nat e) (scale ^ length fs * ebase ^ nat (- e)))"

definition stof :: "bytes \<Rightarrow> f32 res" where
  "stof s =
    (let s = dropWhile is_space_byte s;
         neg = (s \<noteq> [] \<and> hd s = 45);
         s = (if s \<noteq> [] \<and> (hd s = 45 \<or> hd s = 43) then tl s else s);
         l = map lower_byte s;
         (hd', hf, hr) = number_parts is_hex_digit (drop 2 s);
         (dd, df, dr) = number_parts is_digit s
     in if prefix (str_bytes ''inf'') l then Inr (f_inf neg)
        else if prefix (str_bytes ''nan'') l then Inr f_nan
        else if prefix (str_bytes ''0x'') l \<and> hd' @ hf \<noteq> [] then float_of_parts neg 16 16 (hd', hf, hr) 2 112
        else if dd @ df = [] then Inl (RuntimeError ''invalid_argument'')
        else float_of_parts neg 10 10 (dd, df, dr) 10 101)"

section \<open>Printed and read back\<close>

text \<open>Finite values that are multiples of a sixty-fourth.\<close>

definition f_printable :: "f32 \<Rightarrow> bool" where
  "f_printable x \<longleftrightarrow> f_finite x \<and> 2 ^ 143 dvd mag_units (f_mag x)"

lemma six_digits_facts:
  assumes "n < 10 ^ 6"
  shows "length (six_digits n) = 6" "\<forall>b\<in>set (six_digits n). is_digit b" "digits_val (six_digits n) = n"
proof -
  have "length (dec_of n) \<le> 6" using dec_of_length [OF _ assms] by simp
  then show "length (six_digits n) = 6" by (simp add: six_digits_def)
  show "\<forall>b\<in>set (six_digits n). is_digit b"
    using dec_of_digits [of n] by (auto simp: six_digits_def list_all_iff is_digit_def)
  have "foldl (\<lambda>v d. 10 * v + unat (d - 48)) 0 (replicate k (48 :: u8)) = 0" for k by (induction k) simp_all
  then show "digits_val (six_digits n) = n"
    using digits_val_dec [of n] by (simp add: six_digits_def digits_val_def)
qed

lemma digits_val_append: "digits_val (a @ b) = digits_val a * 10 ^ length b + digits_val b"
proof -
  have "foldl (\<lambda>v d. 10 * v + unat (d - 48)) v b = v * 10 ^ length b + digits_val b" for v
  proof (induction b arbitrary: v)
    case (Cons d b)
    have "foldl (\<lambda>v d. 10 * v + unat (d - 48)) v (d # b) = (10 * v + unat (d - 48)) * 10 ^ length b + digits_val b"
      using Cons.IH [of "10 * v + unat (d - 48)"] by simp
    moreover have "digits_val (d # b) = unat (d - 48) * 10 ^ length b + digits_val b"
      using Cons.IH [of "unat (d - 48)"] unfolding digits_val_def by simp
    moreover have "10 * v * 10 ^ length b = v * 10 ^ length (d # b)" by simp
    ultimately show ?case by (simp only: add_mult_distrib add.assoc)
  qed (simp add: digits_val_def)
  from this [of "digits_val a"] show ?thesis unfolding digits_val_def foldl_append .
qed

lemma number_value_digits: "\<forall>b\<in>set ds. is_digit b \<Longrightarrow> number_value 10 ds = digits_val ds"
  by (induction ds rule: rev_induct) (simp_all add: number_value_def digits_val_def digit_value_def)

lemma float_of_exact:
  assumes "f_finite x" and "num * 2 ^ 149 = mag_units (f_mag x) * den" and "0 < den"
  shows "float_of_quotient (f_sign x) num den = Inr x"
proof -
  have "round_mag (num * 2 ^ 149) den = f_mag x"
    using round_mag_scale [OF assms(3), of "mag_units (f_mag x)" 1] round_units assms(1,2) by (simp add: f_finite_def)
  then show ?thesis using assms f_make_of [of x] by (simp add: float_of_quotient_def f_finite_def)
qed

lemma printable_text:
  assumes "f_printable x"
  obtains n where "f_to_string x = (if f_sign x then [45] else []) @ dec_of (n div 10 ^ 6) @ 46 # six_digits (n mod 10 ^ 6)"
    and "n * 2 ^ 149 = mag_units (f_mag x) * 10 ^ 6"
proof -
  obtain k where k: "mag_units (f_mag x) = 2 ^ 143 * k" using assms by (auto simp: f_printable_def)
  have e: "mag_units (f_mag x) * 10 ^ 6 = k * 15625 * 2 ^ 149" by (simp add: k)
  then have n: "div_even (mag_units (f_mag x) * 10 ^ 6) (2 ^ 149) = k * 15625" by (simp add: div_even_def)
  show ?thesis
    by (rule that [of "k * 15625"])
      (use assms f_finite_not [of x] n e in \<open>simp_all add: f_to_string_def Let_def f_printable_def\<close>)
qed

lemma printable_bytes:
  assumes "f_printable x"
  shows "set (f_to_string x) \<subseteq> {45, 46} \<union> {b. is_digit b}"
proof -
  obtain n where "f_to_string x = (if f_sign x then [45] else []) @ dec_of (n div 10 ^ 6) @ 46 # six_digits (n mod 10 ^ 6)"
    using printable_text [OF assms] by metis
  then show ?thesis
    using dec_of_digits [of "n div 10 ^ 6"] six_digits_facts(2) [of "n mod 10 ^ 6"] by (auto simp: list_all_iff)
qed

lemma stof_decimal:
  assumes "\<forall>b\<in>set ds. is_digit b" "\<forall>b\<in>set fs. is_digit b" "ds \<noteq> []"
  shows "stof ((if neg then [45] else []) @ ds @ 46 # fs) = float_of_quotient neg (digits_val (ds @ fs)) (10 ^ length fs)"
proof -
  obtain d t where ds: "ds = d # t" using assms(3) by (cases ds) auto
  have d: "is_digit d" "\<forall>b\<in>set t. is_digit b" using assms(1) ds by auto
  let ?s = "ds @ 46 # fs"
  have sign: "\<not> is_space_byte 45" by (simp add: is_space_byte_def)
  have strip: "dropWhile is_space_byte ((if neg then [45] else []) @ ?s) = (if neg then [45] else []) @ ?s"
    using digit_not [OF d(1)] sign by (simp add: ds)
  have val: "number_value 10 (d # t @ fs) = digits_val (d # t @ fs)"
    using number_value_digits [of "d # t @ fs"] d assms(2) by auto
  have low: "lower_byte b = b" if "is_digit b" for b
    using that unfolding lower_byte_def is_digit_def word_le_nat_alt by simp
  have point: "\<not> is_digit 46" by (simp add: is_digit_def)
  have parts: "number_parts is_digit ?s = (ds, fs, [])"
    using assms(1,2) point by (simp add: number_parts_def Let_def takeWhile_append2 dropWhile_append2)
  have not: "d \<noteq> 105" "d \<noteq> 110" "\<And>b. is_digit b \<Longrightarrow> b \<noteq> 120"
    using d(1) unfolding is_digit_def word_le_nat_alt by auto
  have "\<not> prefix (str_bytes ''inf'') (map lower_byte ?s)" "\<not> prefix (str_bytes ''nan'') (map lower_byte ?s)"
    using not(1,2) low [OF d(1)] by (simp_all add: ds str_bytes_def)
  moreover have "\<not> prefix (str_bytes ''0x'') (map lower_byte ?s)"
    using not(3) low d(2) by (cases t) (auto simp: ds str_bytes_def lower_byte_def)
  ultimately show ?thesis
    using assms digit_not [OF d(1)] parts
    by (simp add: stof_def Let_def strip ds del: append_assoc split: prod.split)
      (simp add: float_of_parts_def exponent_def val sign Let_def)
qed

theorem printed_float_read:
  assumes "f_printable x"
  shows "stof (f_to_string x) = Inr x"
proof -
  obtain n where n: "f_to_string x = (if f_sign x then [45] else []) @ dec_of (n div 10 ^ 6) @ 46 # six_digits (n mod 10 ^ 6)"
      "n * 2 ^ 149 = mag_units (f_mag x) * 10 ^ 6"
    using printable_text [OF assms] by metis
  have six: "length (six_digits (n mod 10 ^ 6)) = 6" "\<forall>b\<in>set (six_digits (n mod 10 ^ 6)). is_digit b"
      "digits_val (six_digits (n mod 10 ^ 6)) = n mod 10 ^ 6"
    using six_digits_facts [of "n mod 10 ^ 6"] by simp_all
  have "stof (f_to_string x) = float_of_quotient (f_sign x) (digits_val (dec_of (n div 10 ^ 6) @ six_digits (n mod 10 ^ 6))) (10 ^ 6)"
    using stof_decimal [of "dec_of (n div 10 ^ 6)" "six_digits (n mod 10 ^ 6)" "f_sign x"] dec_of_digits [of "n div 10 ^ 6"] six(1,2)
    by (simp add: n(1) list_all_iff)
  also have "digits_val (dec_of (n div 10 ^ 6) @ six_digits (n mod 10 ^ 6)) = n"
    unfolding digits_val_append six(1,3) by simp
  finally show ?thesis using float_of_exact [of x n "10 ^ 6"] n(2) assms by (simp add: f_printable_def)
qed

end
