(* ===== verification/Text_Search.thy ===== *)
theory Text_Search
  imports Text_Numbers
begin

text \<open>
  Searching a text in a text as \<open>std::string::find\<close> does: the first occurrence, and what later text changes.
\<close>

text \<open>\<open>std::string::find\<close> of a text.\<close>

fun find_text :: "bytes \<Rightarrow> bytes \<Rightarrow> nat option" where
  "find_text p s = (if prefix p s then Some 0 else case s of [] \<Rightarrow> None | c # t \<Rightarrow> map_option Suc (find_text p t))"

declare find_text.simps [simp del]

definition find_text_from :: "bytes \<Rightarrow> bytes \<Rightarrow> nat \<Rightarrow> nat option" where
  "find_text_from p s k = (if length s < k then None else map_option ((+) k) (find_text p (drop k s)))"

section \<open>Finding a text\<close>

lemma find_text_Nil: "p \<noteq> [] \<Longrightarrow> find_text p [] = None"
  by (subst find_text.simps) simp

lemma find_text_Cons:
  "find_text p (c # t) = (if prefix p (c # t) then Some 0 else map_option Suc (find_text p t))"
  by (subst find_text.simps) simp

lemma prefix_take: "prefix p s \<longleftrightarrow> take (length p) s = p"
  by (metis append_eq_conv_conj append_take_drop_id prefix_def)

text \<open>The first position where the text occurs.\<close>

lemma find_text_Some:
  assumes "p \<noteq> []"
  shows "find_text p s = Some k \<longleftrightarrow> prefix p (drop k s) \<and> (\<forall>j<k. \<not> prefix p (drop j s))"
proof (induction s arbitrary: k)
  case Nil
  then show ?case using assms by (simp add: find_text_Nil)
next
  case (Cons c t)
  show ?case
  proof (cases k)
    case 0
    then show ?thesis by (simp add: find_text_Cons)
  next
    case (Suc j)
    have "(\<forall>i<Suc j. \<not> prefix p (drop i (c # t))) \<longleftrightarrow> \<not> prefix p (c # t) \<and> (\<forall>i<j. \<not> prefix p (drop i t))"
      by (auto simp: less_Suc_eq_0_disj)
    then show ?thesis using Suc Cons.IH [of j] by (auto simp: find_text_Cons)
  qed
qed

lemma find_text_there:
  assumes "p \<noteq> []" and "prefix p (drop j s)"
  shows "\<exists>k\<le>j. find_text p s = Some k"
  using assms(2)
proof (induction s arbitrary: j)
  case Nil
  then show ?case using assms(1) by simp
next
  case (Cons c t)
  show ?case
  proof (cases "prefix p (c # t)")
    case False
    then obtain i where "j = Suc i" using Cons.prems by (cases j) auto
    then show ?thesis using Cons.IH [of i] Cons.prems False by (auto simp: find_text_Cons)
  qed (simp add: find_text_Cons)
qed

lemma find_text_fits:
  assumes "p \<noteq> []" and "find_text p s = Some k"
  shows "k + length p \<le> length s"
  using assms prefix_length_le [of p "drop k s"] by (cases p) (auto simp: find_text_Some)

lemma prefix_drop_append:
  "j + length p \<le> length a \<Longrightarrow> prefix p (drop j (a @ b)) \<longleftrightarrow> prefix p (drop j a)"
  by (simp add: prefix_take)

lemma find_text_append:
  assumes "p \<noteq> []" and "find_text p a = Some k"
  shows "find_text p (a @ b) = Some k"
proof -
  have k: "k + length p \<le> length a" by (rule find_text_fits [OF assms])
  then have "prefix p (drop j (a @ b)) \<longleftrightarrow> prefix p (drop j a)" if "j \<le> k" for j
    using that by (intro prefix_drop_append) simp
  then show ?thesis using assms by (auto simp: find_text_Some)
qed

lemma find_text_shorter:
  assumes "p \<noteq> []" and "find_text p (a @ b) = Some k" and "k + length p \<le> length a"
  shows "find_text p a = Some k"
proof -
  have "prefix p (drop j (a @ b)) \<longleftrightarrow> prefix p (drop j a)" if "j \<le> k" for j
    using that assms(3) by (intro prefix_drop_append) simp
  then show ?thesis using assms by (auto simp: find_text_Some)
qed

text \<open>How far the text has to be known to find the first occurrence.\<close>

lemma find_text_prefix:
  assumes "p \<noteq> []"
  shows "find_text p a =
    (case find_text p (a @ b) of None \<Rightarrow> None | Some k \<Rightarrow> if k + length p \<le> length a then Some k else None)"
proof (cases "find_text p a")
  case None
  then show ?thesis using find_text_shorter [OF assms, of a b] by (auto split: option.split)
next
  case (Some k)
  then show ?thesis using find_text_append [OF assms Some, of b] find_text_fits [OF assms Some] by simp
qed

end
