(* ===== verification/Byte_Safety.thy ===== *)
theory Byte_Safety
  imports Byte_Codec
begin

text \<open>
  What the reader does on arbitrary bytes, the input of a hostile peer: no method reads outside the
  buffer or leaves it (\<open>contained\<close>), and the one undefined behaviour it can reach is the shift of
  the varint loop, whose exact condition is proved.
\<close>

named_theorems contained_intros

section \<open>Containment\<close>

text \<open>
  From a reader inside its buffer the call either returns a reader inside the same buffer, not
  before the old position, or throws; it never reads outside the buffer.
\<close>

definition contained :: "(reader, 'a) stm \<Rightarrow> bool" where
  "contained m \<longleftrightarrow> (\<forall>r. reader_ok r \<longrightarrow>
    (case m r of
       Inl e \<Rightarrow> e \<noteq> UB Out_Of_Bounds
     | Inr (x, r') \<Rightarrow> reader_ok r' \<and> rdata r' = rdata r \<and> rpos r \<le> rpos r'))"

lemma containedI:
  assumes "\<And>r e. reader_ok r \<Longrightarrow> m r = Inl e \<Longrightarrow> e \<noteq> UB Out_Of_Bounds"
    and "\<And>r x r'. reader_ok r \<Longrightarrow> m r = Inr (x, r') \<Longrightarrow>
      reader_ok r' \<and> rdata r' = rdata r \<and> rpos r \<le> rpos r'"
  shows "contained m"
  unfolding contained_def
proof (intro allI impI)
  fix r assume r: "reader_ok r"
  show "case m r of Inl e \<Rightarrow> e \<noteq> UB Out_Of_Bounds
     | Inr (x, r') \<Rightarrow> reader_ok r' \<and> rdata r' = rdata r \<and> rpos r \<le> rpos r'"
    using assms(1) [OF r] assms(2) [OF r] by (cases "m r") auto
qed

lemma contained_Inl:
  "contained m \<Longrightarrow> reader_ok r \<Longrightarrow> m r = Inl e \<Longrightarrow> e \<noteq> UB Out_Of_Bounds"
  by (fastforce simp: contained_def)

lemma contained_Inr:
  assumes "contained m" and "reader_ok r" and "m r = Inr (x, r')"
  shows "reader_ok r'" and "rdata r' = rdata r" and "rpos r \<le> rpos r'"
  using assms by (fastforce simp: contained_def)+

lemma contained_return [contained_intros]: "contained (returnS x)"
  by (rule containedI) simp_all

lemma contained_throw [contained_intros]: "e \<noteq> UB Out_Of_Bounds \<Longrightarrow> contained (throwS e)"
  by (rule containedI) simp_all

lemma contained_bind [contained_intros]:
  assumes m: "contained m" and f: "\<And>x. contained (f x)"
  shows "contained (bindS m f)"
proof (rule containedI)
  fix r e assume "reader_ok r" "bindS m f r = Inl e"
  then show "e \<noteq> UB Out_Of_Bounds"
    unfolding bindS_eq_Inl using contained_Inl [OF m] contained_Inl [OF f] contained_Inr(1) [OF m]
    by blast
next
  fix r y r' assume r: "reader_ok r" "bindS m f r = Inr (y, r')"
  then obtain x t where t: "m r = Inr (x, t)" "f x t = Inr (y, r')"
    by (auto simp: bindS_eq_Inr)
  note 1 = contained_Inr [OF m r(1) t(1)]
  from 1 contained_Inr [OF f 1(1) t(2)]
  show "reader_ok r' \<and> rdata r' = rdata r \<and> rpos r \<le> rpos r'" by simp
qed

lemma contained_repeatS [contained_intros]: "contained m \<Longrightarrow> contained (repeatS n m)"
  by (induction n) (simp_all add: contained_intros del: returnS_apply)

lemma contained_if [contained_intros]:
  "contained m \<Longrightarrow> contained m' \<Longrightarrow> contained (\<lambda>r. if b r then m r else m' r)"
  unfolding contained_def by auto

lemma contained_option [contained_intros]:
  "contained m \<Longrightarrow> (\<And>x. contained (f x)) \<Longrightarrow> contained (case y of None \<Rightarrow> m | Some x \<Rightarrow> f x)"
  by (cases y) simp_all

section \<open>The methods\<close>

lemma size_add_reader: "reader_ok r \<Longrightarrow> k < 2 ^ 63 \<Longrightarrow> size_add (rpos r) k = rpos r + k"
  by (simp add: size_add_def reader_ok_def)

lemma br_read_be_loop_contained:
  "reader_ok r \<Longrightarrow> rpos r + n \<le> length (rdata r) \<Longrightarrow>
   \<exists>v'. br_read_be_loop n v r = Inr (v', br_skip n r)"
proof (induction n arbitrary: v r)
  case 0
  then show ?case by simp
next
  case (Suc n)
  then have "br_next_byte r = Inr (rdata r ! rpos r, br_skip 1 r)" and "reader_ok (br_skip 1 r)"
    by (simp_all add: br_next_byte_def br_skip_def reader_ok_def)
  then show ?case using Suc.IH [of "br_skip 1 r"] Suc.prems by simp
qed

lemma contained_read_be:
  assumes "LENGTH('a::len) < 2 ^ 63"
  shows "contained (br_read_be :: (reader, 'a word) stm)"
proof (rule containedI)
  fix r e assume "reader_ok r" "br_read_be r = (Inl e :: cpp_exn + ('a word \<times> reader))"
  then show "e \<noteq> UB Out_Of_Bounds"
    using br_read_be_loop_contained [of r "LENGTH('a) div 8" "0 :: 'a word"] assms
    by (auto simp: br_read_be_def size_add_reader split: if_splits)
next
  fix r r' and x :: "'a word" assume "reader_ok r" "br_read_be r = Inr (x, r')"
  then show "reader_ok r' \<and> rdata r' = rdata r \<and> rpos r \<le> rpos r'"
    using br_read_be_loop_contained [of r "LENGTH('a) div 8" "0 :: 'a word"] assms
    by (auto simp: br_read_be_def size_add_reader br_left_def split: if_splits
        intro!: reader_ok_skip)
qed

lemma contained_ints [contained_intros]:
  "contained br_u16" "contained br_u32" "contained br_u64"
  "contained br_i32" "contained br_i64" "contained br_f32" "contained br_f64"
  by (simp_all add: br_u16_def br_u32_def br_u64_def br_i32_def br_i64_def br_f32_def br_f64_def
      contained_read_be)

lemma br_u8_left:
  assumes "reader_ok r"
  shows "br_u8 r = (case br_left r of [] \<Rightarrow> Inl (ByteError ''read overflow'')
    | b # _ \<Rightarrow> Inr (b, br_skip 1 r))"
  using assms length_br_left [OF assms]
  by (auto simp: br_u8_def br_read_int8_def size_add_reader br_next_byte_left split: list.split)

lemma contained_br_u8 [contained_intros]: "contained br_u8"
  by (rule containedI) (auto simp: br_u8_left split: list.splits intro!: reader_ok_skip)

lemma contained_small [contained_intros]:
  "contained br_i8" "contained br_i16"
  unfolding br_i8_def br_i16_def by (rule contained_intros contained_read_be | simp)+

lemma contained_glm [contained_intros]:
  "contained br_vec2" "contained br_vec3" "contained br_vec4" "contained br_ivec2"
  "contained br_ivec3" "contained br_quat" "contained br_mat4"
  unfolding br_vec2_def br_vec3_def br_vec4_def br_ivec2_def br_ivec3_def br_quat_def br_mat4_def
  by (rule contained_intros)+

lemma br_take_contained:
  assumes "reader_ok r" and "k \<le> length (br_left r)"
  shows "bindS (br_slice k) (\<lambda>bs. bindS (br_advance k) (\<lambda>_. returnS bs)) r =
    Inr (take k (br_left r), br_skip k r)"
  using assms by (intro br_take_ok) (auto simp: take_is_prefix)

lemma contained_read [contained_intros]: "k < 2 ^ 63 \<Longrightarrow> contained (br_read k)"
  by (rule containedI)
     (auto simp: br_read_def size_add_reader br_take_contained length_br_left br_left_def
        split: if_splits intro!: reader_ok_skip)

lemma contained_counted [contained_intros]: "contained (br_counted msg len)"
  by (rule containedI)
     (auto simp: br_counted_def br_remaining_ok br_take_contained split: if_splits
        intro!: reader_ok_skip)

lemma contained_var_loop: "contained (br_var_u32_loop v s)"
proof (induction "40 - s" arbitrary: v s rule: less_induct)
  case less
  have "br_var_u32_loop v s = bindS br_u8 (\<lambda>b.
      if s \<ge> 32 then throwS (UB Shift_Range)
      else if b AND 0x80 = 0 then returnS (v OR push_bit s (ucast (b AND 0x7F)))
      else if s + 7 > 35 then throwS (ByteError ''varint overflow'')
      else br_var_u32_loop (v OR push_bit s (ucast (b AND 0x7F))) (s + 7))"
    by (rule ext, subst br_var_u32_loop.simps)
       (auto simp: Let_def intro!: bindS_cong)
  moreover have "contained \<dots>"
    using less by (intro contained_bind contained_br_u8) (auto intro!: contained_intros)
  ultimately show ?case by simp
qed

lemma contained_var_u32 [contained_intros]: "contained br_var_u32"
  by (simp add: br_var_u32_def contained_var_loop)

lemma contained_strings [contained_intros]:
  "contained br_var_i32" "contained br_str" "contained br_blob"
  unfolding br_var_i32_def br_str_def br_blob_def by (rule contained_intros)+

lemma contained_uuid [contained_intros]: "contained br_uuid"
proof -
  have "br_uuid = (\<lambda>r. if br_remaining r < 16 then throwS (ByteError ''UUID overflow'') r
      else br_read 16 r)"
    by (rule ext) (simp add: br_uuid_def)
  moreover have "contained \<dots>"
    by (rule contained_if, rule contained_throw, simp, rule contained_read, simp)
  ultimately show ?thesis by simp
qed

lemma contained_next_tlv [contained_intros]: "contained br_next_tlv"
proof -
  have "br_next_tlv = (\<lambda>r. if br_remaining r = 0 then returnS None r
     else bindS br_u16 (\<lambda>tag. bindS br_var_u32 (\<lambda>len. bindS (br_counted ''TLV overflow'' len)
            (\<lambda>value. returnS (Some (tag, value))))) r)"
    by (rule ext) (simp add: br_next_tlv_def)
  moreover have "contained \<dots>"
    by (rule contained_intros)+
  ultimately show ?thesis by simp
qed

section \<open>The varint loop\<close>

lemma var_loop_ub:
  "reader_ok r \<Longrightarrow> k \<le> 5 \<Longrightarrow>
   br_var_u32_loop v (35 - 7 * k) r = Inl (UB Shift_Range) \<longleftrightarrow>
   k < length (br_left r) \<and> (\<forall>b \<in> set (take k (br_left r)). bit b 7)"
proof (induction k arbitrary: v r)
  case 0
  then show ?case
    by (subst br_var_u32_loop.simps) (auto simp: br_u8_left bindS_def split: list.split)
next
  case (Suc k)
  show ?case
  proof (cases "br_left r")
    case Nil
    with Suc.prems show ?thesis
      by (subst br_var_u32_loop.simps) (simp add: br_u8_left bindS_def)
  next
    case (Cons b bs)
    let ?v = "v OR push_bit (28 - 7 * k) (ucast (b AND 0x7F))"
    have "reader_ok (br_skip 1 r)" "br_left (br_skip 1 r) = bs"
      using Cons Suc.prems by (auto intro: reader_ok_skip)
    note IH = Suc.IH [OF this(1), unfolded this(2), of ?v]
    have s: "35 - 7 * Suc k = 28 - 7 * k" "28 - 7 * k + 7 = 35 - 7 * k" "\<not> 32 \<le> 28 - 7 * k"
      "\<not> 35 < 35 - 7 * k"
      using Suc.prems by auto
    have "br_var_u32_loop v (35 - 7 * Suc k) r =
      (if b AND 0x80 = 0 then Inr (?v, br_skip 1 r)
       else br_var_u32_loop ?v (35 - 7 * k) (br_skip 1 r))"
      by (subst br_var_u32_loop.simps) (use s in \<open>simp add: br_u8_left [OF Suc.prems(1)] Cons Let_def\<close>)
    then show ?thesis using IH Suc.prems Cons by (auto simp: and_80)
  qed
qed

text \<open>The guard of the loop is dead: the sixth byte is undefined before it can be reached.\<close>

lemma var_loop_no_overflow:
  "br_var_u32_loop v s r \<noteq> Inl (ByteError ''varint overflow'')" if "7 dvd s" "reader_ok r"
  using that
proof (induction "40 - s" arbitrary: v s r rule: less_induct)
  case less
  show ?case
  proof (cases "br_left r")
    case Nil
    with less.prems show ?thesis
      by (subst br_var_u32_loop.simps) (simp add: br_u8_left bindS_def)
  next
    case (Cons b bs)
    have "reader_ok (br_skip 1 r)" using Cons less.prems by (auto intro: reader_ok_skip)
    moreover from less.prems have "s < 32 \<Longrightarrow> s + 7 \<le> 35" by (auto simp: dvd_def)
    ultimately show ?thesis
      using less.hyps [of "s + 7"] less.prems Cons
      by (subst br_var_u32_loop.simps) (auto simp: br_u8_left Let_def)
  qed
qed

lemma br_var_u32_ub:
  assumes "reader_ok r"
  shows "br_var_u32 r = Inl (UB Shift_Range) \<longleftrightarrow>
    5 < length (br_left r) \<and> (\<forall>b \<in> set (take 5 (br_left r)). bit b 7)"
  using var_loop_ub [OF assms, of 5 0] by (simp add: br_var_u32_def)

section \<open>Properties\<close>

text \<open>On any bytes whatever, no method of the reader accesses memory outside its buffer, and
  none moves the position backwards or beyond the end of the buffer.\<close>

theorem reader_stays_inside:
  "contained br_u8 \<and> contained br_u16 \<and> contained br_u32 \<and> contained br_u64 \<and> contained br_f64 \<and>
   contained br_i8 \<and> contained br_i16 \<and> contained br_vec3 \<and> contained br_quat \<and>
   contained br_mat4 \<and> contained br_var_u32 \<and> contained br_var_i32 \<and> contained br_str \<and>
   contained br_blob \<and> contained br_uuid \<and> contained br_next_tlv"
  by (intro conjI) (rule contained_intros)+

text \<open>Reading a varint is undefined behaviour (a 32-bit value shifted by 35) exactly when at
  least six bytes are left and the first five have their continuation bit set; the overflow guard
  of the loop never fires, because the undefined shift comes before it.\<close>

theorem varint_undefined_exactly:
  assumes "reader_ok r"
  shows "(br_var_u32 r = Inl (UB Shift_Range) \<longleftrightarrow>
      5 < length (br_left r) \<and> (\<forall>b \<in> set (take 5 (br_left r)). bit b 7)) \<and>
    br_var_u32 r \<noteq> Inl (ByteError ''varint overflow'')"
  using br_var_u32_ub [OF assms] var_loop_no_overflow [of 0 r 0] assms by (simp add: br_var_u32_def)

theorem varint_undefined_exactly_witness:
  "br_var_u32 (br_new [0x80, 0x80, 0x80, 0x80, 0x80, 0]) = Inl (UB Shift_Range)"
  using varint_undefined_exactly [of "br_new [0x80, 0x80, 0x80, 0x80, 0x80, 0]"]
  by (simp add: reader_ok_def br_new_def br_left_def bit_80)

end
