(* ===== verification/Network_Identity.thy ===== *)
theory Network_Identity
  imports Byte_Safety
begin

text \<open>
  Identities of the nodes (\<open>Network/NetworkIdentity\<close>), the string helper they use
  (\<open>Global/Misc/String_utils.hpp\<close>), addresses (\<open>Network/IPAddress\<close>), connections and their telemetry
  records (\<open>Network/Connection\<close>, \<open>Network/ConnectionTelemetry.hpp\<close>) and clients
  (\<open>Client/Client.hpp\<close>). The UUID printer of boost and the address type of the socket library are
  parameters.
\<close>

section \<open>Strings\<close>

definition is_space :: "char \<Rightarrow> bool" where
  "is_space c \<longleftrightarrow> (of_char c :: nat) = 32 \<or> (9 \<le> (of_char c :: nat) \<and> (of_char c :: nat) \<le> 13)"

definition nuke_keep :: "char \<Rightarrow> bool" where
  "nuke_keep c \<longleftrightarrow> \<not> (of_char c < (32 :: nat) \<and> c \<noteq> CHR 0x0A \<and> c \<noteq> CHR 0x0D \<and> c \<noteq> CHR 0x09)"

definition nuke_string :: "string \<Rightarrow> string" where
  "nuke_string input =
    (let out = filter nuke_keep input
     in rev (dropWhile is_space (rev (dropWhile is_space out))))"

section \<open>Identities\<close>

text \<open>The enumerators of \<open>NetworkIdentityType\<close>; the type holds any 32-bit value.\<close>

definition nt_invalid :: u32 where "nt_invalid = 0"
definition nt_shard :: u32 where "nt_shard = 1"
definition nt_watchdog :: u32 where "nt_watchdog = 2"
definition nt_cartograph :: u32 where "nt_cartograph = 3"
definition nt_game_client :: u32 where "nt_game_client = 4"
definition nt_proxy :: u32 where "nt_proxy = 6"
definition nt_atlasnet_initial :: u32 where "nt_atlasnet_initial = 7"

lemmas nt_defs = nt_invalid_def nt_shard_def nt_watchdog_def nt_cartograph_def nt_game_client_def
  nt_proxy_def nt_atlasnet_initial_def

text \<open>\<open>enum_to_string\<close> of the described enumeration, with the default for other values.\<close>

definition nt_name :: "u32 \<Rightarrow> string" where
  "nt_name t =
    (if t = nt_invalid then ''eInvalid'' else if t = nt_shard then ''eShard''
     else if t = nt_watchdog then ''eWatchDog'' else if t = nt_cartograph then ''eCartograph''
     else if t = nt_game_client then ''eGameClient'' else if t = nt_proxy then ''eProxy''
     else if t = nt_atlasnet_initial then ''eAtlasNetInitial'' else ''UnknownUnknownType?'')"

record network_identity =
  nid_type :: u32
  nid_id :: bytes

definition nil_uuid :: bytes where
  "nil_uuid = replicate 16 0"

definition uuid_is_nil :: "bytes \<Rightarrow> bool" where
  "uuid_is_nil u = list_all (\<lambda>b. b = 0) u"

definition nid_new :: network_identity where
  "nid_new = \<lparr> nid_type = nt_invalid, nid_id = nil_uuid \<rparr>"

definition make_id_watchdog :: network_identity where
  "make_id_watchdog = \<lparr> nid_type = nt_watchdog, nid_id = nil_uuid \<rparr>"

definition make_id_shard :: "bytes \<Rightarrow> network_identity" where
  "make_id_shard uid = \<lparr> nid_type = nt_shard, nid_id = uid \<rparr>"

definition make_id_game_client :: "bytes \<Rightarrow> network_identity" where
  "make_id_game_client uid = \<lparr> nid_type = nt_game_client, nid_id = uid \<rparr>"

definition make_id_cartograph :: network_identity where
  "make_id_cartograph = \<lparr> nid_type = nt_cartograph, nid_id = nil_uuid \<rparr>"

definition nid_to_string :: "(bytes \<Rightarrow> string) \<Rightarrow> network_identity \<Rightarrow> string" where
  "nid_to_string uuid_str n =
    nuke_string (nt_name (nid_type n) @
      (if \<not> uuid_is_nil (nid_id n) then '' '' @ uuid_str (nid_id n) else []))"

definition nid_eq :: "(bytes \<Rightarrow> string) \<Rightarrow> network_identity \<Rightarrow> network_identity \<Rightarrow> bool" where
  "nid_eq uuid_str a b \<longleftrightarrow> nid_to_string uuid_str a = nid_to_string uuid_str b"

lemma nid_eq_refl [simp]: "nid_eq us a a"
  by (simp add: nid_eq_def)

definition nid_less :: "(bytes \<Rightarrow> string) \<Rightarrow> network_identity \<Rightarrow> network_identity \<Rightarrow> bool" where
  "nid_less uuid_str a b \<longleftrightarrow>
    ord_class.lexordp (map of_char (nid_to_string uuid_str a) :: nat list)
      (map of_char (nid_to_string uuid_str b))"

definition nid_is_internal :: "network_identity \<Rightarrow> bool" where
  "nid_is_internal n \<longleftrightarrow> nid_type n \<noteq> nt_game_client"

definition nid_ser :: "network_identity \<Rightarrow> writer \<Rightarrow> writer" where
  "nid_ser n w = bw_uuid (nid_id n) (bw_write_scalar (nid_type n) w)"

definition nid_des :: "(reader, network_identity) stm" where
  "nid_des = bindS br_read_scalar (\<lambda>t. bindS br_uuid (\<lambda>i. returnS \<lparr> nid_type = t, nid_id = i \<rparr>))"

text \<open>The hash of an identity; the hash functions of the standard library are parameters.\<close>

definition nid_hash :: "(u32 \<Rightarrow> u64) \<Rightarrow> (bytes \<Rightarrow> u64) \<Rightarrow> network_identity \<Rightarrow> u64" where
  "nid_hash hash_int hash_str n =
    (let h1 = hash_int (nid_type n); h2 = hash_str (nid_id n)
     in h1 XOR (h2 + 0x9e3779b97f4a7c15 + push_bit 6 h1 + drop_bit 2 h1))"

section \<open>Addresses\<close>

text \<open>The operations of \<open>SteamNetworkingIPAddr\<close> the code uses.\<close>

record 'a steam_ops =
  sa_clear :: 'a
  sa_is_ipv4 :: "'a \<Rightarrow> bool"
  sa_get_ipv4 :: "'a \<Rightarrow> u32"
  sa_port :: "'a \<Rightarrow> u16"
  sa_set_ipv4 :: "u32 \<Rightarrow> u16 \<Rightarrow> 'a"
  sa_is_localhost :: "'a \<Rightarrow> bool"
  sa_to_string :: "'a \<Rightarrow> bool \<Rightarrow> string"
  sa_parse :: "string \<Rightarrow> 'a \<Rightarrow> 'a"

definition ip_set_ipv4 :: "'a steam_ops \<Rightarrow> u8 \<Rightarrow> u8 \<Rightarrow> u8 \<Rightarrow> u8 \<Rightarrow> u16 \<Rightarrow> 'a" where
  "ip_set_ipv4 S a b c d port =
    sa_set_ipv4 S (push_bit 24 (ucast a) OR push_bit 16 (ucast b) OR push_bit 8 (ucast c) OR ucast d) port"

definition ip_set_localhost :: "'a steam_ops \<Rightarrow> u16 \<Rightarrow> 'a res" where
  "ip_set_localhost S port =
    (let ip = ip_set_ipv4 S 127 0 0 1 port
     in if sa_is_localhost S ip then Inr ip else Inl (AssertFail ''SetLocalHost''))"

definition ip_get_ipv4 :: "'a steam_ops \<Rightarrow> 'a \<Rightarrow> (u8 \<times> u8 \<times> u8 \<times> u8) \<times> u16" where
  "ip_get_ipv4 S ip =
    (let v = sa_get_ipv4 S ip
     in ((ucast (drop_bit 24 v AND 0xFF), ucast (drop_bit 16 v AND 0xFF),
          ucast (drop_bit 8 v AND 0xFF), ucast (v AND 0xFF)), sa_port S ip))"

definition ip_ser :: "'a steam_ops \<Rightarrow> 'a \<Rightarrow> writer \<Rightarrow> writer res" where
  "ip_ser S ip w =
    (let isIPv4 = sa_is_ipv4 S ip;
         w = bw_u16 (sa_port S ip) (bw_u8 (if isIPv4 then 1 else 0) w)
     in if isIPv4 then Inr (bw_u32 (sa_get_ipv4 S ip) w) else Inl (AssertFail ''not implemented''))"

definition ip_des :: "'a steam_ops \<Rightarrow> (reader, 'a) stm" where
  "ip_des S =
    bindS br_u8 (\<lambda>v4. bindS br_u16 (\<lambda>port.
      if v4 \<noteq> 0 then bindS br_u32 (\<lambda>ip. returnS (sa_set_ipv4 S ip port))
      else throwS (AssertFail ''not implemented'')))"

text \<open>\<open>ToString\<close> yields the whole buffer the library printed into, its unused zero bytes included.\<close>

definition ip_to_string :: "'a steam_ops \<Rightarrow> 'a \<Rightarrow> bool \<Rightarrow> string" where
  "ip_to_string S ip include_port = sa_to_string S ip include_port"

definition ip_parse :: "'a steam_ops \<Rightarrow> string \<Rightarrow> 'a \<Rightarrow> 'a" where
  "ip_parse S s ip = sa_parse S s ip"

definition ip_new :: "'a steam_ops \<Rightarrow> 'a" where
  "ip_new S = sa_clear S"

section \<open>Clients\<close>

record 'a client =
  cl_ip :: 'a
  cl_id :: bytes

text \<open>\<open>MakeNewClient\<close> takes a fresh UUID from the generator and ignores the one it is passed.\<close>

definition make_new_client :: "bytes \<Rightarrow> bytes \<Rightarrow> 'a \<Rightarrow> 'a client" where
  "make_new_client gen uid ip = \<lparr> cl_ip = ip, cl_id = gen \<rparr>"

definition client_ser :: "'a steam_ops \<Rightarrow> 'a client \<Rightarrow> writer \<Rightarrow> writer res" where
  "client_ser S c w = bindE (ip_ser S (cl_ip c) w) (\<lambda>w. Inr (bw_uuid (cl_id c) w))"

definition client_des :: "'a steam_ops \<Rightarrow> (reader, 'a client) stm" where
  "client_des S = bindS (ip_des S) (\<lambda>ip. bindS br_uuid (\<lambda>i. returnS \<lparr> cl_ip = ip, cl_id = i \<rparr>))"

end
