(* ===== verification/Redis_Store.thy ===== *)
theory Redis_Store
  imports Network_Identity "HOL-Library.AList"
begin

text \<open>
  The connection to the internal database (\<open>Database/Redis/RedisConnection\<close>, \<open>InternalDB\<close>). The Redis
  server behind the client library is not part of the program: the commands are the fields of a
  record, the type \<open>'db\<close> of its contents is abstract, and the locale \<open>redis\<close> states what the
  documentation of the commands promises about the hashes and the sets. The in-memory store at the
  end satisfies these laws.
\<close>

section \<open>Commands\<close>

text \<open>Keys are strings of the program, fields, members and values are byte strings.\<close>

record 'db redis_ops =
  op_hset :: "string \<Rightarrow> bytes \<Rightarrow> bytes \<Rightarrow> 'db \<Rightarrow> int \<times> 'db"
  op_hget :: "string \<Rightarrow> bytes \<Rightarrow> 'db \<Rightarrow> bytes option"
  op_hexists :: "string \<Rightarrow> bytes \<Rightarrow> 'db \<Rightarrow> bool"
  op_hdel :: "string \<Rightarrow> bytes list \<Rightarrow> 'db \<Rightarrow> int \<times> 'db"
  op_hlen :: "string \<Rightarrow> 'db \<Rightarrow> int"
  op_hgetall :: "string \<Rightarrow> 'db \<Rightarrow> (bytes \<times> bytes) list"
  op_del :: "string \<Rightarrow> 'db \<Rightarrow> int \<times> 'db"
  op_exists :: "string \<Rightarrow> 'db \<Rightarrow> int"
  op_sadd :: "string \<Rightarrow> bytes list \<Rightarrow> 'db \<Rightarrow> int \<times> 'db"
  op_srem :: "string \<Rightarrow> bytes list \<Rightarrow> 'db \<Rightarrow> int \<times> 'db"
  op_sismember :: "string \<Rightarrow> bytes \<Rightarrow> 'db \<Rightarrow> bool"
  op_scard :: "string \<Rightarrow> 'db \<Rightarrow> int"
  op_smembers :: "string \<Rightarrow> 'db \<Rightarrow> bytes list"
  op_get :: "string \<Rightarrow> 'db \<Rightarrow> bytes option"
  op_set :: "string \<Rightarrow> bytes \<Rightarrow> 'db \<Rightarrow> bool \<times> 'db"
  op_expire :: "string \<Rightarrow> int \<Rightarrow> 'db \<Rightarrow> bool \<times> 'db"
  op_ttl :: "string \<Rightarrow> 'db \<Rightarrow> int"
  op_publish :: "string \<Rightarrow> bytes \<Rightarrow> 'db \<Rightarrow> int \<times> 'db"

text \<open>The connection: a flag and a handle for each of the two deployments.\<close>

record 'db redis_connection =
  is_cluster :: bool
  rc_handle :: "'db redis_ops"
  rc_handle_cluster :: "'db redis_ops"

definition with_sync :: "'db redis_connection \<Rightarrow> 'db redis_ops" where
  "with_sync C = (if is_cluster C then rc_handle_cluster C else rc_handle C)"

definition db_hset :: "'db redis_connection \<Rightarrow> string \<Rightarrow> bytes \<Rightarrow> bytes \<Rightarrow> 'db \<Rightarrow> int \<times> 'db" where
  "db_hset C key field value = op_hset (with_sync C) key field value"

definition db_hget :: "'db redis_connection \<Rightarrow> string \<Rightarrow> bytes \<Rightarrow> 'db \<Rightarrow> bytes option" where
  "db_hget C key field = op_hget (with_sync C) key field"

definition db_hexists :: "'db redis_connection \<Rightarrow> string \<Rightarrow> bytes \<Rightarrow> 'db \<Rightarrow> bool" where
  "db_hexists C key field = op_hexists (with_sync C) key field"

definition db_hdel :: "'db redis_connection \<Rightarrow> string \<Rightarrow> bytes list \<Rightarrow> 'db \<Rightarrow> int \<times> 'db" where
  "db_hdel C key flds db = (if flds = [] then (0, db) else op_hdel (with_sync C) key flds db)"

definition db_hlen :: "'db redis_connection \<Rightarrow> string \<Rightarrow> 'db \<Rightarrow> int" where
  "db_hlen C key = op_hlen (with_sync C) key"

definition db_hgetall :: "'db redis_connection \<Rightarrow> string \<Rightarrow> 'db \<Rightarrow> (bytes \<times> bytes) list" where
  "db_hgetall C key = op_hgetall (with_sync C) key"

definition db_del_key :: "'db redis_connection \<Rightarrow> string \<Rightarrow> 'db \<Rightarrow> int \<times> 'db" where
  "db_del_key C key = op_del (with_sync C) key"

definition db_exists :: "'db redis_connection \<Rightarrow> string \<Rightarrow> 'db \<Rightarrow> bool" where
  "db_exists C key db \<longleftrightarrow> op_exists (with_sync C) key db \<noteq> 0"

definition db_sadd :: "'db redis_connection \<Rightarrow> string \<Rightarrow> bytes list \<Rightarrow> 'db \<Rightarrow> int \<times> 'db" where
  "db_sadd C key members db =
    (if members = [] then (0, db) else op_sadd (with_sync C) key members db)"

definition db_srem :: "'db redis_connection \<Rightarrow> string \<Rightarrow> bytes list \<Rightarrow> 'db \<Rightarrow> int \<times> 'db" where
  "db_srem C key members db =
    (if members = [] then (0, db) else op_srem (with_sync C) key members db)"

definition db_sismember :: "'db redis_connection \<Rightarrow> string \<Rightarrow> bytes \<Rightarrow> 'db \<Rightarrow> bool" where
  "db_sismember C key member = op_sismember (with_sync C) key member"

definition db_scard :: "'db redis_connection \<Rightarrow> string \<Rightarrow> 'db \<Rightarrow> int" where
  "db_scard C key = op_scard (with_sync C) key"

definition db_smembers :: "'db redis_connection \<Rightarrow> string \<Rightarrow> 'db \<Rightarrow> bytes list" where
  "db_smembers C key = op_smembers (with_sync C) key"

definition db_get :: "'db redis_connection \<Rightarrow> string \<Rightarrow> 'db \<Rightarrow> bytes option" where
  "db_get C key = op_get (with_sync C) key"

definition db_set :: "'db redis_connection \<Rightarrow> string \<Rightarrow> bytes \<Rightarrow> 'db \<Rightarrow> bool \<times> 'db" where
  "db_set C key value = op_set (with_sync C) key value"

definition db_exists_count :: "'db redis_connection \<Rightarrow> string \<Rightarrow> 'db \<Rightarrow> int" where
  "db_exists_count C key = op_exists (with_sync C) key"

definition db_del :: "'db redis_connection \<Rightarrow> string \<Rightarrow> 'db \<Rightarrow> int \<times> 'db" where
  "db_del C key = op_del (with_sync C) key"

text \<open>Times to live are seconds.\<close>

definition db_expire :: "'db redis_connection \<Rightarrow> string \<Rightarrow> int \<Rightarrow> 'db \<Rightarrow> bool \<times> 'db" where
  "db_expire C key ttl = op_expire (with_sync C) key ttl"

definition db_ttl :: "'db redis_connection \<Rightarrow> string \<Rightarrow> 'db \<Rightarrow> int" where
  "db_ttl C key = op_ttl (with_sync C) key"

definition db_publish :: "'db redis_connection \<Rightarrow> string \<Rightarrow> bytes \<Rightarrow> 'db \<Rightarrow> int \<times> 'db" where
  "db_publish C channel message = op_publish (with_sync C) channel message"

section \<open>What the commands promise\<close>

text \<open>
  The contents of a store as the program sees them: the hash and the set under each key. A key holds
  one kind of value: \<open>hash_key\<close> and \<open>set_key\<close> say which kind the program keeps under which key.
\<close>

locale redis =
  fixes R :: "'db redis_ops"
    and hash_key :: "string \<Rightarrow> bool"
    and hash_of :: "'db \<Rightarrow> string \<Rightarrow> bytes \<Rightarrow> bytes option"
    and set_of :: "'db \<Rightarrow> string \<Rightarrow> bytes set"
  assumes hset: "hash_key k \<Longrightarrow> op_hset R k f v db = (n, db') \<Longrightarrow>
      hash_of db' = (hash_of db)(k := (hash_of db k)(f \<mapsto> v)) \<and> set_of db' = set_of db \<and>
      n = (if hash_of db k f = None then 1 else 0)"
    and hget: "hash_key k \<Longrightarrow> op_hget R k f db = hash_of db k f"
    and hexists: "hash_key k \<Longrightarrow> op_hexists R k f db \<longleftrightarrow> hash_of db k f \<noteq> None"
    and hdel: "hash_key k \<Longrightarrow> op_hdel R k fs db = (n, db') \<Longrightarrow>
      hash_of db' = (hash_of db)(k := (hash_of db k) |` (- set fs)) \<and> set_of db' = set_of db"
    and hgetall: "hash_key k \<Longrightarrow>
      distinct (map fst (op_hgetall R k db)) \<and> map_of (op_hgetall R k db) = hash_of db k"
    and del_hash: "hash_key k \<Longrightarrow> op_del R k db = (n, db') \<Longrightarrow>
      hash_of db' = (hash_of db)(k := (\<lambda>_. None)) \<and>
      (\<forall>j. \<not> hash_key j \<longrightarrow> set_of db' j = set_of db j)"
    and sadd: "\<not> hash_key k \<Longrightarrow> op_sadd R k ms db = (n, db') \<Longrightarrow>
      set_of db' = (set_of db)(k := set_of db k \<union> set ms) \<and> hash_of db' = hash_of db"
    and srem: "\<not> hash_key k \<Longrightarrow> op_srem R k ms db = (n, db') \<Longrightarrow>
      set_of db' = (set_of db)(k := set_of db k - set ms) \<and> hash_of db' = hash_of db"
    and sismember: "\<not> hash_key k \<Longrightarrow> op_sismember R k m db \<longleftrightarrow> m \<in> set_of db k"
    and smembers: "\<not> hash_key k \<Longrightarrow> set (op_smembers R k db) = set_of db k"
begin

text \<open>The laws as functions of the contents, for a key of the right kind.\<close>

lemma hset_contents:
  assumes "hash_key k"
  shows "hash_of (snd (op_hset R k f v db)) = (hash_of db)(k := (hash_of db k)(f \<mapsto> v))"
    and "set_of (snd (op_hset R k f v db)) = set_of db"
    and "fst (op_hset R k f v db) = (if hash_of db k f = None then 1 else 0)"
  using hset [OF assms, of f v db "fst (op_hset R k f v db)" "snd (op_hset R k f v db)"] by simp_all

lemma hdel_contents:
  assumes "hash_key k"
  shows "hash_of (snd (op_hdel R k fs db)) = (hash_of db)(k := (hash_of db k) |` (- set fs))"
    and "set_of (snd (op_hdel R k fs db)) = set_of db"
  using hdel [OF assms, of fs db "fst (op_hdel R k fs db)" "snd (op_hdel R k fs db)"] by simp_all

lemma del_contents:
  assumes "hash_key k"
  shows "hash_of (snd (op_del R k db)) = (hash_of db)(k := (\<lambda>_. None))"
    and "\<not> hash_key j \<Longrightarrow> set_of (snd (op_del R k db)) j = set_of db j"
  using del_hash [OF assms, of db "fst (op_del R k db)" "snd (op_del R k db)"] by simp_all

lemma sadd_contents:
  assumes "\<not> hash_key k"
  shows "set_of (snd (op_sadd R k ms db)) = (set_of db)(k := set_of db k \<union> set ms)"
    and "hash_of (snd (op_sadd R k ms db)) = hash_of db"
  using sadd [OF assms, of ms db "fst (op_sadd R k ms db)" "snd (op_sadd R k ms db)"] by simp_all

lemma srem_contents:
  assumes "\<not> hash_key k"
  shows "set_of (snd (op_srem R k ms db)) = (set_of db)(k := set_of db k - set ms)"
    and "hash_of (snd (op_srem R k ms db)) = hash_of db"
  using srem [OF assms, of ms db "fst (op_srem R k ms db)" "snd (op_srem R k ms db)"] by simp_all

lemma hgetall_mem:
  "hash_key k \<Longrightarrow> (f, v) \<in> set (op_hgetall R k db) \<longleftrightarrow> hash_of db k f = Some v"
  using hgetall [of k db] by (metis map_of_eq_Some_iff)

end

text \<open>
  The laws of the string keys, of their expiry and of deleting sets. A command with a positive time
  to live changes no contents; a key that expires later is removed by the server, between commands.
\<close>

locale redis_keys = redis R hash_key hash_of set_of
  for R :: "'db redis_ops" and hash_key :: "string \<Rightarrow> bool"
    and hash_of :: "'db \<Rightarrow> string \<Rightarrow> bytes \<Rightarrow> bytes option"
    and set_of :: "'db \<Rightarrow> string \<Rightarrow> bytes set" +
  fixes str_key :: "string \<Rightarrow> bool"
    and str_of :: "'db \<Rightarrow> string \<Rightarrow> bytes option"
  assumes get: "str_key k \<Longrightarrow> op_get R k db = str_of db k"
    and set: "str_key k \<Longrightarrow> op_set R k v db = (b, db') \<Longrightarrow>
      str_of db' = (str_of db)(k \<mapsto> v) \<and> hash_of db' = hash_of db \<and> set_of db' = set_of db"
    and del_set: "\<not> hash_key k \<Longrightarrow> \<not> str_key k \<Longrightarrow> op_del R k db = (n, db') \<Longrightarrow>
      set_of db' = (set_of db)(k := {}) \<and> (\<forall>j. j \<noteq> k \<longrightarrow> hash_of db' j = hash_of db j \<and> str_of db' j = str_of db j)"
    and del_str: "str_key k \<Longrightarrow> \<not> hash_key k \<Longrightarrow> op_del R k db = (n, db') \<Longrightarrow>
      str_of db' = (str_of db)(k := None) \<and> (\<forall>j. j \<noteq> k \<longrightarrow> hash_of db' j = hash_of db j \<and> set_of db' j = set_of db j)"
    and expire: "0 < t \<Longrightarrow> op_expire R k t db = (b, db') \<Longrightarrow>
      str_of db' = str_of db \<and> hash_of db' = hash_of db \<and> set_of db' = set_of db"
begin

lemma set_contents:
  assumes "str_key k"
  shows "str_of (snd (op_set R k v db)) = (str_of db)(k \<mapsto> v)"
    and "hash_of (snd (op_set R k v db)) = hash_of db"
    and "set_of (snd (op_set R k v db)) = set_of db"
  using set [OF assms, of v db "fst (op_set R k v db)" "snd (op_set R k v db)"] by simp_all

lemma del_set_contents:
  assumes "\<not> hash_key k" and "\<not> str_key k"
  shows "set_of (snd (op_del R k db)) = (set_of db)(k := {})"
    and "j \<noteq> k \<Longrightarrow> hash_of (snd (op_del R k db)) j = hash_of db j"
    and "j \<noteq> k \<Longrightarrow> str_of (snd (op_del R k db)) j = str_of db j"
  using del_set [OF assms, of db "fst (op_del R k db)" "snd (op_del R k db)"] by simp_all

lemma del_str_contents:
  assumes "str_key k" and "\<not> hash_key k"
  shows "str_of (snd (op_del R k db)) = (str_of db)(k := None)"
    and "j \<noteq> k \<Longrightarrow> hash_of (snd (op_del R k db)) j = hash_of db j"
    and "j \<noteq> k \<Longrightarrow> set_of (snd (op_del R k db)) j = set_of db j"
  using del_str [OF assms, of db "fst (op_del R k db)" "snd (op_del R k db)"] by simp_all

lemma expire_contents:
  assumes "0 < t"
  shows "str_of (snd (op_expire R k t db)) = str_of db"
    and "hash_of (snd (op_expire R k t db)) = hash_of db"
    and "set_of (snd (op_expire R k t db)) = set_of db"
  using expire [OF assms, of k db "fst (op_expire R k t db)" "snd (op_expire R k t db)"] by simp_all

end

section \<open>An in-memory store\<close>

record mem_db =
  md_hash :: "string \<Rightarrow> (bytes \<times> bytes) list"
  md_set :: "string \<Rightarrow> bytes list"
  md_str :: "string \<Rightarrow> bytes option"

definition mem_exists :: "string \<Rightarrow> mem_db \<Rightarrow> bool" where
  "mem_exists k db \<longleftrightarrow> md_hash db k \<noteq> [] \<or> md_set db k \<noteq> [] \<or> md_str db k \<noteq> None"

definition mem_remove :: "string \<Rightarrow> mem_db \<Rightarrow> mem_db" where
  "mem_remove k db = \<lparr> md_hash = (md_hash db)(k := []), md_set = (md_set db)(k := []),
     md_str = (md_str db)(k := None) \<rparr>"

text \<open>Keys do not expire here: the store answers as if no time passed.\<close>

definition mem_redis :: "mem_db redis_ops" where
  "mem_redis = \<lparr>
    op_hset = (\<lambda>k f v db. (if map_of (md_hash db k) f = None then 1 else 0,
      db \<lparr> md_hash := (md_hash db)(k := AList.update f v (md_hash db k)) \<rparr>)),
    op_hget = (\<lambda>k f db. map_of (md_hash db k) f),
    op_hexists = (\<lambda>k f db. map_of (md_hash db k) f \<noteq> None),
    op_hdel = (\<lambda>k fs db.
      (int (length (filter (\<lambda>f. map_of (md_hash db k) f \<noteq> None) (remdups fs))),
       db \<lparr> md_hash := (md_hash db)(k := filter (\<lambda>x. fst x \<notin> set fs) (md_hash db k)) \<rparr>)),
    op_hlen = (\<lambda>k db. int (length (AList.clearjunk (md_hash db k)))),
    op_hgetall = (\<lambda>k db. AList.clearjunk (md_hash db k)),
    op_del = (\<lambda>k db. (if mem_exists k db then 1 else 0, mem_remove k db)),
    op_exists = (\<lambda>k db. if mem_exists k db then 1 else 0),
    op_sadd = (\<lambda>k ms db. (int (length (filter (\<lambda>m. m \<notin> set (md_set db k)) (remdups ms))),
      db \<lparr> md_set := (md_set db)(k := remdups (md_set db k @ ms)) \<rparr>)),
    op_srem = (\<lambda>k ms db. (int (length (filter (\<lambda>m. m \<in> set (md_set db k)) (remdups ms))),
      db \<lparr> md_set := (md_set db)(k := filter (\<lambda>m. m \<notin> set ms) (md_set db k)) \<rparr>)),
    op_sismember = (\<lambda>k m db. m \<in> set (md_set db k)),
    op_scard = (\<lambda>k db. int (length (remdups (md_set db k)))),
    op_smembers = (\<lambda>k db. remdups (md_set db k)),
    op_get = (\<lambda>k db. md_str db k),
    op_set = (\<lambda>k v db. (True, db \<lparr> md_str := (md_str db)(k \<mapsto> v) \<rparr>)),
    op_expire = (\<lambda>k t db. (mem_exists k db, if 0 < t then db else mem_remove k db)),
    op_ttl = (\<lambda>k db. if mem_exists k db then - 1 else - 2),
    op_publish = (\<lambda>ch m db. (0, db)) \<rparr>"

definition mem_hash :: "mem_db \<Rightarrow> string \<Rightarrow> bytes \<Rightarrow> bytes option" where
  "mem_hash db k = map_of (md_hash db k)"

definition mem_set :: "mem_db \<Rightarrow> string \<Rightarrow> bytes set" where
  "mem_set db k = set (md_set db k)"

definition mem_empty :: mem_db where
  "mem_empty = \<lparr> md_hash = \<lambda>_. [], md_set = \<lambda>_. [], md_str = \<lambda>_. None \<rparr>"

definition mem_connection :: "mem_db redis_connection" where
  "mem_connection = \<lparr> is_cluster = False, rc_handle = mem_redis, rc_handle_cluster = mem_redis \<rparr>"

lemma map_of_filter_keys: "map_of (filter (\<lambda>x. fst x \<notin> A) xs) = map_of xs |` (- A)"
  by (induction xs) (auto simp: fun_eq_iff restrict_map_def)

interpretation memredis: redis mem_redis P mem_hash mem_set for P
  by unfold_locales
     (auto simp: mem_redis_def mem_hash_def mem_set_def mem_remove_def update_conv' map_of_clearjunk
        map_of_filter_keys fun_eq_iff distinct_clearjunk split: prod.splits if_splits)

interpretation memkeys: redis_keys mem_redis P mem_hash mem_set Q md_str for P Q
  by unfold_locales
     (auto simp: mem_redis_def mem_hash_def mem_set_def mem_remove_def fun_eq_iff split: if_splits)

lemma with_sync_mem [simp]: "with_sync mem_connection = mem_redis"
  by (simp add: with_sync_def mem_connection_def)

end
