(* ===== verification/Shape_Manifests.thy ===== *)
theory Shape_Manifests
  imports Partition_Shapes Text_Floats Text_Search Redis_Store
begin

text \<open>
  The partition shapes in the database: \<open>InternalDB/ShapeManifest.hpp\<close> with \<open>Shape::FromString\<close>, and the parked
  \<open>GridCellManifest.hpp\<close> with its parser, whose loop starts again at the front of the text when a section of a
  cell is missing. Both write texts that they read back; the second loop may not end.
\<close>

section \<open>Texts\<close>

text \<open>\<open>data.substr(a, b - a)\<close>; the difference of the positions wraps around.\<close>

definition between :: "bytes \<Rightarrow> nat \<Rightarrow> nat \<Rightarrow> bytes" where
  "between s a b = (if b < a then drop a s else take (b - a) (drop a s))"

section \<open>Shapes\<close>

definition shape_table :: string where "shape_table = ''PartitionShapeManifest''"

definition shape_metadata_key :: string where "shape_metadata_key = ''shape_manifest_metadata''"

definition vertex_text :: "vec2 \<Rightarrow> bytes" where
  "vertex_text v = str_bytes ''v('' @ f_to_string (p2x v) @ [44] @ f_to_string (p2y v) @ str_bytes '');''"

definition triangle_text :: "triangle \<Rightarrow> bytes" where
  "triangle_text = (\<lambda>(a, b, c). str_bytes ''triangle:'' @ vertex_text a @ vertex_text b @ vertex_text c)"

definition shape_head :: "bytes \<Rightarrow> int \<Rightarrow> bytes" where
  "shape_head part i = str_bytes ''shape_id:'' @ dec_of_int i @ str_bytes '';partition_id:'' @ part @ [59]"

definition shape_text :: "bytes \<Rightarrow> int \<Rightarrow> shape \<Rightarrow> bytes" where
  "shape_text part i s = shape_head part i @ str_bytes ''triangles:'' @ concat (map triangle_text s)"

definition shape_store :: "'db redis_connection \<Rightarrow> bytes \<Rightarrow> int \<Rightarrow> shape \<Rightarrow> 'db \<Rightarrow> bool \<times> 'db" where
  "shape_store C part i s db = (case db_hset C shape_table part (shape_text part i s) db of (n, db) \<Rightarrow> (n \<noteq> 0, db))"

text \<open>A missing field throws, an empty one is no shape.\<close>

definition shape_fetch :: "'db redis_connection \<Rightarrow> bytes \<Rightarrow> 'db \<Rightarrow> bytes option res" where
  "shape_fetch C part db =
    (case db_hget C shape_table part db of
       None \<Rightarrow> Inl (RuntimeError ''bad_optional_access'')
     | Some data \<Rightarrow> Inr (if data = [] then None else Some data))"

definition shape_fetch_all :: "'db redis_connection \<Rightarrow> 'db \<Rightarrow> (bytes \<times> bytes) list" where
  "shape_fetch_all C db = db_hgetall C shape_table db"

definition manifest_metadata :: "int \<Rightarrow> u64 \<Rightarrow> u64 \<Rightarrow> bytes" where
  "manifest_metadata now shapes parts = str_bytes ''total_shapes:'' @ dec_of (unat shapes) @ str_bytes '';total_partitions:'' @
     dec_of (unat parts) @ str_bytes '';timestamp:'' @ dec_of_int now"

definition shape_store_metadata :: "'db redis_connection \<Rightarrow> int \<Rightarrow> u64 \<Rightarrow> u64 \<Rightarrow> 'db \<Rightarrow> bool \<times> 'db" where
  "shape_store_metadata C now shapes parts db =
    (True, snd (db_set C shape_metadata_key (manifest_metadata now shapes parts) db))"

definition shape_clear :: "'db redis_connection \<Rightarrow> 'db \<Rightarrow> bool \<times> 'db" where
  "shape_clear C db = (case db_del_key C shape_table db of (n, db) \<Rightarrow> (n \<noteq> 0, db))"

text \<open>The vertices of one triangle, from a position on: where the search goes on, and the vertices when all
  are there.\<close>

fun parse_vertices :: "nat \<Rightarrow> bytes \<Rightarrow> nat \<Rightarrow> vec2 list \<Rightarrow> nat \<times> vec2 list option" where
  "parse_vertices 0 data pos vs = (pos, Some vs)"
| "parse_vertices (Suc k) data pos vs =
    (case find_text_from (str_bytes ''v('') data pos of
       None \<Rightarrow> (pos, None)
     | Some start \<Rightarrow>
         (case (find_text_from [44] data start, find_text_from [41] data start) of
            (Some comma, Some end') \<Rightarrow>
              (case (stof (between data (start + 2) comma), stof (between data (comma + 1) end')) of
                 (Inr x, Inr y) \<Rightarrow> parse_vertices k data (end' + 1) (vs @ [vec2_of x y])
               | _ \<Rightarrow> (pos, None))
          | _ \<Rightarrow> (pos, None)))"

lemma find_text_from_bounds: "p \<noteq> [] \<Longrightarrow> find_text_from p s k = Some j \<Longrightarrow> k \<le> j \<and> j + length p \<le> length s"
  using find_text_fits [of p "drop k s"] by (auto simp: find_text_from_def split: if_splits)

lemma parse_vertices_forward: "parse_vertices k data pos vs = (pos', r) \<Longrightarrow> pos \<le> pos'"
proof (induction k arbitrary: pos vs)
  case (Suc k)
  then show ?case unfolding parse_vertices.simps(2)
    by (auto split: option.splits sum.splits dest!: Suc.IH find_text_from_bounds [rotated] simp: str_bytes_def)
qed simp

declare parse_vertices.simps(2) [simp del]

function parse_triangles :: "bytes \<Rightarrow> nat \<Rightarrow> shape \<Rightarrow> shape" where
  "parse_triangles data pos acc =
    (if length data \<le> pos then acc
     else case find_text_from (str_bytes ''triangle:'') data pos of
       None \<Rightarrow> acc
     | Some p \<Rightarrow>
         (case parse_vertices 3 data (p + 9) [] of
            (pos', r) \<Rightarrow>
              parse_triangles data pos' (case r of Some [a, b, c] \<Rightarrow> acc @ [(a, b, c)] | _ \<Rightarrow> acc)))"
  by pat_completeness auto
termination
  by (relation "measure (\<lambda>(data, pos, acc). length data - pos)")
    (auto dest!: parse_vertices_forward [OF sym] find_text_from_bounds [rotated] simp: str_bytes_def)

declare parse_triangles.simps [simp del]

text \<open>Without triangles a text is thrown, which stands as a runtime error: no call handles it.\<close>

definition shape_from_string :: "bytes \<Rightarrow> shape res" where
  "shape_from_string data =
    (case find_text_from (str_bytes ''triangles:'') data 0 of
       None \<Rightarrow> Inl (RuntimeError ''Invalid shape'')
     | Some start \<Rightarrow> Inr (parse_triangles data (start + 9) []))"

section \<open>Grid cells\<close>

definition cell_table :: string where "cell_table = ''PartitionGridCellManifest''"

definition cell_metadata_key :: string where "cell_metadata_key = ''grid_cell_manifest_metadata''"

definition pair_text :: "string \<Rightarrow> vec2 \<Rightarrow> bytes" where
  "pair_text marker v = str_bytes marker @ f_to_string (p2x v) @ [44] @ f_to_string (p2y v) @ str_bytes '');''"

definition number_text :: "string \<Rightarrow> int \<Rightarrow> bytes" where
  "number_text marker n = str_bytes marker @ dec_of_int n @ [59]"

definition cell_text :: "grid_cell2 \<Rightarrow> bytes" where
  "cell_text c = str_bytes ''cell:'' @ pair_text ''min('' (gc_min c) @ pair_text ''max('' (gc_max c) @
     number_text ''row:'' (gc_row c) @ number_text ''col:'' (gc_col c)"

definition cells_text :: "bytes \<Rightarrow> int \<Rightarrow> cell_shape \<Rightarrow> bytes" where
  "cells_text part i s = shape_head part i @ str_bytes ''grid_cells:'' @ concat (map cell_text (cs_cells s))"

definition cells_store :: "'db redis_connection \<Rightarrow> bytes \<Rightarrow> int \<Rightarrow> cell_shape \<Rightarrow> 'db \<Rightarrow> bool \<times> 'db" where
  "cells_store C part i s db = (case db_hset C cell_table part (cells_text part i s) db of (n, db) \<Rightarrow> (n \<noteq> 0, db))"

definition cells_fetch :: "'db redis_connection \<Rightarrow> bytes \<Rightarrow> 'db \<Rightarrow> bytes option res" where
  "cells_fetch C part db =
    (case db_hget C cell_table part db of
       None \<Rightarrow> Inl (RuntimeError ''bad_optional_access'')
     | Some data \<Rightarrow> Inr (if data = [] then None else Some data))"

definition cells_fetch_all :: "'db redis_connection \<Rightarrow> 'db \<Rightarrow> (bytes \<times> bytes) list" where
  "cells_fetch_all C db = db_hgetall C cell_table db"

definition cells_store_metadata :: "'db redis_connection \<Rightarrow> int \<Rightarrow> u64 \<Rightarrow> u64 \<Rightarrow> 'db \<Rightarrow> bool \<times> 'db" where
  "cells_store_metadata C now shapes parts db =
    (True, snd (db_set C cell_metadata_key (manifest_metadata now shapes parts) db))"

definition cells_clear :: "'db redis_connection \<Rightarrow> 'db \<Rightarrow> bool \<times> 'db" where
  "cells_clear C db = (case db_del_key C cell_table db of (n, db) \<Rightarrow> (n \<noteq> 0, db))"

text \<open>A cell as it is parsed: what no section gave it keeps an indeterminate value.\<close>

record parsed_cell =
  pl_min :: "vec2 option"
  pl_max :: "vec2 option"
  pl_row :: "int option"
  pl_col :: "int option"

text \<open>A section with two floats or with a number: where it starts, whether its conversions passed, and its
  value.\<close>

definition parse_pair :: "string \<Rightarrow> bytes \<Rightarrow> nat \<Rightarrow> nat option \<times> bool \<times> vec2 option" where
  "parse_pair marker data pos =
    (case find_text_from (str_bytes marker) data pos of
       None \<Rightarrow> (None, True, None)
     | Some start \<Rightarrow> (Some start,
         (case (find_text_from [41] data start, find_text_from [44] data start) of
            (Some end', Some comma) \<Rightarrow>
              if comma < end'
              then (case (stof (between data (start + 4) comma), stof (between data (comma + 1) end')) of
                      (Inr x, Inr y) \<Rightarrow> (True, Some (vec2_of x y))
                    | _ \<Rightarrow> (False, None))
              else (True, None)
          | _ \<Rightarrow> (True, None))))"

definition parse_number :: "string \<Rightarrow> bytes \<Rightarrow> nat \<Rightarrow> nat option \<times> bool \<times> int option" where
  "parse_number marker data pos =
    (case find_text_from (str_bytes marker) data pos of
       None \<Rightarrow> (None, True, None)
     | Some start \<Rightarrow> (Some start,
         (case find_text_from [59] data start of
            None \<Rightarrow> (True, None)
          | Some end' \<Rightarrow>
              (case stoi (between data (start + 4) end') of Inl _ \<Rightarrow> (False, None) | Inr n \<Rightarrow> (True, Some n)))))"

text \<open>One more than the greatest of the four starts; a missing one is the greatest number, and one more than
  that is zero.\<close>

definition next_position :: "nat option list \<Rightarrow> nat" where
  "next_position ps = (if None \<in> set ps then 0 else Max (set (map the ps)) + 1)"

definition parse_cell :: "bytes \<Rightarrow> nat \<Rightarrow> nat \<times> bool \<times> parsed_cell" where
  "parse_cell data pos =
    (let (p1, ok1, lo) = parse_pair ''min('' data pos; (p2, ok2, hi) = parse_pair ''max('' data pos;
         (p3, ok3, row) = parse_number ''row:'' data pos; (p4, ok4, col) = parse_number ''col:'' data pos
     in (next_position [p1, p2, p3, p4], ok1 \<and> ok2 \<and> ok3 \<and> ok4,
         \<lparr> pl_min = lo, pl_max = hi, pl_row = row, pl_col = col \<rparr>))"

text \<open>The loop over the cells; no result is a loop that does not end.\<close>

partial_function (option) parse_cells :: "bytes \<Rightarrow> nat \<Rightarrow> parsed_cell list \<Rightarrow> parsed_cell list option" where
  "parse_cells data pos acc =
    (if length data \<le> pos then Some acc
     else case find_text_from (str_bytes ''cell:'') data pos of
       None \<Rightarrow> Some acc
     | Some p \<Rightarrow>
         (case parse_cell data (p + 5) of
            (pos', ok, c) \<Rightarrow> parse_cells data pos' (if ok then acc @ [c] else acc)))"

definition parse_grid_shape :: "bytes \<Rightarrow> parsed_cell list option" where
  "parse_grid_shape data =
    (case find_text_from (str_bytes ''grid_cells:'') data 0 of
       None \<Rightarrow> Some []
     | Some start \<Rightarrow> parse_cells data (start + 11) [])"

section \<open>Searching in a text that was written\<close>

lemma find_text_skip:
  assumes "p \<noteq> []" and "hd p \<notin> set u"
  shows "find_text p (u @ p @ v) = Some (length u)"
  using assms(2)
proof (induction u)
  case Nil
  show ?case using assms(1) by (cases p) (simp_all add: find_text_Cons)
next
  case (Cons c u)
  then have "\<not> prefix p (c # u @ p @ v)" using assms(1) by (cases p) auto
  then show ?case using Cons by (simp add: find_text_Cons)
qed

lemma find_text_skip_one:
  assumes "p \<noteq> []" and "hd p \<notin> set u" and "\<not> prefix p (c # u @ p @ v)"
  shows "find_text p (c # u @ p @ v) = Some (Suc (length u))"
  using find_text_skip [OF assms(1,2)] assms(3) by (simp add: find_text_Cons)

lemma find_text_from_skip:
  assumes "data = a @ u @ p @ v" and "p \<noteq> []" and "hd p \<notin> set u"
  shows "find_text_from p data (length a) = Some (length a + length u)"
  using find_text_skip [OF assms(2,3), of v] assms(1) by (simp add: find_text_from_def)

lemma between_mid:
  assumes "data = a @ x @ v"
  shows "between data (length a) (length a + length x) = x"
  using assms by (simp add: between_def)

text \<open>The bytes of printed numbers.\<close>

definition number_bytes :: "bytes \<Rightarrow> bool" where
  "number_bytes x \<longleftrightarrow> set x \<subseteq> {45, 46} \<union> {b. is_digit b}"

lemma number_bytes_no: "number_bytes x \<Longrightarrow> \<not> is_digit c \<Longrightarrow> c \<noteq> 45 \<Longrightarrow> c \<noteq> 46 \<Longrightarrow> c \<notin> set x"
  by (auto simp: number_bytes_def)

lemma number_bytes_float: "f_printable x \<Longrightarrow> number_bytes (f_to_string x)"
  using printable_bytes by (simp add: number_bytes_def)

lemma number_bytes_int: "number_bytes (dec_of_int i)"
  using dec_of_digits by (auto simp: number_bytes_def dec_of_int_def list_all_iff)

lemma not_digits: "\<not> is_digit 44" "\<not> is_digit 41" "\<not> is_digit 59" "\<not> is_digit 118" "\<not> is_digit 116" "\<not> is_digit 99"
  "\<not> is_digit 109" "\<not> is_digit 114"
  by (simp_all add: is_digit_def)

lemmas number_free = number_bytes_no [OF number_bytes_float] number_bytes_no [OF number_bytes_int] not_digits

definition vec2_printable :: "vec2 \<Rightarrow> bool" where
  "vec2_printable v \<longleftrightarrow> f_printable (p2x v) \<and> f_printable (p2y v)"

lemma vec2_collapse [simp]: "vec2_of (p2x v) (p2y v) = v"
  by (cases v) simp

section \<open>Shapes are read back\<close>

lemma parse_vertex:
  assumes "data = a @ u @ vertex_text v @ w" and "118 \<notin> set u" and "vec2_printable v"
  shows "parse_vertices (Suc k) data (length a) vs =
    parse_vertices k data (length (a @ u @ str_bytes ''v('' @ f_to_string (p2x v) @ [44] @ f_to_string (p2y v) @ [41])) (vs @ [v])"
proof -
  let ?x = "f_to_string (p2x v)" and ?y = "f_to_string (p2y v)"
  have pr: "f_printable (p2x v)" "f_printable (p2y v)" using assms(3) by (simp_all add: vec2_printable_def)
  have v: "str_bytes ''v('' = [118, 40]" "str_bytes '');'' = [41, 59]" by (simp_all add: str_bytes_def)
  have d: "data = a @ u @ [118, 40] @ ?x @ [44] @ ?y @ [41, 59] @ w" using assms(1) by (simp add: vertex_text_def v)
  have 1: "find_text_from [118, 40] data (length a) = Some (length a + length u)"
    by (rule find_text_from_skip [OF d]) (use assms(2) in simp_all)
  have 2: "find_text_from [44] data (length (a @ u)) = Some (length (a @ u) + length ([118, 40] @ ?x))"
    by (rule find_text_from_skip [where v = "?y @ [41, 59] @ w"]) (use d number_free pr in auto)
  have 3: "find_text_from [41] data (length (a @ u)) = Some (length (a @ u) + length ([118, 40] @ ?x @ [44] @ ?y))"
    by (rule find_text_from_skip [where v = "[59] @ w"]) (use d number_free pr in auto)
  have 4: "between data (length (a @ u @ [118, 40])) (length (a @ u @ [118, 40]) + length ?x) = ?x"
    by (rule between_mid [where v = "[44] @ ?y @ [41, 59] @ w"]) (simp add: d)
  have 5: "between data (length (a @ u @ [118, 40] @ ?x @ [44])) (length (a @ u @ [118, 40] @ ?x @ [44]) + length ?y) = ?y"
    by (rule between_mid [where v = "[41, 59] @ w"]) (simp add: d)
  show ?thesis
    using 1 2 3 4 5 printed_float_read [OF pr(1)] printed_float_read [OF pr(2)]
    by (simp add: parse_vertices.simps(2) v add.assoc)
qed

lemma parse_triangles_step:
  assumes "pos < length data" and "find_text_from (str_bytes ''triangle:'') data pos = Some p"
    and "parse_vertices 3 data (p + 9) [] = (pos', Some [x, y, z])"
  shows "parse_triangles data pos acc = parse_triangles data pos' (acc @ [(x, y, z)])"
  using assms by (subst parse_triangles.simps) simp

lemma parse_triangle:
  assumes "data = a @ [c] @ triangle_text (x, y, z) @ w" and "c \<noteq> 116"
    and "vec2_printable x" "vec2_printable y" "vec2_printable z"
  shows "\<exists>a'. data = a' @ [59] @ w \<and> parse_triangles data (length a) acc = parse_triangles data (length a') (acc @ [(x, y, z)])"
proof -
  let ?t = "str_bytes ''triangle:''" and ?v = "\<lambda>v. str_bytes ''v('' @ f_to_string (p2x v) @ [44] @ f_to_string (p2y v) @ [41]"
  have v: "vertex_text v = ?v v @ [59]" for v by (simp add: vertex_text_def str_bytes_def)
  have d: "data = a @ [c] @ ?t @ vertex_text x @ vertex_text y @ vertex_text z @ w"
    using assms(1) by (simp add: triangle_text_def)
  have t: "hd ?t = 116" "?t \<noteq> []" "length ?t = 9" by (simp_all add: str_bytes_def)
  have f: "find_text_from ?t data (length a) = Some (length a + length [c])"
    by (rule find_text_from_skip [OF d]) (use assms(2) t in simp_all)
  let ?a1 = "a @ [c] @ ?t"
  have 1: "parse_vertices (Suc (Suc (Suc 0))) data (length ?a1) [] = parse_vertices (Suc (Suc 0)) data (length (?a1 @ ?v x)) [x]"
    using parse_vertex [of data ?a1 "[]" x "vertex_text y @ vertex_text z @ w" "Suc (Suc 0)" "[]"] d assms(3) by simp
  have 2: "parse_vertices (Suc (Suc 0)) data (length (?a1 @ ?v x)) [x] = parse_vertices (Suc 0) data (length (?a1 @ ?v x @ [59] @ ?v y)) [x, y]"
    using parse_vertex [of data "?a1 @ ?v x" "[59]" y "vertex_text z @ w" "Suc 0" "[x]"] d assms(4) by (simp add: v)
  have 3: "parse_vertices (Suc 0) data (length (?a1 @ ?v x @ [59] @ ?v y)) [x, y] =
      parse_vertices 0 data (length (?a1 @ ?v x @ [59] @ ?v y @ [59] @ ?v z)) [x, y, z]"
    using parse_vertex [of data "?a1 @ ?v x @ [59] @ ?v y" "[59]" z w 0 "[x, y]"] d assms(5) by (simp add: v)
  let ?a2 = "?a1 @ ?v x @ [59] @ ?v y @ [59] @ ?v z"
  have "parse_vertices (Suc (Suc (Suc 0))) data (length ?a1) [] = (length ?a2, Some [x, y, z])"
    by (simp only: 1 2 3 parse_vertices.simps(1))
  moreover have "Suc (Suc (Suc 0)) = 3" "length ?a1 = length a + length [c] + 9" by (simp_all add: t(3))
  ultimately have pv: "parse_vertices 3 data (length a + length [c] + 9) [] = (length ?a2, Some [x, y, z])" by (simp only:)
  have len: "length a < length data" by (simp add: d)
  have "parse_triangles data (length a) acc = parse_triangles data (length ?a2) (acc @ [(x, y, z)])"
    by (rule parse_triangles_step [OF len f pv])
  moreover have "data = ?a2 @ [59] @ w" by (simp add: d v)
  ultimately show ?thesis by blast
qed

definition shape_printable :: "shape \<Rightarrow> bool" where
  "shape_printable s = list_all (\<lambda>(a, b, c). vec2_printable a \<and> vec2_printable b \<and> vec2_printable c) s"

lemma find_text_long: "length s < length p \<Longrightarrow> find_text p s = None"
  using find_text_fits [of p s] by (cases "find_text p s"; cases "p = []") auto

lemma parse_triangles_all:
  assumes "shape_printable s" and "data = a @ [c] @ concat (map triangle_text s)" and "c \<noteq> 116"
  shows "parse_triangles data (length a) acc = acc @ s"
  using assms
proof (induction s arbitrary: a c acc)
  case Nil
  have "find_text_from (str_bytes ''triangle:'') data (length a) = None"
    using Nil by (simp add: find_text_from_def find_text_long str_bytes_def)
  then show ?case by (subst parse_triangles.simps) simp
next
  case (Cons t s)
  obtain x y z where t: "t = (x, y, z)" by (metis prod_cases3)
  have "data = a @ [c] @ triangle_text (x, y, z) @ concat (map triangle_text s)" using Cons.prems(2) t by simp
  then obtain a' where a: "data = a' @ [59] @ concat (map triangle_text s)"
      "parse_triangles data (length a) acc = parse_triangles data (length a') (acc @ [(x, y, z)])"
    using parse_triangle [of data a c x y z "concat (map triangle_text s)" acc] Cons.prems(1,3) by (auto simp: t shape_printable_def)
  show ?case using Cons.IH [OF _ a(1), of "acc @ [(x, y, z)]"] Cons.prems(1) a(2) t by (simp add: shape_printable_def)
qed

text \<open>The head of a text in which a marker cannot be taken for an earlier one.\<close>

definition head_clear :: "string \<Rightarrow> bytes \<Rightarrow> int \<Rightarrow> bool" where
  "head_clear marker part i \<longleftrightarrow>
    find_text (str_bytes marker) (shape_head part i @ str_bytes marker) = Some (length (shape_head part i))"

lemma head_marker:
  assumes "head_clear marker part i" and "marker \<noteq> []" and "data = shape_head part i @ str_bytes marker @ w"
  shows "find_text_from (str_bytes marker) data 0 = Some (length (shape_head part i))"
  using assms find_text_append [of "str_bytes marker" "shape_head part i @ str_bytes marker" _ w]
  by (simp add: head_clear_def find_text_from_def str_bytes_def)

lemma shape_text_read:
  assumes "shape_printable s" and "head_clear ''triangles:'' part i"
  shows "shape_from_string (shape_text part i s) = Inr s"
proof -
  let ?head = "shape_head part i @ str_bytes ''triangles''"
  have t: "str_bytes ''triangles:'' = str_bytes ''triangles'' @ [58]" "length (str_bytes ''triangles'') = 9"
    by (simp_all add: str_bytes_def)
  have f: "find_text_from (str_bytes ''triangles:'') (shape_text part i s) 0 = Some (length (shape_head part i))"
    by (rule head_marker [OF assms(2)]) (simp_all add: shape_text_def)
  have "parse_triangles (shape_text part i s) (length ?head) [] = [] @ s"
    by (rule parse_triangles_all [OF assms(1), where c = 58]) (simp_all add: shape_text_def t)
  then show ?thesis using f by (simp add: shape_from_string_def t)
qed

section \<open>Cells are read back\<close>

lemma marker_bytes:
  "str_bytes ''min('' = [109, 105, 110, 40]" "str_bytes ''max('' = [109, 97, 120, 40]" "str_bytes ''row:'' = [114, 111, 119, 58]"
  "str_bytes ''col:'' = [99, 111, 108, 58]" "str_bytes ''cell:'' = [99, 101, 108, 108, 58]" "str_bytes '');'' = [41, 59]"
  by (simp_all add: str_bytes_def)

lemma stoi_dec:
  assumes "- (2 ^ 31) \<le> i" and "i < 2 ^ 31"
  shows "stoi (dec_of_int i) = Inr i"
proof -
  have all: "\<forall>b\<in>set (dec_of n). is_digit b" for n using dec_of_digits [of n] by (simp add: list_all_iff)
  have tw: "takeWhile is_digit (dec_of n) = dec_of n" for n using all by (simp only: takeWhile_eq_all_conv)
  have hd: "is_digit (hd (dec_of n))" for n using all hd_in_set [OF dec_of_nonempty] by blast
  have sp: "dropWhile is_space_byte (dec_of n) = dec_of n" for n using digit_not [OF hd, of n] by (cases "dec_of n") auto
  have "\<not> is_space_byte 45" by (simp add: is_space_byte_def)
  then show ?thesis using assms digit_not [OF hd] by (auto simp: stoi_def dec_of_int_def sp tw Let_def)
qed

lemma parse_pair_there:
  assumes "data = a @ u @ pair_text marker v @ w" and "length marker = 4" and "vec2_printable v"
    and "find_text_from (str_bytes marker) data (length a) = Some (length (a @ u))"
    and "44 \<notin> set (str_bytes marker)" "41 \<notin> set (str_bytes marker)"
  shows "parse_pair marker data (length a) = (Some (length (a @ u)), True, Some v)"
proof -
  let ?x = "f_to_string (p2x v)" and ?y = "f_to_string (p2y v)" and ?m = "str_bytes marker"
  have pr: "f_printable (p2x v)" "f_printable (p2y v)" using assms(3) by (simp_all add: vec2_printable_def)
  have m: "length ?m = 4" using assms(2) by (simp add: str_bytes_def)
  have d: "data = a @ u @ ?m @ ?x @ [44] @ ?y @ [41, 59] @ w" using assms(1) by (simp add: pair_text_def marker_bytes)
  have 2: "find_text_from [44] data (length (a @ u)) = Some (length (a @ u) + length (?m @ ?x))"
    by (rule find_text_from_skip [where v = "?y @ [41, 59] @ w"]) (use d assms(5) number_free pr in auto)
  have 3: "find_text_from [41] data (length (a @ u)) = Some (length (a @ u) + length (?m @ ?x @ [44] @ ?y))"
    by (rule find_text_from_skip [where v = "[59] @ w"]) (use d assms(6) number_free pr in auto)
  have 4: "between data (length (a @ u @ ?m)) (length (a @ u @ ?m) + length ?x) = ?x"
    by (rule between_mid [where v = "[44] @ ?y @ [41, 59] @ w"]) (simp add: d)
  have 5: "between data (length (a @ u @ ?m @ ?x @ [44])) (length (a @ u @ ?m @ ?x @ [44]) + length ?y) = ?y"
    by (rule between_mid [where v = "[41, 59] @ w"]) (simp add: d)
  show ?thesis
    using assms(4) 2 3 4 5 m printed_float_read [OF pr(1)] printed_float_read [OF pr(2)]
    by (simp add: parse_pair_def add_ac)
qed

lemma parse_number_there:
  assumes "data = a @ u @ number_text marker n @ w" and "length marker = 4" and "- (2 ^ 31) \<le> n" "n < 2 ^ 31"
    and "find_text_from (str_bytes marker) data (length a) = Some (length (a @ u))" and "59 \<notin> set (str_bytes marker)"
  shows "parse_number marker data (length a) = (Some (length (a @ u)), True, Some n)"
proof -
  let ?m = "str_bytes marker" and ?n = "dec_of_int n"
  have m: "length ?m = 4" using assms(2) by (simp add: str_bytes_def)
  have d: "data = a @ u @ ?m @ ?n @ [59] @ w" using assms(1) by (simp add: number_text_def)
  have 2: "find_text_from [59] data (length (a @ u)) = Some (length (a @ u) + length (?m @ ?n))"
    by (rule find_text_from_skip [where v = w]) (use d assms(6) number_free in auto)
  have 4: "between data (length (a @ u @ ?m)) (length (a @ u @ ?m) + length ?n) = ?n"
    by (rule between_mid [where v = "[59] @ w"]) (simp add: d)
  show ?thesis using assms(5) 2 4 m stoi_dec [OF assms(3,4)] by (simp add: parse_number_def add_ac)
qed

definition cell_printable :: "grid_cell2 \<Rightarrow> bool" where
  "cell_printable c \<longleftrightarrow> vec2_printable (gc_min c) \<and> vec2_printable (gc_max c) \<and>
     - (2 ^ 31) \<le> gc_row c \<and> gc_row c < 2 ^ 31 \<and> - (2 ^ 31) \<le> gc_col c \<and> gc_col c < 2 ^ 31"

definition cell_parsed :: "grid_cell2 \<Rightarrow> parsed_cell" where
  "cell_parsed c = \<lparr> pl_min = Some (gc_min c), pl_max = Some (gc_max c), pl_row = Some (gc_row c), pl_col = Some (gc_col c) \<rparr>"

lemma cell_parts_free:
  assumes "cell_printable c"
  shows "109 \<notin> set (tl (pair_text ''min('' (gc_min c)))"
    and "114 \<notin> set (pair_text ''min('' (gc_min c) @ pair_text ''max('' (gc_max c))"
    and "99 \<notin> set (pair_text ''min('' (gc_min c) @ pair_text ''max('' (gc_max c) @ number_text ''row:'' (gc_row c))"
    and "99 \<notin> set (tl (number_text ''col:'' (gc_col c)))"
  using assms number_free by (simp_all add: cell_printable_def vec2_printable_def pair_text_def number_text_def marker_bytes)

lemma parse_cell_there:
  assumes "data = a @ pair_text ''min('' (gc_min c) @ pair_text ''max('' (gc_max c) @ number_text ''row:'' (gc_row c) @
      number_text ''col:'' (gc_col c) @ w" and "cell_printable c"
  shows "parse_cell data (length a) =
    (length (a @ pair_text ''min('' (gc_min c) @ pair_text ''max('' (gc_max c) @ number_text ''row:'' (gc_row c)) + 1, True, cell_parsed c)"
proof -
  let ?lo = "pair_text ''min('' (gc_min c)" and ?hi = "pair_text ''max('' (gc_max c)"
  let ?row = "number_text ''row:'' (gc_row c)" and ?col = "number_text ''col:'' (gc_col c)"
  note free = cell_parts_free [OF assms(2)]
  have pr: "vec2_printable (gc_min c)" "vec2_printable (gc_max c)" "- (2 ^ 31) \<le> gc_row c" "gc_row c < 2 ^ 31"
      "- (2 ^ 31) \<le> gc_col c" "gc_col c < 2 ^ 31"
    using assms(2) by (simp_all add: cell_printable_def)
  have 1: "find_text_from (str_bytes ''min('') data (length a) = Some (length a + length ([] :: bytes))"
    by (rule find_text_from_skip [where v = "drop 4 ?lo @ ?hi @ ?row @ ?col @ w"]) (simp_all add: assms(1) pair_text_def marker_bytes)
  have 2: "find_text_from (str_bytes ''max('') data (length a) = Some (length a + length ?lo)"
  proof -
    have e: "?lo @ ?hi @ ?row @ ?col @ w = 109 # tl ?lo @ str_bytes ''max('' @ drop 4 ?hi @ ?row @ ?col @ w"
      by (simp add: pair_text_def marker_bytes)
    have f: "find_text (str_bytes ''max('') (109 # tl ?lo @ str_bytes ''max('' @ drop 4 ?hi @ ?row @ ?col @ w) = Some (Suc (length (tl ?lo)))"
      by (rule find_text_skip_one) (use free(1) in \<open>simp_all add: pair_text_def marker_bytes\<close>)
    have "Suc (length (tl ?lo)) = length ?lo" by (simp add: pair_text_def marker_bytes)
    then have "find_text (str_bytes ''max('') (?lo @ ?hi @ ?row @ ?col @ w) = Some (length ?lo)"
      using f unfolding e by (simp only:)
    then show ?thesis by (simp add: find_text_from_def assms(1))
  qed
  have 3: "find_text_from (str_bytes ''row:'') data (length a) = Some (length a + length (?lo @ ?hi))"
    by (rule find_text_from_skip [where v = "drop 4 ?row @ ?col @ w"])
      (use free(2) in \<open>simp_all add: assms(1) number_text_def marker_bytes\<close>)
  have 4: "find_text_from (str_bytes ''col:'') data (length a) = Some (length a + length (?lo @ ?hi @ ?row))"
    by (rule find_text_from_skip [where v = "drop 4 ?col @ w"])
      (use free(3) in \<open>simp_all add: assms(1) number_text_def marker_bytes\<close>)
  have "parse_pair ''min('' data (length a) = (Some (length (a @ [])), True, Some (gc_min c))"
    by (rule parse_pair_there [where w = "?hi @ ?row @ ?col @ w"]) (use 1 pr in \<open>simp_all add: assms(1) marker_bytes\<close>)
  moreover have "parse_pair ''max('' data (length a) = (Some (length (a @ ?lo)), True, Some (gc_max c))"
    by (rule parse_pair_there [where w = "?row @ ?col @ w"]) (use 2 pr in \<open>simp_all add: assms(1) marker_bytes\<close>)
  moreover have "parse_number ''row:'' data (length a) = (Some (length (a @ ?lo @ ?hi)), True, Some (gc_row c))"
    by (rule parse_number_there [where w = "?col @ w"]) (use 3 pr in \<open>simp_all add: assms(1) marker_bytes\<close>)
  moreover have "parse_number ''col:'' data (length a) = (Some (length (a @ ?lo @ ?hi @ ?row)), True, Some (gc_col c))"
    by (rule parse_number_there [where w = w]) (use 4 pr in \<open>simp_all add: assms(1) marker_bytes\<close>)
  ultimately show ?thesis
    by (simp add: parse_cell_def next_position_def cell_parsed_def)
qed

lemma parse_cells_step:
  assumes "pos < length data" and "find_text_from (str_bytes ''cell:'') data pos = Some p"
    and "parse_cell data (p + 5) = (pos', ok, c)"
  shows "parse_cells data pos acc = parse_cells data pos' (if ok then acc @ [c] else acc)"
  using assms by (subst parse_cells.simps) simp

lemma parse_cells_all:
  assumes "list_all cell_printable cs" and "data = a @ u @ concat (map cell_text cs)" and "99 \<notin> set u"
  shows "parse_cells data (length a) acc = Some (acc @ map cell_parsed cs)"
  using assms
proof (induction cs arbitrary: a u acc)
  case Nil
  have "\<not> prefix (str_bytes ''cell:'') (drop k u)" for k
  proof
    assume "prefix (str_bytes ''cell:'') (drop k u)"
    then have "99 \<in> set (drop k u)" by (auto simp: prefix_def marker_bytes)
    then show False using Nil(3) in_set_dropD by fast
  qed
  then have "find_text (str_bytes ''cell:'') u = None"
    using find_text_Some [of "str_bytes ''cell:''" u] by (cases "find_text (str_bytes ''cell:'') u") (auto simp: marker_bytes)
  then have "find_text_from (str_bytes ''cell:'') data (length a) = None" using Nil(2) by (simp add: find_text_from_def)
  then show ?case by (subst parse_cells.simps) simp
next
  case (Cons c cs)
  let ?lo = "pair_text ''min('' (gc_min c)" and ?hi = "pair_text ''max('' (gc_max c)"
  let ?row = "number_text ''row:'' (gc_row c)" and ?col = "number_text ''col:'' (gc_col c)"
  let ?w = "concat (map cell_text cs)" and ?a = "a @ u @ str_bytes ''cell:''"
  have pr: "cell_printable c" "list_all cell_printable cs" using Cons.prems(1) by simp_all
  have d: "data = a @ u @ str_bytes ''cell:'' @ ?lo @ ?hi @ ?row @ ?col @ ?w" using Cons.prems(2) by (simp add: cell_text_def [of c])
  have f: "find_text_from (str_bytes ''cell:'') data (length a) = Some (length a + length u)"
    by (rule find_text_from_skip [OF d]) (use Cons.prems(3) in \<open>simp_all add: marker_bytes\<close>)
  have five: "length a + length u + 5 = length ?a" by (simp add: marker_bytes)
  have "parse_cell data (length ?a) = (length (?a @ ?lo @ ?hi @ ?row) + 1, True, cell_parsed c)"
    by (rule parse_cell_there [OF _ pr(1)]) (simp add: d)
  then have cell: "parse_cell data (length a + length u + 5) = (length (?a @ ?lo @ ?hi @ ?row) + 1, True, cell_parsed c)"
    unfolding five .
  have len: "length a < length data" by (simp add: d marker_bytes)
  have step: "parse_cells data (length a) acc = parse_cells data (length (?a @ ?lo @ ?hi @ ?row) + 1) (acc @ [cell_parsed c])"
    using parse_cells_step [OF len f cell, of acc] by simp
  have col: "?col = 99 # tl ?col" by (simp add: number_text_def marker_bytes)
  have next': "data = (?a @ ?lo @ ?hi @ ?row @ [99]) @ tl ?col @ ?w" using d col by simp
  have "parse_cells data (length (?a @ ?lo @ ?hi @ ?row @ [99])) (acc @ [cell_parsed c]) = Some ((acc @ [cell_parsed c]) @ map cell_parsed cs)"
    by (rule Cons.IH [OF pr(2) next' cell_parts_free(4) [OF pr(1)]])
  then show ?case using step by simp
qed

lemma cells_text_read:
  assumes "list_all cell_printable (cs_cells s)" and "head_clear ''grid_cells:'' part i"
  shows "parse_grid_shape (cells_text part i s) = Some (map cell_parsed (cs_cells s))"
proof -
  have f: "find_text_from (str_bytes ''grid_cells:'') (cells_text part i s) 0 = Some (length (shape_head part i))"
    by (rule head_marker [OF assms(2)]) (simp_all add: cells_text_def)
  have "parse_cells (cells_text part i s) (length (shape_head part i @ str_bytes ''grid_cells:'')) [] = Some ([] @ map cell_parsed (cs_cells s))"
    by (rule parse_cells_all [OF assms(1), where u = "[]"]) (simp_all add: cells_text_def)
  moreover have "length (shape_head part i @ str_bytes ''grid_cells:'') = length (shape_head part i) + 11"
    by (simp add: str_bytes_def)
  ultimately show ?thesis using f unfolding parse_grid_shape_def by simp
qed

section \<open>A loop that does not end\<close>

text \<open>When a section occurs nowhere, every cell that is found sends the loop back to the front.\<close>

lemma missing_section:
  assumes "find_text (str_bytes marker) data = None" and "marker \<in> {''min('', ''max('', ''row:'', ''col:''}"
  shows "\<exists>ok c. parse_cell data pos = (0, ok, c)"
proof -
  have "find_text_from (str_bytes marker) data pos = None"
  proof (rule ccontr)
    assume "find_text_from (str_bytes marker) data pos \<noteq> None"
    then obtain k where "find_text (str_bytes marker) (drop pos data) = Some k" by (auto simp: find_text_from_def split: if_splits)
    moreover have "str_bytes marker \<noteq> []" using assms(2) by (auto simp: marker_bytes)
    ultimately have "prefix (str_bytes marker) (drop (k + pos) data)" by (simp add: find_text_Some)
    then show False using find_text_there [OF \<open>str_bytes marker \<noteq> []\<close>] assms(1) by fastforce
  qed
  then have "parse_pair marker data pos = (None, True, None)" "parse_number marker data pos = (None, True, None)"
    by (simp_all add: parse_pair_def parse_number_def)
  then show ?thesis
    using assms(2) by (auto simp: parse_cell_def next_position_def split: prod.split)
qed

lemma parse_cells_endless:
  assumes "find_text (str_bytes marker) data = None" and "marker \<in> {''min('', ''max('', ''row:'', ''col:''}"
    and "find_text (str_bytes ''cell:'') data \<noteq> None" and "find_text_from (str_bytes ''cell:'') data pos \<noteq> None"
  shows "parse_cells data pos acc = None"
proof -
  have "d = data \<longrightarrow> find_text_from (str_bytes ''cell:'') data pos = None" if "parse_cells d pos acc = Some r" for d pos acc r
    using that
  proof (induction rule: parse_cells.raw_induct [rotated, consumes 1, case_names step])
    case (step self d pos acc r)
    show ?case
    proof (intro impI, rule ccontr)
      assume d: "d = data" and "find_text_from (str_bytes ''cell:'') data pos \<noteq> None"
      then obtain p where p: "find_text_from (str_bytes ''cell:'') data pos = Some p" by blast
      obtain ok c where "parse_cell data (p + 5) = (0, ok, c)" using missing_section [OF assms(1,2)] by blast
      then have "self data 0 (if ok then acc @ [c] else acc) = Some r"
        using step(2) p find_text_from_bounds [OF _ p] by (simp add: d marker_bytes split: if_splits)
      then have "find_text_from (str_bytes ''cell:'') data 0 = None" using step(1) by blast
      then show False using assms(3) by (simp add: find_text_from_def option.map_id0 [unfolded id_def])
    qed
  qed
  then show ?thesis using assms(4) by (cases "parse_cells data pos acc") auto
qed

section \<open>Properties\<close>

context redis
begin

lemma stored_fetched:
  assumes "with_sync C = R" and "hash_key k" and "db_hset C k f v db = (n, db')"
  shows "db_hget C k f db' = Some v \<and> n = (if hash_of db k f = None then 1 else 0)"
  using hset [OF assms(2), of f v db n db'] hget [OF assms(2)] assms(1,3) by (simp add: db_hset_def db_hget_def)

end

lemma shape_text_nonempty: "shape_text part i s \<noteq> []" "cells_text part i g \<noteq> []"
  by (simp_all add: shape_text_def cells_text_def shape_head_def str_bytes_def)

text \<open>C33: a shape that is stored for a partition is fetched and parsed unchanged, vertex by vertex, when its
  coordinates are multiples of a sixty-fourth; storing reports success only when the partition had no shape
  before.\<close>

theorem shape_manifest_roundtrip:
  assumes "redis R hash_key hash_of set_of" and "with_sync C = R" and "hash_key shape_table"
    and "shape_printable s" and "head_clear ''triangles:'' part i" and "shape_store C part i s db = (b, db')"
  shows "\<exists>data. shape_fetch C part db' = Inr (Some data) \<and> shape_from_string data = Inr s \<and>
    (b \<longleftrightarrow> hash_of db shape_table part = None)"
proof -
  obtain n where n: "db_hset C shape_table part (shape_text part i s) db = (n, db')" "b = (n \<noteq> 0)"
    using assms(6) by (auto simp: shape_store_def split: prod.splits)
  show ?thesis
    using redis.stored_fetched [OF assms(1-3) n(1)] shape_text_read [OF assms(4,5)] n(2)
    by (simp add: shape_fetch_def shape_text_nonempty)
qed

lemma printable_half: "f_printable 0" "f_printable f_half"
  by (simp_all add: f_printable_def f_half_def f_exact)

theorem shape_manifest_roundtrip_witness:
  "\<exists>data. shape_fetch mem_connection (str_bytes ''p'') (snd (shape_store mem_connection (str_bytes ''p'') 0
       (rectangle_shape (vec2_of 0 0) (vec2_of f_half f_half)) mem_empty)) = Inr (Some data) \<and>
     shape_from_string data = Inr (rectangle_shape (vec2_of 0 0) (vec2_of f_half f_half))"
proof -
  have ax: "redis mem_redis (\<lambda>_. True) mem_hash mem_set" by (rule memredis.redis_axioms)
  have pr: "shape_printable (rectangle_shape (vec2_of 0 0) (vec2_of f_half f_half))"
    by (simp add: shape_printable_def rectangle_shape_def Let_def vec2_printable_def printable_half)
  have cl: "head_clear ''triangles:'' (str_bytes ''p'') 0"
    by (simp add: head_clear_def shape_head_def str_bytes_def find_text_Cons dec_of_int_def dec_of.simps [of 0])
  show ?thesis
    using shape_manifest_roundtrip [OF ax with_sync_mem _ pr cl, of mem_empty] by (metis prod.collapse)
qed

text \<open>Grid cells that are stored are fetched and parsed unchanged, in order, rows and columns included, and
  the parser ends.\<close>

theorem cell_manifest_roundtrip:
  assumes "redis R hash_key hash_of set_of" and "with_sync C = R" and "hash_key cell_table"
    and "list_all cell_printable (cs_cells s)" and "head_clear ''grid_cells:'' part i" and "cells_store C part i s db = (b, db')"
  shows "\<exists>data. cells_fetch C part db' = Inr (Some data) \<and> parse_grid_shape data = Some (map cell_parsed (cs_cells s))"
proof -
  obtain n where n: "db_hset C cell_table part (cells_text part i s) db = (n, db')"
    using assms(6) by (auto simp: cells_store_def split: prod.splits)
  show ?thesis
    using redis.stored_fetched [OF assms(1-3) n] cells_text_read [OF assms(4,5)]
    by (simp add: cells_fetch_def shape_text_nonempty)
qed

definition half_cell :: grid_cell2 where
  "half_cell = \<lparr> gc_min = vec2_of 0 0, gc_max = vec2_of f_half f_half, gc_row = 0, gc_col = 1 \<rparr>"

theorem cell_manifest_roundtrip_witness:
  "\<exists>data. cells_fetch mem_connection (str_bytes ''p'') (snd (cells_store mem_connection (str_bytes ''p'') 0
       \<lparr> cs_cells = [half_cell], cs_partition = [] \<rparr> mem_empty)) = Inr (Some data) \<and>
     parse_grid_shape data = Some [cell_parsed half_cell]"
proof -
  have ax: "redis mem_redis (\<lambda>_. True) mem_hash mem_set" by (rule memredis.redis_axioms)
  have pr: "list_all cell_printable (cs_cells \<lparr> cs_cells = [half_cell], cs_partition = [] \<rparr>)"
    by (simp add: half_cell_def cell_printable_def vec2_printable_def printable_half)
  have cl: "head_clear ''grid_cells:'' (str_bytes ''p'') 0"
    by (simp add: head_clear_def shape_head_def str_bytes_def find_text_Cons dec_of_int_def dec_of.simps [of 0])
  obtain b db' where st: "cells_store mem_connection (str_bytes ''p'') 0 \<lparr> cs_cells = [half_cell], cs_partition = [] \<rparr> mem_empty = (b, db')"
    by (rule prod.exhaust)
  show ?thesis using cell_manifest_roundtrip [OF ax with_sync_mem _ pr cl st] by (simp add: st)
qed

text \<open>The parser of grid cells does not end on a text that has a cell and lacks one of the four sections:
  the missing position wraps around to the front of the text, again and again.\<close>

theorem cell_parser_endless:
  assumes "find_text (str_bytes marker) data = None" and "marker \<in> {''min('', ''max('', ''row:'', ''col:''}"
    and "find_text_from (str_bytes ''grid_cells:'') data 0 = Some start"
    and "find_text_from (str_bytes ''cell:'') data (start + 11) \<noteq> None"
  shows "parse_grid_shape data = None"
proof -
  obtain k where "find_text (str_bytes ''cell:'') (drop (start + 11) data) = Some k"
    using assms(4) by (auto simp: find_text_from_def split: if_splits)
  then have "prefix (str_bytes ''cell:'') (drop (k + (start + 11)) data)" by (simp add: find_text_Some marker_bytes)
  then have "find_text (str_bytes ''cell:'') data \<noteq> None" using find_text_there [of "str_bytes ''cell:''"] by (fastforce simp: marker_bytes)
  from parse_cells_endless [OF assms(1,2) this assms(4)] show ?thesis by (simp add: parse_grid_shape_def assms(3))
qed

definition cut_text :: bytes where
  "cut_text = str_bytes ''grid_cells:cell:min(0,0);max(1,1);row:0;''"

lemma cut_text_bytes:
  "cut_text = [103, 114, 105, 100, 95, 99, 101, 108, 108, 115, 58, 99, 101, 108, 108, 58, 109, 105, 110, 40, 48, 44, 48, 41, 59,
     109, 97, 120, 40, 49, 44, 49, 41, 59, 114, 111, 119, 58, 48, 59]"
  by (simp add: cut_text_def str_bytes_def)

theorem cell_parser_endless_witness: "parse_grid_shape cut_text = None"
proof (rule cell_parser_endless [of "''col:''" _ 0])
  show "find_text (str_bytes ''col:'') cut_text = None"
    unfolding cut_text_bytes marker_bytes by (simp add: find_text_Cons find_text_Nil)
  have "find_text (str_bytes ''grid_cells:'') cut_text = Some 0"
    unfolding cut_text_bytes by (simp add: find_text_Cons str_bytes_def)
  then show "find_text_from (str_bytes ''grid_cells:'') cut_text 0 = Some 0" by (simp add: find_text_from_def)
  show "find_text_from (str_bytes ''cell:'') cut_text (0 + 11) \<noteq> None"
    unfolding cut_text_bytes marker_bytes by (simp add: find_text_Cons find_text_from_def)
qed simp

end
