(* ===== verification/Unity_Bridge.thy ===== *)
theory Unity_Bridge
  imports Io_Actions Shape_Manifests Docker_Client
begin

text \<open>
  The bindings for Unity (\<open>API/Server/Unity\<close>): the text of an entity and its way to an address
  (\<open>KDNetUnityAPI.cpp\<close>, \<open>EntityJsonSender.hpp\<close>), and the bridges to the library of the servers and to the one of
  the clients (\<open>AtlasServerUnityBridge.cpp\<close>, \<open>AtlasClientBridge.cpp\<close>). The HTTP library of Windows, the printing
  of numbers by a stream and the two libraries behind the bridges, whose older interfaces they use, are
  parameters. What is printed is left out.
\<close>

section \<open>Addresses\<close>

definition kdnet_ok :: int where "kdnet_ok = 0"

definition kdnet_http_fail :: int where "kdnet_http_fail = 2"

text \<open>What follows the scheme: the host up to the first slash and the path from there.\<close>

definition host_and_path :: "bytes \<Rightarrow> bytes \<times> bytes" where
  "host_and_path rest = (case find_from 47 rest 0 of None \<Rightarrow> (rest, [47]) | Some k \<Rightarrow> (take k rest, drop k rest))"

definition split_port :: "int \<Rightarrow> bytes \<Rightarrow> (bytes \<times> int) res" where
  "split_port port host =
    (case find_from 58 host 0 of
       None \<Rightarrow> Inr (host, port)
     | Some k \<Rightarrow> bindE (stoi (drop (k + 1) host)) (\<lambda>p. Inr (take k host, p)))"

text \<open>Nothing for a scheme that is not known; else whether it is the secure one, the host, the port and the path.\<close>

definition parse_url :: "bytes \<Rightarrow> (bool \<times> bytes \<times> int \<times> bytes) option res" where
  "parse_url url =
    (if prefix (str_bytes ''http://'') url
     then (case host_and_path (drop 7 url) of (host, path) \<Rightarrow>
       bindE (split_port 80 host) (\<lambda>(host, port). Inr (Some (False, host, port, path))))
     else if prefix (str_bytes ''https://'') url
     then (case host_and_path (drop 8 url) of (host, path) \<Rightarrow>
       bindE (split_port 443 host) (\<lambda>(host, port). Inr (Some (True, host, port, path))))
     else Inr None)"

section \<open>Sending\<close>

text \<open>The library: handles are numbers, the null handle is none. The state keeps which were opened and closed.\<close>

record 'w http_ops =
  wh_open :: "'w \<Rightarrow> nat option \<times> 'w"
  wh_connect :: "nat \<Rightarrow> bytes \<Rightarrow> 16 word \<Rightarrow> 'w \<Rightarrow> nat option \<times> 'w"
  wh_request :: "nat \<Rightarrow> bytes \<Rightarrow> bool \<Rightarrow> 'w \<Rightarrow> nat option \<times> 'w"
  wh_send :: "nat \<Rightarrow> bytes \<Rightarrow> bytes \<Rightarrow> 'w \<Rightarrow> bool \<times> 'w"
  wh_receive :: "nat \<Rightarrow> 'w \<Rightarrow> bool \<times> 'w"
  wh_status :: "nat \<Rightarrow> 'w \<Rightarrow> u32 option"
  wh_close :: "nat \<Rightarrow> 'w \<Rightarrow> 'w"

record 'w http_state =
  hs_world :: 'w
  hs_opened :: "nat list"
  hs_closed :: "nat list"

definition acquire :: "('w \<Rightarrow> nat option \<times> 'w) \<Rightarrow> ('w http_state, nat option) io" where
  "acquire f = (\<lambda>s. case f (hs_world s) of (h, w) \<Rightarrow>
     (Inr h, s \<lparr> hs_world := w, hs_opened := hs_opened s @ (case h of None \<Rightarrow> [] | Some k \<Rightarrow> [k]) \<rparr>))"

definition release :: "'w http_ops \<Rightarrow> nat \<Rightarrow> ('w http_state, unit) io" where
  "release P h = modifyIO (\<lambda>s. s \<lparr> hs_world := wh_close P h (hs_world s), hs_closed := hs_closed s @ [h] \<rparr>)"

definition wh_answer :: "('w \<Rightarrow> bool \<times> 'w) \<Rightarrow> ('w http_state, bool) io" where
  "wh_answer f = (\<lambda>s. case f (hs_world s) of (b, w) \<Rightarrow> (Inr b, s \<lparr> hs_world := w \<rparr>))"

definition content_header :: bytes where
  "content_header = str_bytes ''Content-Type: application/json'' @ [13, 10]"

definition exchange :: "'w http_ops \<Rightarrow> nat \<Rightarrow> bytes \<Rightarrow> ('w http_state, int) io" where
  "exchange P r text =
    bindIO (wh_answer (wh_send P r content_header text)) (\<lambda>ok.
    bindIO (if ok then wh_answer (wh_receive P r) else returnIO False) (\<lambda>ok.
    bindIO (getIO (\<lambda>s. if ok then (case wh_status P r (hs_world s) of None \<Rightarrow> 0 | Some st \<Rightarrow> st) else 0)) (\<lambda>status.
    returnIO (if ok \<and> 200 \<le> status \<and> status < 300 then kdnet_ok else kdnet_http_fail))))"

text \<open>The port is cut to sixteen bits. On other systems the function ends without a result.\<close>

definition send_entity_to_server :: "'w http_ops \<Rightarrow> bool \<Rightarrow> bytes \<Rightarrow> bytes \<Rightarrow> ('w http_state, int) io" where
  "send_entity_to_server P windows text url =
    (if \<not> windows then liftIO (Inl (UB Missing_Return))
     else bindIO (liftIO (parse_url url)) (\<lambda>u. case u of
       None \<Rightarrow> returnIO kdnet_http_fail
     | Some (secure, host, port, path) \<Rightarrow>
         bindIO (acquire (wh_open P)) (\<lambda>s. case s of
           None \<Rightarrow> returnIO kdnet_http_fail
         | Some s \<Rightarrow>
             bindIO (acquire (wh_connect P s host (word_of_int port))) (\<lambda>c. case c of
               None \<Rightarrow> thenIO (release P s) (returnIO kdnet_http_fail)
             | Some c \<Rightarrow>
                 bindIO (acquire (wh_request P c path secure)) (\<lambda>r. case r of
                   None \<Rightarrow> thenIO (release P c) (thenIO (release P s) (returnIO kdnet_http_fail))
                 | Some r \<Rightarrow>
                     bindIO (exchange P r text) (\<lambda>code.
                     thenIO (release P r) (thenIO (release P c) (thenIO (release P s) (returnIO code)))))))))"

section \<open>Registering entities\<close>

definition comma_list :: "(f32 \<Rightarrow> bytes) \<Rightarrow> f32 list \<Rightarrow> bytes" where
  "comma_list show_f xs = [91] @ join_on 44 (map show_f xs) @ [93]"

text \<open>The identifier is put between quotes as it is.\<close>

definition entity_json :: "(f32 \<Rightarrow> bytes) \<Rightarrow> bytes \<Rightarrow> f32 list \<Rightarrow> f32 list \<Rightarrow> f32 list \<Rightarrow> bytes" where
  "entity_json show_f i p r s =
    str_bytes ''{\"id\":\"'' @ i @ str_bytes ''\",\"position\":'' @ comma_list show_f p @
    str_bytes '',\"rotation\":'' @ comma_list show_f r @ str_bytes '',\"scale\":'' @ comma_list show_f s @ str_bytes ''}''"

record 'w kdnet =
  kd_endpoint :: bytes
  kd_http :: "'w http_state"

definition kdnet_new :: "'w \<Rightarrow> 'w kdnet" where
  "kdnet_new w =
    \<lparr> kd_endpoint = str_bytes ''http://127.0.0.1:7001/entity'', kd_http = \<lparr> hs_world = w, hs_opened = [], hs_closed = [] \<rparr> \<rparr>"

text \<open>A null pointer and an empty address change nothing.\<close>

definition kdnet_set_endpoint :: "bytes option \<Rightarrow> ('w kdnet, int) io" where
  "kdnet_set_endpoint url =
    thenIO (modifyIO (\<lambda>s. case url of None \<Rightarrow> s | Some u \<Rightarrow> if u = [] then s else s \<lparr> kd_endpoint := u \<rparr>)) (returnIO kdnet_ok)"

definition kdnet_register_entity :: "'w http_ops \<Rightarrow> bool \<Rightarrow> (f32 \<Rightarrow> bytes) \<Rightarrow> bytes option \<Rightarrow> f32 list \<Rightarrow> f32 list \<Rightarrow> f32 list
    \<Rightarrow> ('w kdnet, int) io" where
  "kdnet_register_entity P windows show_f i p r s =
    (case i of
       None \<Rightarrow> liftIO (Inl (UB Null_Deref))
     | Some i \<Rightarrow> bindIO (getIO kd_endpoint) (\<lambda>url.
         zoomIO kd_http (\<lambda>h k. k \<lparr> kd_http := h \<rparr>) (send_entity_to_server P windows (entity_json show_f i p r s) url)))"

section \<open>The bridge to the servers\<close>

text \<open>The library behind the bridge: a new server, its initialisation and its update, which gives the entities that
  come in and the identifiers of those that go out.\<close>

record ('v, 'e, 'i) server_ops =
  sb_new :: 'v
  sb_initialize :: "('v, unit) io"
  sb_update :: "'e list \<Rightarrow> ('v, 'e list \<times> 'i list) io"

definition atlas_initialize :: "('v, 'e, 'i) server_ops \<Rightarrow> ('v option, int) io" where
  "atlas_initialize P = (\<lambda>_. case sb_initialize P (sb_new P) of
     (Inr _, v) \<Rightarrow> (Inr 0, Some v)
   | (Inl x, v) \<Rightarrow> (if catchable x then Inr (- 1) else Inl x, Some v))"

text \<open>A number of elements as an \<open>int32_t\<close>, and a copy of so many of them to a buffer, which may be missing, but
  is not asked for its size.\<close>

definition count32 :: "'a list \<Rightarrow> int" where
  "count32 xs = sint (word_of_nat (length xs) :: u32)"

definition copy_out :: "'a list \<Rightarrow> 'a list option \<Rightarrow> 'a list option res" where
  "copy_out xs buf =
    (let n = nat (count32 xs)
     in case buf of
          None \<Rightarrow> Inr None
        | Some b \<Rightarrow> if length b < n then Inl (UB Out_Of_Bounds) else Inr (Some (take n xs @ drop n b)))"

record ('e, 'i) update_result =
  ur_code :: int
  ur_entities :: "'e list option"
  ur_entity_count :: "int option"
  ur_ids :: "'i list option"
  ur_id_count :: "int option"

definition atlas_update :: "('v, 'e, 'i) server_ops \<Rightarrow> 'e list \<Rightarrow> 'e list option \<Rightarrow> 'i list option \<Rightarrow> ('v option, ('e, 'i) update_result) io" where
  "atlas_update P es ebuf ibuf = (\<lambda>g. case g of
     None \<Rightarrow> (Inr \<lparr> ur_code = - 1, ur_entities = ebuf, ur_entity_count = None, ur_ids = ibuf, ur_id_count = None \<rparr>, None)
   | Some v \<Rightarrow>
       (case sb_update P es v of
          (Inl x, v) \<Rightarrow> (Inl x, Some v)
        | (Inr (incoming, outgoing), v) \<Rightarrow>
            (bindE (copy_out incoming ebuf) (\<lambda>eb. bindE (copy_out outgoing ibuf) (\<lambda>ib.
               Inr \<lparr> ur_code = 0, ur_entities = eb, ur_entity_count = Some (count32 incoming),
                 ur_ids = ib, ur_id_count = Some (count32 outgoing) \<rparr>)), Some v)))"

definition atlas_shutdown :: "'v option \<Rightarrow> 'v option" where
  "atlas_shutdown g = None"

section \<open>The bridge to the clients\<close>

record ('c, 'e) client_ops =
  cb_new :: 'c
  cb_initialize :: "('c, unit) io"
  cb_send :: "'e \<Rightarrow> ('c, unit) io"
  cb_tick :: "('c, unit) io"
  cb_get :: "'e list \<Rightarrow> int \<Rightarrow> ('c, 'e list \<times> int) io"
  cb_shutdown :: "('c, unit) io"

definition atlas_client_initialize :: "('c, 'e) client_ops \<Rightarrow> ('c option, int) io" where
  "atlas_client_initialize P = (\<lambda>_. case cb_initialize P (cb_new P) of
     (Inr _, c) \<Rightarrow> (Inr 0, Some c)
   | (Inl x, c) \<Rightarrow> (if catchable x then Inr (- 2) else Inl x, Some c))"

text \<open>A call for the client when there is one.\<close>

definition on_client :: "'a \<Rightarrow> ('c, 'a) io \<Rightarrow> ('c option, 'a) io" where
  "on_client a m = (\<lambda>g. case g of None \<Rightarrow> (Inr a, None) | Some c \<Rightarrow> (case m c of (r, c) \<Rightarrow> (r, Some c)))"

definition atlas_client_send_entity :: "('c, 'e) client_ops \<Rightarrow> 'e \<Rightarrow> ('c option, unit) io" where
  "atlas_client_send_entity P e = on_client () (cb_send P e)"

definition atlas_client_update :: "('c, 'e) client_ops \<Rightarrow> ('c option, unit) io" where
  "atlas_client_update P = on_client () (cb_tick P)"

definition atlas_client_get_entities :: "('c, 'e) client_ops \<Rightarrow> 'e list \<Rightarrow> int \<Rightarrow> ('c option, 'e list \<times> int) io" where
  "atlas_client_get_entities P buf n = on_client (buf, 0) (cb_get P buf n)"

definition atlas_client_shutdown :: "('c, 'e) client_ops \<Rightarrow> ('c option, unit) io" where
  "atlas_client_shutdown P = thenIO (on_client () (cb_shutdown P)) (modifyIO (\<lambda>_. None))"

section \<open>Addresses are taken apart\<close>

lemma find_from_first: "c \<notin> set a \<Longrightarrow> find_from c (a @ c # b) 0 = Some (length a)"
proof -
  assume "c \<notin> set a"
  then have "takeWhile (\<lambda>x. x \<noteq> c) (a @ c # b) = a" by (subst takeWhile_append2) auto
  then show ?thesis by (simp add: find_from_takeWhile)
qed

lemma find_from_absent: "c \<notin> set a \<Longrightarrow> find_from c a 0 = None"
  by (simp add: find_from_takeWhile)

lemma host_and_path_split:
  assumes "47 \<notin> set host"
  shows "host_and_path (host @ 47 # path) = (host, 47 # path)" and "host_and_path host = (host, [47])"
  using assms by (simp_all add: host_and_path_def find_from_first find_from_absent)

lemma split_port_number:
  assumes "58 \<notin> set host" and "p < 2 ^ 31"
  shows "split_port q (host @ 58 # dec_of p) = Inr (host, int p)" and "split_port q host = Inr (host, q)"
  using assms stoi_dec [of "int p"] by (simp_all add: split_port_def find_from_first find_from_absent dec_of_int_def)

text \<open>An address with a host, a port and a path is read as what it is made of.\<close>

theorem parse_url_parts:
  assumes "47 \<notin> set host" "58 \<notin> set host" and "p < 2 ^ 31"
  shows "parse_url (str_bytes ''http://'' @ host @ 58 # dec_of p @ 47 # path) = Inr (Some (False, host, int p, 47 # path))"
    and "parse_url (str_bytes ''http://'' @ host @ 47 # path) = Inr (Some (False, host, 80, 47 # path))"
    and "parse_url (str_bytes ''https://'' @ host) = Inr (Some (True, host, 443, [47]))"
proof -
  have d: "47 \<notin> set (dec_of p)" by (rule dec_of_no) (simp add: is_digit_def)
  then have hp: "47 \<notin> set (host @ 58 # dec_of p)" using assms(1) by simp
  have l: "length (str_bytes ''http://'') = 7" "length (str_bytes ''https://'') = 8" by (simp_all add: str_bytes_def)
  have dr: "drop 7 (str_bytes ''http://'' @ t) = t" "drop 8 (str_bytes ''https://'' @ t) = t" for t by (simp_all add: l)
  have n: "\<not> prefix (str_bytes ''http://'') (str_bytes ''https://'' @ t)" for t by (simp add: str_bytes_def)
  show "parse_url (str_bytes ''http://'' @ host @ 58 # dec_of p @ 47 # path) = Inr (Some (False, host, int p, 47 # path))"
    using host_and_path_split(1) [OF hp, of path] split_port_number(1) [OF assms(2,3)] by (simp add: parse_url_def dr del: drop_append)
  show "parse_url (str_bytes ''http://'' @ host @ 47 # path) = Inr (Some (False, host, 80, 47 # path))"
    using host_and_path_split(1) [OF assms(1)] split_port_number(2) [OF assms(2,3)] by (simp add: parse_url_def dr del: drop_append)
  show "parse_url (str_bytes ''https://'' @ host) = Inr (Some (True, host, 443, [47]))"
    using host_and_path_split(2) [OF assms(1)] split_port_number(2) [OF assms(2,3)] n by (simp add: parse_url_def dr del: drop_append)
qed

section \<open>Handles are closed\<close>

lemma exchange_keeps:
  "exchange P r text s = (x, s') \<Longrightarrow> hs_opened s' = hs_opened s \<and> hs_closed s' = hs_closed s \<and> (x = Inr kdnet_ok \<or> x = Inr kdnet_http_fail)"
  by (auto simp: exchange_def bindIO_def wh_answer_def split: prod.splits if_splits)

text \<open>Whatever fails, the handles that were opened are closed, in the opposite order, and the result is one of the
  two codes.\<close>

theorem send_closes_handles:
  assumes "send_entity_to_server P True text url s = (r, s')"
  shows "\<exists>hs. hs_opened s' = hs_opened s @ hs \<and> hs_closed s' = hs_closed s @ rev hs"
    and "parse_url url = Inr u \<Longrightarrow> r = Inr kdnet_ok \<or> r = Inr kdnet_http_fail"
  using assms
  by (auto simp: send_entity_to_server_def bindIO_def thenIO_def acquire_def release_def dest!: exchange_keeps
      split: prod.splits sum.splits option.splits)

section \<open>Copies and failures of the bridge\<close>

text \<open>The update is defined when the buffers are large enough, and the rest of a buffer stays.\<close>

theorem update_fits:
  assumes "sb_update P es v = (Inr (incoming, outgoing), w)" and "length incoming < 2 ^ 31" "length outgoing < 2 ^ 31"
    and "length incoming \<le> length eb" "length outgoing \<le> length ib"
  shows "atlas_update P es (Some eb) (Some ib) (Some v) =
    (Inr \<lparr> ur_code = 0, ur_entities = Some (incoming @ drop (length incoming) eb), ur_entity_count = Some (int (length incoming)),
       ur_ids = Some (outgoing @ drop (length outgoing) ib), ur_id_count = Some (int (length outgoing)) \<rparr>, Some w)"
proof -
  have c: "count32 xs = int (length xs)" if "length xs < 2 ^ 31" for xs :: "'x list"
    using that by (simp add: count32_def signed_of_nat signed_take_bit_int_eq_self)
  have "count32 incoming = int (length incoming)" "count32 outgoing = int (length outgoing)"
    using assms(2,3) c by simp_all
  then show ?thesis using assms(1,4,5) by (simp add: atlas_update_def copy_out_def)
qed

text \<open>A server whose initialisation failed is kept, and later updates go to it.\<close>

theorem failed_initialize_keeps_server:
  assumes "sb_initialize P (sb_new P) = (Inl x, v)" and "catchable x"
  shows "atlas_initialize P g = (Inr (- 1), Some v)"
  using assms by (simp add: atlas_initialize_def)

end
