(* ===== verification/Entity_Outliers.thy ===== *)
theory Entity_Outliers
  imports Shape_Manifests Json_Store Io_Actions
begin

text \<open>
  The entities of the partitions in the database, in the parked \<open>Native-exc/exc\<close>: the outliers and the snapshots
  (\<open>EntityManifest\<close>) and the managed entities (\<open>PartitionEntityManifest.hpp\<close>). The class \<open>AtlasEntity\<close> these
  files include is no longer in the repository: the fields they use are a record over the type of the
  identifiers, its conversions are parameters. An overwritten field makes \<open>HSET\<close> return zero, which these
  functions return as a failure.
\<close>

section \<open>The class of the entities\<close>

record 'i parked_entity =
  pe_id :: 'i
  pe_pos :: vec3
  pe_player :: bool

text \<open>The value of a new entity, \<open>std::to_string\<close> of an identifier and the conversions to it, the texts and the
  JSON values of an entity, its bytes in memory, and the JSON library.\<close>

record 'i entity_class =
  ec_new :: "'i parked_entity"
  ec_id_text :: "'i \<Rightarrow> bytes"
  ec_id_ulong :: "u64 \<Rightarrow> 'i"
  ec_id_int :: "int \<Rightarrow> 'i"
  ec_to_string :: "'i parked_entity \<Rightarrow> bytes"
  ec_from_string :: "bytes \<Rightarrow> 'i parked_entity res"
  ec_to_json :: "'i parked_entity \<Rightarrow> json"
  ec_from_json :: "json \<Rightarrow> 'i parked_entity res"
  ec_size :: nat
  ec_load :: "bytes \<Rightarrow> 'i parked_entity"
  ec_store :: "'i parked_entity \<Rightarrow> bytes"
  ec_dump :: "json \<Rightarrow> bytes"
  ec_parse :: "bytes \<Rightarrow> json option"

section \<open>Outliers\<close>

definition outliers_table :: string where "outliers_table = ''entity_outliers''"

definition snapshot_table :: string where "snapshot_table = ''entities_snapshot''"

definition bad_access :: "'a res" where
  "bad_access = Inl (RuntimeError ''bad_optional_access'')"

definition outlier_text :: "'i entity_class \<Rightarrow> 'i parked_entity \<Rightarrow> bytes" where
  "outlier_text T e = ec_id_text T (pe_id e) @ [58] @ f_to_string (vx (pe_pos e)) @ [44] @ f_to_string (vz (pe_pos e))"

text \<open>An entry goes after a semicolon unless it is the first.\<close>

definition append_entry :: "bytes \<Rightarrow> bytes \<Rightarrow> bytes" where
  "append_entry s p = (if s = [] then s else s @ [59]) @ p"

text \<open>A hash field is set; the number of new fields is the answer.\<close>

definition hset_flag :: "'db redis_connection \<Rightarrow> string \<Rightarrow> bytes \<Rightarrow> bytes \<Rightarrow> ('db, bool) io" where
  "hset_flag C table field text = (\<lambda>db. case db_hset C table field text db of (n, db) \<Rightarrow> (Inr (n \<noteq> 0), db))"

text \<open>The entries without a given identifier. An entry without a colon is left out.\<close>

fun keep_entries :: "'i entity_class \<Rightarrow> 'i \<Rightarrow> bytes list \<Rightarrow> bytes list res" where
  "keep_entries T i [] = Inr []"
| "keep_entries T i (p # ps) =
    (case find_from 58 p 0 of
       None \<Rightarrow> keep_entries T i ps
     | Some colon \<Rightarrow>
         bindE (stoull (take colon p)) (\<lambda>n.
         bindE (keep_entries T i ps) (\<lambda>qs. Inr (if ec_id_ulong T n = i then qs else p # qs))))"

definition remove_from_outliers :: "'i entity_class \<Rightarrow> 'db redis_connection \<Rightarrow> bytes \<Rightarrow> 'i \<Rightarrow> ('db, bool) io" where
  "remove_from_outliers T C part i = (\<lambda>db.
    case db_hget C outliers_table part db of
      None \<Rightarrow> (bad_access, db)
    | Some data \<Rightarrow>
        if data = [] then (Inr True, db)
        else (case keep_entries T i (getlines 59 data) of
            Inl x \<Rightarrow> (Inl x, db)
          | Inr ps \<Rightarrow> hset_flag C outliers_table part (join_on 59 ps) db))"

definition store_outlier :: "'i entity_class \<Rightarrow> 'db redis_connection \<Rightarrow> bytes \<Rightarrow> 'i parked_entity \<Rightarrow> ('db, bool) io" where
  "store_outlier T C part e = (\<lambda>db.
    case db_hget C outliers_table part db of
      None \<Rightarrow> (bad_access, db)
    | Some current \<Rightarrow> hset_flag C outliers_table part (append_entry current (outlier_text T e)) db)"

definition store_outliers :: "'i entity_class \<Rightarrow> 'db redis_connection \<Rightarrow> bytes \<Rightarrow> 'i parked_entity list \<Rightarrow> ('db, bool) io" where
  "store_outliers T C part es =
    (if es = [] then returnIO True
     else hset_flag C outliers_table part (foldl append_entry [] (map (outlier_text T) es)))"

text \<open>One entry: nothing without a colon before a comma.\<close>

definition parse_outlier :: "'i entity_class \<Rightarrow> bytes \<Rightarrow> 'i parked_entity option res" where
  "parse_outlier T p =
    (case (find_from 58 p 0, find_from 44 p 0) of
       (Some colon, Some comma) \<Rightarrow>
         if colon < comma
         then bindE (stoull (take colon p)) (\<lambda>n.
              bindE (stof (between p (colon + 1) comma)) (\<lambda>x.
              bindE (stof (drop (comma + 1) p)) (\<lambda>z.
              Inr (Some ((ec_new T) \<lparr> pe_id := ec_id_ulong T n, pe_pos := \<lparr> vx = x, vy = 0, vz = z \<rparr> \<rparr>)))))
         else Inr None
     | _ \<Rightarrow> Inr None)"

definition somes :: "'a option list \<Rightarrow> 'a list" where
  "somes xs = concat (map (case_option [] (\<lambda>x. [x])) xs)"

definition fetch_outliers :: "'i entity_class \<Rightarrow> 'db redis_connection \<Rightarrow> bytes \<Rightarrow> 'db \<Rightarrow> 'i parked_entity list res" where
  "fetch_outliers T C part db =
    (case db_hget C outliers_table part db of
       None \<Rightarrow> bad_access
     | Some data \<Rightarrow> bindE (mapE (parse_outlier T) (getlines 59 data)) (\<lambda>es. Inr (somes es)))"

definition clear_outliers :: "'db redis_connection \<Rightarrow> bytes \<Rightarrow> ('db, bool) io" where
  "clear_outliers C part = (\<lambda>db. case db_hdel C outliers_table [part] db of (n, db) \<Rightarrow> (Inr (n \<noteq> 0), db))"

definition clear_all_outliers :: "'db redis_connection \<Rightarrow> ('db, bool) io" where
  "clear_all_outliers C = (\<lambda>db. case db_del_key C outliers_table db of (n, db) \<Rightarrow> (Inr (n \<noteq> 0), db))"

section \<open>Snapshots\<close>

definition store_snapshot :: "'i entity_class \<Rightarrow> 'db redis_connection \<Rightarrow> bytes \<Rightarrow> 'i parked_entity list \<Rightarrow> ('db, bool) io" where
  "store_snapshot T C part es = hset_flag C snapshot_table part (ec_dump T (JArr (map (ec_to_json T) es)))"

definition remove_snapshot :: "'db redis_connection \<Rightarrow> bytes \<Rightarrow> ('db, bool) io" where
  "remove_snapshot C part = (\<lambda>db. case db_hdel C snapshot_table [part] db of (n, db) \<Rightarrow> (Inr (n \<noteq> 0), db))"

text \<open>One partition of all snapshots: a text that is no array, or any exception, leaves it out.\<close>

definition read_snapshot :: "'i entity_class \<Rightarrow> bytes \<Rightarrow> 'i parked_entity list option res" where
  "read_snapshot T text =
    (case ec_parse T text of
       Some (JArr js) \<Rightarrow>
         (case mapE (ec_from_json T) js of
            Inl x \<Rightarrow> if catchable x then Inr None else Inl x
          | Inr es \<Rightarrow> Inr (Some es))
     | _ \<Rightarrow> Inr None)"

definition get_all_snapshots :: "'i entity_class \<Rightarrow> 'db redis_connection \<Rightarrow> 'db \<Rightarrow> (bytes \<times> 'i parked_entity list) list res" where
  "get_all_snapshots T C db =
    bindE (mapE (\<lambda>(part, text). bindE (read_snapshot T text) (\<lambda>r. Inr (map_option (Pair part) r))) (db_hgetall C snapshot_table db))
      (\<lambda>rs. Inr (somes rs))"

definition snapshot_key :: "bytes \<Rightarrow> bytes" where
  "snapshot_key part = part @ str_bytes '':entities_snapshot''"

text \<open>Times are nanoseconds, the interval is in seconds. The answer comes with the time of the last push.\<close>

definition push_snapshot :: "'i entity_class \<Rightarrow> 'db redis_connection \<Rightarrow> bytes \<Rightarrow> 'i parked_entity list \<Rightarrow> int \<Rightarrow> int \<Rightarrow> int
    \<Rightarrow> ('db, bool \<times> int) io" where
  "push_snapshot T C part es now pushed interval =
    (if (now - pushed) div 1000000000 < interval then returnIO (False, pushed)
     else if es = [] then returnIO (False, now)
     else bindIO (store_snapshot T C (snapshot_key part) es) (\<lambda>ok.
       returnIO (ok, if ok then now else pushed)))"

section \<open>Managed entities\<close>

definition partition_key :: "bytes \<Rightarrow> string" where
  "partition_key part = ''partition_entities:'' @ bytes_str part"

definition entities_field :: bytes where "entities_field = str_bytes ''entities''"

definition store_entities :: "'i entity_class \<Rightarrow> 'db redis_connection \<Rightarrow> bytes \<Rightarrow> 'i parked_entity list \<Rightarrow> ('db, bool) io" where
  "store_entities T C part es =
    (if es = [] then (\<lambda>db. case db_del_key C (partition_key part) db of (n, db) \<Rightarrow> (Inr (n \<noteq> 0), db))
     else hset_flag C (partition_key part) entities_field (foldl append_entry [] (map (ec_to_string T) es)))"

text \<open>One piece of the text: empty pieces, pieces without a colon and pieces that do not parse are skipped.\<close>

definition parse_managed :: "'i entity_class \<Rightarrow> bytes \<Rightarrow> 'i parked_entity option res" where
  "parse_managed T p =
    (if p = [] \<or> find_from 58 p 0 = None then Inr None
     else case ec_from_string T p of
       Inr e \<Rightarrow> Inr (Some e)
     | Inl x \<Rightarrow> if catchable x then Inr None else Inl x)"

definition fetch_entities :: "'i entity_class \<Rightarrow> 'db redis_connection \<Rightarrow> bytes \<Rightarrow> 'db \<Rightarrow> 'i parked_entity list res" where
  "fetch_entities T C part db =
    (case db_hget C (partition_key part) entities_field db of
       None \<Rightarrow> Inr []
     | Some data \<Rightarrow> bindE (mapE (parse_managed T) (getlines 59 data)) (\<lambda>es. Inr (somes es)))"

definition add_entity :: "'i entity_class \<Rightarrow> 'db redis_connection \<Rightarrow> bytes \<Rightarrow> 'i parked_entity \<Rightarrow> ('db, bool) io" where
  "add_entity T C part e = (\<lambda>db. case fetch_entities T C part db of
     Inl x \<Rightarrow> (Inl x, db)
   | Inr es \<Rightarrow> store_entities T C part (es @ [e]) db)"

definition remove_entity :: "'i entity_class \<Rightarrow> 'db redis_connection \<Rightarrow> bytes \<Rightarrow> 'i \<Rightarrow> ('db, bool) io" where
  "remove_entity T C part i = (\<lambda>db. case fetch_entities T C part db of
     Inl x \<Rightarrow> (Inl x, db)
   | Inr es \<Rightarrow> store_entities T C part (filter (\<lambda>e. pe_id e \<noteq> i) es) db)"

definition clear_partition :: "'db redis_connection \<Rightarrow> bytes \<Rightarrow> ('db, bool) io" where
  "clear_partition C part = (\<lambda>db.
     if db_exists C (partition_key part) db
     then (case db_del_key C (partition_key part) db of (n, db) \<Rightarrow> (Inr (n \<noteq> 0), db))
     else (Inr True, db))"

definition get_entity_count :: "'i entity_class \<Rightarrow> 'db redis_connection \<Rightarrow> bytes \<Rightarrow> 'db \<Rightarrow> nat res" where
  "get_entity_count T C part db = bindE (fetch_entities T C part db) (\<lambda>es. Inr (length es))"

definition has_entities :: "'i entity_class \<Rightarrow> 'db redis_connection \<Rightarrow> bytes \<Rightarrow> 'db \<Rightarrow> bool res" where
  "has_entities T C part db = bindE (get_entity_count T C part db) (\<lambda>n. Inr (0 < n))"

definition clear_all_partition_manifests :: bool where
  "clear_all_partition_manifests = False"

section \<open>All entities\<close>

text \<open>An entry of a snapshot, which is read like an entry of the outliers; exceptions leave it out.\<close>

definition parse_snapshot_entry :: "'i entity_class \<Rightarrow> bytes \<Rightarrow> 'i parked_entity option res" where
  "parse_snapshot_entry T p =
    (case parse_outlier T p of Inl x \<Rightarrow> if catchable x then Inr None else Inl x | r \<Rightarrow> r)"

definition fetch_snapshot :: "'i entity_class \<Rightarrow> 'db redis_connection \<Rightarrow> bytes \<Rightarrow> 'db \<Rightarrow> 'i parked_entity list res" where
  "fetch_snapshot T C part db =
    (case db_hget C snapshot_table (snapshot_key part) db of
       None \<Rightarrow> Inr []
     | Some data \<Rightarrow> bindE (mapE (parse_snapshot_entry T) (getlines 59 data)) (\<lambda>es. Inr (somes es)))"

definition fetch_partition :: "'i entity_class \<Rightarrow> 'db redis_connection \<Rightarrow> bool \<Rightarrow> bool \<Rightarrow> 'db \<Rightarrow> bytes \<Rightarrow> 'i parked_entity list res" where
  "fetch_partition T C outliers snapshots db part =
    bindE (fetch_entities T C part db) (\<lambda>ms.
    bindE (if outliers then fetch_outliers T C part db else Inr []) (\<lambda>os.
    bindE (if snapshots then fetch_snapshot T C part db else Inr []) (\<lambda>ss. Inr (ms @ os @ ss))))"

definition fetch_all_entities :: "'i entity_class \<Rightarrow> 'db redis_connection \<Rightarrow> bytes list \<Rightarrow> bool \<Rightarrow> bool \<Rightarrow> 'db
    \<Rightarrow> 'i parked_entity list res" where
  "fetch_all_entities T C parts outliers snapshots db =
    bindE (mapE (fetch_partition T C outliers snapshots db) parts) (\<lambda>ess. Inr (concat ess))"

text \<open>One entity for each identifier, the last; the table gives them in no particular order.\<close>

definition deduplicate :: "'i parked_entity list \<Rightarrow> 'i parked_entity list" where
  "deduplicate es = map snd (foldl (\<lambda>m e. AList.update (pe_id e) e m) [] es)"

section \<open>Reading what was written\<close>

lemma append_entries:
  assumes "ps \<noteq> []" and "\<forall>p\<in>set ps. p \<noteq> []"
  shows "foldl append_entry s ps = append_entry s (join_on 59 ps)"
  using assms
proof (induction ps arbitrary: s)
  case (Cons p ps)
  have ne: "append_entry s p \<noteq> []" using Cons.prems by (simp add: append_entry_def)
  note IH = Cons.IH and prems = Cons.prems
  show ?case
  proof (cases ps)
    case (Cons q qs)
    have "foldl append_entry s (p # ps) = append_entry (append_entry s p) (join_on 59 ps)"
      using IH [of "append_entry s p"] prems Cons by simp
    also have "\<dots> = append_entry s (join_on 59 (p # ps))" using ne by (simp add: append_entry_def Cons)
    finally show ?thesis .
  qed simp
qed simp

lemma join_append: "ps \<noteq> [] \<Longrightarrow> join_on c (ps @ [p]) = join_on c ps @ c # p"
  by (induction c ps rule: join_on.induct) auto

lemma join_Nil: "\<forall>p\<in>set ps. p \<noteq> [] \<Longrightarrow> join_on c ps = [] \<longleftrightarrow> ps = []"
  by (induction c ps rule: join_on.induct) auto

lemma getlines_pieces:
  assumes "\<forall>p\<in>set ps. p \<noteq> [] \<and> c \<notin> set p"
  shows "getlines c (join_on c ps) = ps"
  by (cases "ps = []") (use assms getlines_join [of ps c] in auto)

lemma somes_map [simp]: "somes (map (\<lambda>x. Some (f x)) xs) = map f xs"
  by (induction xs) (simp_all add: somes_def)

text \<open>Entities whose coordinates are printed exactly, and what is left of an entity that is read back: its height
  and what it is besides its position are lost.\<close>

definition printed :: "'i parked_entity \<Rightarrow> bool" where
  "printed e \<longleftrightarrow> f_printable (vx (pe_pos e)) \<and> f_printable (vz (pe_pos e))"

definition bare :: "'i entity_class \<Rightarrow> 'i parked_entity \<Rightarrow> 'i parked_entity" where
  "bare T e = (ec_new T) \<lparr> pe_id := pe_id e, pe_pos := (pe_pos e) \<lparr> vy := 0 \<rparr> \<rparr>"

lemma bare_simps [simp]: "pe_id (bare T e) = pe_id e" "vx (pe_pos (bare T e)) = vx (pe_pos e)"
    "vy (pe_pos (bare T e)) = 0" "vz (pe_pos (bare T e)) = vz (pe_pos e)"
  and printed_bare [simp]: "printed (bare T e) = printed e" and bare_bare [simp]: "bare T (bare T e) = bare T e"
    and outlier_text_bare [simp]: "outlier_text T (bare T e) = outlier_text T e"
  by (simp_all add: bare_def printed_def outlier_text_def)

text \<open>What the library promises of the identifiers: their texts are numbers that are read back.\<close>

locale entity_ids =
  fixes T :: "'i entity_class"
  assumes id_read: "\<exists>n. stoull (ec_id_text T i) = Inr n \<and> ec_id_ulong T n = i"
    and id_chars: "number_bytes (ec_id_text T i)"
begin

lemma id_free: "59 \<notin> set (ec_id_text T i)" "58 \<notin> set (ec_id_text T i)" "44 \<notin> set (ec_id_text T i)"
  by (rule number_bytes_no [OF id_chars]; simp add: is_digit_def)+

lemma outlier_piece: "printed e \<Longrightarrow> outlier_text T e \<noteq> [] \<and> 59 \<notin> set (outlier_text T e)"
  using number_free id_free by (auto simp: outlier_text_def printed_def)

lemma find_first: "c \<notin> set u \<Longrightarrow> find_from c (u @ c # v) 0 = Some (length u)"
  by (simp add: find_from_takeWhile takeWhile_append)

lemma outlier_marks:
  assumes "printed e"
  defines "u \<equiv> ec_id_text T (pe_id e)" and "x \<equiv> f_to_string (vx (pe_pos e))"
  shows "find_from 58 (outlier_text T e) 0 = Some (length u)"
    and "find_from 44 (outlier_text T e) 0 = Some (length u + 1 + length x)"
proof -
  have id: "58 \<notin> set u" "44 \<notin> set u" using id_free unfolding u_def by simp_all
  have fl: "44 \<notin> set x" 
    unfolding x_def by (rule number_bytes_no [OF number_bytes_float]) (use assms(1) in \<open>simp_all add: printed_def is_digit_def\<close>)
  show "find_from 58 (outlier_text T e) 0 = Some (length u)"
    using find_first [OF id(1)] by (simp add: outlier_text_def u_def)
  show "find_from 44 (outlier_text T e) 0 = Some (length u + 1 + length x)"
    using find_first [of 44 "u @ 58 # x"] id(2) fl by (simp add: outlier_text_def u_def x_def)
qed

lemma parse_outlier_text:
  assumes "printed e"
  shows "parse_outlier T (outlier_text T e) = Inr (Some (bare T e))"
proof -
  let ?u = "ec_id_text T (pe_id e)" and ?x = "f_to_string (vx (pe_pos e))" and ?z = "f_to_string (vz (pe_pos e))"
  let ?p = "outlier_text T e"
  obtain n where n: "stoull ?u = Inr n" "ec_id_ulong T n = pe_id e" using id_read by blast
  have x: "stof ?x = Inr (vx (pe_pos e))" "stof ?z = Inr (vz (pe_pos e))"
    using assms printed_float_read by (simp_all add: printed_def)
  have parts: "take (length ?u) ?p = ?u" "between ?p (length ?u + 1) (length ?u + 1 + length ?x) = ?x"
    "drop (length ?u + 1 + length ?x + 1) ?p = ?z"
    by (simp_all add: outlier_text_def between_def)
  have "parse_outlier T ?p = Inr (Some ((ec_new T) \<lparr> pe_id := pe_id e, pe_pos := \<lparr> vx = vx (pe_pos e), vy = 0, vz = vz (pe_pos e) \<rparr> \<rparr>))"
    unfolding parse_outlier_def outlier_marks [OF assms] prod.case option.case parts n(1) x bindE_simps by (simp add: n(2))
  then show ?thesis by (cases "pe_pos e") (simp add: bare_def)
qed

lemma keep_outlier_texts:
  assumes "\<forall>e\<in>set es. printed e"
  shows "keep_entries T i (map (outlier_text T) es) = Inr (map (outlier_text T) (filter (\<lambda>e. pe_id e \<noteq> i) es))"
  using assms
proof (induction es)
  case (Cons e es)
  obtain n where n: "stoull (ec_id_text T (pe_id e)) = Inr n" "ec_id_ulong T n = pe_id e" using id_read by blast
  have "take (length (ec_id_text T (pe_id e))) (outlier_text T e) = ec_id_text T (pe_id e)" by (simp add: outlier_text_def)
  then show ?case using outlier_marks(1) Cons n by simp
qed simp

end

section \<open>The outliers of a partition as a list\<close>

text \<open>The hash of the outliers has the entities of a list for a partition.\<close>

definition holds_outliers :: "'i entity_class \<Rightarrow> (string \<Rightarrow> bytes \<Rightarrow> bytes option) \<Rightarrow> bytes \<Rightarrow> 'i parked_entity list \<Rightarrow> bool" where
  "holds_outliers T h part es \<longleftrightarrow>
    list_all printed es \<and> h outliers_table part = Some (join_on 59 (map (outlier_text T) es))"

text \<open>A field of one hash is written and nothing else changes.\<close>

definition writes_field :: "(string \<Rightarrow> bytes \<Rightarrow> bytes option) \<Rightarrow> string \<Rightarrow> bytes \<Rightarrow> (string \<Rightarrow> bytes \<Rightarrow> bytes option) \<Rightarrow> bool" where
  "writes_field h table field h' \<longleftrightarrow>
    (\<forall>k f. k \<noteq> table \<or> f \<noteq> field \<longrightarrow> h' k f = h k f)"

locale outlier_store = redis R hash_key hash_of set_of + entity_ids T
  for R :: "'db redis_ops" and hash_key :: "string \<Rightarrow> bool"
    and hash_of :: "'db \<Rightarrow> string \<Rightarrow> bytes \<Rightarrow> bytes option" and set_of :: "'db \<Rightarrow> string \<Rightarrow> bytes set"
    and T :: "'i entity_class" +
  fixes C :: "'db redis_connection"
  assumes conn: "with_sync C = R"
    and tables: "hash_key outliers_table" "hash_key snapshot_table" "hash_key (partition_key part)"
begin

lemma hset_flag_answer:
  assumes "hash_key k"
  obtains db' where "hset_flag C k f v db = (Inr (hash_of db k f = None), db')"
    and "hash_of db' k f = Some v" and "writes_field (hash_of db) k f (hash_of db')"
proof -
  obtain n db' where 1: "db_hset C k f v db = (n, db')" by (rule prod.exhaust)
  then have "op_hset R k f v db = (n, db')" by (simp add: db_hset_def conn)
  from hset [OF assms this] 1 that show thesis by (auto simp: hset_flag_def writes_field_def fun_upd_def)
qed

lemma hget_table: "hash_key k \<Longrightarrow> db_hget C k f db = hash_of db k f"
  by (simp add: db_hget_def conn hget)

lemma outlier_pieces: "list_all printed es \<Longrightarrow> getlines 59 (join_on 59 (map (outlier_text T) es)) = map (outlier_text T) es"
  using outlier_piece by (intro getlines_pieces) (auto simp: list_all_iff)

lemma fetch_holds:
  assumes "holds_outliers T (hash_of db) part es"
  shows "fetch_outliers T C part db = Inr (map (bare T) es)"
proof -
  have "list_all printed es" using assms by (simp add: holds_outliers_def)
  then have "mapE (parse_outlier T) (map (outlier_text T) es) = Inr (map (\<lambda>e. Some (bare T e)) es)"
    using parse_outlier_text by (induction es) auto
  then show ?thesis
    using assms by (simp add: fetch_outliers_def hget_table tables holds_outliers_def outlier_pieces)
qed

lemma remove_holds:
  assumes "holds_outliers T (hash_of db) part es"
  obtains db' where "remove_from_outliers T C part i db = (Inr (es = []), db')"
    and "holds_outliers T (hash_of db') part (filter (\<lambda>e. pe_id e \<noteq> i) es)"
    and "writes_field (hash_of db) outliers_table part (hash_of db')"
proof (cases "es = []")
  case True
  then show ?thesis
    using that [of db] assms by (simp add: remove_from_outliers_def hget_table tables holds_outliers_def writes_field_def)
next
  case False
  have pr: "\<forall>e\<in>set es. printed e" and h: "hash_of db outliers_table part = Some (join_on 59 (map (outlier_text T) es))"
    using assms by (simp_all add: holds_outliers_def list_all_iff)
  have ne: "join_on 59 (map (outlier_text T) es) \<noteq> []"
    using False pr outlier_piece join_Nil [of "map (outlier_text T) es" 59] by auto
  obtain db' where db': "hset_flag C outliers_table part (join_on 59 (map (outlier_text T) (filter (\<lambda>e. pe_id e \<noteq> i) es))) db =
      (Inr (hash_of db outliers_table part = None), db')"
    "hash_of db' outliers_table part = Some (join_on 59 (map (outlier_text T) (filter (\<lambda>e. pe_id e \<noteq> i) es)))"
    "writes_field (hash_of db) outliers_table part (hash_of db')"
    by (rule hset_flag_answer [OF tables(1)])
  show ?thesis
    using that [OF _ _ db'(3)] db'(1,2) h ne pr False outlier_pieces [of es] keep_outlier_texts [OF pr, of i]
    by (simp add: remove_from_outliers_def hget_table tables holds_outliers_def list_all_iff)
qed

lemma store_holds:
  assumes "holds_outliers T (hash_of db) part es" and "printed e"
  obtains db' where "store_outlier T C part e db = (Inr False, db')"
    and "holds_outliers T (hash_of db') part (es @ [e])" and "writes_field (hash_of db) outliers_table part (hash_of db')"
proof -
  have h: "hash_of db outliers_table part = Some (join_on 59 (map (outlier_text T) es))" and pr: "list_all printed es"
    using assms(1) by (simp_all add: holds_outliers_def)
  have "append_entry (join_on 59 (map (outlier_text T) es)) (outlier_text T e) = join_on 59 (map (outlier_text T) (es @ [e]))"
    using join_Nil [of "map (outlier_text T) es" 59] outlier_piece pr join_append [of "map (outlier_text T) es" 59 "outlier_text T e"]
    by (cases "es = []") (auto simp: append_entry_def list_all_iff)
  moreover obtain db' where "hset_flag C outliers_table part (join_on 59 (map (outlier_text T) (es @ [e]))) db =
      (Inr (hash_of db outliers_table part = None), db')"
    "hash_of db' outliers_table part = Some (join_on 59 (map (outlier_text T) (es @ [e])))"
    "writes_field (hash_of db) outliers_table part (hash_of db')"
    by (rule hset_flag_answer [OF tables(1)])
  ultimately show ?thesis
    using that [of db'] h pr assms(2) by (simp add: store_outlier_def hget_table tables holds_outliers_def)
qed

lemma no_field:
  assumes "hash_of db outliers_table part = None"
  shows "fetch_outliers T C part db = bad_access" and "remove_from_outliers T C part i db = (bad_access, db)"
    and "store_outlier T C part e db = (bad_access, db)"
  using assms by (simp_all add: fetch_outliers_def remove_from_outliers_def store_outlier_def hget_table tables)

lemma store_many_holds:
  assumes "list_all printed es" and "es \<noteq> []"
  obtains db' where "store_outliers T C part es db = (Inr (hash_of db outliers_table part = None), db')"
    and "holds_outliers T (hash_of db') part es" and "writes_field (hash_of db) outliers_table part (hash_of db')"
proof -
  have "foldl append_entry [] (map (outlier_text T) es) = join_on 59 (map (outlier_text T) es)"
    using append_entries [of "map (outlier_text T) es" "[]"] assms outlier_piece by (simp add: append_entry_def list_all_iff)
  then show ?thesis
    using that assms hset_flag_answer [OF tables(1), of part "join_on 59 (map (outlier_text T) es)" db]
    by (auto simp: store_outliers_def holds_outliers_def)
qed

text \<open>A hash field is missing at most once: what is stored over it is reported as a failure.\<close>

lemma store_outlier_answer:
  "fst (store_outlier T C part e db) = (if hash_of db outliers_table part = None then bad_access else Inr False)"
proof (cases "hash_of db outliers_table part")
  case None
  then show ?thesis by (simp add: store_outlier_def hget_table tables)
next
  case (Some current)
  obtain db' where "hset_flag C outliers_table part (append_entry current (outlier_text T e)) db =
      (Inr (hash_of db outliers_table part = None), db')"
    by (rule hset_flag_answer [OF tables(1)])
  then show ?thesis using Some by (simp add: store_outlier_def hget_table tables)
qed

lemma push_snapshot_answer:
  assumes "interval \<le> (now - pushed) div 1000000000" and "es \<noteq> []"
  shows "fst (push_snapshot T C part es now pushed interval db) =
    (if hash_of db snapshot_table (snapshot_key part) = None then Inr (True, now) else Inr (False, pushed))"
proof -
  obtain db' where "store_snapshot T C (snapshot_key part) es db =
      (Inr (hash_of db snapshot_table (snapshot_key part) = None), db')"
    unfolding store_snapshot_def by (rule hset_flag_answer [OF tables(2)])
  then show ?thesis using assms by (simp add: push_snapshot_def)
qed

lemma fetch_missing:
  assumes "part \<in> set parts" and "hash_of db outliers_table part = None"
  shows "\<exists>x. fetch_all_entities T C parts True snapshots db = Inl x"
proof -
  have "fetch_outliers T C part db = bad_access"
    using assms(2) by (simp add: fetch_outliers_def hget_table tables)
  then have "\<exists>x. fetch_partition T C True snapshots db part = Inl x"
    by (cases "fetch_entities T C part db") (simp_all add: fetch_partition_def bad_access_def)
  then have "\<exists>x. mapE (fetch_partition T C True snapshots db) parts = Inl x"
    using assms(1)
  proof (induction parts)
    case (Cons q qs)
    then show ?case by (cases "fetch_partition T C True snapshots db q") auto
  qed simp
  then show ?thesis by (auto simp: fetch_all_entities_def)
qed

end

section \<open>The managed entities of a partition as a list\<close>

text \<open>Entities whose text is one piece and is read back.\<close>

definition readable :: "'i entity_class \<Rightarrow> 'i parked_entity \<Rightarrow> bool" where
  "readable T e \<longleftrightarrow> 59 \<notin> set (ec_to_string T e) \<and> 58 \<in> set (ec_to_string T e) \<and> ec_from_string T (ec_to_string T e) = Inr e"

definition holds_managed :: "'i entity_class \<Rightarrow> (string \<Rightarrow> bytes \<Rightarrow> bytes option) \<Rightarrow> bytes \<Rightarrow> 'i parked_entity list \<Rightarrow> bool" where
  "holds_managed T h part es \<longleftrightarrow> list_all (readable T) es \<and>
    h (partition_key part) entities_field = (if es = [] then None else Some (join_on 59 (map (ec_to_string T) es)))"

lemma readable_parse: "readable T e \<Longrightarrow> parse_managed T (ec_to_string T e) = Inr (Some e)"
  by (auto simp: readable_def parse_managed_def find_from_takeWhile)

lemma readable_piece: "readable T e \<Longrightarrow> ec_to_string T e \<noteq> [] \<and> 59 \<notin> set (ec_to_string T e)"
  by (auto simp: readable_def)

context outlier_store
begin

lemma fetch_managed:
  assumes "holds_managed T (hash_of db) part es"
  shows "fetch_entities T C part db = Inr es"
proof (cases "es = []")
  case False
  have pr: "list_all (readable T) es" using assms by (simp add: holds_managed_def)
  then have "getlines 59 (join_on 59 (map (ec_to_string T) es)) = map (ec_to_string T) es"
    using readable_piece by (intro getlines_pieces) (auto simp: list_all_iff)
  moreover have "mapE (parse_managed T) (map (ec_to_string T) es) = Inr (map Some es)"
    using pr by (induction es) (simp_all add: readable_parse)
  moreover have "somes (map Some es) = es" using somes_map [of "\<lambda>x. x"] by simp
  ultimately show ?thesis using assms False by (simp add: fetch_entities_def hget_table tables holds_managed_def)
qed (use assms in \<open>simp add: fetch_entities_def hget_table tables holds_managed_def\<close>)

lemma store_managed:
  assumes "list_all (readable T) es"
  obtains b db' where "store_entities T C part es db = (Inr b, db')"
    and "holds_managed T (hash_of db') part es" and "\<forall>k. k \<noteq> partition_key part \<longrightarrow> hash_of db' k = hash_of db k"
proof (cases "es = []")
  case True
  obtain n db' where 1: "db_del_key C (partition_key part) db = (n, db')" by (rule prod.exhaust)
  then have "op_del R (partition_key part) db = (n, db')" by (simp add: db_del_key_def conn)
  from del_hash [OF tables(3) this] 1 True that show thesis by (simp add: store_entities_def holds_managed_def)
next
  case False
  have "foldl append_entry [] (map (ec_to_string T) es) = join_on 59 (map (ec_to_string T) es)"
    using append_entries [of "map (ec_to_string T) es" "[]"] assms False by (simp add: append_entry_def list_all_iff readable_piece)
  moreover obtain db' where db': "hset_flag C (partition_key part) entities_field (join_on 59 (map (ec_to_string T) es)) db =
      (Inr (hash_of db (partition_key part) entities_field = None), db')"
    "hash_of db' (partition_key part) entities_field = Some (join_on 59 (map (ec_to_string T) es))"
    "writes_field (hash_of db) (partition_key part) entities_field (hash_of db')"
    by (rule hset_flag_answer [OF tables(3)])
  moreover have "\<forall>k. k \<noteq> partition_key part \<longrightarrow> hash_of db' k = hash_of db k"
    using db'(3) by (simp add: writes_field_def fun_eq_iff)
  ultimately show ?thesis using that [of _ db'] assms False by (simp add: store_entities_def holds_managed_def)
qed

lemma add_managed:
  assumes "holds_managed T (hash_of db) part es" and "readable T e"
  obtains b db' where "add_entity T C part e db = (Inr b, db')" and "holds_managed T (hash_of db') part (es @ [e])"
    and "\<forall>k. k \<noteq> partition_key part \<longrightarrow> hash_of db' k = hash_of db k"
  using store_managed [of "es @ [e]" part db] assms fetch_managed [OF assms(1)]
  by (auto simp: add_entity_def holds_managed_def)

lemma remove_managed:
  assumes "holds_managed T (hash_of db) part es"
  obtains b db' where "remove_entity T C part i db = (Inr b, db')"
    and "holds_managed T (hash_of db') part (filter (\<lambda>e. pe_id e \<noteq> i) es)"
    and "\<forall>k. k \<noteq> partition_key part \<longrightarrow> hash_of db' k = hash_of db k"
  using store_managed [of "filter (\<lambda>e. pe_id e \<noteq> i) es" part db] assms fetch_managed [OF assms]
  by (auto simp: remove_entity_def holds_managed_def list_all_iff)

end

section \<open>One entity for each identifier\<close>

lemma deduplicate_spec:
  "distinct (map pe_id (deduplicate es)) \<and> set (deduplicate es) = {e. map_of (rev (map (\<lambda>e. (pe_id e, e)) es)) (pe_id e) = Some e}"
proof -
  define m where "m = foldl (\<lambda>m e. AList.update (pe_id e) e m) [] es"
  have gen: "map_of (foldl (\<lambda>m e. AList.update (pe_id e) e m) m0 es) = map_of m0 ++ map_of (rev (map (\<lambda>e. (pe_id e, e)) es))" for m0
    by (induction es arbitrary: m0) (simp_all add: update_conv')
  have keys: "distinct (map fst m0) \<Longrightarrow> \<forall>(k, e)\<in>set m0. k = pe_id e \<Longrightarrow>
      distinct (map fst (foldl (\<lambda>m e. AList.update (pe_id e) e m) m0 es)) \<and>
      (\<forall>(k, e)\<in>set (foldl (\<lambda>m e. AList.update (pe_id e) e m) m0 es). k = pe_id e)" for m0
  proof (induction es arbitrary: m0)
    case (Cons x es)
    have "\<forall>(k, e)\<in>set (AList.update (pe_id x) x m0). k = pe_id e"
      using Cons.prems(2) by (induction m0) auto
    then show ?case using Cons.IH [OF distinct_update [OF Cons.prems(1)]] by simp
  qed simp
  have m: "distinct (map fst m)" "\<forall>(k, e)\<in>set m. k = pe_id e" "map_of m = map_of (rev (map (\<lambda>e. (pe_id e, e)) es))"
    using keys [of "[]"] gen [of "[]"] by (simp_all add: m_def)
  have "map pe_id (map snd m) = map fst m" using m(2) by auto
  moreover have "e \<in> set (map snd m) \<longleftrightarrow> map_of m (pe_id e) = Some e" for e
    using m(1,2) by (force simp: map_of_eq_Some_iff)
  moreover have "deduplicate es = map snd m" by (simp add: deduplicate_def m_def)
  ultimately show ?thesis using m(1,3) by (metis (mono_tags, lifting) Collect_cong Collect_mem_eq mem_Collect_eq)
qed

section \<open>A class of entities\<close>

text \<open>Entities with 64-bit identifiers, as an instance of what is promised.\<close>

definition plain_new :: "u64 parked_entity" where
  "plain_new = \<lparr> pe_id = 0, pe_pos = \<lparr> vx = 0, vy = 0, vz = 0 \<rparr>, pe_player = False \<rparr>"

definition plain_class :: "u64 entity_class" where
  "plain_class = \<lparr> ec_new = plain_new, ec_id_text = \<lambda>i. dec_of (unat i), ec_id_ulong = \<lambda>n. n, ec_id_int = of_int,
     ec_to_string = \<lambda>e. dec_of (unat (pe_id e)) @ [58],
     ec_from_string = \<lambda>t. bindE (stoull t) (\<lambda>n. Inr (plain_new \<lparr> pe_id := n \<rparr>)),
     ec_to_json = \<lambda>_. JNull, ec_from_json = \<lambda>_. Inl (RuntimeError ''json''),
     ec_size = 32, ec_load = \<lambda>_. plain_new, ec_store = \<lambda>_. replicate 32 0, ec_dump = \<lambda>_. [], ec_parse = \<lambda>_. None \<rparr>"

interpretation plain_ids: entity_ids plain_class
proof unfold_locales
  fix i :: u64
  show "\<exists>n. stoull (ec_id_text plain_class i) = Inr n \<and> ec_id_ulong plain_class n = i"
  proof -
    have "unat i < 2 ^ 64" by (rule order_less_le_trans [OF unsigned_less]) simp
    then show ?thesis using stoull_dec [of "unat i"] by (simp add: plain_class_def)
  qed
  show "number_bytes (ec_id_text plain_class i)"
    using number_bytes_int [of "int (unat i)"] by (simp add: plain_class_def dec_of_int_def)
qed

interpretation memout: outlier_store mem_redis "\<lambda>_. True" mem_hash mem_set plain_class mem_connection
  by unfold_locales simp_all

lemmas memout_store = memout.outlier_store_axioms

section \<open>Properties\<close>

text \<open>C17: the outliers of a partition that has a field in the table of the outliers are a list of entities:
  fetching reads it, without heights and without what an entity is besides its place, removing takes every
  entity with the identifier out of it, storing appends, and neither touches another partition. This is for
  entities whose two coordinates the six decimals of the text give exactly: the finite multiples of 1/64. For
  a partition without a field each of the three operations throws and changes nothing.\<close>

theorem outliers_refine_list:
  assumes "outlier_store R hash_key hash_of set_of T C" and "holds_outliers T (hash_of db) part es" and "printed e"
  shows "fetch_outliers T C part db = Inr (map (bare T) es) \<and>
    (\<exists>db'. remove_from_outliers T C part i db = (Inr (es = []), db') \<and>
       holds_outliers T (hash_of db') part (filter (\<lambda>e. pe_id e \<noteq> i) es) \<and>
       writes_field (hash_of db) outliers_table part (hash_of db')) \<and>
    (\<exists>db'. store_outlier T C part e db = (Inr False, db') \<and> holds_outliers T (hash_of db') part (es @ [e]) \<and>
       writes_field (hash_of db) outliers_table part (hash_of db')) \<and>
    (\<forall>q. hash_of db outliers_table q = None \<longrightarrow>
       fetch_outliers T C q db = bad_access \<and> remove_from_outliers T C q i db = (bad_access, db) \<and>
       store_outlier T C q e db = (bad_access, db))"
proof (intro conjI allI impI)
  show "fetch_outliers T C part db = Inr (map (bare T) es)" by (rule outlier_store.fetch_holds [OF assms(1,2)])
  show "\<exists>db'. remove_from_outliers T C part i db = (Inr (es = []), db') \<and>
       holds_outliers T (hash_of db') part (filter (\<lambda>e. pe_id e \<noteq> i) es) \<and>
       writes_field (hash_of db) outliers_table part (hash_of db')"
    using outlier_store.remove_holds [OF assms(1,2)] by metis
  show "\<exists>db'. store_outlier T C part e db = (Inr False, db') \<and> holds_outliers T (hash_of db') part (es @ [e]) \<and>
       writes_field (hash_of db) outliers_table part (hash_of db')"
    using outlier_store.store_holds [OF assms] by metis
  fix q assume "hash_of db outliers_table q = None"
  note n = outlier_store.no_field [OF assms(1) this]
  show "fetch_outliers T C q db = bad_access" by (rule n(1))
  show "remove_from_outliers T C q i db = (bad_access, db)" by (rule n(2))
  show "store_outlier T C q e db = (bad_access, db)" by (rule n(3))
qed

definition held_db :: "(bytes \<times> bytes) list \<Rightarrow> mem_db" where
  "held_db fs = mem_empty \<lparr> md_hash := (\<lambda>_. [])(outliers_table := fs) \<rparr>"

lemma held_empty: "map_of fs part = Some [] \<Longrightarrow> holds_outliers plain_class (mem_hash (held_db fs)) part []"
  by (simp add: holds_outliers_def mem_hash_def held_db_def mem_empty_def)

theorem outliers_refine_list_witness:
  "\<exists>db'. store_outlier plain_class mem_connection (str_bytes ''p'') plain_new (held_db [(str_bytes ''p'', [])]) = (Inr False, db') \<and>
     holds_outliers plain_class (mem_hash db') (str_bytes ''p'') [plain_new]"
proof -
  have h: "holds_outliers plain_class (mem_hash (held_db [(str_bytes ''p'', [])])) (str_bytes ''p'') []"
    by (rule held_empty) simp
  have p: "printed plain_new" by (simp add: printed_def plain_new_def printable_half)
  show ?thesis using outliers_refine_list [OF memout_store h p, of 0] by auto
qed

end
