(* ===== verification/God_Outliers.thy ===== *)
theory God_Outliers
  imports Entity_Outliers
begin

text \<open>
  The parked watchdog (\<open>runtime/watchdog/exc\<close>): \<open>God.Shapes.cpp\<close> computes the shapes of the partitions and moves
  their outliers, \<open>God.Messages.cpp\<close> handles the texts of the partitions. The identifiers of the
  participants and the registry of the servers are classes that are no longer in the repository: they
  are parameters. Log lines are left out.
\<close>

section \<open>The participants\<close>

datatype link_type = eShard | eGameServer | eProxy | eGameClient | eOther_Link

text \<open>The type of an identifier, its text, the identifier of a shard with a name, of the watchdog, the order, the
  parser, and the bytes that are written and read.\<close>

record 'l link_class =
  lk_type :: "'l \<Rightarrow> link_type"
  lk_text :: "'l \<Rightarrow> bytes"
  lk_shard :: "bytes \<Rightarrow> 'l"
  lk_god :: "'l"
  lk_less :: "'l \<Rightarrow> 'l \<Rightarrow> bool"
  lk_parse :: "bytes \<Rightarrow> 'l option"
  lk_key :: "'l \<Rightarrow> bytes"
  lk_read :: "bytes \<Rightarrow> 'l res"

datatype send_flag = Reliable_Now | Unreliable_Now | Reliable_Batched

datatype message_header = Entity_Update | Entity_Incoming | Entity_Outgoing | Fetch_Grid_Shape | Null_Header

fun header_byte :: "message_header \<Rightarrow> u8" where
  "header_byte Entity_Update = 0"
| "header_byte Entity_Incoming = 1"
| "header_byte Entity_Outgoing = 2"
| "header_byte Fetch_Grid_Shape = 3"
| "header_byte Null_Header = 255"

section \<open>The watchdog\<close>

text \<open>What is sent is a list: who, the bytes and how.\<close>

record ('db, 'l) god =
  gd_db :: 'db
  gd_cache :: shape_cache
  gd_type :: shape_heuristic
  gd_heuristic :: shape_heuristic
  gd_assigned :: "'l list"
  gd_sent :: "('l \<times> bytes \<times> send_flag) list"

text \<open>The servers of the registry are read from the database; the clock is for the metadata.\<close>

record ('i, 'db, 'l) god_env =
  ge_class :: "'i entity_class"
  ge_conn :: "'db redis_connection"
  ge_link :: "'l link_class"
  ge_servers :: "'db \<Rightarrow> 'l list"
  ge_now :: int

definition dbIO :: "('db, 'a) io \<Rightarrow> (('db, 'l) god, 'a) io" where
  "dbIO = zoomIO gd_db (\<lambda>db s. s \<lparr> gd_db := db \<rparr>)"

definition readIO :: "('db \<Rightarrow> 'a res) \<Rightarrow> (('db, 'l) god, 'a) io" where
  "readIO f = (\<lambda>s. (f (gd_db s), s))"

definition send_raw :: "'l \<Rightarrow> bytes \<Rightarrow> send_flag \<Rightarrow> (('db, 'l) god, unit) io" where
  "send_raw l bs flag = modifyIO (\<lambda>s. s \<lparr> gd_sent := gd_sent s @ [(l, bs, flag)] \<rparr>)"

text \<open>The name in the text of an identifier: what follows the first space, or all of it.\<close>

definition after_space :: "bytes \<Rightarrow> bytes" where
  "after_space t = (case find_from 32 t 0 of None \<Rightarrow> t | Some k \<Rightarrow> drop (k + 1) t)"

definition send_header_message :: "('i, 'db, 'l) god_env \<Rightarrow> bytes \<Rightarrow> message_header \<Rightarrow> bytes \<Rightarrow> (('db, 'l) god, unit) io" where
  "send_header_message E text h part = send_raw (lk_shard (ge_link E) (after_space part)) (header_byte h # text) Reliable_Now"

definition partition_server_ids :: "('i, 'db, 'l) god_env \<Rightarrow> 'db \<Rightarrow> 'l list" where
  "partition_server_ids E db = filter (\<lambda>l. lk_type (ge_link E) l = eShard) (ge_servers E db)"

definition entity_point :: "'i parked_entity \<Rightarrow> vec2" where
  "entity_point e = vec2_of (vx (pe_pos e)) (vz (pe_pos e))"

text \<open>The first partition whose shape contains a point; the index of a shape is not checked.\<close>

fun find_containing :: "shape list \<Rightarrow> vec2 \<Rightarrow> (bytes \<times> nat) list \<Rightarrow> bytes option res" where
  "find_containing shapes p [] = Inr None"
| "find_containing shapes p ((part, i) # m) =
    (if length shapes \<le> i then Inl (UB Out_Of_Bounds)
     else if shape_contains (shapes ! i) p then Inr (Some part)
     else find_containing shapes p m)"

definition find_partition :: "shape_cache \<Rightarrow> vec2 \<Rightarrow> bytes option res" where
  "find_partition c p =
    bindE (fast_lookup c p) (\<lambda>r. case r of
       Some part \<Rightarrow> Inr (Some part)
     | None \<Rightarrow> find_containing (sc_shapes c) p (sc_index c))"

text \<open>The nearest point of all triangles: the least squared distance so far, its partition and the position.\<close>

definition nearer :: "vec2 \<Rightarrow> bytes \<Rightarrow> f32 \<times> bytes \<times> vec3 \<Rightarrow> triangle \<Rightarrow> f32 \<times> bytes \<times> vec3" where
  "nearer p part = (\<lambda>(least, t, v) (a, b, c).
     let q = closest_point_on_triangle p a b c; d = distance2 p q
     in if f_lt d least then (d, part, \<lparr> vx = p2x q, vy = 0, vz = p2y q \<rparr>) else (least, t, v))"

fun nearest_partition :: "shape list \<Rightarrow> vec2 \<Rightarrow> (bytes \<times> nat) list \<Rightarrow> f32 \<times> bytes \<times> vec3 \<Rightarrow> (f32 \<times> bytes \<times> vec3) res" where
  "nearest_partition shapes p [] x = Inr x"
| "nearest_partition shapes p ((part, i) # m) x =
    (if length shapes \<le> i then Inl (UB Out_Of_Bounds)
     else nearest_partition shapes p m (foldl (nearer p part) x (shapes ! i)))"

section \<open>Moving outliers\<close>

text \<open>An outlier leaves its source, is stored for its target, and both are told.\<close>

definition move_outlier :: "('i, 'db, 'l) god_env \<Rightarrow> bytes \<Rightarrow> bytes \<Rightarrow> 'i parked_entity \<Rightarrow> 'i parked_entity \<Rightarrow> (('db, 'l) god, unit) io" where
  "move_outlier E source target e moved =
    (let i = ec_id_text (ge_class E)
     in bindIO (dbIO (remove_from_outliers (ge_class E) (ge_conn E) source (pe_id e))) (\<lambda>_.
        bindIO (dbIO (store_outlier (ge_class E) (ge_conn E) target moved)) (\<lambda>_.
        thenIO (send_header_message E (source @ [58] @ i (pe_id moved)) Entity_Incoming target)
          (send_header_message E (i (pe_id e)) Entity_Outgoing source))))"

definition drop_outlier :: "('i, 'db, 'l) god_env \<Rightarrow> bytes \<Rightarrow> 'i parked_entity \<Rightarrow> (('db, 'l) god, unit) io" where
  "drop_outlier E source e =
    bindIO (dbIO (remove_from_outliers (ge_class E) (ge_conn E) source (pe_id e))) (\<lambda>_. returnIO ())"

text \<open>The target of an outlier and its position there: where the point is, or the nearest point of a shape. An
  empty target is none.\<close>

definition outlier_target :: "shape_cache \<Rightarrow> 'i parked_entity \<Rightarrow> (bytes \<times> vec3) res" where
  "outlier_target c e =
    bindE (find_partition c (entity_point e)) (\<lambda>r. case r of
       Some t \<Rightarrow> Inr (t, pe_pos e)
     | None \<Rightarrow> bindE (nearest_partition (sc_shapes c) (entity_point e) (sc_index c) (f_max, [], pe_pos e)) (\<lambda>(_, t, v). Inr (t, v)))"

definition redistribute_outlier :: "('i, 'db, 'l) god_env \<Rightarrow> bytes \<Rightarrow> 'i parked_entity \<Rightarrow> (('db, 'l) god, unit) io" where
  "redistribute_outlier E source e =
    bindIO (getIO gd_cache) (\<lambda>c. bindIO (liftIO (outlier_target c e)) (\<lambda>(t, v).
      if t \<noteq> [] \<and> t \<noteq> source then move_outlier E source t e (e \<lparr> pe_pos := v \<rparr>)
      else if t = [] then drop_outlier E source e
      else returnIO ()))"

definition for_outliers :: "('i, 'db, 'l) god_env \<Rightarrow> (bytes \<Rightarrow> 'i parked_entity \<Rightarrow> (('db, 'l) god, unit) io) \<Rightarrow> bytes \<Rightarrow> (('db, 'l) god, unit) io" where
  "for_outliers E f part = bindIO (readIO (fetch_outliers (ge_class E) (ge_conn E) part)) (forIO (f part))"

definition for_partitions :: "('i, 'db, 'l) god_env \<Rightarrow> (bytes \<Rightarrow> (('db, 'l) god, unit) io) \<Rightarrow> (('db, 'l) god, unit) io" where
  "for_partitions E f = bindIO (readIO (\<lambda>db. Inr (partition_server_ids E db))) (\<lambda>ids. forIO (\<lambda>l. f (lk_text (ge_link E) l)) ids)"

definition redistribute_outliers_to_partitions :: "('i, 'db, 'l) god_env \<Rightarrow> (('db, 'l) god, unit) io" where
  "redistribute_outliers_to_partitions E =
    bindIO (getIO gd_cache) (\<lambda>c. whenIO (sc_valid c) (for_partitions E (for_outliers E (redistribute_outlier E))))"

text \<open>One outlier of a partition: outside of the unit square it is kept; in another partition the source is asked
  to give it up, by a text without a header; else it is forgotten.\<close>

definition process_outlier :: "('i, 'db, 'l) god_env \<Rightarrow> bytes \<Rightarrow> 'i parked_entity \<Rightarrow> (('db, 'l) god, unit) io" where
  "process_outlier E part e =
    bindIO (getIO gd_cache) (\<lambda>c.
      if \<not> is_within_bounds (entity_point e) 0 f_one then returnIO ()
      else bindIO (liftIO (find_containing (sc_shapes c) (entity_point e) (sc_index c))) (\<lambda>r.
        if r \<noteq> None \<and> r \<noteq> Some part
        then thenIO (drop_outlier E part e)
          (send_raw (lk_shard (ge_link E) (after_space part))
            (str_bytes ''RemoveEntity:'' @ ec_id_text (ge_class E) (pe_id e)) Reliable_Batched)
        else drop_outlier E part e))"

definition process_outliers_for_partition :: "('i, 'db, 'l) god_env \<Rightarrow> bytes \<Rightarrow> (('db, 'l) god, unit) io" where
  "process_outliers_for_partition E part =
    bindIO (getIO gd_cache) (\<lambda>c. whenIO (sc_valid c) (for_outliers E (process_outlier E) part))"

definition process_existing_outliers :: "('i, 'db, 'l) god_env \<Rightarrow> (('db, 'l) god, unit) io" where
  "process_existing_outliers E =
    bindIO (getIO gd_cache) (\<lambda>c. whenIO (sc_valid c) (for_partitions E (\<lambda>part.
      bindIO (readIO (fetch_outliers (ge_class E) (ge_conn E) part)) (\<lambda>es.
        whenIO (es \<noteq> []) (process_outliers_for_partition E part)))))"

definition process_cell_outlier :: "('i, 'db, 'l) god_env \<Rightarrow> bytes \<Rightarrow> 'i parked_entity \<Rightarrow> (('db, 'l) god, unit) io" where
  "process_cell_outlier E part e =
    bindIO (getIO gd_cache) (\<lambda>c. bindIO (liftIO (find_partition c (entity_point e))) (\<lambda>r. case r of
       Some t \<Rightarrow> if t \<noteq> part then move_outlier E part t e e else drop_outlier E part e
     | None \<Rightarrow> drop_outlier E part e))"

definition process_outliers_with_grid_cells :: "('i, 'db, 'l) god_env \<Rightarrow> (('db, 'l) god, unit) io" where
  "process_outliers_with_grid_cells E =
    bindIO (getIO gd_cache) (\<lambda>c. whenIO (sc_valid c) (for_partitions E (for_outliers E (process_cell_outlier E))))"

text \<open>An entity that its source gave up. The answer of the store decides whether the target is told.\<close>

definition is_origin :: "vec3 \<Rightarrow> bool" where
  "is_origin v \<longleftrightarrow> f_mag (vx v) = 0 \<and> f_mag (vy v) = 0 \<and> f_mag (vz v) = 0"

definition redistribute_entity :: "('i, 'db, 'l) god_env \<Rightarrow> 'i parked_entity \<Rightarrow> bytes \<Rightarrow> (('db, 'l) god, unit) io" where
  "redistribute_entity E e source =
    bindIO (getIO gd_cache) (\<lambda>c.
      if \<not> sc_valid c \<or> \<not> is_within_bounds (entity_point e) 0 f_one then returnIO ()
      else bindIO (liftIO (find_partition c (entity_point e))) (\<lambda>r. case r of
         Some t \<Rightarrow>
           if t = source then returnIO ()
           else if is_origin (pe_pos e) then returnIO ()
           else bindIO (dbIO (store_outlier (ge_class E) (ge_conn E) t e)) (\<lambda>stored.
             whenIO stored
               (bindIO (dbIO (add_entity (ge_class E) (ge_conn E) t e)) (\<lambda>_.
                send_header_message E (source @ [58] @ ec_id_text (ge_class E) (pe_id e)) Entity_Incoming t)))
       | None \<Rightarrow> bindIO (dbIO (store_outlier (ge_class E) (ge_conn E) source e)) (\<lambda>_. returnIO ())))"

section \<open>Shapes\<close>

definition notify_partitions_to_fetch_shapes :: "('i, 'db, 'l) god_env \<Rightarrow> (('db, 'l) god, unit) io" where
  "notify_partitions_to_fetch_shapes E =
    bindIO (getIO gd_assigned) (forIO (\<lambda>l.
      bindIO (dbIO (clear_partition (ge_conn E) (lk_text (ge_link E) l))) (\<lambda>_.
        send_header_message E [] Fetch_Grid_Shape (lk_text (ge_link E) l))))"

definition get_cached_shape :: "shape_cache \<Rightarrow> bytes \<Rightarrow> shape option" where
  "get_cached_shape c part =
    (if \<not> sc_valid c then None
     else case map_of (sc_index c) part of
       None \<Rightarrow> None
     | Some i \<Rightarrow> if i < length (sc_shapes c) then Some (sc_shapes c ! i) else None)"

definition set_heuristic_type :: "shape_heuristic \<Rightarrow> (('db, 'l) god, unit) io" where
  "set_heuristic_type t = modifyIO (\<lambda>s. s \<lparr> gd_type := t, gd_heuristic := t \<rparr>)"

text \<open>An ordered map from texts, and sorting with the order of the identifiers.\<close>

fun ordered_put :: "bytes \<Rightarrow> nat \<Rightarrow> (bytes \<times> nat) list \<Rightarrow> (bytes \<times> nat) list" where
  "ordered_put k v [] = [(k, v)]"
| "ordered_put k v ((j, w) # m) =
    (if k = j then (k, v) # m else if ord_class.lexordp k j then (k, v) # (j, w) # m else (j, w) # ordered_put k v m)"

fun insert_link :: "('l \<Rightarrow> 'l \<Rightarrow> bool) \<Rightarrow> 'l \<Rightarrow> 'l list \<Rightarrow> 'l list" where
  "insert_link lt x [] = [x]"
| "insert_link lt x (y # ys) = (if lt x y then x # y # ys else y # insert_link lt x ys)"

definition sort_links :: "('l \<Rightarrow> 'l \<Rightarrow> bool) \<Rightarrow> 'l list \<Rightarrow> 'l list" where
  "sort_links lt xs = foldr (insert_link lt) xs []"

text \<open>The shapes are stored as grid cells one by one; a partition that has a shape already makes the whole fail.\<close>

fun assign_shapes :: "('i, 'db, 'l) god_env \<Rightarrow> nat \<Rightarrow> (shape \<times> 'l) list \<Rightarrow> (('db, 'l) god, bool) io" where
  "assign_shapes E k [] = returnIO True"
| "assign_shapes E k ((s, l) # ps) =
    (let part = lk_text (ge_link E) l;
         g = append_grid_cells k s \<lparr> cs_cells = [], cs_partition = part \<rparr>
     in bindIO (dbIO (\<lambda>db. case cells_store (ge_conn E) part (int k) g db of (b, db) \<Rightarrow> (Inr b, db))) (\<lambda>ok.
        if \<not> ok then returnIO False
        else thenIO (modifyIO (\<lambda>s. s \<lparr> gd_assigned := gd_assigned s @ [l] \<rparr>)) (assign_shapes E (k + 1) ps)))"

definition index_links :: "('l \<Rightarrow> bytes) \<Rightarrow> (shape \<times> 'l) list \<Rightarrow> (bytes \<times> nat) list" where
  "index_links text ps = fold (\<lambda>(k, (_, l)). ordered_put (text l) k) (enumerate 0 ps) []"

definition update_cache :: "(shape_cache \<Rightarrow> shape_cache) \<Rightarrow> (('db, 'l) god, unit) io" where
  "update_cache f = modifyIO (\<lambda>s. s \<lparr> gd_cache := f (gd_cache s) \<rparr>)"

text \<open>The shapes go to the shards in their order, then the index of the cache is built.\<close>

definition index_shapes :: "('i, 'db, 'l) god_env \<Rightarrow> (shape \<times> 'l) list \<Rightarrow> (('db, 'l) god, bool) io" where
  "index_shapes E ps =
    thenIO (update_cache (\<lambda>c. c \<lparr> sc_index := index_links (lk_text (ge_link E)) ps, sc_valid := True \<rparr>))
      (bindIO (getIO gd_cache) (\<lambda>c. bindIO (liftIO (build_spatial_index c)) (\<lambda>c.
       thenIO (update_cache (\<lambda>_. c)) (returnIO True))))"

definition publish_shapes :: "('i, 'db, 'l) god_env \<Rightarrow> shape list \<Rightarrow> 'l list \<Rightarrow> (('db, 'l) god, bool) io" where
  "publish_shapes E shapes ids =
    (let ps = zip shapes ids
     in bindIO (assign_shapes E 0 ps) (\<lambda>ok.
        if \<not> ok then returnIO False
        else bindIO (dbIO (\<lambda>db. case cells_store_metadata (ge_conn E) (ge_now E) (of_nat (length ps)) (of_nat (length ids)) db of
            (b, db) \<Rightarrow> (Inr b, db))) (\<lambda>ok.
          if \<not> ok then returnIO False else index_shapes E ps)))"

definition compute_partitions :: "('i, 'db, 'l) god_env \<Rightarrow> (('db, 'l) god, bool) io" where
  "compute_partitions E =
    thenIO (modifyIO (\<lambda>s. s \<lparr> gd_heuristic := gd_type s \<rparr>))
      (bindIO (readIO (\<lambda>db. fetch_all_entities (ge_class E) (ge_conn E)
          (map (lk_text (ge_link E)) (partition_server_ids E db)) True True db)) (\<lambda>es.
       bindIO (getIO gd_heuristic) (\<lambda>h.
       let shapes = compute_partition h (map pe_pos (deduplicate es))
       in thenIO (update_cache (\<lambda>c. c \<lparr> sc_shapes := shapes, sc_index := [] \<rparr>))
         (bindIO (readIO (\<lambda>db. Inr (sort_links (lk_less (ge_link E)) (partition_server_ids E db)))) (\<lambda>ids.
          thenIO (modifyIO (\<lambda>s. s \<lparr> gd_assigned := [] \<rparr>)) (publish_shapes E shapes ids))))))"

definition compute_and_store_partitions :: "('i, 'db, 'l) god_env \<Rightarrow> (('db, 'l) god, bool) io" where
  "compute_and_store_partitions E = catchIO (compute_partitions E) (returnIO False)"

section \<open>The start\<close>

text \<open>What earlier runs left behind is cleared. The texts of the managed entities stay: the call that is to clear
  them does nothing (\<open>clear_all_partition_manifests\<close>).\<close>

definition clear_all_state :: "('i, 'db, 'l) god_env \<Rightarrow> (('db, 'l) god, unit) io" where
  "clear_all_state E =
    (let C = ge_conn E; run = \<lambda>f. dbIO (\<lambda>db. (Inr (), snd (f db)))
     in thenIO (run (shape_clear C)) (thenIO (run (cells_clear C)) (bindIO (dbIO (clear_all_outliers C)) (\<lambda>_.
       (update_cache (\<lambda>c. c \<lparr> sc_shapes := [], sc_index := [], sc_valid := False \<rparr>))))))"

definition heuristic_update :: "('i, 'db, 'l) god_env \<Rightarrow> (('db, 'l) god, unit) io" where
  "heuristic_update E = bindIO (compute_and_store_partitions E) (\<lambda>_. notify_partitions_to_fetch_shapes E)"

text \<open>The first update, ten seconds after the start.\<close>

definition first_update :: "('i, 'db, 'l) god_env \<Rightarrow> (('db, 'l) god, unit) io" where
  "first_update E = thenIO (heuristic_update E) (process_existing_outliers E)"

section \<open>Messages\<close>

text \<open>The last occurrence of a character.\<close>

definition find_last :: "u8 \<Rightarrow> bytes \<Rightarrow> nat option" where
  "find_last c s = (if c \<in> set s then Some (length s - 1 - length (takeWhile (\<lambda>b. b \<noteq> c) (rev s))) else None)"

definition all_digits :: "bytes \<Rightarrow> bool" where
  "all_digits s = list_all is_digit s"

definition handle_outliers_detected :: "('i, 'db, 'l) god_env \<Rightarrow> bytes \<Rightarrow> (('db, 'l) god, unit) io" where
  "handle_outliers_detected E msg =
    (case find_last 58 msg of
       None \<Rightarrow> returnIO ()
     | Some k \<Rightarrow>
         if k = 16 then returnIO ()
         else let part = between msg 17 k; count = drop (k + 1) msg
           in if count = [] \<or> \<not> all_digits count then returnIO ()
              else (case stoi count of Inl _ \<Rightarrow> returnIO () | Inr _ \<Rightarrow> process_outliers_for_partition E part))"

text \<open>The positions of the colons after the first character.\<close>

definition colon_positions :: "bytes \<Rightarrow> nat list" where
  "colon_positions msg = filter (\<lambda>k. 0 < k \<and> msg ! k = 58) [0..<length msg]"

definition parse_coordinate :: "bytes \<Rightarrow> f32 option" where
  "parse_coordinate s =
    (if s = [] \<or> \<not> list_all (\<lambda>b. is_digit b \<or> b = 46 \<or> b = 45) s then None
     else case stof s of Inl _ \<Rightarrow> None | Inr x \<Rightarrow> Some x)"

text \<open>What a message about a removed entity says, and the source it names: the fields are counted from the end.\<close>

definition removed_fields :: "'i entity_class \<Rightarrow> bytes \<Rightarrow> nat \<Rightarrow> nat \<Rightarrow> nat \<Rightarrow> nat \<Rightarrow> nat \<Rightarrow> ('i parked_entity \<times> bytes) option" where
  "removed_fields T msg pc ic xc yc zc =
    (let source = between msg 14 pc; i = between msg (ic + 1) xc
     in if i = [] \<or> \<not> all_digits i then None
        else (case stoi i of
            Inl _ \<Rightarrow> None
          | Inr v \<Rightarrow>
              (case (parse_coordinate (between msg (xc + 1) yc), parse_coordinate (between msg (yc + 1) zc),
                    parse_coordinate (drop (zc + 1) msg)) of
                 (Some x, Some y, Some z) \<Rightarrow>
                   Some ((ec_new T) \<lparr> pe_id := ec_id_int T v, pe_pos := \<lparr> vx = x, vy = y, vz = z \<rparr> \<rparr>, source)
               | _ \<Rightarrow> None)))"

definition parse_entity_removed :: "'i entity_class \<Rightarrow> bytes \<Rightarrow> ('i parked_entity \<times> bytes) option" where
  "parse_entity_removed T msg =
    (let ks = colon_positions msg; n = length ks
     in if n < 5 then None
        else removed_fields T msg (ks ! (n - 5)) (ks ! (n - 4)) (ks ! (n - 3)) (ks ! (n - 2)) (ks ! (n - 1)))"

definition handle_entity_removed :: "('i, 'db, 'l) god_env \<Rightarrow> bytes \<Rightarrow> (('db, 'l) god, unit) io" where
  "handle_entity_removed E msg =
    (case parse_entity_removed (ge_class E) msg of
       None \<Rightarrow> returnIO ()
     | Some (e, source) \<Rightarrow> redistribute_entity E e source)"

definition handle_outlier_message :: "('i, 'db, 'l) god_env \<Rightarrow> bytes \<Rightarrow> (('db, 'l) god, unit) io" where
  "handle_outlier_message E msg =
    (if prefix (str_bytes ''OutliersDetected:'') msg then handle_outliers_detected E msg
     else if prefix (str_bytes ''EntityRemoved:'') msg then handle_entity_removed E msg
     else returnIO ())"

section \<open>What the steps do\<close>

lemma god_io [simp]:
  "m (gd_db s) = (r, db) \<Longrightarrow> dbIO m s = (r, s \<lparr> gd_db := db \<rparr>)"
  "readIO f s = (f (gd_db s), s)"
  "send_raw l bs flag s = (Inr (), s \<lparr> gd_sent := gd_sent s @ [(l, bs, flag)] \<rparr>)"
  "send_header_message E text h part s = (Inr (), s \<lparr> gd_sent := gd_sent s @ [(lk_shard (ge_link E) (after_space part), header_byte h # text, Reliable_Now)] \<rparr>)"
  "update_cache g s = (Inr (), s \<lparr> gd_cache := g (gd_cache s) \<rparr>)"
  by (simp_all add: dbIO_def zoomIO_def readIO_def send_raw_def send_header_message_def update_cache_def)

lemma dbIO_keeps: "gd_sent (snd (dbIO m s)) = gd_sent s" "gd_cache (snd (dbIO m s)) = gd_cache s"
  by (simp_all add: dbIO_def zoomIO_def split: prod.splits)

definition lookup :: "shape_cache \<Rightarrow> 'i parked_entity \<Rightarrow> bytes option" where
  "lookup c e = (case find_partition c (entity_point e) of Inr r \<Rightarrow> r | Inl _ \<Rightarrow> None)"

text \<open>The abstract step: an outlier leaves its source and joins the list of another partition that has its
  point.\<close>

definition settle_entity :: "('i parked_entity \<Rightarrow> bytes option) \<Rightarrow> bytes \<Rightarrow> (bytes \<Rightarrow> 'i parked_entity list) \<Rightarrow> 'i parked_entity \<Rightarrow> (bytes \<Rightarrow> 'i parked_entity list)" where
  "settle_entity f source A e =
    (let A' = A(source := filter (\<lambda>x. pe_id x \<noteq> pe_id e) (A source))
     in case f e of Some t \<Rightarrow> if t \<noteq> source then A'(t := A' t @ [e]) else A' | None \<Rightarrow> A')"

lemma settle_entity_source: "foldl (settle_entity f source) A es source = filter (\<lambda>x. pe_id x \<notin> pe_id ` set es) (A source)"
  by (induction es arbitrary: A) (auto simp: settle_entity_def Let_def split: option.splits intro!: filter_cong)

lemma settle_entity_other: "t \<noteq> source \<Longrightarrow> foldl (settle_entity f source) A es t = A t @ filter (\<lambda>e. f e = Some t) es"
  by (induction es arbitrary: A) (auto simp: settle_entity_def Let_def split: option.splits)

definition all_hold :: "'i entity_class \<Rightarrow> (string \<Rightarrow> bytes \<Rightarrow> bytes option) \<Rightarrow> bytes set \<Rightarrow> (bytes \<Rightarrow> 'i parked_entity list) \<Rightarrow> bool" where
  "all_hold T h P A \<longleftrightarrow> (\<forall>p\<in>P. holds_outliers T h p (A p))"

lemma all_hold_write:
  assumes "all_hold T h P A" and "writes_field h outliers_table p h'" and "holds_outliers T h' p es"
  shows "all_hold T h' P (A(p := es))"
  using assms by (auto simp: all_hold_def holds_outliers_def writes_field_def)

definition move_messages :: "('i, 'db, 'l) god_env \<Rightarrow> bytes \<Rightarrow> ('i parked_entity \<Rightarrow> bytes option) \<Rightarrow> 'i parked_entity \<Rightarrow> ('l \<times> bytes \<times> send_flag) list" where
  "move_messages E source f e =
    (case f e of
       None \<Rightarrow> []
     | Some t \<Rightarrow> if t = source then []
         else let i = ec_id_text (ge_class E) (pe_id e); to = \<lambda>p. lk_shard (ge_link E) (after_space p)
           in [(to t, header_byte Entity_Incoming # source @ [58] @ i, Reliable_Now),
               (to source, header_byte Entity_Outgoing # i, Reliable_Now)])"

lemma collect_nonempty: "fst (collect_leaf_shapes n ([], 0)) \<noteq> []"
proof -
  have "quad_leaves n \<noteq> []" by (induction n) simp_all
  then show ?thesis by (simp add: collect_leaves)
qed

lemma compute_partition_nonempty: "t \<noteq> KD_Tree \<Longrightarrow> compute_partition t es \<noteq> []"
  using collect_nonempty
  by (cases t) (simp_all add: compute_partition_def compute_big_square_shape_def compute_quadtree_shape_def
      compute_quadtree_shape_density_def compute_grid_shape_def upto.simps)

context outlier_store
begin

lemma process_cell_step:
  assumes E: "ge_class E = T" "ge_conn E = C" and A: "all_hold T (hash_of (gd_db s)) P A" and "part \<in> P" and "printed e"
    and found: "find_partition (gd_cache s) (entity_point e) = Inr r" and "r \<noteq> None \<Longrightarrow> the r \<in> P"
  obtains s' where "process_cell_outlier E part e s = (Inr (), s')"
    and "all_hold T (hash_of (gd_db s')) P (settle_entity (lookup (gd_cache s)) part A e)"
    and "gd_cache s' = gd_cache s" and "gd_sent s' = gd_sent s @ move_messages E part (lookup (gd_cache s)) e"
proof -
  let ?k = "filter (\<lambda>x. pe_id x \<noteq> pe_id e) (A part)"
  have "holds_outliers T (hash_of (gd_db s)) part (A part)" using A assms(4) by (simp add: all_hold_def)
  then obtain db1 where 1: "remove_from_outliers T C part (pe_id e) (gd_db s) = (Inr (A part = []), db1)"
      "holds_outliers T (hash_of db1) part ?k" "writes_field (hash_of (gd_db s)) outliers_table part (hash_of db1)"
    by (rule remove_holds)
  note A1 = all_hold_write [OF A 1(3,2)]
  show thesis
  proof (cases "r = None \<or> r = Some part")
    case True
    have "process_cell_outlier E part e s = (Inr (), s \<lparr> gd_db := db1 \<rparr>)"
      using True found 1(1) E by (auto simp: process_cell_outlier_def drop_outlier_def)
    moreover have "settle_entity (lookup (gd_cache s)) part A e = A(part := ?k)" "move_messages E part (lookup (gd_cache s)) e = []"
      using True found by (auto simp: settle_entity_def lookup_def move_messages_def)
    ultimately show thesis using A1 by (intro that [of "s \<lparr> gd_db := db1 \<rparr>"]) simp_all
  next
    case False
    then obtain t where t: "r = Some t" "t \<noteq> part" "t \<in> P" using assms(7) by (cases r) auto
    have "holds_outliers T (hash_of db1) t (A t)" using A1 t(2,3) by (auto simp: all_hold_def)
    then obtain db2 where 2: "store_outlier T C t e db1 = (Inr False, db2)"
        "holds_outliers T (hash_of db2) t (A t @ [e])" "writes_field (hash_of db1) outliers_table t (hash_of db2)"
      by (rule store_holds) (rule assms(5))
    have look: "lookup (gd_cache s) e = Some t" by (simp add: lookup_def found t(1))
    obtain s' where s': "process_cell_outlier E part e s = (Inr (), s')" "gd_db s' = db2" "gd_cache s' = gd_cache s"
        "gd_sent s' = gd_sent s @ move_messages E part (lookup (gd_cache s)) e"
      using found t(1,2) 1(1) 2(1) E look by (simp add: process_cell_outlier_def move_outlier_def Let_def move_messages_def)
    show thesis
      by (rule that [OF s'(1) _ s'(3,4)]) (use all_hold_write [OF A1 2(3,2)] t(2) look s'(2) in \<open>simp add: settle_entity_def\<close>)
  qed
qed

lemma process_cell_loop:
  assumes E: "ge_class E = T" "ge_conn E = C" and "all_hold T (hash_of (gd_db s)) P A" and "part \<in> P"
    and "\<forall>e\<in>set es. printed e \<and> (\<exists>r. find_partition (gd_cache s) (entity_point e) = Inr r \<and> (r \<noteq> None \<longrightarrow> the r \<in> P))"
  shows "\<exists>s'. forIO (process_cell_outlier E part) es s = (Inr (), s') \<and>
    all_hold T (hash_of (gd_db s')) P (foldl (settle_entity (lookup (gd_cache s)) part) A es) \<and> gd_cache s' = gd_cache s \<and>
    gd_sent s' = gd_sent s @ concat (map (move_messages E part (lookup (gd_cache s))) es)"
  using assms(3,5)
proof (induction es arbitrary: s A)
  case (Cons e es)
  obtain r where r: "find_partition (gd_cache s) (entity_point e) = Inr r" "r \<noteq> None \<longrightarrow> the r \<in> P" and pr: "printed e"
    using Cons.prems(2) by auto
  obtain s1 where 1: "process_cell_outlier E part e s = (Inr (), s1)"
    "all_hold T (hash_of (gd_db s1)) P (settle_entity (lookup (gd_cache s)) part A e)"
    "gd_cache s1 = gd_cache s" "gd_sent s1 = gd_sent s @ move_messages E part (lookup (gd_cache s)) e"
    by (rule process_cell_step [OF E Cons.prems(1) assms(4) pr r(1)]) (use r(2) in auto)
  show ?case using Cons.IH [OF 1(2)] Cons.prems(2) 1 by auto
qed simp

text \<open>The answer of the store is a failure whenever it answers, so the target is never told.\<close>

lemma redistribute_silent:
  assumes "ge_class E = T" "ge_conn E = C"
  shows "gd_sent (snd (redistribute_entity E e source s)) = gd_sent s"
proof -
  have "gd_sent (snd (bindIO (dbIO (store_outlier T C t e)) (\<lambda>stored. whenIO stored (k t)) s)) = gd_sent s" for t k
  proof -
    obtain db where "store_outlier T C t e (gd_db s) = (bad_access, db) \<or> store_outlier T C t e (gd_db s) = (Inr False, db)"
      using store_outlier_answer [of t e "gd_db s"] by (metis prod.collapse)
    then have "dbIO (store_outlier T C t e) s = (bad_access, s \<lparr> gd_db := db \<rparr>) \<or>
        dbIO (store_outlier T C t e) s = (Inr False, s \<lparr> gd_db := db \<rparr>)"
      by (auto simp: dbIO_def zoomIO_def)
    then show ?thesis by (auto simp: bindIO_def bad_access_def)
  qed
  moreover have "gd_sent (snd (bindIO (dbIO (store_outlier T C t e)) (\<lambda>_. returnIO ()) s)) = gd_sent s" for t
    using dbIO_keeps(1) [of "store_outlier T C t e" s] by (auto simp: bindIO_def split: prod.splits sum.splits)
  ultimately show ?thesis
    using assms by (auto simp: redistribute_entity_def bindIO_def [of "liftIO _"] bindIO_def [of "getIO _"] split: option.splits sum.splits)
qed

text \<open>A shard without a field for its outliers, or a stored shape for the first shard, makes the computation of
  the shapes fail.\<close>

lemma compute_needs_outliers:
  assumes "ge_class E = T" "ge_conn E = C" and "l \<in> set (partition_server_ids E (gd_db s))"
    and "hash_of (gd_db s) outliers_table (lk_text (ge_link E) l) = None"
  shows "fst (compute_and_store_partitions E s) \<noteq> Inr True"
proof -
  have "lk_text (ge_link E) l \<in> set (map (lk_text (ge_link E)) (partition_server_ids E (gd_db s)))" using assms(3) by simp
  from fetch_missing [OF this assms(4)] obtain x where
    "fetch_all_entities T C (map (lk_text (ge_link E)) (partition_server_ids E (gd_db s))) True True (gd_db s) = Inl x" by blast
  then show ?thesis
    using assms(1,2) by (simp add: compute_and_store_partitions_def catchIO_def compute_partitions_def Let_def thenIO_def bindIO_def modifyIO_def)
qed

lemma assign_blocked:
  assumes "ge_conn E = C" and "hash_key cell_table" and "hash_of (gd_db s) cell_table (lk_text (ge_link E) l) \<noteq> None"
  shows "\<exists>s'. assign_shapes E k ((x, l) # ps) s = (Inr False, s')"
proof -
  define part where "part = lk_text (ge_link E) l"
  define g where "g = append_grid_cells k x \<lparr> cs_cells = [], cs_partition = part \<rparr>"
  obtain b db where st: "cells_store C part (int k) g (gd_db s) = (b, db)" by (rule prod.exhaust)
  have "\<not> b"
    using st hset_contents(3) [OF assms(2), of part "cells_text part (int k) g" "gd_db s"] assms(3)
    by (auto simp: cells_store_def db_hset_def conn part_def split: prod.splits)
  then show ?thesis using st assms(1) by (simp add: Let_def bindIO_def dbIO_def zoomIO_def part_def g_def)
qed

lemma compute_blocked:
  assumes E: "ge_class E = T" "ge_conn E = C" and "hash_key cell_table"
    and ids: "sort_links (lk_less (ge_link E)) (partition_server_ids E (gd_db s)) = l # ids"
    and "hash_of (gd_db s) cell_table (lk_text (ge_link E) l) \<noteq> None" and "gd_type s \<noteq> KD_Tree"
  shows "fst (compute_and_store_partitions E s) \<noteq> Inr True"
proof (cases "fetch_all_entities T C (map (lk_text (ge_link E)) (partition_server_ids E (gd_db s))) True True (gd_db s)")
  case (Inl x)
  then show ?thesis
    using E by (simp add: compute_and_store_partitions_def catchIO_def compute_partitions_def Let_def thenIO_def bindIO_def modifyIO_def)
next
  case (Inr es)
  obtain x xs where shapes: "compute_partition (gd_type s) (map pe_pos (deduplicate es)) = x # xs"
    using compute_partition_nonempty [OF assms(6)] by (meson neq_Nil_conv)
  let ?s = "s \<lparr> gd_heuristic := gd_type s, gd_cache := (gd_cache s) \<lparr> sc_shapes := x # xs, sc_index := [] \<rparr>, gd_assigned := [] \<rparr>"
  obtain s' where "assign_shapes E 0 ((x, l) # zip xs ids) ?s = (Inr False, s')"
    using assign_blocked [OF E(2) assms(3), of ?s l 0 x "zip xs ids"] assms(5) by auto
  then have "publish_shapes E (x # xs) (l # ids) ?s = (Inr False, s')"
    by (simp add: publish_shapes_def Let_def bindIO_def del: assign_shapes.simps)
  then have "compute_partitions E s = (Inr False, s')"
    using E Inr shapes ids by (simp add: compute_partitions_def Let_def thenIO_def)
  then show ?thesis by (simp add: compute_and_store_partitions_def catchIO_def)
qed

lemma compute_without_outliers:
  assumes "ge_class E = T" "ge_conn E = C" and "l \<in> set (partition_server_ids E (gd_db s))"
    and "hash_of (gd_db s) outliers_table (lk_text (ge_link E) l) = None"
  shows "\<exists>r. compute_and_store_partitions E s = (r, s \<lparr> gd_heuristic := gd_type s \<rparr>)"
proof -
  have "lk_text (ge_link E) l \<in> set (map (lk_text (ge_link E)) (partition_server_ids E (gd_db s)))" using assms(3) by simp
  from fetch_missing [OF this assms(4)] obtain x where
    "fetch_all_entities T C (map (lk_text (ge_link E)) (partition_server_ids E (gd_db s))) True True (gd_db s) = Inl x" by blast
  then show ?thesis
    using assms(1,2) by (simp add: compute_and_store_partitions_def catchIO_def compute_partitions_def Let_def thenIO_def bindIO_def modifyIO_def)
qed

lemma cleared_state:
  assumes "ge_conn E = C"
  obtains s' where "clear_all_state E s = (Inr (), s')" and "hash_of (gd_db s') outliers_table = (\<lambda>_. None)"
    and "\<not> sc_valid (gd_cache s')" and "gd_assigned s' = gd_assigned s" and "gd_sent s' = gd_sent s"
proof -
  define db1 where "db1 = snd (cells_clear C (snd (shape_clear C (gd_db s))))"
  obtain n db2 where 1: "db_del_key C outliers_table db1 = (n, db2)" by (rule prod.exhaust)
  then have "op_del R outliers_table db1 = (n, db2)" by (simp add: db_del_key_def conn)
  then have "hash_of db2 outliers_table = (\<lambda>_. None)" using del_hash [OF tables(1)] by (simp add: fun_eq_iff)
  moreover have "clear_all_state E s = (Inr (), s \<lparr> gd_db := db2,
      gd_cache := (gd_cache s) \<lparr> sc_shapes := [], sc_index := [], sc_valid := False \<rparr> \<rparr>)"
    using 1 assms by (simp add: clear_all_state_def Let_def clear_all_outliers_def db1_def)
  ultimately show thesis
    by (intro that [of "s \<lparr> gd_db := db2, gd_cache := (gd_cache s) \<lparr> sc_shapes := [], sc_index := [], sc_valid := False \<rparr> \<rparr>"]) simp_all
qed

end

section \<open>Properties\<close>

text \<open>C18: sorting the outliers of a partition by the cells, when the partition and every partition in which
  one of the outliers lies already have a field in the table of the outliers, and all their entities have
  coordinates that are printed exactly: every outlier of the partition leaves its list, joins the list of the
  partition its point is in, in order, unless that is the partition itself or there is none, and the two
  partitions are told of each move. (An outlier that lies in its own partition or in none is forgotten.)\<close>

theorem grid_cells_sort_outliers:
  assumes "outlier_store R hash_key hash_of set_of T C" and "ge_class E = T" "ge_conn E = C"
    and "all_hold T (hash_of (gd_db s)) P A" and "part \<in> P"
    and "\<forall>e\<in>set (A part). \<exists>r. find_partition (gd_cache s) (entity_point e) = Inr r \<and> (r \<noteq> None \<longrightarrow> the r \<in> P)"
  shows "\<exists>s'. for_outliers E (process_cell_outlier E) part s = (Inr (), s') \<and>
    all_hold T (hash_of (gd_db s')) P (\<lambda>p. if p = part then []
      else A p @ map (bare T) (filter (\<lambda>e. lookup (gd_cache s) e = Some p) (A part))) \<and>
    gd_sent s' = gd_sent s @ concat (map (\<lambda>e. move_messages E part (lookup (gd_cache s)) (bare T e)) (A part))"
proof -
  let ?f = "lookup (gd_cache s)" and ?es = "map (bare T) (A part)"
  have point: "entity_point (bare T e) = entity_point e" for e by (simp add: entity_point_def)
  have holds: "holds_outliers T (hash_of (gd_db s)) part (A part)" using assms(4,5) by (simp add: all_hold_def)
  then have "list_all printed (A part)" by (simp add: holds_outliers_def)
  then have "\<forall>e\<in>set ?es. printed e \<and> (\<exists>r. find_partition (gd_cache s) (entity_point e) = Inr r \<and> (r \<noteq> None \<longrightarrow> the r \<in> P))"
    using assms(6) by (auto simp: list_all_iff point)
  from outlier_store.process_cell_loop [OF assms(1-5) this] obtain s' where
    s': "forIO (process_cell_outlier E part) ?es s = (Inr (), s')"
      "all_hold T (hash_of (gd_db s')) P (foldl (settle_entity ?f part) A ?es)"
      "gd_sent s' = gd_sent s @ concat (map (move_messages E part ?f) ?es)" by blast
  have "foldl (settle_entity ?f part) A ?es p = (if p = part then [] else A p @ map (bare T) (filter (\<lambda>e. ?f e = Some p) (A part)))" for p
    by (auto simp: settle_entity_source settle_entity_other filter_map comp_def lookup_def point image_image filter_empty_conv)
  then have "foldl (settle_entity ?f part) A ?es = (\<lambda>p. if p = part then [] else A p @ map (bare T) (filter (\<lambda>e. ?f e = Some p) (A part)))"
    by (rule ext)
  moreover have "for_outliers E (process_cell_outlier E) part s = (Inr (), s')"
    using outlier_store.fetch_holds [OF assms(1) holds] s'(1) assms(2,3) by (simp add: for_outliers_def)
  ultimately show ?thesis using s'(2,3) by (auto simp: comp_def)
qed

definition plain_links :: "bytes link_class" where
  "plain_links = \<lparr> lk_type = \<lambda>_. eShard, lk_text = \<lambda>l. l, lk_shard = \<lambda>l. l, lk_god = [], lk_less = ord_class.lexordp, lk_parse = Some,
     lk_key = \<lambda>l. 1 # l, lk_read = \<lambda>b. Inr (tl b) \<rparr>"

definition plain_env :: "bytes list \<Rightarrow> (u64, mem_db, bytes) god_env" where
  "plain_env ls = \<lparr> ge_class = plain_class, ge_conn = mem_connection, ge_link = plain_links, ge_servers = \<lambda>_. ls, ge_now = 0 \<rparr>"

lemma plain_env_simps [simp]: "ge_class (plain_env ls) = plain_class" "ge_conn (plain_env ls) = mem_connection"
  "ge_link (plain_env ls) = plain_links" "ge_servers (plain_env ls) db = ls"
  by (simp_all add: plain_env_def)

definition whole_cache :: "bytes \<Rightarrow> shape_cache" where
  "whole_cache part = cache_new \<lparr> sc_valid := True, sc_spatial := \<lambda>_. Some part, sc_spatial_valid := True \<rparr>"

lemma whole_lookup: "find_partition (whole_cache part) p = Inr (Some part)"
proof -
  obtain a b where "cell_coordinate 100 (p2x p) = Inr a" "cell_coordinate 100 (p2y p) = Inr b"
    using cell_coordinate_defined by blast
  then show ?thesis by (simp add: find_partition_def fast_lookup_def whole_cache_def cache_new_def)
qed

definition plain_god :: "mem_db \<Rightarrow> shape_cache \<Rightarrow> (mem_db, bytes) god" where
  "plain_god db c = \<lparr> gd_db = db, gd_cache = c, gd_type = Quad_Tree, gd_heuristic = Quad_Tree, gd_assigned = [], gd_sent = [] \<rparr>"

lemma plain_god_simps [simp]: "gd_db (plain_god db c) = db" "gd_cache (plain_god db c) = c" "gd_sent (plain_god db c) = []"
  "gd_type (plain_god db c) = Quad_Tree"
  by (simp_all add: plain_god_def)

text \<open>One outlier, at the origin.\<close>

definition one_outlier :: "bytes \<Rightarrow> bytes \<Rightarrow> mem_db" where
  "one_outlier p q = held_db [(p, outlier_text plain_class plain_new), (q, [])]"

lemma one_outlier_holds:
  assumes "p \<noteq> q"
  shows "all_hold plain_class (mem_hash (one_outlier p q)) {p, q} (\<lambda>r. if r = p then [plain_new] else [])"
  using assms by (simp add: all_hold_def holds_outliers_def mem_hash_def one_outlier_def held_db_def mem_empty_def printed_def
      plain_new_def printable_half)

theorem grid_cells_sort_outliers_witness:
  "\<exists>s'. for_outliers (plain_env []) (process_cell_outlier (plain_env [])) [80] (plain_god (one_outlier [80] [81]) (whole_cache [81])) = (Inr (), s') \<and>
     holds_outliers plain_class (mem_hash (gd_db s')) [80] [] \<and> holds_outliers plain_class (mem_hash (gd_db s')) [81] [bare plain_class plain_new] \<and>
     length (gd_sent s') = 2"
proof -
  let ?s = "plain_god (one_outlier [80] [81]) (whole_cache [81])"
  have A: "all_hold plain_class (mem_hash (gd_db ?s)) {[80], [81]} (\<lambda>r. if r = [80] then [plain_new] else [])"
    using one_outlier_holds [of "[80]" "[81]"] by simp
  show ?thesis
    using grid_cells_sort_outliers [OF memout_store _ _ A, of "plain_env []" "[80]"] whole_lookup [of "[81]"]
    by (auto simp: all_hold_def lookup_def move_messages_def Let_def)
qed

text \<open>Without that field the outlier is lost: it has left its list when storing it for its target throws, and
  nobody is told.\<close>

theorem cell_outlier_lost:
  assumes "outlier_store R hash_key hash_of set_of T C" and "ge_class E = T" "ge_conn E = C"
    and "holds_outliers T (hash_of (gd_db s)) part es" and "find_partition (gd_cache s) (entity_point e) = Inr (Some t)"
    and "t \<noteq> part" and "hash_of (gd_db s) outliers_table t = None"
  shows "\<exists>s'. process_cell_outlier E part e s = (bad_access, s') \<and>
    holds_outliers T (hash_of (gd_db s')) part (filter (\<lambda>x. pe_id x \<noteq> pe_id e) es) \<and>
    hash_of (gd_db s') outliers_table t = None \<and> gd_sent s' = gd_sent s"
proof -
  obtain db where db: "remove_from_outliers T C part (pe_id e) (gd_db s) = (Inr (es = []), db)"
      "holds_outliers T (hash_of db) part (filter (\<lambda>x. pe_id x \<noteq> pe_id e) es)"
      "writes_field (hash_of (gd_db s)) outliers_table part (hash_of db)"
    using outlier_store.remove_holds [OF assms(1,4)] by metis
  have none: "hash_of db outliers_table t = None" using db(3) assms(6,7) by (simp add: writes_field_def)
  have "process_cell_outlier E part e s = (bad_access, s \<lparr> gd_db := db \<rparr>)"
    using assms(2,3,5,6) db(1) outlier_store.no_field(3) [OF assms(1) none, of e]
    by (simp add: process_cell_outlier_def move_outlier_def Let_def bad_access_def)
  then show ?thesis using db(2) none by (intro exI [of _ "s \<lparr> gd_db := db \<rparr>"]) simp
qed

theorem cell_outlier_lost_witness:
  "\<exists>s'. process_cell_outlier (plain_env []) [80] plain_new
      (plain_god (held_db [([80], outlier_text plain_class plain_new)]) (whole_cache [81])) = (bad_access, s') \<and>
    holds_outliers plain_class (mem_hash (gd_db s')) [80] [] \<and> gd_sent s' = []"
proof -
  let ?s = "plain_god (held_db [([80], outlier_text plain_class plain_new)]) (whole_cache [81])"
  have "holds_outliers plain_class (mem_hash (gd_db ?s)) [80] [plain_new]"
    by (simp add: holds_outliers_def mem_hash_def held_db_def mem_empty_def printed_def plain_new_def printable_half)
  moreover have "mem_hash (gd_db ?s) outliers_table [81] = None"
    by (simp add: mem_hash_def held_db_def mem_empty_def)
  ultimately show ?thesis
    using cell_outlier_lost [OF memout_store, of "plain_env []" ?s "[80]" "[plain_new]" plain_new "[81]"]
    by (auto simp: whole_lookup)
qed

text \<open>No answer of a shard makes the watchdog tell anybody where an entity goes: the store it waits for never
  reports success, because it only overwrites.\<close>

theorem redistributed_never_told:
  assumes "outlier_store R hash_key hash_of set_of T C" and "ge_class E = T" "ge_conn E = C"
  shows "gd_sent (snd (handle_entity_removed E msg s)) = gd_sent s"
  using outlier_store.redistribute_silent [OF assms]
  by (simp add: handle_entity_removed_def split: option.splits prod.splits)

theorem redistributed_never_told_witness:
  "gd_sent (snd (handle_entity_removed (plain_env []) msg (plain_god mem_empty cache_new))) = []"
  using redistributed_never_told [OF memout_store, of "plain_env []" msg "plain_god mem_empty cache_new"] by simp

text \<open>The computation of the shapes does not succeed while a registered shard has no field for its outliers,
  as none has when the database was cleared, and not once the first shard has a stored shape.\<close>

theorem shapes_computation_fails:
  assumes "outlier_store R hash_key hash_of set_of T C" and "ge_class E = T" "ge_conn E = C" and "hash_key cell_table"
    and "gd_type s \<noteq> KD_Tree" and "sort_links (lk_less (ge_link E)) (partition_server_ids E (gd_db s)) = l # ids"
    and "(\<exists>k\<in>set (partition_server_ids E (gd_db s)). hash_of (gd_db s) outliers_table (lk_text (ge_link E) k) = None) \<or>
      hash_of (gd_db s) cell_table (lk_text (ge_link E) l) \<noteq> None"
  shows "fst (compute_and_store_partitions E s) \<noteq> Inr True"
  using assms(7) outlier_store.compute_needs_outliers [OF assms(1-3)] outlier_store.compute_blocked [OF assms(1-4,6) _ assms(5)] by blast

theorem shapes_computation_fails_witness:
  "fst (compute_and_store_partitions (plain_env [[80]]) (plain_god mem_empty cache_new)) \<noteq> Inr True"
  by (rule shapes_computation_fails [OF memout_store, of _ _ "[80]" "[]"])
    (simp_all add: partition_server_ids_def plain_links_def sort_links_def mem_hash_def mem_empty_def)

text \<open>C34: after a start with a cleared database no shard gets a shape: as long as a shard is registered and none
  has stored outliers, for which it needs a shape, an update computes nothing, tells nobody and leaves the cache
  without shapes.\<close>

theorem fresh_start_gives_no_shapes:
  assumes "outlier_store R hash_key hash_of set_of T C" and "ge_class E = T" "ge_conn E = C"
    and "clear_all_state E s = (r, s')" and "partition_server_ids E (gd_db s') \<noteq> []" and "gd_assigned s = []"
  shows "r = Inr () \<and> (\<exists>x s''. heuristic_update E s' = (x, s'') \<and> gd_db s'' = gd_db s' \<and> gd_sent s'' = gd_sent s \<and> \<not> sc_valid (gd_cache s''))"
proof -
  have s': "r = Inr ()" "hash_of (gd_db s') outliers_table = (\<lambda>_. None)" "\<not> sc_valid (gd_cache s')" "gd_assigned s' = []" "gd_sent s' = gd_sent s"
    using outlier_store.cleared_state [OF assms(1,3), of s] assms(4,6) by auto
  obtain l where "l \<in> set (partition_server_ids E (gd_db s'))" using assms(5) by (cases "partition_server_ids E (gd_db s')") auto
  from outlier_store.compute_without_outliers [OF assms(1-3) this] s'(2) obtain x where
    "compute_and_store_partitions E s' = (x, s' \<lparr> gd_heuristic := gd_type s' \<rparr>)" by auto
  then have "heuristic_update E s' = (case x of Inl e \<Rightarrow> Inl e | Inr _ \<Rightarrow> Inr (), s' \<lparr> gd_heuristic := gd_type s' \<rparr>)"
    using s'(4) by (cases x) (simp_all add: heuristic_update_def notify_partitions_to_fetch_shapes_def)
  then show ?thesis using s' by simp
qed

theorem fresh_start_gives_no_shapes_witness:
  "\<exists>x s''. heuristic_update (plain_env [[80]]) (snd (clear_all_state (plain_env [[80]]) (plain_god mem_empty cache_new))) = (x, s'') \<and>
     gd_sent s'' = []"
proof -
  let ?s = "plain_god mem_empty cache_new"
  obtain r s' where 1: "clear_all_state (plain_env [[80]]) ?s = (r, s')" by (rule prod.exhaust)
  have "partition_server_ids (plain_env [[80]]) (gd_db s') \<noteq> []" "gd_assigned ?s = []"
    by (simp_all add: partition_server_ids_def plain_links_def plain_god_def)
  then show ?thesis using fresh_start_gives_no_shapes [OF memout_store _ _ 1] 1 by auto
qed

end
