(* ===== verification/Entity_Data.thy ===== *)
theory Entity_Data
  imports Network_Identity Aabb
begin

text \<open>
  The serializable entity data (\<open>Entity/Transform.hpp\<close>, \<open>Entity/Entity.hpp\<close>) and the telemetry record
  of a connection (\<open>Network/ConnectionTelemetry.hpp\<close>), with the codec contract of each.
\<close>

section \<open>Transforms and entities\<close>

record transform =
  tr_world :: u16
  tr_position :: vec3
  tr_bounding_box :: aabb

definition transform_new :: transform where
  "transform_new = \<lparr> tr_world = 0, tr_position = \<lparr> vx = 0, vy = 0, vz = 0 \<rparr>, tr_bounding_box = aabb_new 3 \<rparr>"

definition transform_ser :: "transform \<Rightarrow> writer \<Rightarrow> writer" where
  "transform_ser t w =
    aabb_ser (tr_bounding_box t) (bw_vec3 (tr_position t) (bw_u16 (tr_world t) w))"

definition transform_des :: "(reader, transform) stm" where
  "transform_des =
    bindS br_u16 (\<lambda>wd. bindS br_vec3 (\<lambda>p. bindS (aabb_des 3) (\<lambda>b.
      returnS \<lparr> tr_world = wd, tr_position = p, tr_bounding_box = b \<rparr>)))"

record entity_minimal =
  e_id :: bytes
  e_is_client :: bool
  e_client_id :: bytes
  e_packet_seq :: u64
  e_transfer_generation :: u64
  e_transform :: transform

definition entity_minimal_ser :: "'z entity_minimal_scheme \<Rightarrow> writer \<Rightarrow> writer" where
  "entity_minimal_ser e w =
    transform_ser (e_transform e)
      (bw_u64 (e_transfer_generation e)
        (bw_u64 (e_packet_seq e)
          (bw_uuid (e_client_id e)
            (bw_u8 (if e_is_client e then 1 else 0)
              (bw_uuid (e_id e) w)))))"

definition entity_minimal_des :: "(reader, entity_minimal) stm" where
  "entity_minimal_des =
    bindS br_uuid (\<lambda>i. bindS br_u8 (\<lambda>c. bindS br_uuid (\<lambda>ci. bindS br_u64 (\<lambda>s. bindS br_u64 (\<lambda>g.
    bindS transform_des (\<lambda>t.
      returnS \<lparr> e_id = i, e_is_client = (c \<noteq> 0), e_client_id = ci, e_packet_seq = s,
        e_transfer_generation = g, e_transform = t \<rparr>))))))"

text \<open>\<open>AtlasEntity\<close> derives from the minimal entity and adds its metadata.\<close>

record entity = entity_minimal +
  e_metadata :: bytes

definition entity_ser :: "entity \<Rightarrow> writer \<Rightarrow> writer" where
  "entity_ser e w = bw_blob (e_metadata e) (entity_minimal_ser e w)"

definition entity_des :: "(reader, entity) stm" where
  "entity_des =
    bindS entity_minimal_des (\<lambda>m. bindS br_blob (\<lambda>md.
      returnS (entity_minimal.extend m \<lparr> e_metadata = md \<rparr>)))"

section \<open>Telemetry\<close>

record connection_telemetry =
  ct_identity_id :: bytes
  ct_target_id :: bytes
  ct_ping_ms :: u32
  ct_in_bytes_per_sec :: f32
  ct_out_bytes_per_sec :: f32
  ct_in_packets_per_sec :: f32
  ct_pending_reliable :: u32
  ct_pending_unreliable :: u32
  ct_sent_unacked :: u32
  ct_queue_time :: u64
  ct_quality_local :: f32
  ct_quality_remote :: f32
  ct_state :: u32

definition telemetry_ser :: "connection_telemetry \<Rightarrow> writer \<Rightarrow> writer" where
  "telemetry_ser c w =
    bw_i32 (ct_state c) (bw_f32 (ct_quality_remote c) (bw_f32 (ct_quality_local c)
    (bw_u64 (ct_queue_time c) (bw_u32 (ct_sent_unacked c) (bw_u32 (ct_pending_unreliable c)
    (bw_u32 (ct_pending_reliable c) (bw_f32 (ct_in_packets_per_sec c)
    (bw_f32 (ct_out_bytes_per_sec c) (bw_f32 (ct_in_bytes_per_sec c) (bw_i32 (ct_ping_ms c)
    (bw_str (ct_target_id c) (bw_str (ct_identity_id c) w))))))))))))"

definition telemetry_des :: "(reader, connection_telemetry) stm" where
  "telemetry_des =
    bindS br_str (\<lambda>a. bindS br_str (\<lambda>b. bindS br_i32 (\<lambda>c. bindS br_f32 (\<lambda>d. bindS br_f32 (\<lambda>e.
    bindS br_f32 (\<lambda>f. bindS br_u32 (\<lambda>g. bindS br_u32 (\<lambda>h. bindS br_u32 (\<lambda>i. bindS br_u64 (\<lambda>j.
    bindS br_f32 (\<lambda>k. bindS br_f32 (\<lambda>l. bindS br_i32 (\<lambda>m.
      returnS \<lparr> ct_identity_id = a, ct_target_id = b, ct_ping_ms = c, ct_in_bytes_per_sec = d,
        ct_out_bytes_per_sec = e, ct_in_packets_per_sec = f, ct_pending_reliable = g,
        ct_pending_unreliable = h, ct_sent_unacked = i, ct_queue_time = j, ct_quality_local = k,
        ct_quality_remote = l, ct_state = m \<rparr>)))))))))))))"

section \<open>Encodings\<close>

definition nid_enc :: "network_identity \<Rightarrow> bytes" where
  "nid_enc n = be_enc (nid_type n) @ nid_id n"

definition nid_ok :: "network_identity \<Rightarrow> bool" where
  "nid_ok n \<longleftrightarrow> length (nid_id n) = 16"

definition transform_enc :: "transform \<Rightarrow> bytes" where
  "transform_enc t = be_enc (tr_world t) @ vec3_enc (tr_position t) @ aabb_enc (tr_bounding_box t)"

definition transform_ok :: "transform \<Rightarrow> bool" where
  "transform_ok t \<longleftrightarrow> aabb_wf 3 (tr_bounding_box t)"

definition entity_minimal_enc :: "'z entity_minimal_scheme \<Rightarrow> bytes" where
  "entity_minimal_enc e =
    e_id e @ [if e_is_client e then 1 else 0] @ e_client_id e @ be_enc (e_packet_seq e) @
    be_enc (e_transfer_generation e) @ transform_enc (e_transform e)"

definition entity_minimal_ok :: "'z entity_minimal_scheme \<Rightarrow> bool" where
  "entity_minimal_ok e \<longleftrightarrow>
    length (e_id e) = 16 \<and> length (e_client_id e) = 16 \<and> transform_ok (e_transform e)"

definition entity_enc :: "entity \<Rightarrow> bytes" where
  "entity_enc e = entity_minimal_enc e @ str_enc (e_metadata e)"

definition entity_ok :: "entity \<Rightarrow> bool" where
  "entity_ok e \<longleftrightarrow> entity_minimal_ok e \<and> length (e_metadata e) < 2 ^ 32"

definition telemetry_enc :: "connection_telemetry \<Rightarrow> bytes" where
  "telemetry_enc c =
    str_enc (ct_identity_id c) @ str_enc (ct_target_id c) @ be_enc (ct_ping_ms c) @
    be_enc (ct_in_bytes_per_sec c) @ be_enc (ct_out_bytes_per_sec c) @
    be_enc (ct_in_packets_per_sec c) @ be_enc (ct_pending_reliable c) @
    be_enc (ct_pending_unreliable c) @ be_enc (ct_sent_unacked c) @ be_enc (ct_queue_time c) @
    be_enc (ct_quality_local c) @ be_enc (ct_quality_remote c) @ be_enc (ct_state c)"

definition telemetry_ok :: "connection_telemetry \<Rightarrow> bool" where
  "telemetry_ok c \<longleftrightarrow> length (ct_identity_id c) < 2 ^ 32 \<and> length (ct_target_id c) < 2 ^ 32"

section \<open>Codecs\<close>

lemma nid_collapse [simp]: "\<lparr> nid_type = nid_type n, nid_id = nid_id n \<rparr> = n"
  by (cases n) simp

lemma nid_ser_enc [enc_simps]: "nid_ser n w = bw_write (nid_enc n) w"
  by (simp add: nid_ser_def nid_enc_def enc_simps)

lemma decodes_read_u32 [decodes_intros]: "decodes br_read_scalar (be_enc v) (v :: u32)"
  by (rule decodes_br_read_scalar) simp_all

lemma decodes_nid [decodes_intros]:
  assumes "nid_ok n"
  shows "decodes nid_des (nid_enc n) n"
proof -
  have "length (nid_id n) = 16" using assms by (simp add: nid_ok_def)
  then have "decodes nid_des (nid_enc n) \<lparr> nid_type = nid_type n, nid_id = nid_id n \<rparr>"
    unfolding nid_des_def nid_enc_def
    by - (rule decodes_bind decodes_bind_last decodes_intros | assumption)+
  then show ?thesis by simp
qed

lemma transform_ser_enc [enc_simps]: "transform_ser t w = bw_write (transform_enc t) w"
  by (simp add: transform_ser_def transform_enc_def enc_simps)

lemma transform_collapse [simp]:
  "\<lparr> tr_world = tr_world t, tr_position = tr_position t, tr_bounding_box = tr_bounding_box t \<rparr> = t"
  by (cases t) simp

lemma decodes_transform [decodes_intros]:
  assumes "transform_ok t"
  shows "decodes transform_des (transform_enc t) t"
proof -
  have "aabb_wf 3 (tr_bounding_box t)" using assms by (simp add: transform_ok_def)
  then have "decodes transform_des (transform_enc t)
      \<lparr> tr_world = tr_world t, tr_position = tr_position t, tr_bounding_box = tr_bounding_box t \<rparr>"
    unfolding transform_des_def transform_enc_def
    by - (rule decodes_bind decodes_bind_last decodes_intros | assumption)+
  then show ?thesis by simp
qed

lemma entity_minimal_ser_enc [enc_simps]:
  "entity_minimal_ser e w = bw_write (entity_minimal_enc e) w"
  by (simp add: entity_minimal_ser_def entity_minimal_enc_def enc_simps)

lemma decodes_entity_minimal_trunc:
  fixes e :: "'z entity_minimal_scheme"
  assumes "entity_minimal_ok e"
  shows "decodes entity_minimal_des (entity_minimal_enc e) (entity_minimal.truncate e)"
proof -
  let ?c = "if e_is_client e then 1 else 0 :: u8"
  have "length (e_id e) = 16" "length (e_client_id e) = 16" "transform_ok (e_transform e)"
    using assms by (simp_all add: entity_minimal_ok_def)
  then have "decodes entity_minimal_des (entity_minimal_enc e)
      \<lparr> e_id = e_id e, e_is_client = (?c \<noteq> 0), e_client_id = e_client_id e,
        e_packet_seq = e_packet_seq e, e_transfer_generation = e_transfer_generation e,
        e_transform = e_transform e \<rparr>"
    unfolding entity_minimal_des_def entity_minimal_enc_def
    by - (rule decodes_bind decodes_bind_last decodes_intros | assumption)+
  moreover have "(?c \<noteq> 0) = e_is_client e" by simp
  ultimately show ?thesis by (simp only: entity_minimal.truncate_def)
qed

lemma decodes_entity_minimal [decodes_intros]:
  assumes "entity_minimal_ok e"
  shows "decodes entity_minimal_des (entity_minimal_enc e) e"
proof -
  have "entity_minimal.truncate e = e" by (cases e) (simp add: entity_minimal.truncate_def)
  with decodes_entity_minimal_trunc [OF assms] show ?thesis by simp
qed

lemma entity_ser_enc [enc_simps]: "entity_ser e w = bw_write (entity_enc e) w"
  by (simp add: entity_ser_def entity_enc_def enc_simps)

lemma decodes_entity [decodes_intros]:
  assumes "entity_ok e"
  shows "decodes entity_des (entity_enc e) e"
proof -
  have *: "entity_minimal_ok e" "length (e_metadata e) < 2 ^ 32"
    using assms by (simp_all add: entity_ok_def)
  have "decodes entity_des (entity_enc e)
      (entity_minimal.extend (entity_minimal.truncate e) \<lparr> e_metadata = e_metadata e \<rparr>)"
    unfolding entity_des_def entity_enc_def
    by (rule decodes_bind decodes_bind_last decodes_entity_minimal_trunc decodes_br_blob
        decodes_return * )+
  moreover have "entity_minimal.extend (entity_minimal.truncate e) \<lparr> e_metadata = e_metadata e \<rparr> = e"
    by (cases e) (simp add: entity_minimal.extend_def entity_minimal.truncate_def)
  ultimately show ?thesis by simp
qed

lemma telemetry_ser_enc [enc_simps]: "telemetry_ser c w = bw_write (telemetry_enc c) w"
  by (simp add: telemetry_ser_def telemetry_enc_def enc_simps)

lemma decodes_telemetry [decodes_intros]:
  assumes "telemetry_ok c"
  shows "decodes telemetry_des (telemetry_enc c) c"
proof -
  have *: "length (ct_identity_id c) < 2 ^ 32" "length (ct_target_id c) < 2 ^ 32"
    using assms by (simp_all add: telemetry_ok_def)
  obtain a b cc d e f g h i j k l m where c: "c =
      \<lparr> ct_identity_id = a, ct_target_id = b, ct_ping_ms = cc, ct_in_bytes_per_sec = d,
        ct_out_bytes_per_sec = e, ct_in_packets_per_sec = f, ct_pending_reliable = g,
        ct_pending_unreliable = h, ct_sent_unacked = i, ct_queue_time = j, ct_quality_local = k,
        ct_quality_remote = l, ct_state = m \<rparr>"
    by (cases c)
  show ?thesis
    using * unfolding c telemetry_des_def telemetry_enc_def connection_telemetry.select_convs
    by - (rule decodes_bind decodes_bind_last decodes_intros | assumption)+
qed

interpretation nidc: codec nid_ser nid_des nid_enc nid_ok
  by unfold_locales (simp_all add: enc_simps decodes_intros)

interpretation transformc: codec transform_ser transform_des transform_enc transform_ok
  by unfold_locales (simp_all add: enc_simps decodes_intros)

interpretation entityminc: codec entity_minimal_ser entity_minimal_des entity_minimal_enc entity_minimal_ok
  by unfold_locales (simp_all add: enc_simps decodes_intros)

interpretation entityc: codec entity_ser entity_des entity_enc entity_ok
  by unfold_locales (simp_all add: enc_simps decodes_intros)

interpretation telemetryc: codec telemetry_ser telemetry_des telemetry_enc telemetry_ok
  by unfold_locales (simp_all add: enc_simps decodes_intros)

lemma contained_read_scalar [contained_intros]: "contained (br_read_scalar :: (reader, 32 word) stm)"
proof -
  have "(br_read_scalar :: (reader, 32 word) stm) = br_read_be"
    by (intro ext) (simp add: br_read_scalar_def)
  then show ?thesis by (simp add: contained_read_be)
qed

lemma contained_data [contained_intros]:
  "contained nid_des" "contained (aabb_des d)"
  unfolding nid_des_def aabb_des_def br_read_vector_def by (rule contained_intros)+

lemma contained_entities [contained_intros]:
  "contained transform_des" "contained entity_minimal_des" "contained entity_des"
  "contained telemetry_des"
proof -
  show 1: "contained transform_des" unfolding transform_des_def by (rule contained_intros)+
  show 2: "contained entity_minimal_des"
    unfolding entity_minimal_des_def by (rule contained_intros 1)+
  show "contained entity_des" unfolding entity_des_def by (rule contained_intros 2)+
  show "contained telemetry_des" unfolding telemetry_des_def by (rule contained_intros)+
qed

end
