(* ===== verification/Grid_Heuristic.thy ===== *)
theory Grid_Heuristic
  imports Entity_Data
begin

text \<open>
  Bounds and heuristics (\<open>Heuristic/IBounds.hpp\<close>, \<open>Heuristic/IHeuristic.hpp\<close>) and the one
  implementation, the grid of four cells (\<open>Heuristic/GridHeuristic\<close>). Logging is left out.
\<close>

section \<open>Heuristic types\<close>

datatype heuristic_type = HNone | HGridCell | HOctree | HQuadtree | HInvalid

fun type_to_string :: "heuristic_type \<Rightarrow> string" where
  "type_to_string HNone = ''None''"
| "type_to_string HGridCell = ''GridCell''"
| "type_to_string HOctree = ''Octree''"
| "type_to_string HQuadtree = ''Quadtree''"
| "type_to_string HInvalid = ''Invalid''"

text \<open>The result and the output parameter.\<close>

definition type_from_string :: "string \<Rightarrow> bool \<times> heuristic_type" where
  "type_from_string s =
    (if s = ''None'' then (True, HNone)
     else if s = ''GridCell'' then (True, HGridCell)
     else if s = ''Octree'' then (True, HOctree)
     else if s = ''Quadtree'' then (True, HQuadtree)
     else if s = ''Invalid'' then (True, HInvalid)
     else (False, HNone))"

section \<open>Grid cells\<close>

text \<open>A bound is its id with its box (\<open>IBounds\<close> and \<open>GridShape\<close>).\<close>

record grid_shape =
  gs_id :: u32
  gs_aabb :: aabb

definition grid_shape_new :: grid_shape where
  "grid_shape_new = \<lparr> gs_id = 0, gs_aabb = aabb_new 3 \<rparr>"

definition grid_shape_ser :: "grid_shape \<Rightarrow> writer \<Rightarrow> writer" where
  "grid_shape_ser s w = aabb_ser (gs_aabb s) (bw_write_scalar (gs_id s) w)"

definition grid_shape_des :: "(reader, grid_shape) stm" where
  "grid_shape_des =
    bindS br_read_scalar (\<lambda>i. bindS (aabb_des 3) (\<lambda>b. returnS \<lparr> gs_id = i, gs_aabb = b \<rparr>))"

definition vec3_list :: "vec3 \<Rightarrow> f32 list" where
  "vec3_list p = [vx p, vy p, vz p]"

definition grid_shape_contains :: "grid_shape \<Rightarrow> vec3 \<Rightarrow> bool" where
  "grid_shape_contains s p = aabb_contains (gs_aabb s) (vec3_list p)"

definition grid_shape_center :: "grid_shape \<Rightarrow> f32 list" where
  "grid_shape_center s = aabb_center (gs_aabb s)"

section \<open>The grid\<close>

record grid_heuristic =
  gh_grid_size :: "f32 \<times> f32"
  gh_quads :: "grid_shape list"

definition grid_new :: grid_heuristic where
  "grid_new = \<lparr> gh_grid_size = (f_of_int 100, f_of_int 100), gh_quads = [] \<rparr>"

text \<open>The body of the loop of \<open>Compute\<close> for the cell \<open>i\<close>.\<close>

definition grid_cell :: "f32 \<times> f32 \<Rightarrow> nat \<Rightarrow> grid_shape" where
  "grid_cell sz i =
    \<lparr> gs_id = of_nat i,
      gs_aabb = aabb_set_center_extents
        [f_of_int ((if i mod 2 \<noteq> 0 then 1 else -1) * 50), f_of_int ((if i div 2 \<noteq> 0 then 1 else -1) * 50), f_of_int 0]
        [f_div (fst sz) (f_of_int 2), f_div (snd sz) (f_of_int 2), f_of_int 5]
        (aabb_new 3) \<rparr>"

definition grid_compute :: "entity_minimal list \<Rightarrow> grid_heuristic \<Rightarrow> grid_heuristic" where
  "grid_compute es g = g \<lparr> gh_quads := map (grid_cell (gh_grid_size g)) [0..<4] \<rparr>"

text \<open>The source has no return statement.\<close>

definition grid_get_bounds_count :: "grid_heuristic \<Rightarrow> u32 res" where
  "grid_get_bounds_count g = Inl (UB Missing_Return)"

text \<open>\<open>GetBounds\<close> and \<open>GetBoundDeltas\<close> have empty bodies: the output is left as it is.\<close>

definition grid_get_bounds :: "grid_heuristic \<Rightarrow> grid_shape list \<Rightarrow> grid_shape list" where
  "grid_get_bounds g out = out"

definition grid_get_type :: "grid_heuristic \<Rightarrow> heuristic_type" where
  "grid_get_type g = HGridCell"

text \<open>\<open>emplace\<close> keeps an existing writer, to which the bound is then appended.\<close>

definition bounds_emplace :: "(u32 \<Rightarrow> writer option) \<Rightarrow> grid_shape \<Rightarrow> u32 \<Rightarrow> writer option" where
  "bounds_emplace bws q =
    bws(gs_id q \<mapsto> grid_shape_ser q (case bws (gs_id q) of None \<Rightarrow> bw_new | Some w \<Rightarrow> w))"

definition grid_serialize_bounds :: "grid_heuristic \<Rightarrow> u32 \<Rightarrow> writer option" where
  "grid_serialize_bounds g = foldl bounds_emplace (\<lambda>_. None) (gh_quads g)"

definition grid_ser :: "grid_heuristic \<Rightarrow> writer \<Rightarrow> writer" where
  "grid_ser g w = fold grid_shape_ser (gh_quads g) (bw_u64 (of_nat (length (gh_quads g))) w)"

definition grid_des :: "grid_heuristic \<Rightarrow> (reader, grid_heuristic) stm" where
  "grid_des g = bindS br_u64 (\<lambda>n. bindS (repeatS (unat n) grid_shape_des) (\<lambda>qs.
     returnS (g \<lparr> gh_quads := qs \<rparr>)))"

definition grid_query_position :: "grid_heuristic \<Rightarrow> vec3 \<Rightarrow> grid_shape option" where
  "grid_query_position g p = find (\<lambda>s. aabb_contains (gs_aabb s) (vec3_list p)) (gh_quads g)"

section \<open>Codecs\<close>

definition grid_shape_enc :: "grid_shape \<Rightarrow> bytes" where
  "grid_shape_enc s = be_enc (gs_id s) @ aabb_enc (gs_aabb s)"

definition grid_shape_ok :: "grid_shape \<Rightarrow> bool" where
  "grid_shape_ok s \<longleftrightarrow> aabb_wf 3 (gs_aabb s)"

lemma grid_shape_collapse [simp]: "\<lparr> gs_id = gs_id s, gs_aabb = gs_aabb s \<rparr> = s"
  by (cases s) simp

interpretation gridshapec: codec grid_shape_ser grid_shape_des grid_shape_enc grid_shape_ok
proof
  fix s w assume "grid_shape_ok s"
  then show "grid_shape_ser s w = bw_write (grid_shape_enc s) w"
    by (simp add: grid_shape_ser_def grid_shape_enc_def enc_simps)
next
  fix s assume "grid_shape_ok s"
  then have "aabb_wf 3 (gs_aabb s)" by (simp add: grid_shape_ok_def)
  then have "decodes grid_shape_des (grid_shape_enc s) \<lparr> gs_id = gs_id s, gs_aabb = gs_aabb s \<rparr>"
    unfolding grid_shape_des_def grid_shape_enc_def
    by - (rule decodes_bind decodes_bind_last decodes_intros | assumption)+
  then show "decodes grid_shape_des (grid_shape_enc s) s" by simp
qed

text \<open>The grid travels as its cells; the reader keeps its own grid size.\<close>

definition grid_enc :: "grid_heuristic \<Rightarrow> bytes" where
  "grid_enc h = be_enc (of_nat (length (gh_quads h)) :: u64) @ concat (map grid_shape_enc (gh_quads h))"

definition grid_ok :: "grid_heuristic \<Rightarrow> bool" where
  "grid_ok h \<longleftrightarrow> length (gh_quads h) < 2 ^ 64 \<and> (\<forall>q\<in>set (gh_quads h). grid_shape_ok q)"

lemma grid_ser_enc: "grid_ok h \<Longrightarrow> grid_ser h w = bw_write (grid_enc h) w"
  by (simp add: grid_ser_def grid_enc_def grid_ok_def gridshapec.fold_ser enc_simps)

lemma decodes_grid: "grid_ok h \<Longrightarrow> decodes (grid_des g) (grid_enc h) (g \<lparr> gh_quads := gh_quads h \<rparr>)"
  unfolding grid_des_def grid_enc_def
proof (rule decodes_bind [OF decodes_ints(3)])
  assume ok: "grid_ok h"
  then have n: "unat (of_nat (length (gh_quads h)) :: u64) = length (gh_quads h)"
    by (simp add: grid_ok_def unat_of_nat take_bit_nat_eq_self)
  have "decodes (repeatS (length (gh_quads h)) grid_shape_des)
      (concat (map grid_shape_enc (gh_quads h))) (gh_quads h)"
    using ok by (intro gridshapec.decodes_list) (simp add: grid_ok_def)
  then show "decodes (bindS (repeatS (unat (of_nat (length (gh_quads h)) :: u64)) grid_shape_des)
      (\<lambda>qs. returnS (g \<lparr> gh_quads := qs \<rparr>))) (concat (map grid_shape_enc (gh_quads h)))
      (g \<lparr> gh_quads := gh_quads h \<rparr>)"
    unfolding n by (rule decodes_bind_return)
qed

text \<open>Whatever the grid size, a cell has three components.\<close>

lemma grid_cell_ok: "grid_shape_ok (grid_cell sz i)"
  by (simp add: grid_shape_ok_def aabb_wf_def grid_cell_def aabb_set_center_extents_def
      aabb_from_center_extents_def aabb_of_corners_def)

lemma gs_id_cell [simp]: "gs_id (grid_cell sz i) = of_nat i"
  by (simp add: grid_cell_def)

lemma find_append: "find P (xs @ ys) = (case find P xs of None \<Rightarrow> find P ys | Some x \<Rightarrow> Some x)"
  by (induction xs) auto

lemma fold_bounds:
  "distinct (map gs_id qs) \<Longrightarrow>
   foldl bounds_emplace (\<lambda>_. None) qs i =
    map_option (\<lambda>q. grid_shape_ser q bw_new) (find (\<lambda>q. gs_id q = i) qs)"
proof (induction qs rule: rev_induct)
  case (snoc q qs)
  let ?m = "foldl bounds_emplace (\<lambda>_. None) qs"
  have d: "distinct (map gs_id qs)" "gs_id q \<notin> gs_id ` set qs" using snoc.prems by simp_all
  then have none: "find (\<lambda>x. gs_id x = gs_id q) qs = None"
    unfolding find_None_iff by (metis image_eqI)
  show ?case
  proof (cases "i = gs_id q")
    case True
    with snoc.IH [OF d(1)] none have "?m (gs_id q) = None" by simp
    then have "bounds_emplace ?m q i = Some (grid_shape_ser q bw_new)"
      using True by (simp add: bounds_emplace_def)
    then show ?thesis using True none by (simp add: find_append)
  next
    case False
    then have "bounds_emplace ?m q i = ?m i" by (simp add: bounds_emplace_def)
    then show ?thesis using False snoc.IH [OF d(1)] by (simp add: find_append split: option.split)
  qed
qed simp

section \<open>The default grid\<close>

text \<open>The coordinates of the default grid, as bit patterns.\<close>

definition f_m100 :: f32 where "f_m100 = 0xC2C80000"
definition f_100 :: f32 where "f_100 = 0x42C80000"
definition f_m5 :: f32 where "f_m5 = 0xC0A00000"
definition f_5 :: f32 where "f_5 = 0x40A00000"

lemma f_consts:
  "f_of_int 50 = 0x42480000" "f_of_int (- 50) = 0xC2480000" "f_of_int 0 = 0"
  "f_of_int 100 = 0x42C80000" "f_of_int 2 = 0x40000000" "f_of_int 5 = 0x40A00000"
  by (simp_all add: f_eval)

lemma f_sums:
  "f_div 0x42C80000 0x40000000 = 0x42480000"
  "f_sub 0xC2480000 0x42480000 = 0xC2C80000" "f_add 0xC2480000 0x42480000 = 0"
  "f_sub 0x42480000 0x42480000 = 0" "f_add 0x42480000 0x42480000 = 0x42C80000"
  "f_sub 0 0x40A00000 = 0xC0A00000" "f_add 0 0x40A00000 = 0x40A00000"
  by (simp_all add: f_eval)

lemma grid_quads:
  "gh_quads (grid_compute es grid_new) =
    [\<lparr> gs_id = 0, gs_aabb = \<lparr> bmin = [f_m100, f_m100, f_m5], bmax = [0, 0, f_5] \<rparr> \<rparr>,
     \<lparr> gs_id = 1, gs_aabb = \<lparr> bmin = [0, f_m100, f_m5], bmax = [f_100, 0, f_5] \<rparr> \<rparr>,
     \<lparr> gs_id = 2, gs_aabb = \<lparr> bmin = [f_m100, 0, f_m5], bmax = [0, f_100, f_5] \<rparr> \<rparr>,
     \<lparr> gs_id = 3, gs_aabb = \<lparr> bmin = [0, 0, f_m5], bmax = [f_100, f_100, f_5] \<rparr> \<rparr>]"
  by (simp add: grid_compute_def grid_new_def grid_cell_def f_consts f_sums f_m100_def f_100_def
      f_m5_def f_5_def aabb_set_center_extents_def aabb_from_center_extents_def aabb_of_corners_def
      upt_rec)

definition in_range :: "f32 \<Rightarrow> f32 \<Rightarrow> f32 \<Rightarrow> bool" where
  "in_range lo x hi \<longleftrightarrow> \<not> f_lt x lo \<and> \<not> f_lt hi x"

lemma in_range_split:
  assumes "f_ok x"
  shows "in_range f_m100 x f_100 \<longleftrightarrow> in_range f_m100 x 0 \<or> in_range 0 x f_100"
proof -
  have "f_ok 0" "f_lt f_m100 0" "f_lt 0 f_100"
    by (simp_all add: f_ok_def f_m100_def f_100_def f_eval)
  with assms show ?thesis
    unfolding in_range_def by (metis f_lt_asym f_lt_trans f_not_lt_trans)
qed

lemma contains_box3:
  "aabb_contains \<lparr> bmin = [a, b, c], bmax = [a', b', c'] \<rparr> (vec3_list p) \<longleftrightarrow>
    in_range a (vx p) a' \<and> in_range b (vy p) b' \<and> in_range c (vz p) c'"
  by (auto simp: aabb_contains_def vec3_list_def in_range_def f_gt_def)

section \<open>Properties\<close>

text \<open>C21: with the default options the four cells cover exactly the box from (-100, -100, -5) to
  (100, 100, 5): a point without NaN is found in a cell if and only if it lies in the box, and then
  in the first of the cells 0 to 3 whose closed quadrant contains it, so that a point on a shared
  border belongs to the cell with the smaller id.\<close>

theorem grid_partition:
  assumes "f_ok (vx p)" and "f_ok (vy p)"
  shows "grid_query_position (grid_compute es grid_new) p =
    (if in_range f_m100 (vx p) f_100 \<and> in_range f_m100 (vy p) f_100 \<and> in_range f_m5 (vz p) f_5
     then Some (gh_quads (grid_compute es grid_new) !
            ((if in_range f_m100 (vx p) 0 then 0 else 1) + (if in_range f_m100 (vy p) 0 then 0 else 2)))
     else None)"
  using in_range_split [OF assms(1)] in_range_split [OF assms(2)]
  by (auto simp: grid_query_position_def grid_quads contains_box3)

theorem grid_partition_witness:
  "map_option gs_id (grid_query_position (grid_compute [] grid_new) \<lparr> vx = 0, vy = 0x3F800000, vz = 0 \<rparr>) = Some 2"
proof -
  have "f_ok 0" "f_ok 0x3F800000" "in_range f_m100 0 f_100" "in_range f_m100 0x3F800000 f_100"
    "in_range f_m5 0 f_5" "in_range f_m100 0 0" "\<not> in_range f_m100 0x3F800000 0"
    by (simp_all add: in_range_def f_ok_def f_m100_def f_100_def f_m5_def f_5_def f_eval)
  with grid_partition [of "\<lparr> vx = 0, vy = 0x3F800000, vz = 0 \<rparr>" "[]"]
  show ?thesis by (simp add: grid_quads)
qed

text \<open>Every point whose coordinates are all NaN lies in every cell: the lookup returns cell 0.\<close>

theorem grid_nan_in_first_cell:
  assumes "\<not> f_ok (vx p)" and "\<not> f_ok (vy p)" and "\<not> f_ok (vz p)"
  shows "map_option gs_id (grid_query_position (grid_compute es grid_new) p) = Some 0"
  using assms by (simp add: grid_query_position_def grid_quads contains_box3 in_range_def)

theorem grid_nan_in_first_cell_witness:
  "map_option gs_id (grid_query_position (grid_compute [] grid_new)
     \<lparr> vx = f_nan, vy = f_nan, vz = f_nan \<rparr>) = Some 0"
  by (rule grid_nan_in_first_cell) (simp_all add: f_ok_def f_eval)

text \<open>Whatever the options, the four bounds are serialized under four different ids, and each
  comes back from its bytes with its id and its box.\<close>

theorem grid_bounds_roundtrip:
  assumes "i < 4"
  shows "\<exists>w r. grid_serialize_bounds (grid_compute es g) (of_nat i) = Some w \<and>
    grid_shape_des (br_new (bw_bytes w)) = Inr (grid_cell (gh_grid_size g) i, r)"
proof -
  let ?qs = "map (grid_cell (gh_grid_size g)) [0..<4]" and ?c = "grid_cell (gh_grid_size g) i"
  have ids: "map gs_id ?qs = [0, 1, 2, 3]" by (simp add: upt_rec)
  have "find (\<lambda>q. gs_id q = of_nat i) ?qs = Some ?c"
  proof -
    have "[0..<4] = [0, 1, 2, 3 :: nat]" by (simp add: upt_rec)
    moreover from assms have "i = 0 \<or> i = 1 \<or> i = 2 \<or> i = 3" by auto
    ultimately show ?thesis by auto
  qed
  moreover have "distinct (map gs_id ?qs)" unfolding ids by simp
  ultimately have "grid_serialize_bounds (grid_compute es g) (of_nat i) =
      Some (grid_shape_ser ?c bw_new)"
    by (simp add: grid_serialize_bounds_def grid_compute_def fold_bounds)
  moreover have "length (wbuf (grid_shape_ser ?c bw_new)) < 2 ^ 63"
    using grid_cell_ok [of "gh_grid_size g" i]
    by (simp add: gridshapec.ser_enc grid_shape_enc_def aabb_enc_def be_enc_def bw_new_def
        grid_shape_ok_def aabb_wf_def length_concat comp_def sum_list_triv)
  ultimately show ?thesis using gridshapec.roundtrip_new [OF grid_cell_ok] by blast
qed

theorem grid_bounds_roundtrip_witness:
  "\<exists>w r. grid_serialize_bounds (grid_compute [] grid_new) (of_nat 3) = Some w \<and>
    grid_shape_des (br_new (bw_bytes w)) = Inr (grid_cell (gh_grid_size grid_new) 3, r)"
  by (rule grid_bounds_roundtrip) simp

end
