(* ===== verification/Health_Manifest.thy ===== *)
theory Health_Manifest
  imports Redis_Store Entity_Data
begin

text \<open>
  The health pings of the nodes (\<open>Interlink/Database/HealthManifest.hpp\<close>): each node writes the time
  until which its ping is valid into a hash of the database, and the watchdog collects the expired
  ones. Times are the \<open>double\<close>s of the database clock; their arithmetic, comparison, printing and
  parsing are a parameter.
\<close>

section \<open>Operations\<close>

record 'd dbl_ops =
  d_ttl :: "'d \<Rightarrow> 'd"
  d_gt :: "'d \<Rightarrow> 'd \<Rightarrow> bool"
  d_show :: "'d \<Rightarrow> bytes"
  d_read :: "bytes \<Rightarrow> 'd option"

definition health_ping_table :: string where
  "health_ping_table = ''Health_Ping''"

definition nid_key :: "network_identity \<Rightarrow> bytes" where
  "nid_key n = bw_bytes (nid_ser n bw_new)"

text \<open>\<open>HealthUpdate\<close> at the database time \<open>now\<close>: whether it prints a failure, and the database.\<close>

definition health_update ::
  "'d dbl_ops \<Rightarrow> 'db redis_connection \<Rightarrow> network_identity \<Rightarrow> 'd \<Rightarrow> 'db \<Rightarrow> bool \<times> 'db" where
  "health_update D C n now db =
    (let ttl = d_ttl D now;
         (setResult, db) = db_hset C health_ping_table (nid_key n) (d_show D ttl) db
     in (setResult \<noteq> 0, db))"

definition remove_ping :: "'db redis_connection \<Rightarrow> bytes \<Rightarrow> 'db \<Rightarrow> 'db" where
  "remove_ping C key db = snd (db_hdel C health_ping_table [key] db)"

text \<open>\<open>std::stod\<close> throws on a value that is no number.\<close>

definition stod :: "'d dbl_ops \<Rightarrow> bytes \<Rightarrow> 'd res" where
  "stod D v = (case d_read D v of None \<Rightarrow> Inl (RuntimeError ''stod'') | Some d \<Rightarrow> Inr d)"

definition get_all_pings :: "'d dbl_ops \<Rightarrow> 'db redis_connection \<Rightarrow> 'db \<Rightarrow> (bytes \<times> 'd) list res" where
  "get_all_pings D C db =
    mapE (\<lambda>(k, v). bindE (stod D v) (\<lambda>d. Inr (k, d))) (db_hgetall C health_ping_table db)"

definition get_expired_pings ::
  "'d dbl_ops \<Rightarrow> 'db redis_connection \<Rightarrow> 'd \<Rightarrow> 'db \<Rightarrow> bytes list res" where
  "get_expired_pings D C now db =
    bindE (get_all_pings D C db) (\<lambda>pings.
      Inr (map fst (filter (\<lambda>(member, score). \<not> d_gt D score now) pings)))"

definition get_live_pings ::
  "'d dbl_ops \<Rightarrow> 'db redis_connection \<Rightarrow> 'd \<Rightarrow> 'db \<Rightarrow> bytes list res" where
  "get_live_pings D C now db =
    bindE (get_all_pings D C db) (\<lambda>pings.
      Inr (map fst (filter (\<lambda>(member, score). \<not> d_gt D score now) pings)))"

text \<open>One round of the thread of \<open>ScheduleHealthChecks\<close>: the calls of \<open>onHealthCheckFail\<close>.\<close>

definition health_check_round ::
  "'d dbl_ops \<Rightarrow> 'db redis_connection \<Rightarrow> 'd \<Rightarrow> 'db \<Rightarrow> (network_identity \<times> bytes) list res" where
  "health_check_round D C now db =
    bindE (get_expired_pings D C now db)
      (mapE (\<lambda>key. bindE (nid_des (br_new key)) (\<lambda>(n, _). Inr (n, key))))"

section \<open>Lemmas\<close>

lemma nid_key_enc: "nid_key n = nid_enc n"
  by (simp add: nid_key_def enc_simps bw_bytes_def bw_write_def bw_new_def)

lemma nid_enc_length: "nid_ok n \<Longrightarrow> length (nid_enc n) = 20"
  by (simp add: nid_enc_def nid_ok_def be_enc_def)

lemma nid_key_inject: "nid_ok a \<Longrightarrow> nid_ok b \<Longrightarrow> nid_key a = nid_key b \<longleftrightarrow> a = b"
  using nidc.prefix_free [of a b] by (auto simp: nid_key_enc nid_enc_length)

lemma nid_key_des:
  assumes "nid_ok n"
  obtains r where "nid_des (br_new (nid_key n)) = Inr (n, r)"
  using nidc.roundtrip_new [OF assms] assms
  by (simp add: nid_key_def bw_bytes_def nidc.ser_enc bw_new_def nid_enc_length)

text \<open>Every ping in the table holds a number.\<close>

definition pings_ok :: "'d dbl_ops \<Rightarrow> (bytes \<Rightarrow> bytes option) \<Rightarrow> bool" where
  "pings_ok D table \<longleftrightarrow> (\<forall>f v. table f = Some v \<longrightarrow> d_read D v \<noteq> None)"

definition expired_in :: "'d dbl_ops \<Rightarrow> 'd \<Rightarrow> (bytes \<Rightarrow> bytes option) \<Rightarrow> bytes set" where
  "expired_in D now table = {f. \<exists>v d. table f = Some v \<and> d_read D v = Some d \<and> \<not> d_gt D d now}"

lemma expired_in_update:
  "d_read D v = Some e \<Longrightarrow>
   expired_in D now (table(f \<mapsto> v)) = (expired_in D now table - {f}) \<union> (if d_gt D e now then {} else {f})"
  by (auto simp: expired_in_def)

lemma fst_filter_map:
  "set (map fst (filter (\<lambda>(m, s). P s) (map (\<lambda>(k, v). (k, g v)) xs))) =
   {f. \<exists>v. (f, v) \<in> set xs \<and> P (g v)}"
  by (induction xs) auto

context redis
begin

lemma expired_pings:
  assumes C: "with_sync C = R" and hk: "hash_key health_ping_table" and ok: "pings_ok D (hash_of db health_ping_table)"
  shows "\<exists>keys. get_expired_pings D C now db = Inr keys \<and>
    set keys = expired_in D now (hash_of db health_ping_table)"
proof -
  let ?all = "op_hgetall R health_ping_table db"
  have "get_all_pings D C db = Inr (map (\<lambda>(k, v). (k, the (d_read D v))) ?all)"
    unfolding get_all_pings_def db_hgetall_def C
  proof (rule mapE_Inr)
    fix x assume "x \<in> set ?all"
    then have "hash_of db health_ping_table (fst x) = Some (snd x)"
      using hgetall_mem [OF hk, of "fst x" "snd x" db] by simp
    with ok have "d_read D (snd x) \<noteq> None" by (simp add: pings_ok_def)
    then show "(case x of (k, v) \<Rightarrow> bindE (stod D v) (\<lambda>d. Inr (k, d))) =
        Inr (case x of (k, v) \<Rightarrow> (k, the (d_read D v)))"
      by (cases x) (auto simp: stod_def)
  qed
  then have 1: "get_expired_pings D C now db = Inr (map fst (filter (\<lambda>(m, s). \<not> d_gt D s now)
      (map (\<lambda>(k, v). (k, the (d_read D v))) ?all)))"
    by (simp add: get_expired_pings_def)
  have "set (map fst (filter (\<lambda>(m, s). \<not> d_gt D s now)
      (map (\<lambda>(k, v). (k, the (d_read D v))) ?all))) =
    {f. \<exists>v. (f, v) \<in> set ?all \<and> \<not> d_gt D (the (d_read D v)) now}"
    by (rule fst_filter_map)
  also have "\<dots> = expired_in D now (hash_of db health_ping_table)"
    unfolding expired_in_def hgetall_mem [OF hk]
  proof (rule Collect_cong)
    fix f
    show "(\<exists>v. hash_of db health_ping_table f = Some v \<and> \<not> d_gt D (the (d_read D v)) now) \<longleftrightarrow>
      (\<exists>v d. hash_of db health_ping_table f = Some v \<and> d_read D v = Some d \<and> \<not> d_gt D d now)"
      using ok by (cases "hash_of db health_ping_table f") (fastforce simp: pings_ok_def)+
  qed
  finally show ?thesis using 1 by blast
qed

lemma health_update_contents:
  assumes "with_sync C = R" and "hash_key health_ping_table"
  shows "hash_of (snd (health_update D C n now db)) =
      (hash_of db)(health_ping_table := (hash_of db health_ping_table)(nid_key n \<mapsto> d_show D (d_ttl D now)))"
    and "fst (health_update D C n now db) \<longleftrightarrow> hash_of db health_ping_table (nid_key n) = None"
  using hset_contents [OF assms(2)]
  by (simp_all add: health_update_def db_hset_def assms(1) Let_def case_prod_unfold)

lemma remove_ping_contents:
  assumes "with_sync C = R" and "hash_key health_ping_table"
  shows "hash_of (remove_ping C key db) =
      (hash_of db)(health_ping_table := (hash_of db health_ping_table)(key := None))"
  using hdel_contents [OF assms(2)]
  by (simp add: remove_ping_def db_hdel_def assms(1) restrict_map_def fun_eq_iff)

end

section \<open>Properties\<close>

text \<open>After a node's health update, a check at a later time reports exactly the nodes whose
  ping has run out by then: the node itself if and only if the validity it wrote has passed, every
  other node as before the update.\<close>

theorem health_check_exact:
  assumes "redis R hash_key hash_of set_of" and "with_sync C = R" and "hash_key health_ping_table"
    and "pings_ok D (hash_of db health_ping_table)" and "d_read D (d_show D (d_ttl D t0)) = Some e"
  shows "\<exists>before after. get_expired_pings D C now db = Inr before \<and>
    get_expired_pings D C now (snd (health_update D C n t0 db)) = Inr after \<and>
    set after = (set before - {nid_key n}) \<union> (if d_gt D e now then {} else {nid_key n})"
proof -
  let ?db' = "snd (health_update D C n t0 db)"
  let ?t = "hash_of db health_ping_table"
  have t': "hash_of ?db' health_ping_table = ?t(nid_key n \<mapsto> d_show D (d_ttl D t0))"
    by (simp add: redis.health_update_contents(1) [OF assms(1-3)])
  have "pings_ok D (hash_of ?db' health_ping_table)"
    using assms(4,5) unfolding t' by (auto simp: pings_ok_def)
  from redis.expired_pings [OF assms(1-3) this] redis.expired_pings [OF assms(1-4)]
  show ?thesis unfolding t' expired_in_update [OF assms(5)] by metis
qed

text \<open>An instance of the clock: milliseconds in unary.\<close>

definition demo_dbl :: "nat dbl_ops" where
  "demo_dbl = \<lparr> d_ttl = (\<lambda>t. t + 3), d_gt = (\<lambda>a b. a > b), d_show = (\<lambda>t. replicate t 1),
     d_read = (\<lambda>v. Some (length v)) \<rparr>"

theorem health_check_exact_witness:
  "get_expired_pings demo_dbl mem_connection 9
     (snd (health_update demo_dbl mem_connection make_id_watchdog 2 mem_empty)) =
     Inr [nid_key make_id_watchdog]"
proof -
  have "redis mem_redis (\<lambda>_. True) mem_hash mem_set" by (rule memredis.redis_axioms)
  from health_check_exact [OF this with_sync_mem, of demo_dbl mem_empty 2 5 9 make_id_watchdog]
  have "\<exists>before after. get_expired_pings demo_dbl mem_connection 9 mem_empty = Inr before \<and>
    get_expired_pings demo_dbl mem_connection 9
      (snd (health_update demo_dbl mem_connection make_id_watchdog 2 mem_empty)) = Inr after \<and>
    set after = (set before - {nid_key make_id_watchdog}) \<union> {nid_key make_id_watchdog}"
    by (simp add: pings_ok_def mem_hash_def mem_empty_def demo_dbl_def)
  then show ?thesis
    by (simp add: get_expired_pings_def get_all_pings_def db_hgetall_def mem_redis_def mem_empty_def
        health_update_def db_hset_def demo_dbl_def stod_def)
qed

text \<open>A round of the health checks calls the failure callback for every node whose written
  validity has passed with the identity that node registered under.\<close>

theorem health_check_identity:
  assumes "redis R hash_key hash_of set_of" and "with_sync C = R" and "hash_key health_ping_table"
    and "pings_ok D (hash_of db health_ping_table)"
    and "\<forall>f. hash_of db health_ping_table f \<noteq> None \<longrightarrow> (\<exists>n. nid_ok n \<and> f = nid_key n)"
  shows "\<exists>calls. health_check_round D C now db = Inr calls \<and>
    (\<forall>n key. (n, key) \<in> set calls \<longleftrightarrow> nid_ok n \<and> key = nid_key n \<and>
      key \<in> expired_in D now (hash_of db health_ping_table))"
proof -
  let ?E = "expired_in D now (hash_of db health_ping_table)"
  obtain keys where keys: "get_expired_pings D C now db = Inr keys" "set keys = ?E"
    using redis.expired_pings [OF assms(1-4)] by blast
  define ident where "ident = (\<lambda>key. SOME n. nid_ok n \<and> key = nid_key n)"
  have ident: "nid_ok (ident key) \<and> key = nid_key (ident key)" if "key \<in> ?E" for key
    unfolding ident_def by (rule someI_ex) (use that assms(5) in \<open>auto simp: expired_in_def\<close>)
  have "mapE (\<lambda>key. bindE (nid_des (br_new key)) (\<lambda>(n, _). Inr (n, key))) keys =
      Inr (map (\<lambda>key. (ident key, key)) keys)"
  proof (rule mapE_Inr)
    fix key assume "key \<in> set keys"
    then have *: "nid_ok (ident key)" "key = nid_key (ident key)" using keys ident by auto
    obtain r where "nid_des (br_new (nid_key (ident key))) = Inr (ident key, r)"
      using nid_key_des [OF *(1)] .
    then show "bindE (nid_des (br_new key)) (\<lambda>(n, _). Inr (n, key)) = Inr (ident key, key)"
      using *(2) by simp
  qed
  then have "health_check_round D C now db = Inr (map (\<lambda>key. (ident key, key)) keys)"
    by (simp add: health_check_round_def keys)
  moreover have "(n, key) \<in> set (map (\<lambda>key. (ident key, key)) keys) \<longleftrightarrow>
      nid_ok n \<and> key = nid_key n \<and> key \<in> ?E" for n key
    using ident nid_key_inject keys(2) by auto
  ultimately show ?thesis by blast
qed

theorem health_check_identity_witness:
  "\<exists>calls. health_check_round demo_dbl mem_connection 9
     (snd (health_update demo_dbl mem_connection make_id_watchdog 2 mem_empty)) = Inr calls \<and>
     (make_id_watchdog, nid_key make_id_watchdog) \<in> set calls"
proof -
  let ?db = "snd (health_update demo_dbl mem_connection make_id_watchdog 2 mem_empty)"
  have ax: "redis mem_redis (\<lambda>_. True) mem_hash mem_set" by (rule memredis.redis_axioms)
  have ok: "nid_ok make_id_watchdog" by (simp add: nid_ok_def make_id_watchdog_def nil_uuid_def)
  have t: "mem_hash ?db health_ping_table = [nid_key make_id_watchdog \<mapsto> replicate 5 1]"
    using redis.health_update_contents(1) [OF ax with_sync_mem, of demo_dbl make_id_watchdog 2 mem_empty]
    by (simp add: mem_hash_def mem_empty_def demo_dbl_def)
  have "pings_ok demo_dbl (mem_hash ?db health_ping_table)"
    "nid_key make_id_watchdog \<in> expired_in demo_dbl 9 (mem_hash ?db health_ping_table)"
    "\<forall>f. mem_hash ?db health_ping_table f \<noteq> None \<longrightarrow> (\<exists>n. nid_ok n \<and> f = nid_key n)"
    using ok unfolding t by (auto simp: pings_ok_def demo_dbl_def expired_in_def)
  then show ?thesis
    using health_check_identity [OF ax with_sync_mem, of demo_dbl ?db 9] ok by auto
qed

text \<open>\<open>GetLivePings\<close> returns the expired pings: a node whose ping is still valid is never among
  them.\<close>

theorem live_pings_are_expired:
  assumes "redis R hash_key hash_of set_of" and "with_sync C = R" and "hash_key health_ping_table"
    and "pings_ok D (hash_of db health_ping_table)"
  shows "\<exists>keys. get_live_pings D C now db = Inr keys \<and>
    set keys = expired_in D now (hash_of db health_ping_table)"
  using redis.expired_pings [OF assms] by (simp add: get_live_pings_def get_expired_pings_def)

theorem live_pings_are_expired_witness:
  "\<exists>keys. get_live_pings demo_dbl mem_connection 9 mem_empty = Inr keys \<and>
    set keys = expired_in demo_dbl 9 (mem_hash mem_empty health_ping_table)"
  by (rule live_pings_are_expired [OF memredis.redis_axioms with_sync_mem])
     (simp_all add: pings_ok_def mem_hash_def mem_empty_def)

text \<open>A health update prints a failure exactly when it succeeds in creating the node's ping.\<close>

theorem health_update_reports_first_ping:
  assumes "redis R hash_key hash_of set_of" and "with_sync C = R" and "hash_key health_ping_table"
  shows "(fst (health_update D C n now db) \<longleftrightarrow> hash_of db health_ping_table (nid_key n) = None) \<and>
    hash_of (snd (health_update D C n now db)) health_ping_table (nid_key n) =
      Some (d_show D (d_ttl D now))"
  by (simp add: redis.health_update_contents [OF assms])

theorem health_update_reports_first_ping_witness:
  "fst (health_update demo_dbl mem_connection make_id_watchdog 2 mem_empty)"
  using health_update_reports_first_ping [OF memredis.redis_axioms [of "\<lambda>_. True"] with_sync_mem TrueI,
      of demo_dbl make_id_watchdog 2 mem_empty]
  by (simp add: mem_hash_def mem_empty_def)

end
