(* ===== verification/Heuristic_Manifest.thy ===== *)
theory Heuristic_Manifest
  imports Json_Store Grid_Heuristic Health_Manifest
begin

text \<open>
  The heuristic manifest (\<open>Heuristic/Database/HeuristicManifest\<close>): the active heuristic and the bounds
  it cut the world into, first pending, then claimed by a shard each. The script that claims a bound
  runs inside the database, where no other command comes between its steps. Logging is left out, and
  of a call that throws only the exception is kept.
\<close>

section \<open>Environment and entries\<close>

record 'db hm_env =
  hm_json :: "'db json_ops"
  hm_enc64 :: "bytes \<Rightarrow> bytes"
  hm_dec64 :: "bytes \<Rightarrow> bytes"
  hm_uuid_str :: "bytes \<Rightarrow> string"

definition pending_entry :: string where "pending_entry = ''Pending''"
definition claimed_entry :: string where "claimed_entry = ''Claimed''"
definition data64_entry :: string where "data64_entry = ''HeuristicData64''"
definition type_entry :: string where "type_entry = ''HeuristicType''"

lemmas entry_defs = pending_entry_def claimed_entry_def data64_entry_def type_entry_def

record pending_bound =
  pb_id :: u32
  pb_data :: bytes

record claimed_bound =
  cb_id :: u32
  cb_identity :: network_identity
  cb_data :: bytes

text \<open>\<open>to_json\<close> fills an empty object; \<open>from_json\<close> reads with the constant \<open>operator[]\<close>.\<close>

definition pending_to_json :: "pending_bound \<Rightarrow> json" where
  "pending_to_json p = JObj (AList.update ''BoundsData64'' (JStr (pb_data p))
     (AList.update ''ID'' (JNum (uint (pb_id p))) []))"

definition pending_from_json :: "json \<Rightarrow> pending_bound res" where
  "pending_from_json j =
    bindE (bindE (j_at j ''ID'') j_u32) (\<lambda>i.
    bindE (bindE (j_at j ''BoundsData64'') j_str) (\<lambda>d. Inr \<lparr> pb_id = i, pb_data = d \<rparr>))"

definition claimed_to_json :: "'db hm_env \<Rightarrow> claimed_bound \<Rightarrow> json res" where
  "claimed_to_json E c =
    bindE (bw_as_string_base_64 (hm_enc64 E) (nid_ser (cb_identity c) bw_new)) (\<lambda>owner.
      Inr (JObj (AList.update ''BoundsData64'' (JStr (cb_data c))
        (AList.update ''OwnerName'' (JStr (str_bytes (nid_to_string (hm_uuid_str E) (cb_identity c))))
        (AList.update ''Owner64'' (JStr owner)
        (AList.update ''ID'' (JNum (uint (cb_id c))) []))))))"

definition claimed_from_json :: "'db hm_env \<Rightarrow> json \<Rightarrow> claimed_bound res" where
  "claimed_from_json E j =
    bindE (bindE (j_at j ''ID'') j_u32) (\<lambda>i.
    bindE (bindE (j_at j ''Owner64'') j_str) (\<lambda>owner.
    bindE (nid_des (br_new_base64 (hm_dec64 E) owner)) (\<lambda>(n, _).
    bindE (bindE (j_at j ''BoundsData64'') j_str) (\<lambda>d.
      Inr \<lparr> cb_id = i, cb_identity = n, cb_data = d \<rparr>))))"

section \<open>Texts\<close>

definition null_text :: bytes where
  "null_text = str_bytes ''null''"

text \<open>\<open>Json::parse\<close> throws when the text does not parse.\<close>

definition json_parse :: "'db hm_env \<Rightarrow> bytes \<Rightarrow> json res" where
  "json_parse E t =
    (case js_parse (hm_json E) t of None \<Rightarrow> Inl (RuntimeError ''parse_error'') | Some j \<Rightarrow> Inr j)"

definition parse_payload :: "'db hm_env \<Rightarrow> bytes option \<Rightarrow> json option" where
  "parse_payload E payload =
    (case payload of
       None \<Rightarrow> None
     | Some t \<Rightarrow>
         if t = [] \<or> t = null_text then None
         else (case js_parse (hm_json E) t of
                 None \<Rightarrow> None
               | Some (JArr []) \<Rightarrow> None
               | Some (JArr (x # xs)) \<Rightarrow> Some x
               | Some j \<Rightarrow> Some j))"

definition strip_quotes :: "bytes \<Rightarrow> bytes" where
  "strip_quotes s =
    (if s = [] then s
     else let s = (if hd s = 34 then tl s else s)
          in if s \<noteq> [] \<and> last s = 34 then butlast s else s)"

section \<open>Operations on the document\<close>

definition ensure_json_table :: "'db hm_env \<Rightarrow> 'db \<Rightarrow> 'db res" where
  "ensure_json_table E db = js_set_root_nx (hm_json E) db"

definition set_active_heuristic_type :: "'db hm_env \<Rightarrow> heuristic_type \<Rightarrow> 'db \<Rightarrow> 'db res" where
  "set_active_heuristic_type E t db =
    bindE (ensure_json_table E db) (\<lambda>db.
      js_set (hm_json E) type_entry (quoted (str_bytes (type_to_string t))) False db)"

definition get_active_heuristic_type :: "'db hm_env \<Rightarrow> 'db \<Rightarrow> heuristic_type res" where
  "get_active_heuristic_type E db =
    bindE (js_get (hm_json E) type_entry db) (\<lambda>r.
      case r of
        None \<Rightarrow> Inr HInvalid
      | Some s \<Rightarrow> Inr (snd (type_from_string (bytes_str (strip_quotes s)))))"

definition push_heuristic :: "'db hm_env \<Rightarrow> grid_heuristic \<Rightarrow> 'db \<Rightarrow> 'db res" where
  "push_heuristic E h db =
    bindE (set_active_heuristic_type E (grid_get_type h) db) (\<lambda>db.
    bindE (bw_as_string_base_64 (hm_enc64 E) (grid_ser h bw_new)) (\<lambda>s.
      js_set (hm_json E) data64_entry (quoted s) False db))"

text \<open>For the types without an implementation the pointer stays null and is then dereferenced.\<close>

definition pull_heuristic :: "'db hm_env \<Rightarrow> 'db \<Rightarrow> grid_heuristic res" where
  "pull_heuristic E db =
    bindE (get_active_heuristic_type E db) (\<lambda>t.
      if t = HNone \<or> t = HInvalid then Inl (RuntimeError ''Invalid Heuristic?'')
      else bindE (js_get (hm_json E) data64_entry db) (\<lambda>data.
        case data of
          None \<Rightarrow> Inl (AssertFail ''Heuristic Serialize data has no data?'')
        | Some encoded \<Rightarrow>
            let encoded = (if 2 \<le> length encoded \<and> hd encoded = 34 \<and> last encoded = 34
                           then take (length encoded - 2) (drop 1 encoded) else encoded)
            in if t = HGridCell
               then bindE (grid_des grid_new (br_new_base64 (hm_dec64 E) encoded)) (\<lambda>(h, _). Inr h)
               else Inl (UB Null_Deref)))"

definition insert_pending_bound :: "'db hm_env \<Rightarrow> pending_bound \<Rightarrow> 'db \<Rightarrow> 'db res" where
  "insert_pending_bound E p db =
    bindE (js_set (hm_json E) pending_entry (str_bytes ''[]'') True db) (\<lambda>db.
    bindE (js_filter (hm_json E) pending_entry ''ID'' (JNum (uint (pb_id p))) db) (\<lambda>existing.
      if existing = None \<or> length (the existing) \<le> 2
      then js_arrappend (hm_json E) pending_entry (js_dump (hm_json E) (pending_to_json p)) db
      else Inl (AssertFail ''This should never happen'')))"

definition insert_claimed_bound :: "'db hm_env \<Rightarrow> claimed_bound \<Rightarrow> 'db \<Rightarrow> 'db res" where
  "insert_claimed_bound E c db =
    bindE (claimed_to_json E c) (\<lambda>j.
    bindE (js_set (hm_json E) claimed_entry (str_bytes ''[]'') True db) (\<lambda>db.
    bindE (js_filter (hm_json E) claimed_entry ''ID'' (JNum (uint (cb_id c))) db) (\<lambda>existing.
      if existing = None \<or> length (the existing) \<le> 2
      then js_arrappend (hm_json E) claimed_entry (js_dump (hm_json E) j) db
      else Inl (AssertFail ''This should never happen''))))"

text \<open>The writers in the order in which the hash map yields them.\<close>

fun store_pending_bounds :: "'db hm_env \<Rightarrow> (u32 \<times> writer) list \<Rightarrow> 'db \<Rightarrow> 'db res" where
  "store_pending_bounds E [] db = Inr db"
| "store_pending_bounds E ((i, w) # ws) db =
    bindE (bw_as_string_base_64 (hm_enc64 E) w) (\<lambda>s.
    bindE (insert_pending_bound E \<lparr> pb_id = i, pb_data = s \<rparr> db) (store_pending_bounds E ws))"

text \<open>The field of the document both counts and both readers look at; they want an object there.\<close>

definition manifest_object :: "'db hm_env \<Rightarrow> string \<Rightarrow> 'db \<Rightarrow> (string \<times> json) list option res" where
  "manifest_object E f db =
    bindE (js_get_root (hm_json E) db) (\<lambda>payload.
      Inr (case parse_payload E payload of
             Some (JObj kvs) \<Rightarrow> (case map_of kvs f of Some (JObj es) \<Rightarrow> Some es | _ \<Rightarrow> None)
           | _ \<Rightarrow> None))"

definition get_pending_bounds_count :: "'db hm_env \<Rightarrow> 'db \<Rightarrow> int res" where
  "get_pending_bounds_count E db =
    bindE (manifest_object E pending_entry db) (\<lambda>es.
      Inr (case es of None \<Rightarrow> 0 | Some es \<Rightarrow> int (length es)))"

definition get_claimed_bounds_count :: "'db hm_env \<Rightarrow> 'db \<Rightarrow> int res" where
  "get_claimed_bounds_count E db =
    bindE (manifest_object E claimed_entry db) (\<lambda>es.
      Inr (case es of None \<Rightarrow> 0 | Some es \<Rightarrow> int (length es)))"

text \<open>The readers collect the data of the entries that are objects, the first for each key.\<close>

fun pending_readers :: "'db hm_env \<Rightarrow> (string \<times> json) list \<Rightarrow> (u32 \<Rightarrow> reader option) \<Rightarrow> (u32 \<Rightarrow> reader option) res" where
  "pending_readers E [] brs = Inr brs"
| "pending_readers E ((k, e) # es) brs =
    (if j_is_object e
     then bindE (pending_from_json e) (\<lambda>p.
       pending_readers E es (if brs (pb_id p) = None
         then brs(pb_id p \<mapsto> br_new_base64 (hm_dec64 E) (pb_data p)) else brs))
     else pending_readers E es brs)"

definition get_pending_bounds_as_readers :: "'db hm_env \<Rightarrow> 'db \<Rightarrow> (u32 \<Rightarrow> reader option) res" where
  "get_pending_bounds_as_readers E db =
    bindE (manifest_object E pending_entry db) (\<lambda>es.
      case es of None \<Rightarrow> Inr (\<lambda>_. None) | Some es \<Rightarrow> pending_readers E es (\<lambda>_. None))"

fun claimed_readers ::
  "'db hm_env \<Rightarrow> (string \<times> json) list \<Rightarrow> (network_identity \<times> u32 \<times> reader) list \<Rightarrow>
   (network_identity \<times> u32 \<times> reader) list res" where
  "claimed_readers E [] brs = Inr brs"
| "claimed_readers E ((k, e) # es) brs =
    (if j_is_object e
     then bindE (claimed_from_json E e) (\<lambda>c.
       claimed_readers E es (if \<exists>x\<in>set brs. nid_eq (hm_uuid_str E) (fst x) (cb_identity c) then brs
         else brs @ [(cb_identity c, cb_id c, br_new_base64 (hm_dec64 E) (cb_data c))]))
     else claimed_readers E es brs)"

definition get_claimed_bounds_as_readers ::
  "'db hm_env \<Rightarrow> 'db \<Rightarrow> (network_identity \<times> u32 \<times> reader) list res" where
  "get_claimed_bounds_as_readers E db =
    bindE (manifest_object E claimed_entry db) (\<lambda>es.
      case es of None \<Rightarrow> Inr [] | Some es \<Rightarrow> claimed_readers E es [])"

section \<open>Claims\<close>

text \<open>The script run by the server. The check of the type of the claimed entry indexes the name of a
  type with a number, which is \<open>nil\<close> in Lua: its outcome is the same whether or not the entry exists.
  An id is a number in every entry the program writes.\<close>

definition claim_script :: "'db json_ops \<Rightarrow> bytes \<Rightarrow> bytes \<Rightarrow> 'db \<Rightarrow> (int option \<times> 'db) res" where
  "claim_script J owner64 owner_name db =
    bindE (js_type J claimed_entry db) (\<lambda>claimed_type.
    bindE (js_set J claimed_entry (str_bytes ''[]'') True db) (\<lambda>db.
    bindE (js_arrlen J pending_entry db) (\<lambda>pending_len.
      if pending_len = Some 0 then Inr (None, db)
      else bindE (js_get_elem J pending_entry 0 db) (\<lambda>text.
        case text of
          None \<Rightarrow> Inl (RuntimeError ''cjson.decode'')
        | Some entry \<Rightarrow>
            (case js_parse J entry of
               None \<Rightarrow> Inl (RuntimeError ''cjson.decode'')
             | Some e \<Rightarrow>
                 bindE (js_arrappend J claimed_entry entry db) (\<lambda>db.
                 bindE (js_arrlen J claimed_entry db) (\<lambda>claimed_len.
                 case claimed_len of
                   None \<Rightarrow> Inl (RuntimeError ''arithmetic on nil'')
                 | Some n \<Rightarrow>
                     bindE (js_set_elem J claimed_entry (n - 1) ''Owner64'' (quoted owner64) db) (\<lambda>db.
                     bindE (js_set_elem J claimed_entry (n - 1) ''OwnerName'' (quoted owner_name) db) (\<lambda>db.
                     bindE (js_arrpop J pending_entry 0 db) (\<lambda>db.
                       case j_field ''ID'' e of
                         Some (JNum i) \<Rightarrow> Inr (Some i, db)
                       | _ \<Rightarrow> Inl (RuntimeError ''tonumber''))))))))))) "

definition get_claimed_bound :: "'db hm_env \<Rightarrow> u32 \<Rightarrow> 'db \<Rightarrow> claimed_bound option res" where
  "get_claimed_bound E i db =
    bindE (js_filter (hm_json E) claimed_entry ''ID'' (JNum (uint i)) db) (\<lambda>reply.
      case reply of
        None \<Rightarrow> Inr None
      | Some t \<Rightarrow> bindE (json_parse E t) (\<lambda>j. bindE (j_front j) (\<lambda>e.
          bindE (claimed_from_json E e) (\<lambda>c. Inr (Some c)))))"

definition create_ibound_inst :: "'db hm_env \<Rightarrow> 'db \<Rightarrow> grid_shape res" where
  "create_ibound_inst E db =
    bindE (get_active_heuristic_type E db) (\<lambda>t.
      if t = HGridCell then Inr grid_shape_new
      else Inl (AssertFail ''Unrecognized HeuristicType''))"

text \<open>Without a claimed bound for the id the empty optional is dereferenced.\<close>

definition claim_next_pending_bound ::
  "'db hm_env \<Rightarrow> network_identity \<Rightarrow> 'db \<Rightarrow> (grid_shape option \<times> 'db) res" where
  "claim_next_pending_bound E claim_key db =
    bindE (bw_as_string_base_64 (hm_enc64 E) (nid_ser claim_key bw_new)) (\<lambda>owner64.
    bindE (claim_script (hm_json E) owner64 (str_bytes (nid_to_string (hm_uuid_str E) claim_key)) db)
      (\<lambda>(claimed, db).
        case claimed of
          None \<Rightarrow> Inr (None, db)
        | Some i \<Rightarrow>
            bindE (get_claimed_bound E (word_of_int i) db) (\<lambda>bound.
              case bound of
                None \<Rightarrow> Inl (UB Null_Deref)
              | Some c \<Rightarrow>
                  bindE (create_ibound_inst E db) (\<lambda>_.
                  bindE (grid_shape_des (br_new_base64 (hm_dec64 E) (cb_data c))) (\<lambda>(s, _).
                    Inr (Some s, db))))))"

section \<open>Queries\<close>

definition empty_reply :: "json \<Rightarrow> bool" where
  "empty_reply j \<longleftrightarrow> j = JNull \<or> \<not> j_is_array j \<or> j_size j = 0 \<or> j_front j = Inr JNull"

definition json_or_null :: "'db hm_env \<Rightarrow> bytes option \<Rightarrow> json res" where
  "json_or_null E reply = (case reply of None \<Rightarrow> Inr JNull | Some t \<Rightarrow> json_parse E t)"

definition bound_id_from_shard :: "'db hm_env \<Rightarrow> network_identity \<Rightarrow> 'db \<Rightarrow> u32 option res" where
  "bound_id_from_shard E n db =
    (if nid_type n \<noteq> nt_shard then Inl (AssertFail ''Invalid Networking Identity'')
     else bindE (bw_as_string_base_64 (hm_enc64 E) (nid_ser n bw_new)) (\<lambda>owner64.
       bindE (js_filter (hm_json E) claimed_entry ''Owner64'' (JStr owner64) db) (\<lambda>reply.
       bindE (json_or_null E reply) (\<lambda>j.
         if empty_reply j then Inr None
         else if 1 < j_size j then Inl (AssertFail ''This should never occur'')
         else bindE (j_front j) (\<lambda>e.
           if j_field ''ID'' e = None then Inl (AssertFail ''Invalid entry'')
           else bindE (bindE (j_at e ''ID'') j_u32) (\<lambda>i. Inr (Some i)))))))"

definition pull_claimed_bound :: "'db hm_env \<Rightarrow> u32 \<Rightarrow> 'db \<Rightarrow> claimed_bound option res" where
  "pull_claimed_bound E i db =
    bindE (js_filter (hm_json E) claimed_entry ''ID'' (JNum (uint i)) db) (\<lambda>reply.
    bindE (json_or_null E reply) (\<lambda>j.
      if empty_reply j then Inr None
      else if 1 < j_size j then Inl (AssertFail ''This should never occur'')
      else bindE (j_front j) (\<lambda>e. bindE (claimed_from_json E e) (\<lambda>c. Inr (Some c)))))"

definition shard_from_bound_id :: "'db hm_env \<Rightarrow> u32 \<Rightarrow> 'db \<Rightarrow> network_identity option res" where
  "shard_from_bound_id E i db =
    bindE (pull_claimed_bound E i db) (\<lambda>c. Inr (map_option cb_identity c))"

text \<open>A position outside every bound makes the query return a null pointer, which is dereferenced.\<close>

definition shard_from_position :: "'db hm_env \<Rightarrow> transform \<Rightarrow> 'db \<Rightarrow> network_identity option res" where
  "shard_from_position E t db =
    bindE (pull_heuristic E db) (\<lambda>h.
      case grid_query_position h (tr_position t) of
        None \<Rightarrow> Inl (UB Null_Deref)
      | Some bound \<Rightarrow> shard_from_bound_id E (gs_id bound) db)"

section \<open>Requeueing\<close>

definition pending_hash_table :: string where
  "pending_hash_table = ''{Heuristic_Bounds}:Pending''"

definition claimed_hash_table :: string where
  "claimed_hash_table = ''{Heuristic_Bounds}:Claimed_NID2BID''"

definition requeue_claimed_bound :: "'db redis_connection \<Rightarrow> bytes \<Rightarrow> 'db \<Rightarrow> bool \<times> 'db" where
  "requeue_claimed_bound C claim_key db =
    (let R = with_sync C
     in case op_hget R claimed_hash_table claim_key db of
          None \<Rightarrow> (False, db)
        | Some v \<Rightarrow>
            if length v < 4 then (False, db)
            else let db = snd (op_hset R pending_hash_table (take 4 v) v db);
                     db = snd (op_hdel R claimed_hash_table [claim_key] db)
                 in (True, db))"

end
