(* ===== verification/Identity_Equality.thy ===== *)
theory Identity_Equality
  imports Entity_Data
begin

text \<open>
  When two identities compare equal (\<open>operator==\<close> of \<open>NetworkIdentity\<close>): the comparison goes through
  the printed form, and the printed form is analysed here.
\<close>

section \<open>Equality of identities\<close>

text \<open>What the code relies on from \<open>boost::uuids::to_string\<close>: it prints visible characters, at least
  one, and different UUIDs differently.\<close>

definition uuid_printer :: "(bytes \<Rightarrow> string) \<Rightarrow> bool" where
  "uuid_printer f \<longleftrightarrow> inj_on f {u. length u = 16} \<and> (\<forall>u. f u \<noteq> [] \<and> list_all (\<lambda>c. 32 < (of_char c :: nat)) (f u))"

definition nt_known :: "u32 \<Rightarrow> bool" where
  "nt_known t \<longleftrightarrow> t \<in> {nt_invalid, nt_shard, nt_watchdog, nt_cartograph, nt_game_client, nt_proxy,
    nt_atlasnet_initial}"

lemma uuid_is_nil_iff: "length u = 16 \<Longrightarrow> uuid_is_nil u \<longleftrightarrow> u = nil_uuid"
  by (metis (mono_tags, lifting) nil_uuid_def uuid_is_nil_def Ball_set in_set_replicate
      replicate_eqI)

definition visible :: "string \<Rightarrow> bool" where
  "visible s \<longleftrightarrow> s \<noteq> [] \<and> list_all (\<lambda>c. 32 < (of_char c :: nat)) s"

lemma visible_keep: "visible s \<Longrightarrow> c \<in> set s \<Longrightarrow> nuke_keep c \<and> \<not> is_space c \<and> c \<noteq> CHR '' ''"
  by (auto simp: visible_def nuke_keep_def is_space_def list_all_iff)

lemma visible_rev: "visible (rev s) = visible s"
  by (simp add: visible_def list_all_iff)

lemma dropWhile_visible: "visible s \<Longrightarrow> dropWhile is_space (s @ t) = s @ t"
  using visible_keep [of s "hd s"] by (cases s) (auto simp: visible_def)

lemma visible_append: "visible s \<Longrightarrow> visible t \<Longrightarrow> visible (s @ t)"
  by (simp add: visible_def)

lemma filter_visible: "visible s \<Longrightarrow> filter nuke_keep s = s"
  using visible_keep by (simp add: filter_id_conv)

lemma nuke_visible: "visible s \<Longrightarrow> nuke_string s = s"
  using dropWhile_visible [of s "[]"] dropWhile_visible [of "rev s" "[]"]
  by (simp add: nuke_string_def filter_visible visible_rev)

lemma nuke_pair:
  assumes "visible s" and "visible t"
  shows "nuke_string (s @ '' '' @ t) = s @ '' '' @ t"
proof -
  have "filter nuke_keep (s @ '' '' @ t) = s @ '' '' @ t"
    using assms by (simp add: filter_visible nuke_keep_def)
  then show ?thesis
    using dropWhile_visible [OF assms(1), of "'' '' @ t"]
      dropWhile_visible [of "rev t" "'' '' @ rev s"] assms(2)
    by (simp add: nuke_string_def visible_rev)
qed

lemma visible_nt_name: "visible (nt_name t)"
  by (simp add: visible_def nt_name_def)

lemma nt_name_inject: "nt_known a \<Longrightarrow> nt_known b \<Longrightarrow> nt_name a = nt_name b \<longleftrightarrow> a = b"
  by (auto simp: nt_known_def nt_name_def nt_defs)

lemma nid_to_string_eq:
  assumes "uuid_printer f"
  shows "nid_to_string f n =
    nt_name (nid_type n) @ (if uuid_is_nil (nid_id n) then [] else '' '' @ f (nid_id n))"
proof -
  have "visible (f (nid_id n))" using assms by (simp add: uuid_printer_def visible_def)
  then show ?thesis
    using nuke_visible [OF visible_nt_name] nuke_pair [OF visible_nt_name]
    by (simp add: nid_to_string_def)
qed

lemma visible_split:
  assumes "visible a" and "visible b"
    and "a @ (if x then [] else '' '' @ s) = b @ (if y then [] else '' '' @ t)"
  shows "a = b \<and> x = y \<and> (\<not> x \<longrightarrow> s = t)"
proof -
  have tw: "takeWhile (\<lambda>c. c \<noteq> CHR '' '') (u @ (if z then [] else '' '' @ v)) = u" if "visible u" for u z v
    using visible_keep [OF that] by (simp add: takeWhile_append)
  have "a = b" using assms(3) tw [OF assms(1), of x s] tw [OF assms(2), of y t] by simp
  with assms(3) show ?thesis by (auto split: if_splits)
qed

lemma nid_eq_iff:
  assumes "uuid_printer uuid_str" and "nid_ok a" and "nid_ok b"
  shows "nid_eq uuid_str a b \<longleftrightarrow>
    nid_id a = nid_id b \<and>
    (nid_type a = nid_type b \<or> \<not> nt_known (nid_type a) \<and> \<not> nt_known (nid_type b))"
proof -
  have name: "nt_name s = nt_name t \<longleftrightarrow> s = t \<or> \<not> nt_known s \<and> \<not> nt_known t" for s t
    by (auto simp: nt_known_def nt_name_def nt_defs)
  have id: "(uuid_is_nil u = uuid_is_nil v \<and> (\<not> uuid_is_nil u \<longrightarrow> uuid_str u = uuid_str v)) \<longleftrightarrow> u = v"
    if "length u = 16" "length v = 16" for u v
    using that assms(1) by (auto simp: uuid_is_nil_iff uuid_printer_def dest: inj_onD)
  have "nid_eq uuid_str a b \<longleftrightarrow>
      nt_name (nid_type a) = nt_name (nid_type b) \<and> uuid_is_nil (nid_id a) = uuid_is_nil (nid_id b) \<and>
      (\<not> uuid_is_nil (nid_id a) \<longrightarrow> uuid_str (nid_id a) = uuid_str (nid_id b))"
    (is "_ \<longleftrightarrow> ?rhs")
  proof
    assume "nid_eq uuid_str a b"
    from this [unfolded nid_eq_def nid_to_string_eq [OF assms(1)]] show ?rhs
      using visible_split [OF visible_nt_name visible_nt_name] by blast
  next
    assume ?rhs
    then show "nid_eq uuid_str a b"
      unfolding nid_eq_def nid_to_string_eq [OF assms(1)] by simp
  qed
  then show ?thesis
    using name id assms(2,3) by (auto simp: nid_ok_def)
qed

text \<open>Comparing identities through their strings is equality of type and UUID for the known
  identity types, but identifies all identities of unknown types with the same UUID, although the
  type is transmitted as any 32-bit value.\<close>

theorem identity_equality:
  assumes "uuid_printer uuid_str" and "nid_ok a" and "nid_ok b"
  shows "nid_eq uuid_str a b \<longleftrightarrow>
    nid_id a = nid_id b \<and>
    (nid_type a = nid_type b \<or> \<not> nt_known (nid_type a) \<and> \<not> nt_known (nid_type b))"
  using assms by (rule nid_eq_iff)

definition demo_printer :: "bytes \<Rightarrow> string" where
  "demo_printer u = CHR ''u'' # concat (map (\<lambda>b. replicate (unat b) (CHR ''x'') @ ''-'') u)"

lemma demo_printer_inj: "demo_printer u = demo_printer v \<Longrightarrow> u = v"
proof -
  have *: "(replicate m (CHR ''x'') @ CHR ''-'' # s = replicate n (CHR ''x'') @ CHR ''-'' # t) =
      (m = n \<and> s = t)" for m n s t
  proof (induction m arbitrary: n)
    case 0
    then show ?case by (cases n) auto
  next
    case (Suc m)
    then show ?case by (cases n) auto
  qed
  show "demo_printer u = demo_printer v \<Longrightarrow> u = v"
  proof (induction u arbitrary: v)
    case Nil
    then show ?case by (cases v) (auto simp: demo_printer_def)
  next
    case (Cons a u)
    then show ?case by (cases v) (auto simp: demo_printer_def * word_unat_eq_iff)
  qed
qed

lemma demo_printer_ok: "uuid_printer demo_printer"
  unfolding uuid_printer_def
proof (intro conjI allI)
  show "inj_on demo_printer {u. length u = 16}" by (rule inj_onI) (rule demo_printer_inj)
  show "demo_printer u \<noteq> []" for u by (simp add: demo_printer_def)
  show "list_all (\<lambda>c. 32 < (of_char c :: nat)) (demo_printer u)" for u
    by (induction u) (auto simp: demo_printer_def list_all_iff)
qed

theorem identity_equality_witness:
  "nid_eq demo_printer \<lparr> nid_type = 5, nid_id = nil_uuid \<rparr> \<lparr> nid_type = 8, nid_id = nil_uuid \<rparr> \<and>
   \<not> nid_eq demo_printer make_id_watchdog make_id_cartograph"
  using identity_equality [OF demo_printer_ok, of "\<lparr> nid_type = 5, nid_id = nil_uuid \<rparr>" "\<lparr> nid_type = 8, nid_id = nil_uuid \<rparr>"]
    identity_equality [OF demo_printer_ok, of make_id_watchdog make_id_cartograph]
  by (simp add: nid_ok_def nil_uuid_def nt_known_def nt_defs make_id_watchdog_def make_id_cartograph_def)

end
