(* ===== verification/Bound_Claims.thy ===== *)
theory Bound_Claims
  imports Heuristic_Manifest Identity_Equality
begin

text \<open>
  The contract of the heuristic manifest. Its state is abstracted to the active grid, the queue of the
  pending bounds and the list of the claimed bounds with their owners, and every operation on the
  document is shown to implement the operation on this abstract state. The assumptions are the
  documented laws of the JSON commands and that base 64 text can be decoded.
\<close>

section \<open>The abstract state\<close>

text \<open>What the manifest relies on from the base 64 functions.\<close>

definition base64_ok :: "'db hm_env \<Rightarrow> bool" where
  "base64_ok E \<longleftrightarrow> (\<forall>bs. bs \<noteq> [] \<longrightarrow> hm_enc64 E bs \<noteq> [] \<and> plain (hm_enc64 E bs) \<and>
    hm_dec64 E (hm_enc64 E bs) = bs)"

definition owner_ok :: "'db hm_env \<Rightarrow> network_identity \<Rightarrow> bool" where
  "owner_ok E n \<longleftrightarrow> nid_ok n \<and> plain (str_bytes (nid_to_string (hm_uuid_str E) n))"

definition pending_of :: "'db hm_env \<Rightarrow> grid_shape \<Rightarrow> json \<Rightarrow> bool" where
  "pending_of E s x \<longleftrightarrow> grid_shape_ok s \<and> (\<exists>kvs. x = JObj kvs \<and>
    map_of kvs ''ID'' = Some (JNum (uint (gs_id s))) \<and>
    map_of kvs ''BoundsData64'' = Some (JStr (hm_enc64 E (grid_shape_enc s))))"

definition claimed_of :: "'db hm_env \<Rightarrow> grid_shape \<times> network_identity \<Rightarrow> json \<Rightarrow> bool" where
  "claimed_of E c x \<longleftrightarrow> pending_of E (fst c) x \<and> nid_ok (snd c) \<and>
    j_field ''Owner64'' x = Some (JStr (hm_enc64 E (nid_enc (snd c))))"

text \<open>The entry \<open>f\<close> of the document holds the array \<open>xs\<close>; a missing entry counts as empty.\<close>

definition holds :: "(string \<Rightarrow> json option) \<Rightarrow> string \<Rightarrow> json list \<Rightarrow> bool" where
  "holds m f xs \<longleftrightarrow> m f = Some (JArr xs) \<or> m f = None \<and> xs = []"

text \<open>The document \<open>m\<close> stores the grid \<open>h\<close>, the pending bounds \<open>qs\<close> and the claims \<open>cs\<close>; no id
  occurs twice among them.\<close>

definition bounds_view ::
  "'db hm_env \<Rightarrow> (string \<Rightarrow> json option) \<Rightarrow> grid_shape list \<Rightarrow> (grid_shape \<times> network_identity) list \<Rightarrow> bool" where
  "bounds_view E m qs cs \<longleftrightarrow>
    (\<exists>xs. holds m pending_entry xs \<and> list_all2 (pending_of E) qs xs) \<and>
    (\<exists>ys. holds m claimed_entry ys \<and> list_all2 (claimed_of E) cs ys) \<and>
    distinct (map gs_id (qs @ map fst cs))"

definition heuristic_view :: "'db hm_env \<Rightarrow> (string \<Rightarrow> json option) \<Rightarrow> grid_heuristic \<Rightarrow> bool" where
  "heuristic_view E m h \<longleftrightarrow> grid_ok h \<and> length (grid_enc h) < 2 ^ 63 \<and>
    m type_entry = Some (JStr (str_bytes ''GridCell'')) \<and>
    m data64_entry = Some (JStr (hm_enc64 E (grid_enc h)))"

lemma entries_differ [simp]:
  "pending_entry \<noteq> claimed_entry" "claimed_entry \<noteq> pending_entry" "type_entry \<noteq> pending_entry"
  "type_entry \<noteq> claimed_entry" "data64_entry \<noteq> pending_entry" "data64_entry \<noteq> claimed_entry"
  "type_entry \<noteq> data64_entry" "data64_entry \<noteq> type_entry" "pending_entry \<noteq> type_entry"
  "claimed_entry \<noteq> type_entry" "pending_entry \<noteq> data64_entry" "claimed_entry \<noteq> data64_entry"
  by (simp_all add: entry_defs)

lemma bounds_view_cong:
  "m pending_entry = m' pending_entry \<Longrightarrow> m claimed_entry = m' claimed_entry \<Longrightarrow>
   bounds_view E m qs cs = bounds_view E m' qs cs"
  by (simp add: bounds_view_def holds_def)

lemma heuristic_view_cong:
  "m type_entry = m' type_entry \<Longrightarrow> m data64_entry = m' data64_entry \<Longrightarrow>
   heuristic_view E m h = heuristic_view E m' h"
  by (simp add: heuristic_view_def)

section \<open>Entries\<close>

lemma base64_read:
  assumes "base64_ok E" and "bs \<noteq> []"
  shows "br_new_base64 (hm_dec64 E) (hm_enc64 E bs) = br_new bs"
proof -
  have p: "plain (hm_enc64 E bs)" and d: "hm_dec64 E (hm_enc64 E bs) = bs"
    using assms by (simp_all add: base64_ok_def)
  have "b \<noteq> 0" if "b \<in> set (hm_enc64 E bs)" for b
    using p that by (auto simp: plain_def list_all_iff)
  then have "takeWhile (\<lambda>b. b \<noteq> 0) (hm_enc64 E bs) = hm_enc64 E bs"
    unfolding takeWhile_eq_all_conv by blast
  then show ?thesis by (simp only: br_new_base64_def br_decode_base64_def br_new_def reader.simps d)
qed

lemma base64_write: "base64_ok E \<Longrightarrow> wbuf w \<noteq> [] \<Longrightarrow>
    bw_as_string_base_64 (hm_enc64 E) w = Inr (hm_enc64 E (wbuf w))"
  by (simp add: bw_as_string_base_64_def base64_ok_def)

lemma be_enc_nonempty [simp]: "be_enc (v :: u32) \<noteq> []" "be_enc (w :: u64) \<noteq> []"
  by (rule length_greater_0_conv [THEN iffD1], simp add: be_enc_def)+

lemma nonempty_encs [simp]: "nid_enc n \<noteq> []" "grid_shape_enc s \<noteq> []" "grid_enc h \<noteq> []"
  by (simp_all add: nid_enc_def grid_shape_enc_def grid_enc_def)

lemma nid_wbuf: "wbuf (nid_ser n bw_new) = nid_enc n"
  by (simp add: enc_simps bw_write_def bw_new_def)

lemma grid_shape_enc_length: "grid_shape_ok s \<Longrightarrow> length (grid_shape_enc s) < 2 ^ 63"
  by (simp add: grid_shape_enc_def aabb_enc_def be_enc_def grid_shape_ok_def aabb_wf_def
      length_concat comp_def sum_list_triv)

lemma read_shape:
  assumes "base64_ok E" and "grid_shape_ok s"
  obtains r where "grid_shape_des (br_new_base64 (hm_dec64 E) (hm_enc64 E (grid_shape_enc s))) = Inr (s, r)"
  using decodes_new [OF gridshapec.des_enc [OF assms(2)] grid_shape_enc_length [OF assms(2)]]
  by (auto simp: base64_read [OF assms(1)])

lemma claimed_from_json_of:
  assumes "base64_ok E" and "claimed_of E (s, n) x"
  shows "claimed_from_json E x =
    Inr \<lparr> cb_id = gs_id s, cb_identity = n, cb_data = hm_enc64 E (grid_shape_enc s) \<rparr>"
proof -
  have n: "nid_ok n" using assms(2) by (simp add: claimed_of_def)
  obtain r where "nid_des (br_new (nid_enc n)) = Inr (n, r)"
    using decodes_new [OF nidc.des_enc [OF n]] nid_enc_length [OF n] by auto
  then show ?thesis
    using assms(2)
    by (auto simp: claimed_from_json_def claimed_of_def pending_of_def base64_read [OF assms(1)])
qed

text \<open>Filtering the array filters the claims.\<close>

lemma list_all2_filter:
  assumes "list_all2 P cs ys" and "\<And>c y. P c y \<Longrightarrow> f c = g y"
  shows "list_all2 P (filter f cs) (filter g ys)"
  using assms(1) by (induction rule: list_all2_induct) (simp_all add: assms(2))

lemma uint_eq: "uint (a :: u32) = uint b \<longleftrightarrow> a = b"
  by (simp add: word_uint_eq_iff)

lemma pending_of_id: "pending_of E s x \<Longrightarrow> j_field ''ID'' x = Some (JNum (uint (gs_id s)))"
  by (auto simp: pending_of_def)

lemma matches_id:
  "list_all2 (claimed_of E) cs ys \<Longrightarrow>
   list_all2 (claimed_of E) (filter (\<lambda>c. gs_id (fst c) = i) cs) (matches ''ID'' (JNum (uint i)) ys)"
  unfolding matches_def
  by (erule list_all2_filter) (auto simp: claimed_of_def pending_of_id uint_eq)

lemma matches_pending_id:
  "list_all2 (pending_of E) qs xs \<Longrightarrow>
   list_all2 (pending_of E) (filter (\<lambda>q. gs_id q = i) qs) (matches ''ID'' (JNum (uint i)) xs)"
  unfolding matches_def by (erule list_all2_filter) (auto simp: pending_of_id uint_eq)

lemma enc64_inject:
  assumes "base64_ok E" and "bs \<noteq> []" and "cs \<noteq> []"
  shows "hm_enc64 E bs = hm_enc64 E cs \<longleftrightarrow> bs = cs"
  using assms unfolding base64_ok_def by metis

lemma matches_owner:
  assumes "base64_ok E" and "nid_ok n" and "list_all2 (claimed_of E) cs ys"
  shows "list_all2 (claimed_of E) (filter (\<lambda>c. snd c = n) cs)
    (matches ''Owner64'' (JStr (hm_enc64 E (nid_enc n))) ys)"
  unfolding matches_def
proof (rule list_all2_filter [OF assms(3)])
  fix c y assume "claimed_of E c y"
  then have *: "nid_ok (snd c)" "j_field ''Owner64'' y = Some (JStr (hm_enc64 E (nid_enc (snd c))))"
    by (simp_all add: claimed_of_def)
  have "hm_enc64 E (nid_enc (snd c)) = hm_enc64 E (nid_enc n) \<longleftrightarrow> snd c = n"
    using nid_key_inject [OF *(1) assms(2)] by (simp add: enc64_inject [OF assms(1)] nid_key_enc)
  then show "(snd c = n) = (j_field ''Owner64'' y = Some (JStr (hm_enc64 E (nid_enc n))))"
    using *(2) by simp
qed

lemma distinct_filter_id:
  "distinct (map gs_id (map fst cs)) \<Longrightarrow>
   filter (\<lambda>c. gs_id (fst c) = i) cs =
     (case find (\<lambda>c. gs_id (fst c) = i) cs of None \<Rightarrow> [] | Some c \<Rightarrow> [c])"
proof (induction cs)
  case (Cons c cs)
  show ?case
  proof (cases "gs_id (fst c) = i")
    case True
    then have "filter (\<lambda>c. gs_id (fst c) = i) cs = []"
      using Cons.prems by (force simp: filter_empty_conv image_iff)
    then show ?thesis using True by simp
  qed (use Cons in simp)
qed simp

lemma filter_one_id:
  assumes "distinct (map gs_id (map fst cs))" and "(s, n) \<in> set cs"
  shows "filter (\<lambda>c. gs_id (fst c) = gs_id s) cs = [(s, n)]"
  using assms by (induction cs) (force simp: filter_empty_conv image_iff)+

lemma strip_quoted: "strip_quotes (quoted s) = s"
  by (simp add: strip_quotes_def quoted_def)

section \<open>The operations on the abstract state\<close>

text \<open>The claims of several shards, in the order in which the database runs them.\<close>

fun claim_in_turn :: "'db hm_env \<Rightarrow> network_identity list \<Rightarrow> 'db \<Rightarrow> (grid_shape option list \<times> 'db) res" where
  "claim_in_turn E [] db = Inr ([], db)"
| "claim_in_turn E (n # ns) db =
    bindE (claim_next_pending_bound E n db) (\<lambda>(s, db).
    bindE (claim_in_turn E ns db) (\<lambda>(ss, db). Inr (s # ss, db)))"

context json_store
begin

lemma ensure_holds:
  assumes "doc db = Some m" and "holds m f xs"
  obtains db' where "js_set J f (str_bytes ''[]'') True db = Inr db'"
    and "doc db' = Some (m(f \<mapsto> JArr xs))"
proof -
  obtain db' where db': "js_set J f (str_bytes ''[]'') True db = Inr db'"
    "doc db' = Some (if m f = None then m(f \<mapsto> JArr []) else m)"
    using ensure_array [OF assms(1)] by blast
  have "(if m f = None then m(f \<mapsto> JArr []) else m) = m(f \<mapsto> JArr xs)"
    using assms(2) by (auto simp: holds_def fun_eq_iff)
  with db' show ?thesis by (intro that) simp_all
qed

text \<open>The effect of the claim script on a document with a pending bound.\<close>

lemma claim_script_moves:
  assumes m: "doc db = Some m" and p: "m pending_entry = Some (JArr (JObj kvs # xs))"
    and c: "holds m claimed_entry ys" and pl: "plain owner" "plain name"
    and i: "map_of kvs ''ID'' = Some (JNum i)"
  obtains db' kvs' where "claim_script J owner name db = Inr (Some i, db')"
    and "map_of kvs' = (map_of kvs)(''Owner64'' \<mapsto> JStr owner, ''OwnerName'' \<mapsto> JStr name)"
    and "doc db' = Some (m(claimed_entry \<mapsto> JArr (ys @ [JObj kvs']), pending_entry \<mapsto> JArr xs))"
proof -
  obtain ty where ty: "js_type J claimed_entry db = Inr ty" using type_of [OF m] by blast
  obtain db1 where s1: "js_set J claimed_entry (str_bytes ''[]'') True db = Inr db1"
    and d1: "doc db1 = Some (m(claimed_entry \<mapsto> JArr ys))" using ensure_holds [OF m c] .
  have p1: "(m(claimed_entry \<mapsto> JArr ys)) pending_entry = Some (JArr (JObj kvs # xs))" using p by simp
  have len: "js_arrlen J pending_entry db1 = Inr (Some (Suc (length xs)))"
    using arrlen [OF d1 p1] by simp
  obtain t where t: "js_get_elem J pending_entry 0 db1 = Inr (Some t)" "js_parse J t = Some (JObj kvs)"
    using get_elem [OF d1 p1, of 0] by auto
  obtain db2 where s2: "js_arrappend J claimed_entry t db1 = Inr db2"
    and d2: "doc db2 = Some (m(claimed_entry \<mapsto> JArr (ys @ [JObj kvs])))"
    using arrappend [OF d1 _ t(2), of claimed_entry ys] by auto
  have len2: "js_arrlen J claimed_entry db2 = Inr (Some (Suc (length ys)))"
    using arrlen [OF d2, of claimed_entry] by simp
  obtain db3 kvs3 where s3: "js_set_elem J claimed_entry (length ys) ''Owner64'' (quoted owner) db2 = Inr db3"
    and k3: "map_of kvs3 = (map_of kvs)(''Owner64'' \<mapsto> JStr owner)"
    and d3: "doc db3 = Some (m(claimed_entry \<mapsto> JArr (ys @ [JObj kvs3])))"
    using set_elem [OF d2, of claimed_entry "ys @ [JObj kvs]" "length ys" kvs "quoted owner" "JStr owner" "''Owner64''"]
      parse_quoted [OF pl(1)] by auto
  obtain db4 kvs4 where s4: "js_set_elem J claimed_entry (length ys) ''OwnerName'' (quoted name) db3 = Inr db4"
    and k4: "map_of kvs4 = (map_of kvs3)(''OwnerName'' \<mapsto> JStr name)"
    and d4: "doc db4 = Some (m(claimed_entry \<mapsto> JArr (ys @ [JObj kvs4])))"
    using set_elem [OF d3, of claimed_entry "ys @ [JObj kvs3]" "length ys" kvs3 "quoted name" "JStr name" "''OwnerName''"]
      parse_quoted [OF pl(2)] by auto
  obtain db5 where s5: "js_arrpop J pending_entry 0 db4 = Inr db5"
    and d5: "doc db5 = Some (m(claimed_entry \<mapsto> JArr (ys @ [JObj kvs4]), pending_entry \<mapsto> JArr xs))"
    using arrpop [OF d4, of pending_entry "JObj kvs # xs" 0] p by auto
  have "claim_script J owner name db = Inr (Some i, db5)"
    by (simp add: claim_script_def ty s1 len t s2 len2 s3 s4 s5 i)
  then show ?thesis using that k3 k4 d5 by simp
qed

lemma claim_script_empty:
  assumes m: "doc db = Some m" and p: "m pending_entry = Some (JArr [])" and c: "holds m claimed_entry ys"
  obtains db' where "claim_script J owner name db = Inr (None, db')"
    and "doc db' = Some (m(claimed_entry \<mapsto> JArr ys))"
proof -
  obtain ty where ty: "js_type J claimed_entry db = Inr ty" using type_of [OF m] by blast
  obtain db1 where s1: "js_set J claimed_entry (str_bytes ''[]'') True db = Inr db1"
    and d1: "doc db1 = Some (m(claimed_entry \<mapsto> JArr ys))" using ensure_holds [OF m c] .
  have "js_arrlen J pending_entry db1 = Inr (Some 0)" using arrlen [OF d1, of pending_entry "[]"] p by simp
  then show ?thesis using that [OF _ d1] by (simp add: claim_script_def ty s1)
qed

text \<open>What the filters of the claimed bounds reply.\<close>

lemma filter_claimed:
  assumes m: "doc db = Some m" and c: "holds m claimed_entry ys"
  obtains t where "js_filter J claimed_entry k v db = Inr (Some t)"
    and "js_parse J t = Some (JArr (matches k v ys))"
proof -
  have "matches k v ys = (case m claimed_entry of Some (JArr zs) \<Rightarrow> matches k v zs | _ \<Rightarrow> [])"
    using c by (auto simp: holds_def matches_def)
  from filter_field [OF m this] show ?thesis using that by blast
qed

text \<open>The active type.\<close>

lemma active_type:
  assumes E: "hm_json E = J" and m: "doc db = Some m"
    and t: "m type_entry = Some (JStr (str_bytes (type_to_string t)))"
  shows "get_active_heuristic_type E db = Inr t"
proof -
  have pl: "plain (str_bytes (type_to_string t))" by (cases t) (simp_all add: plain_def str_bytes_def)
  obtain u where "js_get J type_entry db = Inr (Some u)" "u = quoted (str_bytes (type_to_string t))"
    using get_field [OF m t] pl by blast
  moreover have "snd (type_from_string (type_to_string t)) = t"
    by (cases t) (simp_all add: type_from_string_def)
  ultimately show ?thesis by (simp add: get_active_heuristic_type_def E strip_quoted)
qed

lemma get_claimed:
  assumes E: "hm_json E = J" and b: "base64_ok E" and m: "doc db = Some m" and c: "holds m claimed_entry ys"
    and v: "list_all2 (claimed_of E) cs ys" and d: "distinct (map gs_id (map fst cs))"
    and s: "(s, n) \<in> set cs"
  shows "get_claimed_bound E (gs_id s) db =
      Inr (Some \<lparr> cb_id = gs_id s, cb_identity = n, cb_data = hm_enc64 E (grid_shape_enc s) \<rparr>)"
    and "pull_claimed_bound E (gs_id s) db =
      Inr (Some \<lparr> cb_id = gs_id s, cb_identity = n, cb_data = hm_enc64 E (grid_shape_enc s) \<rparr>)"
proof -
  obtain t where t: "js_filter J claimed_entry ''ID'' (JNum (uint (gs_id s))) db = Inr (Some t)"
    "js_parse J t = Some (JArr (matches ''ID'' (JNum (uint (gs_id s))) ys))"
    using filter_claimed [OF m c] .
  have "filter (\<lambda>c. gs_id (fst c) = gs_id s) cs = [(s, n)]" by (rule filter_one_id [OF d s])
  then obtain x where x: "matches ''ID'' (JNum (uint (gs_id s))) ys = [x]" "claimed_of E (s, n) x"
    using matches_id [OF v, of "gs_id s"] by (auto simp: list_all2_Cons1)
  have "x \<noteq> JNull" using x(2) by (auto simp: claimed_of_def pending_of_def)
  then show "get_claimed_bound E (gs_id s) db =
      Inr (Some \<lparr> cb_id = gs_id s, cb_identity = n, cb_data = hm_enc64 E (grid_shape_enc s) \<rparr>)"
    and "pull_claimed_bound E (gs_id s) db =
      Inr (Some \<lparr> cb_id = gs_id s, cb_identity = n, cb_data = hm_enc64 E (grid_shape_enc s) \<rparr>)"
    using t x claimed_from_json_of [OF b x(2)]
    by (simp_all add: get_claimed_bound_def pull_claimed_bound_def E json_parse_def json_or_null_def
        empty_reply_def)
qed

lemma claim_next_moves:
  assumes E: "hm_json E = J" and b: "base64_ok E" and n: "owner_ok E n" and m: "doc db = Some m"
    and t: "m type_entry = Some (JStr (str_bytes ''GridCell''))"
    and v: "bounds_view E m (s # qs) cs"
  shows "\<exists>db' m'. claim_next_pending_bound E n db = Inr (Some s, db') \<and> doc db' = Some m' \<and>
    bounds_view E m' qs (cs @ [(s, n)]) \<and> m' pending_entry \<noteq> None \<and>
    (\<forall>f. f \<noteq> pending_entry \<longrightarrow> f \<noteq> claimed_entry \<longrightarrow> m' f = m f)"
proof -
  obtain x xs ys where x: "m pending_entry = Some (JArr (x # xs))" "pending_of E s x"
    "list_all2 (pending_of E) qs xs" and ys: "holds m claimed_entry ys" "list_all2 (claimed_of E) cs ys"
    and d: "distinct (map gs_id ((s # qs) @ map fst cs))"
    using v by (auto simp: bounds_view_def holds_def list_all2_Cons1)
  obtain kvs where kvs: "x = JObj kvs" "map_of kvs ''ID'' = Some (JNum (uint (gs_id s)))"
    "map_of kvs ''BoundsData64'' = Some (JStr (hm_enc64 E (grid_shape_enc s)))" and so: "grid_shape_ok s"
    using x(2) by (auto simp: pending_of_def)
  let ?owner = "hm_enc64 E (nid_enc n)" and ?name = "str_bytes (nid_to_string (hm_uuid_str E) n)"
  have pl: "plain ?owner" "plain ?name" using b n by (simp_all add: base64_ok_def owner_ok_def)
  have enc: "bw_as_string_base_64 (hm_enc64 E) (nid_ser n bw_new) = Inr ?owner"
    using base64_write [OF b, of "nid_ser n bw_new"] by (simp add: nid_wbuf)
  obtain db' kvs' where cl: "claim_script J ?owner ?name db = Inr (Some (uint (gs_id s)), db')"
    and k: "map_of kvs' = (map_of kvs)(''Owner64'' \<mapsto> JStr ?owner, ''OwnerName'' \<mapsto> JStr ?name)"
    and m': "doc db' = Some (m(claimed_entry \<mapsto> JArr (ys @ [JObj kvs']), pending_entry \<mapsto> JArr xs))"
    using claim_script_moves [OF m x(1) [unfolded kvs(1)] ys(1) pl kvs(2)] by blast
  let ?m' = "m(claimed_entry \<mapsto> JArr (ys @ [JObj kvs']), pending_entry \<mapsto> JArr xs)"
  have new: "claimed_of E (s, n) (JObj kvs')"
    using kvs so n by (simp add: claimed_of_def pending_of_def k owner_ok_def)
  have all: "list_all2 (claimed_of E) (cs @ [(s, n)]) (ys @ [JObj kvs'])"
    using ys(2) new by (simp add: list_all2_appendI)
  have view: "bounds_view E ?m' qs (cs @ [(s, n)])"
    unfolding bounds_view_def holds_def using all x(3) d by auto
  have dc: "distinct (map gs_id (map fst (cs @ [(s, n)])))" using d by auto
  have "get_claimed_bound E (gs_id s) db' =
      Inr (Some \<lparr> cb_id = gs_id s, cb_identity = n, cb_data = hm_enc64 E (grid_shape_enc s) \<rparr>)"
    by (rule get_claimed(1) [OF E b m' _ all dc]) (simp_all add: holds_def)
  moreover have "create_ibound_inst E db' = Inr grid_shape_new"
    using active_type [OF E m', of HGridCell] t by (simp add: create_ibound_inst_def)
  moreover obtain r where
    "grid_shape_des (br_new_base64 (hm_dec64 E) (hm_enc64 E (grid_shape_enc s))) = Inr (s, r)"
    using read_shape [OF b so] .
  ultimately have "claim_next_pending_bound E n db = Inr (Some s, db')"
    by (simp add: claim_next_pending_bound_def enc E cl)
  with m' view show ?thesis by auto
qed

lemma claim_next_empty:
  assumes E: "hm_json E = J" and b: "base64_ok E" and m: "doc db = Some m"
    and p: "m pending_entry = Some (JArr [])" and v: "bounds_view E m [] cs"
  shows "\<exists>db' m'. claim_next_pending_bound E n db = Inr (None, db') \<and> doc db' = Some m' \<and>
    bounds_view E m' [] cs \<and> (\<forall>f. f \<noteq> claimed_entry \<longrightarrow> m' f = m f)"
proof -
  obtain ys where ys: "holds m claimed_entry ys" "list_all2 (claimed_of E) cs ys"
    and d: "distinct (map gs_id (map fst cs))" using v by (auto simp: bounds_view_def)
  obtain db' where "claim_script J (hm_enc64 E (nid_enc n)) (str_bytes (nid_to_string (hm_uuid_str E) n)) db = Inr (None, db')"
    and m': "doc db' = Some (m(claimed_entry \<mapsto> JArr ys))" using claim_script_empty [OF m p ys(1)] .
  then have "claim_next_pending_bound E n db = Inr (None, db')"
    using base64_write [OF b, of "nid_ser n bw_new"]
    by (simp add: claim_next_pending_bound_def E nid_wbuf)
  moreover have "bounds_view E (m(claimed_entry \<mapsto> JArr ys)) [] cs"
    using ys(2) d p by (simp add: bounds_view_def holds_def)
  ultimately show ?thesis using m' by auto
qed

text \<open>The queries.\<close>

lemma shard_lookup:
  assumes E: "hm_json E = J" and b: "base64_ok E" and m: "doc db = Some m" and v: "bounds_view E m qs cs"
  shows "shard_from_bound_id E i db = Inr (map_option snd (find (\<lambda>c. gs_id (fst c) = i) cs))"
proof -
  obtain ys where ys: "holds m claimed_entry ys" "list_all2 (claimed_of E) cs ys"
    and d: "distinct (map gs_id (map fst cs))" using v by (auto simp: bounds_view_def)
  show ?thesis
  proof (cases "find (\<lambda>c. gs_id (fst c) = i) cs")
    case None
    obtain t where t: "js_filter J claimed_entry ''ID'' (JNum (uint i)) db = Inr (Some t)"
      "js_parse J t = Some (JArr (matches ''ID'' (JNum (uint i)) ys))"
      using filter_claimed [OF m ys(1)] .
    have "matches ''ID'' (JNum (uint i)) ys = []"
      using matches_id [OF ys(2), of i] distinct_filter_id [OF d, of i] None by simp
    then show ?thesis
      using t None
      by (simp add: shard_from_bound_id_def pull_claimed_bound_def E json_or_null_def json_parse_def
          empty_reply_def)
  next
    case (Some c)
    then have c: "(fst c, snd c) \<in> set cs" "gs_id (fst c) = i" by (auto simp: find_Some_iff in_set_conv_nth)
    show ?thesis
      using get_claimed(2) [OF E b m ys d c(1)] Some c(2) by (simp add: shard_from_bound_id_def)
  qed
qed

lemma bound_lookup:
  assumes E: "hm_json E = J" and b: "base64_ok E" and m: "doc db = Some m" and v: "bounds_view E m qs cs"
    and n: "nid_ok n" "nid_type n = nt_shard"
  shows "bound_id_from_shard E n db =
    (case filter (\<lambda>c. snd c = n) cs of
       [] \<Rightarrow> Inr None
     | [c] \<Rightarrow> Inr (Some (gs_id (fst c)))
     | _ \<Rightarrow> Inl (AssertFail ''This should never occur''))"
proof -
  obtain ys where ys: "holds m claimed_entry ys" "list_all2 (claimed_of E) cs ys"
    using v by (auto simp: bounds_view_def)
  let ?owner = "hm_enc64 E (nid_enc n)"
  let ?cs = "filter (\<lambda>c. snd c = n) cs" and ?ys = "matches ''Owner64'' (JStr ?owner) ys"
  have enc: "bw_as_string_base_64 (hm_enc64 E) (nid_ser n bw_new) = Inr ?owner"
    using base64_write [OF b, of "nid_ser n bw_new"] by (simp add: nid_wbuf)
  obtain t where t: "js_filter J claimed_entry ''Owner64'' (JStr ?owner) db = Inr (Some t)"
    "js_parse J t = Some (JArr ?ys)" using filter_claimed [OF m ys(1)] .
  have f: "list_all2 (claimed_of E) ?cs ?ys" by (rule matches_owner [OF b n(1) ys(2)])
  have eval: "bound_id_from_shard E n db =
      (if empty_reply (JArr ?ys) then Inr None
       else if 1 < length ?ys then Inl (AssertFail ''This should never occur'')
       else bindE (j_front (JArr ?ys)) (\<lambda>e.
         if j_field ''ID'' e = None then Inl (AssertFail ''Invalid entry'')
         else bindE (bindE (j_at e ''ID'') j_u32) (\<lambda>i. Inr (Some i))))"
    by (simp add: bound_id_from_shard_def n enc E t json_or_null_def json_parse_def)
  have id: "e \<noteq> JNull \<and> j_field ''ID'' e = Some (JNum (uint (gs_id (fst c)))) \<and>
      j_at e ''ID'' = Inr (JNum (uint (gs_id (fst c))))" if "claimed_of E c e" for c e
    using that by (auto simp: claimed_of_def pending_of_def)
  show ?thesis
  proof (cases ?cs rule: remdups_adj.cases)
    case 1
    then show ?thesis using f by (simp add: eval empty_reply_def)
  next
    case (2 c)
    then obtain e where "?ys = [e]" "claimed_of E c e" using f by (auto simp: list_all2_Cons1)
    then show ?thesis using id [of c e] 2 by (simp add: eval empty_reply_def)
  next
    case (3 c c' rest)
    then obtain e e' es where "?ys = e # e' # es" "claimed_of E c e"
      using f by (auto simp: list_all2_Cons1)
    then show ?thesis using id [of c e] 3 by (simp add: eval empty_reply_def)
  qed
qed

text \<open>Storing a bound.\<close>

lemma insert_pending_moves:
  assumes E: "hm_json E = J" and m: "doc db = Some m" and v: "bounds_view E m qs cs"
    and s: "grid_shape_ok s"
  shows "(gs_id s \<notin> gs_id ` set qs \<longrightarrow>
      (\<exists>db' m'. insert_pending_bound E \<lparr> pb_id = gs_id s, pb_data = hm_enc64 E (grid_shape_enc s) \<rparr> db = Inr db' \<and>
        doc db' = Some m' \<and> (gs_id s \<notin> gs_id ` fst ` set cs \<longrightarrow> bounds_view E m' (qs @ [s]) cs) \<and>
        (\<forall>f. f \<noteq> pending_entry \<longrightarrow> m' f = m f))) \<and>
    (gs_id s \<in> gs_id ` set qs \<longrightarrow>
      insert_pending_bound E \<lparr> pb_id = gs_id s, pb_data = d \<rparr> db = Inl (AssertFail ''This should never happen''))"
proof -
  obtain xs where xs: "holds m pending_entry xs" "list_all2 (pending_of E) qs xs"
    using v by (auto simp: bounds_view_def)
  obtain db1 where s1: "js_set J pending_entry (str_bytes ''[]'') True db = Inr db1"
    and d1: "doc db1 = Some (m(pending_entry \<mapsto> JArr xs))" using ensure_holds [OF m xs(1)] .
  let ?f = "matches ''ID'' (JNum (uint (gs_id s))) xs"
  obtain t where t: "js_filter J pending_entry ''ID'' (JNum (uint (gs_id s))) db1 = Inr (Some t)"
    "length t \<le> 2 \<longleftrightarrow> ?f = []"
    using filter_field [OF d1, of ?f "''ID''" "JNum (uint (gs_id s))" pending_entry] by auto
  have f: "?f = [] \<longleftrightarrow> gs_id s \<notin> gs_id ` set qs"
  proof -
    have "?f = [] \<longleftrightarrow> filter (\<lambda>q. gs_id q = gs_id s) qs = []"
      using list_all2_lengthD [OF matches_pending_id [OF xs(2), of "gs_id s"]] by (metis length_0_conv)
    then show ?thesis by (auto simp: filter_empty_conv intro: rev_image_eqI)
  qed
  let ?j = "pending_to_json \<lparr> pb_id = gs_id s, pb_data = hm_enc64 E (grid_shape_enc s) \<rparr>"
  obtain db2 where s2: "js_arrappend J pending_entry (js_dump J ?j) db1 = Inr db2"
    and d2: "doc db2 = Some (m(pending_entry \<mapsto> JArr (xs @ [?j])))"
    using arrappend [OF d1 _ parse_dump, of pending_entry xs ?j] by auto
  have "pending_of E s ?j" using s by (simp add: pending_of_def pending_to_json_def)
  then have "list_all2 (pending_of E) (qs @ [s]) (xs @ [?j])" using xs(2) by (simp add: list_all2_appendI)
  then have view: "bounds_view E (m(pending_entry \<mapsto> JArr (xs @ [?j]))) (qs @ [s]) cs"
    if "gs_id s \<notin> gs_id ` set qs" "gs_id s \<notin> gs_id ` fst ` set cs"
    using v that by (auto simp: bounds_view_def holds_def)
  show ?thesis
  proof (intro conjI impI)
    assume new: "gs_id s \<notin> gs_id ` set qs"
    then have "insert_pending_bound E \<lparr> pb_id = gs_id s, pb_data = hm_enc64 E (grid_shape_enc s) \<rparr> db = Inr db2"
      using t f s2 by (simp add: insert_pending_bound_def E s1)
    with d2 view [OF new] show "\<exists>db' m'. insert_pending_bound E
        \<lparr> pb_id = gs_id s, pb_data = hm_enc64 E (grid_shape_enc s) \<rparr> db = Inr db' \<and>
        doc db' = Some m' \<and> (gs_id s \<notin> gs_id ` fst ` set cs \<longrightarrow> bounds_view E m' (qs @ [s]) cs) \<and>
        (\<forall>f. f \<noteq> pending_entry \<longrightarrow> m' f = m f)"
      by auto
  next
    assume "gs_id s \<in> gs_id ` set qs"
    then show "insert_pending_bound E \<lparr> pb_id = gs_id s, pb_data = d \<rparr> db =
        Inl (AssertFail ''This should never happen'')"
      using t f by (simp add: insert_pending_bound_def E s1)
  qed
qed

text \<open>Pushing and pulling the heuristic.\<close>

lemma push_stores:
  assumes E: "hm_json E = J" and b: "base64_ok E" and h: "grid_ok h" "length (grid_enc h) < 2 ^ 63"
  shows "\<exists>db' m'. push_heuristic E h db = Inr db' \<and> doc db' = Some m' \<and> heuristic_view E m' h \<and>
    (\<forall>f. f \<noteq> type_entry \<longrightarrow> f \<noteq> data64_entry \<longrightarrow>
      m' f = (case doc db of None \<Rightarrow> None | Some m \<Rightarrow> m f))"
proof -
  obtain db1 where s1: "js_set_root_nx J db = Inr db1"
    and d1: "doc db1 = Some (case doc db of None \<Rightarrow> \<lambda>_. None | Some m \<Rightarrow> m)" using set_root by blast
  let ?m = "case doc db of None \<Rightarrow> \<lambda>_. None | Some m \<Rightarrow> m"
  have pl: "plain (str_bytes ''GridCell'')" by (simp add: plain_def str_bytes_def)
  obtain db2 where s2: "js_set J type_entry (quoted (str_bytes ''GridCell'')) False db1 = Inr db2"
    and d2: "doc db2 = Some (?m(type_entry \<mapsto> JStr (str_bytes ''GridCell'')))"
    using set_field [OF d1 parse_quoted [OF pl], of type_entry False] by auto
  let ?data = "hm_enc64 E (grid_enc h)"
  have ser: "bw_as_string_base_64 (hm_enc64 E) (grid_ser h bw_new) = Inr ?data"
    using base64_write [OF b, of "grid_ser h bw_new"] h by (simp add: grid_ser_enc bw_write_def bw_new_def)
  have pd: "plain ?data" using b by (simp add: base64_ok_def)
  obtain db3 where s3: "js_set J data64_entry (quoted ?data) False db2 = Inr db3"
    and d3: "doc db3 = Some (?m(type_entry \<mapsto> JStr (str_bytes ''GridCell''), data64_entry \<mapsto> JStr ?data))"
    using set_field [OF d2 parse_quoted [OF pd], of data64_entry False] by auto
  have "push_heuristic E h db = Inr db3"
    by (simp add: push_heuristic_def set_active_heuristic_type_def ensure_json_table_def E s1 s2 s3
        ser grid_get_type_def)
  then show ?thesis
    using d3 h by (auto simp: heuristic_view_def split: option.splits)
qed

lemma pull_reads:
  assumes E: "hm_json E = J" and b: "base64_ok E" and m: "doc db = Some m" and v: "heuristic_view E m h"
  shows "pull_heuristic E db = Inr (grid_new \<lparr> gh_quads := gh_quads h \<rparr>)"
proof -
  have h: "grid_ok h" "length (grid_enc h) < 2 ^ 63" "m type_entry = Some (JStr (str_bytes ''GridCell''))"
    "m data64_entry = Some (JStr (hm_enc64 E (grid_enc h)))" using v by (simp_all add: heuristic_view_def)
  have pd: "plain (hm_enc64 E (grid_enc h))" using b by (simp add: base64_ok_def)
  have t: "get_active_heuristic_type E db = Inr HGridCell" using active_type [OF E m, of HGridCell] h(3) by simp
  obtain u where u: "js_get J data64_entry db = Inr (Some u)" "u = quoted (hm_enc64 E (grid_enc h))"
    using get_field [OF m h(4)] pd by blast
  have cut: "take (length u - 2) (drop 1 u) = hm_enc64 E (grid_enc h)" "2 \<le> length u" "hd u = 34" "last u = 34"
    by (simp_all add: u(2) quoted_def)
  obtain r where "grid_des grid_new (br_new (grid_enc h)) = Inr (grid_new \<lparr> gh_quads := gh_quads h \<rparr>, r)"
    using decodes_new [OF decodes_grid [OF h(1)] h(2)] .
  then show ?thesis
    by (simp add: pull_heuristic_def t E u(1) cut cut(1) [simplified] base64_read [OF b])
qed

text \<open>The counts and the readers look for objects where the manifest keeps arrays.\<close>

lemma manifest_object_none:
  assumes E: "hm_json E = J" and "doc db = Some m" and v: "bounds_view E m qs cs"
    and f: "f = pending_entry \<or> f = claimed_entry"
  shows "manifest_object E f db = Inr None"
proof -
  obtain t kvs where t: "js_get_root J db = Inr (Some t)" "t \<noteq> []" "t \<noteq> str_bytes ''null''"
    "js_parse J t = Some (JObj kvs)" and m: "map_of kvs = m"
    using get_root [OF assms(2)] by blast
  have "\<exists>xs. holds m f xs" using v f by (auto simp: bounds_view_def)
  then show ?thesis
    using t by (auto simp: manifest_object_def E parse_payload_def null_text_def m holds_def)
qed

text \<open>Whole operations on the view: one claim, storing bounds, claims in turn.\<close>

lemma claim_step:
  assumes "hm_json E = J" and "base64_ok E" and "owner_ok E n"
    and "doc db = Some m" and "heuristic_view E m h" and "bounds_view E m qs cs"
    and "m pending_entry \<noteq> None"
  shows "\<exists>db' m'. claim_next_pending_bound E n db =
      Inr (case qs of [] \<Rightarrow> None | s # _ \<Rightarrow> Some s, db') \<and>
    doc db' = Some m' \<and> heuristic_view E m' h \<and>
    bounds_view E m' (tl qs) (cs @ (case qs of [] \<Rightarrow> [] | s # _ \<Rightarrow> [(s, n)]))"
proof (cases qs)
  case Nil
  have "m pending_entry = Some (JArr [])"
    using assms(6,7) by (auto simp: Nil bounds_view_def holds_def)
  then obtain db' m' where "claim_next_pending_bound E n db = Inr (None, db')" "doc db' = Some m'"
    "bounds_view E m' [] cs" "\<forall>f. f \<noteq> claimed_entry \<longrightarrow> m' f = m f"
    using claim_next_empty [OF assms(1-2,4) _ assms(6) [unfolded Nil]] by blast
  moreover have "heuristic_view E m' h"
    using assms(5) calculation(4) heuristic_view_cong [of m m' E h] by simp
  ultimately show ?thesis by (simp add: Nil)
next
  case (Cons s rest)
  have "m type_entry = Some (JStr (str_bytes ''GridCell''))" using assms(5) by (simp add: heuristic_view_def)
  then obtain db' m' where "claim_next_pending_bound E n db = Inr (Some s, db')" "doc db' = Some m'"
    "bounds_view E m' rest (cs @ [(s, n)])" "\<forall>f. f \<noteq> pending_entry \<longrightarrow> f \<noteq> claimed_entry \<longrightarrow> m' f = m f"
    using claim_next_moves [OF assms(1-4) _ assms(6) [unfolded Cons]] by blast
  moreover have "heuristic_view E m' h"
    using assms(5) calculation(4) heuristic_view_cong [of m m' E h] by simp
  ultimately show ?thesis by (simp add: Cons)
qed

lemma store_pending_view:
  assumes "hm_json E = J" and "base64_ok E" and "doc db = Some m"
    and "heuristic_view E m h" and "bounds_view E m qs cs"
    and "\<forall>s\<in>set ss. grid_shape_ok s" and "distinct (map gs_id ss)"
    and "gs_id ` set ss \<inter> gs_id ` fst ` set cs = {}"
  shows "if gs_id ` set ss \<inter> gs_id ` set qs = {}
    then \<exists>db' m'. store_pending_bounds E (map (\<lambda>s. (gs_id s, grid_shape_ser s bw_new)) ss) db = Inr db' \<and>
      doc db' = Some m' \<and> heuristic_view E m' h \<and> bounds_view E m' (qs @ ss) cs
    else store_pending_bounds E (map (\<lambda>s. (gs_id s, grid_shape_ser s bw_new)) ss) db =
      Inl (AssertFail ''This should never happen'')"
  using assms(3-8)
proof (induction ss arbitrary: db m qs)
  case (Cons s ss)
  have ok: "grid_shape_ok s" using Cons.prems by simp
  have enc: "bw_as_string_base_64 (hm_enc64 E) (grid_shape_ser s bw_new) = Inr (hm_enc64 E (grid_shape_enc s))"
    using base64_write [OF assms(2), of "grid_shape_ser s bw_new"]
    by (simp add: gridshapec.ser_enc [OF ok] bw_write_def bw_new_def)
  note ins = insert_pending_moves [OF assms(1) Cons.prems(1,3) ok]
  show ?case
  proof (cases "gs_id s \<in> gs_id ` set qs")
    case True
    then show ?thesis using ins by (auto simp: enc)
  next
    case False
    then obtain db1 m1 where i: "insert_pending_bound E
        \<lparr> pb_id = gs_id s, pb_data = hm_enc64 E (grid_shape_enc s) \<rparr> db = Inr db1"
      and d: "doc db1 = Some m1" and v: "bounds_view E m1 (qs @ [s]) cs"
      and eq: "\<forall>f. f \<noteq> pending_entry \<longrightarrow> m1 f = m f"
      using ins Cons.prems(6) by fastforce
    have "heuristic_view E m1 h" using Cons.prems(2) eq by (simp add: heuristic_view_def)
    from Cons.IH [OF d this v] Cons.prems(4-6)
    have "if gs_id ` set ss \<inter> gs_id ` set (qs @ [s]) = {}
      then \<exists>db' m'. store_pending_bounds E (map (\<lambda>s. (gs_id s, grid_shape_ser s bw_new)) ss) db1 = Inr db' \<and>
        doc db' = Some m' \<and> heuristic_view E m' h \<and> bounds_view E m' ((qs @ [s]) @ ss) cs
      else store_pending_bounds E (map (\<lambda>s. (gs_id s, grid_shape_ser s bw_new)) ss) db1 =
        Inl (AssertFail ''This should never happen'')" by auto
    moreover have "gs_id ` set ss \<inter> gs_id ` set (qs @ [s]) = {} \<longleftrightarrow>
        gs_id ` set (s # ss) \<inter> gs_id ` set qs = {}"
      using False Cons.prems(5) by auto
    ultimately show ?thesis by (auto simp: enc i split: if_splits)
  qed
qed auto

lemma claims_view:
  assumes "hm_json E = J" and "base64_ok E" and "\<forall>n\<in>set ns. owner_ok E n"
    and "doc db = Some m" and "heuristic_view E m h" and "bounds_view E m qs cs"
    and "m pending_entry \<noteq> None"
  shows "\<exists>db' m'. claim_in_turn E ns db =
      Inr (map Some (take (length ns) qs) @ replicate (length ns - length qs) None, db') \<and>
    doc db' = Some m' \<and> heuristic_view E m' h \<and> bounds_view E m' (drop (length ns) qs) (cs @ zip qs ns)"
  using assms(3-7)
proof (induction ns arbitrary: db m qs cs)
  case (Cons n ns)
  have n: "owner_ok E n" using Cons.prems by simp
  show ?case
  proof (cases qs)
    case Nil
    have "m pending_entry = Some (JArr [])"
      using Cons.prems(4,5) by (auto simp: Nil bounds_view_def holds_def)
    then obtain db1 m1 where c: "claim_next_pending_bound E n db = Inr (None, db1)" "doc db1 = Some m1"
      "bounds_view E m1 [] cs" "\<forall>f. f \<noteq> claimed_entry \<longrightarrow> m1 f = m f"
      using claim_next_empty [OF assms(1-2) Cons.prems(2) _ Cons.prems(4) [unfolded Nil]] by blast
    have "heuristic_view E m1 h" "m1 pending_entry \<noteq> None"
      using Cons.prems(3,5) c(4) by (simp_all add: heuristic_view_def)
    from Cons.IH [OF _ c(2) this(1) c(3) this(2)] Cons.prems(1)
    show ?thesis by (auto simp: Nil c(1))
  next
    case Cons': (Cons s rest)
    have "m type_entry = Some (JStr (str_bytes ''GridCell''))"
      using Cons.prems(3) by (simp add: heuristic_view_def)
    then obtain db1 m1 where c: "claim_next_pending_bound E n db = Inr (Some s, db1)" "doc db1 = Some m1"
      "bounds_view E m1 rest (cs @ [(s, n)])"
      "\<forall>f. f \<noteq> pending_entry \<longrightarrow> f \<noteq> claimed_entry \<longrightarrow> m1 f = m f"
      and p: "m1 pending_entry \<noteq> None"
      using claim_next_moves [OF assms(1-2) n Cons.prems(2) _ Cons.prems(4) [unfolded Cons']] by blast
    have "heuristic_view E m1 h" using Cons.prems(3) c(4) by (simp add: heuristic_view_def)
    from Cons.IH [OF _ c(2) this c(3) p] Cons.prems(1)
    show ?thesis by (auto simp: Cons' c(1))
  qed
qed auto

end

section \<open>Properties\<close>

text \<open>A shard that claims a bound gets the bound at the front of the pending queue; in the same
  step the bound leaves the queue and becomes claimed by that shard, no other bound changes hands, and
  no bound is lost or doubled. When nothing is pending the shard gets no bound and nothing changes.\<close>

theorem claim_moves_front_bound:
  assumes "json_store J doc" and "hm_json E = J" and "base64_ok E" and "owner_ok E n"
    and "doc db = Some m" and "heuristic_view E m h" and "bounds_view E m qs cs"
    and "m pending_entry \<noteq> None"
  shows "\<exists>db' m'. claim_next_pending_bound E n db =
      Inr (case qs of [] \<Rightarrow> None | s # _ \<Rightarrow> Some s, db') \<and>
    doc db' = Some m' \<and> heuristic_view E m' h \<and>
    bounds_view E m' (tl qs) (cs @ (case qs of [] \<Rightarrow> [] | s # _ \<Rightarrow> [(s, n)]))"
  by (rule json_store.claim_step [OF assms])

text \<open>An environment: base 64 as two printable characters for each byte.\<close>

fun demo_enc64 :: "bytes \<Rightarrow> bytes" where
  "demo_enc64 [] = []"
| "demo_enc64 (b # bs) = of_nat (48 + unat b mod 16) # of_nat (48 + unat b div 16) # demo_enc64 bs"

fun demo_dec64 :: "bytes \<Rightarrow> bytes" where
  "demo_dec64 (x # y # r) = of_nat (unat x - 48 + 16 * (unat y - 48)) # demo_dec64 r"
| "demo_dec64 _ = []"

definition demo_env :: "mem_doc hm_env" where
  "demo_env = \<lparr> hm_json = mem_json, hm_enc64 = demo_enc64, hm_dec64 = demo_dec64, hm_uuid_str = demo_printer \<rparr>"

lemma demo_base64: "base64_ok demo_env"
proof -
  have char: "unat (of_nat (48 + k) :: u8) = 48 + k" if "k < 16" for k
    using that by (simp add: unat_of_nat take_bit_nat_eq_self del: of_nat_add)
  have lt: "unat b div 16 < 16" for b :: u8
  proof -
    have "unat b < 16 * 16" by (rule order_less_le_trans [OF unsigned_less]) simp
    then show ?thesis by (rule less_mult_imp_div_less)
  qed
  have pl: "plain [of_nat (48 + k)]" if "k < 16" for k
    using that char [OF that] by (auto simp: plain_def word_le_nat_alt word_less_nat_alt word_unat_eq_iff simp del: of_nat_add)
  have "demo_dec64 (demo_enc64 bs) = bs \<and> plain (demo_enc64 bs)" for bs
  proof (induction bs)
    case (Cons b bs)
    have "of_nat (unat b mod 16 + 16 * (unat b div 16)) = b" by simp
    then show ?case
      using Cons pl [of "unat b mod 16"] pl [OF lt [of b]] char [of "unat b mod 16"] char [OF lt [of b]]
      by (simp add: plain_def del: of_nat_add of_nat_mult)
  qed (simp add: plain_def)
  moreover have "demo_enc64 bs \<noteq> []" if "bs \<noteq> []" for bs using that by (cases bs) simp_all
  ultimately show ?thesis by (simp add: base64_ok_def demo_env_def)
qed

lemma demo_owner: "owner_ok demo_env (make_id_shard nil_uuid)"
proof -
  have "nid_to_string demo_printer (make_id_shard nil_uuid) = ''eShard''"
    by (simp add: nid_to_string_eq [OF demo_printer_ok] make_id_shard_def uuid_is_nil_def nil_uuid_def
        nt_name_def nt_defs list_all_iff)
  then show ?thesis
    by (simp add: owner_ok_def demo_env_def nid_ok_def make_id_shard_def nil_uuid_def plain_def str_bytes_def)
qed

lemma demo_env_json [simp]: "hm_json demo_env = mem_json"
  by (simp add: demo_env_def)

text \<open>A document with one pending bound and no claim.\<close>

lemma demo_store:
  obtains db0 db m where "push_heuristic demo_env grid_new None = Inr db0"
    and "insert_pending_bound demo_env
      \<lparr> pb_id = 0, pb_data = demo_enc64 (grid_shape_enc grid_shape_new) \<rparr> db0 = Inr db"
    and "mem_doc_of db = Some m" and "heuristic_view demo_env m grid_new"
    and "bounds_view demo_env m [grid_shape_new] []" and "m pending_entry \<noteq> None"
proof -
  have grid: "grid_ok grid_new" "length (grid_enc grid_new) < 2 ^ 63"
    by (simp_all add: grid_ok_def grid_new_def grid_enc_def be_enc_def)
  obtain db0 m0 where p: "push_heuristic demo_env grid_new None = Inr db0" "mem_doc_of db0 = Some m0"
    "heuristic_view demo_env m0 grid_new"
    "\<forall>f. f \<noteq> type_entry \<longrightarrow> f \<noteq> data64_entry \<longrightarrow> m0 f = None"
    using memjson.push_stores [OF demo_env_json demo_base64 grid, of None] by (auto simp: mem_doc_of_def)
  have v0: "bounds_view demo_env m0 [] []" using p(4) by (simp add: bounds_view_def holds_def)
  have ok: "grid_shape_ok grid_shape_new" by (simp add: grid_shape_ok_def grid_shape_new_def aabb_wf_def aabb_new_def)
  obtain db m where i: "insert_pending_bound demo_env
      \<lparr> pb_id = 0, pb_data = demo_enc64 (grid_shape_enc grid_shape_new) \<rparr> db0 = Inr db"
    "mem_doc_of db = Some m" "bounds_view demo_env m [grid_shape_new] []"
    "\<forall>f. f \<noteq> pending_entry \<longrightarrow> m f = m0 f"
    using memjson.insert_pending_moves [OF demo_env_json p(2) v0 ok]
    by (auto simp: grid_shape_new_def demo_env_def)
  have "heuristic_view demo_env m grid_new" using p(3) i(4) by (simp add: heuristic_view_def)
  moreover have "m pending_entry \<noteq> None" using i(3) by (auto simp: bounds_view_def holds_def)
  ultimately show ?thesis using that p(1) i(1-3) by blast
qed

theorem claim_moves_front_bound_witness:
  "\<exists>db0 db db'. push_heuristic demo_env grid_new None = Inr db0 \<and>
    insert_pending_bound demo_env \<lparr> pb_id = 0, pb_data = demo_enc64 (grid_shape_enc grid_shape_new) \<rparr> db0 = Inr db \<and>
    claim_next_pending_bound demo_env (make_id_shard nil_uuid) db = Inr (Some grid_shape_new, db')"
proof -
  obtain db0 db m where *: "push_heuristic demo_env grid_new None = Inr db0"
    "insert_pending_bound demo_env \<lparr> pb_id = 0, pb_data = demo_enc64 (grid_shape_enc grid_shape_new) \<rparr> db0 = Inr db"
    "mem_doc_of db = Some m" "heuristic_view demo_env m grid_new"
    "bounds_view demo_env m [grid_shape_new] []" "m pending_entry \<noteq> None" by (rule demo_store)
  from claim_moves_front_bound [OF memjson.json_store_axioms demo_env_json demo_base64 demo_owner *(3-6)]
  show ?thesis using *(1,2) by auto
qed

text \<open>Asked for the owner of a bound, the manifest names exactly the shard that claimed it, and none
  for a bound that is pending or unknown; asked for the bound of a shard, it names the bound the shard
  claimed, and fails an assertion for a shard that claimed more than one.\<close>

theorem claimed_bound_queries:
  assumes "json_store J doc" and "hm_json E = J" and "base64_ok E" and "doc db = Some m"
    and "bounds_view E m qs cs" and "nid_ok n" and "nid_type n = nt_shard"
  shows "((s, n) \<in> set cs \<longrightarrow> shard_from_bound_id E (gs_id s) db = Inr (Some n)) \<and>
    (i \<notin> gs_id ` fst ` set cs \<longrightarrow> shard_from_bound_id E i db = Inr None) \<and>
    bound_id_from_shard E n db =
      (case filter (\<lambda>c. snd c = n) cs of
         [] \<Rightarrow> Inr None
       | [c] \<Rightarrow> Inr (Some (gs_id (fst c)))
       | _ \<Rightarrow> Inl (AssertFail ''This should never occur''))"
proof -
  have d: "distinct (map gs_id (map fst cs))" using assms(5) by (auto simp: bounds_view_def)
  have "find (\<lambda>c. gs_id (fst c) = gs_id s) cs = Some (s, n)" if "(s, n) \<in> set cs"
    using distinct_filter_id [OF d, of "gs_id s"] filter_one_id [OF d that] by (auto split: option.splits)
  moreover have "find (\<lambda>c. gs_id (fst c) = i) cs = None" if "i \<notin> gs_id ` fst ` set cs"
    using that by (force simp: find_None_iff image_iff)
  ultimately show ?thesis
    using json_store.shard_lookup [OF assms(1-5)] json_store.bound_lookup [OF assms] by simp
qed

theorem claimed_bound_queries_witness:
  "\<exists>db0 db. push_heuristic demo_env grid_new None = Inr db0 \<and>
    insert_pending_bound demo_env \<lparr> pb_id = 0, pb_data = demo_enc64 (grid_shape_enc grid_shape_new) \<rparr> db0 = Inr db \<and>
    shard_from_bound_id demo_env 0 db = Inr None \<and>
    bound_id_from_shard demo_env (make_id_shard nil_uuid) db = Inr None"
proof -
  obtain db0 db m where *: "push_heuristic demo_env grid_new None = Inr db0"
    "insert_pending_bound demo_env \<lparr> pb_id = 0, pb_data = demo_enc64 (grid_shape_enc grid_shape_new) \<rparr> db0 = Inr db"
    "mem_doc_of db = Some m" "heuristic_view demo_env m grid_new"
    "bounds_view demo_env m [grid_shape_new] []" "m pending_entry \<noteq> None" by (rule demo_store)
  have "nid_ok (make_id_shard nil_uuid)" "nid_type (make_id_shard nil_uuid) = nt_shard"
    using demo_owner by (simp_all add: owner_ok_def make_id_shard_def)
  from claimed_bound_queries [OF memjson.json_store_axioms demo_env_json demo_base64 *(3,5) this]
  show ?thesis using *(1,2) by auto
qed

text \<open>The watchdog's grid comes back from the manifest with its cells; whatever was stored under
  the manifest before, pushing a grid leaves the bounds untouched.\<close>

theorem heuristic_push_pull:
  assumes "json_store J doc" and "hm_json E = J" and "base64_ok E" and "grid_ok h"
    and "length (grid_enc h) < 2 ^ 63"
  shows "\<exists>db' m'. push_heuristic E h db = Inr db' \<and> doc db' = Some m' \<and>
    get_active_heuristic_type E db' = Inr HGridCell \<and>
    pull_heuristic E db' = Inr (grid_new \<lparr> gh_quads := gh_quads h \<rparr>) \<and>
    (\<forall>m qs cs. doc db = Some m \<longrightarrow> bounds_view E m' qs cs = bounds_view E m qs cs)"
proof -
  obtain db' m' where *: "push_heuristic E h db = Inr db'" "doc db' = Some m'" "heuristic_view E m' h"
    "\<forall>f. f \<noteq> type_entry \<longrightarrow> f \<noteq> data64_entry \<longrightarrow> m' f = (case doc db of None \<Rightarrow> None | Some m \<Rightarrow> m f)"
    using json_store.push_stores [OF assms] by blast
  have "m' type_entry = Some (JStr (str_bytes (type_to_string HGridCell)))"
    using *(3) by (simp add: heuristic_view_def)
  then have "get_active_heuristic_type E db' = Inr HGridCell"
    by (rule json_store.active_type [OF assms(1,2) *(2)])
  moreover have "pull_heuristic E db' = Inr (grid_new \<lparr> gh_quads := gh_quads h \<rparr>)"
    by (rule json_store.pull_reads [OF assms(1-3) *(2,3)])
  moreover have "bounds_view E m' qs cs = bounds_view E m qs cs" if "doc db = Some m" for m qs cs
    using *(4) that by (intro bounds_view_cong) simp_all
  ultimately show ?thesis using * by blast
qed

theorem heuristic_push_pull_witness:
  "\<exists>db'. push_heuristic demo_env grid_new None = Inr db' \<and> pull_heuristic demo_env db' = Inr grid_new"
proof -
  have grid: "grid_ok grid_new" "length (grid_enc grid_new) < 2 ^ 63"
    by (simp_all add: grid_ok_def grid_new_def grid_enc_def be_enc_def)
  from heuristic_push_pull [OF memjson.json_store_axioms demo_env_json demo_base64 grid, of None]
  show ?thesis by (auto simp: grid_new_def)
qed

text \<open>Storing bounds appends each to the pending queue in turn, unless one with its id is
  pending already: then an assertion fails.\<close>

theorem store_pending_appends:
  assumes "json_store J doc" and "hm_json E = J" and "base64_ok E" and "doc db = Some m"
    and "heuristic_view E m h" and "bounds_view E m qs cs"
    and "\<forall>s\<in>set ss. grid_shape_ok s" and "distinct (map gs_id ss)"
    and "gs_id ` set ss \<inter> gs_id ` fst ` set cs = {}"
  shows "if gs_id ` set ss \<inter> gs_id ` set qs = {}
    then \<exists>db' m'. store_pending_bounds E (map (\<lambda>s. (gs_id s, grid_shape_ser s bw_new)) ss) db = Inr db' \<and>
      doc db' = Some m' \<and> heuristic_view E m' h \<and> bounds_view E m' (qs @ ss) cs
    else store_pending_bounds E (map (\<lambda>s. (gs_id s, grid_shape_ser s bw_new)) ss) db =
      Inl (AssertFail ''This should never happen'')"
  by (rule json_store.store_pending_view [OF assms])

theorem store_pending_appends_witness:
  "\<exists>db0 db. push_heuristic demo_env grid_new None = Inr db0 \<and>
    insert_pending_bound demo_env \<lparr> pb_id = 0, pb_data = demo_enc64 (grid_shape_enc grid_shape_new) \<rparr> db0 = Inr db \<and>
    store_pending_bounds demo_env [(0, grid_shape_ser grid_shape_new bw_new)] db =
      Inl (AssertFail ''This should never happen'')"
proof -
  obtain db0 db m where *: "push_heuristic demo_env grid_new None = Inr db0"
    "insert_pending_bound demo_env \<lparr> pb_id = 0, pb_data = demo_enc64 (grid_shape_enc grid_shape_new) \<rparr> db0 = Inr db"
    "mem_doc_of db = Some m" "heuristic_view demo_env m grid_new"
    "bounds_view demo_env m [grid_shape_new] []" "m pending_entry \<noteq> None" by (rule demo_store)
  have "grid_shape_ok grid_shape_new" by (simp add: grid_shape_ok_def grid_shape_new_def aabb_wf_def aabb_new_def)
  then show ?thesis
    using store_pending_appends [OF memjson.json_store_axioms demo_env_json demo_base64 *(3-5), of "[grid_shape_new]"]
      *(1,2) by (auto simp: grid_shape_new_def)
qed

text \<open>Both counts of the manifest are zero and both readers are empty, however many bounds are
  pending or claimed.\<close>

theorem counts_always_zero:
  assumes "json_store J doc" and "hm_json E = J" and "doc db = Some m" and "bounds_view E m qs cs"
  shows "get_pending_bounds_count E db = Inr 0 \<and> get_claimed_bounds_count E db = Inr 0 \<and>
    get_pending_bounds_as_readers E db = Inr (\<lambda>_. None) \<and> get_claimed_bounds_as_readers E db = Inr []"
  using json_store.manifest_object_none [OF assms]
  by (simp add: get_pending_bounds_count_def get_claimed_bounds_count_def
      get_pending_bounds_as_readers_def get_claimed_bounds_as_readers_def)

theorem counts_always_zero_witness:
  "\<exists>db0 db. push_heuristic demo_env grid_new None = Inr db0 \<and>
    insert_pending_bound demo_env \<lparr> pb_id = 0, pb_data = demo_enc64 (grid_shape_enc grid_shape_new) \<rparr> db0 = Inr db \<and>
    get_pending_bounds_count demo_env db = Inr 0"
proof -
  obtain db0 db m where *: "push_heuristic demo_env grid_new None = Inr db0"
    "insert_pending_bound demo_env \<lparr> pb_id = 0, pb_data = demo_enc64 (grid_shape_enc grid_shape_new) \<rparr> db0 = Inr db"
    "mem_doc_of db = Some m" "heuristic_view demo_env m grid_new"
    "bounds_view demo_env m [grid_shape_new] []" "m pending_entry \<noteq> None" by (rule demo_store)
  from counts_always_zero [OF memjson.json_store_axioms demo_env_json *(3,5)]
  show ?thesis using *(1,2) by auto
qed

text \<open>C11: the shard responsible for a position is the owner of the cell of the watchdog's grid that
  contains it, none while that cell is unclaimed; a position outside the grid makes the lookup
  dereference a null pointer.\<close>

theorem shard_of_position:
  assumes "json_store J doc" and "hm_json E = J" and "base64_ok E" and "doc db = Some m"
    and "heuristic_view E m h" and "bounds_view E m qs cs"
  shows "shard_from_position E t db =
    (case grid_query_position h (tr_position t) of
       None \<Rightarrow> Inl (UB Null_Deref)
     | Some s \<Rightarrow> Inr (map_option snd (find (\<lambda>c. gs_id (fst c) = gs_id s) cs)))"
proof -
  have "grid_query_position (grid_new \<lparr> gh_quads := gh_quads h \<rparr>) (tr_position t) =
      grid_query_position h (tr_position t)"
    by (simp add: grid_query_position_def)
  then show ?thesis
    using json_store.pull_reads [OF assms(1-5)] json_store.shard_lookup [OF assms(1-4,6)]
    by (simp add: shard_from_position_def split: option.split)
qed

theorem shard_of_position_witness:
  "\<exists>db0 db. push_heuristic demo_env grid_new None = Inr db0 \<and>
    insert_pending_bound demo_env \<lparr> pb_id = 0, pb_data = demo_enc64 (grid_shape_enc grid_shape_new) \<rparr> db0 = Inr db \<and>
    shard_from_position demo_env
      \<lparr> tr_world = 0, tr_position = \<lparr> vx = 0, vy = 0, vz = 0 \<rparr>, tr_bounding_box = aabb_new 3 \<rparr> db =
      Inl (UB Null_Deref)"
proof -
  obtain db0 db m where *: "push_heuristic demo_env grid_new None = Inr db0"
    "insert_pending_bound demo_env \<lparr> pb_id = 0, pb_data = demo_enc64 (grid_shape_enc grid_shape_new) \<rparr> db0 = Inr db"
    "mem_doc_of db = Some m" "heuristic_view demo_env m grid_new"
    "bounds_view demo_env m [grid_shape_new] []" "m pending_entry \<noteq> None" by (rule demo_store)
  from shard_of_position [OF memjson.json_store_axioms demo_env_json demo_base64 *(3-5)]
  show ?thesis using *(1,2) by (auto simp: grid_query_position_def grid_new_def)
qed

text \<open>C3: whatever the order in which shards claim, the bounds are handed out in queue order, one to
  each claim, until none is left: no bound goes to two shards, and a shard that comes too late gets
  none.\<close>

theorem claims_hand_out_bounds:
  assumes "json_store J doc" and "hm_json E = J" and "base64_ok E" and "\<forall>n\<in>set ns. owner_ok E n"
    and "doc db = Some m" and "heuristic_view E m h" and "bounds_view E m qs cs"
    and "m pending_entry \<noteq> None"
  shows "\<exists>db' m'. claim_in_turn E ns db =
      Inr (map Some (take (length ns) qs) @ replicate (length ns - length qs) None, db') \<and>
    doc db' = Some m' \<and> bounds_view E m' (drop (length ns) qs) (cs @ zip qs ns)"
  using json_store.claims_view [OF assms] by blast

theorem claims_hand_out_bounds_witness:
  "\<exists>db0 db db'. push_heuristic demo_env grid_new None = Inr db0 \<and>
    insert_pending_bound demo_env \<lparr> pb_id = 0, pb_data = demo_enc64 (grid_shape_enc grid_shape_new) \<rparr> db0 = Inr db \<and>
    claim_in_turn demo_env [make_id_shard nil_uuid, make_id_shard nil_uuid] db = Inr ([Some grid_shape_new, None], db')"
proof -
  obtain db0 db m where *: "push_heuristic demo_env grid_new None = Inr db0"
    "insert_pending_bound demo_env \<lparr> pb_id = 0, pb_data = demo_enc64 (grid_shape_enc grid_shape_new) \<rparr> db0 = Inr db"
    "mem_doc_of db = Some m" "heuristic_view demo_env m grid_new"
    "bounds_view demo_env m [grid_shape_new] []" "m pending_entry \<noteq> None" by (rule demo_store)
  have "\<forall>n\<in>set [make_id_shard nil_uuid, make_id_shard nil_uuid]. owner_ok demo_env n" using demo_owner by simp
  from claims_hand_out_bounds [OF memjson.json_store_axioms demo_env_json demo_base64 this *(3-6)]
  show ?thesis using *(1,2) by auto
qed

end
