(* ===== verification/Server_Registry.thy ===== *)
theory Server_Registry
  imports Health_Manifest Identity_Equality
begin

text \<open>
  The registry of the servers (\<open>Interlink/Database/ServerRegistry\<close>): the internal and the public
  address of every node, kept in two hashes of the database under the node's serialized identity.
\<close>

section \<open>Operations\<close>

definition table_id_ip :: string where
  "table_id_ip = ''Server Registry ID_IP''"

definition table_public :: string where
  "table_public = table_id_ip @ ''_public''"

definition ip_text :: "'a steam_ops \<Rightarrow> 'a \<Rightarrow> bytes" where
  "ip_text S a = str_bytes (nuke_string (ip_to_string S a True))"

definition register_self ::
  "'a steam_ops \<Rightarrow> 'db redis_connection \<Rightarrow> network_identity \<Rightarrow> 'a \<Rightarrow> 'db \<Rightarrow> 'db" where
  "register_self S C n a db = snd (db_hset C table_id_ip (nid_key n) (ip_text S a) db)"

definition register_public_address ::
  "'a steam_ops \<Rightarrow> 'db redis_connection \<Rightarrow> network_identity \<Rightarrow> 'a \<Rightarrow> 'db \<Rightarrow> 'db" where
  "register_public_address S C n a db = snd (db_hset C table_public (nid_key n) (ip_text S a) db)"

definition deregister_self :: "'db redis_connection \<Rightarrow> network_identity \<Rightarrow> 'db \<Rightarrow> 'db" where
  "deregister_self C n db =
    (let db = snd (db_hdel C table_id_ip [nid_key n] db)
     in snd (db_hdel C table_public [nid_key n] db))"

definition get_ip_of_id ::
  "'a steam_ops \<Rightarrow> 'db redis_connection \<Rightarrow> network_identity \<Rightarrow> 'db \<Rightarrow> 'a option" where
  "get_ip_of_id S C n db =
    (case db_hget C table_id_ip (nid_key n) db of
       None \<Rightarrow> None
     | Some ret \<Rightarrow> if ret = [] then None else Some (ip_parse S (bytes_str ret) (ip_new S)))"

definition get_public_address ::
  "'a steam_ops \<Rightarrow> 'db redis_connection \<Rightarrow> network_identity \<Rightarrow> 'db \<Rightarrow> 'a option" where
  "get_public_address S C n db =
    (case db_hget C table_public (nid_key n) db of
       None \<Rightarrow> None
     | Some ret \<Rightarrow> if ret = [] then None else Some (ip_parse S (bytes_str ret) (ip_new S)))"

definition exists_in_registry :: "'db redis_connection \<Rightarrow> network_identity \<Rightarrow> 'db \<Rightarrow> bool" where
  "exists_in_registry C n db = db_hexists C table_id_ip (nid_key n) db"

definition clear_all :: "'db redis_connection \<Rightarrow> 'db \<Rightarrow> 'db" where
  "clear_all C db = (let db = snd (db_del_key C table_id_ip db) in snd (db_del_key C table_public db))"

text \<open>The loop of \<open>GetServers\<close>: \<open>servers\<close> is a hash map whose keys are compared with
  \<open>operator==\<close>; here it lists its entries in the order of insertion.\<close>

fun get_servers_loop ::
  "'a steam_ops \<Rightarrow> (bytes \<Rightarrow> string) \<Rightarrow> (bytes \<times> bytes) list \<Rightarrow> (network_identity \<times> 'a) list \<Rightarrow>
   (network_identity \<times> 'a) list res" where
  "get_servers_loop S uuid_str [] servers = Inr servers"
| "get_servers_loop S uuid_str ((field, value) # entries) servers =
    bindE (nid_des (br_new field)) (\<lambda>(n, _).
      let addr = ip_parse S (bytes_str value) (ip_new S)
      in if nid_type n = nt_invalid then Inl (AssertFail ''Invalid entry in server ServerRegistry'')
         else if \<exists>e\<in>set servers. nid_eq uuid_str (fst e) n
              then Inl (AssertFail ''Duplicate entry in server ServerRegistry?'')
         else get_servers_loop S uuid_str entries (servers @ [(n, addr)]))"

definition get_servers ::
  "'a steam_ops \<Rightarrow> (bytes \<Rightarrow> string) \<Rightarrow> 'db redis_connection \<Rightarrow> 'db \<Rightarrow> (network_identity \<times> 'a) list res" where
  "get_servers S uuid_str C db = get_servers_loop S uuid_str (db_hgetall C table_id_ip db) []"

section \<open>Lemmas\<close>

text \<open>What the registry relies on from the address printer and parser of the socket library: an
  address can be read back from its trimmed print, which is not empty.\<close>

definition ip_text_ok :: "'a steam_ops \<Rightarrow> 'a \<Rightarrow> bool" where
  "ip_text_ok S a \<longleftrightarrow> ip_text S a \<noteq> [] \<and>
    sa_parse S (nuke_string (sa_to_string S a True)) (sa_clear S) = a"

lemma ip_parse_text: "ip_text_ok S a \<Longrightarrow> ip_parse S (bytes_str (ip_text S a)) (ip_new S) = a"
  by (simp add: ip_text_ok_def ip_text_def ip_parse_def ip_new_def ip_to_string_def)

lemma tables_differ [simp]: "table_public \<noteq> table_id_ip" "table_id_ip \<noteq> table_public"
  by (simp_all add: table_public_def table_id_ip_def)

text \<open>A row of the registry table that \<open>GetServers\<close> accepts, and what it reads from it.\<close>

definition registry_row :: "'a steam_ops \<Rightarrow> bytes \<times> bytes \<Rightarrow> network_identity \<times> 'a \<Rightarrow> bool" where
  "registry_row S row e \<longleftrightarrow> nid_ok (fst e) \<and> nt_known (nid_type (fst e)) \<and>
    nid_type (fst e) \<noteq> nt_invalid \<and> ip_text_ok S (snd e) \<and>
    row = (nid_key (fst e), ip_text S (snd e))"

lemma nid_eq_known:
  "uuid_printer f \<Longrightarrow> nid_ok a \<Longrightarrow> nid_ok b \<Longrightarrow> nt_known (nid_type a) \<Longrightarrow> nid_eq f a b \<longleftrightarrow> a = b"
  by (auto simp: nid_eq_iff intro: network_identity.equality)

lemma get_servers_loop_rows:
  assumes "uuid_printer f" and "list_all2 (registry_row S) rows es"
    and "distinct (map fst servers @ map fst es)"
    and "list_all (\<lambda>e. nid_ok (fst e) \<and> nt_known (nid_type (fst e))) servers"
  shows "get_servers_loop S f rows servers = Inr (servers @ es)"
  using assms(2-)
proof (induction rows es arbitrary: servers rule: list_all2_induct)
  case Nil
  then show ?case by simp
next
  case (Cons row rows e es)
  have row: "nid_ok (fst e)" "nt_known (nid_type (fst e))" "nid_type (fst e) \<noteq> nt_invalid"
    "ip_text_ok S (snd e)" "row = (nid_key (fst e), ip_text S (snd e))"
    using Cons.hyps(1) by (simp_all add: registry_row_def)
  obtain r where r: "nid_des (br_new (nid_key (fst e))) = Inr (fst e, r)"
    using nid_key_des [OF row(1)] .
  have "\<not> nid_eq f (fst x) (fst e)" if "x \<in> set servers" for x
  proof -
    have "nid_ok (fst x)" "nt_known (nid_type (fst x))"
      using Cons.prems(2) that by (simp_all add: list_all_iff)
    moreover have "fst x \<noteq> fst e" using Cons.prems(1) imageI [OF that, of fst] by (simp del: image_eqI) metis
    ultimately show ?thesis using nid_eq_known [OF assms(1) _ row(1)] by blast
  qed
  then have new: "\<not> (\<exists>x\<in>set servers. nid_eq f (fst x) (fst e))" by blast
  have "get_servers_loop S f rows (servers @ [e]) = Inr ((servers @ [e]) @ es)"
    using Cons.prems row(1,2) by (intro Cons.IH) simp_all
  then show ?case
    using new row(3) by (simp add: row(5) r ip_parse_text [OF row(4)])
qed

lemma registry_row_unique:
  assumes "registry_row S row e" and "registry_row S row e'"
  shows "e = e'"
proof -
  have "fst e = fst e'" using assms nid_key_inject [of "fst e" "fst e'"] by (simp add: registry_row_def)
  moreover have "snd e = snd e'"
  proof -
    have ok: "ip_text_ok S (snd e)" "ip_text_ok S (snd e')" and "ip_text S (snd e) = ip_text S (snd e')"
      using assms by (auto simp: registry_row_def)
    then show ?thesis using ip_parse_text [OF ok(1)] ip_parse_text [OF ok(2)] by argo
  qed
  ultimately show ?thesis by (rule prod_eqI)
qed

text \<open>The operations as changes of the two tables.\<close>

context redis
begin

lemma registry_contents:
  assumes "with_sync C = R" and "hash_key table_id_ip" and "hash_key table_public"
  shows "hash_of (register_self S C n a db) =
      (hash_of db)(table_id_ip := (hash_of db table_id_ip)(nid_key n \<mapsto> ip_text S a))"
    and "hash_of (register_public_address S C n a db) =
      (hash_of db)(table_public := (hash_of db table_public)(nid_key n \<mapsto> ip_text S a))"
    and "hash_of (deregister_self C n db) =
      (hash_of db)(table_id_ip := (hash_of db table_id_ip)(nid_key n := None),
        table_public := (hash_of db table_public)(nid_key n := None))"
    and "hash_of (clear_all C db) = (hash_of db)(table_id_ip := (\<lambda>_. None), table_public := (\<lambda>_. None))"
  using assms
  by (simp_all add: register_self_def register_public_address_def deregister_self_def clear_all_def
      db_hset_def db_hdel_def db_del_key_def Let_def hset_contents hdel_contents del_contents
      restrict_complement_singleton_eq)

lemma registry_reads:
  assumes "with_sync C = R" and "hash_key table_id_ip" and "hash_key table_public"
  shows "get_ip_of_id S C n db = (case hash_of db table_id_ip (nid_key n) of None \<Rightarrow> None
      | Some ret \<Rightarrow> if ret = [] then None else Some (ip_parse S (bytes_str ret) (ip_new S)))"
    and "get_public_address S C n db = (case hash_of db table_public (nid_key n) of None \<Rightarrow> None
      | Some ret \<Rightarrow> if ret = [] then None else Some (ip_parse S (bytes_str ret) (ip_new S)))"
    and "exists_in_registry C n db \<longleftrightarrow> hash_of db table_id_ip (nid_key n) \<noteq> None"
  using assms
  by (simp_all add: get_ip_of_id_def get_public_address_def exists_in_registry_def db_hget_def
      db_hexists_def hget hexists)

lemma get_servers_contents:
  assumes "with_sync C = R" and "hash_key table_id_ip" and "uuid_printer f"
    and "\<forall>k v. hash_of db table_id_ip k = Some v \<longrightarrow> (\<exists>e. registry_row S (k, v) e)"
  shows "\<exists>es. get_servers S f C db = Inr es \<and> distinct (map fst es) \<and>
    (\<forall>n a. (n, a) \<in> set es \<longleftrightarrow>
      registry_row S (nid_key n, ip_text S a) (n, a) \<and>
      hash_of db table_id_ip (nid_key n) = Some (ip_text S a))"
proof -
  let ?all = "op_hgetall R table_id_ip db"
  have "\<forall>x\<in>set ?all. \<exists>e. registry_row S x e"
    using assms(4) hgetall_mem [OF assms(2)] by auto
  then obtain g where g: "\<And>x. x \<in> set ?all \<Longrightarrow> registry_row S x (g x)" by metis
  then have rows: "list_all2 (registry_row S) ?all (map g ?all)"
    by (simp add: list_all2_map2 list.rel_refl_strong)
  have keys: "map fst ?all = map (\<lambda>x. nid_key (fst (g x))) ?all"
    using g by (auto simp: registry_row_def split: prod.splits)
  have "distinct (map fst ?all)" using hgetall [OF assms(2)] by blast
  then have "distinct (map nid_key (map fst (map g ?all)))" unfolding keys by (simp add: comp_def)
  then have dist: "distinct (map fst (map g ?all))" unfolding distinct_map by blast
  have "get_servers S f C db = Inr (map g ?all)"
    using get_servers_loop_rows [OF assms(3) rows, of "[]"] dist
    by (simp add: get_servers_def db_hgetall_def assms(1))
  moreover have "(n, a) \<in> set (map g ?all) \<longleftrightarrow>
      registry_row S (nid_key n, ip_text S a) (n, a) \<and>
      hash_of db table_id_ip (nid_key n) = Some (ip_text S a)" for n a
  proof
    assume "(n, a) \<in> set (map g ?all)"
    then obtain x where x: "x \<in> set ?all" "g x = (n, a)" by auto
    with g [OF x(1)] have "registry_row S x (n, a)" by simp
    then have "x = (nid_key n, ip_text S a)" by (simp add: registry_row_def)
    with x \<open>registry_row S x (n, a)\<close> show "registry_row S (nid_key n, ip_text S a) (n, a) \<and>
      hash_of db table_id_ip (nid_key n) = Some (ip_text S a)"
      using hgetall_mem [OF assms(2)] by auto
  next
    assume h: "registry_row S (nid_key n, ip_text S a) (n, a) \<and>
      hash_of db table_id_ip (nid_key n) = Some (ip_text S a)"
    then have x: "(nid_key n, ip_text S a) \<in> set ?all" by (simp add: hgetall_mem [OF assms(2)])
    have "registry_row S (nid_key n, ip_text S a) (g (nid_key n, ip_text S a))" by (rule g [OF x])
    from registry_row_unique [OF this] h have "g (nid_key n, ip_text S a) = (n, a)" by blast
    with x show "(n, a) \<in> set (map g ?all)" by force
  qed
  ultimately show ?thesis using dist by metis
qed

end

section \<open>Properties\<close>

text \<open>A registered server is found under its identity with the address it registered, a lookup
  of any other identity is unaffected, and the public addresses are a separate table.\<close>

theorem registry_lookup:
  assumes "redis R hash_key hash_of set_of" and "with_sync C = R"
    and "hash_key table_id_ip" and "hash_key table_public"
    and "nid_ok n" and "nid_ok m" and "ip_text_ok S a"
  shows "get_ip_of_id S C m (register_self S C n a db) =
      (if m = n then Some a else get_ip_of_id S C m db) \<and>
    exists_in_registry C m (register_self S C n a db) = (m = n \<or> exists_in_registry C m db) \<and>
    get_public_address S C m (register_self S C n a db) = get_public_address S C m db \<and>
    get_public_address S C m (register_public_address S C n a db) =
      (if m = n then Some a else get_public_address S C m db)"
  using assms(7) ip_parse_text [OF assms(7)] nid_key_inject [OF assms(6,5)]
  by (simp add: redis.registry_reads [OF assms(1-4)] redis.registry_contents [OF assms(1-4)] ip_text_ok_def)

text \<open>An instance of the socket library's addresses: a port number, printed in unary.\<close>

definition demo_steam :: "nat steam_ops" where
  "demo_steam = \<lparr> sa_clear = 0, sa_is_ipv4 = (\<lambda>_. True), sa_get_ipv4 = (\<lambda>_. 0), sa_port = of_nat,
     sa_set_ipv4 = (\<lambda>_ p. unat p), sa_is_localhost = (\<lambda>_. True),
     sa_to_string = (\<lambda>a _. replicate (a + 1) (CHR ''x'') @ [CHR 0x00]),
     sa_parse = (\<lambda>s _. length s - 1) \<rparr>"

lemma demo_steam_ok: "ip_text_ok demo_steam 2"
  by (simp add: ip_text_ok_def ip_text_def demo_steam_def ip_to_string_def nuke_string_def
      nuke_keep_def is_space_def numeral_eq_Suc str_bytes_def)

theorem registry_lookup_witness:
  "get_ip_of_id demo_steam mem_connection make_id_watchdog
    (register_self demo_steam mem_connection make_id_watchdog 2 mem_empty) = Some 2"
  using registry_lookup [OF memredis.redis_axioms [of "\<lambda>_. True"] with_sync_mem TrueI TrueI,
      of make_id_watchdog make_id_watchdog demo_steam 2 mem_empty] demo_steam_ok
  by (simp add: nid_ok_def make_id_watchdog_def nil_uuid_def)

text \<open>Deregistering a server removes it from both tables and no other server from either; clearing
  the registry removes every server from both.\<close>

theorem registry_removal:
  assumes "redis R hash_key hash_of set_of" and "with_sync C = R"
    and "hash_key table_id_ip" and "hash_key table_public" and "nid_ok n" and "nid_ok m"
  shows "get_ip_of_id S C m (deregister_self C n db) = (if m = n then None else get_ip_of_id S C m db) \<and>
    get_public_address S C m (deregister_self C n db) =
      (if m = n then None else get_public_address S C m db) \<and>
    exists_in_registry C m (deregister_self C n db) = (m \<noteq> n \<and> exists_in_registry C m db) \<and>
    get_ip_of_id S C m (clear_all C db) = None \<and> get_public_address S C m (clear_all C db) = None"
  using nid_key_inject [OF assms(6,5)]
  by (simp add: redis.registry_reads [OF assms(1-4)] redis.registry_contents [OF assms(1-4)])

theorem registry_removal_witness:
  "get_ip_of_id demo_steam mem_connection make_id_watchdog (deregister_self mem_connection make_id_watchdog
    (register_self demo_steam mem_connection make_id_watchdog 2 mem_empty)) = None"
  using registry_removal [OF memredis.redis_axioms [of "\<lambda>_. True"] with_sync_mem TrueI TrueI,
      of make_id_watchdog make_id_watchdog demo_steam]
  by (simp add: nid_ok_def make_id_watchdog_def nil_uuid_def)

text \<open>Listing the servers of a registry written by the nodes fails no assertion and yields every
  registered server exactly once, with the address it registered.\<close>

theorem registry_listing:
  assumes "redis R hash_key hash_of set_of" and "with_sync C = R" and "hash_key table_id_ip"
    and "uuid_printer uuid_str"
    and "\<forall>k v. hash_of db table_id_ip k = Some v \<longrightarrow> (\<exists>e. registry_row S (k, v) e)"
  shows "\<exists>es. get_servers S uuid_str C db = Inr es \<and> distinct (map fst es) \<and>
    (\<forall>n a. (n, a) \<in> set es \<longleftrightarrow> registry_row S (nid_key n, ip_text S a) (n, a) \<and>
      hash_of db table_id_ip (nid_key n) = Some (ip_text S a))"
  using assms by (rule redis.get_servers_contents)

theorem registry_listing_witness:
  "\<exists>es. get_servers demo_steam demo_printer mem_connection
     (register_self demo_steam mem_connection make_id_watchdog 2 mem_empty) = Inr es \<and>
     (make_id_watchdog, 2) \<in> set es"
proof -
  let ?db = "register_self demo_steam mem_connection make_id_watchdog 2 mem_empty"
  have ax: "redis mem_redis (\<lambda>_. True) mem_hash mem_set" by (rule memredis.redis_axioms)
  have row: "registry_row demo_steam (nid_key make_id_watchdog, ip_text demo_steam 2) (make_id_watchdog, 2)"
    using demo_steam_ok
    by (simp add: registry_row_def nid_ok_def make_id_watchdog_def nil_uuid_def nt_known_def nt_defs)
  have t: "mem_hash ?db table_id_ip = [nid_key make_id_watchdog \<mapsto> ip_text demo_steam 2]"
    by (simp add: redis.registry_contents(1) [OF ax with_sync_mem] mem_hash_def mem_empty_def)
  have "\<forall>k v. mem_hash ?db table_id_ip k = Some v \<longrightarrow> (\<exists>e. registry_row demo_steam (k, v) e)"
    unfolding t using row by auto
  from registry_listing [OF ax with_sync_mem TrueI demo_printer_ok this]
  show ?thesis using row by (auto simp: t)
qed

end
