(* ===== verification/Client_Manifest.thy ===== *)
theory Client_Manifest
  imports Server_Registry
begin

text \<open>
  The clients known to the cluster (\<open>Client/ClientManifest\<close>): the address and the proxy of every
  client, and the set of the clients that have a proxy.
\<close>

section \<open>Operations\<close>

definition client_ip_table :: string where
  "client_ip_table = ''ClientID to IP''"

definition client_proxy_table :: string where
  "client_proxy_table = ''ClientID to ProxyID''"

text \<open>The name is used as it stands, for every proxy.\<close>

definition proxy_clients_set :: string where
  "proxy_clients_set = ''Proxy_{}_Clients''"

definition uuid_key :: "bytes \<Rightarrow> bytes" where
  "uuid_key c = bw_bytes (bw_uuid c bw_new)"

definition client_set_ip ::
  "'a steam_ops \<Rightarrow> 'db redis_connection \<Rightarrow> bytes \<Rightarrow> 'a \<Rightarrow> 'db \<Rightarrow> 'db res" where
  "client_set_ip S C c address db =
    bindE (ip_ser S address bw_new) (\<lambda>w.
      Inr (snd (db_hset C client_ip_table (uuid_key c) (bw_bytes w) db)))"

definition register_client ::
  "'a steam_ops \<Rightarrow> 'db redis_connection \<Rightarrow> 'a client \<Rightarrow> 'db \<Rightarrow> 'db res" where
  "register_client S C c db = client_set_ip S C (cl_id c) (cl_ip c) db"

definition client_set_proxy ::
  "'db redis_connection \<Rightarrow> bytes \<Rightarrow> network_identity \<Rightarrow> 'db \<Rightarrow> 'db" where
  "client_set_proxy C c proxy db = snd (db_hset C client_proxy_table (uuid_key c) (nid_key proxy) db)"

definition client_get_proxy ::
  "'db redis_connection \<Rightarrow> bytes \<Rightarrow> 'db \<Rightarrow> network_identity option res" where
  "client_get_proxy C c db =
    (case db_hget C client_proxy_table (uuid_key c) db of
       None \<Rightarrow> Inr None
     | Some v \<Rightarrow> bindE (nid_des (br_new v)) (\<lambda>(n, _). Inr (Some n)))"

definition proxy_remove_client ::
  "'db redis_connection \<Rightarrow> network_identity \<Rightarrow> bytes \<Rightarrow> 'db \<Rightarrow> 'db" where
  "proxy_remove_client C proxy c db = snd (db_srem C proxy_clients_set [uuid_key c] db)"

definition proxy_remove_clients ::
  "'db redis_connection \<Rightarrow> network_identity \<Rightarrow> bytes list \<Rightarrow> 'db \<Rightarrow> 'db" where
  "proxy_remove_clients C proxy cs db = snd (db_srem C proxy_clients_set (map uuid_key cs) db)"

definition proxy_add_client ::
  "'db redis_connection \<Rightarrow> network_identity \<Rightarrow> bytes \<Rightarrow> 'db \<Rightarrow> 'db" where
  "proxy_add_client C proxy c db = snd (db_sadd C proxy_clients_set [uuid_key c] db)"

definition assign_proxy_client ::
  "'db redis_connection \<Rightarrow> bytes \<Rightarrow> network_identity \<Rightarrow> 'db \<Rightarrow> 'db res" where
  "assign_proxy_client C c n db =
    (if nid_type n \<noteq> nt_proxy then Inl (AssertFail ''Proxy must be proxy type'')
     else bindE (client_get_proxy C c db) (\<lambda>original.
       let db = (case original of Some p \<Rightarrow> proxy_remove_client C p c db | None \<Rightarrow> db);
           db = client_set_proxy C c n db
       in Inr (proxy_add_client C n c db)))"

section \<open>Lemmas\<close>

lemma uuid_key_eq: "uuid_key c = c"
  by (simp add: uuid_key_def enc_simps bw_bytes_def bw_write_def bw_new_def)

text \<open>The tables of the manifest: the hash of proxies holds identities, and the set holds exactly
  the clients of the hash.\<close>

definition proxy_rows_ok :: "(bytes \<Rightarrow> bytes option) \<Rightarrow> bool" where
  "proxy_rows_ok table \<longleftrightarrow> (\<forall>c v. table c = Some v \<longrightarrow> (\<exists>n. nid_ok n \<and> v = nid_key n))"

lemma decodes_ip: "decodes (ip_des S) ([1] @ be_enc p @ be_enc a) (sa_set_ipv4 S a p)"
  unfolding ip_des_def
proof (rule decodes_bind [OF decodes_br_u8])
  show "decodes (bindS br_u16 (\<lambda>port. if (1 :: u8) \<noteq> 0 then bindS br_u32 (\<lambda>ip. returnS (sa_set_ipv4 S ip port))
      else throwS (AssertFail ''not implemented''))) (be_enc p @ be_enc a) (sa_set_ipv4 S a p)"
    by simp (rule decodes_bind decodes_bind_return decodes_intros)+
qed

context redis
begin

lemma get_proxy_rows:
  assumes "with_sync C = R" and "hash_key client_proxy_table"
    and "proxy_rows_ok (hash_of db client_proxy_table)"
  shows "\<exists>p. client_get_proxy C c db = Inr p \<and>
    (p = None \<longleftrightarrow> hash_of db client_proxy_table c = None) \<and>
    (\<forall>n. nid_ok n \<longrightarrow> p = Some n \<longleftrightarrow> hash_of db client_proxy_table c = Some (nid_key n))"
proof (cases "hash_of db client_proxy_table c")
  case None
  then show ?thesis by (simp add: client_get_proxy_def db_hget_def assms(1,2) hget uuid_key_eq)
next
  case (Some v)
  then obtain n where n: "nid_ok n" "v = nid_key n" using assms(3) by (auto simp: proxy_rows_ok_def)
  obtain r where "nid_des (br_new (nid_key n)) = Inr (n, r)" using nid_key_des [OF n(1)] .
  then have "client_get_proxy C c db = Inr (Some n)"
    using Some n by (simp add: client_get_proxy_def db_hget_def assms(1,2) hget uuid_key_eq)
  then show ?thesis using Some n nid_key_inject [OF n(1)] by auto
qed

lemma assign_contents:
  assumes "with_sync C = R" and "hash_key client_proxy_table" and "\<not> hash_key proxy_clients_set"
    and "proxy_rows_ok (hash_of db client_proxy_table)" and "nid_type n = nt_proxy"
  shows "\<exists>db'. assign_proxy_client C c n db = Inr db' \<and>
    hash_of db' = (hash_of db)(client_proxy_table := (hash_of db client_proxy_table)(c \<mapsto> nid_key n)) \<and>
    set_of db' = (set_of db)(proxy_clients_set := insert c (set_of db proxy_clients_set))"
proof -
  obtain p where p: "client_get_proxy C c db = Inr p" using get_proxy_rows [OF assms(1,2,4)] by blast
  show ?thesis
    using assms(1-3,5)
    by (cases p)
       (simp_all add: assign_proxy_client_def p proxy_remove_client_def client_set_proxy_def
        proxy_add_client_def db_srem_def db_hset_def db_sadd_def uuid_key_eq Let_def
        srem_contents sadd_contents hset_contents fun_eq_iff)
qed

lemma remove_clients_contents:
  assumes "with_sync C = R" and "\<not> hash_key proxy_clients_set"
  shows "hash_of (proxy_remove_clients C p cs db) = hash_of db"
    and "set_of (proxy_remove_clients C p cs db) =
      (set_of db)(proxy_clients_set := set_of db proxy_clients_set - set cs)"
proof -
  have "map uuid_key cs = cs" by (simp add: uuid_key_eq map_idI)
  then show "hash_of (proxy_remove_clients C p cs db) = hash_of db"
    and "set_of (proxy_remove_clients C p cs db) =
      (set_of db)(proxy_clients_set := set_of db proxy_clients_set - set cs)"
    using assms by (auto simp: proxy_remove_clients_def db_srem_def srem_contents)
qed

end

section \<open>Properties\<close>

text \<open>Assigning a client to a proxy makes that proxy its proxy, changes the proxy of no other
  client, and keeps the set of assigned clients equal to the clients that have a proxy. The set does
  not tell the proxies apart: it is the same one whatever proxy the client had or gets.\<close>

theorem assign_proxy_client_correct:
  assumes "redis R hash_key hash_of set_of" and "with_sync C = R"
    and "hash_key client_proxy_table" and "\<not> hash_key proxy_clients_set"
    and "proxy_rows_ok (hash_of db client_proxy_table)"
    and "set_of db proxy_clients_set = dom (hash_of db client_proxy_table)"
    and "nid_ok n" and "nid_type n = nt_proxy"
  shows "\<exists>db'. assign_proxy_client C c n db = Inr db' \<and>
    client_get_proxy C c db' = Inr (Some n) \<and>
    (\<forall>d. d \<noteq> c \<longrightarrow> client_get_proxy C d db' = client_get_proxy C d db) \<and>
    proxy_rows_ok (hash_of db' client_proxy_table) \<and>
    set_of db' proxy_clients_set = dom (hash_of db' client_proxy_table) \<and>
    set_of db' proxy_clients_set = insert c (set_of db proxy_clients_set)"
proof -
  obtain db' where *: "assign_proxy_client C c n db = Inr db'"
    "hash_of db' = (hash_of db)(client_proxy_table := (hash_of db client_proxy_table)(c \<mapsto> nid_key n))"
    "set_of db' = (set_of db)(proxy_clients_set := insert c (set_of db proxy_clients_set))"
    using redis.assign_contents [OF assms(1-5) assms(8)] by blast
  have rows: "proxy_rows_ok (hash_of db' client_proxy_table)"
    using assms(5,7) by (auto simp: *(2) proxy_rows_ok_def)
  have "client_get_proxy C c db' = Inr (Some n)"
    using redis.get_proxy_rows [OF assms(1-3) rows, of c] assms(7) by (auto simp: *(2))
  moreover have "client_get_proxy C d db' = client_get_proxy C d db" if "d \<noteq> c" for d
    using that assms(2,3)
    by (simp add: client_get_proxy_def db_hget_def redis.hget [OF assms(1)] uuid_key_eq *(2))
  ultimately show ?thesis using * rows assms(6) by auto
qed

theorem assign_proxy_client_correct_witness:
  "\<exists>db'. assign_proxy_client mem_connection nil_uuid \<lparr> nid_type = nt_proxy, nid_id = nil_uuid \<rparr> mem_empty = Inr db' \<and>
     client_get_proxy mem_connection nil_uuid db' = Inr (Some \<lparr> nid_type = nt_proxy, nid_id = nil_uuid \<rparr>)"
proof -
  have ax: "redis mem_redis (\<lambda>k. k = client_proxy_table) mem_hash mem_set" by (rule memredis.redis_axioms)
  have "proxy_rows_ok (mem_hash mem_empty client_proxy_table)"
    "mem_set mem_empty proxy_clients_set = dom (mem_hash mem_empty client_proxy_table)"
    by (simp_all add: proxy_rows_ok_def mem_hash_def mem_set_def mem_empty_def)
  from assign_proxy_client_correct [OF ax with_sync_mem refl _ this,
      of "\<lparr> nid_type = nt_proxy, nid_id = nil_uuid \<rparr>" nil_uuid]
  show ?thesis by (auto simp: nid_ok_def nil_uuid_def client_proxy_table_def proxy_clients_set_def)
qed

text \<open>One proxy dropping clients drops them from the set for every proxy, while the table of
  proxies still names their proxy: afterwards a dropped client has a proxy and is not in the set.\<close>

theorem remove_clients_desynchronises:
  assumes "redis R hash_key hash_of set_of" and "with_sync C = R"
    and "hash_key client_proxy_table" and "\<not> hash_key proxy_clients_set"
  shows "client_get_proxy C c (proxy_remove_clients C p cs db) = client_get_proxy C c db \<and>
    (c \<in> set cs \<longrightarrow> c \<notin> set_of (proxy_remove_clients C p cs db) proxy_clients_set) \<and>
    proxy_remove_clients C p cs db = proxy_remove_clients C q cs db"
  using assms(2,3)
  by (simp add: client_get_proxy_def db_hget_def redis.hget [OF assms(1)]
      redis.remove_clients_contents [OF assms(1,2,4)])
     (simp add: proxy_remove_clients_def)

theorem remove_clients_desynchronises_witness:
  "nil_uuid \<notin> mem_set (proxy_remove_clients mem_connection make_id_watchdog [nil_uuid] mem_empty) proxy_clients_set"
proof -
  have ax: "redis mem_redis (\<lambda>k. k = client_proxy_table) mem_hash mem_set" by (rule memredis.redis_axioms)
  show ?thesis
    using remove_clients_desynchronises [OF ax with_sync_mem refl, of nil_uuid make_id_watchdog "[nil_uuid]" mem_empty]
    by (simp add: client_proxy_table_def proxy_clients_set_def)
qed

text \<open>The address registered for a client is read back from the bytes written for it.\<close>

theorem register_client_address:
  assumes "redis R hash_key hash_of set_of" and "with_sync C = R" and "hash_key client_ip_table"
    and "sa_is_ipv4 S (cl_ip c)" and "sa_set_ipv4 S (sa_get_ipv4 S (cl_ip c)) (sa_port S (cl_ip c)) = cl_ip c"
  shows "\<exists>db' v r. register_client S C c db = Inr db' \<and>
    hash_of db' client_ip_table (cl_id c) = Some v \<and> ip_des S (br_new v) = Inr (cl_ip c, r) \<and>
    (\<forall>d. d \<noteq> cl_id c \<longrightarrow> hash_of db' client_ip_table d = hash_of db client_ip_table d)"
proof -
  let ?v = "be_enc (sa_port S (cl_ip c)) @ be_enc (sa_get_ipv4 S (cl_ip c))"
  have v: "ip_ser S (cl_ip c) bw_new = Inr (bw_write (1 # ?v) bw_new)"
    using assms(4) by (simp add: ip_ser_def Let_def enc_simps)
  have "\<exists>r. ip_des S (br_new (1 # ?v)) = Inr (cl_ip c, r)"
    using decodesD [OF decodes_ip [of S "sa_port S (cl_ip c)" "sa_get_ipv4 S (cl_ip c)"], of "br_new (1 # ?v)"] assms(5)
    by (auto simp: br_left_def reader_ok_def br_new_def be_enc_def)
  then show ?thesis
    using redis.hset_contents [OF assms(1,3)] assms(2)
    unfolding register_client_def client_set_ip_def v
    by (auto simp: db_hset_def uuid_key_eq bw_bytes_def bw_write_def bw_new_def)
qed

theorem register_client_address_witness:
  "\<exists>db' v r. register_client demo_steam mem_connection \<lparr> cl_ip = 2, cl_id = nil_uuid \<rparr> mem_empty = Inr db' \<and>
    mem_hash db' client_ip_table nil_uuid = Some v \<and> ip_des demo_steam (br_new v) = Inr (2, r)"
  using register_client_address [OF memredis.redis_axioms [of "\<lambda>_. True"] with_sync_mem TrueI,
      of demo_steam "\<lparr> cl_ip = 2, cl_id = nil_uuid \<rparr>" mem_empty]
  by (auto simp: demo_steam_def)

end
