(* ===== verification/Event_System.thy ===== *)
theory Event_System
  imports Client_Manifest
begin

text \<open>
  The events of the nodes (\<open>Events/EventRegistry.hpp\<close>, \<open>Events/EventSystem.hpp\<close> and the two events
  under \<open>Events/Events\<close>): the registry of event types, subscribing, dispatching through the publish
  command of the database and the handler of received messages. A step relation over several nodes
  adds what the database does between them: a published message reaches the connections subscribed
  to its channel, in order.
\<close>

section \<open>Registry\<close>

definition hash_name :: "string \<Rightarrow> u32" where
  "hash_name s = foldl (\<lambda>h c. (h XOR of_char c) * 16777619) 2166136261 (takeWhile (\<lambda>c. c \<noteq> CHR 0x00) s)"

record ('t, 'e) event_entry =
  ee_factory :: 'e
  ee_name :: string
  ee_type :: 't
  ee_id :: u64

text \<open>The container has three unique indices: an element equal to a present one in any of them is refused.\<close>

definition register_event ::
  "'t \<Rightarrow> 'e \<Rightarrow> string \<Rightarrow> ('t, 'e) event_entry list \<Rightarrow> ('t, 'e) event_entry list" where
  "register_event t f name es =
    (let e = \<lparr> ee_factory = f, ee_name = name, ee_type = t, ee_id = ucast (hash_name name) \<rparr>
     in if \<exists>x\<in>set es. ee_id x = ee_id e \<or> ee_type x = ee_type e \<or> ee_name x = ee_name e
        then es else es @ [e])"

text \<open>The lookups dereference the iterator they find without a check.\<close>

definition deref :: "'x option \<Rightarrow> ('x \<Rightarrow> 'y) \<Rightarrow> 'y res" where
  "deref it f = (case it of None \<Rightarrow> Inl (UB Null_Deref) | Some x \<Rightarrow> Inr (f x))"

definition event_id_of_type :: "'t \<Rightarrow> ('t, 'e) event_entry list \<Rightarrow> u64 res" where
  "event_id_of_type t es = deref (find (\<lambda>e. ee_type e = t) es) ee_id"

definition event_name_of_type :: "'t \<Rightarrow> ('t, 'e) event_entry list \<Rightarrow> string res" where
  "event_name_of_type t es = deref (find (\<lambda>e. ee_type e = t) es) ee_name"

definition event_id_of_name :: "string \<Rightarrow> ('t, 'e) event_entry list \<Rightarrow> u64 res" where
  "event_id_of_name name es = deref (find (\<lambda>e. ee_name e = name) es) ee_id"

definition create_from_type_id :: "u64 \<Rightarrow> ('t, 'e) event_entry list \<Rightarrow> 'e res" where
  "create_from_type_id i es = deref (find (\<lambda>e. ee_id e = i) es) ee_factory"

section \<open>Events\<close>

datatype 'a event =
    Client_Connect "'a client" network_identity
  | Log_Message bytes

datatype event_class = Client_Connect_Event | Log_Event

fun class_of :: "'a event \<Rightarrow> event_class" where
  "class_of (Client_Connect _ _) = Client_Connect_Event"
| "class_of (Log_Message _) = Log_Event"

fun event_ser :: "'a steam_ops \<Rightarrow> 'a event \<Rightarrow> writer \<Rightarrow> writer res" where
  "event_ser S (Client_Connect c n) w = bindE (client_ser S c w) (\<lambda>w. Inr (nid_ser n w))"
| "event_ser S (Log_Message m) w = Inr (bw_str m w)"

text \<open>The factory of a class makes the object that is then deserialised.\<close>

fun event_des :: "'a steam_ops \<Rightarrow> event_class \<Rightarrow> (reader, 'a event) stm" where
  "event_des S Client_Connect_Event =
    bindS (client_des S) (\<lambda>c. bindS nid_des (\<lambda>n. returnS (Client_Connect c n)))"
| "event_des S Log_Event = bindS br_str (\<lambda>m. returnS (Log_Message m))"

type_synonym registry = "(event_class, event_class) event_entry list"

definition event_registry :: registry where
  "event_registry =
    register_event Log_Event Log_Event ''LogEvent''
      (register_event Client_Connect_Event Client_Connect_Event ''ClientConnectEvent'' [])"

section \<open>Event system\<close>

record 'cb event_system =
  es_init :: bool
  es_subscriptions :: "u64 \<Rightarrow> 'cb list option"
  es_has_subscription :: bool
  es_channels :: "string list"

definition es_new :: "'cb event_system" where
  "es_new = \<lparr> es_init = False, es_subscriptions = (\<lambda>_. None), es_has_subscription = False, es_channels = [] \<rparr>"

text \<open>\<open>Init\<close> installs the handler and starts the thread that consumes messages.\<close>

definition event_system_init :: "'cb event_system \<Rightarrow> 'cb event_system" where
  "event_system_init s = s \<lparr> es_init := True \<rparr>"

definition event_subscribe ::
  "registry \<Rightarrow> event_class \<Rightarrow> 'cb \<Rightarrow> 'cb event_system \<Rightarrow> 'cb event_system res" where
  "event_subscribe reg t f s =
    (if \<not> es_init s then Inl (AssertFail ''Event System has not been initialized'')
     else bindE (event_id_of_type t reg) (\<lambda>i. bindE (event_name_of_type t reg) (\<lambda>name.
       Inr (s \<lparr> es_channels := List.insert name (es_channels s),
                es_subscriptions := (es_subscriptions s)(i \<mapsto>
                  (case es_subscriptions s i of None \<Rightarrow> [] | Some fs \<Rightarrow> fs) @ [f]),
                es_has_subscription := True \<rparr>))))"

text \<open>What \<open>Dispatch\<close> passes to the publish command: the channel and the message.\<close>

definition event_dispatch ::
  "'a steam_ops \<Rightarrow> registry \<Rightarrow> 'a event \<Rightarrow> 'cb event_system \<Rightarrow> (string \<times> bytes) res" where
  "event_dispatch S reg e s =
    (if \<not> es_init s then Inl (AssertFail ''Event System has not been initialized'')
     else bindE (event_name_of_type (class_of e) reg) (\<lambda>name.
       bindE (event_ser S e bw_new) (\<lambda>w. Inr (name, bw_bytes w))))"

text \<open>The handler of a received message: the calls it makes.\<close>

definition on_message ::
  "'a steam_ops \<Rightarrow> registry \<Rightarrow> string \<Rightarrow> bytes \<Rightarrow> 'cb event_system \<Rightarrow> ('cb \<times> 'a event) list res" where
  "on_message S reg channel msg s =
    bindE (event_id_of_name channel reg) (\<lambda>i.
      case es_subscriptions s i of
        None \<Rightarrow> Inl OutOfRange
      | Some callbacks \<Rightarrow>
          bindE (create_from_type_id i reg) (\<lambda>c.
          bindE (event_des S c (br_new msg)) (\<lambda>(e, _). Inr (map (\<lambda>f. (f, e)) callbacks))))"

section \<open>Several nodes\<close>

record ('a, 'cb) event_world =
  ew_node :: "nat \<Rightarrow> 'cb event_system"
  ew_inbox :: "nat \<Rightarrow> (string \<times> bytes) list"
  ew_calls :: "(nat \<times> 'cb \<times> 'a event) list"

definition ew_new :: "('a, 'cb) event_world" where
  "ew_new = \<lparr> ew_node = (\<lambda>_. es_new), ew_inbox = (\<lambda>_. []), ew_calls = [] \<rparr>"

definition event_ok :: "'a steam_ops \<Rightarrow> 'a event \<Rightarrow> bool" where
  "event_ok S e =
    (case e of
       Client_Connect c n \<Rightarrow> nid_ok n \<and> length (cl_id c) = 16 \<and>
         sa_set_ipv4 S (sa_get_ipv4 S (cl_ip c)) (sa_port S (cl_ip c)) = cl_ip c
     | Log_Message m \<Rightarrow> length m < 2 ^ 32)"

text \<open>The publish command appends the message to what every subscribed connection has to receive.\<close>

definition published :: "string \<Rightarrow> bytes \<Rightarrow> ('a, 'cb) event_world \<Rightarrow> ('a, 'cb) event_world" where
  "published ch msg w = w \<lparr> ew_inbox := (\<lambda>j. if ch \<in> set (es_channels (ew_node w j))
     then ew_inbox w j @ [(ch, msg)] else ew_inbox w j) \<rparr>"

text \<open>\<open>Update\<close>: the thread of node \<open>i\<close> hands the next received message, if any, to the handler.\<close>

definition event_update ::
  "'a steam_ops \<Rightarrow> nat \<Rightarrow> ('a, 'cb) event_world \<Rightarrow> ('a, 'cb) event_world res" where
  "event_update S i w =
    (case ew_inbox w i of
       [] \<Rightarrow> Inr w
     | (ch, msg) # rest \<Rightarrow>
         bindE (on_message S event_registry ch msg (ew_node w i)) (\<lambda>calls.
           Inr (w \<lparr> ew_inbox := (ew_inbox w)(i := rest),
                    ew_calls := ew_calls w @ map (\<lambda>(f, e). (i, f, e)) calls \<rparr>)))"

fun event_updates ::
  "'a steam_ops \<Rightarrow> nat \<Rightarrow> nat \<Rightarrow> ('a, 'cb) event_world \<Rightarrow> ('a, 'cb) event_world res" where
  "event_updates S i 0 w = Inr w"
| "event_updates S i (Suc n) w = bindE (event_update S i w) (event_updates S i n)"

text \<open>
  A node initialises its event system, subscribes, dispatches, or its thread updates, which it only
  starts when there is a subscription.
\<close>

inductive event_step ::
  "'a steam_ops \<Rightarrow> ('a, 'cb) event_world \<Rightarrow> ('a, 'cb) event_world \<Rightarrow> bool" for S where
  step_init: "event_step S w (w \<lparr> ew_node := (ew_node w)(i := event_system_init (ew_node w i)) \<rparr>)"
| step_subscribe: "event_subscribe event_registry t f (ew_node w i) = Inr s \<Longrightarrow>
    event_step S w (w \<lparr> ew_node := (ew_node w)(i := s) \<rparr>)"
| step_dispatch: "event_ok S e \<Longrightarrow> event_dispatch S event_registry e (ew_node w i) = Inr (ch, msg) \<Longrightarrow>
    event_step S w (published ch msg w)"
| step_update: "es_has_subscription (ew_node w i) \<Longrightarrow> event_update S i w = Inr w' \<Longrightarrow> event_step S w w'"

inductive event_reach :: "'a steam_ops \<Rightarrow> ('a, 'cb) event_world \<Rightarrow> bool" for S where
  reach_new: "event_reach S ew_new"
| reach_step: "event_reach S w \<Longrightarrow> event_step S w w' \<Longrightarrow> event_reach S w'"

section \<open>Lemmas\<close>

fun channel_of :: "event_class \<Rightarrow> string" where
  "channel_of Client_Connect_Event = ''ClientConnectEvent''"
| "channel_of Log_Event = ''LogEvent''"

definition id_of :: "event_class \<Rightarrow> u64" where
  "id_of t = ucast (hash_name (channel_of t))"

lemma hash_names:
  "hash_name ''LogEvent'' = 0x750CA40B" "hash_name ''ClientConnectEvent'' = 0x7CA13F24"
  by (simp_all add: hash_name_def)

lemma ids: "id_of Log_Event \<noteq> id_of Client_Connect_Event"
  by (simp add: id_of_def hash_names)

lemma registry_lookups [simp]:
  "event_id_of_type t event_registry = Inr (id_of t)"
  "event_name_of_type t event_registry = Inr (channel_of t)"
  "event_id_of_name (channel_of t) event_registry = Inr (id_of t)"
  "create_from_type_id (id_of t) event_registry = Inr t"
  using ids
  by (cases t; simp add: event_registry_def register_event_def event_id_of_type_def
      event_name_of_type_def event_id_of_name_def create_from_type_id_def deref_def id_of_def)+

lemma id_of_inject [simp]: "id_of t = id_of u \<longleftrightarrow> t = u"
  using ids by (cases t; cases u) auto

lemma channel_of_inject [simp]: "channel_of t = channel_of u \<longleftrightarrow> t = u"
  by (cases t; cases u) auto

lemma client_collapse: "\<lparr> cl_ip = cl_ip c, cl_id = cl_id c \<rparr> = c"
  by (cases c) simp

text \<open>What a dispatched event is on the wire, and that the handler reads it back.\<close>

lemma decodes_event:
  assumes "event_ok S e" and "event_ser S e bw_new = Inr w"
  shows "decodes (event_des S (class_of e)) (bw_bytes w) e \<and> length (bw_bytes w) < 2 ^ 63"
proof (cases e)
  case (Client_Connect c n)
  define bs where "bs = ([1] @ be_enc (sa_port S (cl_ip c)) @ be_enc (sa_get_ipv4 S (cl_ip c))) @ cl_id c @ nid_enc n"
  have w: "bw_bytes w = bs"
    using assms(2) Client_Connect
    by (auto simp: client_ser_def ip_ser_def Let_def bs_def enc_simps bw_bytes_def bw_new_def
        bw_write_def split: if_splits)
  have ip: "decodes (ip_des S) ([1] @ be_enc (sa_port S (cl_ip c)) @ be_enc (sa_get_ipv4 S (cl_ip c))) (cl_ip c)"
    using decodes_ip [of S "sa_port S (cl_ip c)" "sa_get_ipv4 S (cl_ip c)"] assms(1) Client_Connect
    by (simp add: event_ok_def)
  have cl: "decodes (client_des S)
      (([1] @ be_enc (sa_port S (cl_ip c)) @ be_enc (sa_get_ipv4 S (cl_ip c))) @ cl_id c) c"
    unfolding client_des_def
  proof (rule decodes_bind [OF ip])
    have "decodes br_uuid (cl_id c) (cl_id c)"
      using assms(1) Client_Connect by (simp add: event_ok_def uuidc.des_enc)
    from decodes_bind_return [OF this, of "\<lambda>i. \<lparr> cl_ip = cl_ip c, cl_id = i \<rparr>"]
    show "decodes (bindS br_uuid (\<lambda>i. returnS \<lparr> cl_ip = cl_ip c, cl_id = i \<rparr>)) (cl_id c) c"
      by (simp only: client_collapse)
  qed
  have "decodes (bindS nid_des (\<lambda>n. returnS (Client_Connect c n))) (nid_enc n) e"
    unfolding Client_Connect
    by (rule decodes_bind_return) (use assms(1) Client_Connect in \<open>simp add: event_ok_def nidc.des_enc\<close>)
  from decodes_bind [OF cl, where f = "\<lambda>c. bindS nid_des (\<lambda>n. returnS (Client_Connect c n))", OF this]
  have "decodes (event_des S (class_of e)) bs e" by (simp add: Client_Connect bs_def)
  moreover have "length bs < 2 ^ 63"
    using assms(1) Client_Connect by (simp add: bs_def event_ok_def nid_enc_length be_enc_def)
  ultimately show ?thesis by (simp add: w)
next
  case (Log_Message m)
  have w: "bw_bytes w = str_enc m"
    using assms(2) Log_Message by (auto simp: enc_simps bw_bytes_def bw_new_def bw_write_def)
  have "decodes (event_des S (class_of e)) (str_enc m) e"
    unfolding Log_Message class_of.simps event_des.simps
    by (rule decodes_bind_return) (use assms(1) Log_Message in \<open>simp add: event_ok_def strc.des_enc\<close>)
  moreover have "length (str_enc m) < 2 ^ 63"
    using assms(1) Log_Message length_str_enc [of m] by (simp add: event_ok_def)
  ultimately show ?thesis by (simp add: w)
qed

lemma handler_reads:
  assumes "event_ok S e" and "event_dispatch S event_registry e s = Inr (ch, msg)"
    and "es_subscriptions s' (id_of (class_of e)) = Some fs"
  shows "ch = channel_of (class_of e) \<and> on_message S event_registry ch msg s' = Inr (map (\<lambda>f. (f, e)) fs)"
proof -
  have "bindE (event_ser S e bw_new) (\<lambda>w. Inr (channel_of (class_of e), bw_bytes w)) = Inr (ch, msg)"
    using assms(2) by (simp add: event_dispatch_def split: if_splits)
  then obtain w where w: "event_ser S e bw_new = Inr w" and m: "ch = channel_of (class_of e)" "msg = bw_bytes w"
    by (auto simp: bindE_def split: sum.splits)
  have d: "decodes (event_des S (class_of e)) (bw_bytes w) e" and l: "length (bw_bytes w) < 2 ^ 63"
    using decodes_event [OF assms(1) w] by simp_all
  obtain r where "event_des S (class_of e) (br_new (bw_bytes w)) = Inr (e, r)"
    by (rule decodes_new [OF d l])
  then show ?thesis
    by (simp add: m on_message_def assms(3))
qed

section \<open>Invariant\<close>

definition subs_inv :: "'cb event_system \<Rightarrow> bool" where
  "subs_inv s \<longleftrightarrow> (\<forall>t. channel_of t \<in> set (es_channels s) \<longrightarrow>
     (\<exists>fs. fs \<noteq> [] \<and> es_subscriptions s (id_of t) = Some fs)) \<and>
   (\<forall>t fs. es_subscriptions s (id_of t) = Some fs \<longrightarrow> channel_of t \<in> set (es_channels s))"

definition message_ok :: "'a steam_ops \<Rightarrow> 'cb event_system \<Rightarrow> string \<times> bytes \<Rightarrow> bool" where
  "message_ok S s m \<longleftrightarrow> fst m \<in> set (es_channels s) \<and>
     (\<exists>e s0. event_ok S e \<and> event_dispatch S event_registry e (s0 :: 'cb event_system) = Inr m)"

definition event_inv :: "'a steam_ops \<Rightarrow> ('a, 'cb) event_world \<Rightarrow> bool" where
  "event_inv S w \<longleftrightarrow> (\<forall>i. subs_inv (ew_node w i) \<and> (\<forall>m\<in>set (ew_inbox w i). message_ok S (ew_node w i) m))"

lemma event_invI:
  assumes "\<And>i. subs_inv (ew_node w i)" and "\<And>i m. m \<in> set (ew_inbox w i) \<Longrightarrow> message_ok S (ew_node w i) m"
  shows "event_inv S w"
  using assms by (simp add: event_inv_def)

lemma subscribe_result:
  assumes "event_subscribe event_registry t f s = Inr s'"
  shows "es_channels s' = List.insert (channel_of t) (es_channels s) \<and>
    es_subscriptions s' = (es_subscriptions s)(id_of t \<mapsto>
      (case es_subscriptions s (id_of t) of None \<Rightarrow> [] | Some fs \<Rightarrow> fs) @ [f])"
  using assms by (auto simp: event_subscribe_def split: if_splits)

lemma subs_inv_subscribe:
  assumes "subs_inv s" and "event_subscribe event_registry t f s = Inr s'"
  shows "subs_inv s'"
  using assms(1) subscribe_result [OF assms(2)] by (auto simp: subs_inv_def)

lemma message_ok_mono: "message_ok S (s :: 'cb event_system) m \<Longrightarrow> set (es_channels s) \<subseteq> set (es_channels s') \<Longrightarrow> message_ok S (s' :: 'cb event_system) m"
  by (auto simp: message_ok_def)

lemma event_inv_step: "event_step S w w' \<Longrightarrow> event_inv S w \<Longrightarrow> event_inv S w'"
proof (induction rule: event_step.induct)
  case (step_init w i)
  then show ?case by (auto simp: event_inv_def event_system_init_def subs_inv_def message_ok_def)
next
  case (step_subscribe t f w i s)
  have "subs_inv s" using step_subscribe(2) subs_inv_subscribe [OF _ step_subscribe(1)] by (simp add: event_inv_def)
  moreover have "set (es_channels (ew_node w i)) \<subseteq> set (es_channels s)"
    using subscribe_result [OF step_subscribe(1)] by auto
  ultimately show ?case
    using step_subscribe(2) by (auto simp: event_inv_def intro: message_ok_mono)
next
  case (step_dispatch e w i ch msg)
  have "message_ok S (ew_node w j) (ch, msg)" if "ch \<in> set (es_channels (ew_node w j))" for j
    using that step_dispatch by (auto simp: message_ok_def)
  then show ?case
    using step_dispatch(3) by (auto simp: event_inv_def published_def split: if_splits)
next
  case (step_update w i w')
  then show ?case
    by (auto simp: event_inv_def event_update_def bindE_def split: list.splits sum.splits if_splits)
qed

lemma event_inv_reach: "event_reach S w \<Longrightarrow> event_inv S w"
proof (induction rule: event_reach.induct)
  case reach_new
  then show ?case by (simp add: event_inv_def ew_new_def es_new_def subs_inv_def)
next
  case (reach_step w w')
  then show ?case by (blast intro: event_inv_step)
qed

lemma message_handled:
  assumes "event_inv S w" and "m \<in> set (ew_inbox w i)"
  obtains e fs where "event_ok S e" "fs \<noteq> []" "fst m = channel_of (class_of e)"
    "es_subscriptions (ew_node w i) (id_of (class_of e)) = Some fs"
    "on_message S event_registry (fst m) (snd m) (ew_node w i) = Inr (map (\<lambda>f. (f, e)) fs)"
proof -
  obtain ch msg where m: "m = (ch, msg)" by force
  from assms have inv: "subs_inv (ew_node w i)" and "message_ok S (ew_node w i) m"
    by (auto simp: event_inv_def)
  then obtain e and s0 :: "'b event_system" where e: "event_ok S e" and c: "ch \<in> set (es_channels (ew_node w i))"
    and d: "event_dispatch S event_registry e s0 = Inr (ch, msg)"
    by (auto simp: message_ok_def m)
  have ch: "ch = channel_of (class_of e)"
    using d by (auto simp: event_dispatch_def bindE_def split: if_splits sum.splits)
  with inv c obtain fs where fs: "fs \<noteq> []" "es_subscriptions (ew_node w i) (id_of (class_of e)) = Some fs"
    by (auto simp: subs_inv_def)
  show thesis
    by (rule that [OF e fs(1) _ fs(2)]) (use handler_reads [OF e d fs(2)] ch m in simp_all)
qed

lemma updates_run:
  assumes "event_inv S w" and "ew_inbox w i = ms"
  shows "\<exists>calls w'. event_updates S i (length ms) w = Inr w' \<and> ew_inbox w' i = [] \<and> ew_node w' = ew_node w \<and>
    ew_calls w' = ew_calls w @ concat calls \<and>
    list_all2 (\<lambda>m cs. \<exists>fs. on_message S event_registry (fst m) (snd m) (ew_node w i) = Inr fs \<and>
      cs = map (\<lambda>(f, e). (i, f, e)) fs) ms calls"
  using assms
proof (induction ms arbitrary: w)
  case Nil
  then show ?case by simp
next
  case (Cons m ms)
  obtain ch msg where m: "m = (ch, msg)" by force
  obtain calls where c: "on_message S event_registry ch msg (ew_node w i) = Inr calls"
    using message_handled [OF Cons.prems(1), of m i] Cons.prems(2) m by auto
  define w1 where "w1 = w \<lparr> ew_inbox := (ew_inbox w)(i := ms),
    ew_calls := ew_calls w @ map (\<lambda>(f, e). (i, f, e)) calls \<rparr>"
  have u: "event_update S i w = Inr w1"
    using Cons.prems(2) by (simp add: event_update_def m c w1_def)
  have "event_inv S w1" using Cons.prems by (auto simp: event_inv_def w1_def)
  then have "event_inv S w1" "ew_inbox w1 i = ms" by (simp_all add: w1_def)
  from Cons.IH [OF this] obtain cs w' where r: "event_updates S i (length ms) w1 = Inr w'" "ew_inbox w' i = []"
      "ew_node w' = ew_node w1" "ew_calls w' = ew_calls w1 @ concat cs"
    and l: "list_all2 (\<lambda>m cs. \<exists>fs. on_message S event_registry (fst m) (snd m) (ew_node w1 i) = Inr fs \<and>
      cs = map (\<lambda>(f, e). (i, f, e)) fs) ms cs"
    by blast
  have n: "ew_node w1 = ew_node w" by (simp add: w1_def)
  show ?case
    by (rule exI [of _ "map (\<lambda>(f, e). (i, f, e)) calls # cs"], rule exI [of _ w'])
       (use r l c in \<open>simp add: u n m, simp add: w1_def\<close>)
qed

section \<open>Theorems\<close>

text \<open>C27: in every reachable state of the nodes, every message a node has received is handled without
  an exception: it decodes to an event of the channel's type, and exactly the callbacks subscribed to
  that type are called with that event, in the order they subscribed.\<close>

theorem received_events_handled:
  assumes "event_reach S w" and "(ch, msg) \<in> set (ew_inbox w i)"
  shows "\<exists>e fs. event_ok S e \<and> ch = channel_of (class_of e) \<and> fs \<noteq> [] \<and>
    es_subscriptions (ew_node w i) (id_of (class_of e)) = Some fs \<and>
    on_message S event_registry ch msg (ew_node w i) = Inr (map (\<lambda>f. (f, e)) fs)"
proof -
  obtain e fs where "event_ok S e" "fs \<noteq> []" "ch = channel_of (class_of e)"
    "es_subscriptions (ew_node w i) (id_of (class_of e)) = Some fs"
    "on_message S event_registry ch msg (ew_node w i) = Inr (map (\<lambda>f. (f, e)) fs)"
    using message_handled [OF event_inv_reach [OF assms(1)] assms(2)] by auto
  then show ?thesis by blast
qed

text \<open>A node that has subscribed to log messages, before and after one is dispatched.\<close>

definition demo_node :: "nat event_system" where
  "demo_node = \<lparr> es_init = True, es_subscriptions = [id_of Log_Event \<mapsto> [7]],
     es_has_subscription = True, es_channels = [''LogEvent''] \<rparr>"

definition demo_subscribed :: "(nat, nat) event_world" where
  "demo_subscribed = \<lparr> ew_node = (\<lambda>_. es_new)(0 := demo_node), ew_inbox = (\<lambda>_. []), ew_calls = [] \<rparr>"

definition demo_message :: bytes where
  "demo_message = bw_bytes (bw_str [104, 105] bw_new)"

lemma demo_dispatch:
  "event_dispatch demo_steam event_registry (Log_Message [104, 105]) demo_node = Inr (''LogEvent'', demo_message)"
  by (simp add: event_dispatch_def demo_node_def demo_message_def)

lemma demo_subscribed_reach: "event_reach demo_steam demo_subscribed"
proof -
  let ?w = "ew_new :: (nat, nat) event_world"
  let ?w1 = "?w \<lparr> ew_node := (ew_node ?w)(0 := event_system_init (ew_node ?w 0)) \<rparr>"
  have 1: "event_reach demo_steam ?w1" by (rule reach_step [OF reach_new step_init])
  have "event_subscribe event_registry Log_Event 7 (ew_node ?w1 0) = Inr demo_node"
    by (simp add: ew_new_def es_new_def event_system_init_def event_subscribe_def demo_node_def)
  from reach_step [OF 1 step_subscribe [OF this]]
  show ?thesis by (simp add: demo_subscribed_def ew_new_def)
qed

theorem received_events_handled_witness:
  "\<exists>e fs. event_ok demo_steam e \<and> ''LogEvent'' = channel_of (class_of e) \<and> fs \<noteq> [] \<and>
    es_subscriptions demo_node (id_of (class_of e)) = Some fs \<and>
    on_message demo_steam event_registry ''LogEvent'' demo_message demo_node = Inr (map (\<lambda>f. (f, e)) fs)"
proof -
  let ?w = "published ''LogEvent'' demo_message demo_subscribed"
  have n: "ew_node demo_subscribed 0 = demo_node" by (simp add: demo_subscribed_def)
  have "event_ok demo_steam (Log_Message [104, 105])" by (simp add: event_ok_def)
  from reach_step [OF demo_subscribed_reach step_dispatch [OF this]] demo_dispatch n
  have r: "event_reach demo_steam ?w" by metis
  have i: "(''LogEvent'', demo_message) \<in> set (ew_inbox ?w 0)" and n: "ew_node ?w 0 = demo_node"
    by (simp_all add: published_def demo_subscribed_def demo_node_def)
  show ?thesis using received_events_handled [OF r i] unfolding n .
qed

text \<open>C12: an event that a node dispatches reaches every node that has subscribed to its type: after as
  many turns of the receiving thread as there are messages before it and one more, the callbacks
  subscribed there have been called with that very event, after those of the earlier messages, and
  nothing is left to receive.\<close>

theorem dispatched_event_delivered:
  assumes "event_reach S w" and "event_ok S e"
    and "event_dispatch S event_registry e (ew_node w i) = Inr (ch, msg)"
    and "es_subscriptions (ew_node w j) (id_of (class_of e)) = Some fs"
  shows "\<exists>earlier w'. event_updates S j (length (ew_inbox w j) + 1) (published ch msg w) = Inr w' \<and>
    ew_calls w' = ew_calls w @ earlier @ map (\<lambda>f. (j, f, e)) fs \<and> ew_inbox w' j = []"
proof -
  let ?p = "published ch msg w"
  have inv: "event_inv S w" by (rule event_inv_reach [OF assms(1)])
  then have "event_inv S ?p" by (rule event_inv_step [OF step_dispatch [OF assms(2,3)]])
  have h: "ch = channel_of (class_of e)" "on_message S event_registry ch msg (ew_node w j) = Inr (map (\<lambda>f. (f, e)) fs)"
    using handler_reads [OF assms(2,3,4)] by auto
  have "subs_inv (ew_node w j)" using inv by (simp add: event_inv_def)
  then have "ch \<in> set (es_channels (ew_node w j))" using assms(4) h by (auto simp: subs_inv_def)
  then have "ew_inbox ?p j = ew_inbox w j @ [(ch, msg)]" by (simp add: published_def)
  from updates_run [OF \<open>event_inv S ?p\<close> this] obtain calls w'
    where r: "event_updates S j (length (ew_inbox w j) + 1) ?p = Inr w'" "ew_inbox w' j = []"
      "ew_calls w' = ew_calls ?p @ concat calls"
      and l: "list_all2 (\<lambda>m cs. \<exists>fs. on_message S event_registry (fst m) (snd m) (ew_node ?p j) = Inr fs \<and>
        cs = map (\<lambda>(f, e). (j, f, e)) fs) (ew_inbox w j @ [(ch, msg)]) calls"
    by auto
  from l obtain cs c where "calls = cs @ [c]"
    "\<exists>fs. on_message S event_registry ch msg (ew_node ?p j) = Inr fs \<and> c = map (\<lambda>(f, e). (j, f, e)) fs"
    by (auto simp: list_all2_append1 list_all2_Cons1)
  then have "concat calls = concat cs @ map (\<lambda>f. (j, f, e)) fs"
    using h(2) by (auto simp: published_def comp_def)
  with r show ?thesis by (auto simp: published_def)
qed

theorem dispatched_event_delivered_witness:
  "\<exists>earlier w'. event_updates demo_steam 0 1 (published ''LogEvent'' demo_message demo_subscribed) = Inr w' \<and>
    ew_calls w' = earlier @ [(0, 7, Log_Message [104, 105])] \<and> ew_inbox w' 0 = []"
proof -
  have n: "ew_node demo_subscribed 0 = demo_node" by (simp add: demo_subscribed_def)
  have ok: "event_ok demo_steam (Log_Message [104, 105])" by (simp add: event_ok_def)
  have d: "event_dispatch demo_steam event_registry (Log_Message [104, 105]) (ew_node demo_subscribed 0) =
      Inr (''LogEvent'', demo_message)"
    unfolding n by (rule demo_dispatch)
  have f: "es_subscriptions (ew_node demo_subscribed 0) (id_of (class_of (Log_Message [104, 105] :: nat event))) = Some [7]"
    by (simp add: n demo_node_def)
  have e: "length (ew_inbox demo_subscribed 0) + 1 = 1" "ew_calls demo_subscribed = []"
    by (simp_all add: demo_subscribed_def)
  show ?thesis using dispatched_event_delivered [OF demo_subscribed_reach ok d f] unfolding e by simp
qed

text \<open>A type that is registered under a name gets the hash of the name as its id, unless another type
  with the same name or the same hash is in the registry: then the registration is dropped without a
  sign, and looking the type up dereferences the end of the container.\<close>

theorem event_registration:
  assumes "t \<notin> ee_type ` set es"
  shows "event_id_of_type t (register_event t f name es) =
    (if \<exists>x\<in>set es. ee_id x = ucast (hash_name name) \<or> ee_name x = name then Inl (UB Null_Deref)
     else Inr (ucast (hash_name name)))"
proof -
  have n: "find (\<lambda>e. ee_type e = t) es = None"
    using assms by (auto simp: find_None_iff)
  have "find (\<lambda>e. ee_type e = t) (es @ [e]) = (if ee_type e = t then Some e else None)" for e
    using n by (induction es) (auto split: if_splits)
  moreover have "ee_type x \<noteq> t" if "x \<in> set es" for x using assms that by auto
  ultimately show ?thesis
    using n by (auto simp: register_event_def event_id_of_type_def deref_def Let_def)
qed

theorem event_registration_witness:
  "event_id_of_type Log_Event
    (register_event Log_Event Log_Event ''A'' (register_event Client_Connect_Event Client_Connect_Event ''A'' [])) =
   Inl (UB Null_Deref)"
  using event_registration [of Log_Event "register_event Client_Connect_Event Client_Connect_Event ''A'' []"
      Log_Event "''A''"]
  by (simp add: register_event_def)

end
