(* ===== verification/Packets.thy ===== *)
theory Packets
  imports Entity_Data
begin

text \<open>
  The packets (\<open>Network/Packet/Packet\<close>, \<open>Entity/Packet\<close>, \<open>Network/Packet/Client\<close>,
  \<open>Interlink/Packet\<close>): their data, what they write and read, the registry that builds a packet from
  bytes. Allocation is taken to succeed, whatever the element count a message announces.
\<close>

section \<open>Packet types\<close>

text \<open>\<open>HashString\<close>, FNV-1a over the characters of the packet's name.\<close>

definition hash_string :: "string \<Rightarrow> u32" where
  "hash_string s = foldl (\<lambda>h c. (h XOR of_char c) * 16777619) 2166136261 (takeWhile (\<lambda>c. c \<noteq> CHR 0x00) s)"

definition tid_client_transfer :: u32 where "tid_client_transfer = hash_string ''ClientTransferPacket''"
definition tid_entity_transfer :: u32 where "tid_entity_transfer = hash_string ''EntityTransferPacket''"
definition tid_local_entity_list :: u32 where
  "tid_local_entity_list = hash_string ''LocalEntityListRequestPacket''"
definition tid_client_id_assign :: u32 where
  "tid_client_id_assign = hash_string ''ClientIDAssignPacket''"
definition tid_command :: u32 where "tid_command = hash_string ''CommandPacket''"
definition tid_relay :: u32 where "tid_relay = hash_string ''RelayPacket''"

section \<open>Sequences\<close>

text \<open>The idiom of every stage: the number of elements as \<open>u64\<close>, then the elements.\<close>

definition bw_seq :: "('a \<Rightarrow> writer \<Rightarrow> writer) \<Rightarrow> 'a list \<Rightarrow> writer \<Rightarrow> writer" where
  "bw_seq ser xs w = fold ser xs (bw_u64 (of_nat (length xs)) w)"

definition br_seq :: "(reader, 'a) stm \<Rightarrow> (reader, 'a list) stm" where
  "br_seq des = bindS br_u64 (\<lambda>n. repeatS (unat n) des)"

section \<open>Client transfer\<close>

type_synonym entity_seq = "entity \<times> u64"
type_synonym id_seq = "bytes \<times> u64"

definition entity_seq_ser :: "entity_seq \<Rightarrow> writer \<Rightarrow> writer" where
  "entity_seq_ser x w = bw_u64 (snd x) (entity_ser (fst x) w)"

definition entity_seq_des :: "(reader, entity_seq) stm" where
  "entity_seq_des = bindS entity_des (\<lambda>e. bindS br_u64 (\<lambda>s. returnS (e, s)))"

definition id_seq_ser :: "id_seq \<Rightarrow> writer \<Rightarrow> writer" where
  "id_seq_ser x w = bw_u64 (snd x) (bw_uuid (fst x) w)"

definition id_seq_des :: "(reader, id_seq) stm" where
  "id_seq_des = bindS br_uuid (\<lambda>i. bindS br_u64 (\<lambda>s. returnS (i, s)))"

definition id_seq_gen_ser :: "bytes \<times> u64 \<times> u64 \<Rightarrow> writer \<Rightarrow> writer" where
  "id_seq_gen_ser x w = bw_u64 (snd (snd x)) (bw_u64 (fst (snd x)) (bw_uuid (fst x) w))"

definition id_seq_gen_des :: "(reader, bytes \<times> u64 \<times> u64) stm" where
  "id_seq_gen_des = bindS br_uuid (\<lambda>i. bindS br_u64 (\<lambda>s. bindS br_u64 (\<lambda>g. returnS (i, s, g))))"

text \<open>The variant \<open>Data\<close>, one constructor per stage structure.\<close>

datatype client_transfer_data =
    CT_Prepare "entity_seq list"
  | CT_Ready "id_seq list"
  | CT_Request_Switch "bytes list" network_identity
  | CT_Freeze "bytes list"
  | CT_Drained "id_seq list"
  | CT_Activate "(bytes \<times> u64 \<times> u64) list"

record client_transfer =
  ctp_transfer_id :: bytes
  ctp_stage :: u32
  ctp_data :: client_transfer_data

fun ct_data_ser :: "client_transfer_data \<Rightarrow> writer \<Rightarrow> writer" where
  "ct_data_ser (CT_Prepare xs) w = bw_seq entity_seq_ser xs w"
| "ct_data_ser (CT_Ready xs) w = bw_seq id_seq_ser xs w"
| "ct_data_ser (CT_Request_Switch xs n) w = nid_ser n (bw_seq bw_uuid xs w)"
| "ct_data_ser (CT_Freeze xs) w = bw_seq bw_uuid xs w"
| "ct_data_ser (CT_Drained xs) w = bw_seq id_seq_ser xs w"
| "ct_data_ser (CT_Activate xs) w = bw_seq id_seq_gen_ser xs w"

definition ct_data_des :: "u32 \<Rightarrow> (reader, client_transfer_data) stm" where
  "ct_data_des stage =
    (if stage = 0 then bindS (br_seq entity_seq_des) (\<lambda>xs. returnS (CT_Prepare xs))
     else if stage = 1 then bindS (br_seq id_seq_des) (\<lambda>xs. returnS (CT_Ready xs))
     else if stage = 2 then
       bindS (br_seq br_uuid) (\<lambda>xs. bindS nid_des (\<lambda>n. returnS (CT_Request_Switch xs n)))
     else if stage = 3 then bindS (br_seq br_uuid) (\<lambda>xs. returnS (CT_Freeze xs))
     else if stage = 4 then bindS (br_seq id_seq_des) (\<lambda>xs. returnS (CT_Drained xs))
     else if stage = 5 then bindS (br_seq id_seq_gen_des) (\<lambda>xs. returnS (CT_Activate xs))
     else throwS (RuntimeError ''Invalid ClientTransferPacket stage''))"

definition client_transfer_ser :: "client_transfer \<Rightarrow> writer \<Rightarrow> writer" where
  "client_transfer_ser p w =
    ct_data_ser (ctp_data p) (bw_write_scalar (ctp_stage p) (bw_uuid (ctp_transfer_id p) w))"

definition client_transfer_des :: "(reader, client_transfer) stm" where
  "client_transfer_des =
    bindS br_uuid (\<lambda>i. bindS br_read_scalar (\<lambda>s. bindS (ct_data_des s) (\<lambda>d.
      returnS \<lparr> ctp_transfer_id = i, ctp_stage = s, ctp_data = d \<rparr>)))"

section \<open>Entity transfer\<close>

datatype entity_transfer_data =
    ET_Prepare "bytes list"
  | ET_Ready
  | ET_Commit "entity_seq list"
  | ET_Complete

record entity_transfer =
  etp_transfer_id :: bytes
  etp_stage :: u32
  etp_data :: entity_transfer_data

fun et_data_ser :: "entity_transfer_data \<Rightarrow> writer \<Rightarrow> writer" where
  "et_data_ser (ET_Prepare xs) w = bw_seq bw_uuid xs w"
| "et_data_ser ET_Ready w = w"
| "et_data_ser (ET_Commit xs) w = bw_seq entity_seq_ser xs w"
| "et_data_ser ET_Complete w = w"

definition et_data_des :: "u32 \<Rightarrow> (reader, entity_transfer_data) stm" where
  "et_data_des stage =
    (if stage = 0 then bindS (br_seq br_uuid) (\<lambda>xs. returnS (ET_Prepare xs))
     else if stage = 1 then returnS ET_Ready
     else if stage = 2 then bindS (br_seq entity_seq_des) (\<lambda>xs. returnS (ET_Commit xs))
     else if stage = 3 then returnS ET_Complete
     else throwS (RuntimeError ''Invalid ClientTransferPacket stage''))"

definition entity_transfer_ser :: "entity_transfer \<Rightarrow> writer \<Rightarrow> writer" where
  "entity_transfer_ser p w =
    et_data_ser (etp_data p) (bw_write_scalar (etp_stage p) (bw_uuid (etp_transfer_id p) w))"

definition entity_transfer_des :: "(reader, entity_transfer) stm" where
  "entity_transfer_des =
    bindS br_uuid (\<lambda>i. bindS br_read_scalar (\<lambda>s. bindS (et_data_des s) (\<lambda>d.
      returnS \<lparr> etp_transfer_id = i, etp_stage = s, etp_data = d \<rparr>)))"

section \<open>Local entity list\<close>

datatype entity_list = Full_Entities "entity list" | Minimal_Entities "entity_minimal list"

record local_entity_list =
  lel_status :: u32
  lel_include_metadata :: bool
  lel_entities :: entity_list

definition lel_query :: u32 where "lel_query = 0"
definition lel_response :: u32 where "lel_response = 1"

fun entity_list_ser :: "entity_list \<Rightarrow> writer \<Rightarrow> writer" where
  "entity_list_ser (Full_Entities xs) w = bw_seq entity_ser xs w"
| "entity_list_ser (Minimal_Entities xs) w = bw_seq entity_minimal_ser xs w"

definition local_entity_list_ser :: "local_entity_list \<Rightarrow> writer \<Rightarrow> writer" where
  "local_entity_list_ser p w =
    entity_list_ser (lel_entities p)
      (bw_i8 (if lel_include_metadata p then 1 else 0) (bw_write_scalar (lel_status p) w))"

definition local_entity_list_des :: "(reader, local_entity_list) stm" where
  "local_entity_list_des =
    bindS br_read_scalar (\<lambda>s. bindS br_i8 (\<lambda>m.
      bindS (if m \<noteq> 0 then bindS (br_seq entity_des) (\<lambda>xs. returnS (Full_Entities xs))
             else bindS (br_seq entity_minimal_des) (\<lambda>xs. returnS (Minimal_Entities xs)))
        (\<lambda>es. returnS \<lparr> lel_status = s, lel_include_metadata = (m \<noteq> 0), lel_entities = es \<rparr>)))"

definition local_entity_list_validate :: "local_entity_list \<Rightarrow> bool" where
  "local_entity_list_validate p =
    (if lel_status p = lel_query then True
     else if lel_status p = lel_response then
       (case lel_entities p of
          Full_Entities _ \<Rightarrow> lel_include_metadata p
        | Minimal_Entities _ \<Rightarrow> \<not> lel_include_metadata p)
     else False)"

section \<open>Commands\<close>

definition cmd_invalid :: u32 where "cmd_invalid = 0"

record command =
  cmd_type :: u32
  cmd_args :: bytes

definition command_new :: command where
  "command_new = \<lparr> cmd_type = cmd_invalid, cmd_args = [] \<rparr>"

definition set_command_type :: "u32 \<Rightarrow> command \<Rightarrow> command" where
  "set_command_type t c = c \<lparr> cmd_type := t \<rparr>"

definition write_args :: "(writer \<Rightarrow> writer) \<Rightarrow> command \<Rightarrow> command" where
  "write_args f c = c \<lparr> cmd_args := bw_bytes (f bw_new) \<rparr>"

definition read_args :: "(reader, 'a) stm \<Rightarrow> command \<Rightarrow> 'a res" where
  "read_args f c = bindE (f (br_new (cmd_args c))) (\<lambda>(x, _). Inr x)"

definition command_ser :: "command \<Rightarrow> writer \<Rightarrow> writer" where
  "command_ser c w = bw_blob (cmd_args c) (bw_write_scalar (cmd_type c) w)"

definition command_des :: "(reader, command) stm" where
  "command_des =
    bindS br_read_scalar (\<lambda>t. bindS br_blob (\<lambda>a. returnS \<lparr> cmd_type = t, cmd_args = a \<rparr>))"

section \<open>Packets\<close>

text \<open>
  A packet object: its \<open>packet_type\<close> and its dynamic type with its members. The sub-packet of a relay
  packet is a shared pointer, possibly null.
\<close>

datatype packet = Packet (packet_type: u32) (packet_body: packet_body)
and packet_body =
    Client_Transfer client_transfer
  | Entity_Transfer entity_transfer
  | Local_Entity_List local_entity_list
  | Client_ID_Assign network_identity
  | Command command
  | Relay network_identity "packet option"

fun packet_ser :: "packet \<Rightarrow> writer \<Rightarrow> writer res"
and packet_data_ser :: "packet_body \<Rightarrow> writer \<Rightarrow> writer res" where
  "packet_ser (Packet t b) w = packet_data_ser b (bw_write_scalar t w)"
| "packet_data_ser (Client_Transfer p) w = Inr (client_transfer_ser p w)"
| "packet_data_ser (Entity_Transfer p) w = Inr (entity_transfer_ser p w)"
| "packet_data_ser (Local_Entity_List p) w = Inr (local_entity_list_ser p w)"
| "packet_data_ser (Client_ID_Assign n) w = Inr (nid_ser n w)"
| "packet_data_ser (Command c) w = Inr (command_ser c w)"
| "packet_data_ser (Relay n None) w = Inl (UB Null_Deref)"
| "packet_data_ser (Relay n (Some p)) w = packet_ser p (nid_ser n w)"

text \<open>\<open>Deserialize\<close> overwrites the members of an existing object of some dynamic type.\<close>

fun packet_des :: "packet \<Rightarrow> (reader, packet) stm"
and packet_data_des :: "packet_body \<Rightarrow> (reader, packet_body) stm" where
  "packet_des (Packet t b) =
    bindS br_read_scalar (\<lambda>t. bindS (packet_data_des b) (\<lambda>b. returnS (Packet t b)))"
| "packet_data_des (Client_Transfer _) = bindS client_transfer_des (\<lambda>p. returnS (Client_Transfer p))"
| "packet_data_des (Entity_Transfer _) = bindS entity_transfer_des (\<lambda>p. returnS (Entity_Transfer p))"
| "packet_data_des (Local_Entity_List _) =
    bindS local_entity_list_des (\<lambda>p. returnS (Local_Entity_List p))"
| "packet_data_des (Client_ID_Assign _) = bindS nid_des (\<lambda>n. returnS (Client_ID_Assign n))"
| "packet_data_des (Command _) = bindS command_des (\<lambda>c. returnS (Command c))"
| "packet_data_des (Relay _ None) = bindS nid_des (\<lambda>_. throwS (UB Null_Deref))"
| "packet_data_des (Relay _ (Some p)) =
    bindS nid_des (\<lambda>n. bindS (packet_des p) (\<lambda>q. returnS (Relay n (Some q))))"

fun packet_validate :: "packet \<Rightarrow> bool"
and packet_data_validate :: "packet_body \<Rightarrow> bool" where
  "packet_validate (Packet t b) \<longleftrightarrow> t \<noteq> 0xFFFFFFFF \<and> packet_data_validate b"
| "packet_data_validate (Client_Transfer _) = True"
| "packet_data_validate (Entity_Transfer _) = True"
| "packet_data_validate (Local_Entity_List p) = local_entity_list_validate p"
| "packet_data_validate (Client_ID_Assign n) = (\<not> uuid_is_nil (nid_id n))"
| "packet_data_validate (Command c) = (cmd_type c \<noteq> cmd_invalid)"
| "packet_data_validate (Relay n p) =
    (nid_type n \<noteq> nt_invalid \<and> (case p of None \<Rightarrow> False | Some q \<Rightarrow> packet_validate q))"

section \<open>The registry\<close>

text \<open>A factory makes a default object of its packet class.\<close>

type_synonym registry = "u32 \<Rightarrow> packet option"

definition registry_register :: "u32 \<Rightarrow> packet \<Rightarrow> registry \<Rightarrow> bool \<times> registry" where
  "registry_register t fn R = (case R t of None \<Rightarrow> (True, R(t \<mapsto> fn)) | Some _ \<Rightarrow> (False, R))"

definition registry_create :: "registry \<Rightarrow> u32 \<Rightarrow> packet res" where
  "registry_create R t =
    (case R t of None \<Rightarrow> Inl (AssertFail ''Packet Type not registered?'') | Some p \<Rightarrow> Inr p)"

definition create_from_bytes :: "registry \<Rightarrow> bytes \<Rightarrow> packet res" where
  "create_from_bytes R bs =
    bindE (br_read_scalar (br_new bs)) (\<lambda>(t, _).
    bindE (registry_create R t) (\<lambda>obj.
    bindE (packet_des obj (br_new bs)) (\<lambda>(pkt, _).
      if \<not> packet_validate pkt then Inl (AssertFail ''Message From bytes failed to validate'')
      else Inr pkt)))"

definition create_client_transfer :: packet where
  "create_client_transfer =
    Packet tid_client_transfer (Client_Transfer
      \<lparr> ctp_transfer_id = nil_uuid, ctp_stage = 0, ctp_data = CT_Prepare [] \<rparr>)"

definition create_entity_transfer :: packet where
  "create_entity_transfer =
    Packet tid_entity_transfer (Entity_Transfer
      \<lparr> etp_transfer_id = nil_uuid, etp_stage = 0, etp_data = ET_Prepare [] \<rparr>)"

definition create_local_entity_list :: packet where
  "create_local_entity_list =
    Packet tid_local_entity_list (Local_Entity_List
      \<lparr> lel_status = lel_query, lel_include_metadata = False, lel_entities = Full_Entities [] \<rparr>)"

definition create_client_id_assign :: packet where
  "create_client_id_assign = Packet tid_client_id_assign (Client_ID_Assign nid_new)"

text \<open>The registrations the packet headers run before \<open>main\<close>.\<close>

definition packet_registry :: registry where
  "packet_registry =
    snd (registry_register tid_client_id_assign create_client_id_assign
    (snd (registry_register tid_local_entity_list create_local_entity_list
    (snd (registry_register tid_entity_transfer create_entity_transfer
    (snd (registry_register tid_client_transfer create_client_transfer (\<lambda>_. None))))))))"

end
