(* ===== verification/Packet_Codec.thy ===== *)
theory Packet_Codec
  imports Packets
begin

text \<open>
  The codec contract of every packet, from the contracts of the sequences and stage structures it is
  made of, and what follows for \<open>PacketRegistry::CreateFromBytes\<close>, the entry point of every message.
\<close>

section \<open>Generic codecs\<close>

definition seq_enc :: "('a \<Rightarrow> bytes) \<Rightarrow> 'a list \<Rightarrow> bytes" where
  "seq_enc enc xs = be_enc (of_nat (length xs) :: u64) @ concat (map enc xs)"

definition seq_ok :: "('a \<Rightarrow> bool) \<Rightarrow> 'a list \<Rightarrow> bool" where
  "seq_ok ok xs \<longleftrightarrow> length xs < 2 ^ 64 \<and> (\<forall>x \<in> set xs. ok x)"

lemma codec_seq:
  assumes "codec ser des enc ok"
  shows "codec (bw_seq ser) (br_seq des) (seq_enc enc) (seq_ok ok)"
proof
  fix xs w assume "seq_ok ok xs"
  then show "bw_seq ser xs w = bw_write (seq_enc enc xs) w"
    using codec.fold_ser [OF assms] by (simp add: bw_seq_def seq_enc_def seq_ok_def enc_simps)
next
  fix xs assume ok: "seq_ok ok xs"
  then have "unat (of_nat (length xs) :: u64) = length xs"
    by (simp add: seq_ok_def unat_of_nat take_bit_nat_eq_self)
  moreover have "decodes (repeatS (length xs) des) (concat (map enc xs)) xs"
    using codec.decodes_list [OF assms] ok by (simp add: seq_ok_def)
  ultimately show "decodes (br_seq des) (seq_enc enc xs) xs"
    unfolding br_seq_def seq_enc_def by (intro decodes_bind [OF decodes_ints(3)]) simp
qed

lemma codec_pair:
  assumes "codec s1 d1 e1 ok1" and "codec s2 d2 e2 ok2"
  shows "codec (\<lambda>x w. s2 (snd x) (s1 (fst x) w))
    (bindS d1 (\<lambda>a. bindS d2 (\<lambda>b. returnS (a, b))))
    (\<lambda>x. e1 (fst x) @ e2 (snd x)) (\<lambda>x. ok1 (fst x) \<and> ok2 (snd x))"
proof
  fix x w assume "ok1 (fst x) \<and> ok2 (snd x)"
  then show "s2 (snd x) (s1 (fst x) w) = bw_write (e1 (fst x) @ e2 (snd x)) w"
    by (simp add: codec.ser_enc [OF assms(1)] codec.ser_enc [OF assms(2)] enc_simps)
next
  fix x assume "ok1 (fst x) \<and> ok2 (snd x)"
  then have "decodes d1 (e1 (fst x)) (fst x)" "decodes d2 (e2 (snd x)) (snd x)"
    by (simp_all add: codec.des_enc [OF assms(1)] codec.des_enc [OF assms(2)])
  then have "decodes (bindS d1 (\<lambda>a. bindS d2 (\<lambda>b. returnS (a, b)))) (e1 (fst x) @ e2 (snd x))
      (fst x, snd x)"
    by - (rule decodes_bind decodes_bind_last decodes_return | assumption)+
  then show "decodes (bindS d1 (\<lambda>a. bindS d2 (\<lambda>b. returnS (a, b)))) (e1 (fst x) @ e2 (snd x)) x"
    by simp
qed

section \<open>The stage structures\<close>

interpretation entityseqc: codec entity_seq_ser entity_seq_des
  "\<lambda>x. entity_enc (fst x) @ be_enc (snd x)" "\<lambda>x. entity_ok (fst x) \<and> True"
  using codec_pair [OF entityc.codec_axioms u64c.codec_axioms]
  by (simp add: entity_seq_ser_def [abs_def] entity_seq_des_def)

interpretation idseqc: codec id_seq_ser id_seq_des
  "\<lambda>x. fst x @ be_enc (snd x)" "\<lambda>x. length (fst x) = 16 \<and> True"
  using codec_pair [OF uuidc.codec_axioms u64c.codec_axioms]
  by (simp add: id_seq_ser_def [abs_def] id_seq_des_def)

interpretation idseqgenc: codec id_seq_gen_ser id_seq_gen_des
  "\<lambda>x. fst x @ be_enc (fst (snd x)) @ be_enc (snd (snd x))" "\<lambda>x. length (fst x) = 16"
proof
  fix x :: "bytes \<times> u64 \<times> u64" and w
  show "id_seq_gen_ser x w = bw_write (fst x @ be_enc (fst (snd x)) @ be_enc (snd (snd x))) w"
    by (simp add: id_seq_gen_ser_def enc_simps)
next
  fix x :: "bytes \<times> u64 \<times> u64" assume "length (fst x) = 16"
  then have "decodes id_seq_gen_des (fst x @ be_enc (fst (snd x)) @ be_enc (snd (snd x)))
      (fst x, fst (snd x), snd (snd x))"
    unfolding id_seq_gen_des_def by - (rule decodes_bind decodes_bind_last decodes_intros | assumption)+
  then show "decodes id_seq_gen_des (fst x @ be_enc (fst (snd x)) @ be_enc (snd (snd x))) x" by simp
qed

interpretation entityseqsc: codec "bw_seq entity_seq_ser" "br_seq entity_seq_des"
  "seq_enc (\<lambda>x. entity_enc (fst x) @ be_enc (snd x))" "seq_ok (\<lambda>x. entity_ok (fst x) \<and> True)"
  by (rule codec_seq) (rule entityseqc.codec_axioms)

interpretation idseqsc: codec "bw_seq id_seq_ser" "br_seq id_seq_des"
  "seq_enc (\<lambda>x. fst x @ be_enc (snd x))" "seq_ok (\<lambda>x. length (fst x) = 16 \<and> True)"
  by (rule codec_seq) (rule idseqc.codec_axioms)

interpretation idseqgensc: codec "bw_seq id_seq_gen_ser" "br_seq id_seq_gen_des"
  "seq_enc (\<lambda>x. fst x @ be_enc (fst (snd x)) @ be_enc (snd (snd x)))" "seq_ok (\<lambda>x. length (fst x) = 16)"
  by (rule codec_seq) (rule idseqgenc.codec_axioms)

interpretation uuidsc: codec "bw_seq bw_uuid" "br_seq br_uuid" "seq_enc (\<lambda>u. u)"
  "seq_ok (\<lambda>u. length u = 16)"
  by (rule codec_seq) (rule uuidc.codec_axioms)

interpretation entitiesc: codec "bw_seq entity_ser" "br_seq entity_des" "seq_enc entity_enc"
  "seq_ok entity_ok"
  by (rule codec_seq) (rule entityc.codec_axioms)

interpretation entitiesminc: codec "bw_seq entity_minimal_ser" "br_seq entity_minimal_des"
  "seq_enc entity_minimal_enc" "seq_ok entity_minimal_ok"
  by (rule codec_seq) (rule entityminc.codec_axioms)

lemmas seq_decodes = entityseqsc.des_enc idseqsc.des_enc idseqgensc.des_enc uuidsc.des_enc
  entitiesc.des_enc entitiesminc.des_enc

lemmas seq_sers = entityseqsc.ser_enc idseqsc.ser_enc idseqgensc.ser_enc uuidsc.ser_enc
  entitiesc.ser_enc entitiesminc.ser_enc

section \<open>The packets\<close>

fun ct_stage_of :: "client_transfer_data \<Rightarrow> u32" where
  "ct_stage_of (CT_Prepare _) = 0"
| "ct_stage_of (CT_Ready _) = 1"
| "ct_stage_of (CT_Request_Switch _ _) = 2"
| "ct_stage_of (CT_Freeze _) = 3"
| "ct_stage_of (CT_Drained _) = 4"
| "ct_stage_of (CT_Activate _) = 5"

fun ct_data_enc :: "client_transfer_data \<Rightarrow> bytes" where
  "ct_data_enc (CT_Prepare xs) = seq_enc (\<lambda>x. entity_enc (fst x) @ be_enc (snd x)) xs"
| "ct_data_enc (CT_Ready xs) = seq_enc (\<lambda>x. fst x @ be_enc (snd x)) xs"
| "ct_data_enc (CT_Request_Switch xs n) = seq_enc (\<lambda>u. u) xs @ nid_enc n"
| "ct_data_enc (CT_Freeze xs) = seq_enc (\<lambda>u. u) xs"
| "ct_data_enc (CT_Drained xs) = seq_enc (\<lambda>x. fst x @ be_enc (snd x)) xs"
| "ct_data_enc (CT_Activate xs) =
    seq_enc (\<lambda>x. fst x @ be_enc (fst (snd x)) @ be_enc (snd (snd x))) xs"

fun ct_data_ok :: "client_transfer_data \<Rightarrow> bool" where
  "ct_data_ok (CT_Prepare xs) = seq_ok (\<lambda>x. entity_ok (fst x) \<and> True) xs"
| "ct_data_ok (CT_Ready xs) = seq_ok (\<lambda>x. length (fst x) = 16 \<and> True) xs"
| "ct_data_ok (CT_Request_Switch xs n) = (seq_ok (\<lambda>u. length u = 16) xs \<and> nid_ok n)"
| "ct_data_ok (CT_Freeze xs) = seq_ok (\<lambda>u. length u = 16) xs"
| "ct_data_ok (CT_Drained xs) = seq_ok (\<lambda>x. length (fst x) = 16 \<and> True) xs"
| "ct_data_ok (CT_Activate xs) = seq_ok (\<lambda>x. length (fst x) = 16) xs"

lemma ct_data_ser_enc: "ct_data_ok d \<Longrightarrow> ct_data_ser d w = bw_write (ct_data_enc d) w"
  by (cases d) (simp_all add: seq_sers enc_simps)

lemma decodes_ct_data: "ct_data_ok d \<Longrightarrow> decodes (ct_data_des (ct_stage_of d)) (ct_data_enc d) d"
proof (cases d)
  case (CT_Request_Switch xs n)
  moreover assume "ct_data_ok d"
  ultimately have "seq_ok (\<lambda>u. length u = 16) xs" "nid_ok n" by simp_all
  then have "decodes (bindS (br_seq br_uuid) (\<lambda>xs. bindS nid_des (\<lambda>n. returnS (CT_Request_Switch xs n))))
      (seq_enc (\<lambda>u. u) xs @ nid_enc n) (CT_Request_Switch xs n)"
    by - (rule decodes_bind decodes_bind_last seq_decodes decodes_intros | assumption)+
  with CT_Request_Switch show ?thesis by (simp add: ct_data_des_def)
qed (simp_all add: ct_data_des_def decodes_bind_return seq_decodes)

definition client_transfer_ok :: "client_transfer \<Rightarrow> bool" where
  "client_transfer_ok p \<longleftrightarrow> length (ctp_transfer_id p) = 16 \<and> ct_data_ok (ctp_data p) \<and>
    ctp_stage p = ct_stage_of (ctp_data p)"

definition client_transfer_enc :: "client_transfer \<Rightarrow> bytes" where
  "client_transfer_enc p = ctp_transfer_id p @ be_enc (ctp_stage p) @ ct_data_enc (ctp_data p)"

lemma client_transfer_collapse [simp]:
  "\<lparr> ctp_transfer_id = ctp_transfer_id p, ctp_stage = ctp_stage p, ctp_data = ctp_data p \<rparr> = p"
  by (cases p) simp

interpretation clienttransferc: codec client_transfer_ser client_transfer_des client_transfer_enc
  client_transfer_ok
proof
  fix p w assume "client_transfer_ok p"
  then show "client_transfer_ser p w = bw_write (client_transfer_enc p) w"
    by (simp add: client_transfer_ser_def client_transfer_enc_def client_transfer_ok_def
        ct_data_ser_enc enc_simps)
next
  fix p assume "client_transfer_ok p"
  then have "length (ctp_transfer_id p) = 16"
    "decodes (ct_data_des (ctp_stage p)) (ct_data_enc (ctp_data p)) (ctp_data p)"
    by (simp_all add: client_transfer_ok_def decodes_ct_data)
  then have "decodes client_transfer_des (client_transfer_enc p)
      \<lparr> ctp_transfer_id = ctp_transfer_id p, ctp_stage = ctp_stage p, ctp_data = ctp_data p \<rparr>"
    unfolding client_transfer_des_def client_transfer_enc_def
    by - (rule decodes_bind decodes_bind_last decodes_intros | assumption)+
  then show "decodes client_transfer_des (client_transfer_enc p) p" by simp
qed

fun et_stage_of :: "entity_transfer_data \<Rightarrow> u32" where
  "et_stage_of (ET_Prepare _) = 0"
| "et_stage_of ET_Ready = 1"
| "et_stage_of (ET_Commit _) = 2"
| "et_stage_of ET_Complete = 3"

fun et_data_enc :: "entity_transfer_data \<Rightarrow> bytes" where
  "et_data_enc (ET_Prepare xs) = seq_enc (\<lambda>u. u) xs"
| "et_data_enc ET_Ready = []"
| "et_data_enc (ET_Commit xs) = seq_enc (\<lambda>x. entity_enc (fst x) @ be_enc (snd x)) xs"
| "et_data_enc ET_Complete = []"

fun et_data_ok :: "entity_transfer_data \<Rightarrow> bool" where
  "et_data_ok (ET_Prepare xs) = seq_ok (\<lambda>u. length u = 16) xs"
| "et_data_ok ET_Ready = True"
| "et_data_ok (ET_Commit xs) = seq_ok (\<lambda>x. entity_ok (fst x) \<and> True) xs"
| "et_data_ok ET_Complete = True"

lemma et_data_ser_enc: "et_data_ok d \<Longrightarrow> et_data_ser d w = bw_write (et_data_enc d) w"
  by (cases d) (simp_all add: seq_sers enc_simps)

lemma decodes_et_data: "et_data_ok d \<Longrightarrow> decodes (et_data_des (et_stage_of d)) (et_data_enc d) d"
  by (cases d) (simp_all add: et_data_des_def decodes_bind_return seq_decodes decodes_return)

definition entity_transfer_ok :: "entity_transfer \<Rightarrow> bool" where
  "entity_transfer_ok p \<longleftrightarrow> length (etp_transfer_id p) = 16 \<and> et_data_ok (etp_data p) \<and>
    etp_stage p = et_stage_of (etp_data p)"

definition entity_transfer_enc :: "entity_transfer \<Rightarrow> bytes" where
  "entity_transfer_enc p = etp_transfer_id p @ be_enc (etp_stage p) @ et_data_enc (etp_data p)"

lemma entity_transfer_collapse [simp]:
  "\<lparr> etp_transfer_id = etp_transfer_id p, etp_stage = etp_stage p, etp_data = etp_data p \<rparr> = p"
  by (cases p) simp

interpretation entitytransferc: codec entity_transfer_ser entity_transfer_des entity_transfer_enc
  entity_transfer_ok
proof
  fix p w assume "entity_transfer_ok p"
  then show "entity_transfer_ser p w = bw_write (entity_transfer_enc p) w"
    by (simp add: entity_transfer_ser_def entity_transfer_enc_def entity_transfer_ok_def
        et_data_ser_enc enc_simps)
next
  fix p assume "entity_transfer_ok p"
  then have "length (etp_transfer_id p) = 16"
    "decodes (et_data_des (etp_stage p)) (et_data_enc (etp_data p)) (etp_data p)"
    by (simp_all add: entity_transfer_ok_def decodes_et_data)
  then have "decodes entity_transfer_des (entity_transfer_enc p)
      \<lparr> etp_transfer_id = etp_transfer_id p, etp_stage = etp_stage p, etp_data = etp_data p \<rparr>"
    unfolding entity_transfer_des_def entity_transfer_enc_def
    by - (rule decodes_bind decodes_bind_last decodes_intros | assumption)+
  then show "decodes entity_transfer_des (entity_transfer_enc p) p" by simp
qed

fun entity_list_enc :: "entity_list \<Rightarrow> bytes" where
  "entity_list_enc (Full_Entities xs) = seq_enc entity_enc xs"
| "entity_list_enc (Minimal_Entities xs) = seq_enc entity_minimal_enc xs"

fun entity_list_ok :: "bool \<Rightarrow> entity_list \<Rightarrow> bool" where
  "entity_list_ok m (Full_Entities xs) = (m \<and> seq_ok entity_ok xs)"
| "entity_list_ok m (Minimal_Entities xs) = (\<not> m \<and> seq_ok entity_minimal_ok xs)"

definition local_entity_list_ok :: "local_entity_list \<Rightarrow> bool" where
  "local_entity_list_ok p \<longleftrightarrow> entity_list_ok (lel_include_metadata p) (lel_entities p)"

definition local_entity_list_enc :: "local_entity_list \<Rightarrow> bytes" where
  "local_entity_list_enc p =
    be_enc (lel_status p) @ [if lel_include_metadata p then 1 else 0] @ entity_list_enc (lel_entities p)"

lemma local_entity_list_collapse [simp]:
  "\<lparr> lel_status = lel_status p, lel_include_metadata = lel_include_metadata p,
     lel_entities = lel_entities p \<rparr> = p"
  by (cases p) simp

lemma bw_i8_enc [enc_simps]: "bw_i8 v w = bw_write [v] w"
  by (simp add: bw_i8_def bw_push_back_def bw_write_def)

interpretation localentitylistc: codec local_entity_list_ser local_entity_list_des
  local_entity_list_enc local_entity_list_ok
proof
  fix p w assume "local_entity_list_ok p"
  then show "local_entity_list_ser p w = bw_write (local_entity_list_enc p) w"
    by (cases "lel_entities p")
       (simp_all add: local_entity_list_ser_def local_entity_list_enc_def local_entity_list_ok_def
          seq_sers enc_simps)
next
  fix p assume ok: "local_entity_list_ok p"
  let ?m = "if lel_include_metadata p then 1 else 0 :: u8"
  have m: "(scast ?m :: u32) \<noteq> 0 \<longleftrightarrow> lel_include_metadata p" by simp
  have "decodes (if (scast ?m :: u32) \<noteq> 0
        then bindS (br_seq entity_des) (\<lambda>xs. returnS (Full_Entities xs))
        else bindS (br_seq entity_minimal_des) (\<lambda>xs. returnS (Minimal_Entities xs)))
      (entity_list_enc (lel_entities p)) (lel_entities p)"
    using ok unfolding m local_entity_list_ok_def
    by (cases "lel_entities p") (auto intro: decodes_bind_return seq_decodes)
  then have "decodes local_entity_list_des (local_entity_list_enc p)
      \<lparr> lel_status = lel_status p, lel_include_metadata = ((scast ?m :: u32) \<noteq> 0),
        lel_entities = lel_entities p \<rparr>"
    unfolding local_entity_list_des_def local_entity_list_enc_def
    by - (rule decodes_bind decodes_bind_last decodes_read_u32 decodes_br_i8 decodes_return | assumption)+
  then show "decodes local_entity_list_des (local_entity_list_enc p) p" unfolding m by simp
qed

definition command_enc :: "command \<Rightarrow> bytes" where
  "command_enc c = be_enc (cmd_type c) @ str_enc (cmd_args c)"

definition command_ok :: "command \<Rightarrow> bool" where
  "command_ok c \<longleftrightarrow> length (cmd_args c) < 2 ^ 32"

lemma command_collapse [simp]: "\<lparr> cmd_type = cmd_type c, cmd_args = cmd_args c \<rparr> = c"
  by (cases c) simp

interpretation commandc: codec command_ser command_des command_enc command_ok
proof
  fix c w assume "command_ok c"
  then show "command_ser c w = bw_write (command_enc c) w"
    by (simp add: command_ser_def command_enc_def enc_simps)
next
  fix c assume "command_ok c"
  then have "length (cmd_args c) < 2 ^ 32" by (simp add: command_ok_def)
  then have "decodes command_des (command_enc c) \<lparr> cmd_type = cmd_type c, cmd_args = cmd_args c \<rparr>"
    unfolding command_des_def command_enc_def
    by - (rule decodes_bind decodes_bind_last decodes_intros | assumption)+
  then show "decodes command_des (command_enc c) c" by simp
qed

text \<open>A packet that can be transmitted, and the objects into which it can be read: those of the
  same dynamic type, down to the sub-packet of a relay packet.\<close>

fun packet_ok :: "packet \<Rightarrow> bool"
and packet_body_ok :: "packet_body \<Rightarrow> bool" where
  "packet_ok (Packet t b) = packet_body_ok b"
| "packet_body_ok (Client_Transfer p) = client_transfer_ok p"
| "packet_body_ok (Entity_Transfer p) = entity_transfer_ok p"
| "packet_body_ok (Local_Entity_List p) = local_entity_list_ok p"
| "packet_body_ok (Client_ID_Assign n) = nid_ok n"
| "packet_body_ok (Command c) = command_ok c"
| "packet_body_ok (Relay n p) = (nid_ok n \<and> (case p of None \<Rightarrow> False | Some q \<Rightarrow> packet_ok q))"

fun same_type :: "packet \<Rightarrow> packet \<Rightarrow> bool"
and same_body_type :: "packet_body \<Rightarrow> packet_body \<Rightarrow> bool" where
  "same_type (Packet _ b) (Packet _ b') = same_body_type b b'"
| "same_body_type (Client_Transfer _) (Client_Transfer _) = True"
| "same_body_type (Entity_Transfer _) (Entity_Transfer _) = True"
| "same_body_type (Local_Entity_List _) (Local_Entity_List _) = True"
| "same_body_type (Client_ID_Assign _) (Client_ID_Assign _) = True"
| "same_body_type (Command _) (Command _) = True"
| "same_body_type (Relay _ (Some p)) (Relay _ (Some q)) = same_type p q"
| "same_body_type _ _ = False"

fun packet_enc :: "packet \<Rightarrow> bytes"
and packet_body_enc :: "packet_body \<Rightarrow> bytes" where
  "packet_enc (Packet t b) = be_enc t @ packet_body_enc b"
| "packet_body_enc (Client_Transfer p) = client_transfer_enc p"
| "packet_body_enc (Entity_Transfer p) = entity_transfer_enc p"
| "packet_body_enc (Local_Entity_List p) = local_entity_list_enc p"
| "packet_body_enc (Client_ID_Assign n) = nid_enc n"
| "packet_body_enc (Command c) = command_enc c"
| "packet_body_enc (Relay n None) = []"
| "packet_body_enc (Relay n (Some p)) = nid_enc n @ packet_enc p"

lemma packet_ser_enc:
  "packet_ok p \<Longrightarrow> packet_ser p w = Inr (bw_write (packet_enc p) w)"
  "packet_body_ok b \<Longrightarrow> packet_data_ser b w = Inr (bw_write (packet_body_enc b) w)"
  by (induction p w and b w rule: packet_ser_packet_data_ser.induct)
     (simp_all add: enc_simps clienttransferc.ser_enc entitytransferc.ser_enc
        localentitylistc.ser_enc commandc.ser_enc)

lemma decodes_packet:
  "packet_ok p \<Longrightarrow> same_type obj p \<Longrightarrow> decodes (packet_des obj) (packet_enc p) p"
  "packet_body_ok b \<Longrightarrow> same_body_type bobj b \<Longrightarrow> decodes (packet_data_des bobj) (packet_body_enc b) b"
proof (induction obj p and bobj b rule: same_type_same_body_type.induct)
  case (1 t b t' b')
  then have "decodes (packet_data_des b) (packet_body_enc b') b'" by simp
  then have "decodes (packet_des (Packet t b)) (be_enc t' @ packet_body_enc b') (Packet t' b')"
    unfolding packet_des.simps
    by - (rule decodes_bind decodes_bind_last decodes_read_u32 decodes_return | assumption)+
  then show ?case by simp
next
  case (7 n p m q)
  then have "nid_ok m" "decodes (packet_des p) (packet_enc q) q" by simp_all
  then have "decodes (packet_data_des (Relay n (Some p))) (nid_enc m @ packet_enc q) (Relay m (Some q))"
    unfolding packet_data_des.simps
    by - (rule decodes_bind decodes_bind_last decodes_nid decodes_return | assumption)+
  then show ?case by simp
qed (simp_all add: decodes_bind_return clienttransferc.des_enc entitytransferc.des_enc
      localentitylistc.des_enc commandc.des_enc nidc.des_enc)

section \<open>Messages from bytes\<close>

text \<open>The names of the packets hash to different identifiers, none of them the invalid one.\<close>

lemma type_ids:
  "tid_client_transfer = 0x80D3CCC1" "tid_entity_transfer = 0x2C23018D"
  "tid_local_entity_list = 0x27B44B5C" "tid_client_id_assign = 0xF8E07212"
  "tid_command = 0xB8CF340A" "tid_relay = 0x3AE6525A"
  by (simp_all add: tid_client_transfer_def tid_entity_transfer_def tid_local_entity_list_def
      tid_client_id_assign_def tid_command_def tid_relay_def hash_string_def)

fun type_id_of :: "packet_body \<Rightarrow> u32" where
  "type_id_of (Client_Transfer _) = tid_client_transfer"
| "type_id_of (Entity_Transfer _) = tid_entity_transfer"
| "type_id_of (Local_Entity_List _) = tid_local_entity_list"
| "type_id_of (Client_ID_Assign _) = tid_client_id_assign"
| "type_id_of (Command _) = tid_command"
| "type_id_of (Relay _ _) = tid_relay"

fun registered :: "packet_body \<Rightarrow> bool" where
  "registered (Command _) = False"
| "registered (Relay _ _) = False"
| "registered _ = True"

lemma packet_registry_eq:
  "packet_registry = [tid_client_transfer \<mapsto> create_client_transfer,
     tid_entity_transfer \<mapsto> create_entity_transfer,
     tid_local_entity_list \<mapsto> create_local_entity_list,
     tid_client_id_assign \<mapsto> create_client_id_assign]"
  by (simp add: packet_registry_def registry_register_def type_ids)

lemma packet_registry_type:
  assumes "registered b"
  obtains obj where "packet_registry (type_id_of b) = Some obj" and "same_type obj (Packet t b)"
  using assms
  by (cases b) (auto simp: packet_registry_eq type_ids create_client_transfer_def
      create_entity_transfer_def create_local_entity_list_def create_client_id_assign_def)

lemma registered_type_valid: "type_id_of b \<noteq> 0xFFFFFFFF"
  by (cases b) (simp_all add: type_ids)

lemma read_type_prefix:
  assumes "reader_ok (br_new bs)" and "prefix (be_enc t) bs"
  shows "br_read_scalar (br_new bs) = Inr (t :: u32, br_skip 4 (br_new bs))"
  using decodesD [OF decodes_read_u32, of "br_new bs" t] assms
  by (simp add: br_new_def br_left_def be_enc_def)

text \<open>What the receiver of the bytes of a packet makes of them.\<close>

lemma sent_packet_created:
  assumes "registered b" and "packet_body_ok b" and "packet_data_validate b"
    and "length (packet_body_enc b) + length rest < 2 ^ 62"
  shows "\<exists>w. packet_ser (Packet (type_id_of b) b) bw_new = Inr w \<and>
    create_from_bytes packet_registry (bw_bytes w @ rest) = Inr (Packet (type_id_of b) b)"
proof -
  let ?p = "Packet (type_id_of b) b" and ?w = "bw_write (packet_enc (Packet (type_id_of b) b)) bw_new"
  obtain obj where obj: "packet_registry (type_id_of b) = Some obj" "same_type obj ?p"
    using packet_registry_type [OF assms(1)] .
  have w: "bw_bytes ?w = packet_enc ?p" by (simp add: bw_bytes_def bw_write_def bw_new_def)
  have ok: "reader_ok (br_new (packet_enc ?p @ rest))"
    using assms(4) by (simp add: reader_ok_def br_new_def be_enc_def)
  have "br_read_scalar (br_new (packet_enc ?p @ rest)) =
      Inr (type_id_of b, br_skip 4 (br_new (packet_enc ?p @ rest)))"
    using ok by (intro read_type_prefix) auto
  moreover have "packet_des obj (br_new (packet_enc ?p @ rest)) =
      Inr (?p, br_skip (length (packet_enc ?p)) (br_new (packet_enc ?p @ rest)))"
    using decodesD [OF decodes_packet(1) [OF _ obj(2)] ok] assms(2)
    by (simp add: br_left_def br_new_def)
  ultimately have "create_from_bytes packet_registry (packet_enc ?p @ rest) = Inr ?p"
    using assms(3) registered_type_valid [of b]
    by (simp add: create_from_bytes_def registry_create_def obj)
  then have "create_from_bytes packet_registry (bw_bytes ?w @ rest) = Inr ?p" by (simp only: w)
  moreover have "packet_ser ?p bw_new = Inr ?w"
    using assms(2) by (intro packet_ser_enc) simp
  ultimately show ?thesis by blast
qed

text \<open>The alternative of a list of entities is read by the flag of the packet, so an empty list of the other
  alternative changes it.\<close>

fun entity_list_received :: "bool \<Rightarrow> entity_list \<Rightarrow> entity_list" where
  "entity_list_received m (Full_Entities xs) = (if xs = [] \<and> \<not> m then Minimal_Entities [] else Full_Entities xs)"
| "entity_list_received m (Minimal_Entities xs) = (if xs = [] \<and> m then Full_Entities [] else Minimal_Entities xs)"

fun as_received :: "packet_body \<Rightarrow> packet_body" where
  "as_received (Local_Entity_List p) =
    Local_Entity_List (p \<lparr> lel_entities := entity_list_received (lel_include_metadata p) (lel_entities p) \<rparr>)"
| "as_received b = b"

lemma entity_list_received_ser: "entity_list_ser (entity_list_received m es) w = entity_list_ser es w"
  by (cases es) (auto simp: bw_seq_def)

lemma as_received_same [simp]: "registered (as_received b) = registered b" "type_id_of (as_received b) = type_id_of b"
  by (cases b; simp)+

lemma as_received_ser: "packet_ser (Packet t (as_received b)) w = packet_ser (Packet t b) w"
  by (cases b) (simp_all add: local_entity_list_ser_def entity_list_received_ser)

lemma as_received_validate: "packet_data_validate b \<Longrightarrow> packet_data_validate (as_received b)"
proof (cases b)
  case (Local_Entity_List p)
  moreover assume "packet_data_validate b"
  ultimately show ?thesis
    by (cases "lel_entities p") (auto simp: local_entity_list_validate_def split: if_splits)
qed simp_all

text \<open>C4: a packet of a registered class that validates, serialized and received, possibly with bytes after
  it, is rebuilt unchanged but for one thing: an empty list of entities, as the query that is sent has, comes back in
  the alternative that the flag of the packet announces. The packet is one of the wire: identifiers have
  sixteen bytes, texts fewer than 2^32, lists fewer than 2^64 entries, boxes three axes, the alternative is
  that of the stage or of the flag unless the list is empty, and there are fewer than 2^62 bytes in all.\<close>

theorem packet_roundtrip:
  assumes "registered b" and "packet_body_ok (as_received b)" and "packet_data_validate b"
    and "length (packet_body_enc (as_received b)) + length rest < 2 ^ 62"
  shows "\<exists>w. packet_ser (Packet (type_id_of b) b) bw_new = Inr w \<and>
    create_from_bytes packet_registry (bw_bytes w @ rest) = Inr (Packet (type_id_of b) (as_received b))"
  using sent_packet_created [of "as_received b" rest] assms as_received_validate [OF assms(3)]
  by (simp only: as_received_ser as_received_same)

theorem packet_roundtrip_witness:
  "\<exists>w. packet_ser (Packet tid_local_entity_list (Local_Entity_List
        \<lparr> lel_status = lel_query, lel_include_metadata = False, lel_entities = Full_Entities [] \<rparr>)) bw_new = Inr w \<and>
    create_from_bytes packet_registry (bw_bytes w @ [9]) = Inr (Packet tid_local_entity_list (Local_Entity_List
        \<lparr> lel_status = lel_query, lel_include_metadata = False, lel_entities = Minimal_Entities [] \<rparr>))"
  using packet_roundtrip [of "Local_Entity_List
        \<lparr> lel_status = lel_query, lel_include_metadata = False, lel_entities = Full_Entities [] \<rparr>" "[9]"]
  by (simp add: local_entity_list_ok_def seq_ok_def local_entity_list_enc_def seq_enc_def be_enc_def
      local_entity_list_validate_def)

text \<open>A packet of a registered class cut short anywhere is rejected with a \<open>ByteError\<close>.\<close>

theorem packet_truncated:
  assumes "registered b" and "packet_body_ok b"
    and "packet_ser (Packet (type_id_of b) b) bw_new = Inr w"
    and "strict_prefix bs (bw_bytes w)" and "length bs < 2 ^ 63"
  shows "\<exists>msg. create_from_bytes packet_registry bs = Inl (ByteError msg)"
proof -
  let ?p = "Packet (type_id_of b) b"
  obtain obj where obj: "packet_registry (type_id_of b) = Some obj" "same_type obj ?p"
    using packet_registry_type [OF assms(1)] .
  have "w = bw_write (packet_enc ?p) bw_new"
    using packet_ser_enc(1) [of ?p bw_new] assms(2,3) by simp
  then have pre: "strict_prefix bs (packet_enc ?p)"
    using assms(4) by (simp add: bw_bytes_def bw_write_def bw_new_def)
  have ok: "reader_ok (br_new bs)" "br_left (br_new bs) = bs"
    using assms(5) by (simp_all add: reader_ok_def br_new_def br_left_def)
  show ?thesis
  proof (cases "prefix (be_enc (type_id_of b)) bs")
    case True
    obtain msg where "packet_des obj (br_new bs) = Inl (ByteError msg)"
      using decodes_short [OF decodes_packet(1) [OF _ obj(2)] ok(1)] assms(2) pre ok(2) by auto
    then show ?thesis
      using read_type_prefix [OF ok(1) True]
      by (simp add: create_from_bytes_def registry_create_def obj)
  next
    case False
    have "prefix bs (be_enc (type_id_of b) @ packet_body_enc b)"
      using pre by (simp add: strict_prefix_def)
    with False have "strict_prefix bs (be_enc (type_id_of b))"
      by (auto simp: prefix_append strict_prefix_def)
    then obtain msg where "(br_read_scalar :: (reader, u32) stm) (br_new bs) = Inl (ByteError msg)"
      using decodes_short [OF decodes_read_u32 ok(1)] ok(2) by metis
    then show ?thesis by (simp add: create_from_bytes_def)
  qed
qed

theorem packet_truncated_witness:
  "\<exists>msg. create_from_bytes packet_registry (be_enc tid_client_id_assign @ [0, 0]) = Inl (ByteError msg)"
proof -
  let ?n = "make_id_shard (replicate 16 1)"
  have ok: "nid_ok ?n" by (simp add: nid_ok_def make_id_shard_def)
  then have "packet_ser (Packet tid_client_id_assign (Client_ID_Assign ?n)) bw_new =
      Inr (bw_write (be_enc tid_client_id_assign @ nid_enc ?n) bw_new)"
    using packet_ser_enc(1) [of "Packet tid_client_id_assign (Client_ID_Assign ?n)" bw_new] by simp
  moreover have "be_enc (1 :: u32) = [0, 0, 0, 1]" by (simp add: be_enc_u32)
  then have "bw_bytes (bw_write (be_enc tid_client_id_assign @ nid_enc ?n) bw_new) =
      (be_enc tid_client_id_assign @ [0, 0]) @ 0 # 1 # replicate 16 1"
    by (simp add: bw_bytes_def bw_write_def bw_new_def nid_enc_def make_id_shard_def nt_shard_def)
  then have "strict_prefix (be_enc tid_client_id_assign @ [0, 0])
      (bw_bytes (bw_write (be_enc tid_client_id_assign @ nid_enc ?n) bw_new))"
    by (rule strict_prefixI')
  moreover have "length (be_enc tid_client_id_assign @ [0, 0]) < 2 ^ 63"
    by (simp add: be_enc_def)
  ultimately show ?thesis
    using ok by (intro packet_truncated [of "Client_ID_Assign ?n"]) simp_all
qed

lemma contained_seq [contained_intros]: "contained des \<Longrightarrow> contained (br_seq des)"
  unfolding br_seq_def by (rule contained_intros | assumption)+

lemma contained_stage_data [contained_intros]:
  "contained entity_seq_des" "contained id_seq_des" "contained id_seq_gen_des"
  unfolding entity_seq_des_def id_seq_des_def id_seq_gen_des_def by (rule contained_intros)+

lemma contained_packets [contained_intros]:
  "contained client_transfer_des" "contained entity_transfer_des" "contained local_entity_list_des"
  "contained command_des"
proof -
  have "contained (ct_data_des s)" "contained (et_data_des s)" for s
    unfolding ct_data_des_def et_data_des_def
    by (auto intro!: contained_intros simp del: throwS_apply returnS_apply)
  then show "contained client_transfer_des" "contained entity_transfer_des"
    unfolding client_transfer_des_def entity_transfer_des_def
    by (auto intro!: contained_intros simp del: returnS_apply)
  have "contained (if m then bindS (br_seq entity_des) (\<lambda>xs. returnS (Full_Entities xs))
      else bindS (br_seq entity_minimal_des) (\<lambda>xs. returnS (Minimal_Entities xs)))" for m
    by (simp add: contained_intros del: returnS_apply)
  then show "contained local_entity_list_des" unfolding local_entity_list_des_def
    by - (rule contained_intros | assumption)+
  show "contained command_des" unfolding command_des_def by (rule contained_intros)+
qed

lemma contained_packet_des: "contained (packet_des p)" "contained (packet_data_des b)"
proof (induction p and b)
  case (Relay n p)
  then show ?case
    by (cases p) (auto intro!: contained_intros simp del: throwS_apply returnS_apply)
qed (auto intro!: contained_intros simp del: throwS_apply returnS_apply)

text \<open>C26: whatever bytes arrive, building a packet from them never reads outside the message, and
  a packet that is built has passed its validation.\<close>

theorem packet_from_hostile_bytes:
  assumes "length bs < 2 ^ 63"
  shows "case create_from_bytes R bs of
      Inl e \<Rightarrow> e \<noteq> UB Out_Of_Bounds
    | Inr p \<Rightarrow> packet_validate p"
proof -
  have ok: "reader_ok (br_new bs)" using assms by (simp add: reader_ok_def br_new_def)
  show ?thesis
    using contained_Inl [OF contained_read_scalar ok] contained_Inl [OF contained_packet_des(1) ok]
    by (auto simp: create_from_bytes_def registry_create_def bindE_def split: sum.splits option.splits)
qed

theorem packet_from_hostile_bytes_witness:
  "create_from_bytes packet_registry [0, 1] \<noteq> Inl (UB Out_Of_Bounds)"
  using packet_from_hostile_bytes [of "[0, 1]" packet_registry] by (auto split: sum.splits)

end
