(* ===== verification/Interlink.thy ===== *)
theory Interlink
  imports Packet_Codec Identity_Equality
begin

text \<open>
  The connections between the nodes (\<open>Interlink/Interlink\<close>, \<open>Network/Connection\<close>). The socket library
  and the other services are not part of the program: what they answer is a parameter, which may
  depend on everything done so far, and what the program asks of them is recorded in a list of
  effects. The table of connections is a list in the order of insertion, in which a lookup by an
  index finds the first entry. Logging and waiting are left out.
\<close>

section \<open>State\<close>

datatype connection_state =
  C_Invalid | C_Pre_Connecting | C_Connecting | C_Connected | C_Disconnecting | C_Closed | C_Error

datatype connection_kind = K_Internal | K_External

record 'a connection =
  con_address :: 'a
  con_old_state :: connection_state
  con_state :: connection_state
  con_target :: network_identity
  con_handle :: u32
  con_kind :: connection_kind

text \<open>A new connection. The constructor leaves the states and the handle uninitialised: every caller sets
  the state at once and nothing reads the old one, so \<open>C_Invalid\<close> stands for them; the handle \<open>h\<close> is the
  one that is assigned next, or whatever the memory holds.\<close>

definition con_new :: "'a \<Rightarrow> u32 \<Rightarrow> 'a connection" where
  "con_new a h = \<lparr> con_address = a, con_old_state = C_Invalid, con_state = C_Invalid,
     con_target = nid_new, con_handle = h, con_kind = K_Internal \<rparr>"

definition set_new_state :: "connection_state \<Rightarrow> 'a connection \<Rightarrow> 'a connection" where
  "set_new_state st c = c \<lparr> con_old_state := con_state c, con_state := st \<rparr>"

definition con_is_internal :: "'a connection \<Rightarrow> bool" where
  "con_is_internal c \<longleftrightarrow> nid_is_internal (con_target c)"

datatype 'a net_effect =
    Connect_To 'a u32
  | Accept u32
  | Close_Handle u32 bool
  | Set_Poll_Group u32
  | Send_To u32 bytes u32
  | Register_Client "'a client"
  | Assign_Proxy bytes network_identity
  | Client_Connected "'a client" network_identity
  | Handshake "'a client"
  | Dispatched packet network_identity
  | Register_Self 'a
  | Register_Public 'a

type_synonym 'a history = "'a net_effect list"

type_synonym queue = "(network_identity \<times> (packet \<times> u32) list) list"

text \<open>\<open>il_refused\<close> are the packets the library refused to send, of which the program only writes an error
  to its log.\<close>

record 'a interlink =
  il_connections :: "'a connection list"
  il_queued :: queue
  il_init :: bool
  il_effects :: "'a history"
  il_refused :: "(u32 \<times> bytes) list"

text \<open>The surroundings: the identity of this node, the UUID printer, the lookups in the server
  registry (the attempt is counted), the library's answers, the UUID generator, the packet registry,
  whether the library starts, takes the identity and listens, the address of this container and the
  address that was never set; whether the library takes a packet to send, what an uninitialised handle
  holds when the table is the given one, and the order in which the index by state lists connections
  of one state.\<close>

record 'a il_env =
  ie_self :: network_identity
  ie_uuid_str :: "bytes \<Rightarrow> string"
  ie_lookup :: "'a history \<Rightarrow> nat \<Rightarrow> network_identity \<Rightarrow> 'a option"
  ie_connect :: "'a history \<Rightarrow> 'a \<Rightarrow> u32"
  ie_accept :: "'a history \<Rightarrow> u32 \<Rightarrow> bool"
  ie_gen :: "'a history \<Rightarrow> bytes"
  ie_registry :: registry
  ie_gns_ok :: bool
  ie_identity_ok :: bool
  ie_listen_ok :: bool
  ie_own_ip :: 'a
  ie_no_ip :: 'a
  ie_send :: "'a history \<Rightarrow> u32 \<Rightarrow> bytes \<Rightarrow> u32 \<Rightarrow> bool"
  ie_uninit :: "'a history \<Rightarrow> 'a connection list \<Rightarrow> u32"
  ie_by_state :: "'a history \<Rightarrow> 'a connection list \<Rightarrow> 'a connection list"

definition emit :: "'a net_effect \<Rightarrow> 'a interlink \<Rightarrow> 'a interlink" where
  "emit e s = s \<lparr> il_effects := il_effects s @ [e] \<rparr>"

definition insert_connection :: "'a connection \<Rightarrow> 'a interlink \<Rightarrow> 'a interlink" where
  "insert_connection c s = s \<lparr> il_connections := il_connections s @ [c] \<rparr>"

fun update_first :: "('a \<Rightarrow> bool) \<Rightarrow> ('a \<Rightarrow> 'a) \<Rightarrow> 'a list \<Rightarrow> 'a list" where
  "update_first P f [] = []"
| "update_first P f (x # xs) = (if P x then f x # xs else x # update_first P f xs)"

fun erase_first :: "('a \<Rightarrow> bool) \<Rightarrow> 'a list \<Rightarrow> 'a list" where
  "erase_first P [] = []"
| "erase_first P (x # xs) = (if P x then xs else x # erase_first P xs)"

definition has_target :: "'a il_env \<Rightarrow> network_identity \<Rightarrow> 'a connection \<Rightarrow> bool" where
  "has_target E who c \<longleftrightarrow> nid_eq (ie_uuid_str E) (con_target c) who"

definition has_handle :: "u32 \<Rightarrow> 'a connection \<Rightarrow> bool" where
  "has_handle h c \<longleftrightarrow> con_handle c = h"

definition find_target :: "'a il_env \<Rightarrow> network_identity \<Rightarrow> 'a interlink \<Rightarrow> 'a connection option" where
  "find_target E who s = find (has_target E who) (il_connections s)"

definition find_handle :: "u32 \<Rightarrow> 'a interlink \<Rightarrow> 'a connection option" where
  "find_handle h s = find (has_handle h) (il_connections s)"

definition modify_handle :: "u32 \<Rightarrow> ('a connection \<Rightarrow> 'a connection) \<Rightarrow> 'a interlink \<Rightarrow> 'a interlink" where
  "modify_handle h f s = s \<lparr> il_connections := update_first (has_handle h) f (il_connections s) \<rparr>"

section \<open>Queued packets\<close>

definition queue_key :: "'a il_env \<Rightarrow> network_identity \<Rightarrow> network_identity \<times> 'b \<Rightarrow> bool" where
  "queue_key E who e \<longleftrightarrow> nid_eq (ie_uuid_str E) (fst e) who"

definition queue_of :: "'a il_env \<Rightarrow> network_identity \<Rightarrow> queue \<Rightarrow> (packet \<times> u32) list" where
  "queue_of E who q = (case find (queue_key E who) q of None \<Rightarrow> [] | Some e \<Rightarrow> snd e)"

definition queue_push :: "'a il_env \<Rightarrow> network_identity \<Rightarrow> packet \<times> u32 \<Rightarrow> queue \<Rightarrow> queue" where
  "queue_push E who m q =
    (if find (queue_key E who) q = None then q @ [(who, [m])]
     else update_first (queue_key E who) (\<lambda>e. (fst e, snd e @ [m])) q)"

definition queue_erase :: "'a il_env \<Rightarrow> network_identity \<Rightarrow> queue \<Rightarrow> queue" where
  "queue_erase E who q = erase_first (queue_key E who) q"

definition queue_message :: "'a il_env \<Rightarrow> network_identity \<Rightarrow> packet \<Rightarrow> u32 \<Rightarrow> ('a interlink, unit) stm" where
  "queue_message E who p flag = (\<lambda>s. Inr ((), s \<lparr> il_queued := queue_push E who (p, flag) (il_queued s) \<rparr>))"

section \<open>Establishing connections\<close>

text \<open>The lookup with its five repetitions.\<close>

fun lookup_ip :: "'a il_env \<Rightarrow> network_identity \<Rightarrow> 'a history \<Rightarrow> nat \<Rightarrow> nat \<Rightarrow> 'a option" where
  "lookup_ip E n log i 0 = ie_lookup E log i n"
| "lookup_ip E n log i (Suc k) =
    (case ie_lookup E log i n of Some a \<Rightarrow> Some a | None \<Rightarrow> lookup_ip E n log (Suc i) k)"

definition in_progress :: "connection_state \<Rightarrow> bool" where
  "in_progress st \<longleftrightarrow> st \<in> {C_Connected, C_Connecting, C_Pre_Connecting}"

definition establish_connection_to :: "'a il_env \<Rightarrow> network_identity \<Rightarrow> ('a interlink, bool) stm" where
  "establish_connection_to E n = (\<lambda>s.
    if nid_type (ie_self E) = nt_game_client then Inl (AssertFail ''Game client must use the ip one'')
    else if (case find_target E n s of Some c \<Rightarrow> in_progress (con_state c) | None \<Rightarrow> False) then Inr (True, s)
    else if nid_is_internal n
    then (case lookup_ip E n (il_effects s) 0 5 of
            None \<Rightarrow> Inr (False, s)
          | Some a \<Rightarrow> Inr (True, insert_connection (set_new_state C_Pre_Connecting
              (con_new a (ie_uninit E (il_effects s) (il_connections s)) \<lparr> con_target := n \<rparr>)) s))
    else if nid_type n = nt_game_client then Inr (True, s)
    else Inr (False, s))"

definition establish_connection_at_ip :: "'a il_env \<Rightarrow> network_identity \<Rightarrow> 'a \<Rightarrow> ('a interlink, bool) stm" where
  "establish_connection_at_ip E n a = (\<lambda>s.
    if (case find_target E n s of Some c \<Rightarrow> in_progress (con_state c) | None \<Rightarrow> False) then Inr (True, s)
    else Inr (True, insert_connection
      (set_new_state C_Pre_Connecting
        (con_new a (ie_uninit E (il_effects s) (il_connections s)) \<lparr> con_target := n \<rparr>)
          \<lparr> con_kind := K_External \<rparr>) s))"

text \<open>The loop over the connections whose request has not been sent: their state does not change here.\<close>

fun generate_loop ::
  "'a il_env \<Rightarrow> 'a connection list \<Rightarrow> 'a history \<Rightarrow> 'a connection list \<times> 'a history" where
  "generate_loop E [] log = ([], log)"
| "generate_loop E (c # cs) log =
    (if con_state c = C_Pre_Connecting
     then let h = ie_connect E log (con_address c);
              c = (if h = 0 then c else c \<lparr> con_handle := h \<rparr>);
              (cs, log) = generate_loop E cs (log @ [Connect_To (con_address c) h])
          in (c # cs, log)
     else let (cs, log) = generate_loop E cs log in (c # cs, log))"

definition generate_new_connections :: "'a il_env \<Rightarrow> 'a interlink \<Rightarrow> 'a interlink" where
  "generate_new_connections E s =
    (let (cs, log) = generate_loop E (il_connections s) (il_effects s)
     in s \<lparr> il_connections := cs, il_effects := log \<rparr>)"

definition close_connection_to :: "'a il_env \<Rightarrow> network_identity \<Rightarrow> 'a interlink \<Rightarrow> 'a interlink" where
  "close_connection_to E n s =
    (case find_target E n s of
       None \<Rightarrow> s
     | Some c \<Rightarrow>
         emit (Close_Handle (con_handle c) False) s
           \<lparr> il_connections := erase_first (has_target E n) (il_connections s) \<rparr>)"

definition close_all_connections :: "'a interlink \<Rightarrow> 'a interlink" where
  "close_all_connections s = s"

section \<open>Sending\<close>

text \<open>Handing a packet to the library: when it does not take it, the error is logged and the packet is
  lost.\<close>

definition hand_over :: "'a il_env \<Rightarrow> u32 \<Rightarrow> bytes \<Rightarrow> u32 \<Rightarrow> 'a interlink \<Rightarrow> 'a interlink" where
  "hand_over E h bs flag s =
    (let sent = ie_send E (il_effects s) h bs flag; s = emit (Send_To h bs flag) s
     in if \<not> sent then s \<lparr> il_refused := il_refused s @ [(h, bs)] \<rparr> else s)"

definition send_message :: "'a il_env \<Rightarrow> network_identity \<Rightarrow> packet \<Rightarrow> u32 \<Rightarrow> ('a interlink, unit) stm" where
  "send_message E who p flag = (\<lambda>s.
    if \<not> il_init s then Inl (AssertFail ''Interlink was not initialized'')
    else if \<not> packet_validate p then Inl (AssertFail ''Packet did not valite'')
    else case find_target E who s of
      None \<Rightarrow> bindS (establish_connection_to E who) (\<lambda>_. queue_message E who p flag) s
    | Some c \<Rightarrow>
        if con_state c \<noteq> C_Connected
        then if con_state c = C_Pre_Connecting \<or> con_state c = C_Connecting
             then queue_message E who p flag s
             else bindS (establish_connection_to E who) (\<lambda>_. queue_message E who p flag) s
        else bindE (packet_ser p bw_new) (\<lambda>w.
          Inr ((), hand_over E (con_handle c) (bw_bytes w) flag s)))"

text \<open>The loop over the packets queued for \<open>who\<close>: a packet that \<open>send_message\<close> queues again for the
  same identity grows the vector the loop runs over, which ends the validity of its iterators.\<close>

fun flush_loop :: "'a il_env \<Rightarrow> network_identity \<Rightarrow> (packet \<times> u32) list \<Rightarrow> nat \<Rightarrow> ('a interlink, unit) stm" where
  "flush_loop E who [] n = returnS ()"
| "flush_loop E who ((p, flag) # ms) n =
    bindS (send_message E who p flag) (\<lambda>_ s.
      if length (queue_of E who (il_queued s)) \<noteq> n then Inl (UB Out_Of_Bounds)
      else flush_loop E who ms n s)"

definition flush_queued :: "'a il_env \<Rightarrow> network_identity \<Rightarrow> ('a interlink, unit) stm" where
  "flush_queued E who = (\<lambda>s.
    let ms = queue_of E who (il_queued s)
    in if ms = [] then Inr ((), s)
       else bindS (flush_loop E who ms (length ms))
         (\<lambda>_ s. Inr ((), s \<lparr> il_queued := queue_erase E who (il_queued s) \<rparr>)) s)"

section \<open>Callbacks\<close>

text \<open>What a callback carries: the connection, the remote address and the bytes of the remote identity
  if it has the generic form.\<close>

record 'a cb_info =
  cb_handle :: u32
  cb_address :: 'a
  cb_bytes :: "bytes option"

definition callback_on_connecting :: "'a il_env \<Rightarrow> 'a cb_info \<Rightarrow> ('a interlink, unit) stm" where
  "callback_on_connecting E info = (\<lambda>s.
    if find_handle (cb_handle info) s \<noteq> None
    then Inr ((), modify_handle (cb_handle info) (set_new_state C_Connecting) s)
    else bindE (case cb_bytes info of
                  None \<Rightarrow> Inr nid_new
                | Some bs \<Rightarrow> bindE (nid_des (br_new bs)) (\<lambda>(n, _). Inr n)) (\<lambda>n.
      let log = il_effects s; s = emit (Accept (cb_handle info)) s
      in if \<not> ie_accept E log (cb_handle info)
         then Inr ((), emit (Close_Handle (cb_handle info) False) s)
         else Inr ((), insert_connection
           ((set_new_state C_Connecting (con_new (cb_address info) (cb_handle info)))
             \<lparr> con_target := n, con_kind := (if nid_is_internal n then K_Internal else K_External) \<rparr>) s)))"

definition callback_on_closed_by_peer :: "'a cb_info \<Rightarrow> 'a interlink \<Rightarrow> 'a interlink" where
  "callback_on_closed_by_peer info s =
    (if find_handle (cb_handle info) s = None then s
     else emit (Close_Handle (cb_handle info) True) s
       \<lparr> il_connections := erase_first (has_handle (cb_handle info)) (il_connections s) \<rparr>)"

definition callback_on_problem :: "'a cb_info \<Rightarrow> 'a interlink \<Rightarrow> 'a interlink" where
  "callback_on_problem info s =
    (if find_handle (cb_handle info) s = None then s
     else s \<lparr> il_connections := erase_first (has_handle (cb_handle info)) (il_connections s) \<rparr>)"

text \<open>The flag of the packet that assigns an identity: reliable, without delay.\<close>

definition flag_reliable_now :: u32 where
  "flag_reliable_now = 9"

definition on_client_connected :: "'a il_env \<Rightarrow> 'a connection \<Rightarrow> ('a interlink, unit) stm" where
  "on_client_connected E c = (\<lambda>s.
    if nid_type (con_target c) \<noteq> nt_game_client then Inl (AssertFail ''Invalid Target'')
    else if \<not> uuid_is_nil (nid_id (con_target c)) then Inr ((), s)
    else
      let n = (con_target c) \<lparr> nid_id := ie_gen E (il_effects s) \<rparr>;
          s = modify_handle (con_handle c) (\<lambda>c. c \<lparr> con_target := n \<rparr>) s;
          client = \<lparr> cl_ip = con_address c, cl_id = nid_id n \<rparr>
      in bindS (send_message E n (Packet tid_client_id_assign (Client_ID_Assign n)) flag_reliable_now)
        (\<lambda>_ s.
          let s = emit (Register_Client client) s
          in if nid_type (ie_self E) \<noteq> nt_proxy then Inl (AssertFail ''Proxy must be proxy type'')
             else Inr ((), emit (Handshake client) (emit (Client_Connected client (ie_self E))
               (emit (Assign_Proxy (cl_id client) (ie_self E)) s)))) s)"

definition callback_on_connected :: "'a il_env \<Rightarrow> 'a cb_info \<Rightarrow> ('a interlink, unit) stm" where
  "callback_on_connected E info = (\<lambda>s.
    case find_handle (cb_handle info) s of
      None \<Rightarrow>
        bindE (case cb_bytes info of None \<Rightarrow> Inr () | Some bs \<Rightarrow> bindE (nid_des (br_new bs)) (\<lambda>_. Inr ())) (\<lambda>_.
          Inl (AssertFail ''Connected? to non existent connection?''))
    | Some v \<Rightarrow>
        let v = set_new_state C_Connected v;
            s = emit (Set_Poll_Group (cb_handle info))
              (modify_handle (cb_handle info) (set_new_state C_Connected) s)
        in bindS (if \<not> con_is_internal v then on_client_connected E v else returnS ()) (\<lambda>_ s.
             case find_handle (cb_handle info) s of
               None \<Rightarrow> Inr ((), s)
             | Some v \<Rightarrow> flush_queued E (con_target v) s) s)"

section \<open>Messages\<close>

text \<open>The messages the poll group returns. The sender is looked up without a check.\<close>

fun receive_messages :: "'a il_env \<Rightarrow> (u32 \<times> bytes) list \<Rightarrow> ('a interlink, unit) stm" where
  "receive_messages E [] = returnS ()"
| "receive_messages E ((h, bs) # ms) = (\<lambda>s.
    case find_handle h s of
      None \<Rightarrow> Inl (UB Null_Deref)
    | Some sender \<Rightarrow>
        bindE (create_from_bytes (ie_registry E) bs) (\<lambda>p.
          receive_messages E ms (emit (Dispatched p (con_target sender)) s)))"

section \<open>The callback of the library\<close>

datatype gns_state =
  G_None | G_Connecting | G_Finding_Route | G_Connected | G_Closed_By_Peer | G_Problem | G_Fin_Wait | G_Dead

fun on_status_changed :: "'a il_env \<Rightarrow> gns_state \<Rightarrow> 'a cb_info \<Rightarrow> ('a interlink, unit) stm" where
  "on_status_changed E G_Connecting info = callback_on_connecting E info"
| "on_status_changed E G_Connected info = callback_on_connected E info"
| "on_status_changed E G_Closed_By_Peer info = (\<lambda>s. Inr ((), callback_on_closed_by_peer info s))"
| "on_status_changed E G_Problem info = (\<lambda>s. Inr ((), callback_on_problem info s))"
| "on_status_changed E _ info = returnS ()"

fun run_callbacks :: "'a il_env \<Rightarrow> (gns_state \<times> 'a cb_info) list \<Rightarrow> ('a interlink, unit) stm" where
  "run_callbacks E [] = returnS ()"
| "run_callbacks E ((st, info) # cs) = bindS (on_status_changed E st info) (\<lambda>_. run_callbacks E cs)"

text \<open>One tick: what the library has to deliver are the messages and the callbacks.\<close>

definition tick ::
  "'a il_env \<Rightarrow> (u32 \<times> bytes) list \<Rightarrow> (gns_state \<times> 'a cb_info) list \<Rightarrow> ('a interlink, unit) stm" where
  "tick E ms cs = (\<lambda>s.
    bindS (receive_messages E ms) (\<lambda>_. run_callbacks E cs) (generate_new_connections E s))"

section \<open>Start\<close>

text \<open>When the library does not start, \<open>Init\<close> returns without setting \<open>IsInit\<close>.\<close>

definition interlink_init :: "'a il_env \<Rightarrow> ('a interlink, unit) stm" where
  "interlink_init E = (\<lambda>s.
    let self = ie_self E; started = (\<lambda>s. Inr ((), s \<lparr> il_init := True \<rparr>))
    in if nid_type self = nt_invalid then Inl (AssertFail ''Invalid Interlink Type'')
       else if \<not> nid_is_internal self then Inl (AssertFail ''Interlink is for internal only'')
       else if \<not> ie_gns_ok E then Inr ((), s)
       else if \<not> ie_identity_ok E then Inl (AssertFail ''Failed Identity set'')
       else if \<not> ie_listen_ok E then Inl (RuntimeError ''Failed to listen on port'')
       else
         let s = (if nid_type self = nt_proxy
                  then emit (Register_Public (ie_no_ip E)) (emit (Register_Self (ie_own_ip E)) s)
                  else emit (Register_Self (ie_own_ip E)) s)
         in if nid_type self = nt_shard \<or> nid_type self = nt_proxy \<or> nid_type self = nt_cartograph
            then bindS (establish_connection_to E make_id_watchdog) (\<lambda>_. started) s
            else started s)"

section \<open>Telemetry\<close>

text \<open>The status the library reports for a handle carries every field but the two identities.\<close>

definition get_connection_telemetry ::
  "'a il_env \<Rightarrow> (u32 \<Rightarrow> connection_telemetry) \<Rightarrow> 'a interlink \<Rightarrow> connection_telemetry list" where
  "get_connection_telemetry E status s =
    map (\<lambda>c. (status (con_handle c))
        \<lparr> ct_identity_id := str_bytes (nid_to_string (ie_uuid_str E) (ie_self E)),
          ct_target_id := str_bytes (nid_to_string (ie_uuid_str E) (con_target c)) \<rparr>)
      (ie_by_state E (il_effects s) (filter (\<lambda>c. con_state c = C_Connected) (il_connections s)))"

end
