(* ===== verification/Watchdog.thy ===== *)
theory Watchdog
  imports Bound_Claims Docker_Client Event_System Interlink
begin

text \<open>
  The watchdog process (\<open>runtime/watchdog/src/WatchDog.cpp\<close>): it owns the heuristic, publishes the
  grid and its bounds, scales the service of the shards through the Docker API and removes the nodes
  whose health check fails. Its surroundings are those of the components it calls; the order in which
  a hash map yields its entries is a parameter. A call of the manifest that fails leaves the database
  as it was before the call.
\<close>

section \<open>State\<close>

record ('a, 'db, 'w) wd_env =
  we_hm :: "'db hm_env"
  we_docker :: "'w docker_env"
  we_writers :: "(u32 \<Rightarrow> writer option) \<Rightarrow> (u32 \<times> writer) list"
  we_readers :: "(u32 \<Rightarrow> reader option) \<Rightarrow> (u32 \<times> reader) list"
  we_interlink :: "'a il_env"

record ('a, 'db, 'w) watchdog =
  wd_shutdown :: bool
  wd_shard_count :: u32
  wd_active :: heuristic_type
  wd_heuristic :: "grid_heuristic option"
  wd_db :: 'db
  wd_docker :: "'w docker_state"
  wd_interlink :: "'a interlink"
  wd_ticking :: bool
  wd_events :: "nat event_system"

type_synonym ('a, 'db, 'w, 'x) wd_io = "(('a, 'db, 'w) watchdog, 'x) io"

definition on_docker :: "('w docker_state, 'x) io \<Rightarrow> ('a, 'db, 'w, 'x) wd_io" where
  "on_docker m = (\<lambda>s. let (r, d) = m (wd_docker s) in (r, s \<lparr> wd_docker := d \<rparr>))"

definition on_db :: "('db \<Rightarrow> ('x \<times> 'db) res) \<Rightarrow> ('a, 'db, 'w, 'x) wd_io" where
  "on_db f = (\<lambda>s. case f (wd_db s) of Inl e \<Rightarrow> (Inl e, s) | Inr (x, db) \<Rightarrow> (Inr x, s \<lparr> wd_db := db \<rparr>))"

definition on_interlink :: "('a interlink, 'x) stm \<Rightarrow> ('a, 'db, 'w, 'x) wd_io" where
  "on_interlink m = (\<lambda>s. case m (wd_interlink s) of
     Inl e \<Rightarrow> (Inl e, s) | Inr (x, il) \<Rightarrow> (Inr x, s \<lparr> wd_interlink := il \<rparr>))"

definition read_db :: "('db \<Rightarrow> 'x res) \<Rightarrow> ('a, 'db, 'w, 'x) wd_io" where
  "read_db f = on_db (\<lambda>db. bindE (f db) (\<lambda>x. Inr (x, db)))"

definition write_db :: "('db \<Rightarrow> 'db res) \<Rightarrow> ('a, 'db, 'w, unit) wd_io" where
  "write_db f = on_db (\<lambda>db. bindE (f db) (\<lambda>db. Inr ((), db)))"

section \<open>Scaling the shards\<close>

text \<open>The conversion to \<open>int\<close>.\<close>

fun j_int :: "json \<Rightarrow> int res" where
  "j_int (JNum n) = Inr (sint (word_of_int n :: u32))"
| "j_int (JBool b) = Inr (if b then 1 else 0)"
| "j_int _ = Inl (RuntimeError ''type_error'')"

definition shard_filter :: bytes where
  "shard_filter = str_bytes ''%7B%22label%22%3A%5B%22atlasnet.role%3Dshard%22%5D%7D''"

text \<open>The assignment to \<open>spec["Mode"]["Replicated"]["Replicas"]\<close>.\<close>

definition set_replicas :: "u32 \<Rightarrow> json \<Rightarrow> json res" where
  "set_replicas n spec =
    bindE (j_key spec ''Mode'') (\<lambda>mode.
    bindE (j_key mode ''Replicated'') (\<lambda>repl.
    bindE (j_put repl ''Replicas'' (JNum (uint n))) (\<lambda>repl.
    bindE (j_put mode ''Replicated'' repl) (\<lambda>mode. j_put spec ''Mode'' mode))))"

definition set_shard_count :: "('a, 'db, 'w) wd_env \<Rightarrow> u32 \<Rightarrow> ('a, 'db, 'w, unit) wd_io" where
  "set_shard_count W n =
    (let D = we_docker W
     in bindIO (on_docker (docker_request D ''GET'' (str_bytes ''/services?filters='' @ shard_filter) None [])) (\<lambda>listResp.
        bindIO (liftIO (docker_parse D listResp)) (\<lambda>services.
        if \<not> j_is_array services \<or> j_empty services
        then liftIO (Inl (RuntimeError ''No shard service found via label''))
        else
          bindIO (liftIO (bindE (j_elem services 0) (\<lambda>e. bindE (j_key e ''ID'') j_str))) (\<lambda>serviceId.
          bindIO (on_docker (docker_request D ''GET'' (str_bytes ''/services/'' @ serviceId) None [])) (\<lambda>inspectResp.
          bindIO (liftIO (docker_parse D inspectResp)) (\<lambda>inspect.
          bindIO (liftIO (bindE (j_key inspect ''Version'') (\<lambda>v. bindE (j_key v ''Index'') j_int))) (\<lambda>version.
          bindIO (liftIO (bindE (j_key inspect ''Spec'') (set_replicas n))) (\<lambda>spec.
          bindIO (on_docker (docker_request D ''POST''
            (str_bytes ''/services/'' @ serviceId @ str_bytes ''/update?version='' @ dec_of_int version)
            (Some spec) [])) (\<lambda>updateResp.
          bindIO (if updateResp \<noteq> [] then liftIO (docker_parse D updateResp) else returnIO JNull) (\<lambda>_ s.
            (Inr (), s \<lparr> wd_shard_count := n \<rparr>)))))))))))"

section \<open>The heuristic\<close>

text \<open>The case of \<open>eNone\<close> runs into the one of the grid.\<close>

definition switch_heuristic :: "heuristic_type \<Rightarrow> ('a, 'db, 'w) watchdog \<Rightarrow> ('a, 'db, 'w) watchdog" where
  "switch_heuristic t s =
    (let s = s \<lparr> wd_active := t \<rparr>;
         s = (if t = HNone then s \<lparr> wd_heuristic := None \<rparr> else s)
     in if t = HNone \<or> t = HGridCell then s \<lparr> wd_heuristic := Some grid_new \<rparr> else s)"

definition default_entity :: "nat \<Rightarrow> entity_minimal" where
  "default_entity i =
    \<lparr> e_id = nil_uuid, e_is_client = False, e_client_id = nil_uuid, e_packet_seq = 0,
       e_transfer_generation = 0,
       e_transform = \<lparr> tr_world = 0,
         tr_position = \<lparr> vx = f_of_int (10 * (if i div 2 \<noteq> 0 then 1 else -1)),
                         vy = f_of_int (10 * (if i mod 2 \<noteq> 0 then 1 else -1)), vz = f_of_int 0 \<rparr>,
         tr_bounding_box = aabb_new 3 \<rparr> \<rparr>"

text \<open>The bounds the manifest returns are read to be logged.\<close>

definition read_back :: "(u32 \<times> reader) list \<Rightarrow> unit res" where
  "read_back brs = bindE (mapE (\<lambda>(i, r). grid_shape_des r) brs) (\<lambda>_. Inr ())"

definition compute_heuristic :: "('a, 'db, 'w) wd_env \<Rightarrow> ('a, 'db, 'w, unit) wd_io" where
  "compute_heuristic W = (\<lambda>s.
    case wd_heuristic s of
      None \<Rightarrow> (Inl (UB Null_Deref), s)
    | Some h \<Rightarrow>
        let E = we_hm W;
            h = grid_compute (map default_entity [0..<4]) h;
            s = s \<lparr> wd_heuristic := Some h \<rparr>;
            bws = we_writers W (grid_serialize_bounds h)
        in bindIO (write_db (push_heuristic E h)) (\<lambda>_.
           bindIO (read_db (get_pending_bounds_count E)) (\<lambda>pending_count.
           bindIO (read_db (get_claimed_bounds_count E)) (\<lambda>claimed_count.
           bindIO (if pending_count + claimed_count < int (length bws)
                   then write_db (store_pending_bounds E bws) else returnIO ()) (\<lambda>_.
           bindIO (read_db (get_pending_bounds_as_readers E)) (\<lambda>brs.
           bindIO (liftIO (read_back (we_readers W brs))) (\<lambda>_.
             set_shard_count W (of_nat (length bws)))))))) s)"

section \<open>Health checks\<close>

definition on_health_fail ::
  "(bytes \<Rightarrow> string) \<Rightarrow> 'db redis_connection \<Rightarrow> network_identity \<Rightarrow> bytes \<Rightarrow> 'db \<Rightarrow> 'db" where
  "on_health_fail us C n key db =
    (let (requeued, db) = requeue_claimed_bound C (str_bytes (nid_to_string us n)) db
     in remove_ping C key db)"

section \<open>The life of the process\<close>

text \<open>\<open>Interlink::Init\<close> starts the tick thread where it sets \<open>IsInit\<close>; \<open>Interlink::Shutdown\<close> joins the
  thread, which the standard library refuses for one that is not running.\<close>

definition start_interlink :: "('a, 'db, 'w) wd_env \<Rightarrow> ('a, 'db, 'w, unit) wd_io" where
  "start_interlink W =
    bindIO (on_interlink (interlink_init (we_interlink W))) (\<lambda>_ s.
      (Inr (), s \<lparr> wd_ticking := il_init (wd_interlink s) \<rparr>))"

definition interlink_shutdown :: "('a, 'db, 'w, unit) wd_io" where
  "interlink_shutdown = (\<lambda>s.
    let s = s \<lparr> wd_interlink := close_all_connections (wd_interlink s) \<rparr>
    in if wd_ticking s then (Inr (), s \<lparr> wd_ticking := False \<rparr>)
       else (Inl (RuntimeError ''system_error''), s))"

definition watchdog_init :: "('a, 'db, 'w) wd_env \<Rightarrow> ('a, 'db, 'w, unit) wd_io" where
  "watchdog_init W =
    bindIO (start_interlink W) (\<lambda>_ s.
      let s = s \<lparr> wd_events := event_system_init (wd_events s) \<rparr>;
          s = switch_heuristic HGridCell s
      in compute_heuristic W s)"

definition watchdog_cleanup :: "('a, 'db, 'w, unit) wd_io" where
  "watchdog_cleanup = interlink_shutdown"

definition watchdog_shutdown :: "('a, 'db, 'w) watchdog \<Rightarrow> ('a, 'db, 'w) watchdog" where
  "watchdog_shutdown s = s \<lparr> wd_shutdown := True \<rparr>"

text \<open>The sleeping loop, at each turn of which the other threads change the state as \<open>others\<close> says, for
  at most \<open>k\<close> turns; then the shutdown.\<close>

fun watchdog_loop ::
  "nat \<Rightarrow> (nat \<Rightarrow> ('a, 'db, 'w) watchdog \<Rightarrow> ('a, 'db, 'w) watchdog) \<Rightarrow> ('a, 'db, 'w) watchdog \<Rightarrow>
   ('a, 'db, 'w) watchdog option" where
  "watchdog_loop 0 others s = (if wd_shutdown s then Some s else None)"
| "watchdog_loop (Suc k) others s = (if wd_shutdown s then Some s else watchdog_loop k others (others k s))"

definition watchdog_run ::
  "('a, 'db, 'w) wd_env \<Rightarrow> nat \<Rightarrow> (nat \<Rightarrow> ('a, 'db, 'w) watchdog \<Rightarrow> ('a, 'db, 'w) watchdog) \<Rightarrow>
   ('a, 'db, 'w) watchdog \<Rightarrow> (unit res \<times> ('a, 'db, 'w) watchdog) option" where
  "watchdog_run W k others s =
    (case watchdog_init W s of
       (Inl e, s) \<Rightarrow> Some (Inl e, s)
     | (Inr _, s) \<Rightarrow> map_option (bindIO watchdog_cleanup (\<lambda>_. interlink_shutdown)) (watchdog_loop k others s))"

section \<open>Lemmas\<close>

text \<open>Calls that leave the database as it is.\<close>

definition keeps_db :: "('a, 'db, 'w, 'x) wd_io \<Rightarrow> bool" where
  "keeps_db m \<longleftrightarrow> (\<forall>s. wd_db (snd (m s)) = wd_db s)"

lemma keeps_bind: "keeps_db m \<Longrightarrow> (\<And>x. keeps_db (f x)) \<Longrightarrow> keeps_db (bindIO m f)"
  unfolding keeps_db_def bindIO_def by (auto split: prod.splits sum.splits) (metis snd_conv)+

lemma keeps_leaves:
  "keeps_db (on_docker m)" "keeps_db (liftIO r)" "keeps_db (returnIO x)" "keeps_db (read_db f)"
  "keeps_db (\<lambda>s. (Inr (), s \<lparr> wd_shard_count := n \<rparr>))"
  by (simp_all add: keeps_db_def on_docker_def read_db_def on_db_def bindE_def split: prod.split sum.split)

lemma set_shard_count_db: "wd_db (snd (set_shard_count W n s)) = wd_db s"
proof -
  have "keeps_db (set_shard_count W n)"
    unfolding set_shard_count_def Let_def
    by (intro keeps_bind keeps_leaves) (auto intro!: keeps_bind keeps_leaves)
  then show ?thesis by (simp add: keeps_db_def)
qed

text \<open>A hash map yields every entry once.\<close>

definition enumerates :: "(u32 \<times> 'v) list \<Rightarrow> (u32 \<Rightarrow> 'v option) \<Rightarrow> bool" where
  "enumerates xs m \<longleftrightarrow> distinct (map fst xs) \<and> (\<forall>k v. (k, v) \<in> set xs \<longleftrightarrow> m k = Some v)"

lemma shapes_of_writers:
  assumes ws: "enumerates ws (grid_serialize_bounds h)" and d: "distinct (map gs_id (gh_quads h))"
  obtains ss where "ws = map (\<lambda>s. (gs_id s, grid_shape_ser s bw_new)) ss"
    and "set ss = set (gh_quads h)" and "distinct (map gs_id ss)" and "length ss = length (gh_quads h)"
proof -
  define f where "f = (\<lambda>i. find (\<lambda>q. gs_id q = i) (gh_quads h))"
  define ss where "ss = map (\<lambda>x. the (f (fst x))) ws"
  have mem: "(i, w) \<in> set ws \<longleftrightarrow> (\<exists>q. f i = Some q \<and> w = grid_shape_ser q bw_new)" for i w
    using ws by (auto simp: f_def enumerates_def grid_serialize_bounds_def fold_bounds [OF d])
  have id: "gs_id q = i" "q \<in> set (gh_quads h)" if "f i = Some q" for i q
    using that by (auto simp: f_def find_Some_iff)
  have entry: "gs_id (the (f (fst x))) = fst x" "grid_shape_ser (the (f (fst x))) bw_new = snd x"
    if x: "x \<in> set ws" for x
  proof -
    obtain q where "f (fst x) = Some q" "snd x = grid_shape_ser q bw_new"
      using x mem [of "fst x" "snd x"] by auto
    then show "gs_id (the (f (fst x))) = fst x" "grid_shape_ser (the (f (fst x))) bw_new = snd x"
      using id(1) by simp_all
  qed
  have 1: "ws = map (\<lambda>s. (gs_id s, grid_shape_ser s bw_new)) ss"
    unfolding ss_def map_map comp_def by (rule map_idI [symmetric]) (simp add: entry)
  have "map gs_id ss = map fst ws" by (simp add: ss_def entry)
  then have 3: "distinct (map gs_id ss)" using ws by (simp only: enumerates_def)
  have find: "f (gs_id q) = Some q" if q: "q \<in> set (gh_quads h)" for q
  proof (cases "f (gs_id q)")
    case None
    then show ?thesis using q by (auto simp: f_def find_None_iff)
  next
    case (Some r)
    then have "r = q" using id [OF Some] q d by (simp add: distinct_map inj_on_def)
    then show ?thesis using Some by simp
  qed
  have 2: "set ss = set (gh_quads h)"
  proof (intro equalityI subsetI)
    fix q assume "q \<in> set ss"
    then obtain x where x: "x \<in> set ws" "q = the (f (fst x))" by (auto simp: ss_def)
    then obtain r where "f (fst x) = Some r" using mem [of "fst x" "snd x"] by auto
    then show "q \<in> set (gh_quads h)" using x id(2) by simp
  next
    fix q assume q: "q \<in> set (gh_quads h)"
    then have "(gs_id q, grid_shape_ser q bw_new) \<in> set ws" by (simp add: mem find)
    then show "q \<in> set ss" using find [OF q] by (force simp: ss_def)
  qed
  have 4: "length ss = length (gh_quads h)"
    using distinct_card [of ss] distinct_card [of "gh_quads h"] 2 3 d by (simp add: distinct_map)
  show ?thesis by (rule that [OF 1 2 3 4])
qed

abbreviation default_grid :: grid_heuristic where
  "default_grid \<equiv> grid_compute (map default_entity [0..<4]) grid_new"

lemma default_grid_facts:
  "grid_ok default_grid" "length (grid_enc default_grid) < 2 ^ 63"
  "distinct (map gs_id (gh_quads default_grid))" "length (gh_quads default_grid) = 4"
  by (simp_all add: grid_ok_def grid_quads grid_shape_ok_def aabb_wf_def grid_enc_def grid_shape_enc_def
      aabb_enc_def be_enc_def)

lemma default_position:
  assumes "f_ok (vx p)" and "f_ok (vy p)"
  shows "if in_range f_m100 (vx p) f_100 \<and> in_range f_m100 (vy p) f_100 \<and> in_range f_m5 (vz p) f_5
    then \<exists>q. grid_query_position default_grid p = Some q \<and> grid_shape_contains q p
    else grid_query_position default_grid p = None"
  using in_range_split [OF assms(1)] in_range_split [OF assms(2)]
  by (auto simp: grid_query_position_def grid_quads contains_box3 grid_shape_contains_def)

context json_store
begin

text \<open>What one computation publishes when no bound is known, whatever Docker does.\<close>

lemma compute_publishes:
  assumes E: "hm_json (we_hm W) = J" and b: "base64_ok (we_hm W)" and h: "wd_heuristic s = Some grid_new"
    and ws: "enumerates (we_writers W (grid_serialize_bounds default_grid)) (grid_serialize_bounds default_grid)"
    and rs: "we_readers W (\<lambda>_. None) = []"
    and fresh: "\<forall>m. doc (wd_db s) = Some m \<longrightarrow> bounds_view (we_hm W) m [] []"
  obtains ss m db where "compute_heuristic W s =
      set_shard_count W 4 (s \<lparr> wd_heuristic := Some default_grid, wd_db := db \<rparr>)"
    and "doc db = Some m" and "heuristic_view (we_hm W) m default_grid" and "bounds_view (we_hm W) m ss []"
    and "set ss = set (gh_quads default_grid)" and "length ss = 4" and "m pending_entry \<noteq> None"
proof -
  let ?E = "we_hm W"
  obtain ss where ss: "we_writers W (grid_serialize_bounds default_grid) =
      map (\<lambda>s. (gs_id s, grid_shape_ser s bw_new)) ss" "set ss = set (gh_quads default_grid)"
    "distinct (map gs_id ss)" and l: "length ss = length (gh_quads default_grid)"
    by (rule shapes_of_writers [OF ws default_grid_facts(3)])
  note ss = ss l [unfolded default_grid_facts(4)]
  obtain db1 m1 where p: "push_heuristic ?E default_grid (wd_db s) = Inr db1" and d1: "doc db1 = Some m1"
    and h1: "heuristic_view ?E m1 default_grid" and eq: "\<forall>f. f \<noteq> type_entry \<longrightarrow> f \<noteq> data64_entry \<longrightarrow>
      m1 f = (case doc (wd_db s) of None \<Rightarrow> None | Some m \<Rightarrow> m f)"
    using push_stores [OF E b default_grid_facts(1,2)] by blast
  have v1: "bounds_view ?E m1 [] []"
    using fresh eq by (cases "doc (wd_db s)") (auto simp: bounds_view_def holds_def)
  have c: "get_pending_bounds_count ?E db1 = Inr 0" "get_claimed_bounds_count ?E db1 = Inr 0"
    by (simp_all add: get_pending_bounds_count_def get_claimed_bounds_count_def manifest_object_none [OF E d1 v1])
  have ok: "\<forall>s\<in>set ss. grid_shape_ok s" using default_grid_facts(1) ss(2) by (simp add: grid_ok_def)
  obtain db2 m2 where st: "store_pending_bounds ?E (map (\<lambda>s. (gs_id s, grid_shape_ser s bw_new)) ss) db1 = Inr db2"
    and d2: "doc db2 = Some m2" and h2: "heuristic_view ?E m2 default_grid" and v2: "bounds_view ?E m2 ss []"
    using store_pending_view [OF E b d1 h1 v1 ok ss(3)] by auto
  have r: "get_pending_bounds_as_readers ?E db2 = Inr (\<lambda>_. None)"
    by (simp add: get_pending_bounds_as_readers_def manifest_object_none [OF E d2 v2])
  have "compute_heuristic W s = set_shard_count W 4 (s \<lparr> wd_heuristic := Some default_grid, wd_db := db2 \<rparr>)"
    using p c st r rs ss(4)
    by (simp add: compute_heuristic_def h Let_def ss(1) write_db_def read_db_def on_db_def bindIO_def
        read_back_def)
  moreover have "m2 pending_entry \<noteq> None" using v2 ss(4) by (auto simp: bounds_view_def holds_def)
  ultimately show ?thesis using that d2 h2 v2 ss(2,4) by simp
qed

text \<open>A lookup after every bound has been claimed.\<close>

lemma position_owner:
  assumes E: "hm_json E = J" and b: "base64_ok E" and m: "doc db = Some m"
    and h: "heuristic_view E m g" and v: "bounds_view E m qs (zip ss ns)"
    and s: "set ss = set (gh_quads g)" and l: "length ns = length ss"
  shows "case grid_query_position g (tr_position t) of
      None \<Rightarrow> shard_from_position E t db = Inl (UB Null_Deref)
    | Some q \<Rightarrow> \<exists>i<length ss. ss ! i = q \<and> shard_from_position E t db = Inr (Some (ns ! i))"
proof (cases "grid_query_position g (tr_position t)")
  case None
  then show ?thesis
    by (simp add: shard_from_position_def pull_reads [OF E b m h] grid_query_position_def)
next
  case (Some q)
  then have "q \<in> set ss" using s by (auto simp: grid_query_position_def find_Some_iff)
  then obtain i where i: "i < length ss" "ss ! i = q" by (auto simp: in_set_conv_nth)
  then have mem: "(q, ns ! i) \<in> set (zip ss ns)" using l by (auto simp: set_zip)
  have d: "distinct (map gs_id (map fst (zip ss ns)))" using v by (auto simp: bounds_view_def)
  have "find (\<lambda>c. gs_id (fst c) = gs_id q) (zip ss ns) = Some (q, ns ! i)"
    using distinct_filter_id [OF d, of "gs_id q"] filter_one_id [OF d mem] by (auto split: option.splits)
  then have "shard_from_position E t db = Inr (Some (ns ! i))"
    using Some by (simp add: shard_from_position_def pull_reads [OF E b m h] grid_query_position_def
        shard_lookup [OF E b m v])
  then show ?thesis using Some i by auto
qed

end

section \<open>Properties\<close>

text \<open>The bounds the shards claim and the lookups that follow.\<close>

lemma claimed_grid_owners:
  assumes "json_store J doc" and "hm_json (we_hm W) = J" and "base64_ok (we_hm W)"
    and "wd_heuristic s = Some grid_new" and "we_readers W (\<lambda>_. None) = []"
    and "enumerates (we_writers W (grid_serialize_bounds default_grid)) (grid_serialize_bounds default_grid)"
    and "\<forall>m. doc (wd_db s) = Some m \<longrightarrow> bounds_view (we_hm W) m [] []"
    and "length ns = 4" and "\<forall>n\<in>set ns. owner_ok (we_hm W) n"
  shows "\<exists>ss db. claim_in_turn (we_hm W) ns (wd_db (snd (compute_heuristic W s))) = Inr (map Some ss, db) \<and>
    length ss = 4 \<and>
    (\<forall>t. f_ok (vx (tr_position t)) \<longrightarrow> f_ok (vy (tr_position t)) \<longrightarrow>
      (if in_range f_m100 (vx (tr_position t)) f_100 \<and> in_range f_m100 (vy (tr_position t)) f_100 \<and>
          in_range f_m5 (vz (tr_position t)) f_5
       then \<exists>i<4. shard_from_position (we_hm W) t db = Inr (Some (ns ! i)) \<and>
         grid_shape_contains (ss ! i) (tr_position t)
       else shard_from_position (we_hm W) t db = Inl (UB Null_Deref)))"
proof -
  let ?E = "we_hm W"
  obtain ss m db0 where e: "compute_heuristic W s =
      set_shard_count W 4 (s \<lparr> wd_heuristic := Some default_grid, wd_db := db0 \<rparr>)"
    and d: "doc db0 = Some m" and h: "heuristic_view ?E m default_grid" and v: "bounds_view ?E m ss []"
    and ss: "set ss = set (gh_quads default_grid)" "length ss = 4" and p: "m pending_entry \<noteq> None"
    using json_store.compute_publishes [OF assms(1-4,6,5,7)] .
  obtain db m' where c: "claim_in_turn ?E ns (wd_db (snd (compute_heuristic W s))) = Inr (map Some ss, db)"
    and d': "doc db = Some m'" and h': "heuristic_view ?E m' default_grid" and v': "bounds_view ?E m' [] (zip ss ns)"
    using json_store.claims_view [OF assms(1-3,9) d h v p] assms(8) ss(2) by (auto simp: e set_shard_count_db)
  have "if in_range f_m100 (vx (tr_position t)) f_100 \<and> in_range f_m100 (vy (tr_position t)) f_100 \<and>
          in_range f_m5 (vz (tr_position t)) f_5
       then \<exists>i<4. shard_from_position ?E t db = Inr (Some (ns ! i)) \<and> grid_shape_contains (ss ! i) (tr_position t)
       else shard_from_position ?E t db = Inl (UB Null_Deref)"
    if ok: "f_ok (vx (tr_position t))" "f_ok (vy (tr_position t))" for t
    using json_store.position_owner [OF assms(1-3) d' h' v' ss(1), of t] assms(8) ss(2)
      default_position [OF ok] by (auto split: option.splits if_splits)
  with c ss(2) show ?thesis by blast
qed

text \<open>C1: once the watchdog has published the grid and four shards have each claimed a bound, every
  position without NaN inside the grid is owned by exactly one of them, and by one whose claimed bound
  contains the position. A position outside the grid is not looked up safely: the query dereferences
  a null pointer. All of this holds whatever Docker answers.\<close>

theorem shards_partition_the_grid:
  assumes "json_store J doc" and "hm_json (we_hm W) = J" and "base64_ok (we_hm W)"
    and "wd_heuristic s = Some grid_new" and "we_readers W (\<lambda>_. None) = []"
    and "enumerates (we_writers W (grid_serialize_bounds default_grid)) (grid_serialize_bounds default_grid)"
    and "\<forall>m. doc (wd_db s) = Some m \<longrightarrow> bounds_view (we_hm W) m [] []"
    and "length ns = 4" and "\<forall>n\<in>set ns. owner_ok (we_hm W) n"
  shows "\<exists>ss db. claim_in_turn (we_hm W) ns (wd_db (snd (compute_heuristic W s))) = Inr (map Some ss, db) \<and>
    length ss = 4 \<and>
    (\<forall>t. f_ok (vx (tr_position t)) \<longrightarrow> f_ok (vy (tr_position t)) \<longrightarrow>
      (if in_range f_m100 (vx (tr_position t)) f_100 \<and> in_range f_m100 (vy (tr_position t)) f_100 \<and>
          in_range f_m5 (vz (tr_position t)) f_5
       then \<exists>i<4. shard_from_position (we_hm W) t db = Inr (Some (ns ! i)) \<and>
         grid_shape_contains (ss ! i) (tr_position t)
       else shard_from_position (we_hm W) t db = Inl (UB Null_Deref)))"
  by (rule claimed_grid_owners [OF assms])

text \<open>Surroundings for an example: Docker lists one service and describes it.\<close>

definition demo_swarm :: "nat docker_env" where
  "demo_swarm = \<lparr> dk_socket = str_bytes ''/var/run/docker.sock'', dk_curl_init = (\<lambda>w. (True, w)),
     dk_perform = (\<lambda>r w. (Inr (if hr_method r = ''POST'' then [] else if w = 0 then [1] else [2]), Suc w)),
     dk_escape = Some,
     dk_parse = (\<lambda>t. Some (if t = [1] then JArr [JObj [(''ID'', JStr [120])]]
       else JObj [(''Version'', JObj [(''Index'', JNum 17)]), (''Spec'', JObj [(''Name'', JStr [])])])),
     dk_dump = (\<lambda>j. []), dk_hostname = None, dk_interfaces = None \<rparr>"

definition demo_wd_env :: "(nat, mem_doc, nat) wd_env" where
  "demo_wd_env = \<lparr> we_hm = demo_env, we_docker = demo_swarm,
     we_writers = (\<lambda>_. map (\<lambda>s. (gs_id s, grid_shape_ser s bw_new)) (gh_quads default_grid)),
     we_readers = (\<lambda>_. []),
     we_interlink = \<lparr> ie_self = make_id_watchdog, ie_uuid_str = demo_printer, ie_lookup = (\<lambda>_ _ _. None),
       ie_connect = (\<lambda>_ _. 0), ie_accept = (\<lambda>_ _. True), ie_gen = (\<lambda>_. []), ie_registry = packet_registry,
       ie_gns_ok = True, ie_identity_ok = True, ie_listen_ok = True, ie_own_ip = 0, ie_no_ip = 0,
       ie_send = (\<lambda>_ _ _ _. True), ie_uninit = (\<lambda>_ _. 0), ie_by_state = (\<lambda>_ cs. cs) \<rparr> \<rparr>"

definition demo_wd :: "(nat, mem_doc, nat) watchdog" where
  "demo_wd = \<lparr> wd_shutdown = True, wd_shard_count = 0, wd_active = HNone, wd_heuristic = None, wd_db = None,
     wd_docker = \<lparr> dk_self = None, dk_world = 0 \<rparr>,
     wd_interlink = \<lparr> il_connections = [], il_queued = [], il_init = False, il_effects = [], il_refused = [] \<rparr>,
     wd_ticking = False, wd_events = es_new \<rparr>"

lemma demo_wd_env_facts:
  "hm_json (we_hm demo_wd_env) = mem_json" "base64_ok (we_hm demo_wd_env)" "we_docker demo_wd_env = demo_swarm"
  "we_readers demo_wd_env (\<lambda>_. None) = []" "owner_ok (we_hm demo_wd_env) (make_id_shard nil_uuid)"
  "ie_self (we_interlink demo_wd_env) = make_id_watchdog" "ie_gns_ok (we_interlink demo_wd_env)"
  "ie_identity_ok (we_interlink demo_wd_env)" "ie_listen_ok (we_interlink demo_wd_env)"
  by (simp_all add: demo_wd_env_def demo_base64 demo_owner)

lemma demo_writers:
  "enumerates (we_writers demo_wd_env (grid_serialize_bounds default_grid)) (grid_serialize_bounds default_grid)"
proof -
  have w: "we_writers demo_wd_env m = map (\<lambda>s. (gs_id s, grid_shape_ser s bw_new)) (gh_quads default_grid)" for m
    by (simp add: demo_wd_env_def)
  have d: "distinct (map gs_id (gh_quads default_grid))" by (rule default_grid_facts)
  show ?thesis
    unfolding w enumerates_def grid_serialize_bounds_def fold_bounds [OF d]
    using d by (simp add: comp_def) (auto simp: find_Some_iff grid_quads)
qed

theorem shards_partition_the_grid_witness:
  "\<exists>ss db. claim_in_turn demo_env (replicate 4 (make_id_shard nil_uuid))
      (wd_db (snd (compute_heuristic demo_wd_env (switch_heuristic HGridCell demo_wd)))) = Inr (map Some ss, db) \<and>
    shard_from_position demo_env \<lparr> tr_world = 0, tr_position = \<lparr> vx = 0, vy = 0, vz = 0 \<rparr>, tr_bounding_box = aabb_new 3 \<rparr> db =
      Inr (Some (make_id_shard nil_uuid))"
proof -
  define ns where "ns = replicate 4 (make_id_shard nil_uuid)"
  have ns: "length ns = 4" "\<forall>n\<in>set ns. n = make_id_shard nil_uuid" by (simp_all add: ns_def)
  have h: "wd_heuristic (switch_heuristic HGridCell demo_wd) = Some grid_new"
    and d: "mem_doc_of (wd_db (switch_heuristic HGridCell demo_wd)) = None"
    by (simp_all add: switch_heuristic_def demo_wd_def mem_doc_of_def)
  have r: "f_ok 0" "in_range f_m100 0 f_100" "in_range f_m5 0 f_5"
    by (simp_all add: in_range_def f_ok_def f_m100_def f_100_def f_m5_def f_5_def f_eval)
  let ?t = "\<lparr> tr_world = 0, tr_position = \<lparr> vx = 0, vy = 0, vz = 0 \<rparr>, tr_bounding_box = aabb_new 3 \<rparr>"
  have "\<exists>ss db. claim_in_turn (we_hm demo_wd_env) ns
      (wd_db (snd (compute_heuristic demo_wd_env (switch_heuristic HGridCell demo_wd)))) = Inr (map Some ss, db) \<and>
    length ss = 4 \<and>
    (\<forall>t. f_ok (vx (tr_position t)) \<longrightarrow> f_ok (vy (tr_position t)) \<longrightarrow>
      (if in_range f_m100 (vx (tr_position t)) f_100 \<and> in_range f_m100 (vy (tr_position t)) f_100 \<and>
          in_range f_m5 (vz (tr_position t)) f_5
       then \<exists>i<4. shard_from_position (we_hm demo_wd_env) t db = Inr (Some (ns ! i)) \<and>
         grid_shape_contains (ss ! i) (tr_position t)
       else shard_from_position (we_hm demo_wd_env) t db = Inl (UB Null_Deref)))"
    by (rule shards_partition_the_grid [OF memjson.json_store_axioms demo_wd_env_facts(1,2) h demo_wd_env_facts(4)
      demo_writers]) (use d ns demo_wd_env_facts(5) in auto)
  then obtain ss db where c: "claim_in_turn (we_hm demo_wd_env) ns
      (wd_db (snd (compute_heuristic demo_wd_env (switch_heuristic HGridCell demo_wd)))) = Inr (map Some ss, db)"
    and p: "\<exists>i<4. shard_from_position (we_hm demo_wd_env) ?t db = Inr (Some (ns ! i))"
    using r by (fastforce dest: spec [where x = ?t])
  from p have "shard_from_position (we_hm demo_wd_env) ?t db = Inr (Some (make_id_shard nil_uuid))"
    using ns nth_mem [of _ ns] by fastforce
  moreover have "we_hm demo_wd_env = demo_env" by (simp add: demo_wd_env_def)
  ultimately show ?thesis using c by (auto simp: ns_def)
qed

lemma set_replicas_updates:
  assumes "\<forall>m. map_of spec ''Mode'' = Some m \<longrightarrow> j_is_object m \<and>
      (\<forall>r. j_field ''Replicated'' m = Some r \<longrightarrow> j_is_object r)"
  obtains spec' mode repl where "set_replicas n (JObj spec) = Inr spec'"
    and "j_field ''Mode'' spec' = Some mode" and "j_field ''Replicated'' mode = Some repl"
    and "j_field ''Replicas'' repl = Some (JNum (uint n))"
    and "\<forall>k. k \<noteq> ''Mode'' \<longrightarrow> j_field k spec' = map_of spec k"
proof -
  have put: "\<exists>j'. j_put j k v = Inr j' \<and> j_field k j' = Some v \<and> (\<forall>k'. k' \<noteq> k \<longrightarrow> j_field k' j' = j_field k' j)"
    if "j = JNull \<or> j_is_object j" for j k v
    using that by (cases j) (auto simp: update_conv)
  define mode where "mode = (case map_of spec ''Mode'' of None \<Rightarrow> JNull | Some m \<Rightarrow> m)"
  have m: "mode = JNull \<or> j_is_object mode" "j_key (JObj spec) ''Mode'' = Inr mode"
    using assms by (auto simp: mode_def split: option.split)
  define repl where "repl = (case j_field ''Replicated'' mode of None \<Rightarrow> JNull | Some r \<Rightarrow> r)"
  have r: "repl = JNull \<or> j_is_object repl"
    using assms by (auto simp: repl_def mode_def split: option.splits)
  have r': "j_key mode ''Replicated'' = Inr repl"
    using m(1) by (cases mode) (auto simp: repl_def)
  obtain repl' where 1: "j_put repl ''Replicas'' (JNum (uint n)) = Inr repl'" "j_field ''Replicas'' repl' = Some (JNum (uint n))"
    using put [OF r] by blast
  obtain mode' where 2: "j_put mode ''Replicated'' repl' = Inr mode'" "j_field ''Replicated'' mode' = Some repl'"
    using put [OF m(1)] by blast
  obtain spec' where 3: "j_put (JObj spec) ''Mode'' mode' = Inr spec'" "j_field ''Mode'' spec' = Some mode'"
    "\<forall>k. k \<noteq> ''Mode'' \<longrightarrow> j_field k spec' = map_of spec k"
    using put [of "JObj spec"] by auto
  have "set_replicas n (JObj spec) = Inr spec'"
    by (simp only: set_replicas_def m(2) r' bindE_simps 1(1) 2(1) 3(1))
  then show ?thesis using that 1(2) 2(2) 3(2,3) by blast
qed

text \<open>To scale the shards the watchdog looks the service up by its label, inspects it, and posts
  the specification it read back under the version it read, with nothing changed but the number of
  replicas. The new count is remembered only once Docker has accepted the update.\<close>

theorem shard_scaling:
  assumes "docker_request (we_docker W) ''GET'' (str_bytes ''/services?filters='' @ shard_filter) None []
      (wd_docker s) = (Inr t1, d1)"
    and "dk_parse (we_docker W) t1 = Some (JArr (svc # rest))" and "j_field ''ID'' svc = Some (JStr i)"
    and "docker_request (we_docker W) ''GET'' (str_bytes ''/services/'' @ i) None [] d1 = (Inr t2, d2)"
    and "dk_parse (we_docker W) t2 = Some insp" and "j_field ''Version'' insp = Some ver"
    and "j_field ''Index'' ver = Some (JNum v)" and "j_field ''Spec'' insp = Some (JObj spec)"
    and "\<forall>m. map_of spec ''Mode'' = Some m \<longrightarrow> j_is_object m \<and>
      (\<forall>r. j_field ''Replicated'' m = Some r \<longrightarrow> j_is_object r)"
    and "- (2 ^ 31) \<le> v" and "v < 2 ^ 31"
  shows "\<exists>spec' mode repl. j_field ''Mode'' spec' = Some mode \<and> j_field ''Replicated'' mode = Some repl \<and>
    j_field ''Replicas'' repl = Some (JNum (uint n)) \<and> (\<forall>k. k \<noteq> ''Mode'' \<longrightarrow> j_field k spec' = map_of spec k) \<and>
    set_shard_count W n s =
      (case docker_request (we_docker W) ''POST''
          (str_bytes ''/services/'' @ i @ str_bytes ''/update?version='' @ dec_of_int v) (Some spec') [] d2 of
         (Inl e, d3) \<Rightarrow> (Inl e, s \<lparr> wd_docker := d3 \<rparr>)
       | (Inr t3, d3) \<Rightarrow>
           if t3 = [] \<or> dk_parse (we_docker W) t3 \<noteq> None
           then (Inr (), s \<lparr> wd_docker := d3, wd_shard_count := n \<rparr>)
           else (Inl (RuntimeError ''parse_error''), s \<lparr> wd_docker := d3 \<rparr>))"
proof -
  obtain spec' mode repl where sp: "set_replicas n (JObj spec) = Inr spec'" "j_field ''Mode'' spec' = Some mode"
    "j_field ''Replicated'' mode = Some repl" "j_field ''Replicas'' repl = Some (JNum (uint n))"
    "\<forall>k. k \<noteq> ''Mode'' \<longrightarrow> j_field k spec' = map_of spec k"
    using set_replicas_updates [OF assms(9)] .
  have key: "j_key j k = Inr x" if "j_field k j = Some x" for j k x
    using that by (cases j) simp_all
  have id: "bindE (j_elem (JArr (svc # rest)) 0) (\<lambda>e. bindE (j_key e ''ID'') j_str) = Inr i"
    using key [OF assms(3)] by simp
  have "sint (word_of_int v :: u32) = v"
    using assms(10,11) by (simp add: sint_sbintrunc' signed_take_bit_int_eq_self)
  then have ver: "bindE (j_key insp ''Version'') (\<lambda>v. bindE (j_key v ''Index'') j_int) = Inr v"
    using key [OF assms(6)] key [OF assms(7)] by simp
  have "set_shard_count W n s =
      (case docker_request (we_docker W) ''POST''
          (str_bytes ''/services/'' @ i @ str_bytes ''/update?version='' @ dec_of_int v) (Some spec') [] d2 of
         (Inl e, d3) \<Rightarrow> (Inl e, s \<lparr> wd_docker := d3 \<rparr>)
       | (Inr t3, d3) \<Rightarrow>
           if t3 = [] \<or> dk_parse (we_docker W) t3 \<noteq> None
           then (Inr (), s \<lparr> wd_docker := d3, wd_shard_count := n \<rparr>)
           else (Inl (RuntimeError ''parse_error''), s \<lparr> wd_docker := d3 \<rparr>))"
  proof -
    let ?D = "we_docker W" and ?path = "str_bytes ''/services/'' @ i @ str_bytes ''/update?version='' @ dec_of_int v"
    have 1: "on_docker (docker_request ?D ''GET'' (str_bytes ''/services?filters='' @ shard_filter) None []) s =
        (Inr t1, s \<lparr> wd_docker := d1 \<rparr>)" by (simp add: on_docker_def assms(1))
    have 2: "on_docker (docker_request ?D ''GET'' (str_bytes ''/services/'' @ i) None []) (s \<lparr> wd_docker := d1 \<rparr>) =
        (Inr t2, s \<lparr> wd_docker := d2 \<rparr>)" by (simp add: on_docker_def assms(4))
    have p: "docker_parse ?D t1 = Inr (JArr (svc # rest))" "docker_parse ?D t2 = Inr insp"
      by (simp_all add: docker_parse_def assms(2,5))
    have sp': "bindE (j_key insp ''Spec'') (set_replicas n) = Inr spec'"
      using key [OF assms(8)] sp(1) by simp
    obtain r3 d3 where post: "docker_request ?D ''POST'' ?path (Some spec') [] d2 = (r3, d3)" by fastforce
    have 3: "on_docker (docker_request ?D ''POST'' ?path (Some spec') []) (s \<lparr> wd_docker := d2 \<rparr>) =
        (r3, s \<lparr> wd_docker := d3 \<rparr>)" by (simp add: on_docker_def post)
    have upto: "set_shard_count W n s =
        bindIO (on_docker (docker_request ?D ''POST'' ?path (Some spec') [])) (\<lambda>updateResp.
        bindIO (if updateResp \<noteq> [] then liftIO (docker_parse ?D updateResp) else returnIO JNull) (\<lambda>_ s.
          (Inr (), s \<lparr> wd_shard_count := n \<rparr>))) (s \<lparr> wd_docker := d2 \<rparr>)"
      by (simp add: set_shard_count_def 1 2 p id ver sp' j_empty_def Let_def del: j_elem.simps)
    show ?thesis
    proof (cases r3)
      case (Inl e)
      then show ?thesis using 3 by (simp add: upto post)
    next
      case (Inr t3)
      then show ?thesis using 3 by (cases "dk_parse ?D t3") (simp_all add: upto post docker_parse_def)
    qed
  qed
  with sp(2-5) show ?thesis by blast
qed

theorem shard_scaling_witness:
  "set_shard_count demo_wd_env 4 demo_wd =
    (Inr (), demo_wd \<lparr> wd_docker := \<lparr> dk_self = None, dk_world = 3 \<rparr>, wd_shard_count := 4 \<rparr>)"
proof -
  let ?W = "demo_wd_env" and ?spec = "[(''Name'', JStr [])]"
  have D: "we_docker ?W = demo_swarm" by (rule demo_wd_env_facts)
  have req: "docker_request demo_swarm m e b [] \<lparr> dk_self = None, dk_world = w \<rparr> =
      (Inr (if m = ''POST'' then [] else if w = 0 then [1] else [2]), \<lparr> dk_self = None, dk_world = Suc w \<rparr>)" for m e b w
    by (simp add: docker_request_def demo_swarm_def Let_def)
  have "\<exists>spec' mode repl. j_field ''Mode'' spec' = Some mode \<and> j_field ''Replicated'' mode = Some repl \<and>
    j_field ''Replicas'' repl = Some (JNum (uint (4 :: u32))) \<and> (\<forall>k. k \<noteq> ''Mode'' \<longrightarrow> j_field k spec' = map_of ?spec k) \<and>
    set_shard_count ?W 4 demo_wd =
      (case docker_request (we_docker ?W) ''POST''
          (str_bytes ''/services/'' @ [120] @ str_bytes ''/update?version='' @ dec_of_int 17) (Some spec') [] \<lparr> dk_self = None, dk_world = 2 \<rparr> of
         (Inl e, d3) \<Rightarrow> (Inl e, demo_wd \<lparr> wd_docker := d3 \<rparr>)
       | (Inr t3, d3) \<Rightarrow>
           if t3 = [] \<or> dk_parse (we_docker ?W) t3 \<noteq> None
           then (Inr (), demo_wd \<lparr> wd_docker := d3, wd_shard_count := 4 \<rparr>)
           else (Inl (RuntimeError ''parse_error''), demo_wd \<lparr> wd_docker := d3 \<rparr>))"
    by (rule shard_scaling [where ?d1.0 = "\<lparr> dk_self = None, dk_world = 1 \<rparr>" and svc = "JObj [(''ID'', JStr [120])]"
        and rest = "[]" and ver = "JObj [(''Index'', JNum 17)]"
        and insp = "JObj [(''Version'', JObj [(''Index'', JNum 17)]), (''Spec'', JObj ?spec)]"])
      (simp_all add: D req, simp_all add: demo_wd_def demo_swarm_def req [unfolded demo_swarm_def])
  then show ?thesis by (auto simp: D req)
qed

text \<open>The watchdog never ends normally: when it is asked to shut down it closes the interlink
  twice, and the second attempt to join the thread throws out of the main function.\<close>

theorem shutdown_ends_in_exception:
  assumes "watchdog_run W k others s = Some (r, s')"
  shows "\<exists>e. r = Inl e \<and> (fst (watchdog_init W s) = Inr () \<longrightarrow> e = RuntimeError ''system_error'')"
proof -
  have twice: "\<exists>t'. bindIO watchdog_cleanup (\<lambda>_. interlink_shutdown) t = (Inl (RuntimeError ''system_error''), t')"
    for t :: "('a, 'b, 'c) watchdog"
    by (simp add: watchdog_cleanup_def interlink_shutdown_def bindIO_def Let_def)
  obtain r0 s0 where i: "watchdog_init W s = (r0, s0)" by (cases "watchdog_init W s")
  show ?thesis
  proof (cases r0)
    case (Inr u)
    then obtain t where "bindIO watchdog_cleanup (\<lambda>_. interlink_shutdown) t = (r, s')"
      using assms i by (auto simp: watchdog_run_def)
    then show ?thesis using twice [of t] by auto
  qed (use assms i in \<open>auto simp: watchdog_run_def\<close>)
qed

theorem shutdown_ends_in_exception_witness:
  "\<exists>s'. watchdog_run demo_wd_env 0 (\<lambda>_ s. s) demo_wd = Some (Inl (RuntimeError ''system_error''), s') \<and>
     fst (watchdog_init demo_wd_env demo_wd) = Inr ()"
proof -
  let ?s = "switch_heuristic HGridCell (demo_wd \<lparr> wd_interlink := (wd_interlink demo_wd)
    \<lparr> il_init := True, il_effects := [Register_Self (ie_own_ip (we_interlink demo_wd_env))] \<rparr>, wd_ticking := True, wd_events := event_system_init es_new \<rparr>)"
  have i: "watchdog_init demo_wd_env demo_wd = compute_heuristic demo_wd_env ?s"
    by (simp add: watchdog_init_def start_interlink_def on_interlink_def interlink_init_def bindIO_def
        demo_wd_env_facts make_id_watchdog_def nid_is_internal_def nt_defs Let_def switch_heuristic_def demo_wd_def
        emit_def)
  have d: "\<forall>m. mem_doc_of (wd_db ?s) = Some m \<longrightarrow> bounds_view (we_hm demo_wd_env) m [] []"
    and h: "wd_heuristic ?s = Some grid_new"
    by (simp_all add: switch_heuristic_def demo_wd_def mem_doc_of_def)
  obtain db where "compute_heuristic demo_wd_env ?s =
      set_shard_count demo_wd_env 4 (?s \<lparr> wd_heuristic := Some default_grid, wd_db := db \<rparr>)"
    by (rule memjson.compute_publishes [OF demo_wd_env_facts(1,2) h demo_writers demo_wd_env_facts(4) d])
  moreover have "set_shard_count demo_wd_env 4 s =
      (Inr (), s \<lparr> wd_docker := \<lparr> dk_self = None, dk_world = 3 \<rparr>, wd_shard_count := 4 \<rparr>)"
    if "wd_docker s = wd_docker demo_wd" for s
    using that by (simp add: set_shard_count_def on_docker_def bindIO_def demo_wd_env_facts(3) docker_request_def
        demo_swarm_def demo_wd_def docker_parse_def j_empty_def set_replicas_def Let_def)
  ultimately have ok: "watchdog_init demo_wd_env demo_wd = (Inr (), ?s \<lparr> wd_heuristic := Some default_grid,
      wd_db := db, wd_docker := \<lparr> dk_self = None, dk_world = 3 \<rparr>, wd_shard_count := 4 \<rparr>)"
    by (simp add: i switch_heuristic_def)
  then have "watchdog_run demo_wd_env 0 (\<lambda>_ s. s) demo_wd \<noteq> None"
    by (simp add: watchdog_run_def switch_heuristic_def demo_wd_def)
  then obtain r s' where run: "watchdog_run demo_wd_env 0 (\<lambda>_ s. s) demo_wd = Some (r, s')" by auto
  from shutdown_ends_in_exception [OF run] ok run show ?thesis by auto
qed

end
