(* ===== verification/God_Start.thy ===== *)
theory God_Start
  imports God_Outliers Watchdog
begin

text \<open>
  The main loop of the parked watchdog and its calls of the Docker API (\<open>runtime/watchdog/exc/WatchDog.cpp\<close>): the
  names of the running shards and their number. The names of the stack and of the service are set when the
  program is built.
\<close>

section \<open>The shards in Docker\<close>

definition partition_service :: "bytes \<Rightarrow> bytes \<Rightarrow> bytes" where
  "partition_service stack shard = stack @ [95] @ shard"

text \<open>The container of a task, when it has one.\<close>

definition task_container :: "json \<Rightarrow> bytes option res" where
  "task_container task =
    (if \<not> j_contains task ''Status'' then Inr None
     else bindE (j_key task ''Status'') (\<lambda>status.
       if \<not> j_contains status ''ContainerStatus'' then Inr None
       else bindE (j_key status ''ContainerStatus'') (\<lambda>c.
         if \<not> j_contains c ''ContainerID'' then Inr None
         else bindE (j_key c ''ContainerID'') (\<lambda>i. bindE (j_str i) (\<lambda>t. Inr (Some t))))))"

fun container_names :: "'w docker_env \<Rightarrow> json list \<Rightarrow> ('w docker_state, bytes list) io" where
  "container_names D [] = returnIO []"
| "container_names D (task # tasks) =
    bindIO (liftIO (task_container task)) (\<lambda>r.
      bindIO (case r of
          None \<Rightarrow> returnIO []
        | Some i \<Rightarrow>
            bindIO (docker_request D ''GET'' (str_bytes ''/containers/'' @ i @ str_bytes ''/json'') None []) (\<lambda>resp.
            bindIO (liftIO (docker_parse D resp)) (\<lambda>cont.
              if \<not> j_contains cont ''Name'' then returnIO []
              else bindIO (liftIO (bindE (j_key cont ''Name'') j_str)) (\<lambda>n. returnIO [n])))) (\<lambda>ns.
      bindIO (container_names D tasks) (\<lambda>ms. returnIO (ns @ ms))))"

text \<open>The filter of the tasks is not escaped.\<close>

definition get_partition_ids :: "'w docker_env \<Rightarrow> bytes \<Rightarrow> ('w docker_state, bytes list) io" where
  "get_partition_ids D service =
    bindIO (docker_request D ''GET'' (str_bytes ''/services/'' @ service) None []) (\<lambda>resp.
    bindIO (liftIO (docker_parse D resp)) (\<lambda>json.
    bindIO (liftIO (bindE (j_key json ''ID'') j_str)) (\<lambda>i.
    bindIO (docker_request D ''GET'' (str_bytes ''/tasks?filters={\"service\":{\"'' @ i @ str_bytes ''\":true}}'') None []) (\<lambda>resp.
    bindIO (liftIO (docker_parse D resp)) (\<lambda>tasks. container_names D (j_elems tasks))))))"

text \<open>A failure after the inspection ends in an exception of another type.\<close>

definition set_partition_count :: "'w docker_env \<Rightarrow> bytes \<Rightarrow> u32 \<Rightarrow> ('w docker_state, u32) io" where
  "set_partition_count D service n =
    bindIO (docker_request D ''GET'' (str_bytes ''/services/'' @ service) None []) (\<lambda>resp.
    bindIO (liftIO (docker_parse D resp)) (\<lambda>inspect.
      catchIO
        (bindIO (liftIO (bindE (j_key inspect ''Version'') (\<lambda>v. bindE (j_key v ''Index'') j_int))) (\<lambda>version.
         bindIO (liftIO (bindE (j_key inspect ''Spec'') (set_replicas n))) (\<lambda>spec.
         bindIO (docker_request D ''POST''
           (str_bytes ''/services/'' @ service @ str_bytes ''/update?version='' @ dec_of_int version) (Some spec) []) (\<lambda>resp.
         bindIO (if resp \<noteq> [] then liftIO (docker_parse D resp) else returnIO JNull) (\<lambda>_. returnIO n)))))
        (liftIO (Inl (RuntimeError ''SHIT'')))))"

section \<open>The main loop\<close>

text \<open>A round of the loop with the time of its clock: the first one ten seconds after the start computes the shapes
  and looks at the outliers that are there. The answer is whether that has been done.\<close>

definition god_round :: "('i, 'db, 'l) god_env \<Rightarrow> int \<Rightarrow> int \<Rightarrow> bool \<Rightarrow> (('db, 'l) god, bool) io" where
  "god_round E start now called =
    (if \<not> called \<and> 10 * 10 ^ 9 \<le> now - start
     then bindIO (first_update E) (\<lambda>_. returnIO True)
     else returnIO called)"

fun god_rounds :: "('i, 'db, 'l) god_env \<Rightarrow> int \<Rightarrow> int list \<Rightarrow> bool \<Rightarrow> (('db, 'l) god, bool) io" where
  "god_rounds E start [] called = returnIO called"
| "god_rounds E start (t # ts) called = bindIO (god_round E start t called) (god_rounds E start ts)"

text \<open>The update happens once, in the first round that is late enough.\<close>

lemma rounds_early: "\<forall>t\<in>set ts. t < start + 10 ^ 10 \<Longrightarrow> god_rounds E start (ts @ us) False s = god_rounds E start us False s"
  by (induction ts) (auto simp: god_round_def)

lemma rounds_done: "god_rounds E start ts True s = (Inr True, s)"
  by (induction ts) (simp_all add: god_round_def)

lemma update_once:
  assumes "\<forall>t\<in>set ts. t < start + 10 ^ 10" and "start + 10 ^ 10 \<le> t"
  shows "god_rounds E start (ts @ t # us) False s = bindIO (first_update E) (\<lambda>_. returnIO True) s"
proof -
  have "god_rounds E start (ts @ t # us) False s = god_rounds E start (t # us) False s" by (rule rounds_early [OF assms(1)])
  also have "\<dots> = bindIO (bindIO (first_update E) (\<lambda>_. returnIO True)) (god_rounds E start us) s"
    using assms(2) by (simp add: god_round_def)
  also have "\<dots> = bindIO (first_update E) (\<lambda>_. returnIO True) s"
    by (auto simp: bindIO_def rounds_done split: prod.splits sum.splits)
  finally show ?thesis .
qed

end
