(* ===== verification/Shard_Partition.thy ===== *)
theory Shard_Partition
  imports God_Outliers
begin

text \<open>
  The parked shard (\<open>runtime/shard/exc/Partition.cpp\<close>): its managed entities, the messages of the watchdog, the
  proxies and the game server, and the reports about outliers. With the parked watchdog it makes up the
  protocol that moves an entity from one partition to another.
\<close>

section \<open>State\<close>

record ('i, 'db, 'l) shard =
  sp_db :: 'db
  sp_shape :: shape
  sp_cells :: "parsed_cell list"
  sp_managed :: "'i parked_entity list"
  sp_reported :: "'i set"
  sp_server :: "'l option"
  sp_proxies :: "'l list"
  sp_notified :: int
  sp_pushed :: int
  sp_sent :: "('l \<times> bytes \<times> send_flag) list"

text \<open>The identifier of the shard itself is made of its container's name.\<close>

record ('i, 'db, 'l) shard_env =
  se_class :: "'i entity_class"
  se_conn :: "'db redis_connection"
  se_link :: "'l link_class"
  se_self :: 'l

definition shard_new :: "'db \<Rightarrow> int \<Rightarrow> ('i, 'db, 'l) shard" where
  "shard_new db now = \<lparr> sp_db = db, sp_shape = [], sp_cells = [], sp_managed = [], sp_reported = {}, sp_server = None,
     sp_proxies = [], sp_notified = now, sp_pushed = now, sp_sent = [] \<rparr>"

definition self_key :: "('i, 'db, 'l) shard_env \<Rightarrow> bytes" where
  "self_key E = lk_text (se_link E) (se_self E)"

definition shardIO :: "('db, 'a) io \<Rightarrow> (('i, 'db, 'l) shard, 'a) io" where
  "shardIO = zoomIO sp_db (\<lambda>db s. s \<lparr> sp_db := db \<rparr>)"

definition shard_read :: "('db \<Rightarrow> 'a res) \<Rightarrow> (('i, 'db, 'l) shard, 'a) io" where
  "shard_read f = (\<lambda>s. (f (sp_db s), s))"

definition shard_send :: "'l list \<Rightarrow> bytes \<Rightarrow> send_flag \<Rightarrow> (('i, 'db, 'l) shard, unit) io" where
  "shard_send ls bs flag = modifyIO (\<lambda>s. s \<lparr> sp_sent := sp_sent s @ map (\<lambda>l. (l, bs, flag)) ls \<rparr>)"

definition tell_god :: "('i, 'db, 'l) shard_env \<Rightarrow> bytes \<Rightarrow> (('i, 'db, 'l) shard, unit) io" where
  "tell_god E text = shard_send [lk_god (se_link E)] text Reliable_Now"

section \<open>Connections\<close>

definition on_connected :: "('i, 'db, 'l) shard_env \<Rightarrow> 'l \<Rightarrow> ('i, 'db, 'l) shard \<Rightarrow> ('i, 'db, 'l) shard" where
  "on_connected E l s =
    (case lk_type (se_link E) l of
       eGameServer \<Rightarrow> s \<lparr> sp_server := Some l \<rparr>
     | eProxy \<Rightarrow> s \<lparr> sp_proxies := List.insert l (sp_proxies s) \<rparr>
     | _ \<Rightarrow> s)"

definition on_disconnected :: "('i, 'db, 'l) shard_env \<Rightarrow> 'l \<Rightarrow> ('i, 'db, 'l) shard \<Rightarrow> ('i, 'db, 'l) shard" where
  "on_disconnected E l s =
    (case lk_type (se_link E) l of
       eGameServer \<Rightarrow> s \<lparr> sp_server := None \<rparr>
     | eProxy \<Rightarrow> s \<lparr> sp_proxies := removeAll l (sp_proxies s) \<rparr>
     | _ \<Rightarrow> s)"

definition shard_init :: "('i, 'db, 'l) shard_env \<Rightarrow> (('i, 'db, 'l) shard, unit) io" where
  "shard_init E =
    bindIO (shardIO (clear_partition (se_conn E) (self_key E))) (\<lambda>_.
      tell_god E (str_bytes ''Hello This is a test message from '' @ self_key E))"

section \<open>Entities from packets\<close>

text \<open>The entities of a packet are copied from its bytes, whose number must be a multiple of their size.\<close>

definition parse_entity_packet :: "'i entity_class \<Rightarrow> bytes \<Rightarrow> (u8 \<times> 'i parked_entity list) option" where
  "parse_entity_packet T data =
    (case data of
       [] \<Rightarrow> None
     | h # payload \<Rightarrow>
         if payload = [] \<or> length payload mod ec_size T \<noteq> 0 then None
         else Some (h, map (\<lambda>k. ec_load T (take (ec_size T) (drop (k * ec_size T) payload)))
           [0..<length payload div ec_size T]))"

definition drop_ids :: "'i parked_entity list \<Rightarrow> 'i parked_entity list \<Rightarrow> 'i parked_entity list" where
  "drop_ids es ms = foldl (\<lambda>ms e. filter (\<lambda>m. pe_id m \<noteq> pe_id e) ms) ms es"

definition entities_arrived :: "('i, 'db, 'l) shard_env \<Rightarrow> bytes \<Rightarrow> u8 \<Rightarrow> 'i parked_entity list \<Rightarrow> (('i, 'db, 'l) shard, unit) io" where
  "entities_arrived E data h es =
    (if h = header_byte Entity_Update
     then thenIO (modifyIO (\<lambda>s. s \<lparr> sp_managed := es \<rparr>))
       (bindIO (getIO sp_proxies) (\<lambda>ps. shard_send ps data Unreliable_Now))
     else thenIO (modifyIO (\<lambda>s.
         if h = header_byte Entity_Incoming then s \<lparr> sp_managed := sp_managed s @ es \<rparr>
         else if h = header_byte Entity_Outgoing then s \<lparr> sp_managed := drop_ids es (sp_managed s) \<rparr>
         else s))
       (bindIO (getIO sp_proxies) (\<lambda>ps. thenIO (shard_send ps data Unreliable_Now)
         (bindIO (getIO sp_server) (\<lambda>g. case g of
            None \<Rightarrow> returnIO ()
          | Some l \<Rightarrow> shard_send [l] (h # concat (map (ec_store (se_class E)) es)) Unreliable_Now)))))"

section \<open>Messages of the watchdog\<close>

text \<open>The number in a message; anything else is nothing.\<close>

definition parse_entity_id :: "'i entity_class \<Rightarrow> bytes \<Rightarrow> 'i option" where
  "parse_entity_id T t =
    (if t = [] \<or> \<not> all_digits t then None else case stoi t of Inl _ \<Rightarrow> None | Inr v \<Rightarrow> Some (ec_id_int T v))"

text \<open>An entity that comes in is one of the outliers of its source. Its identifier tells the proxies who it is,
  when it is a player.\<close>

definition authority_text :: "('i, 'db, 'l) shard_env \<Rightarrow> 'i \<Rightarrow> bytes" where
  "authority_text E i = str_bytes ''AuthorityChange:'' @ ec_id_text (se_class E) i @ [32] @ self_key E"

definition take_over :: "('i, 'db, 'l) shard_env \<Rightarrow> 'i \<Rightarrow> 'i parked_entity \<Rightarrow> (('i, 'db, 'l) shard, unit) io" where
  "take_over E i e =
    thenIO (modifyIO (\<lambda>s. s \<lparr> sp_managed := sp_managed s @ [e] \<rparr>))
      (bindIO (shardIO (add_entity (se_class E) (se_conn E) (self_key E) e)) (\<lambda>_.
       thenIO (modifyIO (\<lambda>s. s \<lparr> sp_reported := sp_reported s - {i} \<rparr>))
         (whenIO (pe_player e)
           (bindIO (getIO sp_proxies) (\<lambda>ps. shard_send ps (authority_text E (pe_id e)) Reliable_Now)))))"

definition entity_incoming :: "('i, 'db, 'l) shard_env \<Rightarrow> bytes \<Rightarrow> (('i, 'db, 'l) shard, unit) io" where
  "entity_incoming E msg =
    (case find_from 58 msg 0 of
       None \<Rightarrow> returnIO ()
     | Some colon \<Rightarrow>
         (case parse_entity_id (se_class E) (drop (colon + 1) msg) of
            None \<Rightarrow> returnIO ()
          | Some i \<Rightarrow>
              bindIO (shard_read (fetch_outliers (se_class E) (se_conn E) (take colon msg))) (\<lambda>es.
                case List.find (\<lambda>e. pe_id e = i) es of
                  None \<Rightarrow> returnIO ()
                | Some e \<Rightarrow> take_over E i e)))"

definition is_blank :: "u8 \<Rightarrow> bool" where
  "is_blank b \<longleftrightarrow> b = 32 \<or> b = 9 \<or> b = 13 \<or> b = 10"

definition trim_blanks :: "bytes \<Rightarrow> bytes" where
  "trim_blanks t = rev (dropWhile is_blank (rev (dropWhile is_blank t)))"

definition removed_text :: "('i, 'db, 'l) shard_env \<Rightarrow> 'i \<Rightarrow> bytes \<Rightarrow> bytes" where
  "removed_text E i pos = str_bytes ''EntityRemoved:'' @ self_key E @ [58] @ ec_id_text (se_class E) i @ pos"

definition position_text :: "vec3 \<Rightarrow> bytes" where
  "position_text v = [58] @ f_to_string (vx v) @ [58] @ f_to_string (vy v) @ [58] @ f_to_string (vz v)"

text \<open>The first managed entity with an identifier goes; when there is none the answer has the position zero.\<close>

fun remove_first :: "('a \<Rightarrow> bool) \<Rightarrow> 'a list \<Rightarrow> 'a list" where
  "remove_first p [] = []"
| "remove_first p (x # xs) = (if p x then xs else x # remove_first p xs)"

definition give_up :: "('i, 'db, 'l) shard_env \<Rightarrow> 'i \<Rightarrow> (('i, 'db, 'l) shard, unit) io" where
  "give_up E i =
    bindIO (getIO sp_managed) (\<lambda>ms. case List.find (\<lambda>e. pe_id e = i) ms of
       Some e \<Rightarrow>
         thenIO (modifyIO (\<lambda>s. s \<lparr> sp_managed := remove_first (\<lambda>e. pe_id e = i) ms \<rparr>))
           (bindIO (shardIO (remove_entity (se_class E) (se_conn E) (self_key E) i)) (\<lambda>_.
             tell_god E (removed_text E (pe_id e) (position_text (pe_pos e)))))
     | None \<Rightarrow> tell_god E (removed_text E i (str_bytes '':0.0:0.0:0.0'')))"

definition entity_outgoing :: "('i, 'db, 'l) shard_env \<Rightarrow> bytes \<Rightarrow> (('i, 'db, 'l) shard, unit) io" where
  "entity_outgoing E msg =
    catchIO (case parse_entity_id (se_class E) (trim_blanks msg) of None \<Rightarrow> returnIO () | Some i \<Rightarrow> give_up E i) (returnIO ())"

text \<open>The shape that was stored for the shard. Outliers are reported anew for it. A text that keeps the parser
  busy for ever leaves nothing defined.\<close>

definition fetch_grid_shape :: "('i, 'db, 'l) shard_env \<Rightarrow> (('i, 'db, 'l) shard, unit) io" where
  "fetch_grid_shape E =
    bindIO (shard_read (cells_fetch (se_conn E) (self_key E))) (\<lambda>r. case r of
       None \<Rightarrow> returnIO ()
     | Some data \<Rightarrow>
         (case parse_grid_shape data of
            None \<Rightarrow> liftIO (Inl (UB Endless_Recursion))
          | Some cells \<Rightarrow> modifyIO (\<lambda>s. s \<lparr> sp_cells := cells, sp_reported := {} \<rparr>)))"

definition shard_message :: "('i, 'db, 'l) shard_env \<Rightarrow> bytes \<Rightarrow> (('i, 'db, 'l) shard, unit) io" where
  "shard_message E data =
    (case data of
       [] \<Rightarrow> returnIO ()
     | h # msg \<Rightarrow>
         (case parse_entity_packet (se_class E) data of
            Some (h, es) \<Rightarrow> entities_arrived E data h es
          | None \<Rightarrow>
              if h = header_byte Entity_Incoming then entity_incoming E msg
              else if h = header_byte Entity_Outgoing then entity_outgoing E msg
              else if h = header_byte Fetch_Grid_Shape then fetch_grid_shape E
              else returnIO ()))"

section \<open>Outliers\<close>

text \<open>A cell with a corner that was never read is not defined.\<close>

definition parsed_contains :: "parsed_cell \<Rightarrow> vec2 \<Rightarrow> bool res" where
  "parsed_contains c p =
    (case (pl_min c, pl_max c) of
       (Some lo, Some hi) \<Rightarrow> Inr (gc_contains \<lparr> gc_min = lo, gc_max = hi, gc_row = 0, gc_col = 0 \<rparr> p)
     | _ \<Rightarrow> Inl (UB Indeterminate))"

fun cells_contain :: "parsed_cell list \<Rightarrow> vec2 \<Rightarrow> bool res" where
  "cells_contain [] p = Inr False"
| "cells_contain (c # cs) p = bindE (parsed_contains c p) (\<lambda>b. if b then Inr True else cells_contain cs p)"

definition inside_shard :: "('i, 'db, 'l) shard \<Rightarrow> 'i parked_entity \<Rightarrow> bool res" where
  "inside_shard s e =
    (if sp_cells s \<noteq> [] then cells_contain (sp_cells s) (entity_point e)
     else Inr (shape_contains (sp_shape s) (entity_point e)))"

text \<open>The new outliers among the entities, and what has been reported.\<close>

fun find_outliers :: "('i parked_entity \<Rightarrow> bool res) \<Rightarrow> 'i parked_entity list \<Rightarrow> 'i set \<Rightarrow> ('i parked_entity list \<times> 'i set) res" where
  "find_outliers inside [] rep = Inr ([], rep)"
| "find_outliers inside (e # es) rep =
    bindE (inside e) (\<lambda>b.
      if b then find_outliers inside es (rep - {pe_id e})
      else if pe_id e \<in> rep then find_outliers inside es rep
      else bindE (find_outliers inside es (insert (pe_id e) rep)) (\<lambda>(os, rep). Inr (e # os, rep)))"

definition detected_text :: "('i, 'db, 'l) shard_env \<Rightarrow> nat \<Rightarrow> bytes" where
  "detected_text E n = str_bytes ''OutliersDetected:'' @ self_key E @ [58] @ dec_of n"

definition check_for_outliers :: "('i, 'db, 'l) shard_env \<Rightarrow> int \<Rightarrow> (('i, 'db, 'l) shard, unit) io" where
  "check_for_outliers E now =
    bindIO (getIO (\<lambda>s. s)) (\<lambda>s.
      if (sp_shape s = [] \<and> sp_cells s = []) \<or> sp_managed s = [] then returnIO ()
      else bindIO (liftIO (find_outliers (inside_shard s) (sp_managed s) (sp_reported s))) (\<lambda>(os, rep).
        thenIO (modifyIO (\<lambda>s. s \<lparr> sp_reported := rep \<rparr>))
          (whenIO (os \<noteq> [])
            (bindIO (shardIO (store_outliers (se_class E) (se_conn E) (self_key E) os)) (\<lambda>ok.
              whenIO ok (thenIO (tell_god E (detected_text E (length os))) (modifyIO (\<lambda>s. s \<lparr> sp_notified := now \<rparr>))))))))"

text \<open>Every thirty seconds the watchdog is told again, and twice when it was not told for more than a minute.\<close>

definition notify_about_outliers :: "('i, 'db, 'l) shard_env \<Rightarrow> int \<Rightarrow> (('i, 'db, 'l) shard, unit) io" where
  "notify_about_outliers E now =
    bindIO (getIO (\<lambda>s. s)) (\<lambda>s.
      let since = (now - sp_notified s) div 1000000000
      in if sp_reported s = {} \<or> since < 30 then returnIO ()
         else bindIO (shard_read (fetch_outliers (se_class E) (se_conn E) (self_key E))) (\<lambda>es.
           whenIO (es \<noteq> [])
             (thenIO (tell_god E (detected_text E (length es)))
             (thenIO (modifyIO (\<lambda>s. s \<lparr> sp_notified := now \<rparr>))
               (whenIO (60 < since) (tell_god E (detected_text E (length es))))))))"

definition push_managed_snapshot :: "('i, 'db, 'l) shard_env \<Rightarrow> int \<Rightarrow> (('i, 'db, 'l) shard, unit) io" where
  "push_managed_snapshot E now =
    bindIO (getIO (\<lambda>s. s)) (\<lambda>s.
      bindIO (shardIO (push_snapshot (se_class E) (se_conn E) (self_key E) (sp_managed s) now (sp_pushed s) 10)) (\<lambda>(_, t).
        modifyIO (\<lambda>s. s \<lparr> sp_pushed := t \<rparr>)))"

text \<open>One round of the main loop; the clock is read in each step.\<close>

definition shard_round :: "('i, 'db, 'l) shard_env \<Rightarrow> int \<times> int \<times> int \<Rightarrow> (('i, 'db, 'l) shard, unit) io" where
  "shard_round E = (\<lambda>(t1, t2, t3).
     thenIO (check_for_outliers E t1) (thenIO (notify_about_outliers E t2) (push_managed_snapshot E t3)))"

section \<open>Messages between the two\<close>

lemma shard_io [simp]:
  "m (sp_db s) = (r, db) \<Longrightarrow> shardIO m s = (r, s \<lparr> sp_db := db \<rparr>)"
  "shard_read f s = (f (sp_db s), s)"
  "shard_send ls bs flag s = (Inr (), s \<lparr> sp_sent := sp_sent s @ map (\<lambda>l. (l, bs, flag)) ls \<rparr>)"
  "tell_god E text s = (Inr (), s \<lparr> sp_sent := sp_sent s @ [(lk_god (se_link E), text, Reliable_Now)] \<rparr>)"
  by (simp_all add: shardIO_def zoomIO_def shard_read_def shard_send_def tell_god_def)

text \<open>Identifiers that a shard reads from their texts.\<close>

definition id_text_ok :: "'i entity_class \<Rightarrow> 'i \<Rightarrow> bool" where
  "id_text_ok T i \<longleftrightarrow> parse_entity_id T (ec_id_text T i) = Some i"

lemma id_text_okD:
  assumes "id_text_ok T i"
  shows "ec_id_text T i \<noteq> []" "list_all is_digit (ec_id_text T i)" "\<exists>v. stoi (ec_id_text T i) = Inr v \<and> ec_id_int T v = i"
  using assms by (auto simp: id_text_ok_def parse_entity_id_def all_digits_def split: if_splits sum.splits)

lemma digits_free: "list_all is_digit t \<Longrightarrow> \<not> is_digit c \<Longrightarrow> c \<notin> set t"
  by (auto simp: list_all_iff)

lemma trim_digits: "list_all is_digit t \<Longrightarrow> trim_blanks t = t"
proof -
  have d: "list_all is_digit u \<Longrightarrow> dropWhile is_blank u = u" for u
    by (cases u) (auto simp: is_blank_def is_digit_def)
  assume "list_all is_digit t"
  then show ?thesis using d [of t] d [of "rev t"] by (simp add: trim_blanks_def list_all_rev)
qed

text \<open>A text whose length does not fit is no packet of entities.\<close>

lemma no_packet: "length msg mod ec_size T \<noteq> 0 \<Longrightarrow> parse_entity_packet T (h # msg) = None"
  by (simp add: parse_entity_packet_def)

text \<open>The request to give up an entity has no header: its first letter is taken for one, which no shard
  knows.\<close>

lemma unknown_header_ignored:
  assumes "length msg mod ec_size (se_class E) \<noteq> 0" and "3 < h"
  shows "shard_message E (h # msg) s = (Inr (), s)"
  using assms no_packet [of msg "se_class E" h] by (auto simp: shard_message_def)

lemma remove_request_ignored:
  assumes "(length i + 12) mod ec_size (se_class E) \<noteq> 0"
  shows "shard_message E (str_bytes ''RemoveEntity:'' @ i) s = (Inr (), s)"
proof -
  define msg where "msg = [101, 109, 111, 118, 101, 69, 110, 116, 105, 116, 121, 58] @ i"
  have "str_bytes ''RemoveEntity:'' @ i = 82 # msg" by (simp add: str_bytes_def msg_def)
  moreover have "length msg = length i + 12" by (simp add: msg_def)
  ultimately show ?thesis using unknown_header_ignored [of msg E 82] assms by simp
qed

text \<open>Giving up an entity takes it out of the managed ones, whatever the database answers.\<close>

lemma give_up_managed:
  assumes "e \<in> set (sp_managed s)" and "pe_id e = i"
  shows "sp_managed (snd (give_up E i s)) = remove_first (\<lambda>e. pe_id e = i) (sp_managed s)"
proof -
  have "List.find (\<lambda>e. pe_id e = i) (sp_managed s) \<noteq> None" using assms by (auto simp: find_None_iff)
  then obtain x where x: "List.find (\<lambda>e. pe_id e = i) (sp_managed s) = Some x" by auto
  let ?s = "s \<lparr> sp_managed := remove_first (\<lambda>e. pe_id e = i) (sp_managed s) \<rparr>"
  obtain r db where "remove_entity (se_class E) (se_conn E) (self_key E) i (sp_db s) = (r, db)" by (rule prod.exhaust)
  then have "shardIO (remove_entity (se_class E) (se_conn E) (self_key E) i) ?s = (r, ?s \<lparr> sp_db := db \<rparr>)" by simp
  then show ?thesis by (cases r) (simp_all add: give_up_def x)
qed

lemma outgoing_managed:
  assumes "id_text_ok (se_class E) (pe_id e)" and "e \<in> set (sp_managed s)"
    and "length (ec_id_text (se_class E) (pe_id e)) mod ec_size (se_class E) \<noteq> 0"
  shows "sp_managed (snd (shard_message E (header_byte Entity_Outgoing # ec_id_text (se_class E) (pe_id e)) s)) =
    remove_first (\<lambda>x. pe_id x = pe_id e) (sp_managed s)"
proof -
  let ?t = "ec_id_text (se_class E) (pe_id e)"
  have "parse_entity_id (se_class E) (trim_blanks ?t) = Some (pe_id e)"
    using assms(1) id_text_okD(2) [OF assms(1)] by (simp add: trim_digits id_text_ok_def)
  then have "entity_outgoing E ?t = catchIO (give_up E (pe_id e)) (returnIO ())" by (simp add: entity_outgoing_def)
  moreover have "sp_managed (snd (catchIO m (returnIO ()) s)) = sp_managed (snd (m s))" for m
    by (auto simp: catchIO_def split: prod.splits sum.splits)
  ultimately show ?thesis using no_packet [OF assms(3)] give_up_managed [OF assms(2) refl, of E] by (simp add: shard_message_def)
qed

section \<open>The answer of a shard\<close>

definition marks :: "bytes \<Rightarrow> nat list" where
  "marks t = filter (\<lambda>k. t ! k = 58) [0..<length t]"

lemma marks_none: "58 \<notin> set u \<Longrightarrow> marks u = []"
  by (auto simp: marks_def filter_empty_conv) (metis nth_mem)

lemma marks_append:
  assumes "58 \<notin> set u"
  shows "marks (u @ 58 # v) = length u # map (\<lambda>k. length u + 1 + k) (marks v)"
proof -
  have "[length u..<length u + (1 + length v)] = length u # map (\<lambda>k. k + (length u + 1)) [0..<length v]"
    using map_add_upt [of "length u + 1" "length v"] by (simp add: upt_conv_Cons add_ac del: upt_Suc map_add_upt)
  then have range: "[0..<length (u @ 58 # v)] = [0..<length u] @ length u # map (\<lambda>k. k + (length u + 1)) [0..<length v]"
    using upt_add_eq_append [of 0 "length u" "1 + length v"] by (simp del: upt_Suc)
  have "filter (\<lambda>k. (u @ 58 # v) ! k = 58) [0..<length u] = []"
    using assms by (auto simp: filter_empty_conv nth_append) (metis nth_mem)
  moreover have "filter (\<lambda>k. (u @ 58 # v) ! k = 58) (map (\<lambda>k. k + (length u + 1)) [0..<length v]) =
      map (\<lambda>k. k + (length u + 1)) (filter (\<lambda>k. v ! k = 58) [0..<length v])"
    by (simp add: filter_map comp_def nth_append)
  ultimately show ?thesis unfolding marks_def range by (simp add: add.commute)
qed

lemma colon_marks: "t \<noteq> [] \<Longrightarrow> hd t \<noteq> 58 \<Longrightarrow> colon_positions t = marks t"
  unfolding colon_positions_def marks_def by (rule filter_cong) (auto simp: hd_conv_nth intro: gr0I)

lemma parse_coordinate_printed: "f_printable x \<Longrightarrow> parse_coordinate (f_to_string x) = Some x"
proof -
  assume x: "f_printable x"
  have "list_all (\<lambda>b. is_digit b \<or> b = 46 \<or> b = 45) (f_to_string x)"
    using printable_bytes [OF x] by (auto simp: list_all_iff)
  moreover have "f_to_string x \<noteq> []"
  proof
    assume "f_to_string x = []"
    then have "stof [] = Inr x" using printed_float_read [OF x] by simp
    then show False by (simp add: stof_def Let_def number_parts_def str_bytes_def)
  qed
  ultimately show ?thesis using printed_float_read [OF x] by (simp add: parse_coordinate_def)
qed

lemma entity_removed_parsed:
  assumes "58 \<notin> set (self_key S)" and "id_text_ok (se_class S) i"
    and "f_printable (vx v)" "f_printable (vy v)" "f_printable (vz v)"
  shows "parse_entity_removed (se_class S) (removed_text S i (position_text v)) =
    Some ((ec_new (se_class S)) \<lparr> pe_id := i, pe_pos := v \<rparr>, self_key S @ [58] @ ec_id_text (se_class S) i @ position_text v)"
proof -
  define p where "p = self_key S"
  define q where "q = ec_id_text (se_class S) i"
  define x where "x = f_to_string (vx v)"
  define y where "y = f_to_string (vy v)"
  define z where "z = f_to_string (vz v)"
  define h :: bytes where "h = [69, 110, 116, 105, 116, 121, 82, 101, 109, 111, 118, 101, 100]"
  define msg where "msg = h @ 58 # p @ 58 # q @ 58 # x @ 58 # y @ 58 # z"
  have msg: "removed_text S i (position_text v) = msg"
    by (simp add: removed_text_def position_text_def msg_def h_def p_def q_def x_def y_def z_def str_bytes_def)
  have fl: "58 \<notin> set (f_to_string w)" if "f_printable w" for w
    by (rule number_bytes_no [OF number_bytes_float [OF that]]) (simp_all add: is_digit_def)
  have free: "58 \<notin> set h" "58 \<notin> set p" "58 \<notin> set q" "58 \<notin> set x" "58 \<notin> set y" "58 \<notin> set z"
    using assms(1) fl [OF assms(3)] fl [OF assms(4)] fl [OF assms(5)] digits_free [OF id_text_okD(2) [OF assms(2)], of 58]
    by (simp_all add: h_def p_def q_def x_def y_def z_def is_digit_def)
  define a where "a = length h"
  define b where "b = a + 1 + length p"
  define c where "c = b + 1 + length q"
  define d where "d = c + 1 + length x"
  define e where "e = d + 1 + length y"
  have "colon_positions msg = marks msg" by (rule colon_marks) (simp_all add: msg_def h_def)
  also have "\<dots> = [a, b, c, d, e]"
    unfolding msg_def using free by (simp add: marks_append marks_none a_def b_def c_def d_def e_def)
  finally have ks: "colon_positions msg = [a, b, c, d, e]" .
  have cut: "between msg 14 a = p @ 58 # q @ 58 # x @ 58 # y @ 58 # z" "between msg (b + 1) c = q"
    "between msg (c + 1) d = x" "between msg (d + 1) e = y"
    using between_mid [of msg "h @ 58 # p @ [58]" q "58 # x @ 58 # y @ 58 # z"]
      between_mid [of msg "h @ 58 # p @ 58 # q @ [58]" x "58 # y @ 58 # z"]
      between_mid [of msg "h @ 58 # p @ 58 # q @ 58 # x @ [58]" y "58 # z"]
    by (simp_all add: msg_def a_def b_def c_def d_def e_def add_ac) (simp add: between_def h_def)
  have cut_last: "drop (e + 1) msg = z"
    using append_eq_conv_conj [of "h @ 58 # p @ 58 # q @ 58 # x @ 58 # y @ [58]" z msg]
    by (simp add: msg_def a_def b_def c_def d_def e_def add_ac)
  obtain w where w: "stoi q = Inr w" "ec_id_int (se_class S) w = i"
    using id_text_okD(3) [OF assms(2)] by (auto simp: q_def)
  have q: "q \<noteq> []" "all_digits q" using id_text_okD(1,2) [OF assms(2)] by (simp_all add: q_def all_digits_def)
  have co: "parse_coordinate x = Some (vx v)" "parse_coordinate y = Some (vy v)" "parse_coordinate z = Some (vz v)"
    using assms(3-5) parse_coordinate_printed by (simp_all add: x_def y_def z_def)
  have "parse_entity_removed (se_class S) msg = removed_fields (se_class S) msg a b c d e"
    by (simp add: parse_entity_removed_def ks numeral_3_eq_3)
  also have "\<dots> = Some ((ec_new (se_class S)) \<lparr> pe_id := i, pe_pos := \<lparr> vx = vx v, vy = vy v, vz = vz v \<rparr> \<rparr>,
      p @ 58 # q @ 58 # x @ 58 # y @ 58 # z)"
    unfolding removed_fields_def cut cut_last Let_def using q w co by simp
  finally show ?thesis unfolding msg by (simp add: p_def q_def x_def y_def z_def position_text_def)
qed

context outlier_store
begin

text \<open>The shard looks for an entity that comes in among the outliers of the source; the watchdog has just taken
  it from there.\<close>

lemma incoming_not_found:
  assumes S: "se_class S = T" "se_conn S = C" and src: "58 \<notin> set source" and ok: "id_text_ok T i"
    and size: "(length source + 1 + length (ec_id_text T i)) mod ec_size T \<noteq> 0"
    and holds: "holds_outliers T (hash_of (sp_db p)) source es" and gone: "\<forall>e\<in>set es. pe_id e \<noteq> i"
  shows "shard_message S (header_byte Entity_Incoming # source @ [58] @ ec_id_text T i) p = (Inr (), p)"
proof -
  let ?m = "source @ [58] @ ec_id_text T i"
  have colon: "find_from 58 ?m 0 = Some (length source)"
    using find_first [OF src, of "ec_id_text T i"] by simp
  have "List.find (\<lambda>e. pe_id e = i) (map (bare T) es) = None" using gone by (auto simp: find_None_iff)
  then have "entity_incoming S ?m p = (Inr (), p)"
    using colon ok S fetch_holds [OF holds] by (simp add: entity_incoming_def id_text_ok_def)
  moreover have "parse_entity_packet T (1 # ?m) = None" by (rule no_packet) (use size in simp)
  ultimately show ?thesis using S by (simp add: shard_message_def)
qed

lemma moved_outlier_lost:
  assumes E: "ge_class E = T" "ge_conn E = C" and S: "se_class S = T" "se_conn S = C"
    and holds: "holds_outliers T (hash_of (gd_db s)) part es" "holds_outliers T (hash_of (gd_db s)) t es'" and "t \<noteq> part"
    and "printed e" and found: "find_partition (gd_cache s) (entity_point e) = Inr (Some t)"
    and src: "58 \<notin> set part" and ok: "id_text_ok T (pe_id e)"
    and size: "(length part + 1 + length (ec_id_text T (pe_id e))) mod ec_size T \<noteq> 0"
  obtains s' where "process_cell_outlier E part e s = (Inr (), s')"
    and "gd_sent s' = gd_sent s @ move_messages E part (\<lambda>_. Some t) e"
    and "\<And>p. sp_db p = gd_db s' \<Longrightarrow>
      shard_message S (header_byte Entity_Incoming # part @ [58] @ ec_id_text T (pe_id e)) p = (Inr (), p)"
proof -
  define A where "A = (\<lambda>p. if p = part then es else es')"
  have A: "all_hold T (hash_of (gd_db s)) {part, t} A" using holds assms(7) by (simp add: all_hold_def A_def)
  obtain s' where 1: "process_cell_outlier E part e s = (Inr (), s')"
    "all_hold T (hash_of (gd_db s')) {part, t} (settle_entity (lookup (gd_cache s)) part A e)"
    "gd_sent s' = gd_sent s @ move_messages E part (lookup (gd_cache s)) e"
    by (rule process_cell_step [OF E A _ assms(8) found]) auto
  have look: "lookup (gd_cache s) e = Some t" by (simp add: lookup_def found)
  have "settle_entity (lookup (gd_cache s)) part A e part = filter (\<lambda>x. pe_id x \<noteq> pe_id e) es"
    using look assms(7) by (simp add: settle_entity_def Let_def A_def)
  then have gone: "holds_outliers T (hash_of (gd_db s')) part (filter (\<lambda>x. pe_id x \<noteq> pe_id e) es)"
    using 1(2) by (simp add: all_hold_def)
  show thesis
  proof (rule that [OF 1(1)])
    show "gd_sent s' = gd_sent s @ move_messages E part (\<lambda>_. Some t) e"
      using 1(3) look by (simp add: move_messages_def)
    show "shard_message S (header_byte Entity_Incoming # part @ [58] @ ec_id_text T (pe_id e)) p = (Inr (), p)"
      if p: "sp_db p = gd_db s'" for p
      by (rule incoming_not_found [OF S src ok size, of _ "filter (\<lambda>x. pe_id x \<noteq> pe_id e) es"]) (use gone p in simp_all)
  qed
qed

text \<open>Outliers that are found after the first ones replace these in the database, and nobody is told.\<close>

lemma check_overwrites:
  assumes E: "se_class E = T" "se_conn E = C" and on: "sp_shape s \<noteq> [] \<or> sp_cells s \<noteq> []" "sp_managed s \<noteq> []"
    and found: "find_outliers (inside_shard s) (sp_managed s) (sp_reported s) = Inr (os, rep)" and "os \<noteq> []" and "list_all printed os"
    and "hash_of (sp_db s) outliers_table (self_key E) \<noteq> None"
  obtains db where "check_for_outliers E now s = (Inr (), s \<lparr> sp_reported := rep, sp_db := db \<rparr>)"
    and "holds_outliers T (hash_of db) (self_key E) os"
proof -
  obtain db where db: "store_outliers T C (self_key E) os (sp_db s) = (Inr (hash_of (sp_db s) outliers_table (self_key E) = None), db)"
      "holds_outliers T (hash_of db) (self_key E) os"
    by (rule store_many_holds [OF assms(7,6)])
  have "shardIO (store_outliers T C (self_key E) os) (s \<lparr> sp_reported := rep \<rparr>) = (Inr False, s \<lparr> sp_reported := rep, sp_db := db \<rparr>)"
    using db(1) assms(8) by (simp add: shardIO_def zoomIO_def)
  then have "check_for_outliers E now s = (Inr (), s \<lparr> sp_reported := rep, sp_db := db \<rparr>)"
    using E on found assms(6) by (auto simp: check_for_outliers_def bindIO_def thenIO_def modifyIO_def)
  from that [OF this db(2)] show thesis .
qed

end

section \<open>Properties\<close>


definition plain_shard :: "bytes \<Rightarrow> (u64, mem_db, bytes) shard_env" where
  "plain_shard l = \<lparr> se_class = plain_class, se_conn = mem_connection, se_link = plain_links, se_self = l \<rparr>"

lemma plain_shard_simps [simp]: "se_class (plain_shard l) = plain_class" "se_conn (plain_shard l) = mem_connection"
  "self_key (plain_shard l) = l"
  by (simp_all add: plain_shard_def self_key_def plain_links_def)

lemma plain_id_zero: "ec_id_text plain_class 0 = [48]" "ec_size plain_class = 32"
  by (simp_all add: plain_class_def dec_of.simps [of 0])

lemma plain_id_ok: "id_text_ok plain_class 0"
  by (simp add: id_text_ok_def parse_entity_id_def plain_id_zero all_digits_def is_digit_def stoi_def Let_def is_space_byte_def
      digits_val_def) (simp add: plain_class_def)


text \<open>C35: from the answer of a shard the watchdog reads the identifier and the place of the entity the shard
  gave up, everything else of it as in a new entity, and a source that is no shard: the whole message after
  its header, because the colon it takes for the end of the source is the one before the source. This is for coordinates
  that the text gives exactly, the finite multiples of 1/64, for identifiers whose texts are read back, and
  for shards without a colon in their names.\<close>

theorem removed_names_no_shard:
  assumes "58 \<notin> set (self_key S)" and "id_text_ok (se_class S) i"
    and "f_printable (vx v)" "f_printable (vy v)" "f_printable (vz v)"
  shows "\<exists>source. parse_entity_removed (se_class S) (removed_text S i (position_text v)) =
      Some ((ec_new (se_class S)) \<lparr> pe_id := i, pe_pos := v \<rparr>, source) \<and>
    source = self_key S @ [58] @ ec_id_text (se_class S) i @ position_text v \<and> source \<noteq> self_key S"
  using entity_removed_parsed [OF assms] by simp

theorem removed_names_no_shard_witness:
  "parse_entity_removed plain_class (removed_text (plain_shard [80]) 0 (position_text \<lparr> vx = 0, vy = 0, vz = 0 \<rparr>)) =
    Some (plain_new, [80] @ [58] @ [48] @ position_text \<lparr> vx = 0, vy = 0, vz = 0 \<rparr>)"
proof -
  have "ec_new plain_class = plain_new" by (simp add: plain_class_def)
  then show ?thesis
    using removed_names_no_shard [of "plain_shard [80]" 0 "\<lparr> vx = 0, vy = 0, vz = 0 \<rparr>"]
    by (simp add: plain_id_ok plain_id_zero printable_half) (simp add: plain_new_def)
qed

end
