(* ===== verification/Proxy_Routing.thy ===== *)
theory Proxy_Routing
  imports Shard_Partition Server_Registry
begin

text \<open>
  The parked proxies: their registry with the number of clients of each (\<open>Native-exc/exc/ProxyRegistry\<close>), and the
  proxy that passes messages between clients and shards (\<open>runtime/proxy/exc/Demigod\<close>). The registry writes
  the text of an identifier as the key and looks for its bytes.
\<close>

section \<open>The registry\<close>

definition proxy_ip_table :: string where "proxy_ip_table = ''ProxyRegistry_ID_IP''"

definition proxy_public_table :: string where "proxy_public_table = proxy_ip_table @ ''_public''"

definition proxy_load_table :: string where "proxy_load_table = ''ProxyRegistry_ID_Load''"

definition proxy_owner_table :: string where "proxy_owner_table = ''ProxyRegistry_ClientOwner''"

definition link_field :: "'l link_class \<Rightarrow> 'l \<Rightarrow> bytes" where
  "link_field L l = str_bytes (nuke_string (bytes_str (lk_text L l)))"

definition proxy_register :: "'l link_class \<Rightarrow> 'a steam_ops \<Rightarrow> 'db redis_connection \<Rightarrow> 'l \<Rightarrow> 'a \<Rightarrow> 'db \<Rightarrow> 'db" where
  "proxy_register L S C l a db =
    (let db = snd (db_hset C proxy_ip_table (link_field L l) (ip_text S a) db)
     in snd (db_hset C proxy_load_table (link_field L l) (str_bytes ''0'') db))"

definition proxy_register_public :: "'l link_class \<Rightarrow> 'a steam_ops \<Rightarrow> 'db redis_connection \<Rightarrow> 'l \<Rightarrow> 'a \<Rightarrow> 'db \<Rightarrow> 'db" where
  "proxy_register_public L S C l a db = snd (db_hset C proxy_public_table (link_field L l) (ip_text S a) db)"

definition proxy_deregister :: "'l link_class \<Rightarrow> 'db redis_connection \<Rightarrow> 'l \<Rightarrow> 'db \<Rightarrow> 'db" where
  "proxy_deregister L C l db =
    (let f = link_field L l;
         db = snd (db_hdel C proxy_ip_table [f] db);
         db = snd (db_hdel C proxy_public_table [f] db)
     in snd (db_hdel C proxy_load_table [f] db))"

definition proxy_address :: "string \<Rightarrow> 'l link_class \<Rightarrow> 'a steam_ops \<Rightarrow> 'db redis_connection \<Rightarrow> 'l \<Rightarrow> 'db \<Rightarrow> 'a option res" where
  "proxy_address table L S C l db =
    (case db_hget C table (link_field L l) db of
       None \<Rightarrow> bad_access
     | Some t \<Rightarrow> Inr (if t = [] then None else Some (ip_parse S (bytes_str t) (ip_new S))))"

definition proxy_ip :: "'l link_class \<Rightarrow> 'a steam_ops \<Rightarrow> 'db redis_connection \<Rightarrow> 'l \<Rightarrow> 'db \<Rightarrow> 'a option res" where
  "proxy_ip = proxy_address proxy_ip_table"

definition proxy_public :: "'l link_class \<Rightarrow> 'a steam_ops \<Rightarrow> 'db redis_connection \<Rightarrow> 'l \<Rightarrow> 'db \<Rightarrow> 'a option res" where
  "proxy_public = proxy_address proxy_public_table"

text \<open>The number of clients is read as an \<open>int\<close>, changed as an unsigned number and written back.\<close>

definition change_load :: "(u32 \<Rightarrow> u32) \<Rightarrow> 'l link_class \<Rightarrow> 'db redis_connection \<Rightarrow> 'l \<Rightarrow> ('db, unit) io" where
  "change_load f L C l = (\<lambda>db.
    case db_hget C proxy_load_table (link_field L l) db of
      None \<Rightarrow> (bad_access, db)
    | Some t \<Rightarrow>
        (case stoi t of
           Inl x \<Rightarrow> (Inl x, db)
         | Inr n \<Rightarrow> (Inr (), snd (db_hset C proxy_load_table (link_field L l) (dec_of (unat (f (word_of_int n)))) db))))"

definition increment_client :: "'l link_class \<Rightarrow> 'db redis_connection \<Rightarrow> 'l \<Rightarrow> ('db, unit) io" where
  "increment_client = change_load (\<lambda>n. n + 1)"

definition decrement_client :: "'l link_class \<Rightarrow> 'db redis_connection \<Rightarrow> 'l \<Rightarrow> ('db, unit) io" where
  "decrement_client = change_load (\<lambda>n. if 0 < n then n - 1 else n)"

definition read_load :: "bytes \<Rightarrow> u32 res" where
  "read_load t = (if t = [] then Inr 0 else bindE (stoull t) (\<lambda>n. Inr (ucast n)))"

definition get_load :: "'l link_class \<Rightarrow> 'db redis_connection \<Rightarrow> 'l \<Rightarrow> 'db \<Rightarrow> u32 res" where
  "get_load L C l db =
    (case db_hget C proxy_load_table (link_field L l) db of None \<Rightarrow> bad_access | Some t \<Rightarrow> read_load t)"

record ('l, 'a) proxy_entry =
  px_id :: 'l
  px_address :: 'a
  px_load :: u32

text \<open>The field is read as the bytes of an identifier. The table keeps the first entry of an identifier; its order
  is the order of insertion here.\<close>

definition read_proxy :: "'l link_class \<Rightarrow> 'a steam_ops \<Rightarrow> 'db redis_connection \<Rightarrow> 'db \<Rightarrow> bytes \<times> bytes \<Rightarrow> ('l, 'a) proxy_entry res" where
  "read_proxy L S C db = (\<lambda>(field, address).
    bindE (lk_read L field) (\<lambda>l.
      case db_hget C proxy_load_table field db of
        None \<Rightarrow> bad_access
      | Some t \<Rightarrow> bindE (read_load t) (\<lambda>n.
          Inr \<lparr> px_id = l, px_address = ip_parse S (bytes_str address) (ip_new S), px_load = n \<rparr>)))"

definition insert_proxy :: "('l, 'a) proxy_entry \<Rightarrow> ('l, 'a) proxy_entry list \<Rightarrow> ('l, 'a) proxy_entry list" where
  "insert_proxy p ps = (if px_id p \<in> px_id ` set ps then ps else ps @ [p])"

definition get_proxies :: "'l link_class \<Rightarrow> 'a steam_ops \<Rightarrow> 'db redis_connection \<Rightarrow> 'db \<Rightarrow> ('l, 'a) proxy_entry list res" where
  "get_proxies L S C db =
    bindE (mapE (read_proxy L S C db) (db_hgetall C proxy_ip_table db)) (\<lambda>ps. Inr (fold insert_proxy ps []))"

text \<open>The first of the entries with the fewest clients.\<close>

definition least_loaded :: "('l, 'a) proxy_entry list \<Rightarrow> 'l option" where
  "least_loaded ps =
    (case ps of
       [] \<Rightarrow> None
     | p # qs \<Rightarrow> Some (px_id (foldl (\<lambda>best q. if px_load q < px_load best then q else best) p qs)))"

definition get_least_loaded_proxy :: "'l link_class \<Rightarrow> 'a steam_ops \<Rightarrow> 'db redis_connection \<Rightarrow> 'db \<Rightarrow> 'l option res" where
  "get_least_loaded_proxy L S C db = bindE (get_proxies L S C db) (\<lambda>ps. Inr (least_loaded ps))"

definition proxy_exists :: "'l link_class \<Rightarrow> 'db redis_connection \<Rightarrow> 'l \<Rightarrow> 'db \<Rightarrow> bool" where
  "proxy_exists L C l db = db_hexists C proxy_ip_table (lk_key L l) db"

definition proxy_clear_all :: "'db redis_connection \<Rightarrow> 'db \<Rightarrow> 'db" where
  "proxy_clear_all C db =
    foldl (\<lambda>db t. snd (db_del_key C t db)) db [proxy_ip_table, proxy_public_table, proxy_load_table, proxy_owner_table]"

section \<open>The proxy\<close>

record ('db, 'l) demigod =
  dm_db :: 'db
  dm_self :: 'l
  dm_partitions :: "'l list"
  dm_clients :: "'l list"
  dm_client_texts :: "bytes list"
  dm_routes :: "(bytes \<times> 'l) list"
  dm_sent :: "('l \<times> bytes \<times> send_flag) list"

record ('db, 'l) demigod_env =
  de_conn :: "'db redis_connection"
  de_link :: "'l link_class"
  de_servers :: "'db \<Rightarrow> 'l list"

definition dmIO :: "('db, 'a) io \<Rightarrow> (('db, 'l) demigod, 'a) io" where
  "dmIO = zoomIO dm_db (\<lambda>db s. s \<lparr> dm_db := db \<rparr>)"

definition dm_send :: "'l list \<Rightarrow> bytes \<Rightarrow> send_flag \<Rightarrow> ('db, 'l) demigod \<Rightarrow> ('db, 'l) demigod" where
  "dm_send ls bs flag s = s \<lparr> dm_sent := dm_sent s @ map (\<lambda>l. (l, bs, flag)) ls \<rparr>"

text \<open>The shards the registry knows at the start.\<close>

definition demigod_init :: "('db, 'l) demigod_env \<Rightarrow> 'l \<Rightarrow> ('db, 'l) demigod \<Rightarrow> ('db, 'l) demigod" where
  "demigod_init E self s =
    s \<lparr> dm_self := self, dm_partitions := fold List.insert (filter (\<lambda>l. lk_type (de_link E) l = eShard) (de_servers E (dm_db s))) (dm_partitions s) \<rparr>"

text \<open>Every connection is accepted; the one of a client is counted.\<close>

definition on_accept_connection :: "('db, 'l) demigod_env \<Rightarrow> 'l \<Rightarrow> (('db, 'l) demigod, bool) io" where
  "on_accept_connection E target =
    bindIO (getIO dm_self) (\<lambda>self.
      thenIO (whenIO (lk_type (de_link E) target = eGameClient) (dmIO (increment_client (de_link E) (de_conn E) self)))
        (returnIO True))"

definition demigod_connected :: "('db, 'l) demigod_env \<Rightarrow> 'l \<Rightarrow> ('db, 'l) demigod \<Rightarrow> ('db, 'l) demigod" where
  "demigod_connected E l s =
    (if lk_type (de_link E) l = eShard then s \<lparr> dm_partitions := List.insert l (dm_partitions s) \<rparr>
     else if lk_type (de_link E) l = eGameClient
     then s \<lparr> dm_client_texts := List.insert (lk_text (de_link E) l) (dm_client_texts s), dm_clients := List.insert l (dm_clients s) \<rparr>
     else s)"

definition demigod_disconnected :: "('db, 'l) demigod_env \<Rightarrow> 'l \<Rightarrow> (('db, 'l) demigod, unit) io" where
  "demigod_disconnected E l =
    (let t = lk_text (de_link E) l
     in whenIO (lk_type (de_link E) l = eGameClient)
       (thenIO (modifyIO (\<lambda>s. s \<lparr> dm_client_texts := removeAll t (dm_client_texts s), dm_clients := removeAll l (dm_clients s),
            dm_routes := AList.delete t (dm_routes s) \<rparr>))
         (bindIO (getIO dm_self) (\<lambda>self. dmIO (decrement_client (de_link E) (de_conn E) self)))))"

definition authority_prefix :: bytes where "authority_prefix = str_bytes ''AuthorityChange:''"

text \<open>The text names a client up to the first space and a shard.\<close>

definition handle_control :: "('db, 'l) demigod_env \<Rightarrow> bytes \<Rightarrow> ('db, 'l) demigod \<Rightarrow> ('db, 'l) demigod" where
  "handle_control E msg s =
    (if \<not> prefix authority_prefix msg then s
     else let rest = drop (length authority_prefix) msg
       in case find_from 32 rest 0 of
            None \<Rightarrow> s
          | Some k \<Rightarrow>
              (case lk_parse (de_link E) (drop (k + 1) rest) of
                 None \<Rightarrow> s
               | Some l \<Rightarrow> s \<lparr> dm_routes := AList.update (take k rest) l (dm_routes s) \<rparr>))"

definition forward_client_to_partition :: "('db, 'l) demigod_env \<Rightarrow> 'l \<Rightarrow> bytes \<Rightarrow> ('db, 'l) demigod \<Rightarrow> ('db, 'l) demigod" where
  "forward_client_to_partition E from data s =
    (let t = lk_text (de_link E) from
     in case map_of (dm_routes s) t of
          Some l \<Rightarrow> dm_send [l] data Reliable_Now s
        | None \<Rightarrow>
            (case dm_partitions s of
               [] \<Rightarrow> s
             | l # _ \<Rightarrow> dm_send [l] data Reliable_Now (s \<lparr> dm_routes := AList.update t l (dm_routes s) \<rparr>)))"

definition forward_partition_to_client :: "bytes \<Rightarrow> ('db, 'l) demigod \<Rightarrow> ('db, 'l) demigod" where
  "forward_partition_to_client data s = dm_send (dm_clients s) data Reliable_Now s"

definition forward_client_to_client :: "'l \<Rightarrow> bytes \<Rightarrow> ('db, 'l) demigod \<Rightarrow> ('db, 'l) demigod" where
  "forward_client_to_client from data s = dm_send (filter (\<lambda>l. l \<noteq> from) (dm_clients s)) data Unreliable_Now s"

definition demigod_message :: "('db, 'l) demigod_env \<Rightarrow> 'l \<Rightarrow> bytes \<Rightarrow> ('db, 'l) demigod \<Rightarrow> ('db, 'l) demigod" where
  "demigod_message E from data s =
    (if prefix authority_prefix data then handle_control E data s
     else if lk_type (de_link E) from = eGameClient then forward_client_to_client from data s
     else if lk_type (de_link E) from = eShard then forward_partition_to_client data s
     else s)"

section \<open>The number of clients\<close>

definition load_is :: "(string \<Rightarrow> bytes \<Rightarrow> bytes option) \<Rightarrow> bytes \<Rightarrow> nat \<Rightarrow> bool" where
  "load_is h field n \<longleftrightarrow> h proxy_load_table field = Some (dec_of n)"

lemma stoi_dec_of: "n < 2 ^ 31 \<Longrightarrow> stoi (dec_of n) = Inr (int n)"
proof -
  assume n: "n < 2 ^ 31"
  have all: "\<forall>b\<in>set (dec_of n). is_digit b" using dec_of_digits [of n] by (simp add: list_all_iff)
  then have hd: "is_digit (hd (dec_of n))" by simp
  have "dropWhile is_space_byte (dec_of n) = dec_of n" using hd digit_not by (cases "dec_of n") auto
  moreover have "takeWhile is_digit (dec_of n) = dec_of n" using all by (simp only: takeWhile_eq_all_conv)
  ultimately show ?thesis using n digit_not [OF hd] unfolding stoi_def by (simp del: takeWhile_eq_all_conv)
qed

context redis
begin

lemma change_load_counts:
  assumes "with_sync C = R" and "hash_key proxy_load_table" and "load_is (hash_of db) (link_field L l) n" and "n < 2 ^ 31"
  obtains db' where "change_load f L C l db = (Inr (), db')"
    and "load_is (hash_of db') (link_field L l) (unat (f (of_nat n)))"
    and "writes_field (hash_of db) proxy_load_table (link_field L l) (hash_of db')"
proof -
  let ?t = "dec_of (unat (f (of_nat n)))"
  obtain k db' where 1: "db_hset C proxy_load_table (link_field L l) ?t db = (k, db')" by (rule prod.exhaust)
  then have "op_hset R proxy_load_table (link_field L l) ?t db = (k, db')" by (simp add: db_hset_def assms(1))
  from hset [OF assms(2) this] have h: "hash_of db' = (hash_of db)(proxy_load_table := (hash_of db proxy_load_table)(link_field L l \<mapsto> ?t))"
    by simp
  have "db_hget C proxy_load_table (link_field L l) db = Some (dec_of n)"
    using assms(3) by (simp add: db_hget_def assms(1) hget [OF assms(2)] load_is_def)
  then have "change_load f L C l db = (Inr (), db')"
    using 1 stoi_dec_of [OF assms(4)] by (simp add: change_load_def)
  then show thesis using h by (intro that) (auto simp: load_is_def writes_field_def)
qed

end

lemma read_load_dec: "n < 2 ^ 32 \<Longrightarrow> read_load (dec_of n) = Inr (of_nat n)"
  using stoull_dec [of n] by (simp add: read_load_def unsigned_of_nat take_bit_nat_eq_self)

lemma least_loaded_best:
  "least_loaded ps = Some l \<Longrightarrow> \<exists>p\<in>set ps. px_id p = l \<and> (\<forall>q\<in>set ps. px_load p \<le> px_load q)"
proof -
  have best: "let b = foldl (\<lambda>best q. if px_load q < px_load best then q else best) p qs
      in b \<in> set (p # qs) \<and> (\<forall>q\<in>set (p # qs). px_load b \<le> px_load q)" for p qs
  proof (induction qs arbitrary: p)
    case (Cons q qs)
    show ?case using Cons.IH [of "if px_load q < px_load p then q else p"] by (auto simp: Let_def)
  qed simp
  assume "least_loaded ps = Some l"
  then obtain p qs where "ps = p # qs" "l = px_id (foldl (\<lambda>best q. if px_load q < px_load best then q else best) p qs)"
    by (cases ps) (auto simp: least_loaded_def)
  then show ?thesis using best [of p qs] unfolding Let_def by auto
qed

text \<open>What a shard says about a player reaches the route of its proxy.\<close>

lemma authority_route:
  assumes "32 \<notin> set (ec_id_text (se_class S) i)" and "lk_parse (de_link E) (self_key S) = Some l"
  shows "demigod_message E from (authority_text S i) s = s \<lparr> dm_routes := AList.update (ec_id_text (se_class S) i) l (dm_routes s) \<rparr>"
proof -
  have "find_from 32 (ec_id_text (se_class S) i @ 32 # self_key S) 0 = Some (length (ec_id_text (se_class S) i))"
    using assms(1) by (simp add: find_from_takeWhile takeWhile_append)
  then show ?thesis using assms(2)
    by (simp add: demigod_message_def authority_text_def handle_control_def authority_prefix_def Let_def)
qed

section \<open>Properties\<close>

text \<open>C36: the number of clients of a proxy counts: reading gives it, a client more adds one, a client less takes one
  off unless it is zero, and the other proxies keep theirs.\<close>

theorem proxy_load_counts:
  assumes "redis R hash_key hash_of set_of" and "with_sync C = R" and "hash_key proxy_load_table"
    and "load_is (hash_of db) (link_field L l) n" and "n < 2 ^ 31"
  shows "get_load L C l db = Inr (of_nat n) \<and>
    (\<exists>db'. increment_client L C l db = (Inr (), db') \<and> load_is (hash_of db') (link_field L l) (n + 1) \<and>
       writes_field (hash_of db) proxy_load_table (link_field L l) (hash_of db')) \<and>
    (\<exists>db'. decrement_client L C l db = (Inr (), db') \<and> load_is (hash_of db') (link_field L l) (n - 1) \<and>
       writes_field (hash_of db) proxy_load_table (link_field L l) (hash_of db'))"
proof -
  have un: "unat (of_nat n :: u32) = n" using assms(5) by (simp add: unat_of_nat take_bit_nat_eq_self)
  have up: "unat ((of_nat n :: u32) + 1) = n + 1"
  proof -
    have "(of_nat n :: u32) + 1 = of_nat (n + 1)" by simp
    then show ?thesis using assms(5) by (simp only: unat_of_nat take_bit_nat_eq_self) (simp add: take_bit_nat_eq_self)
  qed
  have down: "unat (if 0 < (of_nat n :: u32) then of_nat n - 1 else of_nat n :: u32) = n - 1"
  proof (cases n)
    case (Suc k)
    then have "(of_nat n :: u32) - 1 = of_nat k" by simp
    moreover have "0 < (of_nat n :: u32)" using un Suc by (simp add: word_less_nat_alt)
    moreover have "unat (of_nat k :: u32) = k" using assms(5) Suc by (simp add: unat_of_nat take_bit_nat_eq_self)
    ultimately show ?thesis using Suc by simp
  qed simp
  have get: "get_load L C l db = Inr (of_nat n)"
    using assms(4,5) redis.hget [OF assms(1,3)] by (simp add: get_load_def db_hget_def assms(2) load_is_def read_load_dec)
  obtain db1 where 1: "increment_client L C l db = (Inr (), db1)" "load_is (hash_of db1) (link_field L l) (unat ((of_nat n :: u32) + 1))"
      "writes_field (hash_of db) proxy_load_table (link_field L l) (hash_of db1)"
    unfolding increment_client_def by (rule redis.change_load_counts [OF assms])
  obtain db2 where 2: "decrement_client L C l db = (Inr (), db2)"
      "load_is (hash_of db2) (link_field L l) (unat (if 0 < (of_nat n :: u32) then of_nat n - 1 else of_nat n :: u32))"
      "writes_field (hash_of db) proxy_load_table (link_field L l) (hash_of db2)"
    unfolding decrement_client_def by (rule redis.change_load_counts [OF assms])
  show ?thesis using get 1 2 unfolding up down by blast
qed

theorem proxy_load_counts_witness:
  "\<exists>db. increment_client plain_links mem_connection [80] (mem_empty \<lparr> md_hash := (\<lambda>_. [([80], dec_of 2)]) \<rparr>) = (Inr (), db) \<and>
     load_is (mem_hash db) [80] 3"
proof -
  have f: "link_field plain_links [80] = [80]"
    by (simp add: link_field_def plain_links_def nuke_string_def nuke_keep_def bytes_str_def str_bytes_def is_space_def Let_def)
  have "load_is (mem_hash (mem_empty \<lparr> md_hash := (\<lambda>_. [([80], dec_of 2)]) \<rparr>)) (link_field plain_links [80]) 2"
    by (simp add: load_is_def mem_hash_def mem_empty_def f)
  from proxy_load_counts [OF memredis.redis_axioms with_sync_mem _ this] show ?thesis by (auto simp: f)
qed

end
