(* ===== verification/Cache_Database.thy ===== *)
theory Cache_Database
  imports Io_Actions Text_Numbers "HOL-Library.AList"
begin

text \<open>
  The parked database interface (\<open>Native-exc/exc/RedisCacheDatabase\<close>, \<open>IDatabase.hpp\<close>): connecting with retries,
  the operations that need a connection, those that turn an exception into an empty answer, and the print
  of everything. The client library is a record of calls that may throw, the shell and the texts of
  exceptions are parameters. Messages on the error stream are left out but for the print.
\<close>

section \<open>The client library\<close>

record 'db cache_ops =
  co_open :: "bytes \<Rightarrow> ('db, unit) io"
  co_ping :: "('db, bytes) io"
  co_set :: "bytes \<Rightarrow> bytes \<Rightarrow> ('db, bool) io"
  co_get :: "bytes \<Rightarrow> ('db, bytes option) io"
  co_del :: "bytes \<Rightarrow> ('db, int) io"
  co_exists :: "bytes \<Rightarrow> ('db, int) io"
  co_hset :: "bytes \<Rightarrow> bytes \<Rightarrow> bytes \<Rightarrow> ('db, int) io"
  co_hget :: "bytes \<Rightarrow> bytes \<Rightarrow> ('db, bytes option) io"
  co_hgetall :: "bytes \<Rightarrow> ('db, (bytes \<times> bytes) list) io"
  co_hdel :: "bytes \<Rightarrow> bytes \<Rightarrow> ('db, int) io"
  co_hexists :: "bytes \<Rightarrow> bytes \<Rightarrow> ('db, bool) io"
  co_keys :: "bytes \<Rightarrow> ('db, bytes list) io"
  co_scan :: "int \<Rightarrow> ('db, int \<times> bytes list) io"
  co_type :: "bytes \<Rightarrow> ('db, bytes) io"
  co_smembers :: "bytes \<Rightarrow> ('db, bytes list) io"
  co_lrange :: "bytes \<Rightarrow> ('db, bytes list) io"

record 'db cache_env =
  cv_ops :: "'db cache_ops"
  cv_system :: "bytes \<Rightarrow> 'db \<Rightarrow> int \<times> 'db"
  cv_sleep :: "int \<Rightarrow> 'db \<Rightarrow> 'db"
  cv_what :: "cpp_exn \<Rightarrow> bytes"

text \<open>The state: the outside world, what the object was made with, whether it has a client, and what was printed.\<close>

record 'db cache =
  ca_db :: 'db
  ca_host :: bytes
  ca_port :: int
  ca_network :: bytes
  ca_auto :: bool
  ca_client :: bool
  ca_out :: bytes

definition worldly :: "('db, 'a) io \<Rightarrow> ('db cache, 'a) io" where
  "worldly = zoomIO ca_db (\<lambda>db s. s \<lparr> ca_db := db \<rparr>)"

definition plainly :: "('db \<Rightarrow> 'db) \<Rightarrow> ('db cache, unit) io" where
  "plainly f = modifyIO (\<lambda>s. s \<lparr> ca_db := f (ca_db s) \<rparr>)"

section \<open>Connecting\<close>

definition redis_start_command :: bytes where
  "redis_start_command = str_bytes ''redis-server --appendonly yes --appendfilename appendonly.aof --save 1 1 --dir /data --protected-mode no --daemonize yes''"

definition cache_db_new :: "'db cache_env \<Rightarrow> bool \<Rightarrow> bytes \<Rightarrow> int \<Rightarrow> bytes \<Rightarrow> 'db \<Rightarrow> 'db cache" where
  "cache_db_new V create host port network db =
    (let db = (if create then snd (cv_system V redis_start_command (snd (cv_system V (str_bytes ''mkdir -p /data'') db))) else db)
     in \<lparr> ca_db = db, ca_host = host, ca_port = port, ca_network = network, ca_auto = create, ca_client = False, ca_out = [] \<rparr>)"

definition max_attempts :: nat where "max_attempts = 20"

text \<open>One attempt: a client that was made stays, also when it does not answer.\<close>

definition try_connect :: "'db cache_env \<Rightarrow> ('db cache, bool) io" where
  "try_connect V =
    catchIO
      (bindIO (getIO (\<lambda>s. str_bytes ''tcp://'' @ ca_host s @ [58] @ dec_of_int (ca_port s))) (\<lambda>uri.
       thenIO (worldly (co_open (cv_ops V) uri))
       (thenIO (modifyIO (\<lambda>s. s \<lparr> ca_client := True \<rparr>))
         (bindIO (worldly (co_ping (cv_ops V))) (\<lambda>pong. returnIO (pong = str_bytes ''PONG''))))))
      (returnIO False)"

fun cache_connect_loop :: "'db cache_env \<Rightarrow> nat \<Rightarrow> ('db cache, bool) io" where
  "cache_connect_loop V 0 = returnIO False"
| "cache_connect_loop V (Suc k) =
    bindIO (try_connect V) (\<lambda>ok. if ok then returnIO True else thenIO (plainly (cv_sleep V 500)) (cache_connect_loop V k))"

text \<open>The asynchronous call; what its future gives.\<close>

definition connect_async :: "'db cache_env \<Rightarrow> ('db cache, bool) io" where
  "connect_async V = cache_connect_loop V max_attempts"

text \<open>Waiting ends after ten seconds; the future that goes out of scope still waits for the attempts.\<close>

definition connect :: "'db cache_env \<Rightarrow> bool \<Rightarrow> ('db cache, bool) io" where
  "connect V in_time = (\<lambda>s. case connect_async V s of (r, s) \<Rightarrow> if in_time then (r, s) else (Inr False, s))"

section \<open>Operations\<close>

definition with_client :: "'a \<Rightarrow> ('db, 'a) io \<Rightarrow> ('db cache, 'a) io" where
  "with_client a m = bindIO (getIO ca_client) (\<lambda>c. if c then worldly m else returnIO a)"

definition guarded :: "'a \<Rightarrow> ('db, 'a) io \<Rightarrow> ('db cache, 'a) io" where
  "guarded a m = bindIO (getIO ca_client) (\<lambda>c. if c then catchIO (worldly m) (returnIO a) else returnIO a)"

definition cache_set :: "'db cache_env \<Rightarrow> bytes \<Rightarrow> bytes \<Rightarrow> ('db cache, bool) io" where
  "cache_set V k v = with_client False (co_set (cv_ops V) k v)"

definition cache_get :: "'db cache_env \<Rightarrow> bytes \<Rightarrow> ('db cache, bytes) io" where
  "cache_get V k = with_client [] (bindIO (co_get (cv_ops V) k) (\<lambda>r. returnIO (case r of Some v \<Rightarrow> v | None \<Rightarrow> [])))"

definition cache_remove :: "'db cache_env \<Rightarrow> bytes \<Rightarrow> ('db cache, bool) io" where
  "cache_remove V k = with_client False (bindIO (co_del (cv_ops V) k) (\<lambda>n. returnIO (n \<noteq> 0)))"

definition cache_exists :: "'db cache_env \<Rightarrow> bytes \<Rightarrow> ('db cache, bool) io" where
  "cache_exists V k = with_client False (bindIO (co_exists (cv_ops V) k) (\<lambda>n. returnIO (0 < n)))"

definition hash_set :: "'db cache_env \<Rightarrow> bytes \<Rightarrow> bytes \<Rightarrow> bytes \<Rightarrow> ('db cache, bool) io" where
  "hash_set V k f v = guarded False (bindIO (co_hset (cv_ops V) k f v) (\<lambda>n. returnIO (n \<noteq> 0)))"

definition hash_get :: "'db cache_env \<Rightarrow> bytes \<Rightarrow> bytes \<Rightarrow> ('db cache, bytes) io" where
  "hash_get V k f = guarded [] (bindIO (co_hget (cv_ops V) k f) (\<lambda>r. returnIO (case r of Some v \<Rightarrow> v | None \<Rightarrow> [])))"

definition hash_get_all :: "'db cache_env \<Rightarrow> bytes \<Rightarrow> ('db cache, (bytes \<times> bytes) list) io" where
  "hash_get_all V k =
    bindIO (getIO ca_client) (\<lambda>c.
      if \<not> c then liftIO (Inl (AssertFail ''Invalid redis''))
      else catchIO (worldly (bindIO (co_hgetall (cv_ops V) k) (\<lambda>kvs. returnIO (AList.clearjunk kvs)))) (returnIO []))"

definition hash_remove :: "'db cache_env \<Rightarrow> bytes \<Rightarrow> bytes \<Rightarrow> ('db cache, bool) io" where
  "hash_remove V k f = guarded False (bindIO (co_hdel (cv_ops V) k f) (\<lambda>n. returnIO (0 < n)))"

definition hash_remove_all :: "'db cache_env \<Rightarrow> bytes \<Rightarrow> ('db cache, bool) io" where
  "hash_remove_all V k = guarded False (bindIO (co_del (cv_ops V) k) (\<lambda>n. returnIO (0 < n)))"

definition hash_exists :: "'db cache_env \<Rightarrow> bytes \<Rightarrow> bytes \<Rightarrow> ('db cache, bool) io" where
  "hash_exists V k f = guarded False (co_hexists (cv_ops V) k f)"

definition get_keys_matching :: "'db cache_env \<Rightarrow> bytes \<Rightarrow> ('db cache, bytes list) io" where
  "get_keys_matching V pattern = guarded [] (co_keys (cv_ops V) pattern)"

section \<open>Printing everything\<close>

definition print :: "bytes \<Rightarrow> ('db cache, unit) io" where
  "print t = modifyIO (\<lambda>s. s \<lparr> ca_out := ca_out s @ t \<rparr>)"

text \<open>The text of a key, by its type.\<close>

definition key_text :: "'db cache_ops \<Rightarrow> bytes \<Rightarrow> ('db, bytes) io" where
  "key_text P key =
    bindIO (co_type P key) (\<lambda>type.
      if type = str_bytes ''string'' then
        bindIO (co_get P key) (\<lambda>v. returnIO (key @ str_bytes '' (string) = '' @
          (case v of Some t \<Rightarrow> t | None \<Rightarrow> str_bytes ''(nil)'') @ [10]))
      else if type = str_bytes ''hash'' then
        bindIO (co_hgetall P key) (\<lambda>kvs. returnIO (key @ str_bytes '' (hash):'' @ [10] @
          concat (map (\<lambda>(f, v). str_bytes ''    '' @ f @ str_bytes '' = '' @ v @ [10]) (AList.clearjunk kvs))))
      else if type = str_bytes ''set'' then
        bindIO (co_smembers P key) (\<lambda>ms. returnIO (key @ str_bytes '' (set): { '' @
          concat (map (\<lambda>m. m @ [32]) ms) @ str_bytes ''}'' @ [10]))
      else if type = str_bytes ''list'' then
        bindIO (co_lrange P key) (\<lambda>vs. returnIO (key @ str_bytes '' (list): [ '' @
          concat (map (\<lambda>v. v @ [32]) vs) @ str_bytes '']'' @ [10]))
      else if type = str_bytes ''zset'' then returnIO []
      else returnIO (key @ str_bytes '' (unknown type: '' @ type @ str_bytes '')'' @ [10]))"

text \<open>An exception costs the key its text; the sign at the front is six bytes.\<close>

definition print_key :: "'db cache_env \<Rightarrow> bytes \<Rightarrow> ('db cache, unit) io" where
  "print_key V key = (\<lambda>s. case worldly (key_text (cv_ops V) key) s of
     (Inr t, s) \<Rightarrow> print t s
   | (Inl x, s) \<Rightarrow>
       if catchable x
       then print ([226, 154, 160, 239, 184, 143] @ str_bytes '' Error reading key '' @ key @ str_bytes '': '' @ cv_what V x @ [10]) s
       else (Inl x, s))"

text \<open>The scan goes on until the server answers with the cursor zero; no result is a scan that does not end.\<close>

partial_function (option) print_loop :: "'db cache_env \<Rightarrow> int \<Rightarrow> 'db cache \<Rightarrow> (unit res \<times> 'db cache) option" where
  "print_loop V cursor s =
    (case worldly (co_scan (cv_ops V) cursor) s of
       (Inl x, s) \<Rightarrow> Some (Inl x, s)
     | (Inr (next, keys), s) \<Rightarrow>
         (case forIO (print_key V) keys s of
            (Inl x, s) \<Rightarrow> Some (Inl x, s)
          | (Inr _, s) \<Rightarrow> if next = 0 then Some (Inr (), s) else print_loop V next s))"

definition print_entire_db :: "'db cache_env \<Rightarrow> 'db cache \<Rightarrow> (unit res \<times> 'db cache) option" where
  "print_entire_db V s =
    (if \<not> ca_client s then Some (print ([226, 157, 140] @ str_bytes '' No Redis connection.'' @ [10]) s)
     else print_loop V 0 s)"

section \<open>What connecting and the operations give\<close>

text \<open>The state after attempts that all fail, and the pause after each.\<close>

fun attempts :: "'db cache_env \<Rightarrow> nat \<Rightarrow> 'db cache \<Rightarrow> 'db cache \<Rightarrow> bool" where
  "attempts V 0 s t \<longleftrightarrow> s = t"
| "attempts V (Suc k) s t \<longleftrightarrow>
    (case try_connect V s of (r, u) \<Rightarrow> r = Inr False \<and> attempts V k (u \<lparr> ca_db := cv_sleep V 500 (ca_db u) \<rparr>) t)"

lemma connect_after:
  assumes "attempts V k s t" and "k < n" and "try_connect V t = (Inr True, u)"
  shows "cache_connect_loop V n s = (Inr True, u)"
  using assms
proof (induction k arbitrary: s n)
  case 0
  then show ?case by (cases n) simp_all
next
  case (Suc k)
  then obtain m where "n = Suc m" "k < m" by (cases n) auto
  then show ?case using Suc by (auto simp: plainly_def split: prod.splits)
qed

lemma connect_fails:
  "attempts V n s t \<Longrightarrow> cache_connect_loop V n s = (Inr False, t)"
  by (induction n arbitrary: s) (auto simp: plainly_def split: prod.splits)

text \<open>Exceptions of the library that a handler catches never leave an operation on hashes.\<close>

lemma guarded_returns:
  "guarded a m s = (Inl x, t) \<Longrightarrow> \<not> catchable x"
  by (auto simp: guarded_def catchIO_def bindIO_def split: if_splits prod.splits sum.splits)

lemma guarded_closed: "\<not> ca_client s \<Longrightarrow> guarded a m s = (Inr a, s)"
  by (simp add: guarded_def)

end
