(* ===== verification/Entity_List.thy ===== *)
theory Entity_List
  imports Packet_Codec
begin

text \<open>
  Lists of entities with their middle and their bounds (\<open>Native-exc/EntityList.hpp\<close>). The position of an entity is
  a parameter, and so are its serialization and its reading; the middle is not defined before it is
  computed.
\<close>

section \<open>Definitions\<close>

record 'e entity_box =
  el_entities :: "'e list"
  el_mid :: "vec3 option"
  el_bounds :: aabb

definition entity_box_new :: "'e entity_box" where
  "entity_box_new = \<lparr> el_entities = [], el_mid = None, el_bounds = aabb_new 3 \<rparr>"

definition span_point :: "vec3 \<Rightarrow> f32 list" where
  "span_point v = [vx v, vy v, vz v]"

definition vec3_sum :: "vec3 \<Rightarrow> vec3 \<Rightarrow> vec3" where
  "vec3_sum a b = \<lparr> vx = f_add (vx a) (vx b), vy = f_add (vy a) (vy b), vz = f_add (vz a) (vz b) \<rparr>"

definition vec3_over :: "vec3 \<Rightarrow> f32 \<Rightarrow> vec3" where
  "vec3_over a d = \<lparr> vx = f_div (vx a) d, vy = f_div (vy a) d, vz = f_div (vz a) d \<rparr>"

text \<open>One pass over the positions, from the first.\<close>

definition box_bounds :: "vec3 list \<Rightarrow> aabb" where
  "box_bounds ps = foldl (\<lambda>b p. aabb_expand (span_point p) b) (aabb_of_corners (span_point (hd ps)) (span_point (hd ps))) ps"

definition box_mid :: "vec3 list \<Rightarrow> vec3" where
  "box_mid ps = vec3_over (foldl vec3_sum \<lparr> vx = 0, vy = 0, vz = 0 \<rparr> ps) (f_of_int (int (length ps)))"

definition box_recompute :: "('e \<Rightarrow> vec3) \<Rightarrow> 'e entity_box \<Rightarrow> 'e entity_box" where
  "box_recompute pos b =
    (let ps = map pos (el_entities b)
     in if ps = [] then b else b \<lparr> el_mid := Some (box_mid ps), el_bounds := box_bounds ps \<rparr>)"

definition box_push_back :: "('e \<Rightarrow> vec3) \<Rightarrow> 'e \<Rightarrow> 'e entity_box \<Rightarrow> 'e entity_box" where
  "box_push_back pos e b = box_recompute pos (b \<lparr> el_entities := el_entities b @ [e] \<rparr>)"

text \<open>A span over entities that are there, or over none.\<close>

definition span_of :: "('e \<Rightarrow> vec3) \<Rightarrow> 'e list \<Rightarrow> 'e entity_box" where
  "span_of pos es = box_recompute pos (entity_box_new \<lparr> el_entities := es \<rparr>)"

definition box_span :: "('e \<Rightarrow> vec3) \<Rightarrow> 'e entity_box \<Rightarrow> 'e entity_box" where
  "box_span pos b = span_of pos (el_entities b)"

definition box_ser :: "('e \<Rightarrow> writer \<Rightarrow> writer) \<Rightarrow> 'e entity_box \<Rightarrow> writer \<Rightarrow> writer" where
  "box_ser ser b = bw_seq ser (el_entities b)"

definition box_des :: "('e \<Rightarrow> vec3) \<Rightarrow> (reader, 'e) stm \<Rightarrow> 'e entity_box \<Rightarrow> (reader, 'e entity_box) stm" where
  "box_des pos des b = bindS (br_seq des) (\<lambda>es. returnS (box_recompute pos (b \<lparr> el_entities := es \<rparr>)))"

section \<open>The bounds contain every entity\<close>

lemma expand_all:
  assumes "aabb_wf 3 b"
  shows "aabb_wf 3 (foldl (\<lambda>b p. aabb_expand (span_point p) b) b ps) \<and>
    (\<forall>q. length q = 3 \<and> (aabb_contains b q \<or> q \<in> span_point ` set ps) \<longrightarrow>
      aabb_contains (foldl (\<lambda>b p. aabb_expand (span_point p) b) b ps) q)"
  using assms
proof (induction ps arbitrary: b)
  case (Cons p ps)
  have l: "length (span_point p) = 3" by (simp add: span_point_def)
  have wf: "aabb_wf 3 (aabb_expand (span_point p) b)" by (rule aabb_wf_expand [OF Cons.prems l])
  have "aabb_contains (aabb_expand (span_point p) b) (span_point p) \<and>
      (\<forall>q. length q = 3 \<longrightarrow> aabb_contains b q \<longrightarrow> aabb_contains (aabb_expand (span_point p) b) q)"
    using aabb_expand_contains [OF Cons.prems l] l by blast
  then show ?case using Cons.IH [OF wf] by auto
qed simp

lemma box_bounds_contain: "p \<in> set ps \<Longrightarrow> aabb_contains (box_bounds ps) (span_point p)"
  using expand_all [of "aabb_of_corners (span_point (hd ps)) (span_point (hd ps))" ps]
  by (auto simp: box_bounds_def aabb_wf_def aabb_of_corners_def span_point_def)

lemma box_push_contains: "e \<in> set (el_entities (box_push_back pos x b)) \<Longrightarrow> aabb_contains (el_bounds (box_push_back pos x b)) (span_point (pos e))"
  using box_bounds_contain [of "pos e" "map pos (el_entities b @ [x])"]
  by (auto simp: box_push_back_def box_recompute_def Let_def)

text \<open>A list that was kept up to date is read back as it was.\<close>

theorem entity_list_read_back:
  assumes "codec ser des enc ok" and "seq_ok ok (es @ [e])"
  shows "\<exists>bs. box_ser ser (box_push_back pos e (b \<lparr> el_entities := es \<rparr>)) w = bw_write bs w \<and>
    decodes (box_des pos des b) bs (box_push_back pos e (b \<lparr> el_entities := es \<rparr>))"
proof -
  note c = codec_seq [OF assms(1)]
  let ?l = "box_push_back pos e (b \<lparr> el_entities := es \<rparr>)"
  have l: "el_entities ?l = es @ [e]" by (simp add: box_push_back_def box_recompute_def Let_def)
  have "decodes (box_des pos des b) (seq_enc enc (es @ [e]) @ []) (box_recompute pos (b \<lparr> el_entities := es @ [e] \<rparr>))"
    unfolding box_des_def by (rule decodes_bind [OF codec.des_enc [OF c assms(2)]]) (rule decodes_return)
  moreover have "box_recompute pos (b \<lparr> el_entities := es @ [e] \<rparr>) = ?l" by (simp add: box_push_back_def)
  ultimately show ?thesis using codec.ser_enc [OF c assms(2)] by (auto simp: box_ser_def l)
qed

end
