(* ===== verification/Transfer_Manifest.thy ===== *)
theory Transfer_Manifest
  imports Redis_Store Text_Numbers Identity_Equality
begin

text \<open>
  The record of the handoffs in flight (\<open>EntityHandoff/Telemetry/HandoffTransferManifest.hpp\<close>): a row
  for each entity in a hash of the database and, for each entity, the set of the shards that hold
  it. Entity ids are the 64-bit numbers these sources use; the time of a call is a parameter.
\<close>

section \<open>Records\<close>

record transfer_record =
  tf_entity_id :: u64
  tf_source :: bytes
  tf_target :: bytes
  tf_time :: u64
  tf_last_authority :: bytes
  tf_state :: bytes
  tf_updated :: u64

definition tf_new :: transfer_record where
  "tf_new = \<lparr> tf_entity_id = 0, tf_source = [], tf_target = [], tf_time = 0, tf_last_authority = [],
     tf_state = [], tf_updated = 0 \<rparr>"

definition active_transfer_table :: string where
  "active_transfer_table = ''EntityHandoff:TransferActive''"

definition holder_key_prefix :: string where
  "holder_key_prefix = ''EntityHandoff:TransferHolders:''"

definition holder_key_ttl :: int where
  "holder_key_ttl = 30"

definition holders_key :: "u64 \<Rightarrow> string" where
  "holders_key i = holder_key_prefix @ bytes_str (dec_of (unat i))"

definition entity_field :: "u64 \<Rightarrow> bytes" where
  "entity_field i = dec_of (unat i)"

text \<open>Seconds and microseconds of the database, or the clock of the node when there are none.\<close>

definition now_unix_time_us :: "int \<times> int \<Rightarrow> u64 \<Rightarrow> u64" where
  "now_unix_time_us t node_clock =
    (if 0 < fst t then word_of_int (fst t) * 1000000 + word_of_int (snd t) else node_clock)"

definition transfer_encode :: "transfer_record \<Rightarrow> bytes" where
  "transfer_encode r = join_on 9 [tf_source r, tf_target r, dec_of (unat (tf_time r)), tf_last_authority r,
     tf_state r, dec_of (unat (tf_updated r))]"

text \<open>The loop that cuts the payload into columns.\<close>

function split_columns :: "bytes \<Rightarrow> nat \<Rightarrow> bytes list" where
  "split_columns payload start =
    (if start \<le> length payload
     then (case find_from 9 payload start of
             None \<Rightarrow> [drop start payload]
           | Some e \<Rightarrow> take (e - start) (drop start payload) # split_columns payload (Suc e))
     else [])"
  by pat_completeness auto
termination
  by (relation "measure (\<lambda>(payload, start). Suc (length payload) - start)")
    (auto dest: find_from_Some)

declare split_columns.simps [simp del]

text \<open>The record is written column by column: what was read before a number fails to parse stays.\<close>

definition parse_record :: "bytes \<Rightarrow> bytes \<Rightarrow> transfer_record \<Rightarrow> bool \<times> transfer_record" where
  "parse_record fld payload out =
    (let cols = split_columns payload 0
     in if length cols \<noteq> 6 then (False, out)
        else case stoull fld of
          Inl _ \<Rightarrow> (False, out)
        | Inr i \<Rightarrow>
            let out = out \<lparr> tf_entity_id := i, tf_source := cols ! 0, tf_target := cols ! 1 \<rparr>
            in case stoull (cols ! 2) of
              Inl _ \<Rightarrow> (False, out)
            | Inr t \<Rightarrow>
                let out = out \<lparr> tf_time := t, tf_last_authority := cols ! 3, tf_state := cols ! 4 \<rparr>
                in case stoull (cols ! 5) of
                  Inl _ \<Rightarrow> (False, out)
                | Inr u \<Rightarrow> (True, out \<lparr> tf_updated := u \<rparr>))"

section \<open>Operations\<close>

definition nid_text :: "(bytes \<Rightarrow> string) \<Rightarrow> network_identity \<Rightarrow> bytes" where
  "nid_text us n = str_bytes (nid_to_string us n)"

definition transfer_upsert :: "'db redis_connection \<Rightarrow> transfer_record \<Rightarrow> 'db \<Rightarrow> 'db" where
  "transfer_upsert C r db =
    snd (db_hset C active_transfer_table (entity_field (tf_entity_id r)) (transfer_encode r) db)"

definition transfer_try_get :: "'db redis_connection \<Rightarrow> u64 \<Rightarrow> transfer_record \<Rightarrow> 'db \<Rightarrow> bool \<times> transfer_record" where
  "transfer_try_get C i out db =
    (case db_hget C active_transfer_table (entity_field i) db of
       None \<Rightarrow> (False, out) | Some payload \<Rightarrow> parse_record (entity_field i) payload out)"

definition clear_transfer :: "'db redis_connection \<Rightarrow> u64 \<Rightarrow> 'db \<Rightarrow> 'db" where
  "clear_transfer C i db =
    (let db = snd (db_hdel C active_transfer_table [entity_field i] db)
     in snd (db_del_key C (holders_key i) db))"

text \<open>The loop over the holders: a holder equal to the source is not compared with the target.\<close>

fun scan_holders :: "bytes \<Rightarrow> bytes \<Rightarrow> bytes list \<Rightarrow> bool \<times> bool \<Rightarrow> bool \<times> bool" where
  "scan_holders src tgt [] acc = acc"
| "scan_holders src tgt (h # hs) (has_source, has_target) =
    (if h = src then scan_holders src tgt hs (True, has_target)
     else if h = tgt then scan_holders src tgt hs (has_source, True)
     else scan_holders src tgt hs (has_source, has_target))"

definition try_finalize :: "'db redis_connection \<Rightarrow> u64 \<Rightarrow> bytes \<Rightarrow> bytes \<Rightarrow> 'db \<Rightarrow> 'db" where
  "try_finalize C i src tgt db =
    (let (has_source, has_target) = scan_holders src tgt (db_smembers C (holders_key i) db) (False, False)
     in if has_target \<and> \<not> has_source then clear_transfer C i db else db)"

text \<open>The time to live that is set on the holders acts between commands, when it has passed: \<open>lapse\<close> below.\<close>

definition mark_transfer_started ::
  "(bytes \<Rightarrow> string) \<Rightarrow> 'db redis_connection \<Rightarrow> u64 \<Rightarrow> network_identity \<Rightarrow> network_identity \<Rightarrow> u64 \<Rightarrow> u64 \<Rightarrow>
   'db \<Rightarrow> 'db" where
  "mark_transfer_started us C i source target time now db =
    (let src = nid_text us source; tgt = nid_text us target;
         db = transfer_upsert C \<lparr> tf_entity_id = i, tf_source = src, tf_target = tgt, tf_time = time,
           tf_last_authority = src, tf_state = str_bytes ''started'', tf_updated = now \<rparr> db;
         db = snd (db_sadd C (holders_key i) [src] db)
     in snd (db_expire C (holders_key i) holder_key_ttl db))"

definition mark_incoming_adopted ::
  "(bytes \<Rightarrow> string) \<Rightarrow> 'db redis_connection \<Rightarrow> u64 \<Rightarrow> network_identity \<Rightarrow> network_identity \<Rightarrow> u64 \<Rightarrow> u64 \<Rightarrow>
   'db \<Rightarrow> 'db" where
  "mark_incoming_adopted us C i source target time now db =
    (let src = nid_text us source; tgt = nid_text us target;
         (found, r) = transfer_try_get C i tf_new db;
         r = (if found then r
              else r \<lparr> tf_entity_id := i, tf_source := src, tf_target := tgt, tf_time := time \<rparr>);
         r = (if tf_source r = [] then r \<lparr> tf_source := src \<rparr> else r);
         r = (if tf_target r = [] then r \<lparr> tf_target := tgt \<rparr> else r);
         r = (if tf_time r = 0 then r \<lparr> tf_time := time \<rparr> else r);
         r = r \<lparr> tf_last_authority := tgt, tf_state := str_bytes ''adopted'', tf_updated := now \<rparr>;
         db = transfer_upsert C r db;
         db = snd (db_sadd C (holders_key i) [tgt] db);
         db = snd (db_expire C (holders_key i) holder_key_ttl db)
     in try_finalize C i src tgt db)"

definition mark_outgoing_committed ::
  "(bytes \<Rightarrow> string) \<Rightarrow> 'db redis_connection \<Rightarrow> u64 \<Rightarrow> network_identity \<Rightarrow> network_identity \<Rightarrow> u64 \<Rightarrow> 'db \<Rightarrow> 'db" where
  "mark_outgoing_committed us C i source target now db =
    (let src = nid_text us source; tgt = nid_text us target;
         (found, r) = transfer_try_get C i tf_new db;
         r = (if found then r else r \<lparr> tf_entity_id := i, tf_source := src, tf_target := tgt \<rparr>);
         r = (if tf_source r = [] then r \<lparr> tf_source := src \<rparr> else r);
         r = (if tf_target r = [] then r \<lparr> tf_target := tgt \<rparr> else r);
         r = r \<lparr> tf_last_authority := tgt, tf_state := str_bytes ''committed'', tf_updated := now \<rparr>;
         db = transfer_upsert C r db;
         db = snd (db_srem C (holders_key i) [src] db)
     in try_finalize C i src tgt db)"

definition mark_transfer_canceled :: "'db redis_connection \<Rightarrow> u64 \<Rightarrow> 'db \<Rightarrow> 'db" where
  "mark_transfer_canceled C i db = clear_transfer C i db"

fun parse_rows :: "(bytes \<times> bytes) list \<Rightarrow> transfer_record list" where
  "parse_rows [] = []"
| "parse_rows ((fld, payload) # rows) =
    (case parse_record fld payload tf_new of
       (True, r) \<Rightarrow> r # parse_rows rows | (False, _) \<Rightarrow> parse_rows rows)"

definition get_all_active_transfers :: "'db redis_connection \<Rightarrow> 'db \<Rightarrow> transfer_record list" where
  "get_all_active_transfers C db = parse_rows (db_hgetall C active_transfer_table db)"

section \<open>Rows\<close>

text \<open>The loop computes the pieces between the tabs.\<close>

lemma split_columns_eq:
  "start \<le> length payload \<Longrightarrow> split_columns payload start = split_on 9 (drop start payload)"
proof (induction payload start rule: split_columns.induct)
  case (1 payload start)
  show ?case
  proof (cases "9 \<in> set (drop start payload)")
    case False
    then have "find_from 9 payload start = None" using 1(2) by (simp add: find_from_takeWhile)
    then show ?thesis using 1(2) split_on_none [OF False] by (subst split_columns.simps) simp
  next
    case True
    let ?p = "takeWhile (\<lambda>b. b \<noteq> 9) (drop start payload)"
    have f: "find_from 9 payload start = Some (start + length ?p)" using True 1(2) by (simp add: find_from_takeWhile)
    have lt: "start + length ?p < length payload" using find_from_Some [OF f] by simp
    have "split_columns payload (Suc (start + length ?p)) = split_on 9 (drop (Suc (start + length ?p)) payload)"
      using 1(1) [OF 1(2) f] lt by simp
    moreover have "take (length ?p) (drop start payload) = ?p" by (rule takeWhile_eq_take [symmetric])
    ultimately show ?thesis
      using 1(2) f split_on_takeWhile [OF True] by (subst split_columns.simps) (simp add: add.commute)
  qed
qed

definition no_tab :: "bytes \<Rightarrow> bool" where
  "no_tab s \<longleftrightarrow> 9 \<notin> set s"

definition record_plain :: "transfer_record \<Rightarrow> bool" where
  "record_plain r \<longleftrightarrow> no_tab (tf_source r) \<and> no_tab (tf_target r) \<and> no_tab (tf_last_authority r) \<and> no_tab (tf_state r)"

lemma stoull_u64: "stoull (dec_of (unat (w :: u64))) = Inr w"
proof -
  have "unat w < 2 ^ 64" by (rule order_less_le_trans [OF unsigned_less]) simp
  then show ?thesis by (simp add: stoull_dec)
qed

lemma no_tab_dec: "9 \<notin> set (dec_of n)"
  by (rule dec_of_no) (simp add: is_digit_def)

lemma parse_encode:
  assumes "record_plain r"
  shows "parse_record (entity_field (tf_entity_id r)) (transfer_encode r) out = (True, r)"
proof -
  have "split_columns (transfer_encode r) 0 =
      [tf_source r, tf_target r, dec_of (unat (tf_time r)), tf_last_authority r, tf_state r, dec_of (unat (tf_updated r))]"
    using assms unfolding transfer_encode_def
    by (subst split_columns_eq, simp, subst drop_0, intro split_join)
      (auto simp: record_plain_def no_tab_def no_tab_dec)
  then show ?thesis by (simp add: parse_record_def entity_field_def stoull_u64)
qed

lemma entity_field_inject [simp]: "entity_field i = entity_field j \<longleftrightarrow> i = j"
  unfolding entity_field_def by (metis digits_val_dec word_unat_eq_iff)

lemma holders_key_inject [simp]: "holders_key i = holders_key j \<longleftrightarrow> i = j"
proof -
  have "bytes_str (dec_of (unat i)) = bytes_str (dec_of (unat j)) \<longleftrightarrow> i = j"
    by (metis digits_val_dec str_bytes_inverse word_unat_eq_iff)
  then show ?thesis by (simp add: holders_key_def)
qed

lemma scan_holders_eq:
  "src \<noteq> tgt \<Longrightarrow> scan_holders src tgt hs (a, b) = (a \<or> src \<in> set hs, b \<or> tgt \<in> set hs)"
  by (induction hs arbitrary: a b) auto

section \<open>The abstract state\<close>

text \<open>Of each entity the database keeps a row, if any, and the set of its holders.\<close>

definition transfer_view ::
  "('db \<Rightarrow> string \<Rightarrow> bytes \<Rightarrow> bytes option) \<Rightarrow> ('db \<Rightarrow> string \<Rightarrow> bytes set) \<Rightarrow> 'db \<Rightarrow> u64 \<Rightarrow> bytes option \<times> bytes set" where
  "transfer_view hash_of set_of db i = (hash_of db active_transfer_table (entity_field i), set_of db (holders_key i))"

text \<open>The keys the manifest uses hold what it expects.\<close>

definition transfer_keys :: "(string \<Rightarrow> bool) \<Rightarrow> (string \<Rightarrow> bool) \<Rightarrow> bool" where
  "transfer_keys hash_key str_key \<longleftrightarrow> hash_key active_transfer_table \<and>
    (\<forall>i. \<not> hash_key (holders_key i) \<and> \<not> str_key (holders_key i))"

lemma table_not_holders [simp]: "active_transfer_table \<noteq> holders_key i" "holders_key i \<noteq> active_transfer_table"
  by (simp_all add: active_transfer_table_def holders_key_def holder_key_prefix_def)

text \<open>The row is gone and the holders are forgotten once the target holds the entity and the source
  does not.\<close>

definition settle :: "bytes \<Rightarrow> bytes \<Rightarrow> bytes option \<times> bytes set \<Rightarrow> bytes option \<times> bytes set" where
  "settle src tgt x = (if tgt \<in> snd x \<and> src \<notin> snd x then (None, {}) else x)"

context redis_keys
begin

abbreviation view :: "'db \<Rightarrow> u64 \<Rightarrow> bytes option \<times> bytes set" where
  "view \<equiv> transfer_view hash_of set_of"

lemma view_upsert:
  assumes "with_sync C = R" and "transfer_keys hash_key str_key"
  shows "view (transfer_upsert C r db) = (view db)(tf_entity_id r := (Some (transfer_encode r), snd (view db (tf_entity_id r))))"
  using assms hset_contents(1,2) [of active_transfer_table]
  by (auto simp: fun_eq_iff transfer_view_def transfer_upsert_def db_hset_def transfer_keys_def)

lemma view_sadd:
  assumes "with_sync C = R" and "transfer_keys hash_key str_key"
  shows "view (snd (db_sadd C (holders_key i) [m] db)) = (view db)(i := (fst (view db i), insert m (snd (view db i))))"
  using assms sadd_contents [of "holders_key i"]
  by (auto simp: fun_eq_iff transfer_view_def db_sadd_def transfer_keys_def)

lemma view_srem:
  assumes "with_sync C = R" and "transfer_keys hash_key str_key"
  shows "view (snd (db_srem C (holders_key i) [m] db)) = (view db)(i := (fst (view db i), snd (view db i) - {m}))"
  using assms srem_contents [of "holders_key i"]
  by (auto simp: fun_eq_iff transfer_view_def db_srem_def transfer_keys_def)

lemma view_expire:
  assumes "with_sync C = R"
  shows "view (snd (db_expire C k holder_key_ttl db)) = view db"
  using assms expire_contents [of holder_key_ttl k db]
  by (simp add: fun_eq_iff transfer_view_def db_expire_def holder_key_ttl_def)

lemma view_clear:
  assumes "with_sync C = R" and "transfer_keys hash_key str_key"
  shows "view (clear_transfer C i db) = (view db)(i := (None, {}))"
  using assms hdel_contents [of active_transfer_table "[entity_field i]" db]
    del_set_contents [where k = "holders_key i" and db = "snd (op_hdel R active_transfer_table [entity_field i] db)"]
  by (auto simp: fun_eq_iff transfer_view_def clear_transfer_def db_hdel_def db_del_key_def transfer_keys_def
      restrict_map_def Let_def)

lemma view_del:
  assumes "with_sync C = R" and "transfer_keys hash_key str_key"
  shows "view (snd (db_del_key C (holders_key i) db)) = (view db)(i := (fst (view db i), {}))"
  using assms del_set_contents [where k = "holders_key i" and db = db]
  by (auto simp: fun_eq_iff transfer_view_def db_del_key_def transfer_keys_def)

lemma view_finalize:
  assumes "with_sync C = R" and "transfer_keys hash_key str_key" and "src \<noteq> tgt"
  shows "view (try_finalize C i src tgt db) = (view db)(i := settle src tgt (view db i))"
proof -
  have "set (db_smembers C (holders_key i) db) = snd (view db i)"
    using assms(1,2) smembers [of "holders_key i" db]
    by (simp add: db_smembers_def transfer_view_def transfer_keys_def)
  then show ?thesis
    by (simp add: try_finalize_def scan_holders_eq [OF assms(3)] settle_def view_clear [OF assms(1,2)])
qed

lemma view_try_get:
  assumes "with_sync C = R" and "transfer_keys hash_key str_key"
  shows "transfer_try_get C i out db =
    (case fst (view db i) of None \<Rightarrow> (False, out) | Some payload \<Rightarrow> parse_record (entity_field i) payload out)"
  using assms hget [of active_transfer_table "entity_field i" db]
  by (simp add: transfer_try_get_def db_hget_def transfer_view_def transfer_keys_def)

end

lemma parse_record_id:
  "parse_record (entity_field i) payload out = (True, r) \<Longrightarrow> tf_entity_id r = i"
  by (auto simp: parse_record_def entity_field_def stoull_u64 Let_def split: if_splits sum.splits)

text \<open>What the two sides write into the row.\<close>

definition adopted_record :: "bytes option \<Rightarrow> u64 \<Rightarrow> bytes \<Rightarrow> bytes \<Rightarrow> u64 \<Rightarrow> u64 \<Rightarrow> transfer_record" where
  "adopted_record row i src tgt time now =
    (let (found, r) = (case row of None \<Rightarrow> (False, tf_new) | Some p \<Rightarrow> parse_record (entity_field i) p tf_new);
         r = (if found then r
              else r \<lparr> tf_entity_id := i, tf_source := src, tf_target := tgt, tf_time := time \<rparr>);
         r = (if tf_source r = [] then r \<lparr> tf_source := src \<rparr> else r);
         r = (if tf_target r = [] then r \<lparr> tf_target := tgt \<rparr> else r);
         r = (if tf_time r = 0 then r \<lparr> tf_time := time \<rparr> else r)
     in r \<lparr> tf_last_authority := tgt, tf_state := str_bytes ''adopted'', tf_updated := now \<rparr>)"

definition committed_record :: "bytes option \<Rightarrow> u64 \<Rightarrow> bytes \<Rightarrow> bytes \<Rightarrow> u64 \<Rightarrow> transfer_record" where
  "committed_record row i src tgt now =
    (let (found, r) = (case row of None \<Rightarrow> (False, tf_new) | Some p \<Rightarrow> parse_record (entity_field i) p tf_new);
         r = (if found then r else r \<lparr> tf_entity_id := i, tf_source := src, tf_target := tgt \<rparr>);
         r = (if tf_source r = [] then r \<lparr> tf_source := src \<rparr> else r);
         r = (if tf_target r = [] then r \<lparr> tf_target := tgt \<rparr> else r)
     in r \<lparr> tf_last_authority := tgt, tf_state := str_bytes ''committed'', tf_updated := now \<rparr>)"

lemma record_ids [simp]:
  "tf_entity_id (adopted_record row i src tgt time now) = i"
  "tf_entity_id (committed_record row i src tgt now) = i"
proof -
  obtain f r where fr: "(case row of None \<Rightarrow> (False, tf_new) | Some p \<Rightarrow> parse_record (entity_field i) p tf_new) = (f, r)"
    by fastforce
  have "f \<Longrightarrow> tf_entity_id r = i"
    using fr by (cases row) (auto dest: parse_record_id)
  then show "tf_entity_id (adopted_record row i src tgt time now) = i"
    "tf_entity_id (committed_record row i src tgt now) = i"
    by (simp_all add: adopted_record_def committed_record_def fr Let_def)
qed

context redis_keys
begin

lemma view_started:
  assumes C: "with_sync C = R" and K: "transfer_keys hash_key str_key"
  shows "view (mark_transfer_started us C i source target time now db) = (view db)(i :=
    (Some (transfer_encode \<lparr> tf_entity_id = i, tf_source = nid_text us source, tf_target = nid_text us target,
       tf_time = time, tf_last_authority = nid_text us source, tf_state = str_bytes ''started'', tf_updated = now \<rparr>),
     insert (nid_text us source) (snd (view db i))))"
  by (simp add: mark_transfer_started_def Let_def view_expire [OF C] view_sadd [OF C K] view_upsert [OF C K])

lemma view_adopted:
  assumes C: "with_sync C = R" and K: "transfer_keys hash_key str_key" and ne: "nid_text us source \<noteq> nid_text us target"
  shows "view (mark_incoming_adopted us C i source target time now db) = (view db)(i :=
    settle (nid_text us source) (nid_text us target)
      (Some (transfer_encode (adopted_record (fst (view db i)) i (nid_text us source) (nid_text us target) time now)),
       insert (nid_text us target) (snd (view db i))))"
proof -
  let ?r = "adopted_record (fst (view db i)) i (nid_text us source) (nid_text us target) time now"
  have "mark_incoming_adopted us C i source target time now db =
    try_finalize C i (nid_text us source) (nid_text us target)
      (snd (db_expire C (holders_key i) holder_key_ttl
        (snd (db_sadd C (holders_key i) [nid_text us target] (transfer_upsert C ?r db)))))"
    by (simp add: mark_incoming_adopted_def adopted_record_def view_try_get [OF C K] Let_def
        split: option.split prod.split)
  then show ?thesis
    by (simp add: view_finalize [OF C K ne] view_expire [OF C] view_sadd [OF C K] view_upsert [OF C K])
qed

lemma view_committed:
  assumes C: "with_sync C = R" and K: "transfer_keys hash_key str_key" and ne: "nid_text us source \<noteq> nid_text us target"
  shows "view (mark_outgoing_committed us C i source target now db) = (view db)(i :=
    settle (nid_text us source) (nid_text us target)
      (Some (transfer_encode (committed_record (fst (view db i)) i (nid_text us source) (nid_text us target) now)),
       snd (view db i) - {nid_text us source}))"
proof -
  let ?r = "committed_record (fst (view db i)) i (nid_text us source) (nid_text us target) now"
  have "mark_outgoing_committed us C i source target now db =
    try_finalize C i (nid_text us source) (nid_text us target)
      (snd (db_srem C (holders_key i) [nid_text us source] (transfer_upsert C ?r db)))"
    by (simp add: mark_outgoing_committed_def committed_record_def view_try_get [OF C K] Let_def
        split: option.split prod.split)
  then show ?thesis
    by (simp add: view_finalize [OF C K ne] view_srem [OF C K] view_upsert [OF C K])
qed

end

section \<open>Properties\<close>

text \<open>A row written for a transfer is read back as the same record, whatever was in the record it
  is read into, provided the texts contain no tab; and the loop that cuts it yields exactly the pieces
  between the tabs of any text.\<close>

theorem transfer_row_roundtrip:
  assumes "record_plain r"
  shows "parse_record (entity_field (tf_entity_id r)) (transfer_encode r) out = (True, r) \<and>
    split_columns payload 0 = split_on 9 payload"
  using parse_encode [OF assms] split_columns_eq [of 0 payload] by simp

theorem transfer_row_roundtrip_witness:
  "parse_record (entity_field 7) (transfer_encode (tf_new \<lparr> tf_entity_id := 7, tf_source := [97] \<rparr>)) tf_new =
    (True, tf_new \<lparr> tf_entity_id := 7, tf_source := [97] \<rparr>)"
  using transfer_row_roundtrip [of "tf_new \<lparr> tf_entity_id := 7, tf_source := [97] \<rparr>" tf_new "[]"]
  by (simp add: record_plain_def no_tab_def tf_new_def)

text \<open>What the server does between two commands on the holders of an entity: it forgets them when their time
  to live is over, and nothing else of the view changes.\<close>

definition lapse ::
  "('db \<Rightarrow> string \<Rightarrow> bytes \<Rightarrow> bytes option) \<Rightarrow> ('db \<Rightarrow> string \<Rightarrow> bytes set) \<Rightarrow> u64 \<Rightarrow> bool \<Rightarrow> 'db \<Rightarrow> 'db \<Rightarrow> bool" where
  "lapse hash_of set_of i expired db db' \<longleftrightarrow>
    (let v = transfer_view hash_of set_of
     in v db' = (if expired then (v db)(i := (fst (v db i), {})) else v db))"

text \<open>C39: a handoff of an entity without earlier holders, started, then adopted by the target and committed by
  the source, with \<open>s1\<close> and \<open>s2\<close> seconds between the three. When the commit comes first no row and no holder
  is left. When the adoption comes first this is so if both times are below the thirty seconds the holders
  live: then the row stays between the two, with both shards as holders. If one of the times is longer, the
  holders have been forgotten, and the commit leaves a row behind. No other entity's row or holders are
  touched.\<close>

theorem transfer_settles:
  assumes "redis_keys R hash_key hash_of set_of str_key str_of" and "with_sync C = R"
    and "transfer_keys hash_key str_key" and "nid_text us a \<noteq> nid_text us b"
    and "set_of db (holders_key i) = {}"
    and "lapse hash_of set_of i (holder_key_ttl \<le> s1) (mark_transfer_started us C i a b time t0 db) db1"
    and "lapse hash_of set_of i (holder_key_ttl \<le> s2) (mark_incoming_adopted us C i a b time t1 db1) db2"
    and "lapse hash_of set_of i (holder_key_ttl \<le> s2) (mark_outgoing_committed us C i a b t1 db1) db3"
  shows "\<exists>row row' row''.
    (let v = transfer_view hash_of set_of
     in v (mark_incoming_adopted us C i a b time t1 db1) = (v db)(i :=
          if s1 < holder_key_ttl then (Some row, {nid_text us a, nid_text us b}) else (None, {})) \<and>
        v (mark_outgoing_committed us C i a b t1 db1) = (v db)(i := (Some row', {})) \<and>
        v (mark_outgoing_committed us C i a b t2 db2) = (v db)(i :=
          if s1 < holder_key_ttl \<and> s2 < holder_key_ttl then (None, {}) else (Some row'', {})) \<and>
        v (mark_incoming_adopted us C i a b time t2 db3) = (v db)(i := (None, {})))"
proof -
  let ?v = "transfer_view hash_of set_of" and ?a = "nid_text us a" and ?b = "nid_text us b"
  have h: "snd (?v db i) = {}" using assms(5) by (simp add: transfer_view_def)
  note st = redis_keys.view_started [OF assms(1-3)] and ad = redis_keys.view_adopted [OF assms(1-4)]
    and co = redis_keys.view_committed [OF assms(1-4)]
  have "\<exists>r. ?v db1 = (?v db)(i := (Some r, if s1 < holder_key_ttl then {?a} else {}))"
    using assms(6) h by (auto simp: lapse_def Let_def st)
  then obtain r where 1: "?v db1 = (?v db)(i := (Some r, if s1 < holder_key_ttl then {?a} else {}))" by blast
  have "\<exists>row. ?v (mark_incoming_adopted us C i a b time t1 db1) = (?v db)(i :=
      if s1 < holder_key_ttl then (Some row, {?a, ?b}) else (None, {}))"
    using assms(4) by (cases "s1 < holder_key_ttl") (auto simp: ad 1 settle_def insert_commute)
  then obtain row where 2: "?v (mark_incoming_adopted us C i a b time t1 db1) = (?v db)(i :=
      if s1 < holder_key_ttl then (Some row, {?a, ?b}) else (None, {}))" by blast
  have "\<exists>row. ?v (mark_outgoing_committed us C i a b t1 db1) = (?v db)(i := (Some row, {}))"
    using assms(4) by (auto simp: co 1 settle_def)
  then obtain row' where 3: "?v (mark_outgoing_committed us C i a b t1 db1) = (?v db)(i := (Some row', {}))" by blast
  have d2: "?v db2 = (?v db)(i := if s1 < holder_key_ttl
      then (Some row, if s2 < holder_key_ttl then {?a, ?b} else {}) else (None, {}))"
    using assms(7) by (auto simp: lapse_def Let_def 2)
  have d3: "?v db3 = (?v db)(i := (Some row', {}))" using assms(8) by (auto simp: lapse_def Let_def 3)
  have "\<exists>row''. ?v (mark_outgoing_committed us C i a b t2 db2) = (?v db)(i :=
      if s1 < holder_key_ttl \<and> s2 < holder_key_ttl then (None, {}) else (Some row'', {}))"
    using assms(4) by (auto simp: co d2 settle_def)
  moreover have "?v (mark_incoming_adopted us C i a b time t2 db3) = (?v db)(i := (None, {}))"
    using assms(4) by (auto simp: ad d3 settle_def)
  ultimately show ?thesis using 2 3 unfolding Let_def by blast
qed

lemma demo_texts: "nid_text demo_printer make_id_watchdog \<noteq> nid_text demo_printer make_id_cartograph"
  by (simp add: nid_text_def nid_to_string_eq [OF demo_printer_ok] make_id_watchdog_def make_id_cartograph_def
      uuid_is_nil_def nil_uuid_def nt_name_def nt_defs list_all_iff str_bytes_def)

text \<open>Within the time, and with an adoption that the holders do not survive.\<close>

theorem transfer_settles_witness:
  "transfer_view mem_hash mem_set
     (mark_outgoing_committed demo_printer mem_connection 5 make_id_watchdog make_id_cartograph 3
       (mark_incoming_adopted demo_printer mem_connection 5 make_id_watchdog make_id_cartograph 9 2
         (mark_transfer_started demo_printer mem_connection 5 make_id_watchdog make_id_cartograph 9 1 mem_empty))) 5 =
   (None, {}) \<and>
   (\<exists>db row. transfer_view mem_hash mem_set
     (mark_outgoing_committed demo_printer mem_connection 5 make_id_watchdog make_id_cartograph 3 db) 5 = (Some row, {}))"
proof -
  let ?w = make_id_watchdog and ?c = make_id_cartograph and ?us = demo_printer and ?C = mem_connection
  have k: "redis_keys mem_redis (\<lambda>k. k = active_transfer_table) mem_hash mem_set (\<lambda>_. False) md_str"
    by (rule memkeys.redis_keys_axioms)
  have t: "transfer_keys (\<lambda>k. k = active_transfer_table) (\<lambda>_. False)" by (simp add: transfer_keys_def)
  have e: "mem_set mem_empty (holders_key 5) = {}" by (simp add: mem_set_def mem_empty_def)
  define started where "started = mark_transfer_started ?us ?C 5 ?w ?c 9 1 mem_empty"
  define adopted where "adopted = mark_incoming_adopted ?us ?C 5 ?w ?c 9 2 started"
  define committed where "committed = mark_outgoing_committed ?us ?C 5 ?w ?c 2 started"
  define forgotten where "forgotten = snd (db_del_key ?C (holders_key 5) adopted)"
  have s: "lapse mem_hash mem_set 5 False db db" for db by (simp add: lapse_def)
  have f: "lapse mem_hash mem_set 5 True adopted forgotten"
    using redis_keys.view_del [OF k with_sync_mem t, of 5 adopted] by (simp add: lapse_def forgotten_def Let_def)
  have 3: "lapse mem_hash mem_set 5 True committed (snd (db_del_key ?C (holders_key 5) committed))"
    using redis_keys.view_del [OF k with_sync_mem t, of 5 committed] by (simp add: lapse_def Let_def)
  note r = transfer_settles [OF k with_sync_mem t demo_texts e, of 1 9 1, folded started_def]
  have "transfer_view mem_hash mem_set (mark_outgoing_committed ?us ?C 5 ?w ?c 3 adopted) 5 = (None, {})"
    using r [of started 1 2 adopted committed 3] s by (auto simp: Let_def holder_key_ttl_def adopted_def committed_def)
  moreover have "\<exists>row. transfer_view mem_hash mem_set (mark_outgoing_committed ?us ?C 5 ?w ?c 3 forgotten) 5 = (Some row, {})"
    using r [of started 31 2 forgotten "snd (db_del_key ?C (holders_key 5) committed)" 3] s f 3 by (auto simp: Let_def holder_key_ttl_def adopted_def committed_def)
  ultimately show ?thesis unfolding adopted_def started_def by blast
qed

end
