(* ===== verification/Authority_Tracker.thy ===== *)
theory Authority_Tracker
  imports Transfer_Manifest Entity_Data
begin

text \<open>
  The authority of a shard over its entities (\<open>ServerHandoff/SH_EntityAuthorityTracker\<close>) and its
  publication (\<open>SH_TelemetryPublisher\<close>, \<open>Telemetry/AuthorityManifest.hpp\<close>). The entity type these parked
  sources were written for is no longer in the repository, and the current one has other ids: an entity
  is the record of the members the sources name, its id a 64-bit number, and how it is serialized is a
  parameter. A hash map is the list of its entries, new entries last.
\<close>

section \<open>State\<close>

record ho_entity =
  ho_id :: u64
  ho_transform :: transform
  ho_is_client :: bool
  ho_client_id :: bytes
  ho_metadata :: bytes

datatype authority_state = Authoritative | Passing

record authority_entry =
  ae_snapshot :: ho_entity
  ae_state :: authority_state
  ae_passing_to :: "network_identity option"

type_synonym tracker = "(u64 \<times> authority_entry) list"

text \<open>\<open>m[k] = v\<close> and \<open>erase(k)\<close>.\<close>

definition map_put :: "'k \<Rightarrow> 'v \<Rightarrow> ('k \<times> 'v) list \<Rightarrow> ('k \<times> 'v) list" where
  "map_put k v m = AList.update k v m"

definition map_erase :: "'k \<Rightarrow> ('k \<times> 'v) list \<Rightarrow> ('k \<times> 'v) list" where
  "map_erase k m = filter (\<lambda>x. fst x \<noteq> k) m"

section \<open>Operations\<close>

definition tracker_reset :: "tracker \<Rightarrow> tracker" where
  "tracker_reset t = []"

definition track_entity :: "tracker \<Rightarrow> ho_entity \<Rightarrow> tracker" where
  "track_entity t e =
    (case map_of t (ho_id e) of
       None \<Rightarrow> t @ [(ho_id e, \<lparr> ae_snapshot = e, ae_state = Authoritative, ae_passing_to = None \<rparr>)]
     | Some a \<Rightarrow> map_put (ho_id e) (a \<lparr> ae_snapshot := e \<rparr>) t)"

definition set_owned_entities :: "ho_entity list \<Rightarrow> tracker \<Rightarrow> tracker" where
  "set_owned_entities es t =
    (let keep = ho_id ` set es;
         t = foldl track_entity t es;
         to_remove = filter (\<lambda>i. i \<notin> keep) (map fst t)
     in foldl (\<lambda>t i. map_erase i t) t to_remove)"

record telemetry_row =
  row_entity_id :: u64
  row_owner :: network_identity
  row_snapshot :: ho_entity
  row_world :: u16
  row_position :: vec3
  row_is_client :: bool
  row_client_id :: bytes

definition collect_telemetry_rows :: "network_identity \<Rightarrow> tracker \<Rightarrow> telemetry_row list" where
  "collect_telemetry_rows self t =
    map (\<lambda>(i, a). \<lparr> row_entity_id = i, row_owner = self, row_snapshot = ae_snapshot a,
      row_world = tr_world (ho_transform (ae_snapshot a)),
      row_position = tr_position (ho_transform (ae_snapshot a)),
      row_is_client = ho_is_client (ae_snapshot a), row_client_id = ho_client_id (ae_snapshot a) \<rparr>) t"

definition get_owned_entity_snapshots :: "tracker \<Rightarrow> ho_entity list" where
  "get_owned_entity_snapshots t = map (\<lambda>(i, a). ae_snapshot a) t"

definition mark_passing ::
  "(bytes \<Rightarrow> string) \<Rightarrow> u64 \<Rightarrow> network_identity \<Rightarrow> tracker \<Rightarrow> bool \<times> tracker" where
  "mark_passing us i target t =
    (case map_of t i of
       None \<Rightarrow> (False, t)
     | Some a \<Rightarrow>
         if ae_state a = Passing \<and> (case ae_passing_to a of None \<Rightarrow> False | Some p \<Rightarrow> nid_eq us p target)
         then (False, t)
         else (True, map_put i (a \<lparr> ae_state := Passing, ae_passing_to := Some target \<rparr>) t))"

definition mark_authoritative :: "u64 \<Rightarrow> tracker \<Rightarrow> tracker" where
  "mark_authoritative i t =
    (case map_of t i of
       None \<Rightarrow> t
     | Some a \<Rightarrow> map_put i (a \<lparr> ae_state := Authoritative, ae_passing_to := None \<rparr>) t)"

definition is_passing :: "u64 \<Rightarrow> tracker \<Rightarrow> bool" where
  "is_passing i t =
    (case map_of t i of None \<Rightarrow> False | Some a \<Rightarrow> ae_state a = Passing \<and> ae_passing_to a \<noteq> None)"

definition get_passing_target :: "u64 \<Rightarrow> tracker \<Rightarrow> network_identity option" where
  "get_passing_target i t =
    (case map_of t i of
       None \<Rightarrow> None
     | Some a \<Rightarrow> if ae_state a \<noteq> Passing \<or> ae_passing_to a = None then None else ae_passing_to a)"

definition is_passing_to :: "(bytes \<Rightarrow> string) \<Rightarrow> u64 \<Rightarrow> network_identity \<Rightarrow> tracker \<Rightarrow> bool" where
  "is_passing_to us i target t =
    (case map_of t i of
       None \<Rightarrow> False
     | Some a \<Rightarrow> ae_state a = Passing \<and> (case ae_passing_to a of None \<Rightarrow> False | Some p \<Rightarrow> nid_eq us p target))"

definition set_authority_state ::
  "u64 \<Rightarrow> authority_state \<Rightarrow> network_identity option \<Rightarrow> tracker \<Rightarrow> tracker" where
  "set_authority_state i st p t =
    (case map_of t i of
       None \<Rightarrow> t | Some a \<Rightarrow> map_put i (a \<lparr> ae_state := st, ae_passing_to := p \<rparr>) t)"

definition tracker_remove_entity :: "u64 \<Rightarrow> tracker \<Rightarrow> tracker" where
  "tracker_remove_entity i t = map_erase i t"

definition tracker_count :: "tracker \<Rightarrow> nat" where
  "tracker_count t = length t"

section \<open>Publication\<close>

definition authority_telemetry_table :: string where
  "authority_telemetry_table = ''Authority_Telemetry''"

definition authority_snapshot_table :: string where
  "authority_snapshot_table = ''Authority_EntitySnapshots''"

definition authority_meta_table :: string where
  "authority_meta_table = ''Authority_EntityMeta''"

text \<open>The owner in the telemetry written before, if it names one.\<close>

definition previous_owner :: "bytes option \<Rightarrow> bytes \<Rightarrow> bytes" where
  "previous_owner prev owner =
    (case prev of
       None \<Rightarrow> owner
     | Some v \<Rightarrow> (case find_from 9 v 0 of
         None \<Rightarrow> owner | Some e \<Rightarrow> if 0 < e then take e v else owner))"

text \<open>The printers of floating point numbers and UUIDs and the time at which the row of an entity is
  written are parameters.\<close>

definition authority_line :: "(f32 \<Rightarrow> bytes) \<Rightarrow> (bytes \<Rightarrow> string) \<Rightarrow> telemetry_row \<Rightarrow> bytes" where
  "authority_line fmt us row =
    join_on 9 [nid_text us (row_owner row), dec_of (unat (row_world row)), fmt (vx (row_position row)),
      fmt (vy (row_position row)), fmt (vz (row_position row)),
      (if row_is_client row then [49] else [48]), str_bytes (us (row_client_id row))]"

definition publish_row ::
  "(ho_entity \<Rightarrow> writer \<Rightarrow> writer) \<Rightarrow> (f32 \<Rightarrow> bytes) \<Rightarrow> (bytes \<Rightarrow> string) \<Rightarrow> (u64 \<Rightarrow> int) \<Rightarrow> 'db redis_connection \<Rightarrow>
   telemetry_row \<Rightarrow> 'db \<Rightarrow> 'db" where
  "publish_row ser fmt us now_ms C row db =
    (let fld = entity_field (row_entity_id row);
         prev = db_hget C authority_telemetry_table fld db;
         last = previous_owner prev (nid_text us (row_owner row));
         db = snd (db_hset C authority_telemetry_table fld (authority_line fmt us row) db);
         db = snd (db_hset C authority_snapshot_table fld
           (bw_bytes (ser (row_snapshot row) (nid_ser (row_owner row) bw_new))) db)
     in snd (db_hset C authority_meta_table fld
          (last @ 9 # dec_of_int (now_ms (row_entity_id row))) db))"

definition authority_telemetry_update ::
  "(ho_entity \<Rightarrow> writer \<Rightarrow> writer) \<Rightarrow> (f32 \<Rightarrow> bytes) \<Rightarrow> (bytes \<Rightarrow> string) \<Rightarrow> (u64 \<Rightarrow> int) \<Rightarrow> 'db redis_connection \<Rightarrow>
   telemetry_row list \<Rightarrow> 'db \<Rightarrow> 'db" where
  "authority_telemetry_update ser fmt us now_ms C rows db =
    foldl (\<lambda>db row. publish_row ser fmt us now_ms C row db) db rows"

fun authority_rows :: "(bytes \<times> bytes) list \<Rightarrow> bytes list list" where
  "authority_rows [] = []"
| "authority_rows ((fld, payload) # rows) =
    (let columns = getlines 9 payload
     in if length columns \<noteq> 7 then authority_rows rows else (fld # columns) # authority_rows rows)"

definition authority_get_all_telemetry :: "'db redis_connection \<Rightarrow> 'db \<Rightarrow> bytes list list" where
  "authority_get_all_telemetry C db = authority_rows (db_hgetall C authority_telemetry_table db)"

definition get_all_entity_snapshots_raw :: "'db redis_connection \<Rightarrow> 'db \<Rightarrow> (bytes \<times> bytes) list" where
  "get_all_entity_snapshots_raw C db = db_hgetall C authority_snapshot_table db"

definition get_all_entity_meta_raw :: "'db redis_connection \<Rightarrow> 'db \<Rightarrow> (bytes \<times> bytes) list" where
  "get_all_entity_meta_raw C db = db_hgetall C authority_meta_table db"

text \<open>The rows are copied field by field.\<close>

definition to_manifest_rows :: "telemetry_row list \<Rightarrow> telemetry_row list" where
  "to_manifest_rows rows = map (\<lambda>r. \<lparr> row_entity_id = row_entity_id r, row_owner = row_owner r,
     row_snapshot = row_snapshot r, row_world = row_world r, row_position = row_position r,
     row_is_client = row_is_client r, row_client_id = row_client_id r \<rparr>) rows"

definition publish_from_tracker ::
  "(ho_entity \<Rightarrow> writer \<Rightarrow> writer) \<Rightarrow> (f32 \<Rightarrow> bytes) \<Rightarrow> (bytes \<Rightarrow> string) \<Rightarrow> (u64 \<Rightarrow> int) \<Rightarrow> 'db redis_connection \<Rightarrow>
   network_identity \<Rightarrow> tracker \<Rightarrow> 'db \<Rightarrow> 'db" where
  "publish_from_tracker ser fmt us now_ms C self t db =
    authority_telemetry_update ser fmt us now_ms C (to_manifest_rows (collect_telemetry_rows self t)) db"

section \<open>Maps\<close>

lemma map_of_put [simp]: "map_of (map_put k v m) = (map_of m)(k \<mapsto> v)"
  by (simp add: map_put_def update_conv')

lemma map_of_erase [simp]: "map_of (map_erase k m) = (map_of m)(k := None)"
  by (induction m) (auto simp: map_erase_def fun_eq_iff)

lemma distinct_put: "distinct (map fst m) \<Longrightarrow> distinct (map fst (map_put k v m))"
  by (simp add: map_put_def distinct_update)

lemma distinct_erase: "distinct (map fst m) \<Longrightarrow> distinct (map fst (map_erase k m))"
  by (simp add: map_erase_def distinct_map_filter)

lemma fst_put: "fst ` set (map_put k v m) = insert k (fst ` set m)"
  by (simp add: map_put_def dom_update [unfolded] flip: dom_map_of_conv_image_fst) (simp add: update_conv')

lemma fst_erase: "fst ` set (map_erase k m) = fst ` set m - {k}"
  by (auto simp: map_erase_def)

lemma find_SomeD: "find P xs = Some x \<Longrightarrow> x \<in> set xs \<and> P x"
  by (induction xs) (auto split: if_splits)

text \<open>A well-formed tracker has one entry for each id, whose snapshot has that id.\<close>

definition tracker_ok :: "tracker \<Rightarrow> bool" where
  "tracker_ok t \<longleftrightarrow> distinct (map fst t) \<and> (\<forall>i a. map_of t i = Some a \<longrightarrow> ho_id (ae_snapshot a) = i)"

lemma tracker_ok_put: "tracker_ok t \<Longrightarrow> ho_id (ae_snapshot a) = i \<Longrightarrow> tracker_ok (map_put i a t)"
  by (auto simp: tracker_ok_def distinct_put)

lemma tracker_ok_erase: "tracker_ok t \<Longrightarrow> tracker_ok (map_erase i t)"
  by (auto simp: tracker_ok_def distinct_erase)

lemma tracker_ok_ops:
  assumes "tracker_ok t"
  shows "tracker_ok (track_entity t e)" "tracker_ok (snd (mark_passing us i target t))"
    "tracker_ok (mark_authoritative i t)" "tracker_ok (set_authority_state i st p t)"
    "tracker_ok (tracker_remove_entity i t)"
proof -
  show "tracker_ok (track_entity t e)"
  proof (cases "map_of t (ho_id e)")
    case None
    then have "ho_id e \<notin> fst ` set t" by (simp add: map_of_eq_None_iff)
    then show ?thesis using assms None by (auto simp: track_entity_def tracker_ok_def map_add_def split: if_splits option.splits)
  qed (use assms in \<open>auto simp: track_entity_def intro: tracker_ok_put\<close>)
qed (use assms in \<open>auto simp: mark_passing_def mark_authoritative_def set_authority_state_def
  tracker_remove_entity_def tracker_ok_erase intro!: tracker_ok_put split: option.split, auto simp: tracker_ok_def\<close>)

text \<open>The tracker after the simulation's entities have been set.\<close>

definition tracked :: "ho_entity list \<Rightarrow> tracker \<Rightarrow> u64 \<Rightarrow> authority_entry option" where
  "tracked es t i =
    (case find (\<lambda>e. ho_id e = i) (rev es) of
       None \<Rightarrow> None
     | Some e \<Rightarrow> Some (case map_of t i of
         None \<Rightarrow> \<lparr> ae_snapshot = e, ae_state = Authoritative, ae_passing_to = None \<rparr>
       | Some a \<Rightarrow> a \<lparr> ae_snapshot := e \<rparr>))"

lemma map_of_track:
  "map_of (track_entity t e) = (map_of t)(ho_id e \<mapsto> (case map_of t (ho_id e) of
     None \<Rightarrow> \<lparr> ae_snapshot = e, ae_state = Authoritative, ae_passing_to = None \<rparr>
   | Some a \<Rightarrow> a \<lparr> ae_snapshot := e \<rparr>))"
  by (auto simp: track_entity_def fun_eq_iff map_add_def split: option.splits)

lemma map_of_track_all:
  "map_of (foldl track_entity t es) i =
    (case find (\<lambda>e. ho_id e = i) (rev es) of None \<Rightarrow> map_of t i | Some _ \<Rightarrow> tracked es t i)"
proof (induction es rule: rev_induct)
  case (snoc e es)
  then show ?case
    by (cases "find (\<lambda>e. ho_id e = i) (rev es)") (auto simp: map_of_track tracked_def split: option.splits)
qed simp

lemma map_of_erase_all: "map_of (foldl (\<lambda>t i. map_erase i t) t is) i = (if i \<in> set is then None else map_of t i)"
  by (induction "is" arbitrary: t) auto

lemma set_owned_tracked: "map_of (set_owned_entities es t) = tracked es t"
proof
  fix i
  let ?t = "foldl track_entity t es"
  have f: "find (\<lambda>e. ho_id e = i) (rev es) = None \<longleftrightarrow> i \<notin> ho_id ` set es"
    by (auto simp: find_None_iff)
  have "i \<in> fst ` set ?t" if "map_of ?t i \<noteq> None" using that by (metis map_of_eq_None_iff)
  then show "map_of (set_owned_entities es t) i = tracked es t i"
    using f by (auto simp: set_owned_entities_def Let_def map_of_erase_all map_of_track_all tracked_def
        split: option.splits)
qed

lemma set_owned_ok: "tracker_ok t \<Longrightarrow> tracker_ok (set_owned_entities es t)"
proof -
  assume "tracker_ok t"
  then have 1: "tracker_ok (foldl track_entity t es)"
    by (induction es arbitrary: t) (simp_all add: tracker_ok_ops)
  have "tracker_ok (foldl (\<lambda>t i. map_erase i t) s is)" if "tracker_ok s" for s "is"
    using that by (induction "is" arbitrary: s) (simp_all add: tracker_ok_erase)
  with 1 show ?thesis by (simp add: set_owned_entities_def Let_def)
qed

section \<open>Properties\<close>

text \<open>When the simulation hands its entities to the tracker, the tracker afterwards holds exactly
  these: an entity it did not know becomes authoritative, a known one keeps its authority, so a handoff
  in progress survives, with its snapshot replaced, and an entity the simulation no longer has is
  forgotten. The tracker stays well-formed.\<close>

theorem tracker_follows_simulation:
  assumes "tracker_ok t" and "distinct (map ho_id es)"
  shows "tracker_ok (set_owned_entities es t) \<and>
    (\<forall>e\<in>set es. map_of (set_owned_entities es t) (ho_id e) = Some (case map_of t (ho_id e) of
        None \<Rightarrow> \<lparr> ae_snapshot = e, ae_state = Authoritative, ae_passing_to = None \<rparr>
      | Some a \<Rightarrow> a \<lparr> ae_snapshot := e \<rparr>)) \<and>
    (\<forall>i. i \<notin> ho_id ` set es \<longrightarrow> map_of (set_owned_entities es t) i = None)"
proof (intro conjI ballI allI impI)
  show "tracker_ok (set_owned_entities es t)" by (rule set_owned_ok [OF assms(1)])
  fix e assume e: "e \<in> set es"
  have "find (\<lambda>x. ho_id x = ho_id e) (rev es) = Some e"
  proof (cases "find (\<lambda>x. ho_id x = ho_id e) (rev es)")
    case None
    then show ?thesis using e by (auto simp: find_None_iff)
  next
    case (Some x)
    then have "x \<in> set es" "ho_id x = ho_id e" by (auto dest: find_SomeD)
    then have "x = e" using e assms(2) by (simp add: distinct_map inj_on_def)
    then show ?thesis using Some by simp
  qed
  then show "map_of (set_owned_entities es t) (ho_id e) = Some (case map_of t (ho_id e) of
        None \<Rightarrow> \<lparr> ae_snapshot = e, ae_state = Authoritative, ae_passing_to = None \<rparr>
      | Some a \<Rightarrow> a \<lparr> ae_snapshot := e \<rparr>)"
    by (simp add: set_owned_tracked tracked_def)
next
  fix i assume "i \<notin> ho_id ` set es"
  then have "find (\<lambda>x. ho_id x = i) (rev es) = None" by (auto simp: find_None_iff)
  then show "map_of (set_owned_entities es t) i = None" by (simp add: set_owned_tracked tracked_def)
qed

definition demo_ho :: "u64 \<Rightarrow> ho_entity" where
  "demo_ho i = \<lparr> ho_id = i, ho_transform = transform_new, ho_is_client = False, ho_client_id = [], ho_metadata = [] \<rparr>"

theorem tracker_follows_simulation_witness:
  "map_of (set_owned_entities [demo_ho 2] [(1, \<lparr> ae_snapshot = demo_ho 1, ae_state = Passing, ae_passing_to = None \<rparr>)]) 1 = None"
proof -
  let ?t = "[(1, \<lparr> ae_snapshot = demo_ho 1, ae_state = Passing, ae_passing_to = None \<rparr>)]"
  have ok: "tracker_ok ?t" "distinct (map ho_id [demo_ho 2])"
    by (auto simp: tracker_ok_def demo_ho_def split: if_splits)
  have "1 \<notin> ho_id ` set [demo_ho 2]" by (simp add: demo_ho_def)
  with tracker_follows_simulation [OF ok] show ?thesis by blast
qed

end
