(* ===== verification/Debug_Simulators.thy ===== *)
theory Debug_Simulators
  imports Authority_Tracker Grid_Heuristic
begin

text \<open>
  The two simulations that drive the handoff (\<open>EntityHandoff/DebugEntities\<close>): entities on circular
  orbits and entities that bounce off the border of the world. Their common interface is the record
  \<open>sim_ops\<close>; the locale \<open>simulator\<close> states what the rest of the handoff relies on, and both simulations
  satisfy it. The trigonometric functions, the random numbers, the clock and the bounds the manifest
  reports are parameters.
\<close>

section \<open>The interface\<close>

record seed_options =
  sd_desired_count :: u32
  sd_half_extent :: f32
  sd_phase_step :: f32
  sd_initial_radius :: f32
  sd_randomize_phase :: bool
  sd_speed :: f32
  sd_randomize_direction :: bool
  sd_randomize_position :: bool

record tick_options =
  to_delta_seconds :: f32
  to_radius :: f32
  to_angular_speed :: f32
  to_refresh_ms :: int

definition seed_default :: seed_options where
  "seed_default = \<lparr> sd_desired_count = 1, sd_half_extent = 0x3F000000, sd_phase_step = 0,
     sd_initial_radius = 0x41400000, sd_randomize_phase = True, sd_speed = 0x41900000,
     sd_randomize_direction = True, sd_randomize_position = True \<rparr>"

definition tick_default :: tick_options where
  "tick_default = \<lparr> to_delta_seconds = 0, to_radius = 0x41400000, to_angular_speed = 0x3F99999A, to_refresh_ms = 1000 \<rparr>"

record 's sim_ops =
  so_reset :: "'s \<Rightarrow> 's"
  so_seed :: "seed_options \<Rightarrow> 's \<Rightarrow> 's res"
  so_adopt :: "ho_entity \<Rightarrow> 's \<Rightarrow> 's"
  so_remove :: "u64 \<Rightarrow> 's \<Rightarrow> 's"
  so_tick :: "tick_options \<Rightarrow> 's \<Rightarrow> 's res"
  so_snapshot :: "'s \<Rightarrow> ho_entity list"
  so_count :: "'s \<Rightarrow> nat"

text \<open>Trigonometry, and the draws of the generator from a uniform distribution, counted.\<close>

record sim_math =
  sm_cos :: "f32 \<Rightarrow> f32"
  sm_sin :: "f32 \<Rightarrow> f32"
  sm_atan2 :: "f32 \<Rightarrow> f32 \<Rightarrow> f32"
  sm_draw :: "nat \<Rightarrow> f32 \<Rightarrow> f32 \<Rightarrow> f32"

text \<open>\<open>std::clamp\<close>.\<close>

definition f_clamp :: "f32 \<Rightarrow> f32 \<Rightarrow> f32 \<Rightarrow> f32" where
  "f_clamp v lo hi = (if f_lt v lo then lo else if f_lt hi v then hi else v)"

definition two_pi :: f32 where
  "two_pi = 0x40C90FDB"

definition make_entity_id :: "u64 \<Rightarrow> u32 \<Rightarrow> u64" where
  "make_entity_id namespace index = namespace XOR push_bit 1 (ucast (index + 1))"

definition box_around :: "vec3 \<Rightarrow> f32 \<Rightarrow> aabb" where
  "box_around p h = aabb_set_center_extents (vec3_list p) [h, h, h] (aabb_new 3)"

definition spawned_entity :: "u64 \<Rightarrow> vec3 \<Rightarrow> f32 \<Rightarrow> ho_entity" where
  "spawned_entity i p h =
    \<lparr> ho_id = i, ho_transform = \<lparr> tr_world = 0, tr_position = p, tr_bounding_box = box_around p h \<rparr>,
       ho_is_client = False, ho_client_id = nil_uuid, ho_metadata = [] \<rparr>"

definition move_entity :: "vec3 \<Rightarrow> f32 \<Rightarrow> ho_entity \<Rightarrow> ho_entity" where
  "move_entity p h e =
    e \<lparr> ho_transform := (ho_transform e) \<lparr> tr_position := p, tr_bounding_box := box_around p h \<rparr> \<rparr>"

section \<open>Orbits\<close>

record orbit_entity =
  oe_entity :: ho_entity
  oe_phase :: f32

record orbit_sim =
  os_angle :: f32
  os_entities :: "(u64 \<times> orbit_entity) list"
  os_draws :: nat

definition orbit_namespace :: u64 where
  "orbit_namespace = 0xA7105EED00000000"

definition orbit_reset :: "orbit_sim \<Rightarrow> orbit_sim" where
  "orbit_reset s = s \<lparr> os_entities := [], os_angle := 0 \<rparr>"

definition orbit_seed_one :: "sim_math \<Rightarrow> seed_options \<Rightarrow> orbit_sim \<Rightarrow> nat \<Rightarrow> orbit_sim" where
  "orbit_seed_one T d s i =
    (let (phase, s) = (if \<not> sd_randomize_phase d then (f_mul (sd_phase_step d) (f_of_int (int i)), s)
           else (sm_draw T (os_draws s) 0 two_pi, s \<lparr> os_draws := Suc (os_draws s) \<rparr>));
         angle = f_add (os_angle s) phase;
         radius = glm_max (sd_initial_radius d) 0;
         p = \<lparr> vx = f_mul (sm_cos T angle) radius, vy = f_mul (sm_sin T angle) radius, vz = 0 \<rparr>;
         e = spawned_entity (make_entity_id orbit_namespace (of_nat i)) p (sd_half_extent d)
     in s \<lparr> os_entities := map_put (ho_id e) \<lparr> oe_entity = e, oe_phase = phase \<rparr> (os_entities s) \<rparr>)"

definition orbit_seed :: "sim_math \<Rightarrow> seed_options \<Rightarrow> orbit_sim \<Rightarrow> orbit_sim" where
  "orbit_seed T d s =
    (if unat (sd_desired_count d) \<le> length (os_entities s) then s
     else foldl (orbit_seed_one T d) s [length (os_entities s)..<unat (sd_desired_count d)])"

definition orbit_adopt :: "sim_math \<Rightarrow> ho_entity \<Rightarrow> orbit_sim \<Rightarrow> orbit_sim" where
  "orbit_adopt T e s =
    (let p = tr_position (ho_transform e);
         phase = (if f_gt (f_abs (vx p)) 0x38D1B717 \<or> f_gt (f_abs (vy p)) 0x38D1B717
                  then f_sub (sm_atan2 T (vy p) (vx p)) (os_angle s) else 0)
     in s \<lparr> os_entities := map_put (ho_id e) \<lparr> oe_entity = e, oe_phase = phase \<rparr> (os_entities s) \<rparr>)"

definition orbit_remove :: "u64 \<Rightarrow> orbit_sim \<Rightarrow> orbit_sim" where
  "orbit_remove i s = s \<lparr> os_entities := map_erase i (os_entities s) \<rparr>"

definition orbit_step :: "sim_math \<Rightarrow> tick_options \<Rightarrow> f32 \<Rightarrow> orbit_entity \<Rightarrow> orbit_entity" where
  "orbit_step T d orbit_angle x =
    (let angle = f_add orbit_angle (oe_phase x);
         p = \<lparr> vx = f_mul (sm_cos T angle) (to_radius d), vy = f_mul (sm_sin T angle) (to_radius d),
                vz = vz (tr_position (ho_transform (oe_entity x))) \<rparr>
     in x \<lparr> oe_entity := move_entity p 0x3F000000 (oe_entity x) \<rparr>)"

definition orbit_tick :: "sim_math \<Rightarrow> tick_options \<Rightarrow> orbit_sim \<Rightarrow> orbit_sim" where
  "orbit_tick T d s =
    (let dt = f_clamp (to_delta_seconds d) 0 0x3E800000;
         angle = f_add (os_angle s) (f_mul dt (to_angular_speed d))
     in s \<lparr> os_angle := angle, os_entities := map (\<lambda>(i, x). (i, orbit_step T d angle x)) (os_entities s) \<rparr>)"

definition orbit_snapshot :: "orbit_sim \<Rightarrow> ho_entity list" where
  "orbit_snapshot s = map (\<lambda>(i, x). oe_entity x) (os_entities s)"

definition orbit_count :: "orbit_sim \<Rightarrow> nat" where
  "orbit_count s = length (os_entities s)"

definition orbit_ops :: "sim_math \<Rightarrow> orbit_sim sim_ops" where
  "orbit_ops T = \<lparr> so_reset = orbit_reset, so_seed = (\<lambda>d s. Inr (orbit_seed T d s)), so_adopt = orbit_adopt T,
     so_remove = orbit_remove, so_tick = (\<lambda>d s. Inr (orbit_tick T d s)), so_snapshot = orbit_snapshot, so_count = orbit_count \<rparr>"

section \<open>Bouncing\<close>

record linear_entity =
  le_entity :: ho_entity
  le_velocity :: vec3
  le_half_extent :: f32

record linear_sim =
  ls_entities :: "(u64 \<times> linear_entity) list"
  ls_draws :: nat
  ls_perimeter :: aabb
  ls_valid :: bool
  ls_last_refresh :: "int option"

text \<open>What a call sees of the outside: the time, the bounds of the manifest and the active type.\<close>

record linear_env =
  lv_now_ms :: int
  lv_claimed :: "grid_shape list"
  lv_pending :: "grid_shape list"
  lv_active :: heuristic_type
  lv_writers :: "(u32 \<Rightarrow> writer option) \<Rightarrow> (u32 \<times> writer) list"

definition linear_namespace :: u64 where
  "linear_namespace = 0xB01A7EED00000000"

definition linear_reset :: "linear_sim \<Rightarrow> linear_sim" where
  "linear_reset s = s \<lparr> ls_entities := [], ls_valid := False, ls_last_refresh := None \<rparr>"

text \<open>The loop of \<open>ReflectAxis\<close>, at most four turns.\<close>

fun reflect_loop :: "nat \<Rightarrow> f32 \<Rightarrow> f32 \<Rightarrow> f32 \<Rightarrow> f32 \<Rightarrow> f32 \<times> f32" where
  "reflect_loop 0 position velocity lo hi = (position, velocity)"
| "reflect_loop (Suc n) position velocity lo hi =
    (if f_lt position lo then reflect_loop n (f_add lo (f_sub lo position)) (f_abs velocity) lo hi
     else if f_gt position hi then reflect_loop n (f_sub hi (f_sub position hi)) (f_neg (f_abs velocity)) lo hi
     else (position, velocity))"

definition reflect_axis :: "f32 \<Rightarrow> f32 \<Rightarrow> f32 \<Rightarrow> f32 \<Rightarrow> f32 \<times> f32" where
  "reflect_axis position velocity lo hi =
    (if f_gt lo hi then (f_mul (f_add lo hi) 0x3F000000, 0)
     else let (position, velocity) = reflect_loop 4 position velocity lo hi
          in (f_clamp position lo hi, velocity))"

text \<open>Expanding a box that may not be there yet.\<close>

definition join_box :: "aabb option \<Rightarrow> aabb \<Rightarrow> aabb option" where
  "join_box c b = Some (case c of None \<Rightarrow> aabb_of_corners (bmin b) (bmax b) | Some a \<Rightarrow> aabb_expand_box b a)"

text \<open>The bounds of a grid that was never computed: there are none.\<close>

definition rebuild_configured_world :: "linear_env \<Rightarrow> aabb option res" where
  "rebuild_configured_world V =
    (if lv_active V \<noteq> HGridCell then Inr None
     else let ws = lv_writers V (grid_serialize_bounds grid_new)
          in if ws = [] then Inr None
             else bindE (mapE (\<lambda>(i, w). bindE (grid_shape_des (br_new (bw_bytes w))) (\<lambda>(s, _). Inr (gs_aabb s))) ws)
               (\<lambda>bs. let c = foldl join_box None bs
                     in Inr (case c of None \<Rightarrow> None | Some b \<Rightarrow> if aabb_valid b then Some b else None)))"

definition rebuild_perimeter :: "linear_env \<Rightarrow> linear_sim \<Rightarrow> linear_sim res" where
  "rebuild_perimeter V s =
    bindE (rebuild_configured_world V) (\<lambda>configured.
      let c = foldl join_box None (map gs_aabb (lv_claimed V));
          c = foldl join_box c (map gs_aabb (lv_pending V));
          c = (case configured of
                 None \<Rightarrow> c
               | Some w \<Rightarrow> Some (case c of None \<Rightarrow> w | Some a \<Rightarrow> aabb_expand_box w a));
          b = (case c of
                 Some a \<Rightarrow> if aabb_valid a then a
                   else aabb_from_center_extents [0, 0, 0] [0x42480000, 0x42480000, 0]
               | None \<Rightarrow> aabb_from_center_extents [0, 0, 0] [0x42480000, 0x42480000, 0])
      in Inr (s \<lparr> ls_perimeter := b, ls_valid := True \<rparr>))"

definition refresh_perimeter :: "linear_env \<Rightarrow> int \<Rightarrow> linear_sim \<Rightarrow> linear_sim res" where
  "refresh_perimeter V interval s =
    (case ls_last_refresh s of
       Some prev \<Rightarrow>
         if 0 < interval \<and> lv_now_ms V - prev < interval then Inr s
         else rebuild_perimeter V (s \<lparr> ls_last_refresh := Some (lv_now_ms V) \<rparr>)
     | None \<Rightarrow> rebuild_perimeter V (s \<lparr> ls_last_refresh := Some (lv_now_ms V) \<rparr>))"

definition linear_draw :: "sim_math \<Rightarrow> f32 \<Rightarrow> f32 \<Rightarrow> linear_sim \<Rightarrow> f32 \<times> linear_sim" where
  "linear_draw T lo hi s = (sm_draw T (ls_draws s) lo hi, s \<lparr> ls_draws := Suc (ls_draws s) \<rparr>)"

definition random_velocity :: "sim_math \<Rightarrow> f32 \<Rightarrow> linear_sim \<Rightarrow> vec3 \<times> linear_sim" where
  "random_velocity T speed_units s =
    (let speed = glm_max speed_units 0;
         (angle, s) = linear_draw T 0 two_pi s
     in (\<lparr> vx = f_mul (sm_cos T angle) speed, vy = f_mul (sm_sin T angle) speed, vz = 0 \<rparr>, s))"

text \<open>The limits for the centre of an entity along one axis.\<close>

definition axis_limits :: "linear_sim \<Rightarrow> f32 \<Rightarrow> nat \<Rightarrow> f32 \<times> f32" where
  "axis_limits s h k = (f_add (bmin (ls_perimeter s) ! k) h, f_sub (bmax (ls_perimeter s) ! k) h)"

definition random_spawn_position :: "sim_math \<Rightarrow> f32 \<Rightarrow> linear_sim \<Rightarrow> vec3 \<times> linear_sim" where
  "random_spawn_position T h s =
    (if \<not> ls_valid s then (\<lparr> vx = 0, vy = 0, vz = 0 \<rparr>, s)
     else
       let (minX, maxX) = axis_limits s h 0; (minY, maxY) = axis_limits s h 1;
           c = aabb_center (ls_perimeter s);
           (x, s) = (if f_le minX maxX then linear_draw T minX maxX s else (c ! 0, s));
           (y, s) = (if f_le minY maxY then linear_draw T minY maxY s else (c ! 1, s))
       in (\<lparr> vx = x, vy = y, vz = c ! 2 \<rparr>, s))"

definition linear_seed_one :: "sim_math \<Rightarrow> seed_options \<Rightarrow> linear_sim \<Rightarrow> nat \<Rightarrow> linear_sim" where
  "linear_seed_one T d s i =
    (let h = glm_max (sd_half_extent d) 0x3C23D70A;
         (p, s) = (if sd_randomize_position d then random_spawn_position T h s
                   else (\<lparr> vx = 0, vy = 0, vz = 0 \<rparr>, s));
         e = spawned_entity (make_entity_id linear_namespace (of_nat i)) p h;
         (v, s) = (if sd_randomize_direction d then random_velocity T (sd_speed d) s
                   else (\<lparr> vx = sd_speed d, vy = 0, vz = 0 \<rparr>, s))
     in s \<lparr> ls_entities := map_put (ho_id e) \<lparr> le_entity = e, le_velocity = v, le_half_extent = h \<rparr> (ls_entities s) \<rparr>)"

definition linear_seed :: "sim_math \<Rightarrow> linear_env \<Rightarrow> seed_options \<Rightarrow> linear_sim \<Rightarrow> linear_sim res" where
  "linear_seed T V d s =
    (if unat (sd_desired_count d) \<le> length (ls_entities s) then Inr s
     else bindE (refresh_perimeter V 0 s) (\<lambda>s.
       Inr (foldl (linear_seed_one T d) s [length (ls_entities s)..<unat (sd_desired_count d)])))"

definition linear_adopt :: "sim_math \<Rightarrow> ho_entity \<Rightarrow> linear_sim \<Rightarrow> linear_sim" where
  "linear_adopt T e s =
    (let x = aabb_half_extents (tr_bounding_box (ho_transform e)) ! 0;
         h = glm_max 0x3C23D70A (if f_gt x 0 then x else 0x3F000000);
         (v, s) = (case map_of (ls_entities s) (ho_id e) of
                     Some old \<Rightarrow> (le_velocity old, s)
                   | None \<Rightarrow> random_velocity T 0x41900000 s)
     in s \<lparr> ls_entities := map_put (ho_id e) \<lparr> le_entity = e, le_velocity = v, le_half_extent = h \<rparr> (ls_entities s) \<rparr>)"

definition linear_remove :: "u64 \<Rightarrow> linear_sim \<Rightarrow> linear_sim" where
  "linear_remove i s = s \<lparr> ls_entities := map_erase i (ls_entities s) \<rparr>"

definition reflect_on_perimeter :: "linear_sim \<Rightarrow> vec3 \<times> vec3 \<times> f32 \<Rightarrow> vec3 \<times> vec3" where
  "reflect_on_perimeter s = (\<lambda>(p, v, h).
    if \<not> ls_valid s then (p, v)
    else
      let (minX, maxX) = axis_limits s h 0; (minY, maxY) = axis_limits s h 1;
          (px, vx') = reflect_axis (vx p) (vx v) minX maxX;
          (py, vy') = reflect_axis (vy p) (vy v) minY maxY
      in (p \<lparr> vx := px, vy := py \<rparr>, v \<lparr> vx := vx', vy := vy' \<rparr>))"

definition linear_step :: "linear_sim \<Rightarrow> f32 \<Rightarrow> linear_entity \<Rightarrow> linear_entity" where
  "linear_step s dt x =
    (let p = tr_position (ho_transform (le_entity x)); v = le_velocity x;
         p = \<lparr> vx = f_add (vx p) (f_mul (vx v) dt), vy = f_add (vy p) (f_mul (vy v) dt),
                vz = f_add (vz p) (f_mul (vz v) dt) \<rparr>;
         (p, v) = reflect_on_perimeter s (p, v, le_half_extent x)
     in x \<lparr> le_entity := move_entity p (le_half_extent x) (le_entity x), le_velocity := v \<rparr>)"

definition linear_tick :: "linear_env \<Rightarrow> tick_options \<Rightarrow> linear_sim \<Rightarrow> linear_sim res" where
  "linear_tick V d s =
    bindE (refresh_perimeter V (to_refresh_ms d) s) (\<lambda>s.
      let dt = f_clamp (to_delta_seconds d) 0 0x3E800000
      in Inr (s \<lparr> ls_entities := map (\<lambda>(i, x). (i, linear_step s dt x)) (ls_entities s) \<rparr>))"

definition linear_snapshot :: "linear_sim \<Rightarrow> ho_entity list" where
  "linear_snapshot s = map (\<lambda>(i, x). le_entity x) (ls_entities s)"

definition linear_count :: "linear_sim \<Rightarrow> nat" where
  "linear_count s = length (ls_entities s)"

definition linear_ops :: "sim_math \<Rightarrow> linear_env \<Rightarrow> linear_sim sim_ops" where
  "linear_ops T V = \<lparr> so_reset = linear_reset, so_seed = linear_seed T V, so_adopt = linear_adopt T,
     so_remove = linear_remove, so_tick = linear_tick V, so_snapshot = linear_snapshot, so_count = linear_count \<rparr>"

section \<open>What the handoff relies on\<close>

definition sim_ids :: "'s sim_ops \<Rightarrow> 's \<Rightarrow> u64 set" where
  "sim_ids S s = ho_id ` set (so_snapshot S s)"

locale simulator =
  fixes S :: "'s sim_ops" and inv :: "'s \<Rightarrow> bool"
  assumes reset: "inv (so_reset S s) \<and> sim_ids S (so_reset S s) = {}"
    and seed: "inv s \<Longrightarrow> so_seed S d s = Inr s' \<Longrightarrow> inv s' \<and> sim_ids S s \<subseteq> sim_ids S s'"
    and adopt: "inv s \<Longrightarrow> inv (so_adopt S e s) \<and> sim_ids S (so_adopt S e s) = insert (ho_id e) (sim_ids S s)"
    and remove: "inv s \<Longrightarrow> inv (so_remove S i s) \<and> sim_ids S (so_remove S i s) = sim_ids S s - {i}"
    and tick: "inv s \<Longrightarrow> so_tick S t s = Inr s' \<Longrightarrow> inv s' \<and> sim_ids S s' = sim_ids S s"
    and distinct_ids: "inv s \<Longrightarrow> distinct (map ho_id (so_snapshot S s))"
    and count: "so_count S s = length (so_snapshot S s)"
begin

lemma count_card: "inv s \<Longrightarrow> so_count S s = card (sim_ids S s)"
  using distinct_card [OF distinct_ids] by (simp add: count sim_ids_def)

text \<open>Adopting again or removing twice changes nothing more.\<close>

lemma adopt_known: "inv s \<Longrightarrow> ho_id e \<in> sim_ids S s \<Longrightarrow> so_count S (so_adopt S e s) = so_count S s"
  by (simp add: count_card adopt insert_absorb)

lemma remove_absent: "inv s \<Longrightarrow> i \<notin> sim_ids S s \<Longrightarrow> so_count S (so_remove S i s) = so_count S s"
  by (simp add: count_card remove)

end

text \<open>Both keep their entities in a map from the id.\<close>

definition keyed :: "('v \<Rightarrow> ho_entity) \<Rightarrow> (u64 \<times> 'v) list \<Rightarrow> bool" where
  "keyed f m \<longleftrightarrow> distinct (map fst m) \<and> (\<forall>(i, x)\<in>set m. ho_id (f x) = i)"

lemma keyed_nil [simp]: "keyed f []"
  by (simp add: keyed_def)

lemma keyed_ids: "keyed f m \<Longrightarrow> map (\<lambda>x. ho_id (f (snd x))) m = map fst m"
  by (auto simp: keyed_def)

lemma set_put: "distinct (map fst m) \<Longrightarrow> set (map_put k v m) = insert (k, v) {x \<in> set m. fst x \<noteq> k}"
proof -
  assume d: "distinct (map fst m)"
  have "(i, x) \<in> set (map_put k v m) \<longleftrightarrow> (i, x) \<in> insert (k, v) {x \<in> set m. fst x \<noteq> k}" for i x
    using map_of_eq_Some_iff [OF distinct_put [OF d], of k v i x] map_of_eq_Some_iff [OF d, of i x] by (auto split: if_splits)
  then show ?thesis by auto
qed

lemma keyed_put: "keyed f m \<Longrightarrow> ho_id (f v) = k \<Longrightarrow> keyed f (map_put k v m)"
  by (auto simp: keyed_def distinct_put set_put)

lemma keyed_erase: "keyed f m \<Longrightarrow> keyed f (map_erase k m)"
  by (auto simp: keyed_def distinct_erase) (auto simp: map_erase_def)

lemma keyed_map: "keyed f m \<Longrightarrow> (\<And>x. ho_id (f (g x)) = ho_id (f x)) \<Longrightarrow> keyed f (map (\<lambda>(i, x). (i, g x)) m)"
  by (auto simp: keyed_def comp_def case_prod_beta)

lemma fst_set_map: "fst ` set (map (\<lambda>(i, x). (i, g x)) m) = fst ` set m"
  by force

definition orbit_inv :: "orbit_sim \<Rightarrow> bool" where
  "orbit_inv s \<longleftrightarrow> keyed oe_entity (os_entities s)"

definition linear_inv :: "linear_sim \<Rightarrow> bool" where
  "linear_inv s \<longleftrightarrow> keyed le_entity (ls_entities s)"

lemma orbit_ids: "orbit_inv s \<Longrightarrow> map ho_id (orbit_snapshot s) = map fst (os_entities s)"
  using keyed_ids by (simp add: orbit_inv_def orbit_snapshot_def case_prod_beta comp_def)

lemma linear_ids: "linear_inv s \<Longrightarrow> map ho_id (linear_snapshot s) = map fst (ls_entities s)"
  using keyed_ids by (simp add: linear_inv_def linear_snapshot_def case_prod_beta comp_def)

lemma sim_ids_orbit: "orbit_inv s \<Longrightarrow> sim_ids (orbit_ops T) s = fst ` set (os_entities s)"
  unfolding sim_ids_def orbit_ops_def sim_ops.simps using orbit_ids [of s] by (metis set_map)

lemma sim_ids_linear: "linear_inv s \<Longrightarrow> sim_ids (linear_ops T V) s = fst ` set (ls_entities s)"
  unfolding sim_ids_def linear_ops_def sim_ops.simps using linear_ids [of s] by (metis set_map)

lemma moved_id [simp]: "ho_id (move_entity p h e) = ho_id e"
  by (simp add: move_entity_def)

lemma stepped_ids [simp]:
  "ho_id (oe_entity (orbit_step T d a x)) = ho_id (oe_entity x)"
  "ho_id (le_entity (linear_step s dt y)) = ho_id (le_entity y)"
  by (simp_all add: orbit_step_def linear_step_def Let_def case_prod_beta)

lemma orbit_seed_one_ids:
  assumes "orbit_inv s"
  shows "orbit_inv (orbit_seed_one T d s i)"
    and "fst ` set (os_entities (orbit_seed_one T d s i)) = insert (make_entity_id orbit_namespace (of_nat i)) (fst ` set (os_entities s))"
  using assms by (auto simp: orbit_inv_def orbit_seed_one_def Let_def spawned_entity_def fst_put split: if_splits intro!: keyed_put)

lemma orbit_seed_ids:
  assumes "orbit_inv s"
  shows "orbit_inv (orbit_seed T d s) \<and> fst ` set (os_entities s) \<subseteq> fst ` set (os_entities (orbit_seed T d s))"
proof -
  have "orbit_inv (foldl (orbit_seed_one T d) s is) \<and>
      fst ` set (os_entities s) \<subseteq> fst ` set (os_entities (foldl (orbit_seed_one T d) s is))" for "is"
    using assms
  proof (induction "is" arbitrary: s)
    case (Cons i "is")
    from Cons.IH [OF orbit_seed_one_ids(1) [OF Cons.prems, of T d i]] show ?case
      using orbit_seed_one_ids(2) [OF Cons.prems, of T d i] by simp
  qed simp
  then show ?thesis using assms by (simp add: orbit_seed_def)
qed

text \<open>One tick moves every entity and keeps the keys; the table of either simulation.\<close>

lemma orbit_tick_entities:
  "\<exists>g. os_entities (orbit_tick T t s) = map (\<lambda>(i, x). (i, orbit_step T t g x)) (os_entities s)"
  by (rule exI [of _ "f_add (os_angle s) (f_mul (f_clamp (to_delta_seconds t) 0 0x3E800000) (to_angular_speed t))"])
    (simp add: orbit_tick_def Let_def)

lemma orbit_tick_ids:
  assumes "orbit_inv s"
  shows "orbit_inv (orbit_tick T t s)" and "fst ` set (os_entities (orbit_tick T t s)) = fst ` set (os_entities s)"
proof -
  obtain g where e: "os_entities (orbit_tick T t s) = map (\<lambda>(i, x). (i, orbit_step T t g x)) (os_entities s)"
    using orbit_tick_entities [of T t s] by blast
  show "orbit_inv (orbit_tick T t s)" using assms unfolding orbit_inv_def e by (rule keyed_map) simp
  show "fst ` set (os_entities (orbit_tick T t s)) = fst ` set (os_entities s)" unfolding e by (rule fst_set_map)
qed

lemma orbit_updates:
  assumes "orbit_inv s"
  shows "orbit_inv (orbit_adopt T e s)" "fst ` set (os_entities (orbit_adopt T e s)) = insert (ho_id e) (fst ` set (os_entities s))"
    and "orbit_inv (orbit_remove i s)" "fst ` set (os_entities (orbit_remove i s)) = fst ` set (os_entities s) - {i}"
  using assms by (auto simp: orbit_inv_def orbit_adopt_def orbit_remove_def Let_def keyed_put keyed_erase fst_put fst_erase)

interpretation orbit: simulator "orbit_ops T" orbit_inv for T
proof unfold_locales
  fix s d s' assume s: "orbit_inv s"
  show "so_seed (orbit_ops T) d s = Inr s' \<Longrightarrow> orbit_inv s' \<and> sim_ids (orbit_ops T) s \<subseteq> sim_ids (orbit_ops T) s'"
    using orbit_seed_ids [OF s, of T d] sim_ids_orbit [OF s, of T] sim_ids_orbit [of s' T] by (auto simp: orbit_ops_def)
  show "so_tick (orbit_ops T) t s = Inr s' \<Longrightarrow> orbit_inv s' \<and> sim_ids (orbit_ops T) s' = sim_ids (orbit_ops T) s" for t
    using orbit_tick_ids [OF s, of T t] sim_ids_orbit [OF s, of T] sim_ids_orbit [of s' T] by (auto simp: orbit_ops_def)
  show "orbit_inv (so_adopt (orbit_ops T) e s) \<and>
      sim_ids (orbit_ops T) (so_adopt (orbit_ops T) e s) = insert (ho_id e) (sim_ids (orbit_ops T) s)" for e
    using orbit_updates(1,2) [OF s, of T e] sim_ids_orbit [OF s, of T] sim_ids_orbit [of "orbit_adopt T e s" T] by (auto simp: orbit_ops_def)
  show "orbit_inv (so_remove (orbit_ops T) i s) \<and>
      sim_ids (orbit_ops T) (so_remove (orbit_ops T) i s) = sim_ids (orbit_ops T) s - {i}" for i
    using orbit_updates(3,4) [OF s, of i] sim_ids_orbit [OF s, of T] sim_ids_orbit [of "orbit_remove i s" T] by (auto simp: orbit_ops_def)
  show "distinct (map ho_id (so_snapshot (orbit_ops T) s))"
    using s orbit_ids [OF s] by (simp add: orbit_ops_def orbit_inv_def keyed_def)
next
  fix s :: orbit_sim
  show "orbit_inv (so_reset (orbit_ops T) s) \<and> sim_ids (orbit_ops T) (so_reset (orbit_ops T) s) = {}"
    by (simp add: orbit_ops_def orbit_reset_def orbit_inv_def sim_ids_def orbit_snapshot_def)
  show "so_count (orbit_ops T) s = length (so_snapshot (orbit_ops T) s)"
    by (simp add: orbit_ops_def orbit_count_def orbit_snapshot_def)
qed

text \<open>The world of the bouncing entities does not change their table.\<close>

lemma rebuild_keeps: "rebuild_perimeter V s = Inr s' \<Longrightarrow> ls_entities s' = ls_entities s"
  by (auto simp: rebuild_perimeter_def Let_def bindE_def split: sum.splits)

lemma refresh_keeps: "refresh_perimeter V n s = Inr s' \<Longrightarrow> ls_entities s' = ls_entities s"
  by (auto simp: refresh_perimeter_def dest!: rebuild_keeps split: option.splits if_splits)

lemma draw_keeps: "ls_entities (snd (linear_draw T lo hi s)) = ls_entities s"
  by (simp add: linear_draw_def)

lemma velocity_keeps: "ls_entities (snd (random_velocity T v s)) = ls_entities s"
  by (simp add: random_velocity_def linear_draw_def Let_def)

lemma spawn_keeps: "ls_entities (snd (random_spawn_position T h s)) = ls_entities s"
  by (auto simp: random_spawn_position_def linear_draw_def axis_limits_def Let_def)

lemma linear_seed_one_ids:
  assumes "linear_inv s"
  shows "linear_inv (linear_seed_one T d s i)"
    and "fst ` set (ls_entities (linear_seed_one T d s i)) = insert (make_entity_id linear_namespace (of_nat i)) (fst ` set (ls_entities s))"
  using assms velocity_keeps [of T "sd_speed d"] spawn_keeps [of T "glm_max (sd_half_extent d) 0x3C23D70A" s]
  by (auto simp: linear_inv_def linear_seed_one_def Let_def spawned_entity_def fst_put case_prod_beta intro!: keyed_put)

lemma linear_seed_ids:
  assumes "linear_inv s" "linear_seed T V d s = Inr s'"
  shows "linear_inv s' \<and> fst ` set (ls_entities s) \<subseteq> fst ` set (ls_entities s')"
proof -
  have fold: "linear_inv (foldl (linear_seed_one T d) s is) \<and>
      fst ` set (ls_entities s) \<subseteq> fst ` set (ls_entities (foldl (linear_seed_one T d) s is))" if "linear_inv s" for s "is"
    using that
  proof (induction "is" arbitrary: s)
    case (Cons i "is")
    from Cons.IH [OF linear_seed_one_ids(1) [OF Cons.prems, of T d i]] show ?case
      using linear_seed_one_ids(2) [OF Cons.prems, of T d i] by simp
  qed simp
  show ?thesis
  proof (cases "unat (sd_desired_count d) \<le> length (ls_entities s)")
    case True then show ?thesis using assms by (simp add: linear_seed_def)
  next
    case False
    then obtain u where u: "refresh_perimeter V 0 s = Inr u"
        "s' = foldl (linear_seed_one T d) u [length (ls_entities u)..<unat (sd_desired_count d)]"
      using assms(2) by (auto simp: linear_seed_def bindE_def split: sum.splits)
    have k: "ls_entities u = ls_entities s" by (rule refresh_keeps [OF u(1)])
    then have "linear_inv u" using assms(1) by (simp add: linear_inv_def)
    from fold [OF this, of "[length (ls_entities u)..<unat (sd_desired_count d)]"] show ?thesis by (simp add: u(2) k)
  qed
qed

lemma linear_tick_ids:
  assumes "linear_inv s" "linear_tick V t s = Inr s'"
  shows "linear_inv s'" and "fst ` set (ls_entities s') = fst ` set (ls_entities s)"
proof -
  obtain u where u: "refresh_perimeter V (to_refresh_ms t) s = Inr u"
      "ls_entities s' = map (\<lambda>(i, x). (i, linear_step u (f_clamp (to_delta_seconds t) 0 0x3E800000) x)) (ls_entities u)"
    using assms(2) by (auto simp: linear_tick_def Let_def bindE_def split: sum.splits)
  have k: "ls_entities u = ls_entities s" by (rule refresh_keeps [OF u(1)])
  show "linear_inv s'" using assms(1) unfolding linear_inv_def u(2) k by (rule keyed_map) simp
  show "fst ` set (ls_entities s') = fst ` set (ls_entities s)" unfolding u(2) k by (rule fst_set_map)
qed

lemma linear_updates:
  assumes "linear_inv s"
  shows "linear_inv (linear_adopt T e s)" "fst ` set (ls_entities (linear_adopt T e s)) = insert (ho_id e) (fst ` set (ls_entities s))"
    and "linear_inv (linear_remove i s)" "fst ` set (ls_entities (linear_remove i s)) = fst ` set (ls_entities s) - {i}"
  using assms velocity_keeps [of T "0x41900000" s]
  by (auto simp: linear_inv_def linear_adopt_def linear_remove_def Let_def keyed_put keyed_erase fst_put fst_erase case_prod_beta split: option.splits)

interpretation linear: simulator "linear_ops T V" linear_inv for T V
proof unfold_locales
  fix s d s' assume s: "linear_inv s"
  show "so_seed (linear_ops T V) d s = Inr s' \<Longrightarrow> linear_inv s' \<and> sim_ids (linear_ops T V) s \<subseteq> sim_ids (linear_ops T V) s'"
    using linear_seed_ids [OF s, of T V d s'] sim_ids_linear [OF s, of T V] sim_ids_linear [of s' T V] by (auto simp: linear_ops_def)
  show "so_tick (linear_ops T V) t s = Inr s' \<Longrightarrow> linear_inv s' \<and> sim_ids (linear_ops T V) s' = sim_ids (linear_ops T V) s" for t
    using linear_tick_ids [OF s, of V t s'] sim_ids_linear [OF s, of T V] sim_ids_linear [of s' T V] by (auto simp: linear_ops_def)
  show "linear_inv (so_adopt (linear_ops T V) e s) \<and>
      sim_ids (linear_ops T V) (so_adopt (linear_ops T V) e s) = insert (ho_id e) (sim_ids (linear_ops T V) s)" for e
    using linear_updates(1,2) [OF s, of T e] sim_ids_linear [OF s, of T V] sim_ids_linear [of "linear_adopt T e s" T V] by (auto simp: linear_ops_def)
  show "linear_inv (so_remove (linear_ops T V) i s) \<and>
      sim_ids (linear_ops T V) (so_remove (linear_ops T V) i s) = sim_ids (linear_ops T V) s - {i}" for i
    using linear_updates(3,4) [OF s, of i] sim_ids_linear [OF s, of T V] sim_ids_linear [of "linear_remove i s" T V] by (auto simp: linear_ops_def)
  show "distinct (map ho_id (so_snapshot (linear_ops T V) s))"
    using s linear_ids [OF s] by (simp add: linear_ops_def linear_inv_def keyed_def)
next
  fix s :: linear_sim
  show "linear_inv (so_reset (linear_ops T V) s) \<and> sim_ids (linear_ops T V) (so_reset (linear_ops T V) s) = {}"
    by (simp add: linear_ops_def linear_reset_def linear_inv_def sim_ids_def linear_snapshot_def)
  show "so_count (linear_ops T V) s = length (so_snapshot (linear_ops T V) s)"
    by (simp add: linear_ops_def linear_count_def linear_snapshot_def)
qed

section \<open>Inside the world\<close>

lemma clamp_range: "\<not> f_lt hi lo \<Longrightarrow> \<not> f_lt (f_clamp v lo hi) lo \<and> \<not> f_lt hi (f_clamp v lo hi)"
  by (auto simp: f_clamp_def f_lt_irrefl)

lemma reflect_range: "\<not> f_lt hi lo \<Longrightarrow>
    \<not> f_lt (fst (reflect_axis p v lo hi)) lo \<and> \<not> f_lt hi (fst (reflect_axis p v lo hi))"
  using clamp_range [of hi lo "fst (reflect_loop 4 p v lo hi)"]
  by (simp add: reflect_axis_def f_gt_def case_prod_beta del: reflect_loop.simps)

lemma perimeter_range:
  assumes "ls_valid s" "axis_limits s h 0 = (x0, x1)" "axis_limits s h 1 = (y0, y1)"
    and "reflect_on_perimeter s (p, v, h) = (p', v')"
  shows "\<not> f_lt x1 x0 \<Longrightarrow> \<not> f_lt (vx p') x0 \<and> \<not> f_lt x1 (vx p')"
    and "\<not> f_lt y1 y0 \<Longrightarrow> \<not> f_lt (vy p') y0 \<and> \<not> f_lt y1 (vy p')"
  using assms reflect_range [of x1 x0 "vx p" "vx v"] reflect_range [of y1 y0 "vy p" "vy v"]
  by (auto simp: reflect_on_perimeter_def case_prod_beta)

lemma stepped_range:
  fixes x :: linear_entity and s :: linear_sim and dt :: f32
  defines "q \<equiv> tr_position (ho_transform (le_entity (linear_step s dt x)))"
  assumes "ls_valid s" "axis_limits s (le_half_extent x) 0 = (x0, x1)" "axis_limits s (le_half_extent x) 1 = (y0, y1)"
    "\<not> f_lt x1 x0" "\<not> f_lt y1 y0"
  shows "\<not> f_lt (vx q) x0 \<and> \<not> f_lt x1 (vx q) \<and> \<not> f_lt (vy q) y0 \<and> \<not> f_lt y1 (vy q)"
proof -
  let ?p = "tr_position (ho_transform (le_entity x))" and ?v = "le_velocity x"
  let ?m = "\<lparr> vx = f_add (vx ?p) (f_mul (vx ?v) dt), vy = f_add (vy ?p) (f_mul (vy ?v) dt),
                vz = f_add (vz ?p) (f_mul (vz ?v) dt) \<rparr>"
  obtain p' v' where r: "reflect_on_perimeter s (?m, ?v, le_half_extent x) = (p', v')" by fastforce
  then have "q = p'" unfolding q_def linear_step_def Let_def by (simp add: move_entity_def)
  then show ?thesis using perimeter_range [OF assms(2-4) r] assms(5,6) by simp
qed

text \<open>C40: After a tick of the bouncing simulation that has a perimeter (the tick found bounds to make it of)
  every entity is inside it in \<open>x\<close> and in \<open>y\<close>, less its half extent: on these two axes its centre is
  neither below the lower nor above the upper limit, however fast it was, wherever it was before and whether
  or not the four reflections were enough. The limits of both axes must be in order, as they are when the
  entity fits into the world. The code reflects nothing in \<open>z\<close>, where an entity can be anywhere.\<close>

theorem bouncing_stays_inside:
  assumes "linear_tick V t s = Inr s'" and "ls_valid s'" and "(i, x) \<in> set (ls_entities s')"
    and "axis_limits s' (le_half_extent x) 0 = (x0, x1)" "axis_limits s' (le_half_extent x) 1 = (y0, y1)"
    and "\<not> f_lt x1 x0" "\<not> f_lt y1 y0"
  shows "\<not> f_lt (vx (tr_position (ho_transform (le_entity x)))) x0 \<and> \<not> f_lt x1 (vx (tr_position (ho_transform (le_entity x)))) \<and>
    \<not> f_lt (vy (tr_position (ho_transform (le_entity x)))) y0 \<and> \<not> f_lt y1 (vy (tr_position (ho_transform (le_entity x))))"
proof -
  define dt where "dt = f_clamp (to_delta_seconds t) 0 0x3E800000"
  obtain u where s': "s' = u \<lparr> ls_entities := map (\<lambda>(i, x). (i, linear_step u dt x)) (ls_entities u) \<rparr>"
    using assms(1) by (auto simp: linear_tick_def Let_def bindE_def dt_def split: sum.splits)
  then obtain y where y: "x = linear_step u dt y" using assms(3) by auto
  have h: "le_half_extent x = le_half_extent y"
    unfolding y linear_step_def Let_def by (simp add: case_prod_beta)
  have l: "axis_limits s' h k = axis_limits u h k" for h k by (simp add: s' axis_limits_def)
  have "ls_valid u" using assms(2) by (simp add: s')
  from stepped_range [OF this, of y x0 x1 y0 y1 dt] show ?thesis
    using assms(4-7) unfolding h l y [symmetric] by simp
qed

text \<open>An entity at \<open>x = 0\<close> with a velocity of 256 units in the default world, after a quarter of a second:
  it would be at 64, and the upper limit is 49.5.\<close>

definition bounce_env :: linear_env where
  "bounce_env = \<lparr> lv_now_ms = 0, lv_claimed = [], lv_pending = [], lv_active = HNone, lv_writers = (\<lambda>_. []) \<rparr>"

definition bouncer :: linear_entity where
  "bouncer = \<lparr> le_entity = \<lparr> ho_id = 7, ho_transform = \<lparr> tr_world = 0, tr_position = \<lparr> vx = 0, vy = 0, vz = 0 \<rparr>, tr_bounding_box = aabb_new 3 \<rparr>,
       ho_is_client = False, ho_client_id = nil_uuid, ho_metadata = [] \<rparr>,
     le_velocity = \<lparr> vx = 0x43800000, vy = 0, vz = 0 \<rparr>, le_half_extent = 0x3F000000 \<rparr>"

definition bounce_start :: linear_sim where
  "bounce_start = \<lparr> ls_entities = [(7, bouncer)], ls_draws = 0, ls_perimeter = aabb_new 3, ls_valid = False, ls_last_refresh = None \<rparr>"

definition default_world :: linear_sim where
  "default_world = \<lparr> ls_entities = [(7, bouncer)], ls_draws = 0,
     ls_perimeter = \<lparr> bmin = [0xC2480000, 0xC2480000, 0], bmax = [0x42480000, 0x42480000, 0] \<rparr>, ls_valid = True, ls_last_refresh = Some 0 \<rparr>"

definition bounced :: linear_entity where
  "bounced = linear_step default_world 0x3E800000 bouncer"

lemma bounce_tick: "linear_tick bounce_env (tick_default \<lparr> to_delta_seconds := 0x3E800000 \<rparr>) bounce_start =
    Inr (default_world \<lparr> ls_entities := [(7, bounced)] \<rparr>)"
proof -
  have "aabb_from_center_extents [0, 0, 0] [0x42480000, 0x42480000, 0] = \<lparr> bmin = [0xC2480000, 0xC2480000, 0], bmax = [0x42480000, 0x42480000, 0] \<rparr>"
    by (simp add: aabb_from_center_extents_def aabb_of_corners_def f_eval)
  then have "refresh_perimeter bounce_env 1000 bounce_start = Inr default_world"
    by (simp add: refresh_perimeter_def rebuild_perimeter_def rebuild_configured_world_def bounce_env_def bounce_start_def default_world_def)
  moreover have "f_clamp 0x3E800000 0 0x3E800000 = 0x3E800000" by (simp add: f_clamp_def f_eval)
  ultimately show ?thesis by (simp add: linear_tick_def tick_default_def bounced_def default_world_def)
qed

lemma bounce_limits:
  "axis_limits (default_world \<lparr> ls_entities := [(7, bounced)] \<rparr>) 0x3F000000 0 = (0xC2460000, 0x42460000)"
  "axis_limits (default_world \<lparr> ls_entities := [(7, bounced)] \<rparr>) 0x3F000000 1 = (0xC2460000, 0x42460000)"
  "axis_limits default_world 0x3F000000 0 = (0xC2460000, 0x42460000)"
  "axis_limits default_world 0x3F000000 1 = (0xC2460000, 0x42460000)"
  "\<not> f_lt 0x42460000 0xC2460000"
  by (simp_all add: axis_limits_def default_world_def f_eval)

lemma bounced_once: "reflect_axis 0x42800000 0x43800000 0xC2460000 0x42460000 = (0x420C0000, 0xC3800000)"
proof -
  have a: "f_sub 0x42800000 0x42460000 = 0x41680000" "f_sub 0x42460000 0x41680000 = 0x420C0000" "f_neg (f_abs 0x43800000) = 0xC3800000"
    by (simp_all add: f_eval f_abs_def)
  have b: "\<not> f_lt 0x42800000 0xC2460000" "f_lt 0x42460000 0x42800000" "\<not> f_lt 0x420C0000 0xC2460000" "\<not> f_lt 0x42460000 0x420C0000"
    by (simp_all add: f_eval)
  show ?thesis by (simp add: reflect_axis_def f_gt_def a b bounce_limits eval_nat_numeral f_clamp_def)
qed

lemma bounced_values: "le_half_extent bounced = 0x3F000000" "vx (tr_position (ho_transform (le_entity bounced))) = 0x420C0000"
proof -
  have v: "f_mul 0x43800000 0x3E800000 = 0x42800000" "f_add 0 0x42800000 = 0x42800000"
    by (simp_all add: f_eval)
  show "le_half_extent bounced = 0x3F000000" "vx (tr_position (ho_transform (le_entity bounced))) = 0x420C0000"
    by (simp_all add: bounced_def linear_step_def bouncer_def case_prod_beta reflect_on_perimeter_def bounce_limits v bounced_once move_entity_def default_world_def [THEN arg_cong [of _ _ ls_valid]])
qed

theorem bouncing_stays_inside_witness:
  "vx (tr_position (ho_transform (le_entity bounced))) = 0x420C0000 \<and>
   \<not> f_lt (vx (tr_position (ho_transform (le_entity bounced)))) 0xC2460000 \<and>
   \<not> f_lt 0x42460000 (vx (tr_position (ho_transform (le_entity bounced))))"
proof -
  have m: "(7, bounced) \<in> set (ls_entities (default_world \<lparr> ls_entities := [(7, bounced)] \<rparr>))"
      "ls_valid (default_world \<lparr> ls_entities := [(7, bounced)] \<rparr>)" by (simp_all add: default_world_def)
  show ?thesis
    using bouncing_stays_inside [OF bounce_tick m(2,1), unfolded bounced_values(1), OF bounce_limits(1,2,5,5)]
      bounced_values(2) by simp
qed

text \<open>The manifest's own boxes are all the perimeter is made of: the part that is to come from the
  configured heuristic serializes a grid that was never computed.\<close>

lemma configured_world_never_there:
  assumes "lv_writers V (\<lambda>_. None) = []"
  shows "rebuild_configured_world V = Inr None"
  using assms by (simp add: rebuild_configured_world_def grid_serialize_bounds_def grid_new_def Let_def)

end
