(* ===== verification/Handoff_Lease.thy ===== *)
theory Handoff_Lease
  imports Redis_Store Identity_Equality
begin

text \<open>
  The connections of the handoff (\<open>ServerHandoff/SH_HandoffConnectionLeaseCoordinator\<close>,
  \<open>SH_HandoffConnectionManager\<close>): for each peer the time it was last heard of and a lease in the
  database, shared by the two ends of a connection. Times are nanoseconds of the steady clock and
  parameters; the connections a call closes at the interlink are part of its result, in order.
\<close>

section \<open>Maps keyed by identities\<close>

text \<open>The keys are compared with \<open>operator==\<close>; the entries are listed in the order of insertion.\<close>

fun id_put :: "(bytes \<Rightarrow> string) \<Rightarrow> network_identity \<Rightarrow> 'v \<Rightarrow> (network_identity \<times> 'v) list \<Rightarrow> (network_identity \<times> 'v) list" where
  "id_put us k v [] = [(k, v)]"
| "id_put us k v ((k', v') # m) =
    (if nid_eq us k' k then (k', v) # m else (k', v') # id_put us k v m)"

definition id_erase :: "(bytes \<Rightarrow> string) \<Rightarrow> network_identity \<Rightarrow> (network_identity \<times> 'v) list \<Rightarrow> (network_identity \<times> 'v) list" where
  "id_erase us k m = filter (\<lambda>x. \<not> nid_eq us (fst x) k) m"

definition id_find :: "(bytes \<Rightarrow> string) \<Rightarrow> network_identity \<Rightarrow> (network_identity \<times> 'v) list \<Rightarrow> 'v option" where
  "id_find us k m = map_option snd (find (\<lambda>x. nid_eq us (fst x) k) m)"

text \<open>A set of identities.\<close>

definition id_insert :: "(bytes \<Rightarrow> string) \<Rightarrow> network_identity \<Rightarrow> network_identity list \<Rightarrow> network_identity list" where
  "id_insert us k s = (if \<exists>x\<in>set s. nid_eq us x k then s else s @ [k])"

definition id_delete :: "(bytes \<Rightarrow> string) \<Rightarrow> network_identity \<Rightarrow> network_identity list \<Rightarrow> network_identity list" where
  "id_delete us k s = filter (\<lambda>x. \<not> nid_eq us x k) s"

section \<open>Leases\<close>

record lease_options =
  lo_enabled :: bool
  lo_inactivity :: int
  lo_ttl :: int
  lo_prefix :: string

definition lease_options_default :: lease_options where
  "lease_options_default = \<lparr> lo_enabled = True, lo_inactivity = 2, lo_ttl = 25, lo_prefix = ''EntityHandoff:ConnLease:'' \<rparr>"

record lease_coordinator =
  lc_self :: network_identity
  lc_options :: lease_options
  lc_activity :: "(network_identity \<times> int) list"

definition lc_new :: "network_identity \<Rightarrow> lease_options \<Rightarrow> lease_coordinator" where
  "lc_new self opts = \<lparr> lc_self = self, lc_options = opts, lc_activity = [] \<rparr>"

definition set_lease_enabled :: "bool \<Rightarrow> lease_coordinator \<Rightarrow> lease_coordinator" where
  "set_lease_enabled b c = c \<lparr> lc_options := (lc_options c) \<lparr> lo_enabled := b \<rparr> \<rparr>"

definition build_lease_key :: "(bytes \<Rightarrow> string) \<Rightarrow> lease_coordinator \<Rightarrow> network_identity \<Rightarrow> string" where
  "build_lease_key us c peer =
    (if nid_less us (lc_self c) peer
     then lo_prefix (lc_options c) @ nid_to_string us (lc_self c) @ ''|'' @ nid_to_string us peer
     else lo_prefix (lc_options c) @ nid_to_string us peer @ ''|'' @ nid_to_string us (lc_self c))"

definition owner_value :: "(bytes \<Rightarrow> string) \<Rightarrow> lease_coordinator \<Rightarrow> bytes" where
  "owner_value us c = str_bytes (nid_to_string us (lc_self c))"

definition try_acquire_or_refresh_lease ::
  "(bytes \<Rightarrow> string) \<Rightarrow> 'db redis_connection \<Rightarrow> lease_coordinator \<Rightarrow> network_identity \<Rightarrow> 'db \<Rightarrow> bool \<times> 'db" where
  "try_acquire_or_refresh_lease us C c peer db =
    (if \<not> lo_enabled (lc_options c) then (True, db)
     else
       let lease_key = build_lease_key us c peer; current = db_get C lease_key db
       in if (case current of None \<Rightarrow> False | Some v \<Rightarrow> v \<noteq> owner_value us c) then (False, db)
          else
            let db = snd (db_set C lease_key (owner_value us c) db)
            in (True, snd (db_expire C lease_key (lo_ttl (lc_options c)) db)))"

definition release_lease_if_owned ::
  "(bytes \<Rightarrow> string) \<Rightarrow> 'db redis_connection \<Rightarrow> lease_coordinator \<Rightarrow> network_identity \<Rightarrow> 'db \<Rightarrow> 'db" where
  "release_lease_if_owned us C c peer db =
    (if \<not> lo_enabled (lc_options c) then db
     else
       let lease_key = build_lease_key us c peer; current = db_get C lease_key db
       in if (case current of None \<Rightarrow> False | Some v \<Rightarrow> v = owner_value us c)
          then snd (db_del_key C lease_key db) else db)"

text \<open>Whether the lease was acquired is not looked at.\<close>

definition mark_connection_activity ::
  "(bytes \<Rightarrow> string) \<Rightarrow> 'db redis_connection \<Rightarrow> int \<Rightarrow> network_identity \<Rightarrow> lease_coordinator \<times> 'db \<Rightarrow> lease_coordinator \<times> 'db" where
  "mark_connection_activity us C now peer = (\<lambda>(c, db).
    let c = c \<lparr> lc_activity := id_put us peer now (lc_activity c) \<rparr>
    in (c, snd (try_acquire_or_refresh_lease us C c peer db)))"

text \<open>\<open>duration_cast<seconds>\<close> truncates toward zero.\<close>

definition whole_seconds :: "int \<Rightarrow> int" where
  "whole_seconds ns = (if 0 \<le> ns then ns div 1000000000 else - (- ns div 1000000000))"

definition inactive :: "int \<Rightarrow> lease_coordinator \<Rightarrow> int \<Rightarrow> bool" where
  "inactive now c last_activity \<longleftrightarrow> lo_inactivity (lc_options c) \<le> whole_seconds (now - last_activity)"

text \<open>The loop calls \<open>onInactive\<close> and releases the lease of each inactive peer; \<open>x\<close> is what the callback
  works on.\<close>

fun reap_loop ::
  "(bytes \<Rightarrow> string) \<Rightarrow> 'db redis_connection \<Rightarrow> lease_coordinator \<Rightarrow> int \<Rightarrow> (network_identity \<Rightarrow> int \<Rightarrow> 'x \<Rightarrow> 'x) \<Rightarrow>
   (network_identity \<times> int) list \<Rightarrow> 'x \<times> 'db \<times> network_identity list \<Rightarrow> 'x \<times> 'db \<times> network_identity list" where
  "reap_loop us C c now on_inactive [] s = s"
| "reap_loop us C c now on_inactive ((peer, last_activity) # m) (x, db, to_remove) =
    (if inactive now c last_activity
     then reap_loop us C c now on_inactive m
       (on_inactive peer (whole_seconds (now - last_activity)) x, release_lease_if_owned us C c peer db, to_remove @ [peer])
     else reap_loop us C c now on_inactive m (x, db, to_remove))"

definition reap_inactive_connections ::
  "(bytes \<Rightarrow> string) \<Rightarrow> 'db redis_connection \<Rightarrow> int \<Rightarrow> (network_identity \<Rightarrow> int \<Rightarrow> 'x \<Rightarrow> 'x) \<Rightarrow>
   'x \<times> lease_coordinator \<times> 'db \<Rightarrow> 'x \<times> lease_coordinator \<times> 'db" where
  "reap_inactive_connections us C now on_inactive = (\<lambda>(x, c, db).
    let (x, db, to_remove) = reap_loop us C c now on_inactive (lc_activity c) (x, db, [])
    in (x, c \<lparr> lc_activity := foldl (\<lambda>m peer. id_erase us peer m) (lc_activity c) to_remove \<rparr>, db))"

definition lease_clear ::
  "(bytes \<Rightarrow> string) \<Rightarrow> 'db redis_connection \<Rightarrow> lease_coordinator \<times> 'db \<Rightarrow> lease_coordinator \<times> 'db" where
  "lease_clear us C = (\<lambda>(c, db).
    (c \<lparr> lc_activity := [] \<rparr>, foldl (\<lambda>db (peer, _). release_lease_if_owned us C c peer db) db (lc_activity c)))"

section \<open>The connection manager\<close>

record connection_manager =
  cm_self :: network_identity
  cm_initialized :: bool
  cm_active :: "network_identity list"
  cm_lease_mode :: bool
  cm_coordinator :: "lease_coordinator option"

definition cm_new :: connection_manager where
  "cm_new = \<lparr> cm_self = nid_new, cm_initialized = False, cm_active = [], cm_lease_mode = True, cm_coordinator = None \<rparr>"

definition cm_init :: "network_identity \<Rightarrow> connection_manager \<Rightarrow> connection_manager" where
  "cm_init self m = m \<lparr> cm_self := self, cm_active := [],
     cm_coordinator := Some (set_lease_enabled (cm_lease_mode m) (lc_new self lease_options_default)), cm_initialized := True \<rparr>"

text \<open>What the callback of \<open>Tick\<close> works on: the connections closed so far and the active ones.\<close>

definition on_inactive_peer ::
  "(bytes \<Rightarrow> string) \<Rightarrow> network_identity \<Rightarrow> int \<Rightarrow> network_identity list \<times> network_identity list \<Rightarrow>
   network_identity list \<times> network_identity list" where
  "on_inactive_peer us peer secs = (\<lambda>(closed, active). (closed @ [peer], id_delete us peer active))"

definition cm_tick ::
  "(bytes \<Rightarrow> string) \<Rightarrow> 'db redis_connection \<Rightarrow> int \<Rightarrow> connection_manager \<times> 'db \<Rightarrow>
   network_identity list \<times> connection_manager \<times> 'db" where
  "cm_tick us C now = (\<lambda>(m, db).
    case cm_coordinator m of
      None \<Rightarrow> ([], m, db)
    | Some c \<Rightarrow>
        if \<not> cm_initialized m then ([], m, db)
        else
          let ((closed, active), c, db) =
            reap_inactive_connections us C now (on_inactive_peer us) (([], cm_active m), c, db)
          in (closed, m \<lparr> cm_active := active, cm_coordinator := Some c \<rparr>, db))"

definition cm_shutdown ::
  "(bytes \<Rightarrow> string) \<Rightarrow> 'db redis_connection \<Rightarrow> connection_manager \<times> 'db \<Rightarrow> network_identity list \<times> connection_manager \<times> 'db" where
  "cm_shutdown us C = (\<lambda>(m, db).
    if \<not> cm_initialized m then ([], m, db)
    else
      let db = (case cm_coordinator m of None \<Rightarrow> db | Some c \<Rightarrow> snd (lease_clear us C (c, db)))
      in (cm_active m, m \<lparr> cm_active := [], cm_coordinator := None, cm_initialized := False \<rparr>, db))"

definition cm_mark_activity ::
  "(bytes \<Rightarrow> string) \<Rightarrow> 'db redis_connection \<Rightarrow> int \<Rightarrow> network_identity \<Rightarrow> connection_manager \<times> 'db \<Rightarrow> connection_manager \<times> 'db" where
  "cm_mark_activity us C now peer = (\<lambda>(m, db).
    if \<not> cm_initialized m then (m, db)
    else
      let m = m \<lparr> cm_active := id_insert us peer (cm_active m) \<rparr>
      in case cm_coordinator m of
           None \<Rightarrow> (m, db)
         | Some c \<Rightarrow>
             let (c, db) = mark_connection_activity us C now peer (c, db)
             in (m \<lparr> cm_coordinator := Some c \<rparr>, db))"

definition cm_set_lease_mode :: "bool \<Rightarrow> connection_manager \<Rightarrow> connection_manager" where
  "cm_set_lease_mode b m = m \<lparr> cm_lease_mode := b, cm_coordinator := map_option (set_lease_enabled b) (cm_coordinator m) \<rparr>"

section \<open>Lemmas\<close>

lemma nid_less_total:
  "nid_to_string us a = nid_to_string us b \<or> nid_less us a b \<or> nid_less us b a"
proof -
  have "map of_char s = (map of_char t :: nat list) \<longleftrightarrow> s = t" for s t :: string
    by (simp add: inj_map_eq_map inj_def)
  then show ?thesis
    using lexordp_linear [of "map of_char (nid_to_string us a) :: nat list" "map of_char (nid_to_string us b)"]
    by (auto simp: nid_less_def)
qed

lemma nid_less_asym: "nid_less us a b \<Longrightarrow> \<not> nid_less us b a"
  unfolding nid_less_def using lexordp_antisym by blast

text \<open>Both ends of a connection build the same key.\<close>

lemma lease_key_symmetric:
  assumes "lo_prefix (lc_options a) = lo_prefix (lc_options b)"
  shows "build_lease_key us a (lc_self b) = build_lease_key us b (lc_self a)"
  using assms nid_less_total [of us "lc_self a" "lc_self b"] nid_less_asym [of us "lc_self a" "lc_self b"]
  by (auto simp: build_lease_key_def)

lemma str_bytes_inject [simp]: "str_bytes s = str_bytes t \<longleftrightarrow> s = t"
  by (metis bytes_str_inverse)

lemma owner_value_eq: "owner_value us a = owner_value us b \<longleftrightarrow> nid_eq us (lc_self a) (lc_self b)"
  by (simp add: owner_value_def nid_eq_def)

definition lease_on :: "lease_coordinator \<Rightarrow> bool" where
  "lease_on c \<longleftrightarrow> lo_enabled (lc_options c) \<and> 0 < lo_ttl (lc_options c)"

lemma on_inactive_step: "on_inactive_peer us peer secs (closed, active) = (closed @ [peer], id_delete us peer active)"
  by (simp add: on_inactive_peer_def)

context redis_keys
begin

lemma acquire_view:
  assumes "with_sync C = R" "lease_on c" "str_key (build_lease_key us c peer)"
  defines "k \<equiv> build_lease_key us c peer"
  shows "fst (try_acquire_or_refresh_lease us C c peer db) \<longleftrightarrow> str_of db k \<in> {None, Some (owner_value us c)}"
    and "str_of db k \<in> {None, Some (owner_value us c)} \<Longrightarrow>
      str_of (snd (try_acquire_or_refresh_lease us C c peer db)) = (str_of db)(k \<mapsto> owner_value us c)"
    and "str_of db k \<notin> {None, Some (owner_value us c)} \<Longrightarrow> try_acquire_or_refresh_lease us C c peer db = (False, db)"
  using assms by (auto simp: try_acquire_or_refresh_lease_def lease_on_def Let_def db_get_def db_set_def db_expire_def get
      set_contents expire_contents k_def split: option.splits)

lemma release_view:
  assumes "with_sync C = R" "lease_on c" "str_key (build_lease_key us c peer)" "\<not> hash_key (build_lease_key us c peer)"
  defines "k \<equiv> build_lease_key us c peer"
  shows "str_of (release_lease_if_owned us C c peer db) =
    (if str_of db k = Some (owner_value us c) then (str_of db)(k := None) else str_of db)"
  using assms by (auto simp: release_lease_if_owned_def lease_on_def Let_def db_get_def db_del_key_def get
      del_str_contents k_def split: option.splits)

text \<open>What the loop closes, and what it leaves of the leases.\<close>

lemma reap_loop_view:
  assumes "with_sync C = R" "lease_on c"
    and "\<And>peer. peer \<in> fst ` set m \<Longrightarrow> str_key (build_lease_key us c peer) \<and> \<not> hash_key (build_lease_key us c peer)"
  shows "\<exists>db'. reap_loop us C c now (on_inactive_peer us) m ((closed, active), db, gone) =
      (let g = map fst (filter (\<lambda>x. inactive now c (snd x)) m)
       in ((closed @ g, foldl (\<lambda>s p. id_delete us p s) active g), db', gone @ g)) \<and>
    str_of db' = (\<lambda>k. if (\<exists>x\<in>set m. inactive now c (snd x) \<and> k = build_lease_key us c (fst x)) \<and>
      str_of db k = Some (owner_value us c) then None else str_of db k)"
  using assms(3)
proof (induction m arbitrary: closed active db gone)
  case Nil
  then show ?case by (auto simp: Let_def)
next
  case (Cons y m)
  obtain peer t where y: "y = (peer, t)" by (cases y)
  have k: "str_key (build_lease_key us c peer)" "\<not> hash_key (build_lease_key us c peer)" using Cons.prems [of peer] by (auto simp: y)
  have p: "\<And>peer. peer \<in> fst ` set m \<Longrightarrow> str_key (build_lease_key us c peer) \<and> \<not> hash_key (build_lease_key us c peer)"
    using Cons.prems by simp
  note r = release_view [OF assms(1,2) k, of db]
  show ?case
  proof (cases "inactive now c t")
    case False
    obtain db' where "reap_loop us C c now (on_inactive_peer us) m ((closed, active), db, gone) =
      (let g = map fst (filter (\<lambda>x. inactive now c (snd x)) m)
       in ((closed @ g, foldl (\<lambda>s p. id_delete us p s) active g), db', gone @ g))"
      "str_of db' = (\<lambda>k. if (\<exists>x\<in>set m. inactive now c (snd x) \<and> k = build_lease_key us c (fst x)) \<and>
      str_of db k = Some (owner_value us c) then None else str_of db k)"
      using Cons.IH [OF p, of closed active db gone] by blast
    then show ?thesis using False by (intro exI [of _ db']) (simp add: y)
  next
    case True
    obtain db' where "reap_loop us C c now (on_inactive_peer us) m ((closed @ [peer], id_delete us peer active), release_lease_if_owned us C c peer db, gone @ [peer]) =
      (let g = map fst (filter (\<lambda>x. inactive now c (snd x)) m)
       in (((closed @ [peer]) @ g, foldl (\<lambda>s p. id_delete us p s) (id_delete us peer active) g), db', (gone @ [peer]) @ g))"
      "str_of db' = (\<lambda>k. if (\<exists>x\<in>set m. inactive now c (snd x) \<and> k = build_lease_key us c (fst x)) \<and>
      str_of (release_lease_if_owned us C c peer db) k = Some (owner_value us c) then None else str_of (release_lease_if_owned us C c peer db) k)"
      using Cons.IH [OF p, of "closed @ [peer]" "id_delete us peer active" "release_lease_if_owned us C c peer db" "gone @ [peer]"] by blast
    then show ?thesis using True r by (intro exI [of _ db']) (auto simp: y on_inactive_step Let_def fun_eq_iff)
  qed
qed

end

text \<open>Erasing the inactive peers leaves the others, when no two entries have the same identity.\<close>

lemma erase_all: "foldl (\<lambda>m p. id_erase us p m) m ps = filter (\<lambda>x. \<forall>p\<in>set ps. \<not> nid_eq us (fst x) p) m"
  by (induction ps arbitrary: m) (auto simp: id_erase_def intro: filter_cong)

lemma delete_all: "foldl (\<lambda>s p. id_delete us p s) s ps = filter (\<lambda>x. \<forall>p\<in>set ps. \<not> nid_eq us x p) s"
  by (induction ps arbitrary: s) (auto simp: id_delete_def intro: filter_cong)

lemma erase_filtered:
  assumes "distinct (map (\<lambda>x. nid_to_string us (fst x)) m)"
  shows "foldl (\<lambda>m p. id_erase us p m) m (map fst (filter P m)) = filter (\<lambda>x. \<not> P x) m"
proof -
  have "(\<forall>p\<in>set (map fst (filter P m)). \<not> nid_eq us (fst x) p) \<longleftrightarrow> \<not> P x" if x: "x \<in> set m" for x
  proof
    show "\<forall>p\<in>set (map fst (filter P m)). \<not> nid_eq us (fst x) p \<Longrightarrow> \<not> P x"
      using x bspec [of "set (map fst (filter P m))" "\<lambda>p. \<not> nid_eq us (fst x) p" "fst x"] by (auto simp: nid_eq_def)
    assume n: "\<not> P x"
    have "\<not> nid_eq us (fst x) (fst y)" if "y \<in> set m" "P y" for y
    proof
      assume "nid_eq us (fst x) (fst y)"
      then have "x = y" using assms x that(1) unfolding nid_eq_def distinct_map inj_on_def by blast
      then show False using n that(2) by simp
    qed
    then show "\<forall>p\<in>set (map fst (filter P m)). \<not> nid_eq us (fst x) p" by auto
  qed
  then show ?thesis unfolding erase_all by (intro filter_cong) simp_all
qed

section \<open>Properties\<close>

text \<open>A lease excludes the other end of the connection, whichever of the two asks first: after one
  end has acquired it, the other end's attempt fails and leaves the database as it is, the holder can
  refresh it, and as soon as the holder has released it the other end acquires it.\<close>

theorem lease_excludes:
  assumes "redis_keys R hash_key hash_of set_of str_key str_of" and "with_sync C = R"
    and "lease_on a" "lease_on b" "lo_prefix (lc_options a) = lo_prefix (lc_options b)"
    and "str_key (build_lease_key us a (lc_self b))" "\<not> hash_key (build_lease_key us a (lc_self b))"
    and "\<not> nid_eq us (lc_self a) (lc_self b)"
    and "try_acquire_or_refresh_lease us C a (lc_self b) db = (True, db')"
  shows "try_acquire_or_refresh_lease us C b (lc_self a) db' = (False, db') \<and>
    fst (try_acquire_or_refresh_lease us C a (lc_self b) db') \<and>
    fst (try_acquire_or_refresh_lease us C b (lc_self a) (release_lease_if_owned us C a (lc_self b) db'))"
proof -
  let ?k = "build_lease_key us a (lc_self b)"
  have k: "build_lease_key us b (lc_self a) = ?k" by (rule lease_key_symmetric [OF assms(5), symmetric])
  have o: "owner_value us a \<noteq> owner_value us b" using assms(8) by (simp add: owner_value_eq)
  note va = redis_keys.acquire_view [OF assms(1,2,3,6)]
    and vb = redis_keys.acquire_view [OF assms(1,2,4), of us "lc_self a", unfolded k, OF assms(6)]
    and ra = redis_keys.release_view [OF assms(1,2,3,6,7)]
  have "str_of db ?k \<in> {None, Some (owner_value us a)}" using va(1) [of db] assms(9) by simp
  then have v: "str_of db' ?k = Some (owner_value us a)" using va(2) [of db] assms(9) by simp
  show ?thesis using o v va(1) [of db'] vb(1,3) ra [of db'] by auto
qed

definition lease_demo :: "network_identity \<Rightarrow> lease_coordinator" where
  "lease_demo n = lc_new n lease_options_default"

theorem lease_excludes_witness:
  "fst (try_acquire_or_refresh_lease demo_printer mem_connection (lease_demo make_id_cartograph) make_id_watchdog
     (snd (try_acquire_or_refresh_lease demo_printer mem_connection (lease_demo make_id_watchdog) make_id_cartograph mem_empty))) = False"
proof -
  let ?a = "lease_demo make_id_watchdog" and ?b = "lease_demo make_id_cartograph"
  have r: "redis_keys mem_redis (\<lambda>_. False) mem_hash mem_set (\<lambda>_. True) md_str" by (rule memkeys.redis_keys_axioms)
  have l: "lease_on ?a" "lease_on ?b" "lo_prefix (lc_options ?a) = lo_prefix (lc_options ?b)"
    by (simp_all add: lease_on_def lease_demo_def lc_new_def lease_options_default_def)
  have s: "lc_self ?a = make_id_watchdog" "lc_self ?b = make_id_cartograph" by (simp_all add: lease_demo_def lc_new_def)
  have n: "\<not> nid_eq demo_printer (lc_self ?a) (lc_self ?b)"
    unfolding s by (simp add: nid_eq_def nid_to_string_eq [OF demo_printer_ok] make_id_watchdog_def make_id_cartograph_def
        uuid_is_nil_def nil_uuid_def nt_name_def nt_defs list_all_iff)
  have "fst (try_acquire_or_refresh_lease demo_printer mem_connection ?a (lc_self ?b) mem_empty)"
    using memkeys.acquire_view(1) [OF with_sync_mem l(1), of "\<lambda>_. True" demo_printer "lc_self ?b" mem_empty] by (simp add: mem_empty_def)
  then have "try_acquire_or_refresh_lease demo_printer mem_connection ?a (lc_self ?b) mem_empty =
      (True, snd (try_acquire_or_refresh_lease demo_printer mem_connection ?a (lc_self ?b) mem_empty))"
    by (metis prod.collapse)
  from lease_excludes [OF r with_sync_mem l TrueI not_False_eq_True [THEN iffD2, OF TrueI] n this]
  show ?thesis unfolding s by (metis fst_conv snd_conv)
qed

text \<open>A tick of the connection manager closes exactly the connections of the peers not heard of for
  the inactivity timeout, in the order of the table, forgets these peers and no others, takes them out of
  the active connections, and gives back the leases the shard holds for them, and no others.\<close>

theorem tick_reaps_inactive:
  assumes "redis_keys R hash_key hash_of set_of str_key str_of" and "with_sync C = R"
    and "cm_initialized m" "cm_coordinator m = Some c" "lease_on c"
    and "distinct (map (\<lambda>x. nid_to_string us (fst x)) (lc_activity c))"
    and "\<And>peer. str_key (build_lease_key us c peer) \<and> \<not> hash_key (build_lease_key us c peer)"
  shows "\<exists>db'. cm_tick us C now (m, db) =
      (let gone = map fst (filter (\<lambda>x. inactive now c (snd x)) (lc_activity c))
       in (gone, m \<lparr> cm_active := filter (\<lambda>x. \<forall>p\<in>set gone. \<not> nid_eq us x p) (cm_active m),
            cm_coordinator := Some (c \<lparr> lc_activity := filter (\<lambda>x. \<not> inactive now c (snd x)) (lc_activity c) \<rparr>) \<rparr>, db')) \<and>
    str_of db' = (\<lambda>k. if (\<exists>x\<in>set (lc_activity c). inactive now c (snd x) \<and> k = build_lease_key us c (fst x)) \<and>
      str_of db k = Some (owner_value us c) then None else str_of db k)"
proof -
  obtain db' where "reap_loop us C c now (on_inactive_peer us) (lc_activity c) (([], cm_active m), db, []) =
      (let g = map fst (filter (\<lambda>x. inactive now c (snd x)) (lc_activity c))
       in (([] @ g, foldl (\<lambda>s p. id_delete us p s) (cm_active m) g), db', [] @ g))"
    "str_of db' = (\<lambda>k. if (\<exists>x\<in>set (lc_activity c). inactive now c (snd x) \<and> k = build_lease_key us c (fst x)) \<and>
      str_of db k = Some (owner_value us c) then None else str_of db k)"
    using redis_keys.reap_loop_view [OF assms(1,2,5), where m = "lc_activity c" and us = us and now = now and closed = "[]"
      and active = "cm_active m" and db = db and gone = "[]"] assms(7) by blast
  then show ?thesis
    using assms(3,4) erase_filtered [OF assms(6), of "\<lambda>x. inactive now c (snd x)"]
    by (intro exI [of _ db']) (simp add: cm_tick_def reap_inactive_connections_def Let_def delete_all)
qed

definition reap_demo :: lease_coordinator where
  "reap_demo = (lease_demo make_id_watchdog) \<lparr> lc_activity := [(make_id_cartograph, 0), (nid_new, 5000000000)] \<rparr>"

definition manager_demo :: connection_manager where
  "manager_demo = \<lparr> cm_self = make_id_watchdog, cm_initialized = True, cm_active = [make_id_cartograph, nid_new],
     cm_lease_mode = True, cm_coordinator = Some reap_demo \<rparr>"

theorem tick_reaps_inactive_witness:
  "fst (cm_tick demo_printer mem_connection 6000000000 (manager_demo, mem_empty)) = [make_id_cartograph]"
proof -
  have r: "redis_keys mem_redis (\<lambda>_. False) mem_hash mem_set (\<lambda>_. True) md_str" by (rule memkeys.redis_keys_axioms)
  have c: "cm_initialized manager_demo" "cm_coordinator manager_demo = Some reap_demo" "lease_on reap_demo"
    by (simp_all add: manager_demo_def reap_demo_def lease_on_def lease_demo_def lc_new_def lease_options_default_def)
  have d: "distinct (map (\<lambda>x. nid_to_string demo_printer (fst x)) (lc_activity reap_demo))"
    by (simp add: reap_demo_def nid_to_string_eq [OF demo_printer_ok] make_id_cartograph_def nid_new_def
        uuid_is_nil_def nil_uuid_def nt_name_def nt_defs list_all_iff)
  have f: "filter (\<lambda>x. inactive 6000000000 reap_demo (snd x)) (lc_activity reap_demo) = [(make_id_cartograph, 0)]"
    by (simp add: reap_demo_def lease_demo_def lc_new_def lease_options_default_def inactive_def whole_seconds_def)
  have k: "(\<lambda>_. True) (build_lease_key demo_printer reap_demo peer) \<and> \<not> (\<lambda>_. False) (build_lease_key demo_printer reap_demo peer)" for peer
    by simp
  from tick_reaps_inactive [OF r with_sync_mem c d k, where now = "6000000000" and db = mem_empty]
  show ?thesis by (auto simp: Let_def f)
qed

end
