(* ===== verification/Handoff_Election.thy ===== *)
theory Handoff_Election
  imports Transfer_Manifest Server_Registry
begin

text \<open>
  Which shard owns the test entities (\<open>ServerHandoff/SH_OwnershipElection\<close>): the name of the owner is
  kept under one key of the database, checked against the registry and replaced when it is not there.
  What is only logged is left out; the time is a parameter, in nanoseconds of the steady clock.
\<close>

section \<open>State\<close>

record election =
  el_self :: network_identity
  el_eval_interval :: int
  el_owner_key :: string
  el_is_owner :: bool
  el_evaluated :: bool
  el_last_eval :: int

definition election_new :: "network_identity \<Rightarrow> election" where
  "election_new self = \<lparr> el_self = self, el_eval_interval = 2000000000, el_owner_key = ''EntityHandoff:TestOwnerShard'',
     el_is_owner = False, el_evaluated = False, el_last_eval = 0 \<rparr>"

definition election_reset :: "int \<Rightarrow> election \<Rightarrow> election" where
  "election_reset now e = e \<lparr> el_is_owner := False, el_evaluated := False, el_last_eval := now - el_eval_interval e \<rparr>"

definition election_invalidate :: "election \<Rightarrow> election" where
  "election_invalidate e = e \<lparr> el_evaluated := False \<rparr>"

definition election_force_not_owner :: "election \<Rightarrow> election" where
  "election_force_not_owner e = e \<lparr> el_is_owner := False \<rparr>"

section \<open>Evaluation\<close>

text \<open>The keys of the map that \<open>GetServers\<close> returns.\<close>

definition registry_ids ::
  "'a steam_ops \<Rightarrow> (bytes \<Rightarrow> string) \<Rightarrow> 'db redis_connection \<Rightarrow> 'db \<Rightarrow> network_identity list res" where
  "registry_ids S us C db = bindE (get_servers S us C db) (\<lambda>es. Inr (map fst es))"

definition bytes_less :: "bytes \<Rightarrow> bytes \<Rightarrow> bool" where
  "bytes_less a b \<longleftrightarrow> ord_class.lexordp (map unat a) (map unat b)"

fun select_bootstrap_owner :: "(bytes \<Rightarrow> string) \<Rightarrow> network_identity list \<Rightarrow> bytes option \<Rightarrow> bytes option" where
  "select_bootstrap_owner us [] selected = selected"
| "select_bootstrap_owner us (i # ids) selected =
    (if nid_type i \<noteq> nt_shard then select_bootstrap_owner us ids selected
     else
       let candidate = nid_text us i
       in select_bootstrap_owner us ids
         (if (case selected of None \<Rightarrow> True | Some s \<Rightarrow> bytes_less candidate s) then Some candidate else selected))"

text \<open>Choosing an owner and writing it.\<close>

definition bootstrap_owner ::
  "(bytes \<Rightarrow> string) \<Rightarrow> 'db redis_connection \<Rightarrow> string \<Rightarrow> network_identity list \<Rightarrow> 'db \<Rightarrow> bytes option \<times> 'db" where
  "bootstrap_owner us C key ids db =
    (case select_bootstrap_owner us ids None of
       None \<Rightarrow> (None, db)
     | Some s \<Rightarrow> (Some s, snd (db_set C key s db)))"

definition owner_registered :: "(bytes \<Rightarrow> string) \<Rightarrow> network_identity list \<Rightarrow> bytes \<Rightarrow> bool" where
  "owner_registered us ids s \<longleftrightarrow> (\<exists>i\<in>set ids. nid_type i = nt_shard \<and> nid_text us i = s)"

definition select_owner ::
  "(bytes \<Rightarrow> string) \<Rightarrow> 'db redis_connection \<Rightarrow> string \<Rightarrow> network_identity list \<Rightarrow> 'db \<Rightarrow> bytes option \<times> 'db" where
  "select_owner us C key ids db =
    (let (selected, db) = (case db_get C key db of
           None \<Rightarrow> bootstrap_owner us C key ids db
         | Some s \<Rightarrow> if s = [] then bootstrap_owner us C key ids db else (Some s, db))
     in case selected of
          None \<Rightarrow> (None, db)
        | Some s \<Rightarrow> if owner_registered us ids s then (Some s, db) else bootstrap_owner us C key ids db)"

text \<open>\<open>ids\<close> is what the registry answers; an error of it leaves the call.\<close>

definition evaluate_ownership ::
  "(bytes \<Rightarrow> string) \<Rightarrow> 'db redis_connection \<Rightarrow> ('db \<Rightarrow> network_identity list res) \<Rightarrow> int \<Rightarrow> election \<times> 'db \<Rightarrow>
   (bool \<times> election \<times> 'db) res" where
  "evaluate_ownership us C registry now = (\<lambda>(e, db).
    if el_evaluated e \<and> now - el_last_eval e < el_eval_interval e then Inr (el_is_owner e, e, db)
    else
      let e = e \<lparr> el_last_eval := now, el_evaluated := True \<rparr>
      in bindE (registry db) (\<lambda>ids.
        let (selected, db) = select_owner us C (el_owner_key e) ids db;
            own = (case selected of None \<Rightarrow> False | Some s \<Rightarrow> s = nid_text us (el_self e))
        in Inr (own, e \<lparr> el_is_owner := own \<rparr>, db)))"

text \<open>Shards that evaluate one after the other.\<close>

fun evaluate_all ::
  "(bytes \<Rightarrow> string) \<Rightarrow> 'db redis_connection \<Rightarrow> ('db \<Rightarrow> network_identity list res) \<Rightarrow> (int \<times> election) list \<Rightarrow> 'db \<Rightarrow>
   (bool list \<times> 'db) res" where
  "evaluate_all us C registry [] db = Inr ([], db)"
| "evaluate_all us C registry ((now, e) # es) db =
    bindE (evaluate_ownership us C registry now (e, db)) (\<lambda>(own, _, db).
      bindE (evaluate_all us C registry es db) (\<lambda>(owns, db). Inr (own # owns, db)))"

section \<open>Lemmas\<close>

lemma bytes_less_total: "a = b \<or> bytes_less a b \<or> bytes_less b a"
proof -
  have "map unat a = map unat b \<longleftrightarrow> a = b"
    by (simp add: inj_map_eq_map inj_def word_unat_eq_iff)
  then show ?thesis
    using lexordp_linear [of "map unat a" "map unat b"] by (auto simp: bytes_less_def)
qed

lemma bytes_less_trans: "bytes_less a b \<Longrightarrow> bytes_less b c \<Longrightarrow> bytes_less a c"
  unfolding bytes_less_def by (rule lexordp_trans)

lemma bytes_less_irrefl: "\<not> bytes_less a a"
  unfolding bytes_less_def by (simp add: lexordp_irreflexive)

text \<open>The choice is the least name.\<close>

lemma select_from:
  "select_bootstrap_owner us ids (Some s) = Some t \<longleftrightarrow>
    (t \<in> insert s (nid_text us ` {i \<in> set ids. nid_type i = nt_shard}) \<and>
     (\<forall>u \<in> insert s (nid_text us ` {i \<in> set ids. nid_type i = nt_shard}). \<not> bytes_less u t))"
proof (induction ids arbitrary: s)
  case Nil
  then show ?case by (auto simp: bytes_less_irrefl)
next
  case (Cons i ids)
  show ?case
  proof (cases "nid_type i = nt_shard")
    case False
    then show ?thesis using Cons [of s] by auto
  next
    case True
    then have s: "nid_text us ` {j \<in> set (i # ids). nid_type j = nt_shard} =
        insert (nid_text us i) (nid_text us ` {j \<in> set ids. nid_type j = nt_shard})" by auto
    show ?thesis
    proof (cases "bytes_less (nid_text us i) s")
      case True
      then show ?thesis using \<open>nid_type i = nt_shard\<close> Cons [of "nid_text us i"] unfolding s
        by (auto simp: bytes_less_irrefl dest: bytes_less_trans)
    next
      case False
      then show ?thesis using \<open>nid_type i = nt_shard\<close> Cons [of s] bytes_less_total [of s "nid_text us i"] unfolding s
        by (auto simp: bytes_less_irrefl dest: bytes_less_trans)
    qed
  qed
qed

lemma select_Some: "\<exists>t. select_bootstrap_owner us ids (Some s) = Some t"
  by (induction ids arbitrary: s) (auto simp: Let_def)

definition shard_names :: "(bytes \<Rightarrow> string) \<Rightarrow> network_identity list \<Rightarrow> bytes set" where
  "shard_names us ids = nid_text us ` {i \<in> set ids. nid_type i = nt_shard}"

lemma registered_iff: "owner_registered us ids s \<longleftrightarrow> s \<in> shard_names us ids"
  by (auto simp: owner_registered_def shard_names_def)

lemma select_None:
  "select_bootstrap_owner us ids None = Some t \<longleftrightarrow> t \<in> shard_names us ids \<and> (\<forall>u\<in>shard_names us ids. \<not> bytes_less u t)"
  "select_bootstrap_owner us ids None = None \<longleftrightarrow> shard_names us ids = {}"
proof (induction ids)
  case (Cons i ids)
  have n: "shard_names us (i # ids) = (if nid_type i = nt_shard then insert (nid_text us i) (shard_names us ids) else shard_names us ids)"
    by (auto simp: shard_names_def)
  { case 1 show ?case using Cons(1) select_from [of us ids "nid_text us i" t] unfolding n
      by (simp add: shard_names_def) }
  { case 2 show ?case using Cons(2) select_Some [of us ids "nid_text us i"] unfolding n by auto }
qed (simp_all add: shard_names_def)

lemma name_nonempty: "uuid_printer us \<Longrightarrow> s \<in> shard_names us ids \<Longrightarrow> s \<noteq> []"
  using visible_nt_name by (auto simp: shard_names_def nid_text_def str_bytes_def nid_to_string_eq visible_def)

text \<open>The owner after an evaluation: the one stored, when it is registered, or the least.\<close>

definition elected :: "(bytes \<Rightarrow> string) \<Rightarrow> network_identity list \<Rightarrow> bytes option \<Rightarrow> bytes option" where
  "elected us ids stored =
    (case stored of
       Some s \<Rightarrow> if s \<in> shard_names us ids then Some s else select_bootstrap_owner us ids None
     | None \<Rightarrow> select_bootstrap_owner us ids None)"

lemma elected_again: "elected us ids stored = Some s \<Longrightarrow> s \<in> shard_names us ids \<and> elected us ids (Some s) = Some s"
  by (auto simp: elected_def select_None split: option.splits if_splits)

context redis_keys
begin

lemma bootstrap_view:
  assumes "with_sync C = R" "str_key k"
  shows "fst (bootstrap_owner us C k ids db) = select_bootstrap_owner us ids None"
    and "str_of (snd (bootstrap_owner us C k ids db)) =
      (case select_bootstrap_owner us ids None of None \<Rightarrow> str_of db | Some s \<Rightarrow> (str_of db)(k \<mapsto> s))"
  using assms by (auto simp: bootstrap_owner_def db_set_def set_contents split: option.split)

lemma select_owner_view:
  assumes "with_sync C = R" "str_key k" "uuid_printer us"
  shows "fst (select_owner us C k ids db) = elected us ids (str_of db k)"
    and "elected us ids (str_of db k) = Some s \<Longrightarrow> str_of (snd (select_owner us C k ids db)) = (str_of db)(k \<mapsto> s)"
proof -
  have g: "db_get C k db = str_of db k" using assms by (simp add: db_get_def get)
  have e: "[] \<notin> shard_names us ids" using name_nonempty [OF assms(3)] by blast
  note b = bootstrap_view [OF assms(1,2), of us ids]
  define sb where "sb = select_bootstrap_owner us ids None"
  have sel: "sb = Some t \<Longrightarrow> t \<in> shard_names us ids" for t by (simp add: select_None sb_def)
  define y where "y = snd (bootstrap_owner us C k ids db)"
  have xy: "bootstrap_owner us C k ids db = (sb, y)"
    using b(1) [of db] by (simp add: y_def sb_def prod_eq_iff)
  have y: "str_of y = (case sb of None \<Rightarrow> str_of db | Some s \<Rightarrow> (str_of db)(k \<mapsto> s))"
    using b(2) [of db] by (simp add: y_def sb_def)
  show "fst (select_owner us C k ids db) = elected us ids (str_of db k)"
    using e sel by (cases "str_of db k"; cases sb)
      (auto simp: select_owner_def g elected_def registered_iff xy simp flip: sb_def)
  show "elected us ids (str_of db k) = Some s \<Longrightarrow> str_of (snd (select_owner us C k ids db)) = (str_of db)(k \<mapsto> s)"
    using e sel y by (cases "str_of db k"; cases sb)
      (auto simp: select_owner_def g elected_def registered_iff xy fun_upd_idem simp flip: sb_def split: if_splits)
qed

lemma evaluate_view:
  assumes "with_sync C = R" "str_key (el_owner_key e)" "uuid_printer us"
    and "\<not> (el_evaluated e \<and> now - el_last_eval e < el_eval_interval e)" "registry db = Inr ids"
    and "elected us ids (str_of db (el_owner_key e)) = Some s"
  shows "\<exists>e' db'. evaluate_ownership us C registry now (e, db) = Inr (s = nid_text us (el_self e), e', db') \<and>
    str_of db' = (str_of db)(el_owner_key e \<mapsto> s) \<and> el_is_owner e' = (s = nid_text us (el_self e))"
  using assms(5,6) select_owner_view [OF assms(1-3), of ids db]
  by (simp add: evaluate_ownership_def if_not_P [OF assms(4)] Let_def case_prod_beta)

end

section \<open>Properties\<close>

text \<open>C31: the election has one winner on which all shards agree. Let any number of shards evaluate the
  ownership one after the other, none from its cache, while the registry stays as it is and has a shard:
  then there is one registered shard such that each of them takes itself for the owner if and only if it
  is that shard; its name is in the database, and it is the owner stored before when that one is still
  registered, and otherwise the one with the least name. The owner's key is free of expiry and of writes
  by others.\<close>

theorem one_owner_elected:
  assumes "redis_keys R hash_key hash_of set_of str_key str_of" and "with_sync C = R" and "uuid_printer us"
    and "str_key k" "es \<noteq> []" "\<And>db. registry db = Inr ids" "shard_names us ids \<noteq> {}"
    and "\<And>now e. (now, e) \<in> set es \<Longrightarrow> el_owner_key e = k \<and> \<not> (el_evaluated e \<and> now - el_last_eval e < el_eval_interval e)"
  shows "\<exists>s db'. evaluate_all us C registry es db = Inr (map (\<lambda>(_, e). s = nid_text us (el_self e)) es, db') \<and>
    s \<in> shard_names us ids \<and> str_of db' = (str_of db)(k \<mapsto> s) \<and>
    (case str_of db k of
       Some v \<Rightarrow> if v \<in> shard_names us ids then s = v else (\<forall>u\<in>shard_names us ids. \<not> bytes_less u s)
     | None \<Rightarrow> \<forall>u\<in>shard_names us ids. \<not> bytes_less u s)"
proof -
  have "elected us ids (str_of db k) \<noteq> None"
    using assms(7) select_None(2) [of us ids] by (simp add: elected_def split: option.split)
  then obtain s where s: "elected us ids (str_of db k) = Some s" by blast
  have run: "\<exists>db'. evaluate_all us C registry es db = Inr (map (\<lambda>(_, e). s = nid_text us (el_self e)) es, db') \<and>
      (es \<noteq> [] \<longrightarrow> str_of db' = (str_of db)(k \<mapsto> s))"
    if "\<And>now e. (now, e) \<in> set es \<Longrightarrow> el_owner_key e = k \<and> \<not> (el_evaluated e \<and> now - el_last_eval e < el_eval_interval e)"
      "elected us ids (str_of db k) = Some s" for es db
    using that
  proof (induction es arbitrary: db)
    case (Cons x es)
    obtain now e where x: "x = (now, e)" by (cases x)
    have e: "el_owner_key e = k" "\<not> (el_evaluated e \<and> now - el_last_eval e < el_eval_interval e)"
      using Cons.prems(1) [of now e] by (auto simp: x)
    have "str_key (el_owner_key e)" "elected us ids (str_of db (el_owner_key e)) = Some s"
      using assms(4) Cons.prems(2) e(1) by simp_all
    note ev = redis_keys.evaluate_view [where registry = registry and db = db, OF assms(1,2) this(1) assms(3) e(2) assms(6) [of db] this(2)]
    obtain e' db1 where 1: "evaluate_ownership us C registry now (e, db) = Inr (s = nid_text us (el_self e), e', db1)"
      "str_of db1 = (str_of db)(k \<mapsto> s)" using ev e(1) by blast
    have p: "\<And>now e. (now, e) \<in> set es \<Longrightarrow> el_owner_key e = k \<and> \<not> (el_evaluated e \<and> now - el_last_eval e < el_eval_interval e)"
      by (rule Cons.prems(1)) simp
    have "elected us ids (str_of db1 k) = Some s" using 1(2) elected_again [OF s] by simp
    from Cons.IH [OF p this] obtain db2 where
      2: "evaluate_all us C registry es db1 = Inr (map (\<lambda>(_, e). s = nid_text us (el_self e)) es, db2)"
         "es \<noteq> [] \<longrightarrow> str_of db2 = (str_of db1)(k \<mapsto> s)" by blast
    show ?case using 1 2 by (cases "es = []") (auto simp: x)
  qed simp
  from run [OF assms(8) s] assms(5) obtain db' where
    "evaluate_all us C registry es db = Inr (map (\<lambda>(_, e). s = nid_text us (el_self e)) es, db')"
    "str_of db' = (str_of db)(k \<mapsto> s)" by blast
  moreover have "s \<in> shard_names us ids" using elected_again [OF s] by simp
  moreover have "case str_of db k of
       Some v \<Rightarrow> if v \<in> shard_names us ids then s = v else (\<forall>u\<in>shard_names us ids. \<not> bytes_less u s)
     | None \<Rightarrow> \<forall>u\<in>shard_names us ids. \<not> bytes_less u s"
    using s by (auto simp: elected_def select_None split: option.split)
  ultimately show ?thesis by blast
qed

definition two_shards :: "network_identity list" where
  "two_shards = [make_id_shard (replicate 16 1), make_id_shard (replicate 16 2)]"

theorem one_owner_elected_witness:
  "\<exists>own db'. evaluate_all demo_printer mem_connection (\<lambda>_. Inr two_shards)
     (map (\<lambda>i. (5, election_new i)) two_shards) mem_empty = Inr ([own, \<not> own], db')"
proof -
  let ?es = "map (\<lambda>i. (5 :: int, election_new i)) two_shards"
  let ?k = "''EntityHandoff:TestOwnerShard''"
  have r: "redis_keys mem_redis (\<lambda>_. False) mem_hash mem_set (\<lambda>_. True) md_str" by (rule memkeys.redis_keys_axioms)
  have "nid_type i = nt_shard" if "i \<in> set two_shards" for i
    using that unfolding two_shards_def make_id_shard_def by fastforce
  then have n1: "shard_names demo_printer two_shards = nid_text demo_printer ` set two_shards"
    unfolding shard_names_def by blast
  have n: "?es \<noteq> []" "shard_names demo_printer two_shards \<noteq> {}" unfolding n1 by (simp_all add: two_shards_def)
  have d: "nid_text demo_printer (make_id_shard (replicate 16 1)) \<noteq> nid_text demo_printer (make_id_shard (replicate 16 2))"
  proof -
    have "nid_ok (make_id_shard (replicate 16 b))" for b by (simp add: nid_ok_def make_id_shard_def)
    then have "\<not> nid_eq demo_printer (make_id_shard (replicate 16 1)) (make_id_shard (replicate 16 2))"
      by (simp add: nid_eq_iff [OF demo_printer_ok]) (simp add: make_id_shard_def numeral_eq_Suc)
    then show ?thesis unfolding nid_text_def nid_eq_def by (metis bytes_str_inverse)
  qed
  have k: "el_owner_key e = ?k \<and> \<not> (el_evaluated e \<and> now - el_last_eval e < el_eval_interval e)" if "(now, e) \<in> set ?es" for now e
    using that by (auto simp: election_new_def)
  obtain s db' where
    "evaluate_all demo_printer mem_connection (\<lambda>_. Inr two_shards) ?es mem_empty =
       Inr (map (\<lambda>(_, e). s = nid_text demo_printer (el_self e)) ?es, db')" "s \<in> nid_text demo_printer ` set two_shards"
    using one_owner_elected [OF r with_sync_mem demo_printer_ok TrueI n(1) refl n(2), of ?k mem_empty] k unfolding n1 by blast
  then show ?thesis using d by (auto simp: two_shards_def election_new_def)
qed

end
