(* ===== verification/Handoff_Mailbox.thy ===== *)
theory Handoff_Mailbox
  imports Debug_Simulators Handoff_Lease Handoff_Election
begin

text \<open>
  Sending, receiving and settling handoffs: the packet (\<open>EntityHandoff/Packet/GenericEntityPacket.hpp\<close>),
  the packet manager (\<open>ServerHandoff/SH_HandoffPacketManager\<close>), the planner that finds the entities
  outside the shard's bounds (\<open>SH_BorderHandoffPlanner\<close>) and the mailbox of pending handoffs
  (\<open>SH_TransferMailbox\<close>). What a call sends is part of its result, in order. The outside is the record
  \<open>ho_env\<close>: the database connection and the printers, the registry's and the manifest's answers (the
  manifest's \<open>GetAllClaimedBounds\<close> is commented out in this tree, so its answer is a parameter), the
  clocks.
\<close>

section \<open>Packets\<close>

record generic_packet =
  gp_sender :: network_identity
  gp_entity :: ho_entity
  gp_version :: u8
  gp_transfer_tick :: u64
  gp_sent_at_ms :: u64

definition protocol_version :: u8 where
  "protocol_version = 2"

definition gp_ser :: "(ho_entity \<Rightarrow> writer \<Rightarrow> writer) \<Rightarrow> generic_packet \<Rightarrow> writer \<Rightarrow> writer" where
  "gp_ser ser p w =
    bw_write_scalar (gp_sent_at_ms p) (bw_write_scalar (gp_transfer_tick p) (bw_write_scalar (gp_version p)
      (ser (gp_entity p) (nid_ser (gp_sender p) w))))"

definition gp_des :: "(reader, ho_entity) stm \<Rightarrow> (reader, generic_packet) stm" where
  "gp_des des = bindS nid_des (\<lambda>s. bindS des (\<lambda>e. bindS br_read_scalar (\<lambda>v. bindS br_read_scalar (\<lambda>t.
     bindS br_read_scalar (\<lambda>m. returnS \<lparr> gp_sender = s, gp_entity = e, gp_version = v, gp_transfer_tick = t,
       gp_sent_at_ms = m \<rparr>)))))"

definition gp_valid :: "generic_packet \<Rightarrow> bool" where
  "gp_valid p \<longleftrightarrow> nid_type (gp_sender p) \<noteq> nt_invalid"

section \<open>The packet manager\<close>

text \<open>Whether the subscription and the callbacks of the runtime are in place.\<close>

record handoff_packets =
  hp_self :: network_identity
  hp_initialized :: bool
  hp_subscribed :: bool
  hp_callbacks :: bool

definition hp_init :: "network_identity \<Rightarrow> handoff_packets \<Rightarrow> handoff_packets" where
  "hp_init self p = p \<lparr> hp_self := self, hp_subscribed := True, hp_initialized := True \<rparr>"

definition hp_shutdown :: "handoff_packets \<Rightarrow> handoff_packets" where
  "hp_shutdown p = p \<lparr> hp_subscribed := False, hp_callbacks := False, hp_initialized := False \<rparr>"

definition hp_set_callbacks :: "bool \<Rightarrow> handoff_packets \<Rightarrow> handoff_packets" where
  "hp_set_callbacks b p = p \<lparr> hp_callbacks := b \<rparr>"

definition send_entity_probe :: "handoff_packets \<Rightarrow> u64 \<Rightarrow> network_identity \<Rightarrow> (network_identity \<times> generic_packet) list" where
  "send_entity_probe p now_ms target =
    (if \<not> hp_initialized p then []
     else [(target, \<lparr> gp_sender = hp_self p,
       gp_entity = \<lparr> ho_id = 0, ho_transform = \<lparr> tr_world = 0, tr_position = \<lparr> vx = 0, vy = 0, vz = 0 \<rparr>, tr_bounding_box = aabb_new 3 \<rparr>,
         ho_is_client = False, ho_client_id = nil_uuid, ho_metadata = [] \<rparr>,
       gp_version = protocol_version, gp_transfer_tick = 0, gp_sent_at_ms = now_ms \<rparr>)])"

definition send_entity_handoff ::
  "handoff_packets \<Rightarrow> u64 \<Rightarrow> network_identity \<Rightarrow> ho_entity \<Rightarrow> u64 \<Rightarrow> (network_identity \<times> generic_packet) list" where
  "send_entity_handoff p now_ms target e time =
    (if \<not> hp_initialized p then []
     else [(target, \<lparr> gp_sender = hp_self p, gp_entity = e, gp_version = protocol_version, gp_transfer_tick = time,
       gp_sent_at_ms = now_ms \<rparr>)])"

text \<open>The arguments of the two callbacks, when they are called.\<close>

definition on_generic_entity_packet ::
  "(bytes \<Rightarrow> string) \<Rightarrow> handoff_packets \<Rightarrow> generic_packet \<Rightarrow> (network_identity \<times> ho_entity \<times> network_identity \<times> u64) option" where
  "on_generic_entity_packet us p pkt =
    (if \<not> hp_initialized p then None
     else if nid_eq us (gp_sender pkt) (hp_self p) then None
     else if hp_callbacks p then Some (gp_sender pkt, gp_entity pkt, gp_sender pkt, gp_transfer_tick pkt) else None)"

section \<open>The outside\<close>

text \<open>The clocks that a call reads while it writes a row are indexed by the occasion: \<open>0\<close> when a handoff starts,
  \<open>1\<close> when it is adopted and \<open>2\<close> when it is committed; \<open>0\<close> for the publication after a commit and \<open>1\<close> for
  the regular one.\<close>

record 'db ho_env =
  he_us :: "bytes \<Rightarrow> string"
  he_conn :: "'db redis_connection"
  he_ser :: "ho_entity \<Rightarrow> writer \<Rightarrow> writer"
  he_fmt :: "f32 \<Rightarrow> bytes"
  he_registry :: "'db \<Rightarrow> network_identity list res"
  he_claims :: "'db \<Rightarrow> (network_identity \<times> grid_shape) list"
  he_now :: int
  he_now_us :: u64
  he_now_ms :: u64
  he_row_us :: "nat \<Rightarrow> u64 \<Rightarrow> u64"
  he_row_ms :: "nat \<Rightarrow> u64 \<Rightarrow> int"

section \<open>The mailbox\<close>

record pending_incoming =
  pi_entity :: ho_entity
  pi_sender :: network_identity
  pi_time :: u64

record pending_outgoing =
  po_entity_id :: u64
  po_target :: network_identity
  po_time :: u64

record mailbox =
  mb_self :: network_identity
  mb_incoming :: "(u64 \<times> pending_incoming) list"
  mb_outgoing :: "(u64 \<times> pending_outgoing) list"

definition mailbox_new :: "network_identity \<Rightarrow> mailbox" where
  "mailbox_new self = \<lparr> mb_self = self, mb_incoming = [], mb_outgoing = [] \<rparr>"

definition mailbox_reset :: "mailbox \<Rightarrow> mailbox" where
  "mailbox_reset m = m \<lparr> mb_incoming := [], mb_outgoing := [] \<rparr>"

definition queue_incoming :: "ho_entity \<Rightarrow> network_identity \<Rightarrow> u64 \<Rightarrow> mailbox \<Rightarrow> mailbox" where
  "queue_incoming e sender time m =
    m \<lparr> mb_incoming := map_put (ho_id e) \<lparr> pi_entity = e, pi_sender = sender, pi_time = time \<rparr> (mb_incoming m) \<rparr>"

text \<open>The loop over the pending entries; its result has the ids it adopted.\<close>

fun adopt_loop ::
  "'db ho_env \<Rightarrow> 's sim_ops \<Rightarrow> network_identity \<Rightarrow> (u64 \<times> pending_incoming) list \<Rightarrow> 's \<times> 'db \<Rightarrow> 's \<times> 'db \<times> u64 list" where
  "adopt_loop E S self [] (s, db) = (s, db, [])"
| "adopt_loop E S self ((i, h) # m) (s, db) =
    (if he_now_us E < pi_time h then adopt_loop E S self m (s, db)
     else
       let db' = mark_incoming_adopted (he_us E) (he_conn E) i (pi_sender h) self (pi_time h) (he_row_us E 1 i) db;
           (s', db'', ids) = adopt_loop E S self m (so_adopt S (pi_entity h) s, db')
       in (s', db'', i # ids))"

definition adopt_incoming_if_due :: "'db ho_env \<Rightarrow> 's sim_ops \<Rightarrow> mailbox \<times> 's \<times> 'db \<Rightarrow> nat \<times> mailbox \<times> 's \<times> 'db" where
  "adopt_incoming_if_due E S = (\<lambda>(m, s, db).
    if mb_incoming m = [] then (0, m, s, db)
    else
      let (s, db, ids) = adopt_loop E S (mb_self m) (mb_incoming m) (s, db)
      in (length ids, m \<lparr> mb_incoming := foldl (\<lambda>m i. map_erase i m) (mb_incoming m) ids \<rparr>, s, db))"

definition add_pending_outgoing :: "mailbox \<Rightarrow> pending_outgoing \<Rightarrow> mailbox" where
  "add_pending_outgoing m h = m \<lparr> mb_outgoing := map_put (po_entity_id h) h (mb_outgoing m) \<rparr>"

definition clear_pending_outgoing :: "mailbox \<Rightarrow> mailbox" where
  "clear_pending_outgoing m = m \<lparr> mb_outgoing := [] \<rparr>"

definition has_pending_incoming :: "mailbox \<Rightarrow> bool" where
  "has_pending_incoming m \<longleftrightarrow> mb_incoming m \<noteq> []"

definition has_pending_outgoing :: "mailbox \<Rightarrow> bool" where
  "has_pending_outgoing m \<longleftrightarrow> mb_outgoing m \<noteq> []"

text \<open>The loop of the commit, with the ids committed and the ids cancelled.\<close>

fun commit_loop ::
  "'db ho_env \<Rightarrow> 's sim_ops \<Rightarrow> network_identity \<Rightarrow> (u64 \<times> pending_outgoing) list \<Rightarrow> 's \<times> tracker \<times> 'db \<Rightarrow>
   's \<times> tracker \<times> 'db \<times> u64 list \<times> u64 list" where
  "commit_loop E S self [] (s, t, db) = (s, t, db, [], [])"
| "commit_loop E S self ((i, h) # m) (s, t, db) =
    (if he_now_us E < po_time h then commit_loop E S self m (s, t, db)
     else if \<not> is_passing_to (he_us E) i (po_target h) t
     then
       let (s, t, db, committed, canceled) = commit_loop E S self m (s, t, mark_transfer_canceled (he_conn E) i db)
       in (s, t, db, committed, i # canceled)
     else
       let db' = mark_outgoing_committed (he_us E) (he_conn E) i self (po_target h) (he_row_us E 2 i) db;
           (s, t, db, committed, canceled) = commit_loop E S self m (so_remove S i s, tracker_remove_entity i t, db')
       in (s, t, db, i # committed, canceled))"

definition commit_outgoing_if_due ::
  "'db ho_env \<Rightarrow> 's sim_ops \<Rightarrow> mailbox \<times> 's \<times> tracker \<times> 'db \<Rightarrow> nat \<times> mailbox \<times> 's \<times> tracker \<times> 'db" where
  "commit_outgoing_if_due E S = (\<lambda>(m, s, t, db).
    if mb_outgoing m = [] then (0, m, s, t, db)
    else
      let (s, t, db, committed, canceled) = commit_loop E S (mb_self m) (mb_outgoing m) (s, t, db);
          out = foldl (\<lambda>m i. map_erase i m) (mb_outgoing m) committed;
          out = foldl (\<lambda>m i. map_erase i m) out canceled;
          db = (if committed \<noteq> [] then publish_from_tracker (he_ser E) (he_fmt E) (he_us E) (he_row_ms E 0) (he_conn E) (mb_self m) t db else db)
      in (length committed, m \<lparr> mb_outgoing := out \<rparr>, s, t, db))"

section \<open>The planner\<close>

definition select_target_claim_key ::
  "(bytes \<Rightarrow> string) \<Rightarrow> (network_identity \<times> grid_shape) list \<Rightarrow> network_identity \<Rightarrow> vec3 \<Rightarrow> network_identity" where
  "select_target_claim_key us claims self p =
    (case find (\<lambda>(k, b). \<not> nid_eq us k self \<and> grid_shape_contains b p) claims of
       None \<Rightarrow> nid_new | Some (k, b) \<Rightarrow> k)"

definition resolve_identity ::
  "(bytes \<Rightarrow> string) \<Rightarrow> network_identity \<Rightarrow> network_identity list \<Rightarrow> network_identity option" where
  "resolve_identity us key servers = find (\<lambda>i. nid_eq us i key) servers"

definition delay_us :: "int \<Rightarrow> u64" where
  "delay_us d = (if 0 < d then word_of_int d else 0)"

text \<open>The body of the loop for one entity. The state is the tracker, what was sent, the outgoing handoffs
  and the database.\<close>

definition plan_one ::
  "'db ho_env \<Rightarrow> int \<Rightarrow> handoff_packets \<Rightarrow> network_identity \<Rightarrow> (network_identity \<times> grid_shape) list \<Rightarrow> grid_shape \<Rightarrow>
   ho_entity \<Rightarrow> tracker \<times> (network_identity \<times> generic_packet) list \<times> pending_outgoing list \<times> 'db \<Rightarrow>
   (tracker \<times> (network_identity \<times> generic_packet) list \<times> pending_outgoing list \<times> 'db) res" where
  "plan_one E handoff_delay pm self claims self_bounds e = (\<lambda>(t, sent, outs, db).
    if is_passing (ho_id e) t then Inr (t, sent, outs, db)
    else
      let p = tr_position (ho_transform e)
      in if grid_shape_contains self_bounds p then Inr (mark_authoritative (ho_id e) t, sent, outs, db)
         else
           let key = select_target_claim_key (he_us E) claims self p
           in bindE (he_registry E db) (\<lambda>servers.
             case resolve_identity (he_us E) key servers of
               None \<Rightarrow> Inr (t, sent, outs, db)
             | Some target \<Rightarrow>
                 if nid_eq (he_us E) target self then Inr (t, sent, outs, db)
                 else case mark_passing (he_us E) (ho_id e) target t of
                   (False, t) \<Rightarrow> Inr (t, sent, outs, db)
                 | (True, t) \<Rightarrow>
                     let time = he_now_us E + delay_us handoff_delay;
                         sent = sent @ send_entity_handoff pm (he_now_ms E) target e time;
                         db = mark_transfer_started (he_us E) (he_conn E) (ho_id e) self target time (he_row_us E 0 (ho_id e)) db
                     in Inr (t, sent, outs @ [\<lparr> po_entity_id = ho_id e, po_target = target, po_time = time \<rparr>], db)))"

fun plan_loop ::
  "'db ho_env \<Rightarrow> int \<Rightarrow> handoff_packets \<Rightarrow> network_identity \<Rightarrow> (network_identity \<times> grid_shape) list \<Rightarrow> grid_shape \<Rightarrow>
   ho_entity list \<Rightarrow> tracker \<times> (network_identity \<times> generic_packet) list \<times> pending_outgoing list \<times> 'db \<Rightarrow>
   (tracker \<times> (network_identity \<times> generic_packet) list \<times> pending_outgoing list \<times> 'db) res" where
  "plan_loop E d pm self claims b [] x = Inr x"
| "plan_loop E d pm self claims b (e # es) x =
    bindE (plan_one E d pm self claims b e x) (plan_loop E d pm self claims b es)"

definition plan_and_send_all ::
  "'db ho_env \<Rightarrow> int \<Rightarrow> handoff_packets \<Rightarrow> network_identity \<Rightarrow> tracker \<times> 'db \<Rightarrow>
   (tracker \<times> (network_identity \<times> generic_packet) list \<times> pending_outgoing list \<times> 'db) res" where
  "plan_and_send_all E d pm self = (\<lambda>(t, db).
    let claims = he_claims E db
    in if claims = [] then Inr (t, [], [], db)
       else case id_find (he_us E) self claims of
         None \<Rightarrow> Inr (t, [], [], db)
       | Some b \<Rightarrow> plan_loop E d pm self claims b (get_owned_entity_snapshots t) (t, [], [], db))"

section \<open>Who is passing\<close>

text \<open>The abstract state of the tracker: the target of each entity that is being passed on.\<close>

definition passing :: "tracker \<Rightarrow> u64 \<Rightarrow> network_identity option" where
  "passing t i = get_passing_target i t"

lemma passing_entry:
  "passing t i = (case map_of t i of None \<Rightarrow> None | Some a \<Rightarrow> if ae_state a = Passing then ae_passing_to a else None)"
  by (auto simp: passing_def get_passing_target_def split: option.split)

lemma is_passing_iff: "is_passing i t \<longleftrightarrow> passing t i \<noteq> None"
  by (auto simp: passing_entry is_passing_def split: option.split)

lemma is_passing_to_iff: "is_passing_to us i x t \<longleftrightarrow> (\<exists>p. passing t i = Some p \<and> nid_eq us p x)"
  by (auto simp: passing_entry is_passing_to_def split: option.split)

lemma passing_authoritative: "passing (mark_authoritative i t) = (passing t)(i := None)"
  by (auto simp: passing_entry mark_authoritative_def fun_eq_iff split: option.split)

lemma passing_marked:
  "mark_passing us i x t = (True, t') \<Longrightarrow> passing t' = (passing t)(i \<mapsto> x)"
  "mark_passing us i x t = (False, t') \<Longrightarrow> t' = t"
  by (auto simp: passing_entry mark_passing_def fun_eq_iff split: option.splits if_splits)

lemma passing_removed: "passing (tracker_remove_entity i t) = (passing t)(i := None)"
  by (auto simp: passing_entry tracker_remove_entity_def fun_eq_iff split: option.split)

lemma passing_owned: "passing (set_owned_entities es t) i = (if i \<in> ho_id ` set es then passing t i else None)"
proof -
  have "find (\<lambda>e. ho_id e = i) (rev es) = None \<longleftrightarrow> i \<notin> ho_id ` set es" by (auto simp: find_None_iff)
  then show ?thesis
    by (cases "find (\<lambda>e. ho_id e = i) (rev es)") (auto simp: passing_entry set_owned_tracked tracked_def split: option.splits)
qed

section \<open>What the planner does\<close>

text \<open>One entity either changes nothing in this respect or is sent.\<close>

lemma plan_one_view:
  assumes "plan_one E d pm self claims b e (t, sent, outs, db) = Inr (t', sent', outs', db')"
  shows "passing t' = passing t \<and> sent' = sent \<and> outs' = outs \<or>
    (\<exists>x time. passing t (ho_id e) = None \<and> passing t' = (passing t)(ho_id e \<mapsto> x) \<and> \<not> nid_eq (he_us E) x self \<and>
       sent' = sent @ send_entity_handoff pm (he_now_ms E) x e time \<and>
       outs' = outs @ [\<lparr> po_entity_id = ho_id e, po_target = x, po_time = time \<rparr>])"
proof (cases "is_passing (ho_id e) t \<or> grid_shape_contains b (tr_position (ho_transform e))")
  case True
  then show ?thesis using assms is_passing_iff [of "ho_id e" t]
    by (auto simp: plan_one_def passing_authoritative fun_upd_idem split: if_splits)
next
  case False
  then obtain servers where "he_registry E db = Inr servers"
    using assms by (auto simp: plan_one_def bindE_def split: sum.splits)
  with False assms show ?thesis
    using is_passing_iff [of "ho_id e" t]
    by (auto simp: plan_one_def bindE_def Let_def dest!: passing_marked split: option.splits if_splits prod.splits bool.splits)
qed

text \<open>What was sent, and what is noted as outgoing, for a list of entities with target and time.\<close>

definition sent_for :: "handoff_packets \<Rightarrow> u64 \<Rightarrow> (ho_entity \<times> network_identity \<times> u64) list \<Rightarrow> (network_identity \<times> generic_packet) list" where
  "sent_for pm ms new = concat (map (\<lambda>(e, x, time). send_entity_handoff pm ms x e time) new)"

definition outs_for :: "(ho_entity \<times> network_identity \<times> u64) list \<Rightarrow> pending_outgoing list" where
  "outs_for new = map (\<lambda>(e, x, time). \<lparr> po_entity_id = ho_id e, po_target = x, po_time = time \<rparr>) new"

definition targets_of :: "(ho_entity \<times> network_identity \<times> u64) list \<Rightarrow> (u64 \<times> network_identity) list" where
  "targets_of new = map (\<lambda>(e, x, time). (ho_id e, x)) new"

lemma new_Cons:
  "sent_for pm ms ((e, x, time) # new) = send_entity_handoff pm ms x e time @ sent_for pm ms new"
  "outs_for ((e, x, time) # new) = \<lparr> po_entity_id = ho_id e, po_target = x, po_time = time \<rparr> # outs_for new"
  "targets_of ((e, x, time) # new) = (ho_id e, x) # targets_of new"
  by (simp_all add: sent_for_def outs_for_def targets_of_def)

lemma map_add_front: "k \<notin> fst ` set al \<Longrightarrow> m(k \<mapsto> v) ++ map_of al = m ++ map_of ((k, v) # al)"
  by (auto simp: fun_eq_iff map_add_def map_of_eq_None_iff [symmetric] split: option.split)

lemma plan_loop_view:
  assumes "plan_loop E d pm self claims b es (t, sent, outs, db) = Inr (t', sent', outs', db')"
  shows "\<exists>new. sent' = sent @ sent_for pm (he_now_ms E) new \<and> outs' = outs @ outs_for new \<and>
    passing t' = passing t ++ map_of (targets_of new) \<and> distinct (map fst (targets_of new)) \<and>
    (\<forall>(i, x)\<in>set (targets_of new). i \<in> ho_id ` set es \<and> passing t i = None \<and> \<not> nid_eq (he_us E) x self)"
  using assms
proof (induction es arbitrary: t sent outs db)
  case Nil
  then show ?case by (intro exI [of _ "[]"]) (simp add: sent_for_def outs_for_def targets_of_def)
next
  case (Cons e es)
  obtain t1 s1 o1 d1 where 1: "plan_one E d pm self claims b e (t, sent, outs, db) = Inr (t1, s1, o1, d1)"
    and 2: "plan_loop E d pm self claims b es (t1, s1, o1, d1) = Inr (t', sent', outs', db')"
    using Cons.prems by (auto simp: bindE_def split: sum.splits)
  obtain new where n: "sent' = s1 @ sent_for pm (he_now_ms E) new" "outs' = o1 @ outs_for new"
    "passing t' = passing t1 ++ map_of (targets_of new)" "distinct (map fst (targets_of new))"
    "\<forall>(i, x)\<in>set (targets_of new). i \<in> ho_id ` set es \<and> passing t1 i = None \<and> \<not> nid_eq (he_us E) x self"
    using Cons.IH [OF 2] by blast
  from plan_one_view [OF 1] show ?case
  proof (elim disjE exE conjE)
    assume a: "passing t1 = passing t" "s1 = sent" "o1 = outs"
    show ?thesis by (rule exI [of _ new]) (use n a in auto)
  next
    fix x time
    assume a: "passing t (ho_id e) = None" "passing t1 = (passing t)(ho_id e \<mapsto> x)" "\<not> nid_eq (he_us E) x self"
      "s1 = sent @ send_entity_handoff pm (he_now_ms E) x e time"
      "o1 = outs @ [\<lparr> po_entity_id = ho_id e, po_target = x, po_time = time \<rparr>]"
    have f: "ho_id e \<notin> fst ` set (targets_of new)" using n(5) a(2) by fastforce
    have p: "\<forall>(i, y)\<in>set (targets_of new). passing t i = None" using n(5) a(2) by (auto split: if_splits)
    show ?thesis
    proof (intro exI [of _ "(e, x, time) # new"] conjI)
      show "passing t' = passing t ++ map_of (targets_of ((e, x, time) # new))"
        unfolding n(3) a(2) new_Cons by (rule map_add_front [OF f])
      show "\<forall>(i, y)\<in>set (targets_of ((e, x, time) # new)). i \<in> ho_id ` set (e # es) \<and> passing t i = None \<and> \<not> nid_eq (he_us E) y self"
        using n(5) a(1,3) p unfolding new_Cons by auto
    qed (use n(1,2,4) a(4,5) f in \<open>simp_all add: new_Cons\<close>)
  qed
qed

text \<open>The tracker stays well-formed.\<close>

lemma plan_one_tracker:
  assumes "tracker_ok t" "plan_one E d pm self claims b e (t, sent, outs, db) = Inr (t', sent', outs', db')"
  shows "tracker_ok t'"
proof -
  have "t' \<in> {t, mark_authoritative (ho_id e) t} \<or> (\<exists>us i x. t' = snd (mark_passing us i x t))"
    using assms(2) by (auto simp: plan_one_def bindE_def Let_def prod_eq_iff split: option.splits if_splits prod.splits bool.splits sum.splits)
  then show ?thesis using tracker_ok_ops [OF assms(1)] assms(1) by auto
qed

lemma plan_loop_tracker:
  "tracker_ok t \<Longrightarrow> plan_loop E d pm self claims b es (t, sent, outs, db) = Inr (t', sent', outs', db') \<Longrightarrow> tracker_ok t'"
proof (induction es arbitrary: t sent outs db)
  case (Cons e es)
  then obtain t1 s1 o1 d1 where 1: "plan_one E d pm self claims b e (t, sent, outs, db) = Inr (t1, s1, o1, d1)"
    and 2: "plan_loop E d pm self claims b es (t1, s1, o1, d1) = Inr (t', sent', outs', db')"
    by (auto simp: bindE_def split: sum.splits)
  from Cons.IH [OF plan_one_tracker [OF Cons.prems(1) 1] 2] show ?case .
qed simp

lemma commit_loop_tracker:
  "tracker_ok t \<Longrightarrow> tracker_ok (fst (snd (commit_loop E S self m (s, t, db))))"
  by (induction E S self m "(s, t, db)" arbitrary: s t db rule: commit_loop.induct)
    (auto simp: Let_def case_prod_beta tracker_ok_ops)

lemma plan_view:
  assumes "plan_and_send_all E d pm self (t, db) = Inr (t', sent, outs, db')" "tracker_ok t"
  shows "\<exists>new. sent = sent_for pm (he_now_ms E) new \<and> outs = outs_for new \<and>
    passing t' = passing t ++ map_of (targets_of new) \<and> distinct (map fst (targets_of new)) \<and> tracker_ok t' \<and>
    (\<forall>(i, x)\<in>set (targets_of new). i \<in> fst ` set t \<and> passing t i = None \<and> \<not> nid_eq (he_us E) x self)"
proof (cases "he_claims E db = [] \<or> id_find (he_us E) self (he_claims E db) = None")
  case True
  then show ?thesis using assms
    by (intro exI [of _ "[]"]) (auto simp: plan_and_send_all_def Let_def sent_for_def outs_for_def targets_of_def split: if_splits)
next
  case False
  then obtain b where "plan_loop E d pm self (he_claims E db) b (get_owned_entity_snapshots t) (t, [], [], db) = Inr (t', sent, outs, db')"
    using assms(1) by (auto simp: plan_and_send_all_def Let_def)
  note l = plan_loop_view [OF this] plan_loop_tracker [OF assms(2) this]
  have "ho_id ` set (get_owned_entity_snapshots t) = fst ` set t"
    using assms(2) by (force simp: get_owned_entity_snapshots_def tracker_ok_def)
  then show ?thesis using l by auto
qed

text \<open>The ids of what is sent.\<close>

lemma sent_for_ids:
  assumes "hp_initialized pm"
  shows "map (\<lambda>(x, pkt). (ho_id (gp_entity pkt), x)) (sent_for pm ms new) = targets_of new"
    and "(x, pkt) \<in> set (sent_for pm ms new) \<Longrightarrow> gp_sender pkt = hp_self pm"
  using assms by (induction new) (auto simp: sent_for_def targets_of_def send_entity_handoff_def)

section \<open>What the mailbox does\<close>

definition mailbox_ok :: "mailbox \<Rightarrow> bool" where
  "mailbox_ok m \<longleftrightarrow> distinct (map fst (mb_incoming m)) \<and> distinct (map fst (mb_outgoing m)) \<and>
    (\<forall>(i, h)\<in>set (mb_incoming m). ho_id (pi_entity h) = i)"

definition due_incoming :: "u64 \<Rightarrow> mailbox \<Rightarrow> u64 list" where
  "due_incoming now m = map fst (filter (\<lambda>(i, h). pi_time h \<le> now) (mb_incoming m))"

definition due_outgoing :: "u64 \<Rightarrow> (u64 \<times> pending_outgoing) list \<Rightarrow> u64 list" where
  "due_outgoing now m = map fst (filter (\<lambda>(i, h). po_time h \<le> now) m)"

lemma erase_ids: "foldl (\<lambda>m i. map_erase i m) m is = filter (\<lambda>x. fst x \<notin> set is) m"
  by (induction "is" arbitrary: m) (auto simp: map_erase_def intro: filter_cong)

lemma passing_removed_all: "passing (foldl (\<lambda>t i. tracker_remove_entity i t) t is) = (\<lambda>i. if i \<in> set is then None else passing t i)"
  by (induction "is" arbitrary: t) (auto simp: passing_removed fun_eq_iff)

context simulator
begin

lemma adopt_loop_view:
  assumes "inv s" "\<forall>(i, h)\<in>set m. ho_id (pi_entity h) = i"
  shows "\<exists>s' db'. adopt_loop E S self m (s, db) = (s', db', map fst (filter (\<lambda>(i, h). pi_time h \<le> he_now_us E) m)) \<and> inv s' \<and>
    sim_ids S s' = sim_ids S s \<union> set (map fst (filter (\<lambda>(i, h). pi_time h \<le> he_now_us E) m))"
  using assms
proof (induction m arbitrary: s db)
  case (Cons y m)
  obtain i h where y: "y = (i, h)" by (cases y)
  have m: "\<forall>(i, h)\<in>set m. ho_id (pi_entity h) = i" using Cons.prems(2) by simp
  show ?case
  proof (cases "he_now_us E < pi_time h")
    case True
    then show ?thesis using Cons.IH [OF Cons.prems(1) m, of db] by (auto simp: y not_le)
  next
    case False
    define db1 where "db1 = mark_incoming_adopted (he_us E) (he_conn E) i (pi_sender h) self (pi_time h) (he_row_us E 1 i) db"
    have a: "inv (so_adopt S (pi_entity h) s)" "sim_ids S (so_adopt S (pi_entity h) s) = insert i (sim_ids S s)"
      using adopt [OF Cons.prems(1), of "pi_entity h"] Cons.prems(2) by (simp_all add: y)
    then show ?thesis using False Cons.IH [OF a(1) m, of db1]
      by (auto simp: y not_less simp flip: db1_def simp del: One_nat_def)
  qed
qed simp

lemma adopt_view:
  assumes "inv s" "mailbox_ok m"
  shows "\<exists>m' s' db'. adopt_incoming_if_due E S (m, s, db) = (length (due_incoming (he_now_us E) m), m', s', db') \<and> inv s' \<and>
    sim_ids S s' = sim_ids S s \<union> set (due_incoming (he_now_us E) m) \<and> mb_outgoing m' = mb_outgoing m \<and> mailbox_ok m' \<and>
    fst ` set (mb_incoming m') = fst ` set (mb_incoming m) - set (due_incoming (he_now_us E) m)"
proof -
  have m: "\<forall>(i, h)\<in>set (mb_incoming m). ho_id (pi_entity h) = i" using assms(2) by (simp add: mailbox_ok_def)
  obtain s' db' where l: "adopt_loop E S (mb_self m) (mb_incoming m) (s, db) = (s', db', due_incoming (he_now_us E) m)" "inv s'"
    "sim_ids S s' = sim_ids S s \<union> set (due_incoming (he_now_us E) m)"
    using adopt_loop_view [OF assms(1) m, of E "mb_self m" db] by (auto simp: due_incoming_def)
  show ?thesis
  proof (cases "mb_incoming m = []")
    case True
    then show ?thesis using assms by (simp add: adopt_incoming_if_due_def due_incoming_def)
  next
    case False
    then show ?thesis using l assms(2)
      by (auto simp: adopt_incoming_if_due_def erase_ids mailbox_ok_def distinct_map_filter)
  qed
qed

lemma commit_loop_view:
  assumes "inv s" "distinct (map fst m)" "\<forall>(i, h)\<in>set m. passing t i = Some (po_target h)"
  shows "\<exists>s' t' db'. commit_loop E S self m (s, t, db) = (s', t', db', due_outgoing (he_now_us E) m, []) \<and> inv s' \<and>
    sim_ids S s' = sim_ids S s - set (due_outgoing (he_now_us E) m) \<and>
    passing t' = (\<lambda>i. if i \<in> set (due_outgoing (he_now_us E) m) then None else passing t i)"
  using assms
proof (induction m arbitrary: s t db)
  case (Cons y m)
  obtain i h where y: "y = (i, h)" by (cases y)
  show ?case
  proof (cases "he_now_us E < po_time h")
    case True
    then show ?thesis using Cons.IH [OF Cons.prems(1), of t db] Cons.prems(2,3) by (auto simp: y due_outgoing_def not_le)
  next
    case False
    define db1 where "db1 = mark_outgoing_committed (he_us E) (he_conn E) i self (po_target h) (he_row_us E 2 i) db"
    have r: "inv (so_remove S i s)" "sim_ids S (so_remove S i s) = sim_ids S s - {i}" using remove [OF Cons.prems(1)] by simp_all
    have i: "is_passing_to (he_us E) i (po_target h) t" using Cons.prems(3) by (simp add: y is_passing_to_iff)
    have m: "\<forall>(j, h)\<in>set m. passing (tracker_remove_entity i t) j = Some (po_target h)"
    proof -
      have "i \<notin> fst ` set m" using Cons.prems(2) by (simp add: y)
      then have "j \<noteq> i" if "(j, h) \<in> set m" for j h using that by force
      then show ?thesis using Cons.prems(3) by (fastforce simp: y passing_removed)
    qed
    obtain s' t' db' where "commit_loop E S self m (so_remove S i s, tracker_remove_entity i t, db1) =
        (s', t', db', due_outgoing (he_now_us E) m, [])" "inv s'"
      "sim_ids S s' = sim_ids S s - {i} - set (due_outgoing (he_now_us E) m)"
      "passing t' = (\<lambda>j. if j \<in> set (due_outgoing (he_now_us E) m) then None else passing (tracker_remove_entity i t) j)"
      using Cons.IH [OF r(1) _ m, of db1] Cons.prems(2) r(2) by (auto simp: y)
    then show ?thesis using False i by (auto simp: y due_outgoing_def not_less passing_removed fun_eq_iff simp flip: db1_def)
  qed
qed (simp add: due_outgoing_def)

lemma commit_view:
  assumes "inv s" "mailbox_ok m" "passing t = map_option po_target \<circ> map_of (mb_outgoing m)" "tracker_ok t"
  shows "\<exists>m' s' t' db'. commit_outgoing_if_due E S (m, s, t, db) =
      (length (due_outgoing (he_now_us E) (mb_outgoing m)), m', s', t', db') \<and> inv s' \<and>
    sim_ids S s' = sim_ids S s - set (due_outgoing (he_now_us E) (mb_outgoing m)) \<and> mailbox_ok m' \<and>
    mb_incoming m' = mb_incoming m \<and>
    fst ` set (mb_outgoing m') = fst ` set (mb_outgoing m) - set (due_outgoing (he_now_us E) (mb_outgoing m)) \<and>
    passing t' = map_option po_target \<circ> map_of (mb_outgoing m') \<and> tracker_ok t'"
proof -
  let ?due = "due_outgoing (he_now_us E) (mb_outgoing m)"
  have d: "distinct (map fst (mb_outgoing m))" using assms(2) by (simp add: mailbox_ok_def)
  have p: "\<forall>(i, h)\<in>set (mb_outgoing m). passing t i = Some (po_target h)"
    using map_of_is_SomeI [OF d] assms(3) by fastforce
  obtain s' t' db' where l: "commit_loop E S (mb_self m) (mb_outgoing m) (s, t, db) = (s', t', db', ?due, [])" "inv s'"
    "sim_ids S s' = sim_ids S s - set ?due" "passing t' = (\<lambda>i. if i \<in> set ?due then None else passing t i)"
    using commit_loop_view [OF assms(1) d p, of E "mb_self m" db] by blast
  have "tracker_ok t'" using commit_loop_tracker [OF assms(4), of E S "mb_self m" "mb_outgoing m" s db] by (simp add: l(1))
  show ?thesis
  proof (cases "mb_outgoing m = []")
    case True
    then show ?thesis using assms by (simp add: commit_outgoing_if_due_def due_outgoing_def)
  next
    case False
    have "map_of (filter (\<lambda>x. fst x \<notin> set ?due) (mb_outgoing m)) = (\<lambda>i. if i \<in> set ?due then None else map_of (mb_outgoing m) i)"
      by (auto simp: map_of_filter_keys restrict_map_def fun_eq_iff)
    then show ?thesis using False l assms(2,3) \<open>tracker_ok t'\<close>
      by (auto simp: commit_outgoing_if_due_def erase_ids mailbox_ok_def distinct_map_filter fun_eq_iff)
  qed
qed

end

end
