(* ===== verification/Handoff_Runtime.thy ===== *)
theory Handoff_Runtime
  imports Handoff_Mailbox
begin

text \<open>
  The handoff of one shard (\<open>ServerHandoff/SH_ServerAuthorityRuntime\<close>) behind its facade
  (\<open>SH_ServerAuthorityManager\<close>), and shards that hand entities to each other over a network that
  delivers every packet once, in any order and after any time.
\<close>

section \<open>The runtime\<close>

text \<open>The parts that \<open>Init\<close> creates and \<open>Shutdown\<close> deletes together.\<close>

record 's ho_parts =
  pt_tracker :: tracker
  pt_sim :: 's
  pt_election :: election
  pt_mailbox :: mailbox

record 's ho_runtime =
  rt_self :: network_identity
  rt_initialized :: bool
  rt_seeded :: bool
  rt_last_tick :: int
  rt_last_snapshot :: int
  rt_parts :: "'s ho_parts option"

text \<open>A shard: its runtime and the two singletons the runtime drives.\<close>

record 's ho_node =
  nd_runtime :: "'s ho_runtime"
  nd_conn :: connection_manager
  nd_packets :: handoff_packets

definition snapshot_interval :: int where
  "snapshot_interval = 50000000"

definition transfer_delay :: int where
  "transfer_delay = 60000"

definition test_seed :: seed_options where
  "test_seed = seed_default \<lparr> sd_desired_count := 50, sd_half_extent := 0x3F000000, sd_phase_step := 0x3F333333,
     sd_speed := 0x41900000 \<rparr>"

definition test_tick :: "f32 \<Rightarrow> tick_options" where
  "test_tick delta = \<lparr> to_delta_seconds = delta, to_radius = 0x42340000, to_angular_speed = 0x3EB33333, to_refresh_ms = 1000 \<rparr>"

definition runtime_new :: "'s ho_runtime" where
  "runtime_new = \<lparr> rt_self = nid_new, rt_initialized = False, rt_seeded = False, rt_last_tick = 0, rt_last_snapshot = 0,
     rt_parts = None \<rparr>"

text \<open>\<open>s0\<close> is the state of a simulator just constructed.\<close>

definition runtime_init :: "'s sim_ops \<Rightarrow> 's \<Rightarrow> int \<Rightarrow> network_identity \<Rightarrow> 's ho_node \<Rightarrow> 's ho_node" where
  "runtime_init S s0 now self nd =
    nd \<lparr> nd_runtime := \<lparr> rt_self = self, rt_initialized = True, rt_seeded = False, rt_last_tick = now,
           rt_last_snapshot = now - snapshot_interval,
           rt_parts = Some \<lparr> pt_tracker = tracker_reset [], pt_sim = so_reset S s0,
             pt_election = election_reset now (election_new self), pt_mailbox = mailbox_reset (mailbox_new self) \<rparr> \<rparr>,
         nd_conn := cm_init self (nd_conn nd),
         nd_packets := hp_set_callbacks True (hp_init self (nd_packets nd)) \<rparr>"

text \<open>From the election to the commit. The result has the packets sent and the parts afterwards;
  \<open>seeded\<close> is the flag of the runtime. An exception leaves the tick.\<close>

definition tick_parts ::
  "'db ho_env \<Rightarrow> 's sim_ops \<Rightarrow> f32 \<Rightarrow> handoff_packets \<Rightarrow> network_identity \<Rightarrow> bool \<Rightarrow> 's ho_parts \<times> 'db \<Rightarrow>
   ((network_identity \<times> generic_packet) list \<times> bool \<times> 's ho_parts \<times> 'db) res" where
  "tick_parts E S delta pm self seeded = (\<lambda>(p, db).
    bindE (evaluate_ownership (he_us E) (he_conn E) (he_registry E) (he_now E) (pt_election p, db)) (\<lambda>(own, el, db).
    let (adopted, mb, s, db) = adopt_incoming_if_due E S (pt_mailbox p, pt_sim p, db)
    in bindE (if own \<and> \<not> seeded then so_seed S test_seed s else Inr s) (\<lambda>s.
       let seeded = (seeded \<or> own)
       in bindE (if 0 < so_count S s then so_tick S (test_tick delta) s else Inr s) (\<lambda>s.
       let t = set_owned_entities (so_snapshot S s) (pt_tracker p)
       in bindE (plan_and_send_all E transfer_delay pm self (t, db)) (\<lambda>(t, sent, outs, db).
       let mb = foldl add_pending_outgoing mb outs;
           (committed, mb, s, t, db) = commit_outgoing_if_due E S (mb, s, t, db);
           el = (if 0 < adopted \<or> 0 < committed \<or> outs \<noteq> [] then election_invalidate el else el);
           seeded = (if \<not> own \<and> tracker_count t = 0 \<and> \<not> has_pending_incoming mb \<and> \<not> has_pending_outgoing mb
                     then False else seeded)
       in Inr (sent, seeded, \<lparr> pt_tracker = t, pt_sim = s, pt_election = el, pt_mailbox = mb \<rparr>, db))))))"

text \<open>The whole tick. The result has the connections closed and the packets sent; \<open>secs\<close> converts a
  duration to seconds.\<close>

definition runtime_tick ::
  "'db ho_env \<Rightarrow> 's sim_ops \<Rightarrow> (int \<Rightarrow> f32) \<Rightarrow> 's ho_node \<times> 'db \<Rightarrow>
   (network_identity list \<times> (network_identity \<times> generic_packet) list \<times> 's ho_node \<times> 'db) res" where
  "runtime_tick E S secs = (\<lambda>(nd, db).
    let rt = nd_runtime nd
    in case rt_parts rt of
         None \<Rightarrow> Inr ([], [], nd, db)
       | Some p \<Rightarrow>
           if \<not> rt_initialized rt then Inr ([], [], nd, db)
           else
             let (closed, cm, db) = cm_tick (he_us E) (he_conn E) (he_now E) (nd_conn nd, db)
             in bindE (tick_parts E S (secs (he_now E - rt_last_tick rt)) (nd_packets nd) (rt_self rt) (rt_seeded rt) (p, db))
               (\<lambda>(sent, seeded, p, db).
                  let publish = snapshot_interval \<le> he_now E - rt_last_snapshot rt;
                      db = (if publish then publish_from_tracker (he_ser E) (he_fmt E) (he_us E) (he_row_ms E 1) (he_conn E)
                              (rt_self rt) (pt_tracker p) db else db)
                  in Inr (closed, sent,
                       nd \<lparr> nd_runtime := rt \<lparr> rt_seeded := seeded, rt_last_tick := he_now E,
                              rt_last_snapshot := (if publish then he_now E else rt_last_snapshot rt), rt_parts := Some p \<rparr>,
                            nd_conn := cm \<rparr>, db)))"

definition runtime_shutdown :: "'db ho_env \<Rightarrow> 's ho_node \<times> 'db \<Rightarrow> network_identity list \<times> 's ho_node \<times> 'db" where
  "runtime_shutdown E = (\<lambda>(nd, db).
    if \<not> rt_initialized (nd_runtime nd) then ([], nd, db)
    else
      let pm = hp_shutdown (hp_set_callbacks False (nd_packets nd));
          (closed, cm, db) = cm_shutdown (he_us E) (he_conn E) (nd_conn nd, db)
      in (closed, nd \<lparr> nd_runtime := (nd_runtime nd) \<lparr> rt_parts := None, rt_initialized := False \<rparr>,
           nd_conn := cm, nd_packets := pm \<rparr>, db))"

definition on_incoming_at_time :: "ho_entity \<Rightarrow> network_identity \<Rightarrow> u64 \<Rightarrow> 's ho_runtime \<Rightarrow> 's ho_runtime" where
  "on_incoming_at_time e sender time rt =
    (case rt_parts rt of
       None \<Rightarrow> rt
     | Some p \<Rightarrow> rt \<lparr> rt_parts := Some (p \<lparr> pt_mailbox := queue_incoming e sender time (pt_mailbox p),
         pt_election := election_invalidate (pt_election p) \<rparr>) \<rparr>)"

definition on_incoming :: "ho_entity \<Rightarrow> network_identity \<Rightarrow> 's ho_runtime \<Rightarrow> 's ho_runtime" where
  "on_incoming e sender rt = on_incoming_at_time e sender 0 rt"

text \<open>A packet that arrives, with the callbacks that \<open>Init\<close> installs.\<close>

definition node_on_packet :: "'db ho_env \<Rightarrow> generic_packet \<Rightarrow> 's ho_node \<times> 'db \<Rightarrow> 's ho_node \<times> 'db" where
  "node_on_packet E pkt = (\<lambda>(nd, db).
    case on_generic_entity_packet (he_us E) (nd_packets nd) pkt of
      None \<Rightarrow> (nd, db)
    | Some (peer, e, sender, time) \<Rightarrow>
        let (cm, db) = cm_mark_activity (he_us E) (he_conn E) (he_now E) peer (nd_conn nd, db)
        in (nd \<lparr> nd_conn := cm, nd_runtime := on_incoming_at_time e sender time (nd_runtime nd) \<rparr>, db))"

section \<open>The facade\<close>

record 's ho_manager =
  mg_created :: bool
  mg_node :: "'s ho_node"

definition manager_init :: "'s sim_ops \<Rightarrow> 's \<Rightarrow> int \<Rightarrow> network_identity \<Rightarrow> 's ho_manager \<Rightarrow> 's ho_manager" where
  "manager_init S s0 now self m =
    (let nd = (if mg_created m then mg_node m else (mg_node m) \<lparr> nd_runtime := runtime_new \<rparr>)
     in \<lparr> mg_created = True, mg_node = runtime_init S s0 now self nd \<rparr>)"

definition manager_tick ::
  "'db ho_env \<Rightarrow> 's sim_ops \<Rightarrow> (int \<Rightarrow> f32) \<Rightarrow> 's ho_manager \<times> 'db \<Rightarrow>
   (network_identity list \<times> (network_identity \<times> generic_packet) list \<times> 's ho_manager \<times> 'db) res" where
  "manager_tick E S secs = (\<lambda>(m, db).
    if \<not> mg_created m then Inr ([], [], m, db)
    else bindE (runtime_tick E S secs (mg_node m, db)) (\<lambda>(closed, sent, nd, db). Inr (closed, sent, m \<lparr> mg_node := nd \<rparr>, db)))"

definition manager_shutdown :: "'db ho_env \<Rightarrow> 's ho_manager \<times> 'db \<Rightarrow> network_identity list \<times> 's ho_manager \<times> 'db" where
  "manager_shutdown E = (\<lambda>(m, db).
    if \<not> mg_created m then ([], m, db)
    else let (closed, nd, db) = runtime_shutdown E (mg_node m, db) in (closed, m \<lparr> mg_node := nd \<rparr>, db))"

definition manager_on_incoming_at_time :: "ho_entity \<Rightarrow> network_identity \<Rightarrow> u64 \<Rightarrow> 's ho_manager \<Rightarrow> 's ho_manager" where
  "manager_on_incoming_at_time e sender time m =
    (if \<not> mg_created m then m
     else m \<lparr> mg_node := (mg_node m) \<lparr> nd_runtime := on_incoming_at_time e sender time (nd_runtime (mg_node m)) \<rparr> \<rparr>)"

definition manager_on_incoming :: "ho_entity \<Rightarrow> network_identity \<Rightarrow> 's ho_manager \<Rightarrow> 's ho_manager" where
  "manager_on_incoming e sender m =
    (if \<not> mg_created m then m
     else m \<lparr> mg_node := (mg_node m) \<lparr> nd_runtime := on_incoming e sender (nd_runtime (mg_node m)) \<rparr> \<rparr>)"

definition manager_is_initialized :: "'s ho_manager \<Rightarrow> bool" where
  "manager_is_initialized m \<longleftrightarrow> mg_created m \<and> rt_initialized (nd_runtime (mg_node m))"

section \<open>The invariant of a shard\<close>

text \<open>The tracker passes exactly the pending outgoing entities, each to its target, and the simulation
  still has them.\<close>

definition parts_ok :: "'s sim_ops \<Rightarrow> ('s \<Rightarrow> bool) \<Rightarrow> 's ho_parts \<Rightarrow> bool" where
  "parts_ok S good p \<longleftrightarrow> good (pt_sim p) \<and> mailbox_ok (pt_mailbox p) \<and> tracker_ok (pt_tracker p) \<and>
    passing (pt_tracker p) = map_option po_target \<circ> map_of (mb_outgoing (pt_mailbox p)) \<and>
    fst ` set (mb_outgoing (pt_mailbox p)) \<subseteq> sim_ids S (pt_sim p)"

lemma added_outgoing:
  assumes "distinct (map fst (targets_of new))" "mailbox_ok mb"
  defines "mb' \<equiv> foldl add_pending_outgoing mb (outs_for new)"
  shows "map_option po_target \<circ> map_of (mb_outgoing mb') = (map_option po_target \<circ> map_of (mb_outgoing mb)) ++ map_of (targets_of new)"
    and "fst ` set (mb_outgoing mb') = fst ` set (mb_outgoing mb) \<union> fst ` set (targets_of new)"
    and "mb_incoming mb' = mb_incoming mb" "mailbox_ok mb'"
proof -
  have "map_option po_target \<circ> map_of (mb_outgoing (foldl add_pending_outgoing mb (outs_for new))) =
        (map_option po_target \<circ> map_of (mb_outgoing mb)) ++ map_of (targets_of new) \<and>
      fst ` set (mb_outgoing (foldl add_pending_outgoing mb (outs_for new))) = fst ` set (mb_outgoing mb) \<union> fst ` set (targets_of new) \<and>
      mb_incoming (foldl add_pending_outgoing mb (outs_for new)) = mb_incoming mb \<and> mailbox_ok (foldl add_pending_outgoing mb (outs_for new))"
    using assms(1,2)
  proof (induction new arbitrary: mb)
    case Nil
    then show ?case by (simp add: outs_for_def targets_of_def)
  next
    case (Cons y new)
    obtain e x time where y: "y = (e, x, time)" by (cases y)
    let ?m = "add_pending_outgoing mb \<lparr> po_entity_id = ho_id e, po_target = x, po_time = time \<rparr>"
    have d: "distinct (map fst (targets_of new))" and f: "ho_id e \<notin> fst ` set (targets_of new)"
      using Cons.prems(1) by (simp_all add: y new_Cons)
    have m: "mailbox_ok ?m" "mb_incoming ?m = mb_incoming mb" "fst ` set (mb_outgoing ?m) = insert (ho_id e) (fst ` set (mb_outgoing mb))"
      using Cons.prems(2) by (simp_all add: add_pending_outgoing_def mailbox_ok_def distinct_put fst_put)
    have u: "map_option po_target \<circ> map_of (mb_outgoing ?m) = (map_option po_target \<circ> map_of (mb_outgoing mb))(ho_id e \<mapsto> x)"
      by (simp add: add_pending_outgoing_def fun_eq_iff)
    from Cons.IH [OF d m(1)] show ?case
      unfolding u m(2,3) y new_Cons
      by (simp only: foldl.simps map_add_front [OF f] list.set image_insert fst_conv Un_insert_left Un_insert_right simp_thms)
  qed
  then show "map_option po_target \<circ> map_of (mb_outgoing mb') = (map_option po_target \<circ> map_of (mb_outgoing mb)) ++ map_of (targets_of new)"
    "fst ` set (mb_outgoing mb') = fst ` set (mb_outgoing mb) \<union> fst ` set (targets_of new)"
    "mb_incoming mb' = mb_incoming mb" "mailbox_ok mb'"
    unfolding mb'_def by blast+
qed

text \<open>Whether the tick seeds the entities of the test.\<close>

definition seeds :: "'db ho_env \<Rightarrow> bool \<Rightarrow> election \<times> 'db \<Rightarrow> bool" where
  "seeds E seeded x = (\<not> seeded \<and>
    (case evaluate_ownership (he_us E) (he_conn E) (he_registry E) (he_now E) x of Inl _ \<Rightarrow> False | Inr (own, _) \<Rightarrow> own))"

context simulator
begin

lemma owned_snapshot: "set (map ho_id (so_snapshot S s)) = sim_ids S s"
  by (simp add: sim_ids_def)

lemma tick_parts_view:
  assumes "parts_ok S inv p" "hp_initialized pm"
    and "tick_parts E S delta pm self seeded (p, db) = Inr (sent, seeded', p', db')"
  defines "due \<equiv> set (due_incoming (he_now_us E) (pt_mailbox p))" and "out \<equiv> fst ` set (mb_outgoing (pt_mailbox p))"
  shows "\<exists>new all. parts_ok S inv p' \<and> sent = sent_for pm (he_now_ms E) new \<and> distinct (map fst (targets_of new)) \<and>
    (\<forall>(i, x)\<in>set (targets_of new). \<not> nid_eq (he_us E) x self) \<and>
    sim_ids S (pt_sim p) \<union> due \<subseteq> all \<and> (\<not> seeds E seeded (pt_election p, db) \<longrightarrow> all = sim_ids S (pt_sim p) \<union> due) \<and>
    fst ` set (targets_of new) \<subseteq> all - out \<and>
    fst ` set (mb_incoming (pt_mailbox p')) = fst ` set (mb_incoming (pt_mailbox p)) - due \<and>
    (\<forall>i. i \<in> sim_ids S (pt_sim p') \<and> i \<notin> fst ` set (mb_outgoing (pt_mailbox p')) \<longleftrightarrow>
         i \<in> all \<and> i \<notin> out \<and> i \<notin> fst ` set (targets_of new))"
proof -
  have p: "inv (pt_sim p)" "mailbox_ok (pt_mailbox p)" "out \<subseteq> sim_ids S (pt_sim p)"
    "passing (pt_tracker p) = map_option po_target \<circ> map_of (mb_outgoing (pt_mailbox p))"
    using assms(1) by (simp_all add: parts_ok_def out_def)
  obtain own el db1 where ev: "evaluate_ownership (he_us E) (he_conn E) (he_registry E) (he_now E) (pt_election p, db) = Inr (own, el, db1)"
    using assms(3) by (auto simp: tick_parts_def bindE_def split: sum.splits)
  obtain mb1 s1 db2 where ad: "adopt_incoming_if_due E S (pt_mailbox p, pt_sim p, db1) =
      (length (due_incoming (he_now_us E) (pt_mailbox p)), mb1, s1, db2)" "inv s1" "sim_ids S s1 = sim_ids S (pt_sim p) \<union> due"
    "mb_outgoing mb1 = mb_outgoing (pt_mailbox p)" "mailbox_ok mb1"
    "fst ` set (mb_incoming mb1) = fst ` set (mb_incoming (pt_mailbox p)) - due"
    using adopt_view [OF p(1,2), of E db1] unfolding due_def by blast
  obtain s2 where sd: "(if own \<and> \<not> seeded then so_seed S test_seed s1 else Inr s1) = Inr s2"
    using assms(3) by (cases "if own \<and> \<not> seeded then so_seed S test_seed s1 else Inr s1")
      (simp_all add: tick_parts_def ev ad(1) bindE_def)
  obtain s3 where tk: "(if 0 < so_count S s2 then so_tick S (test_tick delta) s2 else Inr s2) = Inr s3"
    using assms(3) by (cases "if 0 < so_count S s2 then so_tick S (test_tick delta) s2 else Inr s2")
      (simp_all add: tick_parts_def ev ad(1) bindE_def sd)
  have s2: "inv s2" "sim_ids S s1 \<subseteq> sim_ids S s2" "\<not> seeds E seeded (pt_election p, db) \<Longrightarrow> sim_ids S s2 = sim_ids S s1"
    using sd seed [OF ad(2), of test_seed s2] ad(2) by (auto simp: seeds_def ev split: if_splits)
  have s3: "inv s3" "sim_ids S s3 = sim_ids S s2"
    using tk tick [OF s2(1), of "test_tick delta" s3] s2(1) by (auto split: if_splits)
  define t0 where "t0 = set_owned_entities (so_snapshot S s3) (pt_tracker p)"
  obtain t1 outs db3 where pl: "plan_and_send_all E transfer_delay pm self (t0, db2) = Inr (t1, sent, outs, db3)"
    using assms(3) by (cases "plan_and_send_all E transfer_delay pm self (t0, db2)")
      (auto simp: tick_parts_def ev ad(1) bindE_def sd tk t0_def split: prod.splits)
  have ids: "out \<subseteq> sim_ids S s3" using p(3) ad(3) s2(2) s3(2) by blast
  have t0: "passing t0 = passing (pt_tracker p)"
  proof
    fix i show "passing t0 i = passing (pt_tracker p) i"
    proof (cases "i \<in> sim_ids S s3")
      case False
      then have "map_of (mb_outgoing (pt_mailbox p)) i = None" using ids by (auto simp: map_of_eq_None_iff out_def)
      then show ?thesis using False by (simp add: t0_def passing_owned p(4) flip: owned_snapshot)
    qed (simp add: t0_def passing_owned flip: owned_snapshot)
  qed
  have t0_ok: "tracker_ok t0" using assms(1) by (simp add: t0_def parts_ok_def set_owned_ok)
  have t0_ids: "fst ` set t0 \<subseteq> sim_ids S s3"
  proof
    fix i assume "i \<in> fst ` set t0"
    then have "map_of t0 i \<noteq> None" by (simp add: map_of_eq_None_iff)
    then have "find (\<lambda>e. ho_id e = i) (rev (so_snapshot S s3)) \<noteq> None"
      by (auto simp: t0_def set_owned_tracked tracked_def split: option.splits)
    then show "i \<in> sim_ids S s3" by (auto simp: find_None_iff sim_ids_def)
  qed
  obtain new where nw: "sent = sent_for pm (he_now_ms E) new" "outs = outs_for new"
    "passing t1 = passing t0 ++ map_of (targets_of new)" "distinct (map fst (targets_of new))" "tracker_ok t1"
    "\<forall>(i, x)\<in>set (targets_of new). i \<in> fst ` set t0 \<and> passing t0 i = None \<and> \<not> nid_eq (he_us E) x self"
    using plan_view [OF pl t0_ok] by blast
  define mb2 where "mb2 = foldl add_pending_outgoing mb1 outs"
  note ao = added_outgoing [OF nw(4) ad(5), folded nw(2), folded mb2_def]
  have ps: "passing t1 = map_option po_target \<circ> map_of (mb_outgoing mb2)"
    using ao(1) unfolding nw(3) t0 p(4) ad(4) by (rule sym)
  let ?done = "set (due_outgoing (he_now_us E) (mb_outgoing mb2))"
  obtain mb3 s4 t2 db4 where cm: "commit_outgoing_if_due E S (mb2, s3, t1, db3) =
      (length (due_outgoing (he_now_us E) (mb_outgoing mb2)), mb3, s4, t2, db4)" "inv s4"
    "sim_ids S s4 = sim_ids S s3 - ?done" "mailbox_ok mb3" "mb_incoming mb3 = mb_incoming mb2"
    "fst ` set (mb_outgoing mb3) = fst ` set (mb_outgoing mb2) - ?done"
    "passing t2 = map_option po_target \<circ> map_of (mb_outgoing mb3)" "tracker_ok t2"
    using commit_view [OF s3(1) ao(4) ps nw(5), of E db3] by blast
  have "\<exists>b e. tick_parts E S delta pm self seeded (p, db) =
      Inr (sent, b, \<lparr> pt_tracker = t2, pt_sim = s4, pt_election = e, pt_mailbox = mb3 \<rparr>, db4)"
    by (simp add: tick_parts_def ev ad(1) bindE_def sd tk pl [unfolded t0_def] cm(1) [unfolded mb2_def] Let_def)
  then have p': "pt_tracker p' = t2" "pt_sim p' = s4" "pt_mailbox p' = mb3" using assms(3) by auto
  have n: "fst ` set (targets_of new) \<subseteq> sim_ids S s3 - out"
  proof
    fix i assume "i \<in> fst ` set (targets_of new)"
    then have "i \<in> fst ` set t0" "passing t0 i = None" using nw(6) by auto
    then show "i \<in> sim_ids S s3 - out" using t0_ids unfolding t0 p(4) out_def by (auto simp: map_of_eq_None_iff)
  qed
  have o2: "fst ` set (mb_outgoing mb2) = out \<union> fst ` set (targets_of new)" by (simp add: ao(2) ad(4) out_def)
  have "parts_ok S inv p'" using cm ids n unfolding parts_ok_def p' o2 by auto
  moreover have "sim_ids S (pt_sim p) \<union> due \<subseteq> sim_ids S s3" using s2(2) s3(2) ad(3) by blast
  moreover have "\<not> seeds E seeded (pt_election p, db) \<longrightarrow> sim_ids S s3 = sim_ids S (pt_sim p) \<union> due"
    using s2(3) s3(2) ad(3) by simp
  moreover have "\<forall>(i, x)\<in>set (targets_of new). \<not> nid_eq (he_us E) x self" using nw(6) by blast
  moreover have "fst ` set (mb_incoming (pt_mailbox p')) = fst ` set (mb_incoming (pt_mailbox p)) - due"
    by (simp add: p' cm(5) ao(3) ad(6))
  moreover have "\<forall>i. i \<in> sim_ids S (pt_sim p') \<and> i \<notin> fst ` set (mb_outgoing (pt_mailbox p')) \<longleftrightarrow>
      i \<in> sim_ids S s3 \<and> i \<notin> out \<and> i \<notin> fst ` set (targets_of new)"
  proof -
    have "?done \<subseteq> fst ` set (mb_outgoing mb2)" by (auto simp: due_outgoing_def)
    then show ?thesis unfolding p' cm(3,6) o2 by blast
  qed
  ultimately show ?thesis using nw(1,4) n by blast
qed

end

end
