(* ===== verification/Handoff_Network.thy ===== *)
theory Handoff_Network
  imports Handoff_Runtime
begin

text \<open>
  Several shards with their handoffs: the invariant of a shard over all its operations, and what becomes
  of an entity while shards tick and packets travel. A packet sent is in flight until it is delivered to
  the shard it is for or lost; packets are not doubled, and may overtake each other. A tick in which a
  shard seeds its test entities is a step of its own kind: it creates entities with the same numbers again,
  whoever holds them. The places that hold an entity are counted: a packet in flight, a pending incoming handoff,
  a simulation that has the entity without a pending outgoing handoff for it.
\<close>

section \<open>Shards and the network\<close>

record ('s, 'db) ho_world =
  wd_nodes :: "'s ho_node list"
  wd_flight :: "(network_identity \<times> generic_packet) list"
  wd_db :: 'db

text \<open>A shard between \<open>Init\<close> and \<open>Shutdown\<close>.\<close>

definition node_ok :: "'s sim_ops \<Rightarrow> ('s \<Rightarrow> bool) \<Rightarrow> 's ho_node \<Rightarrow> bool" where
  "node_ok S good nd \<longleftrightarrow> rt_initialized (nd_runtime nd) \<and> hp_initialized (nd_packets nd) \<and> hp_callbacks (nd_packets nd) \<and>
    hp_self (nd_packets nd) = rt_self (nd_runtime nd) \<and>
    (case rt_parts (nd_runtime nd) of None \<Rightarrow> False | Some p \<Rightarrow> parts_ok S good p)"

text \<open>Whether a tick seeds entities, and whether it comes before any adoption it makes collides with a
  commit it has still to make.\<close>

definition tick_seeds :: "'db ho_env \<Rightarrow> 's ho_node \<Rightarrow> 'db \<Rightarrow> bool" where
  "tick_seeds E nd db =
    (case rt_parts (nd_runtime nd) of
       None \<Rightarrow> False
     | Some p \<Rightarrow> seeds E (rt_seeded (nd_runtime nd)) (pt_election p, snd (snd (cm_tick (he_us E) (he_conn E) (he_now E) (nd_conn nd, db)))))"

definition in_time :: "'db ho_env \<Rightarrow> 's ho_node \<Rightarrow> bool" where
  "in_time E nd =
    (case rt_parts (nd_runtime nd) of
       None \<Rightarrow> True
     | Some p \<Rightarrow> list_all (\<lambda>i. i \<notin> fst ` set (mb_outgoing (pt_mailbox p))) (due_incoming (he_now_us E) (pt_mailbox p)))"

text \<open>A step, labelled with its kind: a tick that seeds, a tick that is in time or late, a packet that is
  delivered (always in time) or lost.\<close>

datatype step_kind = In_Time | Late | Lost | Seeding

definition tick_kind :: "'db ho_env \<Rightarrow> 's ho_node \<Rightarrow> 'db \<Rightarrow> step_kind" where
  "tick_kind E nd db = (if tick_seeds E nd db then Seeding else if in_time E nd then In_Time else Late)"

inductive ho_step ::
  "'s sim_ops \<Rightarrow> (int \<Rightarrow> f32) \<Rightarrow> (bytes \<Rightarrow> string) \<Rightarrow> step_kind \<Rightarrow> ('s, 'db) ho_world \<Rightarrow> ('s, 'db) ho_world \<Rightarrow> bool"
  for S secs us where
  tick: "n < length (wd_nodes w) \<Longrightarrow> he_us E = us \<Longrightarrow>
    runtime_tick E S secs (wd_nodes w ! n, wd_db w) = Inr (closed, sent, nd, db) \<Longrightarrow>
    ho_step S secs us (tick_kind E (wd_nodes w ! n) (wd_db w)) w
      \<lparr> wd_nodes = (wd_nodes w)[n := nd], wd_flight = wd_flight w @ sent, wd_db = db \<rparr>"
| deliver: "f < length (wd_flight w) \<Longrightarrow> wd_flight w ! f = (target, pkt) \<Longrightarrow> n < length (wd_nodes w) \<Longrightarrow>
    nid_eq us (rt_self (nd_runtime (wd_nodes w ! n))) target \<Longrightarrow> he_us E = us \<Longrightarrow>
    node_on_packet E pkt (wd_nodes w ! n, wd_db w) = (nd, db) \<Longrightarrow>
    ho_step S secs us In_Time w
      \<lparr> wd_nodes = (wd_nodes w)[n := nd], wd_flight = take f (wd_flight w) @ drop (Suc f) (wd_flight w), wd_db = db \<rparr>"
| lose: "f < length (wd_flight w) \<Longrightarrow>
    ho_step S secs us Lost w (w \<lparr> wd_flight := take f (wd_flight w) @ drop (Suc f) (wd_flight w) \<rparr>)"

text \<open>Any number of steps of the kinds in \<open>P\<close>.\<close>

definition ho_run ::
  "'s sim_ops \<Rightarrow> (int \<Rightarrow> f32) \<Rightarrow> (bytes \<Rightarrow> string) \<Rightarrow> (step_kind \<Rightarrow> bool) \<Rightarrow> ('s, 'db) ho_world \<Rightarrow> ('s, 'db) ho_world \<Rightarrow> bool" where
  "ho_run S secs us P = (\<lambda>w w'. \<exists>k. P k \<and> ho_step S secs us k w w')\<^sup>*\<^sup>*"

section \<open>The places that hold an entity\<close>

definition parts_hold :: "'s sim_ops \<Rightarrow> 's ho_parts \<Rightarrow> u64 \<Rightarrow> nat" where
  "parts_hold S p i =
    (if i \<in> fst ` set (mb_incoming (pt_mailbox p)) then 1 else 0) +
    (if i \<in> sim_ids S (pt_sim p) \<and> i \<notin> fst ` set (mb_outgoing (pt_mailbox p)) then 1 else 0)"

definition node_holds :: "'s sim_ops \<Rightarrow> u64 \<Rightarrow> 's ho_node \<Rightarrow> nat" where
  "node_holds S i nd = (case rt_parts (nd_runtime nd) of None \<Rightarrow> 0 | Some p \<Rightarrow> parts_hold S p i)"

definition in_flight :: "u64 \<Rightarrow> (network_identity \<times> generic_packet) list \<Rightarrow> nat" where
  "in_flight i fl = length (filter (\<lambda>x. ho_id (gp_entity (snd x)) = i) fl)"

definition holders :: "'s sim_ops \<Rightarrow> ('s, 'db) ho_world \<Rightarrow> u64 \<Rightarrow> nat" where
  "holders S w i = in_flight i (wd_flight w) + sum_list (map (node_holds S i) (wd_nodes w))"

definition world_ok :: "'s sim_ops \<Rightarrow> ('s \<Rightarrow> bool) \<Rightarrow> (bytes \<Rightarrow> string) \<Rightarrow> ('s, 'db) ho_world \<Rightarrow> bool" where
  "world_ok S good us w \<longleftrightarrow> (\<forall>nd\<in>set (wd_nodes w). node_ok S good nd) \<and>
    (\<forall>(x, pkt)\<in>set (wd_flight w). \<not> nid_eq us (gp_sender pkt) x)"

lemma in_flight_simps [simp]:
  "in_flight i [] = 0" "in_flight i (a @ b) = in_flight i a + in_flight i b"
  "in_flight i (x # a) = (if ho_id (gp_entity (snd x)) = i then 1 else 0) + in_flight i a"
  by (simp_all add: in_flight_def)

lemma in_flight_sent:
  assumes "hp_initialized pm" "distinct (map fst (targets_of new))"
  shows "in_flight i (sent_for pm ms new) = (if i \<in> fst ` set (targets_of new) then 1 else 0)"
  using assms(2)
proof (induction new)
  case (Cons y new)
  then show ?case using assms(1) by (cases y) (auto simp: new_Cons send_entity_handoff_def)
qed (simp add: sent_for_def targets_of_def)

lemma in_flight_take_drop:
  "f < length fl \<Longrightarrow> in_flight i fl = (if ho_id (gp_entity (snd (fl ! f))) = i then 1 else 0) + in_flight i (take f fl @ drop (Suc f) fl)"
  by (subst id_take_nth_drop [of f fl]) (simp_all only: in_flight_simps)

lemma sum_list_replace:
  fixes f :: "'a \<Rightarrow> nat"
  shows "n < length xs \<Longrightarrow> sum_list (map f (xs[n := y])) + f (xs ! n) = sum_list (map f xs) + f y"
  by (induction xs arbitrary: n) (auto split: nat.splits)

section \<open>One step of a shard\<close>

context simulator
begin

text \<open>The tick of a shard: the entities it sends leave it, and no other does unless the tick is late.\<close>

lemma runtime_tick_view:
  assumes "node_ok S inv nd" "runtime_tick E S secs (nd, db) = Inr (closed, sent, nd', db')"
  shows "\<exists>new. node_ok S inv nd' \<and> rt_self (nd_runtime nd') = rt_self (nd_runtime nd) \<and>
    sent = sent_for (nd_packets nd) (he_now_ms E) new \<and> distinct (map fst (targets_of new)) \<and>
    (\<forall>(i, x)\<in>set (targets_of new). \<not> nid_eq (he_us E) x (rt_self (nd_runtime nd))) \<and>
    (\<not> tick_seeds E nd db \<longrightarrow> (\<forall>i. in_flight i sent + node_holds S i nd' \<le> node_holds S i nd \<and>
       (in_time E nd \<longrightarrow> node_holds S i nd \<le> 1 \<longrightarrow> in_flight i sent + node_holds S i nd' = node_holds S i nd))) \<and>
    (\<forall>p i. rt_parts (nd_runtime nd) = Some p \<longrightarrow> i \<in> set (due_incoming (he_now_us E) (pt_mailbox p)) \<longrightarrow>
       i \<in> fst ` set (mb_outgoing (pt_mailbox p)) \<longrightarrow> in_flight i sent + node_holds S i nd' = 0)"
proof -
  let ?rt = "nd_runtime nd"
  obtain p where p: "rt_parts ?rt = Some p" "parts_ok S inv p" and ok: "rt_initialized ?rt" "hp_initialized (nd_packets nd)"
    using assms(1) by (auto simp: node_ok_def split: option.splits)
  obtain c cm db1 where ct: "cm_tick (he_us E) (he_conn E) (he_now E) (nd_conn nd, db) = (c, cm, db1)" by (cases "cm_tick (he_us E) (he_conn E) (he_now E) (nd_conn nd, db)")
  let ?tick = "tick_parts E S (secs (he_now E - rt_last_tick ?rt)) (nd_packets nd) (rt_self ?rt) (rt_seeded ?rt) (p, db1)"
  obtain r where r: "?tick = Inr r"
    using assms(2) ok(1) p(1) by (cases ?tick) (simp_all add: runtime_tick_def ct bindE_def)
  obtain sent1 seeded' p' db2 where r4: "r = (sent1, seeded', p', db2)" by (cases r)
  define X where "X = (if snapshot_interval \<le> he_now E - rt_last_snapshot ?rt then he_now E else rt_last_snapshot ?rt)"
  have "sent1 = sent \<and> nd' = nd \<lparr> nd_runtime := ?rt \<lparr> rt_seeded := seeded', rt_last_tick := he_now E, rt_last_snapshot := X,
      rt_parts := Some p' \<rparr>, nd_conn := cm \<rparr>"
    using assms(2) by (simp add: runtime_tick_def ct bindE_def r [unfolded r4] ok(1) p(1) Let_def X_def)
  then have "sent1 = sent" and nd': "rt_parts (nd_runtime nd') = Some p'" "rt_self (nd_runtime nd') = rt_self ?rt" "rt_initialized (nd_runtime nd')"
      "nd_packets nd' = nd_packets nd" using ok(1) by simp_all
  then have tp: "?tick = Inr (sent, seeded', p', db2)" by (simp add: r r4)
  let ?due = "set (due_incoming (he_now_us E) (pt_mailbox p))" and ?out = "fst ` set (mb_outgoing (pt_mailbox p))"
  obtain new all where v: "parts_ok S inv p'" "sent = sent_for (nd_packets nd) (he_now_ms E) new" "distinct (map fst (targets_of new))"
    "\<forall>(i, x)\<in>set (targets_of new). \<not> nid_eq (he_us E) x (rt_self ?rt)"
    "\<not> seeds E (rt_seeded ?rt) (pt_election p, db1) \<longrightarrow> all = sim_ids S (pt_sim p) \<union> ?due"
    "fst ` set (targets_of new) \<subseteq> all - ?out"
    "fst ` set (mb_incoming (pt_mailbox p')) = fst ` set (mb_incoming (pt_mailbox p)) - ?due"
    "\<forall>i. i \<in> sim_ids S (pt_sim p') \<and> i \<notin> fst ` set (mb_outgoing (pt_mailbox p')) \<longleftrightarrow>
         i \<in> all \<and> i \<notin> ?out \<and> i \<notin> fst ` set (targets_of new)"
    using tick_parts_view [OF p(2) ok(2) tp] by (elim exE conjE) (rule that)
  have due: "?due \<subseteq> fst ` set (mb_incoming (pt_mailbox p))" by (auto simp: due_incoming_def)
  have s: "in_flight i sent = (if i \<in> fst ` set (targets_of new) then 1 else 0)" for i
    unfolding v(2) by (rule in_flight_sent [OF ok(2) v(3)])
  have h': "node_holds S i nd' = (if i \<in> fst ` set (mb_incoming (pt_mailbox p)) - ?due then 1 else 0) +
      (if i \<in> all \<and> i \<notin> ?out \<and> i \<notin> fst ` set (targets_of new) then 1 else 0)" for i
    using v(8) by (simp add: node_holds_def nd'(1) parts_hold_def v(7))
  have h: "node_holds S i nd = (if i \<in> fst ` set (mb_incoming (pt_mailbox p)) then 1 else 0) +
      (if i \<in> sim_ids S (pt_sim p) \<and> i \<notin> ?out then 1 else 0)" for i by (simp add: node_holds_def p(1) parts_hold_def)
  have "node_ok S inv nd'" using assms(1) v(1) nd' by (simp add: node_ok_def)
  moreover have "\<forall>i. in_flight i sent + node_holds S i nd' \<le> node_holds S i nd \<and>
       (in_time E nd \<longrightarrow> node_holds S i nd \<le> 1 \<longrightarrow> in_flight i sent + node_holds S i nd' = node_holds S i nd)"
    if "\<not> tick_seeds E nd db"
  proof -
    have a: "all = sim_ids S (pt_sim p) \<union> ?due" using that v(5) by (simp add: tick_seeds_def p(1) ct)
    have t: "in_time E nd \<longleftrightarrow> ?due \<inter> ?out = {}" by (auto simp: in_time_def p(1) list_all_iff)
    show ?thesis unfolding h h' s t using v(6) due unfolding a by (auto split: if_splits)
  qed
  moreover have "in_flight i sent + node_holds S i nd' = 0" if "i \<in> ?due" "i \<in> ?out" for i
    using that v(6) unfolding s h' by auto
  ultimately show ?thesis using nd'(2) v(2,3,4) p(1)
    by (intro exI [of _ new]) (intro conjI; simp)
qed

lemma runtime_tick_ok:
  assumes "node_ok S inv nd" "runtime_tick E S secs (nd, db) = Inr (closed, sent, nd', db')"
  shows "node_ok S inv nd'"
  using runtime_tick_view [OF assms] by (elim exE conjE)

lemma runtime_tick_late:
  assumes "node_ok S inv nd" "runtime_tick E S secs (nd, db) = Inr (closed, sent, nd', db')"
    and "rt_parts (nd_runtime nd) = Some p" "i \<in> set (due_incoming (he_now_us E) (pt_mailbox p))"
    and "i \<in> fst ` set (mb_outgoing (pt_mailbox p))"
  shows "in_flight i sent + node_holds S i nd' = 0"
proof -
  have "\<forall>p i. rt_parts (nd_runtime nd) = Some p \<longrightarrow> i \<in> set (due_incoming (he_now_us E) (pt_mailbox p)) \<longrightarrow>
       i \<in> fst ` set (mb_outgoing (pt_mailbox p)) \<longrightarrow> in_flight i sent + node_holds S i nd' = 0"
    using runtime_tick_view [OF assms(1,2)] by (elim exE conjE)
  then show ?thesis using assms(3-5) by simp
qed

text \<open>A packet that arrives.\<close>

lemma node_on_packet_view:
  assumes "node_ok S inv nd" "\<not> nid_eq (he_us E) (gp_sender pkt) (rt_self (nd_runtime nd))"
    and "node_on_packet E pkt (nd, db) = (nd', db')"
  shows "node_ok S inv nd'" "rt_self (nd_runtime nd') = rt_self (nd_runtime nd)"
    and "node_holds S i nd' \<le> node_holds S i nd + (if ho_id (gp_entity pkt) = i then 1 else 0)"
    and "ho_id (gp_entity pkt) = i \<Longrightarrow> node_holds S i nd = 0 \<Longrightarrow> node_holds S i nd' = 1"
    and "ho_id (gp_entity pkt) \<noteq> i \<Longrightarrow> node_holds S i nd' = node_holds S i nd"
proof -
  obtain p where p: "rt_parts (nd_runtime nd) = Some p" "parts_ok S inv p"
    using assms(1) by (auto simp: node_ok_def split: option.splits)
  let ?p = "p \<lparr> pt_mailbox := queue_incoming (gp_entity pkt) (gp_sender pkt) (gp_transfer_tick pkt) (pt_mailbox p),
         pt_election := election_invalidate (pt_election p) \<rparr>"
  have nd': "rt_parts (nd_runtime nd') = Some ?p" "nd_packets nd' = nd_packets nd" "rt_self (nd_runtime nd') = rt_self (nd_runtime nd)"
    "rt_initialized (nd_runtime nd') = rt_initialized (nd_runtime nd)"
    using assms p(1) by (auto simp: node_on_packet_def on_generic_entity_packet_def node_ok_def on_incoming_at_time_def Let_def case_prod_beta)
  have q: "fst ` set (mb_incoming (pt_mailbox ?p)) = insert (ho_id (gp_entity pkt)) (fst ` set (mb_incoming (pt_mailbox p)))"
    "mb_outgoing (pt_mailbox ?p) = mb_outgoing (pt_mailbox p)" "pt_sim ?p = pt_sim p" "pt_tracker ?p = pt_tracker p"
    by (simp_all add: queue_incoming_def fst_put)
  have m: "mailbox_ok (pt_mailbox ?p)"
    using p(2) by (auto simp: parts_ok_def mailbox_ok_def queue_incoming_def distinct_put set_put)
  then have "parts_ok S inv ?p" using p(2) q by (simp add: parts_ok_def)
  then show "node_ok S inv nd'" "rt_self (nd_runtime nd') = rt_self (nd_runtime nd)" using assms(1) nd' by (simp_all add: node_ok_def)
  have h: "node_holds S j nd' = (if j \<in> insert (ho_id (gp_entity pkt)) (fst ` set (mb_incoming (pt_mailbox p))) then 1 else 0) +
      (if j \<in> sim_ids S (pt_sim p) \<and> j \<notin> fst ` set (mb_outgoing (pt_mailbox p)) then 1 else 0)" for j
    unfolding node_holds_def nd'(1) option.case parts_hold_def q ..
  show "node_holds S i nd' \<le> node_holds S i nd + (if ho_id (gp_entity pkt) = i then 1 else 0)"
    "ho_id (gp_entity pkt) = i \<Longrightarrow> node_holds S i nd = 0 \<Longrightarrow> node_holds S i nd' = 1"
    "ho_id (gp_entity pkt) \<noteq> i \<Longrightarrow> node_holds S i nd' = node_holds S i nd"
    unfolding h by (auto simp: node_holds_def p(1) parts_hold_def split: if_splits)
qed

text \<open>A step of the network.\<close>

lemma step_view:
  assumes "ho_step S secs us k w w'" "world_ok S inv us w"
  shows "world_ok S inv us w' \<and> (k \<noteq> Seeding \<longrightarrow> (\<forall>i. holders S w' i \<le> holders S w i \<and>
    (k = In_Time \<longrightarrow> holders S w i = 1 \<longrightarrow> holders S w' i = 1)))"
  using assms
proof (induction rule: ho_step.induct)
  case (tick n w E closed sent nd db)
  let ?nd = "wd_nodes w ! n"
  have nd: "node_ok S inv ?nd" using tick by (simp add: world_ok_def)
  obtain new where v: "node_ok S inv nd" "sent = sent_for (nd_packets ?nd) (he_now_ms E) new"
    "\<forall>(i, x)\<in>set (targets_of new). \<not> nid_eq (he_us E) x (rt_self (nd_runtime ?nd))"
    "\<not> tick_seeds E ?nd (wd_db w) \<longrightarrow> (\<forall>i. in_flight i sent + node_holds S i nd \<le> node_holds S i ?nd \<and>
       (in_time E ?nd \<longrightarrow> node_holds S i ?nd \<le> 1 \<longrightarrow> in_flight i sent + node_holds S i nd = node_holds S i ?nd))"
    using runtime_tick_view [OF nd tick.hyps(3)] by (elim exE conjE) (rule that, simp_all)
  have i: "hp_initialized (nd_packets ?nd)" "hp_self (nd_packets ?nd) = rt_self (nd_runtime ?nd)"
    using nd by (simp_all add: node_ok_def)
  have "\<not> nid_eq us (gp_sender pkt) x" if m: "(x, pkt) \<in> set sent" for x pkt
  proof -
    have "(ho_id (gp_entity pkt), x) \<in> set (targets_of new)"
      using m sent_for_ids(1) [OF i(1), of "he_now_ms E" new, symmetric] by (force simp: v(2))
    moreover have "gp_sender pkt = rt_self (nd_runtime ?nd)" using sent_for_ids(2) [OF i(1)] m i(2) by (simp add: v(2))
    ultimately show ?thesis using v(3) tick.hyps(2) by (auto simp: nid_eq_def)
  qed
  moreover have "\<forall>y\<in>set ((wd_nodes w)[n := nd]). node_ok S inv y"
    using tick.prems v(1) set_update_subset_insert [of "wd_nodes w" n nd] by (auto simp: world_ok_def)
  ultimately have ok: "world_ok S inv us \<lparr> wd_nodes = (wd_nodes w)[n := nd], wd_flight = wd_flight w @ sent, wd_db = db \<rparr>"
    using tick.prems by (auto simp: world_ok_def)
  have h: "holders S \<lparr> wd_nodes = (wd_nodes w)[n := nd], wd_flight = wd_flight w @ sent, wd_db = db \<rparr> j + node_holds S j ?nd =
      holders S w j + in_flight j sent + node_holds S j nd" for j
    using sum_list_replace [OF tick.hyps(1), of "node_holds S j" nd] by (simp add: holders_def)
  have le: "node_holds S j ?nd \<le> holders S w j" for j
    using member_le_sum_list [of "node_holds S j ?nd" "map (node_holds S j) (wd_nodes w)"] tick.hyps(1) by (simp add: holders_def)
  show ?case
  proof (intro conjI impI allI ok)
    fix i assume k: "tick_kind E ?nd (wd_db w) \<noteq> Seeding"
    then have n: "\<not> tick_seeds E ?nd (wd_db w)" by (auto simp: tick_kind_def)
    then have 1: "in_flight i sent + node_holds S i nd \<le> node_holds S i ?nd" using v(4) by blast
    let ?w = "\<lparr> wd_nodes = (wd_nodes w)[n := nd], wd_flight = wd_flight w @ sent, wd_db = db \<rparr>"
    show "holders S ?w i \<le> holders S w i" using h [of i] 1 by linarith
    assume t: "tick_kind E ?nd (wd_db w) = In_Time" and one: "holders S w i = 1"
    have "in_time E ?nd" using t by (auto simp: tick_kind_def split: if_splits)
    then have "in_flight i sent + node_holds S i nd = node_holds S i ?nd"
      using v(4) n le [of i] one by auto
    then show "holders S ?w i = 1" using h [of i] one by linarith
  qed
next
  case (deliver f w target pkt n E nd db)
  let ?nd = "wd_nodes w ! n" and ?j = "ho_id (gp_entity pkt)"
  have nd: "node_ok S inv ?nd" using deliver by (simp add: world_ok_def)
  have "(target, pkt) \<in> set (wd_flight w)" using deliver.hyps(1,2) by (metis nth_mem)
  then have "\<not> nid_eq us (gp_sender pkt) target" using deliver.prems by (auto simp: world_ok_def)
  then have "\<not> nid_eq (he_us E) (gp_sender pkt) (rt_self (nd_runtime ?nd))" using deliver.hyps(4,5) by (simp add: nid_eq_def)
  note v = node_on_packet_view [OF nd this deliver.hyps(6)]
  have "\<forall>y\<in>set ((wd_nodes w)[n := nd]). node_ok S inv y"
    using deliver.prems v(1) set_update_subset_insert [of "wd_nodes w" n nd] by (auto simp: world_ok_def)
  moreover have "set (take f (wd_flight w) @ drop (Suc f) (wd_flight w)) \<subseteq> set (wd_flight w)"
    by (auto dest: in_set_takeD in_set_dropD)
  ultimately have "world_ok S inv us \<lparr> wd_nodes = (wd_nodes w)[n := nd], wd_flight = take f (wd_flight w) @ drop (Suc f) (wd_flight w), wd_db = db \<rparr>"
    using deliver.prems unfolding world_ok_def by auto
  moreover have h: "holders S \<lparr> wd_nodes = (wd_nodes w)[n := nd], wd_flight = take f (wd_flight w) @ drop (Suc f) (wd_flight w), wd_db = db \<rparr> i +
      (if ?j = i then 1 else 0) + node_holds S i ?nd = holders S w i + node_holds S i nd" for i
    using sum_list_replace [OF deliver.hyps(3), of "node_holds S i" nd] in_flight_take_drop [OF deliver.hyps(1), of i] deliver.hyps(2)
    by (simp add: holders_def)
  moreover have le: "(if ?j = i then 1 else 0) + node_holds S i ?nd \<le> holders S w i" for i
    using member_le_sum_list [of "node_holds S i ?nd" "map (node_holds S i) (wd_nodes w)"] deliver.hyps(2,3)
      in_flight_take_drop [OF deliver.hyps(1), of i] by (simp add: holders_def)
  ultimately show ?case
  proof (intro conjI allI impI)
    fix i
    let ?w = "\<lparr> wd_nodes = (wd_nodes w)[n := nd], wd_flight = take f (wd_flight w) @ drop (Suc f) (wd_flight w), wd_db = db \<rparr>"
    show "holders S ?w i \<le> holders S w i" using h [of i] v(3) [of i] by linarith
    assume "holders S w i = 1"
    then show "holders S ?w i = 1" using h [of i] le [of i] v(4,5) [of i] by (cases "?j = i") auto
  qed
next
  case (lose f w)
  let ?w = "w \<lparr> wd_flight := take f (wd_flight w) @ drop (Suc f) (wd_flight w) \<rparr>"
  have "set (wd_flight ?w) \<subseteq> set (wd_flight w)" by (auto dest: in_set_takeD in_set_dropD)
  then have "world_ok S inv us ?w" using lose.prems unfolding world_ok_def by auto
  moreover have "holders S ?w i \<le> holders S w i" for i
    using in_flight_take_drop [OF lose.hyps, of i] by (simp add: holders_def)
  ultimately show ?case by blast
qed

lemma run_view:
  assumes "ho_run S secs us P w w'" "world_ok S inv us w"
  shows "world_ok S inv us w' \<and> ((\<forall>k. P k \<longrightarrow> k \<noteq> Seeding) \<longrightarrow> holders S w' i \<le> holders S w i) \<and>
    ((\<forall>k. P k \<longrightarrow> k = In_Time) \<longrightarrow> holders S w i = 1 \<longrightarrow> holders S w' i = 1)"
  using assms unfolding ho_run_def
proof (induction rule: rtranclp_induct)
  case (step v v')
  then obtain k where k: "P k" "ho_step S secs us k v v'" by blast
  have IH: "world_ok S inv us v" "(\<forall>k. P k \<longrightarrow> k \<noteq> Seeding) \<longrightarrow> holders S v i \<le> holders S w i"
    "(\<forall>k. P k \<longrightarrow> k = In_Time) \<longrightarrow> holders S w i = 1 \<longrightarrow> holders S v i = 1"
    using step by blast+
  from step_view [OF k(2) IH(1)] have s: "world_ok S inv us v'" "k \<noteq> Seeding \<longrightarrow> holders S v' i \<le> holders S v i"
    "k \<noteq> Seeding \<longrightarrow> k = In_Time \<longrightarrow> holders S v i = 1 \<longrightarrow> holders S v' i = 1"
    by blast+
  show ?case
  proof (intro conjI impI s(1))
    assume p: "\<forall>k. P k \<longrightarrow> k \<noteq> Seeding"
    have "k \<noteq> Seeding" using p k(1) by blast
    then show "holders S v' i \<le> holders S w i" using IH(2) s(2) p by (blast intro: le_trans)
  next
    assume p: "\<forall>k. P k \<longrightarrow> k = In_Time" and one: "holders S w i = 1"
    then have "k = In_Time" using k(1) by blast
    then show "holders S v' i = 1" using IH(3) s(3) p one by simp
  qed
qed simp

end

section \<open>The tick returns\<close>

lemma isl_bindE: "isl (bindE m f) \<longleftrightarrow> isl m \<or> (\<exists>y. m = Inr y \<and> isl (f y))"
  by (cases m) (simp_all add: bindE_def)

lemma plan_one_returns:
  assumes "\<And>db. \<not> isl (he_registry E db)"
  shows "\<not> isl (plan_one E d pm self claims b e x)"
  by (cases x) (simp add: plan_one_def isl_bindE Let_def assms split: option.split prod.split bool.split)

lemma plan_loop_returns:
  assumes "\<And>db. \<not> isl (he_registry E db)"
  shows "\<not> isl (plan_loop E d pm self claims b es x)"
  by (induction es arbitrary: x) (simp_all add: isl_bindE plan_one_returns [OF assms])

lemma plan_returns:
  assumes "\<And>db. \<not> isl (he_registry E db)"
  shows "\<not> isl (plan_and_send_all E d pm self x)"
  by (simp add: plan_and_send_all_def case_prod_beta Let_def plan_loop_returns [OF assms] split: option.split)

lemma evaluate_returns:
  assumes "\<And>db. \<not> isl (he_registry E db)"
  shows "\<not> isl (evaluate_ownership us C (he_registry E) now x)"
  by (simp add: evaluate_ownership_def isl_bindE Let_def case_prod_beta assms)

lemma orbit_tick_total:
  assumes "\<And>db. \<not> isl (he_registry E db)"
  shows "\<exists>closed sent nd' db'. runtime_tick E (orbit_ops T) secs (nd, db) = Inr (closed, sent, nd', db')"
proof -
  have "\<not> isl (tick_parts E (orbit_ops T) delta pm self seeded x)" for delta pm self seeded x
    by (simp add: tick_parts_def case_prod_beta isl_bindE Let_def evaluate_returns [OF assms] plan_returns [OF assms])
      (simp add: orbit_ops_def)
  then have "\<not> isl (runtime_tick E (orbit_ops T) secs (nd, db))"
    by (simp add: runtime_tick_def case_prod_beta isl_bindE Let_def split: option.split)
  then show ?thesis by (cases "runtime_tick E (orbit_ops T) secs (nd, db)") auto
qed

lemma init_ok:
  assumes "good (so_reset S s0)"
  shows "node_ok S good (runtime_init S s0 now self nd)"
  using assms by (simp add: node_ok_def runtime_init_def parts_ok_def hp_init_def hp_set_callbacks_def mailbox_reset_def
      mailbox_new_def mailbox_ok_def tracker_reset_def tracker_ok_def passing_entry fun_eq_iff)

section \<open>Examples\<close>

definition demo_math :: sim_math where
  "demo_math = \<lparr> sm_cos = (\<lambda>_. 0), sm_sin = (\<lambda>_. 0), sm_atan2 = (\<lambda>_ _. 0), sm_draw = (\<lambda>_ _ _. 0) \<rparr>"

definition orbit_empty :: orbit_sim where
  "orbit_empty = \<lparr> os_angle = 0, os_entities = [], os_draws = 0 \<rparr>"

definition demo_ho_env :: "mem_db ho_env" where
  "demo_ho_env = \<lparr> he_us = demo_printer, he_conn = mem_connection, he_ser = (\<lambda>_ w. w), he_fmt = (\<lambda>_. []),
     he_registry = (\<lambda>_. Inr []), he_claims = (\<lambda>_. []), he_now = 0, he_now_us = 100, he_now_ms = 0,
     he_row_us = (\<lambda>_ _. 0), he_row_ms = (\<lambda>_ _. 0) \<rparr>"

text \<open>A shard just initialized, and a packet with the entity 7 for it.\<close>

definition fresh_node :: "orbit_sim ho_node" where
  "fresh_node = runtime_init (orbit_ops demo_math) orbit_empty 0 make_id_watchdog
     \<lparr> nd_runtime = runtime_new, nd_conn = cm_new,
       nd_packets = \<lparr> hp_self = nid_new, hp_initialized = False, hp_subscribed = False, hp_callbacks = False \<rparr> \<rparr>"

definition entity_seven :: ho_entity where
  "entity_seven = spawned_entity 7 \<lparr> vx = 0, vy = 0, vz = 0 \<rparr> 0"

definition packet_seven :: generic_packet where
  "packet_seven = \<lparr> gp_sender = make_id_cartograph, gp_entity = entity_seven, gp_version = protocol_version,
     gp_transfer_tick = 60, gp_sent_at_ms = 0 \<rparr>"

definition arriving_world :: "(orbit_sim, mem_db) ho_world" where
  "arriving_world = \<lparr> wd_nodes = [fresh_node], wd_flight = [(make_id_watchdog, packet_seven)], wd_db = mem_empty \<rparr>"

definition arrived_world :: "(orbit_sim, mem_db) ho_world" where
  "arrived_world = (let (nd, db) = node_on_packet demo_ho_env packet_seven (fresh_node, mem_empty)
     in \<lparr> wd_nodes = [nd], wd_flight = [], wd_db = db \<rparr>)"

lemma ids_differ: "\<not> nid_eq demo_printer make_id_cartograph make_id_watchdog"
  unfolding nid_eq_def by (simp add: nid_to_string_eq [OF demo_printer_ok] make_id_watchdog_def make_id_cartograph_def
        uuid_is_nil_def nil_uuid_def nt_name_def nt_defs list_all_iff)

lemma fresh_ok: "node_ok (orbit_ops demo_math) orbit_inv fresh_node"
  unfolding fresh_node_def by (rule init_ok) (simp add: orbit_ops_def orbit_reset_def orbit_inv_def)

lemma arriving_ok: "world_ok (orbit_ops demo_math) orbit_inv demo_printer arriving_world"
  using fresh_ok ids_differ by (simp add: world_ok_def arriving_world_def packet_seven_def)

lemma arriving_holders: "holders (orbit_ops demo_math) arriving_world 7 = 1"
  by (simp add: holders_def arriving_world_def packet_seven_def entity_seven_def spawned_entity_def fresh_node_def
      runtime_init_def node_holds_def parts_hold_def mailbox_reset_def sim_ids_def orbit_ops_def orbit_reset_def orbit_snapshot_def)

lemma arriving_run: "P In_Time \<Longrightarrow> ho_run (orbit_ops demo_math) (\<lambda>_. 0) demo_printer P arriving_world arrived_world"
proof -
  assume p: "P In_Time"
  obtain nd db where n: "node_on_packet demo_ho_env packet_seven (fresh_node, mem_empty) = (nd, db)" by fastforce
  have "ho_step (orbit_ops demo_math) (\<lambda>_. 0) demo_printer In_Time arriving_world
      \<lparr> wd_nodes = (wd_nodes arriving_world)[0 := nd], wd_flight = take 0 (wd_flight arriving_world) @ drop (Suc 0) (wd_flight arriving_world), wd_db = db \<rparr>"
    by (rule ho_step.deliver [where E = demo_ho_env and target = make_id_watchdog and pkt = packet_seven])
      (simp_all add: arriving_world_def n, simp_all add: demo_ho_env_def fresh_node_def runtime_init_def)
  then have "ho_step (orbit_ops demo_math) (\<lambda>_. 0) demo_printer In_Time arriving_world arrived_world"
    by (simp add: arriving_world_def arrived_world_def n)
  then show ?thesis using p unfolding ho_run_def by (intro r_into_rtranclp) blast
qed

text \<open>A shard that has to commit the handoff of the entity 7 and finds it handed back.\<close>

definition late_parts :: "orbit_sim ho_parts" where
  "late_parts = \<lparr> pt_tracker = [(7, \<lparr> ae_snapshot = entity_seven, ae_state = Passing, ae_passing_to = Some make_id_cartograph \<rparr>)],
     pt_sim = orbit_empty \<lparr> os_entities := [(7, \<lparr> oe_entity = entity_seven, oe_phase = 0 \<rparr>)] \<rparr>,
     pt_election = election_new make_id_watchdog,
     pt_mailbox = \<lparr> mb_self = make_id_watchdog,
       mb_incoming = [(7, \<lparr> pi_entity = entity_seven, pi_sender = make_id_cartograph, pi_time = 90 \<rparr>)],
       mb_outgoing = [(7, \<lparr> po_entity_id = 7, po_target = make_id_cartograph, po_time = 20 \<rparr>)] \<rparr> \<rparr>"

definition late_node :: "orbit_sim ho_node" where
  "late_node = fresh_node \<lparr> nd_runtime := (nd_runtime fresh_node) \<lparr> rt_seeded := True, rt_parts := Some late_parts \<rparr> \<rparr>"

definition late_world :: "(orbit_sim, mem_db) ho_world" where
  "late_world = \<lparr> wd_nodes = [late_node], wd_flight = [], wd_db = mem_empty \<rparr>"

lemma seven_id: "ho_id entity_seven = 7"
  by (simp add: entity_seven_def spawned_entity_def)

lemma late_ok: "world_ok (orbit_ops demo_math) orbit_inv demo_printer late_world"
proof -
  have "parts_ok (orbit_ops demo_math) orbit_inv late_parts"
    by (auto simp: parts_ok_def late_parts_def orbit_inv_def keyed_def orbit_empty_def seven_id mailbox_ok_def tracker_ok_def
        passing_entry fun_eq_iff sim_ids_def orbit_ops_def orbit_snapshot_def)
  then show ?thesis using fresh_ok by (simp add: world_ok_def late_world_def late_node_def node_ok_def)
qed

lemma late_holders: "holders (orbit_ops demo_math) late_world 7 = 1"
  by (simp add: holders_def late_world_def late_node_def node_holds_def parts_hold_def late_parts_def sim_ids_def
      orbit_ops_def orbit_snapshot_def orbit_empty_def seven_id)

section \<open>Properties\<close>

text \<open>The tick of a shard always returns: with the orbiting entities nothing in it can fail but the
  registry, so when the registry answers, the tick ends with a new state whatever state it is in.\<close>

theorem orbit_tick_returns:
  assumes "\<And>db. \<not> isl (he_registry E db)"
  shows "\<exists>closed sent nd' db'. runtime_tick E (orbit_ops T) secs (nd, db) = Inr (closed, sent, nd', db')"
  using assms by (rule orbit_tick_total)

theorem orbit_tick_returns_witness:
  "\<exists>closed sent nd' db'. runtime_tick demo_ho_env (orbit_ops demo_math) (\<lambda>_. 0) (fresh_node, mem_empty) = Inr (closed, sent, nd', db')"
  by (rule orbit_tick_returns) (simp add: demo_ho_env_def)

text \<open>C6: no step of the network makes two of an entity: the number of places that hold it, a packet in
  flight, a handoff waiting to be adopted, a simulation that has it and is not about to give it away, never
  grows, whatever the shards do short of seeding new entities, at whatever times they tick, in whatever
  order and after whatever delay packets arrive, and whichever of them are lost.\<close>

theorem entities_never_doubled:
  assumes "world_ok (orbit_ops T) orbit_inv us w" and "ho_run (orbit_ops T) secs us (\<lambda>k. k \<noteq> Seeding) w w'"
  shows "world_ok (orbit_ops T) orbit_inv us w' \<and> holders (orbit_ops T) w' i \<le> holders (orbit_ops T) w i"
  using orbit.run_view [OF assms(2,1)] by blast

theorem entities_never_doubled_witness: "holders (orbit_ops demo_math) arrived_world 7 \<le> 1"
  using entities_never_doubled [OF arriving_ok arriving_run, of 7] by (simp add: arriving_holders)

text \<open>C5: an entity that one place holds is held by exactly one place after any number of steps, under three
  provisos: in none of these ticks does a shard seed new entities, whose numbers are always the same; no
  packet is lost; and every tick is in time, that is, no shard adopts an entity for which it has still to
  commit a handoff of its own. Packets may be arbitrarily late and overtake each other.\<close>

theorem timely_network_keeps_entities:
  assumes "world_ok (orbit_ops T) orbit_inv us w" and "ho_run (orbit_ops T) secs us (\<lambda>k. k = In_Time) w w'"
    and "holders (orbit_ops T) w i = 1"
  shows "holders (orbit_ops T) w' i = 1"
  using orbit.run_view [OF assms(2,1)] assms(3) by blast

theorem timely_network_keeps_entities_witness: "holders (orbit_ops demo_math) arrived_world 7 = 1"
  using timely_network_keeps_entities [OF arriving_ok arriving_run arriving_holders] by simp

text \<open>C38: when the ticks are not in time an entity can be lost without any packet being lost: when a shard
  has an entity handed back to it before it has committed its own handoff of that entity, and the adoption
  falls due at or before a tick that seeds nothing, the place that holds the entity is gone after this one
  tick, and no later tick or packet brings it back, except a tick that seeds the test entities anew.\<close>

theorem late_commit_loses_entity:
  assumes "world_ok (orbit_ops T) orbit_inv us w" and "holders (orbit_ops T) w i = 1" and "n < length (wd_nodes w)"
    and "rt_parts (nd_runtime (wd_nodes w ! n)) = Some p" and "he_us E = us"
    and "i \<in> set (due_incoming (he_now_us E) (pt_mailbox p))" and "i \<in> fst ` set (mb_outgoing (pt_mailbox p))"
    and "\<not> tick_seeds E (wd_nodes w ! n) (wd_db w)"
    and "runtime_tick E (orbit_ops T) secs (wd_nodes w ! n, wd_db w) = Inr (closed, sent, nd, db)"
    and "ho_run (orbit_ops T) secs us (\<lambda>k. k \<noteq> Seeding)
      \<lparr> wd_nodes = (wd_nodes w)[n := nd], wd_flight = wd_flight w @ sent, wd_db = db \<rparr> w'"
  shows "holders (orbit_ops T) w' i = 0"
proof -
  let ?S = "orbit_ops T" and ?nd = "wd_nodes w ! n"
  let ?w = "\<lparr> wd_nodes = (wd_nodes w)[n := nd], wd_flight = wd_flight w @ sent, wd_db = db \<rparr>"
  have st: "ho_step ?S secs us (tick_kind E ?nd (wd_db w)) w ?w" by (rule ho_step.tick [OF assms(3,5,9)])
  have "world_ok ?S orbit_inv us ?w" using orbit.step_view [OF st assms(1)] by blast
  then have le: "holders ?S w' i \<le> holders ?S ?w i" using orbit.run_view [OF assms(10)] by blast
  have "node_ok ?S orbit_inv ?nd" using assms(1,3) by (simp add: world_ok_def)
  then have z: "in_flight i sent + node_holds ?S i nd = 0"
    by (rule orbit.runtime_tick_late [OF _ assms(9,4,6,7)])
  have "i \<in> fst ` set (mb_incoming (pt_mailbox p))" using assms(6) by (auto simp: due_incoming_def)
  then have "1 \<le> node_holds ?S i ?nd" by (simp add: node_holds_def assms(4) parts_hold_def)
  moreover have "holders ?S ?w i + node_holds ?S i ?nd = holders ?S w i + in_flight i sent + node_holds ?S i nd"
    using sum_list_replace [OF assms(3), of "node_holds ?S i" nd] by (simp add: holders_def)
  ultimately show ?thesis using le z assms(2) by linarith
qed

theorem late_commit_loses_entity_witness:
  "\<exists>nd db sent. ho_step (orbit_ops demo_math) (\<lambda>_. 0) demo_printer Late late_world \<lparr> wd_nodes = [nd], wd_flight = sent, wd_db = db \<rparr> \<and>
    holders (orbit_ops demo_math) \<lparr> wd_nodes = [nd], wd_flight = sent, wd_db = db \<rparr> 7 = 0"
proof -
  let ?S = "orbit_ops demo_math"
  have "\<exists>closed sent nd db. runtime_tick demo_ho_env ?S (\<lambda>_. 0) (late_node, mem_empty) = Inr (closed, sent, nd, db)"
    by (rule orbit_tick_total) (simp add: demo_ho_env_def)
  then obtain closed sent nd db where t: "runtime_tick demo_ho_env ?S (\<lambda>_. 0) (wd_nodes late_world ! 0, wd_db late_world) = Inr (closed, sent, nd, db)"
    by (auto simp: late_world_def)
  have n: "0 < length (wd_nodes late_world)" "rt_parts (nd_runtime (wd_nodes late_world ! 0)) = Some late_parts" "he_us demo_ho_env = demo_printer"
    by (simp_all add: late_world_def late_node_def demo_ho_env_def)
  have d: "7 \<in> set (due_incoming (he_now_us demo_ho_env) (pt_mailbox late_parts))" "7 \<in> fst ` set (mb_outgoing (pt_mailbox late_parts))"
    by (simp_all add: late_parts_def due_incoming_def demo_ho_env_def)
  have s: "\<not> tick_seeds demo_ho_env (wd_nodes late_world ! 0) (wd_db late_world)"
    by (simp add: tick_seeds_def seeds_def late_world_def late_node_def)
  have f: "tick_kind demo_ho_env (wd_nodes late_world ! 0) (wd_db late_world) = Late"
    using d s by (auto simp: tick_kind_def in_time_def n(2) list_all_iff)
  have "ho_run ?S (\<lambda>_. 0) demo_printer (\<lambda>k. k \<noteq> Seeding)
      \<lparr> wd_nodes = (wd_nodes late_world)[0 := nd], wd_flight = wd_flight late_world @ sent, wd_db = db \<rparr>
      \<lparr> wd_nodes = (wd_nodes late_world)[0 := nd], wd_flight = wd_flight late_world @ sent, wd_db = db \<rparr>"
    by (simp add: ho_run_def)
  from late_commit_loses_entity [OF late_ok late_holders n d s t this] ho_step.tick [OF n(1,3) t]
  show ?thesis unfolding f by (auto simp: late_world_def)
qed

text \<open>The bookkeeping of a shard is consistent from \<open>Init\<close> on: its tracker passes exactly the entities
  with a pending outgoing handoff, each to the target of that handoff, its simulation has all of them, and
  its maps have one entry for each entity. Every tick, seeding included, and every packet keeps it. For
  this reason the commit never finds a handoff to cancel: it commits all that are due, and takes exactly
  these entities out of the simulation.\<close>

theorem no_handoff_is_cancelled:
  assumes "node_ok (orbit_ops T) orbit_inv nd" and "runtime_tick E (orbit_ops T) secs (nd, db) = Inr (closed, sent, nd', db')"
    and "rt_parts (nd_runtime nd') = Some p"
  shows "node_ok (orbit_ops T) orbit_inv (runtime_init (orbit_ops T) s0 now self nd0) \<and>
    node_ok (orbit_ops T) orbit_inv nd' \<and> node_ok (orbit_ops T) orbit_inv (fst (node_on_packet E' pkt (nd', db'))) \<and>
    (\<exists>s t db''. commit_loop E' (orbit_ops T) self (mb_outgoing (pt_mailbox p)) (pt_sim p, pt_tracker p, db') =
        (s, t, db'', due_outgoing (he_now_us E') (mb_outgoing (pt_mailbox p)), []) \<and>
      sim_ids (orbit_ops T) s = sim_ids (orbit_ops T) (pt_sim p) - set (due_outgoing (he_now_us E') (mb_outgoing (pt_mailbox p))))"
proof (intro conjI)
  show "node_ok (orbit_ops T) orbit_inv (runtime_init (orbit_ops T) s0 now self nd0)"
    using orbit.reset by (intro init_ok) blast
  show nd': "node_ok (orbit_ops T) orbit_inv nd'" by (rule orbit.runtime_tick_ok [OF assms(1,2)])
  show "node_ok (orbit_ops T) orbit_inv (fst (node_on_packet E' pkt (nd', db')))"
  proof (cases "nid_eq (he_us E') (gp_sender pkt) (rt_self (nd_runtime nd'))")
    case True
    then show ?thesis using nd' by (simp add: node_on_packet_def on_generic_entity_packet_def node_ok_def)
  next
    case False
    then show ?thesis using orbit.node_on_packet_view(1) [OF nd' False, of db'] by (metis prod.collapse)
  qed
  have p: "parts_ok (orbit_ops T) orbit_inv p" using nd' assms(3) by (simp add: node_ok_def)
  have d: "distinct (map fst (mb_outgoing (pt_mailbox p)))" using p by (simp add: parts_ok_def mailbox_ok_def)
  have "\<forall>(i, h)\<in>set (mb_outgoing (pt_mailbox p)). passing (pt_tracker p) i = Some (po_target h)"
    using p map_of_is_SomeI [OF d] by (fastforce simp: parts_ok_def)
  from orbit.commit_loop_view [OF _ d this, of "pt_sim p" E' T self db']
  show "\<exists>s t db''. commit_loop E' (orbit_ops T) self (mb_outgoing (pt_mailbox p)) (pt_sim p, pt_tracker p, db') =
        (s, t, db'', due_outgoing (he_now_us E') (mb_outgoing (pt_mailbox p)), []) \<and>
      sim_ids (orbit_ops T) s = sim_ids (orbit_ops T) (pt_sim p) - set (due_outgoing (he_now_us E') (mb_outgoing (pt_mailbox p)))"
    using p by (fastforce simp: parts_ok_def)
qed

theorem no_handoff_is_cancelled_witness:
  "\<exists>nd' p db. rt_parts (nd_runtime nd') = Some p \<and> node_ok (orbit_ops demo_math) orbit_inv nd' \<and>
    fst (snd (snd (snd (commit_loop demo_ho_env (orbit_ops demo_math) make_id_watchdog (mb_outgoing (pt_mailbox p)) (pt_sim p, pt_tracker p, db))))) =
      due_outgoing 100 (mb_outgoing (pt_mailbox p))"
proof -
  have ok: "node_ok (orbit_ops demo_math) orbit_inv late_node" using late_ok by (simp add: world_ok_def late_world_def)
  have "\<exists>closed sent nd db. runtime_tick demo_ho_env (orbit_ops demo_math) (\<lambda>_. 0) (late_node, mem_empty) = Inr (closed, sent, nd, db)"
    by (rule orbit_tick_total) (simp add: demo_ho_env_def)
  then obtain closed sent nd db where t: "runtime_tick demo_ho_env (orbit_ops demo_math) (\<lambda>_. 0) (late_node, mem_empty) = Inr (closed, sent, nd, db)"
    by blast
  have "node_ok (orbit_ops demo_math) orbit_inv nd" by (rule orbit.runtime_tick_ok [OF ok t])
  then obtain p where p: "rt_parts (nd_runtime nd) = Some p" by (auto simp: node_ok_def split: option.splits)
  have "he_now_us demo_ho_env = 100" by (simp add: demo_ho_env_def)
  then show ?thesis
    using no_handoff_is_cancelled [OF ok t p, of orbit_empty 0 make_id_watchdog fresh_node demo_ho_env packet_seven] p
    by (intro exI [of _ nd] exI [of _ p] exI [of _ db]) auto
qed

end
