(* ===== verification/Naive_Handoff.thy ===== *)
theory Naive_Handoff
  imports Handoff_Network
begin

text \<open>
  The first version of the handoff (\<open>NaiveHandoff/NH_EntityAuthorityManager\<close>): one pending handoff in
  each direction, due at a local tick, and an owner's key in the database that the sender of a handoff
  sets at once. Its tracker, leases, connection manager and packet manager are the classes of
  \<open>ServerHandoff\<close> under other names, with the same code, and so are the definitions for them. Shards that
  run it are a step relation.
\<close>

section \<open>The runtime\<close>

record 's naive_parts =
  np_tracker :: tracker
  np_sim :: 's

record 's naive_runtime =
  nr_self :: network_identity
  nr_initialized :: bool
  nr_election :: election
  nr_parts :: "'s naive_parts option"
  nr_incoming :: "pending_incoming option"
  nr_outgoing :: "pending_outgoing option"
  nr_tick :: u64
  nr_last_tick :: int
  nr_last_snapshot :: int

record 's naive_node =
  nn_runtime :: "'s naive_runtime"
  nn_conn :: connection_manager
  nn_packets :: handoff_packets

definition naive_snapshot_interval :: int where
  "naive_snapshot_interval = 250000000"

definition handoff_lead_ticks :: u64 where
  "handoff_lead_ticks = 6"

definition naive_seed :: seed_options where
  "naive_seed = seed_default \<lparr> sd_desired_count := 1, sd_half_extent := 0x3F000000, sd_phase_step := 0x3F333333 \<rparr>"

definition naive_orbit :: "f32 \<Rightarrow> tick_options" where
  "naive_orbit delta = tick_default \<lparr> to_delta_seconds := delta, to_radius := 0x42480000, to_angular_speed := 0x3EB33333 \<rparr>"

definition naive_new :: "'s naive_runtime" where
  "naive_new = \<lparr> nr_self = nid_new, nr_initialized = False, nr_election = election_new nid_new, nr_parts = None,
     nr_incoming = None, nr_outgoing = None, nr_tick = 0, nr_last_tick = 0, nr_last_snapshot = 0 \<rparr>"

text \<open>\<open>s0\<close> is the state of a simulator just constructed.\<close>

definition naive_init :: "'s sim_ops \<Rightarrow> 's \<Rightarrow> int \<Rightarrow> network_identity \<Rightarrow> 's naive_node \<Rightarrow> 's naive_node" where
  "naive_init S s0 now self nd =
    nd \<lparr> nn_runtime := \<lparr> nr_self = self, nr_initialized = True, nr_election = election_reset now (election_new self),
           nr_parts = Some \<lparr> np_tracker = tracker_reset [], np_sim = so_reset S s0 \<rparr>, nr_incoming = None,
           nr_outgoing = None, nr_tick = 0, nr_last_tick = now, nr_last_snapshot = now - naive_snapshot_interval \<rparr>,
         nn_conn := cm_init self (nn_conn nd),
         nn_packets := hp_set_callbacks True (hp_init self (nn_packets nd)) \<rparr>"

text \<open>The body of the loop over the entities for one of them: the tracker, what is sent, the pending
  handoff, whether the owner has changed, and the database. A handoff that is sent replaces the pending
  one and writes the owner's key.\<close>

definition naive_trigger ::
  "'db ho_env \<Rightarrow> handoff_packets \<Rightarrow> network_identity \<Rightarrow> string \<Rightarrow> u64 \<Rightarrow> (network_identity \<times> grid_shape) list \<Rightarrow> grid_shape \<Rightarrow>
   ho_entity \<Rightarrow> tracker \<times> (network_identity \<times> generic_packet) list \<times> pending_outgoing option \<times> bool \<times> 'db \<Rightarrow>
   (tracker \<times> (network_identity \<times> generic_packet) list \<times> pending_outgoing option \<times> bool \<times> 'db) res" where
  "naive_trigger E pm self owner_key tick claims self_bounds e = (\<lambda>(t, sent, out, fired, db).
    let p = tr_position (ho_transform e)
    in if grid_shape_contains self_bounds p then Inr (mark_authoritative (ho_id e) t, sent, out, fired, db)
       else
         let key = select_target_claim_key (he_us E) claims self p
         in bindE (he_registry E db) (\<lambda>servers.
           case resolve_identity (he_us E) key servers of
             None \<Rightarrow> Inr (t, sent, out, fired, db)
           | Some target \<Rightarrow>
               if nid_eq (he_us E) target self then Inr (t, sent, out, fired, db)
               else (case mark_passing (he_us E) (ho_id e) target t of
                 (False, t) \<Rightarrow> Inr (t, sent, out, fired, db)
               | (True, t) \<Rightarrow>
                   let time = tick + handoff_lead_ticks
                   in Inr (t, sent @ send_entity_handoff pm (he_now_ms E) target e time,
                        Some \<lparr> po_entity_id = ho_id e, po_target = target, po_time = time \<rparr>, True,
                        snd (db_set (he_conn E) owner_key (nid_text (he_us E) key) db)))))"

fun naive_trigger_loop ::
  "'db ho_env \<Rightarrow> handoff_packets \<Rightarrow> network_identity \<Rightarrow> string \<Rightarrow> u64 \<Rightarrow> (network_identity \<times> grid_shape) list \<Rightarrow> grid_shape \<Rightarrow>
   ho_entity list \<Rightarrow> tracker \<times> (network_identity \<times> generic_packet) list \<times> pending_outgoing option \<times> bool \<times> 'db \<Rightarrow>
   (tracker \<times> (network_identity \<times> generic_packet) list \<times> pending_outgoing option \<times> bool \<times> 'db) res" where
  "naive_trigger_loop E pm self k tick claims b [] x = Inr x"
| "naive_trigger_loop E pm self k tick claims b (e # es) x =
    bindE (naive_trigger E pm self k tick claims b e x) (naive_trigger_loop E pm self k tick claims b es)"

definition naive_triggers ::
  "'db ho_env \<Rightarrow> handoff_packets \<Rightarrow> network_identity \<Rightarrow> string \<Rightarrow> u64 \<Rightarrow> tracker \<times> pending_outgoing option \<times> 'db \<Rightarrow>
   (tracker \<times> (network_identity \<times> generic_packet) list \<times> pending_outgoing option \<times> bool \<times> 'db) res" where
  "naive_triggers E pm self k tick = (\<lambda>(t, out, db).
    let claims = he_claims E db
    in if claims = [] then Inr (t, [], out, False, db)
       else case id_find (he_us E) self claims of
         None \<Rightarrow> Inr (t, [], out, False, db)
       | Some b \<Rightarrow> naive_trigger_loop E pm self k tick claims b (get_owned_entity_snapshots t) (t, [], out, False, db))"

definition naive_publish :: "'db ho_env \<Rightarrow> nat \<Rightarrow> network_identity \<Rightarrow> tracker \<Rightarrow> 'db \<Rightarrow> 'db" where
  "naive_publish E i self t db =
    publish_from_tracker (he_ser E) (he_fmt E) (he_us E) (he_row_ms E i) (he_conn E) self t db"

text \<open>The commit of the pending handoff, whatever entities there are; the flag tells whether it was due.\<close>

definition naive_commit ::
  "'db ho_env \<Rightarrow> 's sim_ops \<Rightarrow> network_identity \<Rightarrow> u64 \<Rightarrow> pending_outgoing option \<times> 's \<times> tracker \<times> 'db \<Rightarrow>
   bool \<times> pending_outgoing option \<times> 's \<times> tracker \<times> 'db" where
  "naive_commit E S self tick = (\<lambda>(out, s, t, db).
    case out of
      None \<Rightarrow> (False, None, s, t, db)
    | Some h \<Rightarrow>
        if tick < po_time h then (False, Some h, s, t, db)
        else let t = set_owned_entities [] t in (True, None, so_reset S s, t, naive_publish E 0 self t db))"

text \<open>The tick of an owner, after the election.\<close>

definition naive_own_tick ::
  "'db ho_env \<Rightarrow> 's sim_ops \<Rightarrow> (int \<Rightarrow> f32) \<Rightarrow> handoff_packets \<Rightarrow> 's naive_runtime \<Rightarrow> 's naive_parts \<Rightarrow> 'db \<Rightarrow>
   ((network_identity \<times> generic_packet) list \<times> 's naive_runtime \<times> 'db) res" where
  "naive_own_tick E S secs pm rt p db =
    (let (incoming, s) = (case nr_incoming rt of
           None \<Rightarrow> (None, np_sim p)
         | Some h \<Rightarrow> if pi_time h \<le> nr_tick rt then (None, so_adopt S (pi_entity h) (np_sim p)) else (Some h, np_sim p))
     in bindE (so_seed S naive_seed s) (\<lambda>s.
        bindE (so_tick S (naive_orbit (secs (he_now E - nr_last_tick rt))) s) (\<lambda>s.
        let t = set_owned_entities (so_snapshot S s) (np_tracker p)
        in bindE (naive_triggers E pm (nr_self rt) (el_owner_key (nr_election rt)) (nr_tick rt) (t, nr_outgoing rt, db))
          (\<lambda>(t, sent, out, fired, db).
           let (done, out', s, t, db) = naive_commit E S (nr_self rt) (nr_tick rt) (out, s, t, db);
               el = (if fired then election_invalidate (nr_election rt) else nr_election rt);
               el = (if done then election_invalidate (election_force_not_owner el) else el);
               publish = naive_snapshot_interval \<le> he_now E - nr_last_snapshot rt;
               db = (if publish then naive_publish E 1 (nr_self rt) t db else db)
           in Inr (sent, rt \<lparr> nr_incoming := incoming, nr_outgoing := out', nr_election := el,
                nr_parts := Some \<lparr> np_tracker = t, np_sim = s \<rparr>, nr_last_tick := he_now E,
                nr_last_snapshot := (if publish then he_now E else nr_last_snapshot rt) \<rparr>, db)))))"

text \<open>The tick of a shard that does not own the entities: it forgets them.\<close>

definition naive_idle_tick ::
  "'db ho_env \<Rightarrow> 's sim_ops \<Rightarrow> 's naive_runtime \<Rightarrow> 's naive_parts \<Rightarrow> 'db \<Rightarrow> 's naive_runtime \<times> 'db" where
  "naive_idle_tick E S rt p db =
    (let t = set_owned_entities [] (np_tracker p)
     in (rt \<lparr> nr_outgoing := None, nr_parts := Some \<lparr> np_tracker = t, np_sim = so_reset S (np_sim p) \<rparr> \<rparr>,
         naive_publish E 1 (nr_self rt) t db))"

definition naive_tick ::
  "'db ho_env \<Rightarrow> 's sim_ops \<Rightarrow> (int \<Rightarrow> f32) \<Rightarrow> 's naive_node \<times> 'db \<Rightarrow>
   (network_identity list \<times> (network_identity \<times> generic_packet) list \<times> 's naive_node \<times> 'db) res" where
  "naive_tick E S secs = (\<lambda>(nd, db).
    let rt = nn_runtime nd
    in if \<not> nr_initialized rt then Inr ([], [], nd, db)
       else
         let rt = rt \<lparr> nr_tick := nr_tick rt + 1 \<rparr>;
             (closed, cm, db) = cm_tick (he_us E) (he_conn E) (he_now E) (nn_conn nd, db)
         in bindE (evaluate_ownership (he_us E) (he_conn E) (he_registry E) (he_now E) (nr_election rt, db))
           (\<lambda>(own, el, db).
            let rt = rt \<lparr> nr_election := el \<rparr>
            in case nr_parts rt of
                 None \<Rightarrow> Inr (closed, [], nd \<lparr> nn_runtime := rt, nn_conn := cm \<rparr>, db)
               | Some p \<Rightarrow>
                   if own
                   then bindE (naive_own_tick E S secs (nn_packets nd) rt p db) (\<lambda>(sent, rt, db).
                     Inr (closed, sent, nd \<lparr> nn_runtime := rt, nn_conn := cm \<rparr>, db))
                   else let (rt, db) = naive_idle_tick E S rt p db
                        in Inr (closed, [], nd \<lparr> nn_runtime := rt, nn_conn := cm \<rparr>, db)))"

definition naive_shutdown :: "'db ho_env \<Rightarrow> 's naive_node \<times> 'db \<Rightarrow> network_identity list \<times> 's naive_node \<times> 'db" where
  "naive_shutdown E = (\<lambda>(nd, db).
    if \<not> nr_initialized (nn_runtime nd) then ([], nd, db)
    else
      let pm = hp_shutdown (hp_set_callbacks False (nn_packets nd));
          (closed, cm, db) = cm_shutdown (he_us E) (he_conn E) (nn_conn nd, db)
      in (closed, nd \<lparr> nn_runtime := (nn_runtime nd) \<lparr> nr_parts := None, nr_incoming := None, nr_outgoing := None,
             nr_initialized := False \<rparr>,
           nn_conn := cm, nn_packets := pm \<rparr>, db))"

definition naive_on_incoming_at_tick :: "ho_entity \<Rightarrow> network_identity \<Rightarrow> u64 \<Rightarrow> 's naive_runtime \<Rightarrow> 's naive_runtime" where
  "naive_on_incoming_at_tick e sender tick rt =
    rt \<lparr> nr_incoming := Some \<lparr> pi_entity = e, pi_sender = sender, pi_time = tick \<rparr>,
         nr_election := election_invalidate (nr_election rt) \<rparr>"

definition naive_on_incoming :: "ho_entity \<Rightarrow> network_identity \<Rightarrow> 's naive_runtime \<Rightarrow> 's naive_runtime" where
  "naive_on_incoming e sender rt = naive_on_incoming_at_tick e sender 0 rt"

text \<open>A packet that arrives, with the callbacks that \<open>Init\<close> installs.\<close>

definition naive_on_packet :: "'db ho_env \<Rightarrow> generic_packet \<Rightarrow> 's naive_node \<times> 'db \<Rightarrow> 's naive_node \<times> 'db" where
  "naive_on_packet E pkt = (\<lambda>(nd, db).
    case on_generic_entity_packet (he_us E) (nn_packets nd) pkt of
      None \<Rightarrow> (nd, db)
    | Some (peer, e, sender, tick) \<Rightarrow>
        let (cm, db) = cm_mark_activity (he_us E) (he_conn E) (he_now E) peer (nn_conn nd, db)
        in (nd \<lparr> nn_conn := cm, nn_runtime := naive_on_incoming_at_tick e sender tick (nn_runtime nd) \<rparr>, db))"

section \<open>The facade\<close>

record 's naive_manager =
  nm_created :: bool
  nm_node :: "'s naive_node"

definition naive_manager_init :: "'s sim_ops \<Rightarrow> 's \<Rightarrow> int \<Rightarrow> network_identity \<Rightarrow> 's naive_manager \<Rightarrow> 's naive_manager" where
  "naive_manager_init S s0 now self m =
    (let nd = (if nm_created m then nm_node m else (nm_node m) \<lparr> nn_runtime := naive_new \<rparr>)
     in \<lparr> nm_created = True, nm_node = naive_init S s0 now self nd \<rparr>)"

definition naive_manager_tick ::
  "'db ho_env \<Rightarrow> 's sim_ops \<Rightarrow> (int \<Rightarrow> f32) \<Rightarrow> 's naive_manager \<times> 'db \<Rightarrow>
   (network_identity list \<times> (network_identity \<times> generic_packet) list \<times> 's naive_manager \<times> 'db) res" where
  "naive_manager_tick E S secs = (\<lambda>(m, db).
    if \<not> nm_created m then Inr ([], [], m, db)
    else bindE (naive_tick E S secs (nm_node m, db)) (\<lambda>(closed, sent, nd, db). Inr (closed, sent, m \<lparr> nm_node := nd \<rparr>, db)))"

definition naive_manager_shutdown ::
  "'db ho_env \<Rightarrow> 's naive_manager \<times> 'db \<Rightarrow> network_identity list \<times> 's naive_manager \<times> 'db" where
  "naive_manager_shutdown E = (\<lambda>(m, db).
    if \<not> nm_created m then ([], m, db)
    else let (closed, nd, db) = naive_shutdown E (nm_node m, db) in (closed, m \<lparr> nm_node := nd \<rparr>, db))"

definition naive_manager_on_incoming_at_tick ::
  "ho_entity \<Rightarrow> network_identity \<Rightarrow> u64 \<Rightarrow> 's naive_manager \<Rightarrow> 's naive_manager" where
  "naive_manager_on_incoming_at_tick e sender tick m =
    (if \<not> nm_created m then m
     else m \<lparr> nm_node := (nm_node m) \<lparr> nn_runtime := naive_on_incoming_at_tick e sender tick (nn_runtime (nm_node m)) \<rparr> \<rparr>)"

definition naive_manager_on_incoming :: "ho_entity \<Rightarrow> network_identity \<Rightarrow> 's naive_manager \<Rightarrow> 's naive_manager" where
  "naive_manager_on_incoming e sender m =
    (if \<not> nm_created m then m
     else m \<lparr> nm_node := (nm_node m) \<lparr> nn_runtime := naive_on_incoming e sender (nn_runtime (nm_node m)) \<rparr> \<rparr>)"

definition naive_manager_is_initialized :: "'s naive_manager \<Rightarrow> bool" where
  "naive_manager_is_initialized m \<longleftrightarrow> nm_created m \<and> nr_initialized (nn_runtime (nm_node m))"

section \<open>The owner's key\<close>

definition test_owner_key :: string where
  "test_owner_key = ''EntityHandoff:TestOwnerShard''"

text \<open>What the connection manager's leases are made of.\<close>

definition leases_apart :: "connection_manager \<Rightarrow> bool" where
  "leases_apart m \<longleftrightarrow> (case cm_coordinator m of None \<Rightarrow> True
     | Some c \<Rightarrow> lo_prefix (lc_options c) = ''EntityHandoff:ConnLease:'' \<and> 0 < lo_ttl (lc_options c))"

lemma leases_apart_init: "leases_apart (cm_init self m)"
  by (simp add: leases_apart_def cm_init_def set_lease_enabled_def lc_new_def lease_options_default_def)

text \<open>A store with the keys of the handoff, and a registry that always answers the same.\<close>

locale naive_store = redis_keys R hash_key hash_of set_of str_key str_of
  for R :: "'db redis_ops" and hash_key and hash_of and set_of and str_key and str_of +
  fixes us :: "bytes \<Rightarrow> string" and C :: "'db redis_connection" and ids :: "network_identity list"
  assumes connection: "with_sync C = R"
    and printer: "uuid_printer us"
    and handoff_strings: "prefix ''EntityHandoff:'' j \<Longrightarrow> str_key j \<and> \<not> hash_key j"
    and hset_keeps: "op_hset R j f v db = (n, db') \<Longrightarrow> str_of db' = str_of db"
begin

lemma owner_key_string: "str_key test_owner_key"
  using handoff_strings [of test_owner_key] by (simp add: test_owner_key_def)

lemma lease_key:
  assumes "lo_prefix (lc_options c) = ''EntityHandoff:ConnLease:''"
  shows "str_key (build_lease_key us c peer)" "\<not> hash_key (build_lease_key us c peer)"
    and "build_lease_key us c peer \<noteq> test_owner_key"
  using handoff_strings [of "build_lease_key us c peer"] assms by (auto simp: build_lease_key_def test_owner_key_def)

lemma release_keeps:
  assumes "lo_prefix (lc_options c) = ''EntityHandoff:ConnLease:''" and "0 < lo_ttl (lc_options c)"
  shows "str_of (release_lease_if_owned us C c peer db) test_owner_key = str_of db test_owner_key"
proof (cases "lo_enabled (lc_options c)")
  case True
  then show ?thesis
    using release_view [OF connection _ lease_key(1,2) [OF assms(1)], of peer db] lease_key(3) [OF assms(1), of peer] assms(2)
    by (simp add: lease_on_def)
qed (simp add: release_lease_if_owned_def)

lemma acquire_keeps:
  assumes "lo_prefix (lc_options c) = ''EntityHandoff:ConnLease:''" and "0 < lo_ttl (lc_options c)"
  shows "str_of (snd (try_acquire_or_refresh_lease us C c peer db)) test_owner_key = str_of db test_owner_key"
  using lease_key [OF assms(1), of peer] assms(2) connection
  by (simp add: try_acquire_or_refresh_lease_def Let_def db_set_def db_expire_def set_contents expire_contents)

lemma reap_keeps:
  assumes "lo_prefix (lc_options c) = ''EntityHandoff:ConnLease:''" and "0 < lo_ttl (lc_options c)"
  shows "str_of (fst (snd (reap_loop us C c now f m (x, db, gone)))) test_owner_key = str_of db test_owner_key"
proof (induction m arbitrary: x db gone)
  case (Cons y m)
  then show ?case using release_keeps [OF assms] by (cases y) simp
qed simp

lemma cm_tick_keeps:
  assumes "leases_apart m" and "cm_tick us C now (m, db) = (closed, m', db')"
  shows "leases_apart m' \<and> str_of db' test_owner_key = str_of db test_owner_key"
proof (cases "cm_coordinator m")
  case None
  then show ?thesis using assms by (auto simp: cm_tick_def)
next
  case (Some c)
  obtain x db1 gone where r: "reap_loop us C c now (on_inactive_peer us) (lc_activity c) (([], cm_active m), db, []) = (x, db1, gone)"
    using prod_cases3 by blast
  have p: "lo_prefix (lc_options c) = ''EntityHandoff:ConnLease:''" "0 < lo_ttl (lc_options c)" using assms(1) Some by (simp_all add: leases_apart_def)
  have "str_of db1 test_owner_key = str_of db test_owner_key"
    using reap_keeps [OF p, of now "on_inactive_peer us" "lc_activity c" "([], cm_active m)" db "[]"] r by simp
  then show ?thesis using assms Some r
    by (cases x) (auto simp: cm_tick_def reap_inactive_connections_def leases_apart_def split: if_splits)
qed

lemma cm_mark_keeps:
  assumes "leases_apart m" and "cm_mark_activity us C now peer (m, db) = (m', db')"
  shows "leases_apart m' \<and> str_of db' test_owner_key = str_of db test_owner_key"
proof (cases "cm_initialized m \<and> cm_coordinator m \<noteq> None")
  case False
  then show ?thesis using assms by (auto simp: cm_mark_activity_def leases_apart_def Let_def split: if_splits option.splits)
next
  case True
  then obtain c where c: "cm_initialized m" "cm_coordinator m = Some c" by auto
  let ?c = "c \<lparr> lc_activity := id_put us peer now (lc_activity c) \<rparr>"
  have "lo_prefix (lc_options ?c) = ''EntityHandoff:ConnLease:''" "0 < lo_ttl (lc_options ?c)"
    using assms(1) c by (simp_all add: leases_apart_def)
  from acquire_keeps [OF this] show ?thesis
    using assms c by (auto simp: cm_mark_activity_def mark_connection_activity_def leases_apart_def Let_def)
qed

lemma publish_keeps: "str_of (publish_from_tracker ser fmt us ms C self t db) = str_of db"
proof -
  have hset: "str_of (snd (db_hset C j f v db)) = str_of db" for j f v db
    using hset_keeps [of j f v db "fst (db_hset C j f v db)" "snd (db_hset C j f v db)"] connection
    by (simp add: db_hset_def)
  have "str_of (foldl (\<lambda>db row. publish_row ser fmt us ms C row db) db rows) = str_of db" for rows
    by (induction rows arbitrary: db) (simp_all add: publish_row_def Let_def hset)
  then show ?thesis by (simp add: publish_from_tracker_def authority_telemetry_update_def)
qed

lemma owner_key_written: "str_of (snd (db_set C test_owner_key v db)) = (str_of db)(test_owner_key \<mapsto> v)"
  using connection owner_key_string by (simp add: db_set_def set_contents)

end

interpretation memnaive: naive_store mem_redis "\<lambda>_. False" mem_hash mem_set "\<lambda>_. True" md_str demo_printer mem_connection ids for ids
  by unfold_locales (auto simp: mem_redis_def demo_printer_ok)


section \<open>Shards on one database\<close>

text \<open>Any number of shards that run the naive handoff: a tick of one of them, or a packet that reaches one.
  Everything about the surroundings but the database, the printer and the registry may change from step
  to step.\<close>

definition surroundings :: "(bytes \<Rightarrow> string) \<Rightarrow> 'db redis_connection \<Rightarrow> network_identity list \<Rightarrow> 'db ho_env \<Rightarrow> bool" where
  "surroundings us C ids E \<longleftrightarrow> he_us E = us \<and> he_conn E = C \<and> (\<forall>db. he_registry E db = Inr ids)"

inductive naive_reach ::
  "'s sim_ops \<Rightarrow> (bytes \<Rightarrow> string) \<Rightarrow> 'db redis_connection \<Rightarrow> network_identity list \<Rightarrow> ('n \<Rightarrow> network_identity) \<Rightarrow>
   ('n \<Rightarrow> 's naive_node) \<times> 'db \<Rightarrow> bool"
  for S us C ids self where
  start: "naive_reach S us C ids self (\<lambda>i. naive_init S s0 (now i) (self i) (nd i), db)"
| tick: "naive_reach S us C ids self (nodes, db) \<Longrightarrow> surroundings us C ids E \<Longrightarrow>
    naive_tick E S secs (nodes i, db) = Inr (closed, sent, nd', db') \<Longrightarrow>
    naive_reach S us C ids self (nodes(i := nd'), db')"
| packet: "naive_reach S us C ids self (nodes, db) \<Longrightarrow> surroundings us C ids E \<Longrightarrow>
    naive_on_packet E pkt (nodes i, db) = (nd', db') \<Longrightarrow> naive_reach S us C ids self (nodes(i := nd'), db')"

text \<open>A node that believes to be the owner, and has not been told to look again, is the one in the
  database.\<close>

definition naive_node_ok :: "network_identity \<Rightarrow> 's naive_node \<Rightarrow> bool" where
  "naive_node_ok self nd \<longleftrightarrow> nr_self (nn_runtime nd) = self \<and> el_self (nr_election (nn_runtime nd)) = self \<and>
    el_owner_key (nr_election (nn_runtime nd)) = test_owner_key \<and> leases_apart (nn_conn nd) \<and>
    nr_parts (nn_runtime nd) \<noteq> None \<and> nr_initialized (nn_runtime nd)"

definition believes :: "'s naive_node \<Rightarrow> bool" where
  "believes nd \<longleftrightarrow> el_is_owner (nr_election (nn_runtime nd)) \<and> el_evaluated (nr_election (nn_runtime nd))"

lemma election_parts [simp]:
  "el_self (election_invalidate e) = el_self e" "el_owner_key (election_invalidate e) = el_owner_key e"
  "el_evaluated (election_invalidate e) = False" "el_is_owner (election_invalidate e) = el_is_owner e"
  "el_self (election_force_not_owner e) = el_self e" "el_owner_key (election_force_not_owner e) = el_owner_key e"
  "el_self (election_reset now e) = el_self e" "el_owner_key (election_reset now e) = el_owner_key e"
  "el_evaluated (election_reset now e) = False"
  by (simp_all add: election_invalidate_def election_force_not_owner_def election_reset_def)

context naive_store
begin

lemma trigger_view:
  assumes "surroundings us C ids E"
    and "naive_trigger E pm self test_owner_key tick claims b e (t, sent, out, fired, db) = Inr (t', sent', out', fired', db')"
  shows "(fired \<longrightarrow> fired') \<and> (\<not> fired' \<longrightarrow> out' = out \<and> sent' = sent \<and> str_of db' = str_of db) \<and>
    (fired' \<longrightarrow> out' = out \<and> str_of db' = str_of db \<and> fired \<or>
      (\<exists>target\<in>set ids. \<not> nid_eq us target self \<and> str_of db' test_owner_key = Some (nid_text us target)) \<and>
      (\<exists>h. out' = Some h \<and> po_time h = tick + handoff_lead_ticks))"
proof -
  define key where "key = select_target_claim_key us claims self (tr_position (ho_transform e))"
  have E: "he_us E = us" "he_conn E = C" "he_registry E db = Inr ids" using assms(1) by (simp_all add: surroundings_def)
  show ?thesis
  proof (cases "\<not> grid_shape_contains b (tr_position (ho_transform e)) \<and>
      (\<exists>target. resolve_identity us key ids = Some target \<and> \<not> nid_eq us target self \<and> fst (mark_passing us (ho_id e) target t))")
    case True
    then obtain target where tg: "resolve_identity us key ids = Some target" "\<not> nid_eq us target self"
        "fst (mark_passing us (ho_id e) target t)" and b: "\<not> grid_shape_contains b (tr_position (ho_transform e))" by blast
    have "target \<in> set ids" "nid_eq us target key"
      using tg(1) by (auto simp: resolve_identity_def find_Some_iff)
    then have name: "nid_text us target = nid_text us key" by (simp add: nid_eq_def nid_text_def)
    have "fired' \<and> out' = Some \<lparr> po_entity_id = ho_id e, po_target = target, po_time = tick + handoff_lead_ticks \<rparr> \<and>
        db' = snd (db_set C test_owner_key (nid_text us key) db)"
      using assms(2) b tg E
      by (auto simp: naive_trigger_def Let_def key_def [symmetric] split: prod.splits bool.splits)
    then show ?thesis using owner_key_written [of "nid_text us key" db] tg(2) \<open>target \<in> set ids\<close> name by auto
  next
    case False
    then have "fired' = fired \<and> out' = out \<and> sent' = sent \<and> db' = db"
      using assms(2) E
      by (auto simp: naive_trigger_def Let_def key_def [symmetric] split: prod.splits bool.splits option.splits if_splits)
    then show ?thesis by auto
  qed
qed

lemma trigger_loop_view:
  assumes "surroundings us C ids E"
    and "naive_trigger_loop E pm self test_owner_key tick claims b es (t, sent, out, fired, db) = Inr (t', sent', out', fired', db')"
  shows "(fired \<longrightarrow> fired') \<and> (\<not> fired' \<longrightarrow> out' = out \<and> sent' = sent \<and> str_of db' = str_of db) \<and>
    (fired' \<longrightarrow> out' = out \<and> str_of db' = str_of db \<and> fired \<or>
      (\<exists>target\<in>set ids. \<not> nid_eq us target self \<and> str_of db' test_owner_key = Some (nid_text us target)) \<and>
      (\<exists>h. out' = Some h \<and> po_time h = tick + handoff_lead_ticks))"
  using assms(2)
proof (induction es arbitrary: t sent out fired db)
  case (Cons e es)
  obtain t1 sent1 out1 fired1 db1 where 1: "naive_trigger E pm self test_owner_key tick claims b e (t, sent, out, fired, db) =
      Inr (t1, sent1, out1, fired1, db1)"
    using Cons.prems by (cases "naive_trigger E pm self test_owner_key tick claims b e (t, sent, out, fired, db)") auto
  note first = trigger_view [OF assms(1) 1]
  have "naive_trigger_loop E pm self test_owner_key tick claims b es (t1, sent1, out1, fired1, db1) = Inr (t', sent', out', fired', db')"
    using Cons.prems 1 by simp
  note rest = Cons.IH [OF this]
  show ?case using first rest by (cases fired1; cases fired'; cases fired) auto
qed simp

lemma triggers_view:
  assumes "surroundings us C ids E"
    and "naive_triggers E pm self test_owner_key tick (t, out, db) = Inr (t', sent', out', fired', db')"
  shows "if fired' then (\<exists>target\<in>set ids. \<not> nid_eq us target self \<and> str_of db' test_owner_key = Some (nid_text us target)) \<and>
      (\<exists>h. out' = Some h \<and> po_time h = tick + handoff_lead_ticks)
    else out' = out \<and> sent' = [] \<and> str_of db' = str_of db"
  using assms(2) trigger_loop_view [OF assms(1), of pm self tick "he_claims E db" _ "get_owned_entity_snapshots t" t "[]" out False db]
  by (auto simp: naive_triggers_def Let_def split: if_splits option.splits)

lemma elected_registered: "s \<in> shard_names us ids \<Longrightarrow> elected us ids (Some s) = Some s"
  by (simp add: elected_def)

lemma evaluate_ok:
  assumes "surroundings us C ids E" and "el_owner_key e = test_owner_key" and "nid_text us (el_self e) \<in> shard_names us ids"
    and "el_is_owner e \<and> el_evaluated e \<longrightarrow> str_of db test_owner_key = Some (nid_text us (el_self e))"
    and "evaluate_ownership us C (he_registry E) now (e, db) = Inr (own, e', db')"
  shows "el_self e' = el_self e \<and> el_owner_key e' = test_owner_key \<and> el_is_owner e' = own \<and>
    (own \<longrightarrow> elected us ids (str_of db test_owner_key) = Some (nid_text us (el_self e)) \<and>
      str_of db' test_owner_key = Some (nid_text us (el_self e))) \<and>
    (\<forall>v\<in>shard_names us ids. str_of db test_owner_key = Some v \<longrightarrow> str_of db' test_owner_key = Some v) \<and>
    (el_evaluated e \<or> (own \<longleftrightarrow> elected us ids (str_of db test_owner_key) = Some (nid_text us (el_self e))))"
proof (cases "el_evaluated e \<and> now - el_last_eval e < el_eval_interval e")
  case True
  then show ?thesis using assms elected_registered by (auto simp: evaluate_ownership_def)
next
  case False
  have "elected us ids (str_of db test_owner_key) \<noteq> None"
    using assms(3) select_None(2) [of us ids] by (auto simp: elected_def split: option.split)
  then obtain s where s: "elected us ids (str_of db (el_owner_key e)) = Some s" using assms(2) by auto
  have reg: "he_registry E db = Inr ids" using assms(1) by (simp add: surroundings_def)
  have key: "str_key (el_owner_key e)" using owner_key_string assms(2) by simp
  obtain e1 db1 where ev: "evaluate_ownership us C (he_registry E) now (e, db) = Inr (s = nid_text us (el_self e), e1, db1)"
      "str_of db1 = (str_of db)(el_owner_key e \<mapsto> s)" "el_is_owner e1 = (s = nid_text us (el_self e))"
    using evaluate_view [where registry = "he_registry E", OF connection key printer False reg s] by blast
  have "el_self e' = el_self e \<and> el_owner_key e' = el_owner_key e"
    using assms(5) False by (auto simp: evaluate_ownership_def reg Let_def split: prod.splits)
  then show ?thesis using ev assms(2,5) s elected_registered by auto
qed

lemma own_tick_view:
  assumes "surroundings us C ids E" and "el_owner_key (nr_election rt) = test_owner_key"
    and "str_of db test_owner_key = Some name"
    and "naive_own_tick E S secs pm rt p db = Inr (sent, rt', db')"
  shows "nr_self rt' = nr_self rt \<and> nr_initialized rt' = nr_initialized rt \<and> nr_parts rt' \<noteq> None \<and> nr_tick rt' = nr_tick rt \<and>
    el_self (nr_election rt') = el_self (nr_election rt) \<and> el_owner_key (nr_election rt') = test_owner_key \<and>
    (el_evaluated (nr_election rt') \<longrightarrow> str_of db' test_owner_key = Some name) \<and>
    (sent \<noteq> [] \<longrightarrow> \<not> el_evaluated (nr_election rt') \<and>
      (nr_tick rt < nr_tick rt + handoff_lead_ticks \<longrightarrow>
        (\<exists>h. nr_outgoing rt' = Some h \<and> po_time h = nr_tick rt + handoff_lead_ticks)) \<and>
      (\<exists>target\<in>set ids. \<not> nid_eq us target (nr_self rt) \<and> str_of db' test_owner_key = Some (nid_text us target)))"
proof -
  have E: "he_us E = us" "he_conn E = C" using assms(1) by (simp_all add: surroundings_def)
  obtain incoming s0 where inc: "(case nr_incoming rt of None \<Rightarrow> (None, np_sim p)
         | Some h \<Rightarrow> if pi_time h \<le> nr_tick rt then (None, so_adopt S (pi_entity h) (np_sim p)) else (Some h, np_sim p)) = (incoming, s0)"
    by (rule prod.exhaust)
  obtain s1 where seed: "so_seed S naive_seed s0 = Inr s1"
    using assms(4) by (cases "so_seed S naive_seed s0") (simp_all add: naive_own_tick_def inc Let_def)
  obtain s2 where tick: "so_tick S (naive_orbit (secs (he_now E - nr_last_tick rt))) s1 = Inr s2"
    using assms(4) by (cases "so_tick S (naive_orbit (secs (he_now E - nr_last_tick rt))) s1") (simp_all add: naive_own_tick_def inc seed Let_def)
  define t0 where "t0 = set_owned_entities (so_snapshot S s2) (np_tracker p)"
  obtain t1 sent1 out fired db1 where tr: "naive_triggers E pm (nr_self rt) test_owner_key (nr_tick rt) (t0, nr_outgoing rt, db) =
      Inr (t1, sent1, out, fired, db1)"
    using assms(4) assms(2)
    by (cases "naive_triggers E pm (nr_self rt) test_owner_key (nr_tick rt) (t0, nr_outgoing rt, db)")
      (auto simp: naive_own_tick_def inc seed tick t0_def Let_def)
  note fire = triggers_view [OF assms(1) tr]
  obtain d out' s3 t2 db2 where cm: "naive_commit E S (nr_self rt) (nr_tick rt) (out, s2, t1, db1) = (d, out', s3, t2, db2)"
    by (cases "naive_commit E S (nr_self rt) (nr_tick rt) (out, s2, t1, db1)")
  have keep: "str_of db2 = str_of db1" "d \<or> out' = out"
      "fired \<Longrightarrow> nr_tick rt < nr_tick rt + handoff_lead_ticks \<Longrightarrow> \<not> d"
    using cm fire publish_keeps E
    by (auto simp: naive_commit_def naive_publish_def Let_def split: option.splits if_splits)
  define el where "el = (if d then election_invalidate (election_force_not_owner
      (if fired then election_invalidate (nr_election rt) else nr_election rt))
    else if fired then election_invalidate (nr_election rt) else nr_election rt)"
  define publish where "publish \<longleftrightarrow> naive_snapshot_interval \<le> he_now E - nr_last_snapshot rt"
  have result: "sent = sent1 \<and> db' = (if publish then naive_publish E 1 (nr_self rt) t2 db2 else db2) \<and>
      rt' = rt \<lparr> nr_incoming := incoming, nr_outgoing := out', nr_election := el,
        nr_parts := Some \<lparr> np_tracker = t2, np_sim = s3 \<rparr>, nr_last_tick := he_now E,
        nr_last_snapshot := (if publish then he_now E else nr_last_snapshot rt) \<rparr>"
    using assms(4)
    by (simp add: naive_own_tick_def inc seed tick tr assms(2) t0_def [symmetric] cm Let_def el_def publish_def)
  have db: "str_of db' = str_of db1" using result keep(1) publish_keeps E by (simp add: naive_publish_def)
  show ?thesis
    using result db fire keep(2,3) assms(2,3) by (cases fired) (auto simp: el_def)
qed

text \<open>One tick of a shard: it acts only when it is elected, and it leaves the election alone otherwise.\<close>

lemma naive_tick_view:
  assumes sur: "surroundings us C ids E" and ok: "naive_node_ok self nd" and reg: "nid_text us self \<in> shard_names us ids"
    and bel: "believes nd \<longrightarrow> str_of db test_owner_key = Some (nid_text us self)"
    and tick: "naive_tick E S secs (nd, db) = Inr (closed, sent, nd', db')"
    and empty: "\<And>s. so_snapshot S (so_reset S s) = []"
  shows "naive_node_ok self nd' \<and> (believes nd' \<longrightarrow> str_of db' test_owner_key = Some (nid_text us self)) \<and>
    nr_tick (nn_runtime nd') = nr_tick (nn_runtime nd) + 1 \<and>
    (elected us ids (str_of db test_owner_key) \<noteq> Some (nid_text us self) \<longrightarrow>
      (\<forall>v\<in>shard_names us ids. str_of db test_owner_key = Some v \<longrightarrow> str_of db' test_owner_key = Some v) \<and>
      sent = [] \<and> nr_outgoing (nn_runtime nd') = None \<and>
      (\<exists>p. nr_parts (nn_runtime nd') = Some p \<and> so_snapshot S (np_sim p) = [])) \<and>
    (sent \<noteq> [] \<longrightarrow> (nr_tick (nn_runtime nd') < nr_tick (nn_runtime nd') + handoff_lead_ticks \<longrightarrow>
        (\<exists>h. nr_outgoing (nn_runtime nd') = Some h \<and> po_time h = nr_tick (nn_runtime nd') + handoff_lead_ticks)) \<and>
      (\<exists>target\<in>set ids. \<not> nid_eq us target self \<and> str_of db' test_owner_key = Some (nid_text us target)))"
proof -
  have E: "he_us E = us" "he_conn E = C" using sur by (simp_all add: surroundings_def)
  obtain p where p: "nr_parts (nn_runtime nd) = Some p" using ok by (auto simp: naive_node_ok_def)
  have init: "nr_initialized (nn_runtime nd)" using ok by (simp add: naive_node_ok_def)
  obtain closed1 cm db1 where cm: "cm_tick us C (he_now E) (nn_conn nd, db) = (closed1, cm, db1)" by (rule prod_cases3)
  have conn: "leases_apart cm" "str_of db1 test_owner_key = str_of db test_owner_key"
    using cm_tick_keeps [OF _ cm] ok by (simp_all add: naive_node_ok_def)
  obtain own el db2 where ev: "evaluate_ownership us C (he_registry E) (he_now E) (nr_election (nn_runtime nd), db1) = Inr (own, el, db2)"
    using tick init by (cases "evaluate_ownership us C (he_registry E) (he_now E) (nr_election (nn_runtime nd), db1)")
      (auto simp: naive_tick_def Let_def E cm)
  have e: "el_owner_key (nr_election (nn_runtime nd)) = test_owner_key" "el_self (nr_election (nn_runtime nd)) = self"
      "nr_self (nn_runtime nd) = self"
    using ok by (simp_all add: naive_node_ok_def)
  have view: "el_self el = self \<and> el_owner_key el = test_owner_key \<and> el_is_owner el = own \<and>
      (own \<longrightarrow> elected us ids (str_of db test_owner_key) = Some (nid_text us self) \<and> str_of db2 test_owner_key = Some (nid_text us self)) \<and>
      (\<forall>v\<in>shard_names us ids. str_of db test_owner_key = Some v \<longrightarrow> str_of db2 test_owner_key = Some v)"
    using evaluate_ok [OF sur e(1) _ _ ev] reg bel by (simp add: e conn(2) believes_def)
  define rt where "rt = (nn_runtime nd) \<lparr> nr_tick := nr_tick (nn_runtime nd) + 1, nr_election := el \<rparr>"
  have rt: "nr_parts rt = Some p" "nr_self rt = self" "nr_election rt = el" "nr_initialized rt"
      "nr_tick rt = nr_tick (nn_runtime nd) + 1"
    using p e init by (simp_all add: rt_def)
  show ?thesis
  proof (cases own)
    case True
    obtain rt' where own: "naive_own_tick E S secs (nn_packets nd) rt p db2 = Inr (sent, rt', db')"
        and nd': "nd' = nd \<lparr> nn_runtime := rt', nn_conn := cm \<rparr>"
      using tick init True p
      by (cases "naive_own_tick E S secs (nn_packets nd) rt p db2") (auto simp: naive_tick_def Let_def E cm ev rt_def)
    have "el_owner_key (nr_election rt) = test_owner_key" "str_of db2 test_owner_key = Some (nid_text us self)"
      using view True by (simp_all add: rt(3))
    note o = own_tick_view [OF sur this own]
    show ?thesis using o view True rt conn(1) by (auto simp: nd' naive_node_ok_def believes_def)
  next
    case False
    define idle where "idle = naive_idle_tick E S rt p db2"
    have "nd' = nd \<lparr> nn_runtime := fst idle, nn_conn := cm \<rparr> \<and> db' = snd idle \<and> sent = []"
      using tick init False p by (auto simp: naive_tick_def Let_def E cm ev rt_def idle_def split: prod.splits)
    then show ?thesis using view False rt conn(1) empty publish_keeps
      by (auto simp: idle_def naive_idle_tick_def Let_def naive_publish_def naive_node_ok_def believes_def E)
  qed
qed

lemma naive_packet_view:
  assumes "surroundings us C ids E" and "naive_node_ok self nd" and "naive_on_packet E pkt (nd, db) = (nd', db')"
  shows "naive_node_ok self nd' \<and> (nd' = nd \<or> \<not> believes nd') \<and> str_of db' test_owner_key = str_of db test_owner_key"
proof (cases "on_generic_entity_packet us (nn_packets nd) pkt")
  case None
  then show ?thesis using assms by (auto simp: naive_on_packet_def surroundings_def)
next
  case (Some x)
  obtain peer e sender tick where x: "x = (peer, e, sender, tick)" by (rule prod_cases4)
  obtain cm db1 where cm: "cm_mark_activity us C (he_now E) peer (nn_conn nd, db) = (cm, db1)" by (rule prod.exhaust)
  have "nd' = nd \<lparr> nn_conn := cm, nn_runtime := naive_on_incoming_at_tick e sender tick (nn_runtime nd) \<rparr>" "db' = db1"
    using assms(1,3) Some cm by (auto simp: naive_on_packet_def surroundings_def x)
  then show ?thesis using cm_mark_keeps [OF _ cm] assms(2)
    by (auto simp: naive_node_ok_def believes_def naive_on_incoming_at_tick_def)
qed

text \<open>The invariant of the shards.\<close>

definition shards_ok :: "('n \<Rightarrow> network_identity) \<Rightarrow> ('n \<Rightarrow> 's naive_node) \<times> 'db \<Rightarrow> bool" where
  "shards_ok self = (\<lambda>(nodes, db). \<forall>i. naive_node_ok (self i) (nodes i) \<and>
    (believes (nodes i) \<longrightarrow> str_of db test_owner_key = Some (nid_text us (self i))))"

lemma reach_ok:
  assumes "naive_reach S us C ids self x" and "\<And>s. so_snapshot S (so_reset S s) = []"
    and "inj (\<lambda>i. nid_text us (self i))" and "\<And>i. nid_text us (self i) \<in> shard_names us ids"
  shows "shards_ok self x"
  using assms(1)
proof induction
  case (start s0 now nd db)
  then show ?case
    by (simp add: shards_ok_def naive_node_ok_def believes_def naive_init_def leases_apart_init)
      (simp add: election_new_def test_owner_key_def)
next
  case (tick nodes db E secs i closed sent nd' db')
  have ok: "naive_node_ok (self j) (nodes j)" "believes (nodes j) \<longrightarrow> str_of db test_owner_key = Some (nid_text us (self j))" for j
    using tick.IH by (simp_all add: shards_ok_def)
  note view = naive_tick_view [OF tick.hyps(2) ok(1) assms(4) ok(2) tick.hyps(3) assms(2)]
  have "str_of db' test_owner_key = Some (nid_text us (self j))" if "j \<noteq> i" "believes (nodes j)" for j
  proof -
    have "str_of db test_owner_key = Some (nid_text us (self j))" using ok(2) that(2) by blast
    moreover have "nid_text us (self j) \<noteq> nid_text us (self i)" using assms(3) that(1) by (auto dest: injD)
    ultimately show ?thesis using view elected_registered [OF assms(4) [of j]] assms(4) [of j] by auto
  qed
  then show ?case using view ok by (auto simp: shards_ok_def)
next
  case (packet nodes db E pkt i nd' db')
  have ok: "naive_node_ok (self j) (nodes j)" "believes (nodes j) \<longrightarrow> str_of db test_owner_key = Some (nid_text us (self j))" for j
    using packet.IH by (simp_all add: shards_ok_def)
  show ?case using naive_packet_view [OF packet.hyps(2) ok(1) packet.hyps(3)] ok by (auto simp: shards_ok_def)
qed

end

lemma orbit_reset_empty: "so_snapshot (orbit_ops T) (so_reset (orbit_ops T) s) = []"
  by (simp add: orbit_ops_def orbit_reset_def orbit_snapshot_def)

text \<open>A tick returns with a simulator that does.\<close>

definition sim_total :: "'s sim_ops \<Rightarrow> bool" where
  "sim_total S \<longleftrightarrow> (\<forall>d s. \<exists>s'. so_seed S d s = Inr s') \<and> (\<forall>d s. \<exists>s'. so_tick S d s = Inr s')"

lemma orbit_total: "sim_total (orbit_ops T)"
  by (simp add: sim_total_def orbit_ops_def)

lemma naive_trigger_returns:
  "surroundings us C ids E \<Longrightarrow> \<exists>r. naive_trigger_loop E pm self k tick claims b es x = Inr r"
proof (induction es arbitrary: x)
  case (Cons e es)
  obtain t sent out fired db where x: "x = (t, sent, out, fired, db)" by (rule prod_cases5)
  have "\<exists>y. naive_trigger E pm self k tick claims b e x = Inr y"
    using Cons.prems by (auto simp: x naive_trigger_def surroundings_def Let_def split: option.split bool.split prod.split)
  then show ?case using Cons by force
qed (simp del: split_paired_Ex)

lemma naive_tick_returns:
  assumes "surroundings us C ids E" and total: "sim_total S"
  shows "\<exists>closed sent nd' db'. naive_tick E S secs (nd, db) = Inr (closed, sent, nd', db')"
proof -
  have own: "\<exists>sent rt' db'. naive_own_tick E S secs pm rt p db = Inr (sent, rt', db')" for pm rt p db
  proof -
    obtain incoming s0 where inc: "(case nr_incoming rt of None \<Rightarrow> (None, np_sim p)
         | Some h \<Rightarrow> if pi_time h \<le> nr_tick rt then (None, so_adopt S (pi_entity h) (np_sim p)) else (Some h, np_sim p)) =
        (incoming, s0)"
      by (rule prod.exhaust)
    obtain s1 where s1: "so_seed S naive_seed s0 = Inr s1" using total unfolding sim_total_def by blast
    obtain s2 where s2: "so_tick S (naive_orbit (secs (he_now E - nr_last_tick rt))) s1 = Inr s2"
      using total unfolding sim_total_def by blast
    define tr where "tr = set_owned_entities (so_snapshot S s2) (np_tracker p)"
    have "\<exists>r. naive_triggers E pm (nr_self rt) k t x = Inr r" for k t x
      using naive_trigger_returns [OF assms(1)] by (cases x) (auto simp: naive_triggers_def Let_def split: option.split)
    then obtain r where r: "naive_triggers E pm (nr_self rt) (el_owner_key (nr_election rt)) (nr_tick rt) (tr, nr_outgoing rt, db) = Inr r"
      by blast
    obtain t sent out fired db1 where x: "r = (t, sent, out, fired, db1)" by (rule prod_cases5)
    show ?thesis
      by (simp add: naive_own_tick_def inc s1 s2 tr_def [symmetric] r x Let_def split: prod.split)
  qed
  have ev: "\<exists>y. evaluate_ownership us C (he_registry E) now z = Inr y" for now z
    using assms(1) by (cases z) (auto simp: evaluate_ownership_def surroundings_def Let_def split: prod.split)
  have E: "he_us E = us" "he_conn E = C" using assms(1) by (simp_all add: surroundings_def)
  obtain closed cm db1 where cm: "cm_tick us C (he_now E) (nn_conn nd, db) = (closed, cm, db1)" by (rule prod_cases3)
  obtain own2 el db2 where y: "evaluate_ownership us C (he_registry E) (he_now E) (nr_election (nn_runtime nd), db1) = Inr (own2, el, db2)"
    using ev by (metis prod_cases3)
  show ?thesis
  proof (cases "nr_initialized (nn_runtime nd) \<and> nr_parts (nn_runtime nd) \<noteq> None \<and> own2")
    case True
    then obtain p where "nr_parts (nn_runtime nd) = Some p" by auto
    moreover obtain sent rt' db' where "naive_own_tick E S secs (nn_packets nd)
        ((nn_runtime nd) \<lparr> nr_tick := nr_tick (nn_runtime nd) + 1, nr_election := el \<rparr>) p db2 = Inr (sent, rt', db')"
      using own by blast
    ultimately show ?thesis using True by (simp add: naive_tick_def E cm y Let_def)
  next
    case False
    then show ?thesis by (auto simp: naive_tick_def E cm y Let_def split: option.split prod.split)
  qed
qed

section \<open>Properties\<close>

lemma naive_reach_node:
  assumes "naive_store R hash_key hash_of set_of str_key str_of us C"
    and "inj (\<lambda>i. nid_text us (self i))" and "\<And>i. nid_text us (self i) \<in> shard_names us ids"
    and "naive_reach S us C ids self (nodes, db)"
    and "\<And>s. so_snapshot S (so_reset S s) = []"
  shows "naive_node_ok (self i) (nodes i)"
    and "believes (nodes i) \<longrightarrow> str_of db test_owner_key = Some (nid_text us (self i))"
  using naive_store.reach_ok [OF assms(1,4) assms(5,2,3)]
  by (simp_all add: naive_store.shards_ok_def [OF assms(1)])

lemma naive_idle_view:
  assumes "naive_store R hash_key hash_of set_of str_key str_of us C"
    and "nid_text us self \<in> shard_names us ids" and "naive_node_ok self nd"
    and "believes nd \<longrightarrow> str_of db test_owner_key = Some (nid_text us self)" and "surroundings us C ids E"
    and "naive_tick E S secs (nd, db) = Inr (closed, sent, nd', db')"
    and "elected us ids (str_of db test_owner_key) \<noteq> Some (nid_text us self)"
    and "\<And>s. so_snapshot S (so_reset S s) = []"
  shows "sent = [] \<and> nr_outgoing (nn_runtime nd') = None \<and>
    (\<exists>p. nr_parts (nn_runtime nd') = Some p \<and> so_snapshot S (np_sim p) = [])"
  using naive_store.naive_tick_view [OF assms(1,5,3,2,4,6,8)] assms(7) by blast

text \<open>Two shards just started.\<close>

definition naive_pair :: "bool \<Rightarrow> network_identity" where
  "naive_pair i = make_id_shard (replicate 16 (if i then 1 else 2))"

definition naive_fresh :: "'s naive_node" where
  "naive_fresh = \<lparr> nn_runtime = naive_new, nn_conn = cm_new,
     nn_packets = \<lparr> hp_self = nid_new, hp_initialized = False, hp_subscribed = False, hp_callbacks = False \<rparr> \<rparr>"

definition naive_env :: "mem_db ho_env" where
  "naive_env = demo_ho_env \<lparr> he_registry := \<lambda>_. Inr two_shards \<rparr>"

lemma naive_env_surroundings: "surroundings demo_printer mem_connection two_shards naive_env"
  by (simp add: surroundings_def naive_env_def demo_ho_env_def)

lemma naive_pair_names:
  "shard_names demo_printer two_shards = range (\<lambda>i. nid_text demo_printer (naive_pair i))"
  "inj (\<lambda>i. nid_text demo_printer (naive_pair i))"
proof -
  have t: "nid_type (make_id_shard u) = nt_shard" for u by (simp add: make_id_shard_def)
  have "{i \<in> set two_shards. nid_type i = nt_shard} = range naive_pair"
    by (auto simp: two_shards_def t naive_pair_def image_iff)
  then show "shard_names demo_printer two_shards = range (\<lambda>i. nid_text demo_printer (naive_pair i))"
    unfolding shard_names_def by (simp add: image_image)
  have "nid_ok (naive_pair i)" for i by (simp add: naive_pair_def nid_ok_def make_id_shard_def)
  then have "\<not> nid_eq demo_printer (naive_pair True) (naive_pair False)"
    by (simp add: nid_eq_iff [OF demo_printer_ok]) (simp add: naive_pair_def make_id_shard_def numeral_eq_Suc)
  then have "nid_text demo_printer (naive_pair True) \<noteq> nid_text demo_printer (naive_pair False)"
    unfolding nid_text_def nid_eq_def by (metis bytes_str_inverse)
  then show "inj (\<lambda>i. nid_text demo_printer (naive_pair i))"
    by (intro injI) (metis (full_types))
qed

text \<open>The first of them owns the entity, which its bound does not contain.\<close>

definition naive_apart_env :: "mem_db ho_env" where
  "naive_apart_env = naive_env \<lparr> he_claims := \<lambda>_.
     [(naive_pair True, \<lparr> gs_id = 0, gs_aabb = \<lparr> bmin = [0x3F800000, 0, 0], bmax = [0x40000000, 0, 0] \<rparr> \<rparr>),
      (naive_pair False, \<lparr> gs_id = 1, gs_aabb = \<lparr> bmin = [0, 0, 0], bmax = [0x3F800000, 0, 0] \<rparr> \<rparr>)] \<rparr>"

definition naive_owned_db :: mem_db where
  "naive_owned_db = snd (db_set mem_connection test_owner_key (nid_text demo_printer (naive_pair True)) mem_empty)"

text \<open>A simulator that always has one entity.\<close>

definition naive_demo_sim :: "ho_entity list sim_ops" where
  "naive_demo_sim = \<lparr> so_reset = (\<lambda>_. []), so_seed = (\<lambda>_ _. Inr [entity_seven]), so_adopt = (\<lambda>e es. es @ [e]),
     so_remove = (\<lambda>i. filter (\<lambda>e. ho_id e \<noteq> i)), so_tick = (\<lambda>_. Inr), so_snapshot = id, so_count = length \<rparr>"

lemma apart_triggers:
  assumes "hp_initialized pm"
  shows "\<exists>t pkt out db'. naive_triggers naive_apart_env pm (naive_pair True) k n (set_owned_entities [entity_seven] [], None, db) =
    Inr (t, [pkt], out, True, db')"
proof -
  have n: "nid_eq demo_printer (naive_pair i) (naive_pair j) \<longleftrightarrow> i = j" for i j
    using naive_pair_names(2) by (auto simp: nid_eq_def nid_text_def inj_def)
  have c: "\<not> grid_shape_contains \<lparr> gs_id = 0, gs_aabb = \<lparr> bmin = [0x3F800000, 0, 0], bmax = [0x40000000, 0, 0] \<rparr> \<rparr>
        (tr_position (ho_transform entity_seven))"
      "grid_shape_contains \<lparr> gs_id = 1, gs_aabb = \<lparr> bmin = [0, 0, 0], bmax = [0x3F800000, 0, 0] \<rparr> \<rparr>
        (tr_position (ho_transform entity_seven))"
    by (simp_all add: grid_shape_contains_def aabb_contains_def entity_seven_def spawned_entity_def vec3_list_def f_eval)
  have two: "two_shards = [naive_pair True, naive_pair False]" by (simp add: two_shards_def naive_pair_def)
  show ?thesis using assms
    by (simp add: naive_triggers_def naive_trigger_def naive_apart_env_def naive_env_def demo_ho_env_def Let_def id_find_def n c two
        select_target_claim_key_def resolve_identity_def send_entity_handoff_def set_owned_entities_def track_entity_def
        get_owned_entity_snapshots_def mark_passing_def)
qed

text \<open>C37: as long as the registry is the same list for all shards and at all times and contains every one of
  them, under different names, then in whatever order the shards tick and however packets are delayed, only
  the shard that the database names as the owner acts: a tick of any other shard sends nothing and leaves it
  without entities and without a pending handoff. The database names one shard at a time: the one stored, or
  the one with the least name when none of the registered ones is stored. The registry has to stay the same
  because a shard trusts its last election for two seconds: when the owner leaves the registry it can act on
  while the database names another shard.\<close>

theorem naive_only_owner_acts:
  assumes "naive_store R hash_key hash_of set_of str_key str_of us C"
    and "inj (\<lambda>i. nid_text us (self i))" and "\<And>i. nid_text us (self i) \<in> shard_names us ids"
    and "naive_reach (orbit_ops T) us C ids self (nodes, db)" and "surroundings us C ids E"
    and "naive_tick E (orbit_ops T) secs (nodes i, db) = Inr (closed, sent, nd', db')"
    and "elected us ids (str_of db test_owner_key) \<noteq> Some (nid_text us (self i))"
  shows "sent = [] \<and> nr_outgoing (nn_runtime nd') = None \<and>
    (\<exists>p. nr_parts (nn_runtime nd') = Some p \<and> so_snapshot (orbit_ops T) (np_sim p) = [])"
  by (rule naive_idle_view [OF assms(1,3) naive_reach_node [OF assms(1-4) orbit_reset_empty] assms(5-7) orbit_reset_empty])

theorem naive_only_owner_acts_witness:
  "\<exists>i closed nd' db'. naive_tick naive_env (orbit_ops demo_math) (\<lambda>_. 0)
     (naive_init (orbit_ops demo_math) orbit_empty 0 (naive_pair i) naive_fresh, mem_empty) = Inr (closed, [], nd', db') \<and>
     nr_outgoing (nn_runtime nd') = None"
proof -
  have st: "naive_store mem_redis (\<lambda>_. False) mem_hash mem_set (\<lambda>_. True) md_str demo_printer mem_connection"
    by (rule memnaive.naive_store_axioms)
  have nm: "nid_text demo_printer (naive_pair i) \<in> shard_names demo_printer two_shards" for i
    by (simp add: naive_pair_names(1))
  obtain i where i: "elected demo_printer two_shards (md_str mem_empty test_owner_key) \<noteq> Some (nid_text demo_printer (naive_pair i))"
    using naive_pair_names(2) by (metis (no_types, lifting) injD option.inject)
  obtain closed sent nd' db' where t: "naive_tick naive_env (orbit_ops demo_math) (\<lambda>_. 0)
      (naive_init (orbit_ops demo_math) orbit_empty 0 (naive_pair i) naive_fresh, mem_empty) = Inr (closed, sent, nd', db')"
    using naive_tick_returns [OF naive_env_surroundings orbit_total] by blast
  have "sent = [] \<and> nr_outgoing (nn_runtime nd') = None \<and>
      (\<exists>p. nr_parts (nn_runtime nd') = Some p \<and> so_snapshot (orbit_ops demo_math) (np_sim p) = [])"
    by (rule naive_only_owner_acts [OF st naive_pair_names(2) nm naive_reach.start naive_env_surroundings t i])
  then show ?thesis using t by blast
qed

lemma naive_send_then_idle:
  assumes "naive_store R hash_key hash_of set_of str_key str_of us C"
    and "inj (\<lambda>i. nid_text us (self i))" and "\<And>i. nid_text us (self i) \<in> shard_names us ids"
    and "naive_reach S us C ids self (nodes, db)" and "\<And>s. so_snapshot S (so_reset S s) = []"
    and "surroundings us C ids E" and "nid_type ` set ids \<subseteq> {nt_shard}"
    and "naive_tick E S secs (nodes i, db) = Inr (closed, sent, nd1, db1)" and "sent \<noteq> []"
    and "surroundings us C ids E2" and "naive_tick E2 S secs2 (nd1, db1) = Inr (closed2, sent2, nd2, db2)"
  shows "sent2 = [] \<and> nr_outgoing (nn_runtime nd2) = None \<and>
    (\<exists>p. nr_parts (nn_runtime nd2) = Some p \<and> so_snapshot S (np_sim p) = [])"
    and "nr_tick (nn_runtime nd1) < nr_tick (nn_runtime nd1) + handoff_lead_ticks \<Longrightarrow>
      \<exists>h. nr_outgoing (nn_runtime nd1) = Some h \<and> po_time h = nr_tick (nn_runtime nd2) + 5"
proof -
  note node = naive_reach_node [OF assms(1-5), of i]
  note view = naive_store.naive_tick_view [OF assms(1,6) node(1) assms(3) node(2) assms(8) assms(5)]
  obtain target where t: "target \<in> set ids" "\<not> nid_eq us target (self i)" "str_of db1 test_owner_key = Some (nid_text us target)"
    using view assms(9) by blast
  have "nid_text us target \<in> shard_names us ids" using t(1) assms(7) by (auto simp: shard_names_def)
  moreover have "nid_text us target \<noteq> nid_text us (self i)"
    using t(2) unfolding nid_eq_def nid_text_def by (metis bytes_str_inverse)
  ultimately have other: "elected us ids (str_of db1 test_owner_key) \<noteq> Some (nid_text us (self i))"
    by (simp add: t(3) elected_def)
  have bel: "believes nd1 \<longrightarrow> str_of db1 test_owner_key = Some (nid_text us (self i))" using view by blast
  have ok: "naive_node_ok (self i) nd1" using view by blast
  show "sent2 = [] \<and> nr_outgoing (nn_runtime nd2) = None \<and>
    (\<exists>p. nr_parts (nn_runtime nd2) = Some p \<and> so_snapshot S (np_sim p) = [])"
    by (rule naive_idle_view [OF assms(1,3) ok bel assms(10,11) other assms(5)])
  have "nr_tick (nn_runtime nd2) = nr_tick (nn_runtime nd1) + 1"
    using naive_store.naive_tick_view [OF assms(1,10) ok assms(3) bel assms(11) assms(5)] by blast
  then show "\<exists>h. nr_outgoing (nn_runtime nd1) = Some h \<and> po_time h = nr_tick (nn_runtime nd2) + 5"
    if "nr_tick (nn_runtime nd1) < nr_tick (nn_runtime nd1) + handoff_lead_ticks"
    using view assms(9) that by (auto simp: handoff_lead_ticks_def)
qed

text \<open>A shard that sends a handoff drops its entities on its next tick, five ticks before the handoff is
  due, because sending it names the target as the owner in the database: the commit at the transfer tick is
  never reached, and the entity exists nowhere but in the packet.\<close>

theorem naive_sender_drops_at_once:
  assumes "naive_store R hash_key hash_of set_of str_key str_of us C"
    and "inj (\<lambda>i. nid_text us (self i))" and "\<And>i. nid_text us (self i) \<in> shard_names us ids"
    and "naive_reach S us C ids self (nodes, db)" and "\<And>s. so_snapshot S (so_reset S s) = []"
    and "surroundings us C ids E" and "nid_type ` set ids \<subseteq> {nt_shard}"
    and "naive_tick E S secs (nodes i, db) = Inr (closed, sent, nd1, db1)" and "sent \<noteq> []"
    and "nr_tick (nn_runtime nd1) < nr_tick (nn_runtime nd1) + handoff_lead_ticks"
    and "surroundings us C ids E2" and "naive_tick E2 S secs2 (nd1, db1) = Inr (closed2, sent2, nd2, db2)"
  shows "(\<exists>h. nr_outgoing (nn_runtime nd1) = Some h \<and> po_time h = nr_tick (nn_runtime nd2) + 5) \<and>
    sent2 = [] \<and> nr_outgoing (nn_runtime nd2) = None \<and>
    (\<exists>p. nr_parts (nn_runtime nd2) = Some p \<and> so_snapshot S (np_sim p) = [])"
  using naive_send_then_idle [OF assms(1-9,11,12)] assms(10) by blast

lemma apart_sends:
  "\<exists>closed pkt nd' db'. naive_tick naive_apart_env naive_demo_sim (\<lambda>_. 0)
     (naive_init naive_demo_sim [] 0 (naive_pair True) naive_fresh, naive_owned_db) = Inr (closed, [pkt], nd', db') \<and>
     nr_tick (nn_runtime nd') = 1"
proof -
  let ?E = naive_apart_env and ?nd = "naive_init naive_demo_sim [] 0 (naive_pair True) naive_fresh"
  have E: "he_us ?E = demo_printer" "he_conn ?E = mem_connection" "he_now ?E = 0" and
    sur: "surroundings demo_printer mem_connection two_shards ?E"
    by (simp_all add: naive_apart_env_def naive_env_def demo_ho_env_def surroundings_def)
  obtain closed cm db1 where cm: "cm_tick demo_printer mem_connection 0 (nn_conn ?nd, naive_owned_db) = (closed, cm, db1)"
    by (rule prod_cases3)
  have "leases_apart (nn_conn ?nd)" by (simp add: naive_init_def leases_apart_init)
  then have db1: "md_str db1 test_owner_key = Some (nid_text demo_printer (naive_pair True))"
    using memnaive.cm_tick_keeps [OF _ cm] memnaive.owner_key_written by (simp add: naive_owned_db_def)
  let ?e = "nr_election (nn_runtime ?nd)"
  have e: "el_owner_key ?e = test_owner_key" "el_self ?e = naive_pair True" "\<not> el_evaluated ?e"
    by (simp_all add: naive_init_def) (simp_all add: election_new_def test_owner_key_def)
  obtain own el db2 where ev: "evaluate_ownership demo_printer mem_connection (he_registry ?E) 0 (?e, db1) = Inr (own, el, db2)"
    using sur by (cases "evaluate_ownership demo_printer mem_connection (he_registry ?E) 0 (?e, db1)")
      (auto simp: evaluate_ownership_def surroundings_def Let_def split: prod.splits if_splits)
  have nm: "nid_text demo_printer (naive_pair True) \<in> shard_names demo_printer two_shards"
    by (simp add: naive_pair_names(1))
  have own: own "el_owner_key el = test_owner_key"
    using memnaive.evaluate_ok [OF sur e(1) _ _ ev] nm e db1 memnaive.elected_registered [OF nm] by simp_all
  define rt where "rt = (nn_runtime ?nd) \<lparr> nr_tick := 1, nr_election := el \<rparr>"
  have rt: "nr_incoming rt = None" "nr_outgoing rt = None" "nr_self rt = naive_pair True" "nr_election rt = el" "nr_tick rt = 1"
      "nr_parts rt = Some \<lparr> np_tracker = [], np_sim = [] \<rparr>"
    by (simp_all add: rt_def naive_init_def tracker_reset_def naive_demo_sim_def)
  have pm: "hp_initialized (nn_packets ?nd)"
    by (simp add: naive_init_def hp_set_callbacks_def hp_init_def Let_def naive_fresh_def)
  from apart_triggers [OF this, of test_owner_key 1 db2] obtain t pkt out db3 where tr:
    "naive_triggers ?E (nn_packets ?nd) (naive_pair True) test_owner_key 1 (set_owned_entities [entity_seven] [], None, db2) =
      Inr (t, [pkt], out, True, db3)" by blast
  obtain d out' s3 t2 db4 where co: "naive_commit ?E naive_demo_sim (naive_pair True) 1 (out, [entity_seven], t, db3) = (d, out', s3, t2, db4)"
    by (rule prod_cases5)
  have sim: "so_seed naive_demo_sim a s = Inr [entity_seven]" "so_tick naive_demo_sim b s = Inr s" "so_snapshot naive_demo_sim s = s" for a b s
    by (simp_all add: naive_demo_sim_def)
  have "\<exists>rt' db'. naive_own_tick ?E naive_demo_sim (\<lambda>_. 0) (nn_packets ?nd) rt \<lparr> np_tracker = [], np_sim = [] \<rparr> db2 =
      Inr ([pkt], rt', db') \<and> nr_tick rt' = 1"
    using tr co by (simp add: naive_own_tick_def rt own(2) sim Let_def)
  then obtain rt' db' where tick: "naive_own_tick ?E naive_demo_sim (\<lambda>_. 0) (nn_packets ?nd) rt \<lparr> np_tracker = [], np_sim = [] \<rparr> db2 =
      Inr ([pkt], rt', db')" "nr_tick rt' = 1" by blast
  have same: "(nn_runtime ?nd) \<lparr> nr_tick := nr_tick (nn_runtime ?nd) + 1, nr_election := el \<rparr> = rt" "nr_initialized (nn_runtime ?nd)"
      "nr_parts (nn_runtime ?nd) = Some \<lparr> np_tracker = [], np_sim = [] \<rparr>"
    using rt by (simp_all add: rt_def) (simp_all add: naive_init_def)
  show ?thesis
    using own(1) tick by (simp add: naive_tick_def E cm ev same Let_def)
qed

theorem naive_sender_drops_at_once_witness:
  "\<exists>closed pkt nd1 db1 closed2 nd2 db2. naive_tick naive_apart_env naive_demo_sim (\<lambda>_. 0)
     (naive_init naive_demo_sim [] 0 (naive_pair True) naive_fresh, naive_owned_db) = Inr (closed, [pkt], nd1, db1) \<and>
     naive_tick naive_apart_env naive_demo_sim (\<lambda>_. 0) (nd1, db1) = Inr (closed2, [], nd2, db2) \<and>
     nr_outgoing (nn_runtime nd2) = None"
proof -
  have st: "naive_store mem_redis (\<lambda>_. False) mem_hash mem_set (\<lambda>_. True) md_str demo_printer mem_connection"
    by (rule memnaive.naive_store_axioms)
  have nm: "nid_text demo_printer (naive_pair i) \<in> shard_names demo_printer two_shards" for i
    by (simp add: naive_pair_names(1))
  have sur: "surroundings demo_printer mem_connection two_shards naive_apart_env"
    by (simp add: naive_apart_env_def naive_env_def demo_ho_env_def surroundings_def)
  have S: "so_snapshot naive_demo_sim (so_reset naive_demo_sim s) = []" "sim_total naive_demo_sim" for s
    by (simp_all add: naive_demo_sim_def sim_total_def)
  have sh: "nid_type ` set two_shards \<subseteq> {nt_shard}" by (simp add: two_shards_def make_id_shard_def)
  obtain closed pkt nd1 db1 where 1: "naive_tick naive_apart_env naive_demo_sim (\<lambda>_. 0)
     (naive_init naive_demo_sim [] 0 (naive_pair True) naive_fresh, naive_owned_db) = Inr (closed, [pkt], nd1, db1)"
     "nr_tick (nn_runtime nd1) = 1"
    using apart_sends by blast
  obtain closed2 sent2 nd2 db2 where 2: "naive_tick naive_apart_env naive_demo_sim (\<lambda>_. 0) (nd1, db1) = Inr (closed2, sent2, nd2, db2)"
    using naive_tick_returns [OF sur S(2)] by blast
  have "nr_tick (nn_runtime nd1) < nr_tick (nn_runtime nd1) + handoff_lead_ticks" by (simp add: 1(2) handoff_lead_ticks_def)
  from naive_sender_drops_at_once [OF st naive_pair_names(2) nm naive_reach.start S(1) sur sh 1(1) _ this sur 2] 1 2
  show ?thesis by auto
qed

end
