(* ===== verification/Http_Receiver.thy ===== *)
theory Http_Receiver
  imports Text_Search
begin

text \<open>
  The HTTP listener of the Unity bridge (\<open>API/Server/Unity/EntityJsonReciever.hpp\<close>): reading a request
  from a socket piece by piece, its first line, its length and its body, the answer, and the loop over
  the connections. A connection is what arrives on it: the pieces, in order, until the other end
  closes. What is printed of the body is left out. Whether memory for a body of a given size can be
  reserved is a parameter; otherwise an exception leaves the thread.
\<close>

section \<open>Sockets\<close>

text \<open>\<open>recv\<close>: at most so many bytes of what arrived next; nothing means that the connection is
  closed.\<close>

fun recv :: "nat \<Rightarrow> bytes list \<Rightarrow> bytes \<times> bytes list" where
  "recv n [] = ([], [])"
| "recv n (s # ss) = (take n s, if length s \<le> n then ss else drop n s # ss)"

definition arrived :: "bytes list \<Rightarrow> nat" where
  "arrived ss = length (concat ss)"

lemma recv_concat: "recv n ss = (d, ss') \<Longrightarrow> concat ss = d @ concat ss'"
  by (cases ss) (auto split: if_splits)

lemma recv_less [termination_simp]: "recv n ss = (d, ss') \<Longrightarrow> d \<noteq> [] \<Longrightarrow> arrived ss' < arrived ss"
  using recv_concat [of n ss d ss'] by (simp add: arrived_def)

definition crlf :: bytes where
  "crlf = [13, 10]"

definition header_cap :: nat where
  "header_cap = 2 ^ 20"

section \<open>The request\<close>

text \<open>Reading until the empty line: what was read, where the empty line begins if it was found, and
  what is still to come.\<close>

function read_headers :: "bytes list \<Rightarrow> bytes \<Rightarrow> (bytes \<times> nat option) \<times> bytes list" where
  "read_headers ss req =
    (case recv 2048 ss of (d, ss') \<Rightarrow>
      if d = [] then ((req, None), ss')
      else case find_text (crlf @ crlf) (req @ d) of
        Some h \<Rightarrow> ((req @ d, Some h), ss')
      | None \<Rightarrow> if length (req @ d) > header_cap then ((req @ d, None), ss') else read_headers ss' (req @ d))"
  by pat_completeness auto
termination
  by (relation "measure (\<lambda>(ss, req). arrived ss)") (auto intro: recv_less [OF sym])

declare read_headers.simps [simp del]

definition first_space :: "bytes \<Rightarrow> nat \<Rightarrow> nat option" where
  "first_space l k = find_text_from [32] l k"

definition parse_first_line :: "bytes \<Rightarrow> bytes \<times> bytes" where
  "parse_first_line l =
    (case first_space l 0 of
       None \<Rightarrow> ([], [])
     | Some a \<Rightarrow> (take a l, case first_space l (a + 1) of
         None \<Rightarrow> [] | Some b \<Rightarrow> take (b - (a + 1)) (drop (a + 1) l)))"

definition lower :: "u8 \<Rightarrow> u8" where
  "lower c = (if 65 \<le> c \<and> c \<le> 90 then c + 32 else c)"

definition length_key :: bytes where
  "length_key = str_bytes ''Content-Length:''"

definition has_length_key :: "bytes \<Rightarrow> bool" where
  "has_length_key l \<longleftrightarrow> length length_key \<le> length l \<and>
     map lower (take (length length_key) l) = map lower length_key"

text \<open>\<open>strtoul\<close>: the largest value when the number does not fit, 0 when there is none.\<close>

definition strtoul :: "bytes \<Rightarrow> nat" where
  "strtoul s = (case stoull s of Inr v \<Rightarrow> unat v | Inl OutOfRange \<Rightarrow> 2 ^ 64 - 1 | Inl _ \<Rightarrow> 0)"

text \<open>The loop over the header lines; the last length wins.\<close>

function length_loop :: "bytes \<Rightarrow> nat \<Rightarrow> nat \<Rightarrow> nat \<Rightarrow> nat \<Rightarrow> nat" where
  "length_loop req first_end header_end pos n =
    (let start = (if pos = 0 then first_end + 2 else pos)
     in case find_text_from crlf req start of
          None \<Rightarrow> n
        | Some stop \<Rightarrow>
            if start \<ge> header_end then n
            else let line = take (stop - start) (drop start req)
                 in length_loop req first_end header_end (stop + 2)
                      (if has_length_key line then strtoul (drop (length length_key) line) else n))"
  by pat_completeness auto
termination
  by (relation "measure (\<lambda>(req, a, h, pos, n). h + 1 - pos)")
    (auto simp: find_text_from_def split: if_splits)

declare length_loop.simps [simp del]

text \<open>Reading the rest of the body; a closed connection ends it early.\<close>

function read_rest :: "nat \<Rightarrow> bytes list \<Rightarrow> bytes" where
  "read_rest need ss =
    (if need = 0 then []
     else case recv (min 2048 need) ss of (d, ss') \<Rightarrow>
       if d = [] then [] else d @ read_rest (need - length d) ss')"
  by pat_completeness auto
termination
  by (relation "measure (\<lambda>(n, ss). arrived ss)") (auto intro: recv_less [OF sym])

declare read_rest.simps [simp del]

record http_body =
  hb_method :: bytes
  hb_target :: bytes
  hb_body :: bytes

text \<open>One connection: no request when the header does not end; reserving the body may throw.\<close>

definition read_request :: "(nat \<Rightarrow> bool) \<Rightarrow> bytes list \<Rightarrow> http_body option res" where
  "read_request reserve ss =
    (case read_headers ss [] of
       ((req, None), _) \<Rightarrow> Inr None
     | ((req, Some h), ss') \<Rightarrow>
         let first_end = the (find_text crlf req);
             (method, target) = parse_first_line (take first_end req);
             n = length_loop req first_end h 0 0;
             already = length req - (h + 4)
         in if n = 0 then Inr (Some \<lparr> hb_method = method, hb_target = target, hb_body = [] \<rparr>)
            else if \<not> reserve n then Inl (RuntimeError ''length_error'')
            else Inr (Some \<lparr> hb_method = method, hb_target = target,
              hb_body = (if already > 0 then take (min already n) (drop (h + 4) req) else []) @
                read_rest (if n > already then n - already else 0) ss' \<rparr>))"

definition is_entity_request :: "http_body \<Rightarrow> bool" where
  "is_entity_request r \<longleftrightarrow> hb_method r = str_bytes ''POST'' \<and> hb_target r = str_bytes ''/entity''"

definition http_response :: "string \<Rightarrow> string \<Rightarrow> string \<Rightarrow> bytes" where
  "http_response status type text =
    str_bytes (''HTTP/1.1 '' @ status) @ crlf @ str_bytes (''Content-Type: '' @ type) @ crlf @
    str_bytes ''Content-Length: '' @ dec_of (length text) @ crlf @ str_bytes ''Connection: close'' @ crlf @ crlf @
    str_bytes text"

definition answer :: "http_body \<Rightarrow> bytes" where
  "answer r =
    (if is_entity_request r then http_response ''200 OK'' ''application/json'' ''{\"ok\":true}''
     else http_response ''404 Not Found'' ''text/plain'' ''Not found'')"

text \<open>The thread over the connections it accepts: the bodies handed to the printer and the answers
  sent, in order. An exception ends the process.\<close>

fun receiver_loop :: "(nat \<Rightarrow> bool) \<Rightarrow> bytes list list \<Rightarrow> (bytes option \<times> bytes) list res" where
  "receiver_loop reserve [] = Inr []"
| "receiver_loop reserve (c # cs) =
    bindE (read_request reserve c) (\<lambda>r.
    bindE (receiver_loop reserve cs) (\<lambda>rs.
      Inr (case r of
        None \<Rightarrow> rs
      | Some b \<Rightarrow> (if is_entity_request b then Some (hb_body b) else None, answer b) # rs)))"

section \<open>Start and stop\<close>

record receiver =
  rv_running :: bool
  rv_fd :: int
  rv_thread :: bool

definition receiver_new :: receiver where
  "receiver_new = \<lparr> rv_running = False, rv_fd = -1, rv_thread = False \<rparr>"

text \<open>The results of \<open>socket\<close>, \<open>bind\<close> and \<open>listen\<close> are arguments. A thread that is still joinable must
  not be replaced.\<close>

definition receiver_start :: "int \<Rightarrow> bool \<Rightarrow> bool \<Rightarrow> receiver \<Rightarrow> (bool \<times> receiver) res" where
  "receiver_start fd bound listening r =
    (if rv_running r then Inr (True, r)
     else if fd < 0 then Inr (False, r \<lparr> rv_running := False, rv_fd := fd \<rparr>)
     else if \<not> bound \<or> \<not> listening then Inr (False, r \<lparr> rv_running := False, rv_fd := -1 \<rparr>)
     else if rv_thread r then Inl (RuntimeError ''terminate'')
     else Inr (True, r \<lparr> rv_running := True, rv_fd := fd, rv_thread := True \<rparr>))"

definition receiver_stop :: "receiver \<Rightarrow> receiver" where
  "receiver_stop r =
    (if \<not> rv_running r then r
     else r \<lparr> rv_running := False, rv_fd := (if rv_fd r \<ge> 0 then -1 else rv_fd r), rv_thread := False \<rparr>)"

section \<open>Pieces do not matter\<close>

definition pieces :: "bytes list \<Rightarrow> bool" where
  "pieces ss \<longleftrightarrow> [] \<notin> set ss"

lemma recv_piece:
  assumes "pieces ss" and "0 < n" and "recv n ss = (d, ss')"
  shows "pieces ss' \<and> (d = [] \<longleftrightarrow> ss = []) \<and> concat ss = d @ concat ss' \<and> length d \<le> n"
  using assms by (cases ss) (auto simp: pieces_def split: if_splits)

lemma read_rest_take: "pieces ss \<Longrightarrow> read_rest n ss = take n (concat ss)"
proof (induction n ss rule: read_rest.induct)
  case (1 n ss)
  show ?case
  proof (cases "n = 0")
    case False
    obtain d ss' where r: "recv (min 2048 n) ss = (d, ss')" by force
    note piece = recv_piece [OF 1(2) _ r]
    have unfold: "read_rest n ss = (if d = [] then [] else d @ read_rest (n - length d) ss')"
      using False r by (subst read_rest.simps) simp
    show ?thesis
    proof (cases "d = []")
      case True
      then show ?thesis using piece False unfold by simp
    next
      case d: False
      then have "read_rest (n - length d) ss' = take (n - length d) (concat ss')"
        using 1(1) [OF False r [symmetric] d] piece False by simp
      moreover have "take n (concat ss) = d @ take (n - length d) (concat ss')"
        using piece False by simp
      ultimately show ?thesis using d unfold by simp
    qed
  qed (subst read_rest.simps, simp)
qed

text \<open>When the header ends early enough, its end is found where it is in the whole text, and nothing is
  lost.\<close>

lemma read_headers_found:
  assumes "pieces ss" and "find_text (crlf @ crlf) (req @ concat ss) = Some h" and "h + 4 \<le> header_cap"
    and "length req < h + 4"
  shows "\<exists>req' ss'. read_headers ss req = ((req', Some h), ss') \<and> req' @ concat ss' = req @ concat ss \<and>
    pieces ss' \<and> h + 4 \<le> length req'"
  using assms
proof (induction ss req rule: read_headers.induct)
  case (1 ss req)
  obtain d ss' where r: "recv 2048 ss = (d, ss')" by force
  note piece = recv_piece [OF 1(2) _ r, simplified]
  have four: "crlf @ crlf \<noteq> []" "length (crlf @ crlf) = 4" by (simp_all add: crlf_def)
  have "h + 4 \<le> length (req @ concat ss)" using find_text_fits [OF four(1) 1(3)] four(2) by simp
  then have d: "d \<noteq> []" using piece 1(5) by (cases ss) auto
  have look: "find_text (crlf @ crlf) (req @ d) = (if h + 4 \<le> length (req @ d) then Some h else None)"
    using find_text_prefix [OF four(1), of "req @ d" "concat ss'"] piece 1(3) four(2) by simp
  show ?case
  proof (cases "h + 4 \<le> length (req @ d)")
    case True
    then show ?thesis using look d piece by (subst read_headers.simps) (simp add: r)
  next
    case False
    then have n: "find_text (crlf @ crlf) (req @ d) = None" "\<not> header_cap < length (req @ d)"
      using look 1(4) by auto
    have "\<exists>req' ss''. read_headers ss' (req @ d) = ((req', Some h), ss'') \<and>
        req' @ concat ss'' = (req @ d) @ concat ss' \<and> pieces ss'' \<and> h + 4 \<le> length req'"
      using 1(1) [OF r [symmetric] d n] piece 1(3,4) False by simp
    moreover have "read_headers ss req = read_headers ss' (req @ d)"
      using n d by (subst read_headers.simps) (simp add: r)
    ultimately show ?thesis using piece by simp
  qed
qed

lemma read_headers_none:
  assumes "pieces ss" and "find_text (crlf @ crlf) (req @ concat ss) = None"
  shows "\<exists>req' ss'. read_headers ss req = ((req', None), ss')"
  using assms
proof (induction ss req rule: read_headers.induct)
  case (1 ss req)
  obtain d ss' where r: "recv 2048 ss = (d, ss')" by force
  note piece = recv_piece [OF 1(2) _ r, simplified]
  have four: "crlf @ crlf \<noteq> []" by (simp add: crlf_def)
  have n: "find_text (crlf @ crlf) (req @ d) = None"
    using find_text_prefix [OF four, of "req @ d" "concat ss'"] piece 1(3) by simp
  show ?case
  proof (cases "d = [] \<or> header_cap < length (req @ d)")
    case True
    then show ?thesis using n by (subst read_headers.simps) (auto simp: r)
  next
    case False
    then have "\<exists>req' ss''. read_headers ss' (req @ d) = ((req', None), ss'')"
      using 1(1) [OF r [symmetric] _ n] piece 1(3) False by simp
    then show ?thesis using False n by (subst read_headers.simps) (auto simp: r)
  qed
qed

section \<open>The header lines\<close>

text \<open>The reference: the lines of a text, and the last length they give.\<close>

function header_lines :: "bytes \<Rightarrow> bytes list" where
  "header_lines t = (case find_text crlf t of None \<Rightarrow> [] | Some k \<Rightarrow> take k t # header_lines (drop (k + 2) t))"
  by pat_completeness auto
termination
proof (relation "measure length")
  fix t :: bytes and k
  assume "find_text crlf t = Some k"
  then show "(drop (k + 2) t, t) \<in> measure length"
    using find_text_fits [of crlf t k] by (simp add: crlf_def)
qed simp

declare header_lines.simps [simp del]

definition line_length :: "nat \<Rightarrow> bytes \<Rightarrow> nat" where
  "line_length n line = (if has_length_key line then strtoul (drop (length length_key) line) else n)"

definition header_length :: "bytes list \<Rightarrow> nat" where
  "header_length ls = foldl line_length 0 ls"

lemma header_lines_Nil: "header_lines [] = []"
  by (subst header_lines.simps) (simp add: find_text_Nil crlf_def)

lemma header_lines_Some:
  "find_text crlf t = Some k \<Longrightarrow> header_lines t = take k t # header_lines (drop (k + 2) t)"
  by (subst header_lines.simps) simp

lemma drop_split:
  assumes "k \<le> m" and "m \<le> length t"
  shows "drop k t = drop k (take m t) @ drop m t"
proof -
  have "drop k (take m t @ drop m t) = drop k (take m t) @ drop m t"
    using assms by (simp only: drop_append) simp
  then show ?thesis by simp
qed

text \<open>The end of a line before the empty line is far enough from it.\<close>

lemma crlf_apart:
  assumes "find_text (crlf @ crlf) req = Some h" and "prefix crlf (drop j req)" and "j \<le> h"
  shows "j + 2 < h \<or> j = h"
proof -
  have h: "prefix (crlf @ crlf) (drop h req)" "\<And>i. i < h \<Longrightarrow> \<not> prefix (crlf @ crlf) (drop i req)"
    using assms(1) find_text_Some [of "crlf @ crlf" req h] by (simp_all add: crlf_def)
  have long: "h + 4 \<le> length req" using prefix_length_le [OF h(1)] by (simp add: crlf_def)
  have at: "prefix crlf (drop i req) \<longleftrightarrow> req ! i = 13 \<and> req ! Suc i = 10" if "Suc i < length req" for i
  proof -
    have "drop i req = req ! i # req ! Suc i # drop (Suc (Suc i)) req"
      using that by (simp add: Cons_nth_drop_Suc)
    then show ?thesis by (simp add: crlf_def)
  qed
  have hh: "prefix crlf (drop h req)" using h(1) by (rule append_prefixD)
  have "j + 1 \<noteq> h" using at [of j] at [of h] assms(2) hh long by auto
  moreover have "j + 2 \<noteq> h"
  proof
    assume j: "j + 2 = h"
    obtain r where r: "drop j req = crlf @ r" using assms(2) by (auto simp: prefix_def)
    have "drop h req = drop 2 (drop j req)" using j by (simp add: add.commute)
    also have "\<dots> = r" by (simp only: r) (simp add: crlf_def)
    finally have "drop j req = crlf @ drop h req" using r by simp
    then have "prefix (crlf @ crlf) (drop j req)" using hh by simp
    then show False using h(2) j by auto
  qed
  ultimately show ?thesis using assms(3) by linarith
qed

lemma length_loop_lines:
  assumes "find_text (crlf @ crlf) req = Some h"
    and "start = (if pos = 0 then e + 2 else pos)" and "start < h \<or> start = h + 2"
  shows "length_loop req e h pos n = foldl line_length n (header_lines (drop start (take (h + 2) req)))"
  using assms(2,3)
proof (induction "h + 2 - start" arbitrary: pos n start rule: less_induct)
  case less
  have two: "crlf \<noteq> []" "length crlf = 2" by (simp_all add: crlf_def)
  have h: "prefix (crlf @ crlf) (drop h req)"
    using assms(1) find_text_Some [of "crlf @ crlf" req h] by (simp add: crlf_def)
  have long: "h + 4 \<le> length req" using prefix_length_le [OF h] by (simp add: crlf_def)
  show ?case
  proof (cases "start < h")
    case False
    then have "length_loop req e h pos n = n"
      using less(2) by (subst length_loop.simps) (auto simp: Let_def split: option.split)
    moreover have "drop start (take (h + 2) req) = []" using False less(3) by auto
    ultimately show ?thesis by (simp add: header_lines_Nil)
  next
    case True
    define a where "a = take (h + 2) req"
    have split: "drop start req = drop start a @ drop (h + 2) req"
      using True long drop_split [of start "h + 2" req] by (simp add: a_def)
    have "prefix crlf (drop h req)" using h by (rule append_prefixD)
    then have "prefix crlf (drop (h - start) (drop start a))"
      using True long by (simp add: prefix_take a_def drop_take two(2))
    then obtain k where k: "k \<le> h - start" "find_text crlf (drop start a) = Some k"
      using find_text_there [OF two(1)] by blast
    have from_start: "find_text_from crlf req start = Some (start + k)"
      using find_text_append [OF two(1) k(2), of "drop (h + 2) req"] split True long
      by (simp add: find_text_from_def)
    have line: "take k (drop start req) = take k (drop start a)"
      using find_text_fits [OF two(1) k(2)] split by simp
    have "prefix crlf (drop (start + k) req)"
      using find_text_append [OF two(1) k(2), of "drop (h + 2) req"] split find_text_Some [OF two(1)]
      by (metis add.commute drop_drop)
    then have next_line: "start + k + 2 < h \<or> start + k + 2 = h + 2"
      using crlf_apart [OF assms(1)] k(1) True by force
    have "length_loop req e h pos n = length_loop req e h (start + k + 2) (line_length n (take k (drop start a)))"
      using from_start True less(2) line by (subst length_loop.simps) (simp add: line_length_def Let_def)
    also have "\<dots> = foldl line_length (line_length n (take k (drop start a)))
        (header_lines (drop (start + k + 2) a))"
      unfolding a_def using next_line True by (intro less(1)) auto
    also have "\<dots> = foldl line_length n (header_lines (drop start a))"
      by (simp add: header_lines_Some [OF k(2)] add.commute add.left_commute)
    finally show ?thesis by (simp add: a_def)
  qed
qed

text \<open>The reference for a request: the whole text at once.\<close>

definition request_of_text :: "(nat \<Rightarrow> bool) \<Rightarrow> bytes \<Rightarrow> http_body option res" where
  "request_of_text reserve t =
    (case find_text (crlf @ crlf) t of
       None \<Rightarrow> Inr None
     | Some h \<Rightarrow>
         let ls = header_lines (take (h + 2) t);
             (method, target) = parse_first_line (hd ls);
             n = header_length (tl ls)
         in if n \<noteq> 0 \<and> \<not> reserve n then Inl (RuntimeError ''length_error'')
            else Inr (Some \<lparr> hb_method = method, hb_target = target, hb_body = take n (drop (h + 4) t) \<rparr>))"

lemma first_line:
  assumes "find_text (crlf @ crlf) t = Some h"
  obtains e where "find_text crlf t = Some e" and "e + 2 < h \<or> e + 2 = h + 2"
    and "header_lines (take (h + 2) t) = take e t # header_lines (drop (e + 2) (take (h + 2) t))"
proof -
  have two: "crlf \<noteq> []" "length crlf = 2" by (simp_all add: crlf_def)
  have h: "prefix (crlf @ crlf) (drop h t)"
    using assms(1) find_text_Some [of "crlf @ crlf" t h] by (simp add: crlf_def)
  then obtain e where e: "e \<le> h" "find_text crlf t = Some e"
    using find_text_there [OF two(1)] append_prefixD by metis
  have "find_text crlf (take (h + 2) t @ drop (h + 2) t) = Some e" using e(2) by simp
  moreover have "e + 2 \<le> length (take (h + 2) t)"
    using e(1) prefix_length_le [OF h] by (simp add: crlf_def)
  ultimately have "find_text crlf (take (h + 2) t) = Some e"
    using find_text_shorter [OF two(1)] two(2) by metis
  then have "header_lines (take (h + 2) t) = take e t # header_lines (drop (e + 2) (take (h + 2) t))"
    using e(1) by (simp add: header_lines_Some)
  moreover have "e + 2 < h \<or> e + 2 = h + 2"
    using crlf_apart [OF assms _ e(1)] e(2) find_text_Some [OF two(1)] by force
  ultimately show ?thesis using that e(2) by blast
qed

lemma read_request_eq:
  assumes "pieces ss" and "\<And>h. find_text (crlf @ crlf) (concat ss) = Some h \<Longrightarrow> h + 4 \<le> header_cap"
  shows "read_request reserve ss = request_of_text reserve (concat ss)"
proof (cases "find_text (crlf @ crlf) (concat ss)")
  case None
  then show ?thesis using read_headers_none [OF assms(1), of "[]"]
    by (auto simp: read_request_def request_of_text_def)
next
  case (Some h)
  obtain req ss' where r: "read_headers ss [] = ((req, Some h), ss')" "req @ concat ss' = concat ss"
      "pieces ss'" "h + 4 \<le> length req"
    using read_headers_found [OF assms(1), of "[]" h] Some assms(2) by auto
  have four: "crlf @ crlf \<noteq> []" "length (crlf @ crlf) = 4" by (simp_all add: crlf_def)
  have req: "find_text (crlf @ crlf) req = Some h"
    using find_text_shorter [OF four(1), of req "concat ss'" h] r(2,4) Some four(2) by simp
  obtain e where e: "find_text crlf req = Some e" "e + 2 < h \<or> e + 2 = h + 2"
      "header_lines (take (h + 2) req) = take e req # header_lines (drop (e + 2) (take (h + 2) req))"
    using first_line [OF req] .
  have same: "take (h + 2) (concat ss) = take (h + 2) req"
    using r(4) by (simp add: r(2) [symmetric])
  define n where "n = header_length (header_lines (drop (e + 2) (take (h + 2) req)))"
  have n: "length_loop req e h 0 0 = n"
    using length_loop_lines [OF req _ e(2), of 0 e 0] by (simp add: n_def header_length_def)
  have body: "(if length req - (h + 4) > 0 then take (min (length req - (h + 4)) n) (drop (h + 4) req) else []) @
      read_rest (if n > length req - (h + 4) then n - (length req - (h + 4)) else 0) ss' =
      take n (drop (h + 4) (concat ss))"
  proof -
    have "drop (h + 4) (concat ss) = drop (h + 4) req @ concat ss'"
      using r(4) by (simp add: r(2) [symmetric])
    then show ?thesis using read_rest_take [OF r(3)] by (auto simp: min_def)
  qed
  have lines: "header_lines (take (h + 2) (concat ss)) = take e req # header_lines (drop (e + 2) (take (h + 2) req))"
    using e(3) same by (simp del: add_2_eq_Suc add_2_eq_Suc')
  obtain m tg where first: "parse_first_line (take e req) = (m, tg)" by force
  have "request_of_text reserve (concat ss) = (if n \<noteq> 0 \<and> \<not> reserve n then Inl (RuntimeError ''length_error'')
      else Inr (Some \<lparr> hb_method = m, hb_target = tg, hb_body = take n (drop (h + 4) (concat ss)) \<rparr>))"
    by (simp only: request_of_text_def Some option.case Let_def lines list.sel first prod.case n_def)
  moreover have "read_request reserve ss = (if n \<noteq> 0 \<and> \<not> reserve n then Inl (RuntimeError ''length_error'')
      else Inr (Some \<lparr> hb_method = m, hb_target = tg, hb_body = take n (drop (h + 4) (concat ss)) \<rparr>))"
    by (simp only: read_request_def r(1) prod.case option.case Let_def e(1) option.sel n first body) simp
  ultimately show ?thesis by simp
qed

lemma receiver_loop_throws:
  "read_request reserve c = Inl e \<Longrightarrow> \<exists>e'. receiver_loop reserve (cs @ c # ds) = Inl e'"
proof (induction cs)
  case (Cons d cs)
  then show ?case by (cases "read_request reserve d") auto
qed simp

lemma receiver_stop_idle: "\<not> rv_running (receiver_stop r) \<and> receiver_stop (receiver_stop r) = receiver_stop r"
  by (simp add: receiver_stop_def)

lemma receiver_restarts:
  assumes "receiver_start fd True True r = Inr (True, r')" and "\<not> rv_running r" and "0 \<le> fd'"
  shows "rv_running r' \<and> (\<exists>r''. receiver_start fd' True True (receiver_stop r') = Inr (True, r'') \<and> rv_running r'')"
  using assms by (auto simp: receiver_start_def receiver_stop_def split: if_splits)

section \<open>Properties\<close>

text \<open>C15: what the listener reads does not depend on the pieces in which a request arrives: with a header
  that ends within the limit it is the request one finds in the whole text: the method and the target
  of the first line, and as many bytes after the empty line as the last length line says; without an
  empty line there is none. Reading always ends.\<close>

theorem request_pieces_irrelevant:
  assumes "pieces ss" and "\<And>h. find_text (crlf @ crlf) (concat ss) = Some h \<Longrightarrow> h + 4 \<le> header_cap"
  shows "read_request reserve ss = request_of_text reserve (concat ss)"
  by (rule read_request_eq [OF assms])

definition demo_request :: "string \<Rightarrow> bytes" where
  "demo_request n = str_bytes ''POST /entity HTTP/1.1'' @ crlf @ str_bytes ''content-length: '' @ str_bytes n @ crlf @ crlf @
     str_bytes ''hi!''"

theorem request_pieces_irrelevant_witness:
  "read_request (\<lambda>_. True) [take 30 (demo_request ''2''), drop 30 (demo_request ''2'')] =
   request_of_text (\<lambda>_. True) (concat [take 30 (demo_request ''2''), drop 30 (demo_request ''2'')])"
proof (rule request_pieces_irrelevant)
  show "pieces [take 30 (demo_request ''2''), drop 30 (demo_request ''2'')]"
    by (simp add: pieces_def demo_request_def str_bytes_def crlf_def)
next
  fix h
  assume "find_text (crlf @ crlf) (concat [take 30 (demo_request ''2''), drop 30 (demo_request ''2'')]) = Some h"
  from find_text_fits [OF _ this] show "h + 4 \<le> header_cap"
    by (simp add: demo_request_def str_bytes_def crlf_def header_cap_def)
qed

text \<open>The request of the example, and one whose length no string can have: it ends the process.\<close>

lemmas request_eval = request_of_text_def demo_request_def str_bytes_def crlf_def find_text_Nil find_text_Cons
  header_lines.simps parse_first_line_def first_space_def find_text_from_def header_length_def line_length_def
  has_length_key_def length_key_def lower_def

lemma demo_request_read:
  "request_of_text (\<lambda>_. True) (demo_request ''2'') =
    Inr (Some \<lparr> hb_method = str_bytes ''POST'', hb_target = str_bytes ''/entity'', hb_body = str_bytes ''hi'' \<rparr>)"
  by (simp add: request_eval strtoul_def stoull_def is_space_byte_def is_digit_def digits_val_def)

lemma negative_length_throws:
  "request_of_text (\<lambda>n. n < 2 ^ 63) (demo_request ''-1'') = Inl (RuntimeError ''length_error'')"
  by (simp add: request_eval strtoul_def stoull_def is_space_byte_def is_digit_def digits_val_def Let_def
      unsigned_minus_1_eq_mask mask_eq_exp_minus_1)

end
