(* ===== verification/Redis_Async.thy ===== *)
theory Redis_Async
  imports Redis_Store Docker_Client
begin

text \<open>
  The rest of the connection to the database: the commands that answer through a future or a callback,
  the counters and the sorted sets, the clock of the server (\<open>RedisConnection\<close>), and the opening of
  connections with its cache and its retries (\<open>Redis::Connect\<close>). The client library is a parameter:
  a command is a field of a record, and it may throw.
\<close>

section \<open>Replies of raw commands\<close>

text \<open>The types of replies the sources tell apart; an element of an array may be a null pointer.\<close>

datatype redis_reply =
    RString bytes
  | RStatus bytes
  | RArray "redis_reply option list"
  | ROther bytes

fun reply_to_string :: "redis_reply option \<Rightarrow> bytes" where
  "reply_to_string None = []"
| "reply_to_string (Some (RString s)) = s"
| "reply_to_string (Some (RStatus s)) = s"
| "reply_to_string (Some (RArray _)) = []"
| "reply_to_string (Some (ROther s)) = s"

section \<open>The two clients of the library\<close>

text \<open>A future is what its \<open>get\<close> gives; a command of the asynchronous client may also throw when it is issued.\<close>

type_synonym ('db, 'a) issue = "('db, 'a res) io"

record 'db sync_client =
  rs_hincrby :: "string \<Rightarrow> bytes \<Rightarrow> int \<Rightarrow> ('db, int) io"
  rs_hmget :: "string \<Rightarrow> bytes list \<Rightarrow> ('db, bytes option list) io"
  rs_zadd :: "string \<Rightarrow> bytes \<Rightarrow> f64 \<Rightarrow> ('db, int) io"
  rs_zrem :: "string \<Rightarrow> bytes \<Rightarrow> ('db, int) io"
  rs_zscore :: "string \<Rightarrow> bytes \<Rightarrow> ('db, f64 option) io"
  rs_zrange :: "string \<Rightarrow> int \<Rightarrow> int \<Rightarrow> ('db, bytes list) io"
  rs_zcard :: "string \<Rightarrow> ('db, int) io"
  rs_command :: "bytes list \<Rightarrow> ('db, redis_reply option) io"

record 'db async_client =
  ra_hset :: "string \<Rightarrow> bytes \<Rightarrow> bytes \<Rightarrow> ('db, int) issue"
  ra_hget :: "string \<Rightarrow> bytes \<Rightarrow> ('db, bytes option) issue"
  ra_hexists :: "string \<Rightarrow> bytes \<Rightarrow> ('db, bool) issue"
  ra_hdel :: "string \<Rightarrow> bytes list \<Rightarrow> ('db, int) issue"
  ra_hlen :: "string \<Rightarrow> ('db, int) issue"
  ra_hincrby :: "string \<Rightarrow> bytes \<Rightarrow> int \<Rightarrow> ('db, int) issue"
  ra_hmget :: "string \<Rightarrow> bytes list \<Rightarrow> ('db, bytes option list) issue"
  ra_hgetall :: "string \<Rightarrow> ('db, (bytes \<times> bytes) list) issue"
  ra_del :: "string \<Rightarrow> ('db, int) issue"
  ra_get :: "string \<Rightarrow> ('db, bytes option) issue"
  ra_set :: "string \<Rightarrow> bytes \<Rightarrow> ('db, bool) issue"
  ra_exists :: "string \<Rightarrow> ('db, int) issue"
  ra_expire :: "string \<Rightarrow> int \<Rightarrow> ('db, bool) issue"
  ra_ttl :: "string \<Rightarrow> ('db, int) issue"
  ra_sadd :: "string \<Rightarrow> bytes list \<Rightarrow> ('db, int) issue"
  ra_srem :: "string \<Rightarrow> bytes list \<Rightarrow> ('db, int) issue"
  ra_sismember :: "string \<Rightarrow> bytes \<Rightarrow> ('db, bool) issue"
  ra_scard :: "string \<Rightarrow> ('db, int) issue"
  ra_smembers :: "string \<Rightarrow> ('db, bytes list) issue"
  ra_zadd :: "string \<Rightarrow> bytes \<Rightarrow> f64 \<Rightarrow> ('db, int) issue"
  ra_zrem :: "string \<Rightarrow> bytes \<Rightarrow> ('db, int) issue"
  ra_zscore :: "string \<Rightarrow> bytes \<Rightarrow> ('db, f64 option) issue"
  ra_zrange :: "string \<Rightarrow> int \<Rightarrow> int \<Rightarrow> ('db, bytes list) issue"
  ra_zcard :: "string \<Rightarrow> ('db, int) issue"
  ra_publish :: "string \<Rightarrow> bytes \<Rightarrow> ('db, int) issue"
  ra_command_ll :: "bytes list \<Rightarrow> ('db, int) issue"

text \<open>The handles of the connection that these operations use, one pair for each deployment.\<close>

record 'db async_connection =
  ac_cluster :: bool
  ac_sync :: "'db sync_client"
  ac_sync_cluster :: "'db sync_client"
  ac_async :: "'db async_client"
  ac_async_cluster :: "'db async_client"

definition make_connection :: "'db sync_client \<Rightarrow> 'db async_client \<Rightarrow> 'db async_connection \<Rightarrow> 'db async_connection" where
  "make_connection s a C = C \<lparr> ac_cluster := False, ac_sync := s, ac_async := a \<rparr>"

definition make_cluster_connection ::
  "'db sync_client \<Rightarrow> 'db async_client \<Rightarrow> 'db async_connection \<Rightarrow> 'db async_connection"
where
  "make_cluster_connection s a C = C \<lparr> ac_cluster := True, ac_sync_cluster := s, ac_async_cluster := a \<rparr>"

definition with_sync_client :: "'db async_connection \<Rightarrow> 'db sync_client" where
  "with_sync_client C = (if ac_cluster C then ac_sync_cluster C else ac_sync C)"

definition with_async :: "'db async_connection \<Rightarrow> 'db async_client" where
  "with_async C = (if ac_cluster C then ac_async_cluster C else ac_async C)"

section \<open>Futures and callbacks\<close>

definition map_future :: "('db, 'a) issue \<Rightarrow> ('a \<Rightarrow> 'b) \<Rightarrow> ('db, 'b) issue" where
  "map_future m f = bindIO m (\<lambda>r. returnIO (bindE r (\<lambda>x. Inr (f x))))"

text \<open>
  The thread of a callback runs the success callback inside the \<open>try\<close> block: an exception of the
  future and an exception of the success callback both go to the error callback, if there is one.
\<close>

definition future_to_callback ::
  "'a res \<Rightarrow> ('a \<Rightarrow> ('db, unit) io) \<Rightarrow> (cpp_exn \<Rightarrow> ('db, unit) io) option \<Rightarrow> ('db, unit) io"
where
  "future_to_callback r ok err = (\<lambda>db.
    case (case r of Inl e \<Rightarrow> (Inl e, db) | Inr x \<Rightarrow> ok x db) of
      (Inl e, db) \<Rightarrow>
        if catchable e then (case err of None \<Rightarrow> (Inr (), db) | Some h \<Rightarrow> h e db) else (Inl e, db)
    | (Inr _, db) \<Rightarrow> (Inr (), db))"

definition with_callback ::
  "('db, 'a) issue \<Rightarrow> ('a \<Rightarrow> ('db, unit) io) \<Rightarrow> (cpp_exn \<Rightarrow> ('db, unit) io) option \<Rightarrow> ('db, unit) io"
where
  "with_callback m ok err = bindIO m (\<lambda>r. future_to_callback r ok err)"

section \<open>Commands that answer through a future\<close>

text \<open>The reply to this command is the string zero.\<close>

definition echo_zero :: "'db async_connection \<Rightarrow> ('db, int) issue" where
  "echo_zero C = ra_command_ll (with_async C) [str_bytes ''ECHO'', str_bytes ''0'']"

definition db_hset_async :: "'db async_connection \<Rightarrow> string \<Rightarrow> bytes \<Rightarrow> bytes \<Rightarrow> ('db, int) issue" where
  "db_hset_async C key field value =
    ra_hset (with_async C) key field value"

definition db_hget_async :: "'db async_connection \<Rightarrow> string \<Rightarrow> bytes \<Rightarrow> ('db, bytes option) issue" where
  "db_hget_async C key field =
    ra_hget (with_async C) key field"

definition db_hexists_async :: "'db async_connection \<Rightarrow> string \<Rightarrow> bytes \<Rightarrow> ('db, bool) issue" where
  "db_hexists_async C key field =
    ra_hexists (with_async C) key field"

definition db_hdel_async :: "'db async_connection \<Rightarrow> string \<Rightarrow> bytes list \<Rightarrow> ('db, int) issue" where
  "db_hdel_async C key flds =
    (if flds = [] then echo_zero C else ra_hdel (with_async C) key flds)"

definition db_hlen_async :: "'db async_connection \<Rightarrow> string \<Rightarrow> ('db, int) issue" where
  "db_hlen_async C key =
    ra_hlen (with_async C) key"

definition db_hincrby_async :: "'db async_connection \<Rightarrow> string \<Rightarrow> bytes \<Rightarrow> int \<Rightarrow> ('db, int) issue" where
  "db_hincrby_async C key field n =
    ra_hincrby (with_async C) key field n"

definition db_hmget_async :: "'db async_connection \<Rightarrow> string \<Rightarrow> bytes list \<Rightarrow> ('db, bytes option list) issue" where
  "db_hmget_async C key flds =
    ra_hmget (with_async C) key flds"

definition db_hgetall_async :: "'db async_connection \<Rightarrow> string \<Rightarrow> ('db, (bytes \<times> bytes) list) issue" where
  "db_hgetall_async C key =
    ra_hgetall (with_async C) key"

definition db_del_async :: "'db async_connection \<Rightarrow> string \<Rightarrow> ('db, int) issue" where
  "db_del_async C key =
    ra_del (with_async C) key"

definition db_get_async :: "'db async_connection \<Rightarrow> string \<Rightarrow> ('db, bytes option) issue" where
  "db_get_async C key =
    ra_get (with_async C) key"

definition db_set_async :: "'db async_connection \<Rightarrow> string \<Rightarrow> bytes \<Rightarrow> ('db, bool) issue" where
  "db_set_async C key value =
    ra_set (with_async C) key value"

definition db_exists_count_async :: "'db async_connection \<Rightarrow> string \<Rightarrow> ('db, int) issue" where
  "db_exists_count_async C key =
    ra_exists (with_async C) key"

definition db_expire_async :: "'db async_connection \<Rightarrow> string \<Rightarrow> int \<Rightarrow> ('db, bool) issue" where
  "db_expire_async C key t =
    ra_expire (with_async C) key t"

definition db_ttl_async :: "'db async_connection \<Rightarrow> string \<Rightarrow> ('db, int) issue" where
  "db_ttl_async C key =
    ra_ttl (with_async C) key"

definition db_sadd_async :: "'db async_connection \<Rightarrow> string \<Rightarrow> bytes list \<Rightarrow> ('db, int) issue" where
  "db_sadd_async C key members =
    (if members = [] then echo_zero C else ra_sadd (with_async C) key members)"

definition db_srem_async :: "'db async_connection \<Rightarrow> string \<Rightarrow> bytes list \<Rightarrow> ('db, int) issue" where
  "db_srem_async C key members =
    (if members = [] then echo_zero C else ra_srem (with_async C) key members)"

definition db_sismember_async :: "'db async_connection \<Rightarrow> string \<Rightarrow> bytes \<Rightarrow> ('db, bool) issue" where
  "db_sismember_async C key member =
    ra_sismember (with_async C) key member"

definition db_scard_async :: "'db async_connection \<Rightarrow> string \<Rightarrow> ('db, int) issue" where
  "db_scard_async C key =
    ra_scard (with_async C) key"

definition db_smembers_async :: "'db async_connection \<Rightarrow> string \<Rightarrow> ('db, bytes list) issue" where
  "db_smembers_async C key =
    ra_smembers (with_async C) key"

definition db_zadd_async :: "'db async_connection \<Rightarrow> string \<Rightarrow> bytes \<Rightarrow> f64 \<Rightarrow> ('db, int) issue" where
  "db_zadd_async C key member score =
    ra_zadd (with_async C) key member score"

definition db_zrem_async :: "'db async_connection \<Rightarrow> string \<Rightarrow> bytes \<Rightarrow> ('db, int) issue" where
  "db_zrem_async C key member =
    ra_zrem (with_async C) key member"

definition db_zscore_async :: "'db async_connection \<Rightarrow> string \<Rightarrow> bytes \<Rightarrow> ('db, f64 option) issue" where
  "db_zscore_async C key member =
    ra_zscore (with_async C) key member"

definition db_zrange_async :: "'db async_connection \<Rightarrow> string \<Rightarrow> int \<Rightarrow> int \<Rightarrow> ('db, bytes list) issue" where
  "db_zrange_async C key start stop =
    ra_zrange (with_async C) key start stop"

definition db_zcard_async :: "'db async_connection \<Rightarrow> string \<Rightarrow> ('db, int) issue" where
  "db_zcard_async C key =
    ra_zcard (with_async C) key"

definition db_publish_async :: "'db async_connection \<Rightarrow> string \<Rightarrow> bytes \<Rightarrow> ('db, int) issue" where
  "db_publish_async C channel message =
    ra_publish (with_async C) channel message"

definition db_del_key_async :: "'db async_connection \<Rightarrow> string \<Rightarrow> ('db, int) issue" where
  "db_del_key_async C key = ra_del (with_async C) key"

definition db_exists_async :: "'db async_connection \<Rightarrow> string \<Rightarrow> ('db, bool) issue" where
  "db_exists_async C key = map_future (db_exists_count_async C key) (\<lambda>n. n \<noteq> 0)"

definition db_get_async_cb :: "'db async_connection \<Rightarrow> string \<Rightarrow> (bytes option \<Rightarrow> ('db, unit) io) \<Rightarrow>
  (cpp_exn \<Rightarrow> ('db, unit) io) option \<Rightarrow> ('db, unit) io"
where
  "db_get_async_cb C key ok err = with_callback (db_get_async C key) ok err"

definition db_set_async_cb :: "'db async_connection \<Rightarrow> string \<Rightarrow> bytes \<Rightarrow> (bool \<Rightarrow> ('db, unit) io) \<Rightarrow>
  (cpp_exn \<Rightarrow> ('db, unit) io) option \<Rightarrow> ('db, unit) io"
where
  "db_set_async_cb C key value ok err = with_callback (db_set_async C key value) ok err"

definition db_exists_async_cb :: "'db async_connection \<Rightarrow> string \<Rightarrow> (bool \<Rightarrow> ('db, unit) io) \<Rightarrow>
  (cpp_exn \<Rightarrow> ('db, unit) io) option \<Rightarrow> ('db, unit) io"
where
  "db_exists_async_cb C key ok err = with_callback (db_exists_async C key) ok err"

definition db_del_async_cb :: "'db async_connection \<Rightarrow> string \<Rightarrow> (int \<Rightarrow> ('db, unit) io) \<Rightarrow>
  (cpp_exn \<Rightarrow> ('db, unit) io) option \<Rightarrow> ('db, unit) io"
where
  "db_del_async_cb C key ok err = with_callback (db_del_async C key) ok err"

definition db_expire_async_cb :: "'db async_connection \<Rightarrow> string \<Rightarrow> int \<Rightarrow> (bool \<Rightarrow> ('db, unit) io) \<Rightarrow>
  (cpp_exn \<Rightarrow> ('db, unit) io) option \<Rightarrow> ('db, unit) io"
where
  "db_expire_async_cb C key t ok err = with_callback (db_expire_async C key t) ok err"

definition db_ttl_async_cb :: "'db async_connection \<Rightarrow> string \<Rightarrow> (int \<Rightarrow> ('db, unit) io) \<Rightarrow>
  (cpp_exn \<Rightarrow> ('db, unit) io) option \<Rightarrow> ('db, unit) io"
where
  "db_ttl_async_cb C key ok err = with_callback (db_ttl_async C key) ok err"

section \<open>Counters and sorted sets\<close>

definition db_hincrby :: "'db async_connection \<Rightarrow> string \<Rightarrow> bytes \<Rightarrow> int \<Rightarrow> ('db, int) io" where
  "db_hincrby C key field n = rs_hincrby (with_sync_client C) key field n"

definition db_zadd :: "'db async_connection \<Rightarrow> string \<Rightarrow> bytes \<Rightarrow> f64 \<Rightarrow> ('db, int) io" where
  "db_zadd C key member score = rs_zadd (with_sync_client C) key member score"

definition db_zrem :: "'db async_connection \<Rightarrow> string \<Rightarrow> bytes \<Rightarrow> ('db, int) io" where
  "db_zrem C key member = rs_zrem (with_sync_client C) key member"

definition db_zscore :: "'db async_connection \<Rightarrow> string \<Rightarrow> bytes \<Rightarrow> ('db, f64 option) io" where
  "db_zscore C key member = rs_zscore (with_sync_client C) key member"

definition db_zrange :: "'db async_connection \<Rightarrow> string \<Rightarrow> int \<Rightarrow> int \<Rightarrow> ('db, bytes list) io" where
  "db_zrange C key start stop = rs_zrange (with_sync_client C) key start stop"

definition db_zcard :: "'db async_connection \<Rightarrow> string \<Rightarrow> ('db, int) io" where
  "db_zcard C key = rs_zcard (with_sync_client C) key"

definition db_hmget :: "'db async_connection \<Rightarrow> string \<Rightarrow> bytes list \<Rightarrow> ('db, bytes option list) io" where
  "db_hmget C key flds = (if flds = [] then returnIO [] else rs_hmget (with_sync_client C) key flds)"

section \<open>The clock of the server\<close>

text \<open>The first element is read without a look at the number of elements, and neither pointer is checked.\<close>

definition reply_number :: "redis_reply option \<Rightarrow> int res" where
  "reply_number r = (case r of None \<Rightarrow> Inl (UB Null_Deref) | Some _ \<Rightarrow> Inr (from_chars_i64 (reply_to_string r)))"

definition reply_time :: "redis_reply option \<Rightarrow> (int \<times> int) res" where
  "reply_time r =
    (case r of
       Some (RArray []) \<Rightarrow> Inl (UB Out_Of_Bounds)
     | Some (RArray [s]) \<Rightarrow> bindE (reply_number s) (\<lambda>seconds. Inr (seconds, 0))
     | Some (RArray (s # u # _)) \<Rightarrow>
         bindE (reply_number s) (\<lambda>seconds. bindE (reply_number u) (\<lambda>micro. Inr (seconds, micro)))
     | _ \<Rightarrow> Inr (0, 0))"

definition get_time_now :: "'db async_connection \<Rightarrow> ('db, int \<times> int) io" where
  "get_time_now C =
    catchIO (bindIO (rs_command (with_sync_client C) [str_bytes ''TIME'']) (\<lambda>r. liftIO (reply_time r)))
      (returnIO (0, 0))"

text \<open>The arithmetic of \<open>double\<close> is a parameter: conversion, product and sum.\<close>

definition get_time_now_seconds ::
  "(int \<Rightarrow> 'd) \<Rightarrow> ('d \<Rightarrow> 'd \<Rightarrow> 'd) \<Rightarrow> ('d \<Rightarrow> 'd \<Rightarrow> 'd) \<Rightarrow> 'd \<Rightarrow> 'db async_connection \<Rightarrow> ('db, 'd) io"
where
  "get_time_now_seconds of_int64 mul add micro C =
    bindIO (get_time_now C) (\<lambda>t. returnIO (add (of_int64 (fst t)) (mul (of_int64 (snd t)) micro)))"

section \<open>Opening connections\<close>

record redis_options =
  ro_host :: bytes
  ro_port :: int
  ro_cluster :: bool

text \<open>The order of the keys of the cache.\<close>

definition options_less :: "redis_options \<Rightarrow> redis_options \<Rightarrow> bool" where
  "options_less a b \<longleftrightarrow>
    (if ro_host a \<noteq> ro_host b then (ro_host a, ro_host b) \<in> lexord {(x, y). x < y}
     else if ro_port a \<noteq> ro_port b then ro_port a < ro_port b
     else ro_cluster a < ro_cluster b)"

text \<open>
  The client library and the process around it: the handles of a deployment, a command to each, the
  pause between two attempts, the exceptions of the library, and whether a weak pointer to a
  connection still has one.
\<close>

record ('c, 'w) redis_lib =
  rl_open :: "bool \<Rightarrow> bytes \<Rightarrow> int \<Rightarrow> nat \<Rightarrow> ('w, 'c) io"
  rl_ping :: "bool \<Rightarrow> 'c \<Rightarrow> ('w, unit) io"
  rl_set :: "'c \<Rightarrow> bytes \<Rightarrow> bytes \<Rightarrow> ('w, bool) io"
  rl_del :: "'c \<Rightarrow> bytes \<Rightarrow> ('w, int) io"
  rl_sleep :: "u32 \<Rightarrow> 'w \<Rightarrow> 'w"
  rl_error :: "cpp_exn \<Rightarrow> bool"
  rl_alive :: "'c \<Rightarrow> 'w \<Rightarrow> bool"

type_synonym 'c connections = "redis_options \<Rightarrow> 'c option"

definition cached :: "('c, 'w) redis_lib \<Rightarrow> redis_options \<Rightarrow> 'c connections \<Rightarrow> 'w \<Rightarrow> 'c option" where
  "cached L q cache w =
    (case cache q of Some c \<Rightarrow> if rl_alive L c w then Some c else None | None \<Rightarrow> None)"

definition open_once :: "('c, 'w) redis_lib \<Rightarrow> redis_options \<Rightarrow> ('w, 'c) io" where
  "open_once L q =
    bindIO (rl_open L (ro_cluster q) (ro_host q) (ro_port q) 5) (\<lambda>c.
    bindIO (rl_ping L (ro_cluster q) c) (\<lambda>_.
    bindIO (rl_set L c (str_bytes ''test'') (str_bytes ''test'')) (\<lambda>_.
    bindIO (rl_del L c (str_bytes ''test'')) (\<lambda>_. returnIO c))))"

definition pause :: "('c, 'w) redis_lib \<Rightarrow> u32 \<Rightarrow> 'w \<Rightarrow> 'w" where
  "pause L interval w = (if 0 < interval then rl_sleep L interval w else w)"

lemma next_attempt: "a < b \<Longrightarrow> unat (a + 1) = Suc (unat a)" for a b :: u32
  using unsigned_less [where w = b and ?'a = nat] by (simp add: unat_word_ariths word_less_nat_alt)

function connect_loop ::
  "('c, 'w) redis_lib \<Rightarrow> redis_options \<Rightarrow> u32 \<Rightarrow> u32 \<Rightarrow> u32 \<Rightarrow> 'c connections \<Rightarrow> 'w \<Rightarrow>
    'c res \<times> 'c connections \<times> 'w"
where
  "connect_loop L q retries interval attempt cache w =
    (case open_once L q w of
       (Inr c, w) \<Rightarrow>
         (case cached L q cache w of
            Some existing \<Rightarrow> (Inr existing, cache, w)
          | None \<Rightarrow> (Inr c, cache(q \<mapsto> c), w))
     | (Inl e, w) \<Rightarrow>
         if rl_error L e \<and> attempt < retries
         then connect_loop L q retries interval (attempt + 1) cache (pause L interval w)
         else (Inl e, cache, w))"
  by pat_completeness auto

termination
  by (relation "measure (\<lambda>(L, q, retries, interval, attempt, cache, w). unat retries - unat attempt)")
    (auto simp: next_attempt word_less_nat_alt)

declare connect_loop.simps [simp del]

definition redis_connect ::
  "('c, 'w) redis_lib \<Rightarrow> redis_options \<Rightarrow> u32 \<Rightarrow> u32 \<Rightarrow> 'c connections \<Rightarrow> 'w \<Rightarrow>
    'c res \<times> 'c connections \<times> 'w"
where
  "redis_connect L q retries interval cache w =
    (case cached L q cache w of
       Some c \<Rightarrow> (Inr c, cache, w)
     | None \<Rightarrow> connect_loop L q retries interval 0 cache w)"

definition connect_non_cluster ::
  "('c, 'w) redis_lib \<Rightarrow> bytes \<Rightarrow> int \<Rightarrow> u32 \<Rightarrow> u32 \<Rightarrow> 'c connections \<Rightarrow> 'w \<Rightarrow>
    'c res \<times> 'c connections \<times> 'w"
where
  "connect_non_cluster L address port =
    redis_connect L \<lparr> ro_host = address, ro_port = port, ro_cluster = False \<rparr>"

text \<open>The database of the program: its address is a constant of the build.\<close>

definition internal_db ::
  "('c, 'w) redis_lib \<Rightarrow> bytes \<Rightarrow> int \<Rightarrow> 'c connections \<Rightarrow> 'w \<Rightarrow> 'c res \<times> 'c connections \<times> 'w"
where
  "internal_db L service port = connect_non_cluster L service port 20 500"

section \<open>The order of the options\<close>

lemma lexord_bytes_linear: "(a :: bytes) \<noteq> b \<Longrightarrow> (a, b) \<in> lexord {(x, y). x < y} \<or> (b, a) \<in> lexord {(x, y). x < y}"
  using lexord_linear [of "{(x :: u8, y). x < y}" a b] less_linear by blast

lemma lexord_bytes_asym: "(a :: bytes, b) \<in> lexord {(x, y). x < y} \<Longrightarrow> (b, a) \<notin> lexord {(x, y). x < y}"
  by (rule lexord_asymmetric) (auto simp: asym_iff)

lemma options_less_asym: "options_less a b \<Longrightarrow> \<not> options_less b a"
  by (auto simp: options_less_def split: if_splits dest: lexord_bytes_asym)

text \<open>Two options share an entry of the cache exactly when they name the same deployment.\<close>

lemma options_equivalent: "\<not> options_less a b \<and> \<not> options_less b a \<longleftrightarrow> a = b"
proof
  assume "\<not> options_less a b \<and> \<not> options_less b a"
  then show "a = b"
    using lexord_bytes_linear [of "ro_host a" "ro_host b"]
    by (intro redis_options.equality) (auto simp: options_less_def split: if_splits)
qed (auto simp: options_less_def)

section \<open>The retries\<close>

fun after_failures :: "('c, 'w) redis_lib \<Rightarrow> redis_options \<Rightarrow> u32 \<Rightarrow> nat \<Rightarrow> 'w \<Rightarrow> 'w option" where
  "after_failures L q interval 0 w = Some w"
| "after_failures L q interval (Suc n) w =
    (case open_once L q w of
       (Inl e, w) \<Rightarrow> if rl_error L e then after_failures L q interval n (pause L interval w) else None
     | (Inr _, _) \<Rightarrow> None)"

lemma connect_loop_failures:
  assumes "after_failures L q interval n w = Some w'" and "unat attempt + n \<le> unat retries"
  shows "connect_loop L q retries interval attempt cache w =
    connect_loop L q retries interval (attempt + of_nat n) cache w'"
  using assms
proof (induction n arbitrary: w attempt)
  case (Suc n)
  obtain e w1 where o: "open_once L q w = (Inl e, w1)" "rl_error L e"
      and rest: "after_failures L q interval n (pause L interval w1) = Some w'"
    using Suc.prems(1) by (auto split: prod.splits sum.splits if_splits)
  have less: "attempt < retries" using Suc.prems(2) by (simp add: word_less_nat_alt)
  have "connect_loop L q retries interval attempt cache w =
      connect_loop L q retries interval (attempt + 1) cache (pause L interval w1)"
    using o less by (subst connect_loop.simps) simp
  also have "\<dots> = connect_loop L q retries interval (attempt + 1 + of_nat n) cache w'"
    using Suc.prems(2) next_attempt [OF less] by (intro Suc.IH rest) simp
  finally show ?case by (simp add: ac_simps)
qed simp

text \<open>C14: opening a connection tries at most one time more than the number of retries. When the first
  attempts fail with errors of the client library, the attempt after them decides if it succeeds, is
  the last one or fails in another way: its connection is returned and cached, or its exception is
  thrown and the cache stays as it was.\<close>

theorem redis_connect_retries:
  assumes "cache q = None" and "after_failures L q interval n w = Some w'" and "n \<le> unat retries"
    and "open_once L q w' = (r, w'')"
    and "(\<exists>c. r = Inr c) \<or> n = unat retries \<or> (\<exists>e. r = Inl e \<and> \<not> rl_error L e)"
  shows "redis_connect L q retries interval cache w =
    (case r of Inr c \<Rightarrow> (Inr c, cache(q \<mapsto> c), w'') | Inl e \<Rightarrow> (Inl e, cache, w''))"
proof -
  have "redis_connect L q retries interval cache w =
      connect_loop L q retries interval (of_nat n) cache w'"
    using connect_loop_failures [OF assms(2), of 0 retries cache] assms(1,3)
    by (simp add: redis_connect_def cached_def)
  then show ?thesis
    using assms by (subst (asm) connect_loop.simps) (auto simp: cached_def split: sum.splits)
qed

text \<open>While somebody holds a connection, the next call gives the same one without a command.\<close>

lemma connect_reuses:
  assumes "cache q = Some c" and "rl_alive L c w"
  shows "redis_connect L q retries interval cache w = (Inr c, cache, w)"
  using assms by (simp add: redis_connect_def cached_def)

section \<open>What the futures and the callbacks deliver\<close>

lemma exists_async_count:
  assumes "db_exists_count_async C key db = (Inr (Inr n), db')"
  shows "db_exists_async C key db = (Inr (Inr (n \<noteq> 0)), db')"
  using assms by (simp add: db_exists_async_def map_future_def returnIO_def)

lemma callback_success:
  assumes "m db = (Inr (Inr x), db1)" and "ok x db1 = (Inr (), db2)"
  shows "with_callback m ok err db = (Inr (), db2)"
  using assms by (simp add: with_callback_def future_to_callback_def)

lemma callback_failure:
  assumes "m db = (Inr (Inl e), db1)" and "catchable e"
  shows "with_callback m ok (Some h) db = h e db1"
  using assms by (simp add: with_callback_def future_to_callback_def)

text \<open>An exception of the success callback reaches the error callback too.\<close>

lemma callback_both:
  assumes "m db = (Inr (Inr x), db1)" and "ok x db1 = (Inl e, db2)" and "catchable e"
  shows "with_callback m ok (Some h) db = h e db2"
  using assms by (simp add: with_callback_def future_to_callback_def)

text \<open>
  The client library reads an integer from a reply only when the reply is an integer, and throws
  otherwise: deleting no fields succeeds with a synchronous call and fails with an asynchronous one.
\<close>

lemma delete_nothing_async:
  assumes "ra_command_ll (with_async C) [str_bytes ''ECHO'', str_bytes ''0''] db = (Inr (Inl e), db')"
  shows "db_hdel_async C key [] db = (Inr (Inl e), db')" and "db_hdel C' key [] db = (0, db)"
  using assms by (simp_all add: db_hdel_async_def echo_zero_def db_hdel_def)

lemma reply_time_values:
  "reply_time (Some (RArray (Some (RString s) # Some (RString u) # rs))) =
    Inr (from_chars_i64 s, from_chars_i64 u)"
  by (simp add: reply_time_def reply_number_def)

text \<open>The only way out of the clock is a malformed array.\<close>

lemma get_time_now_total:
  assumes "rs_command (with_sync_client C) [str_bytes ''TIME''] db = (r, db')"
    and "\<And>e. r = Inl e \<Longrightarrow> catchable e" and "\<And>x. r \<noteq> Inr (Some (RArray x))"
  shows "get_time_now C db = (Inr (0, 0), db')"
proof (cases r)
  case (Inl e)
  then show ?thesis using assms by (simp add: get_time_now_def catchIO_def returnIO_def)
next
  case (Inr x)
  have "reply_time x = Inr (0, 0)"
    using assms(3) Inr by (auto simp: reply_time_def split: option.splits redis_reply.splits)
  then show ?thesis using assms Inr by (simp add: get_time_now_def catchIO_def liftIO_def)
qed

section \<open>A server that starts late\<close>

text \<open>The world counts attempts; the first two fail.\<close>

definition demo_lib :: "(nat, nat) redis_lib" where
  "demo_lib = \<lparr>
    rl_open = (\<lambda>cl host port n w. (if w < 2 then Inl (RuntimeError ''refused'') else Inr 7, w + 1)),
    rl_ping = (\<lambda>cl c w. (Inr (), w)),
    rl_set = (\<lambda>c k v w. (Inr True, w)),
    rl_del = (\<lambda>c k w. (Inr 1, w)),
    rl_sleep = (\<lambda>t w. w),
    rl_error = (\<lambda>e. True),
    rl_alive = (\<lambda>c w. True) \<rparr>"

definition demo_options :: redis_options where
  "demo_options = \<lparr> ro_host = str_bytes ''db'', ro_port = 6379, ro_cluster = False \<rparr>"

lemma demo_open:
  "open_once demo_lib q w = (if w < 2 then (Inl (RuntimeError ''refused''), w + 1) else (Inr 7, w + 1))"
  by (simp add: open_once_def demo_lib_def bindIO_def returnIO_def)

theorem redis_connect_retries_witness:
  "redis_connect demo_lib demo_options 20 500 (\<lambda>_. None) 0 =
    (Inr 7, (\<lambda>_. None)(demo_options \<mapsto> 7), 3)"
proof -
  have "after_failures demo_lib demo_options 500 2 0 = Some 2"
    by (simp add: numeral_2_eq_2 demo_open pause_def) (simp add: demo_lib_def)
  from redis_connect_retries [where cache = "\<lambda>_. None" and retries = 20, OF refl this, of "Inr 7" 3]
  show ?thesis by (simp add: demo_open)
qed

end
