(* ===== verification/Database_Snapshot.thy ===== *)
theory Database_Snapshot
  imports Redis_Async "HOL-Library.List_Lexorder" "HOL-Library.Product_Lexorder"
begin

text \<open>
  The page of the web front end that lists the internal database (\<open>Web/src/DatabaseSnapshot.cpp\<close>): a
  scan over the keys of the server and a row for each key. The server answers raw commands with
  replies of the client library and typed commands with values; both may throw, and other processes
  may write between two commands. They are fields of \<open>snapshot_env\<close>.
\<close>

section \<open>The server\<close>

record 'db snapshot_env =
  sc_command :: "bytes list \<Rightarrow> ('db, redis_reply option) io"
  sc_command_opt :: "bytes list \<Rightarrow> ('db, bytes option) io"
  sc_ttl :: "bytes \<Rightarrow> ('db, int) io"
  sc_get :: "bytes \<Rightarrow> ('db, bytes option) io"
  sc_hgetall :: "bytes \<Rightarrow> ('db, (bytes \<times> bytes) list) io"
  sc_smembers :: "bytes \<Rightarrow> ('db, bytes list) io"
  sc_what :: "cpp_exn \<Rightarrow> bytes option"

text \<open>\<open>sc_what\<close> is the text of an exception derived from \<open>std::exception\<close> and none for the others.\<close>

fun text_reply :: "redis_reply option \<Rightarrow> bool" where
  "text_reply (Some (RString _)) = True"
| "text_reply (Some (RStatus _)) = True"
| "text_reply _ = False"

fun string_reply :: "redis_reply option \<Rightarrow> bytes option" where
  "string_reply (Some (RString s)) = Some (reply_to_string (Some (RString s)))"
| "string_reply _ = None"

definition max_payload_chars :: nat where
  "max_payload_chars = 32 * 1024"

definition truncate_payload :: "bytes \<Rightarrow> bytes" where
  "truncate_payload payload =
    (if length payload \<le> max_payload_chars then payload
     else take max_payload_chars payload @ 10 # str_bytes ''...[truncated '' @
       dec_of (length payload - max_payload_chars) @ str_bytes '' bytes]'')"

section \<open>The scan\<close>

definition scan_cmd :: "bytes \<Rightarrow> bytes list" where
  "scan_cmd cursor = [str_bytes ''SCAN'', cursor, str_bytes ''COUNT'', dec_of 200]"

definition cursor_start :: bytes where
  "cursor_start = [48]"

text \<open>The two elements of a usable reply: the cursor and the keys.\<close>

fun scan_elements :: "redis_reply option \<Rightarrow> (redis_reply option \<times> redis_reply option) option" where
  "scan_elements (Some (RArray (c # ks # _))) = Some (c, ks)"
| "scan_elements _ = None"

definition next_cursor :: "redis_reply option \<Rightarrow> bytes" where
  "next_cursor c = (case string_reply c of Some s \<Rightarrow> s | None \<Rightarrow> cursor_start)"

text \<open>The strings among the elements of an array; nothing when the reply is not an array.\<close>

fun reply_strings :: "redis_reply option \<Rightarrow> bytes list" where
  "reply_strings (Some (RArray rs)) = List.map_filter string_reply rs"
| "reply_strings _ = []"

definition insert_keys :: "redis_reply option \<Rightarrow> bytes list \<Rightarrow> bytes list" where
  "insert_keys ks unique = fold List.insert (filter (\<lambda>k. k \<noteq> []) (reply_strings ks)) unique"

text \<open>The loop ends when the server says so: without that it does not return.\<close>

partial_function (option) scan_loop ::
  "'db snapshot_env \<Rightarrow> bytes \<Rightarrow> bytes list \<Rightarrow> 'db \<Rightarrow> (bytes list res \<times> 'db) option"
where
  "scan_loop E cursor unique db =
    (case sc_command E (scan_cmd cursor) db of
       (Inl e, db) \<Rightarrow> Some (Inl e, db)
     | (Inr reply, db) \<Rightarrow>
         (case scan_elements reply of
            None \<Rightarrow> Some (Inr unique, db)
          | Some (c, ks) \<Rightarrow>
              if next_cursor c \<noteq> cursor_start
              then scan_loop E (next_cursor c) (insert_keys ks unique) db
              else Some (Inr (insert_keys ks unique), db)))"

definition scan_all_keys :: "'db snapshot_env \<Rightarrow> 'db \<Rightarrow> (bytes list res \<times> 'db) option" where
  "scan_all_keys E db = map_option (apfst (map_sum id sort)) (scan_loop E cursor_start [] db)"

section \<open>The values\<close>

definition get_redis_key_type :: "'db snapshot_env \<Rightarrow> bytes \<Rightarrow> ('db, bytes) io" where
  "get_redis_key_type E key =
    bindIO (sc_command E [str_bytes ''TYPE'', key]) (\<lambda>reply. returnIO
      (if \<not> text_reply reply then str_bytes ''unknown''
       else if reply_to_string reply = [] then str_bytes ''unknown'' else reply_to_string reply))"

definition get_list_values :: "'db snapshot_env \<Rightarrow> bytes \<Rightarrow> ('db, bytes list) io" where
  "get_list_values E key =
    bindIO (sc_command E [str_bytes ''LRANGE'', key, str_bytes ''0'', str_bytes ''-1''])
      (\<lambda>reply. returnIO (reply_strings reply))"

fun score_pairs :: "redis_reply option list \<Rightarrow> (bytes \<times> bytes) list" where
  "score_pairs (m # s # rs) =
    (case (string_reply m, string_reply s) of
       (Some m, Some s) \<Rightarrow> (m, s) # score_pairs rs
     | _ \<Rightarrow> score_pairs rs)"
| "score_pairs _ = []"

definition get_sorted_set_values_with_scores ::
  "'db snapshot_env \<Rightarrow> bytes \<Rightarrow> ('db, (bytes \<times> bytes) list) io"
where
  "get_sorted_set_values_with_scores E key =
    bindIO (sc_command E [str_bytes ''ZRANGE'', key, str_bytes ''0'', str_bytes ''-1'',
        str_bytes ''WITHSCORES''])
      (\<lambda>reply. returnIO (case reply of Some (RArray rs) \<Rightarrow> score_pairs rs | _ \<Rightarrow> []))"

definition get_json_value :: "'db snapshot_env \<Rightarrow> bytes \<Rightarrow> ('db, bytes option) io" where
  "get_json_value E key = sc_command_opt E [str_bytes ''JSON.GET'', key, str_bytes ''.'']"

text \<open>\<open>RedisConnection::HGetAll\<close> inserts the pairs of the reply into a map: the first of a field stays.\<close>

definition get_hash :: "'db snapshot_env \<Rightarrow> bytes \<Rightarrow> ('db, (bytes \<times> bytes) list) io" where
  "get_hash E key = bindIO (sc_hgetall E key) (\<lambda>pairs. returnIO (AList.clearjunk pairs))"

definition format_hash_payload :: "(bytes \<times> bytes) list \<Rightarrow> bytes" where
  "format_hash_payload pairs = concat (map (\<lambda>(f, v). f @ 9 # v @ [10]) (sort pairs))"

definition format_set_payload :: "bytes list \<Rightarrow> bytes" where
  "format_set_payload members = concat (map (\<lambda>m. m @ [10]) (sort members))"

definition format_list_payload :: "bytes list \<Rightarrow> bytes" where
  "format_list_payload values =
    concat (map (\<lambda>(i, v). dec_of i @ 9 # v @ [10]) (List.enumerate 0 values))"

definition format_sorted_set_payload :: "(bytes \<times> bytes) list \<Rightarrow> bytes" where
  "format_sorted_set_payload values = concat (map (\<lambda>(member, score). score @ 9 # member @ [10]) values)"

section \<open>The rows\<close>

text \<open>The number of entries and the payload of a key, by the type the server gives it.\<close>

definition read_value :: "'db snapshot_env \<Rightarrow> bytes \<Rightarrow> bytes \<Rightarrow> ('db, int \<times> bytes) io" where
  "read_value E type key =
    (if type = str_bytes ''none'' then returnIO (0, str_bytes ''<key expired>'')
     else if type = str_bytes ''string'' then
       bindIO (sc_get E key) (\<lambda>v. returnIO (case v of Some s \<Rightarrow> (1, s) | None \<Rightarrow> (0, [])))
     else if type = str_bytes ''hash'' then
       bindIO (get_hash E key) (\<lambda>h. returnIO (int (length h), format_hash_payload h))
     else if type = str_bytes ''set'' then
       bindIO (sc_smembers E key) (\<lambda>ms. returnIO (int (length ms), format_set_payload ms))
     else if type = str_bytes ''zset'' then
       bindIO (get_sorted_set_values_with_scores E key) (\<lambda>ms.
         returnIO (int (length ms), format_sorted_set_payload ms))
     else if type = str_bytes ''list'' then
       bindIO (get_list_values E key) (\<lambda>vs. returnIO (int (length vs), format_list_payload vs))
     else if type = str_bytes ''ReJSON-RL'' \<or> type = str_bytes ''json'' then
       bindIO (get_json_value E key) (\<lambda>v.
         let payload = (case v of Some s \<Rightarrow> s | None \<Rightarrow> str_bytes ''null'')
         in returnIO (if payload = [] \<or> payload = str_bytes ''null'' then 0 else 1, payload))
     else returnIO (0, str_bytes ''<unsupported type>''))"

definition error_payload :: "'db snapshot_env \<Rightarrow> cpp_exn \<Rightarrow> bytes" where
  "error_payload E e =
    (case sc_what E e of
       Some t \<Rightarrow> str_bytes ''<read error: '' @ t @ str_bytes ''>''
     | None \<Rightarrow> str_bytes ''<read error>'')"

definition make_row :: "bytes \<Rightarrow> bytes \<Rightarrow> int \<Rightarrow> int \<Rightarrow> bytes \<Rightarrow> bytes list" where
  "make_row key type count ttl payload =
    [str_bytes ''InternalDB'', key, type, dec_of_int count, dec_of_int ttl, truncate_payload payload]"

text \<open>
  The type is read outside the \<open>try\<close> block; inside it the time to live and then the value are read,
  and an exception leaves what was assigned before it.
\<close>

definition snapshot_row :: "'db snapshot_env \<Rightarrow> bytes \<Rightarrow> ('db, bytes list) io" where
  "snapshot_row E key =
    bindIO (get_redis_key_type E key) (\<lambda>type db.
      case sc_ttl E key db of
        (Inl e, db) \<Rightarrow>
          if catchable e then (Inr (make_row key type 0 (- 2) (error_payload E e)), db) else (Inl e, db)
      | (Inr ttl, db) \<Rightarrow>
          (case read_value E type key db of
             (Inl e, db) \<Rightarrow>
               if catchable e then (Inr (make_row key type 0 ttl (error_payload E e)), db) else (Inl e, db)
           | (Inr (count, payload), db) \<Rightarrow> (Inr (make_row key type count ttl payload), db)))"

text \<open>The rows are appended to the caller's vector, which keeps them when a later key throws.\<close>

fun push_rows :: "'db snapshot_env \<Rightarrow> bytes list \<Rightarrow> bytes list list \<Rightarrow> 'db \<Rightarrow> unit res \<times> bytes list list \<times> 'db" where
  "push_rows E [] rows db = (Inr (), rows, db)"
| "push_rows E (k # ks) rows db =
    (case snapshot_row E k db of
       (Inl e, db) \<Rightarrow> (Inl e, rows, db)
     | (Inr row, db) \<Rightarrow> push_rows E ks (rows @ [row]) db)"

definition get_all_rows :: "'db snapshot_env \<Rightarrow> 'db \<Rightarrow> (unit res \<times> bytes list list \<times> 'db) option" where
  "get_all_rows E db =
    map_option (\<lambda>(r, db). case r of Inl e \<Rightarrow> (Inl e, [], db) | Inr ks \<Rightarrow> push_rows E ks [] db)
      (scan_all_keys E db)"


section \<open>The scan ends with the keys the server reported\<close>

definition page :: "bytes \<Rightarrow> bytes list \<Rightarrow> redis_reply option" where
  "page c ks = Some (RArray [Some (RString c), Some (RArray (map (\<lambda>k. Some (RString k)) ks))])"

text \<open>The replies of a server to the commands of one scan, from a cursor to the cursor zero.\<close>

inductive scan_run :: "'db snapshot_env \<Rightarrow> bytes \<Rightarrow> 'db \<Rightarrow> bytes list \<Rightarrow> 'db \<Rightarrow> bool" for E where
  scan_end: "sc_command E (scan_cmd c) db = (Inr (page cursor_start ks), db') \<Longrightarrow>
    scan_run E c db ks db'"
| scan_more: "sc_command E (scan_cmd c) db = (Inr (page c' ks), db') \<Longrightarrow> c' \<noteq> cursor_start \<Longrightarrow>
    scan_run E c' db' ks' db'' \<Longrightarrow> scan_run E c db (ks @ ks') db''"

lemma map_filter_strings [simp]:
  "List.map_filter string_reply (map (\<lambda>k. Some (RString k)) ks) = ks"
  by (induction ks) (simp_all add: List.map_filter_simps)

lemma scan_elements_page [simp]:
  "scan_elements (page c ks) = Some (Some (RString c), Some (RArray (map (\<lambda>k. Some (RString k)) ks)))"
  by (simp add: page_def)

lemma next_cursor_string [simp]: "next_cursor (Some (RString c)) = c"
  by (simp add: next_cursor_def)

lemma fold_insert_set: "set (fold List.insert ks u) = set u \<union> set ks"
  by (induction ks arbitrary: u) auto

lemma fold_insert_distinct: "distinct u \<Longrightarrow> distinct (fold List.insert ks u)"
  by (induction ks arbitrary: u) auto

lemma insert_keys_set:
  "set (insert_keys ks u) = set u \<union> (set (reply_strings ks) - {[]})"
  by (auto simp: insert_keys_def fold_insert_set)

lemma insert_keys_distinct: "distinct u \<Longrightarrow> distinct (insert_keys ks u)"
  by (simp add: insert_keys_def fold_insert_distinct)

lemma scan_loop_run:
  assumes "scan_run E c db ks db'" and "distinct u"
  shows "\<exists>keys. scan_loop E c u db = Some (Inr keys, db') \<and> distinct keys \<and>
    set keys = set u \<union> (set ks - {[]})"
  using assms
proof (induction arbitrary: u rule: scan_run.induct)
  case (scan_end c db ks db')
  then show ?case
    by (subst scan_loop.simps) (simp add: insert_keys_set insert_keys_distinct)
next
  case (scan_more c db c' ks db' ks' db'')
  let ?u = "insert_keys (Some (RArray (map (\<lambda>k. Some (RString k)) ks))) u"
  have "distinct ?u" using scan_more.prems by (rule insert_keys_distinct)
  then obtain keys where k: "scan_loop E c' ?u db' = Some (Inr keys, db'')" "distinct keys"
      "set keys = set ?u \<union> (set ks' - {[]})"
    using scan_more.IH by blast
  have "scan_loop E c u db = scan_loop E c' ?u db'"
    using scan_more.hyps by (subst scan_loop.simps) simp
  then show ?case using k by (auto simp: insert_keys_set)
qed

lemma scan_all_keys_run:
  assumes "scan_run E cursor_start db ks db'"
  shows "\<exists>keys. scan_all_keys E db = Some (Inr keys, db') \<and> sorted keys \<and> distinct keys \<and>
    set keys = set ks - {[]}"
  using scan_loop_run [OF assms distinct.simps(1) [THEN iffD2, OF TrueI]]
  by (auto simp: scan_all_keys_def apfst_def)

text \<open>The scan of the keys ends as soon as the server ends the iteration, and returns exactly the
  non-empty keys reported on the way, sorted and each of them once, however often, in whatever order
  and on whatever pages the server reports them.\<close>

theorem snapshot_scan_complete:
  assumes "scan_run E cursor_start db ks db'"
  shows "\<exists>keys. scan_all_keys E db = Some (Inr keys, db') \<and> sorted keys \<and> distinct keys \<and>
    set keys = set ks - {[]}"
  by (rule scan_all_keys_run [OF assms])

text \<open>A server that never ends the iteration keeps the snapshot from returning.\<close>

definition endless :: "(bytes \<Rightarrow> 'db \<Rightarrow> bool) \<Rightarrow> 'db snapshot_env \<Rightarrow> bool" where
  "endless P E \<longleftrightarrow> (\<forall>c db. P c db \<longrightarrow>
    (\<exists>c' ks db'. sc_command E (scan_cmd c) db = (Inr (page c' ks), db') \<and> c' \<noteq> cursor_start \<and> P c' db'))"

lemma endlessD:
  assumes "endless P E" and "P c db"
  obtains c' ks db' where "sc_command E (scan_cmd c) db = (Inr (page c' ks), db')"
    and "c' \<noteq> cursor_start" and "P c' db'"
  using assms unfolding endless_def by blast

lemma scan_loop_returns: 
  assumes "scan_loop E c u db = Some y"
  shows "endless P E \<longrightarrow> \<not> P c db"
  using assms
proof (induction E c u db y rule: scan_loop.raw_induct [rotated, consumes 1, case_names step])
  case (step loop E c u db y)
  show ?case
  proof (intro impI notI)
    assume e: "endless P E" and "P c db"
    then obtain c' ks db' where s: "sc_command E (scan_cmd c) db = (Inr (page c' ks), db')"
      "c' \<noteq> cursor_start" "P c' db'" by (rule endlessD)
    let ?u = "insert_keys (Some (RArray (map (\<lambda>k. Some (RString k)) ks))) u"
    have "loop E c' ?u db' = Some y" using step(2) s by simp
    from step(1) [OF this] e s(3) show False by blast
  qed
qed

lemma scan_all_keys_endless: "endless P E \<Longrightarrow> P cursor_start db \<Longrightarrow> scan_all_keys E db = None"
  using scan_loop_returns [of E cursor_start "[]" db]
  by (cases "scan_loop E cursor_start [] db") (auto simp: scan_all_keys_def)

section \<open>A command that throws costs its own row\<close>

text \<open>The length of a string is at most the largest \<open>size_t\<close>, a number of 20 digits.\<close>

lemma truncate_payload_bound:
  assumes "length p < 2 ^ 64"
  shows "length (truncate_payload p) \<le> max_payload_chars + 42"
proof -
  have "length p - max_payload_chars < 10 ^ 20" using assms by simp
  then have "length (dec_of (length p - max_payload_chars)) \<le> 20" by (intro dec_of_length) simp_all
  then show ?thesis by (simp add: truncate_payload_def str_bytes_def)
qed

lemma truncate_payload_prefix: "take max_payload_chars (truncate_payload p) = take max_payload_chars p"
  by (simp add: truncate_payload_def)

text \<open>The exceptions of the commands can be caught, and the type of a key can always be read.\<close>

definition safe_io :: "('s, 'a) io \<Rightarrow> bool" where
  "safe_io m \<longleftrightarrow> (\<forall>s e s'. m s = (Inl e, s') \<longrightarrow> catchable e)"

definition catchable_env :: "'db snapshot_env \<Rightarrow> bool" where
  "catchable_env E \<longleftrightarrow>
    (\<forall>c. safe_io (sc_command E c) \<and> safe_io (sc_command_opt E c)) \<and>
    (\<forall>k. safe_io (sc_ttl E k) \<and> safe_io (sc_get E k) \<and> safe_io (sc_hgetall E k) \<and>
      safe_io (sc_smembers E k))"

definition types_readable :: "'db snapshot_env \<Rightarrow> bool" where
  "types_readable E \<longleftrightarrow> (\<forall>k db. \<exists>r db'. sc_command E [str_bytes ''TYPE'', k] db = (Inr r, db'))"

lemma safe_ioD: "safe_io m \<Longrightarrow> m s = (Inl e, s') \<Longrightarrow> catchable e"
  unfolding safe_io_def by blast

lemma safe_returnIO: "safe_io (returnIO x)"
  by (simp add: safe_io_def returnIO_def)

lemma safe_bindIO:
  assumes "safe_io m" and "\<And>x. safe_io (f x)"
  shows "safe_io (bindIO m f)"
  unfolding safe_io_def
proof (intro allI impI)
  fix s e s' assume b: "bindIO m f s = (Inl e, s')"
  obtain r t where m: "m s = (r, t)" by fastforce
  show "catchable e"
    using b m safe_ioD [OF assms(1), of s] safe_ioD [OF assms(2)] by (cases r) (auto simp: bindIO_def)
qed

lemmas safe_intros = safe_returnIO safe_bindIO

lemma read_value_safe: "catchable_env E \<Longrightarrow> safe_io (read_value E type key)"
  by (auto simp: read_value_def get_hash_def get_json_value_def catchable_env_def Let_def
      get_sorted_set_values_with_scores_def get_list_values_def intro!: safe_intros)

definition row_for :: "bytes \<Rightarrow> bytes list \<Rightarrow> bool" where
  "row_for key row \<longleftrightarrow> (\<exists>type count ttl payload. row = make_row key type count ttl payload)"

lemma snapshot_row_total:
  assumes "catchable_env E" and "types_readable E"
  shows "\<exists>row db'. snapshot_row E key db = (Inr row, db') \<and> row_for key row"
proof -
  obtain r db1 where t: "sc_command E [str_bytes ''TYPE'', key] db = (Inr r, db1)"
    using assms(2) unfolding types_readable_def by blast
  then obtain type where ty: "get_redis_key_type E key db = (Inr type, db1)"
    by (simp add: get_redis_key_type_def returnIO_def)
  obtain x db2 where l: "sc_ttl E key db1 = (x, db2)" by fastforce
  show ?thesis
  proof (cases x)
    case (Inl e)
    then have "catchable e" using l assms(1) by (auto simp: catchable_env_def dest: safe_ioD)
    then show ?thesis using ty l Inl by (auto simp: snapshot_row_def row_for_def)
  next
    case (Inr ttl)
    obtain y db3 where v: "read_value E type key db2 = (y, db3)" by fastforce
    show ?thesis
    proof (cases y)
      case (Inl e)
      then have "catchable e" using v assms(1) by (auto dest: read_value_safe safe_ioD)
      then show ?thesis using ty l Inr v Inl by (auto simp: snapshot_row_def row_for_def)
    next
      case y: (Inr z)
      then show ?thesis using ty l Inr v by (cases z) (auto simp: snapshot_row_def row_for_def)
    qed
  qed
qed

lemma push_rows_total:
  assumes "catchable_env E" and "types_readable E"
  shows "\<exists>rows' db'. push_rows E ks rows db = (Inr (), rows @ rows', db') \<and> list_all2 row_for ks rows'"
proof (induction ks arbitrary: rows db)
  case (Cons k ks)
  obtain row db1 where r: "snapshot_row E k db = (Inr row, db1)" "row_for k row"
    using snapshot_row_total [OF assms] by blast
  obtain rows' db2 where "push_rows E ks (rows @ [row]) db1 = (Inr (), (rows @ [row]) @ rows', db2)"
      "list_all2 row_for ks rows'"
    using Cons.IH by blast
  then show ?case using r by (intro exI [of _ "row # rows'"] exI [of _ db2]) simp
qed simp

text \<open>C10: when the server ends the scan and tells the type of every key, the snapshot returns, and its
  table has exactly one row for each key the scan reported other than the empty key, which the scan skips,
  in the order of the keys, whatever standard exceptions the commands throw while the times to live and
  the values are read.\<close>

theorem snapshot_one_row_per_key:
  assumes "scan_run E cursor_start db ks db'" and "catchable_env E" and "types_readable E"
  shows "\<exists>keys rows db''. get_all_rows E db = Some (Inr (), rows, db'') \<and>
    list_all2 row_for keys rows \<and> sorted keys \<and> distinct keys \<and> set keys = set ks - {[]}"
proof -
  obtain keys where k: "scan_all_keys E db = Some (Inr keys, db')" "sorted keys" "distinct keys"
      "set keys = set ks - {[]}"
    using scan_all_keys_run [OF assms(1)] by blast
  obtain rows db'' where "push_rows E keys [] db' = (Inr (), rows, db'')" "list_all2 row_for keys rows"
    using push_rows_total [OF assms(2,3), of keys "[]" db'] by auto
  then show ?thesis using k by (auto simp: get_all_rows_def)
qed

text \<open>A \<open>TYPE\<close> command that throws is not caught: the snapshot ends there and keeps the rows before it.\<close>

lemma type_error_escapes:
  assumes "sc_command E [str_bytes ''TYPE'', k] db = (Inl e, db')"
  shows "push_rows E (k # ks) rows db = (Inl e, rows, db')"
proof -
  have "snapshot_row E k db = (Inl e, db')"
    using assms by (simp add: snapshot_row_def get_redis_key_type_def bindIO_def)
  then show ?thesis by simp
qed

section \<open>A server of two pages\<close>

text \<open>Three keys on two pages, one of them reported twice; the value of the second cannot be read.\<close>

definition demo_pages :: "unit snapshot_env" where
  "demo_pages = \<lparr>
    sc_command = (\<lambda>c db.
      (if c = scan_cmd [48] then Inr (page [55] [[98], [97], []])
       else if c = scan_cmd [55] then Inr (page [48] [[99], [98]])
       else Inr (Some (RStatus (str_bytes ''string''))), db)),
    sc_command_opt = (\<lambda>c db. (Inr None, db)),
    sc_ttl = (\<lambda>k db. (Inr (- 1), db)),
    sc_get = (\<lambda>k db. (if k = [98] then Inl (RuntimeError ''WRONGTYPE'') else Inr (Some k), db)),
    sc_hgetall = (\<lambda>k db. (Inr [], db)),
    sc_smembers = (\<lambda>k db. (Inr [], db)),
    sc_what = (\<lambda>e. Some (str_bytes ''WRONGTYPE'')) \<rparr>"

lemma scan_cmd_eq [simp]: "scan_cmd a = scan_cmd b \<longleftrightarrow> a = b"
  by (simp add: scan_cmd_def)

lemma scan_cmd_type [simp]: "[str_bytes ''TYPE'', k] \<noteq> scan_cmd c"
  by (simp add: scan_cmd_def)

lemma demo_scan: "scan_run demo_pages cursor_start () ([[98], [97], []] @ [[99], [98]]) ()"
proof (rule scan_more [where c' = "[55]" and db' = "()"])
  show "scan_run demo_pages [55] () [[99], [98]] ()"
    by (rule scan_end) (simp add: demo_pages_def cursor_start_def)
qed (simp_all add: demo_pages_def cursor_start_def)

lemma demo_pages_ok: "catchable_env demo_pages" "types_readable demo_pages"
  by (simp_all add: catchable_env_def types_readable_def safe_io_def demo_pages_def)

theorem snapshot_scan_complete_witness:
  "\<exists>keys. scan_all_keys demo_pages () = Some (Inr keys, ()) \<and> sorted keys \<and> distinct keys \<and>
    set keys = set ([[98], [97], []] @ [[99], [98]]) - {[]}"
  by (rule snapshot_scan_complete [OF demo_scan])

theorem snapshot_one_row_per_key_witness:
  "\<exists>keys rows db''. get_all_rows demo_pages () = Some (Inr (), rows, db'') \<and>
    list_all2 row_for keys rows \<and> sorted keys \<and> distinct keys \<and>
    set keys = set ([[98], [97], []] @ [[99], [98]]) - {[]}"
  by (rule snapshot_one_row_per_key [OF demo_scan demo_pages_ok])

end
