(* ===== verification/Interlink_Delivery.thy ===== *)
theory Interlink_Delivery
  imports Interlink Server_Registry
begin

text \<open>
  What the connection table guarantees: packets are sent or kept for their target and delivered in
  order once it is connected, the handles of the connections stay apart, and what happens when a
  second connection to the same target appears.
\<close>

section \<open>Lookups after updates\<close>

lemma find_update_same:
  "find P xs = Some x \<Longrightarrow> P (f x) \<Longrightarrow> find P (update_first P f xs) = Some (f x)"
  by (induction xs) (auto split: if_splits)

text \<open>An element that is the first for two conditions is the one updated.\<close>

lemma find_update_other:
  assumes "find P xs = Some x" and "find Q xs = Some x" and "Q (f x)"
  shows "find Q (update_first P f xs) = Some (f x)"
proof -
  have "P x" using assms(1) by (auto simp: find_Some_iff)
  with assms show ?thesis by (induction xs) (auto split: if_splits)
qed

lemma find_update_before:
  assumes "find Q xs = Some y" and "\<not> P y" and "\<And>x. Q (f x) = Q x"
  shows "find Q (update_first P f xs) = Some y"
  using assms by (induction xs) (auto split: if_splits)

lemma has_target_state [simp]:
  "has_target E n (set_new_state st c) = has_target E n c"
  "has_handle h (set_new_state st c) = has_handle h c"
  "con_target (set_new_state st c) = con_target c"
  "con_state (set_new_state st c) = st"
  "con_handle (set_new_state st c) = con_handle c"
  "con_address (set_new_state st c) = con_address c"
  by (simp_all add: has_target_def has_handle_def set_new_state_def)

lemma emit_simps [simp]:
  "il_connections (emit e s) = il_connections s" "il_queued (emit e s) = il_queued s"
  "il_init (emit e s) = il_init s" "il_effects (emit e s) = il_effects s @ [e]"
  "find_target E n (emit e s) = find_target E n s" "find_handle h (emit e s) = find_handle h s"
  "il_refused (emit e s) = il_refused s"
  by (simp_all add: emit_def find_target_def find_handle_def)

lemma hand_over_simps [simp]:
  "il_connections (hand_over E h bs flag s) = il_connections s" "il_queued (hand_over E h bs flag s) = il_queued s"
  "il_init (hand_over E h bs flag s) = il_init s"
  "il_effects (hand_over E h bs flag s) = il_effects s @ [Send_To h bs flag]"
  "find_target E n (hand_over E h bs flag s) = find_target E n s"
  "find_handle k (hand_over E h bs flag s) = find_handle k s"
  "il_refused (hand_over E h bs flag s) =
    il_refused s @ (if ie_send E (il_effects s) h bs flag then [] else [(h, bs)])"
  by (simp_all add: hand_over_def Let_def find_target_def find_handle_def)

lemma set_update_first:
  "set (update_first P f xs) \<subseteq> set xs \<union> f ` set xs"
  by (induction xs) auto

lemma modify_simps [simp]:
  "il_queued (modify_handle h f s) = il_queued s" "il_init (modify_handle h f s) = il_init s"
  "il_effects (modify_handle h f s) = il_effects s"
  by (simp_all add: modify_handle_def)

section \<open>Sending and flushing\<close>

text \<open>A packet that can be sent, and the bytes it is sent as.\<close>

definition sendable :: "packet \<Rightarrow> bool" where
  "sendable p \<longleftrightarrow> packet_validate p \<and> (\<exists>w. packet_ser p bw_new = Inr w)"

definition packet_bytes :: "packet \<Rightarrow> bytes" where
  "packet_bytes p = (case packet_ser p bw_new of Inl e \<Rightarrow> [] | Inr w \<Rightarrow> bw_bytes w)"

lemma send_connected:
  assumes "il_init s" and "sendable p" and "find_target E who s = Some c" and "con_state c = C_Connected"
  shows "send_message E who p flag s = Inr ((), hand_over E (con_handle c) (packet_bytes p) flag s)"
  using assms by (auto simp: send_message_def sendable_def packet_bytes_def)

lemma flush_loop_sends:
  assumes "il_init s" and "\<forall>m\<in>set ms. sendable (fst m)" and "find_target E who s = Some c"
    and "con_state c = C_Connected" and "length (queue_of E who (il_queued s)) = n"
  shows "\<exists>s'. flush_loop E who ms n s = Inr ((), s') \<and> il_connections s' = il_connections s \<and>
    il_queued s' = il_queued s \<and>
    il_effects s' = il_effects s @ map (\<lambda>(p, flag). Send_To (con_handle c) (packet_bytes p) flag) ms"
  using assms
proof (induction ms arbitrary: s)
  case (Cons m ms)
  obtain p flag where m: "m = (p, flag)" by (cases m)
  let ?s = "hand_over E (con_handle c) (packet_bytes p) flag s"
  have "send_message E who p flag s = Inr ((), ?s)"
    using Cons.prems m by (intro send_connected) simp_all
  moreover obtain s' where "flush_loop E who ms n ?s = Inr ((), s')" "il_connections s' = il_connections s"
      "il_queued s' = il_queued s" "il_effects s' = il_effects s @
        Send_To (con_handle c) (packet_bytes p) flag #
          map (\<lambda>(p, flag). Send_To (con_handle c) (packet_bytes p) flag) ms"
    using Cons.IH [of ?s] Cons.prems by auto
  ultimately show ?case using Cons.prems(5) by (intro exI [of _ s']) (simp add: m)
qed simp

lemma queue_of_push:
  "queue_of E who (queue_push E who m q) = queue_of E who q @ [m]"
proof (cases "find (queue_key E who) q")
  case None
  then have "find (queue_key E who) (q @ [(who, [m])]) = Some (who, [m])"
    by (induction q) (auto simp: queue_key_def split: if_splits)
  then show ?thesis using None by (simp add: queue_of_def queue_push_def)
next
  case (Some e)
  have "queue_key E who e" using Some by (simp add: find_Some_iff) metis
  then have "queue_key E who (fst e, snd e @ [m])" by (simp add: queue_key_def)
  with find_update_same [OF Some, of "\<lambda>e. (fst e, snd e @ [m])"]
  show ?thesis using Some by (simp add: queue_of_def queue_push_def)
qed

section \<open>Properties\<close>

text \<open>The handle on which a packet for \<open>who\<close> goes out at once.\<close>

definition connected_handle :: "'a il_env \<Rightarrow> network_identity \<Rightarrow> 'a interlink \<Rightarrow> u32 option" where
  "connected_handle E who s =
    (case find_target E who s of
       None \<Rightarrow> None
     | Some c \<Rightarrow> if con_state c = C_Connected then Some (con_handle c) else None)"

text \<open>C23: sending a packet that validates and can be serialised, on an initialised server node. If the
  connection to the target is connected, the bytes of the packet are handed to the library once, on the
  handle of that connection, and nothing is queued; should the library refuse them, the packet is lost
  with a line in the log. If there is no connection or it is in any other state, the packet becomes the
  last one queued for the target, nothing is handed to the library, and no connection is lost.\<close>

theorem packet_sent_or_queued:
  assumes "il_init s" and "sendable p" and "nid_type (ie_self E) \<noteq> nt_game_client"
  shows "\<exists>s'. send_message E who p flag s = Inr ((), s') \<and>
    (case connected_handle E who s of
       Some h \<Rightarrow> il_effects s' = il_effects s @ [Send_To h (packet_bytes p) flag] \<and>
         il_queued s' = il_queued s \<and> il_connections s' = il_connections s \<and>
         il_refused s' = il_refused s @
           (if ie_send E (il_effects s) h (packet_bytes p) flag then [] else [(h, packet_bytes p)])
     | None \<Rightarrow> il_effects s' = il_effects s \<and> il_refused s' = il_refused s \<and>
         queue_of E who (il_queued s') = queue_of E who (il_queued s) @ [(p, flag)] \<and>
         (\<exists>cs. il_connections s' = il_connections s @ cs))"
proof (cases "\<exists>c. find_target E who s = Some c \<and> con_state c = C_Connected")
  case True
  then obtain c where c: "find_target E who s = Some c" "con_state c = C_Connected" by blast
  then show ?thesis using send_connected [OF assms(1,2) c] by (simp add: connected_handle_def)
next
  case False
  then have n: "connected_handle E who s = None" by (auto simp: connected_handle_def split: option.split)
  have v: "packet_validate p" using assms(2) by (simp add: sendable_def)
  have est: "\<exists>r s'. establish_connection_to E who s = Inr (r, s') \<and> il_effects s' = il_effects s \<and>
      il_refused s' = il_refused s \<and> il_queued s' = il_queued s \<and>
      (\<exists>cs. il_connections s' = il_connections s @ cs)"
    using assms(3)
    by (auto simp: establish_connection_to_def insert_connection_def split: option.split)
  then obtain r s1 where s1: "establish_connection_to E who s = Inr (r, s1)" "il_effects s1 = il_effects s"
    "il_refused s1 = il_refused s" "il_queued s1 = il_queued s" "\<exists>cs. il_connections s1 = il_connections s @ cs"
    by blast
  show ?thesis
  proof (cases "find_target E who s")
    case None
    then show ?thesis
      using s1 by (auto simp: n send_message_def assms(1) v queue_message_def queue_of_push)
  next
    case (Some c)
    then have "con_state c \<noteq> C_Connected" using False by blast
    then show ?thesis
      using s1 Some by (auto simp: n send_message_def assms(1) v queue_message_def queue_of_push)
  qed
qed

text \<open>C22: when the connection to a node comes up, everything queued for the node is handed to the library
  on it, in the order in which it was queued and each packet once, and the queue is emptied.\<close>

theorem connected_delivers_queue:
  assumes "il_init s" and "find_handle (cb_handle info) s = Some c" and "con_is_internal c"
    and "find_target E (con_target c) s = Some c"
    and "\<forall>m\<in>set (queue_of E (con_target c) (il_queued s)). sendable (fst m)"
  shows "\<exists>s'. callback_on_connected E info s = Inr ((), s') \<and>
    il_effects s' = il_effects s @ Set_Poll_Group (cb_handle info) #
      map (\<lambda>(p, flag). Send_To (cb_handle info) (packet_bytes p) flag) (queue_of E (con_target c) (il_queued s)) \<and>
    il_queued s' = (if queue_of E (con_target c) (il_queued s) = [] then il_queued s
      else queue_erase E (con_target c) (il_queued s)) \<and>
    find_handle (cb_handle info) s' = Some (set_new_state C_Connected c)"
proof -
  let ?h = "cb_handle info" and ?who = "con_target c" and ?v = "set_new_state C_Connected c"
  let ?s = "emit (Set_Poll_Group ?h) (modify_handle ?h (set_new_state C_Connected) s)"
  let ?ms = "queue_of E ?who (il_queued s)"
  have "has_handle ?h c" using assms(2) by (auto simp: find_handle_def find_Some_iff)
  then have h: "con_handle c = ?h" by (simp add: has_handle_def)
  have fh: "find_handle ?h ?s = Some ?v"
    using find_update_same [OF assms(2) [unfolded find_handle_def], of "set_new_state C_Connected"] h
    by (simp add: find_handle_def modify_handle_def has_handle_def)
  have ft: "find_target E ?who ?s = Some ?v"
    using find_update_other [OF assms(2) [unfolded find_handle_def] assms(4) [unfolded find_target_def],
        of "set_new_state C_Connected"]
    by (simp add: find_target_def modify_handle_def) (simp add: has_target_def)
  have i: "con_is_internal ?v" using assms(3) by (simp add: con_is_internal_def)
  have q: "il_queued ?s = il_queued s" "il_init ?s" using assms(1) by (simp_all add: modify_handle_def)
  have run: "callback_on_connected E info s = flush_queued E ?who ?s"
    using i fh by (simp add: callback_on_connected_def assms(2) Let_def)
  show ?thesis
  proof (cases "?ms = []")
    case True
    then have "flush_queued E ?who ?s = Inr ((), ?s)" by (simp add: flush_queued_def)
    then show ?thesis using run True fh by (simp add: modify_handle_def)
  next
    case False
    have st: "con_state ?v = C_Connected" and len: "length (queue_of E ?who (il_queued ?s)) = length ?ms" by simp_all
    obtain s1 where s1: "flush_loop E ?who ?ms (length ?ms) ?s = Inr ((), s1)"
        "il_connections s1 = il_connections ?s" "il_queued s1 = il_queued ?s"
        "il_effects s1 = il_effects ?s @ map (\<lambda>(p, flag). Send_To (con_handle ?v) (packet_bytes p) flag) ?ms"
      using flush_loop_sends [OF q(2) assms(5) ft st len] by blast
    let ?t = "s1 \<lparr> il_queued := queue_erase E ?who (il_queued s) \<rparr>"
    have "flush_queued E ?who ?s = Inr ((), ?t)"
      using False s1 by (simp add: flush_queued_def q Let_def)
    moreover have "find_handle ?h ?t = find_handle ?h ?s" using s1(2) by (simp add: find_handle_def)
    ultimately show ?thesis
      using run False fh s1(4) by (intro exI [of _ ?t]) (simp add: h)
  qed
qed

text \<open>When a node that already has a connection in progress opens a second one and the second one
  comes up first, a queued packet makes the delivery loop grow the vector it runs over: the behaviour
  is undefined. (The sources say of this situation that it causes a crash.)\<close>

theorem duplicate_connection_undefined:
  assumes "il_init s" and "find_handle (cb_handle info) s = Some c" and "con_is_internal c"
    and "find_target E (con_target c) s = Some d" and "con_handle d \<noteq> cb_handle info"
    and "con_state d = C_Pre_Connecting \<or> con_state d = C_Connecting"
    and "queue_of E (con_target c) (il_queued s) = (p, flag) # ms" and "packet_validate p"
  shows "callback_on_connected E info s = Inl (UB Out_Of_Bounds)"
proof -
  let ?h = "cb_handle info" and ?who = "con_target c" and ?v = "set_new_state C_Connected c"
  let ?s = "emit (Set_Poll_Group ?h) (modify_handle ?h (set_new_state C_Connected) s)"
  have "has_handle ?h c" using assms(2) by (auto simp: find_handle_def find_Some_iff)
  then have h: "con_handle c = ?h" by (simp add: has_handle_def)
  have fh: "find_handle ?h ?s = Some ?v"
    using find_update_same [OF assms(2) [unfolded find_handle_def], of "set_new_state C_Connected"] h
    by (simp add: find_handle_def modify_handle_def has_handle_def)
  have ft: "find_target E ?who ?s = Some d"
    using find_update_before [OF assms(4) [unfolded find_target_def], of "has_handle ?h" "set_new_state C_Connected"]
      assms(5) by (simp add: find_target_def modify_handle_def has_handle_def)
  have "con_is_internal ?v" using assms(3) by (simp add: con_is_internal_def)
  then have "callback_on_connected E info s = flush_queued E ?who ?s"
    using fh by (simp add: callback_on_connected_def assms(2) Let_def)
  moreover have "send_message E ?who p flag ?s = queue_message E ?who p flag ?s"
    using ft assms(1,6,8) by (auto simp: send_message_def)
  ultimately show ?thesis
    using assms(7) by (simp add: flush_queued_def queue_message_def queue_of_push bindS_def)
qed

definition il_start :: "'a interlink" where
  "il_start = \<lparr> il_connections = [], il_queued = [], il_init = False, il_effects = [], il_refused = [] \<rparr>"

text \<open>A node of type shard, a packet, and the table of a node that knows two connections to the shard.\<close>

definition demo_il_env :: "unit il_env" where
  "demo_il_env = \<lparr> ie_self = make_id_watchdog, ie_uuid_str = demo_printer, ie_lookup = (\<lambda>_ _ _. Some ()),
     ie_connect = (\<lambda>log _. of_nat (length log + 1)), ie_accept = (\<lambda>_ _. True), ie_gen = (\<lambda>_. replicate 16 1),
     ie_registry = packet_registry, ie_gns_ok = True, ie_identity_ok = True, ie_listen_ok = True,
     ie_own_ip = (), ie_no_ip = (), ie_send = (\<lambda>_ _ _ _. True), ie_uninit = (\<lambda>_ _. 0),
     ie_by_state = (\<lambda>_ cs. cs) \<rparr>"

definition demo_packet :: packet where
  "demo_packet = Packet tid_client_id_assign (Client_ID_Assign (make_id_game_client (replicate 16 1)))"

definition demo_con :: "connection_state \<Rightarrow> u32 \<Rightarrow> unit connection" where
  "demo_con st h = (con_new () 0 \<lparr> con_target := make_id_cartograph, con_state := st, con_handle := h \<rparr>)"

definition demo_il :: "unit connection list \<Rightarrow> unit interlink" where
  "demo_il cs = \<lparr> il_connections = cs, il_queued = [(make_id_cartograph, [(demo_packet, 8)])],
     il_init = True, il_effects = [], il_refused = [] \<rparr>"

definition demo_info :: "unit cb_info" where
  "demo_info = \<lparr> cb_handle = 5, cb_address = (), cb_bytes = None \<rparr>"

lemma demo_packet_ok: "sendable demo_packet" "packet_validate demo_packet"
proof -
  show "packet_validate demo_packet"
    by (simp add: demo_packet_def make_id_game_client_def uuid_is_nil_def list_all_iff type_ids)
  then show "sendable demo_packet" by (simp add: sendable_def demo_packet_def)
qed

lemma demo_lookups:
  "find_handle 5 (demo_il [demo_con st 5]) = Some (demo_con st 5)"
  "find_handle 5 (demo_il [demo_con st 4, demo_con st' 5]) = Some (demo_con st' 5)"
  "find_target demo_il_env make_id_cartograph (demo_il [demo_con st h]) = Some (demo_con st h)"
  "find_target demo_il_env make_id_cartograph (demo_il [demo_con st h, c]) = Some (demo_con st h)"
  "queue_of demo_il_env make_id_cartograph (il_queued (demo_il cs)) = [(demo_packet, 8)]"
  "con_is_internal (demo_con st h)" "il_init (demo_il cs)" "il_effects (demo_il cs) = []" "con_target (demo_con st h) = make_id_cartograph"
  by (simp_all add: find_handle_def find_target_def demo_il_def demo_con_def has_handle_def has_target_def
      con_new_def con_is_internal_def nid_is_internal_def make_id_cartograph_def nt_defs queue_of_def
      queue_key_def)

theorem duplicate_connection_undefined_witness:
  "callback_on_connected demo_il_env demo_info (demo_il [demo_con C_Pre_Connecting 4, demo_con C_Connecting 5]) =
    Inl (UB Out_Of_Bounds)"
  by (rule duplicate_connection_undefined [where c = "demo_con C_Connecting 5" and d = "demo_con C_Pre_Connecting 4"
        and p = demo_packet and flag = 8 and ms = "[]"])
     (simp_all add: demo_lookups demo_info_def demo_packet_ok, simp_all add: demo_con_def)

theorem connected_delivers_queue_witness:
  "\<exists>s'. callback_on_connected demo_il_env demo_info (demo_il [demo_con C_Connecting 5]) = Inr ((), s') \<and>
    il_effects s' = [Set_Poll_Group 5, Send_To 5 (packet_bytes demo_packet) 8]"
  using connected_delivers_queue [of "demo_il [demo_con C_Connecting 5]" demo_info "demo_con C_Connecting 5" demo_il_env]
  by (auto simp: demo_lookups demo_info_def demo_packet_ok)

theorem packet_sent_or_queued_witness:
  "(\<exists>s'. send_message demo_il_env make_id_cartograph demo_packet 8 (demo_il [demo_con C_Connecting 5]) = Inr ((), s') \<and>
    il_effects s' = [] \<and> queue_of demo_il_env make_id_cartograph (il_queued s') = [(demo_packet, 8), (demo_packet, 8)]) \<and>
   (\<exists>s'. send_message demo_il_env make_id_cartograph demo_packet 8 (demo_il [demo_con C_Connected 5]) = Inr ((), s') \<and>
    il_effects s' = [Send_To 5 (packet_bytes demo_packet) 8] \<and>
    il_queued s' = il_queued (demo_il [demo_con C_Connected 5]))"
proof -
  have "nid_type (ie_self demo_il_env) \<noteq> nt_game_client"
    by (simp add: demo_il_env_def make_id_watchdog_def nt_defs)
  note r = packet_sent_or_queued [OF demo_lookups(7) demo_packet_ok(1) this, where who = make_id_cartograph and flag = 8]
  note r = r [of "[demo_con C_Connecting 5]"] r [of "[demo_con C_Connected 5]"]
  have "con_state (demo_con st 5) = st" "con_handle (demo_con st 5) = 5" for st
    by (simp_all add: demo_con_def)
  then have h: "connected_handle demo_il_env make_id_cartograph (demo_il [demo_con C_Connecting 5]) = None"
    "connected_handle demo_il_env make_id_cartograph (demo_il [demo_con C_Connected 5]) = Some 5"
    by (simp_all add: connected_handle_def demo_lookups)
  show ?thesis
    using r by (auto simp: h demo_lookups)
qed

lemma find_update_new:
  "find P xs = Some x \<Longrightarrow> \<forall>y\<in>set xs. \<not> Q y \<Longrightarrow> Q (f x) \<Longrightarrow> find Q (update_first P f xs) = Some (f x)"
  by (induction xs) (auto split: if_splits)

text \<open>The callback for a client without an identity.\<close>

lemma identity_assigned:
  assumes "il_init s" and "find_handle (cb_handle info) s = Some c" and "con_target c = make_id_game_client nil_uuid"
    and "n = make_id_game_client (ie_gen E (il_effects s @ [Set_Poll_Group (cb_handle info)]))"
    and "\<not> uuid_is_nil (nid_id n)" and "\<forall>d\<in>set (il_connections s). \<not> has_target E n d"
    and "queue_of E n (il_queued s) = []"
  shows "if nid_type (ie_self E) \<noteq> nt_proxy
    then callback_on_connected E info s = Inl (AssertFail ''Proxy must be proxy type'')
    else \<exists>s'. callback_on_connected E info s = Inr ((), s') \<and>
      find_handle (cb_handle info) s' = Some (set_new_state C_Connected c \<lparr> con_target := n \<rparr>) \<and>
      il_effects s' = il_effects s @
        [Set_Poll_Group (cb_handle info),
         Send_To (cb_handle info) (packet_bytes (Packet tid_client_id_assign (Client_ID_Assign n))) flag_reliable_now,
         Register_Client \<lparr> cl_ip = con_address c, cl_id = nid_id n \<rparr>,
         Assign_Proxy (nid_id n) (ie_self E),
         Client_Connected \<lparr> cl_ip = con_address c, cl_id = nid_id n \<rparr> (ie_self E),
         Handshake \<lparr> cl_ip = con_address c, cl_id = nid_id n \<rparr>]"
proof -
  let ?h = "cb_handle info" and ?v = "set_new_state C_Connected c"
  let ?s = "emit (Set_Poll_Group ?h) (modify_handle ?h (set_new_state C_Connected) s)"
  let ?c = "?v \<lparr> con_target := n \<rparr>" and ?p = "Packet tid_client_id_assign (Client_ID_Assign n)"
  let ?s' = "modify_handle ?h (\<lambda>c. c \<lparr> con_target := n \<rparr>) ?s"
  have "has_handle ?h c" using assms(2) by (auto simp: find_handle_def find_Some_iff)
  then have h: "con_handle c = ?h" by (simp add: has_handle_def)
  have fh: "find_handle ?h ?s = Some ?v"
    using find_update_same [OF assms(2) [unfolded find_handle_def], of "set_new_state C_Connected"] h
    by (simp add: find_handle_def modify_handle_def has_handle_def)
  have fh': "find_handle ?h ?s' = Some ?c"
    using find_update_same [OF fh [unfolded find_handle_def], of "\<lambda>c. c \<lparr> con_target := n \<rparr>"] h
    by (simp add: find_handle_def modify_handle_def has_handle_def)
  have new: "\<forall>d\<in>set (update_first P (set_new_state C_Connected) (il_connections s)). \<not> has_target E n d" for P
    using assms(6) set_update_first [of P "set_new_state C_Connected" "il_connections s"] by auto
  have ft: "find_target E n ?s' = Some ?c"
    using find_update_new [OF fh [unfolded find_handle_def], of "has_target E n" "\<lambda>c. c \<lparr> con_target := n \<rparr>"] new
    by (simp add: find_target_def modify_handle_def has_target_def)
  have p: "sendable ?p" using assms(5) by (simp add: sendable_def type_ids)
  have snd: "send_message E n ?p flag_reliable_now ?s' =
      Inr ((), hand_over E ?h (packet_bytes ?p) flag_reliable_now ?s')"
    using send_connected [OF _ p ft, of flag_reliable_now] assms(1) h by simp
  have ext: "\<not> con_is_internal ?v" "uuid_is_nil (nid_id (con_target ?v))" "nid_type (con_target ?v) = nt_game_client"
    using assms(3) by (simp_all add: con_is_internal_def nid_is_internal_def make_id_game_client_def
        uuid_is_nil_def nil_uuid_def list_all_iff)
  have n: "(con_target ?v) \<lparr> nid_id := ie_gen E (il_effects ?s) \<rparr> = n"
    using assms(3,4) by (simp add: make_id_game_client_def)
  have uid: "ie_gen E (il_effects s @ [Set_Poll_Group ?h]) = nid_id n"
    using assms(4) by (simp add: make_id_game_client_def)
  show ?thesis
  proof (cases "nid_type (ie_self E) = nt_proxy")
    case False
    then show ?thesis
      using ext snd n h
      by (simp add: callback_on_connected_def assms(2) Let_def on_client_connected_def)
  next
    case True
    then show ?thesis
      using ext snd n h fh' assms(7) uid
      by (simp add: callback_on_connected_def assms(2) Let_def on_client_connected_def flush_queued_def)
  qed
qed

text \<open>When a client without an identity connects to a proxy, it is given a new identity, and told
  so before anything else; then it is registered, assigned to the proxy and announced, in this order.
  On a node that is no proxy the same callback fails an assertion.\<close>

theorem client_gets_identity:
  assumes "il_init s" and "find_handle (cb_handle info) s = Some c" and "con_target c = make_id_game_client nil_uuid"
    and "n = make_id_game_client (ie_gen E (il_effects s @ [Set_Poll_Group (cb_handle info)]))"
    and "\<not> uuid_is_nil (nid_id n)" and "\<forall>d\<in>set (il_connections s). \<not> has_target E n d"
    and "queue_of E n (il_queued s) = []"
  shows "if nid_type (ie_self E) \<noteq> nt_proxy
    then callback_on_connected E info s = Inl (AssertFail ''Proxy must be proxy type'')
    else \<exists>s'. callback_on_connected E info s = Inr ((), s') \<and>
      find_handle (cb_handle info) s' = Some (set_new_state C_Connected c \<lparr> con_target := n \<rparr>) \<and>
      il_effects s' = il_effects s @
        [Set_Poll_Group (cb_handle info),
         Send_To (cb_handle info) (packet_bytes (Packet tid_client_id_assign (Client_ID_Assign n))) flag_reliable_now,
         Register_Client \<lparr> cl_ip = con_address c, cl_id = nid_id n \<rparr>,
         Assign_Proxy (nid_id n) (ie_self E),
         Client_Connected \<lparr> cl_ip = con_address c, cl_id = nid_id n \<rparr> (ie_self E),
         Handshake \<lparr> cl_ip = con_address c, cl_id = nid_id n \<rparr>]"
  by (rule identity_assigned [OF assms])

theorem client_gets_identity_witness:
  "callback_on_connected demo_il_env demo_info (demo_il [demo_con C_Connecting 5 \<lparr> con_target := make_id_game_client nil_uuid \<rparr>]) =
    Inl (AssertFail ''Proxy must be proxy type'')"
proof -
  let ?c = "demo_con C_Connecting 5 \<lparr> con_target := make_id_game_client nil_uuid \<rparr>"
  let ?n = "make_id_game_client (replicate 16 1)"
  have eq: "nid_eq demo_printer a b \<longleftrightarrow> a = b" if "nid_ok a" "nid_ok b" "nt_known (nid_type a)" for a b
    using nid_eq_known [OF demo_printer_ok that] .
  have ok: "nid_ok (make_id_game_client nil_uuid)" "nid_ok ?n" "nid_ok make_id_cartograph"
    "nt_known nt_game_client" "nt_known nt_cartograph"
    by (simp_all add: nid_ok_def make_id_game_client_def make_id_cartograph_def nil_uuid_def nt_known_def)
  have "\<not> has_target demo_il_env ?n ?c" "queue_of demo_il_env ?n (il_queued (demo_il [?c])) = []"
    using eq [OF ok(1,2)] eq [OF ok(3,2)] ok(4,5)
    by (simp_all add: has_target_def demo_il_env_def demo_il_def queue_of_def queue_key_def
        make_id_game_client_def make_id_cartograph_def nil_uuid_def nt_defs numeral_eq_Suc)
  moreover have "\<not> uuid_is_nil (nid_id ?n)" "find_handle 5 (demo_il [?c]) = Some ?c"
    by (simp_all add: uuid_is_nil_def make_id_game_client_def list_all_iff find_handle_def demo_il_def
        has_handle_def demo_con_def)
  moreover have "nid_type (ie_self demo_il_env) \<noteq> nt_proxy"
    by (simp add: demo_il_env_def make_id_watchdog_def nt_defs)
  moreover have "?n = make_id_game_client (ie_gen demo_il_env (il_effects (demo_il [?c]) @ [Set_Poll_Group (cb_handle demo_info)]))"
    by (simp add: demo_il_env_def)
  ultimately show ?thesis
    using client_gets_identity [OF demo_lookups(7), of demo_info "[?c]" ?c ?n demo_il_env]
    by (auto simp: demo_il_def demo_info_def)
qed

text \<open>A peer that presents no identity is accepted and counts as internal, and so is a peer that
  claims to be any internal node, registered or not. (The sources mean to treat both as external.)\<close>

theorem unknown_peer_is_internal:
  assumes "find_handle (cb_handle info) s = None" and "ie_accept E (il_effects s) (cb_handle info)"
    and "cb_bytes info = None \<and> n = nid_new \<or>
      nid_ok n \<and> nid_type n \<noteq> nt_game_client \<and> cb_bytes info = Some (nid_key n)"
  shows "\<exists>s' c. callback_on_connecting E info s = Inr ((), s') \<and>
    il_connections s' = il_connections s @ [c] \<and> con_handle c = cb_handle info \<and>
    con_target c = n \<and> con_kind c = K_Internal \<and> con_is_internal c \<and> con_state c = C_Connecting"
  using assms(3)
proof
  assume "cb_bytes info = None \<and> n = nid_new"
  then show ?thesis
    using assms(1,2)
    by (auto simp: callback_on_connecting_def Let_def insert_connection_def set_new_state_def con_new_def
        con_is_internal_def nid_is_internal_def nid_new_def nt_defs)
next
  assume n: "nid_ok n \<and> nid_type n \<noteq> nt_game_client \<and> cb_bytes info = Some (nid_key n)"
  then obtain r where "nid_des (br_new (nid_key n)) = Inr (n, r)" using nid_key_des by blast
  then show ?thesis
    using assms(1,2) n
    by (auto simp: callback_on_connecting_def Let_def insert_connection_def set_new_state_def con_new_def
        con_is_internal_def nid_is_internal_def)
qed

theorem unknown_peer_is_internal_witness:
  "\<exists>s' c. callback_on_connecting demo_il_env demo_info il_start = Inr ((), s') \<and>
    il_connections s' = [c] \<and> con_kind c = K_Internal \<and> con_target c = nid_new"
  using unknown_peer_is_internal [of demo_info il_start demo_il_env nid_new]
  by (auto simp: demo_info_def il_start_def find_handle_def demo_il_env_def)

end
