(* ===== verification/Client_Link.thy ===== *)
theory Client_Link
  imports Interlink_Delivery
begin

text \<open>
  The connection of a game client to the proxies (\<open>Client/ClientLink.cpp\<close>). As for the interlink, what
  the socket library answers is a parameter and what the program asks of it is a list of effects; the
  table of connections is a list in the order of insertion.
\<close>

section \<open>State\<close>

datatype 'a link_effect =
    Link_Identity bytes
  | Link_Connect 'a u32
  | Link_Poll_Group u32
  | Link_Dispatch packet network_identity
  | Link_Release

record 'a client_link =
  lk_connections :: "'a connection list"
  lk_ticking :: bool
  lk_effects :: "'a link_effect list"

record 'a link_env =
  le_gns_ok :: bool
  le_identity_ok :: bool
  le_connect :: "'a link_effect list \<Rightarrow> 'a \<Rightarrow> u32"
  le_registry :: registry

definition link_new :: "'a client_link" where
  "link_new = \<lparr> lk_connections = [], lk_ticking = False, lk_effects = [] \<rparr>"

definition link_emit :: "'a link_effect \<Rightarrow> 'a client_link \<Rightarrow> 'a client_link" where
  "link_emit e l = l \<lparr> lk_effects := lk_effects l @ [e] \<rparr>"

definition link_find :: "u32 \<Rightarrow> 'a client_link \<Rightarrow> 'a connection option" where
  "link_find h l = find (has_handle h) (lk_connections l)"

section \<open>Operations\<close>

definition link_init_gns :: "'a link_env \<Rightarrow> unit res" where
  "link_init_gns E = (if le_gns_ok E then Inr () else Inl (RuntimeError ''fcukc''))"

text \<open>The client presents itself as a game client without an id; \<open>Init\<close> ends with the tick thread.\<close>

definition link_identity :: bytes where
  "link_identity = bw_bytes (nid_ser (make_id_game_client nil_uuid) bw_new)"

definition link_init :: "'a link_env \<Rightarrow> ('a client_link, unit) stm" where
  "link_init E = (\<lambda>l.
    bindE (link_init_gns E) (\<lambda>_.
      if \<not> le_identity_ok E then Inl (AssertFail ''Failed Identity set'')
      else Inr ((), (link_emit (Link_Identity link_identity) l) \<lparr> lk_ticking := True \<rparr>)))"

text \<open>The handle is stored whether or not the library could connect.\<close>

definition initial_identity :: network_identity where
  "initial_identity = \<lparr> nid_type = nt_atlasnet_initial, nid_id = nil_uuid \<rparr>"

definition connect_to_atlasnet :: "'a link_env \<Rightarrow> 'a \<Rightarrow> 'a client_link \<Rightarrow> 'a client_link" where
  "connect_to_atlasnet E a l =
    (let h = le_connect E (lk_effects l) a;
         l = link_emit (Link_Poll_Group h) (link_emit (Link_Connect a h) l);
         c = set_new_state C_Connecting (con_new a h) \<lparr> con_target := initial_identity \<rparr>
     in l \<lparr> lk_connections := lk_connections l @ [c] \<rparr>)"

definition link_on_connected :: "'a cb_info \<Rightarrow> ('a client_link, unit) stm" where
  "link_on_connected info = (\<lambda>l.
    case link_find (cb_handle info) l of
      None \<Rightarrow> Inl (AssertFail ''Invalid connection?'')
    | Some _ \<Rightarrow>
        (case cb_bytes info of
           None \<Rightarrow> Inl (AssertFail ''Connection with no identity?'')
         | Some bs \<Rightarrow>
             bindE (nid_des (br_new bs)) (\<lambda>(n, _).
               Inr ((), l \<lparr> lk_connections := update_first (has_handle (cb_handle info))
                 (\<lambda>c. set_new_state C_Connected c \<lparr> con_target := n \<rparr>) (lk_connections l) \<rparr>))))"

text \<open>Every other state of the library is only logged.\<close>

fun link_on_status :: "gns_state \<Rightarrow> 'a cb_info \<Rightarrow> ('a client_link, unit) stm" where
  "link_on_status G_Connected info = link_on_connected info"
| "link_on_status _ info = returnS ()"

fun link_run_callbacks :: "(gns_state \<times> 'a cb_info) list \<Rightarrow> ('a client_link, unit) stm" where
  "link_run_callbacks [] = returnS ()"
| "link_run_callbacks ((st, info) # cs) = bindS (link_on_status st info) (\<lambda>_. link_run_callbacks cs)"

text \<open>The library hands over at most 32 messages at a time.\<close>

fun link_receive :: "'a link_env \<Rightarrow> (u32 \<times> bytes) list \<Rightarrow> ('a client_link, unit) stm" where
  "link_receive E [] = returnS ()"
| "link_receive E ((h, bs) # ms) = (\<lambda>l.
    case link_find h l of
      None \<Rightarrow> Inl (AssertFail ''Received message from unregistered connection?'')
    | Some c \<Rightarrow>
        bindE (create_from_bytes (le_registry E) bs) (\<lambda>p.
          link_receive E ms (link_emit Link_Release (link_emit (Link_Dispatch p (con_target c)) l))))"

definition link_update ::
  "'a link_env \<Rightarrow> (gns_state \<times> 'a cb_info) list \<Rightarrow> (u32 \<times> bytes) list \<Rightarrow> ('a client_link, unit) stm" where
  "link_update E cs ms = bindS (link_run_callbacks cs) (\<lambda>_. link_receive E ms)"

text \<open>The callback for the packet that assigns the identity writes a line to the log and nothing else.\<close>

definition on_client_id_assigned :: "network_identity \<Rightarrow> ('a client_link, unit) stm" where
  "on_client_id_assigned n = returnS ()"

section \<open>A connection is connected only to a peer it knows\<close>

text \<open>What the link does: open connections and update, in any order, with any callbacks and messages.\<close>

inductive link_run :: "'a link_env \<Rightarrow> 'a client_link \<Rightarrow> 'a client_link \<Rightarrow> bool" for E l where
  run_start: "link_run E l l"
| run_connect: "link_run E l m \<Longrightarrow> link_run E l (connect_to_atlasnet E a m)"
| run_update: "link_run E l m \<Longrightarrow> link_update E cs ms m = Inr ((), m') \<Longrightarrow> link_run E l m'"

text \<open>The identities that the callbacks of a history have delivered are those of connected connections.\<close>

definition link_inv :: "'a client_link \<Rightarrow> bool" where
  "link_inv l \<longleftrightarrow> (\<forall>c\<in>set (lk_connections l).
    con_state c = C_Connecting \<and> con_target c = initial_identity \<and> con_old_state c = C_Invalid \<or>
    con_state c = C_Connected \<and> con_old_state c \<in> {C_Connecting, C_Connected})"

lemma link_emit_inv [simp]: "link_inv (link_emit e l) = link_inv l"
  by (simp add: link_inv_def link_emit_def)

lemma set_update_first_sub: "set (update_first P f xs) \<subseteq> set xs \<union> f ` set xs"
  by (induction xs) auto

lemma link_connect_inv: "link_inv l \<Longrightarrow> link_inv (connect_to_atlasnet E a l)"
  by (simp add: link_inv_def connect_to_atlasnet_def Let_def link_emit_def set_new_state_def con_new_def)

lemma link_connected_inv:
  assumes "link_inv l" and "link_on_connected info l = Inr ((), l')"
  shows "link_inv l'"
proof -
  obtain n where l': "l' = l \<lparr> lk_connections := update_first (has_handle (cb_handle info))
      (\<lambda>c. set_new_state C_Connected c \<lparr> con_target := n \<rparr>) (lk_connections l) \<rparr>"
    using assms(2) by (auto simp: link_on_connected_def bindE_def split: option.splits sum.splits)
  show ?thesis
    unfolding link_inv_def
  proof
    fix c assume "c \<in> set (lk_connections l')"
    then consider "c \<in> set (lk_connections l)" |
        d where "d \<in> set (lk_connections l)" "c = set_new_state C_Connected d \<lparr> con_target := n \<rparr>"
      using set_update_first_sub l' by fastforce
    then show "con_state c = C_Connecting \<and> con_target c = initial_identity \<and> con_old_state c = C_Invalid \<or>
        con_state c = C_Connected \<and> con_old_state c \<in> {C_Connecting, C_Connected}"
      using assms(1) by cases (auto simp: link_inv_def set_new_state_def)
  qed
qed

lemma link_status_inv: "link_inv l \<Longrightarrow> link_on_status st info l = Inr ((), l') \<Longrightarrow> link_inv l'"
  by (cases st) (auto dest: link_connected_inv)

lemma link_callbacks_inv: "link_inv l \<Longrightarrow> link_run_callbacks cs l = Inr ((), l') \<Longrightarrow> link_inv l'"
proof (induction cs arbitrary: l)
  case (Cons x cs)
  obtain st info where x: "x = (st, info)" by (cases x)
  then show ?case
    using Cons by (auto simp: bindS_eq_Inr dest: link_status_inv)
qed simp

lemma link_receive_inv: "link_inv l \<Longrightarrow> link_receive E ms l = Inr ((), l') \<Longrightarrow> link_inv l'"
proof (induction ms arbitrary: l)
  case (Cons m ms)
  obtain h bs where m: "m = (h, bs)" by (cases m)
  obtain n p where "link_receive E ms (link_emit Link_Release (link_emit (Link_Dispatch p n) l)) =
      Inr ((), l')"
    using Cons.prems(2) by (auto simp: m bindE_def split: option.splits sum.splits)
  then show ?case using Cons.IH [of "link_emit Link_Release (link_emit (Link_Dispatch p n) l)"] Cons.prems(1)
    by simp
qed simp

lemma link_run_inv: "link_run E l m \<Longrightarrow> link_inv l \<Longrightarrow> link_inv m"
  by (induction rule: link_run.induct)
    (auto simp: link_update_def bindS_eq_Inr dest: link_connect_inv link_callbacks_inv link_receive_inv)

text \<open>Whatever the library reports, every connection of a client link is either still connecting, to
  the unnamed peer it was opened to, or connected; no other state is reached, since the callbacks for a
  connection that the peer or the network closed change nothing.\<close>

theorem link_connections_inv:
  assumes "link_run E link_new m" and "c \<in> set (lk_connections m)"
  shows "con_state c = C_Connecting \<and> con_target c = initial_identity \<and> con_old_state c = C_Invalid \<or>
    con_state c = C_Connected \<and> con_old_state c \<in> {C_Connecting, C_Connected}"
proof -
  have "link_inv (link_new :: 'a client_link)" by (simp add: link_inv_def link_new_def)
  then have "link_inv m" using assms(1) by (rule link_run_inv [rotated])
  then show ?thesis using assms(2) by (simp add: link_inv_def)
qed

section \<open>From the proxy to the client\<close>

lemma identity_packet_received:
  assumes "nid_ok n" and "\<not> uuid_is_nil (nid_id n)"
  shows "create_from_bytes packet_registry (packet_bytes (Packet tid_client_id_assign (Client_ID_Assign n))) =
    Inr (Packet tid_client_id_assign (Client_ID_Assign n))"
  using sent_packet_created [of "Client_ID_Assign n" "[]"] assms
  by (auto simp: packet_bytes_def nid_enc_length)

text \<open>C9: when a client that presented itself without an identity becomes connected to an initialised
  proxy, the first bytes the proxy hands to the library for it make the client, when they arrive on one
  of its connections, dispatch the packet with its new identity, as coming from the peer of that
  connection. This holds when the generated identity has its sixteen bytes, is not nil and is neither in
  the proxy's table nor has packets queued for it, and when the client knows the packet classes.\<close>

theorem client_is_told_its_identity:
  assumes "il_init s" and "find_handle (cb_handle info) s = Some c" and "con_target c = make_id_game_client nil_uuid"
    and "n = make_id_game_client (ie_gen E (il_effects s @ [Set_Poll_Group (cb_handle info)]))"
    and "\<not> uuid_is_nil (nid_id n)" and "\<forall>d\<in>set (il_connections s). \<not> has_target E n d"
    and "queue_of E n (il_queued s) = []" and "nid_type (ie_self E) = nt_proxy" and "nid_ok n"
    and "le_registry L = packet_registry" and "link_find h l = Some d"
  shows "\<exists>s' bs. callback_on_connected E info s = Inr ((), s') \<and>
    take 2 (drop (length (il_effects s)) (il_effects s')) =
      [Set_Poll_Group (cb_handle info), Send_To (cb_handle info) bs flag_reliable_now] \<and>
    link_receive L [(h, bs)] l = Inr ((), l \<lparr> lk_effects := lk_effects l @
      [Link_Dispatch (Packet tid_client_id_assign (Client_ID_Assign n)) (con_target d), Link_Release] \<rparr>)"
proof -
  let ?p = "Packet tid_client_id_assign (Client_ID_Assign n)"
  obtain s' where "callback_on_connected E info s = Inr ((), s')"
      "take 2 (drop (length (il_effects s)) (il_effects s')) =
        [Set_Poll_Group (cb_handle info), Send_To (cb_handle info) (packet_bytes ?p) flag_reliable_now]"
    using identity_assigned [OF assms(1-7)] assms(8) by auto
  moreover have "link_receive L [(h, packet_bytes ?p)] l = Inr ((), l \<lparr> lk_effects := lk_effects l @
      [Link_Dispatch ?p (con_target d), Link_Release] \<rparr>)"
    using identity_packet_received [OF assms(9,5)] assms(10,11) by (simp add: link_emit_def)
  ultimately show ?thesis by blast
qed

section \<open>Examples\<close>

definition demo_link_env :: "unit link_env" where
  "demo_link_env = \<lparr> le_gns_ok = True, le_identity_ok = True, le_connect = (\<lambda>_ _. 3),
     le_registry = packet_registry \<rparr>"

definition demo_link :: "unit client_link" where
  "demo_link = connect_to_atlasnet demo_link_env () link_new"

theorem link_connections_inv_witness:
  "con_state (hd (lk_connections demo_link)) = C_Connecting \<and>
      con_target (hd (lk_connections demo_link)) = initial_identity \<and>
      con_old_state (hd (lk_connections demo_link)) = C_Invalid \<or>
    con_state (hd (lk_connections demo_link)) = C_Connected \<and>
      con_old_state (hd (lk_connections demo_link)) \<in> {C_Connecting, C_Connected}"
proof -
  have "link_run demo_link_env link_new demo_link"
    unfolding demo_link_def by (intro run_connect run_start)
  moreover have "hd (lk_connections demo_link) \<in> set (lk_connections demo_link)"
    by (simp add: demo_link_def connect_to_atlasnet_def Let_def link_emit_def link_new_def)
  ultimately show ?thesis by (rule link_connections_inv)
qed

theorem client_is_told_its_identity_witness:
  "\<exists>s' bs. callback_on_connected (demo_il_env \<lparr> ie_self := \<lparr> nid_type = nt_proxy, nid_id = replicate 16 2 \<rparr> \<rparr>) demo_info
      (demo_il [demo_con C_Connecting 5 \<lparr> con_target := make_id_game_client nil_uuid \<rparr>]) = Inr ((), s') \<and>
    take 2 (drop 0 (il_effects s')) = [Set_Poll_Group 5, Send_To 5 bs flag_reliable_now] \<and>
    link_receive demo_link_env [(3, bs)] demo_link = Inr ((), demo_link \<lparr> lk_effects := lk_effects demo_link @
      [Link_Dispatch (Packet tid_client_id_assign (Client_ID_Assign (make_id_game_client (replicate 16 1))))
        initial_identity, Link_Release] \<rparr>)"
proof -
  let ?E = "demo_il_env \<lparr> ie_self := \<lparr> nid_type = nt_proxy, nid_id = replicate 16 2 \<rparr> \<rparr>"
  let ?c = "demo_con C_Connecting 5 \<lparr> con_target := make_id_game_client nil_uuid \<rparr>"
  let ?n = "make_id_game_client (replicate 16 1)"
  have eq: "nid_eq demo_printer a b \<longleftrightarrow> a = b" if "nid_ok a" "nid_ok b" "nt_known (nid_type a)" for a b
    using nid_eq_known [OF demo_printer_ok that] .
  have ok: "nid_ok (make_id_game_client nil_uuid)" "nid_ok ?n" "nid_ok make_id_cartograph"
    "nt_known nt_game_client" "nt_known nt_cartograph"
    by (simp_all add: nid_ok_def make_id_game_client_def make_id_cartograph_def nil_uuid_def nt_known_def)
  have new: "\<not> has_target ?E ?n ?c" "queue_of ?E ?n (il_queued (demo_il [?c])) = []"
    using eq [OF ok(1,2)] eq [OF ok(3,2)] ok(4,5)
    by (simp_all add: has_target_def demo_il_env_def demo_il_def queue_of_def queue_key_def
        make_id_game_client_def make_id_cartograph_def nil_uuid_def nt_defs numeral_eq_Suc)
  have n: "\<not> uuid_is_nil (nid_id ?n)" "find_handle 5 (demo_il [?c]) = Some ?c"
    by (simp_all add: uuid_is_nil_def make_id_game_client_def list_all_iff find_handle_def demo_il_def
        has_handle_def demo_con_def)
  obtain d where d: "link_find 3 demo_link = Some d" "con_target d = initial_identity"
    by (auto simp: link_find_def demo_link_def connect_to_atlasnet_def Let_def demo_link_env_def
        has_handle_def set_new_state_def link_new_def link_emit_def con_new_def)
  show ?thesis
    using client_is_told_its_identity [of "demo_il [?c]" demo_info ?c ?n ?E demo_link_env 3 demo_link d]
      new n ok(2) d
    by (simp add: demo_il_def demo_info_def demo_il_env_def demo_link_env_def)
qed

end
