(* ===== verification/Entity_Ledger.thy ===== *)
theory Entity_Ledger
  imports Bound_Claims Interlink_Delivery
begin

text \<open>
  The entities of a shard: the lease of its bound (\<open>Heuristic/BoundLeaser\<close>), the ledger of local
  entities (\<open>Entity/EntityLedger\<close>) and the coordinator that collects the entities to hand over
  (\<open>Entity/TransferCoordinator.hpp\<close>). The two threads are represented by the bodies of their loops.
\<close>

section \<open>Bound leaser\<close>

record bound_leaser =
  bl_claimed_bound :: "grid_shape option"
  bl_claimed_bound_id :: u32

definition bl_new :: bound_leaser where
  "bl_new = \<lparr> bl_claimed_bound = None, bl_claimed_bound_id = 0 \<rparr>"

definition bl_has_bound :: "bound_leaser \<Rightarrow> bool" where
  "bl_has_bound b \<longleftrightarrow> bl_claimed_bound b \<noteq> None"

definition bl_get_bound :: "bound_leaser \<Rightarrow> grid_shape res" where
  "bl_get_bound b = (case bl_claimed_bound b of None \<Rightarrow> Inl (UB Null_Deref) | Some s \<Rightarrow> Inr s)"

definition claim_bound ::
  "'db hm_env \<Rightarrow> network_identity \<Rightarrow> bound_leaser \<Rightarrow> 'db \<Rightarrow> (bound_leaser \<times> 'db) res" where
  "claim_bound E self b db =
    bindE (claim_next_pending_bound E self db) (\<lambda>(s, db).
      case s of
        None \<Rightarrow> Inl (AssertFail ''ClaimNextPendingBound returned null'')
      | Some s \<Rightarrow>
          bindE (bound_id_from_shard E self db) (\<lambda>i.
            case i of
              None \<Rightarrow> Inl (RuntimeError ''bad_optional_access'')
            | Some i \<Rightarrow>
                if gs_id s = i
                then Inr (\<lparr> bl_claimed_bound = Some s, bl_claimed_bound_id = gs_id s \<rparr>, db)
                else Inl (AssertFail ''Internal Error'')))"

text \<open>One turn of \<open>LoopEntry\<close>.\<close>

definition leaser_round ::
  "'db hm_env \<Rightarrow> network_identity \<Rightarrow> bound_leaser \<Rightarrow> 'db \<Rightarrow> (bound_leaser \<times> 'db) res" where
  "leaser_round E self b db = (if bl_claimed_bound b = None then claim_bound E self b db else Inr (b, db))"

section \<open>Entity ledger\<close>

text \<open>The map is kept sorted by key: UUIDs compare byte by byte.\<close>

fun uuid_less :: "bytes \<Rightarrow> bytes \<Rightarrow> bool" where
  "uuid_less _ [] = False"
| "uuid_less [] (_ # _) = True"
| "uuid_less (x # xs) (y # ys) = (x < y \<or> x = y \<and> uuid_less xs ys)"

fun flat_insert :: "bytes \<Rightarrow> 'v \<Rightarrow> (bytes \<times> 'v) list \<Rightarrow> (bytes \<times> 'v) list" where
  "flat_insert k v [] = [(k, v)]"
| "flat_insert k v (e # es) =
    (if uuid_less k (fst e) then (k, v) # e # es
     else if k = fst e then e # es
     else e # flat_insert k v es)"

record entity_ledger =
  el_entities :: "(bytes \<times> entity) list"
  el_marked :: "bytes set"

definition el_new :: entity_ledger where
  "el_new = \<lparr> el_entities = [], el_marked = {} \<rparr>"

definition view_local_entities :: "entity_ledger \<Rightarrow> entity list" where
  "view_local_entities L = map snd (el_entities L)"

definition register_new_entity :: "entity \<Rightarrow> entity_ledger \<Rightarrow> entity_ledger res" where
  "register_new_entity e L =
    (if map_of (el_entities L) (e_id e) \<noteq> None then Inl (AssertFail ''Duplicate Entities'')
     else Inr (L \<lparr> el_entities := flat_insert (e_id e) e (el_entities L) \<rparr>))"

definition is_entity_client :: "bytes \<Rightarrow> entity_ledger \<Rightarrow> bool res" where
  "is_entity_client i L =
    (case map_of (el_entities L) i of None \<Rightarrow> Inl (AssertFail ''Invalid ID'') | Some e \<Rightarrow> Inr (e_is_client e))"

definition list_response :: "bool \<Rightarrow> entity_ledger \<Rightarrow> local_entity_list" where
  "list_response include_metadata L =
    \<lparr> lel_status = lel_response, lel_include_metadata = include_metadata,
      lel_entities =
        (if include_metadata then Full_Entities (map snd (el_entities L))
         else Minimal_Entities (map (\<lambda>(i, e). entity_minimal.truncate e) (el_entities L))) \<rparr>"

definition on_local_entity_list_request ::
  "'a il_env \<Rightarrow> entity_ledger \<Rightarrow> local_entity_list \<Rightarrow> network_identity \<Rightarrow> ('a interlink, unit) stm" where
  "on_local_entity_list_request E L p sender =
    send_message E sender
      (Packet tid_local_entity_list (Local_Entity_List (list_response (lel_include_metadata p) L)))
      flag_reliable_now"

text \<open>The callbacks \<open>Init\<close> subscribes. Those for the two transfer packets have empty bodies.\<close>

definition ledger_on_packet ::
  "'a il_env \<Rightarrow> entity_ledger \<Rightarrow> packet_body \<Rightarrow> network_identity \<Rightarrow> ('a interlink, unit) stm" where
  "ledger_on_packet E L b sender =
    (case b of
       Local_Entity_List p \<Rightarrow>
         if lel_status p = lel_query then on_local_entity_list_request E L p sender else returnS ()
     | Client_Transfer _ \<Rightarrow> returnS ()
     | Entity_Transfer _ \<Rightarrow> returnS ()
     | _ \<Rightarrow> returnS ())"

section \<open>Transfer coordinator\<close>

text \<open>The stage is not initialised when a transfer is made: it is what \<open>stage\<close> says.\<close>

record transfer_data =
  td_id :: bytes
  td_stage :: u32
  td_entity_ids :: "bytes list"
  td_waiting_on_response :: bool
  td_started :: bool

record coordinator =
  co_entity_transfers :: "bytes \<Rightarrow> transfer_data option"
  co_client_transfers :: "bytes \<Rightarrow> transfer_data option"
  co_generated :: nat

definition co_new :: coordinator where
  "co_new = \<lparr> co_entity_transfers = (\<lambda>_. None), co_client_transfers = (\<lambda>_. None), co_generated = 0 \<rparr>"

text \<open>The UUID generator: its values in the order they are asked for.\<close>

definition transfer_new :: "u32 \<Rightarrow> bytes \<Rightarrow> transfer_data" where
  "transfer_new stage i =
    \<lparr> td_id = i, td_stage = stage, td_entity_ids = [], td_waiting_on_response = False, td_started = False \<rparr>"

definition add_to_transfer ::
  "(nat \<Rightarrow> bytes) \<Rightarrow> u32 \<Rightarrow> bytes \<Rightarrow> transfer_data option \<Rightarrow> nat \<Rightarrow> transfer_data option \<times> nat" where
  "add_to_transfer gen stage i t n =
    (let (t, n) = (case t of None \<Rightarrow> (transfer_new stage (gen n), Suc n) | Some t \<Rightarrow> (t, n))
     in (Some (t \<lparr> td_entity_ids := td_entity_ids t @ [i] \<rparr>), n))"

fun split_entities ::
  "(nat \<Rightarrow> bytes) \<Rightarrow> u32 \<Rightarrow> entity_ledger \<Rightarrow> bytes list \<Rightarrow>
   transfer_data option \<Rightarrow> transfer_data option \<Rightarrow> nat \<Rightarrow> (transfer_data option \<times> transfer_data option \<times> nat) res" where
  "split_entities gen stage L [] ed cd n = Inr (ed, cd, n)"
| "split_entities gen stage L (i # is) ed cd n =
    bindE (is_entity_client i L) (\<lambda>client.
      if client
      then let (cd, n) = add_to_transfer gen stage i cd n in split_entities gen stage L is ed cd n
      else let (ed, n) = add_to_transfer gen stage i ed n in split_entities gen stage L is ed cd n)"

text \<open>\<open>insert\<close> keeps an element that is already there under the key.\<close>

definition map_insert :: "'k \<Rightarrow> 'v \<Rightarrow> ('k \<Rightarrow> 'v option) \<Rightarrow> 'k \<Rightarrow> 'v option" where
  "map_insert k v m = (if m k = None then m(k \<mapsto> v) else m)"

definition mark_entities_for_transfer ::
  "(nat \<Rightarrow> bytes) \<Rightarrow> u32 \<Rightarrow> entity_ledger \<Rightarrow> bytes list \<Rightarrow> coordinator \<Rightarrow> coordinator res" where
  "mark_entities_for_transfer gen stage L ids K =
    bindE (split_entities gen stage L ids None None (co_generated K)) (\<lambda>(ed, cd, n).
      let K = K \<lparr> co_generated := n \<rparr>;
          K = (case cd of None \<Rightarrow> K
               | Some t \<Rightarrow> K \<lparr> co_client_transfers := map_insert (td_id t) t (co_client_transfers K) \<rparr>);
          K = (case ed of None \<Rightarrow> K
               | Some t \<Rightarrow> K \<lparr> co_entity_transfers := map_insert (td_id t) t (co_entity_transfers K) \<rparr>)
      in Inr K)"

text \<open>One turn of \<open>TransferThreadEntry\<close>: what it would do with the transfers is commented out.\<close>

definition transfer_round :: "coordinator \<Rightarrow> coordinator" where
  "transfer_round K = K"

section \<open>The loop of the ledger\<close>

fun collect_out_of_bounds ::
  "grid_shape \<Rightarrow> (bytes \<times> entity) list \<Rightarrow> bytes set \<Rightarrow> bytes list \<times> bytes set" where
  "collect_out_of_bounds b [] marked = ([], marked)"
| "collect_out_of_bounds b ((i, e) # es) marked =
    (if i \<in> marked then collect_out_of_bounds b es marked
     else if \<not> grid_shape_contains b (tr_position (e_transform e))
     then let (is, marked) = collect_out_of_bounds b es (insert i marked) in (i # is, marked)
     else collect_out_of_bounds b es marked)"

definition ledger_round ::
  "(nat \<Rightarrow> bytes) \<Rightarrow> u32 \<Rightarrow> bound_leaser \<Rightarrow> entity_ledger \<times> coordinator \<Rightarrow> (entity_ledger \<times> coordinator) res" where
  "ledger_round gen stage b LK =
    (case LK of (L, K) \<Rightarrow>
      if \<not> bl_has_bound b then Inr (L, K)
      else bindE (bl_get_bound b) (\<lambda>s.
        let (ids, marked) = collect_out_of_bounds s (el_entities L) (el_marked L);
            L = L \<lparr> el_marked := marked \<rparr>
        in if ids = [] then Inr (L, K)
           else bindE (mark_entities_for_transfer gen stage L ids K) (\<lambda>K. Inr (L, K))))"

section \<open>Reachable states\<close>

inductive ledger_reach ::
  "(nat \<Rightarrow> bytes) \<Rightarrow> u32 \<Rightarrow> entity_ledger \<times> coordinator \<Rightarrow> bool" for gen stage where
  reach_start: "ledger_reach gen stage (el_new, co_new)"
| reach_register: "ledger_reach gen stage (L, K) \<Longrightarrow> length (e_id e) = 16 \<Longrightarrow>
    register_new_entity e L = Inr L' \<Longrightarrow>
    ledger_reach gen stage (L', K)"
| reach_round: "ledger_reach gen stage LK \<Longrightarrow> ledger_round gen stage b LK = Inr LK' \<Longrightarrow>
    ledger_reach gen stage LK'"

section \<open>Lemmas\<close>

lemma uuid_less_irrefl [simp]: "\<not> uuid_less k k"
  by (induction k) auto

lemma uuid_less_trans: "uuid_less a b \<Longrightarrow> uuid_less b c \<Longrightarrow> uuid_less a c"
proof (induction b c arbitrary: a rule: uuid_less.induct)
  case (3 x xs y ys)
  then show ?case by (cases a) (auto dest: less_trans)
qed auto

lemma uuid_less_total: "length a = length b \<Longrightarrow> uuid_less a b \<or> a = b \<or> uuid_less b a"
  by (induction a b rule: list_induct2) auto

text \<open>The entities are sorted by id, each under its own.\<close>

definition entities_ok :: "(bytes \<times> entity) list \<Rightarrow> bool" where
  "entities_ok es \<longleftrightarrow> sorted_wrt uuid_less (map fst es) \<and> (\<forall>x\<in>set es. fst x = e_id (snd x) \<and> length (fst x) = 16)"

lemma sorted_distinct: "sorted_wrt uuid_less ks \<Longrightarrow> distinct ks"
  by (induction ks) auto

lemma set_flat_insert: "map_of es k = None \<Longrightarrow> set (flat_insert k v es) = insert (k, v) (set es)"
  by (induction es) (auto split: if_splits)

lemma map_of_flat_insert: "map_of es k = None \<Longrightarrow> sorted_wrt uuid_less (map fst es) \<Longrightarrow>
  map_of (flat_insert k v es) = (map_of es)(k \<mapsto> v)"
  by (induction es) (auto simp: fun_eq_iff split: if_splits)

lemma sorted_flat_insert:
  "sorted_wrt uuid_less (map fst es) \<Longrightarrow> map_of es k = None \<Longrightarrow> length k = n \<Longrightarrow>
   \<forall>x\<in>set es. length (fst x) = n \<Longrightarrow> sorted_wrt uuid_less (map fst (flat_insert k v es))"
proof (induction es)
  case (Cons e es)
  have "uuid_less (fst e) k" if "\<not> uuid_less k (fst e)" "k \<noteq> fst e"
    using that uuid_less_total [of k "fst e"] Cons.prems by auto
  then show ?case
    using Cons by (auto simp: set_flat_insert dest: uuid_less_trans split: if_splits)
qed simp

definition client_of :: "entity_ledger \<Rightarrow> bytes \<Rightarrow> bool" where
  "client_of L i \<longleftrightarrow> (\<exists>e. map_of (el_entities L) i = Some e \<and> e_is_client e)"

text \<open>The transfers in \<open>m\<close> hold exactly the entities in \<open>P\<close>, each in one transfer and there once.\<close>

definition holds_once :: "(bytes \<Rightarrow> bool) \<Rightarrow> (bytes \<Rightarrow> transfer_data option) \<Rightarrow> bool" where
  "holds_once P m \<longleftrightarrow>
    (\<forall>i. P i \<longrightarrow> (\<exists>!k. \<exists>t. m k = Some t \<and> i \<in> set (td_entity_ids t))) \<and>
    (\<forall>k t. m k = Some t \<longrightarrow> distinct (td_entity_ids t) \<and> (\<forall>i\<in>set (td_entity_ids t). P i))"

lemma holds_once_insert:
  assumes "holds_once P m" and "m k = None" and "distinct (td_entity_ids t)"
    and "\<forall>i\<in>set (td_entity_ids t). \<not> P i"
    and Q: "\<And>i. Q i \<longleftrightarrow> P i \<or> i \<in> set (td_entity_ids t)"
  shows "holds_once Q (m(k \<mapsto> t))"
proof -
  have "\<exists>!j. \<exists>u. (m(k \<mapsto> t)) j = Some u \<and> i \<in> set (td_entity_ids u)" if "Q i" for i
  proof (cases "i \<in> set (td_entity_ids t)")
    case True
    then have "\<not> P i" using assms(4) by blast
    then have "i \<notin> set (td_entity_ids u)" if "m j = Some u" for j u
      using assms(1) that by (auto simp: holds_once_def)
    then show ?thesis using True by (intro ex1I [of _ k]) (auto split: if_splits)
  next
    case False
    then have "P i" using that Q by blast
    then obtain j u where j: "m j = Some u" "i \<in> set (td_entity_ids u)"
      and un: "\<And>j' u'. m j' = Some u' \<Longrightarrow> i \<in> set (td_entity_ids u') \<Longrightarrow> j' = j"
      using assms(1) unfolding holds_once_def by metis
    have "j \<noteq> k" using j assms(2) by auto
    show ?thesis
    proof (rule ex1I [of _ j])
      show "\<exists>u. (m(k \<mapsto> t)) j = Some u \<and> i \<in> set (td_entity_ids u)" using j \<open>j \<noteq> k\<close> by simp
      fix j' assume "\<exists>u. (m(k \<mapsto> t)) j' = Some u \<and> i \<in> set (td_entity_ids u)"
      then show "j' = j" using un False by (auto split: if_splits)
    qed
  qed
  moreover have "distinct (td_entity_ids u) \<and> (\<forall>i\<in>set (td_entity_ids u). Q i)"
    if "(m(k \<mapsto> t)) j = Some u" for j u
  proof (cases "j = k")
    case False
    then have "m j = Some u" using that by simp
    then have "distinct (td_entity_ids u)" "\<forall>i\<in>set (td_entity_ids u). P i"
      using assms(1) by (auto simp: holds_once_def)
    then show ?thesis using Q by simp
  qed (use that assms(3) Q in simp)
  ultimately show ?thesis unfolding holds_once_def by blast
qed

lemma holds_once_cong: "(\<And>i. P i \<longleftrightarrow> Q i) \<Longrightarrow> holds_once P m \<Longrightarrow> holds_once Q m"
  by (simp add: holds_once_def)

lemma collect_result:
  assumes "distinct (map fst es)"
  shows "collect_out_of_bounds b es marked =
    (let ids = map fst (filter (\<lambda>x. fst x \<notin> marked \<and>
       \<not> grid_shape_contains b (tr_position (e_transform (snd x)))) es)
     in (ids, marked \<union> set ids))"
  using assms
proof (induction es arbitrary: marked)
  case (Cons x es)
  obtain i e where x: "x = (i, e)" by force
  have f: "filter (\<lambda>x. fst x \<noteq> i \<and> fst x \<notin> marked \<and> P x) es = filter (\<lambda>x. fst x \<notin> marked \<and> P x) es" for P
    using Cons.prems x by (intro filter_cong) auto
  show ?case
    using Cons.IH [of marked] Cons.IH [of "insert i marked"] Cons.prems
    by (simp add: x f Let_def insert_is_Un [symmetric] del: insert_is_Un)
qed simp

definition ids_of :: "transfer_data option \<Rightarrow> bytes list" where
  "ids_of t = (case t of None \<Rightarrow> [] | Some t \<Rightarrow> td_entity_ids t)"

text \<open>What becomes of one of the two transfers when the entities \<open>is\<close> are added to it.\<close>

definition grows :: "(nat \<Rightarrow> bytes) \<Rightarrow> transfer_data option \<Rightarrow> nat \<Rightarrow> bytes list \<Rightarrow> transfer_data option \<Rightarrow> nat \<Rightarrow> bool" where
  "grows gen t n is t' n' \<longleftrightarrow> ids_of t' = ids_of t @ is \<and> (t' = None \<longleftrightarrow> t = None \<and> is = []) \<and>
    (case t' of None \<Rightarrow> True
     | Some u' \<Rightarrow> (case t of None \<Rightarrow> td_id u' \<in> gen ` {n..<n'} | Some u \<Rightarrow> td_id u' = td_id u))"

lemma grows_refl: "grows gen t n [] t n'" if "n \<le> n'"
  by (auto simp: grows_def split: option.split)

lemma grows_add:
  assumes "add_to_transfer gen stage i t n = (t1, n1)" and "grows gen t1 n1 is t' n'" and "n1 \<le> n'"
  shows "grows gen t n (i # is) t' n' \<and> n \<le> n1"
proof (cases t)
  case None
  then have t1: "t1 = Some (transfer_new stage (gen n) \<lparr> td_entity_ids := [i] \<rparr>)" "n1 = Suc n"
    using assms(1) by (auto simp: add_to_transfer_def transfer_new_def)
  then show ?thesis using assms(2,3) None
    by (cases t') (simp_all add: grows_def ids_of_def transfer_new_def)
next
  case (Some u)
  then have "t1 = Some (u \<lparr> td_entity_ids := td_entity_ids u @ [i] \<rparr>)" "n1 = n"
    using assms(1) by (auto simp: add_to_transfer_def)
  then show ?thesis using assms(2,3) Some by (cases t') (simp_all add: grows_def ids_of_def)
qed

lemma grows_later: "grows gen t n1 is t' n' \<Longrightarrow> n \<le> n1 \<Longrightarrow> grows gen t n is t' n'"
  by (cases t; cases t') (auto simp: grows_def)

lemma split_result:
  assumes "\<forall>i\<in>set is. map_of (el_entities L) i \<noteq> None"
  shows "\<exists>ed' cd' n'. split_entities gen stage L is ed cd n = Inr (ed', cd', n') \<and> n \<le> n' \<and>
    grows gen ed n (filter (\<lambda>i. \<not> client_of L i) is) ed' n' \<and>
    grows gen cd n (filter (client_of L) is) cd' n'"
  using assms
proof (induction "is" arbitrary: ed cd n)
  case Nil
  then show ?case by (auto intro: grows_refl)
next
  case (Cons i "is")
  obtain e where e: "map_of (el_entities L) i = Some e" using Cons.prems by auto
  have c: "is_entity_client i L = Inr (e_is_client e)" "client_of L i = e_is_client e"
    by (simp_all add: is_entity_client_def client_of_def e)
  have pre: "\<forall>i\<in>set is. map_of (el_entities L) i \<noteq> None" using Cons.prems by simp
  show ?case
  proof (cases "e_is_client e")
    case True
    obtain cd1 n1 where a: "add_to_transfer gen stage i cd n = (cd1, n1)" by force
    obtain ed' cd' n' where r: "split_entities gen stage L is ed cd1 n1 = Inr (ed', cd', n')" "n1 \<le> n'"
      "grows gen ed n1 (filter (\<lambda>i. \<not> client_of L i) is) ed' n'" "grows gen cd1 n1 (filter (client_of L) is) cd' n'"
      using Cons.IH [OF pre, of ed cd1 n1] by blast
    have g: "grows gen cd n (i # filter (client_of L) is) cd' n'" "n \<le> n1"
      using grows_add [OF a r(4,2)] by simp_all
    moreover have "grows gen ed n (filter (\<lambda>i. \<not> client_of L i) is) ed' n'"
      by (rule grows_later [OF r(3) g(2)])
    ultimately show ?thesis using r(1,2) by (auto simp: c True a)
  next
    case False
    obtain ed1 n1 where a: "add_to_transfer gen stage i ed n = (ed1, n1)" by force
    obtain ed' cd' n' where r: "split_entities gen stage L is ed1 cd n1 = Inr (ed', cd', n')" "n1 \<le> n'"
      "grows gen ed1 n1 (filter (\<lambda>i. \<not> client_of L i) is) ed' n'" "grows gen cd n1 (filter (client_of L) is) cd' n'"
      using Cons.IH [OF pre, of ed1 cd n1] by blast
    have g: "grows gen ed n (i # filter (\<lambda>i. \<not> client_of L i) is) ed' n'" "n \<le> n1"
      using grows_add [OF a r(3,2)] by simp_all
    moreover have "grows gen cd n (filter (client_of L) is) cd' n'"
      by (rule grows_later [OF r(4) g(2)])
    ultimately show ?thesis using r(1,2) by (auto simp: c False a)
  qed
qed

definition keys_generated :: "(nat \<Rightarrow> bytes) \<Rightarrow> nat \<Rightarrow> (bytes \<Rightarrow> transfer_data option) \<Rightarrow> bool" where
  "keys_generated gen n m \<longleftrightarrow> dom m \<subseteq> gen ` {..<n}"

text \<open>One of the two maps after the transfer for the entities \<open>is\<close> was inserted, if there is one.\<close>

lemma insert_transfer:
  assumes "inj gen" and "keys_generated gen n m" and "holds_once P m"
    and "grows gen None n is t n'" and "n \<le> n'" and "distinct is" and "\<forall>i\<in>set is. \<not> P i"
    and "\<And>i. Q i \<longleftrightarrow> P i \<or> i \<in> set is"
    and "m' = (case t of None \<Rightarrow> m | Some u \<Rightarrow> map_insert (td_id u) u m)"
  shows "keys_generated gen n' m' \<and> holds_once Q m'"
proof (cases t)
  case None
  then have "is = []" using assms(4) by (simp add: grows_def)
  then have "holds_once Q m" using holds_once_cong [OF _ assms(3), of Q] assms(8) by auto
  then show ?thesis using None assms(2,5,9) by (force simp: keys_generated_def)
next
  case (Some u)
  then have u: "td_entity_ids u = is" "td_id u \<in> gen ` {n..<n'}"
    using assms(4) by (simp_all add: grows_def ids_of_def)
  have "gen ` {n..<n'} \<inter> gen ` {..<n} = gen ` ({n..<n'} \<inter> {..<n})"
    by (rule image_Int [OF assms(1), symmetric])
  then have "td_id u \<notin> gen ` {..<n}" using u(2) by auto
  then have new: "m (td_id u) = None" using assms(2) by (auto simp: keys_generated_def)
  then have m': "m' = m(td_id u \<mapsto> u)" by (simp add: assms(9) Some map_insert_def)
  have "keys_generated gen n' m'"
    using assms(2,5) u(2) by (force simp: keys_generated_def m')
  moreover have "holds_once Q m'"
    unfolding m' by (rule holds_once_insert [OF assms(3) new]) (use u assms(6-8) in auto)
  ultimately show ?thesis by simp
qed

definition ledger_inv :: "(nat \<Rightarrow> bytes) \<Rightarrow> entity_ledger \<times> coordinator \<Rightarrow> bool" where
  "ledger_inv gen LK = (case LK of (L, K) \<Rightarrow>
    entities_ok (el_entities L) \<and> el_marked L \<subseteq> fst ` set (el_entities L) \<and>
    keys_generated gen (co_generated K) (co_client_transfers K) \<and>
    keys_generated gen (co_generated K) (co_entity_transfers K) \<and>
    holds_once (\<lambda>i. i \<in> el_marked L \<and> client_of L i) (co_client_transfers K) \<and>
    holds_once (\<lambda>i. i \<in> el_marked L \<and> \<not> client_of L i) (co_entity_transfers K))"

lemma map_of_entities: "i \<in> fst ` set (el_entities L) \<longleftrightarrow> map_of (el_entities L) i \<noteq> None"
  by (simp add: map_of_eq_None_iff)

lemma mark_result:
  assumes "inj gen" and "ledger_inv gen (L, K)" and "distinct ids"
    and "set ids \<subseteq> fst ` set (el_entities L)" and "set ids \<inter> el_marked L = {}"
  shows "\<exists>K'. mark_entities_for_transfer gen stage L ids K = Inr K' \<and>
    ledger_inv gen (L \<lparr> el_marked := el_marked L \<union> set ids \<rparr>, K')"
proof -
  let ?L = "L \<lparr> el_marked := el_marked L \<union> set ids \<rparr>"
  have cl: "client_of ?L = client_of L" by (simp add: client_of_def fun_eq_iff)
  have "\<forall>i\<in>set ids. map_of (el_entities L) i \<noteq> None" using assms(4) map_of_entities by blast
  from split_result [OF this, of gen stage None None "co_generated K"] obtain ed cd n'
    where sp: "split_entities gen stage L ids None None (co_generated K) = Inr (ed, cd, n')"
      and le: "co_generated K \<le> n'"
      and ge: "grows gen None (co_generated K) (filter (\<lambda>i. \<not> client_of L i) ids) ed n'"
      and gc: "grows gen None (co_generated K) (filter (client_of L) ids) cd n'" by blast
  define mc where "mc = (case cd of None \<Rightarrow> co_client_transfers K
    | Some u \<Rightarrow> map_insert (td_id u) u (co_client_transfers K))"
  define me where "me = (case ed of None \<Rightarrow> co_entity_transfers K
    | Some u \<Rightarrow> map_insert (td_id u) u (co_entity_transfers K))"
  let ?K = "\<lparr> co_entity_transfers = me, co_client_transfers = mc, co_generated = n' \<rparr>"
  have r: "mark_entities_for_transfer gen stage L ids K = Inr ?K"
    unfolding mark_entities_for_transfer_def sp
    by (cases ed; cases cd) (simp_all add: mc_def me_def)
  note inv = assms(2) [unfolded ledger_inv_def prod.case]
  have c: "keys_generated gen n' mc \<and> holds_once (\<lambda>i. i \<in> el_marked ?L \<and> client_of ?L i) mc"
    by (rule insert_transfer [OF assms(1) _ _ gc le _ _ _ mc_def]) (use inv assms(3,5) in \<open>auto simp: cl\<close>)
  have e: "keys_generated gen n' me \<and> holds_once (\<lambda>i. i \<in> el_marked ?L \<and> \<not> client_of ?L i) me"
    by (rule insert_transfer [OF assms(1) _ _ ge le _ _ _ me_def]) (use inv assms(3,5) in \<open>auto simp: cl\<close>)
  have "ledger_inv gen (?L, ?K)"
    using inv c e assms(4) by (simp add: ledger_inv_def)
  with r show ?thesis by blast
qed

text \<open>The entities a round marks.\<close>

definition outside :: "grid_shape \<Rightarrow> entity_ledger \<Rightarrow> bytes set" where
  "outside s L = {i. \<exists>e. (i, e) \<in> set (el_entities L) \<and> \<not> grid_shape_contains s (tr_position (e_transform e))}"

lemma round_result:
  assumes "inj gen" and "ledger_inv gen (L, K)" and "bl_claimed_bound b = Some s"
  shows "\<exists>K'. ledger_round gen stage b (L, K) = Inr (L \<lparr> el_marked := el_marked L \<union> outside s L \<rparr>, K') \<and>
    ledger_inv gen (L \<lparr> el_marked := el_marked L \<union> outside s L \<rparr>, K') \<and>
    (outside s L \<subseteq> el_marked L \<longrightarrow> K' = K)"
proof -
  note inv = assms(2) [unfolded ledger_inv_def prod.case]
  define ids where "ids = map fst (filter (\<lambda>x. fst x \<notin> el_marked L \<and>
    \<not> grid_shape_contains s (tr_position (e_transform (snd x)))) (el_entities L))"
  have d: "distinct (map fst (el_entities L))" using inv sorted_distinct by (auto simp: entities_ok_def)
  then have di: "distinct ids" by (simp add: distinct_map_filter ids_def)
  have st: "set ids = outside s L - el_marked L" by (force simp: outside_def ids_def)
  have u: "el_marked L \<union> set ids = el_marked L \<union> outside s L" unfolding st by blast
  have c: "collect_out_of_bounds s (el_entities L) (el_marked L) = (ids, el_marked L \<union> outside s L)"
    using collect_result [OF d, of s "el_marked L"] u by (simp only: Let_def ids_def [symmetric])
  let ?L = "L \<lparr> el_marked := el_marked L \<union> outside s L \<rparr>"
  have m: "mark_entities_for_transfer gen stage ?L ids K = mark_entities_for_transfer gen stage L ids K"
  proof -
    have "is_entity_client i ?L = is_entity_client i L" for i by (simp add: is_entity_client_def)
    then have "split_entities gen stage ?L is ed cd n = split_entities gen stage L is ed cd n" for "is" ed cd n
      by (induction "is" arbitrary: ed cd n) (auto simp: bindE_def split: sum.split prod.split)
    then show ?thesis by (simp add: mark_entities_for_transfer_def)
  qed
  have r: "ledger_round gen stage b (L, K) =
      (if ids = [] then Inr (?L, K)
       else bindE (mark_entities_for_transfer gen stage L ids K) (\<lambda>K. Inr (?L, K)))"
    by (simp add: ledger_round_def bl_has_bound_def bl_get_bound_def assms(3) c m Let_def)
  show ?thesis
  proof (cases "ids = []")
    case True
    then have "outside s L \<subseteq> el_marked L" using st by auto
    then have "?L = L" by (simp add: Un_absorb2)
    then show ?thesis using True r assms(2) by simp
  next
    case False
    have "set ids \<subseteq> fst ` set (el_entities L)" "set ids \<inter> el_marked L = {}"
      using st by (auto simp: outside_def image_iff) force
    then obtain K' where k: "mark_entities_for_transfer gen stage L ids K = Inr K'"
      "ledger_inv gen (L \<lparr> el_marked := el_marked L \<union> set ids \<rparr>, K')"
      using mark_result [OF assms(1,2) di] by blast
    have "\<not> outside s L \<subseteq> el_marked L" using False st by (metis Diff_eq_empty_iff set_empty)
    then show ?thesis using False r k unfolding u by simp
  qed
qed

lemma inv_register:
  assumes "ledger_inv gen (L, K)" and "register_new_entity e L = Inr L'" and "length (e_id e) = 16"
  shows "ledger_inv gen (L', K)"
proof -
  note inv = assms(1) [unfolded ledger_inv_def prod.case]
  have new: "map_of (el_entities L) (e_id e) = None"
    and L': "L' = L \<lparr> el_entities := flat_insert (e_id e) e (el_entities L) \<rparr>"
    using assms(2) by (auto simp: register_new_entity_def split: if_splits)
  have so: "sorted_wrt uuid_less (map fst (el_entities L))" "\<forall>x\<in>set (el_entities L). length (fst x) = 16"
    using inv unfolding entities_ok_def by blast+
  have ok: "entities_ok (el_entities L')"
    using sorted_flat_insert [OF so(1) new assms(3) so(2)] inv assms(3)
    by (auto simp: entities_ok_def L' set_flat_insert [OF new])
  have "e_id e \<notin> fst ` set (el_entities L)" using new by (simp add: map_of_eq_None_iff)
  then have "client_of L' i = client_of L i" if "i \<in> el_marked L" for i
    using that inv map_of_flat_insert [OF new so(1)] by (auto simp: client_of_def L')
  then have "(\<lambda>i. i \<in> el_marked L' \<and> client_of L' i) = (\<lambda>i. i \<in> el_marked L \<and> client_of L i)"
    "(\<lambda>i. i \<in> el_marked L' \<and> \<not> client_of L' i) = (\<lambda>i. i \<in> el_marked L \<and> \<not> client_of L i)"
    by (auto simp: L' fun_eq_iff)
  moreover have "el_marked L' \<subseteq> fst ` set (el_entities L')" using inv by (auto simp: L' set_flat_insert [OF new])
  ultimately show ?thesis using inv ok by (simp add: ledger_inv_def)
qed

lemma inv_round:
  assumes "inj gen" and "ledger_inv gen LK" and "ledger_round gen stage b LK = Inr LK'"
  shows "ledger_inv gen LK'"
proof -
  obtain L K where LK: "LK = (L, K)" by force
  show ?thesis
  proof (cases "bl_claimed_bound b")
    case None
    then show ?thesis using assms by (simp add: ledger_round_def LK bl_has_bound_def)
  next
    case (Some s)
    then show ?thesis using round_result [OF assms(1) assms(2) [unfolded LK] Some, of stage] assms(3) LK by auto
  qed
qed

lemma ledger_inv_reach:
  assumes "inj gen" and "ledger_reach gen stage LK"
  shows "ledger_inv gen LK"
  using assms(2)
proof (induction rule: ledger_reach.induct)
  case reach_start
  then show ?case
    by (simp add: ledger_inv_def el_new_def co_new_def entities_ok_def keys_generated_def holds_once_def)
next
  case (reach_register L K e L')
  then show ?case by (blast intro: inv_register)
next
  case (reach_round LK b LK')
  then show ?case by (blast intro: inv_round [OF assms(1)])
qed

section \<open>Theorems\<close>

text \<open>C30: in every reachable state the ledger holds each entity under its own id and in the order of the
  ids, and only entities it holds are marked.\<close>

theorem ledger_well_formed:
  assumes "inj gen" and "ledger_reach gen stage (L, K)"
  shows "sorted_wrt uuid_less (map fst (el_entities L)) \<and> distinct (map fst (el_entities L)) \<and>
    (\<forall>(i, e)\<in>set (el_entities L). e_id e = i) \<and> el_marked L \<subseteq> fst ` set (el_entities L)"
  using ledger_inv_reach [OF assms] sorted_distinct
  by (auto simp: ledger_inv_def entities_ok_def)

text \<open>A shard with one entity, a client, that stands outside the bound.\<close>

definition demo_gen :: "nat \<Rightarrow> bytes" where
  "demo_gen n = replicate n 0"

definition demo_entity :: entity where
  "demo_entity = \<lparr> e_id = nil_uuid, e_is_client = True, e_client_id = nil_uuid, e_packet_seq = 0,
     e_transfer_generation = 0,
     e_transform = \<lparr> tr_world = 0, tr_position = \<lparr> vx = 0, vy = 0, vz = 0 \<rparr>, tr_bounding_box = aabb_new 3 \<rparr>,
     e_metadata = [] \<rparr>"

definition demo_bound :: grid_shape where
  "demo_bound = \<lparr> gs_id = 0, gs_aabb = \<lparr> bmin = replicate 3 f_5, bmax = replicate 3 f_100 \<rparr> \<rparr>"

definition demo_leaser :: bound_leaser where
  "demo_leaser = \<lparr> bl_claimed_bound = Some demo_bound, bl_claimed_bound_id = 0 \<rparr>"

definition demo_ledger :: entity_ledger where
  "demo_ledger = \<lparr> el_entities = [(nil_uuid, demo_entity)], el_marked = {} \<rparr>"

definition demo_coordinator :: coordinator where
  "demo_coordinator = co_new \<lparr> co_generated := 1,
     co_client_transfers := [[] \<mapsto> transfer_new 0 [] \<lparr> td_entity_ids := [nil_uuid] \<rparr>] \<rparr>"

lemma demo_gen_inj: "inj demo_gen"
  by (auto simp: inj_def demo_gen_def)

lemma demo_ledger_reach: "ledger_reach demo_gen 0 (demo_ledger, co_new)"
proof -
  have "length (e_id demo_entity) = 16" "register_new_entity demo_entity el_new = Inr demo_ledger"
    by (simp_all add: demo_entity_def nil_uuid_def register_new_entity_def el_new_def demo_ledger_def)
  then show ?thesis using reach_register [OF reach_start] by blast
qed

lemma demo_outside: "outside demo_bound demo_ledger = {nil_uuid}"
  by (simp add: outside_def demo_ledger_def demo_entity_def demo_bound_def grid_shape_contains_def
      vec3_list_def aabb_contains_def f_5_def f_100_def f_eval numeral_3_eq_3)

lemma demo_round:
  "ledger_round demo_gen 0 demo_leaser (demo_ledger, co_new) =
    Inr (demo_ledger \<lparr> el_marked := {nil_uuid} \<rparr>, demo_coordinator)"
  by (simp add: ledger_round_def demo_leaser_def bl_has_bound_def bl_get_bound_def demo_ledger_def
      demo_entity_def demo_bound_def grid_shape_contains_def vec3_list_def aabb_contains_def f_5_def
      f_100_def f_eval numeral_3_eq_3 mark_entities_for_transfer_def is_entity_client_def
      add_to_transfer_def co_new_def demo_coordinator_def map_insert_def transfer_new_def demo_gen_def)

theorem ledger_well_formed_witness:
  "sorted_wrt uuid_less (map fst (el_entities demo_ledger)) \<and> distinct (map fst (el_entities demo_ledger))"
  using ledger_well_formed [OF demo_gen_inj demo_ledger_reach] by simp

text \<open>C13: in every reachable state each marked entity is in exactly one transfer, once: a client in one
  of the client transfers, any other entity in one of the entity transfers; no unmarked entity is in a
  transfer.\<close>

theorem marked_in_one_transfer:
  assumes "inj gen" and "ledger_reach gen stage (L, K)"
  shows "(\<forall>i\<in>el_marked L. \<exists>!k. \<exists>t.
      (if client_of L i then co_client_transfers K else co_entity_transfers K) k = Some t \<and> i \<in> set (td_entity_ids t)) \<and>
    (\<forall>k t. co_client_transfers K k = Some t \<longrightarrow> distinct (td_entity_ids t) \<and>
      (\<forall>i\<in>set (td_entity_ids t). i \<in> el_marked L \<and> client_of L i)) \<and>
    (\<forall>k t. co_entity_transfers K k = Some t \<longrightarrow> distinct (td_entity_ids t) \<and>
      (\<forall>i\<in>set (td_entity_ids t). i \<in> el_marked L \<and> \<not> client_of L i))"
proof -
  have c: "holds_once (\<lambda>i. i \<in> el_marked L \<and> client_of L i) (co_client_transfers K)"
    and e: "holds_once (\<lambda>i. i \<in> el_marked L \<and> \<not> client_of L i) (co_entity_transfers K)"
    using ledger_inv_reach [OF assms] by (simp_all add: ledger_inv_def)
  have "\<exists>!k. \<exists>t. (if client_of L i then co_client_transfers K else co_entity_transfers K) k = Some t \<and>
      i \<in> set (td_entity_ids t)" if "i \<in> el_marked L" for i
    using c e that unfolding holds_once_def by (cases "client_of L i") simp_all
  moreover have "\<forall>k t. co_client_transfers K k = Some t \<longrightarrow> distinct (td_entity_ids t) \<and>
      (\<forall>i\<in>set (td_entity_ids t). i \<in> el_marked L \<and> client_of L i)"
    using c unfolding holds_once_def by (rule conjunct2)
  moreover have "\<forall>k t. co_entity_transfers K k = Some t \<longrightarrow> distinct (td_entity_ids t) \<and>
      (\<forall>i\<in>set (td_entity_ids t). i \<in> el_marked L \<and> \<not> client_of L i)"
    using e unfolding holds_once_def by (rule conjunct2)
  ultimately show ?thesis by (intro conjI ballI) simp_all
qed

theorem marked_in_one_transfer_witness:
  "\<exists>!k. \<exists>t. co_client_transfers demo_coordinator k = Some t \<and> nil_uuid \<in> set (td_entity_ids t)"
proof -
  let ?L = "demo_ledger \<lparr> el_marked := {nil_uuid} \<rparr>"
  have r: "ledger_reach demo_gen 0 (?L, demo_coordinator)"
    by (rule reach_round [OF demo_ledger_reach demo_round])
  have c: "client_of ?L nil_uuid" by (simp add: client_of_def demo_ledger_def demo_entity_def)
  have m: "nil_uuid \<in> el_marked ?L" by simp
  from bspec [OF conjunct1 [OF marked_in_one_transfer [OF demo_gen_inj r]] m]
  show ?thesis unfolding if_P [OF c] .
qed

text \<open>A round of the ledger of a shard that holds a bound fails no assertion and marks exactly the
  entities outside the bound, on top of those marked before; entities that are back inside stay
  marked, and when every entity outside is already marked nothing changes at all.\<close>

theorem ledger_round_marks_outside:
  assumes "inj gen" and "ledger_reach gen stage (L, K)" and "bl_claimed_bound b = Some s"
  shows "\<exists>K'. ledger_round gen stage b (L, K) = Inr (L \<lparr> el_marked := el_marked L \<union> outside s L \<rparr>, K') \<and>
    (outside s L \<subseteq> el_marked L \<longrightarrow> K' = K)"
  using round_result [OF assms(1) ledger_inv_reach [OF assms(1,2)] assms(3)] by blast

theorem ledger_round_marks_outside_witness:
  "\<exists>K'. ledger_round demo_gen 0 demo_leaser (demo_ledger, co_new) =
    Inr (demo_ledger \<lparr> el_marked := {nil_uuid} \<rparr>, K')"
  using ledger_round_marks_outside [OF demo_gen_inj demo_ledger_reach, of demo_leaser demo_bound]
  by (auto simp: demo_outside) (auto simp: demo_leaser_def demo_ledger_def)

text \<open>A shard that holds no bound yet claims the first pending one and afterwards the manifest agrees
  that it is this shard's; but when none is pending, or the shard already has a claim, an assertion
  fails.\<close>

theorem leaser_claims_front_bound:
  assumes "json_store J doc" and "hm_json E = J" and "base64_ok E" and "owner_ok E n" and "nid_type n = nt_shard"
    and "doc db = Some m" and "heuristic_view E m h" and "bounds_view E m qs cs"
    and "m pending_entry \<noteq> None" and "bl_claimed_bound b = None"
  shows "case qs of
      [] \<Rightarrow> leaser_round E n b db = Inl (AssertFail ''ClaimNextPendingBound returned null'')
    | s # rest \<Rightarrow>
        if n \<in> snd ` set cs
        then leaser_round E n b db = Inl (AssertFail ''This should never occur'')
        else \<exists>db' m'. leaser_round E n b db =
            Inr (\<lparr> bl_claimed_bound = Some s, bl_claimed_bound_id = gs_id s \<rparr>, db') \<and>
          doc db' = Some m' \<and> heuristic_view E m' h \<and> bounds_view E m' rest (cs @ [(s, n)]) \<and>
          bound_id_from_shard E n db' = Inr (Some (gs_id s))"
proof -
  obtain db' m' where c: "claim_next_pending_bound E n db = Inr (case qs of [] \<Rightarrow> None | s # _ \<Rightarrow> Some s, db')"
    "doc db' = Some m'" "heuristic_view E m' h"
    "bounds_view E m' (tl qs) (cs @ (case qs of [] \<Rightarrow> [] | s # _ \<Rightarrow> [(s, n)]))"
    using json_store.claim_step [OF assms(1-4,6-9)] by blast
  show ?thesis
  proof (cases qs)
    case Nil
    then show ?thesis using c by (simp add: leaser_round_def claim_bound_def assms(10))
  next
    case (Cons s rest)
    have n: "nid_ok n" using assms(4) by (simp add: owner_ok_def)
    have v: "bounds_view E m' rest (cs @ [(s, n)])" using c(4) Cons by simp
    note l = json_store.bound_lookup [OF assms(1-3) c(2) v n assms(5)]
    show ?thesis
    proof (cases "n \<in> snd ` set cs")
      case True
      then have "filter (\<lambda>c. snd c = n) cs \<noteq> []" by (force simp: filter_empty_conv)
      then obtain x xs where "filter (\<lambda>c. snd c = n) cs = x # xs" by (auto simp: neq_Nil_conv)
      then have "bound_id_from_shard E n db' = Inl (AssertFail ''This should never occur'')"
        using l by (cases xs) simp_all
      then show ?thesis using True c(1) Cons by (simp add: leaser_round_def claim_bound_def assms(10))
    next
      case False
      then have "filter (\<lambda>c. snd c = n) cs = []" by (force simp: filter_empty_conv)
      then have "bound_id_from_shard E n db' = Inr (Some (gs_id s))" using l by simp
      then show ?thesis
        using False c(1-3) v Cons by (auto simp: leaser_round_def claim_bound_def assms(10))
    qed
  qed
qed

theorem leaser_claims_front_bound_witness:
  "\<exists>db0 db db'. push_heuristic demo_env grid_new None = Inr db0 \<and>
    insert_pending_bound demo_env \<lparr> pb_id = 0, pb_data = demo_enc64 (grid_shape_enc grid_shape_new) \<rparr> db0 = Inr db \<and>
    leaser_round demo_env (make_id_shard nil_uuid) bl_new db =
      Inr (\<lparr> bl_claimed_bound = Some grid_shape_new, bl_claimed_bound_id = gs_id grid_shape_new \<rparr>, db')"
proof -
  obtain db0 db m where *: "push_heuristic demo_env grid_new None = Inr db0"
    "insert_pending_bound demo_env \<lparr> pb_id = 0, pb_data = demo_enc64 (grid_shape_enc grid_shape_new) \<rparr> db0 = Inr db"
    "mem_doc_of db = Some m" "heuristic_view demo_env m grid_new"
    "bounds_view demo_env m [grid_shape_new] []" "m pending_entry \<noteq> None" by (rule demo_store)
  have s: "nid_type (make_id_shard nil_uuid) = nt_shard" by (simp add: make_id_shard_def)
  have b: "bl_claimed_bound bl_new = None" by (simp add: bl_new_def)
  from leaser_claims_front_bound [OF memjson.json_store_axioms demo_env_json demo_base64 demo_owner s *(3-6) b]
  show ?thesis using *(1,2) by auto
qed

end
