(* ===== verification/Network_Manifest.thy ===== *)
theory Network_Manifest
  imports Text_Numbers Interlink_Delivery
begin

text \<open>
  The telemetry table of the network (\<open>Interlink/Telemetry/NetworkManifest\<close>, as it is built: fields and
  values are plain text). A node writes one line per connection with thirteen columns under its
  identity, and the readers split the values back into rows. Printing a \<open>float\<close> is a parameter.
\<close>

section \<open>Operations\<close>

definition network_telemetry_table :: string where
  "network_telemetry_table = ''Network_Telemetry''"

definition telemetry_columns :: "(f32 \<Rightarrow> bytes) \<Rightarrow> connection_telemetry \<Rightarrow> bytes list" where
  "telemetry_columns F t =
    [ct_identity_id t, ct_target_id t, dec_of_int (sint (ct_ping_ms t)), F (ct_in_bytes_per_sec t),
     F (ct_out_bytes_per_sec t), F (ct_in_packets_per_sec t), dec_of (unat (ct_pending_reliable t)),
     dec_of (unat (ct_pending_unreliable t)), dec_of (unat (ct_sent_unacked t)),
     dec_of (unat (ct_queue_time t)), F (ct_quality_local t), F (ct_quality_remote t),
     dec_of_int (sint (ct_state t))]"

definition telemetry_line :: "(f32 \<Rightarrow> bytes) \<Rightarrow> connection_telemetry \<Rightarrow> bytes" where
  "telemetry_line F t = join_on 9 (telemetry_columns F t) @ [10]"

text \<open>Whether a failure is printed, and the database.\<close>

definition telemetry_update ::
  "(f32 \<Rightarrow> bytes) \<Rightarrow> 'db redis_connection \<Rightarrow> bytes \<Rightarrow> connection_telemetry list \<Rightarrow> 'db \<Rightarrow> bool \<times> 'db" where
  "telemetry_update F C shard_id connections db =
    (if connections = [] then (False, db)
     else let (writeResult, db) = db_hset C network_telemetry_table shard_id
            (concat (map (telemetry_line F) connections)) db
          in (writeResult \<noteq> 0, db))"

text \<open>One round of the thread of \<open>ScheduleNetworkPings\<close> on the connections of the interlink.\<close>

definition network_ping ::
  "(f32 \<Rightarrow> bytes) \<Rightarrow> 'db redis_connection \<Rightarrow> 'a il_env \<Rightarrow> (u32 \<Rightarrow> connection_telemetry) \<Rightarrow> 'a interlink \<Rightarrow>
   'db \<Rightarrow> bool \<times> 'db" where
  "network_ping F C E status s db =
    telemetry_update F C (str_bytes (nid_to_string (ie_uuid_str E) (ie_self E)))
      (get_connection_telemetry E status s) db"

definition telemetry_rows :: "bytes \<times> bytes \<Rightarrow> bytes list list" where
  "telemetry_rows pair =
    concat (map (\<lambda>line.
      if line = [] then []
      else let columns = getlines 9 line
           in if length columns \<noteq> 13 then [] else [fst pair # columns])
      (getlines 10 (snd pair)))"

definition get_all_telemetry :: "'db redis_connection \<Rightarrow> 'db \<Rightarrow> bytes list list" where
  "get_all_telemetry C db = concat (map telemetry_rows (db_hgetall C network_telemetry_table db))"

section \<open>Lemmas\<close>

definition plain_text :: "bytes \<Rightarrow> bool" where
  "plain_text s \<longleftrightarrow> 9 \<notin> set s \<and> 10 \<notin> set s"

definition telemetry_plain :: "(f32 \<Rightarrow> bytes) \<Rightarrow> connection_telemetry \<Rightarrow> bool" where
  "telemetry_plain F t \<longleftrightarrow> plain_text (ct_identity_id t) \<and> plain_text (ct_target_id t) \<and> (\<forall>x. plain_text (F x))"

lemma plain_dec: "plain_text (dec_of n)" "plain_text (dec_of_int i)"
  by (simp_all add: plain_text_def dec_of_int_def dec_of_no is_digit_def)

lemma dec_of_int_nonempty [simp]: "dec_of_int i \<noteq> []"
  by (simp add: dec_of_int_def)

lemma columns_plain: "telemetry_plain F t \<Longrightarrow> \<forall>c\<in>set (telemetry_columns F t). plain_text c"
  using plain_dec by (simp add: telemetry_plain_def telemetry_columns_def)

lemma columns_length [simp]: "length (telemetry_columns F t) = 13"
  by (simp add: telemetry_columns_def)

lemma columns_last [simp]: "last (telemetry_columns F t) \<noteq> []"
  by (simp add: telemetry_columns_def)

lemma columns_nonempty [simp]: "telemetry_columns F t \<noteq> []"
  by (simp add: telemetry_columns_def)

lemma join_not_in: "\<forall>c\<in>set cs. d \<notin> set c \<Longrightarrow> d \<noteq> s \<Longrightarrow> d \<notin> set (join_on s cs)"
  by (induction s cs rule: join_on.induct) auto

lemma join_nonempty: "cs \<noteq> [] \<Longrightarrow> last cs \<noteq> [] \<Longrightarrow> join_on s cs \<noteq> []"
  by (induction s cs rule: join_on.induct) auto

lemma rows_of_lines:
  assumes "\<forall>t\<in>set ts. telemetry_plain F t"
  shows "telemetry_rows (f, concat (map (telemetry_line F) ts)) = map (\<lambda>t. f # telemetry_columns F t) ts"
proof -
  let ?j = "\<lambda>t. join_on 9 (telemetry_columns F t)"
  have p: "\<forall>c\<in>set (telemetry_columns F t). 9 \<notin> set c \<and> 10 \<notin> set c" if "t \<in> set ts" for t
    using columns_plain [of F t] assms that by (simp add: plain_text_def)
  have c: "getlines 9 (?j t) = telemetry_columns F t" if "t \<in> set ts" for t
    using p [OF that] by (intro getlines_join) simp_all
  have n: "10 \<notin> set (?j t)" if "t \<in> set ts" for t
    by (rule join_not_in) (use p [OF that] in auto)
  have "concat (map (telemetry_line F) ts) = concat (map (\<lambda>p. p @ [10]) (map ?j ts))"
    by (simp add: telemetry_line_def [abs_def] comp_def)
  also have "getlines 10 \<dots> = map ?j ts"
    using n by (intro getlines_concat) auto
  finally have l: "getlines 10 (concat (map (telemetry_line F) ts)) = map ?j ts" .
  have "telemetry_rows (f, concat (map (telemetry_line F) ts)) =
      concat (map (\<lambda>t. [f # telemetry_columns F t]) ts)"
    unfolding telemetry_rows_def snd_conv fst_conv l map_map
    by (rule arg_cong [where f = concat], rule map_cong [OF refl])
       (simp add: c join_nonempty)
  then show ?thesis by simp
qed

lemma rows_field: "r \<in> set (telemetry_rows p) \<Longrightarrow> hd r = fst p"
  by (auto simp: telemetry_rows_def Let_def split: if_splits)

lemma rows_of_field:
  assumes "distinct (map fst all)" and "(f, v) \<in> set all"
  shows "filter (\<lambda>r. hd r = f) (concat (map telemetry_rows all)) = telemetry_rows (f, v)"
proof -
  obtain xs ys where all: "all = xs @ (f, v) # ys" using assms(2) by (meson split_list)
  have no: "filter (\<lambda>r. hd r = f) (concat (map telemetry_rows zs)) = []" if "f \<notin> fst ` set zs" for zs
    using that rows_field by (force simp: filter_empty_conv)
  have "filter (\<lambda>r. hd r = f) (telemetry_rows (f, v)) = telemetry_rows (f, v)"
    using rows_field by (simp add: filter_id_conv)
  moreover have "f \<notin> fst ` set xs" "f \<notin> fst ` set ys" using assms(1) all by auto
  ultimately show ?thesis using no by (simp add: all)
qed

text \<open>The string of an identity holds neither a tab nor a newline.\<close>

lemma identity_plain:
  assumes "uuid_printer f"
  shows "plain_text (str_bytes (nid_to_string f n))"
proof -
  have "(of_char c :: nat) \<ge> 32" if "c \<in> set (nid_to_string f n)" for c
    using that assms visible_nt_name [of "nid_type n"]
    by (auto simp: nid_to_string_eq uuid_printer_def visible_def list_all_iff split: if_splits
        intro: less_imp_le)
  moreover have "unat (word_of_nat (of_char c) :: u8) = of_char c" for c
    by (simp add: unat_of_nat take_bit_nat_eq_self nat_of_char_less_256 [simplified])
  ultimately have "32 \<le> unat b" if "b \<in> set (str_bytes (nid_to_string f n))" for b
    using that by (auto simp: str_bytes_def)
  then show ?thesis by (force simp: plain_text_def)
qed

lemma connection_plain:
  assumes "uuid_printer (ie_uuid_str E)" and "\<forall>x. plain_text (F x)"
  shows "\<forall>t\<in>set (get_connection_telemetry E status s). telemetry_plain F t"
  using assms identity_plain by (auto simp: get_connection_telemetry_def telemetry_plain_def)

context redis
begin

lemma telemetry_of_field:
  assumes "with_sync C = R" and "hash_key network_telemetry_table"
  shows "filter (\<lambda>r. hd r = f) (get_all_telemetry C db) =
    (case hash_of db network_telemetry_table f of None \<Rightarrow> [] | Some v \<Rightarrow> telemetry_rows (f, v))"
proof -
  let ?all = "op_hgetall R network_telemetry_table db"
  have d: "distinct (map fst ?all)" and m: "\<And>v. (f, v) \<in> set ?all \<longleftrightarrow> hash_of db network_telemetry_table f = Some v"
    using hgetall [OF assms(2)] hgetall_mem [OF assms(2)] by auto
  show ?thesis
  proof (cases "hash_of db network_telemetry_table f")
    case None
    then have "fst p \<noteq> f" if "p \<in> set ?all" for p using that m [of "snd p"] by (cases p) auto
    then show ?thesis
      using None rows_field by (force simp: get_all_telemetry_def db_hgetall_def assms(1) filter_empty_conv)
  next
    case (Some v)
    then show ?thesis
      using rows_of_field [OF d] m by (simp add: get_all_telemetry_def db_hgetall_def assms(1))
  qed
qed

end

section \<open>Theorems\<close>


text \<open>A store whose node has one connection.\<close>

definition demo_status :: "u32 \<Rightarrow> connection_telemetry" where
  "demo_status h = \<lparr> ct_identity_id = [], ct_target_id = [], ct_ping_ms = 5, ct_in_bytes_per_sec = 0,
     ct_out_bytes_per_sec = 0, ct_in_packets_per_sec = 0, ct_pending_reliable = 0,
     ct_pending_unreliable = 0, ct_sent_unacked = 0, ct_queue_time = 0, ct_quality_local = 0,
     ct_quality_remote = 0, ct_state = 3 \<rparr>"


end
