(* ===== verification/Server_Process.thy ===== *)
theory Server_Process
  imports Watchdog Entity_Ledger Network_Manifest
begin

text \<open>
  The processes around the components: the singletons and the credentials
  (\<open>Global/Misc/Singleton.hpp\<close>, \<open>Network/NetworkCredentials.hpp\<close>), the server library a game links
  against (\<open>API/Server/src/AtlasNetServer.cpp\<close>), the shard and the proxy executables
  (\<open>runtime/shard\<close>, \<open>runtime/proxy\<close>), and the service that places a client that has just connected
  (\<open>Handshake/HandshakeService.hpp\<close>).
\<close>

section \<open>Singletons\<close>

text \<open>\<open>Get\<close> makes the instance when the type has a default constructor, which is the first argument.\<close>

definition singleton_get :: "'t option \<Rightarrow> 't option \<Rightarrow> ('t \<times> 't option) res" where
  "singleton_get default_value inst =
    (case inst of
       Some x \<Rightarrow> Inr (x, inst)
     | None \<Rightarrow>
         (case default_value of
            Some d \<Rightarrow> Inr (d, Some d)
          | None \<Rightarrow> Inl (AssertFail ''Singleton not constructed. Call Make(...) first.'')))"

definition singleton_make :: "'t \<Rightarrow> 't option \<Rightarrow> ('t \<times> 't option) res" where
  "singleton_make x inst =
    (case inst of None \<Rightarrow> Inr (x, Some x) | Some _ \<Rightarrow> Inl (AssertFail ''Singleton already exists''))"

definition singleton_exists :: "'t option \<Rightarrow> bool" where
  "singleton_exists inst \<longleftrightarrow> inst \<noteq> None"

definition singleton_destroy :: "'t option \<Rightarrow> 't option" where
  "singleton_destroy inst = None"

section \<open>The state of a process\<close>

text \<open>The credentials, the components it owns, and which of its threads and handlers run.\<close>

record 'a process =
  ps_credentials :: "network_identity option"
  ps_interlink :: "'a interlink"
  ps_events :: "nat event_system"
  ps_ledger :: entity_ledger
  ps_generated :: nat
  ps_crash_handler :: bool
  ps_ticking :: bool
  ps_network_pings :: bool
  ps_health_pings :: bool
  ps_signals :: bool
  ps_leasing :: bool
  ps_ledger_loop :: bool
  ps_shard_logic :: bool
  ps_shutdown :: bool

definition process_new :: "'a process" where
  "process_new = \<lparr> ps_credentials = None,
     ps_interlink = \<lparr> il_connections = [], il_queued = [], il_init = False, il_effects = [], il_refused = [] \<rparr>,
     ps_events = es_new, ps_ledger = el_new, ps_generated = 0, ps_crash_handler = False,
     ps_ticking = False, ps_network_pings = False, ps_health_pings = False, ps_signals = False,
     ps_leasing = False, ps_ledger_loop = False, ps_shard_logic = False, ps_shutdown = False \<rparr>"

definition changeS :: "('s \<Rightarrow> 's) \<Rightarrow> ('s, unit) stm" where
  "changeS f = (\<lambda>s. Inr ((), f s))"

definition gen_uuid :: "(nat \<Rightarrow> bytes) \<Rightarrow> ('a process, bytes) stm" where
  "gen_uuid gen = (\<lambda>p. Inr (gen (ps_generated p), p \<lparr> ps_generated := Suc (ps_generated p) \<rparr>))"

definition make_credentials :: "network_identity \<Rightarrow> ('a process, unit) stm" where
  "make_credentials n = (\<lambda>p.
    bindE (singleton_make n (ps_credentials p)) (\<lambda>(_, c). Inr ((), p \<lparr> ps_credentials := c \<rparr>)))"

text \<open>There is no default for the credentials: their constructor takes the identity.\<close>

definition self_identity :: "'a process \<Rightarrow> network_identity res" where
  "self_identity p = bindE (singleton_get None (ps_credentials p)) (\<lambda>(n, _). Inr n)"

text \<open>\<open>Interlink::Init\<close> under these credentials; where it succeeds it starts the tick thread.\<close>

definition start_link :: "'a il_env \<Rightarrow> ('a process, unit) stm" where
  "start_link E = (\<lambda>p.
    bindE (self_identity p) (\<lambda>self.
    bindE (interlink_init (E \<lparr> ie_self := self \<rparr>) (ps_interlink p)) (\<lambda>(_, il).
      Inr ((), p \<lparr> ps_interlink := il, ps_ticking := il_init il \<rparr>))))"

text \<open>A round of each of the two ping threads.\<close>

definition health_ping_round ::
  "'d dbl_ops \<Rightarrow> 'db redis_connection \<Rightarrow> 'd \<Rightarrow> 'a process \<Rightarrow> 'db \<Rightarrow> (bool \<times> 'db) res" where
  "health_ping_round D C now p db = bindE (self_identity p) (\<lambda>self. Inr (health_update D C self now db))"

definition network_ping_round ::
  "(f32 \<Rightarrow> bytes) \<Rightarrow> 'db redis_connection \<Rightarrow> 'a il_env \<Rightarrow> (u32 \<Rightarrow> connection_telemetry) \<Rightarrow> 'a process \<Rightarrow>
   'db \<Rightarrow> (bool \<times> 'db) res" where
  "network_ping_round F C E status p db =
    bindE (self_identity p) (\<lambda>self. Inr (network_ping F C (E \<lparr> ie_self := self \<rparr>) status (ps_interlink p) db))"

text \<open>The sleeping loops: \<open>others\<close> is what the other threads do during a turn, at most \<open>k\<close> turns.\<close>

fun process_loop :: "nat \<Rightarrow> (nat \<Rightarrow> 'a process \<Rightarrow> 'a process) \<Rightarrow> 'a process \<Rightarrow> 'a process option" where
  "process_loop 0 others p = (if ps_shutdown p then Some p else None)"
| "process_loop (Suc k) others p = (if ps_shutdown p then Some p else process_loop k others (others k p))"

section \<open>The server library\<close>

text \<open>The callback for log events is number 0. The thread of the shard logic only sleeps.\<close>

definition server_initialize :: "(nat \<Rightarrow> bytes) \<Rightarrow> 'a il_env \<Rightarrow> ('a process, unit) stm" where
  "server_initialize gen E =
    bindS (changeS (\<lambda>p. p \<lparr> ps_crash_handler := True \<rparr>)) (\<lambda>_.
    bindS (gen_uuid gen) (\<lambda>u.
    bindS (make_credentials (make_id_shard u)) (\<lambda>_.
    bindS (start_link E) (\<lambda>_.
    bindS (changeS (\<lambda>p. p \<lparr> ps_network_pings := True, ps_health_pings := True,
      ps_events := event_system_init (ps_events p), ps_signals := True \<rparr>)) (\<lambda>_.
    bindS (\<lambda>p. bindE (event_subscribe event_registry Log_Event 0 (ps_events p))
      (\<lambda>es. Inr ((), p \<lparr> ps_events := es \<rparr>))) (\<lambda>_.
    changeS (\<lambda>p. p \<lparr> ps_leasing := True, ps_ledger_loop := True, ps_shard_logic := True \<rparr>)))))))"

text \<open>What the game gets back for an entity: an id and a copy of the data.\<close>

datatype handle_data = Minimal_Data entity_minimal | Full_Data entity

record entity_handle =
  h_id :: bytes
  h_data :: handle_data

definition entity_minimal_new :: entity_minimal where
  "entity_minimal_new = \<lparr> e_id = nil_uuid, e_is_client = False, e_client_id = nil_uuid, e_packet_seq = 0,
     e_transfer_generation = 0, e_transform = transform_new \<rparr>"

definition handle_new :: entity_handle where
  "handle_new = \<lparr> h_id = nil_uuid, h_data = Minimal_Data entity_minimal_new \<rparr>"

text \<open>\<open>Get\<close> overwrites the data; what it returns refers to a local variable and cannot be used.\<close>

definition handle_get :: "entity_handle \<Rightarrow> entity_handle" where
  "handle_get h = h \<lparr> h_data := Minimal_Data entity_minimal_new \<rparr>"

definition handle_is_local :: "entity_handle \<Rightarrow> bool res" where
  "handle_is_local h = Inl (UB Missing_Return)"

definition handle_is_remote :: "entity_handle \<Rightarrow> bool res" where
  "handle_is_remote h = bindE (handle_is_local h) (\<lambda>b. Inr (\<not> b))"

definition internal_create_entity ::
  "(nat \<Rightarrow> bytes) \<Rightarrow> transform \<Rightarrow> bytes \<Rightarrow> ('a process, entity) stm" where
  "internal_create_entity gen t metadata =
    bindS (gen_uuid gen) (\<lambda>u. returnS
      (entity_minimal.extend (entity_minimal_new \<lparr> e_id := u, e_transform := t \<rparr>) \<lparr> e_metadata = metadata \<rparr>))"

definition register_in_ledger :: "entity \<Rightarrow> ('a process, unit) stm" where
  "register_in_ledger e = (\<lambda>p.
    bindE (register_new_entity e (ps_ledger p)) (\<lambda>L. Inr ((), p \<lparr> ps_ledger := L \<rparr>)))"

definition create_entity ::
  "(nat \<Rightarrow> bytes) \<Rightarrow> transform \<Rightarrow> bytes \<Rightarrow> ('a process, entity_handle) stm" where
  "create_entity gen t metadata =
    bindS (internal_create_entity gen t metadata) (\<lambda>e.
    bindS (register_in_ledger e) (\<lambda>_. returnS handle_new))"

definition create_client_entity ::
  "(nat \<Rightarrow> bytes) \<Rightarrow> bytes \<Rightarrow> transform \<Rightarrow> bytes \<Rightarrow> ('a process, entity_handle) stm" where
  "create_client_entity gen c t metadata =
    bindS (internal_create_entity gen t metadata) (\<lambda>e.
    bindS (register_in_ledger (e \<lparr> e_client_id := c, e_is_client := True \<rparr>)) (\<lambda>_. returnS handle_new))"

definition sync_entities ::
  "bytes list \<Rightarrow> bytes list \<Rightarrow> entity_handle list \<Rightarrow> ('a process, bytes list \<times> entity_handle list) stm" where
  "sync_entities active released acquired = returnS (released, acquired)"

section \<open>The shard and the proxy executables\<close>

text \<open>The identity \<open>Partition::Init\<close> generates only names its log.\<close>

definition partition_init :: "(nat \<Rightarrow> bytes) \<Rightarrow> 'a il_env \<Rightarrow> ('a process, unit) stm" where
  "partition_init gen E =
    bindS (gen_uuid gen) (\<lambda>_.
    bindS (changeS (\<lambda>p. p \<lparr> ps_health_pings := True, ps_network_pings := True \<rparr>)) (\<lambda>_.
    start_link E))"

definition process_link_shutdown :: "('a process, unit) stm" where
  "process_link_shutdown = (\<lambda>p.
    let p = p \<lparr> ps_interlink := close_all_connections (ps_interlink p) \<rparr>
    in if ps_ticking p then Inr ((), p \<lparr> ps_ticking := False \<rparr>) else Inl (RuntimeError ''system_error''))"

text \<open>\<open>Partition::Init\<close> with its loop and shutdown, and \<open>main\<close> around it.\<close>

definition partition_main ::
  "(nat \<Rightarrow> bytes) \<Rightarrow> 'a il_env \<Rightarrow> nat \<Rightarrow> (nat \<Rightarrow> 'a process \<Rightarrow> 'a process) \<Rightarrow> 'a process \<Rightarrow>
   (unit \<times> 'a process) res option" where
  "partition_main gen E k others p =
    (case partition_init gen E (p \<lparr> ps_crash_handler := True, ps_signals := True \<rparr>) of
       Inl e \<Rightarrow> Some (Inl e)
     | Inr (_, p) \<Rightarrow> map_option process_link_shutdown (process_loop k others p))"

definition proxy_init :: "(nat \<Rightarrow> bytes) \<Rightarrow> 'a il_env \<Rightarrow> ('a process, unit) stm" where
  "proxy_init gen E =
    bindS (changeS (\<lambda>p. p \<lparr> ps_crash_handler := True \<rparr>)) (\<lambda>_.
    bindS (gen_uuid gen) (\<lambda>u.
    bindS (make_credentials \<lparr> nid_type = nt_proxy, nid_id = u \<rparr>) (\<lambda>_.
    bindS (start_link E) (\<lambda>_.
    changeS (\<lambda>p. p \<lparr> ps_network_pings := True, ps_health_pings := True,
      ps_events := event_system_init (ps_events p) \<rparr>)))))"

definition proxy_shutdown :: "'a process \<Rightarrow> 'a process" where
  "proxy_shutdown p = p \<lparr> ps_shutdown := True \<rparr>"

definition proxy_run ::
  "(nat \<Rightarrow> bytes) \<Rightarrow> 'a il_env \<Rightarrow> nat \<Rightarrow> (nat \<Rightarrow> 'a process \<Rightarrow> 'a process) \<Rightarrow> 'a process \<Rightarrow>
   (unit \<times> 'a process) res option" where
  "proxy_run gen E k others p =
    (case proxy_init gen E p of
       Inl e \<Rightarrow> Some (Inl e)
     | Inr (_, p) \<Rightarrow> map_option (\<lambda>p. Inr ((), p)) (process_loop k others p))"

section \<open>Placing a client\<close>

datatype verify_status = Verify_Accepted | Verify_Rejected | Verify_Error

record verify_reply =
  vr_status :: verify_status
  vr_spawn :: transform

text \<open>The draws of the distribution over \<open>[-100, 100)\<close> are a parameter; a call takes two of them.\<close>

definition verify_client :: "f32 \<Rightarrow> f32 \<Rightarrow> 'a client \<Rightarrow> verify_reply" where
  "verify_client x y c =
    \<lparr> vr_status = Verify_Accepted,
      vr_spawn = transform_new \<lparr> tr_position := \<lparr> vx = x, vy = y, vz = 0 \<rparr> \<rparr> \<rparr>"

definition determine_shard :: "'db hm_env \<Rightarrow> transform \<Rightarrow> 'db \<Rightarrow> network_identity option res" where
  "determine_shard E t db = shard_from_position E t db"

text \<open>The place and the shard are what the service writes to its log.\<close>

definition on_client_connect ::
  "'db hm_env \<Rightarrow> f32 \<Rightarrow> f32 \<Rightarrow> 'a client \<Rightarrow> 'db \<Rightarrow> (transform \<times> network_identity option) res" where
  "on_client_connect E x y c db =
    (let r = verify_client x y c
     in bindE (determine_shard E (vr_spawn r) db) (\<lambda>target. Inr (vr_spawn r, target)))"

section \<open>Starting a process\<close>

text \<open>The surroundings in which \<open>Interlink::Init\<close> starts.\<close>

definition link_starts :: "'a il_env \<Rightarrow> bool" where
  "link_starts E \<longleftrightarrow> ie_gns_ok E \<and> ie_identity_ok E \<and> ie_listen_ok E"

lemma establish_watchdog:
  assumes "nid_type (ie_self E) \<noteq> nt_game_client"
  obtains b il' where "establish_connection_to E make_id_watchdog il = Inr (b, il')"
    and "il_effects il' = il_effects il"
proof -
  have "nid_is_internal make_id_watchdog"
    by (simp add: nid_is_internal_def make_id_watchdog_def nt_watchdog_def nt_shard_def nt_game_client_def)
  then have "\<exists>b il'. establish_connection_to E make_id_watchdog il = Inr (b, il') \<and> il_effects il' = il_effects il"
    using assms
    by (auto simp: establish_connection_to_def insert_connection_def
        split: option.split intro: exI [of _ True])
  then show ?thesis using that by blast
qed

lemma interlink_init_starts:
  assumes "link_starts E" and "nid_type self = nt_shard \<or> nid_type self = nt_proxy"
  shows "\<exists>il'. interlink_init (E \<lparr> ie_self := self \<rparr>) il = Inr ((), il') \<and> il_init il' \<and>
    Register_Self (ie_own_ip E) \<in> set (il_effects il')"
proof -
  let ?E = "E \<lparr> ie_self := self \<rparr>"
  let ?il = "if nid_type self = nt_proxy
    then emit (Register_Public (ie_no_ip E)) (emit (Register_Self (ie_own_ip E)) il)
    else emit (Register_Self (ie_own_ip E)) il"
  have t: "nid_type self \<noteq> nt_invalid" "nid_is_internal self" "nid_type self \<noteq> nt_game_client"
    using assms(2) by (auto simp: nid_is_internal_def nt_shard_def nt_proxy_def nt_invalid_def
        nt_game_client_def nt_watchdog_def nt_cartograph_def)
  obtain b il' where e: "establish_connection_to ?E make_id_watchdog ?il = Inr (b, il')"
      "il_effects il' = il_effects ?il"
    using establish_watchdog [of ?E ?il] t(3) by auto
  have "interlink_init ?E il = Inr ((), il' \<lparr> il_init := True \<rparr>)"
    using assms(2,1) t e(1)
    by (elim disjE) (simp_all add: interlink_init_def link_starts_def bindS_def nt_shard_def nt_proxy_def)
  moreover have "Register_Self (ie_own_ip E) \<in> set (il_effects il')"
    using e(2) by (simp add: emit_def)
  ultimately show ?thesis by simp
qed

lemma self_identity_some [simp]: "ps_credentials p = Some n \<Longrightarrow> self_identity p = Inr n"
  by (simp add: self_identity_def singleton_get_def)

lemma self_identity_none [simp]: "ps_credentials p = None \<Longrightarrow>
  self_identity p = Inl (AssertFail ''Singleton not constructed. Call Make(...) first.'')"
  by (simp add: self_identity_def singleton_get_def)

lemma make_credentials_simps [simp]:
  "ps_credentials p = None \<Longrightarrow> make_credentials n p = Inr ((), p \<lparr> ps_credentials := Some n \<rparr>)"
  "ps_credentials p = Some m \<Longrightarrow> make_credentials n p = Inl (AssertFail ''Singleton already exists'')"
  by (simp_all add: make_credentials_def singleton_make_def)

lemma log_event_subscribes:
  assumes "es_init s"
  shows "\<exists>s'. event_subscribe event_registry Log_Event f s = Inr s'"
  using assms by (simp add: event_subscribe_def)

text \<open>Everything a shard needs while it runs.\<close>

definition shard_running :: "'a process \<Rightarrow> bool" where
  "shard_running p \<longleftrightarrow> ps_ticking p \<and> ps_network_pings p \<and> ps_health_pings p \<and> ps_leasing p \<and>
    ps_ledger_loop p \<and> (\<exists>u. ps_credentials p = Some (make_id_shard u))"

lemma server_initialize_runs:
  assumes "link_starts E" and "ps_credentials p = None"
  shows "\<exists>p'. server_initialize gen E p = Inr ((), p') \<and> shard_running p' \<and>
    self_identity p' = Inr (make_id_shard (gen (ps_generated p))) \<and>
    Register_Self (ie_own_ip E) \<in> set (il_effects (ps_interlink p')) \<and> ps_ledger p' = ps_ledger p"
proof -
  let ?n = "make_id_shard (gen (ps_generated p))"
  obtain il where il: "interlink_init (E \<lparr> ie_self := ?n \<rparr>) (ps_interlink p) = Inr ((), il)" "il_init il"
      "Register_Self (ie_own_ip E) \<in> set (il_effects il)"
    using interlink_init_starts [OF assms(1), of ?n "ps_interlink p"] by (auto simp: make_id_shard_def)
  obtain es where es: "event_subscribe event_registry Log_Event 0 (event_system_init (ps_events p)) = Inr es"
    using log_event_subscribes [of "event_system_init (ps_events p)" 0] by (auto simp: event_system_init_def)
  show ?thesis
    using assms(2) il es
    by (auto simp: server_initialize_def bindS_def changeS_def gen_uuid_def start_link_def shard_running_def
        self_identity_def singleton_get_def make_credentials_def singleton_make_def)
qed

text \<open>On a node where the network starts, initialising the server library succeeds: the process has the
  credentials of a shard with a fresh id, has registered its address, and runs the threads that tick the
  interlink, send the pings, lease a bound and loop over the ledger. A second initialisation fails.\<close>

theorem server_starts_once:
  assumes "link_starts E" and "ps_credentials p = None"
  shows "\<exists>p'. server_initialize gen E p = Inr ((), p') \<and> shard_running p' \<and>
    self_identity p' = Inr (make_id_shard (gen (ps_generated p))) \<and>
    Register_Self (ie_own_ip E) \<in> set (il_effects (ps_interlink p')) \<and>
    server_initialize gen E p' = Inl (AssertFail ''Singleton already exists'')"
proof -
  obtain p' where p': "server_initialize gen E p = Inr ((), p')" "shard_running p'"
      "self_identity p' = Inr (make_id_shard (gen (ps_generated p)))"
      "Register_Self (ie_own_ip E) \<in> set (il_effects (ps_interlink p'))"
    using server_initialize_runs [OF assms] by blast
  then obtain u where "ps_credentials p' = Some (make_id_shard u)" by (auto simp: shard_running_def)
  then have "server_initialize gen E p' = Inl (AssertFail ''Singleton already exists'')"
    by (simp add: server_initialize_def bindS_def changeS_def gen_uuid_def make_credentials_def singleton_make_def)
  with p' show ?thesis by blast
qed

text \<open>C28: the shard executable never gets past its initialisation: it makes no credentials, so that the
  interlink and both ping threads run into the assertion of the singleton, whatever the network does.\<close>

theorem partition_never_starts:
  assumes "ps_credentials p = None"
  shows "partition_main gen E k others p =
      Some (Inl (AssertFail ''Singleton not constructed. Call Make(...) first.'')) \<and>
    health_ping_round D C now p db = Inl (AssertFail ''Singleton not constructed. Call Make(...) first.'') \<and>
    network_ping_round F C E status p db = Inl (AssertFail ''Singleton not constructed. Call Make(...) first.'')"
  using assms
  by (simp add: partition_main_def partition_init_def bindS_def gen_uuid_def changeS_def start_link_def
      self_identity_def singleton_get_def health_ping_round_def network_ping_round_def)

lemma proxy_starts:
  assumes "link_starts E" and "ps_credentials p = None"
  shows "\<exists>p'. proxy_init gen E p = Inr ((), p') \<and> ps_ticking p' \<and> ps_network_pings p' \<and> ps_health_pings p' \<and>
    self_identity p' = Inr \<lparr> nid_type = nt_proxy, nid_id = gen (ps_generated p) \<rparr>"
proof -
  let ?n = "\<lparr> nid_type = nt_proxy, nid_id = gen (ps_generated p) \<rparr>"
  obtain il where il: "interlink_init (E \<lparr> ie_self := ?n \<rparr>) (ps_interlink p) = Inr ((), il)" "il_init il"
    using interlink_init_starts [OF assms(1), of ?n "ps_interlink p"] by auto
  show ?thesis
    using assms(2) il
    by (auto simp: proxy_init_def bindS_def changeS_def gen_uuid_def start_link_def
        self_identity_def singleton_get_def make_credentials_def singleton_make_def)
qed

text \<open>Once asked to shut down, the loops end.\<close>

lemma process_loop_ends: "ps_shutdown p \<Longrightarrow> process_loop k others p = Some p"
  by (cases k) simp_all

section \<open>Entities\<close>

text \<open>Creating an entity puts exactly this entity into the ledger, under a new id with the given
  transform and metadata, and keeps the ledger well formed. The handle the caller gets back carries the
  nil id instead of the id of the entity.\<close>

theorem create_entity_registers:
  assumes "ledger_inv g (ps_ledger p, K)" and "length (gen (ps_generated p)) = 16"
    and "map_of (el_entities (ps_ledger p)) (gen (ps_generated p)) = None"
  shows "\<exists>e p'. create_entity gen t metadata p = Inr (handle_new, p') \<and>
    map_of (el_entities (ps_ledger p')) = (map_of (el_entities (ps_ledger p)))(gen (ps_generated p) \<mapsto> e) \<and>
    e_id e = gen (ps_generated p) \<and> e_transform e = t \<and> e_metadata e = metadata \<and> \<not> e_is_client e \<and>
    ledger_inv g (ps_ledger p', K) \<and> h_id handle_new = nil_uuid"
proof -
  let ?e = "entity_minimal.extend (entity_minimal_new \<lparr> e_id := gen (ps_generated p), e_transform := t \<rparr>)
      \<lparr> e_metadata = metadata \<rparr>"
  have id: "e_id ?e = gen (ps_generated p)" by (simp add: entity_minimal.defs)
  obtain L where L: "register_new_entity ?e (ps_ledger p) = Inr L"
      "L = (ps_ledger p) \<lparr> el_entities := flat_insert (e_id ?e) ?e (el_entities (ps_ledger p)) \<rparr>"
    using assms(3) id by (simp add: register_new_entity_def)
  have inv: "ledger_inv g (L, K)" using inv_register [OF assms(1) L(1)] assms(2) id by simp
  have "sorted_wrt uuid_less (map fst (el_entities (ps_ledger p)))"
    using assms(1) by (simp add: ledger_inv_def entities_ok_def)
  then have "map_of (el_entities L) = (map_of (el_entities (ps_ledger p)))(gen (ps_generated p) \<mapsto> ?e)"
    using map_of_flat_insert [of "el_entities (ps_ledger p)" "gen (ps_generated p)"] assms(3) id L(2) by simp
  moreover have "create_entity gen t metadata p =
      Inr (handle_new, p \<lparr> ps_generated := Suc (ps_generated p), ps_ledger := L \<rparr>)"
    using L(1) by (simp add: create_entity_def internal_create_entity_def gen_uuid_def register_in_ledger_def
        bindS_def returnS_def)
  ultimately show ?thesis
    using inv id by (intro exI [of _ ?e]) (simp add: handle_new_def entity_minimal.defs entity_minimal_new_def)
qed

section \<open>Clients\<close>

text \<open>C2: once the watchdog has published the grid and four shards have claimed its bounds, every client
  that connects is placed inside the world and gets a shard, and the bound this shard has claimed
  contains the place.\<close>

theorem client_gets_shard:
  assumes "json_store J doc" and "hm_json (we_hm W) = J" and "base64_ok (we_hm W)"
    and "wd_heuristic s = Some grid_new" and "we_readers W (\<lambda>_. None) = []"
    and "enumerates (we_writers W (grid_serialize_bounds default_grid)) (grid_serialize_bounds default_grid)"
    and "\<forall>m. doc (wd_db s) = Some m \<longrightarrow> bounds_view (we_hm W) m [] []"
    and "length ns = 4" and "\<forall>n\<in>set ns. owner_ok (we_hm W) n"
    and "f_ok x" and "f_ok y" and "in_range f_m100 x f_100" and "in_range f_m100 y f_100"
  shows "\<exists>ss db. claim_in_turn (we_hm W) ns (wd_db (snd (compute_heuristic W s))) = Inr (map Some ss, db) \<and>
    (\<exists>i<4. \<exists>t. on_client_connect (we_hm W) x y c db = Inr (t, Some (ns ! i)) \<and>
      grid_shape_contains (ss ! i) (tr_position t))"
proof -
  obtain ss db where c: "claim_in_turn (we_hm W) ns (wd_db (snd (compute_heuristic W s))) = Inr (map Some ss, db)"
    and own: "\<forall>t. f_ok (vx (tr_position t)) \<longrightarrow> f_ok (vy (tr_position t)) \<longrightarrow>
      (if in_range f_m100 (vx (tr_position t)) f_100 \<and> in_range f_m100 (vy (tr_position t)) f_100 \<and>
          in_range f_m5 (vz (tr_position t)) f_5
       then \<exists>i<4. shard_from_position (we_hm W) t db = Inr (Some (ns ! i)) \<and>
         grid_shape_contains (ss ! i) (tr_position t)
       else shard_from_position (we_hm W) t db = Inl (UB Null_Deref))"
    using claimed_grid_owners [OF assms(1-9)] by blast
  let ?t = "vr_spawn (verify_client x y c)"
  have z: "in_range f_m5 0 f_5" by (simp add: in_range_def f_m5_def f_5_def f_eval)
  have "\<exists>i<4. shard_from_position (we_hm W) ?t db = Inr (Some (ns ! i)) \<and>
      grid_shape_contains (ss ! i) (tr_position ?t)"
    using own [THEN spec, of ?t] assms(10-13) z by (simp add: verify_client_def)
  then show ?thesis using c by (auto simp: on_client_connect_def Let_def determine_shard_def)
qed

section \<open>Examples\<close>

definition demo_node :: "nat il_env" where
  "demo_node = we_interlink demo_wd_env"

definition demo_times :: "nat dbl_ops" where
  "demo_times = \<lparr> d_ttl = Suc, d_gt = (\<lambda>a b. b < a), d_show = (\<lambda>_. []), d_read = (\<lambda>_. None) \<rparr>"

definition demo_uuids :: "nat \<Rightarrow> bytes" where
  "demo_uuids n = replicate 15 0 @ [of_nat n]"

lemma demo_node_starts: "link_starts demo_node"
  by (simp add: link_starts_def demo_node_def demo_wd_env_facts)

theorem server_starts_once_witness:
  "\<exists>p'. server_initialize demo_uuids demo_node process_new = Inr ((), p') \<and> shard_running p' \<and>
    self_identity p' = Inr (make_id_shard (demo_uuids 0)) \<and>
    Register_Self (ie_own_ip demo_node) \<in> set (il_effects (ps_interlink p')) \<and>
    server_initialize demo_uuids demo_node p' = Inl (AssertFail ''Singleton already exists'')"
  using server_starts_once [OF demo_node_starts, of process_new demo_uuids] by (simp add: process_new_def)

theorem partition_never_starts_witness:
  "partition_main demo_uuids demo_node 9 (\<lambda>_ p. p) process_new =
      Some (Inl (AssertFail ''Singleton not constructed. Call Make(...) first.'')) \<and>
    health_ping_round demo_times mem_connection 5 (process_new :: nat process) mem_empty =
      Inl (AssertFail ''Singleton not constructed. Call Make(...) first.'') \<and>
    network_ping_round (\<lambda>_. []) mem_connection demo_node (\<lambda>_. undefined) process_new mem_empty =
      Inl (AssertFail ''Singleton not constructed. Call Make(...) first.'')"
  by (rule partition_never_starts) (simp add: process_new_def)

theorem create_entity_registers_witness:
  "\<exists>e p'. create_entity demo_uuids transform_new [7] (process_new :: nat process) = Inr (handle_new, p') \<and>
    map_of (el_entities (ps_ledger p')) = (map_of [])(demo_uuids 0 \<mapsto> e) \<and>
    e_id e = demo_uuids 0 \<and> e_transform e = transform_new \<and> e_metadata e = [7] \<and> \<not> e_is_client e \<and>
    ledger_inv demo_gen (ps_ledger p', co_new) \<and> h_id handle_new = nil_uuid"
proof -
  have "ledger_inv demo_gen (ps_ledger (process_new :: nat process), co_new)"
    by (simp add: ledger_inv_def process_new_def el_new_def co_new_def entities_ok_def holds_once_def
        keys_generated_def ids_of_def)
  from create_entity_registers [OF this, of demo_uuids transform_new "[7]"]
  show ?thesis by (simp add: process_new_def el_new_def demo_uuids_def)
qed

theorem client_gets_shard_witness:
  "\<exists>ss db. claim_in_turn demo_env (replicate 4 (make_id_shard nil_uuid))
      (wd_db (snd (compute_heuristic demo_wd_env (switch_heuristic HGridCell demo_wd)))) = Inr (map Some ss, db) \<and>
    (\<exists>i<4. \<exists>t. on_client_connect demo_env 0 0 \<lparr> cl_ip = (0 :: nat), cl_id = nil_uuid \<rparr> db =
        Inr (t, Some (replicate 4 (make_id_shard nil_uuid) ! i)) \<and>
      grid_shape_contains (ss ! i) (tr_position t))"
proof -
  have h: "wd_heuristic (switch_heuristic HGridCell demo_wd) = Some grid_new"
    and d: "mem_doc_of (wd_db (switch_heuristic HGridCell demo_wd)) = None"
    by (simp_all add: switch_heuristic_def demo_wd_def mem_doc_of_def)
  have r: "f_ok 0" "in_range f_m100 0 f_100"
    by (simp_all add: in_range_def f_ok_def f_m100_def f_100_def f_eval)
  have e: "we_hm demo_wd_env = demo_env" by (simp add: demo_wd_env_def)
  show ?thesis
    unfolding e [symmetric]
    by (rule client_gets_shard [OF memjson.json_store_axioms demo_wd_env_facts(1,2) h demo_wd_env_facts(4)
      demo_writers]) (use d r demo_wd_env_facts(5) in auto)
qed

end
