(* ===== verification/Web_Views.thy ===== *)
theory Web_Views
  imports Server_Process "HOL-Library.Multiset"
begin

text \<open>
  What the web front end shows (\<open>lib/Web/src\<close>): the entities of all shards, asked for over the interlink
  and counted down as the answers arrive (\<open>EntityLedgersView.hpp\<close>), the shapes of the bounds with their
  owners (\<open>HeuristicDraw.cpp\<close>), the rows of the two telemetry tables and the pings
  (\<open>AuthorityTelemetry.cpp\<close>, \<open>NetworkTelemetry.cpp\<close>), and the process around them
  (\<open>NodeJSWrapper.hpp\<close>).
\<close>

section \<open>Entities of all shards\<close>

record ledger_entry =
  le_entity :: string
  le_client :: string
  le_is_client :: bool
  le_x :: f32
  le_y :: f32
  le_z :: f32
  le_world :: int
  le_bound :: u32

definition ledger_entry_of :: "(bytes \<Rightarrow> string) \<Rightarrow> u32 \<Rightarrow> entity_minimal \<Rightarrow> ledger_entry" where
  "ledger_entry_of us b e =
    \<lparr> le_entity = us (e_id e), le_client = us (e_client_id e), le_is_client = e_is_client e,
      le_x = vx (tr_position (e_transform e)), le_y = vy (tr_position (e_transform e)),
      le_z = vz (tr_position (e_transform e)), le_world = 0, le_bound = b \<rparr>"

record ledgers_view =
  lv_unanswered :: u32
  lv_responses :: "ledger_entry list"

definition ledgers_view_new :: ledgers_view where
  "ledgers_view_new = \<lparr> lv_unanswered = 0, lv_responses = [] \<rparr>"

text \<open>\<open>std::get\<close> throws when the response carries the other kind of list.\<close>

definition view_on_packet ::
  "'db hm_env \<Rightarrow> 'db \<Rightarrow> local_entity_list \<Rightarrow> network_identity \<Rightarrow> ledgers_view \<Rightarrow> ledgers_view res" where
  "view_on_packet E db p sender v =
    (if lel_status p \<noteq> lel_response then Inr v
     else bindE (bound_id_from_shard E sender db) (\<lambda>b.
       bindE (case b of
                None \<Rightarrow> Inr []
              | Some i \<Rightarrow>
                  (case lel_entities p of
                     Minimal_Entities es \<Rightarrow> Inr (map (ledger_entry_of (hm_uuid_str E) i) es)
                   | Full_Entities _ \<Rightarrow> Inl (RuntimeError ''bad_variant_access''))) (\<lambda>rows.
       Inr \<lparr> lv_unanswered = lv_unanswered v - 1, lv_responses = lv_responses v @ rows \<rparr>)))"

text \<open>
  A call of \<open>GetEntityLists\<close> and the interlink thread that runs the handler beside it: the shards still to
  be asked, the one whose message is sent but not yet counted, the shards that have not answered, and
  the result. A message is sent before it is counted, and its answer may come in between.
\<close>

record view_call =
  vc_view :: ledgers_view
  vc_to_ask :: "network_identity list"
  vc_sent :: "network_identity option"
  vc_open :: "network_identity multiset"
  vc_result :: "ledger_entry list option"

definition entity_list_query :: packet where
  "entity_list_query = Packet tid_local_entity_list (Local_Entity_List
    \<lparr> lel_status = lel_query, lel_include_metadata = False, lel_entities = Full_Entities [] \<rparr>)"

definition call_start :: "(network_identity \<times> 'e) list \<Rightarrow> ledgers_view \<Rightarrow> view_call" where
  "call_start servers v =
    \<lparr> vc_view = v \<lparr> lv_responses := [] \<rparr>,
      vc_to_ask = map fst (filter (\<lambda>(n, _). nid_type n = nt_shard) servers),
      vc_sent = None, vc_open = {#}, vc_result = None \<rparr>"

definition call_send :: "view_call \<Rightarrow> view_call option" where
  "call_send s =
    (case vc_to_ask s of
       n # ns \<Rightarrow>
         if vc_sent s = None
         then Some (s \<lparr> vc_to_ask := ns, vc_sent := Some n, vc_open := add_mset n (vc_open s) \<rparr>)
         else None
     | [] \<Rightarrow> None)"

definition call_count :: "view_call \<Rightarrow> view_call option" where
  "call_count s =
    (if vc_sent s = None then None
     else Some (s \<lparr> vc_sent := None,
       vc_view := (vc_view s) \<lparr> lv_unanswered := lv_unanswered (vc_view s) + 1 \<rparr> \<rparr>))"

definition call_finish :: "view_call \<Rightarrow> view_call option" where
  "call_finish s =
    (if vc_to_ask s = [] \<and> vc_sent s = None \<and> vc_result s = None \<and> lv_unanswered (vc_view s) = 0
     then Some (s \<lparr> vc_result := Some (lv_responses (vc_view s)),
       vc_view := \<lparr> lv_unanswered = 0, lv_responses = [] \<rparr> \<rparr>)
     else None)"

text \<open>The steps, when shard \<open>n\<close> answers with \<open>reply n\<close>; a shard whose reply is none never answers.\<close>

inductive view_step ::
  "'db hm_env \<Rightarrow> 'db \<Rightarrow> (network_identity \<Rightarrow> local_entity_list option) \<Rightarrow> view_call \<Rightarrow> view_call \<Rightarrow> bool"
  for E db reply where
  step_send: "call_send s = Some t \<Longrightarrow> view_step E db reply s t"
| step_count: "call_count s = Some t \<Longrightarrow> view_step E db reply s t"
| step_answer: "n \<in># vc_open s \<Longrightarrow> reply n = Some p \<Longrightarrow> view_on_packet E db p n (vc_view s) = Inr v \<Longrightarrow>
    view_step E db reply s (s \<lparr> vc_view := v, vc_open := vc_open s - {#n#} \<rparr>)"
| step_finish: "call_finish s = Some t \<Longrightarrow> view_step E db reply s t"

inductive_cases view_stepE: "view_step E db reply s t"

section \<open>Shapes\<close>

text \<open>The members the drawing sets.\<close>

datatype shape_type = Shape_Invalid | Shape_Circle | Shape_Rectangle | Shape_Line | Shape_Polygon | Shape_Rect_Image

record draw_shape =
  ds_id :: u32
  ds_owner :: string
  ds_type :: shape_type
  ds_x :: f32
  ds_y :: f32
  ds_color :: string
  ds_w :: f32
  ds_h :: f32

definition claimed_color :: string where "claimed_color = ''rgba(100, 255, 149, 1)''"
definition pending_color :: string where "pending_color = ''rgba(255, 149, 100, 1)''"

definition draw_quad :: "'db hm_env \<Rightarrow> 'db \<Rightarrow> grid_shape \<Rightarrow> draw_shape res" where
  "draw_quad E db q =
    bindE (shard_from_bound_id E (gs_id q) db) (\<lambda>shard. Inr
      \<lparr> ds_id = gs_id q,
        ds_owner = (case shard of Some n \<Rightarrow> nid_to_string (hm_uuid_str E) n | None \<Rightarrow> []),
        ds_type = Shape_Rectangle,
        ds_x = aabb_center (gs_aabb q) ! 0, ds_y = aabb_center (gs_aabb q) ! 1,
        ds_color = (case shard of Some _ \<Rightarrow> claimed_color | None \<Rightarrow> pending_color),
        ds_w = f_mul (aabb_half_extents (gs_aabb q) ! 0) (f_of_int 2),
        ds_h = f_mul (aabb_half_extents (gs_aabb q) ! 1) (f_of_int 2) \<rparr>)"

definition draw_current_heuristic :: "'db hm_env \<Rightarrow> 'db \<Rightarrow> draw_shape list res" where
  "draw_current_heuristic E db = bindE (pull_heuristic E db) (\<lambda>h. mapE (draw_quad E db) (gh_quads h))"

section \<open>Tables\<close>

definition web_authority_table :: string where
  "web_authority_table = ''Authority_Telemetry''"

definition web_authority_rows :: "'db redis_connection \<Rightarrow> 'db \<Rightarrow> bytes list list" where
  "web_authority_rows C db =
    concat (map (\<lambda>(entityField, payload).
        let columns = getlines 9 payload
        in if length columns \<noteq> 7 then [] else [entityField # columns])
      (db_hgetall C web_authority_table db))"

text \<open>The identities and the times of all pings, appended to what the caller passes in.\<close>

definition get_live_ping_ids ::
  "'d dbl_ops \<Rightarrow> (bytes \<Rightarrow> string) \<Rightarrow> 'db redis_connection \<Rightarrow> 'db \<Rightarrow> string list \<Rightarrow> bytes list \<Rightarrow>
    (string list \<times> bytes list) res"
where
  "get_live_ping_ids D us C db out_ids out_health =
    bindE (get_all_pings D C db) (\<lambda>pings.
    bindE (mapE (\<lambda>(key, v). bindE (nid_des (br_new key)) (\<lambda>(n, _). Inr (nid_to_string us n, d_show D v))) pings)
      (\<lambda>rows. Inr (out_ids @ map fst rows, out_health @ map snd rows)))"

section \<open>The process\<close>

definition node_js_wrapper :: "'a il_env \<Rightarrow> ('a process, unit) stm" where
  "node_js_wrapper E =
    bindS (changeS (\<lambda>p. p \<lparr> ps_crash_handler := True \<rparr>)) (\<lambda>_.
    bindS (make_credentials make_id_cartograph) (\<lambda>_.
    bindS (start_link E) (\<lambda>_.
    changeS (\<lambda>p. p \<lparr> ps_events := event_system_init (ps_events p), ps_network_pings := True \<rparr>))))"

definition node_js_wrapper_end :: "('a process, unit) stm" where
  "node_js_wrapper_end = process_link_shutdown"

section \<open>The answers are counted down to none\<close>

text \<open>What the view shows of a shard: an entry for each entity it reports, with the bound it has claimed, and
  nothing when it has none. Any other answer makes the handler throw.\<close>

definition shard_rows :: "'db hm_env \<Rightarrow> 'db \<Rightarrow> (network_identity \<Rightarrow> local_entity_list option) \<Rightarrow> network_identity \<Rightarrow> ledger_entry list" where
  "shard_rows E db reply n =
    (case (bound_id_from_shard E n db, reply n) of
       (Inr (Some i), Some p) \<Rightarrow>
         (case lel_entities p of
            Minimal_Entities es \<Rightarrow> map (ledger_entry_of (hm_uuid_str E) i) es
          | Full_Entities _ \<Rightarrow> [])
     | _ \<Rightarrow> [])"

definition answer_read :: "'db hm_env \<Rightarrow> 'db \<Rightarrow> (network_identity \<Rightarrow> local_entity_list option) \<Rightarrow> network_identity \<Rightarrow> bool" where
  "answer_read E db reply n \<longleftrightarrow> (\<exists>p. reply n = Some p \<and>
    (bound_id_from_shard E n db = Inr None \<or>
     (\<exists>i es. bound_id_from_shard E n db = Inr (Some i) \<and> lel_entities p = Minimal_Entities es)))"

definition only_responses :: "(network_identity \<Rightarrow> local_entity_list option) \<Rightarrow> bool" where
  "only_responses reply \<longleftrightarrow> (\<forall>n p. reply n = Some p \<longrightarrow> lel_status p = lel_response)"

lemma view_on_response:
  assumes "only_responses reply" and "reply n = Some p" and "view_on_packet E db p n v = Inr v'"
  shows "answer_read E db reply n \<and>
    v' = \<lparr> lv_unanswered = lv_unanswered v - 1, lv_responses = lv_responses v @ shard_rows E db reply n \<rparr>"
  using assms
  by (auto simp: view_on_packet_def shard_rows_def answer_read_def only_responses_def bindE_def
      split: sum.splits option.splits entity_list.splits)

lemma answer_read_handled:
  assumes "only_responses reply" and "answer_read E db reply n"
  obtains p v' where "reply n = Some p" and "view_on_packet E db p n v = Inr v'"
  using assms by (auto simp: answer_read_def view_on_packet_def only_responses_def)

text \<open>Before the call returns: the counter is the number of shards that have been counted and have not
  answered, modulo the size of the counter, and the entries are those of the shards that have answered.\<close>

definition call_inv ::
  "'db hm_env \<Rightarrow> 'db \<Rightarrow> (network_identity \<Rightarrow> local_entity_list option) \<Rightarrow> network_identity list \<Rightarrow> view_call \<Rightarrow> bool" where
  "call_inv E db reply shards s \<longleftrightarrow>
    (case vc_result s of
       None \<Rightarrow>
         (\<exists>answered. mset shards = answered + vc_open s + mset (vc_to_ask s) \<and>
           (\<forall>n\<in>#answered. answer_read E db reply n) \<and>
           lv_unanswered (vc_view s) + (if vc_sent s = None then 0 else 1) = of_nat (size (vc_open s)) \<and>
           mset (lv_responses (vc_view s)) = (\<Sum>n\<in>#answered. mset (shard_rows E db reply n)))
     | Some rows \<Rightarrow> (\<forall>n\<in>set shards. answer_read E db reply n) \<and> mset rows = (\<Sum>n\<leftarrow>shards. mset (shard_rows E db reply n)) \<and> vc_open s = {#} \<and>
         vc_to_ask s = [] \<and> vc_sent s = None)"

lemma sum_mset_list: "(\<Sum>n\<in>#mset ns. mset (f n)) = (\<Sum>n\<leftarrow>ns. mset (f n))"
  by (induction ns) simp_all

lemma call_inv_send:
  assumes "call_inv E db reply shards s" and "call_send s = Some t"
  shows "call_inv E db reply shards t"
  using assms
  by (cases "vc_result s")
    (auto simp: call_inv_def call_send_def ac_simps split: list.splits if_splits)

lemma call_inv_count:
  assumes "call_inv E db reply shards s" and "call_count s = Some t"
  shows "call_inv E db reply shards t"
  using assms by (cases "vc_result s") (auto simp: call_inv_def call_count_def split: if_splits)

lemma call_inv_answer:
  assumes "call_inv E db reply shards s" and "only_responses reply"
    and "n \<in># vc_open s" and "reply n = Some p" "view_on_packet E db p n (vc_view s) = Inr v"
  shows "call_inv E db reply shards (s \<lparr> vc_view := v, vc_open := vc_open s - {#n#} \<rparr>)"
proof (cases "vc_result s")
  case (Some rows)
  then show ?thesis using assms(1,3) by (simp add: call_inv_def)
next
  case None
  obtain answered where a: "mset shards = answered + vc_open s + mset (vc_to_ask s)"
      "\<forall>n\<in>#answered. answer_read E db reply n"
      "lv_unanswered (vc_view s) + (if vc_sent s = None then 0 else 1) = of_nat (size (vc_open s))"
      "mset (lv_responses (vc_view s)) = (\<Sum>n\<in>#answered. mset (shard_rows E db reply n))"
    using assms(1) None unfolding call_inv_def by auto
  obtain rest where r: "vc_open s = add_mset n rest" using multi_member_split [OF assms(3)] by blast
  have v: "v = \<lparr> lv_unanswered = lv_unanswered (vc_view s) - 1,
      lv_responses = lv_responses (vc_view s) @ shard_rows E db reply n \<rparr>" and read: "answer_read E db reply n"
    using view_on_response [OF assms(2,4,5)] by auto
  have "lv_unanswered v + (if vc_sent s = None then 0 else 1) = of_nat (size rest)"
    using a(3) r v by (simp add: algebra_simps split: if_splits)
  moreover have "mset shards = add_mset n answered + rest + mset (vc_to_ask s)" using a(1) r by simp
  moreover have "mset (lv_responses v) = (\<Sum>n\<in>#add_mset n answered. mset (shard_rows E db reply n))"
    using a(4) v by simp
  ultimately show ?thesis
    using None r a(2) read unfolding call_inv_def by (auto intro!: exI [of _ "add_mset n answered"])
qed

lemma call_inv_finish:
  assumes "call_inv E db reply shards s" and "call_finish s = Some t" and "length shards < 2 ^ 32"
  shows "call_inv E db reply shards t"
proof -
  have f: "vc_to_ask s = []" "vc_sent s = None" "vc_result s = None" "lv_unanswered (vc_view s) = 0"
    and t: "t = s \<lparr> vc_result := Some (lv_responses (vc_view s)),
       vc_view := \<lparr> lv_unanswered = 0, lv_responses = [] \<rparr> \<rparr>"
    using assms(2) by (auto simp: call_finish_def split: if_splits)
  obtain answered where a: "mset shards = answered + vc_open s"
      "\<forall>n\<in>#answered. answer_read E db reply n"
      "(0 :: u32) = of_nat (size (vc_open s))"
      "mset (lv_responses (vc_view s)) = (\<Sum>n\<in>#answered. mset (shard_rows E db reply n))"
    using assms(1) f unfolding call_inv_def by auto
  have "size (vc_open s) \<le> length shards" using arg_cong [OF a(1), of size] by simp
  then have "size (vc_open s) < 2 ^ 32" using assms(3) by simp
  then have "size (vc_open s) = 0"
    using a(3) [symmetric] nat_dvd_not_less by (auto simp: word_of_nat_eq_0_iff)
  then have "vc_open s = {#}" by simp
  then have "mset shards = answered" using a(1) by simp
  then have "\<forall>n\<in>set shards. answer_read E db reply n" using a(2) by (metis set_mset_mset)
  then show ?thesis
    using a(4) f(1,2) \<open>vc_open s = {#}\<close> \<open>mset shards = answered\<close> by (simp add: call_inv_def t sum_mset_list [symmetric])
qed

lemma call_inv_start:
  assumes "lv_unanswered v = 0" and "shards = map fst (filter (\<lambda>(n, _). nid_type n = nt_shard) servers)"
  shows "call_inv E db reply shards (call_start servers v)"
  using assms by (simp add: call_inv_def call_start_def)

lemma call_inv_step:
  assumes "view_step E db reply s t" and "call_inv E db reply shards s"
    and "only_responses reply" and "length shards < 2 ^ 32"
  shows "call_inv E db reply shards t"
  using assms(1)
proof cases
  case step_send
  then show ?thesis by (rule call_inv_send [OF assms(2)])
next
  case step_count
  then show ?thesis by (rule call_inv_count [OF assms(2)])
next
  case (step_answer n p v)
  then show ?thesis using call_inv_answer [OF assms(2,3) step_answer(2,3,4)] by simp
next
  case step_finish
  then show ?thesis by (rule call_inv_finish [OF assms(2) _ assms(4)])
qed

lemma call_inv_steps:
  assumes "(view_step E db reply ^^ k) s t" and "call_inv E db reply shards s"
    and "only_responses reply" and "length shards < 2 ^ 32"
  shows "call_inv E db reply shards t"
  using assms(1)
proof (induction k arbitrary: t)
  case 0
  then show ?case using assms(2) by simp
next
  case (Suc k)
  then obtain u where "(view_step E db reply ^^ k) s u" "view_step E db reply u t" by auto
  then show ?case using call_inv_step [OF _ Suc.IH assms(3,4)] by simp
qed

text \<open>Every step uses up a part of what is left to do.\<close>

definition call_left :: "view_call \<Rightarrow> nat" where
  "call_left s = 3 * length (vc_to_ask s) + (if vc_sent s = None then 0 else 1) + size (vc_open s) +
    (if vc_result s = None then 1 else 0)"

lemma send_left: "call_send s = Some t \<Longrightarrow> call_left t < call_left s"
  by (auto simp: call_left_def call_send_def split: list.splits if_splits)

lemma count_left: "call_count s = Some t \<Longrightarrow> call_left t < call_left s"
  by (auto simp: call_left_def call_count_def split: if_splits)

lemma finish_left: "call_finish s = Some t \<Longrightarrow> call_left t < call_left s"
  by (auto simp: call_left_def call_finish_def split: if_splits)

lemma answer_left: "n \<in># vc_open s \<Longrightarrow> call_left (s \<lparr> vc_view := v, vc_open := vc_open s - {#n#} \<rparr>) < call_left s"
  using size_Suc_Diff1 [of n "vc_open s"] by (simp add: call_left_def)

lemma view_step_left: "view_step E db reply s t \<Longrightarrow> call_left t < call_left s"
  by (erule view_stepE) (auto intro: send_left count_left finish_left answer_left)

lemma view_steps_left: "(view_step E db reply ^^ k) s t \<Longrightarrow> call_left t + k \<le> call_left s"
proof (induction k arbitrary: t)
  case (Suc k)
  then obtain u where "(view_step E db reply ^^ k) s u" "view_step E db reply u t" by auto
  then show ?case using Suc.IH [of u] view_step_left [of E db reply u t] by simp
qed simp

lemma view_stuck:
  assumes "\<not> (\<exists>t. view_step E db reply s t)" and "call_inv E db reply shards s"
    and "only_responses reply" and "\<forall>n\<in>set shards. answer_read E db reply n"
  shows "vc_result s \<noteq> None"
proof
  assume none: "vc_result s = None"
  have "call_send s = None" using assms(1) step_send [of s _ E db reply] by (cases "call_send s") auto
  moreover have "call_count s = None" using assms(1) step_count [of s _ E db reply] by (cases "call_count s") auto
  moreover have "call_finish s = None" using assms(1) step_finish [of s _ E db reply] by (cases "call_finish s") auto
  moreover have "vc_open s = {#}"
  proof (rule ccontr)
    assume "vc_open s \<noteq> {#}"
    then obtain n where n: "n \<in># vc_open s" by auto
    obtain answered where "mset shards = answered + vc_open s + mset (vc_to_ask s)"
      using assms(2) none unfolding call_inv_def by auto
    then have "n \<in># mset shards" using n by simp
    then have "answer_read E db reply n" using assms(4) by simp
    then obtain p v where "reply n = Some p" "view_on_packet E db p n (vc_view s) = Inr v"
      by (rule answer_read_handled [OF assms(3)])
    then show False using assms(1) step_answer [OF n, of reply p E db v] by blast
  qed
  moreover have "vc_sent s = None" using calculation(2) by (simp add: call_count_def split: if_splits)
  moreover have "vc_to_ask s = []"
    using calculation(1,5) by (simp add: call_send_def split: list.splits)
  moreover have "lv_unanswered (vc_view s) = 0"
    using assms(2) none calculation(4,5) by (auto simp: call_inv_def)
  ultimately show False using none by (simp add: call_finish_def)
qed

definition asked_shards :: "(network_identity \<times> 'e) list \<Rightarrow> network_identity list" where
  "asked_shards servers = map fst (filter (\<lambda>(n, _). nid_type n = nt_shard) servers)"

lemma view_run_inv:
  assumes "(view_step E db reply ^^ k) (call_start servers v) t" and "lv_unanswered v = 0"
    and "only_responses reply" and "length servers < 2 ^ 32"
  shows "call_inv E db reply (asked_shards servers) t"
proof -
  have "length (asked_shards servers) \<le> length servers" by (simp add: asked_shards_def length_filter_le)
  then have "length (asked_shards servers) < 2 ^ 32" using assms(4) by (rule le_less_trans)
  then show ?thesis by (rule call_inv_steps [OF assms(1) call_inv_start [OF assms(2) asked_shards_def] assms(3)])
qed

section \<open>Properties\<close>

text \<open>C7: when a call that begins with no request open hands out its result, every shard that was asked has
  answered with a response that could be read, and the entries are these: of each shard that has claimed a
  bound one for each entity it reported, with the number of that bound, and of a shard without a bound none,
  whatever it reported. This holds in every order of sending, counting and answering, even when answers
  arrive before their request has been counted and the counter wraps below zero. Assumed are fewer than
  \<open>2 ^ 32\<close> servers, that each request is answered at most once and with a response, and that the claims
  in the database stay the same during the call.\<close>

theorem ledgers_view_complete:
  assumes "(view_step E db reply ^^ k) (call_start servers v) t" and "lv_unanswered v = 0"
    and "only_responses reply" and "length servers < 2 ^ 32" and "vc_result t = Some rows"
  shows "mset rows = (\<Sum>n\<leftarrow>asked_shards servers. mset (shard_rows E db reply n)) \<and>
    (\<forall>n\<in>set (asked_shards servers). answer_read E db reply n)"
  using view_run_inv [OF assms(1-4)] assms(5) by (simp add: call_inv_def)

text \<open>C8: a call that begins with no request open takes at most three steps for each server and one more. When
  every shard it asks answers and the answers can be read, nothing but its result stops it, so it returns;
  when one of them never answers, or its answer cannot be read, the call never returns. The assumptions
  are those of the completeness of the view.\<close>

theorem ledgers_view_returns:
  assumes "(view_step E db reply ^^ k) (call_start servers v) t" and "lv_unanswered v = 0"
    and "only_responses reply" and "length servers < 2 ^ 32"
  shows "k \<le> 3 * length servers + 1 \<and>
    (if \<forall>n\<in>set (asked_shards servers). answer_read E db reply n
     then vc_result t \<noteq> None \<or> (\<exists>u. view_step E db reply t u)
     else vc_result t = None)"
proof -
  have inv: "call_inv E db reply (asked_shards servers) t" by (rule view_run_inv [OF assms])
  have le: "length (asked_shards servers) \<le> length servers" by (simp add: asked_shards_def length_filter_le)
  have "k \<le> call_left (call_start servers v)" using view_steps_left [OF assms(1)] by simp
  also have "\<dots> = 3 * length (asked_shards servers) + 1" by (simp add: call_left_def call_start_def asked_shards_def)
  finally have "k \<le> 3 * length servers + 1" using le by linarith
  moreover have "vc_result t = None" if "\<not> (\<forall>n\<in>set (asked_shards servers). answer_read E db reply n)"
    using inv that by (cases "vc_result t") (auto simp: call_inv_def)
  ultimately show ?thesis using view_stuck [OF _ inv assms(3)] by auto
qed

text \<open>What the drawing shows of one bound.\<close>

definition shows_owner :: "'db hm_env \<Rightarrow> (grid_shape \<times> network_identity) list \<Rightarrow> grid_shape \<Rightarrow> draw_shape \<Rightarrow> bool" where
  "shows_owner E cs q d \<longleftrightarrow> ds_id d = gs_id q \<and> ds_type d = Shape_Rectangle \<and>
    (case find (\<lambda>c. gs_id (fst c) = gs_id q) cs of
       None \<Rightarrow> ds_color d = pending_color \<and> ds_owner d = []
     | Some c \<Rightarrow> ds_color d = claimed_color \<and> ds_owner d = nid_to_string (hm_uuid_str E) (snd c))"

lemma draw_quads_owner:
  assumes "\<And>i. shard_from_bound_id E i db = Inr (map_option snd (find (\<lambda>c. gs_id (fst c) = i) cs))"
  shows "\<exists>shapes. mapE (draw_quad E db) qs = Inr shapes \<and> list_all2 (shows_owner E cs) qs shapes"
proof (induction qs)
  case (Cons q qs)
  obtain d where "draw_quad E db q = Inr d" "shows_owner E cs q d"
    using assms [of "gs_id q"] by (auto simp: draw_quad_def shows_owner_def split: option.splits)
  then show ?case using Cons by auto
qed simp

text \<open>The page of the bounds shows one rectangle for each bound of the heuristic in the database, in the
  color of a claimed bound and with the name of its owner exactly when a shard has claimed it.\<close>

theorem drawing_shows_owners:
  assumes "json_store J doc" and "hm_json E = J" and "base64_ok E" and "doc db = Some m"
    and "heuristic_view E m g" and "bounds_view E m qs cs"
  shows "\<exists>shapes. draw_current_heuristic E db = Inr shapes \<and> list_all2 (shows_owner E cs) (gh_quads g) shapes"
  using draw_quads_owner [OF json_store.shard_lookup [OF assms(1-4,6)], of "gh_quads g"]
    json_store.pull_reads [OF assms(1-5)]
  by (auto simp: draw_current_heuristic_def)

section \<open>Examples\<close>

theorem drawing_shows_owners_witness:
  "\<exists>ss db shapes. compute_heuristic demo_wd_env (switch_heuristic HGridCell demo_wd) =
      set_shard_count demo_wd_env 4 ((switch_heuristic HGridCell demo_wd)
        \<lparr> wd_heuristic := Some default_grid, wd_db := db \<rparr>) \<and>
    set ss = set (gh_quads default_grid) \<and> draw_current_heuristic demo_env db = Inr shapes \<and>
    list_all2 (shows_owner demo_env []) (gh_quads default_grid) shapes"
proof -
  have h: "wd_heuristic (switch_heuristic HGridCell demo_wd) = Some grid_new"
    and d: "\<forall>m. mem_doc_of (wd_db (switch_heuristic HGridCell demo_wd)) = Some m \<longrightarrow>
      bounds_view (we_hm demo_wd_env) m [] []"
    by (simp_all add: switch_heuristic_def demo_wd_def mem_doc_of_def)
  have e: "we_hm demo_wd_env = demo_env" by (simp add: demo_wd_env_def)
  obtain ss m db where c: "compute_heuristic demo_wd_env (switch_heuristic HGridCell demo_wd) =
      set_shard_count demo_wd_env 4 ((switch_heuristic HGridCell demo_wd)
        \<lparr> wd_heuristic := Some default_grid, wd_db := db \<rparr>)"
    and v: "mem_doc_of db = Some m" "heuristic_view demo_env m default_grid" "bounds_view demo_env m ss []"
      "set ss = set (gh_quads default_grid)" and "length ss = 4" and "m pending_entry \<noteq> None"
    by (rule memjson.compute_publishes [OF demo_wd_env_facts(1,2) h demo_writers demo_wd_env_facts(4) d,
      unfolded e])
  obtain shapes where "draw_current_heuristic demo_env db = Inr shapes"
      "list_all2 (shows_owner demo_env []) (gh_quads default_grid) shapes"
    using drawing_shows_owners [OF memjson.json_store_axioms demo_env_json demo_base64 v(1-3)] by (elim exE conjE)
  then show ?thesis using c v(4) by (intro exI conjI)
qed

text \<open>One shard, which has no bound, and the watchdog. The shard answers before it is counted.\<close>

definition demo_servers :: "(network_identity \<times> unit) list" where
  "demo_servers = [(make_id_watchdog, ()), (make_id_shard nil_uuid, ())]"

definition demo_reply :: "network_identity \<Rightarrow> local_entity_list option" where
  "demo_reply n = Some \<lparr> lel_status = lel_response, lel_include_metadata = False, lel_entities = Minimal_Entities [] \<rparr>"

lemma demo_bound:
  assumes "nid_type n = nt_shard"
  shows "bound_id_from_shard demo_env n None = Inr None"
proof -
  have "wbuf (nid_ser n bw_new) \<noteq> []"
    using arg_cong [OF nid_key_enc [of n], of length] by (auto simp: nid_key_def bw_bytes_def nid_enc_def be_enc_def)
  then have "demo_enc64 (wbuf (nid_ser n bw_new)) \<noteq> []" by (cases "wbuf (nid_ser n bw_new)") simp_all
  then have "bw_as_string_base_64 (hm_enc64 demo_env) (nid_ser n bw_new) =
      Inr (demo_enc64 (wbuf (nid_ser n bw_new)))"
    by (simp add: bw_as_string_base_64_def demo_env_def)
  then show ?thesis using assms by (simp add: bound_id_from_shard_def mem_json_def json_or_null_def empty_reply_def)
qed

lemma demo_handled: "nid_type n = nt_shard \<Longrightarrow> answer_read demo_env None demo_reply n"
  by (simp add: answer_read_def demo_reply_def demo_bound)

definition demo_call :: "u32 \<Rightarrow> network_identity list \<Rightarrow> network_identity option \<Rightarrow> network_identity multiset \<Rightarrow> view_call" where
  "demo_call u ask sent opn =
    \<lparr> vc_view = \<lparr> lv_unanswered = u, lv_responses = [] \<rparr>, vc_to_ask = ask, vc_sent = sent, vc_open = opn, vc_result = None \<rparr>"

lemma four_steps: "r a b \<Longrightarrow> r b c \<Longrightarrow> r c d \<Longrightarrow> r d e \<Longrightarrow> (r ^^ 4) a e"
  by (auto simp: numeral_eq_Suc)

lemma demo_view_run:
  "(view_step demo_env None demo_reply ^^ 4) (call_start demo_servers ledgers_view_new)
    (demo_call 0 [] None {#} \<lparr> vc_result := Some [] \<rparr>)"
proof (rule four_steps)
  let ?n = "make_id_shard nil_uuid"
  show "view_step demo_env None demo_reply (call_start demo_servers ledgers_view_new) (demo_call 0 [] (Some ?n) {#?n#})"
    by (rule step_send) (simp add: call_send_def call_start_def demo_servers_def demo_call_def ledgers_view_new_def
      make_id_watchdog_def make_id_shard_def nt_defs)
  have "view_step demo_env None demo_reply (demo_call 0 [] (Some ?n) {#?n#})
      (demo_call 0 [] (Some ?n) {#?n#} \<lparr> vc_view := \<lparr> lv_unanswered = 0 - 1, lv_responses = [] \<rparr>,
        vc_open := {#?n#} - {#?n#} \<rparr>)"
    using step_answer [of ?n "demo_call 0 [] (Some ?n) {#?n#}" demo_reply _ demo_env None]
      demo_bound [of ?n] make_id_shard_def [of nil_uuid]
    by (simp add: demo_call_def view_on_packet_def demo_reply_def)
  then show "view_step demo_env None demo_reply (demo_call 0 [] (Some ?n) {#?n#}) (demo_call (- 1) [] (Some ?n) {#})"
    by (simp add: demo_call_def)
  show "view_step demo_env None demo_reply (demo_call (- 1) [] (Some ?n) {#}) (demo_call 0 [] None {#})"
    by (rule step_count) (simp add: call_count_def demo_call_def)
  show "view_step demo_env None demo_reply (demo_call 0 [] None {#}) (demo_call 0 [] None {#} \<lparr> vc_result := Some [] \<rparr>)"
    by (rule step_finish) (simp add: call_finish_def demo_call_def)
qed

theorem ledgers_view_complete_witness:
  "mset ([] :: ledger_entry list) = (\<Sum>n\<leftarrow>asked_shards demo_servers. mset (shard_rows demo_env None demo_reply n))"
  by (rule ledgers_view_complete [OF demo_view_run, THEN conjunct1])
    (simp_all add: ledgers_view_new_def only_responses_def demo_reply_def demo_servers_def)

theorem ledgers_view_returns_witness:
  "(4 :: nat) \<le> 3 * length demo_servers + 1 \<and>
    vc_result (demo_call 0 [] None {#} \<lparr> vc_result := Some [] \<rparr>) \<noteq> None"
proof -
  have "lv_unanswered ledgers_view_new = 0" "only_responses demo_reply" "length demo_servers < 2 ^ 32"
    by (simp_all add: ledgers_view_new_def demo_servers_def demo_reply_def only_responses_def)
  from ledgers_view_returns [OF demo_view_run this] show ?thesis by simp
qed

end
