(* ===== verification/Bit_Codec.thy ===== *)
theory Bit_Codec
  imports Byte_Safety
begin

text \<open>
  Bit packing. A writer between two \<open>bits\<close> calls holds a stream of bits, the bytes written so far
  (low bit first) and the pending bits of its bit buffer; a reader holds the stream of its pending
  bits and the bytes left. On these streams \<open>bits\<close> appends and takes the low bits of a value.
\<close>

section \<open>Bit streams\<close>

definition word_bits :: "'a::len word \<Rightarrow> nat \<Rightarrow> bool list" where
  "word_bits v n = map (bit v) [0..<n]"

definition bytes_bits :: "bytes \<Rightarrow> bool list" where
  "bytes_bits bs = concat (map (\<lambda>b. word_bits b 8) bs)"

definition bits_below :: "'a::len word \<Rightarrow> nat \<Rightarrow> bool" where
  "bits_below v n \<longleftrightarrow> take_bit n v = v"

lemma bits_belowD: "bits_below v n \<Longrightarrow> bit v i \<Longrightarrow> i < n"
  unfolding bits_below_def by (metis bit_take_bit_iff)

lemma bits_belowI: "(\<And>i. bit v i \<Longrightarrow> i < n) \<Longrightarrow> bits_below v n"
  unfolding bits_below_def by (rule bit_word_eqI) (auto simp: bit_simps)

lemma length_word_bits [simp]: "length (word_bits v n) = n"
  by (simp add: word_bits_def)

lemma nth_word_bits [simp]: "i < n \<Longrightarrow> word_bits v n ! i = bit v i"
  by (simp add: word_bits_def)

lemma length_bytes_bits [simp]: "length (bytes_bits bs) = 8 * length bs"
  by (induction bs) (simp_all add: bytes_bits_def)

lemma bytes_bits_append [simp]: "bytes_bits (as @ bs) = bytes_bits as @ bytes_bits bs"
  by (simp add: bytes_bits_def)

lemma bytes_bits_Cons: "bytes_bits (b # bs) = word_bits b 8 @ bytes_bits bs"
  by (simp add: bytes_bits_def)

lemma bytes_bits_Nil [simp]: "bytes_bits [] = []"
  by (simp add: bytes_bits_def)

lemma word_bits_split:
  assumes "\<And>i. i < m \<Longrightarrow> bit v i = bit a i" and "\<And>i. i < n \<Longrightarrow> bit v (m + i) = bit b i"
  shows "word_bits v (m + n) = word_bits a m @ word_bits b n"
proof (rule nth_equalityI)
  fix i assume "i < length (word_bits v (m + n))"
  then show "word_bits v (m + n) ! i = (word_bits a m @ word_bits b n) ! i"
    using assms(1) [of i] assms(2) [of "i - m"] by (auto simp: nth_append)
qed simp

lemma word_bits_inject:
  assumes "word_bits a n = word_bits b n" and "bits_below a n" and "bits_below b n"
  shows "a = b"
proof (rule bit_word_eqI)
  fix i
  show "bit a i \<longleftrightarrow> bit b i"
  proof (cases "i < n")
    case True
    then show ?thesis using assms(1) nth_word_bits [of i n a] nth_word_bits [of i n b] by simp
  next
    case False
    then show ?thesis using assms(2,3) bits_belowD by blast
  qed
qed

section \<open>The writer\<close>

definition wstream :: "writer \<Rightarrow> bool list" where
  "wstream w = bytes_bits (wbuf w) @ word_bits (wbit_buffer w) (unat (wbit_pos w))"

definition winv :: "writer \<Rightarrow> bool" where
  "winv w \<longleftrightarrow> unat (wbit_pos w) < 8 \<and> bits_below (wbit_buffer w) (unat (wbit_pos w))"

lemma flush_stream:
  "bits_below (wbit_buffer w) (unat (wbit_pos w)) \<Longrightarrow>
   winv (bw_flush_bits w) \<and> wstream (bw_flush_bits w) = wstream w"
proof (induction w rule: bw_flush_bits.induct)
  case (1 w)
  show ?case
  proof (cases "8 \<le> wbit_pos w")
    case True
    let ?w = "(bw_u8 (ucast (wbit_buffer w)) w)
      \<lparr> wbit_buffer := drop_bit 8 (wbit_buffer w), wbit_pos := wbit_pos w - 8 \<rparr>"
    from True obtain n where n: "unat (wbit_pos w) = 8 + n"
      by (auto simp: word_le_nat_alt le_iff_add)
    have n': "unat (wbit_pos w - 8) = n" using True n by (simp add: unat_sub)
    have "word_bits (wbit_buffer w) (8 + n) =
      word_bits (ucast (wbit_buffer w) :: u8) 8 @ word_bits (drop_bit 8 (wbit_buffer w)) n"
      by (rule word_bits_split) (simp_all add: bit_simps)
    then have "wstream ?w = wstream w"
      by (simp add: wstream_def bw_u8_enc bw_write_def n n' bytes_bits_Cons)
    moreover have "bits_below (wbit_buffer ?w) (unat (wbit_pos ?w))"
      using bits_belowD [OF 1(2)] n n' by (intro bits_belowI) (fastforce simp: bit_simps)
    ultimately show ?thesis
      using True 1(1) by (subst (1 2) bw_flush_bits.simps) simp
  next
    case False
    then show ?thesis
      using 1(2) by (subst (1 2) bw_flush_bits.simps) (simp add: winv_def word_le_nat_alt)
  qed
qed

lemma bits_stream:
  assumes "winv w" and c: "c \<le> 32" and v: "bits_below value (unat c)"
  obtains w' where "bw_bits value c w = Inr w'" and "winv w'"
    and "wstream w' = wstream w @ word_bits value (unat c)"
proof -
  let ?p = "unat (wbit_pos w)"
  let ?b = "wbit_buffer w OR push_bit ?p (ucast value)"
  let ?w = "w \<lparr> wbit_buffer := ?b, wbit_pos := wbit_pos w + c \<rparr>"
  have c': "unat c \<le> 32" using c by (simp add: word_le_nat_alt)
  then have p: "?p < 8" and pc: "unat (wbit_pos w + c) = ?p + unat c"
    using assms(1) by (auto simp: winv_def unat_word_ariths)
  have below: "bits_below ?b (?p + unat c)"
    using assms(1) v
    by (intro bits_belowI) (auto simp: winv_def bit_simps dest: bits_belowD)
  have "word_bits ?b (?p + unat c) = word_bits (wbit_buffer w) ?p @ word_bits value (unat c)"
    using p c' assms(1)
    by (intro word_bits_split) (auto simp: bit_simps winv_def dest: bits_belowD)
  then have "wstream ?w = wstream w @ word_bits value (unat c)"
    by (simp add: wstream_def pc)
  moreover have "bw_bits value c w = Inr (bw_flush_bits ?w)"
    using c by (simp add: bw_bits_def)
  moreover have "winv (bw_flush_bits ?w) \<and> wstream (bw_flush_bits ?w) = wstream ?w"
    using below by (intro flush_stream) (simp add: pc)
  ultimately show ?thesis using that by metis
qed

lemma finalize_stream:
  assumes "winv w"
  obtains pad where "bytes_bits (wbuf (bw_finalize_bits w)) = wstream w @ pad" "length pad < 8"
proof (cases "wbit_pos w > 0")
  case True
  let ?p = "unat (wbit_pos w)" and ?b = "ucast (wbit_buffer w) :: u8"
  have "?p < 8" using assms by (simp add: winv_def)
  then obtain k where k: "8 = ?p + k" by (metis le_iff_add less_imp_le)
  have "word_bits ?b (?p + k) = word_bits (wbit_buffer w) ?p @ word_bits (drop_bit ?p ?b) k"
    using \<open>?p < 8\<close> by (intro word_bits_split) (auto simp: bit_simps)
  then have "bytes_bits (wbuf (bw_finalize_bits w)) = wstream w @ word_bits (drop_bit ?p ?b) k"
    using True k by (simp add: bw_finalize_bits_def bw_u8_enc bytes_bits_Cons wstream_def)
  moreover have "k < 8" using True k by (simp add: word_less_nat_alt)
  ultimately show ?thesis using that by auto
next
  case False
  then have "wbit_pos w = 0" by (simp add: word_gt_0)
  then show ?thesis using that [of "[]"] by (simp add: bw_finalize_bits_def wstream_def word_bits_def)
qed


section \<open>The reader\<close>

definition rstream :: "reader \<Rightarrow> bool list" where
  "rstream r = word_bits (rbit_buffer r) (unat (rbit_pos r)) @ bytes_bits (br_left r)"

definition rinv :: "reader \<Rightarrow> bool" where
  "rinv r \<longleftrightarrow> reader_ok r \<and> unat (rbit_pos r) < 40 \<and> bits_below (rbit_buffer r) (unat (rbit_pos r))"

lemma br_left_bits [simp]: "br_left (r \<lparr> rbit_buffer := b, rbit_pos := p \<rparr>) = br_left r"
  by (simp add: br_left_def)

lemma fill_stream:
  "rinv r \<Longrightarrow> unat c \<le> 32 \<Longrightarrow> unat c \<le> length (rstream r) \<Longrightarrow>
   \<exists>r'. br_bits_fill c r = Inr ((), r') \<and> rinv r' \<and> rstream r' = rstream r \<and>
        unat c \<le> unat (rbit_pos r')"
proof (induction "length (br_left r)" arbitrary: r rule: less_induct)
  case less
  show ?case
  proof (cases "rbit_pos r < c")
    case True
    then have lt: "unat (rbit_pos r) < unat c" by (simp add: word_less_nat_alt)
    with less.prems obtain b bs where left: "br_left r = b # bs"
      by (cases "br_left r") (auto simp: rstream_def)
    from less.prems have ok: "reader_ok r" and below: "bits_below (rbit_buffer r) (unat (rbit_pos r))"
      by (auto simp: rinv_def)
    let ?p = "unat (rbit_pos r)"
    let ?b = "rbit_buffer r OR push_bit ?p (ucast b)"
    let ?r = "(br_skip 1 r) \<lparr> rbit_buffer := ?b, rbit_pos := rbit_pos r + 8 \<rparr>"
    have fill: "br_bits_fill c r = br_bits_fill c ?r"
      using True ok left by (subst br_bits_fill.simps) (simp add: br_u8_left br_skip_def)
    have left': "br_left ?r = bs" using left by simp
    have pos: "unat (rbit_pos r + 8) = ?p + 8"
      using lt less.prems by (simp add: unat_word_ariths)
    have "word_bits ?b (?p + 8) = word_bits (rbit_buffer r) ?p @ word_bits b 8"
      using lt less.prems below by (intro word_bits_split) (auto simp: bit_simps dest: bits_belowD)
    then have stream: "rstream ?r = rstream r"
      by (simp add: rstream_def pos left bytes_bits_Cons)
    have "reader_ok ?r"
      using reader_ok_skip [OF ok, of 1] left by (simp add: reader_ok_def)
    moreover have "bits_below ?b (?p + 8)"
    proof (rule bits_belowI)
      fix i assume "bit ?b i"
      then show "i < ?p + 8"
        using bits_belowD [OF below, of i] bit_imp_le_length [of b "i - ?p"] by (auto simp: bit_simps)
    qed
    ultimately have "rinv ?r" using lt less.prems by (simp add: rinv_def pos)
    moreover have "length (br_left ?r) < length (br_left r)" using left by simp
    ultimately show ?thesis
      using less.hyps [of ?r] less.prems unfolding fill stream by blast
  next
    case False
    then show ?thesis
      using less.prems by (subst br_bits_fill.simps) (simp add: word_less_nat_alt)
  qed
qed

lemma read_bits_stream:
  assumes "rinv r" and c: "unat c \<le> 32" and len: "unat c \<le> length (rstream r)"
  obtains v r' where "br_bits c r = Inr (v, r')" and "rinv r'"
    and "rstream r' = drop (unat c) (rstream r)"
    and "word_bits v (unat c) = take (unat c) (rstream r)" and "bits_below v (unat c)"
proof -
  obtain t where t: "br_bits_fill c r = Inr ((), t)" "rinv t" "rstream t = rstream r"
      "unat c \<le> unat (rbit_pos t)"
    using fill_stream [OF assms] by blast
  let ?c = "unat c" and ?B = "rbit_buffer t"
  let ?v = "ucast (?B AND (push_bit ?c 1 - 1)) :: u32"
  let ?r = "t \<lparr> rbit_buffer := drop_bit ?c ?B, rbit_pos := rbit_pos t - c \<rparr>"
  obtain k where k: "unat (rbit_pos t) = ?c + k" using t(4) by (auto simp: le_iff_add)
  have pos: "unat (rbit_pos t - c) = k"
    using t(4) k by (simp add: unat_sub word_le_nat_alt)
  have v: "?v = ucast (take_bit ?c ?B)"
    by (simp add: take_bit_eq_mask mask_eq_exp_minus_1 push_bit_eq_mult)
  have bitv: "bit ?v i \<longleftrightarrow> i < ?c \<and> bit ?B i" for i
    unfolding v using c by (auto simp: bit_simps)
  have split: "word_bits ?B (?c + k) = word_bits ?v ?c @ word_bits (drop_bit ?c ?B) k"
    by (rule word_bits_split) (auto simp only: bitv bit_drop_bit_eq comp_apply)
  have stream: "rstream r = word_bits ?v ?c @ rstream ?r"
    using split unfolding t(3) [symmetric] by (simp add: rstream_def k pos br_left_def)
  show ?thesis
  proof
    show "br_bits c r = Inr (?v, ?r)"
      using c t by (simp add: br_bits_def word_less_nat_alt)
    have "bits_below (drop_bit ?c ?B) k"
      using t(2) k by (intro bits_belowI) (fastforce simp: bit_simps rinv_def dest: bits_belowD)
    then show "rinv ?r" using t(2) k by (simp add: rinv_def pos reader_ok_def)
    show "rstream ?r = drop ?c (rstream r)" "word_bits ?v ?c = take ?c (rstream r)"
      unfolding stream by simp_all
    show "bits_below ?v ?c" by (rule bits_belowI) (simp only: bitv)
  qed
qed

section \<open>Packed sequences\<close>

text \<open>Packing a sequence of values, each in its count of bits, and unpacking the same counts.\<close>

fun pack :: "(u32 \<times> u8) list \<Rightarrow> writer \<Rightarrow> writer res" where
  "pack [] w = Inr (bw_finalize_bits w)"
| "pack ((v, c) # xs) w = bindE (bw_bits v c w) (pack xs)"

fun unpack :: "u8 list \<Rightarrow> (reader, u32 list) stm" where
  "unpack [] = returnS []"
| "unpack (c # cs) = bindS (br_bits c) (\<lambda>v. bindS (unpack cs) (\<lambda>vs. returnS (v # vs)))"

definition fits :: "u32 \<times> u8 \<Rightarrow> bool" where
  "fits x \<longleftrightarrow> unat (snd x) \<le> 32 \<and> unat (fst x) < 2 ^ unat (snd x)"

lemma fits_below: "fits (v, c) \<Longrightarrow> bits_below v (unat c)"
  unfolding fits_def bits_below_def
  by (simp add: word_unat_eq_iff unsigned_take_bit_eq take_bit_nat_eq_self)

definition bits_of :: "(u32 \<times> u8) list \<Rightarrow> bool list" where
  "bits_of xs = concat (map (\<lambda>(v, c). word_bits v (unat c)) xs)"

lemma pack_stream:
  "\<forall>x \<in> set xs. fits x \<Longrightarrow> winv w \<Longrightarrow>
   \<exists>w' pad. pack xs w = Inr w' \<and> bytes_bits (wbuf w') = wstream w @ bits_of xs @ pad"
proof (induction xs arbitrary: w)
  case Nil
  then show ?case by (auto simp: bits_of_def elim: finalize_stream)
next
  case (Cons x xs)
  obtain v c where x: "x = (v, c)" by (cases x)
  have f: "fits (v, c)" using Cons.prems x by simp
  then have "c \<le> 32" by (simp add: fits_def word_le_nat_alt)
  with Cons.prems f fits_below obtain t where "bw_bits v c w = Inr t" "winv t"
      "wstream t = wstream w @ word_bits v (unat c)"
    by (metis bits_stream)
  with Cons.IH [of t] Cons.prems x show ?case by (auto simp: bits_of_def)
qed

lemma unpack_stream:
  "\<forall>x \<in> set xs. fits x \<Longrightarrow> rinv r \<Longrightarrow> rstream r = bits_of xs @ rest \<Longrightarrow>
   \<exists>r'. unpack (map snd xs) r = Inr (map fst xs, r')"
proof (induction xs arbitrary: r)
  case Nil
  then show ?case by simp
next
  case (Cons x xs)
  obtain v c where x: "x = (v, c)" by (cases x)
  have f: "fits (v, c)" using Cons.prems x by simp
  have st: "rstream r = word_bits v (unat c) @ bits_of xs @ rest"
    using Cons.prems x by (simp add: bits_of_def)
  from f have c: "unat c \<le> 32" by (simp add: fits_def)
  obtain u t where t: "br_bits c r = Inr (u, t)" "rinv t" "rstream t = bits_of xs @ rest"
      "word_bits u (unat c) = word_bits v (unat c)" "bits_below u (unat c)"
    using read_bits_stream [OF Cons.prems(2) c] st by auto
  then have "u = v" using f fits_below word_bits_inject by metis
  with Cons.IH [of t] Cons.prems t x show ?case by auto
qed

section \<open>Properties\<close>

text \<open>Values packed one after the other into their numbers of bits, whatever the counts, come
  back unchanged when the same counts are read from the finished buffer.\<close>

theorem bits_roundtrip:
  assumes "\<forall>x \<in> set xs. fits x"
  shows "\<exists>w. pack xs bw_new = Inr w \<and>
    (length (bw_bytes w) < 2 ^ 63 \<longrightarrow>
      (\<exists>r. unpack (map snd xs) (br_new (bw_bytes w)) = Inr (map fst xs, r)))"
proof -
  have "winv bw_new" "wstream bw_new = []"
    by (simp_all add: winv_def bw_new_def bits_below_def wstream_def word_bits_def)
  with pack_stream [OF assms] obtain w pad where w: "pack xs bw_new = Inr w"
      "bytes_bits (wbuf w) = bits_of xs @ pad"
    by fastforce
  have "\<exists>r. unpack (map snd xs) (br_new (bw_bytes w)) = Inr (map fst xs, r)"
    if "length (bw_bytes w) < 2 ^ 63"
    using that w assms
    by (intro unpack_stream [where rest = pad])
       (auto simp: rinv_def br_new_def reader_ok_def bits_below_def rstream_def word_bits_def
          br_left_def bw_bytes_def)
  with w show ?thesis by blast
qed

theorem bits_roundtrip_witness:
  "\<exists>w. pack [(5, 3), (1, 1), (300, 12)] bw_new = Inr w \<and> (length (bw_bytes w) < 2 ^ 63 \<longrightarrow>
      (\<exists>r. unpack [3, 1, 12] (br_new (bw_bytes w)) = Inr ([5, 1, 300], r)))"
  using bits_roundtrip [of "[(5, 3), (1, 1), (300, 12)]"] by (simp add: fits_def)

end
