(* ===== verification/Interlink_Invariant.thy ===== *)
theory Interlink_Invariant
  imports Interlink_Delivery
begin

text \<open>
  The reachable states of the interlink as a transition system over its entry points and what the
  library delivers in each tick, and the invariant that no two connections share a handle.
\<close>

section \<open>Transitions\<close>

datatype 'a il_call =
    Call_Init
  | Call_Establish network_identity
  | Call_Establish_At network_identity 'a
  | Call_Send network_identity packet u32
  | Call_Close network_identity
  | Call_Tick "(u32 \<times> bytes) list" "(gns_state \<times> 'a cb_info) list"

fun il_run :: "'a il_env \<Rightarrow> 'a il_call \<Rightarrow> ('a interlink, unit) stm" where
  "il_run E Call_Init = interlink_init E"
| "il_run E (Call_Establish n) = bindS (establish_connection_to E n) (\<lambda>_. returnS ())"
| "il_run E (Call_Establish_At n a) = bindS (establish_connection_at_ip E n a) (\<lambda>_. returnS ())"
| "il_run E (Call_Send n p flag) = send_message E n p flag"
| "il_run E (Call_Close n) = (\<lambda>s. Inr ((), close_connection_to E n s))"
| "il_run E (Call_Tick ms cs) = tick E ms cs"

inductive il_reach :: "'a il_env \<Rightarrow> 'a interlink \<Rightarrow> bool" for E where
  start: "il_reach E il_start"
| call: "il_reach E s \<Longrightarrow> il_run E c s = Inr ((), s') \<Longrightarrow> il_reach E s'"

section \<open>The invariant\<close>

text \<open>The values that an uninitialised handle can hold, and the handles of a table other than these.\<close>

definition uninit_handles :: "'a il_env \<Rightarrow> u32 set" where
  "uninit_handles E = {h. \<exists>log cs. h = ie_uninit E log cs}"

definition handles :: "'a il_env \<Rightarrow> 'a connection list \<Rightarrow> u32 list" where
  "handles E cs = filter (\<lambda>h. h \<notin> uninit_handles E) (map con_handle cs)"

definition known :: "'a history \<Rightarrow> u32 set" where
  "known log = {h. Accept h \<in> set log \<or> (\<exists>a. Connect_To a h \<in> set log)}"

definition handles_inv :: "'a il_env \<Rightarrow> 'a interlink \<Rightarrow> bool" where
  "handles_inv E s \<longleftrightarrow> distinct (handles E (il_connections s)) \<and>
    set (handles E (il_connections s)) \<subseteq> known (il_effects s)"

text \<open>What the interlink relies on from the library: a new outgoing connection gets a handle that was
  not used before.\<close>

definition fresh_handles :: "'a il_env \<Rightarrow> bool" where
  "fresh_handles E \<longleftrightarrow> (\<forall>log a. ie_connect E log a = 0 \<or> ie_connect E log a \<notin> known log)"

definition preserves :: "('s \<Rightarrow> bool) \<Rightarrow> ('s, 'a) stm \<Rightarrow> bool" where
  "preserves I m \<longleftrightarrow> (\<forall>s a s'. I s \<longrightarrow> m s = Inr (a, s') \<longrightarrow> I s')"

named_theorems preserves_intros

lemma preservesI: "(\<And>s a s'. I s \<Longrightarrow> m s = Inr (a, s') \<Longrightarrow> I s') \<Longrightarrow> preserves I m"
  by (auto simp: preserves_def)

lemma preservesD: "preserves I m \<Longrightarrow> I s \<Longrightarrow> m s = Inr (a, s') \<Longrightarrow> I s'"
  by (auto simp: preserves_def)

lemma preserves_return [preserves_intros]: "preserves I (returnS a)"
  by (simp add: preserves_def)

lemma preserves_value [preserves_intros]: "preserves I (\<lambda>s. Inr (a, s))"
  by (simp add: preserves_def)

lemma preserves_bind [preserves_intros]:
  "preserves I m \<Longrightarrow> (\<And>a. preserves I (f a)) \<Longrightarrow> preserves I (bindS m f)"
  unfolding preserves_def bindS_eq_Inr by blast

lemma known_append [simp]: "known (log @ log') = known log \<union> known log'"
  by (auto simp: known_def)

lemma known_simps [simp]:
  "known [] = {}" "known [Accept h] = {h}" "known [Connect_To a h] = {h}"
  "known [Close_Handle h b] = {}" "known [Set_Poll_Group h] = {}" "known [Send_To h bs f] = {}"
  "known [Register_Client c] = {}" "known [Assign_Proxy u n] = {}" "known [Client_Connected c n] = {}"
  "known [Handshake c] = {}" "known [Dispatched p n] = {}" "known [Register_Self a] = {}"
  "known [Register_Public a] = {}"
  by (auto simp: known_def)

lemma handles_append [simp]: "handles E (cs @ ds) = handles E cs @ handles E ds"
  by (simp add: handles_def)

lemma handles_update_first: "(\<And>c. con_handle (f c) = con_handle c) \<Longrightarrow> handles E (update_first P f cs) = handles E cs"
  by (induction cs) (simp_all add: handles_def)

lemma handles_erase_first: "subseq (handles E (erase_first P cs)) (handles E cs)"
  by (induction cs) (auto simp: handles_def)

lemma subseq_set: "subseq xs ys \<Longrightarrow> set xs \<subseteq> set ys"
  by (induction rule: list_emb.induct) auto

lemma distinct_subseq: "subseq xs ys \<Longrightarrow> distinct ys \<Longrightarrow> distinct xs"
  by (induction rule: list_emb.induct) (auto dest: subseq_set)

lemma inv_subseq:
  assumes "handles_inv E s" and "subseq (handles E (il_connections s')) (handles E (il_connections s))"
    and "known (il_effects s) \<subseteq> known (il_effects s')"
  shows "handles_inv E s'"
  using assms subseq_set [OF assms(2)] by (auto simp: handles_inv_def intro: distinct_subseq)

lemma inv_same:
  "handles_inv E s \<Longrightarrow> handles E (il_connections s') = handles E (il_connections s) \<Longrightarrow>
   known (il_effects s) \<subseteq> known (il_effects s') \<Longrightarrow> handles_inv E s'"
  by (rule inv_subseq) simp_all

lemma inv_emit: "handles_inv E s \<Longrightarrow> handles_inv E (emit e s)"
  by (erule inv_same) auto

lemma inv_hand_over: "handles_inv E s \<Longrightarrow> handles_inv E (hand_over L h bs flag s)"
  by (erule inv_same) simp_all

lemma uninit_handle [simp]: "ie_uninit E log cs \<in> uninit_handles E"
  by (auto simp: uninit_handles_def)

lemma inv_insert_new:
  "handles_inv E s \<Longrightarrow> con_handle c \<in> uninit_handles E \<Longrightarrow> handles_inv E (insert_connection c s)"
  by (erule inv_same) (simp_all add: insert_connection_def handles_def)

lemma inv_modify:
  "handles_inv E s \<Longrightarrow> (\<And>c. con_handle (f c) = con_handle c) \<Longrightarrow> handles_inv E (modify_handle h f s)"
  by (erule inv_same) (simp_all add: modify_handle_def handles_update_first)

lemma preserves_establish [preserves_intros]: "preserves (handles_inv E) (establish_connection_to E n)"
  by (rule preservesI)
     (auto simp: establish_connection_to_def set_new_state_def con_new_def
       split: if_splits option.splits intro!: inv_insert_new)

lemma preserves_establish_at [preserves_intros]: "preserves (handles_inv E) (establish_connection_at_ip E n a)"
  by (rule preservesI)
     (auto simp: establish_connection_at_ip_def set_new_state_def con_new_def
       split: if_splits option.splits intro!: inv_insert_new)

lemma preserves_queue [preserves_intros]: "preserves (handles_inv E) (queue_message E who p flag)"
  by (rule preservesI) (auto simp: queue_message_def elim!: inv_same)

lemma preserves_send [preserves_intros]: "preserves (handles_inv E) (send_message E who p flag)"
proof (rule preservesI)
  fix s a s' assume i: "handles_inv E s" and m: "send_message E who p flag s = Inr (a, s')"
  have est: "preserves (handles_inv E) (bindS (establish_connection_to E who) (\<lambda>_. queue_message E who p flag))"
    by (intro preserves_intros)
  show "handles_inv E s'"
    using m i preservesD [OF est i] preservesD [OF preserves_queue i] inv_hand_over [OF i]
    by (auto simp: send_message_def bindE_def split: if_splits option.splits sum.splits)
qed

lemma preserves_flush_loop: "preserves (handles_inv E) (flush_loop E who ms n)"
proof (induction ms)
  case (Cons m ms)
  obtain p flag where m: "m = (p, flag)" by (cases m)
  have "preserves (handles_inv E) (\<lambda>s. if length (queue_of E who (il_queued s)) \<noteq> n then Inl (UB Out_Of_Bounds)
      else flush_loop E who ms n s)"
    using Cons.IH by (auto simp: preserves_def)
  then show ?case by (simp add: m preserves_bind preserves_send)
qed (simp add: preserves_return preserves_value)

lemma preserves_flush [preserves_intros]: "preserves (handles_inv E) (flush_queued E who)"
proof (rule preservesI)
  fix s a s' assume i: "handles_inv E s" and m: "flush_queued E who s = Inr (a, s')"
  have erase: "preserves (handles_inv E) (\<lambda>s. Inr ((), s \<lparr> il_queued := queue_erase E who (il_queued s) \<rparr>))"
    by (rule preservesI) (auto elim!: inv_same)
  have "preserves (handles_inv E) (bindS (flush_loop E who (queue_of E who (il_queued s)) n)
      (\<lambda>_ s. Inr ((), s \<lparr> il_queued := queue_erase E who (il_queued s) \<rparr>)))" for n
    by (rule preserves_bind [OF preserves_flush_loop erase])
  then show "handles_inv E s'"
    using m i by (auto simp: flush_queued_def Let_def split: if_splits dest: preservesD)
qed

lemma preserves_if [preserves_intros]:
  "(b \<Longrightarrow> preserves I m) \<Longrightarrow> (\<not> b \<Longrightarrow> preserves I m') \<Longrightarrow> preserves I (if b then m else m')"
  by simp

lemma preserves_client_connected [preserves_intros]: "preserves (handles_inv E) (on_client_connected E c)"
proof (rule preservesI)
  fix s a s' assume i: "handles_inv E s" and m: "on_client_connected E c s = Inr (a, s')"
  have i': "handles_inv E (modify_handle h (\<lambda>c. c \<lparr> con_target := n \<rparr>) s)" for h n
    by (rule inv_modify [OF i]) simp
  have tail: "preserves (handles_inv E) (\<lambda>s. let s = emit (Register_Client client) s
      in if nid_type (ie_self E) \<noteq> nt_proxy then Inl (AssertFail ''Proxy must be proxy type'')
         else Inr ((), emit (Handshake client) (emit (Client_Connected client (ie_self E))
           (emit (Assign_Proxy (cl_id client) (ie_self E)) s))))" for client :: "'a client"
    by (rule preservesI) (auto simp: Let_def intro!: inv_emit split: if_splits)
  show "handles_inv E s'"
    using m i preservesD [OF preserves_bind [OF preserves_send tail] i']
    by (auto simp: on_client_connected_def Let_def split: if_splits)
qed

lemma preserves_connected [preserves_intros]: "preserves (handles_inv E) (callback_on_connected E info)"
proof (rule preservesI)
  fix s a s' assume i: "handles_inv E s" and m: "callback_on_connected E info s = Inr (a, s')"
  have i': "handles_inv E (emit (Set_Poll_Group h) (modify_handle h (set_new_state st) s))" for h st
    by (rule inv_emit, rule inv_modify [OF i]) simp
  have tail: "preserves (handles_inv E) (\<lambda>s. case find_handle (cb_handle info) s of None \<Rightarrow> Inr ((), s)
      | Some v \<Rightarrow> flush_queued E (con_target v) s)"
    by (rule preservesI) (auto split: option.splits dest: preservesD [OF preserves_flush])
  have all: "preserves (handles_inv E) (bindS (if b then on_client_connected E v else returnS ())
      (\<lambda>_ s. case find_handle (cb_handle info) s of None \<Rightarrow> Inr ((), s)
        | Some v \<Rightarrow> flush_queued E (con_target v) s))" for b v
    by (intro preserves_bind preserves_if preserves_client_connected preserves_return tail)
  show "handles_inv E s'"
    using m preservesD [OF all i']
    by (auto simp: callback_on_connected_def Let_def bindE_def split: option.splits sum.splits)
qed

lemma inv_accept:
  assumes "handles_inv E s" and "find_handle h s = None" and "con_handle c = h"
  shows "handles_inv E (insert_connection c (emit (Accept h) s))"
proof -
  have "h \<notin> set (handles E (il_connections s))"
    using assms(2) by (auto simp: find_handle_def find_None_iff has_handle_def handles_def)
  then show ?thesis
    using assms(1,3) by (auto simp: handles_inv_def insert_connection_def handles_def)
qed

lemma preserves_connecting [preserves_intros]: "preserves (handles_inv E) (callback_on_connecting E info)"
proof (rule preservesI)
  fix s a s' assume i: "handles_inv E s" and m: "callback_on_connecting E info s = Inr (a, s')"
  show "handles_inv E s'"
  proof (cases "find_handle (cb_handle info) s")
    case None
    then show ?thesis
      using m i inv_accept [OF i None]
      by (auto simp: callback_on_connecting_def Let_def bindE_def set_new_state_def con_new_def
          intro!: inv_emit split: sum.splits if_splits)
  next
    case (Some c)
    then show ?thesis
      using m i by (auto simp: callback_on_connecting_def intro!: inv_modify)
  qed
qed

lemma preserves_status [preserves_intros]: "preserves (handles_inv E) (on_status_changed E st info)"
proof (cases st)
  case G_Closed_By_Peer
  have "handles_inv E (callback_on_closed_by_peer info s)" if "handles_inv E s" for s
    using that by (auto simp: callback_on_closed_by_peer_def elim!: inv_subseq intro: handles_erase_first)
  then show ?thesis by (auto simp: G_Closed_By_Peer preserves_def)
next
  case G_Problem
  have "handles_inv E (callback_on_problem info s)" if "handles_inv E s" for s
    using that by (auto simp: callback_on_problem_def elim!: inv_subseq intro: handles_erase_first)
  then show ?thesis by (auto simp: G_Problem preserves_def)
qed (simp_all add: preserves_intros preserves_value)

lemma preserves_callbacks [preserves_intros]: "preserves (handles_inv E) (run_callbacks E cs)"
  by (induction cs rule: run_callbacks.induct) (auto intro!: preserves_intros)

lemma preserves_receive [preserves_intros]: "preserves (handles_inv E) (receive_messages E ms)"
proof (induction ms)
  case (Cons m ms)
  obtain h bs where m: "m = (h, bs)" by (cases m)
  show ?case
  proof (rule preservesI)
    fix s a s' assume i: "handles_inv E s" and r: "receive_messages E (m # ms) s = Inr (a, s')"
    then obtain e where "receive_messages E ms (emit e s) = Inr (a, s')"
      by (auto simp: m bindE_def split: option.splits sum.splits)
    then show "handles_inv E s'" using preservesD [OF Cons.IH inv_emit [OF i]] by blast
  qed
qed (simp add: preserves_return preserves_value)

lemma generate_loop_inv:
  assumes "fresh_handles E" and "generate_loop E cs log = (cs', log')"
    and "distinct (pre @ handles E cs)" and "set (pre @ handles E cs) \<subseteq> known log"
  shows "distinct (pre @ handles E cs') \<and> set (pre @ handles E cs') \<subseteq> known log' \<and> known log \<subseteq> known log'"
  using assms(2-)
proof (induction cs arbitrary: log cs' log' pre)
  case (Cons c cs)
  have snoc: "pre @ handles E (d # ds) = (pre @ handles E [d]) @ handles E ds" for d :: "'a connection" and ds
    by (simp add: handles_def)
  note here = Cons.prems(2,3) [unfolded snoc [of c cs]]
  show ?case
  proof (cases "con_state c = C_Pre_Connecting")
    case False
    then obtain ds where g: "generate_loop E cs log = (ds, log')" "cs' = c # ds"
      using Cons.prems(1) by (auto split: prod.splits)
    from Cons.IH [OF g(1) here] show ?thesis unfolding g(2) snoc [of c ds] .
  next
    case True
    let ?h = "ie_connect E log (con_address c)"
    let ?c = "if ?h = 0 then c else c \<lparr> con_handle := ?h \<rparr>"
    let ?log = "log @ [Connect_To (con_address ?c) ?h]"
    obtain ds where g: "generate_loop E cs ?log = (ds, log')" "cs' = ?c # ds"
      using Cons.prems(1) True by (auto simp: Let_def split: prod.splits if_splits)
    have "?h = 0 \<or> ?h \<notin> known log" using assms(1) by (simp add: fresh_handles_def)
    then have "distinct ((pre @ handles E [?c]) @ handles E cs)"
      "set ((pre @ handles E [?c]) @ handles E cs) \<subseteq> known ?log"
      using Cons.prems(2,3) by (auto simp: handles_def split: if_splits)
    from Cons.IH [OF g(1) this] show ?thesis unfolding g(2) snoc [of ?c ds] by auto
  qed
qed simp

lemma inv_generate: "fresh_handles E \<Longrightarrow> handles_inv E s \<Longrightarrow> handles_inv E (generate_new_connections E s)"
  using generate_loop_inv [of E "il_connections s" "il_effects s" _ _ "[]"]
  by (auto simp: generate_new_connections_def handles_inv_def split: prod.splits)

lemma preserves_run:
  assumes "fresh_handles E"
  shows "preserves (handles_inv E) (il_run E c)"
proof (cases c)
  case Call_Init
  have "preserves (handles_inv E) (interlink_init E)"
  proof (rule preservesI)
    fix s a s' assume i: "handles_inv E s" and m: "interlink_init E s = Inr (a, s')"
    have st: "preserves (handles_inv E) (\<lambda>s. Inr ((), s \<lparr> il_init := True \<rparr>))"
      by (rule preservesI) (auto elim!: inv_same)
    let ?s = "if nid_type (ie_self E) = nt_proxy
      then emit (Register_Public (ie_no_ip E)) (emit (Register_Self (ie_own_ip E)) s)
      else emit (Register_Self (ie_own_ip E)) s"
    have "handles_inv E ?s" using i by (simp add: inv_emit)
    note est = preservesD [OF preserves_bind [OF preserves_establish st] this] preservesD [OF st this]
    show "handles_inv E s'"
      using m i est by (simp add: interlink_init_def Let_def split: if_split_asm)
  qed
  then show ?thesis by (simp add: Call_Init)
next
  case (Call_Close n)
  have "handles_inv E (close_connection_to E n s)" if "handles_inv E s" for s
    using that by (auto simp: close_connection_to_def elim!: inv_subseq intro: handles_erase_first split: option.splits)
  then show ?thesis by (auto simp: Call_Close preserves_def)
next
  case (Call_Tick ms cs)
  have "preserves (handles_inv E) (bindS (receive_messages E ms) (\<lambda>_. run_callbacks E cs))"
    by (intro preserves_intros)
  then show ?thesis using inv_generate [OF assms] by (auto simp: Call_Tick tick_def preserves_def)
qed (auto intro!: preserves_intros)

section \<open>Properties\<close>

text \<open>C24: in every state the interlink can reach, whatever the peers and the callers do, and provided the
  library gives every outgoing connection a handle it has not given out before, no two connections
  share a handle, so that a callback or a message concerns one connection only; and after a connection
  was closed by its peer or failed, its handle is no longer in the table. Not covered are the values
  that the uninitialised handle of a connection not yet opened can hold: the constructor does not set it.\<close>

theorem handles_stay_distinct:
  assumes "il_reach E s" and "fresh_handles E"
  shows "distinct (filter (\<lambda>h. h \<notin> uninit_handles E) (map con_handle (il_connections s))) \<and>
    (cb_handle info \<notin> uninit_handles E \<longrightarrow>
      find_handle (cb_handle info) (callback_on_closed_by_peer info s) = None \<and>
      find_handle (cb_handle info) (callback_on_problem info s) = None)"
proof -
  have inv: "handles_inv E s"
    using assms(1)
  proof induction
    case start
    then show ?case by (simp add: handles_inv_def il_start_def handles_def)
  next
    case (call s c s')
    then show ?case using preservesD [OF preserves_run [OF assms(2)]] by blast
  qed
  have none: "find (has_handle h) cs = None" if "h \<notin> set (handles E cs)" "h \<notin> uninit_handles E" for h cs
    using that by (auto simp: handles_def has_handle_def find_None_iff)
  have gone: "find (has_handle h) (erase_first (has_handle h) cs) = None"
    if "distinct (handles E cs)" "h \<notin> uninit_handles E" for h cs
    using that(1)
  proof (induction cs)
    case (Cons c cs)
    show ?case
    proof (cases "has_handle h c")
      case True
      then have "h \<notin> set (handles E cs)" using Cons.prems that(2) by (simp add: handles_def has_handle_def)
      then show ?thesis using True none that(2) by simp
    next
      case False
      then show ?thesis using Cons by (simp add: handles_def split: if_splits)
    qed
  qed simp
  have "distinct (handles E (il_connections s))" using inv by (simp add: handles_inv_def)
  then show ?thesis
    using gone by (auto simp: handles_def callback_on_closed_by_peer_def callback_on_problem_def find_handle_def)
qed

lemma demo_fresh: "fresh_handles (demo_il_env \<lparr> ie_connect := \<lambda>_ _. 0 \<rparr>)"
  by (simp add: fresh_handles_def)

theorem handles_stay_distinct_witness:
  "find_handle 5 (callback_on_problem demo_info
    (insert_connection (set_new_state C_Pre_Connecting (con_new () 0 \<lparr> con_target := make_id_cartograph \<rparr>)) il_start)) = None"
proof -
  let ?E = "demo_il_env \<lparr> ie_connect := \<lambda>_ _. 0 \<rparr>"
  let ?s = "insert_connection (set_new_state C_Pre_Connecting (con_new () 0 \<lparr> con_target := make_id_cartograph \<rparr>)) il_start"
  have "il_run ?E (Call_Establish make_id_cartograph) il_start = Inr ((), ?s)"
    by (simp add: establish_connection_to_def find_target_def il_start_def demo_il_env_def
        make_id_watchdog_def make_id_cartograph_def nid_is_internal_def nt_defs bindS_def numeral_eq_Suc)
  with il_reach.start have "il_reach ?E ?s" by (rule il_reach.call)
  moreover have "5 \<notin> uninit_handles ?E" by (simp add: uninit_handles_def demo_il_env_def)
  ultimately show ?thesis
    using handles_stay_distinct [OF _ demo_fresh, of ?s demo_info] by (simp add: demo_info_def)
qed

text \<open>The exception is needed: when the memory of a new connection happens to hold the handle of an
  existing one, the two share it from the moment the new one is asked for, and the lookup of the handle
  may find either.\<close>

theorem uninitialised_handle_shared:
  assumes "nid_type (ie_self E) \<noteq> nt_game_client" and "find_target E n s = None" and "nid_is_internal n"
    and "lookup_ip E n (il_effects s) 0 5 = Some a" and "d \<in> set (il_connections s)"
    and "ie_uninit E (il_effects s) (il_connections s) = con_handle d"
  shows "\<exists>s' c. establish_connection_to E n s = Inr (True, s') \<and> il_connections s' = il_connections s @ [c] \<and>
    con_target c = n \<and> con_handle c = con_handle d \<and> \<not> distinct (map con_handle (il_connections s'))"
  using assms by (auto simp: establish_connection_to_def insert_connection_def set_new_state_def con_new_def)

theorem uninitialised_handle_shared_witness:
  "\<exists>s' c. establish_connection_to (demo_il_env \<lparr> ie_uninit := \<lambda>_ _. 5 \<rparr>) make_id_watchdog
      (demo_il [demo_con C_Connected 5]) = Inr (True, s') \<and>
    il_connections s' = [demo_con C_Connected 5, c] \<and> con_handle c = 5"
proof -
  let ?E = "demo_il_env \<lparr> ie_uninit := \<lambda>_ _. 5 \<rparr>" and ?s = "demo_il [demo_con C_Connected 5]"
  have "nid_ok make_id_cartograph" "nid_ok make_id_watchdog" "nt_known nt_cartograph"
    by (simp_all add: nid_ok_def make_id_cartograph_def make_id_watchdog_def nil_uuid_def nt_known_def)
  then have "\<not> nid_eq demo_printer make_id_cartograph make_id_watchdog"
    using nid_eq_known [OF demo_printer_ok, of make_id_cartograph make_id_watchdog]
    by (simp add: make_id_cartograph_def make_id_watchdog_def nt_defs)
  then have "find_target ?E make_id_watchdog ?s = None"
    by (simp add: find_target_def demo_il_def demo_con_def has_target_def demo_il_env_def)
  moreover have "lookup_ip ?E make_id_watchdog (il_effects ?s) 0 5 = Some ()"
    by (simp add: demo_il_env_def numeral_eq_Suc)
  ultimately show ?thesis
    using uninitialised_handle_shared [of ?E make_id_watchdog ?s "()" "demo_con C_Connected 5"]
    by (auto simp: demo_il_env_def demo_il_def demo_con_def make_id_watchdog_def nid_is_internal_def nt_defs)
qed

end
