(* ===== verification/Packet_Manager.thy ===== *)
theory Packet_Manager
  imports Prelude
begin

text \<open>
  The dispatcher of received packets (\<open>Network/Packet/PacketManager.hpp\<close>). A callback is identified by
  its entry's id; the entries of a type are the vector under that type. \<open>Dispatch\<close> takes a snapshot of
  pointers under the lock and calls through it without the lock, so it is split into a start and one
  step per pointer, between which any other operation may run, on another thread or from inside a
  callback.
\<close>

section \<open>State and operations\<close>

record 'cb callback_entry =
  ce_alive :: bool
  ce_id :: u64
  ce_cb :: 'cb

record 'cb packet_manager =
  pm_callbacks :: "u32 \<Rightarrow> 'cb callback_entry list option"
  pm_next_id :: u64

record subscription =
  sub_owner :: bool
  sub_type :: u32
  sub_id :: u64

definition pm_new :: "'cb packet_manager" where
  "pm_new = \<lparr> pm_callbacks = (\<lambda>_. None), pm_next_id = 1 \<rparr>"

text \<open>\<open>m_callbacks[type]\<close>: an empty vector for a new key.\<close>

definition pm_entries :: "u32 \<Rightarrow> 'cb packet_manager \<Rightarrow> 'cb callback_entry list" where
  "pm_entries t pm = (case pm_callbacks pm t of None \<Rightarrow> [] | Some es \<Rightarrow> es)"

definition pm_subscribe :: "u32 \<Rightarrow> 'cb \<Rightarrow> 'cb packet_manager \<Rightarrow> subscription \<times> 'cb packet_manager" where
  "pm_subscribe t cb pm =
    (let i = pm_next_id pm;
         entry = \<lparr> ce_alive = True, ce_id = i, ce_cb = cb \<rparr>
     in (\<lparr> sub_owner = True, sub_type = t, sub_id = i \<rparr>,
         pm \<lparr> pm_next_id := i + 1,
              pm_callbacks := (pm_callbacks pm)(t \<mapsto> pm_entries t pm @ [entry]) \<rparr>))"

fun mark_dead :: "u64 \<Rightarrow> 'cb callback_entry list \<Rightarrow> 'cb callback_entry list" where
  "mark_dead i [] = []"
| "mark_dead i (e # es) =
    (if ce_id e = i then e \<lparr> ce_alive := False \<rparr> # es else e # mark_dead i es)"

definition pm_deactivate :: "u32 \<Rightarrow> u64 \<Rightarrow> 'cb packet_manager \<Rightarrow> 'cb packet_manager" where
  "pm_deactivate t i pm =
    (case pm_callbacks pm t of
       None \<Rightarrow> pm
     | Some es \<Rightarrow> pm \<lparr> pm_callbacks := (pm_callbacks pm)(t \<mapsto> mark_dead i es) \<rparr>)"

definition sub_reset :: "subscription \<Rightarrow> 'cb packet_manager \<Rightarrow> subscription \<times> 'cb packet_manager" where
  "sub_reset s pm =
    (if sub_owner s then (s \<lparr> sub_owner := False \<rparr>, pm_deactivate (sub_type s) (sub_id s) pm)
     else (s, pm))"

text \<open>\<open>operator=(Subscription&&)\<close> on different objects: the target, the source, the manager.\<close>

definition sub_move_assign ::
  "subscription \<Rightarrow> subscription \<Rightarrow> 'cb packet_manager \<Rightarrow> subscription \<times> subscription \<times> 'cb packet_manager"
where
  "sub_move_assign dst src pm =
    (let (dst, pm) = sub_reset dst pm
     in (dst \<lparr> sub_owner := sub_owner src, sub_type := sub_type src, sub_id := sub_id src \<rparr>,
         src \<lparr> sub_owner := False \<rparr>, pm))"

definition pm_cleanup :: "'cb packet_manager \<Rightarrow> 'cb packet_manager" where
  "pm_cleanup pm = pm \<lparr> pm_callbacks := map_option (filter ce_alive) \<circ> pm_callbacks pm \<rparr>"

text \<open>The snapshot: a pointer to an entry is its type and id.\<close>

definition pm_snapshot :: "u32 \<Rightarrow> 'cb packet_manager \<Rightarrow> (u32 \<times> u64) list" where
  "pm_snapshot t pm =
    (case pm_callbacks pm t of None \<Rightarrow> [] | Some es \<Rightarrow> map (\<lambda>e. (t, ce_id e)) es)"

text \<open>One step of the loop: the callback to call, none when the entry is dead; a pointer to an entry
  that has been erased dangles.\<close>

definition pm_visit :: "u32 \<times> u64 \<Rightarrow> 'cb packet_manager \<Rightarrow> 'cb option res" where
  "pm_visit ptr pm =
    (case find (\<lambda>e. ce_id e = snd ptr) (pm_entries (fst ptr) pm) of
       None \<Rightarrow> Inl (UB Out_Of_Bounds)
     | Some e \<Rightarrow> Inr (if ce_alive e then Some (ce_cb e) else None))"

text \<open>\<open>Dispatch\<close> without interference: the callbacks called, in order.\<close>

fun pm_visit_all :: "(u32 \<times> u64) list \<Rightarrow> 'cb packet_manager \<Rightarrow> 'cb list res" where
  "pm_visit_all [] pm = Inr []"
| "pm_visit_all (p # ps) pm =
    bindE (pm_visit p pm) (\<lambda>c. bindE (pm_visit_all ps pm) (\<lambda>cs.
      Inr (case c of None \<Rightarrow> cs | Some f \<Rightarrow> f # cs)))"

definition pm_dispatch :: "u32 \<Rightarrow> 'cb packet_manager \<Rightarrow> 'cb list res" where
  "pm_dispatch t pm = pm_visit_all (pm_snapshot t pm) pm"

section \<open>Interleavings\<close>

text \<open>The manager with the snapshots of the dispatches in progress, one per thread, and the calls
  made so far, the last first.\<close>

record 'cb pm_sys =
  ps_pm :: "'cb packet_manager"
  ps_flight :: "nat \<Rightarrow> (u32 \<times> u64) list"
  ps_calls :: "(u32 \<times> u64) list"
  ps_dangling :: bool

datatype 'cb pm_event =
    Subscribe u32 'cb
  | Reset u32 u64
  | Cleanup
  | Start nat u32
  | Visit nat

inductive pm_step :: "'cb pm_sys \<Rightarrow> 'cb pm_event \<Rightarrow> 'cb pm_sys \<Rightarrow> bool" where
  subscribe: "pm_next_id (ps_pm s) \<noteq> 0 \<Longrightarrow>
    pm_step s (Subscribe t cb) (s \<lparr> ps_pm := snd (pm_subscribe t cb (ps_pm s)) \<rparr>)"
| reset: "pm_step s (Reset t i) (s \<lparr> ps_pm := pm_deactivate t i (ps_pm s) \<rparr>)"
| cleanup: "pm_step s Cleanup (s \<lparr> ps_pm := pm_cleanup (ps_pm s) \<rparr>)"
| start: "ps_flight s n = [] \<Longrightarrow>
    pm_step s (Start n t) (s \<lparr> ps_flight := (ps_flight s)(n := pm_snapshot t (ps_pm s)) \<rparr>)"
| visit_call: "ps_flight s n = p # ps \<Longrightarrow> pm_visit p (ps_pm s) = Inr (Some f) \<Longrightarrow>
    pm_step s (Visit n) (s \<lparr> ps_flight := (ps_flight s)(n := ps), ps_calls := p # ps_calls s \<rparr>)"
| visit_skip: "ps_flight s n = p # ps \<Longrightarrow> pm_visit p (ps_pm s) = Inr None \<Longrightarrow>
    pm_step s (Visit n) (s \<lparr> ps_flight := (ps_flight s)(n := ps) \<rparr>)"
| visit_dangling: "ps_flight s n = p # ps \<Longrightarrow> pm_visit p (ps_pm s) = Inl e \<Longrightarrow>
    pm_step s (Visit n) (s \<lparr> ps_flight := (ps_flight s)(n := ps), ps_dangling := True \<rparr>)"

inductive pm_run :: "'cb pm_sys \<Rightarrow> 'cb pm_event list \<Rightarrow> 'cb pm_sys \<Rightarrow> bool" where
  run_nil: "pm_run s [] s"
| run_cons: "pm_step s e t \<Longrightarrow> pm_run t es u \<Longrightarrow> pm_run s (e # es) u"

inductive_cases pm_stepE: "pm_step s e t"
inductive_cases pm_runE: "pm_run s es t"

definition ps_init :: "'cb pm_sys" where
  "ps_init = \<lparr> ps_pm = pm_new, ps_flight = (\<lambda>_. []), ps_calls = [], ps_dangling = False \<rparr>"

section \<open>The invariant\<close>

text \<open>Every id in use, in an entry or in a snapshot, has been handed out, and no two entries share
  one. The subscription counter is 64 bits wide; its wrap-around is excluded.\<close>

definition id_given :: "u64 \<Rightarrow> u64 \<Rightarrow> bool" where
  "id_given i next \<longleftrightarrow> i - 1 < next - 1"

lemma id_given_new: "n \<noteq> 0 \<Longrightarrow> id_given n (n + 1)"
  by (simp add: id_given_def word_less_nat_alt unat_sub word_le_nat_alt unat_gt_0 Suc_le_eq)

lemma id_given_step: "n \<noteq> 0 \<Longrightarrow> id_given i n \<Longrightarrow> id_given i (n + 1)"
  using id_given_new [of n] unfolding id_given_def by (rule less_trans [rotated])

lemma id_given_irrefl [simp]: "\<not> id_given n n"
  by (simp add: id_given_def)

definition pm_inv :: "'cb packet_manager \<Rightarrow> bool" where
  "pm_inv pm \<longleftrightarrow>
    (\<forall>t. distinct (map ce_id (pm_entries t pm)) \<and>
      (\<forall>e \<in> set (pm_entries t pm). id_given (ce_id e) (pm_next_id pm)))"

lemma pm_entries_subscribe:
  "pm_entries t' (snd (pm_subscribe t cb pm)) =
    (if t' = t then pm_entries t pm @ [\<lparr> ce_alive = True, ce_id = pm_next_id pm, ce_cb = cb \<rparr>]
     else pm_entries t' pm)"
  by (simp add: pm_subscribe_def pm_entries_def Let_def)

lemma pm_entries_deactivate:
  "pm_entries t' (pm_deactivate t i pm) =
    (if t' = t then mark_dead i (pm_entries t pm) else pm_entries t' pm)"
  by (auto simp: pm_deactivate_def pm_entries_def split: option.split)

lemma pm_entries_cleanup: "pm_entries t (pm_cleanup pm) = filter ce_alive (pm_entries t pm)"
  by (simp add: pm_cleanup_def pm_entries_def split: option.split)

lemma pm_next_id_simps [simp]:
  "pm_next_id (snd (pm_subscribe t cb pm)) = pm_next_id pm + 1"
  "pm_next_id (pm_deactivate t i pm) = pm_next_id pm"
  "pm_next_id (pm_cleanup pm) = pm_next_id pm"
  by (simp_all add: pm_subscribe_def pm_deactivate_def pm_cleanup_def Let_def split: option.split)

lemma map_id_mark_dead [simp]: "map ce_id (mark_dead i es) = map ce_id es"
  by (induction es) simp_all

lemma id_mark_dead: "e \<in> set (mark_dead i es) \<Longrightarrow> ce_id e \<in> ce_id ` set es"
  by (metis image_set map_id_mark_dead image_eqI)

lemma pm_inv_subscribe:
  assumes "pm_inv pm" and "pm_next_id pm \<noteq> 0"
  shows "pm_inv (snd (pm_subscribe t cb pm))"
proof -
  have "pm_next_id pm \<notin> ce_id ` set (pm_entries t pm)"
    using assms(1) id_given_irrefl unfolding pm_inv_def by (metis image_iff)
  with assms show ?thesis
    by (auto simp: pm_inv_def pm_entries_subscribe id_given_new id_given_step)
qed

lemma pm_inv_deactivate: "pm_inv pm \<Longrightarrow> pm_inv (pm_deactivate t i pm)"
  by (auto simp: pm_inv_def pm_entries_deactivate dest!: id_mark_dead)

lemma pm_inv_cleanup: "pm_inv pm \<Longrightarrow> pm_inv (pm_cleanup pm)"
  by (auto simp: pm_inv_def pm_entries_cleanup distinct_map_filter)

text \<open>A subscription that is over: its id has been handed out and no live entry has it.\<close>

definition pm_over :: "u32 \<Rightarrow> u64 \<Rightarrow> 'cb packet_manager \<Rightarrow> bool" where
  "pm_over t i pm \<longleftrightarrow> id_given i (pm_next_id pm) \<and>
    (\<forall>e \<in> set (pm_entries t pm). ce_id e = i \<longrightarrow> \<not> ce_alive e)"

lemma mark_dead_alive: "e \<in> set (mark_dead j es) \<Longrightarrow> ce_alive e \<Longrightarrow> e \<in> set es"
  by (induction es) (auto split: if_splits)

lemma mark_dead_dead:
  "distinct (map ce_id es) \<Longrightarrow> e \<in> set (mark_dead i es) \<Longrightarrow> ce_id e = i \<Longrightarrow> \<not> ce_alive e"
proof (induction es)
  case (Cons a es)
  show ?case
  proof (cases "ce_id a = i")
    case True
    then have "e \<notin> set es" using Cons.prems(1,3) by (metis distinct.simps(2) image_eqI list.simps(9) set_map)
    then show ?thesis using True Cons.prems(2) by simp
  next
    case False
    then have "e \<in> set (mark_dead i es)" using Cons.prems(2,3) by auto
    then show ?thesis using Cons by simp
  qed
qed simp

lemma pm_over_deactivate:
  assumes "pm_inv pm" and "id_given i (pm_next_id pm)"
  shows "pm_over t i (pm_deactivate t i pm)"
proof -
  have "distinct (map ce_id (pm_entries t pm))" using assms(1) by (simp add: pm_inv_def)
  then show ?thesis
    using assms(2) mark_dead_dead by (simp add: pm_over_def pm_entries_deactivate) blast
qed

lemma pm_over_step:
  assumes "pm_step s e s'" and "pm_inv (ps_pm s)" and "pm_over t i (ps_pm s)"
  shows "pm_over t i (ps_pm s')"
  using assms
proof cases
  case (subscribe t' cb)
  have "id_given i (pm_next_id (ps_pm s) + 1)"
    using assms(3) subscribe by (intro id_given_step) (simp_all add: pm_over_def)
  moreover have "i \<noteq> pm_next_id (ps_pm s)" using assms(3) by (auto simp: pm_over_def)
  ultimately show ?thesis
    using assms(3) subscribe by (simp add: pm_over_def pm_entries_subscribe)
next
  case (reset t' j)
  with assms show ?thesis
    by (auto simp: pm_over_def pm_entries_deactivate dest: mark_dead_alive)
next
  case cleanup
  with assms show ?thesis by (auto simp: pm_over_def pm_entries_cleanup)
qed auto

lemma pm_inv_step: "pm_step s e s' \<Longrightarrow> pm_inv (ps_pm s) \<Longrightarrow> pm_inv (ps_pm s')"
  by (induction rule: pm_step.induct)
     (simp_all add: pm_inv_subscribe pm_inv_deactivate pm_inv_cleanup)

lemma pm_inv_run: "pm_run s es s' \<Longrightarrow> pm_inv (ps_pm s) \<Longrightarrow> pm_inv (ps_pm s')"
  by (induction rule: pm_run.induct) (auto dest: pm_inv_step)

lemma pm_inv_init: "pm_inv (ps_pm ps_init)"
  by (simp add: pm_inv_def ps_init_def pm_new_def pm_entries_def)

lemma visit_over: "pm_over t i pm \<Longrightarrow> pm_visit (t, i) pm \<noteq> Inr (Some f)"
  by (auto simp: pm_over_def pm_visit_def find_Some_iff split: option.split)

lemma calls_over_step:
  "pm_step s e s' \<Longrightarrow> pm_over t i (ps_pm s) \<Longrightarrow>
   count_list (ps_calls s') (t, i) = count_list (ps_calls s) (t, i)"
  by (induction rule: pm_step.induct) (auto dest: visit_over)

lemma calls_over_run:
  "pm_run s es s' \<Longrightarrow> pm_inv (ps_pm s) \<Longrightarrow> pm_over t i (ps_pm s) \<Longrightarrow>
   count_list (ps_calls s') (t, i) = count_list (ps_calls s) (t, i)"
proof (induction rule: pm_run.induct)
  case (run_cons s e t' es u)
  from run_cons.IH [OF pm_inv_step [OF run_cons.hyps(1) run_cons.prems(1)]
      pm_over_step [OF run_cons.hyps(1) run_cons.prems]]
  show ?case using calls_over_step [OF run_cons.hyps(1) run_cons.prems(2)] by simp
qed simp

section \<open>Dangling pointers\<close>

definition flight_ok :: "'cb pm_sys \<Rightarrow> bool" where
  "flight_ok s \<longleftrightarrow>
    (\<forall>n. \<forall>(t, i) \<in> set (ps_flight s n). i \<in> ce_id ` set (pm_entries t (ps_pm s))) \<and> \<not> ps_dangling s"

lemma visit_present:
  "i \<in> ce_id ` set (pm_entries t pm) \<Longrightarrow> pm_visit (t, i) pm \<noteq> Inl e"
  by (auto simp: pm_visit_def find_None_iff split: option.split)

lemma snapshot_present: "(t', i) \<in> set (pm_snapshot t pm) \<Longrightarrow> i \<in> ce_id ` set (pm_entries t' pm)"
  by (auto simp: pm_snapshot_def pm_entries_def split: option.splits)

lemma flight_ok_sub:
  assumes "flight_ok s" and "ps_pm s' = ps_pm s" and "\<not> ps_dangling s'"
    and "\<And>m. set (ps_flight s' m) \<subseteq> set (ps_flight s m)"
  shows "flight_ok s'"
  using assms(1,3,4) unfolding flight_ok_def assms(2) by blast

lemma flight_ok_step:
  assumes "pm_step s e s'" and "e \<noteq> Cleanup" and "flight_ok s"
  shows "flight_ok s'"
  using assms(1)
proof cases
  case (subscribe t cb)
  with assms show ?thesis by (fastforce simp: flight_ok_def pm_entries_subscribe)
next
  case (reset t i)
  have "ce_id ` set (mark_dead i es) = ce_id ` set es" for es :: "'a callback_entry list"
    by (metis image_set map_id_mark_dead)
  with reset assms show ?thesis by (fastforce simp: flight_ok_def pm_entries_deactivate)
next
  case (start n t)
  with assms show ?thesis by (fastforce simp: flight_ok_def dest: snapshot_present)
next
  case (visit_call n p ps f)
  with assms(3) show ?thesis by (intro flight_ok_sub [OF assms(3)]) (auto simp: flight_ok_def)
next
  case (visit_skip n p ps)
  with assms(3) show ?thesis by (intro flight_ok_sub [OF assms(3)]) (auto simp: flight_ok_def)
next
  case (visit_dangling n p ps e)
  then have "snd p \<in> ce_id ` set (pm_entries (fst p) (ps_pm s))"
    using assms(3) visit_dangling(3) unfolding flight_ok_def
    by (metis (mono_tags, lifting) case_prod_unfold list.set_intros(1))
  then show ?thesis using visit_dangling(4) visit_present [of "snd p" "fst p"] by (metis prod.collapse)
qed (use assms in simp)

lemma flight_ok_run: "pm_run s es s' \<Longrightarrow> Cleanup \<notin> set es \<Longrightarrow> flight_ok s \<Longrightarrow> flight_ok s'"
  by (induction rule: pm_run.induct) (auto dest: flight_ok_step)

section \<open>Dispatch alone\<close>

lemma find_distinct:
  "distinct (map f xs) \<Longrightarrow> x \<in> set xs \<Longrightarrow> find (\<lambda>y. f y = f x) xs = Some x"
  by (induction xs) auto

lemma visit_all_entries:
  assumes "distinct (map ce_id (pm_entries t pm))"
  shows "set es \<subseteq> set (pm_entries t pm) \<Longrightarrow>
    pm_visit_all (map (\<lambda>e. (t, ce_id e)) es) pm = Inr (map ce_cb (filter ce_alive es))"
proof (induction es)
  case (Cons e es)
  then have "find (\<lambda>x. ce_id x = ce_id e) (pm_entries t pm) = Some e"
    using assms by (intro find_distinct) simp_all
  with Cons show ?case by (simp add: pm_visit_def)
qed simp

lemma snapshot_entries: "pm_snapshot t pm = map (\<lambda>e. (t, ce_id e)) (pm_entries t pm)"
  by (simp add: pm_snapshot_def pm_entries_def split: option.split)

section \<open>Properties\<close>

text \<open>In every reachable state a dispatch that runs alone calls exactly the live callbacks of
  the packet's type, each once, in the order of subscription.\<close>

theorem dispatch_calls_live:
  assumes "pm_run ps_init es s"
  shows "pm_dispatch t (ps_pm s) = Inr (map ce_cb (filter ce_alive (pm_entries t (ps_pm s))))"
proof -
  have "distinct (map ce_id (pm_entries t (ps_pm s)))"
    using pm_inv_run [OF assms pm_inv_init] by (simp add: pm_inv_def)
  then show ?thesis by (simp add: pm_dispatch_def snapshot_entries visit_all_entries)
qed

theorem dispatch_calls_live_witness:
  "pm_dispatch 7 (snd (pm_subscribe 7 CHR ''a'' pm_new)) = Inr ''a''"
proof -
  have "pm_run ps_init [Subscribe 7 CHR ''a'']
      (ps_init \<lparr> ps_pm := snd (pm_subscribe 7 CHR ''a'' (ps_pm ps_init)) \<rparr>)"
    by (intro run_cons [OF subscribe run_nil]) (simp add: ps_init_def pm_new_def)
  from dispatch_calls_live [OF this, of 7] show ?thesis
    by (simp add: ps_init_def pm_entries_subscribe) (simp add: pm_entries_def pm_new_def)
qed

text \<open>Once a subscription has been reset, its callback is never called again, in any
  interleaving of subscriptions, resets, clean-ups and dispatches on any number of threads, those
  that took their snapshot before the reset included.\<close>

theorem no_call_after_reset:
  assumes "pm_run ps_init es s" and "id_given i (pm_next_id (ps_pm s))"
    and "pm_step s (Reset t i) s'" and "pm_run s' es' u"
  shows "count_list (ps_calls u) (t, i) = count_list (ps_calls s) (t, i)"
proof -
  have inv: "pm_inv (ps_pm s)" by (rule pm_inv_run [OF assms(1) pm_inv_init])
  have s': "ps_pm s' = pm_deactivate t i (ps_pm s)" "ps_calls s' = ps_calls s"
    using assms(3) by (auto elim: pm_stepE)
  show ?thesis
    using calls_over_run [OF assms(4)] pm_over_deactivate [OF inv assms(2)]
      pm_inv_deactivate [OF inv] s' by simp
qed

definition demo_subscribed :: "char pm_sys" where
  "demo_subscribed = ps_init \<lparr> ps_pm := snd (pm_subscribe 7 CHR ''a'' pm_new) \<rparr>"

definition demo_started :: "char pm_sys" where
  "demo_started = demo_subscribed \<lparr> ps_flight := (\<lambda>_. [])(0 := [(7, 1)]) \<rparr>"

lemma demo_run: "pm_run ps_init [Subscribe 7 CHR ''a'', Start 0 7] demo_started"
proof -
  have "pm_step ps_init (Subscribe 7 CHR ''a'') demo_subscribed"
    using subscribe [of ps_init 7 "CHR ''a''"] by (simp add: demo_subscribed_def ps_init_def pm_new_def)
  moreover have "pm_snapshot 7 (snd (pm_subscribe 7 CHR ''a'' pm_new)) = [(7, 1)]"
    by (simp add: pm_snapshot_def pm_subscribe_def pm_new_def pm_entries_def)
  then have "pm_step demo_subscribed (Start 0 7) demo_started"
    using start [of demo_subscribed 0 7]
    by (simp add: demo_started_def demo_subscribed_def ps_init_def)
  ultimately show ?thesis by (blast intro: run_cons run_nil)
qed

theorem no_call_after_reset_witness:
  "count_list (ps_calls (demo_started \<lparr> ps_pm := pm_deactivate 7 1 (ps_pm demo_started) \<rparr>)) (7, 1) =
   count_list (ps_calls demo_started) (7, 1)"
  by (rule no_call_after_reset [OF demo_run _ reset run_nil])
     (simp add: demo_started_def demo_subscribed_def pm_new_def id_given_def)

text \<open>C25: as long as nobody calls \<open>Cleanup\<close>, no dispatch follows a dangling pointer to an erased
  entry.\<close>

theorem dispatch_memory_safe:
  assumes "pm_run ps_init es s" and "Cleanup \<notin> set es"
  shows "\<not> ps_dangling s"
  using flight_ok_run [OF assms] by (simp add: flight_ok_def ps_init_def)

theorem dispatch_memory_safe_witness: "\<not> ps_dangling demo_started"
  by (rule dispatch_memory_safe [OF demo_run]) simp

text \<open>\<open>Cleanup\<close> while a dispatch is in progress can free an entry of its snapshot, and the
  dispatch then follows a dangling pointer.\<close>

theorem cleanup_can_dangle:
  "\<exists>es s. pm_run (ps_init :: char pm_sys) es s \<and> ps_dangling s"
proof -
  let ?a = demo_started
  let ?b = "?a \<lparr> ps_pm := pm_deactivate 7 1 (ps_pm ?a) \<rparr>"
  let ?c = "?b \<lparr> ps_pm := pm_cleanup (ps_pm ?b) \<rparr>"
  let ?d = "?c \<lparr> ps_flight := (ps_flight ?c)(0 := []), ps_dangling := True \<rparr>"
  have "pm_visit (7, 1) (ps_pm ?c) = Inl (UB Out_Of_Bounds)"
    by (simp add: pm_visit_def pm_entries_cleanup pm_entries_deactivate demo_started_def
        demo_subscribed_def pm_entries_subscribe del: snd_conv)
       (simp add: pm_entries_def pm_new_def)
  then have "pm_step ?c (Visit 0) ?d"
    by (intro visit_dangling) (simp add: demo_started_def)
  then have tail: "pm_run ?a [Reset 7 1, Cleanup, Visit 0] ?d"
    by (intro run_cons [OF reset] run_cons [OF cleanup] run_cons [OF _ run_nil])
  have append: "pm_run s es t \<Longrightarrow> pm_run t fs u \<Longrightarrow> pm_run s (es @ fs) u"
    for s t u :: "char pm_sys" and es fs
    by (induction rule: pm_run.induct) (auto intro: run_cons)
  show ?thesis using append [OF demo_run tail] by fastforce
qed

end
