(* ===== verification/Spec2Isabelle.thy ===== *)
theory Spec2Isabelle
  imports Command_Capture Unity_Bridge God_Start Proxy_Routing Cache_Database Entity_List Shape_Manifests Naive_Handoff Http_Receiver Bootstrap Database_Snapshot Client_Link Web_Views Bit_Codec Interlink_Invariant Packet_Manager Server_Registry Network_Manifest Entity_Ledger
    Event_System Watchdog Handoff_Network
begin

text \<open>
  A verification library for AtlasNet: the C++ code of the nodes (\<open>AtlasNet/lib/Native\<close>), which share
  a world among shards, connect to each other and to the clients, and keep their common state in a
  database.

  The program. A watchdog computes a heuristic that cuts the world into bounds and stores it in the
  database; shards claim bounds; proxies accept clients and look up the shard responsible for a
  position. The nodes find each other in a registry, report their health, connect through the
  interlink and exchange packets, which are encoded by a byte writer and decoded by a byte reader and
  dispatched to subscribers.

  The theories, from the bottom up, and what they model and show:

  \<^item> \<open>Prelude\<close>: machine integers, the ways a C++ call leaves the normal path (exceptions, failed
    assertions, undefined behaviour as values), the error and state monads.
  \<^item> \<open>Byte_Writer\<close>, \<open>Byte_Reader\<close> (\<open>Global/Serialize\<close>): buffer, cursor and bit accumulator; every
    operation. \<open>Byte_Codec\<close> states what a writer and a reader of the same value promise each other as
    the locale \<open>codec\<close>, interpreted for every codec of the development; round trips of varints and
    strings. \<open>Byte_Safety\<close>: no read leaves the buffer, and exactly which varint is undefined.
    \<open>Bit_Codec\<close>: round trip of the bit packer.
  \<^item> \<open>Float32\<close>: IEEE single precision on bit patterns, as far as the boxes need it. \<open>Aabb\<close>
    (\<open>Global/Types/AABB.hpp\<close>): boxes, exactness of intersection and expansion.
  \<^item> \<open>Network_Identity\<close>, \<open>Identity_Equality\<close>, \<open>Entity_Data\<close> (\<open>Network\<close>, \<open>Client\<close>, \<open>Entity\<close>): identities
    and when they compare equal, addresses, entities, telemetry, with their codecs.
  \<^item> \<open>Packets\<close>, \<open>Packet_Codec\<close> (\<open>Network/Packet/Packet\<close>, the packets of \<open>Entity/Packet\<close> and others): packet
    classes, type ids, registry and \<open>CreateFromBytes\<close>; round trip, truncation, hostile bytes.
    \<open>Packet_Manager\<close> (\<open>PacketManager.hpp\<close>): subscription and dispatch as a step relation over the slots a
    snapshot points to; which callbacks run and when a pointer dangles.
  \<^item> \<open>Grid_Heuristic\<close> (\<open>Heuristic\<close>): the grid of four cells partitions its box.
  \<^item> \<open>Redis_Store\<close> (\<open>Database/Redis/RedisConnection\<close>): the commands as a record, their documented laws as
    the locale \<open>redis\<close>, an in-memory store that satisfies them. On it \<open>Health_Manifest\<close>,
    \<open>Server_Registry\<close> (\<open>Interlink/Database\<close>) and \<open>Client_Manifest\<close> (\<open>Client\<close>): every operation as a change
    of the tables, and what a later lookup or check answers.
  \<^item> \<open>Json_Store\<close>: the JSON commands and values as a record, their laws as the locale \<open>json_store\<close>, an
    instance. \<open>Heuristic_Manifest\<close> (\<open>Heuristic/Database\<close>) models the stored heuristic and the pending
    and claimed bounds; \<open>Bound_Claims\<close> abstracts the document to a queue of pending bounds and a list
    of claims and shows that the operations implement those on the abstract state: bounds are handed
    out in order, each once, and positions are resolved to the owner of their cell.
  \<^item> \<open>Interlink\<close> (\<open>Interlink/Interlink\<close>, \<open>Network/Connection\<close>): the table of connections, sending, queueing
    and the callbacks. \<open>Interlink_Delivery\<close>: a packet is handed to the library when its target is connected
    and kept otherwise, the queue is delivered in order, clients get identities, what a second connection of
    one node leads to. \<open>Interlink_Invariant\<close>: the reachable states, and that handles stay distinct, but for
    those that are not initialised. \<open>Network_Manifest\<close> (\<open>Interlink/Telemetry\<close>): the telemetry rows,
    and what reading gives back; the texts they are made of are in \<open>Text_Numbers\<close>.
  \<^item> \<open>Event_System\<close> (\<open>Events\<close>): registration, subscription, dispatch; several nodes as a step relation over
    the published messages: every dispatched event reaches every subscriber, unchanged.
  \<^item> \<open>Entity_Ledger\<close> (\<open>Heuristic/BoundLeaser\<close>, \<open>Entity/EntityLedger\<close>, \<open>Entity/TransferCoordinator\<close>): a shard's
    bound, its entities and the transfers it collects, with the invariant of the reachable states.
  \<^item> \<open>Docker_Client\<close> (\<open>Docker/DockerIO\<close>): requests and lookups with their exceptions caught; one search
    over two lists as the reference. \<open>Watchdog\<close> (\<open>runtime/watchdog\<close>): publishing, scaling, shutdown; with the
    claims of the shards the whole way from the published grid to the owner of a position.
  \<^item> \<open>Redis_Async\<close> (\<open>Database/Redis\<close>): the commands that answer through futures and callbacks, the clock of
    the server, and the opening of connections: the retries are bounded, and the attempt that decides.
    \<open>Database_Snapshot\<close> (\<open>Web/src/DatabaseSnapshot\<close>): the scan over the keys ends with exactly the keys the
    server reports, and there is one row for each but the empty key, whatever command throws.
  \<^item> \<open>Server_Process\<close> (\<open>API/Server\<close>, \<open>runtime/shard\<close>, \<open>runtime/proxy\<close>, \<open>Handshake\<close>, \<open>Singleton\<close>): how the
    processes put the components together; the shard executable cannot start; a client that connects
    gets a place and the shard whose bound contains it. \<open>Client_Link\<close> (\<open>Client/ClientLink\<close>): the game
    client's side, up to the packet with its identity that a proxy sends.
  \<^item> \<open>Web_Views\<close> (\<open>Web/src\<close>): the entities of all shards, asked for and counted down as a step relation
    over two threads: what the result has of each shard, and that the call returns when all of them answer
    readably and never otherwise; the drawing of the bounds.
  \<^item> \<open>Text_Macros\<close> (\<open>Global/Misc/String_utils.hpp\<close>): the expansion of macros, ended after one pass when the
    values are plain. \<open>Bootstrap_Settings\<close>, \<open>Bootstrap\<close> (\<open>start/AtlasNet/src\<close>): the start program: what it
    reads, when it asks for more rights, the port of the swarm, the certificate, the targets of the image
    build, and that a failing build of the images leaves the stack undeployed.
    \<open>Command_Capture\<close> (\<open>CommandTools.hpp\<close>): how the texts of a child are read from its pipes, completely and in order.
  \<^item> \<open>Unity_Bridge\<close> (\<open>API/Server/Unity\<close>): the text of an entity, the address it is sent to, the handles of the HTTP
    library, and the bridges to the libraries of the servers and the clients.
  \<^item> \<open>Partition_Shapes\<close> (\<open>Global/Misc/GeometryUtils.hpp\<close>, the parked \<open>Native-exc/exc\<close> shapes, quadtree and
    heuristic, and \<open>watchdog/exc/PartitionShapeCache.hpp\<close>): the quadtree covers its square and balances the
    entities; the cache of the watchdog is defined and sound for every point.
  \<^item> \<open>Shape_Manifests\<close> (\<open>InternalDB/ShapeManifest.hpp\<close>, the parked \<open>Shape.cpp\<close> and \<open>GridCellManifest.hpp\<close>): shapes and
    cells stored as text are read back; a text without one of the sections makes the parser of the cells loop
    for ever. \<open>Float_Order\<close>, \<open>Text_Floats\<close> and \<open>Text_Search\<close> hold what they need of the standard library.
  \<^item> \<open>Naive_Handoff\<close> (\<open>EntityHandoff/NaiveHandoff/NH_EntityAuthorityManager\<close>): the first version of the handoff, as a
    step relation of any number of shards on one database: at most one shard acts at a time, and a sender
    drops its entities before the handoff is due.
  \<^item> The parked control plane (the \<open>exc\<close> directories of \<open>Native-exc\<close> and of the runtimes). \<open>Io_Actions\<close>: actions
    that may throw, and their laws. \<open>Entity_Outliers\<close> (\<open>EntityManifest\<close>, \<open>PartitionEntityManifest\<close>): the entities
    that left a partition, kept in the database; the operations implement a list of entities, in the locales
    \<open>entity_ids\<close> and \<open>outlier_store\<close>. \<open>God_Outliers\<close>, \<open>God_Start\<close> (\<open>God.Shapes.cpp\<close>, \<open>God.Messages.cpp\<close>,
    \<open>WatchDog.cpp\<close> of \<open>watchdog/exc\<close>): the watchdog sorts the outliers by the shapes, tells the shards, computes
    and stores shapes, and its rounds; after a fresh start it never gets to a shape. \<open>Shard_Partition\<close>
    (\<open>shard/exc/Partition\<close>): the shard's side, with what becomes of an entity that is moved. \<open>Proxy_Routing\<close>
    (\<open>ProxyRegistry\<close>, \<open>proxy/exc/Demigod\<close>): the load of the proxies, and the way of a client's messages.
    \<open>Cache_Database\<close> (\<open>RedisCacheDatabase\<close>): the connection attempts, and commands that do not throw.
    \<open>Entity_List\<close> (\<open>EntityList.hpp\<close>): the box of a list of entities and its codec.
  \<^item> \<open>Http_Receiver\<close> (\<open>API/Server/Unity/EntityJsonReciever\<close>): the listener for entities in JSON; the request
    it reads does not depend on the pieces in which it arrives.
  \<^item> The parked handoff of entities between shards (\<open>Native-exc/EntityHandoff\<close>), with the entity type of its
    time. \<open>Transfer_Manifest\<close>, \<open>Authority_Tracker\<close> (\<open>Telemetry\<close>, \<open>SH_EntityAuthorityTracker\<close>): the rows in
    the database, which a handoff that is adopted and committed leaves clean unless its holders expire
    before, and which shard passes which entity. \<open>Debug_Simulators\<close> (\<open>DebugEntities\<close>): the two simulations, with the locale \<open>simulator\<close> for what the
    handoff relies on. \<open>Handoff_Lease\<close>, \<open>Handoff_Election\<close>: leases exclude the other end, one owner is elected.
    \<open>Handoff_Mailbox\<close>, \<open>Handoff_Runtime\<close>: planner, mailbox, packets, the tick of a shard and the facade.
    \<open>Handoff_Network\<close>: shards and packets in flight as a step relation, with lost packets and seeding ticks
    as steps of their own kinds; without seeding no entity is doubled, without lost packets none is lost while
    the ticks are in time, and how a late one loses an entity.

  Correspondence. A class is a record of its members, an enumeration a datatype or, where the wire
  carries any value, the word; an operation is a function from the old state to the new one or to the
  exception, named after the method. Loops over containers are recursive functions; the varint loops
  carry a measure (the remaining bits or bytes), the retries of a connection one in the attempts. The scan
  of the database ends only when the server says so: it is a partial function that may yield \<open>None\<close>, and
  its theorems say when it does not. The sleeping main loops of the processes take the number of turns
  as an argument, which no result depends on. What the code takes from
  outside is a parameter: the database server, the JSON library, the socket library, base 64, printing
  of UUIDs and floating point numbers, clocks, random identifiers. Theorems name what they assume of
  these; every such assumption is met by an instance in the development.

  Bounds. Sizes are natural numbers below the 64-bit limits that the theorems state where they matter;
  additions of \<open>size_t\<close> in the reader wrap. Integers of fixed width are words.

  Not modelled: log output and waiting; the failure of an allocation; the payload of NaN; the state
  left by a call that throws; data races between the threads (operations are atomic steps);
  uninitialised members, for which a fixed value or, where one is read, a parameter stands; the expiry of
  keys, except where a property depends on it (the holders of a handoff). Each property names in its text
  what it assumes, among it that floating point coordinates in texts are those the six decimals give
  exactly, and that the registry does not change during a run of the naive handoff. The class of the
  entities and the one of the link identifiers that the parked control plane uses are not in the
  repository: they are parameters with the members the sources name, and the default of the send flag is
  taken from the declaration that is commented out. The parked packets and messages of the interlink, which
  the present ones replace, the examples, the texts of the Docker files, the Java binding, the JavaScript of the front end and the crash handler are left out.
\<close>

end
